(* ===== verification/Prelude.thy ===== *)
theory Prelude imports Main begin

text \<open>
  Shared vocabulary of the development: Python text as lists of code points, results of code
  that can raise, points in time, and tables of rows as SQLAlchemy queries see them. The
  collections \<open>result_simps\<close> and \<open>table_simps\<close> carry the automation the component theories use.
\<close>

named_theorems result_simps \<open>equations that take results of raising code apart\<close>
named_theorems table_simps \<open>equations for lookups in updated tables\<close>

section \<open>Text\<close>

text \<open>
  A Python \<open>str\<close> that enters from outside (a topic, a title, a Session id) is the list of its
  code points, because the code measures it (\<open>len\<close>, UTF-8 size, regular expressions). Closed
  vocabulary of the program itself (roles, capabilities, statuses) is a HOL \<open>string\<close> and is
  only ever compared. \<open>lit\<close> reads an ASCII literal as code points.
\<close>

type_synonym pystr = "nat list"

abbreviation lit :: "string \<Rightarrow> pystr" where
  "lit s \<equiv> map of_char s"

text \<open>\<open>str.isspace\<close> on one code point, the characters \<open>str.strip\<close> removes.\<close>

definition is_space :: "nat \<Rightarrow> bool" where
  "is_space c \<longleftrightarrow> (9 \<le> c \<and> c \<le> 13) \<or> (28 \<le> c \<and> c \<le> 32) \<or> c = 133 \<or> c = 160 \<or> c = 5760
     \<or> (8192 \<le> c \<and> c \<le> 8202) \<or> c = 8232 \<or> c = 8233 \<or> c = 8239 \<or> c = 8287 \<or> c = 12288"

definition strip :: "pystr \<Rightarrow> pystr" where
  "strip s = rev (dropWhile is_space (rev (dropWhile is_space s)))"

text \<open>The number of bytes \<open>str.encode("utf-8")\<close> gives; a surrogate raises \<open>UnicodeError\<close>.\<close>

definition utf8_size1 :: "nat \<Rightarrow> nat option" where
  "utf8_size1 c =
     (if c < 128 then Some 1
      else if c < 2048 then Some 2
      else if 55296 \<le> c \<and> c \<le> 57343 then None
      else if c < 65536 then Some 3
      else Some 4)"

fun utf8_size :: "pystr \<Rightarrow> nat option" where
  "utf8_size [] = Some 0"
| "utf8_size (c # cs) =
     (case (utf8_size1 c, utf8_size cs) of
        (Some n, Some m) \<Rightarrow> Some (n + m)
      | _ \<Rightarrow> None)"

lemma utf8_size_append:
  "utf8_size (xs @ ys) =
     (case (utf8_size xs, utf8_size ys) of (Some n, Some m) \<Rightarrow> Some (n + m) | _ \<Rightarrow> None)"
  by (induction xs) (auto split: option.splits)

lemma utf8_size_ge_length: "utf8_size s = Some n \<Longrightarrow> length s \<le> n"
  by (induction s arbitrary: n)
     (auto simp: utf8_size1_def split: option.splits if_splits)

lemma dropWhile_all_iff: "(\<forall>x\<in>set (dropWhile P xs). P x) \<longleftrightarrow> (\<forall>x\<in>set xs. P x)"
  by (induction xs) auto

lemma strip_eq_Nil [simp]: "strip s = [] \<longleftrightarrow> (\<forall>c\<in>set s. is_space c)"
  by (simp add: strip_def dropWhile_all_iff)

text \<open>\<open>str.split(sep)\<close> for a one-character separator, and its inverse \<open>sep.join\<close>.\<close>

fun split_on :: "nat \<Rightarrow> pystr \<Rightarrow> pystr list" where
  "split_on c [] = [[]]"
| "split_on c (x # xs) =
     (if x = c then [] # split_on c xs
      else (case split_on c xs of [] \<Rightarrow> [[x]] | p # ps \<Rightarrow> (x # p) # ps))"

fun join_with :: "nat \<Rightarrow> pystr list \<Rightarrow> pystr" where
  "join_with c [] = []"
| "join_with c [p] = p"
| "join_with c (p # q # ps) = p @ c # join_with c (q # ps)"

lemma split_on_nonempty [simp]: "split_on c xs \<noteq> []"
  by (cases xs) (auto split: list.splits)

lemma join_with_Cons: "ps \<noteq> [] \<Longrightarrow> join_with c (p # ps) = p @ c # join_with c ps"
  by (cases ps) auto

lemma join_split: "join_with c (split_on c xs) = xs"
proof (induction xs)
  case (Cons x xs)
  obtain p ps where ps: "split_on c xs = p # ps"
    by (cases "split_on c xs") auto
  show ?case
  proof (cases "x = c")
    case True
    then show ?thesis using Cons by (simp add: join_with_Cons)
  next
    case False
    then show ?thesis using Cons ps by (cases ps) auto
  qed
qed simp

lemma split_on_no_sep: "c \<notin> set p \<Longrightarrow> split_on c p = [p]"
  by (induction p) auto

lemma split_on_append: "c \<notin> set p \<Longrightarrow> split_on c (p @ c # xs) = p # split_on c xs"
  by (induction p) auto

lemma split_on_parts: "p \<in> set (split_on c xs) \<Longrightarrow> c \<notin> set p"
proof (induction xs arbitrary: p)
  case (Cons x xs)
  obtain q qs where q: "split_on c xs = q # qs"
    by (cases "split_on c xs") auto
  have "c \<notin> set q" and qs: "\<forall>r\<in>set qs. c \<notin> set r"
    using Cons.IH q by auto
  then show ?case
    using Cons.prems q by (auto split: if_splits)
qed simp

section \<open>Decimal numerals\<close>

text \<open>\<open>str(n)\<close> of a Python \<open>int\<close>.\<close>

fun digits_of :: "nat \<Rightarrow> pystr" where
  "digits_of n = (if n < 10 then [48 + n] else digits_of (n div 10) @ [48 + n mod 10])"

declare digits_of.simps [simp del]

definition str_of_int :: "int \<Rightarrow> pystr" where
  "str_of_int i = (if i < 0 then 45 # digits_of (nat (- i)) else digits_of (nat i))"

lemma digits_of_chars: "c \<in> set (digits_of n) \<Longrightarrow> 48 \<le> c \<and> c \<le> 57"
proof (induction n rule: digits_of.induct)
  case (1 n)
  show ?case
  proof (cases "n < 10")
    case True
    then show ?thesis using "1.prems" by (simp add: digits_of.simps [of n])
  next
    case False
    have m: "n mod 10 < 10" by simp
    show ?thesis
      using "1.prems" "1.IH"[OF False] False m by (auto simp: digits_of.simps [of n])
  qed
qed

lemma digits_of_nonempty [simp]: "digits_of n \<noteq> []"
  by (simp add: digits_of.simps [of n])

lemma length_digits_of: "n < 10 ^ k \<Longrightarrow> 0 < k \<Longrightarrow> length (digits_of n) \<le> k"
proof (induction n arbitrary: k rule: digits_of.induct)
  case (1 n)
  show ?case
  proof (cases "n < 10")
    case True
    then show ?thesis using "1.prems" by (simp add: digits_of.simps [of n])
  next
    case False
    then obtain j where k: "k = Suc j" and j: "0 < j"
      using "1.prems" by (cases k; cases "k = 1") auto
    have "n div 10 < 10 ^ j"
      using "1.prems"(1) k by (simp add: less_mult_imp_div_less mult.commute)
    then have "length (digits_of (n div 10)) \<le> j"
      using "1.IH"[OF False] j by blast
    then show ?thesis using False k by (simp add: digits_of.simps [of n])
  qed
qed

lemma foldl_digits_of: "foldl (\<lambda>a c. 10 * a + (c - 48)) 0 (digits_of n) = n"
proof (induction n rule: digits_of.induct)
  case (1 n)
  then show ?case
    by (cases "n < 10") (simp_all add: digits_of.simps [of n])
qed

lemma digits_of_inject [simp]: "digits_of m = digits_of n \<longleftrightarrow> m = n"
  by (metis foldl_digits_of)

lemma str_of_int_chars: "c \<in> set (str_of_int i) \<Longrightarrow> c = 45 \<or> (48 \<le> c \<and> c \<le> 57)"
  by (auto simp: str_of_int_def split: if_splits dest: digits_of_chars)

lemma str_of_int_nonempty [simp]: "str_of_int i \<noteq> []"
  by (simp add: str_of_int_def)

lemma str_of_int_inject [simp]: "str_of_int i = str_of_int j \<longleftrightarrow> i = j"
proof
  assume h: "str_of_int i = str_of_int j"
  have d: "digits_of m \<noteq> 45 # cs" for m cs
    using digits_of_chars[of 45 m] by auto
  have d': "45 # cs \<noteq> digits_of m" for m cs
    using d[of m cs] by auto
  show "i = j"
    using h d d' by (auto simp: str_of_int_def split: if_splits)
qed simp

section \<open>Reading decimal numerals\<close>

text \<open>
  \<open>int(raw)\<close> on ASCII text: surrounding whitespace is
  stripped, one sign is allowed, single underscores may separate digits.
\<close>

definition is_digit :: "nat \<Rightarrow> bool" where
  "is_digit c \<longleftrightarrow> 48 \<le> c \<and> c \<le> 57"

fun parse_digits :: "nat \<Rightarrow> pystr \<Rightarrow> nat option" where
  "parse_digits acc [] = Some acc"
| "parse_digits acc (c # cs) =
     (if is_digit c then parse_digits (10 * acc + (c - 48)) cs
      else if c = 95
      then (case cs of [] \<Rightarrow> None | d # _ \<Rightarrow> if is_digit d then parse_digits acc cs else None)
      else None)"

definition parse_nat :: "pystr \<Rightarrow> nat option" where
  "parse_nat s = (case s of [] \<Rightarrow> None | c # _ \<Rightarrow> if is_digit c then parse_digits 0 s else None)"

definition py_int :: "pystr \<Rightarrow> int option" where
  "py_int raw =
     (case strip raw of
        [] \<Rightarrow> None
      | c # cs \<Rightarrow> if c = 45 then map_option (\<lambda>n. - int n) (parse_nat cs)
                  else if c = 43 then map_option int (parse_nat cs)
                  else map_option int (parse_nat (c # cs)))"

lemma parse_digits_all:
  "\<forall>c\<in>set s. is_digit c \<Longrightarrow> parse_digits acc s = Some (foldl (\<lambda>a c. 10 * a + (c - 48)) acc s)"
  by (induction s arbitrary: acc) auto

lemma digits_of_are_digits: "\<forall>c\<in>set (digits_of n). is_digit c"
  using digits_of_chars by (auto simp: is_digit_def)

lemma parse_nat_digits_of: "parse_nat (digits_of n) = Some n"
proof -
  obtain c cs where d: "digits_of n = c # cs"
    using digits_of_nonempty by (cases "digits_of n") auto
  then have "is_digit c" using digits_of_are_digits[of n] by simp
  then show ?thesis
    using parse_digits_all[OF digits_of_are_digits[of n], of 0] foldl_digits_of[of n] d
    by (simp add: parse_nat_def)
qed

lemma strip_no_space: "\<forall>c\<in>set s. \<not> is_space c \<Longrightarrow> strip s = s"
proof -
  have d: "\<forall>c\<in>set t. \<not> is_space c \<Longrightarrow> dropWhile is_space t = t" for t
    by (cases t) auto
  assume "\<forall>c\<in>set s. \<not> is_space c"
  then show ?thesis by (simp add: strip_def d)
qed

lemma is_digit_not_space: "is_digit c \<Longrightarrow> \<not> is_space c"
  by (auto simp: is_digit_def is_space_def)

lemma py_int_str_of_int: "0 \<le> i \<Longrightarrow> py_int (str_of_int i) = Some i"
proof -
  assume i: "0 \<le> i"
  obtain c cs where d: "digits_of (nat i) = c # cs"
    using digits_of_nonempty by (cases "digits_of (nat i)") auto
  have "strip (digits_of (nat i)) = digits_of (nat i)"
    using digits_of_are_digits is_digit_not_space by (intro strip_no_space) blast
  moreover have "is_digit c" using digits_of_are_digits[of "nat i"] d by simp
  ultimately show ?thesis
    using i parse_nat_digits_of[of "nat i"] d
    by (auto simp: py_int_def str_of_int_def is_digit_def)
qed

section \<open>Dynamically typed values\<close>

text \<open>
  A Python value as code with \<open>isinstance\<close> and \<open>type(x) is\<close> checks sees it: what a JSON request
  body or a tool call carries. A float is its \<open>repr\<close>; a dict is its items in insertion order;
  \<open>POther\<close> is any other object.
\<close>

datatype pyval =
    PNone
  | PBool bool
  | PInt int
  | PFloat pystr
  | PStr pystr
  | PList "pyval list"
  | PDict "(pyval \<times> pyval) list"
  | POther

text \<open>\<open>d.get(key)\<close>, with \<open>None\<close> for a missing key.\<close>

fun dict_get :: "(pyval \<times> pyval) list \<Rightarrow> pystr \<Rightarrow> pyval option" where
  "dict_get [] k = None"
| "dict_get ((k', v) # kvs) k = (if k' = PStr k then Some v else dict_get kvs k)"

section \<open>Results of code that can raise\<close>

text \<open>A raising function returns a sum: \<open>Inl\<close> the exception, \<open>Inr\<close> the value.\<close>

fun bind_result :: "'e + 'a \<Rightarrow> ('a \<Rightarrow> 'e + 'b) \<Rightarrow> 'e + 'b" where
  "bind_result (Inl e) f = Inl e"
| "bind_result (Inr x) f = f x"

lemma bind_result_eq_Inr [result_simps]:
  "bind_result r f = Inr y \<longleftrightarrow> (\<exists>x. r = Inr x \<and> f x = Inr y)"
  by (cases r) auto

lemma bind_result_eq_Inl [result_simps]:
  "bind_result r f = Inl e \<longleftrightarrow> r = Inl e \<or> (\<exists>x. r = Inr x \<and> f x = Inl e)"
  by (cases r) auto

lemma bind_result_cong [fundef_cong]:
  "r = r' \<Longrightarrow> (\<And>x. r' = Inr x \<Longrightarrow> f x = g x) \<Longrightarrow> bind_result r f = bind_result r' g"
  by (cases r') auto

text \<open>\<open>if not ok: raise e\<close>.\<close>

definition require :: "bool \<Rightarrow> 'e \<Rightarrow> 'e + unit" where
  "require ok e = (if ok then Inr () else Inl e)"

lemma require_eq_Inr [result_simps]: "require ok e = Inr u \<longleftrightarrow> ok"
  by (simp add: require_def)

lemma require_eq_Inl [result_simps]: "require ok e = Inl e' \<longleftrightarrow> \<not> ok \<and> e' = e"
  by (auto simp: require_def)

lemma require_simps [simp]: "require True e = Inr ()" "require False e = Inl e"
  by (simp_all add: require_def)

text \<open>A comprehension whose element expression can raise stops at the first exception.\<close>

fun map_result :: "('a \<Rightarrow> 'e + 'b) \<Rightarrow> 'a list \<Rightarrow> 'e + 'b list" where
  "map_result f [] = Inr []"
| "map_result f (x # xs) =
     bind_result (f x) (\<lambda>y. bind_result (map_result f xs) (\<lambda>ys. Inr (y # ys)))"

lemma map_result_cong [fundef_cong]:
  "xs = ys \<Longrightarrow> (\<And>x. x \<in> set ys \<Longrightarrow> f x = g x) \<Longrightarrow> map_result f xs = map_result g ys"
  by (induction ys arbitrary: xs) auto

lemma map_result_Inr_set: "map_result f xs = Inr ys \<Longrightarrow> x \<in> set xs \<Longrightarrow> \<exists>y\<in>set ys. f x = Inr y"
  by (induction xs arbitrary: ys) (auto simp: result_simps)

lemma map_result_length: "map_result f xs = Inr ys \<Longrightarrow> length ys = length xs"
  by (induction xs arbitrary: ys) (auto simp: result_simps)

section \<open>Time\<close>

text \<open>A \<open>datetime\<close> in UTC is a number of microseconds; \<open>timedelta(seconds=n)\<close> is \<open>seconds n\<close>.\<close>

type_synonym instant = int

definition seconds :: "int \<Rightarrow> int" where
  "seconds n = n * 1000000"

lemma seconds_mono [simp]: "seconds m \<le> seconds n \<longleftrightarrow> m \<le> n" "seconds m < seconds n \<longleftrightarrow> m < n"
  by (simp_all add: seconds_def)

lemma seconds_pos [simp]: "0 < seconds n \<longleftrightarrow> 0 < n" "0 \<le> seconds n \<longleftrightarrow> 0 \<le> n"
  by (simp_all add: seconds_def)

section \<open>Tables\<close>

text \<open>
  A table is the list of its rows. \<open>session.get(T, k)\<close> and
  \<open>query(T).filter(T.key == k).one_or_none()\<close> on a primary or unique key read the first row
  with that key; an \<open>UPDATE ... WHERE key = k\<close> changes the rows with that key in place.
\<close>

fun row_by :: "('r \<Rightarrow> 'k) \<Rightarrow> 'k \<Rightarrow> 'r list \<Rightarrow> 'r option" where
  "row_by key k [] = None"
| "row_by key k (r # rs) = (if key r = k then Some r else row_by key k rs)"

definition update_where :: "('r \<Rightarrow> bool) \<Rightarrow> ('r \<Rightarrow> 'r) \<Rightarrow> 'r list \<Rightarrow> 'r list" where
  "update_where P f rs = map (\<lambda>r. if P r then f r else r) rs"

definition rows_matching :: "('r \<Rightarrow> bool) \<Rightarrow> 'r list \<Rightarrow> nat" where
  "rows_matching P rs = length (filter P rs)"

lemma row_by_Some_iff_key: "row_by key k rs = Some r \<Longrightarrow> key r = k \<and> r \<in> set rs"
  by (induction rs) (auto split: if_splits)

lemma row_by_None [table_simps]: "row_by key k rs = None \<longleftrightarrow> k \<notin> key ` set rs"
  by (induction rs) auto

lemma row_by_append [table_simps]:
  "row_by key k (rs @ ss) =
     (case row_by key k rs of None \<Rightarrow> row_by key k ss | Some r \<Rightarrow> Some r)"
  by (induction rs) auto

lemma row_by_distinct:
  "distinct (map key rs) \<Longrightarrow> r \<in> set rs \<Longrightarrow> row_by key (key r) rs = Some r"
  by (induction rs) (auto simp: image_iff)

lemma update_where_simps [simp]:
  "update_where P f [] = []"
  "update_where P f (r # rs) = (if P r then f r else r) # update_where P f rs"
  by (simp_all add: update_where_def)

lemma length_update_where [simp]: "length (update_where P f rs) = length rs"
  by (simp add: update_where_def)

lemma map_update_where: "(\<And>r. P r \<Longrightarrow> g (f r) = g r) \<Longrightarrow> map g (update_where P f rs) = map g rs"
  by (induction rs) auto

lemma set_update_where:
  "x \<in> set (update_where P f rs) \<Longrightarrow> x \<in> set rs \<or> (\<exists>r\<in>set rs. P r \<and> x = f r)"
  by (auto simp: update_where_def)

lemma row_by_update_match:
  "(\<And>r. P r \<Longrightarrow> key (f r) = key r) \<Longrightarrow>
     row_by key k (update_where P f rs) = map_option (\<lambda>r. if P r then f r else r) (row_by key k rs)"
  by (induction rs) auto

lemma row_by_update_key:
  "(\<And>r. key (f r) = key r) \<Longrightarrow>
     row_by key k (update_where P f rs) = map_option (\<lambda>r. if P r then f r else r) (row_by key k rs)"
  by (induction rs) auto

lemma row_by_update_same [table_simps]:
  "(\<And>r. key r = k \<Longrightarrow> key (f r) = k) \<Longrightarrow>
     row_by key k (update_where (\<lambda>r. key r = k) f rs) = map_option f (row_by key k rs)"
  by (induction rs) auto

lemma row_by_update_other:
  "(\<And>r. P r \<Longrightarrow> key (f r) = key r) \<Longrightarrow> (\<And>r. P r \<Longrightarrow> key r \<noteq> k) \<Longrightarrow>
     row_by key k (update_where P f rs) = row_by key k rs"
  by (induction rs) auto

lemma update_where_none: "(\<And>r. r \<in> set rs \<Longrightarrow> \<not> P r) \<Longrightarrow> update_where P f rs = rs"
  by (induction rs) auto

end
