(* ===== verification/Principal.thy ===== *)
theory Principal imports Prelude begin

text \<open>
  Models \<open>src/brains/authz/principal.py\<close>: the Org roles and their ranks, the capabilities and
  the minimum role of each, and the \<open>Principal\<close> a request acts as, with its checks. Below the
  model, \<open>org_role\<close> is the abstract role order that \<open>role_rank\<close> implements.
\<close>

section \<open>Roles and capabilities\<close>

definition ORG_ROLES :: "string list" where
  "ORG_ROLES = [''member'', ''admin'', ''owner'']"

definition CAP_ORG_READ :: string where "CAP_ORG_READ = ''org.read''"
definition CAP_ORG_WRITE :: string where "CAP_ORG_WRITE = ''org.write''"
definition CAP_ORG_ADMIN :: string where "CAP_ORG_ADMIN = ''org.admin''"
definition CAP_ORG_OWNER :: string where "CAP_ORG_OWNER = ''org.owner''"

definition CAPABILITY_MIN_ROLE :: "string \<rightharpoonup> string" where
  "CAPABILITY_MIN_ROLE = map_of
     [(CAP_ORG_READ, ''member''), (CAP_ORG_WRITE, ''member''),
      (CAP_ORG_ADMIN, ''admin''), (CAP_ORG_OWNER, ''owner'')]"

definition ACTOR_OPERATOR :: string where "ACTOR_OPERATOR = ''operator''"
definition ACTOR_RUNTIME :: string where "ACTOR_RUNTIME = ''runtime''"

definition CHANNEL_API :: string where "CHANNEL_API = ''api''"
definition CHANNEL_BROWSER :: string where "CHANNEL_BROWSER = ''browser''"
definition CHANNEL_LOCAL :: string where "CHANNEL_LOCAL = ''local''"

definition HUMAN_CHANNELS :: "string list" where
  "HUMAN_CHANNELS = [CHANNEL_BROWSER, CHANNEL_LOCAL]"

definition RUNTIME_OPERATIONS :: "string list" where
  "RUNTIME_OPERATIONS =
     [''runtime.register'', ''runtime.heartbeat'', ''runtime.status'', ''runtime.claim'',
      ''runtime.execute'']"

lemmas capability_defs = CAP_ORG_READ_def CAP_ORG_WRITE_def CAP_ORG_ADMIN_def CAP_ORG_OWNER_def

fun index_of :: "'a \<Rightarrow> 'a list \<Rightarrow> nat option" where
  "index_of x [] = None"
| "index_of x (y # ys) = (if x = y then Some 0 else map_option Suc (index_of x ys))"

definition ORG_ROLE_RANK :: "string \<Rightarrow> nat option" where
  "ORG_ROLE_RANK role = index_of role ORG_ROLES"

text \<open>\<open>if not role: return -1\<close> covers the absent role and the empty string.\<close>

definition role_rank :: "string option \<Rightarrow> int" where
  "role_rank role =
     (case role of
        None \<Rightarrow> -1
      | Some r \<Rightarrow> if r = [] then -1
                  else (case ORG_ROLE_RANK r of None \<Rightarrow> -1 | Some i \<Rightarrow> int i))"

definition role_satisfies :: "string option \<Rightarrow> string \<Rightarrow> bool" where
  "role_satisfies role minimum =
     (let minimum_rank = role_rank (Some minimum)
      in if minimum_rank < 0 then False else role_rank role \<ge> minimum_rank)"

section \<open>The principal\<close>

text \<open>\<open>org_roles\<close> is the mapping from Org id to role, its items in order; keys are distinct.\<close>

record principal =
  actor_kind :: string
  actor_id :: pystr
  credential_kind :: string
  credential_id :: "string option"
  operator_id :: "int option"
  operator_slug :: "string option"
  org_roles :: "(int \<times> string) list"
  runtime_org_id :: "int option"
  runtime_machine_id :: "pystr option"
  runtime_id :: "int option"
  is_bootstrap_admin :: bool
  channel :: string
  bound_session_ids :: "pystr list"

definition is_operator :: "principal \<Rightarrow> bool" where
  "is_operator p \<longleftrightarrow> actor_kind p = ACTOR_OPERATOR"

definition is_runtime :: "principal \<Rightarrow> bool" where
  "is_runtime p \<longleftrightarrow> actor_kind p = ACTOR_RUNTIME"

definition is_human_channel :: "principal \<Rightarrow> bool" where
  "is_human_channel p \<longleftrightarrow> channel p \<in> set HUMAN_CHANNELS"

definition has_any_org_role :: "principal \<Rightarrow> bool" where
  "has_any_org_role p \<longleftrightarrow> is_bootstrap_admin p \<or> org_roles p \<noteq> []"

definition with_channel :: "principal \<Rightarrow> string \<Rightarrow> principal" where
  "with_channel p ch = p\<lparr>channel := ch\<rparr>"

definition describe :: "principal \<Rightarrow> pystr" where
  "describe p = actor_id p"

definition role_in_org :: "principal \<Rightarrow> int option \<Rightarrow> string option" where
  "role_in_org p org =
     (case org of
        None \<Rightarrow> None
      | Some i \<Rightarrow> if is_runtime p then None
                  else if is_bootstrap_admin p then Some ''owner''
                  else map_of (org_roles p) i)"

definition has_capability :: "principal \<Rightarrow> string \<Rightarrow> int option \<Rightarrow> bool" where
  "has_capability p capability org =
     (case CAPABILITY_MIN_ROLE capability of
        None \<Rightarrow> False
      | Some minimum \<Rightarrow> if is_runtime p then False
                        else role_satisfies (role_in_org p org) minimum)"

definition can_see_org :: "principal \<Rightarrow> int option \<Rightarrow> bool" where
  "can_see_org p org =
     (case org of
        None \<Rightarrow> False
      | Some i \<Rightarrow> if is_runtime p then runtime_org_id p = Some i
                  else has_capability p CAP_ORG_READ org)"

text \<open>\<open>None\<close> means "no filter".\<close>

definition visible_org_ids :: "principal \<Rightarrow> int set option" where
  "visible_org_ids p =
     (if is_bootstrap_admin p then None
      else if is_runtime p
      then Some (case runtime_org_id p of None \<Rightarrow> {} | Some i \<Rightarrow> {i})
      else Some (set (map fst (org_roles p))))"

definition allows_runtime_operation :: "principal \<Rightarrow> string \<Rightarrow> bool" where
  "allows_runtime_operation p operation \<longleftrightarrow> is_runtime p \<and> operation \<in> set RUNTIME_OPERATIONS"

definition owns_machine :: "principal \<Rightarrow> pystr option \<Rightarrow> bool" where
  "owns_machine p machine =
     (case machine of
        None \<Rightarrow> False
      | Some m \<Rightarrow> if \<not> is_runtime p \<or> m = [] then False else runtime_machine_id p = Some m)"

section \<open>The abstract role order\<close>

datatype org_role = Member | Admin | Owner

instantiation org_role :: linorder
begin

fun rank_of :: "org_role \<Rightarrow> nat" where
  "rank_of Member = 0"
| "rank_of Admin = 1"
| "rank_of Owner = 2"

definition less_eq_org_role :: "org_role \<Rightarrow> org_role \<Rightarrow> bool" where
  "less_eq_org_role a b \<longleftrightarrow> rank_of a \<le> rank_of b"

definition less_org_role :: "org_role \<Rightarrow> org_role \<Rightarrow> bool" where
  "less_org_role a b \<longleftrightarrow> rank_of a < rank_of b"

instance
proof
  fix x y z :: org_role
  show "(x < y) = (x \<le> y \<and> \<not> y \<le> x)"
    by (auto simp: less_eq_org_role_def less_org_role_def)
  show "x \<le> x" by (simp add: less_eq_org_role_def)
  show "x \<le> y \<Longrightarrow> y \<le> z \<Longrightarrow> x \<le> z" by (simp add: less_eq_org_role_def)
  show "x \<le> y \<Longrightarrow> y \<le> x \<Longrightarrow> x = y"
    by (cases x; cases y) (simp_all add: less_eq_org_role_def)
  show "x \<le> y \<or> y \<le> x" by (auto simp: less_eq_org_role_def)
qed

end

definition role_of :: "string option \<Rightarrow> org_role option" where
  "role_of r = (if r = Some ''member'' then Some Member
                else if r = Some ''admin'' then Some Admin
                else if r = Some ''owner'' then Some Owner else None)"

lemma role_rank_role_of:
  "role_rank r = (case role_of r of None \<Rightarrow> -1 | Some a \<Rightarrow> int (rank_of a))"
  by (auto simp: role_rank_def role_of_def ORG_ROLE_RANK_def ORG_ROLES_def split: option.splits)

text \<open>\<open>role_satisfies\<close> implements the role order; unknown roles on either side are denied.\<close>

lemma role_satisfies_iff:
  "role_satisfies r m \<longleftrightarrow>
     (\<exists>a b. role_of r = Some a \<and> role_of (Some m) = Some b \<and> b \<le> a)"
  by (auto simp: role_satisfies_def Let_def role_rank_role_of less_eq_org_role_def
      split: option.splits)

lemma CAPABILITY_MIN_ROLE_simps [simp]:
  "CAPABILITY_MIN_ROLE CAP_ORG_READ = Some ''member''"
  "CAPABILITY_MIN_ROLE CAP_ORG_WRITE = Some ''member''"
  "CAPABILITY_MIN_ROLE CAP_ORG_ADMIN = Some ''admin''"
  "CAPABILITY_MIN_ROLE CAP_ORG_OWNER = Some ''owner''"
  by (simp_all add: CAPABILITY_MIN_ROLE_def capability_defs)

lemma actor_kinds_differ [simp]: "ACTOR_OPERATOR \<noteq> ACTOR_RUNTIME" "ACTOR_RUNTIME \<noteq> ACTOR_OPERATOR"
  by (simp_all add: ACTOR_OPERATOR_def ACTOR_RUNTIME_def)

lemma runtime_not_operator: "is_runtime p \<Longrightarrow> \<not> is_operator p"
  by (simp add: is_runtime_def is_operator_def)

lemma has_capability_None [simp]: "\<not> has_capability p cap None"
  by (auto simp: has_capability_def role_in_org_def role_satisfies_iff role_of_def
      split: option.splits)

lemma has_capability_runtime [simp]: "is_runtime p \<Longrightarrow> \<not> has_capability p cap org"
  by (simp add: has_capability_def split: option.splits)

lemma can_see_org_None [simp]: "\<not> can_see_org p None"
  by (simp add: can_see_org_def)

lemma min_role_is_known:
  "CAPABILITY_MIN_ROLE cap = Some m \<Longrightarrow> \<exists>b. role_of (Some m) = Some b"
  by (auto simp: CAPABILITY_MIN_ROLE_def role_of_def split: if_splits)

lemma role_satisfies_member_iff: "role_satisfies r ''member'' \<longleftrightarrow> role_of r \<noteq> None"
  by (auto simp: role_satisfies_iff role_of_def less_eq_org_role_def)

lemma has_capability_read:
  "has_capability p CAP_ORG_READ org \<longleftrightarrow> \<not> is_runtime p \<and> role_of (role_in_org p org) \<noteq> None"
  by (simp add: has_capability_def role_satisfies_member_iff)

text \<open>Any capability in an Org includes reading it, so a capability never outruns visibility.\<close>

lemma has_capability_imp_see: "has_capability p cap org \<Longrightarrow> can_see_org p org"
proof -
  assume h: "has_capability p cap org"
  then have "\<not> is_runtime p" and "role_of (role_in_org p org) \<noteq> None" and "org \<noteq> None"
    by (auto simp: has_capability_def role_satisfies_iff role_in_org_def role_of_def
        split: option.splits if_splits)
  then show ?thesis
    by (auto simp: can_see_org_def has_capability_read split: option.splits)
qed

lemma bootstrap_has_capability:
  "is_bootstrap_admin p \<Longrightarrow> \<not> is_runtime p \<Longrightarrow>
     has_capability p cap (Some i) \<longleftrightarrow> CAPABILITY_MIN_ROLE cap \<noteq> None"
  by (auto simp: has_capability_def role_in_org_def role_satisfies_iff role_of_def
      CAPABILITY_MIN_ROLE_def less_eq_org_role_def split: option.splits if_splits)

section \<open>Properties\<close>

definition known_roles :: "principal \<Rightarrow> bool" where
  "known_roles p \<longleftrightarrow> (\<forall>(i, r)\<in>set (org_roles p). role_of (Some r) \<noteq> None)"

text \<open>The listing filter and the pointwise check agree on known roles.\<close>

lemma can_see_org_visible:
  assumes "known_roles p" and "\<not> (is_bootstrap_admin p \<and> is_runtime p)"
  shows "can_see_org p (Some i) \<longleftrightarrow>
     (case visible_org_ids p of None \<Rightarrow> True | Some ids \<Rightarrow> i \<in> ids)"
proof (cases "is_runtime p \<or> is_bootstrap_admin p")
  case True
  then show ?thesis
    using assms(2)
    by (auto simp: can_see_org_def visible_org_ids_def has_capability_read role_in_org_def
        role_of_def split: option.splits)
next
  case False
  have "map_of (org_roles p) i = Some r \<Longrightarrow> role_of (Some r) \<noteq> None" for r
    using assms(1) by (auto simp: known_roles_def dest: map_of_SomeD)
  moreover have "map_of (org_roles p) i = None \<longleftrightarrow> i \<notin> fst ` set (org_roles p)"
    by (simp add: map_of_eq_None_iff)
  ultimately show ?thesis
    using False
    by (cases "map_of (org_roles p) i")
       (auto simp: can_see_org_def visible_org_ids_def has_capability_read role_in_org_def
         role_of_def)
qed

text \<open>The capability check implements the abstract role order: a capability is held in an Org
  exactly when the principal is not a Runtime credential, the capability is known, and the role it
  has in that Org (owner everywhere for the bootstrap admin, otherwise its membership) is a known
  role at or above the capability's minimum. Unknown roles and unknown capabilities give nothing.\<close>

theorem has_capability_role_order:
  "has_capability p cap (Some i) \<longleftrightarrow>
     \<not> is_runtime p \<and>
     (\<exists>m a b. CAPABILITY_MIN_ROLE cap = Some m \<and> role_of (Some m) = Some b \<and> b \<le> a \<and>
        (if is_bootstrap_admin p then a = Owner else role_of (map_of (org_roles p) i) = Some a))"
proof -
  have o: "role_of (Some ''owner'') = Some Owner" by (simp add: role_of_def)
  show ?thesis
    by (auto simp: has_capability_def role_in_org_def role_satisfies_iff o split: option.splits)
qed

text \<open>For a principal whose membership rows carry only known roles, the set a listing filters by
  (\<open>visible_org_ids\<close>) and the pointwise check (\<open>can_see_org\<close>) agree on every Org, so an Org absent
  from a listing is absent from every per-id surface and conversely; no filter (the bootstrap
  admin) sees every Org unless the credential is a Runtime's.\<close>

theorem visible_org_ids_agrees_can_see:
  assumes "known_roles p" and "\<not> (is_bootstrap_admin p \<and> is_runtime p)"
  shows "can_see_org p (Some i) \<longleftrightarrow>
     (case visible_org_ids p of None \<Rightarrow> True | Some ids \<Rightarrow> i \<in> ids)"
  using assms by (rule can_see_org_visible)

definition sample_operator :: principal where
  "sample_operator = \<lparr>actor_kind = ACTOR_OPERATOR, actor_id = lit ''operator:kim'',
     credential_kind = ''operator'', credential_id = Some ''c1'', operator_id = Some 5,
     operator_slug = Some ''kim'', org_roles = [(1, ''member''), (2, ''admin'')],
     runtime_org_id = None, runtime_machine_id = None, runtime_id = None,
     is_bootstrap_admin = False, channel = CHANNEL_BROWSER, bound_session_ids = []\<rparr>"

definition sample_runtime :: principal where
  "sample_runtime = \<lparr>actor_kind = ACTOR_RUNTIME, actor_id = lit ''runtime:m1'',
     credential_kind = ''runtime'', credential_id = Some ''c2'', operator_id = None,
     operator_slug = None, org_roles = [], runtime_org_id = Some 7,
     runtime_machine_id = Some (lit ''m1''), runtime_id = Some 3,
     is_bootstrap_admin = False, channel = CHANNEL_API, bound_session_ids = []\<rparr>"

lemma sample_principals [simp]:
  "\<not> is_runtime sample_operator" "is_operator sample_operator" "is_runtime sample_runtime"
  "\<not> is_bootstrap_admin sample_operator" "\<not> is_bootstrap_admin sample_runtime"
  "org_roles sample_operator = [(1, ''member''), (2, ''admin'')]" "org_roles sample_runtime = []"
  "operator_id sample_operator = Some 5" "runtime_org_id sample_runtime = Some 7"
  "runtime_machine_id sample_runtime = Some (lit ''m1'')" "is_human_channel sample_operator"
  by (simp_all add: sample_operator_def sample_runtime_def is_runtime_def is_operator_def
      is_human_channel_def HUMAN_CHANNELS_def)

lemma sample_known_roles: "known_roles sample_operator" "known_roles sample_runtime"
  by (simp_all add: known_roles_def role_of_def)

theorem visible_org_ids_agrees_can_see_witness:
  "can_see_org sample_operator (Some 2) \<and> \<not> can_see_org sample_operator (Some 9)"
  using visible_org_ids_agrees_can_see[of sample_operator 2]
    visible_org_ids_agrees_can_see[of sample_operator 9]
  by (simp add: sample_known_roles visible_org_ids_def)

end
