(* ===== verification/Topics.thy ===== *)
theory Topics imports Prelude begin

text \<open>
  Models \<open>src/brains/events/topics.py\<close>: the closed grammar of realtime topics, its parser and
  the builders publishers use. The lemmas give the exact language the parser accepts, the
  agreement of parser and builders in both directions, and the segment language, where
  \<open>$\<close> of Python's \<open>re\<close> also matches before a final newline.
\<close>

section \<open>Vocabulary\<close>

definition family_org :: pystr where "family_org = lit ''org''"
definition family_session :: pystr where "family_session = lit ''session''"

definition ENTITY_ORG :: string where "ENTITY_ORG = ''org''"
definition ENTITY_SESSION :: string where "ENTITY_SESSION = ''agent_session''"

datatype audience = AUDIENCE_OPERATOR | AUDIENCE_RUNTIME

definition ORG_CHANNELS :: "pystr list" where
  "ORG_CHANNELS = [lit ''sessions'', lit ''inbox'']"

definition SESSION_STREAMS :: "pystr list" where
  "SESSION_STREAMS = [lit ''stdout'', lit ''chat'', lit ''state'']"

definition MACHINE_STREAMS :: "pystr list" where
  "MACHINE_STREAMS = [lit ''assignments'', lit ''control'']"

definition RUNTIME_STREAMS :: "pystr list" where
  "RUNTIME_STREAMS = [lit ''assignments'', lit ''status'']"

definition DEFAULT_ORG_ALIAS :: pystr where "DEFAULT_ORG_ALIAS = lit ''default''"

definition MAX_TOPIC_LENGTH :: nat where "MAX_TOPIC_LENGTH = 160"
definition MAX_SEGMENTS :: nat where "MAX_SEGMENTS = 3"
definition MAX_TOPICS_PER_REQUEST :: nat where "MAX_TOPICS_PER_REQUEST = 64"

section \<open>Segments\<close>

definition is_alnum :: "nat \<Rightarrow> bool" where
  "is_alnum c \<longleftrightarrow> (48 \<le> c \<and> c \<le> 57) \<or> (65 \<le> c \<and> c \<le> 90) \<or> (97 \<le> c \<and> c \<le> 122)"

text \<open>The class \<open>[A-Za-z0-9._:-]\<close>.\<close>

definition is_tail_char :: "nat \<Rightarrow> bool" where
  "is_tail_char c \<longleftrightarrow> is_alnum c \<or> c = 46 \<or> c = 95 \<or> c = 58 \<or> c = 45"

text \<open>\<open>[A-Za-z0-9][A-Za-z0-9._:-]{0,63}\<close> on a whole string.\<close>

fun exact_segment :: "pystr \<Rightarrow> bool" where
  "exact_segment [] = False"
| "exact_segment (c # cs) = (is_alnum c \<and> (\<forall>x\<in>set cs. is_tail_char x) \<and> length cs \<le> 63)"

text \<open>
  \<open>_SEGMENT_RE.match\<close>: without \<open>re.MULTILINE\<close>, \<open>$\<close> matches at the end and just before a
  newline that ends the string.
\<close>

definition segment_re :: "pystr \<Rightarrow> bool" where
  "segment_re s \<longleftrightarrow> exact_segment s \<or> (s \<noteq> [] \<and> last s = 10 \<and> exact_segment (butlast s))"

section \<open>Parsing\<close>

record parsed_topic =
  t_family :: pystr
  t_reference :: pystr
  t_channel :: pystr
  t_entity :: string
  t_audiences :: "audience list"

definition is_operator_topic :: "parsed_topic \<Rightarrow> bool" where
  "is_operator_topic t \<longleftrightarrow> AUDIENCE_OPERATOR \<in> set (t_audiences t)"

definition is_runtime_topic :: "parsed_topic \<Rightarrow> bool" where
  "is_runtime_topic t \<longleftrightarrow> AUDIENCE_RUNTIME \<in> set (t_audiences t)"

definition valid_segments :: "pystr \<Rightarrow> pystr list option" where
  "valid_segments topic =
     (if topic = [] \<or> length topic > MAX_TOPIC_LENGTH then None
      else let parts = split_on 47 topic
           in if \<not> (2 \<le> length parts \<and> length parts \<le> MAX_SEGMENTS) then None
              else if \<exists>p\<in>set parts. \<not> segment_re p then None
              else Some parts)"

definition parse_topic :: "pyval \<Rightarrow> parsed_topic option" where
  "parse_topic topic =
     (case topic of
        PStr s \<Rightarrow>
          (case valid_segments s of
             None \<Rightarrow> None
           | Some parts \<Rightarrow>
               let family = parts ! 0
               in if family = family_org \<and> length parts = 3 \<and> parts ! 2 \<in> set ORG_CHANNELS
                  then Some \<lparr>t_family = family_org, t_reference = parts ! 1, t_channel = parts ! 2,
                             t_entity = ENTITY_ORG, t_audiences = [AUDIENCE_OPERATOR]\<rparr>
                  else if family = family_session \<and> length parts = 3
                          \<and> parts ! 2 \<in> set SESSION_STREAMS
                  then Some \<lparr>t_family = family_session, t_reference = parts ! 1,
                             t_channel = parts ! 2, t_entity = ENTITY_SESSION,
                             t_audiences = [AUDIENCE_OPERATOR, AUDIENCE_RUNTIME]\<rparr>
                  else None)
      | _ \<Rightarrow> None)"

section \<open>Building\<close>

text \<open>\<open>str(value)\<close> of the values \<open>isinstance(value, str | int)\<close> admits; a \<open>bool\<close> is an \<open>int\<close>.\<close>

fun py_str :: "pyval \<Rightarrow> pystr option" where
  "py_str (PStr s) = Some s"
| "py_str (PInt i) = Some (str_of_int i)"
| "py_str (PBool b) = Some (if b then lit ''True'' else lit ''False'')"
| "py_str _ = None"

definition valid_reference :: "pyval \<Rightarrow> bool" where
  "valid_reference v = (case py_str v of None \<Rightarrow> False | Some s \<Rightarrow> segment_re s)"

datatype topic_error = UnknownChannel pystr | UnnameableReference pyval

definition scoped_topic ::
    "pystr \<Rightarrow> pystr list \<Rightarrow> pyval \<Rightarrow> pystr \<Rightarrow> topic_error + pystr" where
  "scoped_topic family streams v stream =
     (if stream \<notin> set streams then Inl (UnknownChannel stream)
      else if \<not> valid_reference v then Inl (UnnameableReference v)
      else Inr (family @ 47 # the (py_str v) @ 47 # stream))"

definition org_topic :: "pyval \<Rightarrow> pystr \<Rightarrow> topic_error + pystr" where
  "org_topic org_id channel = scoped_topic family_org ORG_CHANNELS org_id channel"

definition session_topic :: "pyval \<Rightarrow> pystr \<Rightarrow> topic_error + pystr" where
  "session_topic session_id stream = scoped_topic family_session SESSION_STREAMS session_id stream"

definition machine_topic :: "pyval \<Rightarrow> pystr \<Rightarrow> topic_error + pystr" where
  "machine_topic machine_id stream = scoped_topic (lit ''machine'') MACHINE_STREAMS machine_id stream"

definition runtime_topic :: "pyval \<Rightarrow> pystr \<Rightarrow> topic_error + pystr" where
  "runtime_topic runtime stream = scoped_topic (lit ''runtime'') RUNTIME_STREAMS runtime stream"

definition issue_topic :: "pyval \<Rightarrow> topic_error + pystr" where
  "issue_topic code =
     (if \<not> valid_reference code then Inl (UnnameableReference code)
      else Inr (lit ''issue'' @ 47 # the (py_str code)))"

section \<open>Segment facts\<close>

lemma is_tail_char_not_sep: "is_tail_char c \<Longrightarrow> c \<noteq> 47"
  by (auto simp: is_tail_char_def is_alnum_def)

lemma alnum_is_tail: "is_alnum c \<Longrightarrow> is_tail_char c"
  by (simp add: is_tail_char_def)

lemma exact_segment_no_sep: "exact_segment s \<Longrightarrow> 47 \<notin> set s"
  by (cases s) (auto simp: is_tail_char_not_sep is_alnum_def dest: is_tail_char_not_sep)

lemma segment_re_no_sep: "segment_re s \<Longrightarrow> 47 \<notin> set s"
proof -
  assume "segment_re s"
  then consider "exact_segment s" | "s \<noteq> []" "last s = 10" "exact_segment (butlast s)"
    by (auto simp: segment_re_def)
  then show ?thesis
  proof cases
    case 1
    then show ?thesis by (rule exact_segment_no_sep)
  next
    case 2
    then have "s = butlast s @ [10]" by (metis append_butlast_last_id)
    moreover have "47 \<notin> set (butlast s)" using 2 by (simp add: exact_segment_no_sep)
    ultimately have "set s = set (butlast s) \<union> {10}" by (metis list.set set_append)
    with \<open>47 \<notin> set (butlast s)\<close> show ?thesis by auto
  qed
qed

lemma exact_segment_length: "exact_segment s \<Longrightarrow> 1 \<le> length s \<and> length s \<le> 64"
  by (cases s) auto

lemma segment_re_length: "segment_re s \<Longrightarrow> 1 \<le> length s \<and> length s \<le> 65"
  by (auto simp: segment_re_def dest!: exact_segment_length)

lemma digits_exact_segment: "n < 10 ^ 64 \<Longrightarrow> exact_segment (digits_of n)"
proof -
  assume "n < 10 ^ 64"
  then have len: "length (digits_of n) \<le> 64" by (rule length_digits_of) simp
  obtain c cs where d: "digits_of n = c # cs"
    using digits_of_nonempty by (cases "digits_of n") auto
  have "\<forall>x\<in>set (c # cs). is_alnum x"
    using digits_of_chars[of _ n] unfolding d by (auto simp: is_alnum_def)
  then show ?thesis using len by (auto simp: d alnum_is_tail)
qed

lemma valid_reference_id: "0 \<le> i \<Longrightarrow> i < 10 ^ 64 \<Longrightarrow> valid_reference (PInt i)"
  by (simp add: valid_reference_def str_of_int_def segment_re_def digits_exact_segment nat_less_iff)

section \<open>What the parser accepts\<close>

lemma valid_segments_Some:
  "valid_segments s = Some ps \<longleftrightarrow>
     s \<noteq> [] \<and> length s \<le> 160 \<and> ps = split_on 47 s \<and> length ps \<in> {2, 3} \<and> (\<forall>p\<in>set ps. segment_re p)"
  by (auto simp: valid_segments_def MAX_TOPIC_LENGTH_def MAX_SEGMENTS_def Let_def)

lemma segment_re_lits:
  "segment_re family_org" "segment_re family_session"
  "ch \<in> set ORG_CHANNELS \<Longrightarrow> segment_re ch" "ch \<in> set SESSION_STREAMS \<Longrightarrow> segment_re ch"
  by (auto simp: segment_re_def ORG_CHANNELS_def SESSION_STREAMS_def is_alnum_def is_tail_char_def
      family_org_def family_session_def)

lemma family_length: "length family_org \<le> 8" "length family_session \<le> 8"
  by (simp_all add: family_org_def family_session_def)

lemma channel_length: "ch \<in> set ORG_CHANNELS \<Longrightarrow> length ch \<le> 8" "ch \<in> set SESSION_STREAMS \<Longrightarrow> length ch \<le> 8"
  by (auto simp: ORG_CHANNELS_def SESSION_STREAMS_def)

lemma split_three:
  "47 \<notin> set f \<Longrightarrow> 47 \<notin> set r \<Longrightarrow> 47 \<notin> set ch \<Longrightarrow>
     split_on 47 (f @ 47 # r @ 47 # ch) = [f, r, ch]"
  by (simp add: split_on_append split_on_no_sep)

lemma valid_segments_three:
  "segment_re f \<Longrightarrow> segment_re r \<Longrightarrow> segment_re ch \<Longrightarrow> length f \<le> 8 \<Longrightarrow> length ch \<le> 8 \<Longrightarrow>
     valid_segments (f @ 47 # r @ 47 # ch) = Some [f, r, ch]"
  using segment_re_length[of r] segment_re_no_sep[of f] segment_re_no_sep[of r]
    segment_re_no_sep[of ch]
  by (simp add: valid_segments_Some split_three)

lemma three_parts: "length ps = 3 \<Longrightarrow> ps = [ps ! 0, ps ! 1, ps ! 2]"
  by (cases ps; cases "tl ps"; cases "tl (tl ps)") auto

lemma valid_segments_join:
  "valid_segments s = Some ps \<Longrightarrow> length ps = 3 \<Longrightarrow> s = ps ! 0 @ 47 # ps ! 1 @ 47 # ps ! 2"
proof -
  assume v: "valid_segments s = Some ps" and l: "length ps = 3"
  have "s = join_with 47 ps" using v by (simp add: valid_segments_Some join_split)
  also have "\<dots> = join_with 47 [ps ! 0, ps ! 1, ps ! 2]" using three_parts[OF l] by simp
  finally show ?thesis by simp
qed

lemma families_differ [simp]: "family_org \<noteq> family_session" "family_session \<noteq> family_org"
  by (simp_all add: family_org_def family_session_def)

text \<open>The parser as a decision table: what was parsed, and from which text.\<close>

lemma parse_topic_cases:
  assumes "parse_topic v = Some t"
  obtains (org) r ch where "v = PStr (family_org @ 47 # r @ 47 # ch)" "segment_re r"
      "ch \<in> set ORG_CHANNELS"
      "t = \<lparr>t_family = family_org, t_reference = r, t_channel = ch, t_entity = ENTITY_ORG,
            t_audiences = [AUDIENCE_OPERATOR]\<rparr>"
    | (session) r ch where "v = PStr (family_session @ 47 # r @ 47 # ch)" "segment_re r"
      "ch \<in> set SESSION_STREAMS"
      "t = \<lparr>t_family = family_session, t_reference = r, t_channel = ch, t_entity = ENTITY_SESSION,
            t_audiences = [AUDIENCE_OPERATOR, AUDIENCE_RUNTIME]\<rparr>"
proof -
  from assms obtain s ps where v: "v = PStr s" and ps: "valid_segments s = Some ps"
    by (auto simp: parse_topic_def split: pyval.splits option.splits)
  have len: "length ps = 3"
    using assms v ps by (auto simp: parse_topic_def Let_def split: if_splits)
  note s = valid_segments_join[OF ps len]
  have seg: "segment_re (ps ! 1)"
    using ps len by (auto simp: valid_segments_Some)
  from assms v ps len consider
      "ps ! 0 = family_org" "ps ! 2 \<in> set ORG_CHANNELS"
      "t = \<lparr>t_family = family_org, t_reference = ps ! 1, t_channel = ps ! 2, t_entity = ENTITY_ORG,
            t_audiences = [AUDIENCE_OPERATOR]\<rparr>"
    | "ps ! 0 = family_session" "ps ! 2 \<in> set SESSION_STREAMS"
      "t = \<lparr>t_family = family_session, t_reference = ps ! 1, t_channel = ps ! 2,
            t_entity = ENTITY_SESSION, t_audiences = [AUDIENCE_OPERATOR, AUDIENCE_RUNTIME]\<rparr>"
    by (auto simp: parse_topic_def Let_def split: if_splits)
  then show thesis
  proof cases
    case 1
    then show thesis using org[of "ps ! 1" "ps ! 2"] s seg v by metis
  next
    case 2
    then show thesis using session[of "ps ! 1" "ps ! 2"] s seg v by metis
  qed
qed

lemma parse_org:
  "segment_re r \<Longrightarrow> ch \<in> set ORG_CHANNELS \<Longrightarrow>
     parse_topic (PStr (family_org @ 47 # r @ 47 # ch)) =
       Some \<lparr>t_family = family_org, t_reference = r, t_channel = ch, t_entity = ENTITY_ORG,
             t_audiences = [AUDIENCE_OPERATOR]\<rparr>"
  using valid_segments_three[of family_org r ch]
  by (simp add: parse_topic_def segment_re_lits channel_length family_length)

lemma parse_session:
  "segment_re r \<Longrightarrow> ch \<in> set SESSION_STREAMS \<Longrightarrow>
     parse_topic (PStr (family_session @ 47 # r @ 47 # ch)) =
       Some \<lparr>t_family = family_session, t_reference = r, t_channel = ch, t_entity = ENTITY_SESSION,
             t_audiences = [AUDIENCE_OPERATOR, AUDIENCE_RUNTIME]\<rparr>"
  using valid_segments_three[of family_session r ch]
  by (simp add: parse_topic_def segment_re_lits channel_length family_length)

section \<open>Properties\<close>

lemma py_str_reference: "valid_reference v \<Longrightarrow> \<exists>r. py_str v = Some r \<and> segment_re r"
  by (auto simp: valid_reference_def split: option.splits)

lemma scoped_topic_Inr:
  "scoped_topic family streams v stream = Inr s \<longleftrightarrow>
     stream \<in> set streams \<and>
     (\<exists>r. py_str v = Some r \<and> segment_re r \<and> s = family @ 47 # r @ 47 # stream)"
  by (auto simp: scoped_topic_def valid_reference_def split: option.splits)

lemma parse_topic_family:
  "parse_topic (PStr (f @ 47 # s)) = Some t \<Longrightarrow> 47 \<notin> set f \<Longrightarrow> f \<in> {family_org, family_session}"
proof (erule parse_topic_cases)
  have sep: "47 \<notin> set family_org" "47 \<notin> set family_session"
    by (simp_all add: family_org_def family_session_def)
  have first: "f @ 47 # s = g @ 47 # s' \<Longrightarrow> 47 \<notin> set f \<Longrightarrow> 47 \<notin> set g \<Longrightarrow> f = g" for g s'
    using split_on_append[of 47 f s] split_on_append[of 47 g s'] by simp
  fix r ch
  assume f: "47 \<notin> set f"
  show "f \<in> {family_org, family_session}" if "PStr (f @ 47 # s) = PStr (family_org @ 47 # r @ 47 # ch)"
    using first[OF _ f sep(1)] that by simp
  show "f \<in> {family_org, family_session}"
    if "PStr (f @ 47 # s) = PStr (family_session @ 47 # r @ 47 # ch)"
    using first[OF _ f sep(2)] that by simp
qed

text \<open>The exact language of the topic parser. A request value is a topic exactly when it is the
  text \<open>org/<reference>/<channel>\<close> or \<open>session/<reference>/<stream>\<close> with a known channel or stream
  and a reference the segment pattern admits, and then the parse carries that reference and channel
  unchanged, with the audiences of its family; every other value of any type is refused.\<close>

theorem parse_topic_language:
  "parse_topic v = Some t \<longleftrightarrow>
     (\<exists>r ch. segment_re r \<and>
        (v = PStr (family_org @ 47 # r @ 47 # ch) \<and> ch \<in> set ORG_CHANNELS \<and>
           t = \<lparr>t_family = family_org, t_reference = r, t_channel = ch, t_entity = ENTITY_ORG,
                t_audiences = [AUDIENCE_OPERATOR]\<rparr> \<or>
         v = PStr (family_session @ 47 # r @ 47 # ch) \<and> ch \<in> set SESSION_STREAMS \<and>
           t = \<lparr>t_family = family_session, t_reference = r, t_channel = ch,
                t_entity = ENTITY_SESSION, t_audiences = [AUDIENCE_OPERATOR, AUDIENCE_RUNTIME]\<rparr>))"
  (is "?l \<longleftrightarrow> ?r")
proof
  show "?l \<Longrightarrow> ?r" by (erule parse_topic_cases) blast+
  show "?r \<Longrightarrow> ?l" using parse_org parse_session by blast
qed

text \<open>Publisher and subscriber speak one language for the two parsed families, and only for them:
  every topic \<open>org_topic\<close> or \<open>session_topic\<close> builds parses back to the reference and channel it was
  built from, while no topic that \<open>machine_topic\<close>, \<open>runtime_topic\<close> or \<open>issue_topic\<close> builds is
  accepted by the parser.\<close>

theorem builders_parse:
  "(org_topic v ch = Inr s \<longrightarrow>
      (\<exists>t. parse_topic (PStr s) = Some t \<and> t_family t = family_org \<and>
           Some (t_reference t) = py_str v \<and> t_channel t = ch)) \<and>
   (session_topic v ch = Inr s \<longrightarrow>
      (\<exists>t. parse_topic (PStr s) = Some t \<and> t_family t = family_session \<and>
           Some (t_reference t) = py_str v \<and> t_channel t = ch)) \<and>
   (machine_topic v ch = Inr s \<or> runtime_topic v ch = Inr s \<or> issue_topic v = Inr s \<longrightarrow>
      parse_topic (PStr s) = None)"
proof -
  have other: "parse_topic (PStr (f @ 47 # s')) = None"
    if "f \<in> {lit ''machine'', lit ''runtime'', lit ''issue''}" for f s'
    using that parse_topic_family[of f s']
    by (cases "parse_topic (PStr (f @ 47 # s'))")
       (auto simp: family_org_def family_session_def)
  show ?thesis
    by (auto simp: org_topic_def session_topic_def machine_topic_def runtime_topic_def
        issue_topic_def scoped_topic_Inr parse_org parse_session other simp del: list.map
        split: if_splits)
qed

theorem builders_parse_witness:
  "parse_topic (PStr (lit ''org/7/inbox'')) \<noteq> None \<and>
   parse_topic (PStr (lit ''machine/m1/control'')) = None"
proof -
  have "org_topic (PInt 7) (lit ''inbox'') = Inr (lit ''org/7/inbox'')"
    by (simp add: org_topic_def scoped_topic_Inr ORG_CHANNELS_def family_org_def str_of_int_def
        digits_of.simps segment_re_def is_alnum_def)
  moreover have "machine_topic (PStr (lit ''m1'')) (lit ''control'') = Inr (lit ''machine/m1/control'')"
    by (simp add: machine_topic_def scoped_topic_Inr MACHINE_STREAMS_def segment_re_def is_alnum_def
        is_tail_char_def)
  ultimately show ?thesis
    using builders_parse[of "PInt 7" "lit ''inbox''" "lit ''org/7/inbox''"]
      builders_parse[of "PStr (lit ''m1'')" "lit ''control''" "lit ''machine/m1/control''"]
    by auto
qed

text \<open>The pattern admits a reference that ends in a newline.\<close>

lemma segment_re_final_newline: "exact_segment s \<Longrightarrow> segment_re (s @ [10])"
  by (simp add: segment_re_def)

end
