(* ===== verification/Json.thy ===== *)
theory Json imports Prelude "HOL-Library.List_Lexorder" begin

text \<open>
  What the program uses of Python's \<open>json\<close> and \<open>datetime\<close>: JSON values, their canonical text as
  \<open>json.dumps(value, sort_keys=True, separators=(",", ":"))\<close> writes it, and
  \<open>isoformat(timespec="microseconds")\<close> of an instant in UTC.
\<close>

section \<open>JSON values\<close>

text \<open>A float is its \<open>repr\<close>; an object is its members in insertion order, keys distinct.\<close>

datatype json =
    JNull
  | JBool bool
  | JInt int
  | JFloat pystr
  | JStr pystr
  | JList "json list"
  | JDict "(pystr \<times> json) list"

text \<open>\<open>{**base, **more}\<close>: a later member replaces the value of an earlier one in place.\<close>

fun put_member :: "(pystr \<times> 'v) list \<Rightarrow> pystr \<times> 'v \<Rightarrow> (pystr \<times> 'v) list" where
  "put_member [] kv = [kv]"
| "put_member (m # ms) kv = (if fst m = fst kv then kv # ms else m # put_member ms kv)"

definition merge_members :: "(pystr \<times> 'v) list \<Rightarrow> (pystr \<times> 'v) list \<Rightarrow> (pystr \<times> 'v) list" where
  "merge_members base more = foldl put_member base more"

lemma map_of_put_member: "map_of (put_member ms kv) = (map_of ms)(fst kv \<mapsto> snd kv)"
  by (induction ms) (auto simp: fun_eq_iff)

lemma map_of_merge_members: "map_of (merge_members base more) = map_of base ++ map_of (rev more)"
  by (induction more rule: rev_induct)
     (auto simp: merge_members_def map_of_put_member fun_eq_iff map_add_def)

section \<open>Canonical text\<close>

definition hex_digit :: "nat \<Rightarrow> nat" where
  "hex_digit n = (if n < 10 then 48 + n else 87 + n)"

definition hex4 :: "nat \<Rightarrow> pystr" where
  "hex4 n = [hex_digit (n div 4096 mod 16), hex_digit (n div 256 mod 16),
             hex_digit (n div 16 mod 16), hex_digit (n mod 16)]"

text \<open>\<open>ensure_ascii\<close>: the two escapes of JSON syntax, the five short ones, \<open>\uXXXX\<close> for the rest.\<close>

definition escape_char :: "nat \<Rightarrow> pystr" where
  "escape_char c =
     (if c = 34 then [92, 34]
      else if c = 92 then [92, 92]
      else if c = 10 then [92, 110]
      else if c = 13 then [92, 114]
      else if c = 9 then [92, 116]
      else if c = 12 then [92, 102]
      else if c = 8 then [92, 98]
      else if 32 \<le> c \<and> c \<le> 126 then [c]
      else if c < 65536 then 92 # 117 # hex4 c
      else 92 # 117 # hex4 (55296 + (c - 65536) div 1024 mod 1024)
           @ 92 # 117 # hex4 (56320 + (c - 65536) mod 1024))"

definition json_string :: "pystr \<Rightarrow> pystr" where
  "json_string s = 34 # concat (map escape_char s) @ [34]"

fun dumps :: "json \<Rightarrow> pystr" where
  "dumps JNull = lit ''null''"
| "dumps (JBool b) = (if b then lit ''true'' else lit ''false'')"
| "dumps (JInt i) = str_of_int i"
| "dumps (JFloat r) = r"
| "dumps (JStr s) = json_string s"
| "dumps (JList xs) = 91 # join_with 44 (map dumps xs) @ [93]"
| "dumps (JDict ms) =
     123 # join_with 44 (map (\<lambda>(k, t). json_string k @ 58 # t)
                          (sort_key fst (map (\<lambda>(k, v). (k, dumps v)) ms))) @ [125]"

text \<open>
  \<open>dumps_with\<close> is the same text over another encoding of strings; \<open>dumps_raw\<close> is \<open>json.dumps\<close> with
  \<open>ensure_ascii=False\<close>, which escapes quotes, backslashes and control characters only.
\<close>

definition escape_raw :: "nat \<Rightarrow> pystr" where
  "escape_raw c = (if c = 34 \<or> c = 92 \<or> c < 32 then escape_char c else [c])"

fun dumps_with :: "(pystr \<Rightarrow> pystr) \<Rightarrow> json \<Rightarrow> pystr" where
  "dumps_with enc JNull = lit ''null''"
| "dumps_with enc (JBool b) = (if b then lit ''true'' else lit ''false'')"
| "dumps_with enc (JInt i) = str_of_int i"
| "dumps_with enc (JFloat r) = r"
| "dumps_with enc (JStr s) = enc s"
| "dumps_with enc (JList xs) = 91 # join_with 44 (map (dumps_with enc) xs) @ [93]"
| "dumps_with enc (JDict ms) =
     123 # join_with 44 (map (\<lambda>(k, t). enc k @ 58 # t)
                          (sort_key fst (map (\<lambda>(k, v). (k, dumps_with enc v)) ms))) @ [125]"

definition dumps_raw :: "json \<Rightarrow> pystr" where
  "dumps_raw = dumps_with (\<lambda>s. 34 # concat (map escape_raw s) @ [34])"

lemma dumps_with_json_string: "dumps_with json_string v = dumps v"
proof (induction v)
  case (JList xs)
  then show ?case by (simp cong: map_cong)
next
  case (JDict ms)
  then have "map (\<lambda>(k, v). (k, dumps_with json_string v)) ms = map (\<lambda>(k, v). (k, dumps v)) ms"
    by fastforce
  then show ?case by (simp only: dumps_with.simps dumps.simps)
qed simp_all

text \<open>The optional values the program writes.\<close>

definition json_opt_int :: "int option \<Rightarrow> json" where
  "json_opt_int x = (case x of None \<Rightarrow> JNull | Some i \<Rightarrow> JInt i)"

definition json_opt_str :: "pystr option \<Rightarrow> json" where
  "json_opt_str x = (case x of None \<Rightarrow> JNull | Some s \<Rightarrow> JStr s)"

section \<open>Timestamps\<close>

text \<open>The proleptic Gregorian date of a day number counted from 1970-01-01.\<close>

definition civil_from_days :: "int \<Rightarrow> int \<times> int \<times> int" where
  "civil_from_days days =
     (let z = days + 719468;
          era = z div 146097;
          doe = z mod 146097;
          yoe = (doe - doe div 1460 + doe div 36524 - doe div 146096) div 365;
          doy = doe - (365 * yoe + yoe div 4 - yoe div 100);
          mp = (5 * doy + 2) div 153;
          d = doy - (153 * mp + 2) div 5 + 1;
          m = (if mp < 10 then mp + 3 else mp - 9);
          y = yoe + era * 400 + (if m \<le> 2 then 1 else 0)
      in (y, m, d))"

definition pad :: "nat \<Rightarrow> int \<Rightarrow> pystr" where
  "pad w n = (let ds = digits_of (nat n) in replicate (w - length ds) 48 @ ds)"

definition iso_seconds :: "instant \<Rightarrow> pystr" where
  "iso_seconds t =
     (let day = 86400000000;
          (y, m, d) = civil_from_days (t div day);
          us = t mod day
      in pad 4 y @ 45 # pad 2 m @ 45 # pad 2 d @ 84 # pad 2 (us div 3600000000) @ 58
           # pad 2 (us div 60000000 mod 60) @ 58 # pad 2 (us div 1000000 mod 60))"

definition iso_micros :: "instant \<Rightarrow> pystr" where
  "iso_micros t = iso_seconds t @ 46 # pad 6 (t mod 1000000) @ lit ''+00:00''"

text \<open>\<open>isoformat()\<close> leaves the fraction out when it is zero.\<close>

definition isoformat :: "instant \<Rightarrow> pystr" where
  "isoformat t = (if t mod 1000000 = 0 then iso_seconds t @ lit ''+00:00'' else iso_micros t)"

end
