(* ===== verification/Store.thy ===== *)
theory Store imports Json begin

text \<open>
  The tables of \<open>src/brains/storage/models.py\<close> that authorization, Sessions, work assignments
  and coordination read and write, each row a record of the columns the modelled code uses.
  Primary and unique keys are read with \<open>row_by\<close>; \<open>store_ok\<close> states the keys the schema declares
  unique and the positive integer ids SQLite assigns.
\<close>

record org_row =
  o_id :: int
  o_slug :: pystr

record operator_row =
  op_id :: int
  op_slug :: string

record workspace_row =
  w_id :: int
  w_path :: pystr
  w_visibility :: string
  w_org_id :: "int option"

record alias_row =
  al_workspace_id :: int
  al_path :: pystr

record membership_row =
  wm_operator_id :: int
  wm_workspace_id :: int

record persona_row =
  pe_id :: int
  pe_org_id :: "int option"
  pe_operator_id :: "int option"

record project_row =
  pj_id :: int
  pj_org_id :: int

record issue_row =
  is_id :: int
  is_code :: pystr
  is_project_id :: int

record runtime_row =
  rt_id :: int
  rt_org_id :: "int option"
  rt_machine_id :: pystr

record squad_row =
  sq_id :: int
  sq_workspace_id :: int

record pod_profile_row =
  pp_pod_id :: int
  pp_org_id :: "int option"

record session_row =
  s_id :: pystr
  s_workspace_id :: int
  s_tool :: pystr
  s_pid :: "int option"
  s_machine_id :: "pystr option"
  s_created_by_operator_id :: "int option"
  s_started_at :: instant
  s_ended_at :: "instant option"
  s_state :: string
  s_last_activity_at :: "instant option"
  s_summary :: "pystr option"
  s_issue_id :: "int option"
  s_persona_id :: "int option"
  s_runtime_id :: "int option"

text \<open>An approval request; its \<open>metadata_json\<close> is kept as the JSON value it encodes.\<close>

datatype ask_status = AskOpen | AskResolved | AskRejected | AskDeferred | AskConsumed

record ask_row =
  ak_id :: int
  ak_code :: pystr
  ak_workspace_id :: int
  ak_session_id :: "pystr option"
  ak_title :: pystr
  ak_body :: pystr
  ak_proposed_answer :: "pystr option"
  ak_status :: ask_status
  ak_created_at :: instant
  ak_resolved_at :: "instant option"
  ak_decision_id :: "int option"
  ak_metadata :: "json option"

text \<open>The tables together.\<close>

record store =
  orgs :: "org_row list"
  operators :: "operator_row list"
  workspaces :: "workspace_row list"
  aliases :: "alias_row list"
  memberships :: "membership_row list"
  personas :: "persona_row list"
  projects :: "project_row list"
  issues :: "issue_row list"
  runtimes :: "runtime_row list"
  squads :: "squad_row list"
  pod_profiles :: "pod_profile_row list"
  sessions :: "session_row list"
  approvals :: "ask_row list"

definition empty_store :: store where
  "empty_store = \<lparr>orgs = [], operators = [], workspaces = [], aliases = [], memberships = [],
     personas = [], projects = [], issues = [], runtimes = [], squads = [], pod_profiles = [],
     sessions = [], approvals = []\<rparr>"

definition get_workspace_row :: "store \<Rightarrow> int \<Rightarrow> workspace_row option" where
  "get_workspace_row db i = row_by w_id i (workspaces db)"

definition get_session_row :: "store \<Rightarrow> pystr \<Rightarrow> session_row option" where
  "get_session_row db i = row_by s_id i (sessions db)"

definition positive_ids :: "store \<Rightarrow> bool" where
  "positive_ids db \<longleftrightarrow>
     (\<forall>r\<in>set (orgs db). 0 < o_id r \<and> o_id r < 2 ^ 63) \<and>
     (\<forall>r\<in>set (workspaces db). \<forall>i. w_org_id r = Some i \<longrightarrow> 0 < i \<and> i < 2 ^ 63)"

definition unique_keys :: "store \<Rightarrow> bool" where
  "unique_keys db \<longleftrightarrow>
     distinct (map o_id (orgs db)) \<and> distinct (map o_slug (orgs db)) \<and>
     distinct (map w_id (workspaces db)) \<and> distinct (map s_id (sessions db))"

definition store_ok :: "store \<Rightarrow> bool" where
  "store_ok db \<longleftrightarrow> positive_ids db \<and> unique_keys db"

end
