(* ===== verification/Policy.thy ===== *)
theory Policy imports Principal Topics Store begin

text \<open>
  Models \<open>src/brains/authz/policy.py\<close>: the deny-by-default gate. Each entity resolver reads the
  \<open>store\<close>; a check that raises returns the HTTP error on the left. \<open>init_db()\<close> only opens the
  store and has no counterpart here.
\<close>

section \<open>Error shapes\<close>

datatype entity_ref = RefNone | RefInt int | RefStr pystr

datatype http_error =
    Unauthenticated string
  | Forbidden string
  | NotFound string entity_ref

fun status_code :: "http_error \<Rightarrow> int" where
  "status_code (Unauthenticated _) = 401"
| "status_code (Forbidden _) = 403"
| "status_code (NotFound _ _) = 404"

definition unauthenticated :: "string \<Rightarrow> http_error" where
  "unauthenticated detail = Unauthenticated detail"

definition forbidden :: "string \<Rightarrow> http_error" where
  "forbidden detail = Forbidden detail"

definition not_found :: "string \<Rightarrow> entity_ref \<Rightarrow> http_error" where
  "not_found kind ref = NotFound kind ref"

lemmas http_error_defs = unauthenticated_def forbidden_def not_found_def

section \<open>Capability checks\<close>

definition require_operator :: "principal \<Rightarrow> string \<Rightarrow> http_error + unit" where
  "require_operator p operation =
     (if is_runtime p
      then Inl (forbidden (''Runtime credentials authorize Runtime operations only; ''
                           @ operation @ '' is refused''))
      else Inr ())"

definition require_scoped_principal :: "principal \<Rightarrow> string \<Rightarrow> http_error + unit" where
  "require_scoped_principal p operation =
     (if \<not> has_any_org_role p
      then Inl (forbidden (operation @ '' requires membership of at least one Org''))
      else Inr ())"

definition require_install_admin :: "principal \<Rightarrow> string \<Rightarrow> http_error + unit" where
  "require_install_admin p operation =
     bind_result (require_operator p operation) (\<lambda>_.
       if \<not> is_bootstrap_admin p
       then Inl (forbidden (operation @ '' is restricted to the install administrator''))
       else Inr ())"

text \<open>\<open>ref if ref is not None else org_id\<close>.\<close>

fun ref_or_org :: "entity_ref \<Rightarrow> int option \<Rightarrow> entity_ref" where
  "ref_or_org RefNone None = RefNone"
| "ref_or_org RefNone (Some i) = RefInt i"
| "ref_or_org ref _ = ref"

definition or_none :: "string option \<Rightarrow> string" where
  "or_none r = (case r of None \<Rightarrow> ''none'' | Some s \<Rightarrow> if s = [] then ''none'' else s)"

definition require_capability ::
    "principal \<Rightarrow> string \<Rightarrow> int option \<Rightarrow> string \<Rightarrow> entity_ref \<Rightarrow> http_error + unit" where
  "require_capability p capability org entity ref =
     (if org = None \<or> \<not> can_see_org p org then Inl (not_found entity (ref_or_org ref org))
      else if \<not> has_capability p capability org
      then Inl (forbidden (capability @ '' requires a higher role in this Org (current role: ''
                           @ or_none (role_in_org p org) @ '')''))
      else Inr ())"

text \<open>\<open>machine_id or org_id\<close>: the empty machine id is falsy.\<close>

definition authorize_runtime_operation ::
    "principal \<Rightarrow> string \<Rightarrow> pystr option \<Rightarrow> int option \<Rightarrow> http_error + unit" where
  "authorize_runtime_operation p operation machine org =
     (if \<not> allows_runtime_operation p operation
      then Inl (forbidden (''Runtime credential is not authorized for '' @ operation))
      else if machine \<noteq> None \<and> \<not> owns_machine p machine
      then Inl (not_found ''runtime'' (RefStr (the machine)))
      else if org \<noteq> None \<and> runtime_org_id p \<noteq> org
      then Inl (not_found ''runtime''
                 (case machine of Some m \<Rightarrow> if m = [] then RefInt (the org) else RefStr m
                                | None \<Rightarrow> RefInt (the org)))
      else Inr ())"

section \<open>Scope resolution\<close>

definition default_org_id :: "store \<Rightarrow> int option" where
  "default_org_id db = map_option o_id (row_by o_slug (lit ''default'') (orgs db))"

definition or_default :: "store \<Rightarrow> int option \<Rightarrow> int option" where
  "or_default db org = (if org \<noteq> None then org else default_org_id db)"

definition workspace_org_id :: "store \<Rightarrow> int option \<Rightarrow> int option" where
  "workspace_org_id db ws =
     (case ws of
        None \<Rightarrow> None
      | Some i \<Rightarrow> (case get_workspace_row db i of
                     None \<Rightarrow> None
                   | Some row \<Rightarrow> or_default db (w_org_id row)))"

definition workspace_declared_org_id :: "store \<Rightarrow> int option \<Rightarrow> int option" where
  "workspace_declared_org_id db ws =
     (case ws of
        None \<Rightarrow> None
      | Some i \<Rightarrow> (case get_workspace_row db i of None \<Rightarrow> None | Some row \<Rightarrow> w_org_id row))"

definition persona_org_id :: "store \<Rightarrow> int option \<Rightarrow> int option" where
  "persona_org_id db persona =
     (case persona of
        None \<Rightarrow> None
      | Some i \<Rightarrow> (case row_by pe_id i (personas db) of None \<Rightarrow> None | Some row \<Rightarrow> pe_org_id row))"

definition project_org_id :: "store \<Rightarrow> int option \<Rightarrow> int option" where
  "project_org_id db project =
     (case project of
        None \<Rightarrow> None
      | Some i \<Rightarrow> map_option pj_org_id (row_by pj_id i (projects db)))"

definition issue_org_id :: "store \<Rightarrow> int option \<Rightarrow> int option" where
  "issue_org_id db issue =
     (case issue of
        None \<Rightarrow> None
      | Some i \<Rightarrow> (case row_by is_id i (issues db) of
                     None \<Rightarrow> None
                   | Some row \<Rightarrow> map_option pj_org_id (row_by pj_id (is_project_id row) (projects db))))"

definition runtime_row_org_id :: "store \<Rightarrow> int option \<Rightarrow> int option" where
  "runtime_row_org_id db runtime =
     (case runtime of
        None \<Rightarrow> None
      | Some i \<Rightarrow> (case row_by rt_id i (runtimes db) of
                     None \<Rightarrow> None
                   | Some row \<Rightarrow> or_default db (rt_org_id row)))"

definition runtime_declared_org_id :: "store \<Rightarrow> int option \<Rightarrow> int option" where
  "runtime_declared_org_id db runtime =
     (case runtime of
        None \<Rightarrow> None
      | Some i \<Rightarrow> (case row_by rt_id i (runtimes db) of None \<Rightarrow> None | Some row \<Rightarrow> rt_org_id row))"

definition pod_org_id :: "store \<Rightarrow> int option \<Rightarrow> int option" where
  "pod_org_id db pod =
     (case pod of
        None \<Rightarrow> None
      | Some i \<Rightarrow>
          (case row_by sq_id i (squads db) of
             None \<Rightarrow> None
           | Some row \<Rightarrow>
               (case (case row_by pp_pod_id i (pod_profiles db) of
                        None \<Rightarrow> None
                      | Some profile \<Rightarrow> pp_org_id profile) of
                  Some org \<Rightarrow> Some org
                | None \<Rightarrow>
                    (case get_workspace_row db (sq_workspace_id row) of
                       None \<Rightarrow> None
                     | Some workspace \<Rightarrow> or_default db (w_org_id workspace)))))"

text \<open>\<open>if not session_id\<close> covers \<open>None\<close> and the empty string.\<close>

definition session_workspace_id :: "store \<Rightarrow> pystr option \<Rightarrow> int option" where
  "session_workspace_id db sid =
     (case sid of
        None \<Rightarrow> None
      | Some i \<Rightarrow> if i = [] then None else map_option s_workspace_id (get_session_row db i))"

definition session_org_id :: "store \<Rightarrow> pystr option \<Rightarrow> int option" where
  "session_org_id db sid =
     (if sid = None \<or> sid = Some [] then None
      else workspace_org_id db (session_workspace_id db sid))"

definition approval_workspace_id :: "store \<Rightarrow> pystr option \<Rightarrow> int option" where
  "approval_workspace_id db code =
     (case code of
        None \<Rightarrow> None
      | Some c \<Rightarrow> if c = [] then None
                  else map_option ak_workspace_id (row_by ak_code c (approvals db)))"

definition approval_org_id :: "store \<Rightarrow> pystr option \<Rightarrow> int option" where
  "approval_org_id db code =
     (if code = None \<or> code = Some [] then None
      else workspace_org_id db (approval_workspace_id db code))"

definition issue_org_id_for_code :: "store \<Rightarrow> pystr option \<Rightarrow> int option" where
  "issue_org_id_for_code db code =
     (case code of
        None \<Rightarrow> None
      | Some c \<Rightarrow> if c = [] then None
                  else (case row_by is_code c (issues db) of
                          None \<Rightarrow> None
                        | Some row \<Rightarrow>
                            map_option pj_org_id (row_by pj_id (is_project_id row) (projects db))))"

section \<open>Workspace visibility\<close>

definition member_workspace_ids :: "store \<Rightarrow> int option \<Rightarrow> int set" where
  "member_workspace_ids db operator =
     (case operator of
        None \<Rightarrow> {}
      | Some i \<Rightarrow> set (map wm_workspace_id (filter (\<lambda>m. wm_operator_id m = i) (memberships db))))"

fun visible_rows :: "store \<Rightarrow> int set \<Rightarrow> int set \<Rightarrow> workspace_row list \<Rightarrow> int set" where
  "visible_rows db org_ids member_ids [] = {}"
| "visible_rows db org_ids member_ids (w # ws) =
     (let rest = visible_rows db org_ids member_ids ws
      in case or_default db (w_org_id w) of
           None \<Rightarrow> rest
         | Some effective_org \<Rightarrow>
             if effective_org \<notin> org_ids then rest
             else if w_visibility w = ''private'' \<and> w_id w \<notin> member_ids then rest
             else insert (w_id w) rest)"

definition visible_workspace_ids :: "store \<Rightarrow> principal option \<Rightarrow> int set option" where
  "visible_workspace_ids db who =
     (case who of
        None \<Rightarrow> Some {}
      | Some p \<Rightarrow>
          if is_bootstrap_admin p then None
          else (case visible_org_ids p of
                  None \<Rightarrow> None
                | Some org_ids \<Rightarrow>
                    Some (visible_rows db org_ids (member_workspace_ids db (operator_id p))
                            (workspaces db))))"

definition can_see_workspace :: "store \<Rightarrow> principal option \<Rightarrow> int option \<Rightarrow> bool" where
  "can_see_workspace db who ws =
     (case (who, ws) of
        (Some p, Some i) \<Rightarrow> (case visible_workspace_ids db who of
                               None \<Rightarrow> True
                             | Some visible \<Rightarrow> i \<in> visible)
      | _ \<Rightarrow> False)"

text \<open>A listing row is its optional \<open>workspace_id\<close> and the rest of the dict.\<close>

definition scope_sessions ::
    "store \<Rightarrow> principal option \<Rightarrow> (int option \<times> 'a) list \<Rightarrow> (int option \<times> 'a) list" where
  "scope_sessions db who rows =
     (case visible_workspace_ids db who of
        None \<Rightarrow> rows
      | Some visible \<Rightarrow>
          filter (\<lambda>row. case fst row of None \<Rightarrow> False | Some i \<Rightarrow> i \<in> visible) rows)"

definition require_workspace_capability ::
    "store \<Rightarrow> principal \<Rightarrow> string \<Rightarrow> int option \<Rightarrow> string \<Rightarrow> entity_ref \<Rightarrow> http_error + int option"
where
  "require_workspace_capability db p capability ws entity ref =
     (let org = workspace_org_id db ws
      in bind_result (require_capability p capability org entity ref) (\<lambda>_.
           if \<not> can_see_workspace db (Some p) ws then Inl (not_found entity ref)
           else Inr org))"

section \<open>Visibility facts\<close>

lemma visible_rows_iff:
  "i \<in> visible_rows db os ms ws \<longleftrightarrow>
     (\<exists>w\<in>set ws. w_id w = i \<and> (\<exists>org. or_default db (w_org_id w) = Some org \<and> org \<in> os) \<and>
        (w_visibility w = ''private'' \<longrightarrow> i \<in> ms))"
  by (induction ws) (auto simp: Let_def split: option.splits)

lemma get_workspace_row_iff:
  "distinct (map w_id (workspaces db)) \<Longrightarrow>
     get_workspace_row db i = Some w \<longleftrightarrow> w \<in> set (workspaces db) \<and> w_id w = i"
  by (auto simp: get_workspace_row_def dest: row_by_Some_iff_key row_by_distinct)

lemma unique_keys_workspaces: "unique_keys db \<Longrightarrow> distinct (map w_id (workspaces db))"
  by (simp add: unique_keys_def)

lemma can_see_workspace_filtered:
  assumes "unique_keys db" and "visible_org_ids p = Some os"
  shows "can_see_workspace db (Some p) (Some i) \<longleftrightarrow>
     (\<exists>w org. get_workspace_row db i = Some w \<and> workspace_org_id db (Some i) = Some org \<and> org \<in> os \<and>
        (w_visibility w = ''private'' \<longrightarrow> i \<in> member_workspace_ids db (operator_id p)))"
proof -
  have nb: "\<not> is_bootstrap_admin p" using assms(2) by (auto simp: visible_org_ids_def)
  note row = get_workspace_row_iff[OF unique_keys_workspaces[OF assms(1)]]
  have org: "get_workspace_row db i = Some w \<Longrightarrow>
      workspace_org_id db (Some i) = or_default db (w_org_id w)" for w
    by (simp add: workspace_org_id_def)
  have "can_see_workspace db (Some p) (Some i) \<longleftrightarrow>
      i \<in> visible_rows db os (member_workspace_ids db (operator_id p)) (workspaces db)"
    by (simp add: can_see_workspace_def visible_workspace_ids_def nb assms(2))
  also have "\<dots> \<longleftrightarrow> (\<exists>w. get_workspace_row db i = Some w \<and>
      (\<exists>org. or_default db (w_org_id w) = Some org \<and> org \<in> os) \<and>
      (w_visibility w = ''private'' \<longrightarrow> i \<in> member_workspace_ids db (operator_id p)))"
    unfolding visible_rows_iff row by blast
  also have "\<dots> \<longleftrightarrow> (\<exists>w org. get_workspace_row db i = Some w \<and>
      workspace_org_id db (Some i) = Some org \<and> org \<in> os \<and>
      (w_visibility w = ''private'' \<longrightarrow> i \<in> member_workspace_ids db (operator_id p)))"
    using org by fastforce
  finally show ?thesis .
qed

lemma require_capability_Inr:
  "require_capability p cap org entity ref = Inr u \<longleftrightarrow> has_capability p cap org"
  using has_capability_imp_see[of p cap org] by (auto simp: require_capability_def)

lemma require_workspace_capability_Inr:
  "require_workspace_capability db p cap ws entity ref = Inr org \<longleftrightarrow>
     has_capability p cap org \<and> org = workspace_org_id db ws \<and> can_see_workspace db (Some p) ws"
  by (auto simp: require_workspace_capability_def Let_def result_simps require_capability_Inr)

lemma require_capability_unseen:
  "\<not> can_see_org p org \<Longrightarrow> ref \<noteq> RefNone \<Longrightarrow>
     require_capability p cap org entity ref = Inl (NotFound entity ref)"
  by (cases ref) (auto simp: require_capability_def http_error_defs)

section \<open>Properties\<close>

text \<open>The three answers of the capability gate. It passes exactly when the capability is held; a
  403 is given only to a principal that may already see the Org; and whoever may not see the Org
  (because there is none, or it is another tenant's) gets a 404 that, for an explicit entity
  reference, is the same for every principal, every capability and every Org, so it discloses
  nothing.\<close>

theorem require_capability_answers:
  "(require_capability p cap org entity ref = Inr () \<longleftrightarrow> has_capability p cap org) \<and>
   ((\<exists>e. require_capability p cap org entity ref = Inl e \<and> status_code e = 403) \<longleftrightarrow>
      can_see_org p org \<and> \<not> has_capability p cap org) \<and>
   (\<not> can_see_org p org \<and> ref \<noteq> RefNone \<longrightarrow>
      require_capability p cap org entity ref = Inl (NotFound entity ref))"
  using has_capability_imp_see[of p cap org] require_capability_unseen[of p org ref cap entity]
  by (auto simp: require_capability_def http_error_defs)

theorem require_capability_answers_witness:
  "require_capability sample_operator CAP_ORG_READ (Some 9) ''issue'' (RefInt 4) =
     Inl (NotFound ''issue'' (RefInt 4))"
proof -
  have "\<not> can_see_org sample_operator (Some 9)"
    by (simp add: can_see_org_def has_capability_read role_in_org_def role_of_def)
  then show ?thesis
    using require_capability_answers[of sample_operator CAP_ORG_READ "Some 9" "''issue''" "RefInt 4"]
    by simp
qed

text \<open>List and detail agree. For a principal that is not the bootstrap admin and whose roles are
  known, a Workspace is in the listing filter exactly when the per-id gate for reading answers
  with its Org; otherwise the gate answers the same 404 as for a Workspace that does not
  exist.\<close>

theorem workspace_list_detail_agree:
  assumes "unique_keys db" and "known_roles p" and "\<not> is_runtime p" and "\<not> is_bootstrap_admin p"
    and "ref \<noteq> RefNone"
  shows "require_workspace_capability db p CAP_ORG_READ (Some i) entity ref =
     (if i \<in> the (visible_workspace_ids db (Some p))
      then Inr (workspace_org_id db (Some i)) else Inl (NotFound entity ref))"
proof -
  obtain os where os: "visible_org_ids p = Some os" and osd: "os = set (map fst (org_roles p))"
    using assms by (simp add: visible_org_ids_def)
  have vis: "i \<in> the (visible_workspace_ids db (Some p)) \<longleftrightarrow> can_see_workspace db (Some p) (Some i)"
    by (simp add: can_see_workspace_def visible_workspace_ids_def assms os)
  have cap: "has_capability p CAP_ORG_READ (Some j) \<longleftrightarrow> j \<in> os" for j
    using can_see_org_visible[of p j] assms os by (simp add: can_see_org_def)
  have see: "can_see_workspace db (Some p) (Some i) \<Longrightarrow>
      has_capability p CAP_ORG_READ (workspace_org_id db (Some i))"
    using can_see_workspace_filtered[OF assms(1) os, of i] cap by auto
  have nf: "\<not> can_see_org p (workspace_org_id db (Some i)) \<longleftrightarrow>
      \<not> has_capability p CAP_ORG_READ (workspace_org_id db (Some i))"
    using assms by (auto simp: can_see_org_def split: option.splits)
  show ?thesis
  proof (cases "can_see_workspace db (Some p) (Some i)")
    case True
    then show ?thesis
      using see vis require_workspace_capability_Inr[of db p CAP_ORG_READ "Some i" entity ref]
      by simp
  next
    case False
    then show ?thesis
      using vis nf assms(5) require_capability_unseen[of p "workspace_org_id db (Some i)" ref]
        require_capability_Inr[of p CAP_ORG_READ "workspace_org_id db (Some i)" entity ref]
      by (cases "has_capability p CAP_ORG_READ (workspace_org_id db (Some i))")
         (auto simp: require_workspace_capability_def Let_def http_error_defs)
  qed
qed

definition sample_store :: store where
  "sample_store = empty_store\<lparr>
     orgs := [\<lparr>o_id = 1, o_slug = lit ''default''\<rparr>, \<lparr>o_id = 2, o_slug = lit ''lab''\<rparr>],
     operators := [\<lparr>op_id = 5, op_slug = ''kim''\<rparr>],
     workspaces := [\<lparr>w_id = 10, w_path = lit ''/a'', w_visibility = ''org'', w_org_id = None\<rparr>,
       \<lparr>w_id = 11, w_path = lit ''/b'', w_visibility = ''private'', w_org_id = Some 2\<rparr>]\<rparr>"

lemma sample_store_ok: "store_ok sample_store"
  by (simp add: store_ok_def sample_store_def empty_store_def positive_ids_def unique_keys_def)

theorem workspace_list_detail_agree_witness:
  "require_workspace_capability sample_store sample_operator CAP_ORG_READ (Some 11) ''workspace''
     (RefInt 11) = Inl (NotFound ''workspace'' (RefInt 11))"
  using workspace_list_detail_agree[of sample_store sample_operator "RefInt 11" 11 "''workspace''"]
    sample_store_ok
  by (simp add: sample_known_roles store_ok_def visible_workspace_ids_def visible_org_ids_def
      sample_store_def empty_store_def member_workspace_ids_def Let_def or_default_def
      default_org_id_def)

end
