(* ===== verification/Bus.thy ===== *)
theory Bus imports Prelude begin

text \<open>
  Models \<open>src/brains/events/bus.py\<close>: the in-process notifier. A subscription holds its topics, its
  delivery scope and its queue; \<open>publish\<close> numbers an envelope and fans it out to the subscriptions
  of its topic whose scope admits it. One operation of the bus is one step here: the lock makes the
  changes of the subscription set atomic, and a fan-out reads the set once. The invariant at the
  end speaks of every sequence of such steps.
\<close>

section \<open>Scopes and envelopes\<close>

text \<open>\<open>None\<close> is "no filter"; an empty set is "nothing".\<close>

record subscription_scope =
  sc_org_ids :: "int set option"
  sc_workspace_ids :: "int set option"

text \<open>The frame \<open>{v, type, entity, id, topic, ts, payload, seq, ...}\<close>; \<open>'p\<close> is the payload.\<close>

record 'p envelope =
  ev_type :: pystr
  ev_topic :: "pystr option"
  ev_ts :: instant
  ev_payload :: 'p
  ev_seq :: "nat option"
  ev_event_id :: "int option"
  ev_durable :: bool
  ev_org_id :: "int option"
  ev_workspace_id :: "int option"

definition scope_allows :: "subscription_scope \<Rightarrow> int option \<Rightarrow> int option \<Rightarrow> bool" where
  "scope_allows sc org ws =
     (if (case (sc_org_ids sc, org) of (Some ids, Some i) \<Rightarrow> i \<notin> ids | _ \<Rightarrow> False) then False
      else \<not> (case (sc_workspace_ids sc, ws) of (Some ids, Some i) \<Rightarrow> i \<notin> ids | _ \<Rightarrow> False))"

definition allows :: "subscription_scope \<Rightarrow> 'p envelope \<Rightarrow> bool" where
  "allows sc env = scope_allows sc (ev_org_id env) (ev_workspace_id env)"

definition UNSCOPED :: subscription_scope where
  "UNSCOPED = \<lparr>sc_org_ids = None, sc_workspace_ids = None\<rparr>"

section \<open>Subscriptions and the bus\<close>

text \<open>
  The event loop a subscription was created on: none, one that runs, one that has stopped, or one
  that is closed under a delivery, where \<open>call_soon_threadsafe\<close> raises \<open>RuntimeError\<close>.
\<close>

datatype loop_state = NoLoop | LoopRunning | LoopStopped | LoopClosed

record 'p subscription =
  sub_id :: nat
  sub_topics :: "pystr set"
  sub_scope :: subscription_scope
  sub_loop :: loop_state
  sub_queue :: "'p envelope list"

record 'p event_bus =
  subs :: "'p subscription list"
  next_sub :: nat
  next_seq :: nat

definition new_bus :: "'p event_bus" where
  "new_bus = \<lparr>subs = [], next_sub = 0, next_seq = 1\<rparr>"

definition deliver_one :: "'p envelope \<Rightarrow> 'p subscription \<Rightarrow> 'p subscription" where
  "deliver_one env s =
     (if \<not> allows (sub_scope s) env then s
      else case sub_loop s of
             LoopClosed \<Rightarrow> s
           | _ \<Rightarrow> s\<lparr>sub_queue := sub_queue s @ [env]\<rparr>)"

definition subscribe ::
    "pystr set \<Rightarrow> subscription_scope \<Rightarrow> loop_state \<Rightarrow> 'p event_bus \<Rightarrow> nat \<times> 'p event_bus" where
  "subscribe topics sc lp b =
     (next_sub b,
      b\<lparr>subs := subs b @ [\<lparr>sub_id = next_sub b, sub_topics = topics, sub_scope = sc,
                           sub_loop = lp, sub_queue = []\<rparr>],
        next_sub := next_sub b + 1\<rparr>)"

definition remove_sub :: "nat \<Rightarrow> 'p event_bus \<Rightarrow> 'p event_bus" where
  "remove_sub i b = b\<lparr>subs := filter (\<lambda>s. sub_id s \<noteq> i) (subs b)\<rparr>"

text \<open>The four keyword arguments of \<open>_mutate\<close>; \<open>if add\<close> skips the empty set, which adds nothing.\<close>

definition mutate_sub ::
    "pystr set option \<Rightarrow> pystr set option \<Rightarrow> pystr set option \<Rightarrow> subscription_scope option
     \<Rightarrow> 'p subscription \<Rightarrow> 'p subscription" where
  "mutate_sub add rem repl sc s =
     (let t1 = (case repl of None \<Rightarrow> sub_topics s | Some r \<Rightarrow> r);
          t2 = (case add of None \<Rightarrow> t1 | Some a \<Rightarrow> t1 \<union> a);
          t3 = (case rem of None \<Rightarrow> t2 | Some r \<Rightarrow> t2 - r)
      in s\<lparr>sub_topics := t3, sub_scope := (case sc of None \<Rightarrow> sub_scope s | Some c \<Rightarrow> c)\<rparr>)"

definition mutate ::
    "nat \<Rightarrow> pystr set option \<Rightarrow> pystr set option \<Rightarrow> pystr set option \<Rightarrow> subscription_scope option
     \<Rightarrow> 'p event_bus \<Rightarrow> 'p event_bus" where
  "mutate i add rem repl sc b =
     b\<lparr>subs := update_where (\<lambda>s. sub_id s = i) (mutate_sub add rem repl sc) (subs b)\<rparr>"

definition add_topics :: "nat \<Rightarrow> pystr set \<Rightarrow> 'p event_bus \<Rightarrow> 'p event_bus" where
  "add_topics i ts = mutate i (Some ts) None None None"

definition remove_topics :: "nat \<Rightarrow> pystr set \<Rightarrow> 'p event_bus \<Rightarrow> 'p event_bus" where
  "remove_topics i ts = mutate i None (Some ts) None None"

definition set_scope :: "nat \<Rightarrow> subscription_scope \<Rightarrow> 'p event_bus \<Rightarrow> 'p event_bus" where
  "set_scope i sc = mutate i None None None (Some sc)"

definition replace_topics :: "nat \<Rightarrow> pystr set \<Rightarrow> 'p event_bus \<Rightarrow> 'p event_bus" where
  "replace_topics i ts = mutate i None None (Some ts) None"

definition in_topic :: "'p envelope \<Rightarrow> 'p subscription \<Rightarrow> bool" where
  "in_topic env s \<longleftrightarrow> (case ev_topic env of None \<Rightarrow> False | Some t \<Rightarrow> t \<in> sub_topics s)"

definition deliver :: "'p envelope \<Rightarrow> 'p event_bus \<Rightarrow> 'p envelope \<times> 'p event_bus" where
  "deliver env b =
     (let env' = (case ev_seq env of None \<Rightarrow> env\<lparr>ev_seq := Some (next_seq b)\<rparr> | Some _ \<Rightarrow> env);
          seq' = (case ev_seq env of None \<Rightarrow> next_seq b + 1 | Some _ \<Rightarrow> next_seq b)
      in (env', b\<lparr>subs := update_where (in_topic env') (deliver_one env') (subs b),
                  next_seq := seq'\<rparr>))"

definition publish ::
    "pystr \<Rightarrow> pystr \<Rightarrow> 'p \<Rightarrow> int option \<Rightarrow> int option \<Rightarrow> instant \<Rightarrow> 'p event_bus
     \<Rightarrow> 'p envelope \<times> 'p event_bus" where
  "publish topic type payload org ws now b =
     deliver \<lparr>ev_type = type, ev_topic = Some topic, ev_ts = now, ev_payload = payload,
              ev_seq = Some (next_seq b), ev_event_id = None, ev_durable = False,
              ev_org_id = org, ev_workspace_id = ws\<rparr>
       (b\<lparr>next_seq := next_seq b + 1\<rparr>)"

definition subscriber_count :: "pystr option \<Rightarrow> 'p event_bus \<Rightarrow> nat" where
  "subscriber_count topic b =
     (case topic of
        None \<Rightarrow> length (subs b)
      | Some t \<Rightarrow> length (filter (\<lambda>s. t \<in> sub_topics s) (subs b)))"

text \<open>\<open>get\<close> takes the oldest envelope; an empty queue waits, which is \<open>None\<close> here.\<close>

definition get_next :: "'p subscription \<Rightarrow> ('p envelope \<times> 'p subscription) option" where
  "get_next s = (case sub_queue s of [] \<Rightarrow> None | e # es \<Rightarrow> Some (e, s\<lparr>sub_queue := es\<rparr>))"

section \<open>Every sequence of operations\<close>

inductive bus_step :: "'p event_bus \<Rightarrow> 'p event_bus \<Rightarrow> bool" where
  step_subscribe: "bus_step b (snd (subscribe ts sc lp b))"
| step_remove: "bus_step b (remove_sub i b)"
| step_mutate: "bus_step b (mutate i add rem repl sc b)"
| step_publish: "bus_step b (snd (publish topic type payload org ws now b))"
| step_deliver: "ev_seq env = None \<Longrightarrow> bus_step b (snd (deliver env b))"
| step_get: "\<lbrakk>s \<in> set (subs b); get_next s = Some (e, s')\<rbrakk> \<Longrightarrow>
    bus_step b (b\<lparr>subs := update_where (\<lambda>x. sub_id x = sub_id s) (\<lambda>_. s') (subs b)\<rparr>)"

inductive_simps bus_step_iff: "bus_step b b'"

inductive bus_reachable :: "'p event_bus \<Rightarrow> bool" where
  initial: "bus_reachable new_bus"
| step: "\<lbrakk>bus_reachable b; bus_step b b'\<rbrakk> \<Longrightarrow> bus_reachable b'"

definition seqs :: "'p subscription \<Rightarrow> nat list" where
  "seqs s = map (\<lambda>e. the (ev_seq e)) (sub_queue s)"

definition sub_ok :: "nat \<Rightarrow> 'p subscription \<Rightarrow> bool" where
  "sub_ok n s \<longleftrightarrow>
     sorted_wrt (<) (seqs s) \<and> (\<forall>e\<in>set (sub_queue s). \<exists>k<n. ev_seq e = Some k)"

definition bus_ok :: "'p event_bus \<Rightarrow> bool" where
  "bus_ok b \<longleftrightarrow>
     distinct (map sub_id (subs b)) \<and> (\<forall>s\<in>set (subs b). sub_id s < next_sub b) \<and>
     (\<forall>s\<in>set (subs b). sub_ok (next_seq b) s)"

lemma sub_ok_mono: "sub_ok n s \<Longrightarrow> n \<le> m \<Longrightarrow> sub_ok m s"
  by (fastforce simp: sub_ok_def)

lemma sub_ok_append:
  "sub_ok n s \<Longrightarrow> ev_seq env = Some n \<Longrightarrow> sub_ok (Suc n) (s\<lparr>sub_queue := sub_queue s @ [env]\<rparr>)"
  by (fastforce simp: sub_ok_def seqs_def sorted_wrt_append)

lemma deliver_one_ok: "sub_ok n s \<Longrightarrow> ev_seq env = Some n \<Longrightarrow> sub_ok (Suc n) (deliver_one env s)"
  by (auto simp: deliver_one_def sub_ok_append split: loop_state.split intro: sub_ok_mono)

lemma deliver_one_id [simp]: "sub_id (deliver_one env s) = sub_id s"
  by (simp add: deliver_one_def split: loop_state.split)

lemma mutate_sub_keeps [simp]:
  "sub_id (mutate_sub a r rp sc s) = sub_id s" "sub_queue (mutate_sub a r rp sc s) = sub_queue s"
  by (simp_all add: mutate_sub_def Let_def)

lemma sub_ok_queue: "sub_queue s' = sub_queue s \<Longrightarrow> sub_ok n s' = sub_ok n s"
  by (simp add: sub_ok_def seqs_def)

lemma get_next_ok: "sub_ok n s \<Longrightarrow> get_next s = Some (e, s') \<Longrightarrow> sub_ok n s' \<and> sub_id s' = sub_id s"
  by (auto simp: get_next_def sub_ok_def seqs_def split: list.splits)

lemma publish_subs:
  "subs (snd (publish topic type payload org ws now b)) =
     (let env = fst (publish topic type payload org ws now b)
      in update_where (in_topic env) (deliver_one env) (subs b))"
  "next_seq (snd (publish topic type payload org ws now b)) = next_seq b + 1"
  "next_sub (snd (publish topic type payload org ws now b)) = next_sub b"
  "ev_seq (fst (publish topic type payload org ws now b)) = Some (next_seq b)"
  by (simp_all add: publish_def deliver_def Let_def)

text \<open>An envelope without a number, one built from a stored event, takes the next one.\<close>

lemma deliver_unnumbered:
  assumes "ev_seq env = None"
  shows "subs (snd (deliver env b)) = update_where (in_topic env) (deliver_one (env\<lparr>ev_seq := Some (next_seq b)\<rparr>)) (subs b)"
    "next_seq (snd (deliver env b)) = next_seq b + 1" "next_sub (snd (deliver env b)) = next_sub b"
proof -
  have "in_topic (env\<lparr>ev_seq := n\<rparr>) = in_topic env" for n by (simp add: in_topic_def fun_eq_iff)
  then show "subs (snd (deliver env b)) = update_where (in_topic env) (deliver_one (env\<lparr>ev_seq := Some (next_seq b)\<rparr>)) (subs b)"
    using assms by (simp add: deliver_def Let_def)
qed (simp_all add: deliver_def Let_def assms)

lemma bus_step_ok:
  assumes "bus_ok b" and "bus_step b b'"
  shows "bus_ok b'"
  using assms(2)
proof cases
  case (step_subscribe ts sc lp)
  then show ?thesis
    using assms(1)
    by (fastforce simp: bus_ok_def subscribe_def sub_ok_def seqs_def image_iff)
next
  case (step_remove i)
  then show ?thesis
    using assms(1) by (auto simp: bus_ok_def remove_sub_def distinct_map inj_on_def)
next
  case (step_mutate i a r rp sc)
  have m: "map sub_id (subs b') = map sub_id (subs b)"
    by (simp add: step_mutate mutate_def map_update_where)
  show ?thesis
    using assms(1) m
    by (auto simp: bus_ok_def step_mutate mutate_def dest!: set_update_where
        intro: sub_ok_queue[THEN iffD2, rotated])
next
  case (step_publish topic type payload org ws now)
  let ?p = "publish topic type payload org ws now b"
  have m: "map sub_id (subs b') = map sub_id (subs b)"
    by (simp add: step_publish publish_subs Let_def map_update_where)
  show ?thesis
    using assms(1) m publish_subs(4)[of topic type payload org ws now b]
    by (auto simp: bus_ok_def step_publish publish_subs Let_def dest!: set_update_where
        intro: deliver_one_ok sub_ok_mono)
next
  case (step_deliver env)
  note d = deliver_unnumbered[OF step_deliver(2), of b]
  have m: "map sub_id (subs b') = map sub_id (subs b)"
    by (simp add: step_deliver(1) d map_update_where)
  show ?thesis
    using assms(1) m
    by (auto simp: bus_ok_def step_deliver(1) d dest!: set_update_where intro!: deliver_one_ok intro: sub_ok_mono)
next
  case (step_get s e s')
  then have ok: "sub_ok (next_seq b) s'" "sub_id s' = sub_id s"
    using assms(1) get_next_ok[of "next_seq b" s e s'] by (auto simp: bus_ok_def)
  then have m: "map sub_id (subs b') = map sub_id (subs b)"
    unfolding step_get by (simp, intro map_update_where) simp
  show ?thesis
    using assms(1) ok m by (auto simp: bus_ok_def step_get dest!: set_update_where)
qed

lemma bus_reachable_ok: "bus_reachable b \<Longrightarrow> bus_ok b"
proof (induction rule: bus_reachable.induct)
  case initial
  show ?case by (simp add: new_bus_def bus_ok_def)
next
  case (step b b')
  then show ?case by (blast intro: bus_step_ok)
qed

lemma deliver_one_queue:
  "sub_queue (deliver_one env s) =
     sub_queue s @ (if allows (sub_scope s) env \<and> sub_loop s \<noteq> LoopClosed then [env] else [])"
  by (auto simp: deliver_one_def split: loop_state.splits)

section \<open>Properties\<close>

text \<open>Delivery isolation. Publishing an envelope appends it to the queue of exactly the
  subscriptions that listen on its topic, whose scope admits its Org and Workspace, and whose event
  loop accepts it; every other queue, every topic set and every scope stay as they were. So an
  envelope recorded in another Org never reaches a subscription scoped away from that Org, whatever
  topic it was published on.\<close>

theorem publish_isolation:
  assumes "publish topic type payload org ws now b = (env, b')"
  shows "map (\<lambda>s. (sub_id s, sub_topics s, sub_scope s)) (subs b') =
      map (\<lambda>s. (sub_id s, sub_topics s, sub_scope s)) (subs b) \<and>
    (\<forall>i s. row_by sub_id i (subs b) = Some s \<longrightarrow>
      (\<exists>s'. row_by sub_id i (subs b') = Some s' \<and>
        sub_queue s' = sub_queue s @
          (if topic \<in> sub_topics s \<and> scope_allows (sub_scope s) org ws \<and> sub_loop s \<noteq> LoopClosed
           then [env] else [])))"
proof -
  have env: "ev_topic env = Some topic" "ev_org_id env = org" "ev_workspace_id env = ws"
    using assms by (auto simp: publish_def deliver_def Let_def)
  have b': "subs b' = update_where (in_topic env) (deliver_one env) (subs b)"
    using assms publish_subs(1)[of topic type payload org ws now b] by (simp add: Let_def)
  have keep: "sub_topics (deliver_one env s) = sub_topics s"
    "sub_scope (deliver_one env s) = sub_scope s" for s
    by (simp_all add: deliver_one_def split: loop_state.split)
  show ?thesis
    by (auto simp: b' map_update_where keep row_by_update_key deliver_one_queue allows_def env
        in_topic_def)
qed

theorem publish_isolation_witness:
  "\<exists>env b'. publish (lit ''t'') (lit ''x'') () (Some 2) None 0
       (snd (subscribe {lit ''t''} \<lparr>sc_org_ids = Some {1}, sc_workspace_ids = None\<rparr> NoLoop new_bus))
     = (env, b') \<and> map sub_queue (subs b') = [[]]"
proof -
  let ?b = "snd (subscribe {lit ''t''} \<lparr>sc_org_ids = Some {1}, sc_workspace_ids = None\<rparr> NoLoop new_bus)"
  obtain env b' where p: "publish (lit ''t'') (lit ''x'') () (Some 2) None 0 ?b = (env, b')"
    by fastforce
  obtain s where s: "subs b' = [s]" "sub_id s = 0"
    using publish_isolation[OF p] by (auto simp: subscribe_def new_bus_def)
  have "row_by sub_id 0 (subs ?b) = Some (hd (subs ?b))"
    by (simp add: subscribe_def new_bus_def)
  then have "sub_queue s = []"
    using conjunct2[OF publish_isolation[OF p], rule_format, of 0 "hd (subs ?b)"] s
    by (simp add: subscribe_def new_bus_def scope_allows_def)
  then show ?thesis using p s by simp
qed

text \<open>Order of delivery. Whatever subscriptions come and go and however they are re-scoped, in
  every state the bus can reach by its operations the published envelopes waiting in a queue carry
  strictly increasing sequence numbers, all below the next number to be given out: no envelope is
  delivered twice or overtaken, and no number is reused.\<close>

theorem bus_order:
  assumes "bus_reachable b" and "s \<in> set (subs b)"
  shows "sorted_wrt (<) (seqs s) \<and> (\<forall>e\<in>set (sub_queue s). \<exists>k<next_seq b. ev_seq e = Some k)"
  using bus_reachable_ok[OF assms(1)] assms(2) by (auto simp: bus_ok_def sub_ok_def)

theorem bus_order_witness:
  "\<exists>s. subs (snd (publish (lit ''t'') (lit ''x'') () None None 0
       (snd (subscribe {lit ''t''} UNSCOPED NoLoop new_bus)))) = [s] \<and> sorted_wrt (<) (seqs s)"
proof -
  let ?b = "snd (publish (lit ''t'') (lit ''x'') () None None 0
       (snd (subscribe {lit ''t''} UNSCOPED NoLoop new_bus)))"
  have r: "bus_reachable ?b"
    by (rule bus_reachable.step[OF bus_reachable.step[OF bus_reachable.initial step_subscribe]
          step_publish])
  obtain s where s: "subs ?b = [s]"
    by (simp add: publish_subs Let_def subscribe_def new_bus_def)
  then show ?thesis using bus_order[OF r, of s] by simp
qed

end
