(* ===== verification/TopicPolicy.thy ===== *)
theory TopicPolicy imports Policy Bus begin

text \<open>
  Models the realtime half of \<open>src/brains/authz/policy.py\<close>: \<open>resolve_topic\<close> turns a requested topic
  into a server-derived grant or refuses it without a reason, \<open>authorize_topics\<close> splits a request,
  and \<open>subscription_scope\<close> is the delivery filter of \<open>src/brains/events/bus.py\<close> that stands behind
  topic authorization.
\<close>

section \<open>Reading ids out of topics\<close>

definition as_int :: "pystr \<Rightarrow> int option" where
  "as_int raw = py_int raw"

section \<open>Scope of the named entity\<close>

record topic_grant =
  g_topic :: pystr
  g_requested :: pystr
  g_family :: pystr
  g_channel :: pystr
  g_entity :: string
  g_reference :: pystr
  g_org_id :: "int option"
  g_workspace_id :: "int option"
  g_capability :: string

definition org_id_for_reference :: "store \<Rightarrow> pystr \<Rightarrow> int option" where
  "org_id_for_reference db reference =
     (if reference = DEFAULT_ORG_ALIAS then default_org_id db
      else case as_int reference of
             Some i \<Rightarrow> map_option o_id (row_by o_id i (orgs db))
           | None \<Rightarrow> map_option o_id (row_by o_slug reference (orgs db)))"

text \<open>The set of Orgs a machine's Runtimes declare, as a list without repetition.\<close>

definition machine_declared_org_ids :: "store \<Rightarrow> pystr \<Rightarrow> int list" where
  "machine_declared_org_ids db machine =
     (if machine = [] then []
      else remdups (concat (map (\<lambda>r. case rt_org_id r of None \<Rightarrow> [] | Some i \<Rightarrow> [i])
                             (filter (\<lambda>r. rt_machine_id r = machine) (runtimes db)))))"

fun single :: "int list \<Rightarrow> int option" where
  "single [i] = Some i"
| "single _ = None"

definition machine_declared_org_id :: "store \<Rightarrow> pystr \<Rightarrow> int option" where
  "machine_declared_org_id db machine = single (machine_declared_org_ids db machine)"

definition machine_is_known :: "store \<Rightarrow> pystr \<Rightarrow> bool" where
  "machine_is_known db machine \<longleftrightarrow>
     machine \<noteq> [] \<and> (\<exists>r\<in>set (runtimes db). rt_machine_id r = machine)"

definition runtime_binding :: "store \<Rightarrow> int option \<Rightarrow> (pystr \<times> int option) option" where
  "runtime_binding db runtime =
     (case runtime of
        None \<Rightarrow> None
      | Some i \<Rightarrow> map_option (\<lambda>r. (rt_machine_id r, rt_org_id r)) (row_by rt_id i (runtimes db)))"

definition session_binding ::
    "store \<Rightarrow> pystr \<Rightarrow> (int \<times> pystr option \<times> int option) option" where
  "session_binding db sid =
     map_option (\<lambda>r. (s_workspace_id r, s_machine_id r, s_runtime_id r)) (get_session_row db sid)"

definition runtime_may_own_org :: "store \<Rightarrow> principal \<Rightarrow> int option \<Rightarrow> bool" where
  "runtime_may_own_org db p declared =
     (if declared = None then True
      else if declared = default_org_id db then True
      else declared = runtime_org_id p)"

section \<open>Resolving a topic\<close>

definition mk_grant ::
    "parsed_topic \<Rightarrow> pystr \<Rightarrow> pystr \<Rightarrow> int option \<Rightarrow> int option \<Rightarrow> topic_error + pystr
     \<Rightarrow> topic_error + topic_grant option" where
  "mk_grant parsed requested reference org ws built =
     bind_result built (\<lambda>topic.
       Inr (Some \<lparr>g_topic = topic, g_requested = requested, g_family = t_family parsed,
                  g_channel = t_channel parsed, g_entity = t_entity parsed,
                  g_reference = reference, g_org_id = org, g_workspace_id = ws,
                  g_capability = CAP_ORG_READ\<rparr>))"

definition resolve_org ::
    "store \<Rightarrow> principal \<Rightarrow> parsed_topic \<Rightarrow> pystr \<Rightarrow> topic_error + topic_grant option" where
  "resolve_org db p parsed requested =
     (case org_id_for_reference db (t_reference parsed) of
        None \<Rightarrow> Inr None
      | Some i \<Rightarrow>
          if is_runtime p \<or> \<not> can_see_org p (Some i) then Inr None
          else mk_grant parsed requested (str_of_int i) (Some i) None
                 (org_topic (PInt i) (t_channel parsed)))"

definition resolve_issue ::
    "store \<Rightarrow> principal \<Rightarrow> parsed_topic \<Rightarrow> pystr \<Rightarrow> topic_error + topic_grant option" where
  "resolve_issue db p parsed requested =
     (case issue_org_id_for_code db (Some (t_reference parsed)) of
        None \<Rightarrow> Inr None
      | Some i \<Rightarrow>
          if is_runtime p \<or> \<not> can_see_org p (Some i) then Inr None
          else mk_grant parsed requested (t_reference parsed) (Some i) None
                 (issue_topic (PStr (t_reference parsed))))"

definition resolve_session ::
    "store \<Rightarrow> principal \<Rightarrow> parsed_topic \<Rightarrow> pystr \<Rightarrow> topic_error + topic_grant option" where
  "resolve_session db p parsed requested =
     (case session_binding db (t_reference parsed) of
        None \<Rightarrow> Inr None
      | Some (ws, machine, runtime) \<Rightarrow>
          let org = workspace_org_id db (Some ws);
              refused =
                (if is_runtime p
                 then machine = None \<or> machine = Some [] \<or> \<not> owns_machine p machine
                      \<or> \<not> runtime_may_own_org db p (workspace_declared_org_id db (Some ws))
                      \<or> (runtime \<noteq> None
                         \<and> \<not> runtime_may_own_org db p (runtime_declared_org_id db runtime))
                 else \<not> (can_see_org p org \<and> can_see_workspace db (Some p) (Some ws)))
          in if refused then Inr None
             else mk_grant parsed requested (t_reference parsed) org (Some ws)
                    (session_topic (PStr (t_reference parsed)) (t_channel parsed)))"

definition resolve_machine ::
    "store \<Rightarrow> principal \<Rightarrow> parsed_topic \<Rightarrow> pystr \<Rightarrow> topic_error + topic_grant option" where
  "resolve_machine db p parsed requested =
     (let machine = t_reference parsed;
          declared_ids = machine_declared_org_ids db machine;
          declared = single declared_ids;
          built = machine_topic (PStr machine) (t_channel parsed)
      in if is_runtime p
         then (if \<not> owns_machine p (Some machine) then Inr None
               else if \<not> runtime_may_own_org db p declared then Inr None
               else mk_grant parsed requested machine
                      (if declared \<noteq> None then declared else runtime_org_id p) None built)
         else if \<not> machine_is_known db machine then Inr None
         else if declared_ids \<noteq> []
         then (if \<exists>i\<in>set declared_ids. \<not> can_see_org p (Some i) then Inr None
               else mk_grant parsed requested machine declared None built)
         else (if \<not> can_see_org p (default_org_id db) then Inr None
               else mk_grant parsed requested machine (default_org_id db) None built))"

definition resolve_runtime ::
    "store \<Rightarrow> principal \<Rightarrow> parsed_topic \<Rightarrow> pystr \<Rightarrow> topic_error + topic_grant option" where
  "resolve_runtime db p parsed requested =
     (let runtime = as_int (t_reference parsed)
      in case runtime_binding db runtime of
           None \<Rightarrow> Inr None
         | Some (machine, declared) \<Rightarrow>
             let built = runtime_topic (PInt (the runtime)) (t_channel parsed);
                 reference = str_of_int (the runtime)
             in if is_runtime p
                then (if machine = [] \<or> \<not> owns_machine p (Some machine) then Inr None
                      else if \<not> runtime_may_own_org db p declared then Inr None
                      else mk_grant parsed requested reference
                             (if declared \<noteq> None then declared else runtime_org_id p) None built)
                else (let org = runtime_row_org_id db runtime
                      in if \<not> can_see_org p org then Inr None
                         else mk_grant parsed requested reference org None built))"

definition resolve_topic ::
    "store \<Rightarrow> principal option \<Rightarrow> pyval \<Rightarrow> topic_error + topic_grant option" where
  "resolve_topic db who requested =
     (case (who, parse_topic requested, requested) of
        (Some p, Some parsed, PStr text) \<Rightarrow>
          if is_runtime p \<and> \<not> is_runtime_topic parsed then Inr None
          else if \<not> is_runtime p \<and> \<not> is_operator_topic parsed then Inr None
          else if t_family parsed = lit ''org'' then resolve_org db p parsed text
          else if t_family parsed = lit ''issue'' then resolve_issue db p parsed text
          else if t_family parsed = lit ''session'' then resolve_session db p parsed text
          else if t_family parsed = lit ''machine'' then resolve_machine db p parsed text
          else if t_family parsed = lit ''runtime'' then resolve_runtime db p parsed text
          else Inr None
      | _ \<Rightarrow> Inr None)"

definition authorize_topic :: "store \<Rightarrow> principal option \<Rightarrow> pyval \<Rightarrow> topic_error + bool" where
  "authorize_topic db who topic =
     bind_result (resolve_topic db who topic) (\<lambda>g. Inr (g \<noteq> None))"

fun split_topics ::
    "store \<Rightarrow> principal option \<Rightarrow> pyval list \<Rightarrow> topic_grant list \<Rightarrow> pystr list
     \<Rightarrow> topic_error + topic_grant list \<times> pystr list" where
  "split_topics db who [] grants denied = Inr (grants, denied)"
| "split_topics db who (item # items) grants denied =
     (case item of
        PStr s \<Rightarrow>
          bind_result (resolve_topic db who item) (\<lambda>g.
            case g of
              None \<Rightarrow> split_topics db who items grants (denied @ [take MAX_TOPIC_LENGTH s])
            | Some grant \<Rightarrow>
                if g_topic grant \<in> g_topic ` set grants
                then split_topics db who items grants denied
                else split_topics db who items (grants @ [grant]) denied)
      | _ \<Rightarrow> split_topics db who items grants denied)"

definition authorize_topics ::
    "store \<Rightarrow> principal option \<Rightarrow> pyval \<Rightarrow> topic_error + topic_grant list \<times> pystr list" where
  "authorize_topics db who requested =
     (let items = (case requested of PList xs \<Rightarrow> xs | _ \<Rightarrow> [])
      in split_topics db who (take MAX_TOPICS_PER_REQUEST items) [] [])"

section \<open>The delivery filter\<close>

definition subscription_scope_of :: "store \<Rightarrow> principal option \<Rightarrow> subscription_scope" where
  "subscription_scope_of db who =
     (case who of
        None \<Rightarrow> \<lparr>sc_org_ids = Some {}, sc_workspace_ids = Some {}\<rparr>
      | Some p \<Rightarrow>
          if is_runtime p
          then \<lparr>sc_org_ids = Some (case runtime_org_id p of None \<Rightarrow> {} | Some i \<Rightarrow> {i}),
                sc_workspace_ids = None\<rparr>
          else \<lparr>sc_org_ids = visible_org_ids p, sc_workspace_ids = visible_workspace_ids db who\<rparr>)"

section \<open>Reading back printed ids\<close>

lemma as_int_str_of_int: "0 \<le> i \<Longrightarrow> as_int (str_of_int i) = Some i"
  by (simp add: as_int_def py_int_str_of_int)

lemma str_of_int_not_default: "0 \<le> i \<Longrightarrow> str_of_int i \<noteq> DEFAULT_ORG_ALIAS"
proof
  assume i: "0 \<le> i" and e: "str_of_int i = DEFAULT_ORG_ALIAS"
  then have "100 \<in> set (digits_of (nat i))" by (simp add: str_of_int_def DEFAULT_ORG_ALIAS_def)
  from digits_of_chars[OF this] show False by simp
qed

section \<open>The shape of a grant\<close>

lemma org_reference_row:
  "org_id_for_reference db r = Some i \<Longrightarrow> i \<in> o_id ` set (orgs db)"
  by (auto simp: org_id_for_reference_def default_org_id_def split: if_splits option.splits
      dest: row_by_Some_iff_key)

lemma positive_org: "store_ok db \<Longrightarrow> i \<in> o_id ` set (orgs db) \<Longrightarrow> 0 < i \<and> i < 2 ^ 63"
  by (auto simp: store_ok_def positive_ids_def)

lemma org_id_for_printed:
  "0 \<le> i \<Longrightarrow> i \<in> o_id ` set (orgs db) \<Longrightarrow> org_id_for_reference db (str_of_int i) = Some i"
  using row_by_None[of o_id i "orgs db"]
  by (cases "row_by o_id i (orgs db)")
     (auto simp: org_id_for_reference_def as_int_str_of_int str_of_int_not_default
       dest: row_by_Some_iff_key)

definition grant_of :: "pystr \<Rightarrow> pystr \<Rightarrow> pystr \<Rightarrow> pystr \<Rightarrow> string \<Rightarrow> int option \<Rightarrow> int option
    \<Rightarrow> topic_grant" where
  "grant_of requested family reference ch entity org ws =
     \<lparr>g_topic = family @ 47 # reference @ 47 # ch, g_requested = requested, g_family = family,
      g_channel = ch, g_entity = entity, g_reference = reference, g_org_id = org,
      g_workspace_id = ws, g_capability = CAP_ORG_READ\<rparr>"

definition org_grants :: "store \<Rightarrow> principal \<Rightarrow> pystr \<Rightarrow> int \<Rightarrow> bool" where
  "org_grants db p r i \<longleftrightarrow>
     org_id_for_reference db r = Some i \<and> \<not> is_runtime p \<and> can_see_org p (Some i)"

definition session_grants :: "store \<Rightarrow> principal \<Rightarrow> pystr \<Rightarrow> session_row \<Rightarrow> bool" where
  "session_grants db p r row \<longleftrightarrow>
     get_session_row db r = Some row \<and>
     (if is_runtime p
      then owns_machine p (s_machine_id row)
        \<and> runtime_may_own_org db p (workspace_declared_org_id db (Some (s_workspace_id row)))
        \<and> (s_runtime_id row \<noteq> None \<longrightarrow>
             runtime_may_own_org db p (runtime_declared_org_id db (s_runtime_id row)))
      else can_see_org p (workspace_org_id db (Some (s_workspace_id row)))
        \<and> can_see_workspace db (Some p) (Some (s_workspace_id row)))"

lemma owns_machine_nonempty [simp]: "\<not> owns_machine p None" "\<not> owns_machine p (Some [])"
  by (simp_all add: owns_machine_def)

lemma resolve_topic_org:
  assumes "store_ok db" and "segment_re r" and "ch \<in> set ORG_CHANNELS"
  shows "resolve_topic db (Some p) (PStr (family_org @ 47 # r @ 47 # ch)) =
     Inr (case org_id_for_reference db r of
            None \<Rightarrow> None
          | Some i \<Rightarrow>
              if org_grants db p r i
              then Some (grant_of (family_org @ 47 # r @ 47 # ch) family_org (str_of_int i) ch
                           ENTITY_ORG (Some i) None)
              else None)"
proof -
  have ref: "org_id_for_reference db r = Some i \<Longrightarrow> segment_re (str_of_int i)" for i
    using positive_org[OF assms(1) org_reference_row[of db r i]] valid_reference_id[of i]
    by (simp add: valid_reference_def)
  show ?thesis
    using assms ref
    by (auto simp: resolve_topic_def parse_org family_org_def [symmetric] is_runtime_topic_def
        is_operator_topic_def resolve_org_def mk_grant_def org_topic_def scoped_topic_def
        valid_reference_def org_grants_def grant_of_def simp del: list.map split: option.splits)
qed

lemma resolve_topic_session:
  assumes "segment_re r" and "ch \<in> set SESSION_STREAMS"
  shows "resolve_topic db (Some p) (PStr (family_session @ 47 # r @ 47 # ch)) =
     Inr (case get_session_row db r of
            None \<Rightarrow> None
          | Some row \<Rightarrow>
              if session_grants db p r row
              then Some (grant_of (family_session @ 47 # r @ 47 # ch) family_session r ch
                           ENTITY_SESSION (workspace_org_id db (Some (s_workspace_id row)))
                           (Some (s_workspace_id row)))
              else None)"
proof -
  have f: "family_session \<noteq> lit ''org''" "family_session \<noteq> lit ''issue''"
    "family_session = lit ''session''"
    by (simp_all add: family_session_def)
  show ?thesis
    using assms
    by (auto simp: resolve_topic_def parse_session f(1,2) f(3) [symmetric] is_runtime_topic_def
        is_operator_topic_def resolve_session_def session_binding_def mk_grant_def
        session_topic_def scoped_topic_def valid_reference_def session_grants_def grant_of_def
        Let_def simp del: list.map split: option.splits)
qed

text \<open>Every answer of \<open>resolve_topic\<close> is one of these.\<close>

lemma resolve_topic_cases:
  assumes "store_ok db"
  obtains (refused) "resolve_topic db who v = Inr None"
    | (grant_org) p r ch i where "who = Some p" "v = PStr (family_org @ 47 # r @ 47 # ch)" "segment_re r"
        "ch \<in> set ORG_CHANNELS" "org_grants db p r i"
        "resolve_topic db who v =
           Inr (Some (grant_of (family_org @ 47 # r @ 47 # ch) family_org (str_of_int i) ch
                        ENTITY_ORG (Some i) None))"
    | (grant_session) p r ch row where "who = Some p" "v = PStr (family_session @ 47 # r @ 47 # ch)"
        "segment_re r" "ch \<in> set SESSION_STREAMS" "session_grants db p r row"
        "resolve_topic db who v =
           Inr (Some (grant_of (family_session @ 47 # r @ 47 # ch) family_session r ch
                        ENTITY_SESSION (workspace_org_id db (Some (s_workspace_id row)))
                        (Some (s_workspace_id row))))"
proof (cases who)
  case None
  then have "resolve_topic db who v = Inr None" by (simp add: resolve_topic_def)
  then show thesis by (rule refused)
next
  case (Some p)
  show thesis
  proof (cases "parse_topic v")
    case None
    then have "resolve_topic db who v = Inr None" by (simp add: resolve_topic_def split: option.split)
    then show thesis by (rule refused)
  next
    case parsed: (Some t)
    then show thesis
    proof (cases rule: parse_topic_cases)
      case (org r ch)
      note c = org
      note r = resolve_topic_org[OF assms c(2,3), of p]
      then consider "resolve_topic db who v = Inr None"
        | i where "org_id_for_reference db r = Some i" "org_grants db p r i"
        using \<open>who = Some p\<close> c by (fastforce split: option.splits if_splits)
      then show thesis
        using refused grant_org[OF \<open>who = Some p\<close> c(1-3)] r c \<open>who = Some p\<close> by cases auto
    next
      case (session r ch)
      note c = session
      note r = resolve_topic_session[OF c(2,3), of db p]
      then consider "resolve_topic db who v = Inr None"
        | row where "get_session_row db r = Some row" "session_grants db p r row"
        using \<open>who = Some p\<close> c by (fastforce split: option.splits if_splits)
      then show thesis
        using refused grant_session[OF \<open>who = Some p\<close> c(1-3)] r c \<open>who = Some p\<close> by cases auto
    qed
  qed
qed

lemma resolve_topic_total: "store_ok db \<Longrightarrow> \<exists>g. resolve_topic db who v = Inr g"
  by (erule resolve_topic_cases[of db who v]) auto

lemma visible_when_seen:
  "can_see_org p (Some i) \<Longrightarrow> \<not> is_runtime p \<Longrightarrow>
     (case visible_org_ids p of None \<Rightarrow> True | Some ids \<Rightarrow> i \<in> ids)"
  by (auto simp: visible_org_ids_def can_see_org_def has_capability_read role_in_org_def role_of_def
      image_iff split: if_splits dest!: map_of_SomeD intro: bexI[rotated])

lemma operator_scope_allows:
  assumes "\<not> is_runtime p" and "can_see_org p org"
    and "ws \<noteq> None \<Longrightarrow> can_see_workspace db (Some p) ws"
  shows "scope_allows (subscription_scope_of db (Some p)) org ws"
proof -
  obtain i where i: "org = Some i" using assms(2) by (cases org) auto
  show ?thesis
    using assms(3) visible_when_seen[OF assms(2) [unfolded i] assms(1)] assms(1)
    by (auto simp: scope_allows_def subscription_scope_of_def i can_see_workspace_def
        split: option.splits)
qed

section \<open>Properties\<close>

text \<open>What a grant gives an operator. Whatever topic an operator is granted, its Org is one the
  operator may see; when the topic names a Session, the grant's Workspace is visible to the operator
  and the grant's Org is that Workspace's; and the operator's delivery filter lets every frame of
  that Org and Workspace through, so a granted topic is never silently empty.\<close>

theorem operator_grant_sound:
  assumes "store_ok db" and "\<not> is_runtime p" and "resolve_topic db (Some p) v = Inr (Some g)"
  shows "can_see_org p (g_org_id g) \<and>
    (\<forall>ws. g_workspace_id g = Some ws \<longrightarrow>
       can_see_workspace db (Some p) (Some ws) \<and> g_org_id g = workspace_org_id db (Some ws)) \<and>
    scope_allows (subscription_scope_of db (Some p)) (g_org_id g) (g_workspace_id g)"
  using assms(2,3)
  by (cases rule: resolve_topic_cases[OF assms(1), of "Some p" v])
     (auto simp: grant_of_def org_grants_def session_grants_def intro!: operator_scope_allows)

text \<open>What a grant gives a Runtime credential. It is always a Session topic, of a Session whose row
  names the credential's own machine, in a Workspace that declares no Org, the default Org or the
  credential's Org, and whose pinned Runtime (if any) declares no other Org either.\<close>

theorem runtime_grant_sound:
  assumes "store_ok db" and "is_runtime p" and "resolve_topic db (Some p) v = Inr (Some g)"
  shows "\<exists>row. get_session_row db (g_reference g) = Some row \<and> g_family g = family_session \<and>
    s_machine_id row = runtime_machine_id p \<and> s_machine_id row \<noteq> None \<and>
    g_workspace_id g = Some (s_workspace_id row) \<and>
    workspace_declared_org_id db (Some (s_workspace_id row))
      \<in> {None, default_org_id db, runtime_org_id p} \<and>
    runtime_declared_org_id db (s_runtime_id row) \<in> {None, default_org_id db, runtime_org_id p}"
proof -
  have none: "runtime_declared_org_id db None = None" by (simp add: runtime_declared_org_id_def)
  have may: "runtime_may_own_org db p d \<Longrightarrow> d \<in> {None, default_org_id db, runtime_org_id p}" for d
    by (auto simp: runtime_may_own_org_def split: if_splits)
  have owns: "owns_machine p m \<Longrightarrow> m = runtime_machine_id p \<and> m \<noteq> None" for m
    by (auto simp: owns_machine_def split: option.splits if_splits)
  show ?thesis
    using assms(2,3)
  proof (cases rule: resolve_topic_cases
      [OF assms(1), of "Some p" v, case_names refused grant_org grant_session])
    case (grant_session q r ch row)
    then have g: "g_reference g = r" "g_family g = family_session"
      "g_workspace_id g = Some (s_workspace_id row)" and q: "q = p"
      using assms(3) by (auto simp: grant_of_def)
    have "runtime_declared_org_id db (s_runtime_id row) \<in> {None, default_org_id db, runtime_org_id p}"
      using grant_session(5) may assms(2) none q
      by (cases "s_runtime_id row") (auto simp: session_grants_def)
    then show ?thesis
      using grant_session(5) g may owns assms(2) q by (auto simp: session_grants_def)
  qed (auto simp: org_grants_def)
qed

text \<open>The topic a grant carries is canonical: asking for it again gives the same grant, so a slug or
  the alias \<open>default\<close> and the Org's id subscribe to one topic, the one publishers build from the id.\<close>

theorem resolve_topic_canonical:
  assumes "store_ok db" and "resolve_topic db (Some p) v = Inr (Some g)"
  shows "resolve_topic db (Some p) (PStr (g_topic g)) = Inr (Some (g\<lparr>g_requested := g_topic g\<rparr>))"
  using assms(2)
proof (cases rule: resolve_topic_cases
      [OF assms(1), of "Some p" v, case_names refused grant_org grant_session])
  case (grant_org q r ch i)
  have i: "i \<in> o_id ` set (orgs db)"
    using grant_org(5) by (auto simp: org_grants_def dest: org_reference_row)
  note pos = positive_org[OF assms(1) i]
  have seg: "segment_re (str_of_int i)"
    using pos valid_reference_id[of i] by (simp add: valid_reference_def)
  show ?thesis
    using grant_org assms(2) pos org_id_for_printed[of i db, OF _ i]
      resolve_topic_org[OF assms(1) seg grant_org(4), of p]
    by (auto simp: grant_of_def org_grants_def)
next
  case (grant_session q r ch row)
  then show ?thesis
    using assms(2) resolve_topic_session[OF grant_session(3,4), of db p]
    by (auto simp: grant_of_def session_grants_def)
qed (use assms(2) in simp)

text \<open>\<open>authorize_topics\<close> looks at each requested item in turn.\<close>

lemma split_topics_step:
  assumes "store_ok db"
  obtains g where "resolve_topic db who (PStr s) = Inr g"
    "split_topics db who (PStr s # items) gs ds =
       (case g of
          None \<Rightarrow> split_topics db who items gs (ds @ [take MAX_TOPIC_LENGTH s])
        | Some x \<Rightarrow> split_topics db who items
                      (if g_topic x \<in> g_topic ` set gs then gs else gs @ [x]) ds)"
  using resolve_topic_total[OF assms, of who "PStr s"] by (auto split: option.splits)

definition split_ok ::
    "store \<Rightarrow> principal option \<Rightarrow> pyval list \<Rightarrow> topic_grant list \<Rightarrow> pystr list \<Rightarrow> bool" where
  "split_ok db who items gs ds \<longleftrightarrow>
     length gs + length ds \<le> length items \<and> distinct (map g_topic gs) \<and>
     (\<forall>g\<in>set gs. \<exists>v\<in>set items. resolve_topic db who v = Inr (Some g)) \<and>
     (\<forall>d\<in>set ds. length d \<le> MAX_TOPIC_LENGTH) \<and>
     (\<forall>s. PStr s \<in> set items \<longrightarrow>
        (case resolve_topic db who (PStr s) of
           Inr (Some g) \<Rightarrow> g_topic g \<in> g_topic ` set gs
         | _ \<Rightarrow> take MAX_TOPIC_LENGTH s \<in> set ds))"

lemma split_topics_ok:
  assumes "store_ok db" and "split_ok db who before gs ds"
  shows "\<exists>gs' ds'. split_topics db who items gs ds = Inr (gs', ds') \<and>
    split_ok db who (before @ items) gs' ds'"
  using assms(2)
proof (induction items arbitrary: before gs ds)
  case (Cons item items)
  show ?case
  proof (cases "\<exists>s. item = PStr s")
    case False
    then have "split_topics db who (item # items) gs ds = split_topics db who items gs ds"
      by (cases item) auto
    moreover have "split_ok db who (before @ [item]) gs ds"
      using Cons.prems False by (auto simp: split_ok_def)
    ultimately show ?thesis using Cons.IH[of "before @ [item]" gs ds] by simp
  next
    case True
    then obtain s where s: "item = PStr s" by blast
    obtain g where g: "resolve_topic db who (PStr s) = Inr g"
      and step: "split_topics db who (PStr s # items) gs ds =
       (case g of
          None \<Rightarrow> split_topics db who items gs (ds @ [take MAX_TOPIC_LENGTH s])
        | Some x \<Rightarrow> split_topics db who items
                      (if g_topic x \<in> g_topic ` set gs then gs else gs @ [x]) ds)"
      by (rule split_topics_step[OF assms(1)])
    show ?thesis
    proof (cases g)
      case None
      have "split_ok db who (before @ [item]) gs (ds @ [take MAX_TOPIC_LENGTH s])"
        using Cons.prems s g None
        by (fastforce simp: split_ok_def split: sum.splits option.splits)
      then show ?thesis
        using Cons.IH[of "before @ [item]" gs "ds @ [take MAX_TOPIC_LENGTH s]"] step s None by simp
    next
      case (Some x)
      let ?gs = "if g_topic x \<in> g_topic ` set gs then gs else gs @ [x]"
      have "split_ok db who (before @ [item]) ?gs ds"
        using Cons.prems s g Some
        by (fastforce simp: split_ok_def split: sum.splits option.splits)
      then show ?thesis
        using Cons.IH[of "before @ [item]" ?gs ds] step s Some by simp
    qed
  qed
qed simp

text \<open>A subscription request is always answered, and the answer is bounded and complete: only the
  first 64 items are read and the grants and refusals together are no more than those; the granted
  topics are distinct, each granted by \<open>resolve_topic\<close> for one of the items; refusals are echoed
  cut to 160 characters; and every text item read is accounted for, by its canonical topic among
  the grants or by its echo among the refusals.\<close>

theorem authorize_topics_partition:
  assumes "store_ok db"
  shows "\<exists>gs ds. authorize_topics db who requested = Inr (gs, ds) \<and> length gs + length ds \<le> 64 \<and>
    split_ok db who (take 64 (case requested of PList xs \<Rightarrow> xs | _ \<Rightarrow> [])) gs ds"
proof -
  let ?items = "take 64 (case requested of PList xs \<Rightarrow> xs | _ \<Rightarrow> [])"
  obtain gs ds where r: "split_topics db who ?items [] [] = Inr (gs, ds)"
    and ok: "split_ok db who ?items gs ds"
    using split_topics_ok[OF assms, of who "[]" "[]" "[]" ?items] by (auto simp: split_ok_def)
  have "length gs + length ds \<le> 64" using ok by (simp add: split_ok_def)
  then show ?thesis
    using r ok by (simp add: authorize_topics_def MAX_TOPICS_PER_REQUEST_def Let_def)
qed

section \<open>Examples\<close>

definition sample_session :: session_row where
  "sample_session = \<lparr>s_id = lit ''s1'', s_workspace_id = 10, s_tool = lit ''codex'', s_pid = None,
     s_machine_id = Some (lit ''m1''), s_created_by_operator_id = Some 5, s_started_at = 0,
     s_ended_at = None, s_state = ''running'', s_last_activity_at = None, s_summary = None,
     s_issue_id = None, s_persona_id = None, s_runtime_id = None\<rparr>"

definition topic_store :: store where
  "topic_store = sample_store\<lparr>sessions := [sample_session]\<rparr>"

lemma topic_store_ok: "store_ok topic_store"
  using sample_store_ok
  by (simp add: topic_store_def sample_store_def empty_store_def store_ok_def positive_ids_def
      unique_keys_def)

definition sample_org_grant :: topic_grant where
  "sample_org_grant = grant_of (lit ''org/default/inbox'') family_org (lit ''1'') (lit ''inbox'')
     ENTITY_ORG (Some 1) None"

definition sample_session_grant :: topic_grant where
  "sample_session_grant = grant_of (lit ''session/s1/chat'') family_session (lit ''s1'')
     (lit ''chat'') ENTITY_SESSION (Some 1) (Some 10)"

lemma sample_resolutions:
  "resolve_topic topic_store (Some sample_operator) (PStr (lit ''org/default/inbox'')) =
     Inr (Some sample_org_grant)"
  "resolve_topic topic_store (Some sample_operator) (PStr (lit ''session/s1/chat'')) =
     Inr (Some sample_session_grant)"
  "resolve_topic topic_store (Some sample_runtime) (PStr (lit ''session/s1/chat'')) =
     Inr (Some sample_session_grant)"
  by code_simp+

theorem operator_grant_sound_witness:
  "can_see_workspace topic_store (Some sample_operator) (Some 10) \<and>
   workspace_org_id topic_store (Some 10) = Some 1"
  using operator_grant_sound[OF topic_store_ok _ sample_resolutions(2)]
  by (simp add: sample_session_grant_def grant_of_def)

theorem runtime_grant_sound_witness:
  "workspace_declared_org_id topic_store (Some 10) \<in> {None, default_org_id topic_store, Some 7}"
  using runtime_grant_sound[OF topic_store_ok _ sample_resolutions(3)]
  by (auto simp: sample_session_grant_def grant_of_def)

theorem resolve_topic_canonical_witness:
  "resolve_topic topic_store (Some sample_operator) (PStr (lit ''org/1/inbox'')) =
     Inr (Some (sample_org_grant\<lparr>g_requested := lit ''org/1/inbox''\<rparr>))"
  using resolve_topic_canonical[OF topic_store_ok sample_resolutions(1)]
  by (simp add: sample_org_grant_def grant_of_def family_org_def)

theorem authorize_topics_partition_witness:
  "\<exists>gs ds. authorize_topics topic_store (Some sample_operator) PNone = Inr (gs, ds) \<and>
     length gs + length ds \<le> 64"
  using authorize_topics_partition[OF topic_store_ok] by blast

text \<open>A Runtime credential can be granted a Session topic whose frames its own delivery filter then
  drops: the Session's Workspace resolves to the default Org, the credential's Org is another.\<close>

lemma runtime_grant_filtered:
  "resolve_topic topic_store (Some sample_runtime) (PStr (lit ''session/s1/chat'')) =
     Inr (Some sample_session_grant) \<and>
   \<not> scope_allows (subscription_scope_of topic_store (Some sample_runtime))
       (g_org_id sample_session_grant) (g_workspace_id sample_session_grant)"
  using sample_resolutions(3)
  by (simp add: subscription_scope_of_def scope_allows_def sample_session_grant_def grant_of_def)

end
