(* ===== verification/AuditLog.thy ===== *)
theory AuditLog imports Json begin

text \<open>
  Models \<open>src/brains/audit/__init__.py\<close>: the signed, hash-chained log with its signed head row. The
  store is the log in id order and the singleton head; an append runs inside one transaction, so it
  is one function of the store, and the head claim serialises appends. \<open>mac\<close> stands for HMAC-SHA256
  under the audit key as a hex digest, \<open>fp\<close> for the key's fingerprint, \<open>now\<close> for the clock of
  the transaction. Database faults and the effects wrapped by \<open>required_effect\<close> are explicit.
\<close>

section \<open>Constants, errors and rows\<close>

definition GENESIS_HASH :: pystr where "GENESIS_HASH = lit ''GENESIS''"
definition CHAIN_SIGNATURE_VERSION :: int where "CHAIN_SIGNATURE_VERSION = 1"
definition ADOPTION_ACTION :: pystr where "ADOPTION_ACTION = lit ''audit.chain.adopted''"
definition INIT_ACTION :: pystr where "INIT_ACTION = lit ''audit.chain.initialized''"

definition SIGNED_ORIGIN_ACTIONS :: "pystr list" where
  "SIGNED_ORIGIN_ACTIONS = [ADOPTION_ACTION, INIT_ACTION]"

definition APPEND_ATTEMPTS :: nat where "APPEND_ATTEMPTS = 6"
definition ATTEMPT_SUFFIX :: pystr where "ATTEMPT_SUFFIX = lit ''.attempted''"
definition FAILURE_SUFFIX :: pystr where "FAILURE_SUFFIX = lit ''.failed''"

datatype corrupt_reason =
    HeadRowMissing
  | ClearedSignature
  | UnsignedHead
  | HeadSignatureMismatch
  | HeadNotNewest
  | SignedOriginRecorded
  | ChainDiverges
  | HeadCountMismatch

text \<open>\<open>AuditChainCorruptError\<close> and the other \<open>AuditWriteError\<close>s.\<close>

datatype audit_error = ChainCorrupt corrupt_reason | AuditWrite

record audit_entry =
  e_id :: int
  e_created_at :: instant
  e_actor :: pystr
  e_action :: pystr
  e_workspace_id :: "int option"
  e_payload_json :: pystr
  e_prev_hash :: pystr
  e_entry_hash :: pystr

record chain_head =
  h_seq :: int
  h_hash :: pystr
  h_entry_id :: "int option"
  h_mac :: "pystr option"
  h_adopted_version :: "int option"
  h_adopted_at :: "instant option"
  h_updated_at :: instant

record audit_db =
  audit_log :: "audit_entry list"
  audit_head :: "chain_head option"

definition empty_audit :: audit_db where
  "empty_audit = \<lparr>audit_log = [], audit_head = None\<rparr>"

section \<open>Hashing\<close>

definition canonical_payload ::
    "instant \<Rightarrow> pystr \<Rightarrow> pystr \<Rightarrow> int option \<Rightarrow> (pystr \<times> json) list \<Rightarrow> pystr" where
  "canonical_payload created_at actor action ws payload =
     dumps (JDict [(lit ''created_at'', JStr (iso_micros created_at)), (lit ''actor'', JStr actor),
                   (lit ''action'', JStr action), (lit ''workspace_id'', json_opt_int ws),
                   (lit ''payload'', JDict payload)])"

definition entry_text :: "pystr \<Rightarrow> pystr \<Rightarrow> pystr" where
  "entry_text prev_hash canonical = prev_hash @ 124 # canonical"

definition compute_hash :: "(pystr \<Rightarrow> pystr) \<Rightarrow> pystr \<Rightarrow> pystr \<Rightarrow> pystr" where
  "compute_hash mac prev_hash canonical = mac (entry_text prev_hash canonical)"

definition head_text :: "int \<Rightarrow> pystr \<Rightarrow> int option \<Rightarrow> pystr" where
  "head_text seq hash entry_id =
     str_of_int seq @ 124 # hash @ 124 # (case entry_id of None \<Rightarrow> [] | Some i \<Rightarrow> str_of_int i)"

definition head_mac :: "(pystr \<Rightarrow> pystr) \<Rightarrow> int \<Rightarrow> pystr \<Rightarrow> int option \<Rightarrow> pystr" where
  "head_mac mac seq hash entry_id = mac (head_text seq hash entry_id)"

section \<open>The chain head\<close>

definition newest_entry :: "audit_db \<Rightarrow> int option \<times> pystr" where
  "newest_entry db =
     (if audit_log db = [] then (None, GENESIS_HASH)
      else (Some (e_id (last (audit_log db))), e_entry_hash (last (audit_log db))))"

definition ensure_head_row :: "instant \<Rightarrow> audit_db \<Rightarrow> audit_db" where
  "ensure_head_row now db =
     (case audit_head db of
        Some _ \<Rightarrow> db
      | None \<Rightarrow>
          let (entry_id, entry_hash) = newest_entry db
          in db\<lparr>audit_head := Some \<lparr>h_seq = int (length (audit_log db)), h_hash = entry_hash,
                 h_entry_id = entry_id, h_mac = None, h_adopted_version = None,
                 h_adopted_at = None, h_updated_at = now\<rparr>\<rparr>)"

definition update_head :: "(chain_head \<Rightarrow> chain_head) \<Rightarrow> audit_db \<Rightarrow> audit_db" where
  "update_head f db = db\<lparr>audit_head := map_option f (audit_head db)\<rparr>"

definition lock_head :: "instant \<Rightarrow> audit_db \<Rightarrow> audit_db" where
  "lock_head now db = update_head (h_updated_at_update (\<lambda>_. now)) (ensure_head_row now db)"

definition sign_head ::
    "(pystr \<Rightarrow> pystr) \<Rightarrow> instant \<Rightarrow> int \<Rightarrow> pystr \<Rightarrow> int option \<Rightarrow> audit_db \<Rightarrow> audit_db" where
  "sign_head mac now seq hash entry_id =
     update_head (\<lambda>h. h\<lparr>h_mac := Some (head_mac mac seq hash entry_id),
       h_adopted_version := Some CHAIN_SIGNATURE_VERSION, h_adopted_at := Some now,
       h_updated_at := now\<rparr>)"

definition mark_adopted :: "instant \<Rightarrow> audit_db \<Rightarrow> audit_db" where
  "mark_adopted now =
     update_head (\<lambda>h. if h_adopted_version h = None
       then h\<lparr>h_adopted_version := Some CHAIN_SIGNATURE_VERSION, h_adopted_at := Some now\<rparr>
       else h)"

definition claim_head ::
    "(pystr \<Rightarrow> pystr) \<Rightarrow> instant \<Rightarrow> audit_db
     \<Rightarrow> audit_error + (int \<times> pystr \<times> int option \<times> bool) \<times> audit_db" where
  "claim_head mac now db =
     (let db1 = lock_head now db
      in case audit_head db1 of
           None \<Rightarrow> Inl (ChainCorrupt HeadRowMissing)
         | Some h \<Rightarrow>
             let seq = h_seq h; hash = h_hash h; entry_id = h_entry_id h
             in case h_mac h of
                  None \<Rightarrow>
                    if h_adopted_version h \<noteq> None then Inl (ChainCorrupt ClearedSignature)
                    else if audit_log db1 \<noteq> [] \<or> seq \<noteq> 0 \<or> hash \<noteq> GENESIS_HASH \<or> entry_id \<noteq> None
                    then Inl (ChainCorrupt UnsignedHead)
                    else Inr ((seq, hash, entry_id, True), sign_head mac now seq hash entry_id db1)
                | Some m \<Rightarrow>
                    if m \<noteq> head_mac mac seq hash entry_id
                    then Inl (ChainCorrupt HeadSignatureMismatch)
                    else Inr ((seq, hash, entry_id, False),
                              if h_adopted_version h = None then mark_adopted now db1 else db1))"

section \<open>Appending\<close>

text \<open>SQLite assigns the next id after the largest.\<close>

definition next_entry_id :: "audit_entry list \<Rightarrow> int" where
  "next_entry_id log = (if log = [] then 1 else e_id (last log) + 1)"

definition write_entry ::
    "(pystr \<Rightarrow> pystr) \<Rightarrow> instant \<Rightarrow> int \<Rightarrow> pystr \<Rightarrow> pystr \<Rightarrow> pystr \<Rightarrow> (pystr \<times> json) list
     \<Rightarrow> int option \<Rightarrow> audit_db \<Rightarrow> audit_entry \<times> audit_db" where
  "write_entry mac now seq prev_hash actor action payload ws db =
     (let canonical = canonical_payload now actor action ws payload;
          entry_hash = compute_hash mac prev_hash canonical;
          entry = \<lparr>e_id = next_entry_id (audit_log db), e_created_at = now, e_actor = actor,
                   e_action = action, e_workspace_id = ws, e_payload_json = canonical,
                   e_prev_hash = prev_hash, e_entry_hash = entry_hash\<rparr>
      in (entry,
          update_head (\<lambda>h. h\<lparr>h_seq := seq + 1, h_hash := entry_hash,
              h_entry_id := Some (e_id entry),
              h_mac := Some (head_mac mac (seq + 1) entry_hash (Some (e_id entry))),
              h_adopted_version := Some CHAIN_SIGNATURE_VERSION, h_updated_at := now\<rparr>)
            (db\<lparr>audit_log := audit_log db @ [entry]\<rparr>)))"

definition init_payload :: "pystr \<Rightarrow> (pystr \<times> json) list" where
  "init_payload fp = [(lit ''signature_version'', JInt CHAIN_SIGNATURE_VERSION),
                      (lit ''fingerprint'', JStr fp)]"

definition append_in_session ::
    "(pystr \<Rightarrow> pystr) \<Rightarrow> pystr \<Rightarrow> instant \<Rightarrow> pystr \<Rightarrow> pystr \<Rightarrow> (pystr \<times> json) list \<Rightarrow> int option
     \<Rightarrow> audit_db \<Rightarrow> audit_error + audit_entry \<times> audit_db" where
  "append_in_session mac fp now actor0 action payload ws db =
     (let actor = (if actor0 = [] then lit ''anonymous'' else actor0)
      in bind_result (claim_head mac now db) (\<lambda>((seq, hash, entry_id, initialised), db1).
           let (newest_id, newest_hash) = newest_entry db1
           in if hash \<noteq> newest_hash \<or> entry_id \<noteq> newest_id
              then Inl (ChainCorrupt HeadNotNewest)
              else if initialised
              then (let (marker, db2) = write_entry mac now seq newest_hash (lit ''brains'')
                                          INIT_ACTION (init_payload fp) None db1
                    in Inr (write_entry mac now (seq + 1) (e_entry_hash marker) actor action
                              payload ws db2))
              else Inr (write_entry mac now seq newest_hash actor action payload ws db1)))"

section \<open>Verification\<close>

datatype dv_reason =
    PrevHashBroken
  | EntryHashBroken
  | DvHeadMissing
  | DvClearedSignature
  | DvUnsignedHead
  | DvHeadSignature
  | DvHeadNotNewest
  | DvCount int nat

record divergence =
  dv_entry_id :: int
  dv_reason :: dv_reason
  dv_expected :: pystr
  dv_actual :: pystr

fun scan_from :: "(pystr \<Rightarrow> pystr) \<Rightarrow> pystr \<Rightarrow> audit_entry list \<Rightarrow> divergence option" where
  "scan_from mac expected_prev [] = None"
| "scan_from mac expected_prev (row # rows) =
     (if e_prev_hash row \<noteq> expected_prev
      then Some \<lparr>dv_entry_id = e_id row, dv_reason = PrevHashBroken, dv_expected = expected_prev,
                 dv_actual = e_prev_hash row\<rparr>
      else let recomputed = compute_hash mac (e_prev_hash row) (e_payload_json row)
           in if recomputed \<noteq> e_entry_hash row
              then Some \<lparr>dv_entry_id = e_id row, dv_reason = EntryHashBroken,
                         dv_expected = recomputed, dv_actual = e_entry_hash row\<rparr>
              else scan_from mac (e_entry_hash row) rows)"

definition scan_entries :: "(pystr \<Rightarrow> pystr) \<Rightarrow> audit_entry list \<Rightarrow> divergence option" where
  "scan_entries mac rows = scan_from mac GENESIS_HASH rows"

definition check_head ::
    "(pystr \<Rightarrow> pystr) \<Rightarrow> audit_entry list \<Rightarrow> chain_head option \<Rightarrow> divergence option" where
  "check_head mac rows head =
     (let newest_id = (if rows = [] then None else Some (e_id (last rows)));
          expected_prev = (if rows = [] then GENESIS_HASH else e_entry_hash (last rows));
          at = (case newest_id of None \<Rightarrow> 0 | Some i \<Rightarrow> i)
      in case head of
           None \<Rightarrow>
             if rows = [] then None
             else Some \<lparr>dv_entry_id = at, dv_reason = DvHeadMissing, dv_expected = expected_prev,
                        dv_actual = []\<rparr>
         | Some h \<Rightarrow>
             let seq = h_seq h; hash = h_hash h; entry_id = h_entry_id h;
                 signed = head_mac mac seq hash entry_id;
                 rest = (if hash \<noteq> expected_prev \<or> entry_id \<noteq> newest_id
                         then Some \<lparr>dv_entry_id = at, dv_reason = DvHeadNotNewest,
                                    dv_expected = expected_prev, dv_actual = hash\<rparr>
                         else if seq \<noteq> int (length rows)
                         then Some \<lparr>dv_entry_id = at, dv_reason = DvCount seq (length rows),
                                    dv_expected = str_of_int seq,
                                    dv_actual = str_of_int (int (length rows))\<rparr>
                         else None)
             in case h_mac h of
                  None \<Rightarrow>
                    if h_adopted_version h \<noteq> None
                    then Some \<lparr>dv_entry_id = at, dv_reason = DvClearedSignature,
                               dv_expected = signed, dv_actual = []\<rparr>
                    else if rows \<noteq> [] \<or> seq \<noteq> 0 \<or> hash \<noteq> GENESIS_HASH \<or> entry_id \<noteq> None
                    then Some \<lparr>dv_entry_id = at, dv_reason = DvUnsignedHead,
                               dv_expected = signed, dv_actual = []\<rparr>
                    else rest
                | Some m \<Rightarrow>
                    if m \<noteq> signed
                    then Some \<lparr>dv_entry_id = at, dv_reason = DvHeadSignature,
                               dv_expected = signed, dv_actual = m\<rparr>
                    else rest)"

definition verify_chain :: "(pystr \<Rightarrow> pystr) \<Rightarrow> audit_db \<Rightarrow> divergence option" where
  "verify_chain mac db =
     (case scan_entries mac (audit_log db) of
        Some d \<Rightarrow> Some d
      | None \<Rightarrow> check_head mac (audit_log db) (audit_head db))"

definition assert_chain_intact :: "(pystr \<Rightarrow> pystr) \<Rightarrow> audit_db \<Rightarrow> audit_error + unit" where
  "assert_chain_intact mac db = require (verify_chain mac db = None) (ChainCorrupt ChainDiverges)"

definition adoption_required :: "audit_db \<Rightarrow> bool" where
  "adoption_required db =
     (case audit_head db of
        None \<Rightarrow> audit_log db \<noteq> []
      | Some h \<Rightarrow> h_mac h = None \<and> h_adopted_version h = None \<and> audit_log db \<noteq> [])"

record chain_report =
  cr_ok :: bool
  cr_stored :: nat
  cr_appended :: "int option"
  cr_head_hash :: "pystr option"
  cr_head_entry_id :: "int option"
  cr_head_signed :: bool
  cr_adopted_version :: "int option"
  cr_adoption_required :: bool
  cr_divergence :: "divergence option"

definition chain_status :: "(pystr \<Rightarrow> pystr) \<Rightarrow> audit_db \<Rightarrow> chain_report" where
  "chain_status mac db =
     (let head = audit_head db; stored = length (audit_log db); d = verify_chain mac db
      in \<lparr>cr_ok = (d = None), cr_stored = stored, cr_appended = map_option h_seq head,
          cr_head_hash = map_option h_hash head,
          cr_head_entry_id = (case head of None \<Rightarrow> None | Some h \<Rightarrow> h_entry_id h),
          cr_head_signed = (case head of None \<Rightarrow> False | Some h \<Rightarrow> h_mac h \<noteq> None),
          cr_adopted_version = (case head of None \<Rightarrow> None | Some h \<Rightarrow> h_adopted_version h),
          cr_adoption_required =
            (case head of
               None \<Rightarrow> False
             | Some h \<Rightarrow> h_mac h = None \<and> h_adopted_version h = None \<and> 0 < stored),
          cr_divergence = d\<rparr>)"

section \<open>Adoption of a pre-signature chain\<close>

datatype adoption =
    AlreadyAdopted int pystr
  | Adopted nat pystr int

definition adoption_payload :: "pystr \<Rightarrow> nat \<Rightarrow> int option \<Rightarrow> pystr \<Rightarrow> (pystr \<times> json) list" where
  "adoption_payload fp n entry_id hash =
     [(lit ''adopted_version'', JInt CHAIN_SIGNATURE_VERSION),
      (lit ''entries_at_adoption'', JInt (int n)), (lit ''head_entry_id'', json_opt_int entry_id),
      (lit ''head_hash'', JStr hash), (lit ''fingerprint'', JStr fp)]"

definition adopt_in_session ::
    "(pystr \<Rightarrow> pystr) \<Rightarrow> pystr \<Rightarrow> instant \<Rightarrow> pystr \<Rightarrow> audit_db
     \<Rightarrow> audit_error + adoption \<times> audit_db" where
  "adopt_in_session mac fp now actor db =
     (if audit_head db = None \<and> audit_log db \<noteq> [] then Inl (ChainCorrupt HeadRowMissing)
      else
        let db1 = lock_head now db; rows = audit_log db1
        in case audit_head db1 of
             None \<Rightarrow> Inl (ChainCorrupt HeadRowMissing)
           | Some h \<Rightarrow>
               let seq = h_seq h; hash = h_hash h; entry_id = h_entry_id h
               in case h_mac h of
                    Some m \<Rightarrow>
                      if m \<noteq> head_mac mac seq hash entry_id
                      then Inl (ChainCorrupt HeadSignatureMismatch)
                      else Inr (AlreadyAdopted seq hash,
                                if h_adopted_version h = None then mark_adopted now db1 else db1)
                  | None \<Rightarrow>
                      if h_adopted_version h \<noteq> None then Inl (ChainCorrupt ClearedSignature)
                      else if \<exists>row\<in>set rows. e_action row \<in> set SIGNED_ORIGIN_ACTIONS
                      then Inl (ChainCorrupt SignedOriginRecorded)
                      else if scan_entries mac rows \<noteq> None then Inl (ChainCorrupt ChainDiverges)
                      else if (entry_id, hash) \<noteq> newest_entry db1
                      then Inl (ChainCorrupt HeadNotNewest)
                      else if seq \<noteq> int (length rows) then Inl (ChainCorrupt HeadCountMismatch)
                      else bind_result
                             (append_in_session mac fp now
                                (if actor = [] then lit ''operator'' else actor) ADOPTION_ACTION
                                (adoption_payload fp (length rows) entry_id hash) None
                                (sign_head mac now seq hash entry_id db1))
                             (\<lambda>(entry, db2). Inr (Adopted (length rows) hash (e_id entry), db2)))"

section \<open>Appends that own their transaction, and two-phase effects\<close>

text \<open>
  A fault of one attempt: a contended or conflicting transaction (\<open>OperationalError\<close>,
  \<open>IntegrityError\<close>) is retried, anything else is not. \<open>sched\<close> gives the clock and the fault of the
  n-th transaction. A faulted transaction leaves the store as it was.
\<close>

datatype db_fault = Retryable | Fatal

record 'w effect_world =
  ew_db :: audit_db
  ew_outside :: 'w
  ew_tick :: nat

type_synonym schedule = "nat \<Rightarrow> instant \<times> db_fault option"

fun record_attempts ::
    "(pystr \<Rightarrow> pystr) \<Rightarrow> pystr \<Rightarrow> schedule \<Rightarrow> pystr \<Rightarrow> pystr \<Rightarrow> (pystr \<times> json) list \<Rightarrow> int option
     \<Rightarrow> nat \<Rightarrow> 'w effect_world \<Rightarrow> (audit_error + int) \<times> 'w effect_world" where
  "record_attempts mac fp sched actor action payload ws 0 w = (Inl AuditWrite, w)"
| "record_attempts mac fp sched actor action payload ws (Suc n) w =
     (let (now, fault) = sched (ew_tick w);
          w1 = w\<lparr>ew_tick := ew_tick w + 1\<rparr>
      in case fault of
           Some Fatal \<Rightarrow> (Inl AuditWrite, w1)
         | Some Retryable \<Rightarrow>
             if n = 0 then (Inl AuditWrite, w1)
             else record_attempts mac fp sched actor action payload ws n w1
         | None \<Rightarrow>
             (case append_in_session mac fp now actor action payload ws (ew_db w1) of
                Inl e \<Rightarrow> (Inl e, w1)
              | Inr (entry, db') \<Rightarrow> (Inr (e_id entry), w1\<lparr>ew_db := db'\<rparr>)))"

definition record_required ::
    "(pystr \<Rightarrow> pystr) \<Rightarrow> pystr \<Rightarrow> schedule \<Rightarrow> pystr \<Rightarrow> pystr \<Rightarrow> (pystr \<times> json) list \<Rightarrow> int option
     \<Rightarrow> 'w effect_world \<Rightarrow> (audit_error + int) \<times> 'w effect_world" where
  "record_required mac fp sched actor action payload ws w =
     record_attempts mac fp sched actor action payload ws APPEND_ATTEMPTS w"

text \<open>\<open>record\<close>: best effort, \<open>None\<close> on failure.\<close>

definition record_best_effort ::
    "(pystr \<Rightarrow> pystr) \<Rightarrow> pystr \<Rightarrow> schedule \<Rightarrow> pystr \<Rightarrow> pystr \<Rightarrow> (pystr \<times> json) list \<Rightarrow> int option
     \<Rightarrow> 'w effect_world \<Rightarrow> int option \<times> 'w effect_world" where
  "record_best_effort mac fp sched actor action payload ws w =
     (case record_required mac fp sched actor action payload ws w of
        (Inl _, w') \<Rightarrow> (None, w')
      | (Inr i, w') \<Rightarrow> (Some i, w'))"

text \<open>How a \<open>with required_effect(...)\<close> block ends.\<close>

datatype effect_end =
    EffectRefused audit_error
  | EffectRaised pystr
  | EffectUnrecorded int audit_error
  | EffectDone

text \<open>
  The effect reads and changes the outside world, and may replace the store itself (a restore). It
  raises with the text of its exception or returns the outcome it recorded on its handle.
\<close>

type_synonym 'w effect = "audit_db \<times> 'w \<Rightarrow> (pystr + (pystr \<times> json) list) \<times> audit_db \<times> 'w"

definition required_effect ::
    "(pystr \<Rightarrow> pystr) \<Rightarrow> pystr \<Rightarrow> schedule \<Rightarrow> pystr \<Rightarrow> pystr \<Rightarrow> (pystr \<times> json) list \<Rightarrow> int option
     \<Rightarrow> 'w effect \<Rightarrow> 'w effect_world \<Rightarrow> effect_end \<times> 'w effect_world" where
  "required_effect mac fp sched actor action payload ws effect w =
     (case record_required mac fp sched actor (action @ ATTEMPT_SUFFIX) payload ws w of
        (Inl e, w1) \<Rightarrow> (EffectRefused e, w1)
      | (Inr attempt, w1) \<Rightarrow>
          (case effect (ew_db w1, ew_outside w1) of
             (Inl err, db, out) \<Rightarrow>
               let (_, w2) = record_required mac fp sched actor (action @ FAILURE_SUFFIX)
                     (merge_members payload [(lit ''attempt_audit_id'', JInt attempt),
                                             (lit ''error'', JStr (take 2000 err))]) ws
                     (w1\<lparr>ew_db := db, ew_outside := out\<rparr>)
               in (EffectRaised err, w2)
           | (Inr outcome, db, out) \<Rightarrow>
               (case record_required mac fp sched actor action
                       (merge_members (merge_members payload outcome)
                          [(lit ''attempt_audit_id'', JInt attempt)]) ws
                       (w1\<lparr>ew_db := db, ew_outside := out\<rparr>) of
                  (Inl e, w2) \<Rightarrow> (EffectUnrecorded attempt e, w2)
                | (Inr _, w2) \<Rightarrow> (EffectDone, w2))))"

section \<open>Chain facts\<close>

definition last_hash :: "pystr \<Rightarrow> audit_entry list \<Rightarrow> pystr" where
  "last_hash p rows = (if rows = [] then p else e_entry_hash (last rows))"

lemma last_hash_simps [simp]:
  "last_hash p [] = p" "last_hash p (r # rows) = last_hash (e_entry_hash r) rows"
  by (simp_all add: last_hash_def)

lemma scan_append:
  "scan_from mac p (xs @ ys) =
     (case scan_from mac p xs of Some d \<Rightarrow> Some d | None \<Rightarrow> scan_from mac (last_hash p xs) ys)"
  by (induction xs arbitrary: p) (auto simp: Let_def split: option.split)

lemma scan_entry_None:
  "scan_from mac p (r # rows) = None \<longleftrightarrow>
     e_prev_hash r = p \<and> e_entry_hash r = mac (entry_text p (e_payload_json r)) \<and>
     scan_from mac (e_entry_hash r) rows = None"
  by (auto simp: compute_hash_def Let_def)

lemma newest_entry_snd: "snd (newest_entry db) = last_hash GENESIS_HASH (audit_log db)"
  by (simp add: newest_entry_def last_hash_def)

text \<open>A head that was never signed over an empty log, and a head whose signature holds.\<close>

definition fresh_head :: "audit_db \<Rightarrow> bool" where
  "fresh_head db \<longleftrightarrow> audit_log db = [] \<and>
     (case audit_head db of
        None \<Rightarrow> True
      | Some h \<Rightarrow> h_mac h = None \<and> h_adopted_version h = None \<and> h_seq h = 0 \<and>
                  h_hash h = GENESIS_HASH \<and> h_entry_id h = None)"

definition signed_head :: "(pystr \<Rightarrow> pystr) \<Rightarrow> audit_db \<Rightarrow> chain_head \<Rightarrow> bool" where
  "signed_head mac db h \<longleftrightarrow> audit_head db = Some h \<and>
     h_mac h = Some (head_mac mac (h_seq h) (h_hash h) (h_entry_id h)) \<and>
     (h_entry_id h, h_hash h) = newest_entry db"

definition head_current :: "audit_db \<Rightarrow> chain_head \<Rightarrow> bool" where
  "head_current db h \<longleftrightarrow>
     (h_entry_id h, h_hash h) = newest_entry db \<and> h_seq h = int (length (audit_log db))"

lemma check_head_Some:
  "check_head mac (audit_log db) (Some h) = None \<longleftrightarrow>
     (if h_mac h = None
      then h_adopted_version h = None \<and> audit_log db = [] \<and> h_seq h = 0 \<and>
           h_hash h = GENESIS_HASH \<and> h_entry_id h = None
      else h_mac h = Some (head_mac mac (h_seq h) (h_hash h) (h_entry_id h)) \<and> head_current db h)"
  by (cases "h_mac h"; cases "audit_log db = []")
     (simp_all add: check_head_def newest_entry_def Let_def head_current_def)

lemma check_head_None: "check_head mac (audit_log db) None = None \<longleftrightarrow> audit_log db = []"
  by (simp add: check_head_def Let_def)

lemma verify_None_iff:
  "verify_chain mac db = None \<longleftrightarrow>
     scan_entries mac (audit_log db) = None \<and>
     (fresh_head db \<or> (\<exists>h. signed_head mac db h \<and> h_seq h = int (length (audit_log db))))"
proof (cases "audit_head db")
  case None
  then show ?thesis
    by (auto simp: verify_chain_def check_head_None fresh_head_def signed_head_def
        split: option.splits)
next
  case (Some h)
  have "check_head mac (audit_log db) (audit_head db) = None \<longleftrightarrow>
      fresh_head db \<or> (signed_head mac db h \<and> h_seq h = int (length (audit_log db)))"
    unfolding Some check_head_Some
    by (cases "h_mac h") (auto simp: fresh_head_def signed_head_def head_current_def Some)
  then show ?thesis
    using Some by (auto simp: verify_chain_def signed_head_def split: option.splits)
qed

lemma update_head_simps [simp]:
  "audit_log (update_head f db) = audit_log db"
  "audit_head (update_head f db) = map_option f (audit_head db)"
  by (simp_all add: update_head_def)

lemma lock_head_simps:
  "audit_log (lock_head now db) = audit_log db"
  "audit_head (lock_head now db) =
     Some (case audit_head db of
             Some h \<Rightarrow> h\<lparr>h_updated_at := now\<rparr>
           | None \<Rightarrow> \<lparr>h_seq = int (length (audit_log db)), h_hash = snd (newest_entry db),
               h_entry_id = fst (newest_entry db), h_mac = None, h_adopted_version = None,
               h_adopted_at = None, h_updated_at = now\<rparr>)"
  by (auto simp: lock_head_def ensure_head_row_def split: option.splits prod.splits)

lemma newest_entry_log: "audit_log db' = audit_log db \<Longrightarrow> newest_entry db' = newest_entry db"
  by (simp add: newest_entry_def)

lemma newest_entry_empty: "audit_log db = [] \<Longrightarrow> newest_entry db = (None, GENESIS_HASH)"
  by (simp add: newest_entry_def)

text \<open>The claim succeeds exactly on a fresh head or on a valid signature.\<close>

lemma claim_head_fresh:
  assumes "fresh_head db"
  obtains db1 where "claim_head mac now db = Inr ((0, GENESIS_HASH, None, True), db1)"
    "audit_log db1 = []" "audit_head db1 \<noteq> None"
proof -
  obtain h where h: "audit_head (lock_head now db) = Some h" "h_mac h = None"
    "h_adopted_version h = None" "h_seq h = 0" "h_hash h = GENESIS_HASH" "h_entry_id h = None"
    using assms by (cases "audit_head db") (auto simp: lock_head_simps fresh_head_def newest_entry_def)
  have "audit_log db = []" using assms by (simp add: fresh_head_def)
  then show thesis
    using that[of "sign_head mac now 0 GENESIS_HASH None (lock_head now db)"] h
    by (simp add: claim_head_def lock_head_simps(1) Let_def sign_head_def)
qed

lemma claim_head_signed:
  assumes "audit_head db = Some h"
    and "h_mac h = Some (head_mac mac (h_seq h) (h_hash h) (h_entry_id h))"
  obtains db1 where
    "claim_head mac now db = Inr ((h_seq h, h_hash h, h_entry_id h, False), db1)"
    "audit_log db1 = audit_log db" "audit_head db1 \<noteq> None"
  using that assms
  by (cases "h_adopted_version h")
     (simp_all add: claim_head_def lock_head_simps Let_def mark_adopted_def)

lemma claim_head_refused:
  assumes "\<not> fresh_head db"
    and "\<And>h. audit_head db = Some h \<Longrightarrow>
           h_mac h \<noteq> Some (head_mac mac (h_seq h) (h_hash h) (h_entry_id h))"
  shows "\<exists>r. claim_head mac now db = Inl (ChainCorrupt r)"
proof (cases "audit_head db")
  case None
  then show ?thesis
    using assms(1) by (simp add: claim_head_def lock_head_simps fresh_head_def Let_def)
next
  case (Some h)
  then show ?thesis
    using assms(1) assms(2)[OF Some]
    by (cases "h_mac h"; cases "h_adopted_version h")
       (auto simp: claim_head_def lock_head_simps fresh_head_def Let_def)
qed

lemma write_entry_simps:
  assumes "write_entry mac now seq prev actor action payload ws db = (entry, db')"
  shows "audit_log db' = audit_log db @ [entry]"
    and "e_prev_hash entry = prev" and "e_entry_hash entry = mac (entry_text prev (e_payload_json entry))"
    and "e_actor entry = actor" and "e_action entry = action" and "e_workspace_id entry = ws"
    and "e_payload_json entry = canonical_payload now actor action ws payload"
    and "e_created_at entry = now"
    and "audit_head db \<noteq> None \<Longrightarrow> \<exists>h. audit_head db' = Some h \<and> h_seq h = seq + 1 \<and>
      h_hash h = e_entry_hash entry \<and> h_entry_id h = Some (e_id entry) \<and>
      h_mac h = Some (head_mac mac (h_seq h) (h_hash h) (h_entry_id h))"
  using assms by (auto simp: write_entry_def Let_def compute_hash_def)

text \<open>What one append adds, whichever way the head was claimed.\<close>

definition appended ::
    "(pystr \<Rightarrow> pystr) \<Rightarrow> pystr \<Rightarrow> instant \<Rightarrow> pystr \<Rightarrow> pystr \<Rightarrow> (pystr \<times> json) list \<Rightarrow> int option
     \<Rightarrow> audit_db \<Rightarrow> int \<Rightarrow> audit_entry list \<Rightarrow> audit_entry \<Rightarrow> audit_db \<Rightarrow> bool" where
  "appended mac fp now actor action payload ws db seq before entry db' \<longleftrightarrow>
     audit_log db' = audit_log db @ before @ [entry] \<and>
     e_actor entry = (if actor = [] then lit ''anonymous'' else actor) \<and>
     e_action entry = action \<and> e_workspace_id entry = ws \<and> e_created_at entry = now \<and>
     e_payload_json entry = canonical_payload now (e_actor entry) action ws payload \<and>
     scan_from mac (snd (newest_entry db)) (before @ [entry]) = None \<and>
     (\<exists>h. signed_head mac db' h \<and> h_seq h = seq + int (length before) + 1)"

lemma append_fresh:
  assumes "fresh_head db"
  shows "\<exists>marker entry db'. append_in_session mac fp now actor action payload ws db = Inr (entry, db')
    \<and> appended mac fp now actor action payload ws db 0 [marker] entry db' \<and> e_action marker = INIT_ACTION"
proof -
  have log: "audit_log db = []" using assms by (simp add: fresh_head_def)
  obtain db1 where c: "claim_head mac now db = Inr ((0, GENESIS_HASH, None, True), db1)"
    and l1: "audit_log db1 = []" and h1: "audit_head db1 \<noteq> None"
    by (rule claim_head_fresh[OF assms])
  let ?a = "if actor = [] then lit ''anonymous'' else actor"
  obtain m db2 where w1: "write_entry mac now 0 GENESIS_HASH (lit ''brains'') INIT_ACTION
      (init_payload fp) None db1 = (m, db2)" by fastforce
  obtain e db3 where w2: "write_entry mac now 1 (e_entry_hash m) ?a action payload ws db2 = (e, db3)"
    by fastforce
  note m = write_entry_simps[OF w1] and e = write_entry_simps[OF w2]
  have r: "append_in_session mac fp now actor action payload ws db = Inr (e, db3)"
    using c l1 w1 w2 by (simp add: append_in_session_def Let_def newest_entry_empty)
  have h2: "audit_head db2 \<noteq> None" using m(9)[OF h1] by auto
  have "appended mac fp now actor action payload ws db 0 [m] e db3"
    using m(1-8) e(1-8) e(9)[OF h2] log l1
    by (auto simp: appended_def scan_entry_None newest_entry_def signed_head_def
        simp del: scan_from.simps(2) list.map split: if_splits)
  then show ?thesis using r m(5) by blast
qed

lemma append_signed:
  assumes "signed_head mac db h"
  shows "\<exists>entry db'. append_in_session mac fp now actor action payload ws db = Inr (entry, db')
    \<and> appended mac fp now actor action payload ws db (h_seq h) [] entry db'"
proof -
  have hd: "audit_head db = Some h" "h_mac h = Some (head_mac mac (h_seq h) (h_hash h) (h_entry_id h))"
    and cur: "newest_entry db = (h_entry_id h, h_hash h)"
    using assms by (simp_all add: signed_head_def)
  obtain db1 where c: "claim_head mac now db = Inr ((h_seq h, h_hash h, h_entry_id h, False), db1)"
    and l1: "audit_log db1 = audit_log db" and h1: "audit_head db1 \<noteq> None"
    by (rule claim_head_signed[OF hd])
  let ?a = "if actor = [] then lit ''anonymous'' else actor"
  obtain e db2 where w: "write_entry mac now (h_seq h) (h_hash h) ?a action payload ws db1 = (e, db2)"
    by fastforce
  note e = write_entry_simps[OF w]
  have r: "append_in_session mac fp now actor action payload ws db = Inr (e, db2)"
    using c w cur newest_entry_log[OF l1] by (simp add: append_in_session_def Let_def)
  have "appended mac fp now actor action payload ws db (h_seq h) [] e db2"
    using e(1-8) e(9)[OF h1] l1 cur
    by (auto simp: appended_def scan_entry_None newest_entry_def signed_head_def
        simp del: scan_from.simps(2) list.map split: if_splits)
  then show ?thesis using r by blast
qed

lemma append_refused:
  assumes "\<not> fresh_head db" and "\<And>h. \<not> signed_head mac db h"
  shows "\<exists>r. append_in_session mac fp now actor action payload ws db = Inl (ChainCorrupt r)"
proof (cases "\<exists>h. audit_head db = Some h \<and>
    h_mac h = Some (head_mac mac (h_seq h) (h_hash h) (h_entry_id h))")
  case True
  then obtain h where hd: "audit_head db = Some h"
      "h_mac h = Some (head_mac mac (h_seq h) (h_hash h) (h_entry_id h))" by blast
  obtain db1 where c: "claim_head mac now db = Inr ((h_seq h, h_hash h, h_entry_id h, False), db1)"
    and l1: "audit_log db1 = audit_log db"
    by (rule claim_head_signed[OF hd])
  have "(h_entry_id h, h_hash h) \<noteq> newest_entry db1"
    using assms(2)[of h] hd newest_entry_log[OF l1] by (simp add: signed_head_def)
  then show ?thesis
    using c by (auto simp: append_in_session_def Let_def split: prod.splits)
next
  case False
  then show ?thesis
    using claim_head_refused[OF assms(1), of mac now] by (auto simp: append_in_session_def Let_def)
qed

text \<open>The three outcomes of an append.\<close>

lemma append_cases:
  obtains (fresh) marker entry db' where "fresh_head db"
      "append_in_session mac fp now actor action payload ws db = Inr (entry, db')"
      "appended mac fp now actor action payload ws db 0 [marker] entry db'"
      "e_action marker = INIT_ACTION"
    | (signed) h entry db' where "signed_head mac db h"
      "append_in_session mac fp now actor action payload ws db = Inr (entry, db')"
      "appended mac fp now actor action payload ws db (h_seq h) [] entry db'"
    | (refused) r where "\<not> fresh_head db" "\<And>h. \<not> signed_head mac db h"
      "append_in_session mac fp now actor action payload ws db = Inl (ChainCorrupt r)"
proof (cases "fresh_head db")
  case True
  show thesis using append_fresh[OF True] fresh[OF True] by blast
next
  case nf: False
  show thesis
  proof (cases "\<exists>h. signed_head mac db h")
    case True
    then obtain h where h: "signed_head mac db h" by blast
    show thesis using append_signed[OF h] signed[OF h] by blast
  next
    case False
    then have ns: "\<And>h. \<not> signed_head mac db h" by blast
    obtain r where "append_in_session mac fp now actor action payload ws db = Inl (ChainCorrupt r)"
      using append_refused[OF nf ns] by metis
    then show thesis by (rule refused[OF nf ns])
  qed
qed

lemma appended_verify:
  assumes "appended mac fp now actor action payload ws db seq before entry db'"
  shows "verify_chain mac db' = None \<longleftrightarrow>
     scan_entries mac (audit_log db) = None \<and> seq = int (length (audit_log db))"
proof -
  have log: "audit_log db' = audit_log db @ before @ [entry]"
    and scan: "scan_from mac (last_hash GENESIS_HASH (audit_log db)) (before @ [entry]) = None"
    using assms by (simp_all add: appended_def newest_entry_snd)
  obtain h where h: "signed_head mac db' h" "h_seq h = seq + int (length before) + 1"
    using assms by (auto simp: appended_def)
  have uniq: "signed_head mac db' h' \<Longrightarrow> h' = h" for h'
    using h(1) by (simp add: signed_head_def)
  have "scan_entries mac (audit_log db') = None \<longleftrightarrow> scan_entries mac (audit_log db) = None"
    using scan by (simp add: scan_entries_def log scan_append split: option.split)
  moreover have "\<not> fresh_head db'" by (simp add: fresh_head_def log)
  moreover have "h_seq h = int (length (audit_log db')) \<longleftrightarrow> seq = int (length (audit_log db))"
    using h(2) by (auto simp: log)
  moreover have "(\<exists>h'. signed_head mac db' h' \<and> h_seq h' = n) \<longleftrightarrow> h_seq h = n" for n
    using h(1) uniq by blast
  ultimately show ?thesis by (simp add: verify_None_iff)
qed

lemma fresh_verifies: "fresh_head db \<Longrightarrow> verify_chain mac db = None"
  by (simp add: verify_None_iff fresh_head_def scan_entries_def)

section \<open>What a signature fixes\<close>

text \<open>\<open>hexdigest\<close> never contains the separator \<open>|\<close>.\<close>

definition hex_mac :: "(pystr \<Rightarrow> pystr) \<Rightarrow> bool" where
  "hex_mac mac \<longleftrightarrow> (\<forall>x. 124 \<notin> set (mac x))"

text \<open>The texts a verification hashes: those on which the MAC must be free of collisions.\<close>

definition hashed_texts :: "audit_db \<Rightarrow> pystr set" where
  "hashed_texts db =
     (\<lambda>e. entry_text (e_prev_hash e) (e_payload_json e)) ` set (audit_log db) \<union>
     (case audit_head db of
        None \<Rightarrow> {} | Some h \<Rightarrow> {head_text (h_seq h) (h_hash h) (h_entry_id h)})"

definition hashed_fields :: "audit_entry \<Rightarrow> pystr \<times> pystr \<times> pystr" where
  "hashed_fields e = (e_prev_hash e, e_payload_json e, e_entry_hash e)"

lemma append_sep_inject:
  "c \<notin> set a \<Longrightarrow> c \<notin> set b \<Longrightarrow> a @ c # x = b @ c # y \<Longrightarrow> a = b \<and> x = y"
proof (induction a arbitrary: b)
  case Nil
  then show ?case by (cases b) auto
next
  case (Cons u a)
  then show ?case by (cases b) auto
qed

lemma append_sep_inject_last:
  "c \<notin> set x \<Longrightarrow> c \<notin> set y \<Longrightarrow> a @ c # x = b @ c # y \<Longrightarrow> a = b \<and> x = y"
  using append_sep_inject[of c "rev x" "rev y" "rev a" "rev b"]
  by (metis append.assoc append_Cons append_Nil rev.simps(2) rev_append rev_rev_ident set_rev)

lemma entry_text_inject:
  "124 \<notin> set p \<Longrightarrow> 124 \<notin> set p' \<Longrightarrow> entry_text p c = entry_text p' c' \<Longrightarrow> p = p' \<and> c = c'"
  unfolding entry_text_def by (rule append_sep_inject)

lemma head_text_inject: "head_text s h i = head_text s' h' i' \<Longrightarrow> s = s' \<and> h = h' \<and> i = i'"
proof -
  assume e: "head_text s h i = head_text s' h' i'"
  have sep: "124 \<notin> set (str_of_int k)" for k using str_of_int_chars[of 124 k] by auto
  have "str_of_int s = str_of_int s' \<and>
      h @ 124 # (case i of None \<Rightarrow> [] | Some i \<Rightarrow> str_of_int i) =
      h' @ 124 # (case i' of None \<Rightarrow> [] | Some i \<Rightarrow> str_of_int i)"
    using append_sep_inject[OF sep sep] e by (simp add: head_text_def)
  moreover from this have "h = h' \<and>
      (case i of None \<Rightarrow> [] | Some i \<Rightarrow> str_of_int i) =
      (case i' of None \<Rightarrow> [] | Some i \<Rightarrow> str_of_int i)"
    by (intro append_sep_inject_last[of 124]) (auto simp: sep split: option.splits)
  moreover have "[] \<noteq> str_of_int k" for k by (metis str_of_int_nonempty)
  ultimately show ?thesis by (cases i; cases i') auto
qed

lemma scan_snoc:
  "scan_from mac p (rows @ [r]) = None \<longleftrightarrow>
     scan_from mac p rows = None \<and> e_prev_hash r = last_hash p rows \<and>
     e_entry_hash r = mac (entry_text (last_hash p rows) (e_payload_json r))"
  by (auto simp: scan_append scan_entry_None simp del: scan_from.simps(2) split: option.splits)

lemma last_hash_no_sep:
  "hex_mac mac \<Longrightarrow> scan_from mac GENESIS_HASH rows = None \<Longrightarrow> 124 \<notin> set (last_hash GENESIS_HASH rows)"
  by (cases rows rule: rev_cases)
     (auto simp: scan_snoc hex_mac_def GENESIS_HASH_def last_hash_def)

text \<open>Two verified logs of one length and one newest hash agree on every hashed column.\<close>

lemma chain_unique:
  assumes "hex_mac mac" and "scan_from mac GENESIS_HASH rows = None"
    and "scan_from mac GENESIS_HASH rows' = None" and "length rows = length rows'"
    and "last_hash GENESIS_HASH rows = last_hash GENESIS_HASH rows'"
    and "inj_on mac ((\<lambda>e. entry_text (e_prev_hash e) (e_payload_json e)) ` (set rows \<union> set rows'))"
  shows "map hashed_fields rows = map hashed_fields rows'"
  using assms(2-)
proof (induction rows arbitrary: rows' rule: rev_induct)
  case (snoc r rows)
  obtain s' rs' where rs': "rows' = rs' @ [s']"
    using snoc.prems(3) by (cases rows' rule: rev_cases) auto
  let ?T = "(\<lambda>e. entry_text (e_prev_hash e) (e_payload_json e))"
  have r: "scan_from mac GENESIS_HASH rows = None" "e_prev_hash r = last_hash GENESIS_HASH rows"
    "e_entry_hash r = mac (?T r)"
    using snoc.prems(1) by (auto simp: scan_snoc)
  have s': "scan_from mac GENESIS_HASH rs' = None" "e_prev_hash s' = last_hash GENESIS_HASH rs'"
    "e_entry_hash s' = mac (?T s')"
    using snoc.prems(2) unfolding rs' by (auto simp: scan_snoc)
  have same: "e_entry_hash r = e_entry_hash s'"
    using snoc.prems(4) by (simp add: rs' last_hash_def)
  have "mac (?T r) = mac (?T s')" using same r(3) s'(3) by metis
  then have "?T r = ?T s'"
    by (rule inj_onD[OF snoc.prems(5)]) (simp_all add: rs')
  then have eq: "e_prev_hash r = e_prev_hash s'" "e_payload_json r = e_payload_json s'"
    using entry_text_inject r(2) s'(2) last_hash_no_sep[OF assms(1) r(1)]
      last_hash_no_sep[OF assms(1) s'(1)] by metis+
  have "map hashed_fields rows = map hashed_fields rs'"
    using snoc.prems(3,5) r(1,2) s'(1,2) eq(1)
    by (intro snoc.IH) (auto simp: rs' intro: inj_on_subset)
  moreover have "hashed_fields r = hashed_fields s'" using eq same by (simp add: hashed_fields_def)
  ultimately show ?case by (simp add: rs')
qed simp

lemma signed_verify:
  "verify_chain mac db = None \<Longrightarrow> audit_head db = Some h \<Longrightarrow> h_mac h = Some m \<Longrightarrow>
     m = head_mac mac (h_seq h) (h_hash h) (h_entry_id h) \<and>
     scan_from mac GENESIS_HASH (audit_log db) = None \<and>
     h_hash h = last_hash GENESIS_HASH (audit_log db) \<and> h_seq h = int (length (audit_log db)) \<and>
     (h_entry_id h, h_hash h) = newest_entry db"
  using newest_entry_snd[of db]
  by (cases "newest_entry db")
     (auto simp: verify_None_iff fresh_head_def signed_head_def scan_entries_def)

section \<open>Adoption facts\<close>

lemma sign_locked:
  assumes "audit_head (lock_head now db) = Some h"
    and "(h_entry_id h, h_hash h) = newest_entry (lock_head now db)"
  shows "\<exists>h'. signed_head mac (sign_head mac now (h_seq h) (h_hash h) (h_entry_id h)
      (lock_head now db)) h' \<and> h_seq h' = h_seq h"
  using assms newest_entry_log[of "sign_head mac now (h_seq h) (h_hash h) (h_entry_id h)
      (lock_head now db)" "lock_head now db"]
  by (simp add: sign_head_def signed_head_def)

lemma lock_keeps_head:
  "audit_head (lock_head now db) = Some h \<Longrightarrow> audit_head db = Some h0 \<Longrightarrow>
     h = h0\<lparr>h_updated_at := now\<rparr>"
  by (simp add: lock_head_simps)

text \<open>What an adoption that is not a repetition has checked and written.\<close>

lemma adopt_Adopted:
  assumes "adopt_in_session mac fp now actor db = Inr (Adopted n hash i, db')"
  shows "scan_entries mac (audit_log db) = None \<and> n = length (audit_log db) \<and>
    (\<forall>e\<in>set (audit_log db). e_action e \<notin> set SIGNED_ORIGIN_ACTIONS) \<and>
    (\<forall>h. audit_head db = Some h \<longrightarrow> h_mac h = None \<and> h_adopted_version h = None \<and> head_current db h) \<and>
    verify_chain mac db' = None \<and>
    (\<exists>e. audit_log db' = audit_log db @ [e] \<and> e_action e = ADOPTION_ACTION \<and> e_id e = i)"
proof -
  let ?db1 = "lock_head now db"
  obtain h where h: "audit_head ?db1 = Some h" by (simp add: lock_head_simps)
  let ?db2 = "sign_head mac now (h_seq h) (h_hash h) (h_entry_id h) ?db1"
  let ?actor = "if actor = [] then lit ''operator'' else actor"
  let ?payload = "adoption_payload fp (length (audit_log ?db1)) (h_entry_id h) (h_hash h)"
  have log: "audit_log ?db1 = audit_log db" by (simp add: lock_head_simps)
  note parts = assms[unfolded adopt_in_session_def Let_def h]
  have p: "h_mac h = None" "h_adopted_version h = None"
    "\<forall>e\<in>set (audit_log db). e_action e \<notin> set SIGNED_ORIGIN_ACTIONS"
    "scan_entries mac (audit_log db) = None" "(h_entry_id h, h_hash h) = newest_entry ?db1"
    "h_seq h = int (length (audit_log db))"
    using parts by (auto simp: log split: if_splits option.splits)
  then obtain e where a: "append_in_session mac fp now ?actor ADOPTION_ACTION ?payload None ?db2
      = Inr (e, db')" and res: "n = length (audit_log db)" "i = e_id e"
    using parts by (auto simp: log result_simps split: if_splits)
  obtain h' where h': "signed_head mac ?db2 h'" "h_seq h' = h_seq h"
    using sign_locked[OF h p(5)] by blast
  have log2: "audit_log ?db2 = audit_log db" by (simp add: sign_head_def log)
  have app: "appended mac fp now ?actor ADOPTION_ACTION ?payload None ?db2 (h_seq h) [] e db'"
    using append_signed[OF h'(1), of fp now ?actor ADOPTION_ACTION ?payload None] a h'(2) by simp
  have cur: "audit_head db = Some h0 \<Longrightarrow> h_mac h0 = None \<and> h_adopted_version h0 = None \<and>
      head_current db h0" for h0
    using lock_keeps_head[OF h] p newest_entry_log[OF log] by (simp add: head_current_def)
  have "verify_chain mac db' = None"
    using appended_verify[OF app] p(4,6) log2 by simp
  moreover have "audit_log db' = audit_log db @ [e]" "e_action e = ADOPTION_ACTION"
    using app log2 by (simp_all add: appended_def)
  ultimately show ?thesis using p cur res by blast
qed

lemma adopt_AlreadyAdopted:
  assumes "adopt_in_session mac fp now actor db = Inr (AlreadyAdopted n hash, db')"
  shows "\<exists>h. audit_head db = Some h \<and>
    h_mac h = Some (head_mac mac (h_seq h) (h_hash h) (h_entry_id h)) \<and>
    n = h_seq h \<and> hash = h_hash h \<and> audit_log db' = audit_log db \<and>
    (\<exists>h'. audit_head db' = Some h' \<and> h_mac h' = h_mac h \<and> h_seq h' = h_seq h \<and>
       h_hash h' = h_hash h \<and> h_entry_id h' = h_entry_id h)"
proof (cases "audit_head db")
  case None
  then show ?thesis
    using assms
    by (auto simp: adopt_in_session_def lock_head_simps Let_def result_simps split: if_splits)
next
  case (Some h)
  then show ?thesis
    using assms
    by (auto simp: adopt_in_session_def lock_head_simps Let_def result_simps mark_adopted_def
        split: if_splits option.splits)
qed

lemma verify_same_head:
  assumes "verify_chain mac db = None" and "audit_log db' = audit_log db"
    and "audit_head db = Some h" and "audit_head db' = Some h'" and "h_mac h' = h_mac h"
    and "h_mac h \<noteq> None" and "h_seq h' = h_seq h" and "h_hash h' = h_hash h"
    and "h_entry_id h' = h_entry_id h"
  shows "verify_chain mac db' = None"
  using assms check_head_Some[of mac db h] check_head_Some[of mac db' h']
    newest_entry_log[OF assms(2)]
  by (auto simp: verify_chain_def head_current_def split: option.splits)

section \<open>Stores the code can reach\<close>

inductive audit_reachable :: "(pystr \<Rightarrow> pystr) \<Rightarrow> audit_db \<Rightarrow> bool" for mac where
  start: "audit_reachable mac empty_audit"
| append: "\<lbrakk>audit_reachable mac db;
    append_in_session mac fp now actor action payload ws db = Inr (entry, db')\<rbrakk> \<Longrightarrow>
    audit_reachable mac db'"
| adopt: "\<lbrakk>audit_reachable mac db; adopt_in_session mac fp now actor db = Inr (r, db')\<rbrakk> \<Longrightarrow>
    audit_reachable mac db'"

definition signed_origin :: "audit_db \<Rightarrow> bool" where
  "signed_origin db \<longleftrightarrow> (\<exists>e\<in>set (audit_log db). e_action e \<in> set SIGNED_ORIGIN_ACTIONS)"

definition store_genuine :: "(pystr \<Rightarrow> pystr) \<Rightarrow> audit_db \<Rightarrow> bool" where
  "store_genuine mac db \<longleftrightarrow> verify_chain mac db = None \<and> (fresh_head db \<or> signed_origin db)"

lemma append_genuine:
  assumes "store_genuine mac db"
    and "append_in_session mac fp now actor action payload ws db = Inr (entry, db')"
  shows "store_genuine mac db'"
proof (cases rule: append_cases
    [of db mac fp now actor action payload ws, case_names fresh signed refused])
  case (fresh marker entry' db'')
  then show ?thesis
    using appended_verify[OF fresh(3)] assms(2)
    by (auto simp: appended_def fresh_head_def scan_entries_def signed_origin_def
        SIGNED_ORIGIN_ACTIONS_def store_genuine_def)
next
  case (signed h entry' db'')
  have eq: "db'' = db'" using signed(2) assms(2) by simp
  have log: "audit_log db' = audit_log db @ [entry']" using signed(3) eq by (simp add: appended_def)
  have nf: "\<not> fresh_head db" using signed(1) by (auto simp: fresh_head_def signed_head_def)
  then have s: "scan_entries mac (audit_log db) = None" "h_seq h = int (length (audit_log db))"
    using assms(1) signed(1) by (auto simp: verify_None_iff signed_head_def store_genuine_def)
  then have "verify_chain mac db' = None" using appended_verify[OF signed(3)] eq by simp
  moreover have "signed_origin db'"
    using assms(1) nf log by (auto simp: signed_origin_def store_genuine_def)
  ultimately show ?thesis by (simp add: store_genuine_def)
next
  case (refused r)
  then show ?thesis using assms by (auto simp: verify_None_iff store_genuine_def)
qed

lemma adopt_genuine:
  assumes "store_genuine mac db" and "adopt_in_session mac fp now actor db = Inr (r, db')"
  shows "store_genuine mac db'"
proof (cases r)
  case (AlreadyAdopted n hash)
  obtain h h' where h: "audit_head db = Some h" "h_mac h \<noteq> None" "audit_log db' = audit_log db"
    "audit_head db' = Some h'" "h_mac h' = h_mac h" "h_seq h' = h_seq h" "h_hash h' = h_hash h"
    "h_entry_id h' = h_entry_id h"
    using adopt_AlreadyAdopted[OF assms(2)[unfolded AlreadyAdopted]] by auto
  have "\<not> fresh_head db" using h by (auto simp: fresh_head_def)
  then have "signed_origin db'"
    using assms(1) h(3) by (simp add: store_genuine_def signed_origin_def)
  then show ?thesis
    using verify_same_head[OF _ h(3,1,4,5,2,6-8)] assms(1) by (simp add: store_genuine_def)
next
  case (Adopted n hash i)
  note a = adopt_Adopted[OF assms(2)[unfolded Adopted]]
  then have "signed_origin db'" by (auto simp: signed_origin_def SIGNED_ORIGIN_ACTIONS_def)
  then show ?thesis using a by (simp add: store_genuine_def)
qed

lemma audit_reachable_genuine: "audit_reachable mac db \<Longrightarrow> store_genuine mac db"
proof (induction rule: audit_reachable.induct)
  case start
  show ?case by (simp add: store_genuine_def fresh_verifies fresh_head_def empty_audit_def)
next
  case append
  then show ?case by (blast intro: append_genuine)
next
  case adopt
  then show ?case by (blast intro: adopt_genuine)
qed

section \<open>Appends with retries\<close>

lemma append_succeeds:
  "verify_chain mac db = None \<Longrightarrow>
     \<exists>x. append_in_session mac fp now actor action payload ws db = Inr x"
  by (cases rule: append_cases[of db mac fp now actor action payload ws])
     (auto simp: verify_None_iff)

lemma append_verify_iff:
  assumes "append_in_session mac fp now actor action payload ws db = Inr (e, db')"
  shows "verify_chain mac db' = None \<longleftrightarrow> verify_chain mac db = None"
proof (cases rule: append_cases
    [of db mac fp now actor action payload ws, case_names fresh signed refused])
  case (fresh marker entry db'')
  then show ?thesis
    using assms appended_verify[OF fresh(3)] fresh_verifies[OF fresh(1), of mac]
    by (simp add: fresh_head_def scan_entries_def)
next
  case (signed h entry db'')
  have nf: "\<not> fresh_head db" using signed(1) by (auto simp: fresh_head_def signed_head_def)
  have "verify_chain mac db = None \<longleftrightarrow>
      scan_entries mac (audit_log db) = None \<and> h_seq h = int (length (audit_log db))"
    using signed(1) nf by (auto simp: verify_None_iff signed_head_def)
  then show ?thesis using assms signed(2) appended_verify[OF signed(3)] by simp
next
  case (refused r)
  then show ?thesis using assms by simp
qed

lemma append_log:
  assumes "append_in_session mac fp now actor action payload ws db = Inr (e, db')"
  shows "\<exists>markers. audit_log db' = audit_log db @ markers @ [e] \<and>
    (\<forall>m\<in>set markers. e_action m = INIT_ACTION) \<and> e_action e = action \<and> e_workspace_id e = ws"
proof (cases rule: append_cases
    [of db mac fp now actor action payload ws, case_names fresh signed refused])
  case (fresh marker entry db'')
  then show ?thesis using assms by (intro exI[of _ "[marker]"]) (simp add: appended_def)
next
  case (signed h entry db'')
  then show ?thesis using assms by (intro exI[of _ "[]"]) (simp add: appended_def)
next
  case (refused r)
  then show ?thesis using assms by simp
qed

lemma record_attempts_succeeds:
  assumes "verify_chain mac (ew_db w) = None" and "k < n" and "snd (sched (ew_tick w + k)) = None"
    and "\<forall>j<k. snd (sched (ew_tick w + j)) = Some Retryable"
  shows "\<exists>i w'. record_attempts mac fp sched actor action payload ws n w = (Inr i, w')"
  using assms
proof (induction k arbitrary: n w)
  case 0
  then obtain m where n: "n = Suc m" by (cases n) auto
  obtain now where now: "sched (ew_tick w) = (now, None)"
    using 0 by (cases "sched (ew_tick w)") auto
  obtain x where "append_in_session mac fp now actor action payload ws (ew_db w) = Inr x"
    using append_succeeds[OF 0(1)] by blast
  then show ?case using n now by (cases x) (auto simp: Let_def)
next
  case (Suc k)
  then obtain m where n: "n = Suc m" and m: "k < m" by (cases n) auto
  obtain now where now: "sched (ew_tick w) = (now, Some Retryable)"
    using Suc.prems(4) by (cases "sched (ew_tick w)") force
  have "\<exists>i w'. record_attempts mac fp sched actor action payload ws m
      (w\<lparr>ew_tick := ew_tick w + 1\<rparr>) = (Inr i, w')"
    using Suc.prems m by (intro Suc.IH) (auto simp: less_Suc_eq_0_disj)
  then show ?case using n now m by (auto simp: Let_def)
qed

text \<open>Where a successful \<open>record_required\<close> appended, and at which tick.\<close>

lemma record_attempts_result:
  "record_attempts mac fp sched actor action payload ws n w = (r, w') \<Longrightarrow>
     ew_outside w' = ew_outside w \<and> ew_tick w' \<le> ew_tick w + n \<and>
     (case r of
        Inl e \<Rightarrow> ew_db w' = ew_db w
      | Inr i \<Rightarrow> \<exists>now entry. i = e_id entry \<and>
          append_in_session mac fp now actor action payload ws (ew_db w) = Inr (entry, ew_db w'))"
proof (induction n arbitrary: w)
  case (Suc n)
  show ?case
  proof (cases "snd (sched (ew_tick w))")
    case None
    obtain now where now: "sched (ew_tick w) = (now, None)"
      using None by (cases "sched (ew_tick w)") auto
    show ?thesis
    proof (cases "append_in_session mac fp now actor action payload ws (ew_db w)")
      case (Inl e)
      then show ?thesis using Suc.prems now by (auto simp: Let_def)
    next
      case (Inr x)
      obtain entry db' where x: "x = (entry, db')" by (cases x)
      have "r = Inr (e_id entry)" "w' = w\<lparr>ew_tick := ew_tick w + 1, ew_db := db'\<rparr>"
        using Suc.prems now Inr x by (simp_all add: Let_def)
      then show ?thesis using Inr x by (simp, intro exI conjI) (rule refl, assumption)
    qed
  next
    case (Some f)
    then show ?thesis
    proof (cases "f = Retryable \<and> n \<noteq> 0")
      case True
      then show ?thesis
        using Suc.prems Suc.IH[of "w\<lparr>ew_tick := ew_tick w + 1\<rparr>"] Some
        by (auto simp: Let_def split: prod.splits sum.splits)
    next
      case False
      then show ?thesis
        using Suc.prems Some by (cases f) (auto simp: Let_def split: prod.splits)
    qed
  qed
qed auto

section \<open>Properties\<close>

text \<open>Appending extends a verified chain. When the log verifies, an append succeeds without
  exception, adds the caller's entry (its actor defaulted, its payload in canonical form) at the end
  of an otherwise unchanged log, and the result verifies; only the first append of a fresh store puts
  the genesis marker in front.\<close>

theorem append_extends_verified:
  assumes "verify_chain mac db = None"
  shows "\<exists>before entry db'.
    append_in_session mac fp now actor action payload ws db = Inr (entry, db') \<and>
    verify_chain mac db' = None \<and> audit_log db' = audit_log db @ before @ [entry] \<and>
    e_actor entry = (if actor = [] then lit ''anonymous'' else actor) \<and>
    e_action entry = action \<and> e_workspace_id entry = ws \<and>
    e_payload_json entry = canonical_payload now (e_actor entry) action ws payload \<and>
    (if fresh_head db then map e_action before = [INIT_ACTION] else before = [])"
proof (cases rule: append_cases
    [of db mac fp now actor action payload ws, case_names fresh signed refused])
  case (fresh marker entry db')
  then show ?thesis
    using appended_verify[OF fresh(3)]
    by (auto simp: appended_def fresh_head_def scan_entries_def intro!: exI[of _ "[marker]"])
next
  case (signed h entry db')
  have nf: "\<not> fresh_head db" using signed(1) by (auto simp: fresh_head_def signed_head_def)
  have "h_seq h = int (length (audit_log db))" and "scan_entries mac (audit_log db) = None"
    using assms signed(1) nf by (auto simp: verify_None_iff signed_head_def)
  then have "verify_chain mac db' = None" using appended_verify[OF signed(3)] by simp
  then show ?thesis
    using signed(2,3) nf by (auto simp: appended_def intro!: exI[of _ "[]"])
next
  case (refused r)
  then show ?thesis using assms by (auto simp: verify_None_iff)
qed

text \<open>Appending never launders a break. An append over a store that does not verify is either
  refused as corrupt with the store untouched, or leaves a store that still does not verify; so a
  verifying store was never built on a broken one.\<close>

theorem append_never_launders:
  assumes "verify_chain mac db \<noteq> None"
  shows "case append_in_session mac fp now actor action payload ws db of
     Inl e \<Rightarrow> \<exists>r. e = ChainCorrupt r
   | Inr (entry, db') \<Rightarrow> verify_chain mac db' \<noteq> None"
proof (cases rule: append_cases
    [of db mac fp now actor action payload ws, case_names fresh signed refused])
  case (fresh marker entry db')
  then show ?thesis using assms fresh_verifies[of db mac] by simp
next
  case (signed h entry db')
  then have "\<not> (scan_entries mac (audit_log db) = None \<and> h_seq h = int (length (audit_log db)))"
    using assms by (auto simp: verify_None_iff)
  then show ?thesis using signed(2) appended_verify[OF signed(3)] by auto
next
  case (refused r)
  then show ?thesis by simp
qed

text \<open>C4. Tamper evidence. Take a store that verifies under a signed head, and any other content of
  its tables whose head still carries that signature (an attacker without the key has no other):
  if it verifies too, then the log has the same length and every entry the same \<open>prev_hash\<close>,
  \<open>payload_json\<close> and \<open>entry_hash\<close> in the same order, and the head the same count, hash and entry.
  So a deleted, inserted, reordered or mutated row and a truncated tail are always reported, as long
  as the MAC has no collision among the texts the two verifications hash.\<close>

theorem tamper_evident:
  assumes "hex_mac mac" and "inj_on mac (hashed_texts db \<union> hashed_texts db')"
    and "verify_chain mac db = None" and "audit_head db = Some h" and "h_mac h = Some m"
    and "verify_chain mac db' = None" and "audit_head db' = Some h'" and "h_mac h' = Some m"
  shows "map hashed_fields (audit_log db') = map hashed_fields (audit_log db) \<and>
    h_seq h' = h_seq h \<and> h_hash h' = h_hash h \<and> h_entry_id h' = h_entry_id h"
proof -
  note v = signed_verify[OF assms(3-5)] and v' = signed_verify[OF assms(6-8)]
  have mem: "head_text (h_seq h) (h_hash h) (h_entry_id h) \<in> hashed_texts db \<union> hashed_texts db'"
    "head_text (h_seq h') (h_hash h') (h_entry_id h') \<in> hashed_texts db \<union> hashed_texts db'"
    using assms(4,7) by (simp_all add: hashed_texts_def)
  have "mac (head_text (h_seq h) (h_hash h) (h_entry_id h)) =
      mac (head_text (h_seq h') (h_hash h') (h_entry_id h'))"
    using v v' by (simp add: head_mac_def)
  note eq = head_text_inject[OF inj_onD[OF assms(2) this mem]]
  have len: "length (audit_log db) = length (audit_log db')" using v v' eq by simp
  have lst: "last_hash GENESIS_HASH (audit_log db) = last_hash GENESIS_HASH (audit_log db')"
    using v v' eq by simp
  have inj: "inj_on mac ((\<lambda>e. entry_text (e_prev_hash e) (e_payload_json e)) `
      (set (audit_log db) \<union> set (audit_log db')))"
    by (rule inj_on_subset[OF assms(2)]) (auto simp: hashed_texts_def)
  have "map hashed_fields (audit_log db) = map hashed_fields (audit_log db')"
    using chain_unique[OF assms(1) _ _ len lst inj] v v' by simp
  then show ?thesis using eq by simp
qed

text \<open>Adoption signs only what it verified. \<open>adopt_legacy_chain\<close> either reports a store whose
  signature already holds, leaving its log and signed head fields alone, or it adopts: then every
  entry hashed and linked, no entry recorded a signed origin, the head was unsigned, unmarked and
  named the newest entry and the exact count, and the result is the same log with one adoption entry
  appended, under a head that verifies.\<close>

theorem adoption_sound:
  assumes "adopt_in_session mac fp now actor db = Inr (r, db')"
  shows "case r of
     AlreadyAdopted n hash \<Rightarrow>
       \<exists>h. audit_head db = Some h \<and> n = h_seq h \<and> hash = h_hash h \<and>
         h_mac h = Some (head_mac mac (h_seq h) (h_hash h) (h_entry_id h)) \<and>
         audit_log db' = audit_log db
   | Adopted n hash i \<Rightarrow>
       scan_entries mac (audit_log db) = None \<and> n = length (audit_log db) \<and>
       (\<forall>e\<in>set (audit_log db). e_action e \<notin> set SIGNED_ORIGIN_ACTIONS) \<and>
       (\<forall>h. audit_head db = Some h \<longrightarrow>
          h_mac h = None \<and> h_adopted_version h = None \<and> head_current db h) \<and>
       verify_chain mac db' = None \<and>
       (\<exists>e. audit_log db' = audit_log db @ [e] \<and> e_action e = ADOPTION_ACTION \<and> e_id e = i)"
proof (cases r)
  case (AlreadyAdopted n hash)
  then show ?thesis using adopt_AlreadyAdopted[of mac fp now actor db n hash db'] assms by auto
next
  case (Adopted n hash i)
  then show ?thesis using adopt_Adopted[of mac fp now actor db n hash i db'] assms by simp
qed

text \<open>A signed origin cannot be laundered. Take any store the program itself can have produced from
  an empty one, by appends and adoptions in any order, that holds an entry. If someone strips its
  head of the signature (and of the adoption marker, and moves it anywhere), or deletes the head row,
  then verification reports it, every append is refused as corrupt, and so is adoption.\<close>

theorem stripped_head_refused:
  assumes "audit_reachable mac db" and "audit_log db \<noteq> []"
    and "case head of None \<Rightarrow> True | Some h \<Rightarrow> h_mac h = None"
  shows "verify_chain mac (db\<lparr>audit_head := head\<rparr>) \<noteq> None \<and>
    (\<exists>r. append_in_session mac fp now actor action payload ws (db\<lparr>audit_head := head\<rparr>)
       = Inl (ChainCorrupt r)) \<and>
    (\<exists>r. adopt_in_session mac fp now actor (db\<lparr>audit_head := head\<rparr>) = Inl (ChainCorrupt r))"
proof -
  let ?db = "db\<lparr>audit_head := head\<rparr>"
  have nf: "\<not> fresh_head ?db" "\<not> fresh_head db" using assms(2) by (simp_all add: fresh_head_def)
  have ns: "\<not> signed_head mac ?db h" for h
    using assms(3) by (auto simp: signed_head_def)
  obtain e where e: "e \<in> set (audit_log db)" "e_action e \<in> set SIGNED_ORIGIN_ACTIONS"
    using audit_reachable_genuine[OF assms(1)] nf by (auto simp: store_genuine_def signed_origin_def)
  have "\<exists>r. adopt_in_session mac fp now actor ?db = Inl (ChainCorrupt r)"
    using assms(2,3) e
    by (cases head) (auto simp: adopt_in_session_def lock_head_simps Let_def)
  then show ?thesis
    using nf ns append_refused[OF nf(1) ns] by (simp add: verify_None_iff)
qed

text \<open>C39. A required append is all or nothing, bounded, and succeeds when it can. \<open>record_required\<close>
  runs at most six transactions and never touches the outside; when it raises, the store is exactly
  as before, and when it returns an id the store is the result of one \<open>append_in_session\<close> on the
  store before, whose entry has that id. On a log that verifies it does return, if one of the first
  six transactions meets no database fault and those before it only retryable ones.\<close>

theorem record_required_atomic:
  assumes "record_required mac fp sched actor action payload ws w = (r, w')"
  shows "ew_outside w' = ew_outside w \<and> ew_tick w' \<le> ew_tick w + 6 \<and>
     (case r of
        Inl e \<Rightarrow> ew_db w' = ew_db w
      | Inr i \<Rightarrow> \<exists>now entry. i = e_id entry \<and>
          append_in_session mac fp now actor action payload ws (ew_db w) = Inr (entry, ew_db w')) \<and>
     (verify_chain mac (ew_db w) = None \<and>
      (\<exists>k<6. snd (sched (ew_tick w + k)) = None \<and>
         (\<forall>j<k. snd (sched (ew_tick w + j)) = Some Retryable)) \<longrightarrow> (\<exists>i. r = Inr i))"
  using record_attempts_result[OF assms[unfolded record_required_def APPEND_ATTEMPTS_def]]
    record_attempts_succeeds[of mac w _ 6 sched fp actor action payload ws]
    assms[unfolded record_required_def APPEND_ATTEMPTS_def] by auto

lemma record_required_stores:
  assumes "record_required mac fp sched actor action payload ws w = (r, w')"
  shows "ew_outside w' = ew_outside w"
    "case r of Inl e \<Rightarrow> ew_db w' = ew_db w
     | Inr i \<Rightarrow> \<exists>now entry. i = e_id entry \<and> append_in_session mac fp now actor action payload ws (ew_db w) = Inr (entry, ew_db w')"
  using record_attempts_result[OF assms[unfolded record_required_def]] by simp_all

text \<open>What \<open>required_effect\<close> does after the effect.\<close>

lemma effect_raised:
  assumes "record_required mac fp sched actor (action @ FAILURE_SUFFIX) payload ws w = (r, w')"
  shows "ew_db w' = ew_db w \<or> (\<exists>now entry. append_in_session mac fp now actor (action @ FAILURE_SUFFIX) payload ws (ew_db w)
    = Inr (entry, ew_db w') \<and> e_action entry \<noteq> action)"
proof (cases r)
  case (Inl e)
  then show ?thesis using record_required_stores(2)[OF assms] by simp
next
  case (Inr j)
  then obtain now entry where en: "append_in_session mac fp now actor (action @ FAILURE_SUFFIX) payload ws (ew_db w)
      = Inr (entry, ew_db w')"
    using record_required_stores(2)[OF assms] by auto
  have "e_action entry = action @ FAILURE_SUFFIX" using append_log[OF en] by blast
  then show ?thesis using en by (auto simp: FAILURE_SUFFIX_def)
qed

text \<open>C9. The two-phase record of an irreversible effect. When a \<open>required_effect\<close> block is refused,
  the effect never ran: store and outside are untouched. Otherwise an entry \<open><action>.attempted\<close> was
  committed first and the effect ran exactly once, on the store holding that entry; the block ends as
  done only if the effect returned and the entry \<open><action>\<close>, with its outcome and the id of the
  attempt, was the only one appended to what it left; as unrecorded only if it returned and that append
  failed, nothing more written; and as raised, with the effect's own exception, only if the effect
  raised, and then what follows the effect is at most the one entry \<open><action>.failed\<close>, with that
  exception and the id of the attempt: never the entry of a success.\<close>

theorem required_effect_ordering:
  assumes "required_effect mac fp sched actor action payload ws effect w = (r, w')"
  shows "case r of
     EffectRefused e \<Rightarrow> ew_db w' = ew_db w \<and> ew_outside w' = ew_outside w
   | _ \<Rightarrow> \<exists>now attempt db1 res db2 out.
       append_in_session mac fp now actor (action @ ATTEMPT_SUFFIX) payload ws (ew_db w)
         = Inr (attempt, db1) \<and>
       effect (db1, ew_outside w) = (res, db2, out) \<and> ew_outside w' = out \<and>
       (case r of
          EffectDone \<Rightarrow> \<exists>outcome now2 entry. res = Inr outcome \<and>
            append_in_session mac fp now2 actor action
              (merge_members (merge_members payload outcome)
                 [(lit ''attempt_audit_id'', JInt (e_id attempt))]) ws db2 = Inr (entry, ew_db w')
        | EffectUnrecorded i e \<Rightarrow> (\<exists>outcome. res = Inr outcome) \<and> i = e_id attempt \<and> ew_db w' = db2
        | EffectRaised err \<Rightarrow> res = Inl err \<and>
            (ew_db w' = db2 \<or> (\<exists>now2 entry. append_in_session mac fp now2 actor (action @ FAILURE_SUFFIX)
               (merge_members payload [(lit ''attempt_audit_id'', JInt (e_id attempt)),
                  (lit ''error'', JStr (take 2000 err))]) ws db2 = Inr (entry, ew_db w') \<and>
               e_action entry \<noteq> action))
        | EffectRefused e \<Rightarrow> False)"
proof -
  obtain r1 w1 where a: "record_required mac fp sched actor (action @ ATTEMPT_SUFFIX) payload ws w
      = (r1, w1)" by fastforce
  note a1 = record_required_stores[OF a]
  show ?thesis
  proof (cases r1)
    case (Inl e)
    then show ?thesis using assms a a1 by (auto simp: required_effect_def)
  next
    case (Inr i)
    obtain now attempt where at: "i = e_id attempt"
      "append_in_session mac fp now actor (action @ ATTEMPT_SUFFIX) payload ws (ew_db w)
         = Inr (attempt, ew_db w1)"
      using a1(2) Inr by auto
    obtain res db2 out where ef: "effect (ew_db w1, ew_outside w) = (res, db2, out)"
      by (metis prod_cases3)
    let ?w2 = "w1\<lparr>ew_db := db2, ew_outside := out\<rparr>"
    show ?thesis
    proof (cases res)
      case (Inl err)
      obtain r3 where f: "record_required mac fp sched actor (action @ FAILURE_SUFFIX)
          (merge_members payload [(lit ''attempt_audit_id'', JInt i),
             (lit ''error'', JStr (take 2000 err))]) ws ?w2 = (r3, w')" and r: "r = EffectRaised err"
        using assms a a1(1) Inr ef Inl by (auto simp: required_effect_def case_prod_beta prod_eq_iff)
      then show ?thesis
        using at ef Inl effect_raised[OF f] record_required_stores(1)[OF f] by (simp del: list.map) blast
    next
      case out: (Inr outcome)
      obtain r3 where f: "record_required mac fp sched actor action
          (merge_members (merge_members payload outcome) [(lit ''attempt_audit_id'', JInt i)]) ws ?w2 = (r3, w')"
        "r = (case r3 of Inl e \<Rightarrow> EffectUnrecorded i e | Inr _ \<Rightarrow> EffectDone)"
        using assms a a1(1) Inr ef out by (auto simp: required_effect_def case_prod_beta prod_eq_iff split: sum.splits)
      show ?thesis
        using at ef out f(2) record_required_stores[OF f(1)] by (cases r3) ((simp del: list.map), blast)+
    qed
  qed
qed

section \<open>Examples\<close>

text \<open>A collision-free stand-in for the MAC: a shift of every code point past the separator.\<close>

definition sample_mac :: "pystr \<Rightarrow> pystr" where
  "sample_mac x = map (\<lambda>c. c + 125) x"

lemma sample_mac_ok: "hex_mac sample_mac" "inj sample_mac"
proof -
  show "hex_mac sample_mac" by (auto simp: hex_mac_def sample_mac_def)
  show "inj sample_mac" unfolding sample_mac_def by (intro inj_mapI) (auto simp: inj_def)
qed

definition sample_append :: "audit_db \<Rightarrow> audit_error + audit_entry \<times> audit_db" where
  "sample_append db = append_in_session sample_mac (lit ''f'') 0 (lit ''kim'') (lit ''x'') [] None db"

definition sample_log :: audit_db where
  "sample_log = (case sample_append empty_audit of Inr (_, db) \<Rightarrow> db | Inl _ \<Rightarrow> empty_audit)"

lemma empty_verifies: "verify_chain mac empty_audit = None" and empty_fresh: "fresh_head empty_audit"
  by (simp_all add: fresh_verifies fresh_head_def empty_audit_def)

lemma sample_log_append: "\<exists>m e. sample_append empty_audit = Inr (e, sample_log) \<and>
    audit_log sample_log = [m, e] \<and> e_action m = INIT_ACTION \<and> e_action e = lit ''x'' \<and>
    verify_chain sample_mac sample_log = None \<and> (\<exists>h. signed_head sample_mac sample_log h)"
proof -
  obtain m e db where a: "sample_append empty_audit = Inr (e, db)"
    and b: "appended sample_mac (lit ''f'') 0 (lit ''kim'') (lit ''x'') [] None empty_audit 0 [m] e db"
    and c: "e_action m = INIT_ACTION"
    using append_fresh[OF empty_fresh, of sample_mac "lit ''f''" 0 "lit ''kim''" "lit ''x''" "[]" None]
    unfolding sample_append_def by blast
  have "sample_log = db" by (simp add: sample_log_def a)
  moreover have "verify_chain sample_mac db = None"
    using appended_verify[OF b] by (simp add: scan_entries_def empty_audit_def)
  ultimately show ?thesis
    using a b c by (auto simp: appended_def empty_audit_def simp del: list.map)
qed

theorem append_extends_verified_witness:
  "\<exists>m e db'. append_in_session sample_mac (lit ''f'') 0 [] (lit ''a'') [] None empty_audit
     = Inr (e, db') \<and> audit_log db' = [m, e] \<and> e_action m = INIT_ACTION"
proof -
  obtain before e db' where "append_in_session sample_mac (lit ''f'') 0 [] (lit ''a'') [] None empty_audit
      = Inr (e, db')" "audit_log db' = before @ [e]" "map e_action before = [INIT_ACTION]"
    using append_extends_verified[OF empty_verifies[of sample_mac],
        of "lit ''f''" 0 "[]" "lit ''a''" "[]" None] empty_fresh
    by (auto simp: empty_audit_def)
  then show ?thesis by (cases before) auto
qed

text \<open>A store whose second entry was cut off: its head still counts and names it.\<close>

definition truncated_log :: audit_db where
  "truncated_log = sample_log\<lparr>audit_log := take 1 (audit_log sample_log)\<rparr>"

lemma truncated_head: "\<exists>h m. audit_head truncated_log = Some h \<and> audit_head sample_log = Some h \<and>
    h_mac h = Some m \<and> h_seq h = 2"
  using sample_log_append
  by (auto simp: signed_head_def truncated_log_def verify_None_iff fresh_head_def)

lemma truncated_broken: "verify_chain sample_mac truncated_log \<noteq> None"
proof
  assume v: "verify_chain sample_mac truncated_log = None"
  obtain h m where h: "audit_head truncated_log = Some h" "h_mac h = Some m" "h_seq h = 2"
    using truncated_head by blast
  have "h_seq h = int (length (audit_log truncated_log))"
    using signed_verify[OF v h(1,2)] by simp
  then show False using h(3) sample_log_append by (auto simp: truncated_log_def)
qed

theorem append_never_launders_witness:
  "case append_in_session sample_mac (lit ''f'') 0 [] (lit ''a'') [] None truncated_log of
     Inl e \<Rightarrow> \<exists>r. e = ChainCorrupt r
   | Inr (entry, db') \<Rightarrow> verify_chain sample_mac db' \<noteq> None"
  by (rule append_never_launders[OF truncated_broken])

text \<open>An edited \<open>action\<close> column is not among the hashed fields, so the store still verifies.\<close>

definition relabelled_log :: audit_db where
  "relabelled_log = sample_log\<lparr>audit_log := map (\<lambda>e. e\<lparr>e_action := lit ''y''\<rparr>) (audit_log sample_log)\<rparr>"

lemma scan_relabel: "scan_from mac p (map (\<lambda>e. e\<lparr>e_action := a\<rparr>) rows) = scan_from mac p rows"
  by (induction rows arbitrary: p) (simp_all add: Let_def)

lemma relabelled_verifies:
  "verify_chain sample_mac relabelled_log = None \<and>
   map e_action (audit_log relabelled_log) \<noteq> map e_action (audit_log sample_log)"
proof -
  obtain m e where l: "audit_log sample_log = [m, e]" "e_action m = INIT_ACTION"
    and v: "verify_chain sample_mac sample_log = None"
    using sample_log_append by blast
  have same: "newest_entry relabelled_log = newest_entry sample_log"
    "length (audit_log relabelled_log) = length (audit_log sample_log)"
    "audit_head relabelled_log = audit_head sample_log" "\<not> fresh_head sample_log"
    by (simp_all add: newest_entry_def relabelled_log_def l fresh_head_def)
  have "scan_entries sample_mac (audit_log relabelled_log) = scan_entries sample_mac (audit_log sample_log)"
    by (simp add: scan_entries_def relabelled_log_def scan_relabel)
  then have "verify_chain sample_mac relabelled_log = None"
    using v same by (simp add: verify_None_iff signed_head_def)
  then show ?thesis by (simp add: relabelled_log_def l INIT_ACTION_def)
qed

theorem tamper_evident_witness:
  "map hashed_fields (audit_log relabelled_log) = map hashed_fields (audit_log sample_log)"
proof -
  obtain h m where h: "audit_head sample_log = Some h" "h_mac h = Some m"
    using truncated_head by blast
  have "audit_head relabelled_log = Some h" by (simp add: relabelled_log_def h)
  then show ?thesis
    using tamper_evident[OF sample_mac_ok(1) inj_on_subset[OF sample_mac_ok(2)], of sample_log relabelled_log]
      h relabelled_verifies sample_log_append by blast
qed

theorem adoption_sound_witness:
  "\<exists>i db'. adopt_in_session sample_mac (lit ''f'') 0 [] empty_audit = Inr (Adopted 0 GENESIS_HASH i, db')
     \<and> verify_chain sample_mac db' = None"
proof -
  obtain i db' where r: "adopt_in_session sample_mac (lit ''f'') 0 [] empty_audit
      = Inr (Adopted 0 GENESIS_HASH i, db')"
    by (simp add: adopt_in_session_def empty_audit_def lock_head_simps newest_entry_def Let_def
        scan_entries_def append_in_session_def claim_head_def sign_head_def write_entry_def)
  then show ?thesis using adoption_sound[OF r] by auto
qed

theorem stripped_head_refused_witness:
  "verify_chain sample_mac (sample_log\<lparr>audit_head := None\<rparr>) \<noteq> None"
proof -
  obtain e where a: "append_in_session sample_mac (lit ''f'') 0 (lit ''kim'') (lit ''x'') [] None
      empty_audit = Inr (e, sample_log)" and l: "audit_log sample_log \<noteq> []"
    using sample_log_append unfolding sample_append_def by auto
  have "audit_reachable sample_mac sample_log"
    by (rule audit_reachable.append[OF audit_reachable.start a])
  from stripped_head_refused[OF this l, of None] show ?thesis by simp
qed

definition sample_world :: "unit effect_world" where
  "sample_world = \<lparr>ew_db = empty_audit, ew_outside = (), ew_tick = 0\<rparr>"

theorem record_required_atomic_witness:
  "\<exists>i. fst (record_required sample_mac (lit ''f'')
     (\<lambda>n. (0, if n = 0 then Some Retryable else None)) [] (lit ''a'') [] None sample_world) = Inr i"
proof -
  let ?s = "\<lambda>n. (0, if n = 0 then Some Retryable else None)"
  obtain r w' where r: "record_required sample_mac (lit ''f'') ?s [] (lit ''a'') [] None sample_world
      = (r, w')" by fastforce
  have "\<exists>k<6::nat. snd (?s (0 + k)) = None \<and> (\<forall>j<k. snd (?s (0 + j)) = Some Retryable)"
    by (intro exI[of _ "1::nat"]) auto
  then show ?thesis
    using record_required_atomic[OF r] r empty_verifies by (auto simp: sample_world_def)
qed

theorem required_effect_ordering_witness:
  "\<exists>attempt db1. append_in_session sample_mac (lit ''f'') 0 [] (lit ''a'' @ ATTEMPT_SUFFIX) [] None
     empty_audit = Inr (attempt, db1)"
proof -
  let ?run = "required_effect sample_mac (lit ''f'') (\<lambda>_. (0, None)) [] (lit ''a'') [] None
      (\<lambda>(db, w). (Inl [], db, w)) sample_world"
  obtain r w' where r: "?run = (r, w')" by fastforce
  obtain x where "append_in_session sample_mac (lit ''f'') 0 [] (lit ''a'' @ ATTEMPT_SUFFIX) [] None
     empty_audit = Inr x"
    using append_succeeds[OF empty_verifies] by blast
  then show ?thesis
    using required_effect_ordering[OF r] by (cases x) (auto simp: sample_world_def)
qed

end
