(* ===== verification/Ledger.thy ===== *)
theory Ledger imports AuditLog Store begin

text \<open>
  What governed actions, approvals and their audit record share: the rows of
  \<open>governed_actions\<close> and \<open>approval_decisions\<close> (\<open>storage/models.py\<close>), the store they live in together
  with the audit log, coded rows (\<open>control/common.py\<close>), and the interface \<open>audit_writer\<close> through
  which a transaction appends to the log, interpreted on \<open>append_in_session\<close>.
\<close>

section \<open>Rows\<close>

datatype gov_status =
    Requested
  | Pending
  | Authorized
  | Executing
  | Succeeded
  | Failed
  | Released
  | Denied
  | Expired

datatype gov_decision =
    DecideAllow
  | RequireApproval
  | DecideApproved
  | DecideDenied
  | DecideExpired
  | ScopeMismatch
  | DecideUnsupported

fun status_text :: "gov_status \<Rightarrow> pystr" where
  "status_text Requested = lit ''requested''"
| "status_text Pending = lit ''pending''"
| "status_text Authorized = lit ''authorized''"
| "status_text Executing = lit ''executing''"
| "status_text Succeeded = lit ''succeeded''"
| "status_text Failed = lit ''failed''"
| "status_text Released = lit ''released''"
| "status_text Denied = lit ''denied''"
| "status_text Expired = lit ''expired''"

fun decision_text :: "gov_decision \<Rightarrow> pystr" where
  "decision_text DecideAllow = lit ''allow''"
| "decision_text RequireApproval = lit ''require_approval''"
| "decision_text DecideApproved = lit ''approved''"
| "decision_text DecideDenied = lit ''denied''"
| "decision_text DecideExpired = lit ''expired''"
| "decision_text ScopeMismatch = lit ''scope_mismatch''"
| "decision_text DecideUnsupported = lit ''unsupported''"

definition TERMINAL_STATUSES :: "gov_status list" where
  "TERMINAL_STATUSES = [Succeeded, Failed, Released, Denied, Expired]"

record governed_row =
  ga_id :: int
  ga_action_id :: pystr
  ga_key :: pystr
  ga_actor :: pystr
  ga_action :: pystr
  ga_tool :: pystr
  ga_args_hash :: pystr
  ga_tier :: string
  ga_status :: gov_status
  ga_decision :: "gov_decision option"
  ga_approval_code :: "pystr option"
  ga_approval_expires_at :: "instant option"
  ga_org_id :: "int option"
  ga_workspace_id :: "int option"
  ga_issue_code :: "pystr option"
  ga_session_id :: "pystr option"
  ga_attempt :: int
  ga_attempt_started_at :: "instant option"
  ga_heartbeat_at :: "instant option"
  ga_result :: "pystr option"
  ga_error :: "pystr option"
  ga_summary :: "pystr option"
  ga_audit_request_id :: "int option"
  ga_audit_decision_id :: "int option"
  ga_audit_result_id :: "int option"
  ga_created_at :: instant
  ga_authorized_at :: "instant option"
  ga_executed_at :: "instant option"
  ga_completed_at :: "instant option"

record decision_row =
  de_id :: int
  de_code :: pystr
  de_ask_id :: int
  de_chosen :: pystr
  de_reasoning :: pystr
  de_decided_at :: instant
  de_metadata :: json

record gov_store =
  base :: store
  decisions :: "decision_row list"
  actions :: "governed_row list"
  gaudit :: audit_db

definition asks :: "gov_store \<Rightarrow> ask_row list" where
  "asks s = approvals (base s)"

definition set_asks :: "ask_row list \<Rightarrow> gov_store \<Rightarrow> gov_store" where
  "set_asks as s = s\<lparr>base := base s\<lparr>approvals := as\<rparr>\<rparr>"

lemma asks_simps [simp]:
  "asks (set_asks as s) = as" "actions (set_asks as s) = actions s"
  "gaudit (set_asks as s) = gaudit s" "decisions (set_asks as s) = decisions s"
  "asks (s\<lparr>actions := acts\<rparr>) = asks s" "asks (s\<lparr>gaudit := a\<rparr>) = asks s"
  "asks (s\<lparr>decisions := d\<rparr>) = asks s"
  by (simp_all add: asks_def set_asks_def)

text \<open>SQLite gives a new row the id after the largest.\<close>

definition next_row_id :: "int list \<Rightarrow> int" where
  "next_row_id ids = foldr max ids 0 + 1"

lemma next_row_id_fresh: "i \<in> set ids \<Longrightarrow> i < next_row_id ids"
proof -
  assume "i \<in> set ids"
  then have "i \<le> foldr max ids 0" by (induction ids) (auto simp: le_max_iff_disj)
  then show ?thesis by (simp add: next_row_id_def)
qed

section \<open>Coded rows\<close>

text \<open>The number of a code \<open>PREFIX-digits\<close>; \<open>$\<close> also matches before a final newline.\<close>

definition code_number :: "pystr \<Rightarrow> pystr \<Rightarrow> nat option" where
  "code_number prefix code =
     (let p = prefix @ [45];
          rest = drop (length p) code;
          ds = (if rest \<noteq> [] \<and> last rest = 10 then butlast rest else rest)
      in if take (length p) code = p \<and> ds \<noteq> [] \<and> (\<forall>c\<in>set ds. is_digit c)
         then parse_digits 0 ds else None)"

definition highest_code :: "pystr \<Rightarrow> pystr list \<Rightarrow> nat" where
  "highest_code prefix codes =
     foldl (\<lambda>h c. case code_number prefix c of None \<Rightarrow> h | Some n \<Rightarrow> if n > h then n else h) 0 codes"

definition next_sequential_code :: "pystr \<Rightarrow> pystr list \<Rightarrow> pystr" where
  "next_sequential_code prefix codes = prefix @ 45 # pad 4 (int (highest_code prefix codes + 1))"

text \<open>
  The insert of a coded row: the unique index refuses a code that is taken, and inside one
  transaction the recomputed code is the same one, so the bounded retry ends in that error.
\<close>

definition insert_coded :: "pystr \<Rightarrow> pystr list \<Rightarrow> (pystr \<Rightarrow> 'r) \<Rightarrow> pystr list \<Rightarrow> ('r \<times> pystr) option" where
  "insert_coded prefix reserved build taken =
     (let code = next_sequential_code prefix (taken @ reserved)
      in if code \<in> set taken then None else Some (build code, code))"

lemma parse_digits_pad:
  "parse_digits 0 (replicate k 48 @ digits_of n) = Some n"
proof -
  have "\<forall>c\<in>set (replicate k 48 @ digits_of n). is_digit c"
    using digits_of_are_digits by (auto simp: is_digit_def)
  moreover have "foldl (\<lambda>a c. 10 * a + (c - 48)) 0 (replicate k 48 @ digits_of n) = n"
  proof -
    have "foldl (\<lambda>a c. 10 * a + (c - 48)) 0 (replicate k 48) = (0::nat)" by (induction k) auto
    then show ?thesis by (simp add: foldl_digits_of)
  qed
  ultimately show ?thesis by (simp only: parse_digits_all)
qed

lemma code_number_minted: "code_number prefix (prefix @ 45 # pad 4 (int n)) = Some n"
proof -
  let ?ds = "pad 4 (int n)"
  have pad: "?ds = replicate (4 - length (digits_of n)) 48 @ digits_of n" by (simp add: pad_def Let_def)
  have dig: "\<forall>c\<in>set ?ds. is_digit c"
    unfolding pad using digits_of_are_digits by (auto simp: is_digit_def)
  have ne: "?ds \<noteq> []" unfolding pad by simp
  have "is_digit (last ?ds)" using dig ne by simp
  then have "last ?ds \<noteq> 10" by (auto simp: is_digit_def)
  then show ?thesis
    using dig ne parse_digits_pad[of "4 - length (digits_of n)" n]
    by (simp add: code_number_def Let_def pad [symmetric])
qed

lemma highest_code_bound:
  "c \<in> set codes \<Longrightarrow> code_number prefix c = Some n \<Longrightarrow> n \<le> highest_code prefix codes"
proof (unfold highest_code_def, induction codes rule: rev_induct)
  case (snoc x xs)
  then show ?case by (auto split: option.splits)
qed simp

text \<open>A minted code is above every code of its series, live or reserved, so the insert succeeds.\<close>

lemma next_sequential_code_fresh: "next_sequential_code prefix codes \<notin> set codes"
  using highest_code_bound[of "next_sequential_code prefix codes" codes prefix]
    code_number_minted[of prefix "highest_code prefix codes + 1"]
  by (auto simp: next_sequential_code_def)

lemma insert_coded_Some:
  "\<exists>code. insert_coded prefix reserved build taken = Some (build code, code) \<and>
     code \<notin> set taken \<and> code \<notin> set reserved"
  using next_sequential_code_fresh[of prefix "taken @ reserved"]
  by (auto simp: insert_coded_def Let_def)

section \<open>The audit interface of a transaction\<close>

text \<open>
  What a transaction may rely on when it appends to the log through \<open>append\<close>: on an intact log the
  append succeeds and keeps it intact, it only adds entries, the last of which is the one asked for
  and the others genesis markers, and it does not make a broken log intact.
\<close>

locale audit_writer =
  fixes append :: "'d \<Rightarrow> pystr \<Rightarrow> pystr \<Rightarrow> (pystr \<times> json) list \<Rightarrow> int option
      \<Rightarrow> audit_error + audit_entry \<times> 'd"
    and log_of :: "'d \<Rightarrow> audit_entry list"
    and intact :: "'d \<Rightarrow> bool"
  assumes write_total: "intact d \<Longrightarrow> \<exists>e d'. append d actor action payload ws = Inr (e, d')"
    and write_intact: "append d actor action payload ws = Inr (e, d') \<Longrightarrow> intact d' \<longleftrightarrow> intact d"
    and write_log: "append d actor action payload ws = Inr (e, d') \<Longrightarrow>
      \<exists>markers. log_of d' = log_of d @ markers @ [e] \<and>
        (\<forall>m\<in>set markers. e_action m = INIT_ACTION) \<and> e_action e = action \<and> e_workspace_id e = ws"
begin

text \<open>The log grew by entries of exactly these actions, genesis markers aside.\<close>

definition grew :: "'d \<Rightarrow> 'd \<Rightarrow> pystr list \<Rightarrow> bool" where
  "grew d d' acts \<longleftrightarrow>
     (intact d' \<longleftrightarrow> intact d) \<and>
     (\<exists>new. log_of d' = log_of d @ new \<and> filter (\<lambda>a. a \<noteq> INIT_ACTION) (map e_action new) = acts)"

lemma grew_refl: "grew d d []"
  by (simp add: grew_def)

lemma grew_trans: "grew d d1 as \<Longrightarrow> grew d1 d2 bs \<Longrightarrow> grew d d2 (as @ bs)"
  unfolding grew_def by (metis append.assoc filter_append map_append)

lemma write_grew:
  assumes "append d actor action payload ws = Inr (e, d')" and "action \<noteq> INIT_ACTION"
  shows "grew d d' [action]"
proof -
  obtain ms where "log_of d' = log_of d @ ms @ [e]" "\<forall>m\<in>set ms. e_action m = INIT_ACTION"
    "e_action e = action"
    using write_log[OF assms(1)] by blast
  moreover have "filter (\<lambda>a. a \<noteq> INIT_ACTION) (map e_action ms) = []" if "\<forall>m\<in>set ms. e_action m = INIT_ACTION"
    using that by auto
  ultimately show ?thesis
    using assms write_intact[OF assms(1)] unfolding grew_def
    by (intro conjI exI[of _ "ms @ [e]"]) auto
qed

lemma write_then_grew:
  "append d actor action payload ws = Inr (e, d1) \<Longrightarrow> action \<noteq> INIT_ACTION \<Longrightarrow> grew d1 d2 acts \<Longrightarrow>
     grew d d2 (action # acts)"
  using grew_trans[OF write_grew] by fastforce

lemma grew_entry: "grew d d' (acts @ a # acts') \<Longrightarrow> \<exists>e\<in>set (log_of d'). e_action e = a"
proof -
  assume "grew d d' (acts @ a # acts')"
  then obtain new where "log_of d' = log_of d @ new"
    "filter (\<lambda>a. a \<noteq> INIT_ACTION) (map e_action new) = acts @ a # acts'"
    by (auto simp: grew_def)
  moreover from this(2) have "a \<in> set (filter (\<lambda>a. a \<noteq> INIT_ACTION) (map e_action new))"
    by (simp del: filter_map)
  then have "a \<in> e_action ` set new" by auto
  ultimately show ?thesis by auto
qed

end

lemma appended_log:
  "appended mac fp now actor action payload ws db seq before entry db' \<Longrightarrow>
     audit_log db' = audit_log db @ before @ [entry] \<and> e_action entry = action \<and> e_workspace_id entry = ws"
  by (simp add: appended_def)

interpretation ledger: audit_writer
  "\<lambda>d actor action payload ws. append_in_session mac fp now actor action payload ws d"
  audit_log "\<lambda>d. verify_chain mac d = None"
  for mac fp now
proof
  show "verify_chain mac d = None \<Longrightarrow>
      \<exists>e d'. append_in_session mac fp now actor action payload ws d = Inr (e, d')"
    for d actor action payload ws
    using append_succeeds[of mac d fp now actor action payload ws] by auto
  show "append_in_session mac fp now actor action payload ws d = Inr (e, d') \<Longrightarrow>
      verify_chain mac d' = None \<longleftrightarrow> verify_chain mac d = None"
    for d actor action payload ws e d'
    by (rule append_verify_iff)
  show "append_in_session mac fp now actor action payload ws d = Inr (e, d') \<Longrightarrow>
      \<exists>markers. audit_log d' = audit_log d @ markers @ [e] \<and>
        (\<forall>m\<in>set markers. e_action m = INIT_ACTION) \<and> e_action e = action \<and> e_workspace_id e = ws"
    for d actor action payload ws e d'
    by (rule append_log)
qed

end
