(* ===== verification/Decisions.thy ===== *)
theory Decisions imports Ledger Principal begin

text \<open>
  Models the approval requests of \<open>src/brains/control/decisions.py\<close>: filing in the caller's
  transaction, the scope an approval carries, spending it once, and resolution with the rules that
  keep the resolver separate from the requester. \<open>metadata_json\<close> is the JSON value it encodes;
  routing, notification and the event log beside it are not part of this model.
\<close>

section \<open>Codes and filing\<close>

definition reserved_codes :: "gov_store \<Rightarrow> pystr list" where
  "reserved_codes s = concat (map (\<lambda>r. case ga_approval_code r of None \<Rightarrow> [] | Some c \<Rightarrow> [c]) (actions s))"

definition create_request_in_session ::
    "int \<Rightarrow> pystr \<Rightarrow> pystr \<Rightarrow> pystr option \<Rightarrow> pystr option \<Rightarrow> json \<Rightarrow> instant \<Rightarrow> gov_store
     \<Rightarrow> (pystr \<times> gov_store) option" where
  "create_request_in_session ws title body proposed sid metadata now s =
     (case insert_coded (lit ''ASK'') (reserved_codes s)
             (\<lambda>code. \<lparr>ak_id = next_row_id (map ak_id (asks s)), ak_code = code,
                ak_workspace_id = ws, ak_session_id = sid, ak_title = title, ak_body = body,
                ak_proposed_answer = proposed, ak_status = AskOpen, ak_created_at = now,
                ak_resolved_at = None, ak_decision_id = None, ak_metadata = Some metadata\<rparr>)
             (map ak_code (asks s)) of
        None \<Rightarrow> None
      | Some (row, code) \<Rightarrow> Some (code, set_asks (asks s @ [row]) s))"

definition get_ask :: "gov_store \<Rightarrow> pystr \<Rightarrow> ask_row option" where
  "get_ask s code = row_by ak_code code (asks s)"

section \<open>The scope an approval carries, and spending it\<close>

text \<open>\<open>d.get(key)\<close> on a JSON object.\<close>

definition member_value :: "(pystr \<times> json) list \<Rightarrow> pystr \<Rightarrow> json option" where
  "member_value ms k = map_of ms k"

definition request_scope :: "gov_store \<Rightarrow> pystr \<Rightarrow> (pystr \<times> json) list option" where
  "request_scope s code =
     (case get_ask s code of
        None \<Rightarrow> None
      | Some row \<Rightarrow>
          (case ak_metadata row of
             Some (JDict ms) \<Rightarrow>
               if member_value ms (lit ''kind'') = Some (JStr (lit ''governed_action''))
               then Some ms else None
           | _ \<Rightarrow> None))"

definition consume_resolved_decision :: "gov_store \<Rightarrow> pystr \<Rightarrow> bool \<times> gov_store" where
  "consume_resolved_decision s code =
     (let P = (\<lambda>r. ak_code r = code \<and> ak_status r = AskResolved)
      in (rows_matching P (asks s) = 1,
          set_asks (update_where P (\<lambda>r. r\<lparr>ak_status := AskConsumed\<rparr>) (asks s)) s))"

section \<open>Who may resolve\<close>

definition session_persona_id :: "store \<Rightarrow> pystr option \<Rightarrow> int option" where
  "session_persona_id db sid =
     (case sid of
        None \<Rightarrow> None
      | Some i \<Rightarrow> if i = [] then None
                  else (case get_session_row db i of None \<Rightarrow> None | Some row \<Rightarrow> s_persona_id row))"

datatype denial =
    RuntimeCredential
  | UnbindableCredential
  | SameSession
  | SamePersona
  | SamePersonaOperator

fun denial_text :: "denial \<Rightarrow> pystr" where
  "denial_text RuntimeCredential = lit ''runtime_credential''"
| "denial_text UnbindableCredential = lit ''unbindable_credential''"
| "denial_text SameSession = lit ''same_session''"
| "denial_text SamePersona = lit ''same_persona''"
| "denial_text SamePersonaOperator = lit ''same_persona_operator''"

definition truthy :: "pystr option \<Rightarrow> bool" where
  "truthy x \<longleftrightarrow> x \<noteq> None \<and> x \<noteq> Some []"

definition candidate_sessions :: "principal \<Rightarrow> pystr option \<Rightarrow> pystr list" where
  "candidate_sessions p resolving =
     bound_session_ids p @ (if truthy resolving then [the resolving] else [])"

text \<open>The denial \<open>assert_resolver_allowed\<close> records and raises, \<open>None\<close> when it returns.\<close>

definition assert_resolver_allowed ::
    "store \<Rightarrow> ask_row \<Rightarrow> principal \<Rightarrow> pystr option \<Rightarrow> denial option" where
  "assert_resolver_allowed db ask p resolving =
     (if is_runtime p then Some RuntimeCredential
      else if truthy (ak_session_id ask) \<and> \<not> is_human_channel p then Some UnbindableCredential
      else
        let candidates = candidate_sessions p resolving
        in if truthy (ak_session_id ask) \<and> the (ak_session_id ask) \<in> set candidates
           then Some SameSession
           else (case session_persona_id db (ak_session_id ask) of
                   None \<Rightarrow> None
                 | Some requesting \<Rightarrow>
                     if \<exists>c\<in>set candidates. session_persona_id db (Some c) = Some requesting
                     then Some SamePersona
                     else (case operator_id p of
                             None \<Rightarrow> None
                           | Some op \<Rightarrow>
                               (case row_by pe_id requesting (personas db) of
                                  None \<Rightarrow> None
                                | Some persona \<Rightarrow>
                                    if pe_operator_id persona = Some op
                                    then Some SamePersonaOperator else None))))"

section \<open>Resolution\<close>

datatype resolve_error =
    BadResolution
  | UnknownRequest pystr
  | NotOpen ask_status
  | ResolverDenied denial
  | ResolveCodeClash
  | ResolveAudit audit_error

fun resolution_status :: "string \<Rightarrow> ask_status option" where
  "resolution_status s =
     (if s = ''resolved'' then Some AskResolved
      else if s = ''rejected'' then Some AskRejected
      else if s = ''deferred'' then Some AskDeferred else None)"

fun ask_status_text :: "ask_status \<Rightarrow> pystr" where
  "ask_status_text AskOpen = lit ''open''"
| "ask_status_text AskResolved = lit ''resolved''"
| "ask_status_text AskRejected = lit ''rejected''"
| "ask_status_text AskDeferred = lit ''deferred''"
| "ask_status_text AskConsumed = lit ''consumed''"

text \<open>\<open>str\<close> of the program's own vocabulary, as text for the record.\<close>

definition text_of :: "string \<Rightarrow> pystr" where
  "text_of s = lit s"

text \<open>The denial record is best effort and in a transaction of its own.\<close>

definition record_denial ::
    "(pystr \<Rightarrow> pystr) \<Rightarrow> pystr \<Rightarrow> instant \<Rightarrow> principal \<Rightarrow> pystr \<Rightarrow> denial \<Rightarrow> int \<Rightarrow> audit_db
     \<Rightarrow> audit_db" where
  "record_denial mac fp now p code why ws a =
     (case append_in_session mac fp now (describe p)
             (lit ''approval.self_resolution_denied'')
             [(lit ''code'', JStr code), (lit ''reason'', JStr (denial_text why))] (Some ws) a of
        Inl _ \<Rightarrow> a
      | Inr (_, a') \<Rightarrow> a')"

definition decision_metadata :: "principal \<Rightarrow> pystr option \<Rightarrow> json" where
  "decision_metadata p resolving =
     JDict [(lit ''resolved_by'', JStr (describe p)),
            (lit ''resolver_operator_id'', json_opt_int (operator_id p)),
            (lit ''resolver_credential'', JStr (text_of (credential_kind p))),
            (lit ''resolver_channel'', JStr (text_of (channel p))),
            (lit ''resolving_session_id'', json_opt_str resolving)]"

definition resolution_payload ::
    "pystr \<Rightarrow> pystr \<Rightarrow> ask_status \<Rightarrow> pystr option \<Rightarrow> pystr option \<Rightarrow> principal
     \<Rightarrow> (pystr \<times> json) list" where
  "resolution_payload code decision status sid resolving p =
     [(lit ''code'', JStr code), (lit ''decision'', JStr decision),
      (lit ''status'', JStr (ask_status_text status)),
      (lit ''requesting_session_id'', json_opt_str sid),
      (lit ''resolving_session_id'', json_opt_str resolving),
      (lit ''resolver_credential'', JStr (text_of (credential_kind p))),
      (lit ''resolver_channel'', JStr (text_of (channel p)))]"

definition resolve_decision ::
    "(pystr \<Rightarrow> pystr) \<Rightarrow> pystr \<Rightarrow> instant \<Rightarrow> pystr \<Rightarrow> pystr \<Rightarrow> pystr \<Rightarrow> string \<Rightarrow> principal
     \<Rightarrow> pystr option \<Rightarrow> gov_store \<Rightarrow> (resolve_error + pystr) \<times> gov_store" where
  "resolve_decision mac fp now code chosen reasoning status p resolving s =
     (case resolution_status status of
        None \<Rightarrow> (Inl BadResolution, s)
      | Some st \<Rightarrow>
          (case get_ask s code of
             None \<Rightarrow> (Inl (UnknownRequest code), s)
           | Some ask \<Rightarrow>
               if ak_status ask \<noteq> AskOpen then (Inl (NotOpen (ak_status ask)), s)
               else (case assert_resolver_allowed (base s) ask p resolving of
                  Some why \<Rightarrow>
                    (Inl (ResolverDenied why),
                     s\<lparr>gaudit := record_denial mac fp now p code why (ak_workspace_id ask) (gaudit s)\<rparr>)
                | None \<Rightarrow>
                    (case insert_coded (lit ''DEC'') []
                            (\<lambda>dec. \<lparr>de_id = next_row_id (map de_id (decisions s)), de_code = dec,
                               de_ask_id = ak_id ask, de_chosen = chosen, de_reasoning = reasoning,
                               de_decided_at = now, de_metadata = decision_metadata p resolving\<rparr>)
                            (map de_code (decisions s)) of
                       None \<Rightarrow> (Inl ResolveCodeClash, s)
                     | Some (decision, dec) \<Rightarrow>
                         (case append_in_session mac fp now (describe p)
                                 (lit ''approval.resolved'')
                                 (resolution_payload code dec st (ak_session_id ask) resolving p)
                                 (Some (ak_workspace_id ask)) (gaudit s) of
                            Inl e \<Rightarrow> (Inl (ResolveAudit e), s)
                          | Inr (_, a) \<Rightarrow>
                              (Inr dec,
                               (set_asks (update_where (\<lambda>r. ak_id r = ak_id ask)
                                  (\<lambda>r. r\<lparr>ak_status := st, ak_resolved_at := Some now,
                                         ak_decision_id := Some (de_id decision)\<rparr>) (asks s)) s)
                               \<lparr>decisions := decisions s @ [decision], gaudit := a\<rparr>))))))"

section \<open>Reading a decision\<close>

record decision_state =
  ds_status :: ask_status
  ds_title :: pystr
  ds_chosen :: "pystr option"
  ds_reasoning :: "pystr option"

definition get_decision :: "gov_store \<Rightarrow> pystr \<Rightarrow> decision_state option" where
  "get_decision s code =
     (case get_ask s code of
        None \<Rightarrow> None
      | Some ask \<Rightarrow>
          let dec = (case ak_decision_id ask of
                       None \<Rightarrow> None
                     | Some i \<Rightarrow> row_by de_id i (decisions s))
          in Some \<lparr>ds_status = ak_status ask, ds_title = ak_title ask,
                   ds_chosen = map_option de_chosen dec, ds_reasoning = map_option de_reasoning dec\<rparr>)"

definition list_open_requests :: "gov_store \<Rightarrow> (pystr \<times> pystr) list" where
  "list_open_requests s =
     map (\<lambda>r. (ak_code r, ak_title r)) (sort_key ak_id (filter (\<lambda>r. ak_status r = AskOpen) (asks s)))"

definition latest_open_request :: "gov_store \<Rightarrow> pystr option" where
  "latest_open_request s =
     (case rev (sort_key ak_id (filter (\<lambda>r. ak_status r = AskOpen) (asks s))) of
        [] \<Rightarrow> None
      | r # _ \<Rightarrow> Some (ak_code r))"

section \<open>Facts\<close>

lemma create_request_result:
  "\<exists>code row. create_request_in_session ws title body proposed sid metadata now s =
      Some (code, set_asks (asks s @ [row]) s) \<and>
    ak_code row = code \<and> ak_status row = AskOpen \<and> ak_metadata row = Some metadata \<and>
    ak_workspace_id row = ws \<and> ak_session_id row = sid \<and> ak_decision_id row = None \<and>
    code \<notin> set (map ak_code (asks s)) \<and> code \<notin> set (reserved_codes s) \<and>
    ak_id row \<notin> set (map ak_id (asks s))"
proof -
  let ?row = "\<lambda>code.
      \<lparr>ak_id = next_row_id (map ak_id (asks s)), ak_code = code,
       ak_workspace_id = ws, ak_session_id = sid, ak_title = title, ak_body = body,
       ak_proposed_answer = proposed, ak_status = AskOpen, ak_created_at = now,
       ak_resolved_at = None, ak_decision_id = None, ak_metadata = Some metadata\<rparr>"
  obtain code where "insert_coded (lit ''ASK'') (reserved_codes s) ?row (map ak_code (asks s))
      = Some (?row code, code)" "code \<notin> set (map ak_code (asks s))" "code \<notin> set (reserved_codes s)"
    using insert_coded_Some by blast
  moreover have "next_row_id (map ak_id (asks s)) \<notin> set (map ak_id (asks s))"
    using next_row_id_fresh by blast
  ultimately show ?thesis
    by (intro exI[of _ code] exI[of _ "?row code"])
       (simp add: create_request_in_session_def del: list.map set_map)
qed

lemma reserved_codes_iff: "c \<in> set (reserved_codes s) \<longleftrightarrow> (\<exists>r\<in>set (actions s). ga_approval_code r = Some c)"
  by (force simp: reserved_codes_def split: option.splits)

lemma consume_True:
  assumes "consume_resolved_decision s code = (True, s')" and "distinct (map ak_code (asks s))"
  shows "\<exists>row. get_ask s code = Some row \<and> ak_status row = AskResolved \<and>
    s' = set_asks (update_where (\<lambda>r. ak_code r = code) (\<lambda>r. r\<lparr>ak_status := AskConsumed\<rparr>) (asks s)) s"
proof -
  let ?P = "\<lambda>r. ak_code r = code \<and> ak_status r = AskResolved"
  have "length (filter ?P (asks s)) = 1"
    and s': "s' = set_asks (update_where ?P (\<lambda>r. r\<lparr>ak_status := AskConsumed\<rparr>) (asks s)) s"
    using assms(1) by (simp_all add: consume_resolved_decision_def rows_matching_def Let_def)
  then obtain row where "filter ?P (asks s) = [row]"
    by (auto simp: length_Suc_conv)
  then have "row \<in> set (filter ?P (asks s))" by simp
  then have row: "row \<in> set (asks s)" "ak_code row = code" "ak_status row = AskResolved" by auto
  have only: "r \<in> set (asks s) \<Longrightarrow> ak_code r = code \<Longrightarrow> r = row" for r
    using row_by_distinct[OF assms(2), of r] row_by_distinct[OF assms(2) row(1)] row(2)
    by (metis option.inject)
  have "update_where ?P (\<lambda>r. r\<lparr>ak_status := AskConsumed\<rparr>) (asks s) =
      update_where (\<lambda>r. ak_code r = code) (\<lambda>r. r\<lparr>ak_status := AskConsumed\<rparr>) (asks s)"
    unfolding update_where_def using only row(2,3) by (intro map_cong) metis+
  moreover have "get_ask s code = Some row"
    using row_by_distinct[OF assms(2) row(1)] row(2) by (simp add: get_ask_def)
  ultimately show ?thesis using s' row(3) by (intro exI[of _ row]) simp
qed

lemma consume_False:
  assumes "consume_resolved_decision s code = (False, s')" and "distinct (map ak_code (asks s))"
  shows "s' = s"
proof -
  let ?P = "\<lambda>r. ak_code r = code \<and> ak_status r = AskResolved"
  have n: "length (filter ?P (asks s)) \<noteq> 1"
    and s': "s' = set_asks (update_where ?P (\<lambda>r. r\<lparr>ak_status := AskConsumed\<rparr>) (asks s)) s"
    using assms(1) by (simp_all add: consume_resolved_decision_def rows_matching_def Let_def)
  let ?M = "map ak_code (filter ?P (asks s))"
  have "distinct ?M" using assms(2) by (simp add: distinct_map inj_on_def)
  then have "length ?M = card (set ?M)" by (simp only: distinct_card)
  also have "\<dots> \<le> card {code}" by (rule card_mono) auto
  finally have "length (filter ?P (asks s)) \<le> 1" by simp
  then have "filter ?P (asks s) = []" using n by (cases "filter ?P (asks s)") auto
  then have "update_where ?P (\<lambda>r. r\<lparr>ak_status := AskConsumed\<rparr>) (asks s) = asks s"
    by (intro update_where_none) (auto simp: filter_empty_conv)
  then show ?thesis by (simp add: s' set_asks_def asks_def)
qed

lemma not_denied:
  assumes "assert_resolver_allowed db ask p resolving = None"
  shows "\<not> is_runtime p \<and>
    (truthy (ak_session_id ask) \<longrightarrow>
       is_human_channel p \<and> the (ak_session_id ask) \<notin> set (candidate_sessions p resolving)) \<and>
    (\<forall>persona. session_persona_id db (ak_session_id ask) = Some persona \<longrightarrow>
       (\<forall>c\<in>set (candidate_sessions p resolving). session_persona_id db (Some c) \<noteq> Some persona) \<and>
       (\<forall>row op. row_by pe_id persona (personas db) = Some row \<longrightarrow> operator_id p = Some op \<longrightarrow>
          pe_operator_id row \<noteq> Some op))"
  using assms
  by (auto simp: assert_resolver_allowed_def Let_def split: if_splits option.splits)

text \<open>A resolution that returns went through every guard.\<close>

lemma resolve_decision_Inr:
  assumes "resolve_decision mac fp now code chosen reasoning status p resolving s = (Inr dec, s')"
  obtains ask st decision e where "resolution_status status = Some st" "get_ask s code = Some ask"
    "ak_status ask = AskOpen" "assert_resolver_allowed (base s) ask p resolving = None"
    "append_in_session mac fp now (describe p) (lit ''approval.resolved'')
       (resolution_payload code dec st (ak_session_id ask) resolving p)
       (Some (ak_workspace_id ask)) (gaudit s) = Inr (e, gaudit s')"
    "asks s' = update_where (\<lambda>r. ak_id r = ak_id ask)
       (\<lambda>r. r\<lparr>ak_status := st, ak_resolved_at := Some now, ak_decision_id := Some (de_id decision)\<rparr>)
       (asks s)"
    "decisions s' = decisions s @ [decision]" "de_code decision = dec" "de_chosen decision = chosen"
    "de_metadata decision = decision_metadata p resolving" "actions s' = actions s"
proof -
  obtain st where st: "resolution_status status = Some st"
    using assms by (cases "resolution_status status") (simp_all add: resolve_decision_def)
  obtain ask where ask: "get_ask s code = Some ask"
    using assms st by (cases "get_ask s code") (simp_all add: resolve_decision_def)
  have op: "ak_status ask = AskOpen"
    using assms st ask by (cases "ak_status ask = AskOpen") (simp_all add: resolve_decision_def)
  have ok: "assert_resolver_allowed (base s) ask p resolving = None"
    using assms st ask op
    by (cases "assert_resolver_allowed (base s) ask p resolving") (simp_all add: resolve_decision_def)
  let ?row = "\<lambda>dec. \<lparr>de_id = next_row_id (map de_id (decisions s)), de_code = dec,
      de_ask_id = ak_id ask, de_chosen = chosen, de_reasoning = reasoning,
      de_decided_at = now, de_metadata = decision_metadata p resolving\<rparr>"
  obtain c where c: "insert_coded (lit ''DEC'') [] ?row (map de_code (decisions s)) = Some (?row c, c)"
    using insert_coded_Some by blast
  note run = assms[unfolded resolve_decision_def st option.case ask op ok c prod.case]
  obtain e a where w: "append_in_session mac fp now (describe p) (lit ''approval.resolved'')
       (resolution_payload code c st (ak_session_id ask) resolving p) (Some (ak_workspace_id ask))
       (gaudit s) = Inr (e, a)"
    using run by (auto simp del: list.map split: sum.splits)
  have "dec = c" and "s' = (set_asks (update_where (\<lambda>r. ak_id r = ak_id ask)
       (\<lambda>r. r\<lparr>ak_status := st, ak_resolved_at := Some now, ak_decision_id := Some (de_id (?row c))\<rparr>)
       (asks s)) s)\<lparr>decisions := decisions s @ [?row c], gaudit := a\<rparr>"
    using run w by (auto simp del: list.map)
  then show thesis
    using that[OF st ask op ok, of e "?row c"] w by (simp del: list.map)
qed

lemma resolve_decision_Inl:
  "resolve_decision mac fp now code chosen reasoning status p resolving s = (Inl e, s') \<Longrightarrow>
     base s' = base s \<and> decisions s' = decisions s \<and> actions s' = actions s \<and>
     ((\<forall>why. e \<noteq> ResolverDenied why) \<longrightarrow> s' = s)"
  by (auto simp: resolve_decision_def split: option.splits if_splits sum.splits)

text \<open>On an intact log an allowed resolution of an open request is not refused.\<close>

lemma resolve_decision_succeeds:
  assumes "resolution_status status = Some st" and "get_ask s code = Some ask"
    and "ak_status ask = AskOpen" and "assert_resolver_allowed (base s) ask p resolving = None"
    and "verify_chain mac (gaudit s) = None"
  shows "\<exists>dec s'. resolve_decision mac fp now code chosen reasoning status p resolving s = (Inr dec, s')"
proof -
  let ?row = "\<lambda>dec. \<lparr>de_id = next_row_id (map de_id (decisions s)), de_code = dec,
      de_ask_id = ak_id ask, de_chosen = chosen, de_reasoning = reasoning,
      de_decided_at = now, de_metadata = decision_metadata p resolving\<rparr>"
  obtain c where c: "insert_coded (lit ''DEC'') [] ?row (map de_code (decisions s)) = Some (?row c, c)"
    using insert_coded_Some by blast
  obtain x where x: "append_in_session mac fp now (describe p) (lit ''approval.resolved'')
       (resolution_payload code c st (ak_session_id ask) resolving p) (Some (ak_workspace_id ask))
       (gaudit s) = Inr x"
    using append_succeeds[OF assms(5)] by blast
  show ?thesis
    unfolding resolve_decision_def assms(1,2,4) option.case c prod.case
    using assms(3) x by (cases x) (simp del: list.map)
qed

section \<open>Properties\<close>

text \<open>C6. Separation of duty. An approval request is resolved only while it is open and only by a
  principal that is no Runtime credential and, when a Session filed it, acts through a
  human-bindable channel, neither runs nor declares that Session, runs no Session of the same
  Persona, and is not the operator behind that Persona; the resolution, its decision row and the
  entry \<open>approval.resolved\<close> appear together.\<close>

theorem resolution_separated:
  assumes "resolve_decision mac fp now code chosen reasoning status p resolving s = (Inr dec, s')"
  shows "\<exists>ask. get_ask s code = Some ask \<and> ak_status ask = AskOpen \<and> \<not> is_runtime p \<and>
    (\<forall>sid. ak_session_id ask = Some sid \<and> sid \<noteq> [] \<longrightarrow>
       is_human_channel p \<and> sid \<notin> set (bound_session_ids p) \<and> resolving \<noteq> Some sid) \<and>
    (\<forall>persona. session_persona_id (base s) (ak_session_id ask) = Some persona \<longrightarrow>
       (\<forall>c\<in>set (candidate_sessions p resolving).
          session_persona_id (base s) (Some c) \<noteq> Some persona) \<and>
       (\<forall>row op. row_by pe_id persona (personas (base s)) = Some row \<and> operator_id p = Some op \<longrightarrow>
          pe_operator_id row \<noteq> Some op)) \<and>
    (\<exists>d. decisions s' = decisions s @ [d] \<and> de_code d = dec \<and> de_chosen d = chosen) \<and>
    (\<exists>markers e. audit_log (gaudit s') = audit_log (gaudit s) @ markers @ [e] \<and>
       e_action e = lit ''approval.resolved'')"
proof (rule resolve_decision_Inr[OF assms])
  fix ask st decision e
  assume ask: "get_ask s code = Some ask" "ak_status ask = AskOpen"
    "assert_resolver_allowed (base s) ask p resolving = None"
    and w: "append_in_session mac fp now (describe p) (lit ''approval.resolved'')
       (resolution_payload code dec st (ak_session_id ask) resolving p)
       (Some (ak_workspace_id ask)) (gaudit s) = Inr (e, gaudit s')"
    and d: "decisions s' = decisions s @ [decision]" "de_code decision = dec" "de_chosen decision = chosen"
  have "\<exists>markers e. audit_log (gaudit s') = audit_log (gaudit s) @ markers @ [e] \<and>
       e_action e = lit ''approval.resolved''"
    using append_log[OF w] by blast
  moreover have "sid \<notin> set (bound_session_ids p) \<and> resolving \<noteq> Some sid"
    if "ak_session_id ask = Some sid" "sid \<noteq> []" for sid
    using not_denied[OF ask(3)] that by (auto simp: truthy_def candidate_sessions_def)
  ultimately show ?thesis
    using not_denied[OF ask(3)] ask(1,2) d by (auto simp: truthy_def simp del: list.map)
qed

text \<open>A refused resolution decides nothing: whatever the reason, every approval, decision and
  governed action stays as it was, and only a denial may add its own audit entry.\<close>

theorem resolution_refused:
  assumes "resolve_decision mac fp now code chosen reasoning status p resolving s = (Inl e, s')"
  shows "asks s' = asks s \<and> decisions s' = decisions s \<and> actions s' = actions s \<and>
    ((\<forall>why. e \<noteq> ResolverDenied why) \<longrightarrow> s' = s)"
  using resolve_decision_Inl[OF assms] by (simp add: asks_def)

definition sample_ask :: ask_row where
  "sample_ask = \<lparr>ak_id = 1, ak_code = lit ''ASK-0001'', ak_workspace_id = 10, ak_session_id = None,
     ak_title = lit ''t'', ak_body = [], ak_proposed_answer = None, ak_status = AskOpen,
     ak_created_at = 0, ak_resolved_at = None, ak_decision_id = None, ak_metadata = None\<rparr>"

definition sample_gov :: gov_store where
  "sample_gov = \<lparr>base = empty_store\<lparr>approvals := [sample_ask]\<rparr>, decisions = [], actions = [],
     gaudit = empty_audit\<rparr>"

lemma sample_gov_ask: "get_ask sample_gov (lit ''ASK-0001'') = Some sample_ask"
  by (simp add: get_ask_def asks_def sample_gov_def sample_ask_def)

theorem resolution_separated_witness:
  "\<exists>dec s'. resolve_decision sample_mac (lit ''f'') 5 (lit ''ASK-0001'') (lit ''yes'') []
      ''resolved'' sample_operator None sample_gov = (Inr dec, s') \<and> length (decisions s') = 1"
proof -
  have "assert_resolver_allowed (base sample_gov) sample_ask sample_operator None = None"
    by (simp add: assert_resolver_allowed_def sample_ask_def truthy_def session_persona_id_def)
  moreover have "ak_status sample_ask = AskOpen" by (simp add: sample_ask_def)
  moreover have "verify_chain sample_mac (gaudit sample_gov) = None"
    by (simp add: sample_gov_def empty_verifies)
  ultimately obtain dec s' where r: "resolve_decision sample_mac (lit ''f'') 5 (lit ''ASK-0001'')
      (lit ''yes'') [] ''resolved'' sample_operator None sample_gov = (Inr dec, s')"
    using resolve_decision_succeeds[OF _ sample_gov_ask] by fastforce
  have "decisions sample_gov = []" by (simp add: sample_gov_def)
  then show ?thesis using resolution_separated[OF r] r by auto
qed

theorem resolution_refused_witness:
  "\<exists>s'. resolve_decision sample_mac (lit ''f'') 5 (lit ''ASK-0001'') (lit ''yes'') []
      ''resolved'' sample_runtime None sample_gov = (Inl (ResolverDenied RuntimeCredential), s') \<and>
    asks s' = asks sample_gov"
proof -
  obtain s' where r: "resolve_decision sample_mac (lit ''f'') 5 (lit ''ASK-0001'') (lit ''yes'') []
      ''resolved'' sample_runtime None sample_gov = (Inl (ResolverDenied RuntimeCredential), s')"
    using sample_gov_ask
    by (simp add: resolve_decision_def assert_resolver_allowed_def sample_ask_def del: list.map)
  then show ?thesis using resolution_refused[OF r] by blast
qed

end
