(* ===== verification/Governed.thy ===== *)
theory Governed imports Complex_Main Decisions begin

text \<open>
  Models the transactions of \<open>src/brains/govern/__init__.py\<close>: each function that writes a governed
  action is one function of the clock and the \<open>gov_store\<close>, whose left results roll the transaction
  back. The theory \<open>GovernedRun\<close> composes them into \<open>authorize\<close> and \<open>run_governed\<close>. Redaction
  (\<open>govern/redaction.py\<close>), SHA-256, \<open>str\<close> of a JSON value and \<open>datetime.fromisoformat\<close> are
  parameters, fields of \<open>gov_env\<close> together with the environment variables read.
\<close>

section \<open>Settings\<close>

datatype action_args =
    ArgsNone
  | ArgsMap "(pystr \<times> json) list"
  | ArgsSeq "pystr list"

record gov_env =
  ge_mac :: "pystr \<Rightarrow> pystr"
  ge_fp :: pystr
  ge_sha256 :: "pystr \<Rightarrow> pystr"
  ge_redact :: "pystr \<Rightarrow> pystr \<Rightarrow> pystr"
  ge_redact_mapping :: "(pystr \<times> json) list \<Rightarrow> pystr list"
  ge_redact_argv :: "pystr \<Rightarrow> pystr list \<Rightarrow> pystr list"
  ge_from_iso :: "pystr \<Rightarrow> instant option"
  ge_str :: "json option \<Rightarrow> pystr"
  ge_approval_ttl :: "pystr option"
  ge_execution_lease :: "pystr option"
  ge_heartbeat :: "rat option"

definition DEFAULT_APPROVAL_TTL_SECONDS :: int where "DEFAULT_APPROVAL_TTL_SECONDS = 900"

definition approval_ttl_seconds :: "gov_env \<Rightarrow> int" where
  "approval_ttl_seconds env =
     (case ge_approval_ttl env of
        None \<Rightarrow> DEFAULT_APPROVAL_TTL_SECONDS
      | Some raw \<Rightarrow>
          if raw = [] then DEFAULT_APPROVAL_TTL_SECONDS
          else (case py_int raw of
                  None \<Rightarrow> DEFAULT_APPROVAL_TTL_SECONDS
                | Some v \<Rightarrow> if v > 0 then v else DEFAULT_APPROVAL_TTL_SECONDS))"

definition attempt_lease_seconds :: "gov_env \<Rightarrow> int" where
  "attempt_lease_seconds env = max (approval_ttl_seconds env) 3600"

definition execution_lease_seconds :: "gov_env \<Rightarrow> int" where
  "execution_lease_seconds env =
     (case ge_execution_lease env of
        None \<Rightarrow> attempt_lease_seconds env
      | Some raw \<Rightarrow>
          let v = (if raw = [] then 0 else case py_int raw of None \<Rightarrow> 0 | Some v \<Rightarrow> v)
          in if v > 0 then v else attempt_lease_seconds env)"

text \<open>\<open>ge_heartbeat\<close> is the configured interval where it is set and a number.\<close>

definition MIN_HEARTBEAT_SECONDS :: rat where "MIN_HEARTBEAT_SECONDS = 1 / 20"

definition heartbeat_seconds :: "gov_env \<Rightarrow> rat" where
  "heartbeat_seconds env =
     (let lease = of_int (execution_lease_seconds env);
          ceiling = max MIN_HEARTBEAT_SECONDS (lease / 2);
          interval = (case ge_heartbeat env of
                        None \<Rightarrow> lease / 3
                      | Some configured \<Rightarrow> if configured > 0 then configured else lease / 3)
      in max MIN_HEARTBEAT_SECONDS (min interval ceiling))"

section \<open>Requests\<close>

definition TIER_OUTWARD :: string where "TIER_OUTWARD = ''outward''"
definition TIER_UNSUPPORTED :: string where "TIER_UNSUPPORTED = ''unsupported''"

record gov_target =
  tg_org_id :: "int option"
  tg_workspace_id :: "int option"
  tg_issue_code :: "pystr option"
  tg_session_id :: "pystr option"
  tg_workspace_path :: "pystr option"

record gov_request =
  rq_actor :: pystr
  rq_action :: pystr
  rq_tool :: pystr
  rq_args :: action_args
  rq_target :: gov_target
  rq_tier :: string
  rq_summary :: pystr
  rq_cwd :: "pystr option"
  rq_key :: "pystr option"

text \<open>\<open>__post_init__\<close> redacts the summary once, with the tool's grammar.\<close>

definition make_request :: "gov_env \<Rightarrow> gov_request \<Rightarrow> gov_request" where
  "make_request env raw = raw\<lparr>rq_summary := ge_redact env (rq_tool raw) (rq_summary raw)\<rparr>"

definition target_payload :: "gov_target \<Rightarrow> json" where
  "target_payload t =
     JDict [(lit ''org_id'', json_opt_int (tg_org_id t)),
            (lit ''workspace_id'', json_opt_int (tg_workspace_id t)),
            (lit ''issue_code'', json_opt_str (tg_issue_code t)),
            (lit ''session_id'', json_opt_str (tg_session_id t))]"

definition normalize_args :: "gov_env \<Rightarrow> pystr \<Rightarrow> action_args \<Rightarrow> pystr list" where
  "normalize_args env tool args =
     (case args of
        ArgsNone \<Rightarrow> []
      | ArgsMap ms \<Rightarrow> ge_redact_mapping env ms
      | ArgsSeq xs \<Rightarrow> ge_redact_argv env tool xs)"

definition args_digest :: "gov_env \<Rightarrow> pystr \<Rightarrow> pystr \<Rightarrow> action_args \<Rightarrow> pystr" where
  "args_digest env action tool args =
     ge_sha256 env (dumps (JDict [(lit ''action'', JStr action), (lit ''tool'', JStr tool),
       (lit ''args'', JList (map JStr (normalize_args env tool args)))]))"

definition digest :: "gov_env \<Rightarrow> gov_request \<Rightarrow> pystr" where
  "digest env rq = args_digest env (rq_action rq) (rq_tool rq) (rq_args rq)"

definition scope :: "gov_env \<Rightarrow> gov_request \<Rightarrow> (pystr \<times> json) list" where
  "scope env rq =
     [(lit ''action'', JStr (rq_action rq)), (lit ''tool'', JStr (rq_tool rq)),
      (lit ''tier'', JStr (lit (rq_tier rq))), (lit ''args_hash'', JStr (digest env rq)),
      (lit ''target'', target_payload (rq_target rq))]"

definition redact_value :: "gov_env \<Rightarrow> gov_request \<Rightarrow> json \<Rightarrow> json" where
  "redact_value env rq v =
     (case v of JStr s \<Rightarrow> JStr (ge_redact env (rq_tool rq) s) | _ \<Rightarrow> v)"

definition audit_payload ::
    "gov_env \<Rightarrow> gov_request \<Rightarrow> pystr \<Rightarrow> (pystr \<times> json) list \<Rightarrow> (pystr \<times> json) list" where
  "audit_payload env rq aid extra =
     map (\<lambda>(k, v). (k, redact_value env rq v))
       (merge_members
          [(lit ''action_id'', JStr aid), (lit ''governed_action'', JStr (rq_action rq)),
           (lit ''tool'', JStr (rq_tool rq)), (lit ''tier'', JStr (lit (rq_tier rq))),
           (lit ''args_hash'', JStr (digest env rq)),
           (lit ''target'', target_payload (rq_target rq)),
           (lit ''summary'', JStr (take 500 (rq_summary rq))),
           (lit ''cwd'', json_opt_str (rq_cwd rq))]
          extra)"

section \<open>Errors and shared steps\<close>

datatype gov_error =
    NoSuchAction
  | StillInFlight gov_status
  | ClaimedConcurrently
  | AbandonedMidEffect
  | CodeCollision pystr
  | CodeClash
  | AuditFailed audit_error
  | ContentionExhausted
  | FatalFault

definition log_in ::
    "gov_env \<Rightarrow> instant \<Rightarrow> pystr \<Rightarrow> pystr \<Rightarrow> (pystr \<times> json) list \<Rightarrow> int option \<Rightarrow> gov_store
     \<Rightarrow> gov_error + int \<times> gov_store" where
  "log_in env now actor action payload ws s =
     (case append_in_session (ge_mac env) (ge_fp env) now actor action payload ws (gaudit s) of
        Inl e \<Rightarrow> Inl (AuditFailed e)
      | Inr (entry, a) \<Rightarrow> Inr (e_id entry, s\<lparr>gaudit := a\<rparr>))"

definition get_row :: "gov_store \<Rightarrow> pystr \<Rightarrow> governed_row option" where
  "get_row s aid = row_by ga_action_id aid (actions s)"

definition put_row :: "pystr \<Rightarrow> governed_row \<Rightarrow> gov_store \<Rightarrow> gov_store" where
  "put_row aid row s =
     s\<lparr>actions := update_where (\<lambda>r. ga_action_id r = aid) (\<lambda>_. row) (actions s)\<rparr>"

text \<open>\<open>x or y\<close> on optional text.\<close>

definition or_text :: "pystr option \<Rightarrow> pystr option \<Rightarrow> pystr option" where
  "or_text x y = (if truthy x then x else y)"

definition bind_approval_code ::
    "gov_store \<Rightarrow> governed_row \<Rightarrow> pystr \<Rightarrow> gov_error + governed_row" where
  "bind_approval_code s row code =
     (if ga_approval_code row = Some code then Inr row
      else if \<exists>r\<in>set (actions s). ga_action_id r \<noteq> ga_action_id row \<and> ga_approval_code r = Some code
      then Inl (CodeCollision code)
      else Inr (row\<lparr>ga_approval_code := Some code\<rparr>))"

section \<open>Leases\<close>

definition attempt_started :: "governed_row \<Rightarrow> instant" where
  "attempt_started row =
     (case ga_attempt_started_at row of None \<Rightarrow> ga_created_at row | Some t \<Rightarrow> t)"

definition liveness_anchor :: "governed_row \<Rightarrow> instant" where
  "liveness_anchor row =
     (let started = attempt_started row
      in if ga_status row \<noteq> Executing then started
         else (case (case ga_heartbeat_at row of None \<Rightarrow> ga_executed_at row | Some t \<Rightarrow> Some t) of
                 None \<Rightarrow> started
               | Some beat \<Rightarrow> max started beat))"

definition lease_expired :: "gov_env \<Rightarrow> governed_row \<Rightarrow> instant \<Rightarrow> bool" where
  "lease_expired env row moment \<longleftrightarrow>
     (let budget = (if ga_status row = Executing then execution_lease_seconds env
                    else attempt_lease_seconds env)
      in moment - liveness_anchor row \<ge> seconds budget)"

section \<open>Phase 1: reserve\<close>

definition abandoned_reason :: "gov_status \<Rightarrow> pystr" where
  "abandoned_reason st =
     (if st = Executing
      then lit ''abandoned while executing; its execution lease expired without a ''
           @ lit ''heartbeat, so whether the effect happened is unknown''
      else lit ''abandoned in '' @ status_text st @ lit '' before any effect'')"

definition observed_attempt :: "governed_row \<Rightarrow> int" where
  "observed_attempt row = (if ga_attempt row = 0 then 1 else ga_attempt row)"

text \<open>The conditional claim of an abandoned attempt, its settlement, and the fresh attempt.\<close>

definition abandoned_match :: "governed_row \<Rightarrow> governed_row \<Rightarrow> bool" where
  "abandoned_match existing r \<longleftrightarrow>
     ga_id r = ga_id existing \<and> ga_attempt r = observed_attempt existing
     \<and> ga_status r = ga_status existing"

definition abandon_row :: "instant \<Rightarrow> governed_row \<Rightarrow> governed_row" where
  "abandon_row now r =
     r\<lparr>ga_status := Failed, ga_result := Some (status_text Failed),
       ga_error := Some (abandoned_reason (ga_status r)), ga_completed_at := Some now,
       ga_heartbeat_at := None\<rparr>"

definition reopen_row :: "instant \<Rightarrow> int \<Rightarrow> governed_row \<Rightarrow> governed_row" where
  "reopen_row now n r =
     r\<lparr>ga_status := Requested, ga_decision := None, ga_approval_code := None,
       ga_approval_expires_at := None, ga_result := None, ga_error := None,
       ga_completed_at := None, ga_attempt := n + 1, ga_attempt_started_at := Some now,
       ga_heartbeat_at := None\<rparr>"

definition resume_or_refuse ::
    "gov_env \<Rightarrow> gov_request \<Rightarrow> governed_row \<Rightarrow> pystr \<Rightarrow> instant \<Rightarrow> gov_store
     \<Rightarrow> gov_error + (governed_row \<times> bool \<times> gov_error option) \<times> gov_store" where
  "resume_or_refuse env rq existing key now s =
     (if \<not> lease_expired env existing now then Inl (StillInFlight (ga_status existing))
      else if rows_matching (abandoned_match existing) (actions s) \<noteq> 1 then Inl ClaimedConcurrently
      else
        let n = observed_attempt existing; aid = ga_action_id existing
        in bind_result
             (log_in env now (rq_actor rq) (lit ''governed.failed'')
                (audit_payload env rq aid
                   [(lit ''idempotency_key'', JStr key), (lit ''attempt'', JInt n),
                    (lit ''reason'', JStr (abandoned_reason (ga_status existing)))])
                (ga_workspace_id existing)
                (s\<lparr>actions := update_where (abandoned_match existing) (abandon_row now) (actions s)\<rparr>))
             (\<lambda>(_, s1).
               if ga_status existing = Executing
               then Inr ((abandon_row now existing, False, Some AbandonedMidEffect), s1)
               else
                 let again = reopen_row now n (abandon_row now existing)
                 in bind_result
                      (log_in env now (rq_actor rq) (lit ''governed.requested'')
                         (audit_payload env rq aid
                            [(lit ''idempotency_key'', JStr key), (lit ''attempt'', JInt (n + 1)),
                             (lit ''retry_of'', JStr (lit ''abandoned attempt''))])
                         (ga_workspace_id existing) (put_row aid again s1))
                      (\<lambda>(eid, s2).
                         let row = again\<lparr>ga_audit_request_id := Some eid\<rparr>
                         in Inr ((row, False, None), put_row aid row s2))))"

definition new_row :: "gov_env \<Rightarrow> gov_request \<Rightarrow> pystr \<Rightarrow> pystr \<Rightarrow> instant \<Rightarrow> gov_store \<Rightarrow> governed_row"
where
  "new_row env rq key aid now s =
     \<lparr>ga_id = next_row_id (map ga_id (actions s)), ga_action_id = aid, ga_key = key,
      ga_actor = (if rq_actor rq = [] then lit ''anonymous'' else rq_actor rq),
      ga_action = rq_action rq, ga_tool = rq_tool rq, ga_args_hash = digest env rq,
      ga_tier = rq_tier rq, ga_status = Requested, ga_decision = None, ga_approval_code = None,
      ga_approval_expires_at = None, ga_org_id = tg_org_id (rq_target rq),
      ga_workspace_id = tg_workspace_id (rq_target rq),
      ga_issue_code = tg_issue_code (rq_target rq), ga_session_id = tg_session_id (rq_target rq),
      ga_attempt = 1, ga_attempt_started_at = Some now, ga_heartbeat_at = None,
      ga_result = None, ga_error = None, ga_summary = Some (take 1000 (rq_summary rq)),
      ga_audit_request_id = None, ga_audit_decision_id = None, ga_audit_result_id = None,
      ga_created_at = now, ga_authorized_at = None, ga_executed_at = None,
      ga_completed_at = None\<rparr>"

text \<open>
  The transaction of \<open>reserve\<close>: the row, whether it is a replay, and the refusal to raise once the
  settlement it describes is committed. The unique index refuses an action id that is taken.
\<close>

definition reserve_tx ::
    "gov_env \<Rightarrow> gov_request \<Rightarrow> pystr \<Rightarrow> pystr \<Rightarrow> instant \<Rightarrow> gov_store
     \<Rightarrow> gov_error + (governed_row \<times> bool \<times> gov_error option) \<times> gov_store" where
  "reserve_tx env rq key aid now s =
     (case row_by ga_key key (actions s) of
        Some existing \<Rightarrow>
          if ga_status existing \<in> set TERMINAL_STATUSES
          then bind_result
                 (log_in env now (rq_actor rq) (lit ''governed.replayed'')
                    (audit_payload env rq (ga_action_id existing)
                       [(lit ''idempotency_key'', JStr key),
                        (lit ''replayed_status'', JStr (status_text (ga_status existing))),
                        (lit ''attempt'', JInt (ga_attempt existing))])
                    (ga_workspace_id existing) s)
                 (\<lambda>(_, s1). Inr ((existing, True, None), s1))
          else resume_or_refuse env rq existing key now s
      | None \<Rightarrow>
          if \<exists>r\<in>set (actions s). ga_action_id r = aid then Inl CodeClash
          else
          let row = new_row env rq key aid now s
          in bind_result
               (log_in env now (rq_actor rq) (lit ''governed.requested'')
                  (audit_payload env rq aid
                     [(lit ''idempotency_key'', JStr key), (lit ''attempt'', JInt 1)])
                  (tg_workspace_id (rq_target rq)) (s\<lparr>actions := actions s @ [row]\<rparr>))
               (\<lambda>(eid, s1).
                  let row' = row\<lparr>ga_audit_request_id := Some eid\<rparr>
                  in Inr ((row', False, None), put_row aid row' s1)))"

section \<open>Phase 2: decide\<close>

definition settle_tx ::
    "gov_env \<Rightarrow> gov_request \<Rightarrow> pystr \<Rightarrow> gov_status \<Rightarrow> gov_decision \<Rightarrow> pystr \<Rightarrow> pystr \<Rightarrow> pystr option
     \<Rightarrow> instant \<Rightarrow> gov_store \<Rightarrow> gov_error + unit \<times> gov_store" where
  "settle_tx env rq aid status decision audit_action reason code now s =
     (case get_row s aid of
        None \<Rightarrow> Inl NoSuchAction
      | Some row0 \<Rightarrow>
          bind_result
            (case code of
               None \<Rightarrow> Inr (row0\<lparr>ga_status := status, ga_decision := Some decision\<rparr>)
             | Some c \<Rightarrow>
                 bind_approval_code s (row0\<lparr>ga_status := status, ga_decision := Some decision\<rparr>) c)
            (\<lambda>row1.
               let row2 = (if status = Authorized then row1\<lparr>ga_authorized_at := Some now\<rparr> else row1);
                   row3 = (if status \<in> set TERMINAL_STATUSES
                           then row2\<lparr>ga_completed_at := Some now,
                                  ga_result := or_text (ga_result row2) (Some (status_text Denied)),
                                  ga_error := or_text (ga_error row2)
                                    (or_text (Some (ge_redact env (rq_tool rq) reason)) None)\<rparr>
                           else row2)
               in bind_result
                    (log_in env now (rq_actor rq) audit_action
                       (audit_payload env rq aid
                          [(lit ''status'', JStr (status_text status)),
                           (lit ''decision'', JStr (decision_text decision)),
                           (lit ''approval_code'',
                              json_opt_str (or_text code (ga_approval_code row3))),
                           (lit ''reason'', JStr reason)])
                       (ga_workspace_id row3) (put_row aid row3 s))
                    (\<lambda>(eid, s1).
                       Inr ((), put_row aid (row3\<lparr>ga_audit_decision_id := Some eid\<rparr>) s1))))"

definition file_approval_tx ::
    "gov_env \<Rightarrow> gov_request \<Rightarrow> pystr \<Rightarrow> instant \<Rightarrow> int \<Rightarrow> instant \<Rightarrow> gov_store
     \<Rightarrow> gov_error + pystr \<times> gov_store" where
  "file_approval_tx env rq aid expires_at ws now s =
     (case create_request_in_session ws
             (lit ''[gate] approve outward action: '' @ rq_tool rq)
             (lit ''Command:'' @ 10 # lit ''  '' @ rq_summary rq @ 10 # 10 # lit ''working dir: ''
                @ (case rq_cwd rq of None \<Rightarrow> [] | Some d \<Rightarrow> d))
             (Some (lit ''approve'')) (tg_session_id (rq_target rq))
             (JDict (merge_members (scope env rq)
                [(lit ''expires_at'', JStr (isoformat expires_at)), (lit ''action_id'', JStr aid),
                 (lit ''kind'', JStr (lit ''governed_action''))])) now s of
        None \<Rightarrow> Inl CodeClash
      | Some (code, s1) \<Rightarrow>
          (case get_row s1 aid of
             None \<Rightarrow> Inl NoSuchAction
           | Some row0 \<Rightarrow>
               let row = row0\<lparr>ga_status := Pending, ga_decision := Some RequireApproval,
                           ga_approval_expires_at := Some expires_at,
                           ga_workspace_id := (case ga_workspace_id row0 of
                                                 None \<Rightarrow> Some ws | Some i \<Rightarrow> Some i)\<rparr>
               in bind_result
                    (log_in env now (rq_actor rq) (lit ''governed.approval_requested'')
                       (audit_payload env rq aid
                          [(lit ''approval_code'', JStr code),
                           (lit ''expires_at'', JStr (isoformat expires_at))])
                       (Some ws) (put_row aid row s1))
                    (\<lambda>(eid, s2).
                       Inr (code, put_row aid (row\<lparr>ga_audit_decision_id := Some eid\<rparr>) s2))))"

record authorization =
  au_action_id :: pystr
  au_allowed :: bool
  au_status :: gov_status
  au_decision :: "gov_decision option"
  au_tier :: string
  au_approval_code :: "pystr option"
  au_reason :: pystr
  au_replayed :: bool
  au_prior_result :: "pystr option"
  au_prior_error :: "pystr option"

definition mk_authorization ::
    "pystr \<Rightarrow> bool \<Rightarrow> gov_status \<Rightarrow> gov_decision \<Rightarrow> string \<Rightarrow> pystr option \<Rightarrow> pystr \<Rightarrow> authorization"
where
  "mk_authorization aid allowed status decision tier code reason =
     \<lparr>au_action_id = aid, au_allowed = allowed, au_status = status, au_decision = Some decision,
      au_tier = tier, au_approval_code = code, au_reason = reason, au_replayed = False,
      au_prior_result = None, au_prior_error = None\<rparr>"

text \<open>Python equality of JSON values: object members in any order, booleans equal to 0 and 1.\<close>

fun json_equal :: "json \<Rightarrow> json \<Rightarrow> bool" where
  "json_equal (JList xs) (JList ys) \<longleftrightarrow> list_all2 json_equal xs ys"
| "json_equal (JDict a) (JDict b) \<longleftrightarrow>
     length a = length b \<and>
     list_all (\<lambda>(k, v). case map_of b k of None \<Rightarrow> False | Some v' \<Rightarrow> json_equal v v') a"
| "json_equal (JBool b) (JInt i) \<longleftrightarrow> i = (if b then 1 else 0)"
| "json_equal (JInt i) (JBool b) \<longleftrightarrow> i = (if b then 1 else 0)"
| "json_equal x y \<longleftrightarrow> x = y"

text \<open>\<open>{key: scope.get(key) for key in expected} == expected\<close>; a missing key is \<open>None\<close>.\<close>

definition scope_matches :: "(pystr \<times> json) list \<Rightarrow> (pystr \<times> json) list \<Rightarrow> bool" where
  "scope_matches stored expected \<longleftrightarrow>
     (\<forall>(k, v)\<in>set expected.
        json_equal (case member_value stored k of None \<Rightarrow> JNull | Some v' \<Rightarrow> v') v)"

definition parse_ts :: "gov_env \<Rightarrow> json option \<Rightarrow> instant option" where
  "parse_ts env raw =
     (case raw of
        Some (JStr s) \<Rightarrow> if s = [] then None else ge_from_iso env s
      | Some (JInt i) \<Rightarrow> if i = 0 then None else ge_from_iso env (str_of_int i)
      | _ \<Rightarrow> None)"

text \<open>Why a resolved approval may not be spent by this request, with the decision recorded.\<close>

definition approval_refusal ::
    "gov_env \<Rightarrow> gov_request \<Rightarrow> pystr \<Rightarrow> instant \<Rightarrow> gov_store \<Rightarrow> (pystr \<times> gov_decision) option" where
  "approval_refusal env rq code now s =
     (case request_scope s code of
        None \<Rightarrow> Some (lit ''approval carries no governed-action scope'', ScopeMismatch)
      | Some stored \<Rightarrow>
          if \<not> scope_matches stored (scope env rq)
          then Some (lit ''approval was granted for a different action scope'', ScopeMismatch)
          else
            let raw = member_value stored (lit ''expires_at'');
                expired = Some (lit ''approval expired at '' @ ge_str env raw, DecideExpired)
            in (case parse_ts env raw of
                  None \<Rightarrow> expired
                | Some expires \<Rightarrow> if now > expires then expired else None))"

definition consume_tx ::
    "gov_env \<Rightarrow> gov_request \<Rightarrow> pystr \<Rightarrow> pystr \<Rightarrow> pystr \<Rightarrow> pystr \<Rightarrow> instant \<Rightarrow> gov_store
     \<Rightarrow> gov_error + authorization \<times> gov_store" where
  "consume_tx env rq aid code chosen reasoning now s =
     (case get_row s aid of
        None \<Rightarrow> Inl NoSuchAction
      | Some row0 \<Rightarrow>
          let early = approval_refusal env rq code now s;
              (spent, s1) = (if early = None then consume_resolved_decision s code else (False, s));
              failure = (case early of
                 Some f \<Rightarrow> Some f
               | None \<Rightarrow>
                   if spent then None
                   else Some (lit ''approval was already consumed or is no longer resolved'',
                              ScopeMismatch))
          in bind_result
               (case failure of
                  None \<Rightarrow>
                    bind_result
                      (bind_approval_code s1
                         (row0\<lparr>ga_status := Authorized, ga_decision := Some DecideApproved\<rparr>) code)
                      (\<lambda>r. Inr (r\<lparr>ga_authorized_at := Some now\<rparr>))
                | Some (why, decision) \<Rightarrow>
                    Inr (row0\<lparr>ga_status := (if decision = DecideExpired then Expired else Denied),
                           ga_decision := Some decision, ga_result := Some (status_text Denied),
                           ga_error := Some why, ga_completed_at := Some now\<rparr>))
               (\<lambda>row.
                  let reason = (case failure of None \<Rightarrow> reasoning | Some (why, _) \<Rightarrow> why)
                  in bind_result
                       (log_in env now (rq_actor rq)
                          (if failure = None then lit ''governed.authorized''
                           else lit ''governed.denied'')
                          (audit_payload env rq aid
                             [(lit ''approval_code'', JStr code),
                              (lit ''decision'', JStr (decision_text (the (ga_decision row)))),
                              (lit ''chosen'', JStr (take 120 chosen)),
                              (lit ''reason'', JStr (take 500 reason)),
                              (lit ''attempt'', JInt (ga_attempt row))])
                          (ga_workspace_id row) (put_row aid row s1))
                       (\<lambda>(eid, s2).
                          Inr (mk_authorization aid (failure = None) (ga_status row)
                                 (the (ga_decision row)) (rq_tier rq) (Some code) reason,
                               put_row aid (row\<lparr>ga_audit_decision_id := Some eid\<rparr>) s2))))"

section \<open>Phase 3: execute\<close>

definition mark_executing_tx ::
    "gov_env \<Rightarrow> gov_request \<Rightarrow> pystr \<Rightarrow> instant \<Rightarrow> gov_store \<Rightarrow> gov_error + int \<times> gov_store" where
  "mark_executing_tx env rq aid now s =
     (case get_row s aid of
        None \<Rightarrow> Inl NoSuchAction
      | Some row0 \<Rightarrow>
          let row = row0\<lparr>ga_status := Executing, ga_executed_at := Some now,
                      ga_attempt_started_at := Some now, ga_heartbeat_at := Some now\<rparr>
          in bind_result
               (log_in env now (rq_actor rq) (lit ''governed.executing'')
                  (audit_payload env rq aid [(lit ''attempt'', JInt (ga_attempt row))])
                  (ga_workspace_id row) (put_row aid row s))
               (\<lambda>(_, s1). Inr (observed_attempt row, s1)))"

text \<open>One conditional update; \<open>True\<close> when it renewed.\<close>

definition heartbeat_tx ::
    "pystr \<Rightarrow> int \<Rightarrow> instant \<Rightarrow> gov_store \<Rightarrow> gov_error + bool \<times> gov_store" where
  "heartbeat_tx aid attempt now s =
     (let P = (\<lambda>r. ga_action_id r = aid \<and> ga_status r = Executing \<and> ga_attempt r = attempt)
      in Inr (rows_matching P (actions s) = 1,
              s\<lparr>actions := update_where P (\<lambda>r. r\<lparr>ga_heartbeat_at := Some now\<rparr>) (actions s)\<rparr>))"

definition release_tx ::
    "gov_env \<Rightarrow> gov_request \<Rightarrow> pystr \<Rightarrow> pystr \<Rightarrow> instant \<Rightarrow> gov_store \<Rightarrow> gov_error + unit \<times> gov_store"
where
  "release_tx env rq aid handoff now s =
     (case get_row s aid of
        None \<Rightarrow> Inl NoSuchAction
      | Some row0 \<Rightarrow>
          let row = row0\<lparr>ga_status := Released, ga_result := Some (status_text Released),
                      ga_executed_at := (case ga_executed_at row0 of
                                           None \<Rightarrow> Some now | Some t \<Rightarrow> Some t),
                      ga_completed_at := Some now, ga_heartbeat_at := None\<rparr>
          in bind_result
               (log_in env now (rq_actor rq) (lit ''governed.released'')
                  (audit_payload env rq aid
                     [(lit ''attempt'', JInt (ga_attempt row)), (lit ''handoff'', JStr handoff),
                      (lit ''result'', JStr (status_text Released)),
                      (lit ''note'', JStr (lit ''authorisation released into a process ''
                         @ lit ''replacement; the outcome of the replacing process is not ''
                         @ lit ''observable from here''))])
                  (ga_workspace_id row) (put_row aid row s))
               (\<lambda>(eid, s1). Inr ((), put_row aid (row\<lparr>ga_audit_result_id := Some eid\<rparr>) s1)))"

definition complete_tx ::
    "gov_env \<Rightarrow> gov_request \<Rightarrow> pystr \<Rightarrow> bool \<Rightarrow> pystr option \<Rightarrow> pystr option \<Rightarrow> instant \<Rightarrow> gov_store
     \<Rightarrow> gov_error + unit \<times> gov_store" where
  "complete_tx env rq aid ok res err now s =
     (case get_row s aid of
        None \<Rightarrow> Inl NoSuchAction
      | Some row0 \<Rightarrow>
          let st = (if ok then Succeeded else Failed);
              row = row0\<lparr>ga_status := st, ga_result := or_text res (Some (status_text st)),
                      ga_error :=
                        or_text (Some (take 2000 (ge_redact env (rq_tool rq)
                                  (case err of None \<Rightarrow> [] | Some e \<Rightarrow> e)))) None,
                      ga_completed_at := Some now, ga_heartbeat_at := None\<rparr>
          in bind_result
               (log_in env now (rq_actor rq)
                  (if ok then lit ''governed.succeeded'' else lit ''governed.failed'')
                  (audit_payload env rq aid
                     [(lit ''attempt'', JInt (ga_attempt row)),
                      (lit ''result'', json_opt_str (ga_result row)),
                      (lit ''error'', json_opt_str (ga_error row))])
                  (ga_workspace_id row) (put_row aid row s))
               (\<lambda>(eid, s1). Inr ((), put_row aid (row\<lparr>ga_audit_result_id := Some eid\<rparr>) s1)))"

section \<open>The stale sweep\<close>

definition IN_FLIGHT :: "gov_status list" where
  "IN_FLIGHT = [Requested, Pending, Authorized, Executing]"

definition window_closed :: "governed_row \<Rightarrow> instant \<Rightarrow> bool" where
  "window_closed row moment \<longleftrightarrow>
     ga_status row = Pending \<and>
     (case ga_approval_expires_at row of None \<Rightarrow> False | Some t \<Rightarrow> t < moment)"

definition sweepable :: "gov_env \<Rightarrow> instant \<Rightarrow> governed_row \<Rightarrow> bool" where
  "sweepable env moment row \<longleftrightarrow> window_closed row moment \<or> lease_expired env row moment"

text \<open>The settlement of one stale row: its status, decision and reason.\<close>

definition sweep_outcome :: "governed_row \<Rightarrow> instant \<Rightarrow> gov_status \<times> gov_decision \<times> pystr" where
  "sweep_outcome row moment =
     (if window_closed row moment
      then (Expired, DecideExpired, lit ''approval window closed before a decision was made'')
      else if ga_status row = Executing
      then (Failed, DecideApproved, abandoned_reason Executing)
      else (Failed, (case ga_decision row of None \<Rightarrow> RequireApproval | Some d \<Rightarrow> d),
            abandoned_reason (ga_status row)))"

definition swept :: "instant \<Rightarrow> governed_row \<Rightarrow> governed_row" where
  "swept moment row =
     (let (status, decision, reason) = sweep_outcome row moment
      in row\<lparr>ga_status := status, ga_decision := Some decision,
            ga_result := Some (if status = Expired then status_text Denied else status_text Failed),
            ga_error := Some reason, ga_completed_at := Some moment, ga_heartbeat_at := None\<rparr>)"

definition sweep_payload :: "governed_row \<Rightarrow> gov_decision \<Rightarrow> pystr \<Rightarrow> (pystr \<times> json) list" where
  "sweep_payload row decision reason =
     [(lit ''action_id'', JStr (ga_action_id row)), (lit ''governed_action'', JStr (ga_action row)),
      (lit ''tool'', JStr (ga_tool row)), (lit ''tier'', JStr (lit (ga_tier row))),
      (lit ''args_hash'', JStr (ga_args_hash row)),
      (lit ''decision'', JStr (decision_text decision)),
      (lit ''attempt'', JInt (observed_attempt row)), (lit ''reason'', JStr reason),
      (lit ''swept_by'', JStr (lit ''maintenance''))]"

fun sweep_rows ::
    "gov_env \<Rightarrow> instant \<Rightarrow> instant \<Rightarrow> governed_row list \<Rightarrow> gov_store \<Rightarrow> gov_error + nat \<times> gov_store" where
  "sweep_rows env moment now [] s = Inr (0, s)"
| "sweep_rows env moment now (row # rows) s =
     (if \<not> sweepable env moment row then sweep_rows env moment now rows s
      else
        let (status, decision, reason) = sweep_outcome row moment;
            P = (\<lambda>r. ga_id r = ga_id row \<and> ga_status r = ga_status row
                     \<and> ga_attempt r = observed_attempt row);
            s1 = s\<lparr>actions := update_where P
                     (\<lambda>r. r\<lparr>ga_status := status, ga_decision := Some decision,
                         ga_result := Some (if status = Expired then status_text Denied
                                            else status_text Failed),
                         ga_error := Some reason, ga_completed_at := Some moment,
                         ga_heartbeat_at := None\<rparr>) (actions s)\<rparr>
        in if rows_matching P (actions s) \<noteq> 1 then sweep_rows env moment now rows s
           else bind_result
             (log_in env now (ga_actor row)
                (if status = Expired then lit ''governed.denied'' else lit ''governed.failed'')
                (sweep_payload row decision reason) (ga_workspace_id row) s1)
             (\<lambda>(_, s2). bind_result (sweep_rows env moment now rows s2)
                (\<lambda>(n, s3). Inr (n + 1, s3))))"

definition expire_stale_pending_tx ::
    "gov_env \<Rightarrow> instant \<Rightarrow> instant \<Rightarrow> gov_store \<Rightarrow> gov_error + nat \<times> gov_store" where
  "expire_stale_pending_tx env moment now s =
     sweep_rows env moment now (filter (\<lambda>r. ga_status r \<in> set IN_FLIGHT) (actions s)) s"

end
