(* ===== verification/GovernedLaws.thy ===== *)
theory GovernedLaws imports Governed begin

text \<open>
  What the transactions of \<open>Governed\<close> guarantee: the keys that stay unique, the audit entries every
  transition is recorded with, idempotency of \<open>reserve\<close>, single use of approvals over every sequence
  of transactions, and the exact effect of the stale sweep and of a heartbeat.
\<close>

section \<open>Recorded transactions\<close>

definition recorded :: "gov_env \<Rightarrow> gov_store \<Rightarrow> gov_store \<Rightarrow> pystr list \<Rightarrow> bool" where
  "recorded env s s' acts \<longleftrightarrow>
     audit_writer.grew audit_log (\<lambda>d. verify_chain (ge_mac env) d = None) (gaudit s) (gaudit s') acts"

lemma recorded_trans: "recorded env s s1 as \<Longrightarrow> recorded env s1 s' bs \<Longrightarrow> recorded env s s' (as @ bs)"
  unfolding recorded_def by (rule ledger.grew_trans)

lemma recorded_refl: "gaudit s' = gaudit s \<Longrightarrow> recorded env s s' []"
  using ledger.grew_refl[of "ge_mac env"] by (simp add: recorded_def)

lemma recorded_cong: "gaudit s1 = gaudit s \<Longrightarrow> gaudit s2 = gaudit s' \<Longrightarrow>
    recorded env s1 s2 acts = recorded env s s' acts"
  by (simp add: recorded_def)

lemma recorded_intact: "recorded env s s' acts \<Longrightarrow>
    verify_chain (ge_mac env) (gaudit s') = None \<longleftrightarrow> verify_chain (ge_mac env) (gaudit s) = None"
  by (simp add: recorded_def ledger.grew_def[of "ge_mac env"])

lemma recorded_log:
  "recorded env s s' acts \<Longrightarrow> \<exists>new. audit_log (gaudit s') = audit_log (gaudit s) @ new \<and>
     filter (\<lambda>a. a \<noteq> INIT_ACTION) (map e_action new) = acts"
  by (simp add: recorded_def ledger.grew_def[of "ge_mac env"])

text \<open>The action names of governed transitions are not the genesis marker's.\<close>

lemma gov_action_names [simp]:
  "lit ''governed.requested'' \<noteq> INIT_ACTION" "lit ''governed.replayed'' \<noteq> INIT_ACTION"
  "lit ''governed.failed'' \<noteq> INIT_ACTION" "lit ''governed.denied'' \<noteq> INIT_ACTION"
  "lit ''governed.allowed'' \<noteq> INIT_ACTION" "lit ''governed.authorized'' \<noteq> INIT_ACTION"
  "lit ''governed.approval_requested'' \<noteq> INIT_ACTION" "lit ''governed.executing'' \<noteq> INIT_ACTION"
  "lit ''governed.released'' \<noteq> INIT_ACTION" "lit ''governed.succeeded'' \<noteq> INIT_ACTION"
  "lit ''approval.resolved'' \<noteq> INIT_ACTION" "lit ''approval.self_resolution_denied'' \<noteq> INIT_ACTION"
  by (simp_all add: INIT_ACTION_def)

lemma log_in_result:
  assumes "log_in env now actor action payload ws s = Inr (eid, s1)"
  shows "base s1 = base s" and "asks s1 = asks s" and "decisions s1 = decisions s"
    and "actions s1 = actions s"
    and "action \<noteq> INIT_ACTION \<Longrightarrow> recorded env s s1 [action]"
proof -
  obtain e a where w: "append_in_session (ge_mac env) (ge_fp env) now actor action payload ws (gaudit s)
      = Inr (e, a)" and s1: "s1 = s\<lparr>gaudit := a\<rparr>"
    using assms by (auto simp: log_in_def split: sum.splits)
  show "base s1 = base s" "asks s1 = asks s" "decisions s1 = decisions s" "actions s1 = actions s"
    by (simp_all add: s1)
  show "recorded env s s1 [action]" if "action \<noteq> INIT_ACTION"
    using ledger.write_grew[OF w that] by (simp add: recorded_def s1)
qed

lemma log_in_succeeds:
  assumes "verify_chain (ge_mac env) (gaudit s) = None"
  shows "\<exists>eid s1. log_in env now actor action payload ws s = Inr (eid, s1)"
proof -
  obtain x where "append_in_session (ge_mac env) (ge_fp env) now actor action payload ws (gaudit s) = Inr x"
    using append_succeeds[OF assms] by blast
  then show ?thesis by (cases x) (simp add: log_in_def)
qed

section \<open>Keys\<close>

definition ident :: "governed_row \<Rightarrow> int \<times> pystr \<times> pystr" where
  "ident r = (ga_id r, ga_action_id r, ga_key r)"

text \<open>\<open>UNIQUE(governed_actions.approval_code)\<close>.\<close>

definition codes_unique :: "governed_row list \<Rightarrow> bool" where
  "codes_unique acts \<longleftrightarrow>
     (\<forall>r\<in>set acts. \<forall>r'\<in>set acts. \<forall>c. ga_approval_code r = Some c \<longrightarrow> ga_approval_code r' = Some c \<longrightarrow>
        ga_action_id r = ga_action_id r')"

definition gov_ok :: "gov_store \<Rightarrow> bool" where
  "gov_ok s \<longleftrightarrow>
     distinct (map ga_id (actions s)) \<and> distinct (map ga_action_id (actions s)) \<and>
     distinct (map ga_key (actions s)) \<and> (\<forall>r\<in>set (actions s). 1 \<le> ga_attempt r) \<and>
     codes_unique (actions s) \<and>
     distinct (map ak_code (asks s)) \<and> distinct (map ak_id (asks s))"

lemma put_row_simps [simp]:
  "base (put_row aid row s) = base s" "asks (put_row aid row s) = asks s"
  "decisions (put_row aid row s) = decisions s" "gaudit (put_row aid row s) = gaudit s"
  by (simp_all add: put_row_def)

lemma update_where_twice:
  "P b \<Longrightarrow> update_where P (\<lambda>_. a) (update_where P (\<lambda>_. b) xs) = update_where P (\<lambda>_. a) xs"
  by (induction xs) auto

lemma put_row_twice:
  "ga_action_id row = aid \<Longrightarrow> actions s1 = actions (put_row aid row s) \<Longrightarrow>
     actions (put_row aid row' s1) = actions (put_row aid row' s)"
  by (simp add: put_row_def update_where_twice)

lemma get_row_Some: "get_row s aid = Some r \<Longrightarrow> r \<in> set (actions s) \<and> ga_action_id r = aid"
  by (auto simp: get_row_def dest: row_by_Some_iff_key)

lemma only_row:
  "distinct (map ga_action_id (actions s)) \<Longrightarrow> get_row s aid = Some r0 \<Longrightarrow> r \<in> set (actions s) \<Longrightarrow>
     ga_action_id r = aid \<Longrightarrow> r = r0"
  using row_by_distinct[of ga_action_id "actions s" r] by (simp add: get_row_def)

lemma map_put_row:
  assumes "distinct (map ga_action_id (actions s))" and "get_row s aid = Some r0" and "g row = g r0"
  shows "map g (actions (put_row aid row s)) = map g (actions s)"
  using only_row[OF assms(1,2)] assms(3)
  by (auto simp: put_row_def update_where_def)

lemma set_put_row: "r \<in> set (actions (put_row aid row s)) \<Longrightarrow>
    r = row \<or> (r \<in> set (actions s) \<and> ga_action_id r \<noteq> aid)"
  by (auto simp: put_row_def update_where_def)

lemma get_put_row:
  "get_row s aid = Some r0 \<Longrightarrow> ga_action_id row = aid \<Longrightarrow> get_row (put_row aid row s) aid = Some row"
  using row_by_update_same[of ga_action_id aid "\<lambda>_. row" "actions s"]
  by (simp add: get_row_def put_row_def)

text \<open>A transaction that rewrote one row, keeping its keys and binding at most a free code.\<close>

definition rewrote :: "pystr \<Rightarrow> gov_store \<Rightarrow> gov_store \<Rightarrow> governed_row \<Rightarrow> governed_row \<Rightarrow> bool" where
  "rewrote aid s s' r0 row \<longleftrightarrow>
     get_row s aid = Some r0 \<and> ident row = ident r0 \<and> ga_attempt row = ga_attempt r0 \<and>
     (\<forall>c. ga_approval_code row = Some c \<longrightarrow> ga_approval_code r0 = Some c \<or>
        (\<forall>r\<in>set (actions s). ga_action_id r \<noteq> aid \<longrightarrow> ga_approval_code r \<noteq> Some c)) \<and>
     actions s' = actions (put_row aid row s)"

lemma rewrote_keys:
  assumes "rewrote aid s s' r0 row" and "gov_ok s"
  shows "map ga_id (actions s') = map ga_id (actions s)"
    and "map ga_action_id (actions s') = map ga_action_id (actions s)"
    and "map ga_key (actions s') = map ga_key (actions s)"
    and "\<forall>r\<in>set (actions s'). 1 \<le> ga_attempt r" and "codes_unique (actions s')"
proof -
  have d: "distinct (map ga_action_id (actions s))" and g: "get_row s aid = Some r0"
    and i: "ga_id row = ga_id r0" "ga_action_id row = ga_action_id r0" "ga_key row = ga_key r0"
    and a: "ga_attempt row = ga_attempt r0" and s': "actions s' = actions (put_row aid row s)"
    using assms by (simp_all add: rewrote_def gov_ok_def ident_def)
  note r0 = get_row_Some[OF g]
  show "map ga_id (actions s') = map ga_id (actions s)"
    "map ga_action_id (actions s') = map ga_action_id (actions s)"
    "map ga_key (actions s') = map ga_key (actions s)"
    using map_put_row[OF d g] i s' by metis+
  show "\<forall>r\<in>set (actions s'). 1 \<le> ga_attempt r"
    using assms(2) a r0 s' by (auto simp: gov_ok_def dest!: set_put_row)
  have u: "codes_unique (actions s)" using assms(2) by (simp add: gov_ok_def)
  have excl: "ga_approval_code row \<noteq> Some c"
    if "x \<in> set (actions s)" "ga_action_id x \<noteq> aid" "ga_approval_code x = Some c" for x c
    using assms(1) u r0 that unfolding rewrote_def codes_unique_def by metis
  show "codes_unique (actions s')"
    unfolding codes_unique_def s'
  proof (intro ballI allI impI)
    fix r r' c
    assume "r \<in> set (actions (put_row aid row s))" "r' \<in> set (actions (put_row aid row s))"
      and c: "ga_approval_code r = Some c" "ga_approval_code r' = Some c"
    then consider "r = row" "r' = row" | "r = row" "r' \<in> set (actions s)" "ga_action_id r' \<noteq> aid"
      | "r \<in> set (actions s)" "ga_action_id r \<noteq> aid" "r' = row"
      | "r \<in> set (actions s)" "r' \<in> set (actions s)"
      using set_put_row by metis
    then show "ga_action_id r = ga_action_id r'"
      using excl u c unfolding codes_unique_def by cases metis+
  qed
qed

section \<open>What each transaction writes\<close>

text \<open>The shape they share: write the row, append to the log, write the row with the entry's id.\<close>

lemma put_log_put:
  assumes "log_in env now actor action payload ws (put_row aid row s0) = Inr (eid, s1)"
    and "actions s0 = actions s" and "ga_action_id row = aid"
  shows "actions (put_row aid row' s1) = actions (put_row aid row' s)"
    and "actions s1 = actions (put_row aid row s)"
    and "base s1 = base s0" and "decisions s1 = decisions s0"
    and "gaudit s0 = gaudit s \<Longrightarrow> action \<noteq> INIT_ACTION \<Longrightarrow> recorded env s s1 [action]"
proof -
  note l = log_in_result[OF assms(1)]
  show a: "actions s1 = actions (put_row aid row s)"
    using l(4) assms(2) by (simp add: put_row_def)
  show "actions (put_row aid row' s1) = actions (put_row aid row' s)"
    by (rule put_row_twice[OF assms(3) a])
  show "base s1 = base s0" "decisions s1 = decisions s0" using l(1,3) by simp_all
  show "recorded env s s1 [action]" if "gaudit s0 = gaudit s" "action \<noteq> INIT_ACTION"
    using l(5)[OF that(2)] that(1) by (simp add: recorded_def)
qed

lemma bind_approval_code_Inr:
  assumes "bind_approval_code s row code = Inr row'"
  shows "row' = row\<lparr>ga_approval_code := Some code\<rparr>"
    and "ga_approval_code row = Some code \<or>
      (\<forall>r\<in>set (actions s). ga_action_id r \<noteq> ga_action_id row \<longrightarrow> ga_approval_code r \<noteq> Some code)"
  using assms by (auto simp: bind_approval_code_def split: if_splits)

lemma bind_optional:
  assumes "(case code of None \<Rightarrow> Inr r | Some c \<Rightarrow> bind_approval_code s r c) = Inr row1"
    and "ga_action_id r = aid"
  shows "row1 = (case code of None \<Rightarrow> r | Some c \<Rightarrow> r\<lparr>ga_approval_code := Some c\<rparr>)"
    and "\<forall>c. ga_approval_code row1 = Some c \<longrightarrow> ga_approval_code r = Some c \<or>
        (\<forall>x\<in>set (actions s). ga_action_id x \<noteq> aid \<longrightarrow> ga_approval_code x \<noteq> Some c)"
proof -
  show eq: "row1 = (case code of None \<Rightarrow> r | Some c \<Rightarrow> r\<lparr>ga_approval_code := Some c\<rparr>)"
    using assms(1) bind_approval_code_Inr(1) by (cases code) auto
  show "\<forall>c. ga_approval_code row1 = Some c \<longrightarrow> ga_approval_code r = Some c \<or>
        (\<forall>x\<in>set (actions s). ga_action_id x \<noteq> aid \<longrightarrow> ga_approval_code x \<noteq> Some c)"
  proof (cases code)
    case (Some d)
    then show ?thesis using eq assms bind_approval_code_Inr(2)[of s r d row1] by auto
  qed (simp add: eq)
qed

lemma settle_result:
  assumes "settle_tx env rq aid status decision act reason code now s = Inr (u, s')"
  shows "\<exists>r0 row. rewrote aid s s' r0 row \<and> ga_status row = status \<and> ga_decision row = Some decision \<and>
    (code \<noteq> None \<longrightarrow> ga_approval_code row = code) \<and>
    base s' = base s \<and> decisions s' = decisions s \<and> (act \<noteq> INIT_ACTION \<longrightarrow> recorded env s s' [act])"
proof -
  obtain r0 where g: "get_row s aid = Some r0"
    using assms by (cases "get_row s aid") (simp_all add: settle_tx_def)
  let ?r = "r0\<lparr>ga_status := status, ga_decision := Some decision\<rparr>"
  let ?b = "case code of None \<Rightarrow> Inr ?r | Some c \<Rightarrow> bind_approval_code s ?r c"
  obtain row1 where b: "?b = Inr row1"
    using assms g by (cases ?b) (simp_all add: settle_tx_def)
  have r0: "ga_action_id r0 = aid" using get_row_Some[OF g] by simp
  have row1: "ident row1 = ident r0" "ga_attempt row1 = ga_attempt r0" "ga_status row1 = status"
    "ga_decision row1 = Some decision" "code \<noteq> None \<Longrightarrow> ga_approval_code row1 = code"
    "\<forall>c. ga_approval_code row1 = Some c \<longrightarrow> ga_approval_code r0 = Some c \<or>
        (\<forall>r\<in>set (actions s). ga_action_id r \<noteq> aid \<longrightarrow> ga_approval_code r \<noteq> Some c)"
    using bind_optional[OF b, of aid] r0 by (auto simp: ident_def split: option.splits)
  define row2 where "row2 = (if status = Authorized then row1\<lparr>ga_authorized_at := Some now\<rparr> else row1)"
  define row3 where "row3 = (if status \<in> set TERMINAL_STATUSES
      then row2\<lparr>ga_completed_at := Some now,
             ga_result := or_text (ga_result row2) (Some (status_text Denied)),
             ga_error := or_text (ga_error row2)
               (or_text (Some (ge_redact env (rq_tool rq) reason)) None)\<rparr>
      else row2)"
  have row3: "ident row3 = ident r0" "ga_attempt row3 = ga_attempt r0" "ga_status row3 = status"
    "ga_decision row3 = Some decision" "ga_approval_code row3 = ga_approval_code row1"
    using row1(1-4) by (simp_all add: row3_def row2_def ident_def)
  have id3: "ga_action_id row3 = aid" using row3(1) r0 by (simp add: ident_def)
  obtain eid s1 payload ws where l: "log_in env now (rq_actor rq) act payload ws (put_row aid row3 s)
      = Inr (eid, s1)" and s': "s' = put_row aid (row3\<lparr>ga_audit_decision_id := Some eid\<rparr>) s1"
    using assms[unfolded settle_tx_def g option.case(2) b bind_result.simps Let_def,
        folded row2_def, folded row3_def]
    by (auto simp: result_simps simp del: list.map)
  note p = put_log_put[OF l refl id3]
  have "rewrote aid s s' r0 (row3\<lparr>ga_audit_decision_id := Some eid\<rparr>)"
    using g row3 row1(6) p(1) by (simp add: rewrote_def s' ident_def)
  moreover have "act \<noteq> INIT_ACTION \<longrightarrow> recorded env s s' [act]"
    using p(5) by (simp add: s' recorded_def)
  ultimately show ?thesis
    using row3 row1(5) p(3,4)
    by (intro exI[of _ r0] exI[of _ "row3\<lparr>ga_audit_decision_id := Some eid\<rparr>"]) (simp add: s')
qed

lemma mark_executing_result:
  assumes "mark_executing_tx env rq aid now s = Inr (n, s')"
  shows "\<exists>r0 row. rewrote aid s s' r0 row \<and> ga_status row = Executing \<and>
    ga_heartbeat_at row = Some now \<and> ga_approval_code row = ga_approval_code r0 \<and>
    n = observed_attempt row \<and> base s' = base s \<and> decisions s' = decisions s \<and>
    recorded env s s' [lit ''governed.executing'']"
proof -
  obtain r0 where g: "get_row s aid = Some r0"
    using assms by (cases "get_row s aid") (simp_all add: mark_executing_tx_def)
  define row where "row = r0\<lparr>ga_status := Executing, ga_executed_at := Some now,
                      ga_attempt_started_at := Some now, ga_heartbeat_at := Some now\<rparr>"
  obtain eid payload ws where l: "log_in env now (rq_actor rq) (lit ''governed.executing'') payload ws
      (put_row aid row s) = Inr (eid, s')" and n: "n = observed_attempt row"
    using assms g
    by (auto simp: mark_executing_tx_def Let_def result_simps row_def [symmetric] simp del: list.map)
  have id: "ga_action_id row = aid" using get_row_Some[OF g] by (simp add: row_def)
  note p = put_log_put[OF l refl id]
  have "rewrote aid s s' r0 row" using g p(2) by (simp add: rewrote_def ident_def row_def)
  then show ?thesis
    using p(3,4) p(5)[OF refl gov_action_names(8)] n
    by (intro exI[of _ r0] exI[of _ row]) (simp add: row_def del: list.map)
qed

lemma complete_result:
  assumes "complete_tx env rq aid ok res err now s = Inr (u, s')"
  shows "\<exists>r0 row. rewrote aid s s' r0 row \<and> ga_status row = (if ok then Succeeded else Failed) \<and>
    ga_approval_code row = ga_approval_code r0 \<and> base s' = base s \<and> decisions s' = decisions s \<and>
    recorded env s s' [if ok then lit ''governed.succeeded'' else lit ''governed.failed'']"
proof -
  obtain r0 where g: "get_row s aid = Some r0"
    using assms by (cases "get_row s aid") (simp_all add: complete_tx_def)
  define st where "st = (if ok then Succeeded else Failed)"
  define row where "row = r0\<lparr>ga_status := st, ga_result := or_text res (Some (status_text st)),
      ga_error := or_text (Some (take 2000 (ge_redact env (rq_tool rq)
                    (case err of None \<Rightarrow> [] | Some e \<Rightarrow> e)))) None,
      ga_completed_at := Some now, ga_heartbeat_at := None\<rparr>"
  let ?act = "if ok then lit ''governed.succeeded'' else lit ''governed.failed''"
  obtain eid s1 payload ws where l: "log_in env now (rq_actor rq) ?act payload ws (put_row aid row s)
      = Inr (eid, s1)" and s': "s' = put_row aid (row\<lparr>ga_audit_result_id := Some eid\<rparr>) s1"
    using assms g
    by (auto simp: complete_tx_def Let_def result_simps st_def [symmetric] row_def [symmetric]
        simp del: list.map)
  have id: "ga_action_id row = aid" using get_row_Some[OF g] by (simp add: row_def)
  have act: "?act \<noteq> INIT_ACTION" using gov_action_names by (simp del: list.map)
  note p = put_log_put[OF l refl id]
  have "rewrote aid s s' r0 (row\<lparr>ga_audit_result_id := Some eid\<rparr>)"
    using g p(1) by (simp add: rewrote_def ident_def row_def s')
  moreover have "recorded env s s' [?act]" using p(5)[OF refl act] by (simp add: s' recorded_def)
  ultimately show ?thesis
    using p(3,4)
    by (intro exI[of _ r0] exI[of _ "row\<lparr>ga_audit_result_id := Some eid\<rparr>"])
       (simp add: s' row_def st_def del: list.map)
qed

lemma release_result:
  assumes "release_tx env rq aid handoff now s = Inr (u, s')"
  shows "\<exists>r0 row. rewrote aid s s' r0 row \<and> ga_status row = Released \<and>
    ga_approval_code row = ga_approval_code r0 \<and> base s' = base s \<and> decisions s' = decisions s \<and>
    recorded env s s' [lit ''governed.released'']"
proof -
  obtain r0 where g: "get_row s aid = Some r0"
    using assms by (cases "get_row s aid") (simp_all add: release_tx_def)
  define row where "row = r0\<lparr>ga_status := Released, ga_result := Some (status_text Released),
      ga_executed_at := (case ga_executed_at r0 of None \<Rightarrow> Some now | Some t \<Rightarrow> Some t),
      ga_completed_at := Some now, ga_heartbeat_at := None\<rparr>"
  obtain eid s1 payload ws where l: "log_in env now (rq_actor rq) (lit ''governed.released'') payload ws
      (put_row aid row s) = Inr (eid, s1)"
    and s': "s' = put_row aid (row\<lparr>ga_audit_result_id := Some eid\<rparr>) s1"
    using assms g
    by (auto simp: release_tx_def Let_def result_simps row_def [symmetric]
        simp del: list.map status_text.simps)
  have id: "ga_action_id row = aid" using get_row_Some[OF g] by (simp add: row_def)
  note p = put_log_put[OF l refl id]
  have "rewrote aid s s' r0 (row\<lparr>ga_audit_result_id := Some eid\<rparr>)"
    using g p(1) by (simp add: rewrote_def ident_def row_def s')
  moreover have "recorded env s s' [lit ''governed.released'']"
    using p(5)[OF refl gov_action_names(9)] by (simp add: s' recorded_def)
  ultimately show ?thesis
    using p(3,4)
    by (intro exI[of _ r0] exI[of _ "row\<lparr>ga_audit_result_id := Some eid\<rparr>"])
       (simp add: s' row_def del: list.map)
qed

lemma file_approval_result:
  assumes "file_approval_tx env rq aid expires ws now s = Inr (code, s')"
  shows "\<exists>r0 row ask. rewrote aid s s' r0 row \<and> ga_status row = Pending \<and>
    ga_approval_expires_at row = Some expires \<and> ga_approval_code row = ga_approval_code r0 \<and>
    asks s' = asks s @ [ask] \<and> ak_code ask = code \<and> ak_status ask = AskOpen \<and>
    ak_session_id ask = tg_session_id (rq_target rq) \<and> ak_metadata ask = Some (JDict (merge_members (scope env rq)
      [(lit ''expires_at'', JStr (isoformat expires)), (lit ''action_id'', JStr aid),
       (lit ''kind'', JStr (lit ''governed_action''))])) \<and>
    code \<notin> set (map ak_code (asks s)) \<and> ak_id ask \<notin> set (map ak_id (asks s)) \<and>
    decisions s' = decisions s \<and> recorded env s s' [lit ''governed.approval_requested'']"
proof -
  let ?md = "JDict (merge_members (scope env rq)
      [(lit ''expires_at'', JStr (isoformat expires)), (lit ''action_id'', JStr aid),
       (lit ''kind'', JStr (lit ''governed_action''))])"
  let ?title = "lit ''[gate] approve outward action: '' @ rq_tool rq"
  let ?body = "lit ''Command:'' @ 10 # lit ''  '' @ rq_summary rq @ 10 # 10 # lit ''working dir: ''
                @ (case rq_cwd rq of None \<Rightarrow> [] | Some d \<Rightarrow> d)"
  obtain c ask where cr: "create_request_in_session ws ?title ?body (Some (lit ''approve''))
      (tg_session_id (rq_target rq)) ?md now s = Some (c, set_asks (asks s @ [ask]) s)"
    and ask: "ak_code ask = c" "ak_status ask = AskOpen" "ak_metadata ask = Some ?md"
      "ak_session_id ask = tg_session_id (rq_target rq)"
      "c \<notin> set (map ak_code (asks s))" and fresh: "ak_id ask \<notin> set (map ak_id (asks s))"
    using create_request_result[of ws ?title ?body "Some (lit ''approve'')"
        "tg_session_id (rq_target rq)" ?md now s] by blast
  let ?s1 = "set_asks (asks s @ [ask]) s"
  have gs: "get_row ?s1 aid = get_row s aid" by (simp add: get_row_def)
  note run = assms[unfolded file_approval_tx_def cr option.case prod.case]
  obtain r0 where g: "get_row s aid = Some r0"
    using run gs by (cases "get_row s aid") simp_all
  define row where "row = r0\<lparr>ga_status := Pending, ga_decision := Some RequireApproval,
                           ga_approval_expires_at := Some expires,
                           ga_workspace_id := (case ga_workspace_id r0 of
                                                 None \<Rightarrow> Some ws | Some i \<Rightarrow> Some i)\<rparr>"
  obtain eid s2 payload where l: "log_in env now (rq_actor rq) (lit ''governed.approval_requested'')
      payload (Some ws) (put_row aid row ?s1) = Inr (eid, s2)"
    and s': "s' = put_row aid (row\<lparr>ga_audit_decision_id := Some eid\<rparr>) s2" and c: "code = c"
    using run[unfolded gs g option.case Let_def, folded row_def]
    by (auto simp: result_simps simp del: list.map)
  have id: "ga_action_id row = aid" using get_row_Some[OF g] by (simp add: row_def)
  have s1: "actions ?s1 = actions s" by simp
  note p = put_log_put[OF l s1 id]
  have "rewrote aid s s' r0 (row\<lparr>ga_audit_decision_id := Some eid\<rparr>)"
    using g p(1) by (simp add: rewrote_def ident_def row_def s')
  moreover have "recorded env s s' [lit ''governed.approval_requested'']"
    using p(5)[OF _ gov_action_names(7)] by (simp add: s' recorded_def del: list.map)
  moreover have "asks s' = asks s @ [ask]" using p(3) by (simp add: asks_def s' set_asks_def)
  ultimately show ?thesis
    using p(4) ask c fresh
    by (intro exI[of _ r0] exI[of _ "row\<lparr>ga_audit_decision_id := Some eid\<rparr>"] exI[of _ ask])
       (simp add: s' row_def del: list.map)
qed

text \<open>Spending an approval.\<close>

lemma consume_result:
  assumes "consume_tx env rq aid code chosen reasoning now s = Inr (auth, s')"
    and "distinct (map ak_code (asks s))"
  shows "\<exists>r0 row. rewrote aid s s' r0 row \<and> ga_status row = au_status auth \<and>
    decisions s' = decisions s \<and>
    (if au_allowed auth
     then approval_refusal env rq code now s = None \<and>
       (\<exists>ask. get_ask s code = Some ask \<and> ak_status ask = AskResolved) \<and>
       asks s' = update_where (\<lambda>r. ak_code r = code) (\<lambda>r. r\<lparr>ak_status := AskConsumed\<rparr>) (asks s) \<and>
       ga_status row = Authorized \<and> ga_approval_code row = Some code \<and>
       recorded env s s' [lit ''governed.authorized'']
     else base s' = base s \<and> ga_status row \<in> {Denied, Expired} \<and>
       ga_approval_code row = ga_approval_code r0 \<and>
       recorded env s s' [lit ''governed.denied''])"
proof -
  obtain r0 where g: "get_row s aid = Some r0"
    using assms(1) by (cases "get_row s aid") (simp_all add: consume_tx_def)
  have r0: "ga_action_id r0 = aid" using get_row_Some[OF g] by simp
  note run = assms(1)[unfolded consume_tx_def g option.case]
  let ?early = "approval_refusal env rq code now s"
  obtain spent s1 where sp: "consume_resolved_decision s code = (spent, s1)" by fastforce
  show ?thesis
  proof (cases "?early = None \<and> spent")
    case True
    then have e: "?early = None" and spent: "spent = True" by auto
    note c = consume_True[OF sp[unfolded spent] assms(2)]
    have a1: "actions s1 = actions s" and d1: "decisions s1 = decisions s" and u1: "gaudit s1 = gaudit s"
      using c by auto
    let ?r = "r0\<lparr>ga_status := Authorized, ga_decision := Some DecideApproved\<rparr>"
    obtain row1 where b: "bind_approval_code s1 ?r code = Inr row1"
      using run e spent sp by (cases "bind_approval_code s1 ?r code") (simp_all add: Let_def)
    define row where "row = row1\<lparr>ga_authorized_at := Some now\<rparr>"
    note b1 = bind_approval_code_Inr[OF b]
    have row: "ident row = ident r0" "ga_attempt row = ga_attempt r0" "ga_status row = Authorized"
      "ga_decision row = Some DecideApproved" "ga_approval_code row = Some code"
      using b1(1) by (simp_all add: row_def ident_def)
    have id: "ga_action_id row = aid" using row(1) r0 by (simp add: ident_def)
    obtain eid s2 payload ws where l: "log_in env now (rq_actor rq) (lit ''governed.authorized'')
        payload ws (put_row aid row s1) = Inr (eid, s2)"
      and s': "s' = put_row aid (row\<lparr>ga_audit_decision_id := Some eid\<rparr>) s2"
      and au: "au_allowed auth" "au_status auth = Authorized"
      using run e spent sp b row(3)
      by (auto simp: Let_def result_simps mk_authorization_def row_def [symmetric] simp del: list.map)
    note p = put_log_put[OF l a1 id]
    have "\<forall>c. c = code \<longrightarrow> ga_approval_code r0 = Some c \<or>
        (\<forall>r\<in>set (actions s). ga_action_id r \<noteq> aid \<longrightarrow> ga_approval_code r \<noteq> Some c)"
      using b1(2) r0 a1 by auto
    then have "rewrote aid s s' r0 (row\<lparr>ga_audit_decision_id := Some eid\<rparr>)"
      using g p(1) row by (simp add: rewrote_def ident_def s')
    moreover have "recorded env s s' [lit ''governed.authorized'']"
      using p(5)[OF _ gov_action_names(6)] u1 by (simp add: s' recorded_def del: list.map)
    moreover have "asks s' = asks s1" using p(3) by (simp add: asks_def s')
    ultimately show ?thesis
      using p(4) au e c d1 row
      by (intro exI[of _ r0] exI[of _ "row\<lparr>ga_audit_decision_id := Some eid\<rparr>"])
         (auto simp: s' simp del: list.map)
  next
    case False
    let ?failure = "case ?early of Some f \<Rightarrow> Some f
        | None \<Rightarrow> if spent then None
          else Some (lit ''approval was already consumed or is no longer resolved'', ScopeMismatch)"
    obtain why d where fl: "?failure = Some (why, d)"
      using False by (cases ?early) auto
    define s0 where "s0 = (if ?early = None then s1 else s)"
    have s0: "s0 = s"
    proof (cases "?early = None")
      case True
      then have "spent = False" using False by simp
      then show ?thesis using consume_False[OF _ assms(2)] sp True by (simp add: s0_def)
    qed (auto simp: s0_def)
    have pair: "(if ?early = None then consume_resolved_decision s code else (False, s)) =
        (if ?early = None then spent else False, s0)"
      by (simp add: sp s0_def)
    have fl': "(case ?early of Some f \<Rightarrow> Some f
        | None \<Rightarrow> if (if ?early = None then spent else False) then None
          else Some (lit ''approval was already consumed or is no longer resolved'', ScopeMismatch))
        = Some (why, d)"
      using fl by (auto split: option.splits)
    define row where "row = r0\<lparr>ga_status := (if d = DecideExpired then Expired else Denied),
        ga_decision := Some d, ga_result := Some (status_text Denied), ga_error := Some why,
        ga_completed_at := Some now\<rparr>"
    obtain eid s2 payload ws where l: "log_in env now (rq_actor rq) (lit ''governed.denied'')
        payload ws (put_row aid row s) = Inr (eid, s2)"
      and s': "s' = put_row aid (row\<lparr>ga_audit_decision_id := Some eid\<rparr>) s2"
      and au: "\<not> au_allowed auth" "au_status auth = ga_status row"
      using run[unfolded pair Let_def prod.case fl' s0 option.case bind_result.simps, folded row_def]
      by (auto simp: result_simps mk_authorization_def simp del: list.map)
    have id: "ga_action_id row = aid" using r0 by (simp add: row_def)
    note p = put_log_put[OF l refl id]
    have "rewrote aid s s' r0 (row\<lparr>ga_audit_decision_id := Some eid\<rparr>)"
      using g p(1) by (simp add: rewrote_def ident_def s' row_def)
    moreover have "recorded env s s' [lit ''governed.denied'']"
      using p(5)[OF _ gov_action_names(4)] by (simp add: s' recorded_def del: list.map)
    ultimately show ?thesis
      using p(3,4) au
      by (intro exI[of _ r0] exI[of _ "row\<lparr>ga_audit_decision_id := Some eid\<rparr>"])
         (simp add: s' row_def del: list.map)
  qed
qed

section \<open>Reserving\<close>

text \<open>The row a conditional claim settles is the row of its key.\<close>

lemma key_row:
  assumes "gov_ok s" and "row_by ga_key key (actions s) = Some r"
  shows "r \<in> set (actions s)" and "get_row s (ga_action_id r) = Some r" and "ga_key r = key"
    and "observed_attempt r = ga_attempt r"
    and "r' \<in> set (actions s) \<Longrightarrow> ga_id r' = ga_id r \<longleftrightarrow> r' = r"
    and "r' \<in> set (actions s) \<Longrightarrow> ga_action_id r' = ga_action_id r \<longleftrightarrow> r' = r"
proof -
  show r: "r \<in> set (actions s)" "ga_key r = key" using row_by_Some_iff_key[OF assms(2)] by auto
  have d: "distinct (map ga_id (actions s))" "distinct (map ga_action_id (actions s))"
    using assms(1) by (simp_all add: gov_ok_def)
  show "get_row s (ga_action_id r) = Some r"
    using row_by_distinct[OF d(2) r(1)] by (simp add: get_row_def)
  have "1 \<le> ga_attempt r" using assms(1) r(1) by (simp add: gov_ok_def)
  then show "observed_attempt r = ga_attempt r" by (simp add: observed_attempt_def)
  show "ga_id r' = ga_id r \<longleftrightarrow> r' = r" if "r' \<in> set (actions s)"
    using row_by_distinct[OF d(1) that] row_by_distinct[OF d(1) r(1)] by (metis option.inject)
  show "ga_action_id r' = ga_action_id r \<longleftrightarrow> r' = r" if "r' \<in> set (actions s)"
    using row_by_distinct[OF d(2) that] row_by_distinct[OF d(2) r(1)] by (metis option.inject)
qed

lemma update_only:
  assumes "gov_ok s" and "row_by ga_key key (actions s) = Some r"
  shows "rows_matching (abandoned_match r) (actions s) = 1"
    and "update_where (abandoned_match r) f (actions s) = actions (put_row (ga_action_id r) (f r) s)"
proof -
  note k = key_row[OF assms]
  have P: "x \<in> set (actions s) \<Longrightarrow> abandoned_match r x \<longleftrightarrow> x = r" for x
    using k(4) k(5)[of x] by (auto simp: abandoned_match_def)
  have "distinct (actions s)" using assms(1) by (simp add: gov_ok_def distinct_map)
  then have "length (filter (\<lambda>x. x = r) (actions s)) = 1"
    using k(1) by (simp add: distinct_length_filter Int_absorb1 Collect_conv_if)
  moreover have "filter (abandoned_match r) (actions s) = filter (\<lambda>x. x = r) (actions s)"
    using P by (intro filter_cong) auto
  ultimately show "rows_matching (abandoned_match r) (actions s) = 1" by (simp add: rows_matching_def)
  show "update_where (abandoned_match r) f (actions s) = actions (put_row (ga_action_id r) (f r) s)"
    using P k(6) by (auto simp: put_row_def update_where_def intro!: map_cong)
qed

text \<open>A retry of an abandoned attempt: settled, and reopened unless it was executing.\<close>

lemma resume_result:
  assumes "gov_ok s" and "row_by ga_key key (actions s) = Some r"
    and "resume_or_refuse env rq r key now s = Inr ((row, replayed, refusal), s')"
  shows "lease_expired env r now \<and> \<not> replayed \<and> base s' = base s \<and> decisions s' = decisions s \<and>
    actions s' = actions (put_row (ga_action_id r) row s) \<and> ident row = ident r \<and>
    (if ga_status r = Executing
     then refusal = Some AbandonedMidEffect \<and> ga_status row = Failed \<and>
       ga_attempt row = ga_attempt r \<and> ga_approval_code row = ga_approval_code r \<and>
       recorded env s s' [lit ''governed.failed'']
     else refusal = None \<and> ga_status row = Requested \<and> ga_attempt row = ga_attempt r + 1 \<and>
       ga_approval_code row = None \<and> ga_decision row = None \<and>
       ga_attempt_started_at row = Some now \<and>
       recorded env s s' [lit ''governed.failed'', lit ''governed.requested''])"
proof -
  note k = key_row[OF assms(1,2)] and u = update_only[OF assms(1,2)]
  let ?aid = "ga_action_id r"
  let ?s0 = "s\<lparr>actions := update_where (abandoned_match r) (abandon_row now) (actions s)\<rparr>"
  have ex: "lease_expired env r now"
    using assms(3) by (auto simp: resume_or_refuse_def split: if_splits)
  note run = assms(3)[unfolded resume_or_refuse_def Let_def u(1)]
  let ?again = "reopen_row now (observed_attempt r) (abandon_row now r)"
  obtain e1 s1 p1 p2 where l1: "log_in env now (rq_actor rq) (lit ''governed.failed'') p1
      (ga_workspace_id r) ?s0 = Inr (e1, s1)"
    and rest: "(if ga_status r = Executing
       then Inr ((abandon_row now r, False, Some AbandonedMidEffect), s1)
       else bind_result
         (log_in env now (rq_actor rq) (lit ''governed.requested'') p2 (ga_workspace_id r)
            (put_row ?aid ?again s1))
         (\<lambda>(eid, s2). Inr ((?again\<lparr>ga_audit_request_id := Some eid\<rparr>, False, None),
            put_row ?aid (?again\<lparr>ga_audit_request_id := Some eid\<rparr>) s2)))
       = Inr ((row, replayed, refusal), s')"
    using run ex by (auto simp: result_simps simp del: list.map if_splits)
  have mid: "row = abandon_row now r \<and> \<not> replayed \<and> refusal = Some AbandonedMidEffect \<and> s' = s1"
    if "ga_status r = Executing" using rest that by simp
  have new: "\<exists>e2 s2. log_in env now (rq_actor rq) (lit ''governed.requested'') p2 (ga_workspace_id r)
        (put_row ?aid ?again s1) = Inr (e2, s2) \<and>
      row = ?again\<lparr>ga_audit_request_id := Some e2\<rparr> \<and> \<not> replayed \<and> refusal = None \<and>
      s' = put_row ?aid row s2" if "ga_status r \<noteq> Executing"
    using rest that by (auto simp: result_simps simp del: list.map)
  note q1 = log_in_result[OF l1]
  have r1: "recorded env s s1 [lit ''governed.failed'']"
    using q1(5)[OF gov_action_names(3)] by (simp add: recorded_def)
  have a1: "actions s1 = actions (put_row ?aid (abandon_row now r) s)"
    using q1(4) u(2) by simp
  show ?thesis
  proof (cases "ga_status r = Executing")
    case True
    then show ?thesis
      using mid r1 a1 q1(1,3) ex by (simp add: abandon_row_def ident_def)
  next
    case False
    obtain e2 s2 where l2: "log_in env now (rq_actor rq) (lit ''governed.requested'') p2
        (ga_workspace_id r) (put_row ?aid ?again s1) = Inr (e2, s2)"
      and res: "row = ?again\<lparr>ga_audit_request_id := Some e2\<rparr>" "\<not> replayed" "refusal = None"
        "s' = put_row ?aid row s2"
      using new[OF False] by blast
    have id: "ga_action_id ?again = ?aid" by (simp add: reopen_row_def abandon_row_def)
    note q2 = put_log_put[OF l2 refl id]
    have "actions s' = actions (put_row ?aid row s1)" using q2(1) res(4) by simp
    also have "\<dots> = actions (put_row ?aid row s)"
      by (rule put_row_twice[OF _ a1]) (simp add: abandon_row_def)
    finally have a: "actions s' = actions (put_row ?aid row s)" .
    have "recorded env s1 s' [lit ''governed.requested'']"
      using q2(5)[OF refl gov_action_names(1)] by (simp add: res(4) recorded_def del: list.map)
    then have rec: "recorded env s s' [lit ''governed.failed'', lit ''governed.requested'']"
      using recorded_trans[OF r1] by fastforce
    show ?thesis
      using False ex q2(3,4) q1(1,3) a rec res(2,3) k(4)
      by (simp add: res(1,4) reopen_row_def abandon_row_def ident_def del: list.map)
  qed
qed

text \<open>The four answers of \<open>reserve\<close>.\<close>

lemma reserve_cases:
  assumes "gov_ok s" and "reserve_tx env rq key aid now s = Inr ((row, replayed, refusal), s')"
  obtains (fresh) "row_by ga_key key (actions s) = None" "\<not> replayed" "refusal = None"
      "base s' = base s" "decisions s' = decisions s" "recorded env s s' [lit ''governed.requested'']"
      "actions s' = actions (put_row aid row (s\<lparr>actions := actions s @ [new_row env rq key aid now s]\<rparr>))"
      "\<exists>eid. row = (new_row env rq key aid now s)\<lparr>ga_audit_request_id := Some eid\<rparr>"
      "aid \<notin> ga_action_id ` set (actions s)"
    | (replay) "row_by ga_key key (actions s) = Some row" "ga_status row \<in> set TERMINAL_STATUSES"
      "replayed" "refusal = None" "base s' = base s" "decisions s' = decisions s"
      "actions s' = actions s" "recorded env s s' [lit ''governed.replayed'']"
    | (resumed) r where "row_by ga_key key (actions s) = Some r"
      "ga_status r \<notin> set TERMINAL_STATUSES"
      "resume_or_refuse env rq r key now s = Inr ((row, replayed, refusal), s')"
proof (cases "row_by ga_key key (actions s)")
  case None
  let ?new = "new_row env rq key aid now s"
  let ?s0 = "s\<lparr>actions := actions s @ [?new]\<rparr>"
  have nf: "\<not> (\<exists>r\<in>set (actions s). ga_action_id r = aid)"
  proof
    assume "\<exists>r\<in>set (actions s). ga_action_id r = aid"
    then show False using assms(2) unfolding reserve_tx_def None option.case by (simp only: if_True) simp
  qed
  then have nt: "aid \<notin> ga_action_id ` set (actions s)" by blast
  obtain eid s1 p ws where l: "log_in env now (rq_actor rq) (lit ''governed.requested'') p ws ?s0 = Inr (eid, s1)"
    and res: "row = ?new\<lparr>ga_audit_request_id := Some eid\<rparr>" "\<not> replayed" "refusal = None"
      "s' = put_row aid row s1"
    using assms(2)[unfolded reserve_tx_def None option.case if_not_P[OF nf]]
    by (auto simp: Let_def result_simps simp del: list.map)
  note q = log_in_result[OF l]
  have r: "recorded env s s' [lit ''governed.requested'']"
    using q(5)[OF gov_action_names(1)] by (simp add: res(4) recorded_def del: list.map)
  have a: "actions s' = actions (put_row aid row ?s0)" using q(4) by (simp add: res(4) put_row_def)
  have b: "base s' = base s" "decisions s' = decisions s" using q(1,3) by (simp_all add: res(4))
  show thesis by (rule fresh[OF None res(2,3) b r a _ nt]) (intro exI, rule res(1))
next
  case (Some r)
  show thesis
  proof (cases "ga_status r \<in> set TERMINAL_STATUSES")
    case True
    obtain eid p ws where l: "log_in env now (rq_actor rq) (lit ''governed.replayed'') p ws s = Inr (eid, s')"
      and res: "row = r" "replayed" "refusal = None"
      using assms(2) Some True by (auto simp: reserve_tx_def Let_def result_simps simp del: list.map)
    note q = log_in_result[OF l]
    show thesis
      by (rule replay[OF _ _ res(2,3) q(1,3,4) q(5)[OF gov_action_names(2)]])
         (use Some True res(1) in simp_all)
  next
    case False
    then show thesis using resumed[OF Some False] assms(2) Some by (simp add: reserve_tx_def)
  qed
qed

section \<open>Heartbeats and the sweep\<close>

lemma map_update_same: "(\<And>r. P r \<Longrightarrow> g (f r) = g r) \<Longrightarrow> map g (update_where P f rs) = map g rs"
  by (rule map_update_where)

lemma heartbeat_result:
  assumes "heartbeat_tx aid attempt now s = Inr (ok, s')"
  shows "s' = s\<lparr>actions := update_where
       (\<lambda>r. ga_action_id r = aid \<and> ga_status r = Executing \<and> ga_attempt r = attempt)
       (\<lambda>r. r\<lparr>ga_heartbeat_at := Some now\<rparr>) (actions s)\<rparr>"
    and "gov_ok s \<Longrightarrow> ok \<longleftrightarrow> (\<exists>r. get_row s aid = Some r \<and> ga_status r = Executing \<and> ga_attempt r = attempt)"
proof -
  let ?P = "\<lambda>r. ga_action_id r = aid \<and> ga_status r = Executing \<and> ga_attempt r = attempt"
  show "s' = s\<lparr>actions := update_where ?P (\<lambda>r. r\<lparr>ga_heartbeat_at := Some now\<rparr>) (actions s)\<rparr>"
    using assms by (simp add: heartbeat_tx_def Let_def)
  assume ok: "gov_ok s"
  then have d: "distinct (map ga_action_id (actions s))" by (simp add: gov_ok_def)
  have h: "ok \<longleftrightarrow> length (filter ?P (actions s)) = 1"
    using assms by (auto simp: heartbeat_tx_def Let_def rows_matching_def)
  show "ok \<longleftrightarrow> (\<exists>r. get_row s aid = Some r \<and> ga_status r = Executing \<and> ga_attempt r = attempt)"
  proof
    assume ok
    then obtain r where "filter ?P (actions s) = [r]" using h by (auto simp: length_Suc_conv)
    then have "r \<in> set (filter ?P (actions s))" by simp
    then have r: "r \<in> set (actions s)" "?P r" by auto
    then have "get_row s aid = Some r" using row_by_distinct[OF d r(1)] by (simp add: get_row_def)
    with r show "\<exists>r. get_row s aid = Some r \<and> ga_status r = Executing \<and> ga_attempt r = attempt" by blast
  next
    assume "\<exists>r. get_row s aid = Some r \<and> ga_status r = Executing \<and> ga_attempt r = attempt"
    then obtain r where r: "get_row s aid = Some r" "?P r" using get_row_Some by blast
    have "filter ?P (actions s) = filter (\<lambda>x. x = r) (actions s)"
      using only_row[OF d r(1)] r(2) by (intro filter_cong) auto
    moreover have "distinct (actions s)" using d by (simp add: distinct_map)
    ultimately show ok
      using h get_row_Some[OF r(1)] by (simp add: distinct_length_filter Int_absorb1 Collect_conv_if)
  qed
qed

definition sweep_acts :: "pystr list" where
  "sweep_acts = [lit ''governed.denied'', lit ''governed.failed'']"

lemma sweep_rows_result:
  assumes "sweep_rows env moment now rows s = Inr (n, s')"
    and "distinct (map ga_id (actions s))" and "\<forall>r\<in>set (actions s). 1 \<le> ga_attempt r"
    and "distinct (map ga_id rows)" and "set rows \<subseteq> set (actions s)"
  shows "base s' = base s \<and> decisions s' = decisions s \<and>
    actions s' = map (\<lambda>r. if r \<in> set rows \<and> sweepable env moment r then swept moment r else r) (actions s) \<and>
    n = length (filter (sweepable env moment) rows) \<and>
    (\<exists>acts. recorded env s s' acts \<and> length acts = n \<and> set acts \<subseteq> set sweep_acts)"
  using assms
proof (induction rows arbitrary: s n)
  case Nil
  then show ?case by (auto intro: recorded_refl)
next
  case (Cons row rows)
  show ?case
  proof (cases "sweepable env moment row")
    case False
    have "base s' = base s \<and> decisions s' = decisions s \<and>
      actions s' = map (\<lambda>r. if r \<in> set rows \<and> sweepable env moment r then swept moment r else r) (actions s) \<and>
      n = length (filter (sweepable env moment) rows) \<and>
      (\<exists>acts. recorded env s s' acts \<and> length acts = n \<and> set acts \<subseteq> set sweep_acts)"
      using Cons.prems False by (intro Cons.IH) auto
    moreover have "map (\<lambda>r. if r \<in> set rows \<and> sweepable env moment r then swept moment r else r) (actions s)
        = map (\<lambda>r. if r \<in> set (row # rows) \<and> sweepable env moment r then swept moment r else r) (actions s)"
      using False by auto
    ultimately show ?thesis using False by auto
  next
    case True
    obtain status decision reason where o: "sweep_outcome row moment = (status, decision, reason)"
      by (metis prod_cases3)
    define P where "P = (\<lambda>r :: governed_row. ga_id r = ga_id row \<and> ga_status r = ga_status row
                     \<and> ga_attempt r = observed_attempt row)"
    define f where "f = (\<lambda>r :: governed_row. r\<lparr>ga_status := status, ga_decision := Some decision,
                         ga_result := Some (if status = Expired then status_text Denied
                                            else status_text Failed),
                         ga_error := Some reason, ga_completed_at := Some moment,
                         ga_heartbeat_at := None\<rparr>)"
    have row: "row \<in> set (actions s)" using Cons.prems(5) by simp
    have same: "x = row" if "x \<in> set (actions s)" "ga_id x = ga_id row" for x
      using row_by_distinct[OF Cons.prems(2) that(1)] row_by_distinct[OF Cons.prems(2) row] that(2)
      by (metis option.inject)
    have "observed_attempt row = ga_attempt row"
      using Cons.prems(3) row by (auto simp: observed_attempt_def)
    then have P: "x \<in> set (actions s) \<Longrightarrow> P x \<longleftrightarrow> x = row" for x
      using same by (auto simp: P_def)
    have "distinct (actions s)" using Cons.prems(2) by (simp add: distinct_map)
    then have "length (filter (\<lambda>x. x = row) (actions s)) = 1"
      using row by (simp add: distinct_length_filter Int_absorb1 Collect_conv_if)
    moreover have "filter P (actions s) = filter (\<lambda>x. x = row) (actions s)"
      using P by (intro filter_cong) auto
    ultimately have m: "rows_matching P (actions s) = 1" by (simp add: rows_matching_def)
    have frow: "f row = swept moment row" by (simp add: f_def swept_def o)
    let ?s1 = "s\<lparr>actions := update_where P f (actions s)\<rparr>"
    have a1: "update_where P f (actions s) = map (\<lambda>x. if x = row then swept moment row else x) (actions s)"
      unfolding update_where_def using P frow by (intro map_cong) auto
    let ?act = "if status = Expired then lit ''governed.denied'' else lit ''governed.failed''"
    obtain eid s2 n2 where l: "log_in env now (ga_actor row) ?act (sweep_payload row decision reason)
        (ga_workspace_id row) ?s1 = Inr (eid, s2)"
      and rest: "sweep_rows env moment now rows s2 = Inr (n2, s')" and n: "n = Suc n2"
      using Cons.prems(1)[unfolded sweep_rows.simps o prod.case Let_def, folded P_def f_def] True m
      by (auto simp: result_simps simp del: list.map if_splits)
    note q = log_in_result[OF l]
    have act: "?act \<noteq> INIT_ACTION" "?act \<in> set sweep_acts"
      using gov_action_names by (simp_all add: sweep_acts_def del: list.map)
    have rec: "recorded env s s2 [?act]" using q(5)[OF act(1)] by (simp add: recorded_def)
    have a2: "actions s2 = map (\<lambda>x. if x = row then swept moment row else x) (actions s)"
      using q(4) a1 by simp
    have ids: "ga_id (swept moment row) = ga_id row" "ga_attempt (swept moment row) = ga_attempt row"
      by (simp_all add: swept_def o)
    have "map ga_id (actions s2) = map ga_id (actions s)" using ids by (auto simp: a2)
    moreover have "\<forall>r\<in>set (actions s2). 1 \<le> ga_attempt r" using Cons.prems(3) ids row by (auto simp: a2)
    moreover have notin: "row \<notin> set rows" using Cons.prems(4) by auto
    moreover have "set rows \<subseteq> set (actions s2)"
    proof
      fix x assume x: "x \<in> set rows"
      then have "x \<noteq> row" "x \<in> set (actions s)" using notin Cons.prems(5) by auto
      then show "x \<in> set (actions s2)" unfolding a2 by (force simp: image_iff)
    qed
    ultimately have ih: "base s' = base s2 \<and> decisions s' = decisions s2 \<and>
      actions s' = map (\<lambda>r. if r \<in> set rows \<and> sweepable env moment r then swept moment r else r) (actions s2) \<and>
      n2 = length (filter (sweepable env moment) rows) \<and>
      (\<exists>acts. recorded env s2 s' acts \<and> length acts = n2 \<and> set acts \<subseteq> set sweep_acts)"
      using Cons.prems(2,4) rest by (intro Cons.IH) auto
    have nr: "swept moment row \<notin> set rows"
    proof
      assume "swept moment row \<in> set rows"
      then have "ga_id (swept moment row) \<in> ga_id ` set rows" by (rule imageI)
      then have "ga_id row \<in> set (map ga_id rows)" by (simp add: ids(1))
      then show False using Cons.prems(4) by simp
    qed
    have "actions s' = map (\<lambda>r. if r \<in> set (row # rows) \<and> sweepable env moment r then swept moment r else r) (actions s)"
      using ih nr notin True by (auto simp: a2)
    moreover obtain acts where "recorded env s2 s' acts" "length acts = n2" "set acts \<subseteq> set sweep_acts"
      using ih by blast
    then have "recorded env s s' (?act # acts)" "length (?act # acts) = n" "set (?act # acts) \<subseteq> set sweep_acts"
      using recorded_trans[OF rec] n act(2) by (fastforce, simp, simp)
    then have "\<exists>acts. recorded env s s' acts \<and> length acts = n \<and> set acts \<subseteq> set sweep_acts"
      by blast
    moreover have "n = length (filter (sweepable env moment) (row # rows))" using ih n True by simp
    ultimately show ?thesis using ih q(1,3) by (simp del: list.map)
  qed
qed

end
