(* ===== verification/GovernedSafety.thy ===== *)
theory GovernedSafety imports GovernedLaws begin

text \<open>
  Governed actions and approvals over every sequence of transactions: \<open>gov_step\<close> is one committed
  transaction of any process, \<open>gov_ok\<close> its invariant, and \<open>good_step\<close> what every step keeps: the
  keys unique, a spent approval spent, and an audit entry for every change of status.
\<close>

section \<open>Steps\<close>

inductive gov_step :: "gov_env \<Rightarrow> gov_store \<Rightarrow> gov_store \<Rightarrow> bool" for env where
  by_reserve: "reserve_tx env rq key aid now s = Inr (x, s') \<Longrightarrow> gov_step env s s'"
| by_settle: "\<lbrakk>act \<noteq> INIT_ACTION;
    settle_tx env rq aid status decision act reason code now s = Inr (u, s')\<rbrakk> \<Longrightarrow> gov_step env s s'"
| by_filing: "file_approval_tx env rq aid expires ws now s = Inr (code, s') \<Longrightarrow> gov_step env s s'"
| by_consume: "consume_tx env rq aid code chosen reasoning now s = Inr (auth, s') \<Longrightarrow> gov_step env s s'"
| by_mark: "mark_executing_tx env rq aid now s = Inr (n, s') \<Longrightarrow> gov_step env s s'"
| by_heartbeat: "heartbeat_tx aid attempt now s = Inr (ok, s') \<Longrightarrow> gov_step env s s'"
| by_release: "release_tx env rq aid handoff now s = Inr (u, s') \<Longrightarrow> gov_step env s s'"
| by_complete: "complete_tx env rq aid ok res err now s = Inr (u, s') \<Longrightarrow> gov_step env s s'"
| by_sweep: "expire_stale_pending_tx env moment now s = Inr (n, s') \<Longrightarrow> gov_step env s s'"
| by_resolve: "resolve_decision (ge_mac env) (ge_fp env) now code chosen reasoning status p resolving s
    = (r, s') \<Longrightarrow> gov_step env s s'"
| by_request: "create_request_in_session ws title body proposed sid metadata now s = Some (code, s')
    \<Longrightarrow> gov_step env s s'"

inductive_simps gov_step_iff: "gov_step env s s'"

section \<open>How approvals evolve\<close>

definition asks_evolve :: "ask_row list \<Rightarrow> ask_row list \<Rightarrow> bool" where
  "asks_evolve as bs \<longleftrightarrow>
     (distinct (map ak_code as) \<and> distinct (map ak_id as) \<longrightarrow>
        distinct (map ak_code bs) \<and> distinct (map ak_id bs)) \<and>
     (\<forall>a\<in>set as. \<exists>b\<in>set bs. ak_code b = ak_code a \<and>
        (ak_status a = AskConsumed \<longrightarrow> ak_status b = AskConsumed))"

lemma asks_evolve_refl: "asks_evolve as as"
  by (auto simp: asks_evolve_def)

lemma asks_evolve_append:
  "ak_code a \<notin> set (map ak_code as) \<Longrightarrow> ak_id a \<notin> set (map ak_id as) \<Longrightarrow> asks_evolve as (as @ [a])"
  by (auto simp: asks_evolve_def)

lemma asks_evolve_update:
  assumes "\<And>a. P a \<Longrightarrow> ak_code (f a) = ak_code a \<and> ak_id (f a) = ak_id a"
    and "\<And>a. a \<in> set as \<Longrightarrow> P a \<Longrightarrow> ak_status a = AskConsumed \<Longrightarrow> ak_status (f a) = AskConsumed"
  shows "asks_evolve as (update_where P f as)"
proof -
  have "map ak_code (update_where P f as) = map ak_code as"
    "map ak_id (update_where P f as) = map ak_id as"
    using assms(1) by (auto intro: map_update_where)
  moreover have "\<exists>b\<in>set (update_where P f as). ak_code b = ak_code a \<and>
      (ak_status a = AskConsumed \<longrightarrow> ak_status b = AskConsumed)" if "a \<in> set as" for a
    using that assms by (intro bexI[of _ "if P a then f a else a"]) (auto simp: update_where_def)
  ultimately show ?thesis unfolding asks_evolve_def by (auto simp del: set_map)
qed

definition consumed :: "gov_store \<Rightarrow> pystr \<Rightarrow> bool" where
  "consumed s code \<longleftrightarrow> (\<exists>a. get_ask s code = Some a \<and> ak_status a = AskConsumed)"

lemma consumed_evolves:
  assumes "asks_evolve (asks s) (asks s')" and "gov_ok s" and "consumed s code"
  shows "consumed s' code"
proof -
  obtain a where a: "a \<in> set (asks s)" "ak_code a = code" "ak_status a = AskConsumed"
    using assms(3) by (auto simp: consumed_def get_ask_def dest: row_by_Some_iff_key)
  then obtain b where b: "b \<in> set (asks s')" "ak_code b = code" "ak_status b = AskConsumed"
    using assms(1) by (auto simp: asks_evolve_def)
  have "distinct (map ak_code (asks s'))"
    using assms(1,2) by (simp add: asks_evolve_def gov_ok_def)
  then show ?thesis using b row_by_distinct[of ak_code "asks s'" b] by (auto simp: consumed_def get_ask_def)
qed

section \<open>The invariant\<close>

definition good_step :: "gov_env \<Rightarrow> gov_store \<Rightarrow> gov_store \<Rightarrow> bool" where
  "good_step env s s' \<longleftrightarrow> gov_ok s' \<and> asks_evolve (asks s) (asks s') \<and>
     (map ga_status (actions s') = map ga_status (actions s) \<or> (\<exists>a as. recorded env s s' (a # as)))"

lemma good_rewrote:
  assumes "gov_ok s" and "rewrote aid s s' r0 row" and "asks_evolve (asks s) (asks s')"
    and "recorded env s s' (a # as)"
  shows "good_step env s s'"
proof -
  note k = rewrote_keys[OF assms(2,1)]
  have "distinct (map ak_code (asks s'))" "distinct (map ak_id (asks s'))"
    using assms(1,3) by (simp_all add: gov_ok_def asks_evolve_def)
  then have "gov_ok s'" using assms(1) k unfolding gov_ok_def by (simp only: k simp_thms)
  then show ?thesis using assms(3,4) unfolding good_step_def by blast
qed

lemma codes_unique_from:
  assumes "codes_unique as"
    and "\<And>r. r \<in> set bs \<Longrightarrow> \<exists>x\<in>set as. ga_action_id x = ga_action_id r \<and>
      (\<forall>c. ga_approval_code r = Some c \<longrightarrow> ga_approval_code x = Some c)"
  shows "codes_unique bs"
  unfolding codes_unique_def
proof (intro ballI allI impI)
  fix r r' c
  assume "r \<in> set bs" "r' \<in> set bs" "ga_approval_code r = Some c" "ga_approval_code r' = Some c"
  then obtain x x' where "x \<in> set as" "ga_action_id x = ga_action_id r" "ga_approval_code x = Some c"
    "x' \<in> set as" "ga_action_id x' = ga_action_id r'" "ga_approval_code x' = Some c"
    using assms(2) by metis
  then show "ga_action_id r = ga_action_id r'" using assms(1) unfolding codes_unique_def by metis
qed

lemma codes_unique_snoc: "codes_unique as \<Longrightarrow> ga_approval_code row = None \<Longrightarrow> codes_unique (as @ [row])"
  unfolding codes_unique_def set_append by (metis Un_iff empty_iff empty_set option.distinct(1) set_ConsD)

lemma gov_ok_same_keys:
  assumes "gov_ok s" and "map ga_id (actions s') = map ga_id (actions s)"
    and "map ga_action_id (actions s') = map ga_action_id (actions s)"
    and "map ga_key (actions s') = map ga_key (actions s)"
    and "\<And>r. r \<in> set (actions s') \<Longrightarrow> 1 \<le> ga_attempt r" and "codes_unique (actions s')"
    and "asks s' = asks s"
  shows "gov_ok s'"
  using assms(1,5,6) unfolding gov_ok_def assms(2,3,4,7) by blast

lemma asks_of_base: "base s' = base s \<Longrightarrow> asks s' = asks s"
  by (simp add: asks_def)

lemma fresh_actions:
  assumes "aid \<notin> ga_action_id ` set (actions s)" and "ga_action_id r = aid"
    and "actions s' = actions (put_row aid row (s\<lparr>actions := actions s @ [r]\<rparr>))"
  shows "actions s' = actions s @ [row]"
proof -
  have "update_where (\<lambda>r. ga_action_id r = aid) (\<lambda>_. row) (actions s) = actions s"
    using assms(1) by (intro update_where_none) auto
  then show ?thesis using assms(2,3) by (simp add: put_row_def update_where_def)
qed

lemma good_reserve:
  assumes "gov_ok s" and "reserve_tx env rq key aid now s = Inr ((row, replayed, refusal), s')"
  shows "good_step env s s'"
  using assms
proof (cases rule: reserve_cases)
  case fresh
  let ?new = "new_row env rq key aid now s"
  obtain eid where row: "row = ?new\<lparr>ga_audit_request_id := Some eid\<rparr>" using fresh(8) by blast
  have new: "ga_id ?new = next_row_id (map ga_id (actions s))" "ga_action_id ?new = aid"
    "ga_key ?new = key" "ga_attempt ?new = 1" "ga_approval_code ?new = None"
    by (simp_all add: new_row_def)
  note acts = fresh_actions[OF fresh(9) new(2) fresh(7)]
  have "ga_id ?new \<notin> set (map ga_id (actions s))" using new(1) next_row_id_fresh by fastforce
  moreover have "key \<notin> set (map ga_key (actions s))" using fresh(1) by (auto simp: row_by_None)
  moreover have "codes_unique (actions s')"
    unfolding acts using assms(1) new(5) by (intro codes_unique_snoc) (simp_all add: gov_ok_def row)
  moreover have "map ga_id (actions s') = map ga_id (actions s) @ [ga_id ?new]"
    "map ga_action_id (actions s') = map ga_action_id (actions s) @ [aid]"
    "map ga_key (actions s') = map ga_key (actions s) @ [key]"
    using new by (simp_all add: acts row)
  moreover have "\<forall>r\<in>set (actions s'). 1 \<le> ga_attempt r"
    using assms(1) new(4) by (simp add: acts row gov_ok_def)
  moreover have "aid \<notin> set (map ga_action_id (actions s))" using fresh(9) by simp
  ultimately have "gov_ok s'"
    using assms(1) asks_of_base[OF fresh(4)] unfolding gov_ok_def by (simp del: set_map)
  then show ?thesis
    using fresh(6) asks_of_base[OF fresh(4)] asks_evolve_refl by (auto simp: good_step_def)
next
  case replay
  then show ?thesis
    using assms(1) asks_of_base[OF replay(5)] asks_evolve_refl
    by (auto simp: good_step_def gov_ok_def)
next
  case (resumed r)
  note k = key_row[OF assms(1) resumed(1)]
  note rr = resume_result[OF assms(1) resumed(1,3)]
  have acts: "actions s' = actions (put_row (ga_action_id r) row s)" and id: "ident row = ident r"
    using rr by simp_all
  have "base s' = base s" using rr by simp
  note ask = asks_of_base[OF this]
  have d: "distinct (map ga_action_id (actions s))" using assms(1) by (simp add: gov_ok_def)
  have keep: "map g (actions s') = map g (actions s)" if "g row = g r" for g :: "governed_row \<Rightarrow> 'a"
    using map_put_row[where g=g, OF d k(2)] that acts by simp
  have att: "1 \<le> ga_attempt r" using assms(1) k(1) by (simp add: gov_ok_def)
  then have "1 \<le> ga_attempt row" using rr by (auto split: if_splits)
  then have a: "\<forall>x\<in>set (actions s'). 1 \<le> ga_attempt x"
    using assms(1) by (auto simp: acts gov_ok_def dest!: set_put_row)
  have code: "ga_approval_code row = None \<or> ga_approval_code row = ga_approval_code r"
    using rr by (auto split: if_splits)
  have cu: "codes_unique (actions s')"
  proof (rule codes_unique_from)
    show "codes_unique (actions s)" using assms(1) by (simp add: gov_ok_def)
    fix x assume "x \<in> set (actions s')"
    then have "x = row \<or> x \<in> set (actions s)" unfolding acts by (auto dest: set_put_row)
    then show "\<exists>y\<in>set (actions s). ga_action_id y = ga_action_id x \<and>
        (\<forall>c. ga_approval_code x = Some c \<longrightarrow> ga_approval_code y = Some c)"
      using k(1) code id unfolding ident_def by (elim disjE) (rule bexI[of _ r], auto)
  qed
  have ok: "gov_ok s'"
  proof (rule gov_ok_same_keys[OF assms(1) _ _ _ _ cu ask])
    show "map ga_id (actions s') = map ga_id (actions s)"
      "map ga_action_id (actions s') = map ga_action_id (actions s)"
      "map ga_key (actions s') = map ga_key (actions s)"
      using id by (simp_all add: keep ident_def)
    show "1 \<le> ga_attempt x" if "x \<in> set (actions s')" for x using a that by blast
  qed
  have "\<exists>a as. recorded env s s' (a # as)" using rr by (auto split: if_splits)
  then show ?thesis using ok ask asks_evolve_refl by (simp add: good_step_def)
qed

lemma recorded_nonempty: "recorded env s s' as \<Longrightarrow> as \<noteq> [] \<Longrightarrow> \<exists>a as. recorded env s s' (a # as)"
  by (cases as) auto

lemma good_sweep:
  assumes "gov_ok s" and "expire_stale_pending_tx env moment now s = Inr (n, s')"
  shows "good_step env s s'"
proof -
  let ?rows = "filter (\<lambda>r. ga_status r \<in> set IN_FLIGHT) (actions s)"
  have ok: "distinct (map ga_id (actions s))" "\<forall>r\<in>set (actions s). 1 \<le> ga_attempt r"
    using assms(1) by (simp_all add: gov_ok_def)
  have "distinct (map ga_id ?rows)" using ok(1) by (simp add: distinct_map inj_on_def)
  then have r: "base s' = base s"
    "actions s' = map (\<lambda>r. if r \<in> set ?rows \<and> sweepable env moment r then swept moment r else r) (actions s)"
    "n = length (filter (sweepable env moment) ?rows)"
    "\<exists>acts. recorded env s s' acts \<and> length acts = n"
    using sweep_rows_result[OF assms(2)[unfolded expire_stale_pending_tx_def] ok] by auto
  have sw: "ident (swept moment x) = ident x" "ga_attempt (swept moment x) = ga_attempt x"
    "ga_approval_code (swept moment x) = ga_approval_code x" for x
    by (simp_all add: swept_def ident_def split: prod.splits)
  have ids: "map ga_id (actions s') = map ga_id (actions s)"
    "map ga_action_id (actions s') = map ga_action_id (actions s)"
    "map ga_key (actions s') = map ga_key (actions s)"
    using sw(1) by (simp_all add: r(2) ident_def)
  have pre: "\<exists>y\<in>set (actions s). x = y \<or> x = swept moment y" if "x \<in> set (actions s')" for x
  proof -
    obtain y where "y \<in> set (actions s)"
      "x = (if y \<in> set ?rows \<and> sweepable env moment y then swept moment y else y)"
      using \<open>x \<in> set (actions s')\<close>[unfolded r(2) set_map] by blast
    then show ?thesis by metis
  qed
  have "codes_unique (actions s')"
  proof (rule codes_unique_from)
    show "codes_unique (actions s)" using assms(1) by (simp add: gov_ok_def)
    fix x assume "x \<in> set (actions s')"
    then obtain y where "y \<in> set (actions s)" "x = y \<or> x = swept moment y"
      using pre by blast
    then show "\<exists>y\<in>set (actions s). ga_action_id y = ga_action_id x \<and>
        (\<forall>c. ga_approval_code x = Some c \<longrightarrow> ga_approval_code y = Some c)"
      using sw by (intro bexI[of _ y]) (auto simp: ident_def)
  qed
  moreover have "1 \<le> ga_attempt x" if "x \<in> set (actions s')" for x
  proof -
    from pre[OF that] obtain y where "y \<in> set (actions s)" "x = y \<or> x = swept moment y"
      by blast
    then show ?thesis using ok(2) sw(2) by metis
  qed
  ultimately have "gov_ok s'"
    using gov_ok_same_keys[OF assms(1) ids _ _ asks_of_base[OF r(1)]] by blast
  moreover have "map ga_status (actions s') = map ga_status (actions s) \<or> (\<exists>a as. recorded env s s' (a # as))"
  proof (cases "n = 0")
    case True
    then have "\<forall>x\<in>set (actions s). \<not> (x \<in> set ?rows \<and> sweepable env moment x)"
      using r(3) by (auto simp: filter_empty_conv)
    then have "actions s' = actions s" unfolding r(2) by (intro map_idI) auto
    then show ?thesis by simp
  next
    case False
    then show ?thesis using r(4) recorded_nonempty by fastforce
  qed
  ultimately show ?thesis
    using asks_of_base[OF r(1)] asks_evolve_refl by (simp add: good_step_def)
qed

lemma good_heartbeat:
  assumes "gov_ok s" and "heartbeat_tx aid attempt now s = Inr (ok, s')"
  shows "good_step env s s'"
proof -
  note h = heartbeat_result(1)[OF assms(2)]
  have keep: "map g (actions s') = map g (actions s)"
    if "\<And>r t. g (r\<lparr>ga_heartbeat_at := t\<rparr>) = g r" for g :: "governed_row \<Rightarrow> 'a"
    unfolding h by (simp add: map_update_where that)
  have "\<forall>r\<in>set (actions s'). \<exists>x\<in>set (actions s). ga_attempt r = ga_attempt x \<and>
      ga_action_id r = ga_action_id x \<and> ga_approval_code r = ga_approval_code x"
    unfolding h by (auto dest!: set_update_where)
  then have "\<forall>r\<in>set (actions s'). 1 \<le> ga_attempt r" "codes_unique (actions s')"
    using assms(1) unfolding gov_ok_def codes_unique_def by (fastforce, metis)
  moreover have "map ga_id (actions s') = map ga_id (actions s)"
    "map ga_action_id (actions s') = map ga_action_id (actions s)"
    "map ga_key (actions s') = map ga_key (actions s)"
    "map ga_status (actions s') = map ga_status (actions s)"
    by (simp_all add: keep)
  moreover have "asks s' = asks s" by (simp add: h)
  ultimately show ?thesis
    using assms(1) asks_evolve_refl by (simp add: good_step_def gov_ok_def)
qed

lemma gov_ok_same_actions:
  assumes "gov_ok s" and "actions s' = actions s" and "asks_evolve (asks s) (asks s')"
  shows "good_step env s s'"
proof -
  have "distinct (map ak_code (asks s'))" "distinct (map ak_id (asks s'))"
    using assms(1,3) by (simp_all add: gov_ok_def asks_evolve_def)
  then have "gov_ok s'" using assms(1) unfolding gov_ok_def assms(2) by blast
  then show ?thesis using assms(2,3) by (simp add: good_step_def)
qed

lemma good_rewrote_base:
  assumes "gov_ok s" and "rewrote aid s s' r0 row" and "base s' = base s" and "recorded env s s' (a # as)"
  shows "good_step env s s'"
  using good_rewrote[OF assms(1,2) _ assms(4)] asks_of_base[OF assms(3)] asks_evolve_refl by simp

lemma good_settle:
  assumes "gov_ok s" and "act \<noteq> INIT_ACTION"
    and "settle_tx env rq aid status decision act reason code now s = Inr (u, s')"
  shows "good_step env s s'"
  using settle_result[OF assms(3)] assms(2) good_rewrote_base[OF assms(1)] by blast

lemma good_mark: "gov_ok s \<Longrightarrow> mark_executing_tx env rq aid now s = Inr (n, s') \<Longrightarrow> good_step env s s'"
  using mark_executing_result good_rewrote_base by blast

lemma good_release: "gov_ok s \<Longrightarrow> release_tx env rq aid handoff now s = Inr (u, s') \<Longrightarrow> good_step env s s'"
  using release_result good_rewrote_base by blast

lemma good_complete:
  "gov_ok s \<Longrightarrow> complete_tx env rq aid ok res err now s = Inr (u, s') \<Longrightarrow> good_step env s s'"
  using complete_result good_rewrote_base by blast

lemma good_filing:
  assumes "gov_ok s" and "file_approval_tx env rq aid expires ws now s = Inr (code, s')"
  shows "good_step env s s'"
proof -
  obtain r0 row ask where f: "rewrote aid s s' r0 row" "asks s' = asks s @ [ask]" "ak_code ask = code"
    "code \<notin> set (map ak_code (asks s))" "ak_id ask \<notin> set (map ak_id (asks s))"
    "recorded env s s' [lit ''governed.approval_requested'']"
    using file_approval_result[OF assms(2)] by blast
  have "asks_evolve (asks s) (asks s')"
    unfolding f(2) using f(3-5) by (intro asks_evolve_append) simp_all
  then show ?thesis by (rule good_rewrote[OF assms(1) f(1) _ f(6)])
qed

lemma good_consume:
  assumes "gov_ok s" and "consume_tx env rq aid code chosen reasoning now s = Inr (auth, s')"
  shows "good_step env s s'"
proof -
  have d: "distinct (map ak_code (asks s))" using assms(1) by (simp add: gov_ok_def)
  obtain r0 row a where c: "rewrote aid s s' r0 row" "recorded env s s' [a]"
    and e: "base s' = base s \<or>
      asks s' = update_where (\<lambda>r. ak_code r = code) (\<lambda>r. r\<lparr>ak_status := AskConsumed\<rparr>) (asks s)"
    using consume_result[OF assms(2) d] by (metis (no_types, lifting))
  have "asks_evolve (asks s) (asks s')"
    using e
  proof
    assume "base s' = base s"
    then show ?thesis using asks_of_base asks_evolve_refl by metis
  next
    assume u: "asks s' = update_where (\<lambda>r. ak_code r = code) (\<lambda>r. r\<lparr>ak_status := AskConsumed\<rparr>) (asks s)"
    show ?thesis unfolding u by (rule asks_evolve_update) simp_all
  qed
  then show ?thesis by (rule good_rewrote[OF assms(1) c(1) _ c(2)])
qed

lemma good_request:
  assumes "gov_ok s"
    and "create_request_in_session ws title body proposed sid metadata now s = Some (code, s')"
  shows "good_step env s s'"
proof -
  obtain row where r: "s' = set_asks (asks s @ [row]) s" "ak_code row \<notin> set (map ak_code (asks s))"
    "ak_id row \<notin> set (map ak_id (asks s))"
    using create_request_result[of ws title body proposed sid metadata now s] assms(2) by auto
  show ?thesis
    by (rule gov_ok_same_actions[OF assms(1)]) (simp_all add: r(1) asks_evolve_append[OF r(2,3)])
qed

lemma good_resolve:
  assumes "gov_ok s"
    and "resolve_decision mac fp now code chosen reasoning status p resolving s = (r, s')"
  shows "good_step env s s'"
proof (cases r)
  case (Inl e)
  have "base s' = base s" "actions s' = actions s"
    using resolve_decision_Inl[OF assms(2)[unfolded Inl]] by simp_all
  then show ?thesis
    using gov_ok_same_actions[OF assms(1)] asks_of_base asks_evolve_refl by metis
next
  case (Inr dec)
  show ?thesis
  proof (rule resolve_decision_Inr[OF assms(2)[unfolded Inr]])
    fix ask st decision e
    assume ask: "get_ask s code = Some ask" "ak_status ask = AskOpen"
      and u: "asks s' = update_where (\<lambda>r. ak_id r = ak_id ask)
       (\<lambda>r. r\<lparr>ak_status := st, ak_resolved_at := Some now, ak_decision_id := Some (de_id decision)\<rparr>)
       (asks s)" and a: "actions s' = actions s"
    have d: "distinct (map ak_id (asks s))" using assms(1) by (simp add: gov_ok_def)
    have in_s: "ask \<in> set (asks s)" using ask(1) by (auto simp: get_ask_def dest: row_by_Some_iff_key)
    have only: "x \<in> set (asks s) \<Longrightarrow> ak_id x = ak_id ask \<Longrightarrow> x = ask" for x
      using row_by_distinct[OF d, of x] row_by_distinct[OF d in_s] by (metis option.inject)
    have "asks_evolve (asks s) (asks s')"
      unfolding u
    proof (rule asks_evolve_update)
      fix x assume "x \<in> set (asks s)" "ak_id x = ak_id ask" "ak_status x = AskConsumed"
      then have "x = ask" by (intro only)
      then show "ak_status (x\<lparr>ak_status := st, ak_resolved_at := Some now,
          ak_decision_id := Some (de_id decision)\<rparr>) = AskConsumed"
        using \<open>ak_status x = AskConsumed\<close> ask(2) by (metis ask_status.distinct(7))
    qed simp
    then show ?thesis by (rule gov_ok_same_actions[OF assms(1) a])
  qed
qed

lemmas good_steps = good_filing good_consume good_mark good_heartbeat
  good_release good_complete good_sweep good_resolve good_request

lemma gov_step_good:
  assumes "gov_step env s s'" and "gov_ok s"
  shows "good_step env s s'"
  using assms(1)
proof cases
  case (by_reserve rq key aid now x)
  then show ?thesis using good_reserve[OF assms(2)] by (cases x) auto
qed (erule (1) good_settle[OF assms(2)] | erule good_steps[OF assms(2)])+

lemma gov_steps_ok: "(gov_step env)\<^sup>*\<^sup>* s s' \<Longrightarrow> gov_ok s \<Longrightarrow> gov_ok s'"
  by (induction rule: rtranclp_induct) (auto dest: gov_step_good simp: good_step_def)

lemma consumed_forever:
  assumes "(gov_step env)\<^sup>*\<^sup>* s s'" and "gov_ok s" and "consumed s code"
  shows "consumed s' code"
  using assms
proof (induction rule: rtranclp_induct)
  case (step y z)
  have "gov_ok y" using gov_steps_ok[OF step(1) step.prems(1)] .
  then show ?case
    using consumed_evolves[of y z code] gov_step_good[OF step(2)] step
    by (simp add: good_step_def)
qed

end
