(* ===== verification/GovernedActions.thy ===== *)
theory GovernedActions imports GovernedSafety begin

text \<open>
  The properties of governed actions: an approval is spent at most once and only on the action it
  was granted for, no status changes without an audit entry, \<open>reserve\<close> is idempotent in its key, the
  sweep settles exactly the stale rows, and a live heartbeat keeps a row from being swept.
\<close>

section \<open>Totality on an intact log\<close>

lemma consumed_after:
  assumes "get_ask s code = Some ask"
    and "asks s' = update_where (\<lambda>r. ak_code r = code) (\<lambda>r. r\<lparr>ak_status := AskConsumed\<rparr>) (asks s)"
  shows "consumed s' code"
proof -
  have "get_ask s' code = Some (ask\<lparr>ak_status := AskConsumed\<rparr>)"
    using assms(1) row_by_update_same[of ak_code code "\<lambda>r. r\<lparr>ak_status := AskConsumed\<rparr>" "asks s"]
    unfolding get_ask_def assms(2) by simp
  then show ?thesis by (simp add: consumed_def)
qed

lemma log_then:
  assumes "verify_chain (ge_mac env) (gaudit s) = None"
    and "\<And>eid s1. log_in env now actor action payload ws s = Inr (eid, s1) \<Longrightarrow>
      \<exists>x s'. f (eid, s1) = Inr (x, s') \<and> P x s'"
  shows "\<exists>x s'. bind_result (log_in env now actor action payload ws s) f = Inr (x, s') \<and> P x s'"
proof -
  obtain eid s1 where l: "log_in env now actor action payload ws s = Inr (eid, s1)"
    using log_in_succeeds[OF assms(1)] by blast
  show ?thesis unfolding l bind_result.simps by (rule assms(2)[OF l])
qed

lemma log_total:
  assumes "verify_chain (ge_mac env) (gaudit s) = None"
    and "\<And>eid s1. verify_chain (ge_mac env) (gaudit s1) = None \<Longrightarrow> \<exists>y. f (eid, s1) = Inr y"
  shows "\<exists>y. bind_result (log_in env now actor action payload ws s) f = Inr y"
proof -
  obtain eid s1 where l: "log_in env now actor action payload ws s = Inr (eid, s1)"
    using log_in_succeeds[OF assms(1)] by blast
  then obtain e a where "append_in_session (ge_mac env) (ge_fp env) now actor action payload ws (gaudit s)
      = Inr (e, a)" "s1 = s\<lparr>gaudit := a\<rparr>"
    by (auto simp: log_in_def split: sum.splits)
  then have "verify_chain (ge_mac env) (gaudit s1) = None" using append_verify_iff assms(1) by auto
  then show ?thesis unfolding l bind_result.simps by (rule assms(2))
qed

lemma consume_total:
  assumes "get_row s aid = Some r0" and "verify_chain (ge_mac env) (gaudit s) = None"
    and "\<And>r. r \<in> set (actions s) \<Longrightarrow> ga_action_id r \<noteq> aid \<Longrightarrow> ga_approval_code r \<noteq> Some code"
  shows "\<exists>auth s'. consume_tx env rq aid code chosen reasoning now s = Inr (auth, s') \<and>
    (au_allowed auth \<longleftrightarrow> approval_refusal env rq code now s = None \<and>
       fst (consume_resolved_decision s code))"
proof -
  let ?early = "approval_refusal env rq code now s"
  obtain spent s1 where sp: "consume_resolved_decision s code = (spent, s1)" by fastforce
  define s0 where "s0 = (if ?early = None then s1 else s)"
  define sp0 where "sp0 = (if ?early = None then spent else False)"
  have pair: "(if ?early = None then consume_resolved_decision s code else (False, s)) = (sp0, s0)"
    by (simp add: sp s0_def sp0_def)
  have s0: "actions s0 = actions s" "gaudit s0 = gaudit s"
    using sp by (auto simp: s0_def consume_resolved_decision_def Let_def)
  have r0: "ga_action_id r0 = aid" using get_row_Some[OF assms(1)] by simp
  define failure where "failure = (case ?early of Some f \<Rightarrow> Some f
      | None \<Rightarrow> if sp0 then None
          else Some (lit ''approval was already consumed or is no longer resolved'', ScopeMismatch))"
  let ?r1 = "r0\<lparr>ga_status := Authorized, ga_decision := Some DecideApproved\<rparr>"
  have "\<not> (\<exists>r\<in>set (actions s0). ga_action_id r \<noteq> ga_action_id ?r1 \<and> ga_approval_code r = Some code)"
    using assms(3) r0 s0(1) by auto
  then have "\<exists>b. bind_approval_code s0 ?r1 code = Inr b"
    unfolding bind_approval_code_def by (simp only: if_False) simp
  then obtain b where bind: "bind_approval_code s0 ?r1 code = Inr b" ..
  define mid :: "gov_error + governed_row" where "mid = (case failure of
      None \<Rightarrow> bind_result (bind_approval_code s0 ?r1 code) (\<lambda>r. Inr (r\<lparr>ga_authorized_at := Some now\<rparr>))
    | Some (why, decision) \<Rightarrow>
        Inr (r0\<lparr>ga_status := (if decision = DecideExpired then Expired else Denied),
               ga_decision := Some decision, ga_result := Some (status_text Denied),
               ga_error := Some why, ga_completed_at := Some now\<rparr>))"
  obtain row where mid: "mid = Inr row"
    unfolding mid_def bind by (cases failure) auto
  have intact: "verify_chain (ge_mac env) (gaudit (put_row aid row s0)) = None"
    using assms(2) s0(2) by simp
  have "au \<longleftrightarrow> failure = None" if "au \<longleftrightarrow> ?early = None \<and> spent" for au
    using that by (cases ?early) (auto simp: failure_def sp0_def)
  moreover have "\<exists>auth s'. consume_tx env rq aid code chosen reasoning now s = Inr (auth, s') \<and>
      (au_allowed auth \<longleftrightarrow> failure = None)"
    unfolding consume_tx_def assms(1) option.case Let_def pair prod.case
      failure_def[symmetric] mid_def[symmetric] mid bind_result.simps
    by (rule log_then[OF intact]) (simp add: mk_authorization_def)
  ultimately show ?thesis using sp by auto
qed

section \<open>Properties\<close>

text \<open>C2. An approval is spent at most once. Once one governed action has consumed it, then after any
  number of further transactions of any kind no request, for whatever action, is allowed on it.\<close>

theorem approval_spent_once:
  assumes "gov_ok s" and "consume_tx env rq aid code chosen reasoning now s = Inr (auth, s1)"
    and "au_allowed auth" and "(gov_step env)\<^sup>*\<^sup>* s1 s2"
    and "consume_tx env' rq' aid' code chosen' reasoning' now' s2 = Inr (auth', s3)"
  shows "\<not> au_allowed auth'"
proof
  assume a: "au_allowed auth'"
  have d: "distinct (map ak_code (asks s))" using assms(1) by (simp add: gov_ok_def)
  obtain ask where "get_ask s code = Some ask"
    and u: "asks s1 = update_where (\<lambda>r. ak_code r = code) (\<lambda>r. r\<lparr>ak_status := AskConsumed\<rparr>) (asks s)"
    using consume_result[OF assms(2) d] assms(3) by auto
  then have c: "consumed s1 code" by (rule consumed_after)
  have "gov_step env s s1" using assms(2) by (rule by_consume)
  then have ok: "gov_ok s1" using gov_step_good assms(1) by (auto simp: good_step_def)
  have "consumed s2 code" by (rule consumed_forever[OF assms(4) ok c])
  moreover have "distinct (map ak_code (asks s2))"
    using gov_steps_ok[OF assms(4) ok] by (simp add: gov_ok_def)
  then have "\<exists>ask. get_ask s2 code = Some ask \<and> ak_status ask = AskResolved"
    using consume_result[OF assms(5)] a by auto
  ultimately show False by (auto simp: consumed_def)
qed

text \<open>C7. No governed action changes status silently. A committed transaction that leaves the
  statuses different, a new row included, has appended at least one entry of its own to the audit
  log, kept every earlier entry, and neither broken nor repaired the chain.\<close>

theorem no_silent_transition:
  assumes "gov_ok s" and "gov_step env s s'"
    and "map ga_status (actions s') \<noteq> map ga_status (actions s)"
  shows "\<exists>new. audit_log (gaudit s') = audit_log (gaudit s) @ new \<and>
    (\<exists>e\<in>set new. e_action e \<noteq> INIT_ACTION) \<and>
    (verify_chain (ge_mac env) (gaudit s') = None \<longleftrightarrow> verify_chain (ge_mac env) (gaudit s) = None)"
proof -
  obtain a as where r: "recorded env s s' (a # as)"
    using gov_step_good[OF assms(2,1)] assms(3) by (auto simp: good_step_def)
  obtain new where n: "audit_log (gaudit s') = audit_log (gaudit s) @ new"
    "filter (\<lambda>a. a \<noteq> INIT_ACTION) (map e_action new) = a # as"
    using recorded_log[OF r] by blast
  have "a \<in> set (filter (\<lambda>a. a \<noteq> INIT_ACTION) (map e_action new))" by (simp only: n(2) list.set_intros)
  then have "\<exists>e\<in>set new. e_action e \<noteq> INIT_ACTION" by auto
  then show ?thesis using n(1) recorded_intact[OF r] by (intro exI[of _ new] conjI)
qed

lemma approval_refusal_None:
  "approval_refusal env rq code now s = None \<longleftrightarrow>
     (\<exists>stored expires. request_scope s code = Some stored \<and> scope_matches stored (scope env rq) \<and>
        parse_ts env (member_value stored (lit ''expires_at'')) = Some expires \<and> now \<le> expires)"
  by (auto simp: approval_refusal_def Let_def not_less split: option.splits)

lemma consume_spends_iff:
  assumes "distinct (map ak_code (asks s))"
  shows "fst (consume_resolved_decision s code) \<longleftrightarrow>
    (\<exists>ask. get_ask s code = Some ask \<and> ak_status ask = AskResolved)"
proof -
  obtain spent s' where c: "consume_resolved_decision s code = (spent, s')" by fastforce
  show ?thesis
  proof (cases spent)
    case True
    then show ?thesis using consume_True[OF _ assms, of code s'] c by auto
  next
    case False
    let ?P = "\<lambda>r. ak_code r = code \<and> ak_status r = AskResolved"
    have n: "length (filter ?P (asks s)) \<noteq> 1"
      using c False by (simp add: consume_resolved_decision_def rows_matching_def Let_def)
    have "ak_status ask \<noteq> AskResolved" if g: "get_ask s code = Some ask" for ask
    proof
      assume r: "ak_status ask = AskResolved"
      have a: "ask \<in> set (asks s)" "ak_code ask = code"
        using g by (auto simp: get_ask_def dest: row_by_Some_iff_key)
      have "filter ?P (asks s) = filter (\<lambda>x. x = ask) (asks s)"
      proof (rule filter_cong[OF refl])
        fix x assume x: "x \<in> set (asks s)"
        show "?P x \<longleftrightarrow> x = ask"
          using row_by_distinct[OF assms x] row_by_distinct[OF assms a(1)] a(2) r
          by (metis option.inject)
      qed
      moreover have "distinct (asks s)" using assms by (simp add: distinct_map)
      ultimately show False
        using n a(1) by (simp add: distinct_length_filter Int_absorb1 Collect_conv_if)
    qed
    then show ?thesis using c False by auto
  qed
qed

text \<open>C5. A consumption is granted exactly when it should be. On an intact log, a request is allowed
  on an approval exactly when the approval is resolved and not yet spent, carries a governed scope
  equal to the request's (action, tool, tier, argument digest and target), and its window has not
  closed; otherwise it is answered with a refusal, and either way the row settles accordingly.\<close>

theorem approval_accepted_iff:
  assumes "gov_ok s" and "get_row s aid = Some r0"
    and "verify_chain (ge_mac env) (gaudit s) = None"
    and "\<And>r. r \<in> set (actions s) \<Longrightarrow> ga_action_id r \<noteq> aid \<Longrightarrow> ga_approval_code r \<noteq> Some code"
  shows "\<exists>auth s' row. consume_tx env rq aid code chosen reasoning now s = Inr (auth, s') \<and>
    (au_allowed auth \<longleftrightarrow>
       (\<exists>ask stored expires. get_ask s code = Some ask \<and> ak_status ask = AskResolved \<and>
          request_scope s code = Some stored \<and> scope_matches stored (scope env rq) \<and>
          parse_ts env (member_value stored (lit ''expires_at'')) = Some expires \<and> now \<le> expires)) \<and>
    get_row s' aid = Some row \<and>
    (if au_allowed auth then ga_status row = Authorized \<and> ga_approval_code row = Some code \<and> consumed s' code
     else ga_status row \<in> {Denied, Expired} \<and> asks s' = asks s)"
proof -
  have d: "distinct (map ak_code (asks s))" using assms(1) by (simp add: gov_ok_def)
  obtain auth s' where c: "consume_tx env rq aid code chosen reasoning now s = Inr (auth, s')"
    and al: "au_allowed auth \<longleftrightarrow> approval_refusal env rq code now s = None \<and>
       fst (consume_resolved_decision s code)"
    using consume_total[OF assms(2,3,4)] by blast
  obtain r1 row where r: "rewrote aid s s' r1 row"
    and res: "if au_allowed auth
     then (\<exists>ask. get_ask s code = Some ask \<and> ak_status ask = AskResolved) \<and>
       asks s' = update_where (\<lambda>r. ak_code r = code) (\<lambda>r. r\<lparr>ak_status := AskConsumed\<rparr>) (asks s) \<and>
       ga_status row = Authorized \<and> ga_approval_code row = Some code
     else base s' = base s \<and> ga_status row \<in> {Denied, Expired}"
    using consume_result[OF c d] by (metis (no_types, lifting))
  have "ga_action_id row = aid" and "get_row s aid = Some r1" and "actions s' = actions (put_row aid row s)"
    using r get_row_Some[of s aid r1] by (auto simp: rewrote_def ident_def)
  then have g: "get_row s' aid = Some row" using get_put_row[of s aid r1 row] by (simp add: get_row_def)
  have "consumed s' code" if "au_allowed auth"
    using res[unfolded if_P[OF that]] consumed_after by blast
  moreover have "asks s' = asks s" if "\<not> au_allowed auth"
    using res[unfolded if_not_P[OF that]] asks_of_base by blast
  ultimately have settled: "if au_allowed auth
      then ga_status row = Authorized \<and> ga_approval_code row = Some code \<and> consumed s' code
      else ga_status row \<in> {Denied, Expired} \<and> asks s' = asks s"
    using res by (cases "au_allowed auth") (simp_all only: if_True if_False simp_thms)
  have "au_allowed auth \<longleftrightarrow>
      (\<exists>ask stored expires. get_ask s code = Some ask \<and> ak_status ask = AskResolved \<and>
          request_scope s code = Some stored \<and> scope_matches stored (scope env rq) \<and>
          parse_ts env (member_value stored (lit ''expires_at'')) = Some expires \<and> now \<le> expires)"
    using al unfolding approval_refusal_None consume_spends_iff[OF d] by blast
  then show ?thesis using c g settled by (intro exI[of _ auth] exI[of _ s'] exI[of _ row] conjI)
qed

text \<open>C8. \<open>reserve\<close> is idempotent in its key. The first call opens one row; a call after the action
  ended replays that very row and changes none; a call on an attempt whose lease ran out settles it
  as failed and, unless its effect may have happened, reopens the same row one attempt later with no
  approval bound. There is one row for the key afterwards in every case.\<close>

theorem reserve_idempotent:
  assumes "gov_ok s" and "reserve_tx env rq key aid now s = Inr ((row, replayed, refusal), s')"
  shows "row_by ga_key key (actions s') = Some row \<and>
    length (filter (\<lambda>r. ga_key r = key) (actions s')) = 1 \<and>
    (case row_by ga_key key (actions s) of
       None \<Rightarrow> \<not> replayed \<and> refusal = None \<and> actions s' = actions s @ [row] \<and>
         ga_status row = Requested \<and> ga_attempt row = 1 \<and> ga_action_id row = aid \<and>
         ga_args_hash row = digest env rq
     | Some r \<Rightarrow>
         if ga_status r \<in> set TERMINAL_STATUSES
         then replayed \<and> refusal = None \<and> row = r \<and> actions s' = actions s
         else lease_expired env r now \<and> \<not> replayed \<and> ga_action_id row = ga_action_id r \<and>
           (if ga_status r = Executing
            then refusal = Some AbandonedMidEffect \<and> ga_status row = Failed \<and>
              ga_attempt row = ga_attempt r
            else refusal = None \<and> ga_status row = Requested \<and>
              ga_attempt row = ga_attempt r + 1 \<and> ga_approval_code row = None))"
    (is "_ \<and> _ \<and> ?answer")
proof -
  have "gov_step env s s'" using assms(2) by (rule by_reserve)
  then have ok: "gov_ok s'" using gov_step_good assms(1) by (auto simp: good_step_def)
  have "row \<in> set (actions s') \<and> ga_key row = key \<and> ?answer"
    using assms
  proof (cases rule: reserve_cases)
    case fresh
    have new: "ga_action_id (new_row env rq key aid now s) = aid" by (simp add: new_row_def)
    note acts = fresh_actions[OF fresh(9) new fresh(7)]
    obtain eid where "row = (new_row env rq key aid now s)\<lparr>ga_audit_request_id := Some eid\<rparr>"
      using fresh(8) by blast
    then have "ga_key row = key" "ga_status row = Requested" "ga_attempt row = 1"
      "ga_action_id row = aid" "ga_args_hash row = digest env rq"
      by (simp_all add: new_row_def)
    then show ?thesis using fresh(1,2,3) acts by simp
  next
    case replay
    have "row \<in> set (actions s) \<and> ga_key row = key" using row_by_Some_iff_key[OF replay(1)] by auto
    then show ?thesis using replay by simp
  next
    case (resumed r)
    note k = key_row[OF assms(1) resumed(1)]
    note rr = resume_result[OF assms(1) resumed(1,3)]
    have "ga_action_id row = ga_action_id r" "ga_key row = key"
      using rr k(3) by (simp_all add: ident_def)
    moreover from this(1) have "get_row (put_row (ga_action_id r) row s) (ga_action_id r) = Some row"
      by (rule get_put_row[OF k(2)])
    then have "row \<in> set (actions s')" using rr get_row_Some[of "put_row (ga_action_id r) row s"] by simp
    ultimately show ?thesis using rr resumed(1,2) by (simp split: if_splits)
  qed
  then have r: "row \<in> set (actions s')" "ga_key row = key" "?answer" by blast+
  have d: "distinct (map ga_key (actions s'))" using ok by (simp add: gov_ok_def)
  have same: "x \<in> set (actions s') \<Longrightarrow> ga_key x = key \<longleftrightarrow> x = row" for x
    using row_by_distinct[OF d, of x] row_by_distinct[OF d r(1)] r(2) by (metis option.inject)
  have "filter (\<lambda>r. ga_key r = key) (actions s') = filter (\<lambda>x. x = row) (actions s')"
    using same by (intro filter_cong) auto
  moreover have "distinct (actions s')" using d by (simp add: distinct_map)
  ultimately have "length (filter (\<lambda>r. ga_key r = key) (actions s')) = 1"
    using r(1) by (simp add: distinct_length_filter Int_absorb1 Collect_conv_if)
  moreover have "row_by ga_key key (actions s') = Some row" using row_by_distinct[OF d r(1)] r(2) by simp
  ultimately show ?thesis using r(3) by blast
qed

text \<open>\<open>reserve\<close> refuses nothing but a live attempt. On an intact log and with an action id that is
  not taken it raises exactly when the
  key's row is in flight and its lease, counted from the last heartbeat for an executing row, has
  not run out, and then leaves the store as it was.\<close>

theorem reserve_refuses_live:
  assumes "gov_ok s" and "verify_chain (ge_mac env) (gaudit s) = None"
    and "aid \<notin> ga_action_id ` set (actions s)"
  shows "reserve_tx env rq key aid now s = Inl e \<longleftrightarrow>
    (\<exists>r. row_by ga_key key (actions s) = Some r \<and> ga_status r \<notin> set TERMINAL_STATUSES \<and>
       \<not> lease_expired env r now \<and> e = StillInFlight (ga_status r))"
proof (cases "row_by ga_key key (actions s)")
  case None
  have nf: "\<not> (\<exists>r\<in>set (actions s). ga_action_id r = aid)" using assms(3) by blast
  have "\<exists>y. reserve_tx env rq key aid now s = Inr y"
    unfolding reserve_tx_def None option.case Let_def if_not_P[OF nf]
    by (rule log_total) (simp_all add: assms(2) del: split_paired_Ex)
  then show ?thesis using None by auto
next
  case (Some r)
  show ?thesis
  proof (cases "ga_status r \<in> set TERMINAL_STATUSES")
    case True
    have "\<exists>y. reserve_tx env rq key aid now s = Inr y"
      unfolding reserve_tx_def Some option.case if_P[OF True]
      by (rule log_total) (simp_all add: assms(2) del: split_paired_Ex)
    then show ?thesis using Some True by auto
  next
    case False
    have run: "reserve_tx env rq key aid now s = resume_or_refuse env rq r key now s"
      using False by (simp add: reserve_tx_def Some)
    show ?thesis
    proof (cases "lease_expired env r now")
      case True
      have "\<exists>y. resume_or_refuse env rq r key now s = Inr y"
        unfolding resume_or_refuse_def Let_def update_only[OF assms(1) Some]
        by (simp only: True not_True_eq_False if_False simp_thms, rule log_total)
           (auto simp: assms(2) intro!: log_total simp del: list.map split_paired_Ex)
      then show ?thesis using run True Some by auto
    next
      case live: False
      then show ?thesis using run Some False by (auto simp: resume_or_refuse_def)
    qed
  qed
qed

section \<open>The sweep and the heartbeat\<close>

lemma sweep_result:
  assumes "gov_ok s" and "expire_stale_pending_tx env moment now s = Inr (n, s')"
  shows "actions s' = map (\<lambda>r. if ga_status r \<in> set IN_FLIGHT \<and> sweepable env moment r
      then swept moment r else r) (actions s)"
    and "n = length (filter (\<lambda>r. ga_status r \<in> set IN_FLIGHT \<and> sweepable env moment r) (actions s))"
    and "base s' = base s" and "\<exists>acts. recorded env s s' acts \<and> length acts = n \<and> set acts \<subseteq> set sweep_acts"
proof -
  let ?rows = "filter (\<lambda>r. ga_status r \<in> set IN_FLIGHT) (actions s)"
  have ok: "distinct (map ga_id (actions s))" "\<forall>r\<in>set (actions s). 1 \<le> ga_attempt r"
    using assms(1) by (simp_all add: gov_ok_def)
  have d: "distinct (map ga_id ?rows)" using ok(1) by (simp add: distinct_map inj_on_def)
  have sub: "set ?rows \<subseteq> set (actions s)" by auto
  note r = sweep_rows_result[OF assms(2)[unfolded expire_stale_pending_tx_def] ok d sub]
  show "actions s' = map (\<lambda>r. if ga_status r \<in> set IN_FLIGHT \<and> sweepable env moment r
      then swept moment r else r) (actions s)"
    using r by auto
  show "n = length (filter (\<lambda>r. ga_status r \<in> set IN_FLIGHT \<and> sweepable env moment r) (actions s))"
    using r by (simp add: conj_commute)
  show "base s' = base s" "\<exists>acts. recorded env s s' acts \<and> length acts = n \<and> set acts \<subseteq> set sweep_acts"
    using r by blast+
qed

lemma swept_fields:
  "ga_action_id (swept moment r) = ga_action_id r" "ga_status (swept moment r) \<in> {Expired, Failed}"
  by (simp_all add: swept_def sweep_outcome_def Let_def split: prod.splits)

lemma get_row_map:
  "(\<And>r. ga_action_id (f r) = ga_action_id r) \<Longrightarrow>
     row_by ga_action_id aid (map f rs) = map_option f (row_by ga_action_id aid rs)"
  by (induction rs) auto

text \<open>The sweep settles the stale rows and only those. Every row in flight whose approval window
  closed or whose lease ran out ends, in place, as expired or failed with its lease cleared; every
  other row, ended or live, is untouched; approvals are untouched; and the log gains one denied or
  failed entry per settled row, whose number is the result.\<close>

theorem sweep_exact:
  assumes "gov_ok s" and "expire_stale_pending_tx env moment now s = Inr (n, s')"
  shows "actions s' = map (\<lambda>r. if ga_status r \<in> set IN_FLIGHT \<and> sweepable env moment r
      then swept moment r else r) (actions s) \<and>
    (\<forall>r. ga_status (swept moment r) \<in> set TERMINAL_STATUSES \<and> ga_heartbeat_at (swept moment r) = None) \<and>
    asks s' = asks s \<and>
    (\<exists>new. audit_log (gaudit s') = audit_log (gaudit s) @ new \<and>
       length (filter (\<lambda>a. a \<noteq> INIT_ACTION) (map e_action new)) = n) \<and>
    n = length (filter (\<lambda>r. ga_status r \<in> set IN_FLIGHT \<and> sweepable env moment r) (actions s))"
proof -
  note r = sweep_result[OF assms]
  obtain acts where "recorded env s s' acts" "length acts = n" using r(4) by blast
  then have "\<exists>new. audit_log (gaudit s') = audit_log (gaudit s) @ new \<and>
       length (filter (\<lambda>a. a \<noteq> INIT_ACTION) (map e_action new)) = n"
    using recorded_log by metis
  moreover have "ga_status (swept moment r) \<in> set TERMINAL_STATUSES \<and> ga_heartbeat_at (swept moment r) = None" for r
    using swept_fields(2)[of moment r]
    by (auto simp: TERMINAL_STATUSES_def swept_def split: prod.splits)
  ultimately show ?thesis using r(1,2) asks_of_base[OF r(3)] by blast
qed

lemma heartbeat_row:
  assumes "gov_ok s" and "heartbeat_tx aid attempt now s = Inr (True, s1)"
  obtains r where "get_row s aid = Some r" "ga_status r = Executing" "ga_attempt r = attempt"
    "get_row s1 aid = Some (r\<lparr>ga_heartbeat_at := Some now\<rparr>)"
proof -
  note h = heartbeat_result[OF assms(2)]
  obtain r where r: "get_row s aid = Some r" "ga_status r = Executing" "ga_attempt r = attempt"
    using h(2)[OF assms(1)] by blast
  let ?P = "\<lambda>r. ga_action_id r = aid \<and> ga_status r = Executing \<and> ga_attempt r = attempt"
  have d: "distinct (map ga_action_id (actions s))" using assms(1) by (simp add: gov_ok_def)
  have "update_where ?P (\<lambda>r. r\<lparr>ga_heartbeat_at := Some now\<rparr>) (actions s)
      = update_where (\<lambda>r. ga_action_id r = aid) (\<lambda>r. r\<lparr>ga_heartbeat_at := Some now\<rparr>) (actions s)"
    unfolding update_where_def using only_row[OF d r(1)] r(2,3) by (intro map_cong) auto
  then have "get_row s1 aid = Some (r\<lparr>ga_heartbeat_at := Some now\<rparr>)"
    using r(1) unfolding h(1) by (simp add: get_row_def row_by_update_same)
  then show thesis using that r by blast
qed

text \<open>A heartbeat protects the attempt it renews and reveals one that was lost. A renewal that
  succeeds found the row executing this very attempt, and until a full execution lease later no
  sweep touches the row; and once a sweep has settled the row, no renewal succeeds.\<close>

theorem heartbeat_protects:
  assumes "gov_ok s" and "heartbeat_tx aid attempt now s = Inr (alive, s1)"
    and "moment - now < seconds (execution_lease_seconds env)"
    and "expire_stale_pending_tx env moment now' s1 = Inr (n, s2)"
  shows "(alive \<longrightarrow> (\<exists>r. get_row s2 aid = Some r \<and> ga_status r = Executing \<and>
      ga_attempt r = attempt \<and> ga_heartbeat_at r = Some now)) \<and>
    (\<forall>r. get_row s aid = Some r \<and> ga_status r \<in> set TERMINAL_STATUSES \<longrightarrow> \<not> alive)"
proof (intro conjI impI allI)
  assume alive
  then have hb: "heartbeat_tx aid attempt now s = Inr (True, s1)" using assms(2) by simp
  obtain r where r: "ga_status r = Executing" "ga_attempt r = attempt"
    and g: "get_row s1 aid = Some (r\<lparr>ga_heartbeat_at := Some now\<rparr>)"
    using heartbeat_row[OF assms(1) hb] by metis
  let ?r = "r\<lparr>ga_heartbeat_at := Some now\<rparr>"
  have ok: "gov_ok s1" using good_heartbeat[OF assms(1,2)] by (simp add: good_step_def)
  have "liveness_anchor ?r \<ge> now" using r(1) by (simp add: liveness_anchor_def Let_def)
  then have "\<not> lease_expired env ?r moment" using r(1) assms(3) by (simp add: lease_expired_def Let_def)
  then have keep: "\<not> sweepable env moment ?r" using r(1) by (simp add: sweepable_def window_closed_def)
  have "get_row s2 aid = Some ?r"
    using g keep unfolding get_row_def sweep_result(1)[OF ok assms(4)]
    by (subst get_row_map) (simp_all add: swept_fields(1))
  then show "\<exists>r. get_row s2 aid = Some r \<and> ga_status r = Executing \<and>
      ga_attempt r = attempt \<and> ga_heartbeat_at r = Some now"
    using r by simp
next
  fix r assume "get_row s aid = Some r \<and> ga_status r \<in> set TERMINAL_STATUSES"
  then show "\<not> alive"
    using heartbeat_result(2)[OF assms(2,1)] by (auto simp: TERMINAL_STATUSES_def)
qed

text \<open>The heartbeat interval keeps a lease alive. Whatever the environment configures, it is at
  least the minimum and at most half the execution lease, so a running action renews at least
  twice before its lease runs out.\<close>

theorem heartbeat_interval_bounds:
  "MIN_HEARTBEAT_SECONDS \<le> heartbeat_seconds env \<and>
   2 * heartbeat_seconds env \<le> of_int (execution_lease_seconds env) \<and>
   0 < execution_lease_seconds env \<and> 3600 \<le> attempt_lease_seconds env"
proof -
  have a: "3600 \<le> attempt_lease_seconds env" by (simp add: attempt_lease_seconds_def)
  have l: "1 \<le> execution_lease_seconds env"
    using a by (auto simp: execution_lease_seconds_def Let_def split: option.splits)
  then have "(1::rat) \<le> of_int (execution_lease_seconds env)" by simp
  then have "MIN_HEARTBEAT_SECONDS \<le> of_int (execution_lease_seconds env) / 2"
    by (simp add: MIN_HEARTBEAT_SECONDS_def)
  then show ?thesis using a l by (simp add: heartbeat_seconds_def Let_def)
qed

text \<open>
  \<open>complete\<close> writes whatever status the row is in, an ended one included: an owner that lost its row
  to the sweep overwrites the settlement.
\<close>

lemma complete_unconditional:
  assumes "get_row s aid = Some r" and "verify_chain (ge_mac env) (gaudit s) = None"
  shows "\<exists>s' row. complete_tx env rq aid ok res err now s = Inr ((), s') \<and> get_row s' aid = Some row \<and>
    ga_status row = (if ok then Succeeded else Failed)"
proof -
  have "\<exists>y. complete_tx env rq aid ok res err now s = Inr y"
    unfolding complete_tx_def assms(1) option.case Let_def
    by (rule log_total) (simp_all add: assms(2) del: split_paired_Ex)
  then obtain s' where c: "complete_tx env rq aid ok res err now s = Inr ((), s')" by auto
  obtain r0 row where "rewrote aid s s' r0 row" "ga_status row = (if ok then Succeeded else Failed)"
    using complete_result[OF c] by blast
  moreover from this(1) have "get_row s' aid = Some row"
    using get_put_row[of s aid r0 row] get_row_Some[of s aid r0]
    by (simp add: rewrote_def ident_def get_row_def)
  ultimately show ?thesis using c by blast
qed

section \<open>Witnesses\<close>

definition sample_env :: gov_env where
  "sample_env = \<lparr>ge_mac = sample_mac, ge_fp = lit ''f'', ge_sha256 = (\<lambda>s. s),
     ge_redact = (\<lambda>_ s. s), ge_redact_mapping = (\<lambda>_. []), ge_redact_argv = (\<lambda>_ xs. xs),
     ge_from_iso = (\<lambda>s. if s = lit ''later'' then Some 1000 else None), ge_str = (\<lambda>_. []),
     ge_approval_ttl = None, ge_execution_lease = None, ge_heartbeat = None\<rparr>"

definition sample_request :: gov_request where
  "sample_request = \<lparr>rq_actor = lit ''ana'', rq_action = lit ''exec'', rq_tool = lit ''rm'',
     rq_args = ArgsSeq [lit ''x''],
     rq_target = \<lparr>tg_org_id = Some 1, tg_workspace_id = Some 10, tg_issue_code = None,
                  tg_session_id = None, tg_workspace_path = None\<rparr>,
     rq_tier = TIER_OUTWARD, rq_summary = lit ''rm x'', rq_cwd = None, rq_key = None\<rparr>"

definition empty_gov :: gov_store where
  "empty_gov = \<lparr>base = empty_store, decisions = [], actions = [], gaudit = empty_audit\<rparr>"

definition sample_row :: governed_row where
  "sample_row = (new_row sample_env sample_request (lit ''k'') (lit ''a1'') 0 empty_gov)
     \<lparr>ga_status := Executing, ga_heartbeat_at := Some 0\<rparr>"

definition executing_gov :: gov_store where
  "executing_gov = empty_gov\<lparr>actions := [sample_row]\<rparr>"

definition approved_gov :: gov_store where
  "approved_gov = empty_gov
     \<lparr>base := empty_store\<lparr>approvals := [sample_ask\<lparr>ak_status := AskResolved,
        ak_metadata := Some (JDict (scope sample_env sample_request
          @ [(lit ''expires_at'', JStr (lit ''later'')), (lit ''kind'', JStr (lit ''governed_action''))]))\<rparr>]\<rparr>,
      actions := [sample_row\<lparr>ga_status := Pending\<rparr>]\<rparr>"

lemma sample_row_fields [simp]:
  "ga_id sample_row = 1" "ga_action_id sample_row = lit ''a1''" "ga_key sample_row = lit ''k''"
  "ga_status sample_row = Executing" "ga_attempt sample_row = 1" "ga_approval_code sample_row = None"
  "ga_heartbeat_at sample_row = Some 0" "ga_attempt_started_at sample_row = Some 0"
  by (simp_all add: sample_row_def new_row_def empty_gov_def next_row_id_def)

lemma sample_stores [simp]:
  "actions empty_gov = []" "asks empty_gov = []" "gaudit empty_gov = empty_audit"
  "actions executing_gov = [sample_row]" "asks executing_gov = []" "gaudit executing_gov = empty_audit"
  "actions approved_gov = [sample_row\<lparr>ga_status := Pending\<rparr>]" "gaudit approved_gov = empty_audit"
  by (simp_all add: empty_gov_def executing_gov_def approved_gov_def asks_def empty_store_def)

lemma sample_lease: "execution_lease_seconds sample_env = 3600"
  by (simp add: execution_lease_seconds_def attempt_lease_seconds_def approval_ttl_seconds_def
      DEFAULT_APPROVAL_TTL_SECONDS_def sample_env_def)

lemma sample_gov_ok: "gov_ok empty_gov" "gov_ok executing_gov" "gov_ok approved_gov"
  by (simp_all add: gov_ok_def codes_unique_def)
    (simp_all add: approved_gov_def asks_def)

lemma sample_intact: "verify_chain (ge_mac sample_env) empty_audit = None"
  by (simp add: sample_env_def empty_verifies)

lemma sample_reserve:
  "\<exists>row s'. reserve_tx sample_env sample_request (lit ''k'') (lit ''a1'') 0 empty_gov
      = Inr ((row, False, None), s')"
proof -
  have "\<exists>x s'. reserve_tx sample_env sample_request (lit ''k'') (lit ''a1'') 0 empty_gov = Inr (x, s') \<and>
      \<not> fst (snd x) \<and> snd (snd x) = None"
    unfolding reserve_tx_def sample_stores row_by.simps option.case Let_def list.set ball_empty bex_empty if_False
    by (rule log_then) (simp_all add: sample_intact del: list.map)
  then show ?thesis by auto
qed

theorem reserve_idempotent_witness:
  "\<exists>row s'. reserve_tx sample_env sample_request (lit ''k'') (lit ''a1'') 0 empty_gov
      = Inr ((row, False, None), s') \<and> actions s' = [row] \<and> ga_status row = Requested"
proof -
  obtain row s' where r: "reserve_tx sample_env sample_request (lit ''k'') (lit ''a1'') 0 empty_gov
      = Inr ((row, False, None), s')"
    using sample_reserve by blast
  show ?thesis using reserve_idempotent[OF sample_gov_ok(1) r] r by simp
qed

theorem reserve_refuses_live_witness:
  "reserve_tx sample_env sample_request (lit ''k'') (lit ''a2'') 5 executing_gov = Inl (StillInFlight Executing)"
proof -
  have "\<not> lease_expired sample_env sample_row 5"
    by (simp add: lease_expired_def sample_lease liveness_anchor_def attempt_started_def seconds_def Let_def)
  moreover have "lit ''a2'' \<notin> ga_action_id ` set (actions executing_gov)" by simp
  ultimately show ?thesis
    by (intro reserve_refuses_live[THEN iffD2, OF sample_gov_ok(2)])
       (simp_all add: sample_intact TERMINAL_STATUSES_def del: list.map)
qed

theorem no_silent_transition_witness:
  "\<exists>s' e. gov_step sample_env empty_gov s' \<and> e \<in> set (audit_log (gaudit s')) \<and> e_action e \<noteq> INIT_ACTION"
proof -
  obtain row s' where r: "reserve_tx sample_env sample_request (lit ''k'') (lit ''a1'') 0 empty_gov
      = Inr ((row, False, None), s')"
    using sample_reserve by blast
  have step: "gov_step sample_env empty_gov s'" by (rule by_reserve[OF r])
  have "actions s' \<noteq> []"
    using r by (auto elim!: reserve_cases[OF sample_gov_ok(1)] simp: put_row_def update_where_def)
  then have "map ga_status (actions s') \<noteq> map ga_status (actions empty_gov)" by simp
  then obtain new e where "audit_log (gaudit s') = audit_log (gaudit empty_gov) @ new" "e \<in> set new"
    "e_action e \<noteq> INIT_ACTION"
    using no_silent_transition[OF sample_gov_ok(1) step] by blast
  then show ?thesis using step by (intro exI[of _ s'] exI[of _ e]) simp
qed

lemma sample_heartbeat: "\<exists>s'. heartbeat_tx (lit ''a1'') 1 (seconds 10) executing_gov = Inr (True, s') \<and>
    actions s' = [sample_row\<lparr>ga_heartbeat_at := Some (seconds 10)\<rparr>] \<and> gaudit s' = empty_audit"
  by (simp add: heartbeat_tx_def Let_def rows_matching_def)

theorem heartbeat_protects_witness:
  "\<exists>s1 n s2 r. heartbeat_tx (lit ''a1'') 1 (seconds 10) executing_gov = Inr (True, s1) \<and>
     expire_stale_pending_tx sample_env (seconds 3605) (seconds 3605) s1 = Inr (n, s2) \<and>
     get_row s2 (lit ''a1'') = Some r \<and> ga_status r = Executing"
proof -
  let ?r = "sample_row\<lparr>ga_heartbeat_at := Some (seconds 10)\<rparr>"
  obtain s1 where h: "heartbeat_tx (lit ''a1'') 1 (seconds 10) executing_gov = Inr (True, s1)"
    "actions s1 = [?r]"
    using sample_heartbeat by blast
  have "\<not> sweepable sample_env (seconds 3605) ?r"
    by (simp add: sweepable_def window_closed_def lease_expired_def sample_lease liveness_anchor_def
        attempt_started_def seconds_def)
  then have e: "expire_stale_pending_tx sample_env (seconds 3605) (seconds 3605) s1 = Inr (0, s1)"
    using h(2) by (simp add: expire_stale_pending_tx_def IN_FLIGHT_def)
  have "seconds 3605 - seconds 10 < seconds (execution_lease_seconds sample_env)"
    by (simp add: sample_lease seconds_def)
  from heartbeat_protects[OF sample_gov_ok(2) h(1) this e] show ?thesis using h(1) e by blast
qed

theorem sweep_exact_witness:
  "\<exists>s'. expire_stale_pending_tx sample_env (seconds 3600) 0 executing_gov = Inr (1, s') \<and>
     map ga_status (actions s') = [Failed]"
proof -
  have sw: "sweepable sample_env (seconds 3600) sample_row"
    by (simp add: sweepable_def lease_expired_def sample_lease liveness_anchor_def
        attempt_started_def)
  have o: "sweep_outcome sample_row (seconds 3600) = (Failed, DecideApproved, abandoned_reason Executing)"
    by (simp add: sweep_outcome_def window_closed_def)
  have "\<exists>y. expire_stale_pending_tx sample_env (seconds 3600) 0 executing_gov = Inr y"
    unfolding expire_stale_pending_tx_def sample_stores
    by (simp add: IN_FLIGHT_def sw o rows_matching_def observed_attempt_def sample_intact
        log_total del: list.map split_paired_Ex)
  then obtain n s' where e: "expire_stale_pending_tx sample_env (seconds 3600) 0 executing_gov = Inr (n, s')"
    by auto
  have "n = 1" "actions s' = [swept (seconds 3600) sample_row]"
    using sweep_exact[OF sample_gov_ok(2) e] sw by (simp_all add: IN_FLIGHT_def)
  then show ?thesis using e by (simp add: swept_def o)
qed

lemma approved_ask: "get_ask approved_gov (lit ''ASK-0001'') =
    Some (sample_ask\<lparr>ak_status := AskResolved,
        ak_metadata := Some (JDict (scope sample_env sample_request
          @ [(lit ''expires_at'', JStr (lit ''later'')), (lit ''kind'', JStr (lit ''governed_action''))]))\<rparr>)"
  by (simp add: get_ask_def asks_def approved_gov_def sample_ask_def)

lemma sample_scope_matches:
  "scope_matches (scope sample_env sample_request
     @ [(lit ''expires_at'', JStr (lit ''later'')), (lit ''kind'', JStr (lit ''governed_action''))])
     (scope sample_env sample_request)"
  by (simp add: scope_matches_def scope_def member_value_def sample_request_def target_payload_def
      json_opt_int_def json_opt_str_def TIER_OUTWARD_def)

lemma approved_scope: "request_scope approved_gov (lit ''ASK-0001'') = Some (scope sample_env sample_request
     @ [(lit ''expires_at'', JStr (lit ''later'')), (lit ''kind'', JStr (lit ''governed_action''))])"
  unfolding request_scope_def approved_ask by (simp add: member_value_def scope_def)

lemma approved_expiry:
  "parse_ts sample_env (member_value (scope sample_env sample_request
     @ [(lit ''expires_at'', JStr (lit ''later'')), (lit ''kind'', JStr (lit ''governed_action''))])
     (lit ''expires_at'')) = Some 1000"
  by (simp add: member_value_def scope_def parse_ts_def sample_env_def)

lemma approved_row: "get_row approved_gov (lit ''a1'') = Some (sample_row\<lparr>ga_status := Pending\<rparr>)"
  by (simp add: get_row_def)

theorem approval_accepted_iff_witness:
  "\<exists>auth s'. consume_tx sample_env sample_request (lit ''a1'') (lit ''ASK-0001'') (lit ''approve'') [] 1000
      approved_gov = Inr (auth, s') \<and> au_allowed auth \<and> consumed s' (lit ''ASK-0001'')"
proof -
  obtain auth s' where c: "consume_tx sample_env sample_request (lit ''a1'') (lit ''ASK-0001'')
      (lit ''approve'') [] 1000 approved_gov = Inr (auth, s')"
    and a: "au_allowed auth \<longleftrightarrow> (\<exists>ask stored expires. get_ask approved_gov (lit ''ASK-0001'') = Some ask \<and>
      ak_status ask = AskResolved \<and> request_scope approved_gov (lit ''ASK-0001'') = Some stored \<and>
      scope_matches stored (scope sample_env sample_request) \<and>
      parse_ts sample_env (member_value stored (lit ''expires_at'')) = Some expires \<and> 1000 \<le> expires)"
    and k: "au_allowed auth \<Longrightarrow> consumed s' (lit ''ASK-0001'')"
    using approval_accepted_iff[OF sample_gov_ok(3) approved_row, of sample_env "lit ''ASK-0001''"
        sample_request "lit ''approve''" "[]" 1000] sample_intact
    by (auto simp del: list.map split: if_splits)
  have "au_allowed auth"
    unfolding a approved_ask approved_scope using sample_scope_matches approved_expiry by simp
  then show ?thesis using c k by blast
qed

theorem approval_spent_once_witness:
  "\<exists>auth s1 auth' s2. consume_tx sample_env sample_request (lit ''a1'') (lit ''ASK-0001'') [] [] 1000
      approved_gov = Inr (auth, s1) \<and> au_allowed auth \<and>
    consume_tx sample_env sample_request (lit ''a1'') (lit ''ASK-0001'') [] [] 1000 s1 = Inr (auth', s2) \<and>
    \<not> au_allowed auth'"
proof -
  let ?code = "lit ''ASK-0001''"
  have d: "distinct (map ak_code (asks approved_gov))" using sample_gov_ok(3) by (simp add: gov_ok_def)
  have "approval_refusal sample_env sample_request ?code 1000 approved_gov = None"
    using approved_scope sample_scope_matches approved_expiry unfolding approval_refusal_None by blast
  moreover have "fst (consume_resolved_decision approved_gov ?code)"
    unfolding consume_spends_iff[OF d] approved_ask by simp
  ultimately obtain auth s1 where c: "consume_tx sample_env sample_request (lit ''a1'') ?code [] [] 1000
      approved_gov = Inr (auth, s1)" "au_allowed auth"
    using consume_total[OF approved_row, of sample_env ?code sample_request "[]" "[]" 1000] sample_intact
    by (auto simp del: list.map)
  obtain r0 row where r: "rewrote (lit ''a1'') approved_gov s1 r0 row"
    "recorded sample_env approved_gov s1 [lit ''governed.authorized'']"
    using consume_result[OF c(1) d] c(2) by auto
  have i: "verify_chain (ge_mac sample_env) (gaudit s1) = None"
    using recorded_intact[OF r(2)] sample_intact by simp
  have acts: "actions s1 = [row]" and id: "ga_action_id row = lit ''a1''"
    using r(1) approved_row by (auto simp: rewrote_def put_row_def ident_def)
  then have g: "get_row s1 (lit ''a1'') = Some row" by (simp add: get_row_def)
  obtain auth' s2 where c2: "consume_tx sample_env sample_request (lit ''a1'') ?code [] [] 1000 s1
      = Inr (auth', s2)"
    using consume_total[OF g i, of ?code sample_request "[]" "[]" 1000] acts id by auto
  show ?thesis
    using approval_spent_once[OF sample_gov_ok(3) c rtranclp.rtrancl_refl c2] c c2 by blast
qed

end
