(* ===== verification/GovernedRun.thy ===== *)
theory GovernedRun imports GovernedActions begin

text \<open>
  Models how \<open>src/brains/govern/__init__.py\<close> composes its transactions: \<open>_transact\<close>, \<open>authorize\<close> with
  its wait for the operator, \<open>run_governed\<close>, and the execution lease that renews a running attempt.
  What happens around a process is a \<open>gov_sched\<close>: the clock, which commits fail, the random ids, and
  what other processes commit before each step. Filing under a Workspace path is the schedule's
  \<open>sd_workspace_of\<close>; \<open>_notify\<close> does nothing and has no counterpart.
\<close>

section \<open>The world of one process\<close>

datatype fault = Contended | Broken

record gov_sched =
  sd_now :: "nat \<Rightarrow> instant"
  sd_fault :: "nat \<Rightarrow> fault option"
  sd_others :: "nat \<Rightarrow> gov_store \<Rightarrow> gov_store"
  sd_uuid :: "nat \<Rightarrow> nat \<Rightarrow> pystr"
  sd_workspace_of :: "pystr \<Rightarrow> int option"

record 'o gov_world =
  gw_store :: gov_store
  gw_outside :: 'o
  gw_tick :: nat

definition arrive :: "gov_sched \<Rightarrow> 'o gov_world \<Rightarrow> 'o gov_world" where
  "arrive sched w =
     w\<lparr>gw_store := sd_others sched (gw_tick w) (gw_store w), gw_tick := Suc (gw_tick w)\<rparr>"

definition now_at :: "gov_sched \<Rightarrow> 'o gov_world \<Rightarrow> instant" where
  "now_at sched w = sd_now sched (gw_tick w)"

section \<open>Transactions\<close>

definition TRANSACT_ATTEMPTS :: nat where "TRANSACT_ATTEMPTS = 6"

text \<open>Only a unique-index clash raised inside the work is retried; contention is \<open>sd_fault\<close>.\<close>

definition retryable :: "gov_error \<Rightarrow> bool" where
  "retryable e \<longleftrightarrow> e = CodeClash"

fun attempts ::
    "nat \<Rightarrow> gov_sched \<Rightarrow> (instant \<Rightarrow> gov_store \<Rightarrow> gov_error + 'a \<times> gov_store) \<Rightarrow> 'o gov_world
     \<Rightarrow> (gov_error + 'a) \<times> 'o gov_world" where
  "attempts 0 sched work w = (Inl ContentionExhausted, w)"
| "attempts (Suc n) sched work w =
     (let w1 = arrive sched w
      in case work (now_at sched w) (gw_store w1) of
           Inl e \<Rightarrow> if retryable e \<and> n > 0 then attempts n sched work w1 else (Inl e, w1)
         | Inr (x, s') \<Rightarrow>
             (case sd_fault sched (gw_tick w) of
                None \<Rightarrow> (Inr x, w1\<lparr>gw_store := s'\<rparr>)
              | Some Broken \<Rightarrow> (Inl FatalFault, w1)
              | Some Contended \<Rightarrow>
                  if n > 0 then attempts n sched work w1 else (Inl ContentionExhausted, w1)))"

definition transact ::
    "gov_sched \<Rightarrow> (instant \<Rightarrow> gov_store \<Rightarrow> gov_error + 'a \<times> gov_store) \<Rightarrow> 'o gov_world
     \<Rightarrow> (gov_error + 'a) \<times> 'o gov_world" where
  "transact sched work w = attempts TRANSACT_ATTEMPTS sched work w"

text \<open>A transaction whose outcome the caller only needs to have committed.\<close>

definition then_return ::
    "(gov_error + 'a) \<times> 'o gov_world \<Rightarrow> 'b \<Rightarrow> (gov_error + 'b) \<times> 'o gov_world" where
  "then_return r x = (case r of (Inl e, w) \<Rightarrow> (Inl e, w) | (Inr _, w) \<Rightarrow> (Inr x, w))"

section \<open>Authorization\<close>

definition reserve ::
    "gov_sched \<Rightarrow> gov_env \<Rightarrow> gov_request \<Rightarrow> 'o gov_world
     \<Rightarrow> (gov_error + governed_row \<times> bool) \<times> 'o gov_world" where
  "reserve sched env rq w =
     (let key = (if truthy (rq_key rq) then the (rq_key rq)
                 else lit ''auto:'' @ sd_uuid sched (gw_tick w) 0);
          aid = lit ''ga_'' @ take 16 (sd_uuid sched (gw_tick w) 1)
      in case transact sched (reserve_tx env rq key aid) w of
           (Inl e, w1) \<Rightarrow> (Inl e, w1)
         | (Inr (row, replayed, refusal), w1) \<Rightarrow>
             (case refusal of
                Some e \<Rightarrow> (Inl e, w1)
              | None \<Rightarrow> (Inr (row, replayed), w1)))"

definition replay_authorization :: "governed_row \<Rightarrow> authorization" where
  "replay_authorization row =
     \<lparr>au_action_id = ga_action_id row, au_allowed = False, au_status = ga_status row,
      au_decision = ga_decision row, au_tier = ga_tier row, au_approval_code = ga_approval_code row,
      au_reason = lit ''replayed: this idempotency key already completed'', au_replayed = True,
      au_prior_result = ga_result row, au_prior_error = ga_error row\<rparr>"

datatype verdict = TimedOut | Refused pystr | Granted pystr pystr

text \<open>\<open>lower\<close> on the letters a refusal is spelled with.\<close>

definition lower :: "pystr \<Rightarrow> pystr" where
  "lower s = map (\<lambda>c. if 65 \<le> c \<and> c \<le> 90 then c + 32 else c) s"

definition verdict_of :: "decision_state \<Rightarrow> verdict" where
  "verdict_of st =
     (let chosen = (case ds_chosen st of None \<Rightarrow> [] | Some c \<Rightarrow> c);
          reasoning = (case ds_reasoning st of None \<Rightarrow> [] | Some r \<Rightarrow> r)
      in if ds_status st = AskResolved
            \<and> lower (strip chosen) \<notin> {lit ''deny'', lit ''reject'', lit ''no''}
         then Granted chosen reasoning else Refused reasoning)"

text \<open>The wait: read the clock, then what the operator decided meanwhile; \<open>None\<close> is fuel run out.\<close>

fun poll ::
    "nat \<Rightarrow> gov_sched \<Rightarrow> instant \<Rightarrow> pystr \<Rightarrow> 'o gov_world \<Rightarrow> (verdict \<times> 'o gov_world) option" where
  "poll 0 sched deadline code w = None"
| "poll (Suc n) sched deadline code w =
     (if \<not> now_at sched w < deadline then Some (TimedOut, w)
      else
        let w1 = arrive sched w
        in case get_decision (gw_store w1) code of
             None \<Rightarrow> poll n sched deadline code w1
           | Some st \<Rightarrow>
               if ds_status st \<noteq> AskOpen then Some (verdict_of st, w1)
               else poll n sched deadline code w1)"

definition settle_and_answer ::
    "gov_sched \<Rightarrow> gov_env \<Rightarrow> gov_request \<Rightarrow> pystr \<Rightarrow> bool \<Rightarrow> gov_status \<Rightarrow> gov_decision \<Rightarrow> pystr
     \<Rightarrow> pystr \<Rightarrow> pystr option \<Rightarrow> pystr \<Rightarrow> 'o gov_world
     \<Rightarrow> (gov_error + authorization) \<times> 'o gov_world" where
  "settle_and_answer sched env rq aid allowed status decision act reason code answer w =
     then_return (transact sched (settle_tx env rq aid status decision act reason code) w)
       (mk_authorization aid allowed status decision (rq_tier rq) code answer)"

definition conclude ::
    "gov_sched \<Rightarrow> gov_env \<Rightarrow> gov_request \<Rightarrow> pystr \<Rightarrow> pystr \<Rightarrow> verdict \<Rightarrow> 'o gov_world
     \<Rightarrow> (gov_error + authorization) \<times> 'o gov_world" where
  "conclude sched env rq aid code v w =
     (case v of
        TimedOut \<Rightarrow>
          settle_and_answer sched env rq aid False Expired DecideExpired (lit ''governed.denied'')
            (lit ''approval timed out'') (Some code) (lit ''approval timed out'') w
      | Refused reasoning \<Rightarrow>
          let why = (if reasoning = [] then lit ''rejected'' else reasoning)
          in settle_and_answer sched env rq aid False Denied DecideDenied (lit ''governed.denied'')
               why (Some code) why w
      | Granted chosen reasoning \<Rightarrow>
          transact sched (consume_tx env rq aid code chosen reasoning) w)"

definition attributed_workspace :: "gov_sched \<Rightarrow> gov_request \<Rightarrow> int option" where
  "attributed_workspace sched rq =
     (case tg_workspace_id (rq_target rq) of
        Some ws \<Rightarrow> Some ws
      | None \<Rightarrow>
          if truthy (tg_workspace_path (rq_target rq))
          then sd_workspace_of sched (the (tg_workspace_path (rq_target rq))) else None)"

definition gate_outward ::
    "nat \<Rightarrow> gov_sched \<Rightarrow> gov_env \<Rightarrow> gov_request \<Rightarrow> bool \<Rightarrow> instant option \<Rightarrow> pystr \<Rightarrow> int
     \<Rightarrow> 'o gov_world \<Rightarrow> ((gov_error + authorization) \<times> 'o gov_world) option" where
  "gate_outward fuel sched env rq wait timeout aid ws w =
     (let ttl = seconds (approval_ttl_seconds env);
          expires_at = now_at sched w + ttl
      in case transact sched (file_approval_tx env rq aid expires_at ws) w of
           (Inl e, w1) \<Rightarrow> Some (Inl e, w1)
         | (Inr code, w1) \<Rightarrow>
             if \<not> wait
             then Some (Inr (mk_authorization aid False Pending RequireApproval (rq_tier rq)
                    (Some code) (lit ''awaiting operator approval'')), w1)
             else
               let budget = (case timeout of None \<Rightarrow> ttl | Some t \<Rightarrow> t)
               in map_option (\<lambda>(v, w2). conclude sched env rq aid code v w2)
                    (poll fuel sched (now_at sched w1 + budget) code w1))"

definition authorize ::
    "nat \<Rightarrow> gov_sched \<Rightarrow> gov_env \<Rightarrow> gov_request \<Rightarrow> bool \<Rightarrow> instant option \<Rightarrow> 'o gov_world
     \<Rightarrow> ((gov_error + authorization) \<times> 'o gov_world) option" where
  "authorize fuel sched env rq wait timeout w =
     (case reserve sched env rq w of
        (Inl e, w1) \<Rightarrow> Some (Inl e, w1)
      | (Inr (row, replayed), w1) \<Rightarrow>
          let aid = ga_action_id row
          in if replayed then Some (Inr (replay_authorization row), w1)
             else if rq_tier rq = TIER_UNSUPPORTED
             then Some (settle_and_answer sched env rq aid False Denied DecideUnsupported
                    (lit ''governed.denied'')
                    (if rq_summary rq = [] then lit ''unsupported execution path''
                     else rq_summary rq)
                    None (lit ''this execution shape cannot be governed in-process'') w1)
             else if rq_tier rq \<noteq> TIER_OUTWARD
             then Some (settle_and_answer sched env rq aid True Authorized DecideAllow
                    (lit ''governed.allowed'') [] None [] w1)
             else (case attributed_workspace sched rq of
                     None \<Rightarrow>
                       let why = lit ''no Workspace could be attributed, so the approval has no home''
                       in Some (settle_and_answer sched env rq aid False Denied DecideUnsupported
                            (lit ''governed.denied'') why None why w1)
                   | Some ws \<Rightarrow> gate_outward fuel sched env rq wait timeout aid ws w1))"

section \<open>Execution\<close>

record effect_outcome =
  eo_ok :: bool
  eo_result :: "pystr option"
  eo_error :: "pystr option"

record 'v governed_result =
  gr_action_id :: pystr
  gr_allowed :: bool
  gr_status :: gov_status
  gr_decision :: "gov_decision option"
  gr_tier :: string
  gr_approval_code :: "pystr option"
  gr_reason :: pystr
  gr_replayed :: bool
  gr_value :: "'v option"
  gr_error :: "pystr option"

definition refused_result :: "authorization \<Rightarrow> 'v governed_result" where
  "refused_result d =
     \<lparr>gr_action_id = au_action_id d, gr_allowed = False, gr_status = au_status d,
      gr_decision = au_decision d, gr_tier = au_tier d, gr_approval_code = au_approval_code d,
      gr_reason = au_reason d, gr_replayed = au_replayed d, gr_value = None,
      gr_error = (if au_replayed d then au_prior_error d else Some (au_reason d))\<rparr>"

definition executed_result :: "authorization \<Rightarrow> 'v \<Rightarrow> effect_outcome \<Rightarrow> 'v governed_result" where
  "executed_result d v out =
     \<lparr>gr_action_id = au_action_id d, gr_allowed = True,
      gr_status = (if eo_ok out then Succeeded else Failed), gr_decision = au_decision d,
      gr_tier = au_tier d, gr_approval_code = au_approval_code d, gr_reason = [],
      gr_replayed = False, gr_value = Some v, gr_error = eo_error out\<rparr>"

datatype run_error = Refusal gov_error | EffectRaised pystr | SettleRaised pystr

text \<open>
  The effect reads the store and changes the outside; its left results, and those of \<open>settle\<close>, are
  the exceptions it raises.
\<close>

definition execute ::
    "gov_sched \<Rightarrow> gov_env \<Rightarrow> gov_request \<Rightarrow> (gov_store \<Rightarrow> 'o \<Rightarrow> (pystr + 'v) \<times> 'o)
     \<Rightarrow> ('v \<Rightarrow> pystr + effect_outcome) option \<Rightarrow> authorization \<Rightarrow> 'o gov_world
     \<Rightarrow> (run_error + 'v governed_result) \<times> 'o gov_world" where
  "execute sched env rq effect settle d w =
     (let aid = au_action_id d; (r, out) = effect (gw_store w) (gw_outside w);
          w1 = w\<lparr>gw_outside := out\<rparr>
      in case r of
           Inl exc \<Rightarrow>
             (case transact sched (complete_tx env rq aid False None (Some exc)) w1 of
                (Inl e, w2) \<Rightarrow> (Inl (Refusal e), w2)
              | (Inr _, w2) \<Rightarrow> (Inl (EffectRaised exc), w2))
         | Inr v \<Rightarrow>
             (case (case settle of
                      None \<Rightarrow> Inr \<lparr>eo_ok = True, eo_result = None, eo_error = None\<rparr>
                    | Some f \<Rightarrow> f v) of
                Inl exc \<Rightarrow> (Inl (SettleRaised exc), w1)
              | Inr o' \<Rightarrow>
                  (case transact sched
                          (complete_tx env rq aid (eo_ok o') (eo_result o') (eo_error o')) w1 of
                     (Inl e, w2) \<Rightarrow> (Inl (Refusal e), w2)
                   | (Inr _, w2) \<Rightarrow> (Inr (executed_result d v o'), w2))))"

definition run_governed ::
    "nat \<Rightarrow> gov_sched \<Rightarrow> gov_env \<Rightarrow> gov_request \<Rightarrow> (gov_store \<Rightarrow> 'o \<Rightarrow> (pystr + 'v) \<times> 'o)
     \<Rightarrow> bool \<Rightarrow> instant option \<Rightarrow> ('v \<Rightarrow> pystr + effect_outcome) option \<Rightarrow> 'o gov_world
     \<Rightarrow> ((run_error + 'v governed_result) \<times> 'o gov_world) option" where
  "run_governed fuel sched env rq effect wait timeout settle w =
     (case authorize fuel sched env rq wait timeout w of
        None \<Rightarrow> None
      | Some (Inl e, w1) \<Rightarrow> Some (Inl (Refusal e), w1)
      | Some (Inr d, w1) \<Rightarrow>
          if \<not> au_allowed d then Some (Inr (refused_result d), w1)
          else (case transact sched (mark_executing_tx env rq (au_action_id d)) w1 of
                  (Inl e, w2) \<Rightarrow> Some (Inl (Refusal e), w2)
                | (Inr attempt, w2) \<Rightarrow> Some (execute sched env rq effect settle d w2)))"

section \<open>Reporting\<close>

text \<open>SQLite's \<open>LIKE\<close>: percent, underscore, and ASCII letters in either case.\<close>

fun like :: "pystr \<Rightarrow> pystr \<Rightarrow> bool" where
  "like [] s \<longleftrightarrow> s = []"
| "like (p # ps) [] \<longleftrightarrow> p = 37 \<and> like ps []"
| "like (p # ps) (c # cs) \<longleftrightarrow>
     (if p = 37 then like ps (c # cs) \<or> like (p # ps) cs
      else (p = 95 \<or> lower [p] = lower [c]) \<and> like ps cs)"

definition get_governed_action :: "gov_store \<Rightarrow> pystr \<Rightarrow> governed_row option" where
  "get_governed_action s aid = get_row s aid"

definition list_governed_actions ::
    "int \<Rightarrow> gov_status option \<Rightarrow> pystr option \<Rightarrow> pystr option \<Rightarrow> gov_store \<Rightarrow> governed_row list" where
  "list_governed_actions limit status actor action_prefix s =
     (let n = max 1 (min limit 500)
      in take (nat n)
           (rev (sort_key ga_id
             (filter (\<lambda>r. (case status of None \<Rightarrow> True | Some st \<Rightarrow> ga_status r = st)
                \<and> (truthy actor \<longrightarrow> ga_actor r = the actor)
                \<and> (truthy action_prefix \<longrightarrow> like (the action_prefix @ [37]) (ga_action r)))
               (actions s)))))"

section \<open>The execution lease\<close>

datatype beat_outcome = BeatRaised pystr | Renewed | NotRenewed pystr

record lease =
  le_action_id :: pystr
  le_attempt :: int
  le_beats :: nat
  le_failures :: nat
  le_lost :: bool
  le_last_error :: "pystr option"
  le_stopped_reason :: "pystr option"
  le_interval :: "rat option"
  le_stop_set :: bool
  le_running :: bool

definition new_lease :: "pystr \<Rightarrow> int \<Rightarrow> rat option \<Rightarrow> lease" where
  "new_lease aid attempt every =
     \<lparr>le_action_id = aid, le_attempt = attempt, le_beats = 0, le_failures = 0, le_lost = False,
      le_last_error = None, le_stopped_reason = None, le_interval = every,
      le_stop_set = False, le_running = False\<rparr>"

definition lease_interval :: "gov_env \<Rightarrow> lease \<Rightarrow> rat" where
  "lease_interval env l = (case le_interval l of None \<Rightarrow> heartbeat_seconds env | Some i \<Rightarrow> i)"

definition healthy :: "lease \<Rightarrow> bool" where
  "healthy l \<longleftrightarrow> le_failures l = 0 \<and> \<not> le_lost l"

definition start_lease :: "lease \<Rightarrow> lease" where
  "start_lease l = (if le_running l then l else l\<lparr>le_running := True\<rparr>)"

definition beat_once :: "beat_outcome \<Rightarrow> lease \<Rightarrow> bool \<times> lease" where
  "beat_once b l =
     (case b of
        BeatRaised why \<Rightarrow>
          (\<not> le_stop_set l, l\<lparr>le_failures := le_failures l + 1, le_last_error := Some why\<rparr>)
      | Renewed \<Rightarrow>
          (True, l\<lparr>le_beats := le_beats l + 1, le_failures := 0, le_last_error := None\<rparr>)
      | NotRenewed why \<Rightarrow> (False, l\<lparr>le_stopped_reason := Some why, le_lost := True\<rparr>))"

text \<open>The loop over the beats that fall due before the stop event, and how many it made.\<close>

fun beat_loop :: "beat_outcome list \<Rightarrow> lease \<Rightarrow> nat \<times> lease" where
  "beat_loop [] l = (0, l)"
| "beat_loop (b # bs) l =
     (if le_stop_set l then (0, l)
      else let (go, l1) = beat_once b l
           in if go then (let (n, l2) = beat_loop bs l1 in (Suc n, l2)) else (1, l1))"

definition stop_lease :: "pystr option \<Rightarrow> lease \<Rightarrow> lease" where
  "stop_lease reason l =
     l\<lparr>le_stop_set := True, le_running := False,
       le_stopped_reason :=
         (if truthy reason \<and> le_stopped_reason l = None then reason else le_stopped_reason l)\<rparr>"

text \<open>What one renewal against the store answers, as the lease sees it.\<close>

definition store_beat :: "instant \<Rightarrow> gov_store \<Rightarrow> lease \<Rightarrow> beat_outcome \<times> gov_store" where
  "store_beat now s l =
     (case heartbeat_tx (le_action_id l) (le_attempt l) now s of
        Inl _ \<Rightarrow> (BeatRaised [], s)
      | Inr (ok, s') \<Rightarrow>
          (if ok then Renewed
           else NotRenewed (lit ''governed action '' @ le_action_id l
             @ lit '' is no longer executing attempt '' @ str_of_int (le_attempt l)
             @ lit ''; the lease is not renewable''), s'))"

section \<open>What a transaction leaves\<close>

text \<open>The commits of others over \<open>n\<close> ticks from \<open>t\<close>.\<close>

fun others_over :: "gov_sched \<Rightarrow> nat \<Rightarrow> nat \<Rightarrow> gov_store \<Rightarrow> gov_store" where
  "others_over sched t 0 s = s"
| "others_over sched t (Suc n) s = others_over sched (Suc t) n (sd_others sched t s)"

lemma arrive_simps [simp]:
  "gw_store (arrive sched w) = sd_others sched (gw_tick w) (gw_store w)"
  "gw_tick (arrive sched w) = Suc (gw_tick w)" "gw_outside (arrive sched w) = gw_outside w"
  by (simp_all add: arrive_def)

text \<open>A committed run, or one that left only what others committed.\<close>

definition committed :: "gov_sched \<Rightarrow> (instant \<Rightarrow> gov_store \<Rightarrow> gov_error + 'a \<times> gov_store) \<Rightarrow>
    'o gov_world \<Rightarrow> nat \<Rightarrow> gov_error + 'a \<Rightarrow> 'o gov_world \<Rightarrow> bool" where
  "committed sched work w n r w' \<longleftrightarrow>
     gw_outside w' = gw_outside w \<and> gw_tick w' = gw_tick w + n \<and>
     (let s0 = others_over sched (gw_tick w) n (gw_store w); t = gw_tick w + n - 1
      in case r of
           Inr x \<Rightarrow> 0 < n \<and> sd_fault sched t = None \<and> work (sd_now sched t) s0 = Inr (x, gw_store w')
         | Inl e \<Rightarrow> gw_store w' = s0)"

lemma committed_arrive:
  "committed sched work (arrive sched w) n r w' \<Longrightarrow> committed sched work w (Suc n) r w'"
  by (auto simp: committed_def Let_def split: sum.splits)

lemma attempts_committed:
  "attempts k sched work w = (r, w') \<Longrightarrow> \<exists>n\<le>k. committed sched work w n r w'"
proof (induction k arbitrary: w)
  case 0
  then show ?case by (auto simp: committed_def)
next
  case (Suc k)
  let ?w1 = "arrive sched w"
  have retry: ?case if "attempts k sched work ?w1 = (r, w')"
    using Suc.IH[OF that] committed_arrive by (metis Suc_le_mono)
  have stop: ?case if "r = Inl e" "w' = ?w1" for e
    using that by (intro exI[of _ 1]) (simp add: committed_def)
  show ?case
  proof (cases "work (now_at sched w) (gw_store ?w1)")
    case (Inl e)
    then show ?thesis using Suc.prems retry stop by (auto simp: Let_def split: if_splits)
  next
    case (Inr y)
    then obtain x s' where y: "work (now_at sched w) (gw_store ?w1) = Inr (x, s')" by (cases y) auto
    show ?thesis
    proof (cases "sd_fault sched (gw_tick w)")
      case None
      then have "r = Inr x" "w' = ?w1\<lparr>gw_store := s'\<rparr>" using Suc.prems y by (auto simp: Let_def)
      then show ?thesis
        using y None by (intro exI[of _ 1]) (simp add: committed_def now_at_def)
    next
      case (Some f)
      then show ?thesis
        using Suc.prems y retry stop by (cases f) (auto simp: Let_def split: if_splits)
    qed
  qed
qed

lemma transact_committed:
  "transact sched work w = (r, w') \<Longrightarrow> \<exists>n\<le>TRANSACT_ATTEMPTS. committed sched work w n r w'"
  unfolding transact_def by (rule attempts_committed)

lemma transact_outside: "transact sched work w = (r, w') \<Longrightarrow> gw_outside w' = gw_outside w"
  using transact_committed by (fastforce simp: committed_def)

text \<open>A fault-free attempt after contended ones commits.\<close>

lemma attempts_progress:
  assumes "i < k" and "\<forall>j<i. sd_fault sched (gw_tick w + j) = Some Contended"
    and "sd_fault sched (gw_tick w + i) = None"
    and "\<And>now s. \<exists>x s'. work now s = Inr (x, s')"
  shows "\<exists>x w'. attempts k sched work w = (Inr x, w')"
  using assms(1-3)
proof (induction i arbitrary: k w)
  case 0
  then obtain m where "k = Suc m" by (cases k) auto
  moreover obtain x s' where "work (now_at sched w) (gw_store (arrive sched w)) = Inr (x, s')"
    using assms(4) by blast
  ultimately show ?case using 0 by simp
next
  case (Suc i)
  then obtain m where k: "k = Suc m" "0 < m" "i < m" by (cases k) auto
  obtain x s' where y: "work (now_at sched w) (gw_store (arrive sched w)) = Inr (x, s')"
    using assms(4) by blast
  have f: "sd_fault sched (gw_tick w) = Some Contended" using Suc.prems(2) by fastforce
  have "\<forall>j<i. sd_fault sched (gw_tick (arrive sched w) + j) = Some Contended"
    "sd_fault sched (gw_tick (arrive sched w) + i) = None"
    using Suc.prems(2,3) by auto
  from Suc.IH[OF k(3) this] show ?case using k y f by simp
qed

text \<open>\<open>_transact\<close> is all or nothing. It runs at most six attempts; a failure leaves exactly what
  other processes committed meanwhile, a success applied the work once to that and committed in a
  fault-free attempt; nothing outside the store is touched; and work that succeeds whenever it is
  run is committed if after contention only an attempt of the six is fault-free.\<close>

theorem transact_atomic:
  assumes "transact sched work w = (r, w')"
  shows "\<exists>n\<le>6. gw_outside w' = gw_outside w \<and> gw_tick w' = gw_tick w + n \<and>
        (case r of
           Inl e \<Rightarrow> gw_store w' = others_over sched (gw_tick w) n (gw_store w)
         | Inr x \<Rightarrow> sd_fault sched (gw_tick w + n - 1) = None \<and>
             work (sd_now sched (gw_tick w + n - 1)) (others_over sched (gw_tick w) n (gw_store w))
               = Inr (x, gw_store w')) \<and>
        ((\<forall>now s. \<exists>x s'. work now s = Inr (x, s')) \<and>
         (\<exists>i<6. (\<forall>j<i. sd_fault sched (gw_tick w + j) = Some Contended) \<and>
            sd_fault sched (gw_tick w + i) = None) \<longrightarrow> (\<exists>x. r = Inr x))"
proof -
  obtain n where n: "n \<le> 6" "committed sched work w n r w'"
    using transact_committed[OF assms] by (auto simp: TRANSACT_ATTEMPTS_def)
  have "\<exists>x. r = Inr x" if total: "\<forall>now s. \<exists>x s'. work now s = Inr (x, s')"
    and clear: "\<exists>i<6. (\<forall>j<i. sd_fault sched (gw_tick w + j) = Some Contended) \<and> sd_fault sched (gw_tick w + i) = None"
  proof -
    obtain i where "i < 6" "\<forall>j<i. sd_fault sched (gw_tick w + j) = Some Contended"
      "sd_fault sched (gw_tick w + i) = None" using clear by blast
    then have "\<exists>x w'. attempts 6 sched work w = (Inr x, w')" using attempts_progress total by blast
    then show ?thesis using assms by (simp add: transact_def TRANSACT_ATTEMPTS_def)
  qed
  then show ?thesis
    using n by (intro exI[of _ n]) (auto simp: committed_def Let_def split: sum.splits)
qed

section \<open>Runs are sequences of steps\<close>

definition sched_ok :: "gov_env \<Rightarrow> gov_sched \<Rightarrow> bool" where
  "sched_ok env sched \<longleftrightarrow> (\<forall>t s. (gov_step env)\<^sup>*\<^sup>* s (sd_others sched t s))"

lemma others_steps: "sched_ok env sched \<Longrightarrow> (gov_step env)\<^sup>*\<^sup>* s (others_over sched t n s)"
proof (induction n arbitrary: t s)
  case (Suc n)
  have "(gov_step env)\<^sup>*\<^sup>* s (sd_others sched t s)" using Suc.prems by (simp add: sched_ok_def)
  then show ?case using Suc.IH[OF Suc.prems] by (simp add: rtranclp_trans)
qed simp

text \<open>What a committed transaction did, between what others committed.\<close>

lemma transact_Inr:
  assumes "transact sched work w = (Inr x, w')" and "sched_ok env sched"
  obtains s0 now where "(gov_step env)\<^sup>*\<^sup>* (gw_store w) s0" "work now s0 = Inr (x, gw_store w')"
    "gw_outside w' = gw_outside w"
proof -
  obtain n where c: "committed sched work w n (Inr x) w'" using transact_committed[OF assms(1)] by blast
  then show thesis
    using that[OF others_steps[OF assms(2)]] by (auto simp: committed_def Let_def)
qed

lemma transact_steps:
  assumes "transact sched work w = (r, w')" and "sched_ok env sched"
    and "\<And>now s x s'. work now s = Inr (x, s') \<Longrightarrow> gov_step env s s'"
  shows "(gov_step env)\<^sup>*\<^sup>* (gw_store w) (gw_store w')"
proof -
  obtain n where c: "committed sched work w n r w'" using transact_committed[OF assms(1)] by blast
  have o: "(gov_step env)\<^sup>*\<^sup>* (gw_store w) (others_over sched (gw_tick w) n (gw_store w))"
    by (rule others_steps[OF assms(2)])
  show ?thesis
  proof (cases r)
    case (Inl e)
    then show ?thesis using c o by (simp add: committed_def Let_def)
  next
    case (Inr x)
    then have "gov_step env (others_over sched (gw_tick w) n (gw_store w)) (gw_store w')"
      using c assms(3) by (auto simp: committed_def Let_def)
    then show ?thesis using o by (rule rtranclp.rtrancl_into_rtrancl[rotated])
  qed
qed

lemma then_return_cases:
  assumes "then_return (transact sched work w) x = (r, w')"
  obtains r0 where "transact sched work w = (r0, w')" "r = (case r0 of Inl e \<Rightarrow> Inl e | Inr _ \<Rightarrow> Inr x)"
  using assms by (cases "transact sched work w") (auto simp: then_return_def split: sum.splits)

lemma settle_and_answer_steps:
  assumes "settle_and_answer sched env rq aid allowed status decision act reason code answer w = (r, w')"
    and "sched_ok env sched" and "act \<noteq> INIT_ACTION"
  shows "gw_outside w' = gw_outside w \<and> (gov_step env)\<^sup>*\<^sup>* (gw_store w) (gw_store w') \<and>
    (\<forall>d. r = Inr d \<longrightarrow> au_allowed d = allowed \<and> au_action_id d = aid)"
  using assms(1) unfolding settle_and_answer_def
proof (rule then_return_cases)
  fix r0
  assume t: "transact sched (settle_tx env rq aid status decision act reason code) w = (r0, w')"
    and r: "r = (case r0 of Inl e \<Rightarrow> Inl e
        | Inr _ \<Rightarrow> Inr (mk_authorization aid allowed status decision (rq_tier rq) code answer))"
  have "(gov_step env)\<^sup>*\<^sup>* (gw_store w) (gw_store w')"
    by (rule transact_steps[OF t assms(2)]) (rule by_settle[OF assms(3)])
  then show ?thesis using transact_outside[OF t] r by (cases r0) (auto simp: mk_authorization_def)
qed

text \<open>
  The approval a run asks for and spends. It is filed under a code no approval had, names the run's
  own action, and is open; at the transaction that spends it it is resolved and its scope and window
  match the request; and that transaction authorizes the very action under this code.
\<close>

definition filed_for :: "gov_env \<Rightarrow> pystr \<Rightarrow> pystr \<Rightarrow> gov_store \<Rightarrow> gov_store \<Rightarrow> bool" where
  "filed_for env aid code s s' \<longleftrightarrow> gov_step env s s' \<and> code \<notin> set (map ak_code (asks s)) \<and>
     (\<exists>ask md. get_ask s' code = Some ask \<and> ak_status ask = AskOpen \<and> ak_metadata ask = Some (JDict md) \<and>
        member_value md (lit ''action_id'') = Some (JStr aid))"

definition spent_for :: "gov_env \<Rightarrow> gov_request \<Rightarrow> pystr \<Rightarrow> pystr \<Rightarrow> gov_store \<Rightarrow> gov_store \<Rightarrow> bool" where
  "spent_for env rq aid code s s' \<longleftrightarrow> gov_step env s s' \<and> consumed s' code \<and>
     (\<exists>ask now row. get_ask s code = Some ask \<and> ak_status ask = AskResolved \<and>
        approval_refusal env rq code now s = None \<and>
        get_row s' aid = Some row \<and> ga_status row = Authorized \<and> ga_approval_code row = Some code)"

definition own_approval :: "gov_env \<Rightarrow> gov_request \<Rightarrow> pystr \<Rightarrow> pystr \<Rightarrow> gov_store \<Rightarrow> gov_store \<Rightarrow> bool" where
  "own_approval env rq aid code s s' \<longleftrightarrow>
     (\<exists>s1 s2 s3 s4. (gov_step env)\<^sup>*\<^sup>* s s1 \<and> filed_for env aid code s1 s2 \<and> (gov_step env)\<^sup>*\<^sup>* s2 s3 \<and>
        spent_for env rq aid code s3 s4 \<and> (gov_step env)\<^sup>*\<^sup>* s4 s')"

lemma own_approval_later:
  "own_approval env rq aid code s s' \<Longrightarrow> (gov_step env)\<^sup>*\<^sup>* s0 s \<Longrightarrow> (gov_step env)\<^sup>*\<^sup>* s' s'' \<Longrightarrow>
     own_approval env rq aid code s0 s''"
  unfolding own_approval_def by (meson rtranclp_trans)

lemma own_approval_consumed:
  "own_approval env rq aid code s s' \<Longrightarrow> gov_ok s \<Longrightarrow> consumed s' code"
  unfolding own_approval_def filed_for_def spent_for_def
  by (meson consumed_forever gov_steps_ok r_into_rtranclp)

lemma rewrote_get: "rewrote aid s s' r0 row \<Longrightarrow> get_row s' aid = Some row"
  using get_put_row[of s aid r0 row] get_row_Some[of s aid r0]
  by (simp add: rewrote_def ident_def get_row_def)

lemma filing_files:
  assumes "file_approval_tx env rq aid expires ws now s = Inr (code, s')"
  shows "filed_for env aid code s s'"
proof -
  obtain ask where a: "asks s' = asks s @ [ask]" "ak_code ask = code" "ak_status ask = AskOpen"
    "ak_metadata ask = Some (JDict (merge_members (scope env rq)
      [(lit ''expires_at'', JStr (isoformat expires)), (lit ''action_id'', JStr aid),
       (lit ''kind'', JStr (lit ''governed_action''))]))" "code \<notin> set (map ak_code (asks s))"
    using file_approval_result[OF assms] by blast
  have "row_by ak_code code (asks s) = None" using a(5) by (simp add: row_by_None)
  then have "get_ask s' code = Some ask" using a(1,2) by (simp add: get_ask_def row_by_append)
  then show ?thesis
    using a by_filing[OF assms]
    by (simp add: filed_for_def member_value_def map_of_merge_members)
qed

lemma consume_action:
  "consume_tx env rq aid code chosen reasoning now s = Inr (auth, s') \<Longrightarrow>
     au_action_id auth = aid \<and> au_approval_code auth = Some code"
  by (auto simp: consume_tx_def Let_def result_simps mk_authorization_def simp del: list.map
      split: option.splits if_splits prod.splits)

lemma consume_spends:
  assumes "consume_tx env rq aid code chosen reasoning now s = Inr (auth, s')" and "au_allowed auth" and "gov_ok s"
  shows "spent_for env rq aid code s s'"
proof -
  have d: "distinct (map ak_code (asks s))" using assms(3) by (simp add: gov_ok_def)
  from consume_result[OF assms(1) d] obtain r0 row ask where c: "rewrote aid s s' r0 row" "get_ask s code = Some ask"
      "ak_status ask = AskResolved" "approval_refusal env rq code now s = None" "ga_status row = Authorized"
      "ga_approval_code row = Some code"
    and u: "asks s' = update_where (\<lambda>r. ak_code r = code) (\<lambda>r. r\<lparr>ak_status := AskConsumed\<rparr>) (asks s)"
    unfolding if_P[OF assms(2)] by blast
  show ?thesis
    using c rewrote_get[OF c(1)] consumed_after[OF c(2) u] by_consume[OF assms(1)] unfolding spent_for_def by blast
qed

lemma conclude_steps:
  assumes "conclude sched env rq aid code v w = (r, w')" and "sched_ok env sched"
    and "gov_ok (gw_store w)"
  shows "gw_outside w' = gw_outside w \<and> (gov_step env)\<^sup>*\<^sup>* (gw_store w) (gw_store w') \<and>
    (\<forall>d. r = Inr d \<longrightarrow> au_allowed d \<longrightarrow> au_action_id d = aid \<and> au_approval_code d = Some code \<and>
       (\<exists>s0. (gov_step env)\<^sup>*\<^sup>* (gw_store w) s0 \<and> spent_for env rq aid code s0 (gw_store w')))"
proof (cases v)
  case (Granted chosen reasoning)
  then have t: "transact sched (consume_tx env rq aid code chosen reasoning) w = (r, w')"
    using assms(1) by (simp add: conclude_def)
  have "(gov_step env)\<^sup>*\<^sup>* (gw_store w) (gw_store w')"
    by (rule transact_steps[OF t assms(2)]) (rule by_consume)
  moreover have "au_action_id d = aid \<and> au_approval_code d = Some code \<and>
       (\<exists>s0. (gov_step env)\<^sup>*\<^sup>* (gw_store w) s0 \<and> spent_for env rq aid code s0 (gw_store w'))"
    if r: "r = Inr d" and a: "au_allowed d" for d
  proof (rule transact_Inr[OF t[unfolded r] assms(2)])
    fix s0 now
    assume s0: "(gov_step env)\<^sup>*\<^sup>* (gw_store w) s0"
      "consume_tx env rq aid code chosen reasoning now s0 = Inr (d, gw_store w')"
    show ?thesis
      using s0(1) consume_action[OF s0(2)] consume_spends[OF s0(2) a gov_steps_ok[OF s0(1) assms(3)]] by blast
  qed
  ultimately show ?thesis using transact_outside[OF t] by blast
qed (use assms(1,2) in \<open>auto simp: conclude_def Let_def simp del: list.map dest!: settle_and_answer_steps\<close>)

lemma poll_steps:
  "poll n sched deadline code w = Some (v, w') \<Longrightarrow> sched_ok env sched \<Longrightarrow>
     gw_outside w' = gw_outside w \<and> (gov_step env)\<^sup>*\<^sup>* (gw_store w) (gw_store w')"
proof (induction n arbitrary: w)
  case (Suc n)
  have s: "(gov_step env)\<^sup>*\<^sup>* (gw_store w) (gw_store (arrive sched w))"
    using Suc.prems(2) by (simp add: sched_ok_def)
  have here: ?case if "w' = arrive sched w" using that s by simp
  have more: ?case if "poll n sched deadline code (arrive sched w) = Some (v, w')"
    using Suc.IH[OF that Suc.prems(2)] s by (auto intro: rtranclp_trans)
  show ?case
    using Suc.prems(1) here more by (auto simp: Let_def split: if_splits option.splits)
qed simp

lemma gate_outward_steps:
  assumes "gate_outward fuel sched env rq wait timeout aid ws w = Some (r, w')" and "sched_ok env sched"
    and "gov_ok (gw_store w)"
  shows "gw_outside w' = gw_outside w \<and> (gov_step env)\<^sup>*\<^sup>* (gw_store w) (gw_store w') \<and>
    (\<forall>d. r = Inr d \<longrightarrow> au_allowed d \<longrightarrow> wait \<and> au_action_id d = aid \<and>
       (\<exists>code. au_approval_code d = Some code \<and> own_approval env rq aid code (gw_store w) (gw_store w')))"
proof -
  define tx where "tx = file_approval_tx env rq aid (now_at sched w + seconds (approval_ttl_seconds env)) ws"
  obtain f w1 where f: "transact sched tx w = (f, w1)" by fastforce
  have s1: "(gov_step env)\<^sup>*\<^sup>* (gw_store w) (gw_store w1)"
    by (rule transact_steps[OF f assms(2)]) (unfold tx_def, rule by_filing)
  note o1 = transact_outside[OF f]
  note run = assms(1)[unfolded gate_outward_def Let_def, folded tx_def, unfolded f prod.case]
  show ?thesis
  proof (cases f)
    case (Inl e)
    then show ?thesis using run s1 o1 by auto
  next
    case (Inr code)
    show ?thesis
    proof (cases wait)
      case False
      then show ?thesis using run s1 o1 Inr by (auto simp: mk_authorization_def)
    next
      case True
      then obtain v w2 where p: "poll fuel sched (now_at sched w1 + (case timeout of
          None \<Rightarrow> seconds (approval_ttl_seconds env) | Some t \<Rightarrow> t)) code w1 = Some (v, w2)"
        and c: "conclude sched env rq aid code v w2 = (r, w')"
        using run Inr by (auto simp del: list.map)
      note p2 = poll_steps[OF p assms(2)]
      have s2: "(gov_step env)\<^sup>*\<^sup>* (gw_store w) (gw_store w2)" using s1 p2 by (auto intro: rtranclp_trans)
      note c2 = conclude_steps[OF c assms(2) gov_steps_ok[OF s2 assms(3)]]
      have "own_approval env rq aid code (gw_store w) (gw_store w')"
        if s0: "(gov_step env)\<^sup>*\<^sup>* (gw_store w2) s0" "spent_for env rq aid code s0 (gw_store w')" for s0
      proof (rule transact_Inr[OF f[unfolded Inr] assms(2)])
        fix s00 now
        assume g: "(gov_step env)\<^sup>*\<^sup>* (gw_store w) s00" "tx now s00 = Inr (code, gw_store w1)"
        have "filed_for env aid code s00 (gw_store w1)" using g(2) unfolding tx_def by (rule filing_files)
        moreover have "(gov_step env)\<^sup>*\<^sup>* (gw_store w1) s0" using p2 s0(1) by (auto intro: rtranclp_trans)
        ultimately show ?thesis using g(1) s0(2) unfolding own_approval_def by blast
      qed
      then show ?thesis using c2 p2 o1 s2 True by (auto intro: rtranclp_trans)
    qed
  qed
qed

text \<open>The key a run reserves under, and the action that holds it.\<close>

definition run_key :: "gov_sched \<Rightarrow> gov_request \<Rightarrow> 'o gov_world \<Rightarrow> pystr" where
  "run_key sched rq w =
     (if truthy (rq_key rq) then the (rq_key rq) else lit ''auto:'' @ sd_uuid sched (gw_tick w) 0)"

definition keyed :: "pystr \<Rightarrow> pystr \<Rightarrow> gov_store \<Rightarrow> bool" where
  "keyed k aid s \<longleftrightarrow> (\<exists>r. get_row s aid = Some r \<and> ga_key r = k)"

lemma keyed_rewrote:
  assumes "rewrote aid s s' r0 row" and "keyed k aid s"
  shows "get_row s' aid = Some row \<and> ga_key row = k"
  using assms get_put_row[of s aid r0 row] get_row_Some[of s aid r0]
  by (auto simp: rewrote_def ident_def keyed_def get_row_def)

lemma keyed_rewrote': "rewrote aid s s' r0 row \<Longrightarrow> keyed k aid s \<Longrightarrow> keyed k aid s'"
  using keyed_rewrote unfolding keyed_def by blast

lemma keyed_of_rewrote:
  assumes "rewrote aid' s s' r0 row" and "keyed k aid s"
  shows "keyed k aid s'"
proof (cases "aid' = aid")
  case True
  then show ?thesis using keyed_rewrote' assms by blast
next
  case False
  have "ga_action_id row = aid'" "actions s' = actions (put_row aid' row s)"
    using assms(1) get_row_Some[of s aid' r0] by (auto simp: rewrote_def ident_def)
  then have "get_row s' aid = get_row s aid"
    using False by (simp add: get_row_def put_row_def row_by_update_other)
  then show ?thesis using assms(2) by (simp add: keyed_def)
qed

lemma keyed_mapped:
  assumes "actions s' = map f (actions s)" and "\<And>r. ident (f r) = ident r" and "keyed k aid s"
  shows "keyed k aid s'"
  using assms get_row_map[of f aid "actions s"] by (auto simp: keyed_def get_row_def ident_def)

lemma keyed_same: "actions s' = actions s \<Longrightarrow> keyed k aid s \<Longrightarrow> keyed k aid s'"
  by (simp add: keyed_def get_row_def)

lemma reserve_keyed:
  assumes "reserve_tx env rq k aid now s = Inr ((row, False, None), s')" and "gov_ok s"
  shows "keyed k (ga_action_id row) s'"
  using assms(2,1)
proof (cases rule: reserve_cases)
  case fresh
  note acts = fresh_actions[OF fresh(9) _ fresh(7)]
  obtain eid where "row = (new_row env rq k aid now s)\<lparr>ga_audit_request_id := Some eid\<rparr>"
    using fresh(8) by blast
  then have r: "ga_action_id row = aid" "ga_key row = k" by (simp_all add: new_row_def)
  have "actions s' = actions s @ [row]" by (rule acts) (simp add: new_row_def)
  moreover have "row_by ga_action_id aid (actions s) = None" using fresh(9) by (auto simp: row_by_None)
  ultimately have "get_row s' aid = Some row" using r by (simp add: get_row_def row_by_append)
  then show ?thesis using r by (simp add: keyed_def)
next
  case (resumed r)
  note k = key_row[OF assms(2) resumed(1)]
  note rr = resume_result[OF assms(2) resumed(1,3)]
  have id: "ga_action_id row = ga_action_id r" "ga_key row = k" using rr k(3) by (simp_all add: ident_def)
  have "get_row s' (ga_action_id r) = Some row"
    using rr get_put_row[OF k(2) id(1)] by (simp add: get_row_def)
  then show ?thesis using id by (simp add: keyed_def)
qed simp

lemma rewriting:
  "settle_tx env rq aid status decision act reason code now s = Inr (u, s') \<Longrightarrow> \<exists>r0 row. rewrote aid s s' r0 row"
  "file_approval_tx env rq aid expires ws now s = Inr (c, s') \<Longrightarrow> \<exists>r0 row. rewrote aid s s' r0 row"
  "mark_executing_tx env rq aid now s = Inr (n, s') \<Longrightarrow> \<exists>r0 row. rewrote aid s s' r0 row"
  "release_tx env rq aid handoff now s = Inr (u, s') \<Longrightarrow> \<exists>r0 row. rewrote aid s s' r0 row"
  "complete_tx env rq aid ok res err now s = Inr (u, s') \<Longrightarrow> \<exists>r0 row. rewrote aid s s' r0 row"
  by ((drule settle_result | drule file_approval_result | drule mark_executing_result | drule release_result
        | drule complete_result), blast)+

text \<open>No transaction takes a row away or gives it another key.\<close>

lemma keyed_step:
  assumes "gov_step env s s'" and "gov_ok s" and "keyed k aid s"
  shows "keyed k aid s'"
  using assms(1)
proof cases
  case (by_reserve rq key aid' now x)
  obtain row replayed refusal where x: "x = (row, replayed, refusal)" by (metis prod_cases3)
  show ?thesis
    using assms(2) by_reserve[unfolded x]
  proof (cases rule: reserve_cases)
    case fresh
    have "actions s' = actions s @ [row]"
      by (rule fresh_actions[OF fresh(9) _ fresh(7)]) (simp add: new_row_def)
    then show ?thesis using assms(3) by (auto simp: keyed_def get_row_def row_by_append)
  next
    case (resumed r)
    note rr = resume_result[OF assms(2) resumed(1,3)] and kr = key_row[OF assms(2) resumed(1)]
    have id: "ga_action_id row = ga_action_id r" "ga_key row = ga_key r" using rr by (simp_all add: ident_def)
    show ?thesis
    proof (cases "aid = ga_action_id r")
      case True
      have "get_row s' aid = Some row"
        using rr get_put_row[OF kr(2) id(1)] True by (simp add: get_row_def)
      then show ?thesis using assms(3) kr(2) id(2) True by (auto simp: keyed_def)
    next
      case False
      then have "get_row s' aid = get_row s aid"
        using rr id(1) by (simp add: get_row_def put_row_def row_by_update_other)
      then show ?thesis using assms(3) by (simp add: keyed_def)
    qed
  qed (use assms(3) keyed_same in blast)
next
  case (by_consume rq aid' code chosen reasoning now auth)
  have "distinct (map ak_code (asks s))" using assms(2) by (simp add: gov_ok_def)
  from consume_result[OF by_consume this] show ?thesis using keyed_of_rewrote assms(3) by blast
next
  case (by_heartbeat aid' attempt now ok)
  show ?thesis
    using heartbeat_result(1)[OF by_heartbeat] assms(3)
    by (intro keyed_mapped[of s' "\<lambda>r. if ga_action_id r = aid' \<and> ga_status r = Executing \<and> ga_attempt r = attempt
        then r\<lparr>ga_heartbeat_at := Some now\<rparr> else r"]) (auto simp: update_where_def ident_def)
next
  case (by_sweep moment now n)
  show ?thesis
    using sweep_result(1)[OF assms(2) by_sweep] assms(3)
    by (intro keyed_mapped[of s' "\<lambda>r. if ga_status r \<in> set IN_FLIGHT \<and> sweepable env moment r
        then swept moment r else r"]) (auto simp: swept_def ident_def split: prod.splits)
next
  case (by_resolve now code chosen reasoning status p resolving r)
  have "actions s' = actions s"
    using by_resolve by (cases r) (auto dest: resolve_decision_Inl elim: resolve_decision_Inr)
  then show ?thesis using assms(3) by (rule keyed_same)
next
  case (by_request ws title body proposed sid metadata now code)
  then have "actions s' = actions s"
    using create_request_result[of ws title body proposed sid metadata now s] by auto
  then show ?thesis using assms(3) by (rule keyed_same)
qed (drule rewriting, use assms(3) keyed_of_rewrote in blast)+

lemma keyed_steps: "(gov_step env)\<^sup>*\<^sup>* s s' \<Longrightarrow> gov_ok s \<Longrightarrow> keyed k aid s \<Longrightarrow> keyed k aid s'"
proof (induction rule: rtranclp_induct)
  case (step y z)
  then show ?case using keyed_step[OF step(2)] gov_steps_ok[OF step(1)] by blast
qed

lemma reserve_steps:
  assumes "reserve sched env rq w = (r, w')" and "sched_ok env sched" and "gov_ok (gw_store w)"
  shows "gw_outside w' = gw_outside w \<and> (gov_step env)\<^sup>*\<^sup>* (gw_store w) (gw_store w') \<and>
    (\<forall>row. r = Inr (row, False) \<longrightarrow> keyed (run_key sched rq w) (ga_action_id row) (gw_store w'))"
proof -
  define tx where "tx = reserve_tx env rq (run_key sched rq w) (lit ''ga_'' @ take 16 (sd_uuid sched (gw_tick w) 1))"
  obtain f w1 where f: "transact sched tx w = (f, w1)" by fastforce
  note run = assms(1)[unfolded reserve_def Let_def run_key_def[symmetric], folded tx_def, unfolded f prod.case]
  have "w1 = w'" using run by (auto split: sum.splits option.splits)
  moreover have "(gov_step env)\<^sup>*\<^sup>* (gw_store w) (gw_store w1)"
    by (rule transact_steps[OF f assms(2)]) (unfold tx_def, erule by_reserve)
  moreover have "keyed (run_key sched rq w) (ga_action_id row) (gw_store w1)" if "r = Inr (row, False)" for row
  proof -
    have "f = Inr (row, False, None)" using run that by (auto split: sum.splits option.splits)
    from transact_Inr[OF f[unfolded this] assms(2)] obtain s0 now where "(gov_step env)\<^sup>*\<^sup>* (gw_store w) s0"
      "tx now s0 = Inr ((row, False, None), gw_store w1)" by metis
    then show ?thesis using reserve_keyed gov_steps_ok assms(3) unfolding tx_def by blast
  qed
  ultimately show ?thesis using transact_outside[OF f] by simp
qed

text \<open>What an authorization that allows the effect rests on.\<close>

definition allowed_for ::
    "gov_sched \<Rightarrow> gov_env \<Rightarrow> gov_request \<Rightarrow> bool \<Rightarrow> 'o gov_world \<Rightarrow> authorization \<Rightarrow> gov_store \<Rightarrow> bool" where
  "allowed_for sched env rq wait w d s \<longleftrightarrow> rq_tier rq \<noteq> TIER_UNSUPPORTED \<and>
     keyed (run_key sched rq w) (au_action_id d) s \<and>
     (rq_tier rq = TIER_OUTWARD \<longrightarrow> wait \<and>
       (\<exists>code. au_approval_code d = Some code \<and> own_approval env rq (au_action_id d) code (gw_store w) s))"

lemma allowed_for_later:
  "allowed_for sched env rq wait w d s \<Longrightarrow> (gov_step env)\<^sup>*\<^sup>* s s' \<Longrightarrow> gov_ok s \<Longrightarrow>
     allowed_for sched env rq wait w d s'"
  unfolding allowed_for_def using keyed_steps own_approval_later[OF _ rtranclp.rtrancl_refl] by blast

lemma authorize_steps:
  assumes "authorize fuel sched env rq wait timeout w = Some (r, w')" and "sched_ok env sched"
    and "gov_ok (gw_store w)"
  shows "gw_outside w' = gw_outside w \<and> (gov_step env)\<^sup>*\<^sup>* (gw_store w) (gw_store w') \<and>
    (\<forall>d. r = Inr d \<longrightarrow> au_allowed d \<longrightarrow> allowed_for sched env rq wait w d (gw_store w'))"
proof -
  obtain f w1 where f: "reserve sched env rq w = (f, w1)" by fastforce
  note s1 = reserve_steps[OF f assms(2,3)]
  have ok1: "gov_ok (gw_store w1)" using s1 assms(3) gov_steps_ok by blast
  note run = assms(1)[unfolded authorize_def f prod.case]
  show ?thesis
  proof (cases f)
    case (Inl e)
    then show ?thesis using run s1 by auto
  next
    case (Inr x)
    obtain row replayed where x: "x = (row, replayed)" by fastforce
    note run = run[unfolded Inr x sum.case prod.case Let_def]
    have key: "keyed (run_key sched rq w) (ga_action_id row) s"
      if "\<not> replayed" "(gov_step env)\<^sup>*\<^sup>* (gw_store w1) s" for s
      using keyed_steps[OF that(2) ok1] s1 Inr x that(1) by simp
    have wrap: ?thesis
      if q: "settle_and_answer sched env rq (ga_action_id row) allowed st dec act reason code ans w1 = (r, w')"
        and "act \<noteq> INIT_ACTION" and "allowed \<longrightarrow> rq_tier rq \<noteq> TIER_UNSUPPORTED \<and> rq_tier rq \<noteq> TIER_OUTWARD"
        and "\<not> replayed"
      for allowed st dec act reason code ans
      using settle_and_answer_steps[OF q assms(2) that(2)] s1 that(3) key[OF that(4)]
      by (auto simp: allowed_for_def intro: rtranclp_trans)
    consider (rep) "replayed" | (uns) "\<not> replayed" "rq_tier rq = TIER_UNSUPPORTED"
      | (loc) "\<not> replayed" "rq_tier rq \<noteq> TIER_UNSUPPORTED" "rq_tier rq \<noteq> TIER_OUTWARD"
      | (out) "\<not> replayed" "rq_tier rq \<noteq> TIER_UNSUPPORTED" "rq_tier rq = TIER_OUTWARD" by blast
    then show ?thesis
    proof cases
      case rep
      then show ?thesis using run s1 by (auto simp: replay_authorization_def)
    next
      case uns
      show ?thesis
        by (rule wrap[OF _ gov_action_names(4)]) (use run uns in \<open>simp_all del: list.map\<close>)
    next
      case loc
      show ?thesis
        by (rule wrap[OF _ gov_action_names(5)]) (use run loc in \<open>simp_all del: list.map\<close>)
    next
      case out
      show ?thesis
      proof (cases "attributed_workspace sched rq")
        case None
        show ?thesis
          by (rule wrap[OF _ gov_action_names(4)]) (use run out None in \<open>simp_all del: list.map\<close>)
      next
        case (Some ws)
        have g: "gate_outward fuel sched env rq wait timeout (ga_action_id row) ws w1 = Some (r, w')"
          using run out Some by (simp del: list.map)
        note g2 = gate_outward_steps[OF g assms(2) ok1]
        have "allowed_for sched env rq wait w d (gw_store w')" if d: "r = Inr d" "au_allowed d" for d
        proof -
          obtain code where c: "wait" "au_action_id d = ga_action_id row" "au_approval_code d = Some code"
            "own_approval env rq (ga_action_id row) code (gw_store w1) (gw_store w')"
            using g2 d by blast
          then show ?thesis
            using own_approval_later[OF c(4) _ rtranclp.rtrancl_refl, of "gw_store w"] s1 key g2 out
            by (auto simp: allowed_for_def)
        qed
        then show ?thesis using g2 s1 by (auto intro: rtranclp_trans)
      qed
    qed
  qed
qed

section \<open>The effect\<close>

lemma execute_steps:
  assumes "execute sched env rq effect settle d w = (r, w')" and "sched_ok env sched"
  shows "gw_outside w' = snd (effect (gw_store w) (gw_outside w)) \<and>
    (gov_step env)\<^sup>*\<^sup>* (gw_store w) (gw_store w')"
proof -
  obtain v out where e: "effect (gw_store w) (gw_outside w) = (v, out)" by fastforce
  let ?w1 = "w\<lparr>gw_outside := out\<rparr>"
  have tx: "gw_outside w2 = out \<and> (gov_step env)\<^sup>*\<^sup>* (gw_store w) (gw_store w2)"
    if t: "transact sched (complete_tx env rq (au_action_id d) ok res err) ?w1 = (q, w2)" for ok res err q w2
  proof -
    have "(gov_step env)\<^sup>*\<^sup>* (gw_store ?w1) (gw_store w2)"
      by (rule transact_steps[OF t assms(2)]) (rule by_complete)
    then show ?thesis using transact_outside[OF t] by simp
  qed
  show ?thesis
    using assms(1)[unfolded execute_def e Let_def prod.case] tx e
    by (auto split: sum.splits prod.splits)
qed

lemma run_steps:
  assumes "run_governed fuel sched env rq effect wait timeout settle w = Some (r, w')"
    and "sched_ok env sched" and "gov_ok (gw_store w)"
  shows "(gov_step env)\<^sup>*\<^sup>* (gw_store w) (gw_store w')"
proof -
  obtain a w1 where a: "authorize fuel sched env rq wait timeout w = Some (a, w1)"
    using assms(1) by (auto simp: run_governed_def split: option.splits)
  have s1: "(gov_step env)\<^sup>*\<^sup>* (gw_store w) (gw_store w1)" using authorize_steps[OF a assms(2,3)] by blast
  have s2: "(gov_step env)\<^sup>*\<^sup>* (gw_store w1) (gw_store w2)"
    if "transact sched (mark_executing_tx env rq aid) w1 = (m, w2)" for aid m w2
    by (rule transact_steps[OF that assms(2)]) (rule by_mark)
  have s3: "(gov_step env)\<^sup>*\<^sup>* (gw_store w2) (gw_store w')"
    if "execute sched env rq effect settle d w2 = (r, w')" for d w2
    using execute_steps[OF that assms(2)] by blast
  show ?thesis
    using assms(1)[unfolded run_governed_def a option.case prod.case] s1 s2 s3
    by (auto split: sum.splits if_splits prod.splits) (meson rtranclp_trans)+
qed

text \<open>The entry a transition leaves: the last one of the log, with the transition's own payload.\<close>

lemma log_in_entry:
  assumes "log_in env now actor action payload ws s = Inr (eid, s')"
  shows "\<exists>new e. audit_log (gaudit s') = audit_log (gaudit s) @ new @ [e] \<and> e_action e = action \<and>
    e_payload_json e = canonical_payload now (e_actor e) action ws payload"
proof -
  obtain e a where a: "append_in_session (ge_mac env) (ge_fp env) now actor action payload ws (gaudit s) = Inr (e, a)"
    and s': "s' = s\<lparr>gaudit := a\<rparr>"
    using assms by (auto simp: log_in_def split: sum.splits)
  show ?thesis
  proof (cases rule: append_cases[of "gaudit s" "ge_mac env" "ge_fp env" now actor action payload ws,
        case_names fresh signed refused])
    case (fresh marker entry db')
    then show ?thesis using a s' by (intro exI[of _ "[marker]"] exI[of _ e]) (auto simp: appended_def)
  next
    case (signed h entry db')
    then show ?thesis using a s' by (intro exI[of _ "[]"] exI[of _ e]) (auto simp: appended_def)
  qed (use a in simp)
qed

lemma mark_executing_entry:
  assumes "mark_executing_tx env rq aid now s = Inr (n, s')"
  shows "\<exists>row new e. get_row s' aid = Some row \<and> ga_status row = Executing \<and>
    audit_log (gaudit s') = audit_log (gaudit s) @ new @ [e] \<and> e_action e = lit ''governed.executing'' \<and>
    e_payload_json e = canonical_payload now (e_actor e) (e_action e) (ga_workspace_id row)
      (audit_payload env rq aid [(lit ''attempt'', JInt (ga_attempt row))])"
proof -
  obtain r0 where g: "get_row s aid = Some r0"
    using assms by (cases "get_row s aid") (simp_all add: mark_executing_tx_def)
  define row where "row = r0\<lparr>ga_status := Executing, ga_executed_at := Some now,
                      ga_attempt_started_at := Some now, ga_heartbeat_at := Some now\<rparr>"
  obtain eid where l: "log_in env now (rq_actor rq) (lit ''governed.executing'')
      (audit_payload env rq aid [(lit ''attempt'', JInt (ga_attempt row))]) (ga_workspace_id row)
      (put_row aid row s) = Inr (eid, s')"
    using assms g
    by (auto simp: mark_executing_tx_def Let_def result_simps row_def [symmetric] simp del: list.map)
  have "get_row s' aid = Some row"
    using log_in_result(4)[OF l] get_put_row[OF g, of row] get_row_Some[OF g] by (simp add: get_row_def row_def)
  then show ?thesis using log_in_entry[OF l] by (fastforce simp: row_def)
qed

lemma execute_result:
  "execute sched env rq effect settle d w = (Inr res, w') \<Longrightarrow>
     gr_allowed res \<and> gr_action_id res = au_action_id d \<and> gr_approval_code res = au_approval_code d"
  by (auto simp: execute_def executed_result_def Let_def split: prod.splits sum.splits)

text \<open>C1. The effect is gated. However contended the store, whatever other processes commit around
  it, an effect runs only inside \<open>run_governed\<close>'s authorization. Either it did not run, and the answer
  is a refusal, or it ran exactly once, on the store that the run's own \<open>mark_executing\<close> committed: there
  the action that holds the run's idempotency key, the one its result names, is executing, and the
  last audit entry says so of this action. The tier can then be governed, and for an outward action
  the caller waited and the result carries an approval which this run filed, open and under a new
  code, for this very action, which was resolved with a scope and a window that match the request,
  and which the transaction that authorized the action under that code has spent.\<close>

theorem effect_gated:
  assumes "run_governed fuel sched env rq effect wait timeout settle w = Some (r, w')"
    and "sched_ok env sched" and "gov_ok (gw_store w)"
  shows "gw_outside w' = gw_outside w \<and> (case r of Inl e \<Rightarrow> \<exists>g. e = Refusal g | Inr res \<Rightarrow> \<not> gr_allowed res) \<or>
    (\<exists>s0 now n s aid row new e. gw_outside w' = snd (effect s (gw_outside w)) \<and>
       (gov_step env)\<^sup>*\<^sup>* (gw_store w) s0 \<and> mark_executing_tx env rq aid now s0 = Inr (n, s) \<and>
       (gov_step env)\<^sup>*\<^sup>* s (gw_store w') \<and>
       get_row s aid = Some row \<and> ga_key row = run_key sched rq w \<and> ga_status row = Executing \<and>
       audit_log (gaudit s) = audit_log (gaudit s0) @ new @ [e] \<and> e_action e = lit ''governed.executing'' \<and>
       e_payload_json e = canonical_payload now (e_actor e) (e_action e) (ga_workspace_id row)
         (audit_payload env rq aid [(lit ''attempt'', JInt (ga_attempt row))]) \<and>
       (\<forall>res. r = Inr res \<longrightarrow> gr_allowed res \<and> gr_action_id res = aid) \<and>
       rq_tier rq \<noteq> TIER_UNSUPPORTED \<and>
       (rq_tier rq = TIER_OUTWARD \<longrightarrow> wait \<and>
         (\<exists>code. own_approval env rq aid code (gw_store w) s0 \<and> consumed s code \<and>
            (\<forall>res. r = Inr res \<longrightarrow> gr_approval_code res = Some code))))"
proof -
  obtain a w1 where a: "authorize fuel sched env rq wait timeout w = Some (a, w1)"
    using assms(1) by (auto simp: run_governed_def split: option.splits)
  note s1 = authorize_steps[OF a assms(2,3)]
  have ok1: "gov_ok (gw_store w1)" using s1 assms(3) gov_steps_ok by blast
  note run = assms(1)[unfolded run_governed_def a option.case prod.case]
  consider (refused) "gw_outside w' = gw_outside w" "case r of Inl e \<Rightarrow> \<exists>g. e = Refusal g | Inr res \<Rightarrow> \<not> gr_allowed res"
    | (ran) d n w2 where "a = Inr d" "au_allowed d"
      "transact sched (mark_executing_tx env rq (au_action_id d)) w1 = (Inr n, w2)"
      "execute sched env rq effect settle d w2 = (r, w')"
    using run s1 by (auto simp: refused_result_def dest: transact_outside split: sum.splits if_splits prod.splits)
  then show ?thesis
  proof cases
    case refused
    then show ?thesis by blast
  next
    case ran
    let ?aid = "au_action_id d" and ?s = "gw_store w2"
    obtain s0 now where m: "(gov_step env)\<^sup>*\<^sup>* (gw_store w1) s0" "mark_executing_tx env rq ?aid now s0 = Inr (n, ?s)"
      "gw_outside w2 = gw_outside w1"
      using transact_Inr[OF ran(3) assms(2)] by metis
    have al: "allowed_for sched env rq wait w d s0" using s1 ran(1,2) allowed_for_later[OF _ m(1) ok1] by blast
    have st: "(gov_step env)\<^sup>*\<^sup>* s0 ?s" using by_mark[OF m(2)] by blast
    have pre: "(gov_step env)\<^sup>*\<^sup>* (gw_store w) s0" using s1 m(1) by (meson rtranclp_trans)
    have ok0: "gov_ok s0" using gov_steps_ok[OF pre assms(3)] .
    obtain row new e where e: "get_row ?s ?aid = Some row" "ga_status row = Executing"
      "audit_log (gaudit ?s) = audit_log (gaudit s0) @ new @ [e]" "e_action e = lit ''governed.executing''"
      "e_payload_json e = canonical_payload now (e_actor e) (e_action e) (ga_workspace_id row)
        (audit_payload env rq ?aid [(lit ''attempt'', JInt (ga_attempt row))])"
      using mark_executing_entry[OF m(2)] by blast
    have "keyed (run_key sched rq w) ?aid ?s"
      using keyed_steps[OF st ok0] al by (simp add: allowed_for_def)
    then have key: "ga_key row = run_key sched rq w" using e(1) by (simp add: keyed_def)
    have spent: "consumed ?s code" if "own_approval env rq ?aid code (gw_store w) s0" for code
      by (rule consumed_forever[OF st ok0 own_approval_consumed[OF that assms(3)]])
    note ex = execute_steps[OF ran(4) assms(2)]
    have res: "\<forall>res. r = Inr res \<longrightarrow> gr_allowed res \<and> gr_action_id res = ?aid \<and> gr_approval_code res = au_approval_code d"
      using execute_result ran(4) by blast
    have out: "gw_outside w' = snd (effect ?s (gw_outside w))" using ex m(3) s1 by simp
    show ?thesis
    proof (rule disjI2, rule exI[of _ s0], rule exI[of _ now], rule exI[of _ n], rule exI[of _ ?s], rule exI[of _ ?aid],
        rule exI[of _ row], rule exI[of _ new], rule exI[of _ e], intro conjI)
      show "rq_tier rq = TIER_OUTWARD \<longrightarrow> wait \<and>
         (\<exists>code. own_approval env rq ?aid code (gw_store w) s0 \<and> consumed ?s code \<and>
            (\<forall>res. r = Inr res \<longrightarrow> gr_approval_code res = Some code))"
        using al spent res unfolding allowed_for_def by metis
    qed (use out pre m(2) e key al res ex in \<open>simp_all add: allowed_for_def\<close>)
  qed
qed

section \<open>Retries do not repeat the effect\<close>

text \<open>The key's action has started its effect, or has ended.\<close>

definition started :: "governed_row \<Rightarrow> bool" where
  "started r \<longleftrightarrow> ga_status r = Executing \<or> ga_status r \<in> set TERMINAL_STATUSES"

definition begun :: "pystr \<Rightarrow> gov_store \<Rightarrow> bool" where
  "begun k s \<longleftrightarrow> (\<exists>r\<in>set (actions s). ga_key r = k \<and> started r)"

text \<open>Steps after which what has begun has still begun, and schedules of such steps.\<close>

definition later :: "gov_env \<Rightarrow> pystr \<Rightarrow> gov_store \<Rightarrow> gov_store \<Rightarrow> bool" where
  "later env k = (\<lambda>s s'. gov_step env s s' \<and> (begun k s \<longrightarrow> begun k s'))\<^sup>*\<^sup>*"

definition keeps_begun :: "gov_env \<Rightarrow> pystr \<Rightarrow> gov_sched \<Rightarrow> bool" where
  "keeps_begun env k sched \<longleftrightarrow> (\<forall>t s. later env k s (sd_others sched t s))"

lemma store_later_refl [simp]: "later env k s s"
  by (simp add: later_def)

lemma store_later_trans [trans]: "later env k s s' \<Longrightarrow> later env k s' s'' \<Longrightarrow> later env k s s''"
  unfolding later_def by (rule rtranclp_trans)

lemma later_step: "gov_step env s s' \<Longrightarrow> (begun k s \<Longrightarrow> begun k s') \<Longrightarrow> later env k s s'"
  unfolding later_def by (rule r_into_rtranclp) blast

lemma later_steps: "later env k s s' \<Longrightarrow> (gov_step env)\<^sup>*\<^sup>* s s'"
  unfolding later_def by (erule mono_rtranclp[rule_format, rotated]) blast

lemma later_begun: "later env k s s' \<Longrightarrow> begun k s \<Longrightarrow> begun k s'"
  unfolding later_def by (induction rule: rtranclp_induct) auto

lemma later_ok: "later env k s s' \<Longrightarrow> gov_ok s \<Longrightarrow> gov_ok s'"
  using later_steps gov_steps_ok by blast

lemma keeps_begun_ok: "keeps_begun env k sched \<Longrightarrow> sched_ok env sched"
  by (auto simp: keeps_begun_def sched_ok_def intro: later_steps)

lemma others_later: "keeps_begun env k sched \<Longrightarrow> later env k s (others_over sched t n s)"
proof (induction n arbitrary: t s)
  case (Suc n)
  then show ?case
    using store_later_trans[of env k s "sd_others sched t s"] by (auto simp: keeps_begun_def)
qed simp

lemma transact_later:
  assumes "transact sched work w = (r, w')" and "keeps_begun env k sched" and "gov_ok (gw_store w)"
    and "\<And>now s x s'. work now s = Inr (x, s') \<Longrightarrow> gov_ok s \<Longrightarrow> gov_step env s s' \<and> (begun k s \<longrightarrow> begun k s')"
  shows "later env k (gw_store w) (gw_store w')"
proof -
  obtain n where c: "committed sched work w n r w'" using transact_committed[OF assms(1)] by blast
  let ?s0 = "others_over sched (gw_tick w) n (gw_store w)"
  have o: "later env k (gw_store w) ?s0" by (rule others_later[OF assms(2)])
  show ?thesis
  proof (cases r)
    case (Inl e)
    then show ?thesis using c o by (simp add: committed_def Let_def)
  next
    case (Inr x)
    then obtain now where "work now ?s0 = Inr (x, gw_store w')" using c by (auto simp: committed_def Let_def)
    then have "gov_step env ?s0 (gw_store w') \<and> (begun k ?s0 \<longrightarrow> begun k (gw_store w'))"
      using assms(4) later_ok[OF o assms(3)] by blast
    then show ?thesis using store_later_trans[OF o later_step] by blast
  qed
qed

lemma transact_later_Inr:
  assumes "transact sched work w = (Inr x, w')" and "keeps_begun env k sched"
  obtains s0 now where "later env k (gw_store w) s0" "work now s0 = Inr (x, gw_store w')"
proof -
  obtain n where "committed sched work w n (Inr x) w'" using transact_committed[OF assms(1)] by blast
  then show thesis using that[OF others_later[OF assms(2)]] by (auto simp: committed_def Let_def)
qed

lemma begun_row: "get_row s aid = Some r \<Longrightarrow> ga_key r = k \<Longrightarrow> started r \<Longrightarrow> begun k s"
  using get_row_Some by (auto simp: begun_def)

text \<open>A transaction that leaves its row started takes nothing back.\<close>

lemma begun_rewrote:
  assumes "gov_ok s" and "rewrote aid s s' r0 row" and "started row" and "begun k s"
  shows "begun k s'"
proof -
  obtain x where x: "x \<in> set (actions s)" "ga_key x = k" "started x" using assms(4) by (auto simp: begun_def)
  have d: "distinct (map ga_action_id (actions s))" using assms(1) by (simp add: gov_ok_def)
  have g: "get_row s aid = Some r0" "ident row = ident r0" "actions s' = actions (put_row aid row s)"
    using assms(2) by (simp_all add: rewrote_def)
  show ?thesis
  proof (cases "ga_action_id x = aid")
    case True
    then have "x = r0" using only_row[OF d g(1) x(1)] by simp
    then show ?thesis using begun_row[OF rewrote_get[OF assms(2)]] x(2) g(2) assms(3) by (simp add: ident_def)
  next
    case False
    then have "x \<in> set (actions s')" using x(1) by (auto simp: g(3) put_row_def update_where_def)
    then show ?thesis using x by (auto simp: begun_def)
  qed
qed

lemma begun_mapped:
  assumes "actions s' = map f (actions s)" and "\<And>r. ga_key (f r) = ga_key r" and "\<And>r. started r \<Longrightarrow> started (f r)"
    and "begun k s"
  shows "begun k s'"
  using assms by (auto simp: begun_def)

lemma begun_same: "actions s' = actions s \<Longrightarrow> begun k s \<Longrightarrow> begun k s'"
  by (simp add: begun_def)

lemma started_simps [simp]:
  "ga_status r = Succeeded \<Longrightarrow> started r" "ga_status r = Failed \<Longrightarrow> started r" "ga_status r = Released \<Longrightarrow> started r"
  "ga_status r = Expired \<Longrightarrow> started r" "ga_status r = Denied \<Longrightarrow> started r" "ga_status r = Executing \<Longrightarrow> started r"
  by (simp_all add: started_def TERMINAL_STATUSES_def)

lemma begun_complete:
  "gov_ok s \<Longrightarrow> complete_tx env rq aid ok res err now s = Inr (u, s') \<Longrightarrow> begun k s \<Longrightarrow> begun k s'"
  using complete_result[of env rq aid ok res err now s u s'] begun_rewrote[of s aid s'] by (auto split: if_splits)

text \<open>A call for a key whose action has begun is answered with a replay or a refusal, and takes
  nothing back.\<close>

lemma reserve_begun:
  assumes "gov_ok s" and "reserve_tx env rq key aid now s = Inr ((row, replayed, refusal), s')" and "begun k s"
  shows "begun k s'" and "key = k \<Longrightarrow> replayed \<or> refusal \<noteq> None"
proof -
  have d: "distinct (map ga_key (actions s))" using assms(1) by (simp add: gov_ok_def)
  obtain x where x: "x \<in> set (actions s)" "ga_key x = k" "started x" using assms(3) by (auto simp: begun_def)
  have byk: "row_by ga_key k (actions s) = Some x" using row_by_distinct[OF d x(1)] x(2) by simp
  have "begun k s' \<and> (key = k \<longrightarrow> replayed \<or> refusal \<noteq> None)"
    using assms(1,2)
  proof (cases rule: reserve_cases)
    case fresh
    have "actions s' = actions s @ [row]"
      by (rule fresh_actions[OF fresh(9) _ fresh(7)]) (simp add: new_row_def)
    then show ?thesis using x byk fresh(1) by (auto simp: begun_def)
  next
    case replay
    then show ?thesis using begun_same[OF _ assms(3)] by simp
  next
    case (resumed r)
    note rr = resume_result[OF assms(1) resumed(1,3)] and kr = key_row[OF assms(1) resumed(1)]
    have id: "ga_action_id row = ga_action_id r" "ga_key row = ga_key r" using rr by (simp_all add: ident_def)
    have mem: "row \<in> set (actions s')"
      using rr get_put_row[OF kr(2) id(1)] get_row_Some by metis
    show ?thesis
    proof (cases "x = r")
      case True
      then have ex: "ga_status r = Executing" using x(3) resumed(2) by (simp add: started_def)
      then have "started row" "refusal \<noteq> None" using rr by simp_all
      then show ?thesis using mem id(2) x(2) True by (auto simp: begun_def)
    next
      case False
      then have "ga_action_id x \<noteq> ga_action_id r" using kr(6)[OF x(1)] by simp
      then have "x \<in> set (actions s')" using rr x(1) by (auto simp: put_row_def update_where_def)
      moreover have "key \<noteq> k" using byk resumed(1) False by auto
      ultimately show ?thesis using x(2,3) by (auto simp: begun_def)
    qed
  qed
  then show "begun k s'" and "key = k \<Longrightarrow> replayed \<or> refusal \<noteq> None" by blast+
qed

text \<open>The only transactions that can take an action back out of what has begun are the decisions of an
  attempt: settling it, filing its approval and spending it.\<close>

lemma only_decisions_take_back:
  assumes "gov_step env s s'" and "gov_ok s" and "begun k s" and "\<not> begun k s'"
  shows "\<exists>rq aid now. (\<exists>status decision act reason code u. settle_tx env rq aid status decision act reason code now s = Inr (u, s')) \<or>
    (\<exists>expires ws code. file_approval_tx env rq aid expires ws now s = Inr (code, s')) \<or>
    (\<exists>code chosen reasoning auth. consume_tx env rq aid code chosen reasoning now s = Inr (auth, s'))"
  using assms(1)
proof cases
  case (by_reserve rq key aid now x)
  then show ?thesis using reserve_begun(1)[OF assms(2) _ assms(3)] assms(4) by (cases x) fastforce
next
  case (by_mark rq aid now n)
  obtain r0 row where r: "rewrote aid s s' r0 row" "ga_status row = Executing"
    using mark_executing_result[OF by_mark] by blast
  show ?thesis using begun_rewrote[OF assms(2) r(1) _ assms(3)] assms(4) r(2) by simp
next
  case (by_heartbeat aid attempt now ok)
  have "begun k s'"
    using heartbeat_result(1)[OF by_heartbeat] assms(3)
    by (intro begun_mapped[of s' "\<lambda>r. if ga_action_id r = aid \<and> ga_status r = Executing \<and> ga_attempt r = attempt
        then r\<lparr>ga_heartbeat_at := Some now\<rparr> else r"]) (auto simp: update_where_def started_def)
  then show ?thesis using assms(4) by blast
next
  case (by_release rq aid handoff now u)
  obtain r0 row where r: "rewrote aid s s' r0 row" "ga_status row = Released"
    using release_result[OF by_release] by blast
  show ?thesis using begun_rewrote[OF assms(2) r(1) _ assms(3)] assms(4) r(2) by simp
next
  case (by_complete rq aid ok res err now u)
  show ?thesis using begun_complete[OF assms(2) by_complete assms(3)] assms(4) by simp
next
  case (by_sweep moment now n)
  have sw: "started (swept moment r)" "ga_key (swept moment r) = ga_key r" for r
    using swept_fields(2)[of moment r] started_simps(2,4) by (auto simp: swept_def split: prod.splits)
  have "begun k s'"
    using sweep_result(1)[OF assms(2) by_sweep] assms(3)
    by (intro begun_mapped[of s' "\<lambda>r. if ga_status r \<in> set IN_FLIGHT \<and> sweepable env moment r
        then swept moment r else r"]) (auto simp: sw)
  then show ?thesis using assms(4) by blast
next
  case (by_resolve now code chosen reasoning status p resolving r)
  have "actions s' = actions s"
    using by_resolve by (cases r) (auto dest: resolve_decision_Inl elim: resolve_decision_Inr)
  then show ?thesis using begun_same assms(3,4) by blast
next
  case (by_request ws title body proposed sid metadata now code)
  then have "actions s' = actions s"
    using create_request_result[of ws title body proposed sid metadata now s] by auto
  then show ?thesis using begun_same assms(3,4) by blast
qed blast+

text \<open>Once it has begun, no run for the key gets as far as its effect.\<close>

lemma run_after_begun:
  assumes "run_governed fuel sched env rq effect wait timeout settle w = Some (r, w')"
    and "keeps_begun env k sched" and "gov_ok (gw_store w)" and "rq_key rq = Some k" and "k \<noteq> []"
    and "begun k (gw_store w)"
  shows "gw_outside w' = gw_outside w \<and> later env k (gw_store w) (gw_store w')"
proof -
  define tx where "tx = reserve_tx env rq k (lit ''ga_'' @ take 16 (sd_uuid sched (gw_tick w) 1))"
  obtain f w1 where f: "transact sched tx w = (f, w1)" by fastforce
  have key: "(if truthy (rq_key rq) then the (rq_key rq) else lit ''auto:'' @ sd_uuid sched (gw_tick w) 0) = k"
    using assms(4,5) by (simp add: truthy_def)
  have lt: "later env k (gw_store w) (gw_store w1)"
  proof (rule transact_later[OF f assms(2,3)])
    fix now s x s' assume t: "tx now s = Inr (x, s')" and ok: "gov_ok s"
    obtain row replayed refusal where x: "x = (row, replayed, refusal)" by (metis prod_cases3)
    show "gov_step env s s' \<and> (begun k s \<longrightarrow> begun k s')"
      using by_reserve t reserve_begun(1)[OF ok] unfolding tx_def x by blast
  qed
  have out: "replayed \<or> refusal \<noteq> None" if "f = Inr (row, replayed, refusal)" for row replayed refusal
  proof (rule transact_later_Inr[OF f[unfolded that] assms(2)])
    fix s0 now assume "later env k (gw_store w) s0" "tx now s0 = Inr ((row, replayed, refusal), gw_store w1)"
    then show ?thesis using reserve_begun(2)[OF later_ok[OF _ assms(3)]] later_begun assms(6) unfolding tx_def by blast
  qed
  have res: "reserve sched env rq w = (case f of Inl e \<Rightarrow> (Inl e, w1)
      | Inr (row, replayed, refusal) \<Rightarrow> (case refusal of Some e \<Rightarrow> (Inl e, w1) | None \<Rightarrow> (Inr (row, replayed), w1)))"
    unfolding reserve_def Let_def key tx_def[symmetric] f by (simp split: sum.splits)
  have "w' = w1"
    using assms(1) res out
    by (auto simp: run_governed_def authorize_def replay_authorization_def
        split: sum.splits option.splits if_splits)
  then show ?thesis using lt transact_outside[OF f] by simp
qed

lemma run_stays_begun:
  assumes "later env k s (gw_store w)" and "gov_ok s" and "begun k s" and "k \<noteq> []"
    and "keeps_begun env k sched" and "rq_key rq = Some k"
    and "run_governed fuel sched env rq effect wait timeout settle w = Some (r, w')"
  shows "gw_outside w' = gw_outside w \<and> later env k s (gw_store w')"
  using run_after_begun[OF assms(7,5) later_ok[OF assms(1,2)] assms(6,4) later_begun[OF assms(1,3)]]
    store_later_trans[OF assms(1)] by simp

lemma execute_leaves_later:
  assumes "execute sched env rq effect settle d w = (r, w')" and "keeps_begun env k sched" and "gov_ok (gw_store w)"
  shows "later env k (gw_store w) (gw_store w')"
proof -
  obtain v out where e: "effect (gw_store w) (gw_outside w) = (v, out)" by fastforce
  let ?w1 = "w\<lparr>gw_outside := out\<rparr>"
  have tx: "later env k (gw_store w) (gw_store w2)"
    if t: "transact sched (complete_tx env rq (au_action_id d) ok res err) ?w1 = (q, w2)" for ok res err q w2
    using transact_later[OF t assms(2)] assms(3) by_complete begun_complete by fastforce
  show ?thesis
    using assms(1)[unfolded execute_def e Let_def prod.case] tx
    by (auto split: sum.splits prod.splits)
qed


text \<open>What that exception costs: \<open>mark_executing\<close> looks at no status, so an owner whose attempt was
  settled, or retried to its end by another process, still marks the action and goes on to its effect.\<close>

lemma late_mark_unconditional:
  assumes "get_row s aid = Some r" and "verify_chain (ge_mac env) (gaudit s) = None"
  shows "\<exists>n s' row. mark_executing_tx env rq aid now s = Inr (n, s') \<and> get_row s' aid = Some row \<and> ga_status row = Executing"
proof -
  have "\<exists>y. mark_executing_tx env rq aid now s = Inr y"
    unfolding mark_executing_tx_def assms(1) option.case Let_def
    by (rule log_total) (simp_all add: assms(2) del: split_paired_Ex)
  then obtain n s' where "mark_executing_tx env rq aid now s = Inr (n, s')" by auto
  then show ?thesis using mark_executing_entry by blast
qed

section \<open>The wait ends\<close>

lemma poll_enough:
  "deadline \<le> sd_now sched (gw_tick w + n) \<Longrightarrow> \<exists>x. poll (Suc n) sched deadline code w = Some x"
proof (induction n arbitrary: w)
  case 0
  then show ?case by (simp add: now_at_def)
next
  case (Suc n)
  then have "\<exists>x. poll (Suc n) sched deadline code (arrive sched w) = Some x" by (intro Suc.IH) simp
  then show ?case by (subst poll.simps(2)) (auto simp del: poll.simps simp: Let_def split: option.splits)
qed

lemma poll_more: "poll n sched deadline code w = Some x \<Longrightarrow> n \<le> m \<Longrightarrow> poll m sched deadline code w = Some x"
proof (induction n arbitrary: m w)
  case (Suc n)
  then obtain k where m: "m = Suc k" "n \<le> k" by (cases m) auto
  have "poll k sched deadline code (arrive sched w) = Some x"
    if "poll n sched deadline code (arrive sched w) = Some x"
    by (rule Suc.IH[OF that m(2)])
  then show ?case using Suc.prems(1) m(1) by (auto simp: Let_def split: option.splits if_splits)
qed simp

definition clock_passes :: "gov_sched \<Rightarrow> bool" where
  "clock_passes sched \<longleftrightarrow> (\<forall>d t. \<exists>n. d \<le> sd_now sched (t + n))"

lemma poll_total:
  assumes "clock_passes sched"
  shows "\<exists>n x. \<forall>m\<ge>n. poll m sched deadline code w = Some x"
proof -
  obtain n where "deadline \<le> sd_now sched (gw_tick w + n)" using assms by (auto simp: clock_passes_def)
  then obtain x where "poll (Suc n) sched deadline code w = Some x" using poll_enough by blast
  then show ?thesis using poll_more by blast
qed

lemma gate_outward_total:
  assumes "clock_passes sched"
  shows "\<exists>n x. \<forall>m\<ge>n. gate_outward m sched env rq wait timeout aid ws w = Some x"
proof -
  define tx where "tx = file_approval_tx env rq aid (now_at sched w + seconds (approval_ttl_seconds env)) ws"
  obtain f w1 where f: "transact sched tx w = (f, w1)" by fastforce
  define dl where "dl = now_at sched w1 + (case timeout of
      None \<Rightarrow> seconds (approval_ttl_seconds env) | Some t \<Rightarrow> t)"
  have g: "gate_outward m sched env rq wait timeout aid ws w = (case f of
        Inl e \<Rightarrow> Some (Inl e, w1)
      | Inr code \<Rightarrow> if \<not> wait
          then Some (Inr (mk_authorization aid False Pending RequireApproval (rq_tier rq)
                    (Some code) (lit ''awaiting operator approval'')), w1)
          else map_option (\<lambda>(v, w2). conclude sched env rq aid code v w2) (poll m sched dl code w1))" for m
    by (simp add: gate_outward_def Let_def f tx_def[symmetric] dl_def del: list.map split: sum.splits)
  show ?thesis
  proof (cases "\<exists>code. f = Inr code \<and> wait")
    case True
    then obtain code where c: "f = Inr code" wait by blast
    obtain n x where "\<forall>m\<ge>n. poll m sched dl code w1 = Some x" using poll_total[OF assms] by blast
    then have "\<forall>m\<ge>n. gate_outward m sched env rq wait timeout aid ws w
        = Some ((\<lambda>(v, w2). conclude sched env rq aid code v w2) x)"
      unfolding g using c by simp
    then show ?thesis by blast
  next
    case False
    then have "\<exists>x. \<forall>m. gate_outward m sched env rq wait timeout aid ws w = Some x"
      unfolding g by (cases f; cases wait) simp_all
    then show ?thesis by blast
  qed
qed

lemma authorize_total:
  assumes "clock_passes sched"
  shows "\<exists>n x. \<forall>m\<ge>n. authorize m sched env rq wait timeout w = Some x"
proof -
  obtain f w1 where f: "reserve sched env rq w = (f, w1)" by fastforce
  note gate = gate_outward_total[OF assms, of env rq wait timeout]
  show ?thesis
  proof (cases "\<exists>row ws. f = Inr (row, False) \<and> rq_tier rq \<noteq> TIER_UNSUPPORTED \<and> rq_tier rq = TIER_OUTWARD \<and>
      attributed_workspace sched rq = Some ws")
    case True
    then obtain row ws where "f = Inr (row, False)" "rq_tier rq \<noteq> TIER_UNSUPPORTED"
      "rq_tier rq = TIER_OUTWARD" "attributed_workspace sched rq = Some ws" by blast
    then have "authorize m sched env rq wait timeout w
        = gate_outward m sched env rq wait timeout (ga_action_id row) ws w1" for m
      by (simp add: authorize_def f del: list.map)
    then show ?thesis using gate[of "ga_action_id row" ws w1] by simp
  next
    case False
    have "authorize m sched env rq wait timeout w = authorize 0 sched env rq wait timeout w" for m
      unfolding authorize_def f prod.case Let_def using False
      by (cases f) (auto simp del: list.map split: option.split)
    moreover have "\<exists>x. authorize 0 sched env rq wait timeout w = Some x"
    proof (cases f)
      case (Inr y)
      show ?thesis
        unfolding authorize_def f prod.case Let_def Inr sum.case using False Inr
        by (cases y) (auto simp del: list.map split: option.split)
    qed (simp add: authorize_def f)
    ultimately have "\<exists>x. \<forall>m. authorize m sched env rq wait timeout w = Some x" by metis
    then show ?thesis by blast
  qed
qed

lemma run_total:
  assumes "clock_passes sched"
  shows "\<exists>n x. \<forall>m\<ge>n. run_governed m sched env rq effect wait timeout settle w = Some x"
proof -
  obtain n a w1 where "\<forall>m\<ge>n. authorize m sched env rq wait timeout w = Some (a, w1)"
    using authorize_total[OF assms] by (metis surj_pair)
  then have "\<forall>m\<ge>n. run_governed m sched env rq effect wait timeout settle w
      = run_governed n sched env rq effect wait timeout settle w"
    by (simp add: run_governed_def)
  moreover have "\<exists>x. run_governed n sched env rq effect wait timeout settle w = Some x"
    using \<open>\<forall>m\<ge>n. authorize m sched env rq wait timeout w = Some (a, w1)\<close>
    by (auto simp: run_governed_def split: sum.splits prod.splits)
  ultimately show ?thesis by metis
qed

text \<open>C40. A governed run returns. As long as the clock passes every deadline, and whatever the faults
  and the operator do, there is a number of polls after which the run has an answer, the same one for
  any larger number.\<close>

theorem run_returns:
  assumes "clock_passes sched"
  shows "\<exists>n x. \<forall>m\<ge>n. run_governed m sched env rq effect wait timeout settle w = Some x"
  by (rule run_total[OF assms])

section \<open>The lease reports only what it can show\<close>

lemma beat_once_simps [simp]:
  "beat_once Renewed l = (True, l\<lparr>le_beats := le_beats l + 1, le_failures := 0, le_last_error := None\<rparr>)"
  "beat_once (BeatRaised why) l =
     (\<not> le_stop_set l, l\<lparr>le_failures := le_failures l + 1, le_last_error := Some why\<rparr>)"
  "beat_once (NotRenewed why) l = (False, l\<lparr>le_stopped_reason := Some why, le_lost := True\<rparr>)"
  by (simp_all add: beat_once_def)

definition is_lost :: "beat_outcome \<Rightarrow> bool" where
  "is_lost b \<longleftrightarrow> (\<exists>why. b = NotRenewed why)"

text \<open>The failures since the last renewal.\<close>

definition trailing_failures :: "beat_outcome list \<Rightarrow> nat" where
  "trailing_failures bs = length (takeWhile (\<lambda>b. b \<noteq> Renewed) (rev bs))"

lemma trailing_failures_Cons:
  "trailing_failures (b # bs) = (if Renewed \<in> set bs then trailing_failures bs
     else if b = Renewed then length bs else Suc (length bs))"
proof -
  have "takeWhile (\<lambda>b. b \<noteq> Renewed) (rev bs @ [b]) =
      (if Renewed \<in> set bs then takeWhile (\<lambda>b. b \<noteq> Renewed) (rev bs)
       else rev bs @ takeWhile (\<lambda>b. b \<noteq> Renewed) [b])"
    by (auto simp: takeWhile_append)
  then show ?thesis by (simp add: trailing_failures_def)
qed

lemma beat_loop_run:
  fixes bs :: "beat_outcome list"
  assumes "\<not> le_stop_set l"
  defines "live \<equiv> takeWhile (\<lambda>b. \<not> is_lost b) bs"
  shows "fst (beat_loop bs l) = (if live = bs then length bs else Suc (length live)) \<and>
    le_lost (snd (beat_loop bs l)) = (le_lost l \<or> live \<noteq> bs) \<and>
    le_beats (snd (beat_loop bs l)) = le_beats l + length (filter (\<lambda>b. b = Renewed) live) \<and>
    le_failures (snd (beat_loop bs l)) =
      (if Renewed \<in> set live then trailing_failures live else le_failures l + length live)"
  using assms(1) unfolding live_def
proof (induction bs arbitrary: l)
  case (Cons b bs)
  let ?live = "takeWhile (\<lambda>b. \<not> is_lost b) bs"
  show ?case
  proof (cases b)
    case (BeatRaised why)
    have nl: "\<not> is_lost b" "b \<noteq> Renewed" using BeatRaised by (simp_all add: is_lost_def)
    show ?thesis
      using Cons.IH[of "l\<lparr>le_failures := le_failures l + 1, le_last_error := Some why\<rparr>"] Cons.prems nl BeatRaised
      by (auto simp: trailing_failures_Cons split: prod.splits)
  next
    case Renewed
    have nl: "\<not> is_lost b" using Renewed by (simp add: is_lost_def)
    have z: "trailing_failures (beat_outcome.Renewed # ?live) =
        (if beat_outcome.Renewed \<in> set ?live then trailing_failures ?live else length ?live)"
      by (simp add: trailing_failures_Cons)
    show ?thesis
      using Cons.IH[of "l\<lparr>le_beats := le_beats l + 1, le_failures := 0, le_last_error := None\<rparr>"] Cons.prems nl Renewed z
      by (auto split: prod.splits)
  next
    case (NotRenewed why)
    then show ?thesis using Cons.prems by (simp add: is_lost_def)
  qed
qed simp

text \<open>The lease loop is honest. Over any outcomes of its renewals a lease that was started makes
  beats up to and including the first that finds the row gone and none after it; it is lost exactly
  when one did; it counts the renewals it made; and it is healthy at the end exactly when it is not
  lost and its latest beat, if it made any, was a renewal.\<close>

theorem lease_honest:
  assumes "beat_loop bs (start_lease (new_lease aid attempt every)) = (n, l)"
  shows "n = (if \<exists>b\<in>set bs. is_lost b then Suc (length (takeWhile (\<lambda>b. \<not> is_lost b) bs)) else length bs) \<and>
    (le_lost l \<longleftrightarrow> (\<exists>b\<in>set bs. is_lost b)) \<and>
    le_beats l = length (filter (\<lambda>b. b = Renewed) (take n bs)) \<and>
    (healthy l \<longleftrightarrow> n = 0 \<or> last (take n bs) = Renewed)"
proof -
  let ?l0 = "start_lease (new_lease aid attempt every)"
  let ?live = "takeWhile (\<lambda>b. \<not> is_lost b) bs"
  have l0: "\<not> le_stop_set ?l0" "\<not> le_lost ?l0" "le_beats ?l0 = 0" "le_failures ?l0 = 0"
    by (simp_all add: start_lease_def new_lease_def)
  note r = beat_loop_run[OF l0(1), of bs, unfolded assms fst_conv snd_conv]
  have live: "?live \<noteq> bs \<longleftrightarrow> (\<exists>b\<in>set bs. is_lost b)" by (auto simp: takeWhile_eq_all_conv)
  show ?thesis
  proof (cases "?live = bs")
    case True
    then have n: "n = length bs" "take n bs = bs" using r by simp_all
    have "le_failures l = 0 \<longleftrightarrow> bs = [] \<or> last bs = Renewed"
    proof (cases bs rule: rev_cases)
      case (snoc cs c)
      then show ?thesis
        using r True l0 by (auto simp: trailing_failures_def split: if_splits)
    qed (use r True l0 in simp)
    then show ?thesis using r True live n l0 by (auto simp: healthy_def)
  next
    case False
    then have "length ?live \<noteq> length bs" by (metis order_refl take_all takeWhile_eq_take)
    then have "length ?live < length bs" using length_takeWhile_le[of "\<lambda>b. \<not> is_lost b" bs] by linarith
    then have lost: "is_lost (bs ! length ?live)" using nth_length_takeWhile by blast
    have n: "n = Suc (length ?live)" using r unfolding if_not_P[OF False] by blast
    have t: "take n bs = ?live @ [bs ! length ?live]"
      unfolding n by (subst take_Suc_conv_app_nth[OF \<open>length ?live < length bs\<close>]) (simp add: takeWhile_eq_take[symmetric])
    have "bs ! length ?live \<noteq> Renewed" using lost by (auto simp: is_lost_def)
    then have "last (take n bs) \<noteq> Renewed"
      and "filter (\<lambda>b. b = Renewed) (take n bs) = filter (\<lambda>b. b = Renewed) ?live"
      unfolding t by simp_all
    moreover have ex: "\<exists>b\<in>set bs. is_lost b" using live False by blast
    moreover have "le_lost l" using r False by blast
    moreover have "le_beats l = length (filter (\<lambda>b. b = Renewed) ?live)"
      using conjunct1[OF conjunct2[OF conjunct2[OF r]]] unfolding l0(3) by simp
    ultimately show ?thesis using n unfolding healthy_def by (simp only: if_True) simp
  qed
qed

section \<open>Witnesses\<close>

definition sample_sched :: gov_sched where
  "sample_sched = \<lparr>sd_now = int, sd_fault = (\<lambda>_. None), sd_others = (\<lambda>_ s. s),
     sd_uuid = (\<lambda>_ _. lit ''u''), sd_workspace_of = (\<lambda>_. None)\<rparr>"

definition run_world :: "nat gov_world" where
  "run_world = \<lparr>gw_store = empty_gov, gw_outside = 0, gw_tick = 0\<rparr>"

definition counting_effect :: "gov_store \<Rightarrow> nat \<Rightarrow> (pystr + unit) \<times> nat" where
  "counting_effect s n = (Inr (), Suc n)"

lemma sample_clock: "clock_passes sample_sched"
  unfolding clock_passes_def
proof (intro allI)
  fix d :: int and t :: nat
  have "d \<le> int (t + nat \<bar>d\<bar>)" by simp
  then show "\<exists>n. d \<le> sd_now sample_sched (t + n)" unfolding sample_sched_def gov_sched.select_convs by blast
qed

theorem run_returns_witness:
  "\<exists>n x. run_governed n sample_sched sample_env sample_request counting_effect True None None run_world = Some x"
  using run_returns[OF sample_clock] by blast

theorem lease_honest_witness:
  "\<exists>l. beat_loop [Renewed, BeatRaised (lit ''locked''), NotRenewed (lit ''gone''), Renewed]
      (start_lease (new_lease (lit ''a1'') 1 None)) = (3, l) \<and> le_lost l \<and> le_beats l = 1 \<and> \<not> healthy l"
proof -
  obtain n l where b: "beat_loop [Renewed, BeatRaised (lit ''locked''), NotRenewed (lit ''gone''), Renewed]
      (start_lease (new_lease (lit ''a1'') 1 None)) = (n, l)" by fastforce
  from lease_honest[OF b] b show ?thesis by (simp add: is_lost_def)
qed

theorem transact_atomic_witness:
  "\<exists>w'. transact (sample_sched\<lparr>sd_fault := (\<lambda>t. if t = 0 then Some Contended else None)\<rparr>)
      (\<lambda>now s. Inr ((), s)) run_world = (Inr (), w') \<and> gw_tick w' \<le> 6"
proof -
  let ?sched = "sample_sched\<lparr>sd_fault := (\<lambda>t. if t = 0 then Some Contended else None)\<rparr>"
  obtain r w' where t: "transact ?sched (\<lambda>now s. Inr ((), s)) run_world = (r, w')" by fastforce
  have c: "\<exists>i<6. (\<forall>j<i. sd_fault ?sched (gw_tick run_world + j) = Some Contended) \<and>
      sd_fault ?sched (gw_tick run_world + i) = None"
    by (rule exI[of _ 1]) (simp add: run_world_def)
  from transact_atomic[OF t] c show ?thesis using t by (auto simp: run_world_def)
qed

end
