(* ===== verification/GovernedSample.thy ===== *)
theory GovernedSample imports GovernedRun begin

text \<open>
  A governed run with an operator, which the properties of \<open>GovernedRun\<close> are applied to: an outward
  action under an idempotency key, filed for approval, resolved by the operator while the caller
  waits, authorized, executed and completed.
\<close>

section \<open>The schedule\<close>

definition out_env :: gov_env where
  "out_env = sample_env\<lparr>ge_from_iso := (\<lambda>_. Some 1000)\<rparr>"

definition out_request :: gov_request where
  "out_request = sample_request\<lparr>rq_key := Some (lit ''k'')\<rparr>"

text \<open>What the operator commits before the first look of the waiting caller.\<close>

definition approving :: "nat \<Rightarrow> gov_store \<Rightarrow> gov_store" where
  "approving t s =
     (case asks s of
        [ask] \<Rightarrow> if t = 2 then snd (resolve_decision (ge_mac out_env) (ge_fp out_env) 2 (ak_code ask)
                   (lit ''yes'') [] ''resolved'' sample_operator None s) else s
      | _ \<Rightarrow> s)"

definition out_sched :: gov_sched where
  "out_sched = sample_sched\<lparr>sd_others := approving\<rparr>"

lemma approving_later: "later env k s (approving t s)" if "ge_mac env = ge_mac out_env" "ge_fp env = ge_fp out_env"
proof -
  have "later env k s s'" if r: "resolve_decision (ge_mac out_env) (ge_fp out_env) 2 code (lit ''yes'') [] ''resolved''
      sample_operator None s = (r, s')" for code r s'
  proof (rule later_step)
    show "gov_step env s s'" using r that by (intro by_resolve) (simp add: \<open>ge_mac env = _\<close> \<open>ge_fp env = _\<close>)
    have "actions s' = actions s"
      using r by (cases r) (auto dest: resolve_decision_Inl elim: resolve_decision_Inr)
    then show "begun k s \<Longrightarrow> begun k s'" by (rule begun_same)
  qed
  then show ?thesis by (auto simp: approving_def split: list.split) (metis prod.collapse)
qed

lemma out_keeps: "keeps_begun out_env k out_sched"
  using approving_later[of out_env] by (simp add: keeps_begun_def out_sched_def)

section \<open>The run\<close>

lemma iso_nonempty: "isoformat t \<noteq> []"
  by (simp add: isoformat_def iso_micros_def)

text \<open>A fault-free transaction commits in its first attempt.\<close>

lemma clear_transact:
  assumes "sd_fault sched (gw_tick w) = None"
    and "work (sd_now sched (gw_tick w)) (sd_others sched (gw_tick w) (gw_store w)) = Inr (x, s')"
  shows "transact sched work w = (Inr x, w\<lparr>gw_store := s', gw_tick := Suc (gw_tick w)\<rparr>)"
  using assms by (simp add: transact_def TRANSACT_ATTEMPTS_def eval_nat_numeral arrive_def now_at_def)

lemma out_transact:
  "gw_tick w \<noteq> 2 \<Longrightarrow> work (int (gw_tick w)) (gw_store w) = Inr (x, s') \<Longrightarrow>
     transact out_sched work w = (Inr x, w\<lparr>gw_store := s', gw_tick := Suc (gw_tick w)\<rparr>)"
  by (rule clear_transact) (auto simp: out_sched_def sample_sched_def approving_def split: list.split)

lemma mark_total:
  "get_row s aid = Some r \<Longrightarrow> verify_chain (ge_mac env) (gaudit s) = None \<Longrightarrow>
     \<exists>n s'. mark_executing_tx env rq aid now s = Inr (n, s')"
  using late_mark_unconditional by blast

lemma filing_total:
  assumes "get_row s aid = Some r" and "verify_chain (ge_mac env) (gaudit s) = None"
  shows "\<exists>code s'. file_approval_tx env rq aid expires ws now s = Inr (code, s')"
proof -
  obtain code ask where c: "create_request_in_session ws (lit ''[gate] approve outward action: '' @ rq_tool rq)
     (lit ''Command:'' @ 10 # lit ''  '' @ rq_summary rq @ 10 # 10 # lit ''working dir: ''
        @ (case rq_cwd rq of None \<Rightarrow> [] | Some d \<Rightarrow> d))
     (Some (lit ''approve'')) (tg_session_id (rq_target rq))
     (JDict (merge_members (scope env rq)
        [(lit ''expires_at'', JStr (isoformat expires)), (lit ''action_id'', JStr aid),
         (lit ''kind'', JStr (lit ''governed_action''))])) now s = Some (code, set_asks (asks s @ [ask]) s)"
    using create_request_result by metis
  have g: "get_row (set_asks (asks s @ [ask]) s) aid = Some r" using assms(1) by (simp add: get_row_def)
  have "\<exists>y. file_approval_tx env rq aid expires ws now s = Inr y"
    unfolding file_approval_tx_def c option.case prod.case g Let_def
    by (rule log_total) (simp_all add: assms(2) del: split_paired_Ex)
  then show ?thesis by auto
qed

text \<open>Stage one: the action is reserved and its approval filed.\<close>

lemma out_filed:
  obtains row aid code w1 w2 where
    "reserve out_sched out_env out_request run_world = (Inr (row, False), w1)" "ga_action_id row = aid"
    "transact out_sched (file_approval_tx out_env out_request aid (1 + seconds (approval_ttl_seconds out_env)) 10) w1
      = (Inr code, w2)"
    "gw_tick w1 = 1" "gw_tick w2 = 2" "gw_outside w2 = 0" "decisions (gw_store w2) = []" "gov_ok (gw_store w2)"
    "verify_chain (ge_mac out_env) (gaudit (gw_store w2)) = None"
    "\<exists>r. actions (gw_store w2) = [r] \<and> ga_action_id r = aid"
    "\<exists>ask. asks (gw_store w2) = [ask] \<and> ak_code ask = code \<and> ak_status ask = AskOpen \<and> ak_session_id ask = None \<and>
       ak_metadata ask = Some (JDict (merge_members (scope out_env out_request)
      [(lit ''expires_at'', JStr (isoformat (1 + seconds (approval_ttl_seconds out_env)))), (lit ''action_id'', JStr aid),
       (lit ''kind'', JStr (lit ''governed_action''))]))"
proof -
  let ?e = out_env and ?q = out_request and ?aid = "lit ''ga_'' @ take 16 (sd_uuid out_sched 0 1)"
  let ?exp = "1 + seconds (approval_ttl_seconds out_env)"
  have i0: "verify_chain (ge_mac ?e) (gaudit empty_gov) = None" using sample_intact by (simp add: out_env_def)
  have "\<exists>x s'. reserve_tx ?e ?q (lit ''k'') ?aid 0 empty_gov = Inr (x, s') \<and> \<not> fst (snd x) \<and> snd (snd x) = None"
    unfolding reserve_tx_def sample_stores row_by.simps option.case Let_def list.set bex_empty if_False
    by (rule log_then) (use i0 in \<open>simp_all del: list.map\<close>)
  then obtain row s1 where r: "reserve_tx ?e ?q (lit ''k'') ?aid 0 empty_gov = Inr ((row, False, None), s1)" by auto
  let ?w1 = "run_world\<lparr>gw_store := s1, gw_tick := 1\<rparr>"
  have "transact out_sched (reserve_tx ?e ?q (lit ''k'') ?aid) run_world = (Inr (row, False, None), ?w1)"
    using out_transact[of run_world "reserve_tx ?e ?q (lit ''k'') ?aid"] r by (simp add: run_world_def)
  then have res: "reserve out_sched ?e ?q run_world = (Inr (row, False), ?w1)"
    by (simp add: reserve_def Let_def run_world_def out_request_def truthy_def del: list.map)
  have "actions s1 = [row] \<and> ga_action_id row = ?aid \<and> asks s1 = [] \<and> decisions s1 = [] \<and>
      recorded ?e empty_gov s1 [lit ''governed.requested'']"
    using sample_gov_ok(1) r
  proof (cases rule: reserve_cases)
    case fresh
    have "actions s1 = actions empty_gov @ [row]"
      by (rule fresh_actions[OF fresh(9) _ fresh(7)]) (simp add: new_row_def)
    then show ?thesis
      using fresh(5,6,8) asks_of_base[OF fresh(4)] by (auto simp: new_row_def empty_gov_def asks_def empty_store_def simp del: list.map)
  qed simp_all
  then have s1: "actions s1 = [row]" "ga_action_id row = ?aid" "asks s1 = []" "decisions s1 = []"
    "recorded ?e empty_gov s1 [lit ''governed.requested'']" by blast+
  have ok1: "gov_ok s1" using good_reserve[OF sample_gov_ok(1) r] by (simp add: good_step_def)
  have i1: "verify_chain (ge_mac ?e) (gaudit s1) = None" using recorded_intact[OF s1(5)] i0 by simp
  have g1: "get_row s1 ?aid = Some row" using s1(1,2) by (simp add: get_row_def)
  obtain code s2 where f: "file_approval_tx ?e ?q ?aid ?exp 10 1 s1 = Inr (code, s2)"
    using filing_total[OF g1 i1] by blast
  let ?w2 = "?w1\<lparr>gw_store := s2, gw_tick := 2\<rparr>"
  have t2: "transact out_sched (file_approval_tx ?e ?q ?aid ?exp 10) ?w1 = (Inr code, ?w2)"
    using out_transact[of ?w1 "file_approval_tx ?e ?q ?aid ?exp 10"] f by (simp add: numeral_2_eq_2)
  have ok2: "gov_ok s2" using good_filing[OF ok1 f] by (simp add: good_step_def)
  obtain r0 row2 ask where fr: "rewrote ?aid s1 s2 r0 row2" "asks s2 = asks s1 @ [ask]" "ak_code ask = code"
    "ak_status ask = AskOpen" "ak_session_id ask = tg_session_id (rq_target ?q)"
    "ak_metadata ask = Some (JDict (merge_members (scope ?e ?q)
      [(lit ''expires_at'', JStr (isoformat ?exp)), (lit ''action_id'', JStr ?aid),
       (lit ''kind'', JStr (lit ''governed_action''))]))" "decisions s2 = decisions s1"
    "recorded ?e s1 s2 [lit ''governed.approval_requested'']"
    using file_approval_result[OF f] by blast
  have "actions s2 = [row2]" "ga_action_id row2 = ?aid"
    using fr(1) g1 s1(1,2) by (simp_all add: rewrote_def ident_def put_row_def update_where_def)
  moreover have "tg_session_id (rq_target ?q) = None" by (simp add: out_request_def sample_request_def)
  moreover have "verify_chain (ge_mac ?e) (gaudit s2) = None" using recorded_intact[OF fr(8)] i1 by simp
  ultimately show ?thesis
    using that[OF res s1(2) t2] fr s1(3,4) ok2 by (simp add: run_world_def)
qed

text \<open>Stage two: while the caller waits, the operator resolves the approval, so that it may be spent.\<close>

lemma out_resolved:
  assumes "asks s = [ask]" and "ak_status ask = AskOpen" and "ak_session_id ask = None"
    and "ak_metadata ask = Some (JDict (merge_members (scope out_env out_request)
      [(lit ''expires_at'', JStr (isoformat expires)), (lit ''action_id'', JStr aid),
       (lit ''kind'', JStr (lit ''governed_action''))]))"
    and "decisions s = []" and "gov_ok s" and "verify_chain (ge_mac out_env) (gaudit s) = None"
  defines "s' \<equiv> approving 2 s"
  shows "actions s' = actions s" and "verify_chain (ge_mac out_env) (gaudit s') = None" and "gov_ok s'"
    and "approval_refusal out_env out_request (ak_code ask) 3 s' = None"
    and "fst (consume_resolved_decision s' (ak_code ask))"
    and "\<exists>st why. get_decision s' (ak_code ask) = Some st \<and> ds_status st = AskResolved \<and> verdict_of st = Granted (lit ''yes'') why"
proof -
  have g: "get_ask s (ak_code ask) = Some ask" using assms(1) by (simp add: get_ask_def)
  have "assert_resolver_allowed (base s) ask sample_operator None = None"
    using assms(3) by (simp add: assert_resolver_allowed_def truthy_def session_persona_id_def)
  from resolve_decision_succeeds[OF _ g assms(2) this assms(7), of "''resolved''"] obtain dec s2
    where "resolve_decision (ge_mac out_env) (ge_fp out_env) 2 (ak_code ask) (lit ''yes'') [] ''resolved''
      sample_operator None s = (Inr dec, s2)"
    by fastforce
  then have r: "resolve_decision (ge_mac out_env) (ge_fp out_env) 2 (ak_code ask) (lit ''yes'') [] ''resolved''
      sample_operator None s = (Inr dec, s')"
    using assms(1) by (simp add: s'_def approving_def)
  obtain decision e where d: "asks s' = update_where (\<lambda>r. ak_id r = ak_id ask)
       (\<lambda>r. r\<lparr>ak_status := AskResolved, ak_resolved_at := Some 2, ak_decision_id := Some (de_id decision)\<rparr>) (asks s)"
    "decisions s' = decisions s @ [decision]" "de_chosen decision = lit ''yes''"
    "append_in_session (ge_mac out_env) (ge_fp out_env) 2 (describe sample_operator) (lit ''approval.resolved'')
       (resolution_payload (ak_code ask) dec AskResolved (ak_session_id ask) None sample_operator)
       (Some (ak_workspace_id ask)) (gaudit s) = Inr (e, gaudit s')" "actions s' = actions s"
    by (rule resolve_decision_Inr[OF r]) (use g in auto)
  show "actions s' = actions s" by (rule d(5))
  show "verify_chain (ge_mac out_env) (gaudit s') = None" using append_verify_iff[OF d(4)] assms(7) by simp
  show ok: "gov_ok s'" using good_resolve[OF assms(6) r] by (simp add: good_step_def)
  let ?ask = "ask\<lparr>ak_status := AskResolved, ak_resolved_at := Some 2, ak_decision_id := Some (de_id decision)\<rparr>"
  have a: "asks s' = [?ask]" using d(1) assms(1) by (simp add: update_where_def)
  have g': "get_ask s' (ak_code ask) = Some ?ask" using a by (simp add: get_ask_def)
  define md where "md = merge_members (scope out_env out_request)
      [(lit ''expires_at'', JStr (isoformat expires)), (lit ''action_id'', JStr aid),
       (lit ''kind'', JStr (lit ''governed_action''))]"
  have md: "member_value md k = ((map_of (scope out_env out_request)) ++ map_of [(lit ''kind'', JStr (lit ''governed_action'')),
      (lit ''action_id'', JStr aid), (lit ''expires_at'', JStr (isoformat expires))]) k" for k
    by (simp add: md_def member_value_def map_of_merge_members)
  have am: "ak_metadata ask = Some (JDict md)" unfolding md_def by (rule assms(4))
  have k: "member_value md (lit ''kind'') = Some (JStr (lit ''governed_action''))" by (simp add: md map_add_def)
  have rs: "request_scope s' (ak_code ask) = Some md"
    by (simp add: request_scope_def g' am k del: list.map)
  have "scope_matches md (scope out_env out_request)"
    by (simp add: scope_matches_def md scope_def map_add_def out_request_def sample_request_def target_payload_def
        json_opt_int_def json_opt_str_def TIER_OUTWARD_def)
  moreover have "parse_ts out_env (member_value md (lit ''expires_at'')) = Some 1000"
    using iso_nonempty by (simp add: md map_add_def parse_ts_def out_env_def)
  ultimately show "approval_refusal out_env out_request (ak_code ask) 3 s' = None"
    using rs unfolding approval_refusal_None by fastforce
  have "distinct (map ak_code (asks s'))" using ok by (simp add: gov_ok_def)
  then show "fst (consume_resolved_decision s' (ak_code ask))" using g' consume_spends_iff by fastforce
  show "\<exists>st why. get_decision s' (ak_code ask) = Some st \<and> ds_status st = AskResolved \<and> verdict_of st = Granted (lit ''yes'') why"
    using d(2,3) assms(5) by (simp add: get_decision_def g' verdict_of_def strip_def is_space_def lower_def)
qed

text \<open>Stage three: the approval is spent, and the effect runs and is completed.\<close>

lemma out_run:
  "\<exists>res w1. run_governed 2 out_sched out_env out_request counting_effect True None None run_world
      = Some (Inr res, w1) \<and> gr_allowed res \<and> gw_outside w1 = 1"
proof -
  let ?e = out_env and ?q = out_request
  obtain row aid code w1 w2 where res: "reserve out_sched ?e ?q run_world = (Inr (row, False), w1)" "ga_action_id row = aid"
    and f: "transact out_sched (file_approval_tx ?e ?q aid (1 + seconds (approval_ttl_seconds ?e)) 10) w1 = (Inr code, w2)"
    and w: "gw_tick w1 = 1" "gw_tick w2 = 2" "gw_outside w2 = 0" "decisions (gw_store w2) = []" "gov_ok (gw_store w2)"
      "verify_chain (ge_mac ?e) (gaudit (gw_store w2)) = None"
    and acts: "\<exists>r. actions (gw_store w2) = [r] \<and> ga_action_id r = aid"
    and ask: "\<exists>ask. asks (gw_store w2) = [ask] \<and> ak_code ask = code \<and> ak_status ask = AskOpen \<and> ak_session_id ask = None \<and>
       ak_metadata ask = Some (JDict (merge_members (scope ?e ?q)
      [(lit ''expires_at'', JStr (isoformat (1 + seconds (approval_ttl_seconds ?e)))), (lit ''action_id'', JStr aid),
       (lit ''kind'', JStr (lit ''governed_action''))]))"
    by (rule out_filed)
  obtain ak where ak: "asks (gw_store w2) = [ak]" "ak_code ak = code" "ak_status ak = AskOpen" "ak_session_id ak = None"
      "ak_metadata ak = Some (JDict (merge_members (scope ?e ?q)
      [(lit ''expires_at'', JStr (isoformat (1 + seconds (approval_ttl_seconds ?e)))), (lit ''action_id'', JStr aid),
       (lit ''kind'', JStr (lit ''governed_action''))]))"
    using ask by blast
  note o3 = out_resolved[OF ak(1,3-5) w(4-6), unfolded ak(2)]
  define w3 where "w3 = w2\<lparr>gw_store := approving 2 (gw_store w2), gw_tick := 3\<rparr>"
  obtain st why where st: "get_decision (gw_store w3) code = Some st" "ds_status st = AskResolved"
    "verdict_of st = Granted (lit ''yes'') why"
    using o3(6) by (auto simp: w3_def)
  have ttl: "approval_ttl_seconds ?e = 900"
    by (simp add: approval_ttl_seconds_def out_env_def sample_env_def DEFAULT_APPROVAL_TTL_SECONDS_def)
  have ar: "arrive out_sched w2 = w3" using w(2) by (simp add: arrive_def w3_def out_sched_def)
  have poll: "poll 2 out_sched (now_at out_sched w2 + 900000000) code w2 = Some (Granted (lit ''yes'') why, w3)"
    using st by (simp add: numeral_2_eq_2 ar del: list.map)
  obtain r2 where r2: "get_row (gw_store w3) aid = Some r2" "actions (gw_store w3) = [r2]"
    using o3(1) acts by (auto simp: w3_def get_row_def)
  have i3: "verify_chain (ge_mac ?e) (gaudit (gw_store w3)) = None" using o3(2) by (simp add: w3_def)
  have only: "r \<in> set (actions (gw_store w3)) \<Longrightarrow> ga_action_id r \<noteq> aid \<Longrightarrow> ga_approval_code r \<noteq> Some code" for r
    using r2 by (auto simp: get_row_def split: if_splits)
  obtain d s4 where c: "consume_tx ?e ?q aid code (lit ''yes'') why 3 (gw_store w3) = Inr (d, s4)" "au_allowed d"
    using consume_total[OF r2(1) i3 only, of ?q "lit ''yes''" why 3] o3(4,5) by (auto simp: w3_def)
  define w4 where "w4 = w3\<lparr>gw_store := s4, gw_tick := 4\<rparr>"
  have t4: "transact out_sched (consume_tx ?e ?q aid code (lit ''yes'') why) w3 = (Inr d, w4)"
    using out_transact[of w3 "consume_tx ?e ?q aid code (lit ''yes'') why"] c(1) by (simp add: w3_def w4_def del: list.map)
  have ok3: "gov_ok (gw_store w3)" using o3(3) by (simp add: w3_def)
  have "distinct (map ak_code (asks (gw_store w3)))" using ok3 by (simp add: gov_ok_def)
  from consume_result[OF c(1) this] obtain r0 r4 acts4 where r4: "rewrote aid (gw_store w3) s4 r0 r4" "recorded ?e (gw_store w3) s4 acts4"
    unfolding if_P[OF c(2)] by blast
  note g4 = rewrote_get[OF r4(1)]
  have i4: "verify_chain (ge_mac ?e) (gaudit s4) = None" using recorded_intact[OF r4(2)] i3 by simp
  obtain n s5 where m: "mark_executing_tx ?e ?q aid 4 s4 = Inr (n, s5)" using mark_total[OF g4 i4] by blast
  define w5 where "w5 = w4\<lparr>gw_store := s5, gw_tick := 5\<rparr>"
  have t5: "transact out_sched (mark_executing_tx ?e ?q aid) w4 = (Inr n, w5)"
    using out_transact[of w4 "mark_executing_tx ?e ?q aid"] m by (simp add: w4_def w5_def del: list.map)
  obtain r5 q5 where r5: "rewrote aid s4 s5 r5 q5" "recorded ?e s4 s5 [lit ''governed.executing'']"
    using mark_executing_result[OF m] by blast
  have i5: "verify_chain (ge_mac ?e) (gaudit s5) = None" using recorded_intact[OF r5(2)] i4 by simp
  let ?w5 = "w5\<lparr>gw_outside := 1\<rparr>"
  obtain s6 where cm: "complete_tx ?e ?q aid True None None 5 s5 = Inr ((), s6)"
    using complete_unconditional[OF rewrote_get[OF r5(1)] i5, of ?q True None None 5] by blast
  have t6: "transact out_sched (complete_tx ?e ?q aid True None None) ?w5 = (Inr (), ?w5\<lparr>gw_store := s6, gw_tick := 6\<rparr>)"
    using out_transact[of ?w5 "complete_tx ?e ?q aid True None None"] cm by (simp add: w5_def del: list.map)
  have tier: "rq_tier ?q = TIER_OUTWARD" "TIER_OUTWARD \<noteq> TIER_UNSUPPORTED"
    by (simp_all add: out_request_def sample_request_def TIER_OUTWARD_def TIER_UNSUPPORTED_def)
  have ws: "attributed_workspace out_sched ?q = Some 10"
    by (simp add: attributed_workspace_def out_request_def sample_request_def)
  have now: "now_at out_sched w1 = 1" using w(1) by (simp add: now_at_def out_sched_def sample_sched_def)
  have "gate_outward 2 out_sched ?e ?q True None aid 10 w1 = Some (Inr d, w4)"
    using f poll t4 by (simp add: gate_outward_def Let_def now ttl seconds_def conclude_def del: list.map)
  then have au: "authorize 2 out_sched ?e ?q True None run_world = Some (Inr d, w4)"
    using res tier ws by (simp add: authorize_def del: list.map)
  have d: "au_action_id d = aid" using consume_action[OF c(1)] by simp
  have out: "gw_outside w5 = 0" using w(3) by (simp add: w3_def w4_def w5_def)
  show ?thesis
    using t5 t6 c(2) by (simp add: run_governed_def au d execute_def counting_effect_def executed_result_def out del: list.map)
qed

section \<open>Witnesses\<close>

lemma run_world_ok: "gov_ok (gw_store run_world)" "gw_outside run_world = 0"
  using sample_gov_ok(1) by (simp_all add: run_world_def)

theorem effect_gated_witness:
  "\<exists>res w1 s0 s aid row code. run_governed 2 out_sched out_env out_request counting_effect True None None
      run_world = Some (Inr res, w1) \<and> gw_outside w1 = 1 \<and>
    get_row s aid = Some row \<and> ga_status row = Executing \<and> ga_key row = lit ''k'' \<and> gr_action_id res = aid \<and>
    gr_approval_code res = Some code \<and> own_approval out_env out_request aid code empty_gov s0 \<and> consumed s code"
proof -
  obtain res w1 where r: "run_governed 2 out_sched out_env out_request counting_effect True None None
      run_world = Some (Inr res, w1)" "gr_allowed res" "gw_outside w1 = 1"
    using out_run by blast
  have q: "rq_tier out_request = TIER_OUTWARD" "run_key out_sched out_request run_world = lit ''k''"
    by (simp_all add: out_request_def sample_request_def run_key_def truthy_def)
  from effect_gated[OF r(1) keeps_begun_ok[OF out_keeps] run_world_ok(1)] show ?thesis
    using r q unfolding run_world_def by (elim disjE exE conjE) (simp, fastforce)
qed


end
