(* ===== verification/Liveness.thy ===== *)
theory Liveness imports Store begin

text \<open>
  Models \<open>src/brains/control/session_liveness.py\<close> and the gate \<open>require_live_session\<close> of
  \<open>src/brains/control/sessions.py\<close>: the renewable lease of a Session that owns no process, when it
  is current, and which Session handles an operation may act as. \<open>live_db\<close> is the store with the
  tables this adds; later components extend it.
\<close>

section \<open>Rows\<close>

record lease_row =
  sl_session_id :: pystr
  sl_expires_at :: instant
  sl_renewed_at :: instant

text \<open>A mailbox attachment is the id of its Session, a successor link its two Sessions.\<close>

record live_db =
  lbase :: store
  leases :: "lease_row list"
  attachments :: "pystr list"
  successors :: "(pystr \<times> pystr) list"

definition get_lease :: "'a live_db_scheme \<Rightarrow> pystr \<Rightarrow> lease_row option" where
  "get_lease db sid = row_by sl_session_id sid (leases db)"

definition get_agent :: "'a live_db_scheme \<Rightarrow> pystr \<Rightarrow> session_row option" where
  "get_agent db sid = get_session_row (lbase db) sid"

definition put_agent :: "session_row \<Rightarrow> 'a live_db_scheme \<Rightarrow> 'a live_db_scheme" where
  "put_agent row db =
     db\<lparr>lbase := (lbase db)\<lparr>sessions :=
       update_where (\<lambda>r. s_id r = s_id row) (\<lambda>_. row) (sessions (lbase db))\<rparr>\<rparr>"

definition put_lease :: "lease_row \<Rightarrow> 'a live_db_scheme \<Rightarrow> 'a live_db_scheme" where
  "put_lease row db =
     db\<lparr>leases := (if get_lease db (sl_session_id row) = None then leases db @ [row]
                  else update_where (\<lambda>r. sl_session_id r = sl_session_id row) (\<lambda>_. row) (leases db))\<rparr>"

definition mailbox_bound :: "'a live_db_scheme \<Rightarrow> pystr \<Rightarrow> bool" where
  "mailbox_bound db sid \<longleftrightarrow> sid \<in> set (attachments db)"

definition successor_of :: "'a live_db_scheme \<Rightarrow> pystr \<Rightarrow> pystr option" where
  "successor_of db sid = map_of (successors db) sid"

section \<open>Leases\<close>

definition DEFAULT_SESSION_LEASE_SECONDS :: int where "DEFAULT_SESSION_LEASE_SECONDS = 3600"

text \<open>The environment variable, \<open>None\<close> where it is not set.\<close>

definition session_lease_seconds :: "pystr option \<Rightarrow> int" where
  "session_lease_seconds configured =
     (case configured of
        None \<Rightarrow> max 60 DEFAULT_SESSION_LEASE_SECONDS
      | Some raw \<Rightarrow>
          (case py_int raw of None \<Rightarrow> DEFAULT_SESSION_LEASE_SECONDS | Some v \<Rightarrow> max 60 v))"

definition lease_is_current :: "lease_row option \<Rightarrow> instant \<Rightarrow> bool" where
  "lease_is_current lease now = (case lease of None \<Rightarrow> False | Some l \<Rightarrow> sl_expires_at l \<ge> now)"

datatype live_error =
    NoSessionId
  | UnknownSession pystr
  | Superseded pystr
  | LeaseNotSet
  | DormantOrExpired "pystr list" "pystr option"
  | EndedSession "pystr list"

definition leasable :: "session_row \<Rightarrow> bool" where
  "leasable agent \<longleftrightarrow> s_pid agent = None \<and> s_ended_at agent = None \<and> s_runtime_id agent = None
     \<and> s_issue_id agent = None \<and> s_persona_id agent = None"

text \<open>
  A lease added for a mailbox-bound Session that was not verified, or for a dormant one that is not
  reactivated, keeps no expiry, which the column refuses; so does one added for a dormant Session
  that is reactivated, because the lookup of its successor flushes the new row before its expiry is
  set (\<open>autoflush\<close> is on for \<open>SessionLocal\<close>).
\<close>

definition renew_session_lease ::
    "pystr option \<Rightarrow> instant \<Rightarrow> bool \<Rightarrow> bool \<Rightarrow> bool \<Rightarrow> session_row \<Rightarrow> 'a live_db_scheme
     \<Rightarrow> live_error + lease_row option \<times> 'a live_db_scheme" where
  "renew_session_lease cfg now reactivate create verified agent db =
     (if \<not> leasable agent then Inr (None, db)
      else
        let sid = s_id agent; bound = mailbox_bound db sid;
            touched = agent\<lparr>s_last_activity_at := Some now\<rparr>
        in case get_lease db sid of
             None \<Rightarrow>
               if \<not> create then Inr (None, if bound then put_agent touched db else db)
               else if bound \<and> \<not> verified then Inl LeaseNotSet
               else if s_state agent = ''dormant'' then Inl LeaseNotSet
               else
                 let l = \<lparr>sl_session_id = sid, sl_expires_at = now + seconds (session_lease_seconds cfg),
                          sl_renewed_at = now\<rparr>
                 in Inr (Some l, put_agent touched (put_lease l db))
           | Some lease \<Rightarrow>
               if bound \<and> \<not> verified then Inr (Some lease, put_agent touched db)
               else if s_state agent = ''dormant'' \<and> \<not> reactivate then Inr (Some lease, db)
               else if reactivate \<and> s_state agent = ''dormant'' \<and> successor_of db sid \<noteq> None
               then Inl (Superseded (the (successor_of db sid)))
               else
                 let l = lease\<lparr>sl_renewed_at := now,
                               sl_expires_at := now + seconds (session_lease_seconds cfg)\<rparr>
                 in Inr (Some l, put_agent (if reactivate \<and> s_state agent = ''dormant''
                                            then touched\<lparr>s_state := ''running''\<rparr> else touched)
                                   (put_lease l db)))"

section \<open>Live handles\<close>

definition SESSION_LIVE_TTL_SECONDS :: int where "SESSION_LIVE_TTL_SECONDS = 3600"

definition terminal_or_ended :: "session_row \<Rightarrow> bool" where
  "terminal_or_ended row \<longleftrightarrow> s_ended_at row \<noteq> None \<or> s_state row \<in> {''completed'', ''failed''}"

text \<open>\<open>last_activity_at DESC NULLS LAST\<close>: the newest first, rows without activity at the end.\<close>

definition freshest_first :: "session_row list \<Rightarrow> session_row list" where
  "freshest_first rows =
     sort_key (\<lambda>r. - the (s_last_activity_at r)) (filter (\<lambda>r. s_last_activity_at r \<noteq> None) rows)
     @ filter (\<lambda>r. s_last_activity_at r = None) rows"

definition offered :: "'a live_db_scheme \<Rightarrow> instant \<Rightarrow> session_row \<Rightarrow> bool" where
  "offered db now row \<longleftrightarrow>
     \<not> (terminal_or_ended row \<or> s_state row = ''dormant'') \<and>
     (s_pid row = None \<longrightarrow>
        get_lease db (s_id row) = None \<or> lease_is_current (get_lease db (s_id row)) now)"

definition live_replacement_session_ids ::
    "'a live_db_scheme \<Rightarrow> instant \<Rightarrow> int \<Rightarrow> pystr option \<Rightarrow> pystr list" where
  "live_replacement_session_ids db now ws exclude =
     (let cutoff = now - seconds SESSION_LIVE_TTL_SECONDS;
          rows = filter (\<lambda>r. s_workspace_id r = ws
                   \<and> (case s_last_activity_at r of None \<Rightarrow> s_started_at r | Some t \<Rightarrow> t) \<ge> cutoff
                   \<and> (case exclude of None \<Rightarrow> True | Some x \<Rightarrow> x = [] \<or> s_id r \<noteq> x))
                 (sessions (lbase db))
      in map s_id (filter (offered db now) (take 5 (freshest_first rows))))"

definition stale_handle :: "'a live_db_scheme \<Rightarrow> instant \<Rightarrow> session_row \<Rightarrow> bool" where
  "stale_handle db now row \<longleftrightarrow>
     s_pid row = None \<and>
     (s_state row = ''dormant'' \<or>
      (get_lease db (s_id row) \<noteq> None \<and> \<not> lease_is_current (get_lease db (s_id row)) now))"

definition require_live_session ::
    "pystr option \<Rightarrow> instant \<Rightarrow> bool \<Rightarrow> pystr option \<Rightarrow> 'a live_db_scheme
     \<Rightarrow> live_error + session_row \<times> 'a live_db_scheme" where
  "require_live_session cfg now renew sid db =
     (case sid of
        None \<Rightarrow> Inl NoSessionId
      | Some i \<Rightarrow>
          if i = [] then Inl NoSessionId
          else (case get_agent db i of
                  None \<Rightarrow> Inl (UnknownSession i)
                | Some row \<Rightarrow>
                    if terminal_or_ended row
                    then Inl (EndedSession
                           (live_replacement_session_ids db now (s_workspace_id row) None))
                    else if stale_handle db now row
                    then Inl (DormantOrExpired
                           (live_replacement_session_ids db now (s_workspace_id row) (Some i))
                           (successor_of db i))
                    else if s_pid row = None \<and> renew
                    then bind_result (renew_session_lease cfg now True False False row db)
                           (\<lambda>(_, db'). Inr (row, db'))
                    else Inr (row, db)))"

section \<open>Facts\<close>

lemma put_agent_simps [simp]:
  "leases (put_agent row db) = leases db" "attachments (put_agent row db) = attachments db"
  "successors (put_agent row db) = successors db"
  "live_db.more (put_agent row db) = live_db.more db"
  by (simp_all add: put_agent_def)

lemma put_lease_simps [simp]:
  "lbase (put_lease l db) = lbase db" "attachments (put_lease l db) = attachments db"
  "successors (put_lease l db) = successors db" "live_db.more (put_lease l db) = live_db.more db"
  by (simp_all add: put_lease_def)

lemma get_put_lease: "get_lease (put_lease l db) (sl_session_id l) = Some l"
  by (auto simp: put_lease_def get_lease_def row_by_update_same row_by_append split: option.splits)

lemma session_lease_at_least: "60 \<le> session_lease_seconds cfg"
  by (auto simp: session_lease_seconds_def DEFAULT_SESSION_LEASE_SECONDS_def split: option.splits)

text \<open>Renewing touches no table but the leases and the Session's own row.\<close>

lemma renew_frame:
  assumes "renew_session_lease cfg now reactivate create verified agent db = Inr (l, db')"
  shows "attachments db' = attachments db \<and> successors db' = successors db \<and>
    live_db.more db' = live_db.more db \<and>
    (lbase db' = lbase db \<or>
       (\<exists>row. s_id row = s_id agent \<and> lbase db' = lbase (put_agent row db)))"
proof -
  let ?t = "agent\<lparr>s_last_activity_at := Some now\<rparr>"
  let ?r = "?t\<lparr>s_state := ''running''\<rparr>"
  have "db' = db \<or> db' = put_agent ?t db \<or> (\<exists>k. db' = put_agent ?t (put_lease k db)) \<or>
      (\<exists>k. db' = put_agent ?r (put_lease k db))"
    using assms unfolding renew_session_lease_def Let_def
    by (auto split: if_splits option.splits)
  moreover have "lbase (put_agent r (put_lease k db)) = lbase (put_agent r db)" for r k
    by (simp add: put_agent_def)
  ultimately have "attachments db' = attachments db \<and> successors db' = successors db \<and>
      live_db.more db' = live_db.more db"
    and "lbase db' = lbase db \<or> lbase db' = lbase (put_agent ?t db) \<or> lbase db' = lbase (put_agent ?r db)"
    by (elim disjE exE, simp_all)+
  moreover have "s_id ?t = s_id agent" "s_id ?r = s_id agent" by simp_all
  ultimately show ?thesis by metis
qed

lemma require_live_frame:
  assumes "require_live_session cfg now renew sid db = Inr (row, db')"
  shows "\<exists>i. sid = Some i \<and> i \<noteq> [] \<and> get_agent db i = Some row \<and> \<not> terminal_or_ended row \<and>
    \<not> stale_handle db now row \<and> live_db.more db' = live_db.more db \<and>
    (\<not> renew \<longrightarrow> db' = db)"
  using assms renew_frame[of cfg now True False False]
  by (auto simp: require_live_session_def result_simps split: option.splits if_splits)

section \<open>When the gate passes\<close>

definition live_handle :: "'a live_db_scheme \<Rightarrow> instant \<Rightarrow> pystr \<Rightarrow> bool" where
  "live_handle db now i \<longleftrightarrow>
     (case get_agent db i of
        None \<Rightarrow> False
      | Some row \<Rightarrow> i \<noteq> [] \<and> \<not> terminal_or_ended row \<and> \<not> stale_handle db now row)"

text \<open>A Session that is not dormant can always be renewed.\<close>

lemma renew_total:
  "s_state row \<noteq> ''dormant'' \<Longrightarrow>
     \<exists>x. renew_session_lease cfg now True False False row db = Inr x"
  by (auto simp: renew_session_lease_def Let_def split: option.split)

lemma require_live_iff:
  "(\<exists>x. require_live_session cfg now renew (Some i) db = Inr x) \<longleftrightarrow> live_handle db now i"
proof (cases "get_agent db i")
  case None
  then show ?thesis by (simp add: require_live_session_def live_handle_def)
next
  case (Some row)
  show ?thesis
  proof (cases "i = [] \<or> terminal_or_ended row \<or> stale_handle db now row")
    case True
    then show ?thesis using Some by (auto simp: require_live_session_def live_handle_def)
  next
    case False
    have "\<exists>x. renew_session_lease cfg now True False False row db = Inr x" if "s_pid row = None"
      using False that renew_total[of row cfg now db] by (auto simp: stale_handle_def)
    then show ?thesis
      using False Some by (auto simp: require_live_session_def live_handle_def result_simps)
  qed
qed

lemma live_handle_cong:
  "lbase db' = lbase db \<Longrightarrow> leases db' = leases db \<Longrightarrow> live_handle db' now i \<longleftrightarrow> live_handle db now i"
  by (simp add: live_handle_def get_agent_def stale_handle_def get_lease_def split: option.split)

end
