(* ===== verification/Events.thy ===== *)
theory Events imports Liveness Ledger begin

text \<open>
  Models the durable events of \<open>src/brains/control/events.py\<close>: the taxonomy of event kinds, the
  scope of an event, and the row (\<open>events\<close> with its \<open>event_contexts\<close> row) that work assignments and
  coordination append in their own transaction.
\<close>

section \<open>Taxonomy\<close>

definition TAXONOMY_VERSION :: int where "TAXONOMY_VERSION = 1"

definition CATEGORY_PREFIXES :: "(string \<times> string) list" where
  "CATEGORY_PREFIXES =
    [(''session_'', ''session''), (''spawn_session'', ''session''), (''spawn_'', ''session''),
     (''workspace_'', ''workspace''), (''task_'', ''task''), (''work_assignment_'', ''task''),
     (''coordination_'', ''coordination''), (''handoff'', ''handoff''),
     (''message_'', ''messaging''), (''inbox_'', ''messaging''), (''mailbox_'', ''messaging''),
     (''help_'', ''help''), (''feedback_'', ''feedback''), (''decision_'', ''governance''),
     (''approval_'', ''governance''), (''governed_'', ''governance''), (''audit.'', ''governance''),
     (''knowledge_'', ''knowledge''), (''pattern_'', ''knowledge''), (''topic_'', ''topic''),
     (''tool_'', ''tool''), (''runtime_'', ''runtime''), (''enrol'', ''runtime''),
     (''assignment_'', ''issue''), (''org_'', ''org''), (''persona_'', ''persona''),
     (''project_'', ''project''), (''issue_'', ''issue''), (''pod_'', ''pod''),
     (''squad_'', ''pod''), (''recurring_'', ''automation''), (''job_'', ''automation''),
     (''webhook_'', ''integration''), (''integration_'', ''integration''),
     (''email_'', ''integration''), (''github_'', ''integration''), (''relay_'', ''integration''),
     (''bridge_'', ''integration''), (''freshness_'', ''retrieval''), (''docs_'', ''retrieval''),
     (''repo_'', ''retrieval''), (''index_'', ''retrieval''), (''graph_'', ''retrieval''),
     (''source_'', ''retrieval''), (''memory_'', ''knowledge''), (''snapshot_'', ''snapshot''),
     (''checkpoint_'', ''checkpoint''), (''operator_'', ''identity''),
     (''credential_'', ''identity''), (''service_'', ''operations''), (''config_'', ''operations''),
     (''backup_'', ''operations''), (''restore_'', ''operations''), (''queue_'', ''operations''),
     (''recovery_'', ''operations''), (''provider_'', ''provider''), (''route_'', ''routing''),
     (''trace_'', ''routing''), (''usage_'', ''usage''), (''onboarding_'', ''onboarding''),
     (''execution_'', ''execution''), (''gate_'', ''governance'')]"

definition GLOBAL_CATEGORIES :: "string list" where
  "GLOBAL_CATEGORIES =
    [''automation'', ''identity'', ''integration'', ''operations'', ''org'', ''provider'',
     ''routing'', ''runtime'', ''system'', ''tool'', ''usage'']"

definition EXACT_CATEGORIES :: "(string \<times> string) list" where
  "EXACT_CATEGORIES = [(''blocked'', ''session'')]"

text \<open>
  \<open>str.lower\<close> as far as the pattern of a kind can tell: the Kelvin sign is the one character
  outside ASCII whose lower case is an ASCII letter.
\<close>

definition lower1 :: "nat \<Rightarrow> nat" where
  "lower1 c = (if 65 \<le> c \<and> c \<le> 90 then c + 32 else if c = 8490 then 107 else c)"

definition kind_start :: "nat \<Rightarrow> bool" where
  "kind_start c \<longleftrightarrow> 97 \<le> c \<and> c \<le> 122"

definition kind_char :: "nat \<Rightarrow> bool" where
  "kind_char c \<longleftrightarrow> kind_start c \<or> is_digit c \<or> c = 95 \<or> c = 46 \<or> c = 45"

definition kind_pattern :: "pystr \<Rightarrow> bool" where
  "kind_pattern s \<longleftrightarrow>
     (case s of [] \<Rightarrow> False
      | c # cs \<Rightarrow> kind_start c \<and> length cs \<le> 63 \<and> (\<forall>d\<in>set cs. kind_char d))"

fun category_of :: "(string \<times> string) list \<Rightarrow> pystr \<Rightarrow> string" where
  "category_of [] s = ''extension''"
| "category_of ((prefix, category) # rest) s =
     (if take (length prefix) s = lit prefix then category else category_of rest s)"

text \<open>\<open>None\<close>: the \<open>ValueError\<close> of a kind outside the pattern.\<close>

definition classify_event_kind :: "pystr \<Rightarrow> string option" where
  "classify_event_kind kind =
     (let normalized = map lower1 (strip kind)
      in if \<not> kind_pattern normalized then None
         else case map_of (map (\<lambda>(k, v). (lit k, v)) EXACT_CATEGORIES) normalized of
                Some category \<Rightarrow> Some category
              | None \<Rightarrow> Some (category_of CATEGORY_PREFIXES normalized))"

definition event_scope :: "string \<Rightarrow> int option \<Rightarrow> string \<Rightarrow> string \<times> string" where
  "event_scope category ws source =
     (if ws \<noteq> None then (''workspace'', source)
      else if category \<in> set GLOBAL_CATEGORIES then (''global'', ''category'')
      else (''unresolved'', source))"

section \<open>Rows\<close>

text \<open>An event with its context, which is always written with it.\<close>

record event_row =
  ev_id :: int
  ev_workspace_id :: "int option"
  ev_session_id :: "pystr option"
  ev_kind :: pystr
  ev_message :: pystr
  ev_metadata :: json
  ev_created_at :: instant
  ev_category :: string
  ev_scope :: string
  ev_scope_source :: string
  ev_taxonomy_version :: int

record event_db = live_db +
  events :: "event_row list"

definition add_event ::
    "instant \<Rightarrow> int \<Rightarrow> pystr option \<Rightarrow> pystr \<Rightarrow> pystr \<Rightarrow> json \<Rightarrow> string \<Rightarrow> 'a event_db_scheme
     \<Rightarrow> 'a event_db_scheme" where
  "add_event now ws sid kind message metadata category db =
     db\<lparr>events := events db @
       [\<lparr>ev_id = next_row_id (map ev_id (events db)), ev_workspace_id = Some ws, ev_session_id = sid,
         ev_kind = kind, ev_message = message, ev_metadata = metadata, ev_created_at = now,
         ev_category = category, ev_scope = ''workspace'', ev_scope_source = ''explicit'',
         ev_taxonomy_version = TAXONOMY_VERSION\<rparr>]\<rparr>"

lemma add_event_simps [simp]:
  "lbase (add_event now ws sid kind msg md cat db) = lbase db"
  "leases (add_event now ws sid kind msg md cat db) = leases db"
  "attachments (add_event now ws sid kind msg md cat db) = attachments db"
  "successors (add_event now ws sid kind msg md cat db) = successors db"
  "event_db.more (add_event now ws sid kind msg md cat db) = event_db.more db"
  by (simp_all add: add_event_def)

lemma category_of_append:
  "(\<forall>(p, c)\<in>set before. take (length p) s \<noteq> lit p) \<Longrightarrow>
     category_of (before @ rest) s = category_of rest s"
  by (induction before) auto

end
