(* ===== verification/Peers.thy ===== *)
theory Peers imports Events Policy begin

text \<open>
  What \<open>src/brains/control/work_assignments.py\<close> and \<open>src/brains/control/coordination.py\<close> share (the
  two files repeat these helpers word for word): the validation of arguments, the gate through which
  a Session acts, the gate through which an operator acts, and the event each transition records.
  The principal of a Session call is the one \<open>resolve_local_principal\<close> gives; arguments that the
  code checks with \<open>type(x) is\<close> arrive as \<open>pyval\<close>.
\<close>

section \<open>Parameters and errors\<close>

text \<open>
  One transaction reads one clock and draws at most one uuid for a new assignment, attempt or
  proposal and one for a contribution. \<open>pe_policy\<close> is the store the policy
  gate read over its own connection, before the transaction. \<open>pe_sha\<close> is SHA-256 of UTF-8 in
  hexadecimal and \<open>pe_fromiso\<close> is \<open>datetime.fromisoformat\<close> of an aware time, in UTC.
\<close>

record peer_env =
  pe_now :: instant
  pe_lease_cfg :: "pystr option"
  pe_uuid :: pystr
  pe_contribution_uuid :: pystr
  pe_policy :: store
  pe_sha :: "pystr \<Rightarrow> pystr"
  pe_fromiso :: "pystr \<Rightarrow> instant option"

text \<open>
  \<open>IntegrityError\<close> is a constraint of the schema, \<open>PythonError\<close> an exception of Python itself;
  \<open>Refused\<close> carries the refusals of one module.
\<close>

datatype 'e peer_error =
    NotAString string
  | NotUtf8 string
  | OutOfBounds string
  | NotAnInteger string
  | BadDeadline
  | Unavailable
  | NotLive live_error
  | PolicyDenied http_error
  | HumanChannelNeeded
  | IntegrityError
  | PythonError string
  | Refused 'e

section \<open>Arguments\<close>

definition text_arg :: "string \<Rightarrow> nat \<Rightarrow> bool \<Rightarrow> pyval \<Rightarrow> 'e peer_error + pystr" where
  "text_arg name maximum required value =
     (case value of
        PStr s \<Rightarrow>
          (case utf8_size s of
             None \<Rightarrow> Inl (NotUtf8 name)
           | Some bytes \<Rightarrow>
               if bytes > maximum \<or> 0 \<in> set s \<or> (required \<and> strip s = []) then Inl (OutOfBounds name)
               else Inr s)
      | _ \<Rightarrow> Inl (NotAString name))"

definition int_arg :: "string \<Rightarrow> int \<Rightarrow> int \<Rightarrow> pyval \<Rightarrow> 'e peer_error + int" where
  "int_arg name minimum maximum value =
     (case value of
        PInt i \<Rightarrow> if minimum \<le> i \<and> i \<le> maximum then Inr i else Inl (NotAnInteger name)
      | _ \<Rightarrow> Inl (NotAnInteger name))"

definition deadline_arg :: "peer_env \<Rightarrow> pyval \<Rightarrow> 'e peer_error + instant" where
  "deadline_arg env value =
     bind_result (text_arg ''deadline'' 64 True value) (\<lambda>s.
       case pe_fromiso env s of None \<Rightarrow> Inl BadDeadline | Some t \<Rightarrow> Inr t)"

text \<open>\<open>d.get(key, default)\<close>.\<close>

definition get_or :: "(pyval \<times> pyval) list \<Rightarrow> string \<Rightarrow> pyval \<Rightarrow> pyval" where
  "get_or d key dflt = (case dict_get d (lit key) of None \<Rightarrow> dflt | Some v \<Rightarrow> v)"

text \<open>A member that is checked only \<open>if key in d\<close>.\<close>

definition if_present ::
    "(pyval \<times> pyval) list \<Rightarrow> string \<Rightarrow> (pyval \<Rightarrow> 'e peer_error + 'a) \<Rightarrow> 'e peer_error + 'a option" where
  "if_present d key check =
     (case dict_get d (lit key) of
        None \<Rightarrow> Inr None
      | Some v \<Rightarrow> bind_result (check v) (\<lambda>x. Inr (Some x)))"

text \<open>The keys of a \<open>dict\<close> are strings of a fixed set.\<close>

definition keys_within :: "string list \<Rightarrow> (pyval \<times> pyval) list \<Rightarrow> bool" where
  "keys_within allowed d \<longleftrightarrow> (\<forall>(k, v)\<in>set d. k \<in> set (map (\<lambda>s. PStr (lit s)) allowed))"

definition list_arg ::
    "string \<Rightarrow> string \<Rightarrow> pyval \<Rightarrow> 'e peer_error + pystr list" where
  "list_arg name item value =
     (case value of
        PList vs \<Rightarrow> if length vs > 32 then Inl (OutOfBounds name)
                    else map_result (text_arg item 2048 True) vs
      | _ \<Rightarrow> Inl (OutOfBounds name))"

section \<open>The Session gate\<close>

definition visible_in :: "store \<Rightarrow> principal \<Rightarrow> workspace_row \<Rightarrow> bool" where
  "visible_in db p w \<longleftrightarrow>
     is_bootstrap_admin p \<or>
     (case or_default db (w_org_id w) of
        None \<Rightarrow> False
      | Some org \<Rightarrow>
          org \<in> (case visible_org_ids p of None \<Rightarrow> {} | Some ids \<Rightarrow> ids) \<and>
          (w_visibility w \<noteq> ''private'' \<or> w_id w \<in> member_workspace_ids db (operator_id p)))"

definition operator_exists :: "store \<Rightarrow> principal \<Rightarrow> bool" where
  "operator_exists db p \<longleftrightarrow>
     (case operator_id p of None \<Rightarrow> False | Some i \<Rightarrow> row_by op_id i (operators db) \<noteq> None)"

definition map_left :: "('e \<Rightarrow> 'f) \<Rightarrow> 'e + 'a \<Rightarrow> 'f + 'a" where
  "map_left f r = (case r of Inl e \<Rightarrow> Inl (f e) | Inr x \<Rightarrow> Inr x)"

text \<open>
  \<open>legacy\<close>: work assignments also admit a bootstrap admin to a Session no operator created;
  coordination does not. \<open>check\<close> validates the Session id.
\<close>

definition owns_session :: "bool \<Rightarrow> principal \<Rightarrow> session_row \<Rightarrow> bool" where
  "owns_session legacy p actor \<longleftrightarrow>
     legacy \<and> s_created_by_operator_id actor = None \<and> is_bootstrap_admin p
     \<or> s_created_by_operator_id actor = operator_id p"

definition session_actor ::
    "bool \<Rightarrow> peer_env \<Rightarrow> principal \<Rightarrow> pystr \<Rightarrow> 'a live_db_scheme
     \<Rightarrow> 'e peer_error + session_row \<times> workspace_row" where
  "session_actor legacy env p i db =
     (case get_agent db i of
        None \<Rightarrow> Inl Unavailable
      | Some actor \<Rightarrow>
          (case get_workspace_row (lbase db) (s_workspace_id actor) of
             None \<Rightarrow> Inl Unavailable
           | Some w \<Rightarrow>
               if \<not> operator_exists (lbase db) p \<or> \<not> owns_session legacy p actor
                  \<or> \<not> visible_in (lbase db) p w
               then Inl Unavailable
               else bind_result (map_left NotLive
                      (require_live_session (pe_lease_cfg env) (pe_now env) False (Some i) db))
                      (\<lambda>_. Inr (actor, w))))"

definition enter_session ::
    "bool \<Rightarrow> (pyval \<Rightarrow> 'e peer_error + pystr) \<Rightarrow> peer_env \<Rightarrow> principal \<Rightarrow> pyval \<Rightarrow> 'a live_db_scheme
     \<Rightarrow> 'e peer_error + session_row \<times> workspace_row" where
  "enter_session legacy check env p sid db =
     (if \<not> is_operator p \<or> operator_id p = None then Inl Unavailable
      else bind_result (check sid) (\<lambda>i. session_actor legacy env p i db))"

definition workspace_path :: "'a live_db_scheme \<Rightarrow> workspace_row \<Rightarrow> pyval \<Rightarrow> 'e peer_error + unit" where
  "workspace_path db w path =
     bind_result (text_arg ''workspace_path'' 1024 True path) (\<lambda>s.
       if s \<noteq> w_path w \<and> \<not> (\<exists>a\<in>set (aliases (lbase db)). al_workspace_id a = w_id w \<and> al_path a = s)
       then Inl Unavailable else Inr ())"

section \<open>The operator gate\<close>

definition enter_operator ::
    "string \<Rightarrow> peer_env \<Rightarrow> principal \<Rightarrow> bool \<Rightarrow> pyval \<Rightarrow> 'a live_db_scheme
     \<Rightarrow> 'e peer_error + workspace_row" where
  "enter_operator entity env p write ws db =
     (if \<not> is_operator p \<or> operator_id p = None then Inl Unavailable
      else bind_result (int_arg ''workspace_id'' 1 (2 ^ 63 - 1) ws) (\<lambda>i.
        let capability = (if write then CAP_ORG_WRITE else CAP_ORG_READ)
        in bind_result (map_left PolicyDenied
             (require_workspace_capability (pe_policy env) p capability (Some i) entity (RefInt i))) (\<lambda>_.
             if write \<and> \<not> is_human_channel p then Inl HumanChannelNeeded
             else case get_workspace_row (lbase db) i of
                    None \<Rightarrow> Inl Unavailable
                  | Some w \<Rightarrow>
                      if \<not> operator_exists (lbase db) p then Inl Unavailable
                      else if \<not> has_capability p capability (or_default (lbase db) (w_org_id w))
                              \<or> \<not> visible_in (lbase db) p w
                      then Inl Unavailable else Inr w)))"

section \<open>Events of a transition\<close>

text \<open>Who made the transition: its Session, or an operator over a channel.\<close>

datatype attribution = BySession pystr | ByOperator "int option" string

fun attribution_members :: "attribution \<Rightarrow> (pystr \<times> json) list" where
  "attribution_members (BySession sid) = [(lit ''actor_kind'', JStr (lit ''session''))]"
| "attribution_members (ByOperator oid ch) =
     [(lit ''actor_kind'', JStr (lit ''operator'')), (lit ''operator_id'', json_opt_int oid),
      (lit ''channel'', JStr (lit ch))]"

fun attribution_session :: "attribution \<Rightarrow> pystr option" where
  "attribution_session (BySession sid) = Some sid"
| "attribution_session (ByOperator oid ch) = None"

definition record_transition ::
    "peer_env \<Rightarrow> string \<Rightarrow> string \<Rightarrow> int \<Rightarrow> pystr \<Rightarrow> (pystr \<times> json) list \<Rightarrow> attribution
     \<Rightarrow> 'a event_db_scheme \<Rightarrow> 'e peer_error + 'a event_db_scheme" where
  "record_transition env prefix action ws code members who db =
     (let kind = lit (prefix @ action)
      in case classify_event_kind kind of
           None \<Rightarrow> Inl (OutOfBounds ''kind'')
         | Some category \<Rightarrow>
             Inr (add_event (pe_now env) ws (attribution_session who) kind
                    (code @ lit '': '' @ lit action)
                    (JDict (merge_members members (attribution_members who))) category db))"

section \<open>Facts\<close>

lemma text_arg_Inr [result_simps]:
  "text_arg name n req v = Inr s \<longleftrightarrow>
     v = PStr s \<and> (\<exists>m. utf8_size s = Some m \<and> m \<le> n) \<and> 0 \<notin> set s \<and> (req \<longrightarrow> strip s \<noteq> [])"
  by (cases v) (auto simp: text_arg_def split: option.splits if_splits)

lemma int_arg_Inr [result_simps]:
  "int_arg name lo hi v = Inr i \<longleftrightarrow> v = PInt i \<and> lo \<le> i \<and> i \<le> hi"
  by (cases v) (auto simp: int_arg_def)

lemma map_left_Inr [result_simps]: "map_left f r = Inr x \<longleftrightarrow> r = Inr x"
  by (cases r) (auto simp: map_left_def)

lemma map_left_Inr' [simp]: "map_left f (Inr x) = Inr x"
  by (simp add: map_left_def)

lemma session_actor_Inr:
  assumes "session_actor legacy env p i db = Inr (actor, w)"
  shows "get_agent db i = Some actor \<and> owns_session legacy p actor \<and>
    get_workspace_row (lbase db) (s_workspace_id actor) = Some w \<and> visible_in (lbase db) p w \<and>
    operator_exists (lbase db) p \<and> \<not> terminal_or_ended actor \<and> \<not> stale_handle db (pe_now env) actor"
proof -
  have r: "get_agent db i = Some actor" "owns_session legacy p actor"
    "get_workspace_row (lbase db) (s_workspace_id actor) = Some w" "visible_in (lbase db) p w"
    "operator_exists (lbase db) p"
    and "\<exists>row db'. require_live_session (pe_lease_cfg env) (pe_now env) False (Some i) db = Inr (row, db')"
    using assms unfolding session_actor_def
    by (auto simp: result_simps split: option.split_asm if_split_asm)
  then show ?thesis using require_live_frame[of "pe_lease_cfg env" "pe_now env" False "Some i" db] by auto
qed

lemma enter_session_Inr:
  fixes check :: "pyval \<Rightarrow> 'e peer_error + pystr"
  shows "enter_session legacy check env p sid db = Inr (actor, w) \<longleftrightarrow>
     is_operator p \<and> operator_id p \<noteq> None \<and>
     (\<exists>i. check sid = Inr i \<and>
        session_actor legacy env p i db = (Inr (actor, w) :: 'e peer_error + session_row \<times> workspace_row))"
  by (auto simp: enter_session_def result_simps)

lemma enter_operator_Inr:
  assumes "enter_operator entity env p write ws db = Inr w"
  shows "\<exists>i. ws = PInt i \<and> get_workspace_row (lbase db) i = Some w \<and> is_operator p \<and>
    operator_id p \<noteq> None \<and> operator_exists (lbase db) p \<and> (write \<longrightarrow> is_human_channel p) \<and>
    has_capability p (if write then CAP_ORG_WRITE else CAP_ORG_READ) (or_default (lbase db) (w_org_id w)) \<and>
    visible_in (lbase db) p w"
  using assms unfolding enter_operator_def Let_def
  by (auto simp: result_simps split: if_split_asm option.split_asm)

lemma record_transition_Inr:
  "record_transition env prefix action ws code members who db = Inr db' \<Longrightarrow>
     \<exists>e. db' = db\<lparr>events := events db @ [e]\<rparr> \<and> ev_workspace_id e = Some ws \<and>
       ev_kind e = lit (prefix @ action) \<and> ev_session_id e = attribution_session who \<and>
       ev_created_at e = pe_now env"
  by (auto simp: record_transition_def Let_def add_event_def split: option.splits)

text \<open>The recheck inside the transaction is the policy's own answer.\<close>

lemma visible_in_policy:
  assumes "unique_keys db" and "get_workspace_row db (w_id w) = Some w"
  shows "visible_in db p w \<longleftrightarrow> can_see_workspace db (Some p) (Some (w_id w))"
proof (cases "is_bootstrap_admin p")
  case True
  then show ?thesis
    by (simp add: visible_in_def can_see_workspace_def visible_workspace_ids_def)
next
  case False
  then obtain os where os: "visible_org_ids p = Some os"
    by (cases "is_runtime p") (auto simp: visible_org_ids_def)
  show ?thesis
    unfolding can_see_workspace_filtered[OF assms(1) os]
    using False os assms(2) by (auto simp: visible_in_def workspace_org_id_def split: option.splits)
qed

end
