(* ===== verification/WorkAssignments.thy ===== *)
theory WorkAssignments imports Peers begin

text \<open>
  Models \<open>src/brains/control/work_assignments.py\<close>: durable work requests and the attempts of
  Sessions to carry them out. Every mutation is a compare-and-set on the revision of its
  assignment. An operation returns the error that rolls it back, or what it answers and the store
  it commits. The text column \<open>specification_json\<close> holds \<open>dumps_raw\<close> of \<open>spec_json\<close> of a validated
  specification and is kept as that \<open>work_spec\<close>.
\<close>

section \<open>Rows\<close>

datatype work_status =
    WReady
  | WAccepted
  | WCancelRequested
  | WCompleted
  | WFailed
  | WCancelled
  | WUncertain

definition UNRESOLVED :: "work_status list" where
  "UNRESOLVED = [WAccepted, WCancelRequested, WUncertain]"

definition CONCLUSIVE :: "work_status list" where
  "CONCLUSIVE = [WCompleted, WFailed, WCancelled]"

definition SPEC_LIMIT :: nat where "SPEC_LIMIT = 32 * 1024"
definition TEXT_LIMIT :: nat where "TEXT_LIMIT = 64 * 1024"
definition DEFAULT_MAX_RUNTIME_SECONDS :: int where "DEFAULT_MAX_RUNTIME_SECONDS = 3600"
definition MAX_RUNTIME_SECONDS :: int where "MAX_RUNTIME_SECONDS = 7 * 24 * 3600"

datatype creator_kind = CreatorSession | CreatorOperator

record work_spec =
  sp_objective :: pystr
  sp_context :: "pystr option"
  sp_checkout_ref :: "pystr option"
  sp_tool :: "pystr option"
  sp_deadline :: "instant option"
  sp_max_runtime :: "int option"
  sp_links :: "pystr list option"

record assignment_row =
  wa_code :: pystr
  wa_workspace_id :: int
  wa_creator_operator_id :: int
  wa_creator_kind :: creator_kind
  wa_creator_session_id :: "pystr option"
  wa_idempotency_key :: pystr
  wa_request_hash :: pystr
  wa_title :: pystr
  wa_spec_version :: int
  wa_specification :: work_spec
  wa_specification_hash :: pystr
  wa_status :: work_status
  wa_revision :: int
  wa_generation :: int
  wa_created_at :: instant
  wa_updated_at :: instant
  wa_cancel_requested_at :: "instant option"
  wa_cancel_requested_by :: "pystr option"

record attempt_row =
  wt_attempt_id :: pystr
  wt_assignment_code :: pystr
  wt_generation :: int
  wt_source_session_id :: pystr
  wt_tool :: pystr
  wt_status :: work_status
  wt_accepted_at :: instant
  wt_deadline_at :: instant
  wt_max_runtime_seconds :: int
  wt_cancel_requested_at :: "instant option"
  wt_reported_at :: "instant option"
  wt_settled_at :: "instant option"
  wt_evidence :: "pystr option"
  wt_result :: "pystr option"
  wt_usage :: "json option"

record work_db = event_db +
  wassigns :: "assignment_row list"
  wattempts :: "attempt_row list"

datatype work_error =
    BadSpecification
  | BadOutcome
  | IdempotencyConflict
  | StaleRevision
  | NotReady
  | DeadlineExceeded
  | AlreadyReported
  | CannotSettle
  | CompletionAfterCancellation
  | CannotCancel
  | RetryNeedsConclusion

type_synonym 'r work_result = "work_error peer_error + 'r"

definition unresolved :: "attempt_row \<Rightarrow> bool" where
  "unresolved t \<longleftrightarrow> wt_status t \<in> set UNRESOLVED"

definition conclusive :: "attempt_row \<Rightarrow> bool" where
  "conclusive t \<longleftrightarrow> wt_status t \<in> set CONCLUSIVE"

section \<open>Tables and their constraints\<close>

definition get_assignment :: "'a work_db_scheme \<Rightarrow> pystr \<Rightarrow> assignment_row option" where
  "get_assignment db code = row_by wa_code code (wassigns db)"

definition get_attempt :: "'a work_db_scheme \<Rightarrow> pystr \<Rightarrow> attempt_row option" where
  "get_attempt db aid = row_by wt_attempt_id aid (wattempts db)"

definition attempts_of :: "'a work_db_scheme \<Rightarrow> pystr \<Rightarrow> attempt_row list" where
  "attempts_of db code = sort_key wt_generation (filter (\<lambda>t. wt_assignment_code t = code) (wattempts db))"

definition insert_assignment :: "assignment_row \<Rightarrow> 'a work_db_scheme \<Rightarrow> 'a work_db_scheme work_result" where
  "insert_assignment row db =
     (if \<exists>r\<in>set (wassigns db). wa_code r = wa_code row
            \<or> (wa_workspace_id r = wa_workspace_id row
               \<and> wa_creator_operator_id r = wa_creator_operator_id row
               \<and> wa_idempotency_key r = wa_idempotency_key row)
      then Inl IntegrityError
      else Inr (db\<lparr>wassigns := wassigns db @ [row]\<rparr>))"

text \<open>The CHECK constraints of an attempt, and the index that allows one live attempt.\<close>

definition attempt_checks :: "attempt_row \<Rightarrow> bool" where
  "attempt_checks t \<longleftrightarrow>
     1 \<le> wt_generation t \<and> 1 \<le> wt_max_runtime_seconds t \<and> wt_max_runtime_seconds t \<le> 604800 \<and>
     wt_status t \<noteq> WReady \<and> (conclusive t \<longleftrightarrow> wt_settled_at t \<noteq> None)"

definition live_elsewhere :: "attempt_row \<Rightarrow> 'a work_db_scheme \<Rightarrow> bool" where
  "live_elsewhere t db \<longleftrightarrow>
     unresolved t \<and> (\<exists>u\<in>set (wattempts db). wt_attempt_id u \<noteq> wt_attempt_id t
       \<and> wt_assignment_code u = wt_assignment_code t \<and> unresolved u)"

definition insert_attempt :: "attempt_row \<Rightarrow> 'a work_db_scheme \<Rightarrow> 'a work_db_scheme work_result" where
  "insert_attempt t db =
     (if \<not> attempt_checks t \<or> live_elsewhere t db
         \<or> (\<exists>u\<in>set (wattempts db). wt_attempt_id u = wt_attempt_id t
              \<or> (wt_assignment_code u = wt_assignment_code t \<and> wt_generation u = wt_generation t))
      then Inl IntegrityError
      else Inr (db\<lparr>wattempts := wattempts db @ [t]\<rparr>))"

text \<open>The flush of a loaded attempt whose status, evidence and times changed.\<close>

definition put_attempt :: "attempt_row \<Rightarrow> 'a work_db_scheme \<Rightarrow> 'a work_db_scheme work_result" where
  "put_attempt t db =
     (if \<not> attempt_checks t \<or> live_elsewhere t db then Inl IntegrityError
      else Inr (db\<lparr>wattempts :=
             update_where (\<lambda>u. wt_attempt_id u = wt_attempt_id t) (\<lambda>_. t) (wattempts db)\<rparr>))"

section \<open>Specifications\<close>

definition opt_member :: "string \<Rightarrow> ('x \<Rightarrow> json) \<Rightarrow> 'x option \<Rightarrow> (pystr \<times> json) list" where
  "opt_member key f x = (case x of None \<Rightarrow> [] | Some v \<Rightarrow> [(lit key, f v)])"

definition spec_json :: "work_spec \<Rightarrow> json" where
  "spec_json sp = JDict
     (opt_member ''checkout_ref'' JStr (sp_checkout_ref sp)
      @ opt_member ''context'' JStr (sp_context sp)
      @ opt_member ''deadline'' (\<lambda>t. JStr (isoformat t)) (sp_deadline sp)
      @ opt_member ''links'' (\<lambda>ls. JList (map JStr ls)) (sp_links sp)
      @ opt_member ''max_runtime_seconds'' JInt (sp_max_runtime sp)
      @ [(lit ''objective'', JStr (sp_objective sp))]
      @ opt_member ''tool'' JStr (sp_tool sp)
      @ [(lit ''version'', JInt 1)])"

definition SPEC_KEYS :: "string list" where
  "SPEC_KEYS = [''version'', ''objective'', ''context'', ''deadline'', ''max_runtime_seconds'',
     ''checkout_ref'', ''links'', ''tool'']"

definition work_specification :: "peer_env \<Rightarrow> pyval \<Rightarrow> work_spec work_result" where
  "work_specification env value =
     (case value of
        PDict d \<Rightarrow>
          if \<not> keys_within SPEC_KEYS d then Inl (Refused BadSpecification) else
            bind_result (int_arg ''version'' 1 1 (get_or d ''version'' (PInt 1))) (\<lambda>_.
            bind_result (text_arg ''objective'' SPEC_LIMIT True (get_or d ''objective'' PNone)) (\<lambda>objective.
            bind_result (if_present d ''context'' (text_arg ''context'' SPEC_LIMIT False)) (\<lambda>context.
            bind_result (if_present d ''checkout_ref'' (text_arg ''checkout_ref'' 2048 False)) (\<lambda>ref.
            bind_result (if_present d ''tool'' (text_arg ''tool'' 64 False)) (\<lambda>tool.
            bind_result (if_present d ''deadline'' (deadline_arg env)) (\<lambda>deadline.
            bind_result (if_present d ''max_runtime_seconds''
                           (int_arg ''max_runtime_seconds'' 1 MAX_RUNTIME_SECONDS)) (\<lambda>runtime.
            bind_result (if_present d ''links'' (list_arg ''links'' ''link'')) (\<lambda>links.
              let sp = \<lparr>sp_objective = objective, sp_context = context, sp_checkout_ref = ref,
                        sp_tool = tool, sp_deadline = deadline, sp_max_runtime = runtime,
                        sp_links = links\<rparr>
              in bind_result (text_arg ''specification'' SPEC_LIMIT False
                                (PStr (dumps_raw (spec_json sp)))) (\<lambda>_. Inr sp)))))))))
      | _ \<Rightarrow> Inl (Refused BadSpecification))"

section \<open>Reads\<close>

text \<open>
  What an answer says of an attempt beyond its columns, and of an assignment beyond its row: the
  other members of the answer are the columns themselves, times in \<open>isoformat\<close>.
\<close>

record attempt_view =
  tv_row :: attempt_row
  tv_observed_status :: work_status
  tv_deadline_exceeded :: bool
  tv_source_unavailable :: bool

record assignment_view =
  av_row :: assignment_row
  av_observed_status :: work_status
  av_deadline_exceeded :: bool
  av_current_attempt_id :: "pystr option"
  av_attempts :: "attempt_view list"

definition source_unavailable :: "instant \<Rightarrow> 'a live_db_scheme \<Rightarrow> pystr \<Rightarrow> bool" where
  "source_unavailable now db sid =
     (case get_agent db sid of
        None \<Rightarrow> True
      | Some source \<Rightarrow>
          s_ended_at source \<noteq> None
          \<or> s_state source \<in> {''completed'', ''failed'', ''cancelled'', ''dormant''}
          \<or> (s_pid source = None \<and>
             (case get_lease db sid of None \<Rightarrow> False | Some l \<Rightarrow> sl_expires_at l < now)))"

definition view_attempt :: "instant \<Rightarrow> 'a live_db_scheme \<Rightarrow> attempt_row \<Rightarrow> attempt_view" where
  "view_attempt now db t =
     (let expired = unresolved t \<and> now \<ge> wt_deadline_at t;
          unavailable = unresolved t \<and> source_unavailable now db (wt_source_session_id t)
      in \<lparr>tv_row = t,
          tv_observed_status = (if expired \<or> unavailable then WUncertain else wt_status t),
          tv_deadline_exceeded = expired, tv_source_unavailable = unavailable\<rparr>)"

definition snapshot :: "peer_env \<Rightarrow> 'a work_db_scheme \<Rightarrow> assignment_row \<Rightarrow> assignment_view" where
  "snapshot env db row =
     (let views = map (view_attempt (pe_now env) db) (attempts_of db (wa_code row));
          current = (if views = [] then None else Some (last views))
      in \<lparr>av_row = row,
          av_observed_status =
            (case current of
               Some c \<Rightarrow> if wa_status row \<in> set UNRESOLVED then tv_observed_status c else wa_status row
             | None \<Rightarrow> wa_status row),
          av_deadline_exceeded = (case current of None \<Rightarrow> False | Some c \<Rightarrow> tv_deadline_exceeded c),
          av_current_attempt_id = map_option (\<lambda>c. wt_attempt_id (tv_row c)) current,
          av_attempts = views\<rparr>)"

definition with_session_lifecycle ::
    "peer_env \<Rightarrow> principal \<Rightarrow> pyval \<Rightarrow> 'a live_db_scheme \<Rightarrow> (session_row \<times> workspace_row) work_result" where
  "with_session_lifecycle env p sid db =
     enter_session True (text_arg ''session_id'' 32 True) env p sid db"

definition with_operator_workspace ::
    "peer_env \<Rightarrow> principal \<Rightarrow> bool \<Rightarrow> pyval \<Rightarrow> 'a live_db_scheme \<Rightarrow> workspace_row work_result" where
  "with_operator_workspace env p write ws db = enter_operator ''work assignment'' env p write ws db"

definition owned_by :: "principal \<Rightarrow> workspace_row \<Rightarrow> assignment_row \<Rightarrow> bool" where
  "owned_by p w row \<longleftrightarrow>
     wa_workspace_id row = w_id w \<and> Some (wa_creator_operator_id row) = operator_id p"

definition assignment :: "'a work_db_scheme \<Rightarrow> pyval \<Rightarrow> workspace_row \<Rightarrow> principal \<Rightarrow> assignment_row work_result" where
  "assignment db code w p =
     bind_result (text_arg ''code'' 39 True code) (\<lambda>c.
       case get_assignment db c of
         None \<Rightarrow> Inl Unavailable
       | Some row \<Rightarrow> if \<not> owned_by p w row then Inl Unavailable else Inr row)"

definition listing :: "'a work_db_scheme \<Rightarrow> principal \<Rightarrow> workspace_row \<Rightarrow> int \<Rightarrow> assignment_row list" where
  "listing db p w limit =
     take (nat limit) (sort_key (\<lambda>r. - wa_created_at r)
       (sort_key wa_code (filter (owned_by p w) (wassigns db))))"

section \<open>Writing a transition\<close>

definition check_revision :: "assignment_row \<Rightarrow> pyval \<Rightarrow> int work_result" where
  "check_revision row expected =
     bind_result (int_arg ''expected_revision'' 1 (2 ^ 63 - 2) expected) (\<lambda>e.
       if wa_revision row \<noteq> e then Inl (Refused StaleRevision) else Inr e)"

text \<open>The compare-and-set: one \<open>UPDATE ... WHERE code AND revision\<close>, then the row is read again.\<close>

definition work_cas ::
    "instant \<Rightarrow> assignment_row \<Rightarrow> int \<Rightarrow> (assignment_row \<Rightarrow> assignment_row) \<Rightarrow> 'a work_db_scheme
     \<Rightarrow> (assignment_row \<times> 'a work_db_scheme) work_result" where
  "work_cas now row expected values db =
     (let hit = (\<lambda>r. wa_code r = wa_code row \<and> wa_revision r = expected);
          db' = db\<lparr>wassigns := update_where hit
                    (\<lambda>r. (values r)\<lparr>wa_revision := expected + 1, wa_updated_at := now\<rparr>) (wassigns db)\<rparr>
      in if rows_matching hit (wassigns db) \<noteq> 1 then Inl (Refused StaleRevision)
         else case get_assignment db' (wa_code row) of
                None \<Rightarrow> Inl (PythonError ''InvalidRequestError'')
              | Some r \<Rightarrow> Inr (r, db'))"

definition record_event ::
    "peer_env \<Rightarrow> assignment_row \<Rightarrow> string \<Rightarrow> attribution \<Rightarrow> 'a work_db_scheme
     \<Rightarrow> 'a work_db_scheme work_result" where
  "record_event env row action who db =
     record_transition env ''work_assignment_'' action (wa_workspace_id row) (wa_code row)
       [(lit ''code'', JStr (wa_code row)), (lit ''revision'', JInt (wa_revision row)),
        (lit ''generation'', JInt (wa_generation row))] who db"

definition finish ::
    "peer_env \<Rightarrow> assignment_row \<Rightarrow> session_row \<Rightarrow> string \<Rightarrow> 'a work_db_scheme
     \<Rightarrow> (assignment_view \<times> 'a work_db_scheme) work_result" where
  "finish env row actor action db =
     bind_result (map_left NotLive
       (require_live_session (pe_lease_cfg env) (pe_now env) True (Some (s_id actor)) db)) (\<lambda>(_, db1).
     bind_result (record_event env row action (BySession (s_id actor)) db1) (\<lambda>db2.
       Inr (snapshot env db2 row, db2)))"

text \<open>The answer to an operator adds whether it may cancel, and the reason if not.\<close>

definition operator_snapshot ::
    "peer_env \<Rightarrow> principal \<Rightarrow> 'a work_db_scheme \<Rightarrow> assignment_row
     \<Rightarrow> (assignment_view \<times> string option) work_result" where
  "operator_snapshot env p db row =
     (let view = snapshot env db row
      in if \<not> is_human_channel p then Inr (view, Some ''human_channel_required'')
         else case get_workspace_row (lbase db) (wa_workspace_id row) of
                None \<Rightarrow> Inl Unavailable
              | Some w \<Rightarrow>
                  Inr (view,
                    if \<not> has_capability p CAP_ORG_WRITE (or_default (lbase db) (w_org_id w))
                    then Some ''write_capability_required''
                    else if wa_status row \<in> {WCancelled, WCancelRequested}
                            \<or> (wa_status row = WUncertain \<and> wa_cancel_requested_at row \<noteq> None)
                    then Some ''cancellation_already_requested''
                    else if wa_status row \<notin> {WReady, WAccepted, WUncertain}
                    then Some ''assignment_not_cancellable'' else None))"

definition finish_operator ::
    "peer_env \<Rightarrow> principal \<Rightarrow> assignment_row \<Rightarrow> string \<Rightarrow> 'a work_db_scheme
     \<Rightarrow> ((assignment_view \<times> string option) \<times> 'a work_db_scheme) work_result" where
  "finish_operator env p row action db =
     bind_result (record_event env row action (ByOperator (operator_id p) (channel p)) db) (\<lambda>db1.
     bind_result (operator_snapshot env p db1 row) (\<lambda>view. Inr (view, db1)))"

text \<open>A retry at the current state answers without a write.\<close>

definition answer ::
    "peer_env \<Rightarrow> assignment_row \<Rightarrow> 'a work_db_scheme \<Rightarrow> (assignment_view \<times> 'a work_db_scheme) work_result" where
  "answer env row db = Inr (snapshot env db row, db)"

definition answer_operator ::
    "peer_env \<Rightarrow> principal \<Rightarrow> assignment_row \<Rightarrow> 'a work_db_scheme
     \<Rightarrow> ((assignment_view \<times> string option) \<times> 'a work_db_scheme) work_result" where
  "answer_operator env p row db = bind_result (operator_snapshot env p db row) (\<lambda>view. Inr (view, db))"

section \<open>Operations\<close>

definition request_json :: "pystr \<Rightarrow> work_spec \<Rightarrow> creator_kind option \<Rightarrow> json" where
  "request_json title sp kind = JDict
     (opt_member ''creator_kind''
        (\<lambda>k. JStr (lit (case k of CreatorSession \<Rightarrow> ''session'' | CreatorOperator \<Rightarrow> ''operator''))) kind
      @ [(lit ''specification'', spec_json sp), (lit ''title'', JStr title)])"

definition request_hash_of :: "peer_env \<Rightarrow> pystr \<Rightarrow> work_spec \<Rightarrow> creator_kind option \<Rightarrow> pystr" where
  "request_hash_of env title sp kind = pe_sha env (dumps_raw (request_json title sp kind))"

text \<open>The row of a creation and whether this call created it; rows of old releases hash no author kind.\<close>

definition create_assignment ::
    "peer_env \<Rightarrow> workspace_row \<Rightarrow> int \<Rightarrow> pystr \<Rightarrow> work_spec \<Rightarrow> pystr \<Rightarrow> creator_kind \<Rightarrow> pystr option
     \<Rightarrow> 'a work_db_scheme \<Rightarrow> (assignment_row \<times> bool \<times> 'a work_db_scheme) work_result" where
  "create_assignment env w oid title sp key kind sid db =
     (let hash = request_hash_of env title sp (Some kind)
      in case find (\<lambda>r. wa_workspace_id r = w_id w \<and> wa_creator_operator_id r = oid
                       \<and> wa_idempotency_key r = key) (wassigns db) of
           Some row \<Rightarrow>
             if wa_creator_kind row \<noteq> kind
                \<or> (wa_request_hash row \<noteq> hash
                   \<and> \<not> (kind = CreatorSession \<and> wa_request_hash row = request_hash_of env title sp None))
             then Inl (Refused IdempotencyConflict)
             else Inr (row, False, db)
         | None \<Rightarrow>
             let row = \<lparr>wa_code = lit ''WA-'' @ pe_uuid env, wa_workspace_id = w_id w,
                        wa_creator_operator_id = oid, wa_creator_kind = kind,
                        wa_creator_session_id = sid, wa_idempotency_key = key, wa_request_hash = hash,
                        wa_title = title, wa_spec_version = 1, wa_specification = sp,
                        wa_specification_hash = pe_sha env (dumps_raw (spec_json sp)),
                        wa_status = WReady, wa_revision = 1, wa_generation = 0,
                        wa_created_at = pe_now env, wa_updated_at = pe_now env,
                        wa_cancel_requested_at = None, wa_cancel_requested_by = None\<rparr>
             in bind_result (insert_assignment row db) (\<lambda>db'. Inr (row, True, db')))"

definition create_work_assignment ::
    "peer_env \<Rightarrow> principal \<Rightarrow> pyval \<Rightarrow> pyval \<Rightarrow> pyval \<Rightarrow> pyval \<Rightarrow> pyval \<Rightarrow> 'a work_db_scheme
     \<Rightarrow> (assignment_view \<times> 'a work_db_scheme) work_result" where
  "create_work_assignment env p path title spec sid key db =
     bind_result (text_arg ''title'' 256 True title) (\<lambda>ttl.
     bind_result (text_arg ''idempotency_key'' 128 True key) (\<lambda>k.
     bind_result (work_specification env spec) (\<lambda>sp.
     bind_result (with_session_lifecycle env p sid db) (\<lambda>(actor, w).
     bind_result (workspace_path db w path) (\<lambda>_.
     bind_result (create_assignment env w (the (operator_id p)) ttl sp k CreatorSession
                    (Some (s_id actor)) db) (\<lambda>(row, created, db').
       if \<not> created then answer env row db' else finish env row actor ''created'' db'))))))"

definition create_operator_assignment ::
    "peer_env \<Rightarrow> principal \<Rightarrow> pyval \<Rightarrow> pyval \<Rightarrow> pyval \<Rightarrow> pyval \<Rightarrow> 'a work_db_scheme
     \<Rightarrow> ((assignment_view \<times> string option) \<times> 'a work_db_scheme) work_result" where
  "create_operator_assignment env p ws title spec key db =
     bind_result (text_arg ''title'' 256 True title) (\<lambda>ttl.
     bind_result (text_arg ''idempotency_key'' 128 True key) (\<lambda>k.
     bind_result (work_specification env spec) (\<lambda>sp.
     bind_result (with_operator_workspace env p True ws db) (\<lambda>w.
     bind_result (create_assignment env w (the (operator_id p)) ttl sp k CreatorOperator None db)
       (\<lambda>(row, created, db').
       if \<not> created then answer_operator env p row db'
       else finish_operator env p row ''created'' db')))))"

definition list_operator_assignments ::
    "peer_env \<Rightarrow> principal \<Rightarrow> pyval \<Rightarrow> pyval \<Rightarrow> 'a work_db_scheme
     \<Rightarrow> (assignment_view \<times> string option) list work_result" where
  "list_operator_assignments env p ws limit db =
     bind_result (int_arg ''limit'' 1 200 limit) (\<lambda>n.
     bind_result (with_operator_workspace env p False ws db) (\<lambda>w.
       map_result (operator_snapshot env p db) (listing db p w n)))"

definition get_operator_assignment ::
    "peer_env \<Rightarrow> principal \<Rightarrow> pyval \<Rightarrow> pyval \<Rightarrow> 'a work_db_scheme
     \<Rightarrow> (assignment_view \<times> string option) work_result" where
  "get_operator_assignment env p ws code db =
     bind_result (with_operator_workspace env p False ws db) (\<lambda>w.
     bind_result (assignment db code w p) (\<lambda>row. operator_snapshot env p db row))"

definition get_work_assignment ::
    "peer_env \<Rightarrow> principal \<Rightarrow> pyval \<Rightarrow> pyval \<Rightarrow> 'a work_db_scheme \<Rightarrow> assignment_view work_result" where
  "get_work_assignment env p code sid db =
     bind_result (with_session_lifecycle env p sid db) (\<lambda>(actor, w).
     bind_result (assignment db code w p) (\<lambda>row. Inr (snapshot env db row)))"

definition list_work_assignments ::
    "peer_env \<Rightarrow> principal \<Rightarrow> pyval \<Rightarrow> pyval \<Rightarrow> pyval \<Rightarrow> 'a work_db_scheme
     \<Rightarrow> assignment_view list work_result" where
  "list_work_assignments env p path sid limit db =
     bind_result (int_arg ''limit'' 1 200 limit) (\<lambda>n.
     bind_result (with_session_lifecycle env p sid db) (\<lambda>(actor, w).
     bind_result (workspace_path db w path) (\<lambda>_.
       Inr (map (snapshot env db) (listing db p w n)))))"

text \<open>The latest attempt, \<open>attempts[-1]\<close>.\<close>

definition last_attempt :: "'a work_db_scheme \<Rightarrow> pystr \<Rightarrow> attempt_row work_result" where
  "last_attempt db code =
     (let ats = attempts_of db code
      in if ats = [] then Inl (PythonError ''IndexError'') else Inr (last ats))"

text \<open>The deadline an accepted attempt gets: the budget, cut by the specification's own deadline.\<close>

definition budget_of :: "work_spec \<Rightarrow> int" where
  "budget_of sp = (case sp_max_runtime sp of None \<Rightarrow> DEFAULT_MAX_RUNTIME_SECONDS | Some b \<Rightarrow> b)"

definition attempt_deadline :: "peer_env \<Rightarrow> work_spec \<Rightarrow> instant work_result" where
  "attempt_deadline env sp =
     (let due = pe_now env + seconds (budget_of sp)
      in case sp_deadline sp of
           None \<Rightarrow> Inr due
         | Some t \<Rightarrow> bind_result (deadline_arg env (PStr (isoformat t))) (\<lambda>d. Inr (min due d)))"

definition open_attempt ::
    "peer_env \<Rightarrow> assignment_row \<Rightarrow> int \<Rightarrow> session_row \<Rightarrow> 'a work_db_scheme
     \<Rightarrow> (assignment_view \<times> 'a work_db_scheme) work_result" where
  "open_attempt env row e actor db =
     bind_result (attempt_deadline env (wa_specification row)) (\<lambda>due.
       if due \<le> pe_now env then Inl (Refused DeadlineExceeded)
       else
         bind_result (work_cas (pe_now env) row e
             (\<lambda>r. r\<lparr>wa_status := WAccepted, wa_generation := wa_generation row + 1\<rparr>) db) (\<lambda>(row1, db1).
         bind_result (insert_attempt
             \<lparr>wt_attempt_id = pe_uuid env, wt_assignment_code = wa_code row1,
              wt_generation = wa_generation row1, wt_source_session_id = s_id actor,
              wt_tool = s_tool actor, wt_status = WAccepted, wt_accepted_at = pe_now env,
              wt_deadline_at = due, wt_max_runtime_seconds = budget_of (wa_specification row),
              wt_cancel_requested_at = None, wt_reported_at = None, wt_settled_at = None,
              wt_evidence = None, wt_result = None, wt_usage = None\<rparr> db1) (\<lambda>db2.
           finish env row1 actor ''accepted'' db2)))"

definition accept_work_assignment ::
    "peer_env \<Rightarrow> principal \<Rightarrow> pyval \<Rightarrow> pyval \<Rightarrow> pyval \<Rightarrow> 'a work_db_scheme
     \<Rightarrow> (assignment_view \<times> 'a work_db_scheme) work_result" where
  "accept_work_assignment env p code sid expected db =
     bind_result (with_session_lifecycle env p sid db) (\<lambda>(actor, w).
     bind_result (assignment db code w p) (\<lambda>row.
     bind_result (check_revision row expected) (\<lambda>e.
     bind_result (if wa_status row = WAccepted
                  then bind_result (last_attempt db (wa_code row))
                         (\<lambda>t. Inr (wt_source_session_id t = s_id actor))
                  else Inr False) (\<lambda>mine.
       if mine then answer env row db
       else if wa_status row \<noteq> WReady \<or> (\<exists>t\<in>set (attempts_of db (wa_code row)). unresolved t)
       then Inl (Refused NotReady)
       else open_attempt env row e actor db))))"

definition outcome_arg :: "pyval \<Rightarrow> work_status work_result" where
  "outcome_arg v =
     (if v = PStr (lit ''completed'') then Inr WCompleted
      else if v = PStr (lit ''failed'') then Inr WFailed
      else if v = PStr (lit ''cancelled'') then Inr WCancelled
      else if v = PStr (lit ''uncertain'') then Inr WUncertain
      else Inl (Refused BadOutcome))"

definition settle_attempt ::
    "peer_env \<Rightarrow> assignment_row \<Rightarrow> int \<Rightarrow> session_row \<Rightarrow> attempt_row \<Rightarrow> work_status \<Rightarrow> pystr \<Rightarrow> pystr
     \<Rightarrow> 'a work_db_scheme \<Rightarrow> (assignment_view \<times> 'a work_db_scheme) work_result" where
  "settle_attempt env row e actor t outcome evidence result db =
     (if wt_status t \<in> set CONCLUSIVE \<or> wt_status t = WUncertain
      then if wt_status t = outcome \<and> wt_evidence t = Some evidence \<and> wt_result t = Some result
           then answer env row db else Inl (Refused AlreadyReported)
      else if wa_status row \<notin> {WAccepted, WCancelRequested} then Inl (Refused CannotSettle)
      else if wa_status row = WCancelRequested \<and> outcome = WCompleted
      then Inl (Refused CompletionAfterCancellation)
      else
        bind_result (work_cas (pe_now env) row e (\<lambda>r. r\<lparr>wa_status := outcome\<rparr>) db) (\<lambda>(row1, db1).
        bind_result (put_attempt (t\<lparr>wt_status := outcome, wt_evidence := Some evidence,
            wt_result := Some result, wt_reported_at := Some (pe_now env),
            wt_settled_at := (if outcome \<in> set CONCLUSIVE then Some (pe_now env) else None)\<rparr>) db1) (\<lambda>db2.
          finish env row1 actor ''settled'' db2)))"

definition settle_work_assignment ::
    "peer_env \<Rightarrow> principal \<Rightarrow> pyval \<Rightarrow> pyval \<Rightarrow> pyval \<Rightarrow> pyval \<Rightarrow> pyval \<Rightarrow> pyval \<Rightarrow> pyval
     \<Rightarrow> 'a work_db_scheme \<Rightarrow> (assignment_view \<times> 'a work_db_scheme) work_result" where
  "settle_work_assignment env p code aid outcome evidence sid expected result db =
     bind_result (text_arg ''attempt_id'' 36 True aid) (\<lambda>i.
     bind_result (outcome_arg outcome) (\<lambda>oc.
     bind_result (text_arg ''evidence'' TEXT_LIMIT True evidence) (\<lambda>ev.
     bind_result (text_arg ''result'' TEXT_LIMIT False result) (\<lambda>res.
     bind_result (with_session_lifecycle env p sid db) (\<lambda>(actor, w).
     bind_result (assignment db code w p) (\<lambda>row.
     bind_result (check_revision row expected) (\<lambda>e.
       case get_attempt db i of
         None \<Rightarrow> Inl Unavailable
       | Some t \<Rightarrow>
           if wt_assignment_code t \<noteq> wa_code row \<or> wt_source_session_id t \<noteq> s_id actor
              \<or> wt_generation t \<noteq> wa_generation row
           then Inl Unavailable
           else settle_attempt env row e actor t oc ev res db)))))))"

text \<open>The transition of a cancellation and the event it records, \<open>None\<close> where nothing changes.\<close>

definition cancel_status :: "work_status \<Rightarrow> work_status" where
  "cancel_status st =
     (if st = WReady then WCancelled else if st = WUncertain then WUncertain else WCancelRequested)"

definition cancel_assignment ::
    "peer_env \<Rightarrow> assignment_row \<Rightarrow> pyval \<Rightarrow> pystr option \<Rightarrow> 'a work_db_scheme
     \<Rightarrow> (string option \<times> assignment_row \<times> 'a work_db_scheme) work_result" where
  "cancel_assignment env row expected sid db =
     bind_result (check_revision row expected) (\<lambda>e.
       if wa_status row \<in> {WCancelled, WCancelRequested} then Inr (None, row, db)
       else if wa_status row \<notin> {WReady, WAccepted, WUncertain} then Inl (Refused CannotCancel)
       else if wa_status row = WUncertain \<and> wa_cancel_requested_at row \<noteq> None then Inr (None, row, db)
       else
         let now = pe_now env;
             status = cancel_status (wa_status row)
         in bind_result (work_cas now row e (\<lambda>r. r\<lparr>wa_status := status,
                wa_cancel_requested_at := Some now, wa_cancel_requested_by := sid\<rparr>) db) (\<lambda>(row1, db1).
            bind_result (if wa_generation row1 \<noteq> 0 \<and> status \<noteq> WCancelled
                         then bind_result (last_attempt db1 (wa_code row1)) (\<lambda>t.
                                put_attempt (t\<lparr>wt_cancel_requested_at := Some now, wt_status := status\<rparr>) db1)
                         else Inr db1) (\<lambda>db2.
              Inr (Some (if status = WCancelled then ''cancelled'' else ''cancel_requested''), row1, db2))))"

definition cancel_work_assignment ::
    "peer_env \<Rightarrow> principal \<Rightarrow> pyval \<Rightarrow> pyval \<Rightarrow> pyval \<Rightarrow> 'a work_db_scheme
     \<Rightarrow> (assignment_view \<times> 'a work_db_scheme) work_result" where
  "cancel_work_assignment env p code sid expected db =
     bind_result (with_session_lifecycle env p sid db) (\<lambda>(actor, w).
     bind_result (assignment db code w p) (\<lambda>row.
     bind_result (cancel_assignment env row expected (Some (s_id actor)) db) (\<lambda>(action, row1, db1).
       case action of None \<Rightarrow> answer env row1 db1 | Some a \<Rightarrow> finish env row1 actor a db1)))"

definition cancel_operator_assignment ::
    "peer_env \<Rightarrow> principal \<Rightarrow> pyval \<Rightarrow> pyval \<Rightarrow> pyval \<Rightarrow> 'a work_db_scheme
     \<Rightarrow> ((assignment_view \<times> string option) \<times> 'a work_db_scheme) work_result" where
  "cancel_operator_assignment env p ws code expected db =
     bind_result (with_operator_workspace env p True ws db) (\<lambda>w.
     bind_result (assignment db code w p) (\<lambda>row.
     bind_result (cancel_assignment env row expected None db) (\<lambda>(action, row1, db1).
       case action of None \<Rightarrow> answer_operator env p row1 db1
                    | Some a \<Rightarrow> finish_operator env p row1 a db1)))"

definition retry_work_assignment ::
    "peer_env \<Rightarrow> principal \<Rightarrow> pyval \<Rightarrow> pyval \<Rightarrow> pyval \<Rightarrow> 'a work_db_scheme
     \<Rightarrow> (assignment_view \<times> 'a work_db_scheme) work_result" where
  "retry_work_assignment env p code sid expected db =
     bind_result (with_session_lifecycle env p sid db) (\<lambda>(actor, w).
     bind_result (assignment db code w p) (\<lambda>row.
     bind_result (check_revision row expected) (\<lambda>e.
       if wa_status row \<notin> {WFailed, WCancelled}
          \<or> (\<exists>t\<in>set (attempts_of db (wa_code row)). \<not> conclusive t \<or> wt_settled_at t = None)
       then Inl (Refused RetryNeedsConclusion)
       else
         bind_result (work_cas (pe_now env) row e (\<lambda>r. r\<lparr>wa_status := WReady,
             wa_cancel_requested_at := None, wa_cancel_requested_by := None\<rparr>) db) (\<lambda>(row1, db1).
           finish env row1 actor ''retried'' db1))))"

text \<open>Reconciliation needs no Session: it settles an attempt that cannot end on its own.\<close>

definition due_for_reconciliation :: "instant \<Rightarrow> 'a live_db_scheme \<Rightarrow> assignment_row \<Rightarrow> attempt_row \<Rightarrow> bool"
where
  "due_for_reconciliation now db row t \<longleftrightarrow>
     now \<ge> wt_deadline_at t \<or> source_unavailable now db (wt_source_session_id t)
     \<or> wa_status row = WCancelRequested"

definition reconciled :: "instant \<Rightarrow> assignment_row \<Rightarrow> attempt_row \<Rightarrow> work_status \<times> pystr" where
  "reconciled now row t =
     (if wa_status row = WCancelRequested \<or> wt_status t = WCancelRequested
      then (WCancelled, lit ''cancellation requested and settled by reconciliation'')
      else if now \<ge> wt_deadline_at t
      then (WFailed, lit ''runtime budget exceeded ('' @ str_of_int (wt_max_runtime_seconds t)
                       @ lit ''s deadline)'')
      else (WFailed, lit ''source session terminated or lease expired during execution''))"

definition reconcile_assignment_attempts ::
    "peer_env \<Rightarrow> pystr \<Rightarrow> 'a work_db_scheme \<Rightarrow> (assignment_view \<times> 'a work_db_scheme) work_result" where
  "reconcile_assignment_attempts env code db =
     (case get_assignment db code of
        None \<Rightarrow> Inl Unavailable
      | Some row \<Rightarrow>
          let ats = attempts_of db (wa_code row); now = pe_now env; current = last ats
          in if ats = [] \<or> wa_status row \<notin> set UNRESOLVED then answer env row db
             else if \<not> unresolved current then answer env row db
             else if \<not> due_for_reconciliation now db row current then answer env row db
             else
               let (status, evidence) = reconciled now row current
               in bind_result (work_cas now row (wa_revision row) (\<lambda>r. r\<lparr>wa_status := status\<rparr>) db)
                    (\<lambda>(row1, db1).
                  bind_result (put_attempt (current\<lparr>wt_status := status, wt_evidence := Some evidence,
                      wt_reported_at := Some now, wt_settled_at := Some now\<rparr>) db1) (\<lambda>db2.
                    answer env row1 db2)))"

end
