(* ===== verification/Revisions.thy ===== *)
theory Revisions imports Prelude begin

text \<open>
  Optimistic concurrency: rows that carry a revision and are only written by a compare-and-set on
  it. The locale \<open>compare_and_set\<close> states what the two modules that work this way rely on, with the
  facts their properties need proved once; \<open>WorkLaws\<close> and \<open>RoomLaws\<close> interpret it on their
  own \<open>_cas\<close>. The lemmas before it are about tables updated by key.
\<close>

section \<open>Tables updated by key\<close>

definition replace_row :: "('r \<Rightarrow> 'k) \<Rightarrow> 'r \<Rightarrow> 'r list \<Rightarrow> 'r list" where
  "replace_row key r rs = update_where (\<lambda>x. key x = key r) (\<lambda>_. r) rs"

lemma map_replace_row [simp]: "map key (replace_row key r rs) = map key rs"
  by (induction rs) (auto simp: replace_row_def)

lemma set_replace_row: "x \<in> set (replace_row key r rs) \<Longrightarrow> x = r \<or> x \<in> set rs \<and> key x \<noteq> key r"
  by (auto simp: replace_row_def update_where_def)

lemma replace_row_set: "r' \<in> set rs \<Longrightarrow> key r' = key r \<Longrightarrow> r \<in> set (replace_row key r rs)"
  by (auto simp: replace_row_def update_where_def)

lemma replace_row_keeps: "x \<in> set rs \<Longrightarrow> key x \<noteq> key r \<Longrightarrow> x \<in> set (replace_row key r rs)"
  by (auto simp: replace_row_def update_where_def image_iff)

lemma row_by_replace_row:
  "row_by key k (replace_row key r rs) =
     (if k = key r \<and> row_by key k rs \<noteq> None then Some r else row_by key k rs)"
  by (induction rs) (auto simp: replace_row_def)

text \<open>On a table with distinct keys an update by key and revision replaces the one row it matches.\<close>

lemma cas_update:
  assumes "distinct (map key rs)" and "row_by key k rs = Some r" and "\<And>x. key (f x) = key x"
  shows "update_where (\<lambda>x. key x = k \<and> ver x = ver r) f rs = replace_row key (f r) rs"
    and "rows_matching (\<lambda>x. key x = k \<and> ver x = ver r) rs = 1"
proof -
  have k: "key r = k" and r: "r \<in> set rs" using row_by_Some_iff_key[OF assms(2)] by auto
  have only: "\<forall>x\<in>set rs. key x = k \<longrightarrow> x = r"
    using row_by_distinct[OF assms(1)] assms(2) by fastforce
  then show "update_where (\<lambda>x. key x = k \<and> ver x = ver r) f rs = replace_row key (f r) rs"
    by (auto simp: replace_row_def update_where_def assms(3) k)
  have "filter (\<lambda>x. key x = k \<and> ver x = ver r) rs = filter (\<lambda>x. x = r) rs"
    using only k by (intro filter_cong) auto
  moreover have "distinct rs" using assms(1) by (simp add: distinct_map)
  moreover have "distinct rs \<Longrightarrow> r \<in> set rs \<Longrightarrow> length (filter (\<lambda>x. x = r) rs) = 1"
    by (induction rs) (auto simp: filter_empty_conv)
  ultimately show "rows_matching (\<lambda>x. key x = k \<and> ver x = ver r) rs = 1"
    using r by (simp add: rows_matching_def)
qed

lemma sort_key_append_max:
  "(\<And>x. x \<in> set xs \<Longrightarrow> f x \<le> f t) \<Longrightarrow> sort_key f (xs @ [t]) = sort_key f xs @ [t]"
proof -
  have ins: "f x \<le> f t \<Longrightarrow> insort_key f x (ys @ [t]) = insort_key f x ys @ [t]" for x ys
    by (induction ys) auto
  show "(\<And>x. x \<in> set xs \<Longrightarrow> f x \<le> f t) \<Longrightarrow> sort_key f (xs @ [t]) = sort_key f xs @ [t]"
    by (induction xs) (auto simp: ins)
qed

lemma sort_key_map: "(\<And>x. f (g x) = f x) \<Longrightarrow> sort_key f (map g xs) = map g (sort_key f xs)"
proof -
  assume g: "\<And>x. f (g x) = f x"
  have "insort_key f (g x) (map g ys) = map g (insort_key f x ys)" for x ys
    by (induction ys) (auto simp: g)
  then show ?thesis by (induction xs) auto
qed

section \<open>Compare-and-set\<close>

text \<open>
  \<open>keyed\<close> is the primary key. A compare-and-set on a row as it was read succeeds only while the
  stored row still has that revision; it then stores the next one and touches no other row.
\<close>

locale compare_and_set =
  fixes key :: "'r \<Rightarrow> 'k" and rev_of :: "'r \<Rightarrow> int"
    and get :: "'d \<Rightarrow> 'k \<Rightarrow> 'r option"
    and cas :: "'r \<Rightarrow> ('r \<Rightarrow> 'r) \<Rightarrow> 'd \<Rightarrow> 'e + 'r \<times> 'd"
    and keyed :: "'d \<Rightarrow> bool"
  assumes cas_hit: "keyed d \<Longrightarrow> (\<And>x. key (f x) = key x) \<Longrightarrow> cas r f d = Inr (r', d') \<Longrightarrow>
      \<exists>x. get d (key r) = Some x \<and> rev_of x = rev_of r \<and> rev_of r' = rev_of r + 1 \<and>
        get d' (key r) = Some r'"
    and cas_other: "keyed d \<Longrightarrow> (\<And>x. key (f x) = key x) \<Longrightarrow> cas r f d = Inr (r', d') \<Longrightarrow>
      k \<noteq> key r \<Longrightarrow> get d' k = get d k"
    and cas_keyed: "keyed d \<Longrightarrow> (\<And>x. key (f x) = key x) \<Longrightarrow> cas r f d = Inr (r', d') \<Longrightarrow> keyed d'"
begin

text \<open>
  No row is lost, no revision goes down, and a row seen twice at one revision is the same row: an
  optimistic reader cannot be fooled by a change and its undoing.
\<close>

definition advanced :: "'d \<Rightarrow> 'd \<Rightarrow> bool" where
  "advanced d d' \<longleftrightarrow>
     (\<forall>k x. get d k = Some x \<longrightarrow>
        (\<exists>y. get d' k = Some y \<and> rev_of x \<le> rev_of y \<and> (rev_of x = rev_of y \<longrightarrow> y = x)))"

lemma advanced_refl: "advanced d d"
  by (simp add: advanced_def)

lemma advanced_trans: "advanced d1 d2 \<Longrightarrow> advanced d2 d3 \<Longrightarrow> advanced d1 d3"
  unfolding advanced_def
proof (intro allI impI)
  fix k x
  assume a: "\<forall>k x. get d1 k = Some x \<longrightarrow>
      (\<exists>y. get d2 k = Some y \<and> rev_of x \<le> rev_of y \<and> (rev_of x = rev_of y \<longrightarrow> y = x))"
    and b: "\<forall>k x. get d2 k = Some x \<longrightarrow>
      (\<exists>y. get d3 k = Some y \<and> rev_of x \<le> rev_of y \<and> (rev_of x = rev_of y \<longrightarrow> y = x))"
    and x: "get d1 k = Some x"
  from a x obtain y where y: "get d2 k = Some y" "rev_of x \<le> rev_of y" "rev_of x = rev_of y \<longrightarrow> y = x"
    by blast
  from b y(1) obtain z where "get d3 k = Some z" "rev_of y \<le> rev_of z" "rev_of y = rev_of z \<longrightarrow> z = y"
    by blast
  then show "\<exists>y. get d3 k = Some y \<and> rev_of x \<le> rev_of y \<and> (rev_of x = rev_of y \<longrightarrow> y = x)"
    using y by auto
qed

lemma cas_advanced:
  assumes "keyed d" and "\<And>x. key (f x) = key x" and "cas r f d = Inr (r', d')"
  shows "advanced d d'"
  unfolding advanced_def
proof (intro allI impI)
  fix k x
  assume x: "get d k = Some x"
  show "\<exists>y. get d' k = Some y \<and> rev_of x \<le> rev_of y \<and> (rev_of x = rev_of y \<longrightarrow> y = x)"
  proof (cases "k = key r")
    case True
    then show ?thesis using cas_hit[OF assms] x by auto
  next
    case False
    then show ?thesis using cas_other[OF assms False] x by simp
  qed
qed

text \<open>Of two writers that read the same row at most one commits, whatever happens in between.\<close>

lemma second_writer_loses:
  assumes "keyed d" and "\<And>x. key (f x) = key x" and "cas r f d = Inr (r1, d1)"
    and "advanced d1 d2" and "keyed d2" and "\<And>x. key (g x) = key x"
  shows "cas r g d2 \<noteq> Inr (r2, d3)"
proof
  assume c: "cas r g d2 = Inr (r2, d3)"
  from cas_hit[OF assms(1-3)] have "get d1 (key r) = Some r1" "rev_of r1 = rev_of r + 1" by auto
  then obtain y where "get d2 (key r) = Some y" "rev_of r + 1 \<le> rev_of y"
    using assms(4) unfolding advanced_def by metis
  then show False using cas_hit[OF assms(5,6) c] by auto
qed

end

end
