(* ===== verification/WorkLaws.thy ===== *)
theory WorkLaws imports WorkAssignments Revisions begin

text \<open>
  What each operation of \<open>WorkAssignments\<close> does to the two tables. Every committed transaction is one
  of the five shapes of \<open>work_tx\<close>, and every shape keeps \<open>work_ok\<close>: attempts are numbered
  \<open>1, 2, ...\<close> without gaps, at most the newest is unresolved, and it is unresolved exactly while its
  assignment says so, with the same status. \<open>work_protocol\<close> is the abstract state machine they
  implement.
\<close>

section \<open>The compare-and-set of assignments\<close>

definition codes_unique :: "'a work_db_scheme \<Rightarrow> bool" where
  "codes_unique db \<longleftrightarrow> distinct (map wa_code (wassigns db))"

lemma work_cas_stored:
  assumes "codes_unique db" and "get_assignment db (wa_code row) = Some x" and "wa_revision x = e"
    and "\<And>r. wa_code (f r) = wa_code r"
  shows "work_cas now row e f db =
     Inr ((f x)\<lparr>wa_revision := e + 1, wa_updated_at := now\<rparr>,
       db\<lparr>wassigns := replace_row wa_code ((f x)\<lparr>wa_revision := e + 1, wa_updated_at := now\<rparr>) (wassigns db)\<rparr>)"
proof -
  let ?g = "\<lambda>r. (f r)\<lparr>wa_revision := e + 1, wa_updated_at := now\<rparr>"
  have d: "distinct (map wa_code (wassigns db))" using assms(1) by (simp add: codes_unique_def)
  have r: "row_by wa_code (wa_code row) (wassigns db) = Some x"
    using assms(2) by (simp add: get_assignment_def)
  have k: "\<And>y. wa_code (?g y) = wa_code y" using assms(4) by simp
  have kx: "wa_code x = wa_code row" using row_by_Some_iff_key[OF r] by simp
  note u = cas_update[where f = ?g and ver = wa_revision, OF d r k, unfolded assms(3)]
  have "get_assignment (db\<lparr>wassigns := replace_row wa_code (?g x) (wassigns db)\<rparr>) (wa_code row) = Some (?g x)"
    using r kx k[of x] by (simp add: get_assignment_def row_by_replace_row)
  then show ?thesis
    unfolding work_cas_def Let_def u(1) using u(2) by simp
qed

lemma rows_matching_ex: "rows_matching P rs = 1 \<Longrightarrow> \<exists>x\<in>set rs. P x"
proof -
  assume h: "rows_matching P rs = 1"
  have "filter P rs \<noteq> []"
  proof
    assume "filter P rs = []"
    then show False using h by (simp add: rows_matching_def del: filter_empty_conv)
  qed
  then show ?thesis by (auto simp: filter_empty_conv)
qed

lemma get_assignment_member:
  "codes_unique db \<Longrightarrow> get_assignment db c = Some x \<longleftrightarrow> x \<in> set (wassigns db) \<and> wa_code x = c"
  by (auto simp: get_assignment_def codes_unique_def dest: row_by_Some_iff_key row_by_distinct)

lemma work_cas_Inr:
  assumes "codes_unique db" and "\<And>r. wa_code (f r) = wa_code r" and "work_cas now row e f db = Inr (row1, db1)"
  shows "\<exists>x. get_assignment db (wa_code row) = Some x \<and> wa_revision x = e \<and>
    row1 = (f x)\<lparr>wa_revision := e + 1, wa_updated_at := now\<rparr> \<and>
    db1 = db\<lparr>wassigns := replace_row wa_code row1 (wassigns db)\<rparr>"
proof -
  have "rows_matching (\<lambda>r. wa_code r = wa_code row \<and> wa_revision r = e) (wassigns db) = 1"
    using assms(3) by (auto simp: work_cas_def Let_def split: if_split_asm)
  then obtain x where "x \<in> set (wassigns db)" "wa_code x = wa_code row" "wa_revision x = e"
    using rows_matching_ex[of "\<lambda>r. wa_code r = wa_code row \<and> wa_revision r = e" "wassigns db"] by auto
  then have x: "get_assignment db (wa_code row) = Some x" and e: "wa_revision x = e"
    using get_assignment_member[OF assms(1)] by auto
  show ?thesis
    using work_cas_stored[OF assms(1) x e assms(2), of now] assms(3) x e by auto
qed

lemma codes_unique_put: "codes_unique (db\<lparr>wassigns := replace_row wa_code r (wassigns db)\<rparr>) = codes_unique db"
  by (simp add: codes_unique_def)

lemma get_assignment_put:
  "get_assignment (db\<lparr>wassigns := replace_row wa_code r (wassigns db)\<rparr>) c =
     (if c = wa_code r \<and> get_assignment db c \<noteq> None then Some r else get_assignment db c)"
  by (auto simp: get_assignment_def row_by_replace_row)

interpretation assignments: compare_and_set wa_code wa_revision get_assignment
  "\<lambda>r f d. work_cas now r (wa_revision r) f d" codes_unique for now
proof
  fix d :: "'a work_db_scheme" and f :: "assignment_row \<Rightarrow> assignment_row" and r r' d'
  assume d: "codes_unique d" and f: "\<And>x. wa_code (f x) = wa_code x"
    and c: "work_cas now r (wa_revision r) f d = Inr (r', d')"
  from work_cas_Inr[OF d f c] obtain x where x: "get_assignment d (wa_code r) = Some x"
    "wa_revision x = wa_revision r" "r' = (f x)\<lparr>wa_revision := wa_revision r + 1, wa_updated_at := now\<rparr>"
    "d' = d\<lparr>wassigns := replace_row wa_code r' (wassigns d)\<rparr>" by blast
  have kx: "wa_code x = wa_code r" using x(1) row_by_Some_iff_key[of wa_code] by (auto simp: get_assignment_def)
  have kr: "wa_code r' = wa_code r" using x(3) f[of x] kx by simp
  show "\<exists>x. get_assignment d (wa_code r) = Some x \<and> wa_revision x = wa_revision r \<and>
      wa_revision r' = wa_revision r + 1 \<and> get_assignment d' (wa_code r) = Some r'"
    using x kr by (auto simp: get_assignment_put)
  show "codes_unique d'" using x(4) d by (simp add: codes_unique_put)
  show "k \<noteq> wa_code r \<Longrightarrow> get_assignment d' k = get_assignment d k" for k
    using x(4) kr by (simp add: get_assignment_put)
qed

section \<open>Attempts of an assignment\<close>

lemma attempts_of_mem: "t \<in> set (attempts_of db c) \<longleftrightarrow> t \<in> set (wattempts db) \<and> wt_assignment_code t = c"
  by (auto simp: attempts_of_def)

lemma attempts_of_other:
  "wt_assignment_code t \<noteq> c \<Longrightarrow> attempts_of (db\<lparr>wattempts := wattempts db @ [t]\<rparr>) c = attempts_of db c"
  by (simp add: attempts_of_def)

lemma attempts_of_insert:
  assumes "\<And>u. u \<in> set (attempts_of db c) \<Longrightarrow> wt_generation u \<le> wt_generation t"
    and "wt_assignment_code t = c"
  shows "attempts_of (db\<lparr>wattempts := wattempts db @ [t]\<rparr>) c = attempts_of db c @ [t]"
proof -
  have "sort_key wt_generation (filter (\<lambda>t. wt_assignment_code t = c) (wattempts db) @ [t]) =
      sort_key wt_generation (filter (\<lambda>t. wt_assignment_code t = c) (wattempts db)) @ [t]"
    by (rule sort_key_append_max) (use assms(1) in \<open>auto simp: attempts_of_mem\<close>)
  then show ?thesis using assms(2) by (simp add: attempts_of_def)
qed

text \<open>An update that keeps code and generation replaces the attempt in place.\<close>

lemma attempts_of_put:
  assumes "\<And>u. u \<in> set (wattempts db) \<Longrightarrow> wt_attempt_id u = wt_attempt_id t \<Longrightarrow>
      wt_assignment_code u = wt_assignment_code t \<and> wt_generation u = wt_generation t"
  shows "attempts_of (db\<lparr>wattempts := replace_row wt_attempt_id t (wattempts db)\<rparr>) c =
     replace_row wt_attempt_id t (attempts_of db c)"
proof -
  let ?g = "\<lambda>u. if wt_attempt_id u = wt_attempt_id t \<and> wt_assignment_code u = wt_assignment_code t
      \<and> wt_generation u = wt_generation t then t else u"
  have g: "replace_row wt_attempt_id t rs = map ?g rs" if "set rs \<subseteq> set (wattempts db)" for rs
    using assms that by (auto simp: replace_row_def update_where_def)
  have "filter (\<lambda>t. wt_assignment_code t = c) (map ?g rs) =
      map ?g (filter (\<lambda>t. wt_assignment_code t = c) rs)" for rs
    by (induction rs) auto
  then have "attempts_of (db\<lparr>wattempts := replace_row wt_attempt_id t (wattempts db)\<rparr>) c =
      sort_key wt_generation (map ?g (filter (\<lambda>t. wt_assignment_code t = c) (wattempts db)))"
    by (simp add: attempts_of_def g)
  also have "\<dots> = map ?g (attempts_of db c)"
    unfolding attempts_of_def by (rule sort_key_map) auto
  also have "\<dots> = replace_row wt_attempt_id t (attempts_of db c)"
    by (rule g [symmetric]) (auto simp: attempts_of_mem)
  finally show ?thesis .
qed

lemma attempts_of_wassigns [simp]: "attempts_of (db\<lparr>wassigns := x\<rparr>) c = attempts_of db c"
  by (simp add: attempts_of_def)

section \<open>The protocol\<close>

text \<open>
  The abstract state machine of one assignment, on its status and the number of attempts so far.
\<close>

inductive work_protocol :: "work_status \<times> int \<Rightarrow> work_status \<times> int \<Rightarrow> bool" where
  accept: "work_protocol (WReady, g) (WAccepted, g + 1)"
| conclude: "s \<in> {WFailed, WCancelled, WUncertain} \<Longrightarrow> r \<in> {WAccepted, WCancelRequested} \<Longrightarrow>
    work_protocol (r, g) (s, g)"
| finish: "work_protocol (WAccepted, g) (WCompleted, g)"
| withdraw: "work_protocol (WReady, g) (WCancelled, g)"
| ask_cancel: "work_protocol (WAccepted, g) (WCancelRequested, g)"
| ask_cancel_uncertain: "work_protocol (WUncertain, g) (WUncertain, g)"
| write_off: "s \<in> {WFailed, WCancelled} \<Longrightarrow> work_protocol (WUncertain, g) (s, g)"
| retry: "s \<in> {WFailed, WCancelled} \<Longrightarrow> work_protocol (s, g) (WReady, g)"

inductive_cases work_protocolE: "work_protocol (s, g) (s', g')"
inductive_simps work_protocol_completed: "work_protocol (WCompleted, g) (s', g')"

definition phase :: "assignment_row \<Rightarrow> work_status \<times> int" where
  "phase a = (wa_status a, wa_generation a)"

text \<open>The columns of a request never change.\<close>

definition same_request :: "assignment_row \<Rightarrow> assignment_row \<Rightarrow> bool" where
  "same_request a b \<longleftrightarrow>
     b\<lparr>wa_status := wa_status a, wa_revision := wa_revision a, wa_generation := wa_generation a,
       wa_updated_at := wa_updated_at a, wa_cancel_requested_at := wa_cancel_requested_at a,
       wa_cancel_requested_by := wa_cancel_requested_by a\<rparr> = a"

definition same_attempt :: "attempt_row \<Rightarrow> attempt_row \<Rightarrow> bool" where
  "same_attempt t u \<longleftrightarrow> wt_attempt_id u = wt_attempt_id t \<and> wt_assignment_code u = wt_assignment_code t
     \<and> wt_generation u = wt_generation t \<and> wt_source_session_id u = wt_source_session_id t
     \<and> wt_accepted_at u = wt_accepted_at t \<and> wt_deadline_at u = wt_deadline_at t"

lemma same_request_code: "same_request a b \<Longrightarrow> wa_code b = wa_code a"
  by (cases a; cases b) (simp add: same_request_def)

lemma same_request_refl: "same_request a a"
  by (simp add: same_request_def)

text \<open>The columns of the unique constraint \<open>uq_work_assignments_creation\<close>.\<close>

definition request_key :: "assignment_row \<Rightarrow> int \<times> int \<times> pystr" where
  "request_key a = (wa_workspace_id a, wa_creator_operator_id a, wa_idempotency_key a)"

lemma same_request_key: "same_request a b \<Longrightarrow> request_key b = request_key a"
  by (cases a; cases b) (simp add: same_request_def request_key_def)

definition moves :: "assignment_row \<Rightarrow> assignment_row \<Rightarrow> bool" where
  "moves a b \<longleftrightarrow> same_request a b \<and> work_protocol (phase a) (phase b) \<and> wa_revision b = wa_revision a + 1"

section \<open>Shapes of a transaction\<close>

inductive work_tx :: "'a work_db_scheme \<Rightarrow> 'a work_db_scheme \<Rightarrow> bool" where
  idle: "wassigns db' = wassigns db \<Longrightarrow> wattempts db' = wattempts db \<Longrightarrow> work_tx db db'"
| created: "get_assignment db (wa_code a) = None \<Longrightarrow> request_key a \<notin> request_key ` set (wassigns db) \<Longrightarrow> phase a = (WReady, 0) \<Longrightarrow> wa_revision a = 1 \<Longrightarrow>
    wassigns db' = wassigns db @ [a] \<Longrightarrow> wattempts db' = wattempts db \<Longrightarrow> work_tx db db'"
| moved: "get_assignment db (wa_code a) = Some a \<Longrightarrow> moves a b \<Longrightarrow> wa_generation b = wa_generation a \<Longrightarrow>
    wa_status b \<in> {WReady, WCancelled} \<Longrightarrow> (\<forall>t\<in>set (attempts_of db (wa_code a)). \<not> unresolved t) \<Longrightarrow>
    wassigns db' = replace_row wa_code b (wassigns db) \<Longrightarrow> wattempts db' = wattempts db \<Longrightarrow> work_tx db db'"
| opened: "get_assignment db (wa_code a) = Some a \<Longrightarrow> moves a b \<Longrightarrow> wa_generation b = wa_generation a + 1 \<Longrightarrow>
    (\<forall>t\<in>set (attempts_of db (wa_code a)). \<not> unresolved t) \<Longrightarrow>
    attempt_checks t \<Longrightarrow> wt_assignment_code t = wa_code a \<Longrightarrow> wt_generation t = wa_generation b \<Longrightarrow>
    wt_status t = WAccepted \<Longrightarrow> wa_status b = WAccepted \<Longrightarrow>
    get_attempt db (wt_attempt_id t) = None \<Longrightarrow>
    wassigns db' = replace_row wa_code b (wassigns db) \<Longrightarrow> wattempts db' = wattempts db @ [t] \<Longrightarrow> work_tx db db'"
| turned: "get_assignment db (wa_code a) = Some a \<Longrightarrow> moves a b \<Longrightarrow> wa_generation b = wa_generation a \<Longrightarrow>
    t \<in> set (attempts_of db (wa_code a)) \<Longrightarrow> unresolved t \<Longrightarrow> same_attempt t u \<Longrightarrow> attempt_checks u \<Longrightarrow>
    wt_status u = wa_status b \<Longrightarrow> wa_status b \<noteq> WReady \<Longrightarrow>
    wassigns db' = replace_row wa_code b (wassigns db) \<Longrightarrow>
    wattempts db' = replace_row wt_attempt_id u (wattempts db) \<Longrightarrow> work_tx db db'"

text \<open>The attempts of one assignment.\<close>

definition attempts_ok :: "assignment_row \<Rightarrow> attempt_row list \<Rightarrow> bool" where
  "attempts_ok a ats \<longleftrightarrow>
     map wt_generation ats = [1..wa_generation a] \<and> (\<forall>t\<in>set ats. attempt_checks t) \<and>
     (\<forall>t\<in>set ats. unresolved t \<longrightarrow> wt_generation t = wa_generation a \<and> wt_status t = wa_status a) \<and>
     (wa_status a \<in> set UNRESOLVED \<longrightarrow> (\<exists>t\<in>set ats. unresolved t))"

definition work_ok :: "'a work_db_scheme \<Rightarrow> bool" where
  "work_ok db \<longleftrightarrow>
     codes_unique db \<and> distinct (map request_key (wassigns db)) \<and>
     distinct (map wt_attempt_id (wattempts db)) \<and>
     (\<forall>a\<in>set (wassigns db). 0 \<le> wa_generation a \<and> 1 \<le> wa_revision a \<and>
        attempts_ok a (attempts_of db (wa_code a))) \<and>
     (\<forall>t\<in>set (wattempts db). get_assignment db (wt_assignment_code t) \<noteq> None)"

lemma work_ok_codes: "work_ok db \<Longrightarrow> codes_unique db"
  by (simp add: work_ok_def)

lemma work_ok_get:
  assumes "work_ok db" and "get_assignment db c = Some a"
  shows "wa_code a = c" "0 \<le> wa_generation a" "1 \<le> wa_revision a" "attempts_ok a (attempts_of db c)"
  using assms by (auto simp: work_ok_def get_assignment_member)

lemma attempts_ok_last:
  assumes "attempts_ok a ats" and "t \<in> set ats" and "wt_generation t = wa_generation a"
  shows "t = last ats"
proof -
  have g: "map wt_generation ats = [1..wa_generation a]" using assms(1) by (simp add: attempts_ok_def)
  have "ats \<noteq> []" using assms(2) by auto
  then obtain xs y where ats: "ats = xs @ [y]" by (cases ats rule: rev_cases) auto
  have d: "distinct (map wt_generation ats)" unfolding g by simp
  have ge: "1 \<le> wa_generation a"
    using g \<open>ats \<noteq> []\<close> by (metis map_is_Nil_conv not_le upto_Nil2)
  have "map wt_generation xs @ [wt_generation y] = [1..wa_generation a - 1] @ [wa_generation a]"
    using g ats upto_rec2[OF ge] by simp
  then have "wt_generation y = wa_generation a" by simp
  then have "t = y" using d assms(2,3) unfolding ats by (auto simp: image_iff)
  then show ?thesis by (simp add: ats)
qed

lemma attempts_ok_unresolved_last:
  "attempts_ok a ats \<Longrightarrow> t \<in> set ats \<Longrightarrow> unresolved t \<Longrightarrow> t = last ats \<and> wt_status t = wa_status a"
  using attempts_ok_last unfolding attempts_ok_def by metis

lemma attempts_ok_live:
  "attempts_ok a ats \<Longrightarrow> wa_status a \<in> set UNRESOLVED \<Longrightarrow>
     ats \<noteq> [] \<and> unresolved (last ats) \<and> last ats \<in> set ats \<and> wt_status (last ats) = wa_status a
       \<and> wt_generation (last ats) = wa_generation a"
  using attempts_ok_unresolved_last unfolding attempts_ok_def by fastforce

lemma attempts_ok_settled:
  "attempts_ok a ats \<Longrightarrow> wa_status a \<notin> set UNRESOLVED \<Longrightarrow> t \<in> set ats \<Longrightarrow> \<not> unresolved t"
  using attempts_ok_unresolved_last[of a ats t] by (auto simp: unresolved_def)

section \<open>The invariant\<close>

lemma get_assignment_replace_row:
  "wassigns db' = replace_row wa_code b (wassigns db) \<Longrightarrow>
     get_assignment db' c = (if c = wa_code b \<and> get_assignment db c \<noteq> None then Some b else get_assignment db c)"
  by (auto simp: get_assignment_def row_by_replace_row)

lemma work_ok_put:
  assumes ok: "work_ok db" and a: "get_assignment db (wa_code a) = Some a" and m: "moves a b"
    and gen: "0 \<le> wa_generation b" and w: "wassigns db' = replace_row wa_code b (wassigns db)"
    and ids: "distinct (map wt_attempt_id (wattempts db'))"
    and known: "\<forall>t\<in>set (wattempts db'). wt_assignment_code t = wa_code a \<or>
      (\<exists>u\<in>set (wattempts db). wt_assignment_code u = wt_assignment_code t)"
    and mine: "attempts_ok b (attempts_of db' (wa_code a))"
    and others: "\<And>c. c \<noteq> wa_code a \<Longrightarrow> attempts_of db' c = attempts_of db c"
  shows "work_ok db'"
proof -
  have cb: "wa_code b = wa_code a" and rb: "wa_revision b = wa_revision a + 1"
    using m same_request_code[of a b] by (auto simp: moves_def)
  have "1 \<le> wa_revision a" using work_ok_get(3)[OF ok a] .
  then have b: "0 \<le> wa_generation b \<and> 1 \<le> wa_revision b \<and> attempts_ok b (attempts_of db' (wa_code b))"
    using gen mine rb cb by simp
  have "\<forall>x\<in>set (wassigns db'). 0 \<le> wa_generation x \<and> 1 \<le> wa_revision x \<and>
      attempts_ok x (attempts_of db' (wa_code x))"
  proof
    fix x assume "x \<in> set (wassigns db')"
    then consider "x = b" | "x \<in> set (wassigns db)" "wa_code x \<noteq> wa_code a"
      using set_replace_row[of x wa_code b "wassigns db"] w cb by auto
    then show "0 \<le> wa_generation x \<and> 1 \<le> wa_revision x \<and> attempts_ok x (attempts_of db' (wa_code x))"
      using b others[of "wa_code x"] ok by cases (auto simp: work_ok_def)
  qed
  moreover have "get_assignment db' (wt_assignment_code t) \<noteq> None" if t: "t \<in> set (wattempts db')" for t
  proof -
    have "\<forall>u\<in>set (wattempts db). get_assignment db (wt_assignment_code u) \<noteq> None"
      using ok by (simp add: work_ok_def)
    then have "get_assignment db (wt_assignment_code t) \<noteq> None" using known t a by fastforce
    then show ?thesis using get_assignment_replace_row[OF w, of "wt_assignment_code t"] by auto
  qed
  moreover have "codes_unique db'" using ok w by (simp add: work_ok_def codes_unique_def)
  moreover have "map request_key (wassigns db') = map request_key (wassigns db)"
  proof -
    have "x = a" if "x \<in> set (wassigns db)" "wa_code x = wa_code b" for x
    proof -
      have "get_assignment db (wa_code a) = Some x"
        using that cb get_assignment_member[OF work_ok_codes[OF ok], of "wa_code a" x] by simp
      then show ?thesis using a by simp
    qed
    then have "\<forall>x\<in>set (wassigns db). wa_code x = wa_code b \<longrightarrow> request_key b = request_key x"
      using m same_request_key[of a b] by (auto simp: moves_def)
    then show ?thesis unfolding w by (simp add: replace_row_def update_where_def)
  qed
  ultimately show ?thesis using ids ok by (simp add: work_ok_def)
qed

lemma moves_status:
  "moves a b \<Longrightarrow> wa_status b = WReady \<Longrightarrow> wa_status a \<in> {WFailed, WCancelled}"
  by (auto simp: moves_def phase_def elim: work_protocol.cases)

lemma work_tx_ok:
  assumes "work_tx db db'" and ok: "work_ok db"
  shows "work_ok db'"
  using assms(1)
proof cases
  case idle
  have "attempts_of db' = attempts_of db" "get_assignment db' = get_assignment db"
    using idle by (auto simp: fun_eq_iff attempts_of_def get_assignment_def)
  then show ?thesis using ok idle by (simp add: work_ok_def codes_unique_def)
next
  case (created a)
  have ats: "attempts_of db' c = attempts_of db c" for c using created by (simp add: attempts_of_def)
  have none: "attempts_of db (wa_code a) = []"
  proof (rule ccontr)
    assume "attempts_of db (wa_code a) \<noteq> []"
    then obtain t where "t \<in> set (attempts_of db (wa_code a))" by fastforce
    then show False using ok created(1) by (auto simp: work_ok_def attempts_of_mem)
  qed
  have g: "get_assignment db c \<noteq> None \<Longrightarrow> get_assignment db' c \<noteq> None" for c
    using created(5) by (auto simp: get_assignment_def row_by_append)
  have "wa_code a \<notin> wa_code ` set (wassigns db)" using created(1) by (auto simp: get_assignment_def row_by_None)
  then have "codes_unique db'" using ok created(5) by (auto simp: work_ok_def codes_unique_def)
  moreover have "attempts_ok a (attempts_of db' (wa_code a))"
    unfolding ats none using created(3) by (simp add: attempts_ok_def phase_def UNRESOLVED_def)
  moreover have "0 \<le> wa_generation a" using created(3) by (simp add: phase_def)
  ultimately show ?thesis using ok created g by (auto simp: work_ok_def ats)
next
  case (moved a b)
  have at: "attempts_of db' c = attempts_of db c" for c using moved by (simp add: attempts_of_def)
  have a: "attempts_ok a (attempts_of db (wa_code a))" "0 \<le> wa_generation a"
    using work_ok_get[OF ok moved(1)] by auto
  have "attempts_ok b (attempts_of db (wa_code a))"
    using a moved by (auto simp: attempts_ok_def UNRESOLVED_def)
  then show ?thesis
    using work_ok_put[OF ok moved(1,2) _ moved(6)] moved a ok by (auto simp: at work_ok_def)
next
  case (opened a b t)
  have a: "attempts_ok a (attempts_of db (wa_code a))" "0 \<le> wa_generation a"
    using work_ok_get[OF ok opened(1)] by auto
  have w: "wattempts db' = wattempts (db\<lparr>wattempts := wattempts db @ [t]\<rparr>)" using opened(12) by simp
  have eq: "attempts_of db' c = attempts_of (db\<lparr>wattempts := wattempts db @ [t]\<rparr>) c" for c
    unfolding attempts_of_def w by simp
  have "\<forall>g\<in>set (map wt_generation (attempts_of db (wa_code a))). g \<le> wt_generation t"
    using a opened(3,7) by (auto simp: attempts_ok_def simp del: set_map)
  then have le: "\<And>u. u \<in> set (attempts_of db (wa_code a)) \<Longrightarrow> wt_generation u \<le> wt_generation t"
    by auto
  have mine: "attempts_of db' (wa_code a) = attempts_of db (wa_code a) @ [t]"
    unfolding eq by (rule attempts_of_insert[OF le opened(6)])
  have others: "c \<noteq> wa_code a \<Longrightarrow> attempts_of db' c = attempts_of db c" for c
    unfolding eq using attempts_of_other[of t c db] opened(6) by simp
  have upto: "[1..wa_generation a + 1] = [1..wa_generation a] @ [wa_generation a + 1]"
    using upto_rec2[of 1 "wa_generation a + 1"] a(2) by simp
  have "attempts_ok b (attempts_of db' (wa_code a))"
    unfolding mine using a opened upto by (auto simp: attempts_ok_def unresolved_def UNRESOLVED_def)
  moreover have "distinct (map wt_attempt_id (wattempts db'))"
    using ok opened(10,12) by (auto simp: work_ok_def get_attempt_def row_by_None)
  moreover have "0 \<le> wa_generation b" using a opened(3) by simp
  ultimately show ?thesis
    using work_ok_put[OF ok opened(1,2) _ opened(11)] others opened(6,12) by auto
next
  case (turned a b t u)
  have a: "attempts_ok a (attempts_of db (wa_code a))" "0 \<le> wa_generation a"
    using work_ok_get[OF ok turned(1)] by auto
  have t: "t \<in> set (wattempts db)" "wt_assignment_code t = wa_code a"
    using turned(4) by (auto simp: attempts_of_mem)
  have su: "wt_attempt_id u = wt_attempt_id t" "wt_assignment_code u = wa_code a"
    "wt_generation u = wt_generation t"
    using turned(6) t by (auto simp: same_attempt_def)
  have ids: "distinct (map wt_attempt_id (wattempts db))" using ok by (simp add: work_ok_def)
  have only: "x = t" if "x \<in> set (wattempts db)" "wt_attempt_id x = wt_attempt_id u" for x
    using inj_onD[OF distinct_map[THEN iffD1, OF ids, THEN conjunct2]] that t(1) su(1) by metis
  have same: "wt_assignment_code x = wt_assignment_code u \<and> wt_generation x = wt_generation u"
    if "x \<in> set (wattempts db)" "wt_attempt_id x = wt_attempt_id u" for x
    using only[OF that] su t by simp
  have w: "wattempts db' = wattempts (db\<lparr>wattempts := replace_row wt_attempt_id u (wattempts db)\<rparr>)"
    using turned(11) by simp
  have put: "attempts_of db' c = replace_row wt_attempt_id u (attempts_of db c)" for c
  proof -
    have "attempts_of db' c = attempts_of (db\<lparr>wattempts := replace_row wt_attempt_id u (wattempts db)\<rparr>) c"
      unfolding attempts_of_def w by simp
    also have "\<dots> = replace_row wt_attempt_id u (attempts_of db c)"
      by (rule attempts_of_put) (rule same)
    finally show ?thesis .
  qed
  have others: "attempts_of db' c = attempts_of db c" if "c \<noteq> wa_code a" for c
    unfolding put replace_row_def using same that su(2)
    by (intro update_where_none) (auto simp: attempts_of_mem)
  let ?ats = "attempts_of db (wa_code a)"
  have tl: "t = last ?ats" "wt_status t = wa_status a" "wt_generation t = wa_generation a"
    using attempts_ok_unresolved_last[OF a(1) turned(4,5)] a(1) turned(4,5) by (auto simp: attempts_ok_def)
  have un: "x \<in> set ?ats \<Longrightarrow> unresolved x \<Longrightarrow> x = t" for x
    using attempts_ok_unresolved_last[OF a(1)] tl by auto
  have mem: "x \<in> set (replace_row wt_attempt_id u ?ats) \<Longrightarrow> x = u \<or> (x \<in> set ?ats \<and> x \<noteq> t)" for x
    using set_replace_row[of x wt_attempt_id u ?ats] su(1) by auto
  have um: "u \<in> set (replace_row wt_attempt_id u ?ats)"
    using replace_row_set[OF turned(4), of wt_attempt_id u] su(1) by simp
  have gens: "map wt_generation (replace_row wt_attempt_id u ?ats) = map wt_generation ?ats"
    unfolding replace_row_def update_where_def using same by (auto simp: attempts_of_mem)
  have "attempts_ok b (attempts_of db' (wa_code a))"
    unfolding put attempts_ok_def
  proof (intro conjI)
    show "map wt_generation (replace_row wt_attempt_id u ?ats) = [1..wa_generation b]"
      using gens a turned(3) by (simp add: attempts_ok_def)
    show "\<forall>x\<in>set (replace_row wt_attempt_id u ?ats). attempt_checks x"
      using mem a(1) turned(7) by (auto simp: attempts_ok_def)
    show "\<forall>x\<in>set (replace_row wt_attempt_id u ?ats). unresolved x \<longrightarrow>
        wt_generation x = wa_generation b \<and> wt_status x = wa_status b"
      using mem un su tl turned(3,8) by auto
    show "wa_status b \<in> set UNRESOLVED \<longrightarrow> (\<exists>x\<in>set (replace_row wt_attempt_id u ?ats). unresolved x)"
      using um turned(8) unfolding unresolved_def by (metis (no_types))
  qed
  moreover have "distinct (map wt_attempt_id (wattempts db'))" using ids turned(11) by simp
  moreover have "\<forall>x\<in>set (wattempts db'). wt_assignment_code x = wa_code a \<or>
      (\<exists>u\<in>set (wattempts db). wt_assignment_code u = wt_assignment_code x)"
    using turned(11) su(2) set_replace_row by fastforce
  ultimately show ?thesis
    using work_ok_put[OF ok turned(1,2) _ turned(10)] others a turned(3) by auto
qed

section \<open>The operations are transactions of these shapes\<close>

lemma work_tables_more:
  "live_db.more db' = live_db.more (db :: 'a work_db_scheme) \<Longrightarrow>
     wassigns db' = wassigns db \<and> wattempts db' = wattempts db \<and> events db' = events db"
  by (cases db; cases db') simp

lemma record_event_tables:
  "record_event env row action who db = Inr db' \<Longrightarrow>
     wassigns db' = wassigns db \<and> wattempts db' = wattempts db \<and> lbase db' = lbase db"
  unfolding record_event_def by (drule record_transition_Inr) auto

lemma finish_tables:
  assumes "finish env row actor action db = Inr (v, db')"
  shows "wassigns db' = wassigns db \<and> wattempts db' = wattempts db \<and> v = snapshot env db' row"
proof -
  obtain r db1 where r: "require_live_session (pe_lease_cfg env) (pe_now env) True (Some (s_id actor)) db = Inr (r, db1)"
    and e: "record_event env row action (BySession (s_id actor)) db1 = Inr db'" and "v = snapshot env db' row"
    using assms by (auto simp: finish_def result_simps)
  then show ?thesis
    using require_live_frame[OF r] work_tables_more[of db1 db] record_event_tables[OF e] by auto
qed

lemma finish_operator_tables:
  "finish_operator env p row action db = Inr (v, db') \<Longrightarrow>
     wassigns db' = wassigns db \<and> wattempts db' = wattempts db \<and> operator_snapshot env p db' row = Inr v"
  by (auto simp: finish_operator_def result_simps dest: record_event_tables)

lemmas answers = answer_def answer_operator_def

lemma check_revision_Inr:
  "check_revision row expected = Inr e \<longleftrightarrow>
     expected = PInt (wa_revision row) \<and> e = wa_revision row \<and> 1 \<le> e \<and> e \<le> 2 ^ 63 - 2"
  by (auto simp: check_revision_def result_simps split: if_split_asm)

lemma assignment_Inr:
  "assignment db code w p = Inr row \<longleftrightarrow>
     (\<exists>c. text_arg ''code'' 39 True code = (Inr c :: pystr work_result) \<and> get_assignment db c = Some row)
     \<and> owned_by p w row"
  by (auto simp: assignment_def bind_result_eq_Inr split: option.splits if_split_asm)

lemma assignment_get: "assignment db code w p = Inr row \<Longrightarrow> get_assignment db (wa_code row) = Some row"
  by (auto simp: assignment_Inr get_assignment_def dest: row_by_Some_iff_key)

lemma insert_attempt_Inr:
  "insert_attempt t db = Inr db' \<longleftrightarrow>
     attempt_checks t \<and> \<not> live_elsewhere t db \<and> get_attempt db (wt_attempt_id t) = None \<and>
     (\<forall>u\<in>set (wattempts db). wt_assignment_code u = wt_assignment_code t \<longrightarrow>
        wt_generation u \<noteq> wt_generation t) \<and>
     db' = db\<lparr>wattempts := wattempts db @ [t]\<rparr>"
proof -
  have "get_attempt db (wt_attempt_id t) = None \<longleftrightarrow> (\<forall>u\<in>set (wattempts db). wt_attempt_id u \<noteq> wt_attempt_id t)"
    unfolding get_attempt_def row_by_None by (metis imageE image_eqI)
  then show ?thesis by (auto simp: insert_attempt_def)
qed

lemma put_attempt_Inr:
  "put_attempt t db = Inr db' \<longleftrightarrow>
     attempt_checks t \<and> \<not> live_elsewhere t db \<and>
     db' = db\<lparr>wattempts := replace_row wt_attempt_id t (wattempts db)\<rparr>"
  by (auto simp: put_attempt_def replace_row_def)

lemma insert_assignment_Inr:
  "insert_assignment row db = Inr db' \<Longrightarrow>
     get_assignment db (wa_code row) = None \<and> request_key row \<notin> request_key ` set (wassigns db) \<and>
     db' = db\<lparr>wassigns := wassigns db @ [row]\<rparr>"
  by (auto simp: insert_assignment_def get_assignment_def row_by_None image_iff request_key_def
      split: if_split_asm)

lemma create_assignment_tx:
  assumes "create_assignment env w oid title sp key kind sid db = Inr (row, created, db1)"
    and "wassigns db' = wassigns db1" "wattempts db' = wattempts db1"
  shows "work_tx db db'"
proof (cases created)
  case False
  then have "db1 = db" using assms(1)
    by (auto simp: create_assignment_def Let_def result_simps split: option.split_asm if_split_asm)
  then show ?thesis using assms by (auto intro: work_tx.idle)
next
  case True
  then have "insert_assignment row db = Inr db1" "phase row = (WReady, 0)" "wa_revision row = 1"
    using assms(1)
    by (auto simp: create_assignment_def Let_def result_simps phase_def split: option.split_asm if_split_asm)
  then show ?thesis
    using insert_assignment_Inr[of row db db1] assms by (auto intro!: work_tx.created[of db row])
qed

lemma open_attempt_tx:
  assumes ok: "work_ok db" and a: "get_assignment db (wa_code row) = Some row"
    and st: "wa_status row = WReady" "\<forall>t\<in>set (attempts_of db (wa_code row)). \<not> unresolved t"
    and op: "open_attempt env row (wa_revision row) actor db = Inr (v, db')"
  shows "work_tx db db'"
proof -
  let ?f = "\<lambda>r. r\<lparr>wa_status := WAccepted, wa_generation := wa_generation row + 1\<rparr>"
  obtain row1 db1 db2 t where c: "work_cas (pe_now env) row (wa_revision row) ?f db = Inr (row1, db1)"
    and i: "insert_attempt t db1 = Inr db2" and t: "wt_assignment_code t = wa_code row1"
      "wt_generation t = wa_generation row1" "wt_status t = WAccepted"
    and f: "finish env row1 actor ''accepted'' db2 = Inr (v, db')"
    using op unfolding open_attempt_def by (auto simp: result_simps split: if_split_asm)
  have r: "row1 = (?f row)\<lparr>wa_revision := wa_revision row + 1, wa_updated_at := pe_now env\<rparr>"
    and d: "db1 = db\<lparr>wassigns := replace_row wa_code row1 (wassigns db)\<rparr>"
    using work_cas_stored[OF work_ok_codes[OF ok] a refl, of ?f "pe_now env"] c by auto
  have "moves row row1"
    unfolding moves_def phase_def r using st(1)
    by (simp add: same_request_def work_protocol.accept)
  then show ?thesis
    using a st t i r d finish_tables[OF f]
    by (intro work_tx.opened[of db row row1 t]) (auto simp: insert_attempt_Inr get_attempt_def)
qed

text \<open>Every change of a live attempt goes the same way: the row, then its newest attempt.\<close>

lemma turned_tx:
  assumes ok: "work_ok db" and a: "get_assignment db (wa_code row) = Some row"
    and t: "t \<in> set (attempts_of db (wa_code row))" "unresolved t"
    and c: "work_cas now row (wa_revision row) f db = Inr (row1, db1)" and "\<And>r. wa_code (f r) = wa_code r"
    and m: "same_request row (f row)" "wa_generation (f row) = wa_generation row"
      "work_protocol (phase row) (wa_status (f row), wa_generation row)" "wa_status (f row) \<noteq> WReady"
    and u: "same_attempt t u" "wt_status u = wa_status (f row)"
    and p: "put_attempt u db1 = Inr db2"
    and e: "wassigns db' = wassigns db2" "wattempts db' = wattempts db2"
  shows "work_tx db db'"
proof -
  have r: "row1 = (f row)\<lparr>wa_revision := wa_revision row + 1, wa_updated_at := now\<rparr>"
    and d: "db1 = db\<lparr>wassigns := replace_row wa_code row1 (wassigns db)\<rparr>"
    using work_cas_stored[OF work_ok_codes[OF ok] a refl assms(6), of now] c by auto
  have "moves row row1"
    using m unfolding moves_def phase_def r by (simp add: same_request_def)
  then show ?thesis
    using a t u m p e r d by (intro work_tx.turned[of db row row1 t u]) (auto simp: put_attempt_Inr)
qed

lemma settle_attempt_tx:
  assumes ok: "work_ok db" and a: "get_assignment db (wa_code row) = Some row"
    and t: "t \<in> set (wattempts db)" "wt_assignment_code t = wa_code row"
    and oc: "outcome \<in> {WCompleted, WFailed, WCancelled, WUncertain}"
    and op: "settle_attempt env row (wa_revision row) actor t outcome evidence result db = Inr (v, db')"
  shows "work_tx db db'"
proof (cases "wt_status t \<in> set CONCLUSIVE \<or> wt_status t = WUncertain")
  case True
  then have "db' = db" using op unfolding settle_attempt_def by (auto simp: answers split: if_split_asm)
  then show ?thesis by (auto intro: work_tx.idle)
next
  case False
  let ?f = "\<lambda>r. r\<lparr>wa_status := outcome\<rparr>"
  let ?u = "t\<lparr>wt_status := outcome, wt_evidence := Some evidence, wt_result := Some result,
      wt_reported_at := Some (pe_now env),
      wt_settled_at := (if outcome \<in> set CONCLUSIVE then Some (pe_now env) else None)\<rparr>"
  have rs: "wa_status row \<in> {WAccepted, WCancelRequested}"
    and nc: "\<not> (wa_status row = WCancelRequested \<and> outcome = WCompleted)"
    using op False unfolding settle_attempt_def by (auto split: if_split_asm)
  obtain row1 db1 db2 where c: "work_cas (pe_now env) row (wa_revision row) ?f db = Inr (row1, db1)"
    and p: "put_attempt ?u db1 = Inr db2" and f: "finish env row1 actor ''settled'' db2 = Inr (v, db')"
    using op False rs nc unfolding settle_attempt_def by (auto simp: result_simps)
  have at: "t \<in> set (attempts_of db (wa_code row))" using t by (simp add: attempts_of_mem)
  have "attempt_checks t" using work_ok_get(4)[OF ok a] at by (auto simp: attempts_ok_def)
  then have un: "unresolved t"
    using False by (cases "wt_status t") (auto simp: unresolved_def UNRESOLVED_def CONCLUSIVE_def attempt_checks_def)
  have "work_protocol (wa_status row, wa_generation row) (outcome, wa_generation row)"
    using rs nc oc by (auto intro: work_protocol.intros)
  then show ?thesis
    using turned_tx[OF ok a at un c, of ?u db2 db'] p finish_tables[OF f] oc
    by (auto simp: same_request_def same_attempt_def phase_def)
qed

lemma cancel_assignment_tx:
  assumes ok: "work_ok db" and a: "get_assignment db (wa_code row) = Some row"
    and op: "cancel_assignment env row expected sid db = Inr (action, row1, db2)"
    and e: "wassigns db' = wassigns db2" "wattempts db' = wattempts db2"
  shows "work_tx db db'"
proof (cases "action = None")
  case True
  then have "db2 = db" using op unfolding cancel_assignment_def
    by (auto simp: result_simps Let_def split: if_split_asm)
  then show ?thesis using e by (auto intro: work_tx.idle)
next
  case False
  let ?s = "cancel_status (wa_status row)"
  let ?f = "\<lambda>r. r\<lparr>wa_status := ?s, wa_cancel_requested_at := Some (pe_now env), wa_cancel_requested_by := sid\<rparr>"
  have rs: "wa_status row \<in> {WReady, WAccepted, WUncertain}"
    using op False unfolding cancel_assignment_def by (auto simp: result_simps split: if_split_asm)
  have "\<exists>db1. work_cas (pe_now env) row (wa_revision row) ?f db = Inr (row1, db1) \<and>
      (if wa_generation row1 \<noteq> 0 \<and> ?s \<noteq> WCancelled
       then bind_result (last_attempt db1 (wa_code row1)) (\<lambda>t.
              put_attempt (t\<lparr>wt_cancel_requested_at := Some (pe_now env), wt_status := ?s\<rparr>) db1)
       else Inr db1) = Inr db2"
    using op False rs unfolding cancel_assignment_def Let_def
    by (elim insertE) (auto simp: result_simps check_revision_Inr split: if_split_asm)
  then obtain db1 where c: "work_cas (pe_now env) row (wa_revision row) ?f db = Inr (row1, db1)"
    and p: "(if wa_generation row1 \<noteq> 0 \<and> ?s \<noteq> WCancelled
       then bind_result (last_attempt db1 (wa_code row1)) (\<lambda>t.
              put_attempt (t\<lparr>wt_cancel_requested_at := Some (pe_now env), wt_status := ?s\<rparr>) db1)
       else Inr db1) = Inr db2"
    by blast
  have r: "row1 = (?f row)\<lparr>wa_revision := wa_revision row + 1, wa_updated_at := pe_now env\<rparr>"
    and d: "db1 = db\<lparr>wassigns := replace_row wa_code row1 (wassigns db)\<rparr>"
    using work_cas_stored[OF work_ok_codes[OF ok] a refl, of ?f "pe_now env"] c by auto
  have ao: "attempts_ok row (attempts_of db (wa_code row))" using work_ok_get(4)[OF ok a] .
  show ?thesis
  proof (cases "wa_status row = WReady")
    case True
    then have "db2 = db1" using p by (simp add: cancel_status_def)
    moreover have "moves row row1"
      using True unfolding moves_def phase_def r by (simp add: same_request_def work_protocol.withdraw cancel_status_def)
    moreover have "\<forall>t\<in>set (attempts_of db (wa_code row)). \<not> unresolved t"
      using attempts_ok_settled[OF ao] True by (auto simp: UNRESOLVED_def)
    ultimately show ?thesis using a e r d True
      by (intro work_tx.moved[of db row row1]) (auto simp: cancel_status_def)
  next
    case False
    have s: "?s = (if wa_status row = WUncertain then WUncertain else WCancelRequested)"
      using False by (simp add: cancel_status_def)
    have un: "wa_status row \<in> set UNRESOLVED" using rs False by (auto simp: UNRESOLVED_def)
    let ?t = "last (attempts_of db (wa_code row))"
    have l: "?t \<in> set (attempts_of db (wa_code row))" "unresolved ?t"
      and ne: "attempts_of db (wa_code row) \<noteq> []" and g: "wt_generation ?t = wa_generation row"
      using attempts_ok_live[OF ao un] by auto
    have "1 \<le> wa_generation row" using ao l g by (auto simp: attempts_ok_def attempt_checks_def)
    then have "put_attempt (?t\<lparr>wt_cancel_requested_at := Some (pe_now env), wt_status := ?s\<rparr>) db1 = Inr db2"
      using p ne s r d by (auto simp: last_attempt_def Let_def split: if_split_asm)
    moreover have "work_protocol (wa_status row, wa_generation row) (?s, wa_generation row)"
      using rs False s by (auto intro: work_protocol.intros)
    ultimately show ?thesis
      using turned_tx[OF ok a l c, of "?t\<lparr>wt_cancel_requested_at := Some (pe_now env), wt_status := ?s\<rparr>" db2 db'] e s
      by (auto simp: same_request_def same_attempt_def phase_def)
  qed
qed

lemma reconcile_tx:
  assumes ok: "work_ok db" and op: "reconcile_assignment_attempts env code db = Inr (v, db')"
  shows "work_tx db db'"
proof -
  obtain row where a': "get_assignment db code = Some row"
    using op by (auto simp: reconcile_assignment_attempts_def split: option.split_asm)
  then have cd: "wa_code row = code" using work_ok_get(1)[OF ok a'] by simp
  with a' have a: "get_assignment db (wa_code row) = Some row" by simp
  let ?ats = "attempts_of db (wa_code row)"
  let ?c = "?ats = [] \<or> wa_status row \<notin> set UNRESOLVED \<or> \<not> unresolved (last ?ats) \<or>
     \<not> due_for_reconciliation (pe_now env) db row (last ?ats)"
  show ?thesis
  proof (cases ?c)
    case True
    then have "db' = db"
      using op a' by (auto simp: reconcile_assignment_attempts_def Let_def answers split: if_split_asm)
    then show ?thesis by (auto intro: work_tx.idle)
  next
    case False
    obtain s ev where s: "reconciled (pe_now env) row (last ?ats) = (s, ev)" by fastforce
    let ?f = "\<lambda>r. r\<lparr>wa_status := s\<rparr>"
    let ?u = "(last ?ats)\<lparr>wt_status := s, wt_evidence := Some ev, wt_reported_at := Some (pe_now env),
        wt_settled_at := Some (pe_now env)\<rparr>"
    have ao: "attempts_ok row ?ats" using work_ok_get(4)[OF ok a] .
    have l: "last ?ats \<in> set ?ats" "unresolved (last ?ats)" "wt_status (last ?ats) = wa_status row"
      using False attempts_ok_live[OF ao] by auto
    obtain row1 db1 db2 where c: "work_cas (pe_now env) row (wa_revision row) ?f db = Inr (row1, db1)"
      and p: "put_attempt ?u db1 = Inr db2" and f: "db' = db2"
      using op a' False s
      by (auto simp: reconcile_assignment_attempts_def Let_def answers result_simps)
    have "work_protocol (wa_status row, wa_generation row) (s, wa_generation row)"
      and "s \<noteq> WReady"
      using s l False by (auto simp: reconciled_def UNRESOLVED_def intro: work_protocol.intros split: if_split_asm)
    then show ?thesis
      using turned_tx[OF ok a l(1,2) c, of ?u db2 db'] p f
      by (auto simp: same_request_def same_attempt_def phase_def)
  qed
qed

end
