(* ===== verification/WorkSafety.thy ===== *)
theory WorkSafety imports WorkLaws begin

text \<open>
  The properties of work assignments: the step relation \<open>work_step\<close> of all transactions of the module,
  with everything else in the store free to change in between, and what holds along it.
\<close>

section \<open>Steps\<close>

inductive work_step :: "'a work_db_scheme \<Rightarrow> 'a work_db_scheme \<Rightarrow> bool" where
  create: "create_work_assignment env p path title spec sid key db = Inr (v, db') \<Longrightarrow> work_step db db'"
| create_operator: "create_operator_assignment env p ws title spec key db = Inr (w, db') \<Longrightarrow> work_step db db'"
| accept: "accept_work_assignment env p code sid expected db = Inr (v, db') \<Longrightarrow> work_step db db'"
| settle: "settle_work_assignment env p code aid outcome evidence sid expected result db = Inr (v, db') \<Longrightarrow>
    work_step db db'"
| cancel: "cancel_work_assignment env p code sid expected db = Inr (v, db') \<Longrightarrow> work_step db db'"
| cancel_operator: "cancel_operator_assignment env p ws code expected db = Inr (w, db') \<Longrightarrow> work_step db db'"
| retry: "retry_work_assignment env p code sid expected db = Inr (v, db') \<Longrightarrow> work_step db db'"
| reconcile: "reconcile_assignment_attempts env c db = Inr (v, db') \<Longrightarrow> work_step db db'"
| elsewhere: "wassigns db' = wassigns db \<Longrightarrow> wattempts db' = wattempts db \<Longrightarrow> work_step db db'"

lemma outcome_arg_Inr: "outcome_arg v = Inr oc \<Longrightarrow> oc \<in> {WCompleted, WFailed, WCancelled, WUncertain}"
  by (auto simp: outcome_arg_def split: if_split_asm)

text \<open>An operation ends by answering with a row, over tables it no longer changes.\<close>

lemma snapshot_row [simp]: "av_row (snapshot env db row) = row"
  by (simp add: snapshot_def Let_def)

definition answered ::
    "assignment_row \<Rightarrow> 'a work_db_scheme \<Rightarrow> assignment_view \<Rightarrow> 'a work_db_scheme \<Rightarrow> bool" where
  "answered row db v db' \<longleftrightarrow> av_row v = row \<and> wassigns db' = wassigns db \<and> wattempts db' = wattempts db"

lemma answered_answer: "answer env row db = Inr (v, db') \<Longrightarrow> answered row db v db' \<and> db' = db"
  by (auto simp: answer_def answered_def)

lemma answered_finish: "finish env row actor action db = Inr (v, db') \<Longrightarrow> answered row db v db'"
  by (auto simp: answered_def dest: finish_tables)

lemma operator_snapshot_row: "operator_snapshot env p db row = Inr w \<Longrightarrow> av_row (fst w) = row"
  by (auto simp: operator_snapshot_def Let_def split: if_split_asm option.split_asm)

lemma answered_answer_operator:
  "answer_operator env p row db = Inr (w, db') \<Longrightarrow> answered row db (fst w) db' \<and> db' = db"
  by (auto simp: answer_operator_def answered_def result_simps dest: operator_snapshot_row)

lemma answered_finish_operator:
  "finish_operator env p row action db = Inr (w, db') \<Longrightarrow> answered row db (fst w) db'"
  by (auto simp: answered_def dest: finish_operator_tables operator_snapshot_row)

lemmas answered_intros = answered_answer answered_finish answered_answer_operator answered_finish_operator

lemma create_work_Inr:
  assumes "create_work_assignment env p path title spec sid key db = Inr (v, db')"
  obtains actor w ttl k sp row created db1 where
    "with_session_lifecycle env p sid db = Inr (actor, w)" "title = PStr ttl" "key = PStr k"
    "work_specification env spec = Inr sp"
    "create_assignment env w (the (operator_id p)) ttl sp k CreatorSession (Some (s_id actor)) db
      = Inr (row, created, db1)" "answered row db1 v db'" "\<not> created \<Longrightarrow> db' = db1"
  using assms unfolding create_work_assignment_def
  by (auto simp: result_simps dest!: answered_intros split: if_split_asm)

lemma create_operator_Inr:
  assumes "create_operator_assignment env p ws title spec key db = Inr (v, db')"
  obtains w ttl k sp row created db1 where
    "with_operator_workspace env p True ws db = Inr w" "title = PStr ttl" "key = PStr k"
    "work_specification env spec = Inr sp"
    "create_assignment env w (the (operator_id p)) ttl sp k CreatorOperator None db
      = Inr (row, created, db1)" "answered row db1 (fst v) db'" "\<not> created \<Longrightarrow> db' = db1"
  using assms unfolding create_operator_assignment_def
  by (auto simp: result_simps dest!: answered_intros split: if_split_asm)

lemma accept_work_Inr:
  assumes "accept_work_assignment env p code sid expected db = Inr (v, db')"
  obtains actor w row where "with_session_lifecycle env p sid db = Inr (actor, w)"
    "assignment db code w p = Inr row" "expected = PInt (wa_revision row)"
    "(answered row db v db' \<and> db' = db) \<or>
       (wa_status row = WReady \<and> (\<forall>t\<in>set (attempts_of db (wa_code row)). \<not> unresolved t) \<and>
        open_attempt env row (wa_revision row) actor db = Inr (v, db'))"
  using assms unfolding accept_work_assignment_def
  by (auto simp: result_simps check_revision_Inr dest!: answered_intros split: if_split_asm)

lemma settle_work_Inr:
  assumes "settle_work_assignment env p code aid outcome evidence sid expected result db = Inr (v, db')"
  obtains actor w row t i oc ev res where "with_session_lifecycle env p sid db = Inr (actor, w)"
    "assignment db code w p = Inr row" "expected = PInt (wa_revision row)" "aid = PStr i"
    "outcome_arg outcome = Inr oc" "get_attempt db i = Some t" "wt_assignment_code t = wa_code row"
    "wt_source_session_id t = s_id actor" "wt_generation t = wa_generation row"
    "settle_attempt env row (wa_revision row) actor t oc ev res db = Inr (v, db')"
    "evidence = PStr ev" "result = PStr res"
  using assms unfolding settle_work_assignment_def
  by (auto simp: result_simps check_revision_Inr split: if_split_asm option.split_asm)

lemma cancel_work_Inr:
  assumes "cancel_work_assignment env p code sid expected db = Inr (v, db')"
  obtains actor w row action row1 db1 where "with_session_lifecycle env p sid db = Inr (actor, w)"
    "assignment db code w p = Inr row"
    "cancel_assignment env row expected (Some (s_id actor)) db = Inr (action, row1, db1)"
    "answered row1 db1 v db'"
  using assms unfolding cancel_work_assignment_def
  by (auto simp: result_simps dest!: answered_intros split: option.split_asm)

lemma cancel_operator_Inr:
  assumes "cancel_operator_assignment env p ws code expected db = Inr (v, db')"
  obtains w row action row1 db1 where "with_operator_workspace env p True ws db = Inr w"
    "assignment db code w p = Inr row"
    "cancel_assignment env row expected None db = Inr (action, row1, db1)"
    "answered row1 db1 (fst v) db'"
  using assms unfolding cancel_operator_assignment_def
  by (auto simp: result_simps dest!: answered_intros split: option.split_asm)

lemma retry_work_Inr:
  assumes "retry_work_assignment env p code sid expected db = Inr (v, db')"
  obtains actor w row row1 db1 where "with_session_lifecycle env p sid db = Inr (actor, w)"
    "assignment db code w p = Inr row" "expected = PInt (wa_revision row)"
    "wa_status row \<in> {WFailed, WCancelled}" "\<forall>t\<in>set (attempts_of db (wa_code row)). conclusive t"
    "work_cas (pe_now env) row (wa_revision row) (\<lambda>r. r\<lparr>wa_status := WReady,
       wa_cancel_requested_at := None, wa_cancel_requested_by := None\<rparr>) db = Inr (row1, db1)"
    "answered row1 db1 v db'"
  using assms unfolding retry_work_assignment_def
  by (auto simp: result_simps check_revision_Inr dest!: answered_intros split: if_split_asm)

lemma retry_tx:
  assumes ok: "work_ok db" and a: "get_assignment db (wa_code row) = Some row"
    and s: "wa_status row \<in> {WFailed, WCancelled}"
    and c: "work_cas now row (wa_revision row) (\<lambda>r. r\<lparr>wa_status := WReady,
       wa_cancel_requested_at := None, wa_cancel_requested_by := None\<rparr>) db = Inr (row1, db1)"
    and e: "wassigns db' = wassigns db1" "wattempts db' = wattempts db1"
  shows "work_tx db db'"
proof -
  let ?f = "\<lambda>r. r\<lparr>wa_status := WReady, wa_cancel_requested_at := None, wa_cancel_requested_by := None\<rparr>"
  have r: "row1 = (?f row)\<lparr>wa_revision := wa_revision row + 1, wa_updated_at := now\<rparr>"
    and d: "db1 = db\<lparr>wassigns := replace_row wa_code row1 (wassigns db)\<rparr>"
    using work_cas_stored[OF work_ok_codes[OF ok] a refl, of ?f now] c by auto
  have "moves row row1"
    using s unfolding moves_def phase_def r by (simp add: same_request_def work_protocol.retry)
  moreover have "\<forall>t\<in>set (attempts_of db (wa_code row)). \<not> unresolved t"
    using attempts_ok_settled[OF work_ok_get(4)[OF ok a]] s by (auto simp: UNRESOLVED_def)
  ultimately show ?thesis using a e r d by (intro work_tx.moved[of db row row1]) auto
qed

lemma work_step_tx:
  assumes "work_step db db'" and ok: "work_ok db"
  shows "work_tx db db'"
  using assms(1)
proof cases
  case create
  then show ?thesis
    by (elim create_work_Inr) (auto simp: answered_def intro: create_assignment_tx)
next
  case create_operator
  then show ?thesis
    by (elim create_operator_Inr) (auto simp: answered_def intro: create_assignment_tx)
next
  case (accept env p code sid expected v)
  from accept show ?thesis
    by (elim accept_work_Inr)
       (use open_attempt_tx[OF ok] in \<open>auto dest: assignment_get intro: work_tx.idle\<close>)
next
  case (settle env p code aid outcome evidence sid expected result v)
  from settle obtain actor row t oc ev res i w where
    "assignment db code w p = Inr row" "outcome_arg outcome = Inr oc" "get_attempt db i = Some t"
    "wt_assignment_code t = wa_code row"
    "settle_attempt env row (wa_revision row) actor t oc ev res db = Inr (v, db')"
    by (elim settle_work_Inr)
  then show ?thesis
    using settle_attempt_tx[OF ok, of row t oc] outcome_arg_Inr[of outcome oc]
    by (auto simp: get_attempt_def dest!: assignment_get dest: row_by_Some_iff_key)
next
  case cancel
  then show ?thesis
    by (elim cancel_work_Inr) (auto simp: answered_def dest: assignment_get intro: cancel_assignment_tx[OF ok])
next
  case cancel_operator
  then show ?thesis
    by (elim cancel_operator_Inr)
       (auto simp: answered_def dest: assignment_get intro: cancel_assignment_tx[OF ok])
next
  case retry
  then show ?thesis
    by (elim retry_work_Inr) (rule retry_tx[OF ok], auto simp: answered_def dest: assignment_get)
next
  case reconcile
  then show ?thesis using reconcile_tx[OF ok] by blast
next
  case elsewhere
  then show ?thesis by (rule work_tx.idle)
qed

lemma work_steps_ok: "work_step\<^sup>*\<^sup>* db db' \<Longrightarrow> work_ok db \<Longrightarrow> work_ok db'"
  by (induction rule: rtranclp_induct) (auto dest: work_step_tx work_tx_ok)

text \<open>What one transaction does to one assignment.\<close>

lemma work_tx_row:
  assumes "work_tx db db'" and "get_assignment db c = Some a"
  shows "\<exists>b. get_assignment db' c = Some b \<and> (b = a \<or> moves a b)"
proof -
  have put: "wassigns db' = replace_row wa_code y (wassigns db) \<Longrightarrow> moves x y \<Longrightarrow>
      get_assignment db (wa_code x) = Some x \<Longrightarrow> ?thesis" for x y
    using get_assignment_replace_row[of db' y db c] assms(2) same_request_code[of x y]
    by (auto simp: moves_def)
  show ?thesis
    using assms(1)
  proof cases
    case idle
    then show ?thesis using assms(2) by (simp add: get_assignment_def)
  next
    case (created x)
    then show ?thesis using assms(2) by (simp add: get_assignment_def row_by_append)
  next
    case (moved x y)
    then show ?thesis using put[of y x] by simp
  next
    case (opened x y t)
    then show ?thesis using put[of y x] by simp
  next
    case (turned x y t u)
    then show ?thesis using put[of y x] by simp
  qed
qed

lemma moves_trace:
  "same_request a b \<Longrightarrow> same_request b c \<Longrightarrow> same_request a c"
  by (cases a; cases b; cases c) (simp add: same_request_def)

lemma work_steps_row:
  assumes "work_step\<^sup>*\<^sup>* db db'" and "work_ok db" and "get_assignment db c = Some a"
  shows "\<exists>b. get_assignment db' c = Some b \<and> same_request a b \<and> work_protocol\<^sup>*\<^sup>* (phase a) (phase b) \<and>
    wa_revision a \<le> wa_revision b \<and> (wa_revision a = wa_revision b \<longrightarrow> b = a)"
  using assms(1)
proof (induction rule: rtranclp_induct)
  case base
  then show ?case using assms(3) by (simp add: same_request_refl)
next
  case (step y z)
  then obtain b where b: "get_assignment y c = Some b" "same_request a b" "work_protocol\<^sup>*\<^sup>* (phase a) (phase b)"
    "wa_revision a \<le> wa_revision b" "wa_revision a = wa_revision b \<longrightarrow> b = a" by blast
  have "work_ok y" using work_steps_ok step(1) assms(2) by blast
  then have "work_tx y z" using work_step_tx step(2) by blast
  then obtain d where d: "get_assignment z c = Some d" "d = b \<or> moves b d"
    using work_tx_row b(1) by blast
  show ?case
  proof (cases "d = b")
    case True
    then show ?thesis using b d(1) by blast
  next
    case False
    then have "moves b d" using d(2) by blast
    then show ?thesis
      using b d(1) moves_trace[of a b d] unfolding moves_def by (auto intro: rtranclp.rtrancl_into_rtrancl)
  qed
qed

lemma advanced_work: "work_tx db db' \<Longrightarrow> assignments.advanced db db'"
proof -
  assume tx: "work_tx db db'"
  show ?thesis
    unfolding assignments.advanced_def
  proof (intro allI impI)
    fix k x assume "get_assignment db k = Some x"
    then show "\<exists>y. get_assignment db' k = Some y \<and> wa_revision x \<le> wa_revision y \<and>
        (wa_revision x = wa_revision y \<longrightarrow> y = x)"
      using work_tx_row[OF tx] by (fastforce simp: moves_def)
  qed
qed

lemma advanced_steps: "work_step\<^sup>*\<^sup>* db db' \<Longrightarrow> work_ok db \<Longrightarrow> assignments.advanced db db'"
proof (induction rule: rtranclp_induct)
  case base
  show ?case by (rule assignments.advanced_refl)
next
  case (step y z)
  then show ?case
    using work_step_tx[OF step(2)] work_steps_ok[OF step(1)] advanced_work assignments.advanced_trans
    by blast
qed

lemma work_tx_attempt:
  assumes "work_tx db db'" and "work_ok db" and t: "get_attempt db i = Some t" "conclusive t"
  shows "get_attempt db' i = Some t"
  using assms(1)
proof cases
  case (turned a b x u)
  have "x \<in> set (wattempts db)" using turned(4) by (simp add: attempts_of_mem)
  moreover have "distinct (map wt_attempt_id (wattempts db))" using assms(2) by (simp add: work_ok_def)
  ultimately have "get_attempt db (wt_attempt_id x) = Some x"
    using row_by_distinct[of wt_attempt_id] by (simp add: get_attempt_def)
  then have "wt_attempt_id u \<noteq> i"
    using t turned(5,6) by (auto simp: same_attempt_def unresolved_def conclusive_def UNRESOLVED_def CONCLUSIVE_def)
  then show ?thesis using t(1) turned(11) by (simp add: get_attempt_def row_by_replace_row)
qed (use t(1) in \<open>auto simp: get_attempt_def row_by_append\<close>)

lemma attempt_final_steps:
  assumes "work_step\<^sup>*\<^sup>* db db'" and "work_ok db" and "get_attempt db i = Some t" and "conclusive t"
  shows "get_attempt db' i = Some t"
  using assms(1)
proof (induction rule: rtranclp_induct)
  case (step y z)
  then show ?case
    using work_tx_attempt[OF work_step_tx[OF step(2)]] work_steps_ok[OF step(1) assms(2)] assms(4) by blast
qed (rule assms(3))

section \<open>Progress\<close>

definition WORK_ACTIONS :: "string list" where
  "WORK_ACTIONS = [''created'', ''accepted'', ''settled'', ''cancelled'', ''cancel_requested'', ''retried'']"

lemma work_kind:
  "action \<in> set WORK_ACTIONS \<Longrightarrow> classify_event_kind (lit (''work_assignment_'' @ action)) = Some ''task''"
  by (auto simp: WORK_ACTIONS_def classify_event_kind_def kind_pattern_def kind_char_def kind_start_def
      is_digit_def lower1_def EXACT_CATEGORIES_def strip_def is_space_def CATEGORY_PREFIXES_def)

lemma record_event_total:
  "action \<in> set WORK_ACTIONS \<Longrightarrow> \<exists>db'. record_event env row action who db = Inr db'"
  unfolding record_event_def record_transition_def Let_def by (simp only: work_kind option.case) blast

lemma finish_total:
  assumes "live_handle db (pe_now env) (s_id actor)" and "action \<in> set WORK_ACTIONS"
  shows "\<exists>v db'. finish env row actor action db = Inr (v, db')"
proof -
  obtain r db1 where "require_live_session (pe_lease_cfg env) (pe_now env) True (Some (s_id actor)) db = Inr (r, db1)"
    using assms(1) require_live_iff[of "pe_lease_cfg env" "pe_now env" True "s_id actor" db] by auto
  then show ?thesis
    using record_event_total[OF assms(2), of env row "BySession (s_id actor)" db1]
    by (auto simp: finish_def result_simps)
qed

lemma lifecycle_live:
  "with_session_lifecycle env p sid db = Inr (actor, w) \<Longrightarrow> live_handle db (pe_now env) (s_id actor)"
proof -
  assume "with_session_lifecycle env p sid db = Inr (actor, w)"
  then obtain i where i: "text_arg ''session_id'' 32 True sid = (Inr i :: pystr work_result)"
    and a: "session_actor True env p i db = (Inr (actor, w) :: (session_row \<times> workspace_row) work_result)"
    by (auto simp: with_session_lifecycle_def enter_session_Inr)
  have "i \<noteq> []" using i by (auto simp: result_simps)
  moreover have "get_agent db i = Some actor" using session_actor_Inr[OF a] by simp
  moreover from this have "s_id actor = i"
    by (auto simp: get_agent_def get_session_row_def dest: row_by_Some_iff_key)
  ultimately show ?thesis using session_actor_Inr[OF a] by (simp add: live_handle_def)
qed

end
