(* ===== verification/WorkProperties.thy ===== *)
theory WorkProperties imports WorkSafety begin

text \<open>
  The properties of work assignments, over the step relation \<open>work_step\<close>, and a sample run that
  applies them: one operator whose Session \<open>s1\<close> files a request that its Session \<open>s2\<close> accepts.
\<close>

section \<open>A sample run\<close>

definition sample_peer :: principal where
  "sample_peer = \<lparr>actor_kind = ''operator'', actor_id = lit ''operator:kim'', credential_kind = ''token'',
     credential_id = None, operator_id = Some 5, operator_slug = Some ''kim'',
     org_roles = [(1, ''member'')], runtime_org_id = None, runtime_machine_id = None,
     runtime_id = None, is_bootstrap_admin = False, channel = ''browser'', bound_session_ids = []\<rparr>"

definition sample_session :: "string \<Rightarrow> session_row" where
  "sample_session i = \<lparr>s_id = lit i, s_workspace_id = 10, s_tool = lit ''codex'', s_pid = Some 77,
     s_machine_id = None, s_created_by_operator_id = Some 5, s_started_at = 0, s_ended_at = None,
     s_state = ''running'', s_last_activity_at = None, s_summary = None, s_issue_id = None,
     s_persona_id = None, s_runtime_id = None\<rparr>"

definition sample_base :: store where
  "sample_base = sample_store\<lparr>sessions := map sample_session [''s1'', ''s2'', ''s3'']\<rparr>"

definition sample_work :: work_db where
  "sample_work = \<lparr>lbase = sample_base, leases = [], attachments = [], successors = [], events = [],
     wassigns = [], wattempts = []\<rparr>"

definition sample_peer_env :: "instant \<Rightarrow> string \<Rightarrow> peer_env" where
  "sample_peer_env now uuid = \<lparr>pe_now = now, pe_lease_cfg = None, pe_uuid = lit uuid,
     pe_contribution_uuid = lit ''c'' @ lit uuid, pe_policy = sample_base, pe_sha = (\<lambda>s. s), pe_fromiso = (\<lambda>s. None)\<rparr>"

definition sample_request :: pyval where
  "sample_request = PDict [(PStr (lit ''objective''), PStr (lit ''fix the build''))]"

definition sample_spec :: work_spec where
  "sample_spec = \<lparr>sp_objective = lit ''fix the build'', sp_context = None, sp_checkout_ref = None,
     sp_tool = None, sp_deadline = None, sp_max_runtime = None, sp_links = None\<rparr>"

definition sample_row :: assignment_row where
  "sample_row = \<lparr>wa_code = lit ''WA-u1'', wa_workspace_id = 10, wa_creator_operator_id = 5,
     wa_creator_kind = CreatorSession, wa_creator_session_id = Some (lit ''s1''),
     wa_idempotency_key = lit ''k'',
     wa_request_hash = request_hash_of (sample_peer_env 1000 ''u1'') (lit ''t'') sample_spec (Some CreatorSession),
     wa_title = lit ''t'', wa_spec_version = 1, wa_specification = sample_spec,
     wa_specification_hash = dumps_raw (spec_json sample_spec), wa_status = WReady, wa_revision = 1,
     wa_generation = 0, wa_created_at = 1000, wa_updated_at = 1000, wa_cancel_requested_at = None,
     wa_cancel_requested_by = None\<rparr>"

lemma sample_specification: "work_specification (sample_peer_env now u) sample_request = Inr sample_spec"
  by (simp add: work_specification_def sample_request_def sample_spec_def keys_within_def SPEC_KEYS_def
      get_or_def if_present_def text_arg_def int_arg_def utf8_size1_def SPEC_LIMIT_def is_space_def
      dumps_raw_def spec_json_def opt_member_def escape_raw_def str_of_int_def digits_of.simps)

text \<open>Each of the three Sessions passes the gate on any store over the sample tables.\<close>

lemma sample_gate:
  "s \<in> {''s1'', ''s2'', ''s3''} \<Longrightarrow> lbase db = sample_base \<Longrightarrow>
     with_session_lifecycle (sample_peer_env now u) sample_peer (PStr (lit s)) db =
       Inr (sample_session s, \<lparr>w_id = 10, w_path = lit ''/a'', w_visibility = ''org'', w_org_id = None\<rparr>)"
  by (auto simp: with_session_lifecycle_def enter_session_def session_actor_def text_arg_def
      utf8_size1_def is_space_def get_agent_def get_session_row_def sample_base_def sample_store_def
      empty_store_def sample_session_def sample_peer_def get_workspace_row_def operator_exists_def
      owns_session_def visible_in_def or_default_def default_org_id_def visible_org_ids_def
      require_live_session_def terminal_or_ended_def stale_handle_def is_operator_def is_runtime_def
      ACTOR_OPERATOR_def ACTOR_RUNTIME_def map_left_def)

lemma open_attempt_ready:
  assumes ok: "work_ok db" and row: "get_assignment db (wa_code row) = Some row" and st: "wa_status row = WReady"
    and due: "attempt_deadline env (wa_specification row) = Inr due" "pe_now env < due"
    and bud: "1 \<le> budget_of (wa_specification row)" "budget_of (wa_specification row) \<le> 604800"
    and fresh: "get_attempt db (pe_uuid env) = None"
    and live: "live_handle db (pe_now env) (s_id actor)"
  obtains v db' t where "open_attempt env row (wa_revision row) actor db = Inr (v, db')"
    "get_assignment db' (wa_code row) = Some (row\<lparr>wa_status := WAccepted,
        wa_generation := wa_generation row + 1, wa_revision := wa_revision row + 1, wa_updated_at := pe_now env\<rparr>)"
    "attempts_of db' (wa_code row) = attempts_of db (wa_code row) @ [t]"
    "wt_attempt_id t = pe_uuid env" "wt_status t = WAccepted" "wt_source_session_id t = s_id actor"
    "wt_deadline_at t = due"
proof -
  let ?f = "\<lambda>r. r\<lparr>wa_status := WAccepted, wa_generation := wa_generation row + 1\<rparr>"
  let ?row1 = "(?f row)\<lparr>wa_revision := wa_revision row + 1, wa_updated_at := pe_now env\<rparr>"
  let ?db1 = "db\<lparr>wassigns := replace_row wa_code ?row1 (wassigns db)\<rparr>"
  let ?t = "\<lparr>wt_attempt_id = pe_uuid env, wt_assignment_code = wa_code ?row1,
      wt_generation = wa_generation ?row1, wt_source_session_id = s_id actor, wt_tool = s_tool actor,
      wt_status = WAccepted, wt_accepted_at = pe_now env, wt_deadline_at = due,
      wt_max_runtime_seconds = budget_of (wa_specification row), wt_cancel_requested_at = None,
      wt_reported_at = None, wt_settled_at = None, wt_evidence = None, wt_result = None, wt_usage = None\<rparr>"
  let ?db2 = "?db1\<lparr>wattempts := wattempts ?db1 @ [?t]\<rparr>"
  have ao: "attempts_ok row (attempts_of db (wa_code row))" "0 \<le> wa_generation row"
    using work_ok_get[OF ok row] by auto
  have cas: "work_cas (pe_now env) row (wa_revision row) ?f db = Inr (?row1, ?db1)"
    by (rule work_cas_stored[OF work_ok_codes[OF ok] row refl]) simp
  have gens: "wt_generation u \<le> wa_generation row" and settled: "\<not> unresolved u"
    if "u \<in> set (wattempts db)" "wt_assignment_code u = wa_code row" for u
  proof -
    have u: "u \<in> set (attempts_of db (wa_code row))" using that by (simp add: attempts_of_mem)
    then have "wt_generation u \<in> set [1..wa_generation row]"
      using ao(1) unfolding attempts_ok_def by (metis image_eqI set_map)
    then show "wt_generation u \<le> wa_generation row" by simp
    show "\<not> unresolved u" using attempts_ok_settled[OF ao(1) _ u] st by (simp add: UNRESOLVED_def)
  qed
  have "attempt_checks ?t"
    using bud ao(2) by (simp add: attempt_checks_def conclusive_def CONCLUSIVE_def)
  moreover have "\<not> live_elsewhere ?t ?db1" using settled by (auto simp: live_elsewhere_def)
  moreover have "\<forall>u\<in>set (wattempts db). wt_assignment_code u = wa_code row \<longrightarrow> wt_generation u \<noteq> wa_generation row + 1"
    using gens by fastforce
  ultimately have ins: "insert_attempt ?t ?db1 = Inr ?db2"
    using fresh by (simp add: insert_attempt_Inr get_attempt_def)
  have "live_handle ?db2 (pe_now env) (s_id actor)"
    using live by (subst live_handle_cong[where db = db]) simp_all
  then obtain v db' where fin: "finish env ?row1 actor ''accepted'' ?db2 = Inr (v, db')"
    using finish_total[of ?db2 env actor "''accepted''" ?row1] by (auto simp: WORK_ACTIONS_def)
  have op: "open_attempt env row (wa_revision row) actor db = Inr (v, db')"
    using due cas ins fin by (simp add: open_attempt_def)
  have t: "wassigns db' = wassigns ?db2" "wattempts db' = wattempts ?db2" using finish_tables[OF fin] by auto
  have g: "get_assignment db' (wa_code row) = Some ?row1"
    using t(1) row by (auto simp: get_assignment_def row_by_replace_row)
  have "attempts_of db' (wa_code row) = attempts_of (db\<lparr>wattempts := wattempts db @ [?t]\<rparr>) (wa_code row)"
    using t(2) by (simp add: attempts_of_def)
  also have "\<dots> = attempts_of db (wa_code row) @ [?t]"
    by (rule attempts_of_insert) (use gens in \<open>fastforce simp: attempts_of_mem\<close>, simp)
  finally show ?thesis by (intro that[of v db' ?t] op g) simp_all
qed

lemma finish_keeps:
  assumes f: "finish env row actor action db = Inr (v, db')"
    and a: "get_agent db (s_id actor) = Some actor" "s_pid actor \<noteq> None"
  shows "lbase db' = lbase db \<and> leases db' = leases db"
proof -
  obtain r db1 where r: "require_live_session (pe_lease_cfg env) (pe_now env) True (Some (s_id actor)) db = Inr (r, db1)"
    and e: "record_event env row action (BySession (s_id actor)) db1 = Inr db'"
    using f by (auto simp: finish_def result_simps)
  have "db1 = db" using r a by (auto simp: require_live_session_def split: if_split_asm)
  then show ?thesis
    using e unfolding record_event_def by (auto dest!: record_transition_Inr)
qed

lemma sample_work_ok: "work_ok sample_work"
  by (simp add: work_ok_def sample_work_def codes_unique_def)

lemma sample_agent: "s \<in> {''s1'', ''s2'', ''s3''} \<Longrightarrow> lbase db = sample_base \<Longrightarrow>
    get_agent db (s_id (sample_session s)) = Some (sample_session s)"
  by (auto simp: get_agent_def get_session_row_def sample_base_def sample_session_def)

lemma sample_pid: "s_pid (sample_session s) \<noteq> None"
  by (simp add: sample_session_def)

lemma sample_create:
  obtains v db where
    "create_work_assignment (sample_peer_env 1000 ''u1'') sample_peer (PStr (lit ''/a'')) (PStr (lit ''t''))
       sample_request (PStr (lit ''s1'')) (PStr (lit ''k'')) sample_work = Inr (v, db)"
    "wassigns db = [sample_row]" "wattempts db = []" "lbase db = sample_base" "av_row v = sample_row"
proof -
  let ?env = "sample_peer_env 1000 ''u1''"
  let ?w = "\<lparr>w_id = 10, w_path = lit ''/a'', w_visibility = ''org'', w_org_id = None\<rparr> :: workspace_row"
  let ?db1 = "sample_work\<lparr>wassigns := [sample_row]\<rparr>"
  have gate: "with_session_lifecycle ?env sample_peer (PStr (lit ''s1'')) sample_work = Inr (sample_session ''s1'', ?w)"
    by (rule sample_gate) (simp_all add: sample_work_def)
  have path: "workspace_path sample_work ?w (PStr (lit ''/a'')) = (Inr () :: unit work_result)"
    by (simp add: workspace_path_def text_arg_def utf8_size1_def is_space_def)
  have new: "create_assignment ?env ?w (the (operator_id sample_peer)) (lit ''t'') sample_spec (lit ''k'')
      CreatorSession (Some (s_id (sample_session ''s1''))) sample_work = Inr (sample_row, True, ?db1)"
    by (simp add: create_assignment_def Let_def sample_work_def insert_assignment_def sample_row_def
        sample_peer_env_def sample_peer_def sample_session_def)
  have live: "live_handle ?db1 (pe_now ?env) (s_id (sample_session ''s1''))"
    using lifecycle_live[OF gate] by (subst live_handle_cong[where db = sample_work]) simp_all
  obtain v db where fin: "finish ?env sample_row (sample_session ''s1'') ''created'' ?db1 = Inr (v, db)"
    using finish_total[OF live, of "''created''" sample_row] by (auto simp: WORK_ACTIONS_def)
  have "lbase db = sample_base"
    using finish_keeps[OF fin sample_agent sample_pid] by (simp add: sample_work_def)
  moreover have "create_work_assignment ?env sample_peer (PStr (lit ''/a'')) (PStr (lit ''t''))
      sample_request (PStr (lit ''s1'')) (PStr (lit ''k'')) sample_work = Inr (v, db)"
    using gate path new fin sample_specification[of 1000 "''u1''"]
    by (simp add: create_work_assignment_def text_arg_def utf8_size1_def is_space_def)
  ultimately show ?thesis
    using finish_tables[OF fin] that[of v db] by (simp add: sample_work_def)
qed

lemma sample_accept_step:
  obtains db1 db a t where "work_step\<^sup>*\<^sup>* sample_work db1" "get_assignment db1 (lit ''WA-u1'') = Some sample_row"
    "work_step db1 db"
    "get_assignment db (lit ''WA-u1'') = Some a" "phase a = (WAccepted, 1)" "wa_revision a = 2"
    "attempts_of db (lit ''WA-u1'') = [t]" "wt_attempt_id t = lit ''a1''" "wt_deadline_at t = 3600002000"
    "wt_source_session_id t = lit ''s2''" "wt_status t = WAccepted"
proof -
  let ?env = "sample_peer_env 2000 ''a1''"
  let ?w = "\<lparr>w_id = 10, w_path = lit ''/a'', w_visibility = ''org'', w_org_id = None\<rparr> :: workspace_row"
  obtain v1 db1 where c: "create_work_assignment (sample_peer_env 1000 ''u1'') sample_peer (PStr (lit ''/a''))
      (PStr (lit ''t'')) sample_request (PStr (lit ''s1'')) (PStr (lit ''k'')) sample_work = Inr (v1, db1)"
    and t: "wassigns db1 = [sample_row]" "wattempts db1 = []" and b: "lbase db1 = sample_base"
    by (rule sample_create)
  have s1: "work_step sample_work db1" using c by (rule work_step.create)
  have ok: "work_ok db1" using work_steps_ok[OF r_into_rtranclp[of work_step, OF s1] sample_work_ok] .
  have gate: "with_session_lifecycle ?env sample_peer (PStr (lit ''s2'')) db1 = Inr (sample_session ''s2'', ?w)"
    by (rule sample_gate) (simp_all add: b)
  have row: "get_assignment db1 (wa_code sample_row) = Some sample_row" by (simp add: get_assignment_def t)
  have asg: "assignment db1 (PStr (lit ''WA-u1'')) ?w sample_peer = Inr sample_row"
    using row by (simp add: assignment_def text_arg_def utf8_size1_def is_space_def sample_row_def
        owned_by_def sample_peer_def)
  obtain v db' u where op: "open_attempt ?env sample_row (wa_revision sample_row) (sample_session ''s2'') db1 = Inr (v, db')"
    and g: "get_assignment db' (wa_code sample_row) = Some (sample_row\<lparr>wa_status := WAccepted,
        wa_generation := wa_generation sample_row + 1, wa_revision := wa_revision sample_row + 1,
        wa_updated_at := pe_now ?env\<rparr>)"
    and ats: "attempts_of db' (wa_code sample_row) = attempts_of db1 (wa_code sample_row) @ [u]"
    and u: "wt_attempt_id u = pe_uuid ?env" "wt_status u = WAccepted"
      "wt_source_session_id u = s_id (sample_session ''s2'')" "wt_deadline_at u = 3600002000"
  proof (rule open_attempt_ready[OF ok row])
    show "wa_status sample_row = WReady" by (simp add: sample_row_def)
    show "attempt_deadline ?env (wa_specification sample_row) = Inr 3600002000"
      by (simp add: sample_row_def sample_spec_def attempt_deadline_def budget_of_def
          DEFAULT_MAX_RUNTIME_SECONDS_def seconds_def sample_peer_env_def)
    show "pe_now ?env < 3600002000" by (simp add: sample_peer_env_def)
    show "1 \<le> budget_of (wa_specification sample_row)" "budget_of (wa_specification sample_row) \<le> 604800"
      by (simp_all add: sample_row_def sample_spec_def budget_of_def DEFAULT_MAX_RUNTIME_SECONDS_def)
    show "get_attempt db1 (pe_uuid ?env) = None" by (simp add: get_attempt_def t)
    show "live_handle db1 (pe_now ?env) (s_id (sample_session ''s2''))" by (rule lifecycle_live[OF gate])
  qed
  have none: "attempts_of db1 c = []" for c by (simp add: attempts_of_def t)
  have fields: "wa_status sample_row = WReady" "wa_revision sample_row = 1" by (simp_all add: sample_row_def)
  have "accept_work_assignment ?env sample_peer (PStr (lit ''WA-u1'')) (PStr (lit ''s2'')) (PInt 1) db1 = Inr (v, db')"
    unfolding accept_work_assignment_def gate bind_result.simps split asg
    using op none[of "wa_code sample_row"] by (simp add: fields check_revision_def int_arg_def)
  then have s2: "work_step db1 db'" by (rule work_step.accept)
  have r1: "get_assignment db1 (lit ''WA-u1'') = Some sample_row" using row by (simp add: sample_row_def)
  obtain a where a: "get_assignment db' (lit ''WA-u1'') = Some a" "phase a = (WAccepted, 1)"
    "wa_revision a = 2"
    using g by (simp add: sample_row_def phase_def)
  then show ?thesis
    using ats none u
    by (intro that[OF r_into_rtranclp[of work_step, OF s1] r1 s2 a, of u])
       (simp_all add: sample_row_def sample_peer_env_def sample_session_def)
qed

lemma sample_accept:
  obtains db a t v where "work_step\<^sup>*\<^sup>* sample_work db"
    "get_assignment db (lit ''WA-u1'') = Some a" "phase a = (WAccepted, 1)" "wa_revision a = 2"
    "attempts_of db (lit ''WA-u1'') = [t]" "wt_attempt_id t = lit ''a1''" "wt_deadline_at t = 3600002000"
    "wt_source_session_id t = lit ''s2''" "wt_status t = WAccepted"
proof (rule sample_accept_step)
  fix db1 db a t
  assume st: "work_step\<^sup>*\<^sup>* sample_work db1" "work_step db1 db"
    and a: "get_assignment db (lit ''WA-u1'') = Some a" "phase a = (WAccepted, 1)" "wa_revision a = 2"
    "attempts_of db (lit ''WA-u1'') = [t]" "wt_attempt_id t = lit ''a1''" "wt_deadline_at t = 3600002000"
    "wt_source_session_id t = lit ''s2''" "wt_status t = WAccepted"
  show ?thesis by (rule that[OF rtranclp.rtrancl_into_rtrancl[OF st]]) (rule a)+
qed

section \<open>Properties\<close>

lemma settled_conclusive:
  "attempt_checks t \<Longrightarrow> \<not> unresolved t \<Longrightarrow> conclusive t \<and> wt_settled_at t \<noteq> None"
  by (cases "wt_status t")
     (auto simp: attempt_checks_def unresolved_def conclusive_def UNRESOLVED_def CONCLUSIVE_def)

text \<open>Reconciliation of an unresolved assignment whose newest attempt is due.\<close>

lemma reconcile_settles:
  assumes ok: "work_ok db" and a: "get_assignment db c = Some a" and un: "wa_status a \<in> set UNRESOLVED"
    and due: "due_for_reconciliation (pe_now env) db a (last (attempts_of db c))"
  shows "\<exists>v db' b t. reconcile_assignment_attempts env c db = Inr (v, db') \<and> get_assignment db' c = Some b \<and>
    wa_status b = (if wa_status a = WCancelRequested then WCancelled else WFailed) \<and>
    wa_revision b = wa_revision a + 1 \<and> same_request a b \<and>
    get_attempt db' (wt_attempt_id (last (attempts_of db c))) = Some t \<and> wt_status t = wa_status b \<and>
    wt_settled_at t = Some (pe_now env) \<and>
    wt_evidence t = Some (snd (reconciled (pe_now env) a (last (attempts_of db c)))) \<and>
    (\<forall>t\<in>set (attempts_of db' c). conclusive t)"
proof -
  let ?ats = "attempts_of db c"
  have cd: "wa_code a = c" and ao: "attempts_ok a ?ats" using work_ok_get[OF ok a] by auto
  have l: "?ats \<noteq> []" "unresolved (last ?ats)" "last ?ats \<in> set ?ats" "wt_status (last ?ats) = wa_status a"
    using attempts_ok_live[OF ao un] by auto
  obtain s ev where s: "reconciled (pe_now env) a (last ?ats) = (s, ev)" by fastforce
  then have sv: "s = (if wa_status a = WCancelRequested then WCancelled else WFailed)"
    using l(4) by (auto simp: reconciled_def split: if_split_asm)
  let ?f = "\<lambda>r. r\<lparr>wa_status := s\<rparr>"
  let ?b = "(?f a)\<lparr>wa_revision := wa_revision a + 1, wa_updated_at := pe_now env\<rparr>"
  let ?db1 = "db\<lparr>wassigns := replace_row wa_code ?b (wassigns db)\<rparr>"
  let ?u = "(last ?ats)\<lparr>wt_status := s, wt_evidence := Some ev, wt_reported_at := Some (pe_now env),
      wt_settled_at := Some (pe_now env)\<rparr>"
  let ?db2 = "?db1\<lparr>wattempts := replace_row wt_attempt_id ?u (wattempts db)\<rparr>"
  have a': "get_assignment db (wa_code a) = Some a" using a cd by simp
  have cas: "work_cas (pe_now env) a (wa_revision a) ?f db = Inr (?b, ?db1)"
    by (rule work_cas_stored[OF work_ok_codes[OF ok] a' refl]) simp
  have "attempt_checks (last ?ats)" using ao l(3) by (auto simp: attempts_ok_def)
  then have "attempt_checks ?u"
    using sv by (auto simp: attempt_checks_def conclusive_def CONCLUSIVE_def)
  moreover have "\<not> live_elsewhere ?u ?db1"
    using sv by (auto simp: live_elsewhere_def unresolved_def UNRESOLVED_def)
  ultimately have put: "put_attempt ?u ?db1 = Inr ?db2" by (simp add: put_attempt_Inr)
  have rec: "reconcile_assignment_attempts env c db = Inr (snapshot env ?db2 ?b, ?db2)"
    unfolding reconcile_assignment_attempts_def a option.case Let_def cd s prod.case
    using l un due cas put by (simp add: answer_def)
  have g: "get_assignment ?db2 c = Some ?b"
    using a cd by (auto simp: get_assignment_def row_by_replace_row)
  have ok2: "work_ok ?db2"
    using work_tx_ok[OF reconcile_tx[OF ok rec] ok] .
  have "\<forall>t\<in>set (attempts_of ?db2 c). conclusive t"
  proof
    fix t assume t: "t \<in> set (attempts_of ?db2 c)"
    have "attempts_ok ?b (attempts_of ?db2 c)" using work_ok_get(4)[OF ok2 g] .
    moreover have "wa_status ?b \<notin> set UNRESOLVED" using sv by (simp add: UNRESOLVED_def)
    ultimately show "conclusive t"
      using attempts_ok_settled[of ?b _ t] settled_conclusive[of t] t unfolding attempts_ok_def by blast
  qed
  moreover have "last ?ats \<in> set (wattempts db)" using l(3) by (simp add: attempts_of_mem)
  then have "get_attempt ?db2 (wt_attempt_id (last ?ats)) = Some ?u"
    using row_by_replace_row[of wt_attempt_id "wt_attempt_id (last ?ats)" ?u "wattempts db"]
    by (auto simp: get_attempt_def row_by_None split: option.split)
  moreover have "same_request a ?b" by (simp add: same_request_def)
  ultimately show ?thesis
    using rec g sv s by (intro exI[of _ "snapshot env ?db2 ?b"] exI[of _ ?db2] exI[of _ ?b] exI[of _ ?u]) simp
qed

text \<open>C10. Single live attempt. In every store that transactions of the module reach from empty tables,
  interleaved with any change elsewhere, the attempts of an assignment are numbered from 1 without
  gaps up to its generation; at most one of them is unresolved; while the assignment is accepted,
  cancel-requested or uncertain its newest attempt is unresolved with that same status, and
  otherwise all its attempts have ended and carry the time they were settled.\<close>

theorem one_live_attempt:
  assumes "work_step\<^sup>*\<^sup>* db0 db" and "wassigns db0 = []" and "wattempts db0 = []"
    and "get_assignment db c = Some a"
  shows "map wt_generation (attempts_of db c) = [1..wa_generation a] \<and>
    (\<forall>t\<in>set (attempts_of db c). \<forall>u\<in>set (attempts_of db c). unresolved t \<longrightarrow> unresolved u \<longrightarrow> t = u) \<and>
    (if wa_status a \<in> set UNRESOLVED
     then attempts_of db c \<noteq> [] \<and> wt_status (last (attempts_of db c)) = wa_status a
     else \<forall>t\<in>set (attempts_of db c). conclusive t \<and> wt_settled_at t \<noteq> None)"
proof -
  have "work_ok db0" using assms(2,3) by (simp add: work_ok_def codes_unique_def)
  then have ok: "work_ok db" by (rule work_steps_ok[OF assms(1)])
  have ao: "attempts_ok a (attempts_of db c)" using work_ok_get(4)[OF ok assms(4)] .
  show ?thesis
  proof (intro conjI)
    show "map wt_generation (attempts_of db c) = [1..wa_generation a]" using ao by (simp add: attempts_ok_def)
    show "\<forall>t\<in>set (attempts_of db c). \<forall>u\<in>set (attempts_of db c). unresolved t \<longrightarrow> unresolved u \<longrightarrow> t = u"
      using attempts_ok_unresolved_last[OF ao] by blast
    show "if wa_status a \<in> set UNRESOLVED
      then attempts_of db c \<noteq> [] \<and> wt_status (last (attempts_of db c)) = wa_status a
      else \<forall>t\<in>set (attempts_of db c). conclusive t \<and> wt_settled_at t \<noteq> None"
      using attempts_ok_live[OF ao] attempts_ok_settled[OF ao] settled_conclusive ao
      by (auto simp: attempts_ok_def)
  qed
qed

theorem one_live_attempt_witness:
  "\<exists>db a t. work_step\<^sup>*\<^sup>* sample_work db \<and> get_assignment db (lit ''WA-u1'') = Some a \<and>
     attempts_of db (lit ''WA-u1'') = [t] \<and> unresolved t \<and> wt_status t = wa_status a"
proof (rule sample_accept)
  fix db a t
  assume s: "work_step\<^sup>*\<^sup>* sample_work db" and a: "get_assignment db (lit ''WA-u1'') = Some a"
    "phase a = (WAccepted, 1)" and t: "attempts_of db (lit ''WA-u1'') = [t]" "wt_status t = WAccepted"
  have "wt_status (last (attempts_of db (lit ''WA-u1''))) = wa_status a"
    using one_live_attempt[OF s _ _ a(1)] a(2)
    by (simp add: sample_work_def phase_def UNRESOLVED_def del: list.map)
  then show ?thesis using s a t by (auto simp: unresolved_def UNRESOLVED_def simp del: list.map)
qed

text \<open>C12. Each transaction implements the assignment protocol. It leaves an assignment as it was, or
  takes it through exactly one step of the abstract state machine \<open>work_protocol\<close> under the next
  revision, and never changes what was requested; completed work is final.\<close>

theorem work_refines_protocol:
  assumes "work_ok db" and "work_step db db'" and "get_assignment db c = Some a"
  shows "\<exists>b. get_assignment db' c = Some b \<and> same_request a b \<and>
    (b = a \<or> (work_protocol (phase a) (phase b) \<and> wa_revision b = wa_revision a + 1)) \<and>
    (wa_status a = WCompleted \<longrightarrow> b = a)"
proof -
  obtain b where b: "get_assignment db' c = Some b" "b = a \<or> moves a b"
    using work_tx_row[OF work_step_tx[OF assms(2,1)] assms(3)] by blast
  have "wa_status a = WCompleted \<longrightarrow> \<not> moves a b"
    by (auto simp: moves_def phase_def work_protocol_completed)
  then show ?thesis using b same_request_refl by (auto simp: moves_def)
qed

text \<open>The sample Session accepts the work; once its hour is over, reconciliation settles it.\<close>

theorem work_refines_protocol_witness:
  "\<exists>(db0 :: work_db) (db1 :: work_db) (db2 :: work_db) b c. work_step db0 db1 \<and> work_step db1 db2 \<and> get_assignment db0 (lit ''WA-u1'') = Some sample_row \<and>
     get_assignment db1 (lit ''WA-u1'') = Some b \<and> get_assignment db2 (lit ''WA-u1'') = Some c \<and>
     work_protocol (phase sample_row) (phase b) \<and> phase b = (WAccepted, 1) \<and> wa_revision b = wa_revision sample_row + 1 \<and>
     work_protocol (phase b) (phase c) \<and> phase c = (WFailed, 1) \<and> wa_revision c = wa_revision b + 1"
proof (rule sample_accept_step)
  fix db1 db a t
  assume s: "work_step\<^sup>*\<^sup>* sample_work db1" "work_step db1 db" and r: "get_assignment db1 (lit ''WA-u1'') = Some sample_row"
    and a: "get_assignment db (lit ''WA-u1'') = Some a" "phase a = (WAccepted, 1)" "wa_revision a = 2"
    and t: "attempts_of db (lit ''WA-u1'') = [t]" "wt_deadline_at t = 3600002000"
  let ?env = "sample_peer_env 3600002000 ''x''"
  have ok1: "work_ok db1" by (rule work_steps_ok[OF s(1) sample_work_ok])
  have ok2: "work_ok db" using work_steps_ok[OF r_into_rtranclp[of work_step, OF s(2)] ok1] .
  have st: "wa_status a = WAccepted" using a(2) by (simp add: phase_def)
  obtain v db2 b where c: "reconcile_assignment_attempts ?env (lit ''WA-u1'') db = Inr (v, db2)"
    "get_assignment db2 (lit ''WA-u1'') = Some b" "wa_status b = WFailed"
    using reconcile_settles[OF ok2 a(1), of ?env] t st
    by (auto simp: due_for_reconciliation_def sample_peer_env_def UNRESOLVED_def simp del: list.map)
  have s3: "work_step db db2" by (rule work_step.reconcile[OF c(1)])
  have "phase sample_row = (WReady, 0)" "wa_revision sample_row = 1" by (simp_all add: phase_def sample_row_def)
  then have one: "work_protocol (phase sample_row) (phase a)" "wa_revision a = wa_revision sample_row + 1"
    using work_refines_protocol[OF ok1 s(2) r] a by auto
  have "wa_status b \<noteq> wa_status a" using c(3) st by simp
  then have two: "work_protocol (phase a) (phase b)" "wa_revision b = wa_revision a + 1"
    using work_refines_protocol[OF ok2 s3 a(1)] c(2) by auto
  have "wa_generation b = 1"
    using two(1) a(2) c(3) by (auto simp: phase_def elim: work_protocol.cases)
  then have "phase b = (WFailed, 1)" using c(3) by (simp add: phase_def)
  then show ?thesis
    by (intro exI[of _ db1] exI[of _ db] exI[of _ db2] exI[of _ a] exI[of _ b] conjI) (use s(2) s3 r a(1,2) c(2) one two in simp_all)
qed

lemma assignment_code:
  "assignment db (PStr c) w p = Inr row \<Longrightarrow> get_assignment db c = Some row"
  by (auto simp: assignment_Inr result_simps)

lemma cancel_assignment_revision:
  "cancel_assignment env row expected sid db = Inr r \<Longrightarrow> expected = PInt (wa_revision row)"
  by (auto simp: cancel_assignment_def bind_result_eq_Inr check_revision_Inr)

text \<open>A stale revision is always refused. Once an assignment has moved past revision \<open>e\<close>, then
  after any further transactions no caller commits or is answered by accepting, settling,
  cancelling or retrying it at \<open>e\<close>: of two callers that read the same revision at most one changes
  the assignment, and a lost response replayed later changes nothing.\<close>

theorem stale_revision_refused:
  assumes "work_ok db" and "work_step\<^sup>*\<^sup>* db db'" and "get_assignment db c = Some a" and "e < wa_revision a"
  shows "accept_work_assignment env p (PStr c) sid (PInt e) db' \<noteq> Inr (v, d) \<and>
    settle_work_assignment env p (PStr c) aid outcome evidence sid (PInt e) result db' \<noteq> Inr (v, d) \<and>
    cancel_work_assignment env p (PStr c) sid (PInt e) db' \<noteq> Inr (v, d) \<and>
    cancel_operator_assignment env p ws (PStr c) (PInt e) db' \<noteq> Inr (w, d) \<and>
    retry_work_assignment env p (PStr c) sid (PInt e) db' \<noteq> Inr (v, d)"
proof -
  have past: False if "get_assignment db' c = Some row" "e = wa_revision row" for row
    using advanced_steps[OF assms(2,1)] assms(3,4) that unfolding assignments.advanced_def by fastforce
  show ?thesis
    using past by (intro conjI)
      (auto elim!: accept_work_Inr settle_work_Inr cancel_work_Inr cancel_operator_Inr retry_work_Inr
         dest!: assignment_code cancel_assignment_revision)
qed

theorem stale_revision_refused_witness:
  "\<exists>(db :: work_db) a. get_assignment db (lit ''WA-u1'') = Some a \<and> wa_revision a = 2 \<and>
     (\<forall>env v d. accept_work_assignment env sample_peer (PStr (lit ''WA-u1'')) (PStr (lit ''s3'')) (PInt 1) db
        \<noteq> Inr (v, d))"
proof (rule sample_accept)
  fix db a t
  assume s: "work_step\<^sup>*\<^sup>* sample_work db" and a: "get_assignment db (lit ''WA-u1'') = Some a"
    and r: "wa_revision a = 2"
  have "accept_work_assignment env sample_peer (PStr (lit ''WA-u1'')) (PStr (lit ''s3'')) (PInt 1) db \<noteq> Inr (v, d)"
    for env v d
    using stale_revision_refused[OF work_steps_ok[OF s sample_work_ok] rtranclp.rtrancl_refl a, of 1] r by simp
  then show ?thesis using a r by blast
qed

text \<open>The history of attempts is final. An attempt that has ended (reported by its Session or
  settled by reconciliation) is never changed by any later transaction, and a Session that reports
  on it later is refused, unless it repeats the recorded outcome, evidence and result, which
  changes nothing.\<close>

theorem attempt_history_final:
  assumes "work_ok db" and "get_attempt db i = Some t" and "conclusive t" and "work_step\<^sup>*\<^sup>* db db'"
  shows "get_attempt db' i = Some t \<and>
    (settle_work_assignment env p code (PStr i) outcome (PStr ev) sid expected (PStr res) db' = Inr (v, d)
       \<longrightarrow> outcome_arg outcome = Inr (wt_status t) \<and> wt_evidence t = Some ev \<and> wt_result t = Some res
           \<and> d = db')"
proof (intro conjI impI)
  show t: "get_attempt db' i = Some t" using attempt_final_steps[OF assms(4,1-3)] .
  assume "settle_work_assignment env p code (PStr i) outcome (PStr ev) sid expected (PStr res) db' = Inr (v, d)"
  then obtain row actor oc where "outcome_arg outcome = Inr oc"
    "settle_attempt env row (wa_revision row) actor t oc ev res db' = Inr (v, d)"
    by (elim settle_work_Inr) (use t in auto)
  moreover have "wt_status t \<in> set CONCLUSIVE" using assms(3) by (simp add: conclusive_def)
  ultimately show "outcome_arg outcome = Inr (wt_status t)" "wt_evidence t = Some ev"
    "wt_result t = Some res" "d = db'"
    by (auto simp: settle_attempt_def answers split: if_split_asm)
qed

definition sample_settled :: work_db where
  "sample_settled = sample_work\<lparr>
     wassigns := [sample_row\<lparr>wa_status := WFailed, wa_generation := 1, wa_revision := 3\<rparr>],
     wattempts := [\<lparr>wt_attempt_id = lit ''a1'', wt_assignment_code = lit ''WA-u1'', wt_generation = 1,
       wt_source_session_id = lit ''s2'', wt_tool = lit ''codex'', wt_status = WFailed,
       wt_accepted_at = 2000, wt_deadline_at = 3000, wt_max_runtime_seconds = 3600,
       wt_cancel_requested_at = None, wt_reported_at = Some 4000, wt_settled_at = Some 4000,
       wt_evidence = Some (lit ''runtime budget exceeded''), wt_result = None, wt_usage = None\<rparr>]\<rparr>"

lemma sample_settled_ok: "work_ok sample_settled"
  by (simp add: work_ok_def sample_settled_def sample_work_def codes_unique_def attempts_ok_def attempts_of_def
      sample_row_def UNRESOLVED_def unresolved_def attempt_checks_def conclusive_def CONCLUSIVE_def
      get_assignment_def)

theorem attempt_history_final_witness:
  "\<forall>env p code sid expected v d.
     settle_work_assignment env p code (PStr (lit ''a1'')) (PStr (lit ''completed'')) (PStr (lit ''done'')) sid
       expected (PStr []) sample_settled \<noteq> Inr (v, d)"
proof (intro allI notI)
  fix env p code sid expected v d
  assume s: "settle_work_assignment env p code (PStr (lit ''a1'')) (PStr (lit ''completed'')) (PStr (lit ''done''))
      sid expected (PStr []) sample_settled = Inr (v, d)"
  obtain t where t: "get_attempt sample_settled (lit ''a1'') = Some t" "conclusive t" "wt_status t = WFailed"
    by (simp add: sample_settled_def get_attempt_def conclusive_def CONCLUSIVE_def)
  have "outcome_arg (PStr (lit ''completed'')) = Inr (wt_status t)"
    by (rule attempt_history_final[OF sample_settled_ok t(1,2) rtranclp.rtrancl_refl, THEN conjunct2,
          rule_format, OF s, THEN conjunct1])
  then show False using t(3) by (simp add: outcome_arg_def)
qed

lemma create_assignment_row:
  assumes ok: "work_ok db" and c: "create_assignment env w oid title sp key kind sid db = Inr (row, created, db1)"
  shows "request_key row = (w_id w, oid, key)" and "get_assignment db1 (wa_code row) = Some row"
    and "created \<longleftrightarrow> request_key row \<notin> request_key ` set (wassigns db)"
    and "\<not> created \<Longrightarrow> db1 = db \<and> (wa_request_hash row = request_hash_of env title sp (Some kind) \<or>
      wa_request_hash row = request_hash_of env title sp None)"
    and "k \<noteq> wa_code row \<Longrightarrow> get_assignment db1 k = get_assignment db k"
proof -
  let ?P = "\<lambda>r. wa_workspace_id r = w_id w \<and> wa_creator_operator_id r = oid \<and> wa_idempotency_key r = key"
  have "request_key row = (w_id w, oid, key) \<and> get_assignment db1 (wa_code row) = Some row \<and>
    (created \<longleftrightarrow> request_key row \<notin> request_key ` set (wassigns db)) \<and>
    (\<not> created \<longrightarrow> db1 = db \<and> (wa_request_hash row = request_hash_of env title sp (Some kind) \<or>
      wa_request_hash row = request_hash_of env title sp None)) \<and>
    (k \<noteq> wa_code row \<longrightarrow> get_assignment db1 k = get_assignment db k)"
  proof (cases "find ?P (wassigns db)")
    case None
    have "created" and i: "insert_assignment row db = Inr db1" and "request_key row = (w_id w, oid, key)"
      using c None by (auto simp: create_assignment_def Let_def result_simps request_key_def)
    then show ?thesis
      using insert_assignment_Inr[OF i] by (auto simp: get_assignment_def row_by_append split: option.split)
  next
    case (Some r)
    then have r: "r \<in> set (wassigns db)" and rk: "request_key r = (w_id w, oid, key)"
      by (auto simp: find_Some_iff request_key_def)
    have in_r: "request_key r \<in> request_key ` set (wassigns db)" using r by simp
    have "row = r" "\<not> created" "db1 = db"
      "wa_request_hash row = request_hash_of env title sp (Some kind) \<or>
       wa_request_hash row = request_hash_of env title sp None"
      using c Some by (auto simp: create_assignment_def Let_def split: if_split_asm)
    then show ?thesis
      using r rk in_r get_assignment_member[OF work_ok_codes[OF ok], of "wa_code r" r] by simp
  qed
  then show "request_key row = (w_id w, oid, key)" and "get_assignment db1 (wa_code row) = Some row"
    and "created \<longleftrightarrow> request_key row \<notin> request_key ` set (wassigns db)"
    and "\<not> created \<Longrightarrow> db1 = db \<and> (wa_request_hash row = request_hash_of env title sp (Some kind) \<or>
      wa_request_hash row = request_hash_of env title sp None)"
    and "k \<noteq> wa_code row \<Longrightarrow> get_assignment db1 k = get_assignment db k"
    by blast+
qed

text \<open>Creation is idempotent under its key, and survives the replacement of the creating Session.
  If a creation succeeds and later, after any transactions, a Session of the same operator in the
  same Workspace creates under the same key, then it is answered with the same assignment, the
  store is left exactly as it was, and the answer is given only when the stored hash is that of the
  new request.\<close>

theorem create_idempotent:
  assumes "work_ok db"
    and "create_work_assignment env p path title spec sid key db = Inr (v, db1)"
    and "work_step\<^sup>*\<^sup>* db1 db2"
    and "create_work_assignment env' p' path' (PStr title') spec' sid' key db2 = Inr (v', db3)"
    and "operator_id p' = operator_id p" and "wa_workspace_id (av_row v') = wa_workspace_id (av_row v)"
  shows "wa_code (av_row v') = wa_code (av_row v) \<and> same_request (av_row v) (av_row v') \<and> db3 = db2 \<and>
    (\<exists>sp. work_specification env' spec' = Inr sp \<and>
       (wa_request_hash (av_row v') = request_hash_of env' title' sp (Some CreatorSession) \<or>
        wa_request_hash (av_row v') = request_hash_of env' title' sp None))"
proof -
  have s1: "work_step db db1" using assms(2) by (rule work_step.create)
  have ok1: "work_ok db1" using work_tx_ok[OF work_step_tx[OF s1 assms(1)] assms(1)] .
  have ok2: "work_ok db2" using work_steps_ok[OF assms(3) ok1] .
  from assms(2) obtain w :: workspace_row and k row d where k: "key = PStr k"
    and row: "request_key row = (w_id w, the (operator_id p), k)" "get_assignment d (wa_code row) = Some row"
    and a: "answered row d v db1"
  proof (elim create_work_Inr)
    fix actor w ttl k sp row created d
    assume "key = PStr k" "answered row d v db1" "create_assignment env w (the (operator_id p)) ttl sp k
        CreatorSession (Some (s_id actor)) db = Inr (row, created, d)"
    then show thesis using create_assignment_row(1,2)[OF assms(1)] by (intro that[of k row w d]) auto
  qed
  have v: "av_row v = row" "get_assignment db1 (wa_code row) = Some row"
    using a row(2) by (auto simp: answered_def get_assignment_def)
  obtain b where b: "get_assignment db2 (wa_code row) = Some b" "same_request row b"
    using work_steps_row[OF assms(3) ok1 v(2)] by blast
  from assms(4) obtain w' :: workspace_row and sp c' row' d' where sp: "work_specification env' spec' = Inr sp"
    and c: "request_key row' = (w_id w', the (operator_id p'), k)"
      "c' \<longleftrightarrow> request_key row' \<notin> request_key ` set (wassigns db2)"
      "get_assignment d' (wa_code row') = Some row'"
      "\<not> c' \<Longrightarrow> d' = db2 \<and> (wa_request_hash row' = request_hash_of env' title' sp (Some CreatorSession) \<or>
        wa_request_hash row' = request_hash_of env' title' sp None)"
    and a': "answered row' d' v' db3" "\<not> c' \<Longrightarrow> db3 = d'"
  proof (elim create_work_Inr)
    fix actor w' ttl k' sp row' c' d'
    assume h: "work_specification env' spec' = Inr sp" "key = PStr k'" "PStr title' = PStr ttl"
      "answered row' d' v' db3" "\<not> c' \<Longrightarrow> db3 = d'"
      and c: "create_assignment env' w' (the (operator_id p')) ttl sp k' CreatorSession (Some (s_id actor)) db2
        = Inr (row', c', d')"
    then have "k' = k" "ttl = title'" using k by auto
    then show thesis
      using create_assignment_row(1-4)[OF ok2 c] h by (intro that[of sp row' w' c' d']) auto
  qed
  have v': "av_row v' = row'" using a' by (simp add: answered_def)
  have "w_id w' = w_id w" using assms(6) c(1) row(1) by (simp add: v v' request_key_def)
  then have key: "request_key row' = request_key b"
    using c(1) row(1) assms(5) same_request_key[OF b(2)] by simp
  have bm: "b \<in> set (wassigns db2)" "wa_code b = wa_code row"
    using b(1) get_assignment_member[OF work_ok_codes[OF ok2]] by auto
  then have nc: "\<not> c'" using c(2) key by auto
  then have "row' \<in> set (wassigns db2)"
    using c(3,4) get_assignment_member[OF work_ok_codes[OF ok2]] by auto
  moreover have "inj_on request_key (set (wassigns db2))"
    using ok2 by (simp add: work_ok_def distinct_map)
  ultimately have "row' = b" using key bm(1) by (auto dest: inj_onD)
  then show ?thesis using v v' b(2) bm(2) sp nc c(4)[OF nc] a'(2)[OF nc] by auto
qed

lemma sample_create_again:
  assumes "wassigns db = [sample_row]" and "lbase db = sample_base"
  shows "create_work_assignment (sample_peer_env 5000 ''u9'') sample_peer (PStr (lit ''/a'')) (PStr (lit ''t''))
     sample_request (PStr (lit ''s3'')) (PStr (lit ''k'')) db =
       Inr (snapshot (sample_peer_env 5000 ''u9'') db sample_row, db)"
proof -
  let ?env = "sample_peer_env 5000 ''u9''"
  let ?w = "\<lparr>w_id = 10, w_path = lit ''/a'', w_visibility = ''org'', w_org_id = None\<rparr> :: workspace_row"
  have gate: "with_session_lifecycle ?env sample_peer (PStr (lit ''s3'')) db = Inr (sample_session ''s3'', ?w)"
    by (rule sample_gate) (simp_all add: assms)
  have path: "workspace_path db ?w (PStr (lit ''/a'')) = (Inr () :: unit work_result)"
    by (simp add: workspace_path_def text_arg_def utf8_size1_def is_space_def)
  have old: "create_assignment ?env ?w (the (operator_id sample_peer)) (lit ''t'') sample_spec (lit ''k'')
      CreatorSession (Some (s_id (sample_session ''s3''))) db = Inr (sample_row, False, db)"
    by (simp add: create_assignment_def Let_def assms sample_row_def sample_peer_env_def sample_peer_def
        request_hash_of_def)
  show ?thesis
    using gate path old sample_specification[of 5000 "''u9''"]
    by (simp add: create_work_assignment_def text_arg_def utf8_size1_def is_space_def answer_def)
qed

theorem create_idempotent_witness:
  "\<exists>v db. create_work_assignment (sample_peer_env 5000 ''u9'') sample_peer (PStr (lit ''/a'')) (PStr (lit ''t''))
     sample_request (PStr (lit ''s3'')) (PStr (lit ''k'')) db = Inr (v, db) \<and> same_request sample_row (av_row v) \<and>
     wassigns (db :: work_db) = [sample_row]"
proof (rule sample_create)
  fix v and db :: work_db
  assume c: "create_work_assignment (sample_peer_env 1000 ''u1'') sample_peer (PStr (lit ''/a'')) (PStr (lit ''t''))
      sample_request (PStr (lit ''s1'')) (PStr (lit ''k'')) sample_work = Inr (v, db)"
    and d: "wassigns db = [sample_row]" "lbase db = sample_base" and v: "av_row v = sample_row"
  note again = sample_create_again[OF d]
  from create_idempotent[OF sample_work_ok c rtranclp.rtrancl_refl again] v
  have "same_request sample_row (av_row (snapshot (sample_peer_env 5000 ''u9'') db sample_row))"
    by simp
  then show ?thesis using again d by blast
qed

section \<open>Isolation\<close>

text \<open>An answer about \<open>row\<close> on a store where no other assignment changed.\<close>

definition about :: "assignment_row \<Rightarrow> 'a work_db_scheme \<Rightarrow> assignment_view \<Rightarrow> 'a work_db_scheme \<Rightarrow> bool" where
  "about row db v db' \<longleftrightarrow>
     wa_code (av_row v) = wa_code row \<and> wa_workspace_id (av_row v) = wa_workspace_id row \<and>
     wa_creator_operator_id (av_row v) = wa_creator_operator_id row \<and>
     (\<forall>k. k \<noteq> wa_code row \<longrightarrow> get_assignment db' k = get_assignment db k)"

lemma about_same: "answered row db v db' \<Longrightarrow> about row db v db'"
  by (auto simp: answered_def about_def get_assignment_def)

lemma about_answer: "about row db (snapshot env db row) db"
  by (simp add: about_def)

lemma about_cas:
  assumes u: "codes_unique db" "get_assignment db (wa_code row) = Some row"
    and c: "work_cas now row (wa_revision row) f db = Inr (row1, db1)"
    and f: "\<And>r. wa_code (f r) = wa_code r" "wa_workspace_id (f row) = wa_workspace_id row"
      "wa_creator_operator_id (f row) = wa_creator_operator_id row"
    and a: "av_row v = row1" "wassigns db' = wassigns db1"
  shows "about row db v db'"
proof -
  have r: "row1 = (f row)\<lparr>wa_revision := wa_revision row + 1, wa_updated_at := now\<rparr>"
    using work_cas_stored[OF u(1,2) refl f(1), of now] c by simp
  have "get_assignment db1 k = get_assignment db k" if "k \<noteq> wa_code row" for k
    by (rule assignments.cas_other[OF u(1) f(1) c that])
  then show ?thesis using r f a by (simp add: about_def get_assignment_def)
qed

lemma put_attempt_wassigns: "put_attempt t db = Inr db' \<Longrightarrow> wassigns db' = wassigns db"
  by (auto simp: put_attempt_Inr)

lemma about_open:
  assumes "codes_unique db" "get_assignment db (wa_code row) = Some row"
    and op: "open_attempt env row (wa_revision row) actor db = Inr (v, db')"
  shows "about row db v db'"
proof -
  let ?f = "\<lambda>r. r\<lparr>wa_status := WAccepted, wa_generation := wa_generation row + 1\<rparr>"
  obtain row1 db1 db2 t where c: "work_cas (pe_now env) row (wa_revision row) ?f db = Inr (row1, db1)"
    and i: "insert_attempt t db1 = Inr db2" and f: "finish env row1 actor ''accepted'' db2 = Inr (v, db')"
    using op unfolding open_attempt_def by (auto simp: result_simps split: if_split_asm)
  show ?thesis
    by (rule about_cas[OF assms(1,2) c]) (use i answered_finish[OF f] in \<open>auto simp: answered_def insert_attempt_Inr\<close>)
qed

lemma about_settle:
  assumes "codes_unique db" "get_assignment db (wa_code row) = Some row"
    and op: "settle_attempt env row (wa_revision row) actor t outcome ev res db = Inr (v, db')"
  shows "about row db v db'"
proof -
  let ?f = "\<lambda>r. r\<lparr>wa_status := outcome\<rparr>"
  consider "answer env row db = Inr (v, db')"
    | row1 db1 db2 u where "work_cas (pe_now env) row (wa_revision row) ?f db = Inr (row1, db1)"
      "put_attempt u db1 = Inr db2" "finish env row1 actor ''settled'' db2 = Inr (v, db')"
    using op unfolding settle_attempt_def by (auto simp: result_simps split: if_split_asm)
  then show ?thesis
  proof cases
    case 1
    then show ?thesis using answered_answer about_same by blast
  next
    case 2
    show ?thesis
      by (rule about_cas[OF assms(1,2) 2(1)])
         (use put_attempt_wassigns[OF 2(2)] answered_finish[OF 2(3)] in \<open>auto simp: answered_def\<close>)
  qed
qed

lemma about_cancel:
  assumes u: "codes_unique db" "get_assignment db (wa_code row) = Some row"
    and op: "cancel_assignment env row expected sid db = Inr (action, row1, db1)"
    and a: "answered row1 db1 v db'"
  shows "about row db v db'"
proof (cases "action = None")
  case True
  then have "row1 = row" "db1 = db" using op unfolding cancel_assignment_def
    by (auto simp: result_simps Let_def split: if_split_asm)
  then show ?thesis using a about_same by simp
next
  case False
  let ?f = "\<lambda>r. r\<lparr>wa_status := cancel_status (wa_status row), wa_cancel_requested_at := Some (pe_now env),
      wa_cancel_requested_by := sid\<rparr>"
  obtain db0 where c: "work_cas (pe_now env) row (wa_revision row) ?f db = Inr (row1, db0)"
    and w: "wassigns db1 = wassigns db0"
    using op False unfolding cancel_assignment_def Let_def
    by (auto simp: result_simps check_revision_Inr dest: put_attempt_wassigns split: if_split_asm)
  show ?thesis by (rule about_cas[OF u c]) (use a w in \<open>auto simp: answered_def\<close>)
qed

lemma reconcile_about:
  assumes ok: "work_ok db" and op: "reconcile_assignment_attempts env c db = Inr (v, db')"
  obtains row where "get_assignment db c = Some row" "about row db v db'"
proof -
  obtain row where a: "get_assignment db c = Some row"
    using op by (auto simp: reconcile_assignment_attempts_def split: option.split_asm)
  have cd: "wa_code row = c" using work_ok_get(1)[OF ok a] .
  consider "answer env row db = Inr (v, db')"
    | st ev row1 db1 db2 where "work_cas (pe_now env) row (wa_revision row) (\<lambda>r. r\<lparr>wa_status := st\<rparr>) db = Inr (row1, db1)"
      "put_attempt ev db1 = Inr db2" "answer env row1 db2 = Inr (v, db')"
    using op a unfolding reconcile_assignment_attempts_def
    by (auto simp: Let_def result_simps split: if_split_asm prod.splits)
  then have "about row db v db'"
  proof cases
    case 1
    then show ?thesis using about_same answered_answer by blast
  next
    case 2
    show ?thesis
      by (rule about_cas[OF work_ok_codes[OF ok] _ 2(1)])
         (use 2 a cd answered_answer put_attempt_wassigns in \<open>fastforce simp: answered_def\<close>)+
  qed
  then show thesis using that a by blast
qed

text \<open>Every operation a principal can call, reads included.\<close>

inductive answers :: "peer_env \<Rightarrow> principal \<Rightarrow> 'a work_db_scheme \<Rightarrow> assignment_view \<Rightarrow> 'a work_db_scheme \<Rightarrow> bool"
  for env p db where
  get: "get_work_assignment env p code sid db = Inr v \<Longrightarrow> answers env p db v db"
| get_list: "list_work_assignments env p path sid limit db = Inr vs \<Longrightarrow> v \<in> set vs \<Longrightarrow> answers env p db v db"
| operator_get: "get_operator_assignment env p ws code db = Inr w \<Longrightarrow> answers env p db (fst w) db"
| operator_list: "list_operator_assignments env p ws limit db = Inr vs \<Longrightarrow> w \<in> set vs \<Longrightarrow>
    answers env p db (fst w) db"
| create: "create_work_assignment env p path title spec sid key db = Inr (v, db') \<Longrightarrow> answers env p db v db'"
| create_operator: "create_operator_assignment env p ws title spec key db = Inr (w, db') \<Longrightarrow>
    answers env p db (fst w) db'"
| accept: "accept_work_assignment env p code sid expected db = Inr (v, db') \<Longrightarrow> answers env p db v db'"
| settle: "settle_work_assignment env p code aid outcome evidence sid expected result db = Inr (v, db') \<Longrightarrow>
    answers env p db v db'"
| cancel: "cancel_work_assignment env p code sid expected db = Inr (v, db') \<Longrightarrow> answers env p db v db'"
| cancel_operator: "cancel_operator_assignment env p ws code expected db = Inr (w, db') \<Longrightarrow>
    answers env p db (fst w) db'"
| retry: "retry_work_assignment env p code sid expected db = Inr (v, db') \<Longrightarrow> answers env p db v db'"

definition admitted :: "principal \<Rightarrow> 'a work_db_scheme \<Rightarrow> workspace_row \<Rightarrow> bool" where
  "admitted p db w \<longleftrightarrow> visible_in (lbase db) p w \<and> get_workspace_row (lbase db) (w_id w) = Some w
     \<and> operator_id p \<noteq> None"

lemma workspace_row_key: "get_workspace_row db i = Some w \<Longrightarrow> get_workspace_row db (w_id w) = Some w"
  by (auto simp: get_workspace_row_def dest: row_by_Some_iff_key)

lemma lifecycle_admitted: "with_session_lifecycle env p sid db = Inr (actor, w) \<Longrightarrow> admitted p db w"
proof -
  assume "with_session_lifecycle env p sid db = Inr (actor, w)"
  then obtain i where "operator_id p \<noteq> None"
    and a: "session_actor True env p i db = (Inr (actor, w) :: (session_row \<times> workspace_row) work_result)"
    by (auto simp: with_session_lifecycle_def enter_session_Inr)
  then show ?thesis
    using session_actor_Inr[OF a] workspace_row_key[of "lbase db" "s_workspace_id actor" w]
    by (simp add: admitted_def)
qed

lemma operator_admitted: "with_operator_workspace env p wr ws db = Inr w \<Longrightarrow> admitted p db w"
proof -
  assume "with_operator_workspace env p wr ws db = Inr w"
  then obtain i where "get_workspace_row (lbase db) i = Some w" "operator_id p \<noteq> None"
    "visible_in (lbase db) p w"
    using enter_operator_Inr[of "''work assignment''" env p wr ws db w]
    by (auto simp: with_operator_workspace_def)
  then show ?thesis using workspace_row_key[of "lbase db" i w] by (simp add: admitted_def)
qed

definition kept :: "principal \<Rightarrow> 'a work_db_scheme \<Rightarrow> assignment_view \<Rightarrow> 'a work_db_scheme \<Rightarrow> bool" where
  "kept p db v db' \<longleftrightarrow> (\<exists>w. admitted p db w \<and> owned_by p w (av_row v)) \<and>
     (\<forall>k. k \<noteq> wa_code (av_row v) \<longrightarrow> get_assignment db' k = get_assignment db k)"

lemma kept_about: "admitted p db w \<Longrightarrow> owned_by p w row \<Longrightarrow> about row db v db' \<Longrightarrow> kept p db v db'"
  by (auto simp: kept_def about_def owned_by_def)

lemma assignment_owned: "assignment db code w p = Inr row \<Longrightarrow> owned_by p w row"
  by (simp add: assignment_Inr)

lemma listing_owned: "row \<in> set (listing db p w n) \<Longrightarrow> owned_by p w row"
  by (auto simp: listing_def dest!: in_set_takeD)

lemma create_kept:
  assumes ok: "work_ok db" and "admitted p db w"
    and c: "create_assignment env w (the (operator_id p)) title sp key kind sid db = Inr (row, created, db1)"
    and a: "answered row db1 v db'"
  shows "kept p db v db'"
proof -
  have "owned_by p w row"
    using create_assignment_row(1)[OF ok c] assms(2) by (auto simp: owned_by_def request_key_def admitted_def)
  moreover have "get_assignment db' k = get_assignment db k" if "k \<noteq> wa_code row" for k
    using create_assignment_row(5)[OF ok c that] a by (simp add: answered_def get_assignment_def)
  ultimately show ?thesis using assms(2) a by (auto simp: kept_def answered_def)
qed

lemma map_result_mem: "map_result f xs = Inr ys \<Longrightarrow> y \<in> set ys \<Longrightarrow> \<exists>x\<in>set xs. f x = Inr y"
  by (induction xs arbitrary: ys) (auto simp: result_simps)

lemma answers_kept:
  assumes "answers env p db v db'" and ok: "work_ok db"
  shows "kept p db v db'"
proof -
  note u = work_ok_codes[OF ok]
  note admit = lifecycle_admitted operator_admitted
  show ?thesis
    using assms(1)
  proof cases
    case (get code sid)
    then show ?thesis
      by (auto simp: get_work_assignment_def result_simps intro: kept_about[OF lifecycle_admitted assignment_owned about_answer])
  next
    case (get_list path sid limit vs)
    then show ?thesis
      by (auto simp: list_work_assignments_def result_simps
          intro: kept_about[OF lifecycle_admitted listing_owned about_answer])
  next
    case (operator_get ws code w)
    then obtain wk row where g: "with_operator_workspace env p False ws db = Inr wk"
      "assignment db code wk p = Inr row" and r: "operator_snapshot env p db row = Inr w"
      by (auto simp: get_operator_assignment_def result_simps)
    have "about row db (fst w) db" using operator_snapshot_row[OF r] by (simp add: about_def)
    then show ?thesis
      using kept_about[OF operator_admitted[OF g(1)] assignment_owned[OF g(2)]] operator_get by simp
  next
    case (operator_list ws limit vs w)
    then obtain x n wk where g: "with_operator_workspace env p False ws db = Inr wk"
      "x \<in> set (listing db p wk n)" and r: "operator_snapshot env p db x = Inr w"
      by (auto simp: list_operator_assignments_def result_simps dest!: map_result_mem)
    have "about x db (fst w) db" using operator_snapshot_row[OF r] by (simp add: about_def)
    then show ?thesis
      using kept_about[OF operator_admitted[OF g(1)] listing_owned[OF g(2)]] operator_list by simp
  next
    case (create path title spec sid key)
    then show ?thesis by (elim create_work_Inr) (rule create_kept[OF ok lifecycle_admitted])
  next
    case (create_operator ws title spec key w)
    then show ?thesis by (elim create_operator_Inr) (auto intro: create_kept[OF ok operator_admitted])
  next
    case (accept code sid expected)
    then show ?thesis
      by (elim accept_work_Inr)
         (auto intro: kept_about[OF lifecycle_admitted assignment_owned] about_open[OF u assignment_get] about_same)
  next
    case (settle code aid outcome evidence sid expected result)
    then show ?thesis
      by (elim settle_work_Inr)
         (auto intro: kept_about[OF lifecycle_admitted assignment_owned] about_settle[OF u assignment_get])
  next
    case (cancel code sid expected)
    then show ?thesis
      by (elim cancel_work_Inr)
         (auto intro: kept_about[OF lifecycle_admitted assignment_owned] about_cancel[OF u assignment_get])
  next
    case (cancel_operator ws code expected w)
    then show ?thesis
      by (elim cancel_operator_Inr)
         (auto intro: kept_about[OF operator_admitted assignment_owned] about_cancel[OF u assignment_get])
  next
    case (retry code sid expected)
    then show ?thesis
      by (elim retry_work_Inr)
         (auto simp: answered_def intro!: kept_about[OF lifecycle_admitted assignment_owned]
            intro: about_cas[OF u assignment_get])
  qed
qed

text \<open>C11. Work is isolated per operator and Workspace. Whatever operation a principal calls, the
  assignment it is answered with was created by that operator, in a Workspace the principal may see
  by the policy's own rule on the very store the transaction reads; and every other assignment is left
  exactly as it was. \<open>reconcile_assignment_attempts\<close> takes no principal and asks no policy, and nothing
  in the program calls it: it answers with the assignment of the code it is given, whoever created
  it, and leaves every other one as it was.\<close>

theorem work_isolated:
  assumes "answers env p db v db'" and "work_ok db" and "unique_keys (lbase db)"
  shows "Some (wa_creator_operator_id (av_row v)) = operator_id p \<and>
    can_see_workspace (lbase db) (Some p) (Some (wa_workspace_id (av_row v))) \<and>
    (\<forall>k. k \<noteq> wa_code (av_row v) \<longrightarrow> get_assignment db' k = get_assignment db k) \<and>
    (\<forall>c u d. reconcile_assignment_attempts env c db = Inr (u, d) \<longrightarrow> wa_code (av_row u) = c \<and>
       (\<forall>k. k \<noteq> c \<longrightarrow> get_assignment d k = get_assignment db k))"
proof -
  have "wa_code (av_row u) = c \<and> (\<forall>k. k \<noteq> c \<longrightarrow> get_assignment d k = get_assignment db k)"
    if r: "reconcile_assignment_attempts env c db = Inr (u, d)" for c u d
  proof (rule reconcile_about[OF assms(2) r])
    fix row assume "get_assignment db c = Some row" "about row db u d"
    then show ?thesis using work_ok_get(1)[OF assms(2)] by (simp add: about_def)
  qed
  moreover obtain w where w: "admitted p db w" "owned_by p w (av_row v)"
    and other: "\<And>k. k \<noteq> wa_code (av_row v) \<Longrightarrow> get_assignment db' k = get_assignment db k"
    using answers_kept[OF assms(1,2)] by (auto simp: kept_def)
  ultimately show ?thesis
    using visible_in_policy[OF assms(3), of w p] by (simp add: admitted_def owned_by_def)
qed

theorem work_isolated_witness:
  "\<exists>v (db :: work_db). answers (sample_peer_env 1000 ''u1'') sample_peer sample_work v db \<and>
     can_see_workspace sample_base (Some sample_peer) (Some (wa_workspace_id (av_row v)))"
proof (rule sample_create)
  fix v db
  assume "create_work_assignment (sample_peer_env 1000 ''u1'') sample_peer (PStr (lit ''/a'')) (PStr (lit ''t''))
      sample_request (PStr (lit ''s1'')) (PStr (lit ''k'')) sample_work = Inr (v, db)"
  then have a: "answers (sample_peer_env 1000 ''u1'') sample_peer sample_work v db" by (rule answers.create)
  have "unique_keys (lbase sample_work)"
    by (simp add: unique_keys_def sample_work_def sample_base_def sample_store_def empty_store_def
        sample_session_def)
  from work_isolated[OF a sample_work_ok this] a show ?thesis by (auto simp: sample_work_def)
qed

text \<open>C13. Started work is settled when it is over. While an assignment is accepted, or its
  cancellation is requested, reconciliation needs no live Session and no revision and always succeeds.
  When the attempt is past its deadline, its Session is gone or its cancellation was requested, it
  ends the attempt and the assignment under the next revision, now: as cancelled exactly when
  cancellation was requested, otherwise as failed, with the evidence that the runtime budget was
  exceeded when the deadline has passed and that the Session ended when it has not; the request stays
  what it was and every attempt has then ended, so the work can be retried. Otherwise it changes
  nothing.\<close>

theorem reconcile_ends:
  assumes ok: "work_ok db" and a: "get_assignment db c = Some a"
    and st: "wa_status a \<in> {WAccepted, WCancelRequested}"
  shows "\<exists>v db'. reconcile_assignment_attempts env c db = Inr (v, db') \<and>
    (let t = last (attempts_of db c); cancel = (wa_status a = WCancelRequested)
     in if pe_now env \<ge> wt_deadline_at t \<or> source_unavailable (pe_now env) db (wt_source_session_id t) \<or> cancel
        then \<exists>b u. get_assignment db' c = Some b \<and> get_attempt db' (wt_attempt_id t) = Some u \<and>
          wa_revision b = wa_revision a + 1 \<and> same_request a b \<and>
          wa_status b = (if cancel then WCancelled else WFailed) \<and> wt_status u = wa_status b \<and>
          wt_settled_at u = Some (pe_now env) \<and>
          wt_evidence u = Some (if cancel then lit ''cancellation requested and settled by reconciliation''
            else if pe_now env \<ge> wt_deadline_at t
            then lit ''runtime budget exceeded ('' @ str_of_int (wt_max_runtime_seconds t) @ lit ''s deadline)''
            else lit ''source session terminated or lease expired during execution'') \<and>
          (\<forall>x\<in>set (attempts_of db' c). conclusive x)
        else db' = db)"
proof -
  have un: "wa_status a \<in> set UNRESOLVED" using st by (auto simp: UNRESOLVED_def)
  have ao: "attempts_ok a (attempts_of db c)" and cd: "wa_code a = c" using work_ok_get[OF ok a] by auto
  have l: "attempts_of db c \<noteq> []" "unresolved (last (attempts_of db c))" "wt_status (last (attempts_of db c)) = wa_status a"
    using attempts_ok_live[OF ao un] by auto
  show ?thesis
  proof (cases "due_for_reconciliation (pe_now env) db a (last (attempts_of db c))")
    case True
    from reconcile_settles[OF ok a un this] obtain v db' b u where
        r: "reconcile_assignment_attempts env c db = Inr (v, db')" "get_assignment db' c = Some b"
          "get_attempt db' (wt_attempt_id (last (attempts_of db c))) = Some u" "wa_revision b = wa_revision a + 1"
          "same_request a b" "wa_status b = (if wa_status a = WCancelRequested then WCancelled else WFailed)"
          "wt_status u = wa_status b" "wt_settled_at u = Some (pe_now env)"
          "wt_evidence u = Some (snd (reconciled (pe_now env) a (last (attempts_of db c))))"
          "\<forall>x\<in>set (attempts_of db' c). conclusive x"
      by blast
    show ?thesis
      unfolding Let_def
      by (rule exI[of _ v], rule exI[of _ db'])
         (use r True l(3) in \<open>simp add: due_for_reconciliation_def reconciled_def del: list.map\<close>)
  next
    case False
    then have "reconcile_assignment_attempts env c db = Inr (snapshot env db a, db)"
      using a un l cd by (simp add: reconcile_assignment_attempts_def Let_def answer_def)
    then show ?thesis using False unfolding Let_def due_for_reconciliation_def by auto
  qed
qed

text \<open>Reconciliation also settles an attempt reported as uncertain, which the module's documentation
  reserves to a person, and settles it as failed although its cancellation may have been requested.\<close>

lemma uncertain_reconciled:
  assumes "work_ok db" and "get_assignment db c = Some a" and "wa_status a = WUncertain"
    and "pe_now env \<ge> wt_deadline_at (last (attempts_of db c))"
  shows "\<exists>v db' b. reconcile_assignment_attempts env c db = Inr (v, db') \<and> get_assignment db' c = Some b \<and> wa_status b = WFailed"
  using reconcile_settles[OF assms(1,2), of env] assms(3,4)
  by (fastforce simp: due_for_reconciliation_def UNRESOLVED_def)

theorem reconcile_ends_witness:
  "\<exists>(db :: work_db) v db' b. reconcile_assignment_attempts (sample_peer_env 3600002000 ''x'') (lit ''WA-u1'') db
     = Inr (v, db') \<and> get_assignment db' (lit ''WA-u1'') = Some b \<and> wa_status b = WFailed"
proof (rule sample_accept)
  fix db a t
  assume s: "work_step\<^sup>*\<^sup>* sample_work db" and a: "get_assignment db (lit ''WA-u1'') = Some a" "phase a = (WAccepted, 1)"
    and t: "attempts_of db (lit ''WA-u1'') = [t]" "wt_deadline_at t = 3600002000"
  have "wa_status a = WAccepted" using a(2) by (simp add: phase_def)
  then show ?thesis
    using reconcile_ends[OF work_steps_ok[OF s sample_work_ok] a(1), of "sample_peer_env 3600002000 ''x''"] t
    by (fastforce simp: sample_peer_env_def Let_def simp del: list.map)
qed

end
