(* ===== verification/Rooms.thy ===== *)
theory Rooms imports Peers Revisions begin

text \<open>
  The data of coordination (\<open>src/brains/control/coordination.py\<close>): proposals, each version an immutable
  specification with its protocol state, the append-only contributions of its members, the
  validation of specifications and payloads, and the two tables with their constraints. The text
  columns \<open>specification_json\<close> and \<open>payload_json\<close> hold the canonical text of what is kept here as
  \<open>room_spec\<close> and as a JSON value.
\<close>

section \<open>Rows\<close>

datatype room_status =
    RPlanned
  | RAccepted
  | RCollecting
  | RDiscussing
  | RCompleted
  | RCancelled

datatype contribution_kind = KAccept | KInitial | KDiscussion | KFinal

datatype exchange_mode = ByRounds | Threaded

definition ROOM_SPEC_LIMIT :: nat where "ROOM_SPEC_LIMIT = 32 * 1024"
definition PAYLOAD_LIMIT :: nat where "PAYLOAD_LIMIT = 64 * 1024"
definition MAX_DEADLINE_DAYS :: int where "MAX_DEADLINE_DAYS = 30"

definition OPEN_STATUSES :: "room_status list" where
  "OPEN_STATUSES = [RPlanned, RAccepted, RCollecting, RDiscussing]"

text \<open>The tool of a participant is known once the proposal is stored.\<close>

record participant =
  pt_session_id :: pystr
  pt_model :: "pystr option"
  pt_tool :: "pystr option"

record room_spec =
  rs_objective :: pystr
  rs_context :: pystr
  rs_evidence_expectations :: pystr
  rs_discussion_rounds :: int
  rs_exchange_mode :: exchange_mode
  rs_max_turns :: int
  rs_result_owner :: pystr
  rs_links :: "pystr list"
  rs_participants :: "participant list"
  rs_deadline :: "instant option"

datatype room_creator = RoomBySession | RoomByOperator

record proposal_row =
  cp_code :: pystr
  cp_version :: int
  cp_workspace_id :: int
  cp_creator_operator_id :: int
  cp_creator_kind :: room_creator
  cp_creator_session_id :: "pystr option"
  cp_result_owner :: pystr
  cp_idempotency_key :: pystr
  cp_request_hash :: pystr
  cp_title :: pystr
  cp_specification :: room_spec
  cp_specification_hash :: pystr
  cp_status :: room_status
  cp_revision :: int
  cp_round :: int
  cp_initial_closed :: bool
  cp_deadline_at :: instant
  cp_created_at :: instant
  cp_updated_at :: instant
  cp_cancellation_reason :: "pystr option"

record contribution_row =
  cc_id :: pystr
  cc_proposal_code :: pystr
  cc_version :: int
  cc_author :: pystr
  cc_kind :: contribution_kind
  cc_round :: int
  cc_slot :: pystr
  cc_idempotency_key :: "pystr option"
  cc_payload :: json
  cc_request_hash :: pystr
  cc_created_at :: instant

record room_db = event_db +
  proposals :: "proposal_row list"
  contributions :: "contribution_row list"

datatype room_error =
    BadRoomSpecification
  | OwnerRequired
  | BadPayload
  | BadKind
  | KeyConflict
  | RevisionWithoutCode
  | StaleVersion
  | NotOpen
  | DeadlinePassed
  | BadDeadlineWindow
  | OwnerNotMember
  | HashMismatch
  | NotAwaitingAcceptance
  | AdvanceBlocked string
  | TurnsExhausted
  | NotReadyForFinal
  | NotCollecting
  | NotDiscussing
  | SlotFilled
  | CannotCancelRoom

type_synonym 'r room_result = "room_error peer_error + 'r"

fun kind_text :: "contribution_kind \<Rightarrow> string" where
  "kind_text KAccept = ''accept''"
| "kind_text KInitial = ''initial''"
| "kind_text KDiscussion = ''discussion''"
| "kind_text KFinal = ''final''"

section \<open>Specifications\<close>

definition session_identifier :: "pyval \<Rightarrow> pystr room_result" where
  "session_identifier v =
     bind_result (text_arg ''session_id'' 32 True v) (\<lambda>s.
       if s \<noteq> [] \<and> (\<forall>c\<in>set s. (65 \<le> c \<and> c \<le> 90) \<or> (97 \<le> c \<and> c \<le> 122) \<or> is_digit c \<or> c = 95 \<or> c = 45)
       then Inr s else Inl (OutOfBounds ''session_id''))"

text \<open>The truth value of a Python object.\<close>

fun pv_truthy :: "pyval \<Rightarrow> bool" where
  "pv_truthy PNone = False"
| "pv_truthy (PBool b) = b"
| "pv_truthy (PInt i) = (i \<noteq> 0)"
| "pv_truthy (PFloat r) = (r \<noteq> lit ''0.0'' \<and> r \<noteq> lit ''-0.0'')"
| "pv_truthy (PStr s) = (s \<noteq> [])"
| "pv_truthy (PList xs) = (xs \<noteq> [])"
| "pv_truthy (PDict d) = (d \<noteq> [])"
| "pv_truthy POther = True"

definition ROOM_SPEC_KEYS :: "string list" where
  "ROOM_SPEC_KEYS = [''version'', ''objective'', ''participants'', ''context'', ''evidence_expectations'',
     ''deadline'', ''discussion_rounds'', ''exchange_mode'', ''max_turns_per_peer'',
     ''result_owner_session_id'', ''links'']"

definition mode_arg :: "pyval \<Rightarrow> exchange_mode room_result" where
  "mode_arg v = (if v = PStr (lit ''rounds'') then Inr ByRounds
                 else if v = PStr (lit ''threaded'') then Inr Threaded
                 else Inl (Refused BadRoomSpecification))"

definition participant_arg :: "pyval \<Rightarrow> participant room_result" where
  "participant_arg v =
     (case v of
        PDict d \<Rightarrow>
          (case (dict_get d (lit ''session_id''), dict_get d (lit ''model'')) of
             (Some sid, Some model) \<Rightarrow>
               if \<not> keys_within [''session_id'', ''model''] d then Inl (Refused BadRoomSpecification)
               else
                 bind_result (if model = PNone then Inr None
                              else bind_result (text_arg ''model'' 128 True model) (\<lambda>m. Inr (Some m))) (\<lambda>m.
                 bind_result (session_identifier sid) (\<lambda>i.
                   Inr \<lparr>pt_session_id = i, pt_model = m, pt_tool = None\<rparr>))
           | _ \<Rightarrow> Inl (Refused BadRoomSpecification))
      | _ \<Rightarrow> Inl (Refused BadRoomSpecification))"

definition participants_arg :: "pyval \<Rightarrow> participant list room_result" where
  "participants_arg v =
     (case v of
        PList vs \<Rightarrow>
          if \<not> (2 \<le> length vs \<and> length vs \<le> 8) then Inl (Refused BadRoomSpecification)
          else bind_result (map_result participant_arg vs) (\<lambda>ps.
                 if distinct (map pt_session_id ps) then Inr (sort_key pt_session_id ps)
                 else Inl (Refused BadRoomSpecification))
      | _ \<Rightarrow> Inl (Refused BadRoomSpecification))"

definition room_opt_member :: "string \<Rightarrow> ('x \<Rightarrow> json) \<Rightarrow> 'x option \<Rightarrow> (pystr \<times> json) list" where
  "room_opt_member key f x = (case x of None \<Rightarrow> [] | Some v \<Rightarrow> [(lit key, f v)])"

definition participant_json :: "participant \<Rightarrow> json" where
  "participant_json p = JDict
     ([(lit ''model'', json_opt_str (pt_model p)), (lit ''session_id'', JStr (pt_session_id p))]
      @ room_opt_member ''tool'' JStr (pt_tool p))"

fun mode_text :: "exchange_mode \<Rightarrow> string" where
  "mode_text ByRounds = ''rounds''"
| "mode_text Threaded = ''threaded''"

definition room_spec_json :: "room_spec \<Rightarrow> json" where
  "room_spec_json sp = JDict
     ([(lit ''context'', JStr (rs_context sp))]
      @ room_opt_member ''deadline'' (\<lambda>t. JStr (isoformat t)) (rs_deadline sp)
      @ [(lit ''discussion_rounds'', JInt (rs_discussion_rounds sp)),
         (lit ''evidence_expectations'', JStr (rs_evidence_expectations sp)),
         (lit ''exchange_mode'', JStr (lit (mode_text (rs_exchange_mode sp)))),
         (lit ''links'', JList (map JStr (rs_links sp))),
         (lit ''max_turns_per_peer'', JInt (rs_max_turns sp)),
         (lit ''objective'', JStr (rs_objective sp)),
         (lit ''participants'', JList (map participant_json (rs_participants sp))),
         (lit ''result_owner_session_id'', JStr (rs_result_owner sp)),
         (lit ''version'', JInt 1)])"

text \<open>\<open>requester\<close> is the proposing Session, \<open>None\<close> for an operator.\<close>

definition room_specification :: "peer_env \<Rightarrow> pyval \<Rightarrow> pystr option \<Rightarrow> room_spec room_result" where
  "room_specification env value requester =
     (case value of
        PDict d \<Rightarrow>
          if \<not> keys_within ROOM_SPEC_KEYS d then Inl (Refused BadRoomSpecification)
          else if requester = None \<and> \<not> pv_truthy (get_or d ''result_owner_session_id'' PNone)
          then Inl (Refused OwnerRequired)
          else
            bind_result (mode_arg (get_or d ''exchange_mode'' (PStr (lit ''rounds'')))) (\<lambda>mode.
            bind_result (int_arg ''discussion_rounds'' 0 3 (get_or d ''discussion_rounds'' (PInt 1))) (\<lambda>rounds.
            bind_result (int_arg ''max_turns_per_peer'' 1 3
                (get_or d ''max_turns_per_peer'' (PInt (if rounds = 0 then 3 else rounds)))) (\<lambda>turns.
            bind_result (int_arg ''version'' 1 1 (get_or d ''version'' (PInt 1))) (\<lambda>_.
            bind_result (text_arg ''objective'' ROOM_SPEC_LIMIT True (get_or d ''objective'' PNone)) (\<lambda>objective.
            bind_result (text_arg ''context'' ROOM_SPEC_LIMIT False (get_or d ''context'' PNone)) (\<lambda>context.
            bind_result (text_arg ''evidence_expectations'' ROOM_SPEC_LIMIT False
                (get_or d ''evidence_expectations'' PNone)) (\<lambda>expect.
            bind_result (session_identifier (get_or d ''result_owner_session_id''
                (case requester of None \<Rightarrow> PNone | Some r \<Rightarrow> PStr r))) (\<lambda>owner.
            bind_result (list_arg ''links'' ''links'' (get_or d ''links'' (PList []))) (\<lambda>links.
            bind_result (participants_arg (get_or d ''participants'' PNone)) (\<lambda>peers.
            bind_result (if_present d ''deadline'' (deadline_arg env)) (\<lambda>deadline.
              let sp = \<lparr>rs_objective = objective, rs_context = context, rs_evidence_expectations = expect,
                        rs_discussion_rounds = rounds, rs_exchange_mode = mode, rs_max_turns = turns,
                        rs_result_owner = owner, rs_links = links, rs_participants = peers,
                        rs_deadline = deadline\<rparr>
              in bind_result (text_arg ''specification'' ROOM_SPEC_LIMIT False
                                (PStr (dumps_raw (room_spec_json sp)))) (\<lambda>_. Inr sp))))))))))))
      | _ \<Rightarrow> Inl (Refused BadRoomSpecification))"

section \<open>Payloads\<close>

definition payload_fields :: "contribution_kind \<Rightarrow> string list" where
  "payload_fields kind =
     (if kind = KFinal then [''evidence'', ''summary'']
      else [''dissent'', ''evidence'', ''findings'', ''uncertainty''])"

definition payload_options :: "contribution_kind \<Rightarrow> string list" where
  "payload_options kind =
     (if kind = KFinal then [''consensus'', ''dissent'', ''open_questions''] else [''clarifications''])"

text \<open>The optional members of a final may be text or a list of texts; clarifications are a list.\<close>

definition optional_payload ::
    "contribution_kind \<Rightarrow> (pyval \<times> pyval) list \<Rightarrow> string \<Rightarrow> (pystr \<times> json) list room_result" where
  "optional_payload kind d f =
     (case dict_get d (lit f) of
        None \<Rightarrow> Inr []
      | Some v \<Rightarrow>
          if kind \<noteq> KFinal \<or> (\<exists>xs. v = PList xs)
          then bind_result (list_arg f f v) (\<lambda>xs. Inr [(lit f, JList (map JStr xs))])
          else bind_result (text_arg f PAYLOAD_LIMIT False v) (\<lambda>s. Inr [(lit f, JStr s)]))"

definition payload_arg :: "contribution_kind \<Rightarrow> pyval \<Rightarrow> json room_result" where
  "payload_arg kind value =
     (case value of
        PDict d \<Rightarrow>
          if (\<exists>f\<in>set (payload_fields kind). dict_get d (lit f) = None)
             \<or> \<not> keys_within (payload_fields kind @ payload_options kind) d
          then Inl (Refused BadPayload)
          else
            bind_result (map_result (\<lambda>f. bind_result
                (text_arg f PAYLOAD_LIMIT (f = ''evidence'') (get_or d f PNone)) (\<lambda>s. Inr (lit f, JStr s)))
              (payload_fields kind)) (\<lambda>required.
            bind_result (map_result (optional_payload kind d) (payload_options kind)) (\<lambda>optional.
              let payload = JDict (sort_key fst (required @ concat optional))
              in bind_result (text_arg ''payload'' PAYLOAD_LIMIT False (PStr (dumps_raw payload)))
                   (\<lambda>_. Inr payload)))
      | _ \<Rightarrow> Inl (Refused BadPayload))"

text \<open>\<open>payload.get("dissent", "").strip()\<close>; a list has no \<open>strip\<close>.\<close>

definition dissent_text :: "json \<Rightarrow> pystr room_result" where
  "dissent_text payload =
     (case payload of
        JDict ms \<Rightarrow>
          (case map_of ms (lit ''dissent'') of
             None \<Rightarrow> Inr []
           | Some (JStr s) \<Rightarrow> Inr (strip s)
           | Some _ \<Rightarrow> Inl (PythonError ''AttributeError''))
      | _ \<Rightarrow> Inl (PythonError ''AttributeError''))"

section \<open>Tables\<close>

definition proposal_key :: "proposal_row \<Rightarrow> pystr \<times> int" where
  "proposal_key r = (cp_code r, cp_version r)"

definition get_proposal :: "'a room_db_scheme \<Rightarrow> pystr \<times> int \<Rightarrow> proposal_row option" where
  "get_proposal db k = row_by proposal_key k (proposals db)"

definition versions_of :: "'a room_db_scheme \<Rightarrow> pystr \<Rightarrow> proposal_row list" where
  "versions_of db code = sort_key cp_version (filter (\<lambda>r. cp_code r = code) (proposals db))"

definition latest_proposal :: "'a room_db_scheme \<Rightarrow> pystr \<Rightarrow> proposal_row option" where
  "latest_proposal db code =
     (let vs = versions_of db code in if vs = [] then None else Some (last vs))"

definition proposal_checks :: "proposal_row \<Rightarrow> bool" where
  "proposal_checks r \<longleftrightarrow> 1 \<le> cp_version r \<and> 0 \<le> cp_revision r \<and> 0 \<le> cp_round r \<and> cp_round r \<le> 4
     \<and> (cp_creator_kind r = RoomBySession \<longleftrightarrow> cp_creator_session_id r \<noteq> None)"

definition creation_key :: "proposal_row \<Rightarrow> int \<times> int \<times> pystr" where
  "creation_key r = (cp_workspace_id r, cp_creator_operator_id r, cp_idempotency_key r)"

definition insert_proposal :: "proposal_row \<Rightarrow> 'a room_db_scheme \<Rightarrow> 'a room_db_scheme room_result" where
  "insert_proposal row db =
     (if \<not> proposal_checks row
         \<or> (\<exists>r\<in>set (proposals db). proposal_key r = proposal_key row \<or> creation_key r = creation_key row)
      then Inl IntegrityError else Inr (db\<lparr>proposals := proposals db @ [row]\<rparr>))"

definition slot_of :: "contribution_kind \<Rightarrow> int \<Rightarrow> pystr \<Rightarrow> pystr" where
  "slot_of kind round author =
     (if kind = KFinal then lit ''final''
      else lit (kind_text kind) @ 58 # str_of_int round @ 58 # author)"

definition contribution_checks :: "contribution_row \<Rightarrow> bool" where
  "contribution_checks c \<longleftrightarrow>
     (if cc_kind c = KDiscussion then 1 \<le> cc_round c \<and> cc_round c \<le> 3 else cc_round c = 0)
     \<and> cc_slot c = slot_of (cc_kind c) (cc_round c) (cc_author c)"

definition same_room :: "contribution_row \<Rightarrow> contribution_row \<Rightarrow> bool" where
  "same_room c e \<longleftrightarrow> cc_proposal_code c = cc_proposal_code e \<and> cc_version c = cc_version e"

definition insert_contribution ::
    "contribution_row \<Rightarrow> 'a room_db_scheme \<Rightarrow> 'a room_db_scheme room_result" where
  "insert_contribution c db =
     (if \<not> contribution_checks c
         \<or> (\<exists>e\<in>set (contributions db). cc_id e = cc_id c
              \<or> (same_room c e \<and> (cc_slot e = cc_slot c
                   \<or> (cc_author e = cc_author c \<and> cc_idempotency_key c \<noteq> None
                        \<and> cc_idempotency_key e = cc_idempotency_key c))))
      then Inl IntegrityError else Inr (db\<lparr>contributions := contributions db @ [c]\<rparr>))"

definition entries :: "'a room_db_scheme \<Rightarrow> proposal_row \<Rightarrow> contribution_row list" where
  "entries db row =
     sort_key cc_created_at (sort_key cc_slot
       (filter (\<lambda>c. cc_proposal_code c = cp_code row \<and> cc_version c = cp_version row) (contributions db)))"

section \<open>Members\<close>

definition participants_of :: "proposal_row \<Rightarrow> pystr set" where
  "participants_of row = set (map pt_session_id (rs_participants (cp_specification row)))"

definition members_of :: "proposal_row \<Rightarrow> pystr set" where
  "members_of row =
     participants_of row \<union> (case cp_creator_session_id row of None \<Rightarrow> {} | Some s \<Rightarrow> {s})
       \<union> {cp_result_owner row}"

definition authors :: "(contribution_row \<Rightarrow> bool) \<Rightarrow> contribution_row list \<Rightarrow> pystr set" where
  "authors P es = set (map cc_author (filter P es))"

definition acceptors :: "contribution_row list \<Rightarrow> pystr set" where
  "acceptors es = authors (\<lambda>e. cc_kind e = KAccept) es"

definition initial_authors :: "contribution_row list \<Rightarrow> pystr set" where
  "initial_authors es = authors (\<lambda>e. cc_kind e = KInitial) es"

definition discussion_authors :: "int option \<Rightarrow> contribution_row list \<Rightarrow> pystr set" where
  "discussion_authors round es =
     authors (\<lambda>e. cc_kind e = KDiscussion \<and> (case round of None \<Rightarrow> True | Some n \<Rightarrow> cc_round e = n)) es"

end
