(* ===== verification/Coordination.thy ===== *)
theory Coordination imports Rooms begin

text \<open>
  Models the operations of \<open>src/brains/control/coordination.py\<close>, for member Sessions and for the
  operator that owns a room: propose and replace, accept, advance, submit, cancel, and the filtered
  reads. Every mutation names the exact latest version and its revision.
\<close>

section \<open>Gates\<close>

definition room_transaction ::
    "peer_env \<Rightarrow> principal \<Rightarrow> pyval \<Rightarrow> 'a live_db_scheme \<Rightarrow> (session_row \<times> workspace_row) room_result" where
  "room_transaction env p sid db = enter_session False session_identifier env p sid db"

definition operator_transaction ::
    "peer_env \<Rightarrow> principal \<Rightarrow> bool \<Rightarrow> pyval \<Rightarrow> 'a live_db_scheme \<Rightarrow> workspace_row room_result" where
  "operator_transaction env p wr ws db = enter_operator ''coordination'' env p wr ws db"

text \<open>\<open>actor\<close> is \<open>None\<close> for an operator, who need not be a member.\<close>

definition room_access ::
    "proposal_row option \<Rightarrow> session_row option \<Rightarrow> workspace_row \<Rightarrow> principal \<Rightarrow> proposal_row room_result" where
  "room_access row actor w p =
     (case row of
        None \<Rightarrow> Inl Unavailable
      | Some r \<Rightarrow>
          if cp_workspace_id r \<noteq> w_id w \<or> Some (cp_creator_operator_id r) \<noteq> operator_id p
             \<or> (case actor of None \<Rightarrow> False | Some a \<Rightarrow> s_id a \<notin> members_of r)
          then Inl Unavailable else Inr r)"

definition proposal ::
    "'a room_db_scheme \<Rightarrow> pyval \<Rightarrow> session_row option \<Rightarrow> workspace_row \<Rightarrow> principal \<Rightarrow> proposal_row room_result" where
  "proposal db code actor w p =
     bind_result (text_arg ''code'' 39 True code) (\<lambda>c. room_access (latest_proposal db c) actor w p)"

text \<open>A read may name a version; \<open>None\<close> is the latest.\<close>

definition proposal_version ::
    "'a room_db_scheme \<Rightarrow> pyval \<Rightarrow> session_row option \<Rightarrow> workspace_row \<Rightarrow> principal \<Rightarrow> pyval option
     \<Rightarrow> proposal_row room_result" where
  "proposal_version db code actor w p version =
     (case version of
        None \<Rightarrow> proposal db code actor w p
      | Some v \<Rightarrow>
          bind_result (text_arg ''code'' 39 True code) (\<lambda>c.
          bind_result (int_arg ''version'' 1 (2 ^ 31 - 1) v) (\<lambda>n.
            room_access (get_proposal db (c, n)) actor w p)))"

definition room_revision :: "proposal_row \<Rightarrow> pyval \<Rightarrow> pyval \<Rightarrow> unit room_result" where
  "room_revision row version expected =
     bind_result (int_arg ''version'' 1 (2 ^ 31 - 1) version) (\<lambda>v.
     bind_result (int_arg ''expected_revision'' 0 (2 ^ 63 - 2) expected) (\<lambda>e.
       if cp_version row \<noteq> v \<or> cp_revision row \<noteq> e then Inl (Refused StaleVersion) else Inr ()))"

definition room_cas ::
    "instant \<Rightarrow> proposal_row \<Rightarrow> (proposal_row \<Rightarrow> proposal_row) \<Rightarrow> 'a room_db_scheme
     \<Rightarrow> (proposal_row \<times> 'a room_db_scheme) room_result" where
  "room_cas now row values db =
     (let hit = (\<lambda>r. proposal_key r = proposal_key row \<and> cp_revision r = cp_revision row);
          new = (\<lambda>r. (values r)\<lparr>cp_revision := cp_revision row + 1, cp_updated_at := now\<rparr>);
          db' = db\<lparr>proposals := update_where hit new (proposals db)\<rparr>
      in if \<exists>r\<in>set (proposals db). hit r \<and> \<not> proposal_checks (new r) then Inl IntegrityError
         else if rows_matching hit (proposals db) \<noteq> 1 then Inl (Refused StaleVersion)
         else case get_proposal db' (proposal_key row) of
                None \<Rightarrow> Inl (PythonError ''InvalidRequestError'')
              | Some r \<Rightarrow> Inr (r, db'))"

definition room_open :: "instant \<Rightarrow> proposal_row \<Rightarrow> unit room_result" where
  "room_open now row =
     (if cp_status row \<notin> set OPEN_STATUSES then Inl (Refused NotOpen)
      else if now \<ge> cp_deadline_at row then Inl (Refused DeadlinePassed) else Inr ())"

definition peer :: "peer_env \<Rightarrow> principal \<Rightarrow> workspace_row \<Rightarrow> 'a live_db_scheme \<Rightarrow> pystr \<Rightarrow> session_row room_result" where
  "peer env p w db ident =
     (case get_agent db ident of
        None \<Rightarrow> Inl Unavailable
      | Some s \<Rightarrow>
          if s_workspace_id s \<noteq> w_id w \<or> s_created_by_operator_id s \<noteq> operator_id p then Inl Unavailable
          else bind_result (map_left NotLive
                 (require_live_session (pe_lease_cfg env) (pe_now env) False (Some ident) db)) (\<lambda>_. Inr s))"

section \<open>Contributions\<close>

definition contribution_hash :: "peer_env \<Rightarrow> contribution_kind \<Rightarrow> json \<Rightarrow> pystr" where
  "contribution_hash env kind payload =
     pe_sha env (dumps_raw (JDict [(lit ''kind'', JStr (lit (kind_text kind))), (lit ''payload'', payload)]))"

definition append_contribution ::
    "peer_env \<Rightarrow> proposal_row \<Rightarrow> pystr \<Rightarrow> contribution_kind \<Rightarrow> json \<Rightarrow> int \<Rightarrow> pystr option
     \<Rightarrow> 'a room_db_scheme \<Rightarrow> 'a room_db_scheme room_result" where
  "append_contribution env row author kind payload round key db =
     insert_contribution
       \<lparr>cc_id = pe_contribution_uuid env, cc_proposal_code = cp_code row, cc_version = cp_version row,
        cc_author = author, cc_kind = kind, cc_round = round, cc_slot = slot_of kind round author,
        cc_idempotency_key = key, cc_payload = payload,
        cc_request_hash = contribution_hash env kind payload, cc_created_at = pe_now env\<rparr> db"

definition spec_hash_json :: "pystr \<Rightarrow> json" where
  "spec_hash_json h = JDict [(lit ''spec_hash'', JStr h)]"

section \<open>Reads\<close>

text \<open>What a reader sees of one contribution.\<close>

record contribution_view =
  cv_id :: pystr
  cv_author :: pystr
  cv_kind :: contribution_kind
  cv_round :: int
  cv_payload :: json
  cv_created_at :: instant

text \<open>
  The answer: the row (whose columns are answered as they are) and what is computed from the
  contributions. The lists of Session ids are sorted.
\<close>

record room_view =
  rv_row :: proposal_row
  rv_final_ready :: bool
  rv_expired :: bool
  rv_required_acceptance :: "pystr list"
  rv_accepted :: "pystr list"
  rv_remaining_acceptance :: "pystr list"
  rv_count_initial :: nat
  rv_count_discussion :: nat
  rv_count_contributions :: nat
  rv_remaining_initial :: "pystr list"
  rv_remaining_discussion :: "pystr list"
  rv_contributions :: "contribution_view list"
  rv_dissent :: "contribution_view list"
  rv_final :: "json option"

definition shown :: "proposal_row \<Rightarrow> pystr option \<Rightarrow> contribution_row \<Rightarrow> bool" where
  "shown row viewer e \<longleftrightarrow>
     cc_kind e \<noteq> KAccept \<and> (cp_initial_closed row \<or> (cc_kind e = KInitial \<and> Some (cc_author e) = viewer))"

definition view_contribution :: "contribution_row \<Rightarrow> contribution_view" where
  "view_contribution e =
     \<lparr>cv_id = cc_id e, cv_author = cc_author e, cv_kind = cc_kind e, cv_round = cc_round e,
      cv_payload = cc_payload e, cv_created_at = cc_created_at e\<rparr>"

definition final_ready :: "proposal_row \<Rightarrow> bool" where
  "final_ready row \<longleftrightarrow> cp_status row = RDiscussing \<and>
     (cp_round row = 0 \<or> cp_round row > rs_discussion_rounds (cp_specification row))"

text \<open>The contributions with a nonempty dissent; a malformed one raises.\<close>

fun dissenting :: "contribution_view list \<Rightarrow> contribution_view list room_result" where
  "dissenting [] = Inr []"
| "dissenting (c # cs) =
     bind_result (dissent_text (cv_payload c)) (\<lambda>d.
     bind_result (dissenting cs) (\<lambda>ds. Inr (if d = [] then ds else c # ds)))"

definition room_expired :: "instant \<Rightarrow> proposal_row \<Rightarrow> bool" where
  "room_expired now row \<longleftrightarrow> cp_status row \<in> set OPEN_STATUSES \<and> now \<ge> cp_deadline_at row"

definition room_snapshot ::
    "peer_env \<Rightarrow> 'a room_db_scheme \<Rightarrow> proposal_row \<Rightarrow> pystr option \<Rightarrow> room_view room_result" where
  "room_snapshot env db row viewer =
     (let es = entries db row; peers = participants_of row; accepted = acceptors es;
          initial = initial_authors es; discussion = discussion_authors (Some (cp_round row)) es;
          expired = room_expired (pe_now env) row;
          remaining = (if cp_status row = RDiscussing \<and> \<not> final_ready row
                       then (case rs_exchange_mode (cp_specification row) of
                               Threaded \<Rightarrow> peers - discussion_authors None es
                             | ByRounds \<Rightarrow> peers - discussion)
                       else {});
          visible = map view_contribution (filter (shown row viewer) es)
      in bind_result (dissenting visible) (\<lambda>dissent.
           Inr \<lparr>rv_row = row, rv_final_ready = (final_ready row \<and> \<not> expired), rv_expired = expired,
                rv_required_acceptance = sorted_list_of_set (members_of row),
                rv_accepted = sorted_list_of_set accepted,
                rv_remaining_acceptance = sorted_list_of_set (members_of row - accepted),
                rv_count_initial = card initial, rv_count_discussion = card discussion,
                rv_count_contributions = length (filter (\<lambda>e. cc_kind e \<noteq> KAccept) es),
                rv_remaining_initial = sorted_list_of_set (peers - initial),
                rv_remaining_discussion = sorted_list_of_set remaining,
                rv_contributions = visible, rv_dissent = dissent,
                rv_final = map_option cv_payload (find (\<lambda>c. cv_kind c = KFinal) visible)\<rparr>))"

section \<open>Finishing a transition\<close>

definition record_room_event ::
    "peer_env \<Rightarrow> proposal_row \<Rightarrow> string \<Rightarrow> attribution \<Rightarrow> 'a room_db_scheme \<Rightarrow> 'a room_db_scheme room_result" where
  "record_room_event env row action who db =
     record_transition env ''coordination_'' action (cp_workspace_id row) (cp_code row)
       [(lit ''code'', JStr (cp_code row)), (lit ''version'', JInt (cp_version row)),
        (lit ''revision'', JInt (cp_revision row)), (lit ''round'', JInt (cp_round row)),
        (lit ''workspace_id'', JInt (cp_workspace_id row))] who db"

definition room_finish ::
    "peer_env \<Rightarrow> proposal_row \<Rightarrow> session_row \<Rightarrow> string \<Rightarrow> 'a room_db_scheme
     \<Rightarrow> (room_view \<times> 'a room_db_scheme) room_result" where
  "room_finish env row actor action db =
     bind_result (map_left NotLive
       (require_live_session (pe_lease_cfg env) (pe_now env) True (Some (s_id actor)) db)) (\<lambda>(_, db1).
     bind_result (record_room_event env row action (BySession (s_id actor)) db1) (\<lambda>db2.
     bind_result (room_snapshot env db2 row (Some (s_id actor))) (\<lambda>view. Inr (view, db2))))"

definition room_answer ::
    "peer_env \<Rightarrow> proposal_row \<Rightarrow> session_row \<Rightarrow> 'a room_db_scheme
     \<Rightarrow> (room_view \<times> 'a room_db_scheme) room_result" where
  "room_answer env row actor db =
     bind_result (room_snapshot env db row (Some (s_id actor))) (\<lambda>view. Inr (view, db))"

section \<open>Proposing\<close>

definition room_request_hash ::
    "peer_env \<Rightarrow> pystr \<Rightarrow> room_spec \<Rightarrow> pystr option \<Rightarrow> room_creator option \<Rightarrow> pystr" where
  "room_request_hash env title sp code kind =
     pe_sha env (dumps_raw (JDict
       ([(lit ''code'', json_opt_str code)]
        @ room_opt_member ''creator_kind''
            (\<lambda>k. JStr (lit (case k of RoomBySession \<Rightarrow> ''session'' | RoomByOperator \<Rightarrow> ''operator''))) kind
        @ [(lit ''specification'', room_spec_json sp), (lit ''title'', JStr title)])))"

text \<open>The deadline of a new version: its own, or an hour from now; at most thirty days ahead.\<close>

definition room_deadline :: "peer_env \<Rightarrow> room_spec \<Rightarrow> instant room_result" where
  "room_deadline env sp =
     bind_result (case rs_deadline sp of
                    None \<Rightarrow> Inr (pe_now env + seconds 3600)
                  | Some t \<Rightarrow> deadline_arg env (PStr (isoformat t))) (\<lambda>d.
       if pe_now env < d \<and> d \<le> pe_now env + seconds (MAX_DEADLINE_DAYS * 86400) then Inr d
       else Inl (Refused BadDeadlineWindow))"

text \<open>Every participant is a live Session of the operator in the Workspace; its tool is recorded.\<close>

definition stored_participant ::
    "peer_env \<Rightarrow> principal \<Rightarrow> workspace_row \<Rightarrow> 'a live_db_scheme \<Rightarrow> participant \<Rightarrow> participant room_result" where
  "stored_participant env p w db part =
     bind_result (peer env p w db (pt_session_id part)) (\<lambda>s.
     bind_result (text_arg ''tool'' 64 True (PStr (s_tool s))) (\<lambda>tool. Inr (part\<lparr>pt_tool := Some tool\<rparr>)))"

definition stored_specification ::
    "peer_env \<Rightarrow> principal \<Rightarrow> workspace_row \<Rightarrow> 'a live_db_scheme \<Rightarrow> room_spec \<Rightarrow> instant \<Rightarrow> room_spec room_result" where
  "stored_specification env p w db sp due =
     bind_result (map_result (stored_participant env p w db) (rs_participants sp)) (\<lambda>parts.
     bind_result (peer env p w db (rs_result_owner sp)) (\<lambda>_.
       let stored = sp\<lparr>rs_participants := parts, rs_deadline := Some due\<rparr>
       in bind_result (text_arg ''specification'' ROOM_SPEC_LIMIT False
                         (PStr (dumps_raw (room_spec_json stored)))) (\<lambda>_. Inr stored)))"

definition new_proposal ::
    "peer_env \<Rightarrow> workspace_row \<Rightarrow> int \<Rightarrow> room_creator \<Rightarrow> pystr option \<Rightarrow> pystr \<Rightarrow> pystr \<Rightarrow> pystr
     \<Rightarrow> room_spec \<Rightarrow> instant \<Rightarrow> pystr \<Rightarrow> int \<Rightarrow> int \<Rightarrow> proposal_row" where
  "new_proposal env w oid kind creator title key hash sp due code version revision =
     \<lparr>cp_code = code, cp_version = version, cp_workspace_id = w_id w, cp_creator_operator_id = oid,
      cp_creator_kind = kind, cp_creator_session_id = creator, cp_result_owner = rs_result_owner sp,
      cp_idempotency_key = key, cp_request_hash = hash, cp_title = title, cp_specification = sp,
      cp_specification_hash = pe_sha env (dumps_raw (room_spec_json sp)), cp_status = RPlanned,
      cp_revision = revision, cp_round = 0, cp_initial_closed = False, cp_deadline_at = due,
      cp_created_at = pe_now env, cp_updated_at = pe_now env, cp_cancellation_reason = None\<rparr>"

definition find_creation :: "'a room_db_scheme \<Rightarrow> workspace_row \<Rightarrow> int \<Rightarrow> pystr \<Rightarrow> proposal_row option" where
  "find_creation db w oid key = find (\<lambda>r. creation_key r = (w_id w, oid, key)) (proposals db)"

text \<open>\<open>old\<close> is the version that is replaced: it is cancelled, and the new one takes the next revision.\<close>

definition store_proposal ::
    "peer_env \<Rightarrow> principal \<Rightarrow> workspace_row \<Rightarrow> session_row \<Rightarrow> pystr \<Rightarrow> pystr \<Rightarrow> pystr \<Rightarrow> room_spec
     \<Rightarrow> proposal_row option \<Rightarrow> 'a room_db_scheme \<Rightarrow> (room_view \<times> 'a room_db_scheme) room_result" where
  "store_proposal env p w actor title key hash sp old db =
     bind_result (case old of None \<Rightarrow> Inr () | Some o1 \<Rightarrow> room_open (pe_now env) o1) (\<lambda>_.
     bind_result (room_deadline env sp) (\<lambda>due.
       if rs_result_owner sp \<notin> set (map pt_session_id (rs_participants sp)) \<union> {s_id actor}
       then Inl (Refused OwnerNotMember)
       else
         bind_result (stored_specification env p w db sp due) (\<lambda>stored.
         bind_result (case old of
                        None \<Rightarrow> Inr (lit ''PC-'' @ pe_uuid env, 1, 0, db)
                      | Some o1 \<Rightarrow>
                          bind_result (room_cas (pe_now env) o1 (\<lambda>r. r\<lparr>cp_status := RCancelled,
                              cp_cancellation_reason := Some (lit ''superseded by a new version'')\<rparr>) db)
                            (\<lambda>(o2, db1). Inr (cp_code o2, cp_version o2 + 1, cp_revision o2 + 1, db1)))
           (\<lambda>(code, version, revision, db1).
             let row = new_proposal env w (the (operator_id p)) RoomBySession (Some (s_id actor)) title key hash
                         stored due code version revision
             in bind_result (insert_proposal row db1) (\<lambda>db2.
                bind_result (append_contribution env row (s_id actor) KAccept
                               (spec_hash_json (cp_specification_hash row)) 0 None db2) (\<lambda>db3.
                  room_finish env row actor (if old = None then ''proposed'' else ''replaced'') db3))))))"

text \<open>The version a proposal replaces, from the optional code and expected revision.\<close>

definition replaced_proposal ::
    "'a room_db_scheme \<Rightarrow> pystr option \<Rightarrow> pyval \<Rightarrow> session_row \<Rightarrow> workspace_row \<Rightarrow> principal
     \<Rightarrow> proposal_row option room_result" where
  "replaced_proposal db code expected actor w p =
     (case code of
        None \<Rightarrow> if expected \<noteq> PNone then Inl (Refused RevisionWithoutCode) else Inr None
      | Some c \<Rightarrow>
          bind_result (proposal db (PStr c) (Some actor) w p) (\<lambda>old.
            if Some (s_id actor) \<noteq> cp_creator_session_id old then Inl Unavailable
            else bind_result (room_revision old (PInt (cp_version old)) expected) (\<lambda>_. Inr (Some old))))"

definition propose_coordination ::
    "peer_env \<Rightarrow> principal \<Rightarrow> pyval \<Rightarrow> pyval \<Rightarrow> pyval \<Rightarrow> pyval \<Rightarrow> pyval \<Rightarrow> pystr option \<Rightarrow> pyval
     \<Rightarrow> 'a room_db_scheme \<Rightarrow> (room_view \<times> 'a room_db_scheme) room_result" where
  "propose_coordination env p path title spec sid key code expected db =
     bind_result (room_transaction env p sid db) (\<lambda>(actor, w).
     bind_result (workspace_path db w path) (\<lambda>_.
     bind_result (text_arg ''title'' 256 True title) (\<lambda>ttl.
     bind_result (text_arg ''idempotency_key'' 128 True key) (\<lambda>k.
     bind_result (room_specification env spec (Some (s_id actor))) (\<lambda>sp.
       let hash = room_request_hash env ttl sp code (Some RoomBySession)
       in bind_result (replaced_proposal db code expected actor w p) (\<lambda>old.
          case find_creation db w (the (operator_id p)) k of
            Some replay \<Rightarrow>
              bind_result (room_access (Some replay) (Some actor) w p) (\<lambda>_.
                if cp_creator_kind replay \<noteq> RoomBySession
                   \<or> (cp_request_hash replay \<noteq> hash
                      \<and> cp_request_hash replay \<noteq> room_request_hash env ttl sp code None)
                then Inl (Refused KeyConflict)
                else bind_result (proposal db (PStr (cp_code replay)) (Some actor) w p) (\<lambda>current.
                       room_answer env current actor db))
          | None \<Rightarrow> store_proposal env p w actor ttl k hash sp old db))))))"

section \<open>Member operations\<close>

definition get_coordination ::
    "peer_env \<Rightarrow> principal \<Rightarrow> pyval \<Rightarrow> pyval \<Rightarrow> pyval option \<Rightarrow> 'a room_db_scheme \<Rightarrow> room_view room_result" where
  "get_coordination env p code sid version db =
     bind_result (room_transaction env p sid db) (\<lambda>(actor, w).
     bind_result (proposal_version db code (Some actor) w p version) (\<lambda>row.
       room_snapshot env db row (Some (s_id actor))))"

text \<open>The latest versions an operator owns in a Workspace, newest first.\<close>

definition is_latest :: "'a room_db_scheme \<Rightarrow> proposal_row \<Rightarrow> bool" where
  "is_latest db r \<longleftrightarrow> (\<forall>x\<in>set (proposals db). cp_code x = cp_code r \<longrightarrow> cp_version x \<le> cp_version r)"

definition room_listing :: "'a room_db_scheme \<Rightarrow> principal \<Rightarrow> workspace_row \<Rightarrow> proposal_row list" where
  "room_listing db p w =
     sort_key (\<lambda>r. - cp_created_at r) (sort_key cp_code
       (filter (\<lambda>r. is_latest db r \<and> cp_workspace_id r = w_id w
                  \<and> Some (cp_creator_operator_id r) = operator_id p) (proposals db)))"

definition list_coordinations ::
    "peer_env \<Rightarrow> principal \<Rightarrow> pyval \<Rightarrow> pyval \<Rightarrow> pyval \<Rightarrow> 'a room_db_scheme \<Rightarrow> room_view list room_result" where
  "list_coordinations env p path sid limit db =
     bind_result (int_arg ''limit'' 1 200 limit) (\<lambda>n.
     bind_result (room_transaction env p sid db) (\<lambda>(actor, w).
     bind_result (workspace_path db w path) (\<lambda>_.
       map_result (\<lambda>row. room_snapshot env db row (Some (s_id actor)))
         (take (nat n) (filter (\<lambda>row. s_id actor \<in> members_of row) (room_listing db p w))))))"

definition accept_coordination ::
    "peer_env \<Rightarrow> principal \<Rightarrow> pyval \<Rightarrow> pyval \<Rightarrow> pyval \<Rightarrow> pyval \<Rightarrow> pyval \<Rightarrow> 'a room_db_scheme
     \<Rightarrow> (room_view \<times> 'a room_db_scheme) room_result" where
  "accept_coordination env p code sid version expected spec_hash db =
     bind_result (room_transaction env p sid db) (\<lambda>(actor, w).
     bind_result (proposal db code (Some actor) w p) (\<lambda>row.
     bind_result (room_revision row version expected) (\<lambda>_.
     bind_result (room_open (pe_now env) row) (\<lambda>_.
       let accepted = acceptors (entries db row)
       in if spec_hash \<noteq> PStr (cp_specification_hash row) then Inl (Refused HashMismatch)
          else if s_id actor \<in> accepted then room_answer env row actor db
          else if cp_status row \<noteq> RPlanned then Inl (Refused NotAwaitingAcceptance)
          else
            bind_result (append_contribution env row (s_id actor) KAccept
                (spec_hash_json (cp_specification_hash row)) 0 None db) (\<lambda>db1.
            bind_result (room_cas (pe_now env) row (\<lambda>r. r\<lparr>cp_status :=
                (if insert (s_id actor) accepted = members_of row then RAccepted else RPlanned)\<rparr>) db1)
              (\<lambda>(row1, db2). room_finish env row1 actor ''accepted'' db2))))))"

section \<open>Submitting\<close>

definition kind_arg :: "pyval \<Rightarrow> contribution_kind room_result" where
  "kind_arg v = (if v = PStr (lit ''initial'') then Inr KInitial
                 else if v = PStr (lit ''discussion'') then Inr KDiscussion
                 else if v = PStr (lit ''final'') then Inr KFinal
                 else Inl (Refused BadKind))"

text \<open>The round a contribution is filed under; in threaded mode each peer counts its own turns.\<close>

definition submission_round ::
    "proposal_row \<Rightarrow> contribution_row list \<Rightarrow> pystr \<Rightarrow> contribution_kind \<Rightarrow> int room_result" where
  "submission_round row es author kind =
     (if kind \<noteq> KDiscussion then Inr 0
      else case rs_exchange_mode (cp_specification row) of
             ByRounds \<Rightarrow> Inr (cp_round row)
           | Threaded \<Rightarrow>
               let turn = int (length (filter (\<lambda>e. cc_kind e = KDiscussion \<and> cc_author e = author) es)) + 1
               in if turn > rs_max_turns (cp_specification row) then Inl (Refused TurnsExhausted)
                  else Inr turn)"

definition may_submit :: "proposal_row \<Rightarrow> pystr \<Rightarrow> contribution_kind \<Rightarrow> int \<Rightarrow> unit room_result" where
  "may_submit row author kind round =
     (let rounds = rs_discussion_rounds (cp_specification row);
          mode = rs_exchange_mode (cp_specification row)
      in if kind = KFinal
         then if author \<noteq> cp_result_owner row then Inl Unavailable
              else if \<not> final_ready row then Inl (Refused NotReadyForFinal) else Inr ()
         else if author \<notin> participants_of row then Inl Unavailable
         else if kind = KInitial \<and> cp_status row \<noteq> RCollecting then Inl (Refused NotCollecting)
         else if kind = KDiscussion
                 \<and> (cp_status row \<noteq> RDiscussing
                    \<or> (mode = ByRounds \<and> \<not> (1 \<le> round \<and> round \<le> rounds))
                    \<or> (mode = Threaded \<and> cp_round row > rounds \<and> rounds > 0))
         then Inl (Refused NotDiscussing)
         else Inr ())"

definition store_contribution ::
    "peer_env \<Rightarrow> proposal_row \<Rightarrow> session_row \<Rightarrow> contribution_kind \<Rightarrow> json \<Rightarrow> pystr \<Rightarrow> 'a room_db_scheme
     \<Rightarrow> (room_view \<times> 'a room_db_scheme) room_result" where
  "store_contribution env row actor kind payload key db =
     (let es = entries db row
      in bind_result (room_open (pe_now env) row) (\<lambda>_.
         bind_result (submission_round row es (s_id actor) kind) (\<lambda>round.
         bind_result (may_submit row (s_id actor) kind round) (\<lambda>_.
           if \<exists>e\<in>set es. cc_kind e = kind \<and> cc_round e = round \<and> cc_author e = s_id actor
           then Inl (Refused SlotFilled)
           else
             bind_result (append_contribution env row (s_id actor) kind payload round (Some key) db) (\<lambda>db1.
             bind_result (room_cas (pe_now env) row
                 (\<lambda>r. if kind = KFinal then r\<lparr>cp_status := RCompleted\<rparr> else r) db1) (\<lambda>(row1, db2).
               room_finish env row1 actor ''submitted'' db2))))))"

definition submit_coordination ::
    "peer_env \<Rightarrow> principal \<Rightarrow> pyval \<Rightarrow> pyval \<Rightarrow> pyval \<Rightarrow> pyval \<Rightarrow> pyval \<Rightarrow> pyval \<Rightarrow> pyval
     \<Rightarrow> 'a room_db_scheme \<Rightarrow> (room_view \<times> 'a room_db_scheme) room_result" where
  "submit_coordination env p code kind payload sid version expected key db =
     bind_result (room_transaction env p sid db) (\<lambda>(actor, w).
     bind_result (proposal db code (Some actor) w p) (\<lambda>row.
     bind_result (room_revision row version expected) (\<lambda>_.
     bind_result (kind_arg kind) (\<lambda>kd.
     bind_result (text_arg ''idempotency_key'' 128 True key) (\<lambda>k.
     bind_result (payload_arg kd payload) (\<lambda>body.
       if pe_now env \<ge> cp_deadline_at row then Inl (Refused DeadlinePassed)
       else case find (\<lambda>e. cc_author e = s_id actor \<and> cc_idempotency_key e = Some k) (entries db row) of
              Some replay \<Rightarrow>
                if cc_request_hash replay \<noteq> contribution_hash env kd body then Inl (Refused KeyConflict)
                else room_answer env row actor db
            | None \<Rightarrow> store_contribution env row actor kd body k db))))))"

section \<open>Advancing\<close>

definition advance_blocked :: "instant \<Rightarrow> proposal_row \<Rightarrow> contribution_row list \<Rightarrow> string option" where
  "advance_blocked now row es =
     (let rounds = rs_discussion_rounds (cp_specification row); peers = participants_of row
      in if cp_status row \<notin> set OPEN_STATUSES then Some ''coordination_not_open''
         else if now \<ge> cp_deadline_at row then Some ''deadline_exceeded''
         else if cp_status row \<in> {RPlanned, RAccepted}
         then if acceptors es \<noteq> members_of row then Some ''acceptances_required''
              else if cp_status row = RAccepted then None else Some ''cannot_advance_in_state''
         else if cp_status row = RCollecting
         then if initial_authors es = peers then None else Some ''initial_contributions_required''
         else case rs_exchange_mode (cp_specification row) of
                Threaded \<Rightarrow>
                  if discussion_authors None es \<noteq> peers then Some ''discussion_contributions_required''
                  else if cp_round row > rounds \<and> rounds > 0 then Some ''final_synthesis_required''
                  else None
              | ByRounds \<Rightarrow>
                  if 1 \<le> cp_round row \<and> cp_round row \<le> rounds
                  then if discussion_authors (Some (cp_round row)) es = peers then None
                       else Some ''discussion_contributions_required''
                  else Some ''final_synthesis_required'')"

text \<open>What an advance writes, by the status it starts from.\<close>

definition advanced_row :: "proposal_row \<Rightarrow> proposal_row \<Rightarrow> proposal_row" where
  "advanced_row row r =
     (let rounds = rs_discussion_rounds (cp_specification row);
          mode = rs_exchange_mode (cp_specification row)
      in if cp_status row = RAccepted then r\<lparr>cp_status := RCollecting\<rparr>
         else if cp_status row = RCollecting
         then r\<lparr>cp_status := RDiscussing, cp_initial_closed := True,
                cp_round := (if rounds \<noteq> 0 \<or> mode = Threaded then 1 else 0)\<rparr>
         else case mode of
                Threaded \<Rightarrow> r\<lparr>cp_round := max (cp_round row) rounds + 1\<rparr>
              | ByRounds \<Rightarrow> r\<lparr>cp_round := cp_round row + 1\<rparr>)"

text \<open>An operator's advance checks the participants and the owner at every step, a member's when collection opens.\<close>

definition advance_room ::
    "peer_env \<Rightarrow> principal \<Rightarrow> workspace_row \<Rightarrow> bool \<Rightarrow> proposal_row \<Rightarrow> 'a room_db_scheme
     \<Rightarrow> (proposal_row \<times> 'a room_db_scheme) room_result" where
  "advance_room env p w operator row db =
     (case advance_blocked (pe_now env) row (entries db row) of
        Some reason \<Rightarrow> Inl (Refused (AdvanceBlocked reason))
      | None \<Rightarrow>
          bind_result (if operator \<or> cp_status row = RAccepted
                       then map_result (peer env p w db) (sorted_list_of_set
                              (if operator then participants_of row \<union> {cp_result_owner row}
                               else members_of row))
                       else Inr []) (\<lambda>_.
            room_cas (pe_now env) row (advanced_row row) db))"

definition advance_coordination ::
    "peer_env \<Rightarrow> principal \<Rightarrow> pyval \<Rightarrow> pyval \<Rightarrow> pyval \<Rightarrow> pyval \<Rightarrow> 'a room_db_scheme
     \<Rightarrow> (room_view \<times> 'a room_db_scheme) room_result" where
  "advance_coordination env p code sid version expected db =
     bind_result (room_transaction env p sid db) (\<lambda>(actor, w).
     bind_result (proposal db code (Some actor) w p) (\<lambda>row.
       if Some (s_id actor) \<noteq> cp_creator_session_id row then Inl Unavailable
       else
         bind_result (room_revision row version expected) (\<lambda>_.
         bind_result (advance_room env p w False row db) (\<lambda>(row1, db1).
           room_finish env row1 actor ''advanced'' db1))))"

section \<open>Cancelling\<close>

text \<open>\<open>None\<close>: already cancelled for this reason.\<close>

definition cancel_room ::
    "peer_env \<Rightarrow> proposal_row \<Rightarrow> pyval \<Rightarrow> 'a room_db_scheme
     \<Rightarrow> (proposal_row \<times> 'a room_db_scheme) option room_result" where
  "cancel_room env row reason db =
     bind_result (text_arg ''reason'' ROOM_SPEC_LIMIT True reason) (\<lambda>why.
       if cp_status row = RCancelled \<and> cp_cancellation_reason row = Some why then Inr None
       else if cp_status row \<notin> set OPEN_STATUSES then Inl (Refused CannotCancelRoom)
       else bind_result (room_cas (pe_now env) row (\<lambda>r. r\<lparr>cp_status := RCancelled,
              cp_cancellation_reason := Some why\<rparr>) db) (\<lambda>res. Inr (Some res)))"

definition cancel_coordination ::
    "peer_env \<Rightarrow> principal \<Rightarrow> pyval \<Rightarrow> pyval \<Rightarrow> pyval \<Rightarrow> pyval \<Rightarrow> pyval \<Rightarrow> 'a room_db_scheme
     \<Rightarrow> (room_view \<times> 'a room_db_scheme) room_result" where
  "cancel_coordination env p code reason sid version expected db =
     bind_result (room_transaction env p sid db) (\<lambda>(actor, w).
     bind_result (proposal db code (Some actor) w p) (\<lambda>row.
       if Some (s_id actor) \<noteq> cp_creator_session_id row then Inl Unavailable
       else
         bind_result (room_revision row version expected) (\<lambda>_.
         bind_result (cancel_room env row reason db) (\<lambda>res.
           case res of None \<Rightarrow> room_answer env row actor db
                     | Some (row1, db1) \<Rightarrow> room_finish env row1 actor ''cancelled'' db1))))"

section \<open>Operator operations\<close>

record room_permissions =
  rp_advance_reason :: "string option"
  rp_cancel_reason :: "string option"

definition operator_room_snapshot ::
    "peer_env \<Rightarrow> principal \<Rightarrow> workspace_row \<Rightarrow> 'a room_db_scheme \<Rightarrow> proposal_row
     \<Rightarrow> (room_view \<times> room_permissions) room_result" where
  "operator_room_snapshot env p w db row =
     bind_result (room_snapshot env db row None) (\<lambda>view.
       let blocked =
             (if \<not> is_human_channel p then Some ''human_channel_required''
              else if \<not> has_capability p CAP_ORG_WRITE (or_default (lbase db) (w_org_id w))
              then Some ''write_capability_required''
              else if \<not> is_latest db row then Some ''historical_version'' else None);
           reason = (case blocked of Some b \<Rightarrow> Some b
                     | None \<Rightarrow> advance_blocked (pe_now env) row (entries db row));
           peers = sorted_list_of_set (participants_of row \<union> {cp_result_owner row})
       in Inr (view,
            \<lparr>rp_advance_reason = (if reason = None \<and> isl (map_result (peer env p w db) peers)
                                  then Some ''participant_unavailable'' else reason),
             rp_cancel_reason = (case blocked of Some b \<Rightarrow> Some b
                | None \<Rightarrow> if cp_status row \<notin> set OPEN_STATUSES then Some ''coordination_not_open'' else None)\<rparr>))"

definition room_finish_operator ::
    "peer_env \<Rightarrow> principal \<Rightarrow> workspace_row \<Rightarrow> proposal_row \<Rightarrow> string \<Rightarrow> 'a room_db_scheme
     \<Rightarrow> ((room_view \<times> room_permissions) \<times> 'a room_db_scheme) room_result" where
  "room_finish_operator env p w row action db =
     bind_result (record_room_event env row action (ByOperator (operator_id p) (channel p)) db) (\<lambda>db1.
     bind_result (operator_room_snapshot env p w db1 row) (\<lambda>view. Inr (view, db1)))"

definition room_answer_operator ::
    "peer_env \<Rightarrow> principal \<Rightarrow> workspace_row \<Rightarrow> proposal_row \<Rightarrow> 'a room_db_scheme
     \<Rightarrow> ((room_view \<times> room_permissions) \<times> 'a room_db_scheme) room_result" where
  "room_answer_operator env p w row db =
     bind_result (operator_room_snapshot env p w db row) (\<lambda>view. Inr (view, db))"

definition list_operator_coordinations ::
    "peer_env \<Rightarrow> principal \<Rightarrow> pyval \<Rightarrow> pyval \<Rightarrow> 'a room_db_scheme
     \<Rightarrow> (room_view \<times> room_permissions) list room_result" where
  "list_operator_coordinations env p ws limit db =
     bind_result (int_arg ''limit'' 1 200 limit) (\<lambda>n.
     bind_result (operator_transaction env p False ws db) (\<lambda>w.
       map_result (operator_room_snapshot env p w db) (take (nat n) (room_listing db p w))))"

definition get_operator_coordination ::
    "peer_env \<Rightarrow> principal \<Rightarrow> pyval \<Rightarrow> pyval \<Rightarrow> pyval option \<Rightarrow> 'a room_db_scheme
     \<Rightarrow> (room_view \<times> room_permissions) room_result" where
  "get_operator_coordination env p ws code version db =
     bind_result (operator_transaction env p False ws db) (\<lambda>w.
     bind_result (proposal_version db code None w p version) (\<lambda>row.
       operator_room_snapshot env p w db row))"

definition store_operator_proposal ::
    "peer_env \<Rightarrow> principal \<Rightarrow> workspace_row \<Rightarrow> pystr \<Rightarrow> pystr \<Rightarrow> pystr \<Rightarrow> room_spec \<Rightarrow> 'a room_db_scheme
     \<Rightarrow> ((room_view \<times> room_permissions) \<times> 'a room_db_scheme) room_result" where
  "store_operator_proposal env p w title key hash sp db =
     bind_result (room_deadline env sp) (\<lambda>due.
     bind_result (stored_specification env p w db sp due) (\<lambda>stored.
       let row = new_proposal env w (the (operator_id p)) RoomByOperator None title key hash stored due
                   (lit ''PC-'' @ pe_uuid env) 1 0
       in bind_result (insert_proposal row db) (\<lambda>db1. room_finish_operator env p w row ''proposed'' db1)))"

definition propose_operator_coordination ::
    "peer_env \<Rightarrow> principal \<Rightarrow> pyval \<Rightarrow> pyval \<Rightarrow> pyval \<Rightarrow> pyval \<Rightarrow> 'a room_db_scheme
     \<Rightarrow> ((room_view \<times> room_permissions) \<times> 'a room_db_scheme) room_result" where
  "propose_operator_coordination env p ws title spec key db =
     bind_result (operator_transaction env p True ws db) (\<lambda>w.
     bind_result (text_arg ''title'' 256 True title) (\<lambda>ttl.
     bind_result (text_arg ''idempotency_key'' 128 True key) (\<lambda>k.
     bind_result (room_specification env spec None) (\<lambda>sp.
       let hash = room_request_hash env ttl sp None (Some RoomByOperator)
       in case find_creation db w (the (operator_id p)) k of
            Some replay \<Rightarrow>
              if cp_creator_kind replay \<noteq> RoomByOperator \<or> cp_request_hash replay \<noteq> hash
              then Inl (Refused KeyConflict)
              else bind_result (proposal db (PStr (cp_code replay)) None w p) (\<lambda>current.
                     room_answer_operator env p w current db)
          | None \<Rightarrow> store_operator_proposal env p w ttl k hash sp db))))"

definition advance_operator_coordination ::
    "peer_env \<Rightarrow> principal \<Rightarrow> pyval \<Rightarrow> pyval \<Rightarrow> pyval \<Rightarrow> pyval \<Rightarrow> 'a room_db_scheme
     \<Rightarrow> ((room_view \<times> room_permissions) \<times> 'a room_db_scheme) room_result" where
  "advance_operator_coordination env p ws code version expected db =
     bind_result (operator_transaction env p True ws db) (\<lambda>w.
     bind_result (proposal db code None w p) (\<lambda>row.
     bind_result (room_revision row version expected) (\<lambda>_.
     bind_result (advance_room env p w True row db) (\<lambda>(row1, db1).
       room_finish_operator env p w row1 ''advanced'' db1))))"

definition cancel_operator_coordination ::
    "peer_env \<Rightarrow> principal \<Rightarrow> pyval \<Rightarrow> pyval \<Rightarrow> pyval \<Rightarrow> pyval \<Rightarrow> pyval \<Rightarrow> 'a room_db_scheme
     \<Rightarrow> ((room_view \<times> room_permissions) \<times> 'a room_db_scheme) room_result" where
  "cancel_operator_coordination env p ws code reason version expected db =
     bind_result (operator_transaction env p True ws db) (\<lambda>w.
     bind_result (proposal db code None w p) (\<lambda>row.
     bind_result (room_revision row version expected) (\<lambda>_.
     bind_result (cancel_room env row reason db) (\<lambda>res.
       case res of None \<Rightarrow> room_answer_operator env p w row db
                 | Some (row1, db1) \<Rightarrow> room_finish_operator env p w row1 ''cancelled'' db1))))"

end
