(* ===== verification/RoomLaws.thy ===== *)
theory RoomLaws imports Coordination begin

text \<open>
  What each coordination operation does to the two tables. A committed transaction opens a room,
  replaces its latest version, or takes that version through one \<open>room_event\<close>; \<open>room_ok\<close> is the
  invariant all of them keep.
\<close>

section \<open>The compare-and-set of proposals\<close>

definition keys_unique :: "'a room_db_scheme \<Rightarrow> bool" where
  "keys_unique db \<longleftrightarrow> distinct (map proposal_key (proposals db))"

lemma get_proposal_member:
  "keys_unique db \<Longrightarrow> get_proposal db k = Some x \<longleftrightarrow> x \<in> set (proposals db) \<and> proposal_key x = k"
  by (auto simp: get_proposal_def keys_unique_def dest: row_by_Some_iff_key row_by_distinct)

lemma get_proposal_key: "get_proposal db k = Some x \<Longrightarrow> proposal_key x = k"
  by (auto simp: get_proposal_def dest: row_by_Some_iff_key)

lemma get_proposal_replace:
  "proposals db' = replace_row proposal_key b (proposals db) \<Longrightarrow>
     get_proposal db' k = (if k = proposal_key b \<and> get_proposal db k \<noteq> None then Some b else get_proposal db k)"
  by (auto simp: get_proposal_def row_by_replace_row)

lemma room_cas_Inr:
  assumes u: "keys_unique db" and f: "\<And>r. proposal_key (f r) = proposal_key r"
    and c: "room_cas now row f db = Inr (row1, db1)"
  shows "\<exists>x. get_proposal db (proposal_key row) = Some x \<and> cp_revision x = cp_revision row \<and>
    row1 = (f x)\<lparr>cp_revision := cp_revision row + 1, cp_updated_at := now\<rparr> \<and> proposal_checks row1 \<and>
    db1 = db\<lparr>proposals := replace_row proposal_key row1 (proposals db)\<rparr>"
proof -
  let ?hit = "\<lambda>r. proposal_key r = proposal_key row \<and> cp_revision r = cp_revision row"
  let ?new = "\<lambda>r. (f r)\<lparr>cp_revision := cp_revision row + 1, cp_updated_at := now\<rparr>"
  let ?db = "db\<lparr>proposals := update_where ?hit ?new (proposals db)\<rparr>"
  have one: "rows_matching ?hit (proposals db) = 1"
    and chk: "\<And>r. r \<in> set (proposals db) \<Longrightarrow> ?hit r \<Longrightarrow> proposal_checks (?new r)"
    and got: "get_proposal ?db (proposal_key row) = Some row1" and db1: "db1 = ?db"
    using c unfolding room_cas_def Let_def by (auto split: if_split_asm option.split_asm)
  have "filter ?hit (proposals db) \<noteq> []"
  proof
    assume "filter ?hit (proposals db) = []"
    then show False using one by (simp add: rows_matching_def del: filter_empty_conv)
  qed
  then obtain x where x: "x \<in> set (proposals db)" "?hit x" by (auto simp: filter_empty_conv)
  have r: "row_by proposal_key (proposal_key row) (proposals db) = Some x"
    using get_proposal_member[OF u, of "proposal_key row" x] x by (simp add: get_proposal_def)
  have k: "\<And>y. proposal_key (?new y) = proposal_key y" using f by (simp add: proposal_key_def)
  have d: "distinct (map proposal_key (proposals db))" using u by (simp add: keys_unique_def)
  have e: "update_where ?hit ?new (proposals db) = replace_row proposal_key (?new x) (proposals db)"
    using cas_update(1)[where f = ?new and ver = cp_revision, OF d r k] x(2) by simp
  have "get_proposal ?db (proposal_key row) = Some (?new x)"
    using r x k[of x] by (simp add: e get_proposal_def row_by_replace_row)
  then have "row1 = ?new x" using got by simp
  then show ?thesis using x r e db1 chk[OF x] by (simp add: get_proposal_def)
qed

interpretation rooms: compare_and_set proposal_key cp_revision get_proposal
  "\<lambda>r f d. room_cas now r f d" keys_unique for now
proof
  fix d :: "'a room_db_scheme" and f :: "proposal_row \<Rightarrow> proposal_row" and r r' d'
  assume d: "keys_unique d" and f: "\<And>x. proposal_key (f x) = proposal_key x"
    and c: "room_cas now r f d = Inr (r', d')"
  from room_cas_Inr[OF d f c] obtain x where x: "get_proposal d (proposal_key r) = Some x"
    "cp_revision x = cp_revision r" "r' = (f x)\<lparr>cp_revision := cp_revision r + 1, cp_updated_at := now\<rparr>"
    "d' = d\<lparr>proposals := replace_row proposal_key r' (proposals d)\<rparr>" by blast
  have kr: "proposal_key r' = proposal_key r"
    using x(3) f[of x] get_proposal_key[OF x(1)] by (simp add: proposal_key_def)
  have p: "proposals d' = replace_row proposal_key r' (proposals d)" using x(4) by simp
  show "\<exists>x. get_proposal d (proposal_key r) = Some x \<and> cp_revision x = cp_revision r \<and>
      cp_revision r' = cp_revision r + 1 \<and> get_proposal d' (proposal_key r) = Some r'"
    using x kr get_proposal_replace[OF p] by auto
  show "keys_unique d'" using p d by (simp add: keys_unique_def)
  show "k \<noteq> proposal_key r \<Longrightarrow> get_proposal d' k = get_proposal d k" for k
    using get_proposal_replace[OF p] kr by simp
qed

section \<open>Latest versions\<close>

lemma versions_of_mem: "r \<in> set (versions_of db c) \<longleftrightarrow> r \<in> set (proposals db) \<and> cp_code r = c"
  by (auto simp: versions_of_def)

lemma latest_proposal_Some:
  assumes "latest_proposal db c = Some r"
  shows "r \<in> set (proposals db)" "cp_code r = c" "is_latest db r"
proof -
  have ne: "versions_of db c \<noteq> []" and l: "r = last (versions_of db c)"
    using assms by (auto simp: latest_proposal_def Let_def split: if_split_asm)
  then have m: "r \<in> set (versions_of db c)" by simp
  then show "r \<in> set (proposals db)" "cp_code r = c" by (auto simp: versions_of_mem)
  have s: "sorted (map cp_version (versions_of db c))" by (simp add: versions_of_def)
  obtain ys where ys: "versions_of db c = ys @ [r]" using ne l by (metis append_butlast_last_id)
  have "cp_version x \<le> cp_version r" if "x \<in> set (versions_of db c)" for x
    using s that unfolding ys by (auto simp: sorted_append)
  then show "is_latest db r" using \<open>cp_code r = c\<close> by (auto simp: is_latest_def versions_of_mem)
qed

lemma proposal_latest:
  assumes "proposal db code actor w p = Inr row"
  obtains c where "code = PStr c" "latest_proposal db c = Some row" "cp_code row = c"
    "cp_workspace_id row = w_id w" "Some (cp_creator_operator_id row) = operator_id p"
    "actor = None \<or> (\<exists>a. actor = Some a \<and> s_id a \<in> members_of row)"
proof -
  obtain c where c: "code = PStr c" and a: "room_access (latest_proposal db c) actor w p = Inr row"
    using assms by (auto simp: proposal_def result_simps)
  then have l: "latest_proposal db c = Some row"
    by (auto simp: room_access_def split: option.split_asm if_split_asm)
  then show ?thesis
    using a c latest_proposal_Some(2)[OF l]
    by (intro that[of c]) (auto simp: room_access_def split: option.split_asm if_split_asm)
qed

section \<open>Events of a room\<close>

text \<open>The columns of a version never change, save its protocol state.\<close>

definition same_proposal :: "proposal_row \<Rightarrow> proposal_row \<Rightarrow> bool" where
  "same_proposal a b \<longleftrightarrow>
     b\<lparr>cp_status := cp_status a, cp_revision := cp_revision a, cp_round := cp_round a,
       cp_initial_closed := cp_initial_closed a, cp_updated_at := cp_updated_at a,
       cp_cancellation_reason := cp_cancellation_reason a\<rparr> = a"

lemma same_proposal_refl: "same_proposal a a"
  by (simp add: same_proposal_def)

lemma same_proposal_trans: "same_proposal a b \<Longrightarrow> same_proposal b c \<Longrightarrow> same_proposal a c"
  by (cases a; cases b; cases c) (simp add: same_proposal_def)

lemma same_proposal_fields:
  assumes "same_proposal a b"
  shows "cp_code b = cp_code a" "cp_version b = cp_version a" "cp_workspace_id b = cp_workspace_id a"
    "cp_creator_operator_id b = cp_creator_operator_id a" "cp_specification b = cp_specification a"
    "cp_specification_hash b = cp_specification_hash a" "cp_result_owner b = cp_result_owner a"
    "cp_deadline_at b = cp_deadline_at a" "proposal_key b = proposal_key a" "creation_key b = creation_key a"
    "participants_of b = participants_of a" "members_of b = members_of a"
  using assms
  by (cases a; cases b; simp add: same_proposal_def proposal_key_def creation_key_def participants_of_def
      members_of_def)+

definition room_phase :: "proposal_row \<Rightarrow> room_status \<times> int \<times> bool" where
  "room_phase r = (cp_status r, cp_round r, cp_initial_closed r)"

abbreviation rounds_of :: "proposal_row \<Rightarrow> int" where
  "rounds_of r \<equiv> rs_discussion_rounds (cp_specification r)"

abbreviation mode_of :: "proposal_row \<Rightarrow> exchange_mode" where
  "mode_of r \<equiv> rs_exchange_mode (cp_specification r)"

text \<open>
  The abstract protocol of one version: from its row and contributions to its next row and the
  contributions added.
\<close>

inductive room_event ::
    "proposal_row \<Rightarrow> contribution_row list \<Rightarrow> proposal_row \<Rightarrow> contribution_row list \<Rightarrow> bool" where
  acknowledge: "cp_status a = RPlanned \<Longrightarrow> cc_kind c = KAccept \<Longrightarrow> cc_author c \<in> members_of a \<Longrightarrow>
    cc_payload c = spec_hash_json (cp_specification_hash a) \<Longrightarrow>
    room_phase b = (if insert (cc_author c) (acceptors es) = members_of a then RAccepted else RPlanned,
      cp_round a, cp_initial_closed a) \<Longrightarrow> room_event a es b [c]"
| collect: "cp_status a = RAccepted \<Longrightarrow> acceptors es = members_of a \<Longrightarrow>
    room_phase b = (RCollecting, cp_round a, cp_initial_closed a) \<Longrightarrow> room_event a es b []"
| submit_initial: "cp_status a = RCollecting \<Longrightarrow> cc_kind c = KInitial \<Longrightarrow> cc_author c \<in> participants_of a \<Longrightarrow>
    room_phase b = room_phase a \<Longrightarrow> room_event a es b [c]"
| close_initial: "cp_status a = RCollecting \<Longrightarrow> initial_authors es = participants_of a \<Longrightarrow>
    room_phase b = (RDiscussing, if rounds_of a \<noteq> 0 \<or> mode_of a = Threaded then 1 else 0, True) \<Longrightarrow>
    room_event a es b []"
| submit_discussion: "cp_status a = RDiscussing \<Longrightarrow> cc_kind c = KDiscussion \<Longrightarrow>
    cc_author c \<in> participants_of a \<Longrightarrow> mode_of a = ByRounds \<longrightarrow> cc_round c = cp_round a \<and> cp_round a \<le> rounds_of a \<Longrightarrow>
    room_phase b = room_phase a \<Longrightarrow> room_event a es b [c]"
| next_round: "cp_status a = RDiscussing \<Longrightarrow> mode_of a = ByRounds \<Longrightarrow> 1 \<le> cp_round a \<Longrightarrow>
    cp_round a \<le> rounds_of a \<Longrightarrow> discussion_authors (Some (cp_round a)) es = participants_of a \<Longrightarrow>
    room_phase b = (RDiscussing, cp_round a + 1, cp_initial_closed a) \<Longrightarrow> room_event a es b []"
| close_thread: "cp_status a = RDiscussing \<Longrightarrow> mode_of a = Threaded \<Longrightarrow>
    discussion_authors None es = participants_of a \<Longrightarrow>
    room_phase b = (RDiscussing, max (cp_round a) (rounds_of a) + 1, cp_initial_closed a) \<Longrightarrow>
    room_event a es b []"
| conclude: "final_ready a \<Longrightarrow> cc_kind c = KFinal \<Longrightarrow> cc_author c = cp_result_owner a \<Longrightarrow>
    room_phase b = (RCompleted, cp_round a, cp_initial_closed a) \<Longrightarrow> room_event a es b [c]"
| cancel: "cp_status a \<in> set OPEN_STATUSES \<Longrightarrow>
    room_phase b = (RCancelled, cp_round a, cp_initial_closed a) \<Longrightarrow> room_event a es b []"

section \<open>The invariant of a version\<close>

definition rounds_done :: "proposal_row \<Rightarrow> contribution_row list \<Rightarrow> bool" where
  "rounds_done a es \<longleftrightarrow>
     (case mode_of a of
        ByRounds \<Rightarrow> 0 \<le> cp_round a \<and> cp_round a \<le> max 0 (rounds_of a) + 1 \<and> (cp_round a = 0 \<longrightarrow> rounds_of a = 0)
          \<and> (\<forall>n. 1 \<le> n \<and> n < cp_round a \<longrightarrow> discussion_authors (Some n) es = participants_of a)
      | Threaded \<Rightarrow> 1 \<le> cp_round a \<and> (1 < cp_round a \<longrightarrow> discussion_authors None es = participants_of a))"

definition entry_ok :: "proposal_row \<Rightarrow> contribution_row \<Rightarrow> bool" where
  "entry_ok a e \<longleftrightarrow> contribution_checks e \<and>
     (case cc_kind e of
        KAccept \<Rightarrow> cc_author e \<in> members_of a \<and> cc_payload e = spec_hash_json (cp_specification_hash a)
      | KInitial \<Rightarrow> cc_author e \<in> participants_of a \<and> cp_status a \<notin> {RPlanned, RAccepted}
      | KDiscussion \<Rightarrow> cc_author e \<in> participants_of a \<and> cp_initial_closed a
      | KFinal \<Rightarrow> cc_author e = cp_result_owner a \<and> cp_status a = RCompleted)"

definition room_state :: "proposal_row \<Rightarrow> contribution_row list \<Rightarrow> bool" where
  "room_state a es \<longleftrightarrow>
     (\<forall>e\<in>set es. entry_ok a e) \<and>
     (cp_status a = RPlanned \<longrightarrow> acceptors es \<noteq> members_of a) \<and>
     (cp_status a \<in> {RPlanned, RAccepted, RCollecting} \<longrightarrow> \<not> cp_initial_closed a) \<and>
     (cp_status a \<in> {RDiscussing, RCompleted} \<longrightarrow> cp_initial_closed a) \<and>
     (\<not> cp_initial_closed a \<longrightarrow> cp_round a = 0) \<and>
     (cp_status a \<in> {RAccepted, RCollecting} \<or> cp_initial_closed a \<longrightarrow> acceptors es = members_of a) \<and>
     (cp_initial_closed a \<longrightarrow> initial_authors es = participants_of a \<and> rounds_done a es) \<and>
     (cp_status a = RCompleted \<longrightarrow> (\<exists>e\<in>set es. cc_kind e = KFinal) \<and>
        (cp_round a = 0 \<or> cp_round a > rounds_of a))"

lemma authors_append: "set es' = set es \<union> set cs \<Longrightarrow> authors P es' = authors P es \<union> authors P cs"
  by (auto simp: authors_def)

lemmas author_sets = acceptors_def initial_authors_def discussion_authors_def

lemma authors_cong: "set es' = set es \<Longrightarrow> authors P es' = authors P es"
  by (simp add: authors_def)

lemma authors_Cons: "authors P (c # cs) = (if P c then insert (cc_author c) (authors P cs) else authors P cs)"
  by (auto simp: authors_def)

lemma authors_Nil [simp]: "authors P [] = {}"
  by (simp add: authors_def)

lemma room_state_cong:
  assumes h: "set es' = set es"
  shows "room_state a es' = room_state a es"
  unfolding room_state_def rounds_done_def author_sets authors_cong[OF h] h ..

lemma entry_ok_event:
  assumes ev: "room_event a es b cs" and s: "same_proposal a b" and c: "\<forall>c\<in>set cs. contribution_checks c"
    and e: "\<forall>e\<in>set es. entry_ok a e" and o: "cp_status a = RDiscussing \<longrightarrow> cp_initial_closed a"
  shows "\<forall>e\<in>set es \<union> set cs. entry_ok b e"
proof -
  note f = same_proposal_fields[OF s]
  show ?thesis
    using ev c e o
    by cases (auto simp: entry_ok_def f room_phase_def final_ready_def OPEN_STATUSES_def
        split: contribution_kind.splits)
qed

lemma rounds_done_event:
  assumes ev: "room_event a es b cs" and s: "same_proposal a b" and r: "room_state a es"
    and es: "set es' = set es \<union> set cs" and c: "cp_initial_closed b" and t: "0 \<le> rounds_of a"
  shows "rounds_done b es'"
proof -
  note f = same_proposal_fields[OF s] and u = authors_append[OF es]
  have d: "cp_initial_closed a \<Longrightarrow> rounds_done a es" using r by (simp add: room_state_def)
  have p: "authors P es' = authors P es \<union> authors P cs" for P using u .
  show ?thesis
    using ev
  proof cases
    case (submit_discussion c)
    have "cp_initial_closed a" using r submit_discussion by (simp add: room_state_def)
    then show ?thesis
      using d submit_discussion
      by (auto simp: rounds_done_def f room_phase_def author_sets p authors_Cons split: exchange_mode.splits)
  next
    case close_initial
    then have b: "cp_round b = (if rounds_of a \<noteq> 0 \<or> mode_of a = Threaded then 1 else 0)"
      by (simp add: room_phase_def)
    have "discussion_authors (Some n) es' = participants_of a" if "1 \<le> n" "n < cp_round b" for n
      using that b by (simp split: if_split_asm)
    then show ?thesis using b t by (cases "mode_of a") (simp_all add: rounds_done_def f)
  next
    case next_round
    have "cp_initial_closed a" using r next_round by (simp add: room_state_def)
    then have "rounds_done a es" by (rule d)
    moreover have "n < cp_round a \<or> n = cp_round a" if "n < cp_round a + 1" for n using that by linarith
    ultimately show ?thesis using next_round t
      by (auto simp: rounds_done_def f room_phase_def author_sets p)
  qed (use r d c t in \<open>auto simp: room_state_def rounds_done_def f room_phase_def author_sets p authors_Cons
      final_ready_def split: exchange_mode.splits\<close>)
qed

lemma room_state_event:
  assumes ev: "room_event a es b cs" and s: "same_proposal a b" and c: "\<forall>c\<in>set cs. contribution_checks c"
    and r: "room_state a es" and es: "set es' = set es \<union> set cs" and t: "0 \<le> rounds_of a"
  shows "room_state b es'"
proof -
  note f = same_proposal_fields[OF s]
  have p: "authors P es' = authors P es \<union> authors P cs" for P using authors_append[OF es] .
  have e: "\<forall>e\<in>set es'. entry_ok b e"
    unfolding es by (rule entry_ok_event[OF ev s c]) (use r in \<open>auto simp: room_state_def\<close>)
  have d: "cp_initial_closed b \<Longrightarrow> rounds_done b es'"
    by (rule rounds_done_event[OF ev s r es _ t])
  have acc: "acceptors es' = acceptors es \<union> acceptors cs" and ini: "initial_authors es' = initial_authors es \<union> initial_authors cs"
    unfolding author_sets by (rule p)+
  have none: "acceptors [] = {}" "initial_authors [] = {}"
    and one: "acceptors [c] = (if cc_kind c = KAccept then {cc_author c} else {})"
      "initial_authors [c] = (if cc_kind c = KInitial then {cc_author c} else {})" for c
    by (simp_all add: author_sets authors_Cons)
  note u = room_phase_def acc ini none one f es
  show ?thesis
    using ev
  proof cases
    case (acknowledge c)
    then show ?thesis using r e d unfolding room_state_def by (simp add: u split: if_splits)
  next
    case collect
    then show ?thesis using r e d unfolding room_state_def by (simp add: u)
  next
    case (submit_initial c)
    then show ?thesis using r e d unfolding room_state_def by (simp add: u)
  next
    case close_initial
    then show ?thesis using r e d unfolding room_state_def by (simp add: u)
  next
    case (submit_discussion c)
    then show ?thesis using r e d unfolding room_state_def by (simp add: u)
  next
    case next_round
    then show ?thesis using r e d unfolding room_state_def by (simp add: u)
  next
    case close_thread
    then show ?thesis using r e d unfolding room_state_def by (simp add: u)
  next
    case (conclude c)
    then show ?thesis using r e d unfolding room_state_def by (simp add: u final_ready_def)
  next
    case cancel
    then show ?thesis using r e d unfolding room_state_def by (simp add: u OPEN_STATUSES_def)
  qed
qed

end
