(* ===== verification/RoomInvariant.thy ===== *)
theory RoomInvariant imports RoomLaws begin

text \<open>
  The shapes of a committed coordination transaction, \<open>room_tx\<close>, and the invariant \<open>room_ok\<close> that
  every shape keeps: keys, creations, contribution ids and slots are unique; only the latest version
  of a room is open; and every version is well typed and in a state its contributions justify.
\<close>

section \<open>Well-typed versions\<close>

definition spec_typed :: "room_spec \<Rightarrow> bool" where
  "spec_typed sp \<longleftrightarrow> rs_discussion_rounds sp \<in> {0..3} \<and> rs_max_turns sp \<in> {1..3} \<and>
     length (rs_participants sp) \<in> {2..8} \<and> distinct (map pt_session_id (rs_participants sp)) \<and>
     (\<forall>p\<in>set (rs_participants sp). pt_tool p \<noteq> None)"

definition proposal_typed :: "proposal_row \<Rightarrow> bool" where
  "proposal_typed r \<longleftrightarrow> proposal_checks r \<and> spec_typed (cp_specification r) \<and>
     cp_result_owner r = rs_result_owner (cp_specification r) \<and>
     rs_deadline (cp_specification r) = Some (cp_deadline_at r) \<and>
     cp_created_at r < cp_deadline_at r \<and> cp_deadline_at r \<le> cp_created_at r + seconds (MAX_DEADLINE_DAYS * 86400) \<and>
     (cp_status r = RCancelled \<longleftrightarrow> cp_cancellation_reason r \<noteq> None)"

lemma same_proposal_typed:
  assumes "same_proposal a b" and "proposal_typed a" and "proposal_checks b"
    and "cp_status b = RCancelled \<longleftrightarrow> cp_cancellation_reason b \<noteq> None"
  shows "proposal_typed b"
  using assms by (cases a; cases b) (simp add: proposal_typed_def same_proposal_def)

lemma typed_two:
  assumes "proposal_typed r"
  shows "finite (participants_of r)" "2 \<le> card (participants_of r)" "\<not> participants_of r \<subseteq> {x}"
proof -
  have d: "distinct (map pt_session_id (rs_participants (cp_specification r)))"
    and l: "2 \<le> length (rs_participants (cp_specification r))"
    using assms by (simp_all add: proposal_typed_def spec_typed_def)
  show c: "2 \<le> card (participants_of r)"
    using distinct_card[OF d] l by (simp add: participants_of_def)
  show "finite (participants_of r)" by (simp add: participants_of_def)
  show "\<not> participants_of r \<subseteq> {x}"
  proof
    assume "participants_of r \<subseteq> {x}"
    then have "card (participants_of r) \<le> card {x}" by (intro card_mono) auto
    then show False using c by simp
  qed
qed

section \<open>Entries of a version\<close>

definition room_of :: "contribution_row \<Rightarrow> pystr \<times> int" where
  "room_of c = (cc_proposal_code c, cc_version c)"

lemma entries_mem: "e \<in> set (entries db a) \<longleftrightarrow> e \<in> set (contributions db) \<and> room_of e = proposal_key a"
  by (auto simp: entries_def room_of_def proposal_key_def)

lemma entries_more [simp]: "entries (db\<lparr>proposals := ps\<rparr>) a = entries db a"
  by (simp add: entries_def)

lemma entries_key: "proposal_key b = proposal_key a \<Longrightarrow> entries db b = entries db a"
  by (simp add: entries_def proposal_key_def)

text \<open>A contribution whose dissent is text, so that every snapshot showing it can be built.\<close>

definition readable :: "json \<Rightarrow> bool" where
  "readable payload \<longleftrightarrow> (\<exists>d. dissent_text payload = Inr d)"

text \<open>At most one contribution is added, to version \<open>b\<close>.\<close>

definition added :: "'a room_db_scheme \<Rightarrow> proposal_row \<Rightarrow> contribution_row list \<Rightarrow> 'a room_db_scheme \<Rightarrow> bool" where
  "added db b cs db' \<longleftrightarrow> length cs \<le> 1 \<and> contributions db' = contributions db @ cs \<and>
     (\<forall>c\<in>set cs. contribution_checks c \<and> room_of c = proposal_key b \<and> readable (cc_payload c) \<and>
        (\<forall>e\<in>set (contributions db). cc_id e \<noteq> cc_id c \<and> (room_of e = room_of c \<longrightarrow> cc_slot e \<noteq> cc_slot c)))"

lemma added_entries:
  "added db b cs db' \<Longrightarrow> set (entries db' a) = set (entries db a) \<union> (if proposal_key a = proposal_key b then set cs else {})"
  by (auto simp: entries_mem added_def)

lemma added_none: "contributions db' = contributions db \<Longrightarrow> added db b [] db'"
  by (simp add: added_def)

section \<open>Shapes of a transaction\<close>

text \<open>A new version, accepted by the Session that proposes it.\<close>

definition new_version :: "'a room_db_scheme \<Rightarrow> proposal_row \<Rightarrow> contribution_row list \<Rightarrow> bool" where
  "new_version db b cs \<longleftrightarrow> get_proposal db (proposal_key b) = None \<and>
     creation_key b \<notin> creation_key ` set (proposals db) \<and>
     room_phase b = (RPlanned, 0, False) \<and> proposal_typed b \<and>
     (case cp_creator_session_id b of
        None \<Rightarrow> cs = []
      | Some s \<Rightarrow> \<exists>c. cs = [c] \<and> cc_kind c = KAccept \<and> cc_author c = s \<and>
                    cc_payload c = spec_hash_json (cp_specification_hash b))"

text \<open>The latest version \<open>a\<close> goes to \<open>b\<close> by one event.\<close>

definition room_change ::
    "'a room_db_scheme \<Rightarrow> proposal_row \<Rightarrow> proposal_row \<Rightarrow> contribution_row list \<Rightarrow> bool" where
  "room_change db a b cs \<longleftrightarrow> get_proposal db (proposal_key a) = Some a \<and> is_latest db a \<and>
     room_event a (entries db a) b cs \<and> same_proposal a b \<and> cp_revision b = cp_revision a + 1 \<and>
     proposal_checks b \<and> (cp_status b = RCancelled \<longleftrightarrow> cp_cancellation_reason b \<noteq> None)"

inductive room_tx :: "'a room_db_scheme \<Rightarrow> 'a room_db_scheme \<Rightarrow> bool" where
  idle: "proposals db' = proposals db \<Longrightarrow> contributions db' = contributions db \<Longrightarrow> room_tx db db'"
| opened: "cp_version b = 1 \<Longrightarrow> new_version db b cs \<Longrightarrow> proposals db' = proposals db @ [b] \<Longrightarrow>
    added db b cs db' \<Longrightarrow> room_tx db db'"
| replaced: "room_change db a a' [] \<Longrightarrow> cp_status a' = RCancelled \<Longrightarrow> cp_code b = cp_code a \<Longrightarrow>
    cp_version b = cp_version a + 1 \<Longrightarrow> cp_revision b = cp_revision a + 2 \<Longrightarrow> new_version db b cs \<Longrightarrow>
    proposals db' = replace_row proposal_key a' (proposals db) @ [b] \<Longrightarrow>
    added db b cs db' \<Longrightarrow> room_tx db db'"
| changed: "room_change db a b cs \<Longrightarrow> proposals db' = replace_row proposal_key b (proposals db) \<Longrightarrow>
    added db b cs db' \<Longrightarrow> room_tx db db'"

section \<open>The invariant\<close>

definition row_ok :: "'a room_db_scheme \<Rightarrow> proposal_row \<Rightarrow> bool" where
  "row_ok db a \<longleftrightarrow> proposal_typed a \<and> room_state a (entries db a) \<and>
     (cp_status a \<in> set OPEN_STATUSES \<longrightarrow> is_latest db a) \<and> get_proposal db (cp_code a, 1) \<noteq> None"

definition room_ok :: "'a room_db_scheme \<Rightarrow> bool" where
  "room_ok db \<longleftrightarrow> keys_unique db \<and> distinct (map creation_key (proposals db)) \<and>
     distinct (map cc_id (contributions db)) \<and>
     distinct (map (\<lambda>c. (room_of c, cc_slot c)) (contributions db)) \<and>
     (\<forall>a\<in>set (proposals db). row_ok db a) \<and>
     (\<forall>c\<in>set (contributions db). get_proposal db (room_of c) \<noteq> None \<and> readable (cc_payload c))"

lemma room_ok_empty: "proposals db = [] \<Longrightarrow> contributions db = [] \<Longrightarrow> room_ok db"
  by (simp add: room_ok_def keys_unique_def get_proposal_def)

lemma room_ok_keys: "room_ok db \<Longrightarrow> keys_unique db"
  by (simp add: room_ok_def)

lemma room_ok_row: "room_ok db \<Longrightarrow> get_proposal db k = Some a \<Longrightarrow> row_ok db a"
  unfolding room_ok_def using get_proposal_member[of db k a] by blast

text \<open>What a transaction does to one version.\<close>

definition row_step :: "'a room_db_scheme \<Rightarrow> proposal_row \<Rightarrow> proposal_row \<Rightarrow> 'a room_db_scheme \<Rightarrow> bool" where
  "row_step db a b db' \<longleftrightarrow>
     (b = a \<and> set (entries db' a) = set (entries db a)) \<or>
     (\<exists>cs. room_change db a b cs \<and> (\<forall>c\<in>set cs. contribution_checks c) \<and>
        set (entries db' b) = set (entries db a) \<union> set cs)"

lemma room_change_row:
  assumes "room_change db a b cs" and ok: "room_ok db" and c: "\<forall>c\<in>set cs. contribution_checks c"
    and es: "set es' = set (entries db a) \<union> set cs"
  shows "proposal_typed b" "room_state b es'" "proposal_key b = proposal_key a" "creation_key b = creation_key a"
    "cp_code b = cp_code a"
proof -
  have "get_proposal db (proposal_key a) = Some a" using assms(1) by (simp add: room_change_def)
  then have a: "row_ok db a" by (rule room_ok_row[OF ok])
  have s: "same_proposal a b" and ev: "room_event a (entries db a) b cs"
    using assms(1) by (auto simp: room_change_def)
  show "proposal_typed b"
    using same_proposal_typed[OF s] a assms(1) by (auto simp: row_ok_def room_change_def)
  show "room_state b es'"
    using room_state_event[OF ev s c _ es] a by (auto simp: row_ok_def proposal_typed_def spec_typed_def)
  show "proposal_key b = proposal_key a" "creation_key b = creation_key a" "cp_code b = cp_code a"
    using same_proposal_fields[OF s] by auto
qed

lemma room_tx_existing:
  assumes "room_tx db db'" and ok: "room_ok db" and a: "get_proposal db k = Some a"
  shows "\<exists>b. get_proposal db' k = Some b \<and> row_step db a b db'"
proof -
  have ka: "proposal_key a = k" using get_proposal_key[OF a] .
  have e: "set (entries db' a) = set (entries db a)" if "added db x cs db'" "proposal_key x \<noteq> k" for x cs
    using added_entries[OF that(1), of a] that(2) ka by simp
  show ?thesis
    using assms(1)
  proof cases
    case idle
    then show ?thesis using a by (auto simp: row_step_def get_proposal_def entries_def)
  next
    case (opened b cs)
    have "proposal_key b \<noteq> k" using opened a by (auto simp: new_version_def)
    then show ?thesis using a opened e by (auto simp: row_step_def get_proposal_def row_by_append)
  next
    case (replaced x x' b cs)
    have n: "proposal_key b \<noteq> k" using replaced a by (auto simp: new_version_def)
    have kx: "proposal_key x' = proposal_key x"
      using replaced(1) same_proposal_fields by (auto simp: room_change_def)
    let ?b = "if k = proposal_key x then x' else a"
    have g: "get_proposal db' k = Some ?b"
      using a kx replaced(7) by (auto simp: get_proposal_def row_by_append row_by_replace_row)
    have "row_step db a ?b db'"
    proof (cases "k = proposal_key x")
      case True
      then have "a = x" using replaced(1) a by (simp add: room_change_def)
      then show ?thesis
        using True replaced(1) e[OF replaced(8) n] entries_key[of x' a db'] kx
        by (auto simp: row_step_def)
    qed (use e[OF replaced(8) n] in \<open>simp add: row_step_def\<close>)
    then show ?thesis using g by blast
  next
    case (changed x b cs)
    have kx: "proposal_key b = proposal_key x"
      using changed(1) same_proposal_fields by (auto simp: room_change_def)
    let ?b = "if k = proposal_key x then b else a"
    have g: "get_proposal db' k = Some ?b"
      using a kx changed(2) by (auto simp: get_proposal_def row_by_replace_row)
    have "row_step db a ?b db'"
    proof (cases "k = proposal_key x")
      case True
      then have "a = x" using changed(1) a by (simp add: room_change_def)
      then show ?thesis
        using True changed(1) added_entries[OF changed(3), of a] entries_key[of b a db'] kx changed(3)
        by (auto simp: row_step_def added_def)
    qed (use e[OF changed(3)] kx in \<open>simp add: row_step_def\<close>)
    then show ?thesis using g by blast
  qed
qed

lemma room_tx_fresh:
  assumes "room_tx db db'" and ok: "room_ok db" and k: "get_proposal db k = None"
    and b: "get_proposal db' k = Some b"
  shows "\<exists>cs. new_version db b cs \<and> set (entries db' b) = set cs \<and> (\<forall>c\<in>set cs. contribution_checks c) \<and>
    (cp_version b = 1 \<or> (\<exists>a a'. room_change db a a' [] \<and> cp_code b = cp_code a \<and> cp_version b = cp_version a + 1))"
proof -
  have kb: "proposal_key b = k" using get_proposal_key[OF b] .
  have "e \<notin> set (entries db b)" for e
    using ok k kb by (auto simp: entries_mem room_ok_def)
  then have none: "set (entries db b) = {}" by (simp add: set_eq_iff)
  have fin: ?thesis if "new_version db x cs" "added db x cs db'" "x = b"
    "cp_version x = 1 \<or> (\<exists>a a'. room_change db a a' [] \<and> cp_code x = cp_code a \<and> cp_version x = cp_version a + 1)" for x cs
    using that added_entries[OF that(2), of b] none by (auto simp: added_def)
  show ?thesis
    using assms(1)
  proof cases
    case idle
    then show ?thesis using k b by (simp add: get_proposal_def)
  next
    case (opened x cs)
    then have "x = b" using k b by (simp add: get_proposal_def row_by_append split: if_split_asm)
    then show ?thesis using fin opened by blast
  next
    case (replaced a a' x cs)
    have "proposal_key a' = proposal_key a" "get_proposal db (proposal_key a) \<noteq> None"
      using replaced(1) same_proposal_fields by (auto simp: room_change_def)
    then have "x = b"
      using k b replaced(7) by (auto simp: get_proposal_def row_by_append row_by_replace_row split: if_split_asm)
    then show ?thesis using fin replaced by blast
  next
    case (changed a x cs)
    then show ?thesis using k b get_proposal_replace[OF changed(2)] by (auto split: if_split_asm)
  qed
qed

section \<open>Every transaction keeps the invariant\<close>

lemma new_version_state:
  assumes n: "new_version db b cs" and es: "set es = set cs" and c: "\<forall>c\<in>set cs. contribution_checks c"
  shows "room_state b es"
proof -
  have p: "cp_status b = RPlanned" "cp_round b = 0" "\<not> cp_initial_closed b"
    using n by (simp_all add: new_version_def room_phase_def)
  have two: "\<not> participants_of b \<subseteq> {x}" for x
    using typed_two(3) n by (simp add: new_version_def)
  have "acceptors es \<subseteq> {x} \<Longrightarrow> acceptors es \<noteq> members_of b" for x
    using two[of x] by (auto simp: members_of_def)
  moreover have "\<exists>x. acceptors es \<subseteq> {x}"
    using n es unfolding new_version_def acceptors_def authors_def
    by (cases "cp_creator_session_id b") (auto intro!: exI[of _ "the (cp_creator_session_id b)"])
  ultimately have "acceptors es \<noteq> members_of b" by blast
  moreover have "\<forall>e\<in>set es. entry_ok b e"
    unfolding es using n c
    by (auto simp: entry_ok_def new_version_def members_of_def split: option.split_asm)
  ultimately show ?thesis using p by (simp add: room_state_def)
qed

lemma room_tx_unique:
  assumes "room_tx db db'" and ok: "room_ok db"
  shows "keys_unique db'" "distinct (map creation_key (proposals db'))"
proof -
  have u: "keys_unique db" "distinct (map creation_key (proposals db))" using ok by (simp_all add: room_ok_def)
  have fresh: "proposal_key b \<notin> set (map proposal_key (proposals db))" "creation_key b \<notin> set (map creation_key (proposals db))"
    if "new_version db b cs" for b cs
    using that by (auto simp: new_version_def get_proposal_def row_by_None)
  have put: "map creation_key (replace_row proposal_key b (proposals db)) = map creation_key (proposals db)"
    if "room_change db a b cs" for a b cs
  proof -
    have "get_proposal db (proposal_key b) = Some a" "creation_key b = creation_key a"
      using that same_proposal_fields[of a b] by (auto simp: room_change_def)
    then have "\<And>r. r \<in> set (proposals db) \<Longrightarrow> proposal_key r = proposal_key b \<Longrightarrow> creation_key r = creation_key b"
      using get_proposal_member[OF u(1), of "proposal_key b"] by fastforce
    then show ?thesis by (auto simp: replace_row_def update_where_def)
  qed
  show "keys_unique db'"
    using assms(1) u fresh by cases (auto simp: keys_unique_def)
  show "distinct (map creation_key (proposals db'))"
    using assms(1) u(2) fresh put by cases (auto simp del: set_map)
qed

lemma added_unique:
  assumes "added db b cs db'" and "distinct (map cc_id (contributions db))"
    and "distinct (map (\<lambda>c. (room_of c, cc_slot c)) (contributions db))"
  shows "distinct (map cc_id (contributions db'))"
    "distinct (map (\<lambda>c. (room_of c, cc_slot c)) (contributions db'))"
  using assms by (cases cs; force simp: added_def)+

lemma is_latest_keys:
  assumes "set (map proposal_key (proposals db')) = set (map proposal_key (proposals db))"
    and "proposal_key b = proposal_key a"
  shows "is_latest db' b = is_latest db a"
proof -
  have k: "is_latest d r \<longleftrightarrow> (\<forall>x\<in>set (map proposal_key (proposals d)). fst x = fst (proposal_key r) \<longrightarrow>
      snd x \<le> snd (proposal_key r))" for d :: "'x room_db_scheme" and r
    by (auto simp: is_latest_def proposal_key_def)
  show ?thesis unfolding k assms ..
qed

lemma is_latest_unique:
  assumes "is_latest db a" "is_latest db b" "a \<in> set (proposals db)" "b \<in> set (proposals db)"
    and "cp_code a = cp_code b" and "keys_unique db"
  shows "a = b"
proof -
  have "cp_version a = cp_version b" using assms(1-5) by (auto simp: is_latest_def intro: antisym)
  then have "proposal_key a = proposal_key b" using assms(5) by (simp add: proposal_key_def)
  then show ?thesis using assms(3,4,6) get_proposal_member[of db] by (metis option.inject)
qed

lemma replaced_rows:
  "r \<in> set (replace_row proposal_key b rs) \<Longrightarrow> r = b \<or> (r \<in> set rs \<and> proposal_key r \<noteq> proposal_key b)"
  by (auto simp: replace_row_def update_where_def split: if_split_asm)

lemma room_tx_latest:
  assumes "room_tx db db'" and ok: "room_ok db" and r: "r \<in> set (proposals db')"
    and o: "cp_status r \<in> set OPEN_STATUSES"
  shows "is_latest db' r"
proof -
  have old: "is_latest db x" if "x \<in> set (proposals db)" "cp_status x \<in> set OPEN_STATUSES" for x
    using ok that by (auto simp: room_ok_def row_ok_def)
  show ?thesis
    using assms(1)
  proof cases
    case idle
    then show ?thesis using old r o by (simp add: is_latest_def)
  next
    case (opened b cs)
    have "cp_code x \<noteq> cp_code b" if "x \<in> set (proposals db)" for x
    proof
      assume "cp_code x = cp_code b"
      then have "get_proposal db (proposal_key b) \<noteq> None"
        using ok that opened(1) by (auto simp: room_ok_def row_ok_def proposal_key_def)
      then show False using opened(2) by (simp add: new_version_def)
    qed
    then have "r \<in> set (proposals db) \<Longrightarrow> cp_code r \<noteq> cp_code b" and
      "\<forall>x\<in>set (proposals db). cp_code x \<noteq> cp_code b" by blast+
    then show ?thesis using opened(3) r o old[of r] by (auto simp: is_latest_def)
  next
    case (replaced a a' b cs)
    have l: "is_latest db a" and a: "a \<in> set (proposals db)" and s: "same_proposal a a'"
      using replaced(1) get_proposal_member[OF room_ok_keys[OF ok]] by (auto simp: room_change_def)
    note f = same_proposal_fields[OF s]
    have mem: "x = a' \<or> x = b \<or> x \<in> set (proposals db) \<and> proposal_key x \<noteq> proposal_key a"
      if "x \<in> set (proposals db')" for x
      using that replaced(7) replaced_rows[of x a' "proposals db"] f by auto
    have le: "cp_version x \<le> cp_version b" if "x \<in> set (proposals db')" "cp_code x = cp_code b" for x
      using mem[OF that(1)] that(2) l f replaced(3,4) by (auto simp: is_latest_def)
    consider "r = b" | "r \<in> set (proposals db)" "proposal_key r \<noteq> proposal_key a"
      using mem[OF r] o replaced(2) by (auto simp: OPEN_STATUSES_def)
    then show ?thesis
    proof cases
      case 1
      then show ?thesis using le by (simp add: is_latest_def)
    next
      case 2
      have lr: "is_latest db r" using old[OF 2(1) o] .
      have "cp_code r \<noteq> cp_code a"
        using is_latest_unique[OF lr l 2(1) a _ room_ok_keys[OF ok]] 2(2) by auto
      then show ?thesis using lr replaced(3) mem f unfolding is_latest_def by metis
    qed
  next
    case (changed a b cs)
    have a: "is_latest db a" and s: "same_proposal a b" using changed(1) by (auto simp: room_change_def)
    have ks: "set (map proposal_key (proposals db')) = set (map proposal_key (proposals db))"
      using changed(2) by simp
    have "is_latest db' b = is_latest db a" "is_latest db' r = is_latest db r"
      using is_latest_keys[OF ks] same_proposal_fields(9)[OF s] by blast+
    then show ?thesis
      using replaced_rows[of r b "proposals db"] r changed(2) a old o by auto
  qed
qed

lemma room_tx_ok:
  assumes tx: "room_tx db db'" and ok: "room_ok db"
  shows "room_ok db'"
proof -
  note u = room_tx_unique[OF tx ok]
  have kept: "get_proposal db' k \<noteq> None" if "get_proposal db k \<noteq> None" for k
    using room_tx_existing[OF tx ok] that by fastforce
  have row: "row_ok db' b" if "b \<in> set (proposals db')" for b
  proof -
    have b: "get_proposal db' (proposal_key b) = Some b" using get_proposal_member[OF u(1)] that by blast
    have l: "cp_status b \<in> set OPEN_STATUSES \<longrightarrow> is_latest db' b" using room_tx_latest[OF tx ok that] by blast
    show ?thesis
    proof (cases "get_proposal db (proposal_key b)")
      case (Some a)
      have a: "row_ok db a" and ka: "proposal_key a = proposal_key b"
        using room_ok_row[OF ok Some] get_proposal_key[OF Some] .
      have one: "get_proposal db' (cp_code b, 1) \<noteq> None"
        using kept[of "(cp_code b, 1)"] a ka by (simp add: row_ok_def proposal_key_def)
      have "row_step db a b db'" using room_tx_existing[OF tx ok Some] b by auto
      then have "proposal_typed b \<and> room_state b (entries db' b)"
        unfolding row_step_def
      proof
        assume "b = a \<and> set (entries db' a) = set (entries db a)"
        then show ?thesis using a room_state_cong[of "entries db' a" "entries db a" a] by (simp add: row_ok_def)
      qed (use room_change_row[OF _ ok] in blast)
      then show ?thesis using l one by (simp add: row_ok_def)
    next
      case None
      from room_tx_fresh[OF tx ok None b] obtain cs where n: "new_version db b cs"
        and c: "set (entries db' b) = set cs" "\<forall>c\<in>set cs. contribution_checks c"
        and v: "cp_version b = 1 \<or> (\<exists>a a'. room_change db a a' [] \<and> cp_code b = cp_code a \<and> cp_version b = cp_version a + 1)"
        by blast
      have "get_proposal db' (cp_code b, 1) \<noteq> None"
        using v
      proof
        assume "cp_version b = 1"
        then show ?thesis using b by (simp add: proposal_key_def)
      next
        assume "\<exists>a a'. room_change db a a' [] \<and> cp_code b = cp_code a \<and> cp_version b = cp_version a + 1"
        then obtain a where "get_proposal db (proposal_key a) = Some a" "cp_code b = cp_code a"
          by (auto simp: room_change_def)
        then show ?thesis using kept room_ok_row[OF ok] by (fastforce simp: row_ok_def)
      qed
      then show ?thesis using n new_version_state[OF n c] l by (simp add: row_ok_def new_version_def)
    qed
  qed
  have dist: "distinct (map cc_id (contributions db)) \<and> distinct (map (\<lambda>c. (room_of c, cc_slot c)) (contributions db))"
    and ex: "\<forall>c\<in>set (contributions db). get_proposal db' (room_of c) \<noteq> None \<and> readable (cc_payload c)"
    using ok kept by (auto simp: room_ok_def)
  have new: "get_proposal db' (proposal_key b) \<noteq> None"
    if "new_version db b cs \<and> b \<in> set (proposals db') \<or> room_change db a b cs" for a b cs
    using that
  proof
    assume "new_version db b cs \<and> b \<in> set (proposals db')"
    then show ?thesis using get_proposal_member[OF u(1)] by blast
  next
    assume c: "room_change db a b cs"
    then show ?thesis using kept[of "proposal_key a"] same_proposal_fields[of a b] by (auto simp: room_change_def)
  qed
  have add: ?thesis if "added db b cs db'" "get_proposal db' (proposal_key b) \<noteq> None" for b cs
    using that row u added_unique[OF that(1)] dist ex by (auto simp: room_ok_def added_def)
  show ?thesis
    using tx
  proof cases
    case idle
    then show ?thesis using row u dist ex by (simp add: room_ok_def)
  next
    case (opened b cs)
    then show ?thesis using add[OF opened(4)] new[of b cs] by simp
  next
    case (replaced a a' b cs)
    then show ?thesis using add[OF replaced(8)] new[of b cs] by simp
  next
    case (changed a b cs)
    then show ?thesis using add[OF changed(3)] new[of b cs a] by simp
  qed
qed

end
