(* ===== verification/RoomSteps.thy ===== *)
theory RoomSteps imports RoomInvariant begin

text \<open>
  Each operation of \<open>Coordination\<close>, taken apart: what a success says about its arguments and the row
  it acts on, and that its transaction has one of the shapes of \<open>room_tx\<close>. \<open>room_step\<close> is the step
  relation of the module, with everything else in the store free to change in between.
\<close>

section \<open>Answers\<close>

definition told :: "proposal_row \<Rightarrow> 'a room_db_scheme \<Rightarrow> room_view \<Rightarrow> 'a room_db_scheme \<Rightarrow> bool" where
  "told row db v db' \<longleftrightarrow>
     rv_row v = row \<and> proposals db' = proposals db \<and> contributions db' = contributions db"

lemma room_snapshot_row: "room_snapshot env db row viewer = Inr v \<Longrightarrow> rv_row v = row"
  by (auto simp: room_snapshot_def Let_def result_simps)

lemma room_tables_more:
  "live_db.more db' = live_db.more (db :: 'a room_db_scheme) \<Longrightarrow>
     proposals db' = proposals db \<and> contributions db' = contributions db \<and> events db' = events db"
  by (cases db; cases db') simp

lemma record_room_event_tables:
  "record_room_event env row action who db = Inr db' \<Longrightarrow>
     proposals db' = proposals db \<and> contributions db' = contributions db"
  unfolding record_room_event_def by (drule record_transition_Inr) auto

lemma told_finish:
  assumes "room_finish env row actor action db = Inr (v, db')"
  shows "told row db v db' \<and> room_snapshot env db' row (Some (s_id actor)) = Inr v"
proof -
  obtain r db1 where r: "require_live_session (pe_lease_cfg env) (pe_now env) True (Some (s_id actor)) db = Inr (r, db1)"
    and e: "record_room_event env row action (BySession (s_id actor)) db1 = Inr db'"
    and s: "room_snapshot env db' row (Some (s_id actor)) = Inr v"
    using assms by (auto simp: room_finish_def result_simps)
  then show ?thesis
    using require_live_frame[OF r] room_tables_more[of db1 db] record_room_event_tables[OF e] room_snapshot_row[OF s]
    by (auto simp: told_def)
qed

lemma told_answer:
  "room_answer env row actor db = Inr (v, db') \<Longrightarrow>
     told row db v db' \<and> db' = db \<and> room_snapshot env db row (Some (s_id actor)) = Inr v"
  by (auto simp: room_answer_def told_def result_simps dest: room_snapshot_row)

lemma operator_room_snapshot_view:
  "operator_room_snapshot env p w db row = Inr x \<Longrightarrow> room_snapshot env db row None = Inr (fst x)"
  by (auto simp: operator_room_snapshot_def Let_def result_simps)

lemma told_finish_operator:
  "room_finish_operator env p w row action db = Inr (x, db') \<Longrightarrow>
     told row db (fst x) db' \<and> room_snapshot env db' row None = Inr (fst x)"
  by (auto simp: room_finish_operator_def told_def result_simps
      dest!: record_room_event_tables operator_room_snapshot_view dest: room_snapshot_row)

lemma told_answer_operator:
  "room_answer_operator env p w row db = Inr (x, db') \<Longrightarrow>
     told row db (fst x) db' \<and> db' = db \<and> room_snapshot env db row None = Inr (fst x)"
  by (auto simp: room_answer_operator_def told_def result_simps
      dest!: operator_room_snapshot_view dest: room_snapshot_row)

lemmas told_intros = told_finish told_answer told_finish_operator told_answer_operator

lemma idle_told: "told row db v db' \<Longrightarrow> room_tx db db'"
  by (auto simp: told_def intro: room_tx.idle)

lemma dissenting_Inr:
  "dissenting cs = Inr ds \<Longrightarrow> (\<forall>c\<in>set cs. readable (cv_payload c)) \<and>
     ds = filter (\<lambda>c. dissent_text (cv_payload c) \<noteq> Inr []) cs"
  by (induction cs arbitrary: ds) (auto simp: result_simps readable_def)

lemma dissenting_readable: "\<forall>c\<in>set cs. readable (cv_payload c) \<Longrightarrow> \<exists>ds. dissenting cs = Inr ds"
  by (induction cs) (auto simp: readable_def)

lemma room_snapshot_readable:
  assumes "room_snapshot env db row viewer = Inr v" and "e \<in> set (entries db row)" and "shown row viewer e"
  shows "readable (cc_payload e)"
proof -
  obtain ds where "dissenting (map view_contribution (filter (shown row viewer) (entries db row))) = Inr ds"
    using assms(1) by (auto simp: room_snapshot_def Let_def bind_result_eq_Inr)
  from dissenting_Inr[OF this] assms(2,3) show ?thesis by (auto simp: view_contribution_def)
qed

lemma room_snapshot_total:
  assumes "\<forall>e\<in>set (entries db row). readable (cc_payload e)"
  shows "\<exists>v. room_snapshot env db row viewer = Inr v"
proof -
  have "\<forall>c\<in>set (map view_contribution (filter (shown row viewer) (entries db row))). readable (cv_payload c)"
    using assms by (auto simp: view_contribution_def)
  then obtain ds where "dissenting (map view_contribution (filter (shown row viewer) (entries db row))) = Inr ds"
    using dissenting_readable by blast
  then show ?thesis by (simp add: room_snapshot_def Let_def)
qed

section \<open>Changes of the latest version\<close>

lemma append_contribution_Inr:
  assumes "append_contribution env row author kind payload round key db = Inr db1"
  shows "\<exists>c. db1 = db\<lparr>contributions := contributions db @ [c]\<rparr> \<and> cc_author c = author \<and> cc_kind c = kind \<and>
    cc_payload c = payload \<and> cc_round c = round \<and> cc_idempotency_key c = key \<and>
    room_of c = proposal_key row \<and> (readable payload \<longrightarrow> added db row [c] db1)"
  using assms
  by (auto simp: append_contribution_def insert_contribution_def added_def room_of_def proposal_key_def
      same_room_def split: if_split_asm)

lemma room_cas_stored:
  assumes u: "keys_unique db" and a: "get_proposal db (proposal_key row) = Some row"
    and f: "\<And>r. proposal_key (f r) = proposal_key r"
    and c: "room_cas now row f db = Inr (row1, db1)"
  shows "row1 = (f row)\<lparr>cp_revision := cp_revision row + 1, cp_updated_at := now\<rparr>" "proposal_checks row1"
    "db1 = db\<lparr>proposals := replace_row proposal_key row1 (proposals db)\<rparr>"
  using room_cas_Inr[OF u f c] a by auto

lemma readable_hash: "readable (spec_hash_json h)"
  by (simp add: readable_def spec_hash_json_def dissent_text_def)

text \<open>The row handed to a mutation is the stored latest version.\<close>

definition current :: "'a room_db_scheme \<Rightarrow> proposal_row \<Rightarrow> bool" where
  "current db row \<longleftrightarrow> get_proposal db (proposal_key row) = Some row \<and> is_latest db row"

lemma room_ok_get: "room_ok db \<Longrightarrow> get_proposal db (proposal_key r) = Some r \<longleftrightarrow> r \<in> set (proposals db)"
  using get_proposal_member[OF room_ok_keys, of db "proposal_key r" r] by blast

lemma current_latest: "room_ok db \<Longrightarrow> latest_proposal db c = Some row \<Longrightarrow> current db row"
  using latest_proposal_Some[of db c row] by (simp add: current_def room_ok_get)

lemma proposal_current: "room_ok db \<Longrightarrow> proposal db code actor w p = Inr row \<Longrightarrow> current db row"
  by (elim proposal_latest) (rule current_latest)

lemma change_of_cas:
  assumes ok: "room_ok db" and a: "current db row"
    and d: "proposals d = proposals db" and c: "room_cas now row f d = Inr (row1, d1)"
    and f: "\<And>r. proposal_key (f r) = proposal_key r" "same_proposal row (f row)"
    and w: "cp_status (f row) = RCancelled \<longleftrightarrow> cp_cancellation_reason (f row) \<noteq> None"
    and ev: "\<And>b. room_phase b = room_phase (f row) \<Longrightarrow> room_event row (entries db row) b cs"
  shows "room_change db row row1 cs" "proposals d1 = replace_row proposal_key row1 (proposals db)"
    "contributions d1 = contributions d" "cp_status row1 = cp_status (f row)" "same_proposal row row1"
proof -
  have u: "keys_unique d" and g: "get_proposal d (proposal_key row) = Some row"
    using ok a d by (simp_all add: keys_unique_def room_ok_def current_def get_proposal_def)
  note r = room_cas_stored[OF u g f(1) c]
  have s: "same_proposal row row1"
    using f(2) unfolding r(1) by (simp add: same_proposal_def)
  show "room_change db row row1 cs"
    using a w s r(2) ev[of row1] unfolding room_change_def current_def
    by (auto simp: r(1) room_phase_def)
  show "proposals d1 = replace_row proposal_key row1 (proposals db)" "contributions d1 = contributions d"
    "cp_status row1 = cp_status (f row)" "same_proposal row row1"
    using r(1,3) d s by simp_all
qed

lemma changed_tx:
  assumes "room_ok db" and "current db row" and "added db row cs d" and "proposals d = proposals db"
    and "room_cas now row f d = Inr (row1, d1)"
    and "\<And>r. proposal_key (f r) = proposal_key r" "same_proposal row (f row)"
    and "cp_status (f row) = RCancelled \<longleftrightarrow> cp_cancellation_reason (f row) \<noteq> None"
    and "\<And>b. room_phase b = room_phase (f row) \<Longrightarrow> room_event row (entries db row) b cs"
    and t: "told row1 d1 v db'"
  shows "room_tx db db'"
proof -
  note c = change_of_cas[OF assms(1,2,4,5,6,7,8,9)]
  have "proposal_key row1 = proposal_key row" using same_proposal_fields(9)[OF c(5)] .
  then have "added db row1 cs db'" using assms(3) c(3) t by (simp add: added_def told_def)
  then show ?thesis using room_tx.changed[OF c(1)] c(2) t by (simp add: told_def)
qed

lemma current_typed: "room_ok db \<Longrightarrow> current db row \<Longrightarrow> proposal_typed row"
  by (auto simp: current_def room_ok_get room_ok_def row_ok_def)

lemma open_reason: "proposal_typed r \<Longrightarrow> cp_status r \<in> set OPEN_STATUSES \<Longrightarrow> cp_cancellation_reason r = None"
  by (auto simp: proposal_typed_def OPEN_STATUSES_def)

section \<open>Accepting, submitting, advancing, cancelling\<close>

lemma accept_coordination_Inr:
  assumes "accept_coordination env p code sid version expected h db = Inr (v, db')"
  obtains actor w row where "room_transaction env p sid db = Inr (actor, w)"
    "proposal db code (Some actor) w p = Inr row" "version = PInt (cp_version row)"
    "expected = PInt (cp_revision row)" "h = PStr (cp_specification_hash row)"
    "pe_now env < cp_deadline_at row" "cp_status row \<in> set OPEN_STATUSES"
    "(s_id actor \<in> acceptors (entries db row) \<and> room_answer env row actor db = Inr (v, db')) \<or>
     (s_id actor \<notin> acceptors (entries db row) \<and> cp_status row = RPlanned \<and>
      (\<exists>db1 row1 db2. append_contribution env row (s_id actor) KAccept
           (spec_hash_json (cp_specification_hash row)) 0 None db = Inr db1 \<and>
         room_cas (pe_now env) row (\<lambda>r. r\<lparr>cp_status := (if insert (s_id actor) (acceptors (entries db row)) = members_of row
            then RAccepted else RPlanned)\<rparr>) db1 = Inr (row1, db2) \<and>
         room_finish env row1 actor ''accepted'' db2 = Inr (v, db')))"
  using assms unfolding accept_coordination_def Let_def
  by (auto simp: result_simps room_revision_def room_open_def split: if_split_asm)

lemma same_status: "same_proposal r (r\<lparr>cp_status := s\<rparr>)" "proposal_key (r\<lparr>cp_status := s\<rparr>) = proposal_key r"
  by (simp_all add: same_proposal_def proposal_key_def)

lemma accept_room_tx:
  assumes ok: "room_ok db" and op: "accept_coordination env p code sid version expected h db = Inr (v, db')"
  shows "room_tx db db'"
  using op
proof (elim accept_coordination_Inr disjE)
  fix actor :: session_row and row
  assume "s_id actor \<in> acceptors (entries db row) \<and> room_answer env row actor db = Inr (v, db')"
  then show ?thesis by (auto dest!: told_intros intro: idle_told)
next
  fix actor :: session_row and w row
  let ?s = "if insert (s_id actor) (acceptors (entries db row)) = members_of row then RAccepted else RPlanned"
  assume row: "proposal db code (Some actor) w p = Inr row"
    and "s_id actor \<notin> acceptors (entries db row) \<and> cp_status row = RPlanned \<and>
      (\<exists>db1 row1 db2. append_contribution env row (s_id actor) KAccept
           (spec_hash_json (cp_specification_hash row)) 0 None db = Inr db1 \<and>
         room_cas (pe_now env) row (\<lambda>r. r\<lparr>cp_status := ?s\<rparr>) db1 = Inr (row1, db2) \<and>
         room_finish env row1 actor ''accepted'' db2 = Inr (v, db'))"
  then obtain db1 row1 db2 where st: "cp_status row = RPlanned"
    and a: "append_contribution env row (s_id actor) KAccept (spec_hash_json (cp_specification_hash row)) 0 None db = Inr db1"
    and c: "room_cas (pe_now env) row (\<lambda>r. r\<lparr>cp_status := ?s\<rparr>) db1 = Inr (row1, db2)"
    and t: "told row1 db2 v db'"
    by (auto dest!: told_finish)
  from append_contribution_Inr[OF a] obtain x where x: "db1 = db\<lparr>contributions := contributions db @ [x]\<rparr>"
    "cc_author x = s_id actor" "cc_kind x = KAccept" "cc_payload x = spec_hash_json (cp_specification_hash row)"
    "added db row [x] db1" using readable_hash by blast
  have m: "s_id actor \<in> members_of row" using row by (auto elim: proposal_latest)
  note cur = proposal_current[OF ok row]
  have p: "proposals db1 = proposals db" using x(1) by simp
  show ?thesis
  proof (rule changed_tx[OF ok cur x(5) p c _ _ _ _ t])
    show "(cp_status (row\<lparr>cp_status := ?s\<rparr>) = RCancelled) = (cp_cancellation_reason (row\<lparr>cp_status := ?s\<rparr>) \<noteq> None)"
      using open_reason[OF current_typed[OF ok cur]] st by (simp add: OPEN_STATUSES_def)
    show "room_event row (entries db row) b [x]" if "room_phase b = room_phase (row\<lparr>cp_status := ?s\<rparr>)" for b
      using that st x m by (intro room_event.acknowledge) (simp_all add: room_phase_def)
  qed (rule same_status)+
qed

lemma store_contribution_Inr:
  assumes "store_contribution env row actor kind payload key db = Inr (v, db')"
  obtains round db1 row1 db2 where "pe_now env < cp_deadline_at row" "cp_status row \<in> set OPEN_STATUSES"
    "submission_round row (entries db row) (s_id actor) kind = Inr round"
    "may_submit row (s_id actor) kind round = Inr ()"
    "append_contribution env row (s_id actor) kind payload round (Some key) db = Inr db1"
    "room_cas (pe_now env) row (\<lambda>r. if kind = KFinal then r\<lparr>cp_status := RCompleted\<rparr> else r) db1 = Inr (row1, db2)"
    "room_finish env row1 actor ''submitted'' db2 = Inr (v, db')"
  using assms unfolding store_contribution_def Let_def
  by (auto simp: result_simps room_open_def split: if_split_asm)

text \<open>A final whose dissent is no text is refused by the snapshot that would show it.\<close>

lemma final_readable:
  assumes ok: "room_ok db" and cur: "current db row" and k: "kind = KFinal"
    and op: "store_contribution env row actor kind payload key db = Inr (v, db')"
  shows "readable payload"
  using op
proof (elim store_contribution_Inr)
  fix round db1 row1 db2
  let ?f = "\<lambda>r. if kind = KFinal then r\<lparr>cp_status := RCompleted\<rparr> else r"
  assume ms: "may_submit row (s_id actor) kind round = Inr ()"
    and a: "append_contribution env row (s_id actor) kind payload round (Some key) db = Inr db1"
    and c: "room_cas (pe_now env) row ?f db1 = Inr (row1, db2)"
    and f: "room_finish env row1 actor ''submitted'' db2 = Inr (v, db')"
  from append_contribution_Inr[OF a] obtain x where x: "db1 = db\<lparr>contributions := contributions db @ [x]\<rparr>"
    "cc_kind x = kind" "cc_payload x = payload" and x': "room_of x = proposal_key row" by blast
  have row: "row \<in> set (proposals db)" using cur ok by (simp add: current_def room_ok_get)
  have "cp_status row = RDiscussing" using ms k by (auto simp: may_submit_def final_ready_def Let_def split: if_split_asm)
  then have cl: "cp_initial_closed row" using ok row by (auto simp: room_ok_def row_ok_def room_state_def)
  have "keys_unique db1" "get_proposal db1 (proposal_key row) = Some row"
    using ok x(1) cur by (simp_all add: room_ok_def keys_unique_def current_def get_proposal_def)
  note r = room_cas_stored[OF this _ c]
  have key: "proposal_key (?f r) = proposal_key r" for r by (simp add: proposal_key_def)
  have "proposal_key row1 = proposal_key row" "cp_initial_closed row1"
    using r(1)[OF key] k cl by (simp_all add: proposal_key_def)
  moreover have "x \<in> set (contributions db')"
    using told_finish[OF f] r(3)[OF key] x(1) by (simp add: told_def)
  ultimately have "x \<in> set (entries db' row1)" "shown row1 (Some (s_id actor)) x"
    using x' x(2) k by (simp_all add: entries_mem shown_def)
  then show ?thesis
    using room_snapshot_readable told_finish[OF f] x(3) by blast
qed

lemma store_contribution_tx:
  assumes ok: "room_ok db" and cur: "current db row" and k: "kind \<noteq> KAccept"
    and rd: "kind \<noteq> KFinal \<Longrightarrow> readable payload"
    and op: "store_contribution env row actor kind payload key db = Inr (v, db')"
  shows "room_tx db db'"
  using op
proof (elim store_contribution_Inr)
  fix round db1 row1 db2
  let ?f = "\<lambda>r. if kind = KFinal then r\<lparr>cp_status := RCompleted\<rparr> else r"
  assume st: "cp_status row \<in> set OPEN_STATUSES"
    and sr: "submission_round row (entries db row) (s_id actor) kind = Inr round"
    and ms: "may_submit row (s_id actor) kind round = Inr ()"
    and a: "append_contribution env row (s_id actor) kind payload round (Some key) db = Inr db1"
    and c: "room_cas (pe_now env) row ?f db1 = Inr (row1, db2)"
    and "room_finish env row1 actor ''submitted'' db2 = Inr (v, db')"
  then have t: "told row1 db2 v db'" by (auto dest!: told_finish)
  have "readable payload" using rd final_readable[OF ok cur _ op] by blast
  then obtain x where x: "db1 = db\<lparr>contributions := contributions db @ [x]\<rparr>"
    "cc_author x = s_id actor" "cc_kind x = kind" "cc_round x = round" "added db row [x] db1"
    using append_contribution_Inr[OF a] by blast
  have p: "proposals db1 = proposals db" using x(1) by simp
  show ?thesis
  proof (rule changed_tx[OF ok cur x(5) p c _ _ _ _ t])
    show "proposal_key (?f r) = proposal_key r" for r by (simp add: proposal_key_def)
    show "same_proposal row (?f row)" by (simp add: same_proposal_def)
    show "(cp_status (?f row) = RCancelled) = (cp_cancellation_reason (?f row) \<noteq> None)"
      using open_reason[OF current_typed[OF ok cur] st] st by (auto simp: OPEN_STATUSES_def)
    show "room_event row (entries db row) b [x]" if "room_phase b = room_phase (?f row)" for b
    proof (cases kind)
      case KAccept
      then show ?thesis using k by simp
    next
      case KInitial
      then show ?thesis
        using that ms x by (intro room_event.submit_initial)
          (simp_all add: may_submit_def Let_def split: if_split_asm)
    next
      case KDiscussion
      then show ?thesis
        using that ms sr x by (intro room_event.submit_discussion)
          (auto simp: may_submit_def submission_round_def Let_def split: if_split_asm exchange_mode.split_asm)
    next
      case KFinal
      then show ?thesis
        using that ms x by (intro room_event.conclude)
          (auto simp: may_submit_def room_phase_def Let_def split: if_split_asm)
    qed
  qed
qed

lemma find_SomeD: "find P xs = Some x \<Longrightarrow> x \<in> set xs \<and> P x"
  by (auto simp: find_Some_iff)

lemma submit_coordination_Inr:
  assumes "submit_coordination env p code kind payload sid version expected key db = Inr (v, db')"
  obtains actor w row kd k body where "room_transaction env p sid db = Inr (actor, w)"
    "proposal db code (Some actor) w p = Inr row" "version = PInt (cp_version row)"
    "expected = PInt (cp_revision row)" "kind_arg kind = Inr kd" "payload_arg kd payload = Inr body"
    "(room_answer env row actor db = Inr (v, db') \<and> (\<exists>e\<in>set (entries db row).
        cc_author e = s_id actor \<and> cc_idempotency_key e = Some k \<and> cc_request_hash e = contribution_hash env kd body)) \<or>
     store_contribution env row actor kd body k db = Inr (v, db')" "key = PStr k"
proof -
  from assms show ?thesis
    unfolding submit_coordination_def Let_def
    by (auto simp: result_simps room_revision_def dest!: find_SomeD intro: that split: if_split_asm option.split_asm)
qed

lemma kind_arg_Inr: "kind_arg v = Inr k \<Longrightarrow> k \<noteq> KAccept"
  by (auto simp: kind_arg_def split: if_split_asm)

text \<open>The dissent of any other contribution is a required text.\<close>

lemma payload_readable:
  assumes "payload_arg kd v = Inr body" and "kd \<noteq> KFinal"
  shows "readable body"
proof -
  obtain d req opt where r: "map_result (\<lambda>f. bind_result (text_arg f PAYLOAD_LIMIT (f = ''evidence'') (get_or d f PNone))
        (\<lambda>s. Inr (lit f, JStr s))) (payload_fields kd) = (Inr req :: _ room_result)"
    and o: "map_result (optional_payload kd d) (payload_options kd) = Inr opt"
    and body: "body = JDict (sort_key fst (req @ concat opt))"
    using assms(1) by (auto simp: payload_arg_def Let_def bind_result_eq_Inr split: pyval.split_asm if_split_asm)
  have str: "\<exists>s. j = JStr s" if "(lit ''dissent'', j) \<in> set req" for j
    using r that assms(2) by (auto simp: payload_fields_def bind_result_eq_Inr)
  have "(lit ''dissent'', j) \<notin> set (concat opt)" for j
    using o assms(2) by (auto simp: payload_options_def bind_result_eq_Inr optional_payload_def split: option.split_asm)
  then have "map_of (sort_key fst (req @ concat opt)) (lit ''dissent'') = Some j \<Longrightarrow> \<exists>s. j = JStr s" for j
    using str by (auto dest!: map_of_SomeD)
  then show ?thesis
    unfolding readable_def body dissent_text_def
    by (cases "map_of (sort_key fst (req @ concat opt)) (lit ''dissent'')") auto
qed

lemma submit_room_tx:
  assumes ok: "room_ok db" and op: "submit_coordination env p code kind payload sid version expected key db = Inr (v, db')"
  shows "room_tx db db'"
  using op
  by (elim submit_coordination_Inr disjE)
     (auto dest!: told_answer intro: room_tx.idle store_contribution_tx[OF ok] proposal_current[OF ok]
        dest: kind_arg_Inr payload_readable)

lemma advance_room_tx:
  assumes ok: "room_ok db" and cur: "current db row"
    and op: "advance_room env p w operator row db = Inr (row1, db1)" and t: "told row1 db1 v db'"
  shows "room_tx db db'"
proof -
  have nb: "advance_blocked (pe_now env) row (entries db row) = None"
    and c: "room_cas (pe_now env) row (advanced_row row) db = Inr (row1, db1)"
    using op by (auto simp: advance_room_def result_simps split: option.split_asm)
  show ?thesis
  proof (rule changed_tx[OF ok cur added_none[OF refl] refl c _ _ _ _ t])
    show "proposal_key (advanced_row row r) = proposal_key r" for r
      by (simp add: advanced_row_def Let_def proposal_key_def split: exchange_mode.split)
    show "same_proposal row (advanced_row row row)"
      by (simp add: advanced_row_def Let_def same_proposal_def split: exchange_mode.split)
    have o: "cp_status row \<in> set OPEN_STATUSES" using nb by (auto simp: advance_blocked_def Let_def split: if_split_asm)
    show "(cp_status (advanced_row row row) = RCancelled) = (cp_cancellation_reason (advanced_row row row) \<noteq> None)"
      using open_reason[OF current_typed[OF ok cur] o] o
      by (auto simp: advanced_row_def Let_def OPEN_STATUSES_def split: exchange_mode.split)
    show "room_event row (entries db row) b []" if b: "room_phase b = room_phase (advanced_row row row)" for b
    proof (cases "cp_status row")
      case RAccepted
      then show ?thesis using nb b
        by (intro room_event.collect)
           (auto simp: advance_blocked_def advanced_row_def Let_def room_phase_def split: if_split_asm)
    next
      case RCollecting
      then show ?thesis using nb b
        by (intro room_event.close_initial)
           (auto simp: advance_blocked_def advanced_row_def Let_def room_phase_def split: if_split_asm)
    next
      case RDiscussing
      show ?thesis
      proof (cases "mode_of row")
        case ByRounds
        then show ?thesis using nb b RDiscussing
          by (intro room_event.next_round)
             (auto simp: advance_blocked_def advanced_row_def Let_def room_phase_def split: if_split_asm)
      next
        case Threaded
        then show ?thesis using nb b RDiscussing
          by (intro room_event.close_thread)
             (auto simp: advance_blocked_def advanced_row_def Let_def room_phase_def split: if_split_asm)
      qed
    qed (use nb o in \<open>auto simp: advance_blocked_def Let_def OPEN_STATUSES_def split: if_split_asm\<close>)
  qed
qed

lemma cancel_room_tx:
  assumes ok: "room_ok db" and cur: "current db row"
    and op: "cancel_room env row reason db = Inr (Some (row1, db1))" and t: "told row1 db1 v db'"
  shows "room_tx db db'"
proof -
  obtain why where o: "cp_status row \<in> set OPEN_STATUSES"
    and c: "room_cas (pe_now env) row (\<lambda>r. r\<lparr>cp_status := RCancelled, cp_cancellation_reason := Some why\<rparr>) db
      = Inr (row1, db1)"
    using op by (auto simp: cancel_room_def result_simps split: if_split_asm)
  show ?thesis
    by (rule changed_tx[OF ok cur added_none[OF refl] refl c _ _ _ _ t])
       (use o in \<open>simp_all add: proposal_key_def same_proposal_def room_phase_def room_event.cancel\<close>)
qed

lemma advance_coordination_Inr:
  assumes "advance_coordination env p code sid version expected db = Inr (v, db')"
  obtains actor w row row1 db1 where "room_transaction env p sid db = Inr (actor, w)"
    "proposal db code (Some actor) w p = Inr row" "Some (s_id actor) = cp_creator_session_id row"
    "version = PInt (cp_version row)" "expected = PInt (cp_revision row)"
    "advance_room env p w False row db = Inr (row1, db1)" "told row1 db1 v db'"
    "room_snapshot env db' row1 (Some (s_id actor)) = Inr v"
  using assms unfolding advance_coordination_def
  by (auto simp: result_simps room_revision_def dest!: told_intros split: if_split_asm)

lemma advance_operator_Inr:
  assumes "advance_operator_coordination env p ws code version expected db = Inr (x, db')"
  obtains w row row1 db1 where "operator_transaction env p True ws db = Inr w"
    "proposal db code None w p = Inr row"
    "version = PInt (cp_version row)" "expected = PInt (cp_revision row)"
    "advance_room env p w True row db = Inr (row1, db1)" "told row1 db1 (fst x) db'"
    "room_snapshot env db' row1 None = Inr (fst x)"
  using assms unfolding advance_operator_coordination_def
  by (auto simp: result_simps room_revision_def dest!: told_intros split: if_split_asm)

lemma cancel_coordination_Inr:
  assumes "cancel_coordination env p code reason sid version expected db = Inr (v, db')"
  obtains actor w row row1 db1 where "room_transaction env p sid db = Inr (actor, w)"
    "proposal db code (Some actor) w p = Inr row" "Some (s_id actor) = cp_creator_session_id row"
    "version = PInt (cp_version row)" "expected = PInt (cp_revision row)" "told row1 db1 v db'"
    "room_snapshot env db' row1 (Some (s_id actor)) = Inr v"
    "(row1 = row \<and> db1 = db) \<or> cancel_room env row reason db = Inr (Some (row1, db1))"
  using assms unfolding cancel_coordination_def
  by (auto simp: result_simps room_revision_def dest!: told_intros split: if_split_asm option.split_asm)

lemma cancel_operator_room_Inr:
  assumes "cancel_operator_coordination env p ws code reason version expected db = Inr (x, db')"
  obtains w row row1 db1 where "operator_transaction env p True ws db = Inr w"
    "proposal db code None w p = Inr row"
    "version = PInt (cp_version row)" "expected = PInt (cp_revision row)" "told row1 db1 (fst x) db'"
    "room_snapshot env db' row1 None = Inr (fst x)"
    "(row1 = row \<and> db1 = db) \<or> cancel_room env row reason db = Inr (Some (row1, db1))"
  using assms unfolding cancel_operator_coordination_def
  by (auto simp: result_simps room_revision_def dest!: told_intros split: if_split_asm option.split_asm)

section \<open>Proposing\<close>

lemma participants_arg_Inr:
  assumes "participants_arg v = Inr ps"
  shows "length ps \<in> {2..8} \<and> distinct (map pt_session_id ps)"
proof -
  obtain vs qs where v: "2 \<le> length vs" "length vs \<le> 8" and q: "map_result participant_arg vs = Inr qs"
    and d: "distinct (map pt_session_id qs)" and p: "ps = sort_key pt_session_id qs"
    using assms by (auto simp: participants_arg_def result_simps split: pyval.split_asm if_split_asm)
  have "card (set (map pt_session_id qs)) = length qs" using distinct_card[OF d] by simp
  then have "distinct (map pt_session_id ps)" using p by (intro card_distinct) simp
  then show ?thesis using v p map_result_length[OF q] by simp
qed

lemma room_specification_Inr:
  assumes "room_specification env v req = Inr sp"
  shows "rs_discussion_rounds sp \<in> {0..3} \<and> rs_max_turns sp \<in> {1..3} \<and>
     length (rs_participants sp) \<in> {2..8} \<and> distinct (map pt_session_id (rs_participants sp))"
  using assms unfolding room_specification_def Let_def
  by (auto simp: bind_result_eq_Inr int_arg_Inr dest!: participants_arg_Inr split: pyval.split_asm if_split_asm)

lemma stored_participants:
  "map_result (stored_participant env p w db) ps = Inr qs \<Longrightarrow>
     map pt_session_id qs = map pt_session_id ps \<and> (\<forall>q\<in>set qs. pt_tool q \<noteq> None)"
  by (induction ps arbitrary: qs) (auto simp: stored_participant_def result_simps)

lemma stored_specification_Inr:
  assumes "room_specification env v req = Inr sp" and "stored_specification env p w db sp due = Inr st"
  shows "spec_typed st \<and> rs_deadline st = Some due \<and> rs_result_owner st = rs_result_owner sp"
proof -
  obtain ps where ps: "map_result (stored_participant env p w db) (rs_participants sp) = Inr ps"
    and st: "st = sp\<lparr>rs_participants := ps, rs_deadline := Some due\<rparr>"
    using assms(2) by (auto simp: stored_specification_def Let_def bind_result_eq_Inr)
  have "map pt_session_id ps = map pt_session_id (rs_participants sp)" "\<forall>q\<in>set ps. pt_tool q \<noteq> None"
    using stored_participants[OF ps] by auto
  then show ?thesis
    using room_specification_Inr[OF assms(1)] st map_result_length[OF ps] by (simp add: spec_typed_def)
qed

lemma room_deadline_Inr:
  "room_deadline env sp = Inr d \<Longrightarrow> pe_now env < d \<and> d \<le> pe_now env + seconds (MAX_DEADLINE_DAYS * 86400)"
  by (auto simp: room_deadline_def bind_result_eq_Inr split: if_split_asm)

lemma new_proposal_typed:
  assumes "spec_typed st" "rs_deadline st = Some due" and "room_deadline env sp = Inr due"
    and "1 \<le> version" "0 \<le> revision" "kind = RoomBySession \<longleftrightarrow> creator \<noteq> None"
  shows "proposal_typed (new_proposal env w oid kind creator title key hash st due code version revision)"
  using assms room_deadline_Inr[OF assms(3)]
  by (simp add: proposal_typed_def new_proposal_def proposal_checks_def)

lemma insert_proposal_Inr:
  "insert_proposal row db = Inr db' \<Longrightarrow>
     get_proposal db (proposal_key row) = None \<and> creation_key row \<notin> creation_key ` set (proposals db) \<and>
     db' = db\<lparr>proposals := proposals db @ [row]\<rparr>"
  by (auto simp: insert_proposal_def get_proposal_def row_by_None image_iff split: if_split_asm)

lemma store_proposal_tx:
  assumes ok: "room_ok db" and old: "\<And>o1. old = Some o1 \<Longrightarrow> current db o1"
    and sp: "room_specification env spec req = Inr sp"
    and op: "store_proposal env p w actor title key hash sp old db = Inr (v, db')"
  shows "room_tx db db'"
proof -
  obtain due st code version revision db1 db2 db3 row where
    o: "\<And>o1. old = Some o1 \<Longrightarrow> cp_status o1 \<in> set OPEN_STATUSES"
    and due: "room_deadline env sp = Inr due" and st: "stored_specification env p w db sp due = Inr st"
    and v: "(case old of
         None \<Rightarrow> Inr (lit ''PC-'' @ pe_uuid env, 1, 0, db)
       | Some o1 \<Rightarrow> bind_result (room_cas (pe_now env) o1 (\<lambda>r. r\<lparr>cp_status := RCancelled,
             cp_cancellation_reason := Some (lit ''superseded by a new version'')\<rparr>) db)
           (\<lambda>(o2, db1). Inr (cp_code o2, cp_version o2 + 1, cp_revision o2 + 1, db1))) =
       (Inr (code, version, revision, db1) :: (pystr \<times> int \<times> int \<times> 'a room_db_scheme) room_result)"
    and row: "row = new_proposal env w (the (operator_id p)) RoomBySession (Some (s_id actor)) title key hash
       st due code version revision"
    and i: "insert_proposal row db1 = Inr db2"
    and a: "append_contribution env row (s_id actor) KAccept (spec_hash_json (cp_specification_hash row)) 0 None db2 = Inr db3"
    and t: "told row db3 v db'"
    using op unfolding store_proposal_def Let_def
    by (auto simp: bind_result_eq_Inr room_open_def dest!: told_finish split: if_split_asm option.split_asm)
  note s = stored_specification_Inr[OF sp st]
  have ty: "proposal_typed row" if "1 \<le> version" "0 \<le> revision"
    unfolding row using s due that by (intro new_proposal_typed[where sp = sp]) auto
  from append_contribution_Inr[OF a] obtain x where x: "db3 = db2\<lparr>contributions := contributions db2 @ [x]\<rparr>"
    "cc_author x = s_id actor" "cc_kind x = KAccept" "cc_payload x = spec_hash_json (cp_specification_hash row)"
    "added db2 row [x] db3" using readable_hash by blast
  note n = insert_proposal_Inr[OF i]
  have f: "cp_version row = version" "cp_code row = code" "cp_revision row = revision"
    "room_phase row = (RPlanned, 0, False)" "cp_creator_session_id row = Some (s_id actor)"
    unfolding row by (simp_all add: new_proposal_def room_phase_def)
  have add: "added db row [x] db'" if "contributions db1 = contributions db"
    using x(1,5) n t that by (simp add: added_def told_def)
  show ?thesis
  proof (cases old)
    case None
    then have "db1 = db" "version = 1" "revision = 0" using v by auto
    then show ?thesis
      using n t x ty add f by (intro room_tx.opened[of row db "[x]"]) (auto simp: new_version_def told_def)
  next
    case (Some o1)
    let ?f = "\<lambda>r. r\<lparr>cp_status := RCancelled, cp_cancellation_reason := Some (lit ''superseded by a new version'')\<rparr>"
    obtain o2 where c: "room_cas (pe_now env) o1 ?f db = Inr (o2, db1)"
      and k: "code = cp_code o2" "version = cp_version o2 + 1" "revision = cp_revision o2 + 1"
      using v Some by (auto simp: bind_result_eq_Inr)
    have ch: "room_change db o1 o2 []" "proposals db1 = replace_row proposal_key o2 (proposals db)"
      "contributions db1 = contributions db" "cp_status o2 = RCancelled" "same_proposal o1 o2"
      using change_of_cas[OF ok old[OF Some] refl c, of "[]"] o[OF Some]
      by (simp_all add: proposal_key_def same_proposal_def room_phase_def room_event.cancel)
    note sf = same_proposal_fields[OF ch(5)]
    have o1: "proposal_typed o1" "o1 \<in> set (proposals db)" "get_proposal db (proposal_key o1) = Some o1"
      using current_typed[OF ok old[OF Some]] old[OF Some] ok by (auto simp: current_def room_ok_get)
    have rev2: "cp_revision o2 = cp_revision o1 + 1" using ch(1) by (simp add: room_change_def)
    have "1 \<le> version" "0 \<le> revision"
      using o1(1) k rev2 sf by (auto simp: proposal_typed_def proposal_checks_def)
    moreover have "get_proposal db (proposal_key row) = None"
      using n get_proposal_replace[OF ch(2), of "proposal_key row"] by (auto split: if_split_asm)
    moreover have "creation_key ` set (proposals db) \<subseteq> creation_key ` set (proposals db1)"
    proof (intro subsetI, elim imageE)
      fix y r assume r: "y = creation_key r" "r \<in> set (proposals db)"
      show "y \<in> creation_key ` set (proposals db1)"
      proof (cases "proposal_key r = proposal_key o2")
        case True
        then have "r = o1" using r(2) o1 sf room_ok_get[OF ok, of r] by simp
        then have "y = creation_key o2" using r sf by simp
        moreover have "o2 \<in> set (proposals db1)"
          using r True ch(2) by (auto simp: replace_row_def update_where_def)
        ultimately show ?thesis by blast
      next
        case False
        then have "r \<in> set (proposals db1)" using r ch(2) by (auto simp: replace_row_def update_where_def)
        then show ?thesis using r by blast
      qed
    qed
    ultimately have "new_version db row [x]"
      using n x ty f by (auto simp: new_version_def)
    moreover have "proposals db' = replace_row proposal_key o2 (proposals db) @ [row]"
      using n x t ch(2) by (simp add: told_def)
    ultimately show ?thesis
      using k rev2 sf f by (intro room_tx.replaced[OF ch(1,4) _ _ _ _ _ add[OF ch(3)]]) auto
  qed
qed

lemma store_operator_proposal_tx:
  assumes sp: "room_specification env spec req = Inr sp"
    and op: "store_operator_proposal env p w title key hash sp db = Inr (v, db')"
  shows "room_tx db db'"
proof -
  obtain due st row db1 where due: "room_deadline env sp = Inr due" and st: "stored_specification env p w db sp due = Inr st"
    and row: "row = new_proposal env w (the (operator_id p)) RoomByOperator None title key hash
       st due (lit ''PC-'' @ pe_uuid env) 1 0"
    and i: "insert_proposal row db = Inr db1" and t: "told row db1 (fst v) db'"
    using op unfolding store_operator_proposal_def Let_def
    by (auto simp: bind_result_eq_Inr dest!: told_finish_operator)
  note s = stored_specification_Inr[OF sp st]
  have "proposal_typed row"
    unfolding row using s due by (intro new_proposal_typed[where sp = sp]) auto
  moreover have "cp_version row = 1" "room_phase row = (RPlanned, 0, False)" "cp_creator_session_id row = None"
    unfolding row by (simp_all add: new_proposal_def room_phase_def)
  ultimately show ?thesis
    using insert_proposal_Inr[OF i] t
    by (intro room_tx.opened[of row db "[]"]) (auto simp: new_version_def told_def added_def)
qed

lemma replaced_proposal_Inr:
  assumes "replaced_proposal db code expected actor w p = Inr old"
  shows "case old of None \<Rightarrow> code = None \<and> expected = PNone
    | Some o1 \<Rightarrow> (\<exists>c. code = Some c \<and> proposal db (PStr c) (Some actor) w p = Inr o1) \<and>
        expected = PInt (cp_revision o1) \<and> Some (s_id actor) = cp_creator_session_id o1"
  using assms
  by (auto simp: replaced_proposal_def result_simps room_revision_def split: option.splits if_split_asm)

lemma propose_coordination_Inr:
  assumes "propose_coordination env p path title spec sid key code expected db = Inr (v, db')"
  obtains actor w sp ttl k old hash where "room_transaction env p sid db = Inr (actor, w)"
    "title = PStr ttl" "key = PStr k" "room_specification env spec (Some (s_id actor)) = Inr sp"
    "hash = room_request_hash env ttl sp code (Some RoomBySession)"
    "replaced_proposal db code expected actor w p = Inr old"
    "(\<exists>replay cur. find_creation db w (the (operator_id p)) k = Some replay \<and>
        proposal db (PStr (cp_code replay)) (Some actor) w p = Inr cur \<and> room_answer env cur actor db = Inr (v, db') \<and>
        (cp_request_hash replay = hash \<or> cp_request_hash replay = room_request_hash env ttl sp code None)) \<or>
     (find_creation db w (the (operator_id p)) k = None \<and>
      store_proposal env p w actor ttl k hash sp old db = Inr (v, db'))"
proof -
  obtain actor w ttl k sp old where g: "room_transaction env p sid db = Inr (actor, w)" "title = PStr ttl" "key = PStr k"
    "room_specification env spec (Some (s_id actor)) = Inr sp"
    and o: "replaced_proposal db code expected actor w p = Inr old"
    and c: "(case find_creation db w (the (operator_id p)) k of
        Some replay \<Rightarrow> bind_result (room_access (Some replay) (Some actor) w p) (\<lambda>_.
            if cp_creator_kind replay \<noteq> RoomBySession
               \<or> (cp_request_hash replay \<noteq> room_request_hash env ttl sp code (Some RoomBySession)
                  \<and> cp_request_hash replay \<noteq> room_request_hash env ttl sp code None)
            then Inl (Refused KeyConflict)
            else bind_result (proposal db (PStr (cp_code replay)) (Some actor) w p) (\<lambda>cur. room_answer env cur actor db))
      | None \<Rightarrow> store_proposal env p w actor ttl k (room_request_hash env ttl sp code (Some RoomBySession)) sp old db)
      = Inr (v, db')"
    using assms unfolding propose_coordination_def Let_def
    by (auto simp: bind_result_eq_Inr text_arg_Inr)
  show ?thesis
    by (rule that[OF g refl o])
       (use c in \<open>auto simp: bind_result_eq_Inr split: option.split_asm if_split_asm\<close>)
qed

lemma propose_operator_Inr:
  assumes "propose_operator_coordination env p ws title spec key db = Inr (x, db')"
  obtains w sp ttl k hash where "operator_transaction env p True ws db = Inr w"
    "title = PStr ttl" "key = PStr k" "room_specification env spec None = Inr sp"
    "hash = room_request_hash env ttl sp None (Some RoomByOperator)"
    "(\<exists>replay cur. find_creation db w (the (operator_id p)) k = Some replay \<and>
        proposal db (PStr (cp_code replay)) None w p = Inr cur \<and> room_answer_operator env p w cur db = Inr (x, db') \<and>
        cp_request_hash replay = hash) \<or>
     (find_creation db w (the (operator_id p)) k = None \<and>
      store_operator_proposal env p w ttl k hash sp db = Inr (x, db'))"
proof -
  obtain w ttl k sp where g: "operator_transaction env p True ws db = Inr w" "title = PStr ttl" "key = PStr k"
    "room_specification env spec None = Inr sp"
    and c: "(case find_creation db w (the (operator_id p)) k of
        Some replay \<Rightarrow>
          if cp_creator_kind replay \<noteq> RoomByOperator
             \<or> cp_request_hash replay \<noteq> room_request_hash env ttl sp None (Some RoomByOperator)
          then Inl (Refused KeyConflict)
          else bind_result (proposal db (PStr (cp_code replay)) None w p) (\<lambda>cur. room_answer_operator env p w cur db)
      | None \<Rightarrow> store_operator_proposal env p w ttl k (room_request_hash env ttl sp None (Some RoomByOperator)) sp db)
      = Inr (x, db')"
    using assms unfolding propose_operator_coordination_def Let_def
    by (auto simp: bind_result_eq_Inr text_arg_Inr)
  show ?thesis
    by (rule that[OF g refl])
       (use c in \<open>auto simp: bind_result_eq_Inr split: option.split_asm if_split_asm\<close>)
qed

section \<open>Steps\<close>

inductive room_step :: "'a room_db_scheme \<Rightarrow> 'a room_db_scheme \<Rightarrow> bool" where
  propose: "propose_coordination env p path title spec sid key code expected db = Inr (v, db') \<Longrightarrow> room_step db db'"
| accept: "accept_coordination env p code sid version expected h db = Inr (v, db') \<Longrightarrow> room_step db db'"
| submit: "submit_coordination env p code kind payload sid version expected key db = Inr (v, db') \<Longrightarrow> room_step db db'"
| advance: "advance_coordination env p code sid version expected db = Inr (v, db') \<Longrightarrow> room_step db db'"
| cancel: "cancel_coordination env p code reason sid version expected db = Inr (v, db') \<Longrightarrow> room_step db db'"
| propose_operator: "propose_operator_coordination env p ws title spec key db = Inr (x, db') \<Longrightarrow> room_step db db'"
| advance_operator: "advance_operator_coordination env p ws code version expected db = Inr (x, db') \<Longrightarrow> room_step db db'"
| cancel_operator: "cancel_operator_coordination env p ws code reason version expected db = Inr (x, db') \<Longrightarrow>
    room_step db db'"
| elsewhere: "proposals db' = proposals db \<Longrightarrow> contributions db' = contributions db \<Longrightarrow> room_step db db'"

lemma propose_room_tx:
  assumes ok: "room_ok db" and op: "propose_coordination env p path title spec sid key code expected db = Inr (v, db')"
  shows "room_tx db db'"
  using op
proof (elim propose_coordination_Inr)
  fix actor :: session_row and w sp ttl k old hash
  assume sp: "room_specification env spec (Some (s_id actor)) = Inr sp"
    and old: "replaced_proposal db code expected actor w p = Inr old"
    and c: "(\<exists>replay cur. find_creation db w (the (operator_id p)) k = Some replay \<and>
        proposal db (PStr (cp_code replay)) (Some actor) w p = Inr cur \<and> room_answer env cur actor db = Inr (v, db') \<and>
        (cp_request_hash replay = hash \<or> cp_request_hash replay = room_request_hash env ttl sp code None)) \<or>
     (find_creation db w (the (operator_id p)) k = None \<and>
      store_proposal env p w actor ttl k hash sp old db = Inr (v, db'))"
  have cur: "\<And>o1. old = Some o1 \<Longrightarrow> current db o1"
    using replaced_proposal_Inr[OF old] proposal_current[OF ok] by auto
  show ?thesis
    using c store_proposal_tx[OF ok cur sp] by (blast dest: told_answer intro: room_tx.idle idle_told)
qed

lemma room_step_tx:
  assumes "room_step db db'" and ok: "room_ok db"
  shows "room_tx db db'"
  using assms(1)
proof cases
  case propose
  then show ?thesis by (rule propose_room_tx[OF ok])
next
  case accept
  then show ?thesis by (rule accept_room_tx[OF ok])
next
  case submit
  then show ?thesis by (rule submit_room_tx[OF ok])
next
  case advance
  then show ?thesis by (elim advance_coordination_Inr) (rule advance_room_tx[OF ok proposal_current[OF ok]])
next
  case cancel
  then show ?thesis
    by (elim cancel_coordination_Inr)
       (auto intro: idle_told cancel_room_tx[OF ok proposal_current[OF ok]])
next
  case propose_operator
  then show ?thesis
    by (elim propose_operator_Inr)
       (auto dest!: told_answer_operator intro: room_tx.idle store_operator_proposal_tx)
next
  case advance_operator
  then show ?thesis by (elim advance_operator_Inr) (rule advance_room_tx[OF ok proposal_current[OF ok]])
next
  case cancel_operator
  then show ?thesis
    by (elim cancel_operator_room_Inr)
       (auto intro: idle_told cancel_room_tx[OF ok proposal_current[OF ok]])
next
  case elsewhere
  then show ?thesis by (rule room_tx.idle)
qed

lemma room_steps_ok: "room_step\<^sup>*\<^sup>* db db' \<Longrightarrow> room_ok db \<Longrightarrow> room_ok db'"
  by (induction rule: rtranclp_induct) (auto dest: room_step_tx room_tx_ok)

end
