(* ===== verification/RoomProgress.thy ===== *)
theory RoomProgress imports RoomSteps begin

text \<open>
  When the operations of \<open>Coordination\<close> succeed: for a caller that passes the gate, with the current
  version and revision, each guard of the code that is left is a hypothesis, and the change is the
  conclusion.
\<close>

section \<open>The caller\<close>

lemma room_transaction_Inr:
  assumes "room_transaction env p sid db = Inr (actor, w)"
  shows "sid = PStr (s_id actor)" "get_agent db (s_id actor) = Some actor" "live_handle db (pe_now env) (s_id actor)"
    "s_created_by_operator_id actor = operator_id p" "s_workspace_id actor = w_id w" "visible_in (lbase db) p w"
    "get_workspace_row (lbase db) (w_id w) = Some w" "operator_id p \<noteq> None"
proof -
  obtain i where i: "session_identifier sid = (Inr i :: pystr room_result)" and o: "operator_id p \<noteq> None"
    and a: "session_actor False env p i db = (Inr (actor, w) :: (session_row \<times> workspace_row) room_result)"
    using assms by (auto simp: room_transaction_def enter_session_Inr)
  note f = session_actor_Inr[OF a]
  have si: "s_id actor = i"
    using f by (auto simp: get_agent_def get_session_row_def dest: row_by_Some_iff_key)
  have ne: "sid = PStr i" "i \<noteq> []" using i by (auto simp: session_identifier_def result_simps split: if_split_asm)
  have w: "s_workspace_id actor = w_id w" using f by (auto simp: get_workspace_row_def dest: row_by_Some_iff_key)
  show "sid = PStr (s_id actor)" "get_agent db (s_id actor) = Some actor" "operator_id p \<noteq> None"
    "s_created_by_operator_id actor = operator_id p" "s_workspace_id actor = w_id w" "visible_in (lbase db) p w"
    "get_workspace_row (lbase db) (w_id w) = Some w"
    using si ne f o w by (auto simp: owns_session_def)
  show "live_handle db (pe_now env) (s_id actor)" using si ne f by (simp add: live_handle_def)
qed

definition ROOM_ACTIONS :: "string list" where
  "ROOM_ACTIONS = [''proposed'', ''replaced'', ''accepted'', ''submitted'', ''advanced'', ''cancelled'']"

lemma room_kind:
  "action \<in> set ROOM_ACTIONS \<Longrightarrow> classify_event_kind (lit (''coordination_'' @ action)) = Some ''coordination''"
  by (auto simp: ROOM_ACTIONS_def classify_event_kind_def kind_pattern_def kind_char_def kind_start_def
      is_digit_def lower1_def EXACT_CATEGORIES_def strip_def is_space_def CATEGORY_PREFIXES_def)

lemma record_room_event_total:
  "action \<in> set ROOM_ACTIONS \<Longrightarrow> \<exists>db'. record_room_event env row action who db = Inr db'"
  unfolding record_room_event_def record_transition_def Let_def by (simp only: room_kind option.case) blast

definition all_readable :: "'a room_db_scheme \<Rightarrow> bool" where
  "all_readable db \<longleftrightarrow> (\<forall>c\<in>set (contributions db). readable (cc_payload c))"

lemma room_finish_total:
  assumes l: "live_handle db (pe_now env) (s_id actor)" and a: "action \<in> set ROOM_ACTIONS" and r: "all_readable db"
  shows "\<exists>v db'. room_finish env row actor action db = Inr (v, db') \<and> told row db v db'"
proof -
  obtain x db1 where x: "require_live_session (pe_lease_cfg env) (pe_now env) True (Some (s_id actor)) db = Inr (x, db1)"
    using l require_live_iff[of "pe_lease_cfg env" "pe_now env" True "s_id actor" db] by auto
  obtain db2 where e: "record_room_event env row action (BySession (s_id actor)) db1 = Inr db2"
    using record_room_event_total[OF a] by blast
  have "contributions db2 = contributions db"
    using require_live_frame[OF x] room_tables_more[of db1 db] record_room_event_tables[OF e] by auto
  then have "\<forall>c\<in>set (entries db2 row). readable (cc_payload c)"
    using r by (auto simp: entries_mem all_readable_def)
  then obtain v where "room_snapshot env db2 row (Some (s_id actor)) = Inr v" using room_snapshot_total by blast
  then have "room_finish env row actor action db = Inr (v, db2)" using x e by (simp add: room_finish_def)
  then show ?thesis using told_finish by blast
qed

text \<open>A Session that owns a process is not renewed, and nothing but the events grows.\<close>

lemma room_finish_keeps:
  assumes f: "room_finish env row actor action db = Inr (v, db')"
    and a: "get_agent db (s_id actor) = Some actor" "s_pid actor \<noteq> None"
  shows "lbase db' = lbase db \<and> leases db' = leases db"
proof -
  obtain r db1 where r: "require_live_session (pe_lease_cfg env) (pe_now env) True (Some (s_id actor)) db = Inr (r, db1)"
    and e: "record_room_event env row action (BySession (s_id actor)) db1 = Inr db'"
    using f by (auto simp: room_finish_def result_simps)
  have "db1 = db" using r a by (auto simp: require_live_session_def split: if_split_asm)
  then show ?thesis
    using e unfolding record_room_event_def by (auto dest!: record_transition_Inr)
qed

section \<open>Slots\<close>

lemma slot_of_other_kind: "slot_of k r a = slot_of k' r' a' \<Longrightarrow> k = k'"
  by (cases k; cases k'; simp add: slot_of_def)

lemma slot_of_inj:
  assumes "slot_of k r a = slot_of k r' a'" and "k \<noteq> KFinal" "r \<in> {0..9}" "r' \<in> {0..9}"
  shows "r = r' \<and> a = a'"
proof -
  have d: "\<exists>c. str_of_int n = [c]" if "n \<in> {0..9}" for n
    using that by (auto simp: str_of_int_def digits_of.simps)
  obtain c c' where c: "str_of_int r = [c]" "str_of_int r' = [c']" using d assms(3,4) by blast
  then have "c = c'" "a = a'" using assms(1,2) by (auto simp: slot_of_def)
  then show ?thesis using c str_of_int_inject by metis
qed

text \<open>A contribution enters when its kind, round and author are new, and so is its key.\<close>

lemma append_contribution_ready:
  assumes ok: "room_ok db" and row: "current db row"
    and id: "\<forall>e\<in>set (contributions db). cc_id e \<noteq> pe_contribution_uuid env"
    and round: "if kind = KDiscussion then 1 \<le> round \<and> round \<le> 3 else round = 0"
    and slot: "\<not> (\<exists>e\<in>set (entries db row). cc_kind e = kind \<and> cc_round e = round \<and> cc_author e = author)"
    and fin: "kind = KFinal \<Longrightarrow> \<not> (\<exists>e\<in>set (entries db row). cc_kind e = KFinal)"
    and key: "\<not> (\<exists>e\<in>set (entries db row). cc_author e = author \<and> key \<noteq> None \<and> cc_idempotency_key e = key)"
  shows "\<exists>c. append_contribution env row author kind payload round key db
      = Inr (db\<lparr>contributions := contributions db @ [c]\<rparr>)"
proof -
  have r: "row \<in> set (proposals db)" using row ok by (simp add: current_def room_ok_get)
  have checks: "contribution_checks e" if "e \<in> set (entries db row)" for e
    using ok r that by (auto simp: room_ok_def row_ok_def room_state_def entry_ok_def)
  have free: "cc_slot e \<noteq> slot_of kind round author" if e: "e \<in> set (entries db row)" for e
  proof
    assume "cc_slot e = slot_of kind round author"
    then have s: "slot_of (cc_kind e) (cc_round e) (cc_author e) = slot_of kind round author"
      using checks[OF e] by (simp add: contribution_checks_def)
    have k: "cc_kind e = kind" using slot_of_other_kind[OF s] .
    show False
    proof (cases "kind = KFinal")
      case True
      then show ?thesis using fin k e by blast
    next
      case False
      have "cc_round e \<in> {0..9}" "round \<in> {0..9}"
        using checks[OF e] round by (auto simp: contribution_checks_def split: if_split_asm)
      then show ?thesis using slot_of_inj[OF s[unfolded k] False] slot k e by blast
    qed
  qed
  let ?c = "\<lparr>cc_id = pe_contribution_uuid env, cc_proposal_code = cp_code row, cc_version = cp_version row,
        cc_author = author, cc_kind = kind, cc_round = round, cc_slot = slot_of kind round author,
        cc_idempotency_key = key, cc_payload = payload,
        cc_request_hash = contribution_hash env kind payload, cc_created_at = pe_now env\<rparr>"
  have "contribution_checks ?c" using round by (simp add: contribution_checks_def split: if_split_asm)
  moreover have "e \<in> set (entries db row)" if "e \<in> set (contributions db)" "same_room ?c e" for e
    using that by (auto simp: entries_mem same_room_def room_of_def proposal_key_def)
  ultimately have "insert_contribution ?c db = Inr (db\<lparr>contributions := contributions db @ [?c]\<rparr>)"
    using id free key by (auto simp: insert_contribution_def)
  then show ?thesis by (auto simp: append_contribution_def)
qed

lemma appended_fields:
  assumes "append_contribution env row author kind payload round key db
      = Inr (db\<lparr>contributions := contributions db @ [x]\<rparr>)"
  shows "cc_author x = author" "cc_kind x = kind" "cc_payload x = payload" "cc_round x = round"
    "room_of x = proposal_key row" "cc_id x = pe_contribution_uuid env" "cc_created_at x = pe_now env"
    "cc_idempotency_key x = key"
proof -
  let ?c = "\<lparr>cc_id = pe_contribution_uuid env, cc_proposal_code = cp_code row, cc_version = cp_version row,
        cc_author = author, cc_kind = kind, cc_round = round, cc_slot = slot_of kind round author,
        cc_idempotency_key = key, cc_payload = payload,
        cc_request_hash = contribution_hash env kind payload, cc_created_at = pe_now env\<rparr>"
  have "db\<lparr>contributions := contributions db @ [x]\<rparr> = db\<lparr>contributions := contributions db @ [?c]\<rparr>"
    using assms by (auto simp: append_contribution_def insert_contribution_def split: if_split_asm)
  from arg_cong[OF this, of contributions] have "x = ?c" by simp
  then show "cc_author x = author" "cc_kind x = kind" "cc_payload x = payload" "cc_round x = round"
    "room_of x = proposal_key row" "cc_id x = pe_contribution_uuid env" "cc_created_at x = pe_now env"
    "cc_idempotency_key x = key"
    by (simp_all add: room_of_def proposal_key_def)
qed

lemma room_cas_ready:
  assumes ok: "keys_unique db" and row: "get_proposal db (proposal_key row) = Some row"
    and f: "\<And>r. proposal_key (f r) = proposal_key r"
    and c: "proposal_checks ((f row)\<lparr>cp_revision := cp_revision row + 1, cp_updated_at := now\<rparr>)"
  shows "room_cas now row f db =
    Inr ((f row)\<lparr>cp_revision := cp_revision row + 1, cp_updated_at := now\<rparr>,
      db\<lparr>proposals := replace_row proposal_key
        ((f row)\<lparr>cp_revision := cp_revision row + 1, cp_updated_at := now\<rparr>) (proposals db)\<rparr>)"
proof -
  let ?g = "\<lambda>r. (f r)\<lparr>cp_revision := cp_revision row + 1, cp_updated_at := now\<rparr>"
  let ?hit = "\<lambda>r. proposal_key r = proposal_key row \<and> cp_revision r = cp_revision row"
  have d: "distinct (map proposal_key (proposals db))" using ok by (simp add: keys_unique_def)
  have r: "row_by proposal_key (proposal_key row) (proposals db) = Some row"
    using row by (simp add: get_proposal_def)
  have k: "proposal_key (?g y) = proposal_key y" for y using f[of y] by (simp add: proposal_key_def)
  note u = cas_update[where f = ?g and ver = cp_revision, OF d r k]
  have only: "x = row" if "x \<in> set (proposals db)" "?hit x" for x
    using that row get_proposal_member[OF ok, of "proposal_key row" x] by auto
  have chk: "\<not> (\<exists>x\<in>set (proposals db). ?hit x \<and> \<not> proposal_checks (?g x))" using only c by blast
  have g: "get_proposal (db\<lparr>proposals := replace_row proposal_key (?g row) (proposals db)\<rparr>) (proposal_key row)
      = Some (?g row)"
    using r k[of row] by (simp add: get_proposal_def row_by_replace_row)
  show ?thesis
    unfolding room_cas_def Let_def u(1) using chk u(2) g by simp
qed

section \<open>Operations that succeed\<close>

text \<open>\<open>row\<close> went to \<open>row1\<close> with the contributions \<open>cs\<close>; a Session with a process keeps the store below.\<close>

definition committed ::
    "'a room_db_scheme \<Rightarrow> proposal_row \<Rightarrow> contribution_row list \<Rightarrow> session_row \<Rightarrow> room_view \<Rightarrow> 'a room_db_scheme \<Rightarrow> bool" where
  "committed db row1 cs actor v db' \<longleftrightarrow> rv_row v = row1 \<and>
     proposals db' = replace_row proposal_key row1 (proposals db) \<and> contributions db' = contributions db @ cs \<and>
     (s_pid actor \<noteq> None \<and> get_agent db (s_id actor) = Some actor \<longrightarrow> lbase db' = lbase db)"

abbreviation bumped :: "instant \<Rightarrow> proposal_row \<Rightarrow> proposal_row \<Rightarrow> proposal_row" where
  "bumped now row r \<equiv> r\<lparr>cp_revision := cp_revision row + 1, cp_updated_at := now\<rparr>"

lemma commit_ready:
  assumes ok: "room_ok db" and cur: "current db row"
    and l: "live_handle db (pe_now env) (s_id actor)" and a: "action \<in> set ROOM_ACTIONS"
    and d: "db1 = db\<lparr>contributions := contributions db @ cs\<rparr>" and cs: "\<forall>c\<in>set cs. readable (cc_payload c)"
    and f: "\<And>r. proposal_key (f r) = proposal_key r" and c: "proposal_checks (bumped (pe_now env) row (f row))"
  shows "\<exists>v db' db2. room_cas (pe_now env) row f db1 = Inr (bumped (pe_now env) row (f row), db2) \<and>
    room_finish env (bumped (pe_now env) row (f row)) actor action db2 = Inr (v, db') \<and>
    committed db (bumped (pe_now env) row (f row)) cs actor v db'"
proof -
  let ?row1 = "bumped (pe_now env) row (f row)"
  let ?db2 = "db1\<lparr>proposals := replace_row proposal_key ?row1 (proposals db1)\<rparr>"
  have "keys_unique db1" "get_proposal db1 (proposal_key row) = Some row"
    using ok cur d by (simp_all add: room_ok_def keys_unique_def current_def get_proposal_def)
  then have cas: "room_cas (pe_now env) row f db1 = Inr (?row1, ?db2)" by (rule room_cas_ready[OF _ _ f c])
  have r: "all_readable ?db2" using ok d cs by (auto simp: all_readable_def room_ok_def)
  have l2: "live_handle ?db2 (pe_now env) (s_id actor)"
    using l d by (subst live_handle_cong[where db = db]) simp_all
  obtain v db' where fin: "room_finish env ?row1 actor action ?db2 = Inr (v, db')" and t: "told ?row1 ?db2 v db'"
    using room_finish_total[OF l2 a r, of ?row1] by blast
  have "committed db ?row1 cs actor v db'"
    using t d room_finish_keeps[OF fin] by (auto simp: committed_def told_def get_agent_def)
  then show ?thesis using cas fin by blast
qed

lemma room_revision_ok:
  "room_revision row (PInt (cp_version row)) (PInt (cp_revision row)) = Inr () \<longleftrightarrow>
     1 \<le> cp_version row \<and> cp_version row \<le> 2 ^ 31 - 1 \<and> 0 \<le> cp_revision row \<and> cp_revision row \<le> 2 ^ 63 - 2"
  by (auto simp: room_revision_def result_simps)

text \<open>The exact version and revision, in the range of the columns.\<close>

definition addressable :: "proposal_row \<Rightarrow> bool" where
  "addressable row \<longleftrightarrow> cp_version row \<le> 2 ^ 31 - 1 \<and> cp_revision row \<le> 2 ^ 63 - 2"

lemma addressable_revision:
  "proposal_typed row \<Longrightarrow> addressable row \<Longrightarrow> room_revision row (PInt (cp_version row)) (PInt (cp_revision row)) = Inr ()"
  by (simp add: room_revision_ok addressable_def proposal_typed_def proposal_checks_def)

lemma bumped_checks:
  "proposal_typed row \<Longrightarrow> same_proposal row r \<Longrightarrow> 0 \<le> cp_round r \<Longrightarrow> cp_round r \<le> 4 \<Longrightarrow>
     proposal_checks (bumped now row r)"
  by (cases row; cases r) (auto simp: proposal_typed_def proposal_checks_def same_proposal_def)

lemma accept_ready:
  assumes ok: "room_ok db" and gate: "room_transaction env p sid db = Inr (actor, w)"
    and row: "proposal db code (Some actor) w p = Inr row" and adr: "addressable row"
    and due: "pe_now env < cp_deadline_at row" and st: "cp_status row = RPlanned"
    and new: "s_id actor \<notin> acceptors (entries db row)"
    and id: "\<forall>e\<in>set (contributions db). cc_id e \<noteq> pe_contribution_uuid env"
  shows "\<exists>v db' x. accept_coordination env p code sid (PInt (cp_version row)) (PInt (cp_revision row))
      (PStr (cp_specification_hash row)) db = Inr (v, db') \<and>
    append_contribution env row (s_id actor) KAccept (spec_hash_json (cp_specification_hash row)) 0 None db
      = Inr (db\<lparr>contributions := contributions db @ [x]\<rparr>) \<and>
    committed db (bumped (pe_now env) row (row\<lparr>cp_status :=
      (if insert (s_id actor) (acceptors (entries db row)) = members_of row then RAccepted else RPlanned)\<rparr>))
      [x] actor v db'"
proof -
  let ?s = "if insert (s_id actor) (acceptors (entries db row)) = members_of row then RAccepted else RPlanned"
  let ?f = "\<lambda>r. r\<lparr>cp_status := ?s\<rparr>"
  have cur: "current db row" using proposal_current[OF ok row] .
  have ty: "proposal_typed row" using current_typed[OF ok cur] .
  have "\<not> (\<exists>e\<in>set (entries db row). cc_kind e = KAccept \<and> cc_round e = 0 \<and> cc_author e = s_id actor)"
    using new by (force simp: acceptors_def authors_def)
  then obtain x where x: "append_contribution env row (s_id actor) KAccept
      (spec_hash_json (cp_specification_hash row)) 0 None db = Inr (db\<lparr>contributions := contributions db @ [x]\<rparr>)"
    using append_contribution_ready[OF ok cur id, of KAccept 0 "s_id actor" None] by auto
  have rd: "\<forall>c\<in>set [x]. readable (cc_payload c)" using appended_fields(3)[OF x] by (simp add: readable_hash)
  have chk: "proposal_checks (bumped (pe_now env) row (?f row))"
    using ty by (intro bumped_checks same_status) (auto simp: proposal_typed_def proposal_checks_def)
  have key: "proposal_key (?f r) = proposal_key r" for r by (simp add: proposal_key_def)
  obtain v db' db2 where c: "room_cas (pe_now env) row ?f (db\<lparr>contributions := contributions db @ [x]\<rparr>)
      = Inr (bumped (pe_now env) row (?f row), db2)"
    and fin: "room_finish env (bumped (pe_now env) row (?f row)) actor ''accepted'' db2 = Inr (v, db')"
    and m: "committed db (bumped (pe_now env) row (?f row)) [x] actor v db'"
    using commit_ready[where f = ?f, OF ok cur room_transaction_Inr(3)[OF gate] _ refl rd key chk, of "''accepted''"]
    by (auto simp: ROOM_ACTIONS_def)
  have "room_open (pe_now env) row = Inr ()" using due st by (simp add: room_open_def OPEN_STATUSES_def)
  then have "accept_coordination env p code sid (PInt (cp_version row)) (PInt (cp_revision row))
      (PStr (cp_specification_hash row)) db = Inr (v, db')"
    using gate row addressable_revision[OF ty adr] new st x c fin
    by (simp add: accept_coordination_def Let_def)
  then show ?thesis using x m by blast
qed

lemma submit_ready:
  assumes ok: "room_ok db" and gate: "room_transaction env p sid db = Inr (actor, w)"
    and row: "proposal db code (Some actor) w p = Inr row" and adr: "addressable row"
    and due: "pe_now env < cp_deadline_at row"
    and kd: "kind_arg kind = Inr kd" and k: "text_arg ''idempotency_key'' 128 True key = (Inr ky :: pystr room_result)"
    and body: "payload_arg kd payload = Inr body" and rd: "readable body"
    and fresh: "\<forall>e\<in>set (contributions db). cc_id e \<noteq> pe_contribution_uuid env \<and> cc_idempotency_key e \<noteq> Some ky"
    and round: "submission_round row (entries db row) (s_id actor) kd = Inr round"
    and may: "may_submit row (s_id actor) kd round = Inr ()"
    and slot: "\<not> (\<exists>e\<in>set (entries db row). cc_kind e = kd \<and> cc_round e = round \<and> cc_author e = s_id actor)"
    and fin: "kd = KFinal \<Longrightarrow> \<not> (\<exists>e\<in>set (entries db row). cc_kind e = KFinal)"
  shows "\<exists>v db' x. submit_coordination env p code kind payload sid (PInt (cp_version row)) (PInt (cp_revision row)) key db
      = Inr (v, db') \<and>
    append_contribution env row (s_id actor) kd body round (Some ky) db
      = Inr (db\<lparr>contributions := contributions db @ [x]\<rparr>) \<and>
    committed db (bumped (pe_now env) row (if kd = KFinal then row\<lparr>cp_status := RCompleted\<rparr> else row)) [x] actor v db'"
proof -
  let ?f = "\<lambda>r. if kd = KFinal then r\<lparr>cp_status := RCompleted\<rparr> else r"
  have cur: "current db row" using proposal_current[OF ok row] .
  have ty: "proposal_typed row" using current_typed[OF ok cur] .
  have nk: "kd \<noteq> KAccept" using kind_arg_Inr[OF kd] .
  have rs: "row \<in> set (proposals db)" using cur ok by (simp add: current_def room_ok_get)
  have rnd: "if kd = KDiscussion then 1 \<le> round \<and> round \<le> 3 else round = 0"
    using round may ty
    by (auto simp: submission_round_def may_submit_def Let_def proposal_typed_def spec_typed_def
        split: if_split_asm exchange_mode.split_asm)
  obtain x where x: "append_contribution env row (s_id actor) kd body round (Some ky) db
      = Inr (db\<lparr>contributions := contributions db @ [x]\<rparr>)"
    using append_contribution_ready[OF ok cur _ rnd slot fin, of env "Some ky" body] fresh
    by (auto simp: entries_mem)
  have r: "\<forall>c\<in>set [x]. readable (cc_payload c)" using appended_fields(3)[OF x] rd by simp
  have chk: "proposal_checks (bumped (pe_now env) row (?f row))"
    using ty by (intro bumped_checks) (auto simp: proposal_typed_def proposal_checks_def same_proposal_def)
  have key: "proposal_key (?f r) = proposal_key r" for r by (simp add: proposal_key_def)
  obtain v db' db2 where c: "room_cas (pe_now env) row ?f (db\<lparr>contributions := contributions db @ [x]\<rparr>)
      = Inr (bumped (pe_now env) row (?f row), db2)"
    and f: "room_finish env (bumped (pe_now env) row (?f row)) actor ''submitted'' db2 = Inr (v, db')"
    and m: "committed db (bumped (pe_now env) row (?f row)) [x] actor v db'"
    using commit_ready[where f = ?f, OF ok cur room_transaction_Inr(3)[OF gate] _ refl r key chk, of "''submitted''"]
    by (auto simp: ROOM_ACTIONS_def)
  have op: "cp_status row \<in> set OPEN_STATUSES"
    using may nk ok rs by (cases kd) (auto simp: may_submit_def final_ready_def OPEN_STATUSES_def Let_def split: if_split_asm)
  then have o: "room_open (pe_now env) row = Inr ()" using due by (simp add: room_open_def)
  have "store_contribution env row actor kd body ky db = Inr (v, db')"
    using o round may slot x c f by (simp add: store_contribution_def Let_def)
  moreover have "find (\<lambda>e. cc_author e = s_id actor \<and> cc_idempotency_key e = Some ky) (entries db row) = None"
    using fresh by (auto simp: find_None_iff entries_mem)
  ultimately have "submit_coordination env p code kind payload sid (PInt (cp_version row)) (PInt (cp_revision row)) key db
      = Inr (v, db')"
    using gate row addressable_revision[OF ty adr] kd k body due
    by (simp add: submit_coordination_def)
  then show ?thesis using x m by blast
qed

lemma peer_ready: "room_transaction env p sid db = Inr (actor, w) \<Longrightarrow> peer env p w db (s_id actor) = Inr actor"
proof -
  assume g: "room_transaction env p sid db = Inr (actor, w)"
  note f = room_transaction_Inr[OF g]
  obtain x where "require_live_session (pe_lease_cfg env) (pe_now env) False (Some (s_id actor)) db = Inr x"
    using f(3) require_live_iff[of "pe_lease_cfg env" "pe_now env" False "s_id actor" db] by auto
  then show ?thesis using f by (simp add: peer_def)
qed

lemma map_result_ready: "\<forall>x\<in>set xs. \<exists>y. f x = Inr y \<Longrightarrow> \<exists>ys. map_result f xs = Inr ys"
  by (induction xs) auto

lemma advance_ready:
  assumes ok: "room_ok db" and gate: "room_transaction env p sid db = Inr (actor, w)"
    and row: "proposal db code (Some actor) w p = Inr row" and adr: "addressable row"
    and cr: "cp_creator_session_id row = Some (s_id actor)"
    and nb: "advance_blocked (pe_now env) row (entries db row) = None"
    and peers: "cp_status row = RAccepted \<Longrightarrow> \<forall>m\<in>members_of row. \<exists>s. peer env p w db m = Inr s"
    and rnd: "cp_round (advanced_row row row) \<in> {0..4}"
  shows "\<exists>v db'. advance_coordination env p code sid (PInt (cp_version row)) (PInt (cp_revision row)) db = Inr (v, db') \<and>
    committed db (bumped (pe_now env) row (advanced_row row row)) [] actor v db'"
proof -
  have cur: "current db row" using proposal_current[OF ok row] .
  have ty: "proposal_typed row" using current_typed[OF ok cur] .
  have key: "proposal_key (advanced_row row r) = proposal_key r" for r
    by (simp add: advanced_row_def Let_def proposal_key_def split: exchange_mode.split)
  have "same_proposal row (advanced_row row row)"
    by (simp add: advanced_row_def Let_def same_proposal_def split: exchange_mode.split)
  then have chk: "proposal_checks (bumped (pe_now env) row (advanced_row row row))"
    using ty rnd by (intro bumped_checks) auto
  have none: "\<forall>c\<in>set []. readable (cc_payload c)" by simp
  obtain v db' db2 where c: "room_cas (pe_now env) row (advanced_row row) db
      = Inr (bumped (pe_now env) row (advanced_row row row), db2)"
    and fin: "room_finish env (bumped (pe_now env) row (advanced_row row row)) actor ''advanced'' db2 = Inr (v, db')"
    and m: "committed db (bumped (pe_now env) row (advanced_row row row)) [] actor v db'"
    using commit_ready[where f = "advanced_row row" and cs = "[]", OF ok cur room_transaction_Inr(3)[OF gate] _ _ none key chk, of "''advanced''" db]
    by (auto simp: ROOM_ACTIONS_def)
  have "finite (members_of row)" by (auto simp: members_of_def participants_of_def split: option.split)
  then obtain ys where "(if cp_status row = RAccepted then map_result (peer env p w db) (sorted_list_of_set (members_of row))
      else Inr []) = Inr ys"
    using peers map_result_ready[of "sorted_list_of_set (members_of row)" "peer env p w db"]
    by (cases "cp_status row = RAccepted") auto
  then have "advance_room env p w False row db = Inr (bumped (pe_now env) row (advanced_row row row), db2)"
    using nb c by (auto simp: advance_room_def split: if_split_asm)
  then have "advance_coordination env p code sid (PInt (cp_version row)) (PInt (cp_revision row)) db = Inr (v, db')"
    using gate row addressable_revision[OF ty adr] cr fin by (simp add: advance_coordination_def)
  then show ?thesis using m by blast
qed

lemma latest_proposal_current:
  assumes ok: "room_ok db" and cur: "current db a"
  shows "latest_proposal db (cp_code a) = Some a"
proof -
  have a: "a \<in> set (proposals db)" "is_latest db a" using cur ok by (auto simp: current_def room_ok_get)
  then have "a \<in> set (versions_of db (cp_code a))" by (simp add: versions_of_mem)
  then obtain r where r: "latest_proposal db (cp_code a) = Some r"
    by (cases "versions_of db (cp_code a)") (auto simp: latest_proposal_def Let_def)
  note f = latest_proposal_Some[OF r]
  have "r = a" by (rule is_latest_unique[OF f(3) a(2) f(1) a(1) f(2) room_ok_keys[OF ok]])
  then show ?thesis using r by simp
qed

lemma proposal_ready:
  assumes "room_ok db" "current db a" "text_arg ''code'' 39 True (PStr (cp_code a)) = (Inr (cp_code a) :: pystr room_result)"
    and "w_id w = cp_workspace_id a" "operator_id p = Some (cp_creator_operator_id a)" "s_id actor \<in> members_of a"
  shows "proposal db (PStr (cp_code a)) (Some actor) w p = Inr a"
  using assms(3-) latest_proposal_current[OF assms(1,2)] by (simp add: proposal_def room_access_def)

section \<open>Plain payloads\<close>

definition plain_payload :: "contribution_kind \<Rightarrow> pyval" where
  "plain_payload kd = PDict (map (\<lambda>f. (PStr (lit f), PStr (lit ''x''))) (payload_fields kd))"

definition plain_body :: "contribution_kind \<Rightarrow> json" where
  "plain_body kd = JDict (map (\<lambda>f. (lit f, JStr (lit ''x''))) (payload_fields kd))"

lemma plain_payload_arg: "payload_arg kd (plain_payload kd) = Inr (plain_body kd)"
  by (cases kd)
     (simp_all add: payload_arg_def plain_payload_def plain_body_def payload_fields_def payload_options_def
       optional_payload_def keys_within_def get_or_def text_arg_def utf8_size1_def is_space_def PAYLOAD_LIMIT_def
       dumps_raw_def escape_raw_def)

lemma plain_readable: "readable (plain_body kd)"
  by (cases kd) (simp_all add: readable_def plain_body_def payload_fields_def dissent_text_def)

section \<open>What an open version waits for\<close>

text \<open>A member may contribute, by every guard of the code that does not depend on the caller.\<close>

definition may_contribute ::
    "proposal_row \<Rightarrow> contribution_row list \<Rightarrow> contribution_kind \<Rightarrow> pystr \<Rightarrow> int \<Rightarrow> bool" where
  "may_contribute a es kd m round \<longleftrightarrow> submission_round a es m kd = Inr round \<and> may_submit a m kd round = Inr () \<and>
     \<not> (\<exists>e\<in>set es. cc_kind e = kd \<and> cc_round e = round \<and> cc_author e = m) \<and>
     (kd = KFinal \<longrightarrow> \<not> (\<exists>e\<in>set es. cc_kind e = KFinal))"

lemma discussion_subset:
  assumes "\<forall>e\<in>set es. entry_ok a e"
  shows "discussion_authors r es \<subseteq> participants_of a" "initial_authors es \<subseteq> participants_of a"
    "acceptors es \<subseteq> members_of a"
  using assms by (auto simp: discussion_authors_def initial_authors_def acceptors_def authors_def entry_ok_def)

text \<open>What an open version waits for: the acceptance, contribution or final that a member owes.\<close>

definition owes :: "proposal_row \<Rightarrow> contribution_row list \<Rightarrow> contribution_kind \<Rightarrow> pystr \<Rightarrow> bool" where
  "owes a es kd m \<longleftrightarrow>
     (case cp_status a of
        RPlanned \<Rightarrow> kd = KAccept \<and> m \<in> members_of a - acceptors es
      | RCollecting \<Rightarrow> kd = KInitial \<and> m \<in> participants_of a - initial_authors es
      | RDiscussing \<Rightarrow>
          if cp_round a = 0 \<or> rounds_of a < cp_round a then kd = KFinal \<and> m = cp_result_owner a
          else kd = KDiscussion \<and> m \<in> participants_of a -
            discussion_authors (case mode_of a of ByRounds \<Rightarrow> Some (cp_round a) | Threaded \<Rightarrow> None) es
      | _ \<Rightarrow> False)"

lemma owed_may_be_paid:
  assumes ty: "proposal_typed a" and st: "room_state a es" and w: "owes a es kd m"
  shows "m \<in> members_of a" and "kd = KAccept \<Longrightarrow> cp_status a = RPlanned \<and> m \<notin> acceptors es"
    and "kd \<noteq> KAccept \<Longrightarrow> \<exists>round. may_contribute a es kd m round"
proof -
  note s = st[unfolded room_state_def]
  have ent: "\<forall>e\<in>set es. entry_ok a e" using s by blast
  have rb: "0 \<le> rounds_of a" "1 \<le> rs_max_turns (cp_specification a)" "0 \<le> cp_round a"
    using ty by (auto simp: proposal_typed_def spec_typed_def proposal_checks_def)
  show "m \<in> members_of a" using w by (auto simp: owes_def members_of_def split: room_status.splits if_splits)
  show "kd = KAccept \<Longrightarrow> cp_status a = RPlanned \<and> m \<notin> acceptors es"
    using w by (auto simp: owes_def split: room_status.splits if_splits)
  assume "kd \<noteq> KAccept"
  then consider (initial) "kd = KInitial" "cp_status a = RCollecting" "m \<in> participants_of a" "m \<notin> initial_authors es"
    | (final) "kd = KFinal" "cp_status a = RDiscussing" "m = cp_result_owner a" "final_ready a"
    | (rounds) "kd = KDiscussion" "cp_status a = RDiscussing" "m \<in> participants_of a" "mode_of a = ByRounds"
        "cp_round a \<noteq> 0" "cp_round a \<le> rounds_of a" "m \<notin> discussion_authors (Some (cp_round a)) es"
    | (threaded) "kd = KDiscussion" "cp_status a = RDiscussing" "m \<in> participants_of a" "mode_of a = Threaded"
        "cp_round a \<le> rounds_of a" "m \<notin> discussion_authors None es"
    using w by (auto simp: owes_def final_ready_def split: room_status.splits if_splits exchange_mode.splits)
  then show "\<exists>round. may_contribute a es kd m round"
  proof cases
    case initial
    then have "may_contribute a es KInitial m 0"
      by (auto simp: may_contribute_def submission_round_def may_submit_def Let_def initial_authors_def authors_def)
    then show ?thesis using initial(1) by blast
  next
    case final
    have "\<not> (\<exists>e\<in>set es. cc_kind e = KFinal)" using ent final(2) by (auto simp: entry_ok_def)
    then have "may_contribute a es KFinal m 0"
      using final by (auto simp: may_contribute_def submission_round_def may_submit_def Let_def)
    then show ?thesis using final(1) by blast
  next
    case rounds
    then have "may_contribute a es KDiscussion m (cp_round a)"
      using rb by (auto simp: may_contribute_def submission_round_def may_submit_def Let_def discussion_authors_def authors_def)
    then show ?thesis using rounds(1) by blast
  next
    case threaded
    have no: "\<not> (\<exists>e\<in>set es. cc_kind e = KDiscussion \<and> cc_author e = m)"
      using threaded(6) by (auto simp: discussion_authors_def authors_def)
    then have none: "filter (\<lambda>e. cc_kind e = KDiscussion \<and> cc_author e = m) es = []" by (auto simp: filter_empty_conv)
    have "may_contribute a es KDiscussion m 1"
      using threaded rb none no by (auto simp: may_contribute_def submission_round_def may_submit_def Let_def)
    then show ?thesis using threaded(1) by blast
  qed
qed

text \<open>When nothing is owed, the version waits for its creator's advance.\<close>

lemma nothing_owed:
  assumes ty: "proposal_typed a" and st: "room_state a es" and o: "cp_status a \<in> set OPEN_STATUSES"
    and due: "now < cp_deadline_at a" and none: "\<forall>kd m. \<not> owes a es kd m"
  shows "advance_blocked now a es = None \<and> cp_round (advanced_row a a) \<in> {0..4}"
proof -
  note s = st[unfolded room_state_def]
  have ent: "\<forall>e\<in>set es. entry_ok a e" using s by blast
  note sub = discussion_subset[OF ent]
  have rb: "0 \<le> rounds_of a" "rounds_of a \<le> 3" "0 \<le> cp_round a" "cp_round a \<le> 4"
    using ty by (auto simp: proposal_typed_def spec_typed_def proposal_checks_def)
  consider "cp_status a = RPlanned" | "cp_status a = RAccepted" | "cp_status a = RCollecting" | "cp_status a = RDiscussing"
    using o by (auto simp: OPEN_STATUSES_def)
  then show ?thesis
  proof cases
    case 1
    then have "acceptors es \<noteq> members_of a" using s by simp
    then show ?thesis using none sub(3) 1 by (auto simp: owes_def)
  next
    case 2
    then have "acceptors es = members_of a" "cp_round a = 0" using s by auto
    then show ?thesis using 2 due o by (simp add: advance_blocked_def advanced_row_def Let_def)
  next
    case 3
    then have "initial_authors es = participants_of a" using none sub(2) by (auto simp: owes_def)
    then show ?thesis using 3 due o by (simp add: advance_blocked_def advanced_row_def Let_def)
  next
    case 4
    then have r: "cp_round a \<noteq> 0" "cp_round a \<le> rounds_of a" using none by (auto simp: owes_def not_less split: if_splits)
    show ?thesis
    proof (cases "mode_of a")
      case ByRounds
      then have "discussion_authors (Some (cp_round a)) es = participants_of a"
        using none sub(1) 4 r by (auto simp: owes_def)
      then show ?thesis using 4 ByRounds r rb due o by (simp add: advance_blocked_def advanced_row_def Let_def)
    next
      case Threaded
      then have "discussion_authors None es = participants_of a" using none sub(1) 4 r by (auto simp: owes_def)
      then show ?thesis using 4 Threaded r rb due o by (simp add: advance_blocked_def advanced_row_def Let_def)
    qed
  qed
qed

end
