(* ===== verification/RoomSample.thy ===== *)
theory RoomSample imports RoomProgress WorkProperties begin

text \<open>
  A run of one room from empty tables to its final: the Session \<open>s1\<close> proposes to itself and \<open>s2\<close> a
  room without discussion rounds, both accept, contribute, and \<open>s1\<close> concludes. The witnesses of the
  room properties are taken from its stages.
\<close>

section \<open>The tables and the request\<close>

definition sample_room :: room_db where
  "sample_room = \<lparr>lbase = sample_base, leases = [], attachments = [], successors = [], events = [],
     proposals = [], contributions = []\<rparr>"

definition sample_room_request :: pyval where
  "sample_room_request = PDict
     [(PStr (lit ''objective''), PStr (lit ''agree'')), (PStr (lit ''context''), PStr (lit ''x'')),
      (PStr (lit ''evidence_expectations''), PStr (lit ''x'')), (PStr (lit ''discussion_rounds''), PInt 0),
      (PStr (lit ''participants''), PList
         [PDict [(PStr (lit ''session_id''), PStr (lit ''s1'')), (PStr (lit ''model''), PNone)],
          PDict [(PStr (lit ''session_id''), PStr (lit ''s2'')), (PStr (lit ''model''), PNone)]])]"

definition sample_room_spec :: "pystr option \<Rightarrow> instant option \<Rightarrow> room_spec" where
  "sample_room_spec tool due = \<lparr>rs_objective = lit ''agree'', rs_context = lit ''x'',
     rs_evidence_expectations = lit ''x'', rs_discussion_rounds = 0, rs_exchange_mode = ByRounds, rs_max_turns = 3,
     rs_result_owner = lit ''s1'', rs_links = [],
     rs_participants = [\<lparr>pt_session_id = lit ''s1'', pt_model = None, pt_tool = tool\<rparr>,
                        \<lparr>pt_session_id = lit ''s2'', pt_model = None, pt_tool = tool\<rparr>],
     rs_deadline = due\<rparr>"

definition sample_final_spec :: room_spec where
  "sample_final_spec = sample_room_spec (Some (lit ''codex'')) (Some 3600001000)"

text \<open>The row at a stage of the run.\<close>

definition sample_proposal :: "room_status \<Rightarrow> int \<Rightarrow> bool \<Rightarrow> instant \<Rightarrow> proposal_row" where
  "sample_proposal st rv closed now =
     \<lparr>cp_code = lit ''PC-u1'', cp_version = 1, cp_workspace_id = 10, cp_creator_operator_id = 5,
      cp_creator_kind = RoomBySession, cp_creator_session_id = Some (lit ''s1''), cp_result_owner = lit ''s1'',
      cp_idempotency_key = lit ''k'',
      cp_request_hash = room_request_hash (sample_peer_env 1000 ''u1'') (lit ''t'') (sample_room_spec None None) None
        (Some RoomBySession),
      cp_title = lit ''t'', cp_specification = sample_final_spec,
      cp_specification_hash = dumps_raw (room_spec_json sample_final_spec), cp_status = st,
      cp_revision = rv, cp_round = 0, cp_initial_closed = closed, cp_deadline_at = 3600001000,
      cp_created_at = 1000, cp_updated_at = now, cp_cancellation_reason = None\<rparr>"

abbreviation sample_w :: workspace_row where
  "sample_w \<equiv> \<lparr>w_id = 10, w_path = lit ''/a'', w_visibility = ''org'', w_org_id = None\<rparr>"

lemma utf8_size_ascii: "\<forall>c\<in>set s. c < 128 \<Longrightarrow> utf8_size s = Some (length s)"
  by (induction s) (auto simp: utf8_size1_def)

lemma sample_due: "isoformat 3600001000 = lit ''1970-01-01T01:00:00.001000+00:00''"
  by code_simp

lemma sample_spec_dumps:
  "dumps_raw (room_spec_json (sample_room_spec None None)) =
     lit ''{\"context\":\"x\",\"discussion_rounds\":0,\"evidence_expectations\":\"x\",\"exchange_mode\":\"rounds\",\"links\":[],\"max_turns_per_peer\":3,\"objective\":\"agree\",\"participants\":[{\"model\":null,\"session_id\":\"s1\"},{\"model\":null,\"session_id\":\"s2\"}],\"result_owner_session_id\":\"s1\",\"version\":1}''"
  "dumps_raw (room_spec_json sample_final_spec) =
     lit ''{\"context\":\"x\",\"deadline\":\"1970-01-01T01:00:00.001000+00:00\",\"discussion_rounds\":0,\"evidence_expectations\":\"x\",\"exchange_mode\":\"rounds\",\"links\":[],\"max_turns_per_peer\":3,\"objective\":\"agree\",\"participants\":[{\"model\":null,\"session_id\":\"s1\",\"tool\":\"codex\"},{\"model\":null,\"session_id\":\"s2\",\"tool\":\"codex\"}],\"result_owner_session_id\":\"s1\",\"version\":1}''"
  using sample_due
  by (simp_all add: room_spec_json_def sample_room_spec_def room_opt_member_def participant_json_def
      json_opt_str_def dumps_raw_def escape_raw_def str_of_int_def digits_of.simps sample_final_spec_def)

lemma sample_spec_bytes:
  "utf8_size (dumps_raw (room_spec_json (sample_room_spec None None))) = Some 270"
  "utf8_size (dumps_raw (room_spec_json sample_final_spec)) = Some 346"
  unfolding sample_spec_dumps by (subst utf8_size_ascii; simp)+

lemma sample_spec_no_nul:
  "0 \<notin> set (dumps_raw (room_spec_json (sample_room_spec None None)))"
  "0 \<notin> set (dumps_raw (room_spec_json sample_final_spec))"
  unfolding sample_spec_dumps by simp_all

lemma sample_room_specification:
  "room_specification (sample_peer_env now u) sample_room_request (Some (lit ''s1'')) = Inr (sample_room_spec None None)"
  using sample_spec_bytes(1) sample_spec_no_nul(1)
  by (simp add: room_specification_def sample_room_request_def sample_room_spec_def keys_within_def ROOM_SPEC_KEYS_def
      get_or_def if_present_def text_arg_def int_arg_def utf8_size1_def ROOM_SPEC_LIMIT_def is_space_def mode_arg_def
      session_identifier_def is_digit_def list_arg_def participants_arg_def participant_arg_def Let_def)

lemma sample_room_gate:
  "s \<in> {''s1'', ''s2''} \<Longrightarrow> lbase db = sample_base \<Longrightarrow>
     room_transaction (sample_peer_env now u) sample_peer (PStr (lit s)) db = Inr (sample_session s, sample_w)"
  by (auto simp: room_transaction_def enter_session_def session_actor_def session_identifier_def is_digit_def text_arg_def
      utf8_size1_def is_space_def get_agent_def get_session_row_def sample_base_def sample_store_def
      empty_store_def sample_session_def sample_peer_def get_workspace_row_def operator_exists_def
      owns_session_def visible_in_def or_default_def default_org_id_def visible_org_ids_def
      require_live_session_def terminal_or_ended_def stale_handle_def is_operator_def is_runtime_def
      ACTOR_OPERATOR_def ACTOR_RUNTIME_def map_left_def)

lemma sample_members: "participants_of (sample_proposal st rv cl now) = {lit ''s1'', lit ''s2''}"
  "members_of (sample_proposal st rv cl now) = {lit ''s1'', lit ''s2''}"
  by (auto simp: members_of_def participants_of_def sample_proposal_def sample_final_spec_def sample_room_spec_def)

section \<open>The run\<close>

definition sample_entry ::
    "instant \<Rightarrow> string \<Rightarrow> string \<Rightarrow> contribution_kind \<Rightarrow> json \<Rightarrow> pystr option \<Rightarrow> contribution_row" where
  "sample_entry now u s kd payload key =
     \<lparr>cc_id = lit ''c'' @ lit u, cc_proposal_code = lit ''PC-u1'', cc_version = 1, cc_author = lit s, cc_kind = kd,
      cc_round = 0, cc_slot = slot_of kd 0 (lit s), cc_idempotency_key = key, cc_payload = payload,
      cc_request_hash = contribution_hash (sample_peer_env now u) kd payload, cc_created_at = now\<rparr>"

definition sample_hash_json :: json where
  "sample_hash_json = spec_hash_json (dumps_raw (room_spec_json sample_final_spec))"

text \<open>The store at a stage.\<close>

definition sample_at :: "proposal_row \<Rightarrow> contribution_row list \<Rightarrow> room_db \<Rightarrow> bool" where
  "sample_at a cs db \<longleftrightarrow> room_step\<^sup>*\<^sup>* sample_room db \<and> lbase db = sample_base \<and> proposals db = [a] \<and>
     contributions db = cs"

lemma sample_room_ok: "room_ok sample_room"
  by (rule room_ok_empty) (simp_all add: sample_room_def)

lemma sample_at_ok: "sample_at a cs db \<Longrightarrow> room_ok db"
  unfolding sample_at_def using room_steps_ok[OF _ sample_room_ok] by blast

lemma sample_session_agent: "s \<in> {''s1'', ''s2''} \<Longrightarrow> lbase db = sample_base \<Longrightarrow>
    get_agent db (lit s) = Some (sample_session s) \<and> s_id (sample_session s) = lit s \<and> s_pid (sample_session s) \<noteq> None"
  by (auto simp: get_agent_def get_session_row_def sample_base_def sample_session_def)

lemma sample_stored:
  "lbase db = sample_base \<Longrightarrow>
     stored_specification (sample_peer_env 1000 ''u1'') sample_peer sample_w db (sample_room_spec None None) 3600001000
       = Inr sample_final_spec"
proof -
  assume b: "lbase db = sample_base"
  have peer: "peer (sample_peer_env 1000 ''u1'') sample_peer sample_w db (lit s) = Inr (sample_session s)"
    if "s \<in> {''s1'', ''s2''}" for s
    using peer_ready[OF sample_room_gate[OF that b]] sample_session_agent[OF that b] by simp
  have tool: "text_arg ''tool'' 64 True (PStr (s_tool (sample_session s))) = (Inr (lit ''codex'') :: pystr room_result)" for s
    by (simp add: sample_session_def text_arg_def utf8_size1_def is_space_def)
  have parts: "map_result (stored_participant (sample_peer_env 1000 ''u1'') sample_peer sample_w db)
      (rs_participants (sample_room_spec None None)) = Inr (rs_participants sample_final_spec)"
    using peer[of "''s1''"] peer[of "''s2''"] tool
    by (simp add: sample_room_spec_def sample_final_spec_def stored_participant_def)
  have "(sample_room_spec None None)\<lparr>rs_participants := rs_participants sample_final_spec, rs_deadline := Some 3600001000\<rparr>
      = sample_final_spec"
    by (simp add: sample_room_spec_def sample_final_spec_def)
  moreover have "text_arg ''specification'' ROOM_SPEC_LIMIT False (PStr (dumps_raw (room_spec_json sample_final_spec)))
      = (Inr (dumps_raw (room_spec_json sample_final_spec)) :: pystr room_result)"
    using sample_spec_bytes(2) sample_spec_no_nul(2) by (simp add: text_arg_def ROOM_SPEC_LIMIT_def)
  moreover have "rs_result_owner (sample_room_spec None None) = lit ''s1''" by (simp add: sample_room_spec_def)
  ultimately show ?thesis
    using parts peer[of "''s1''"] by (simp add: stored_specification_def Let_def)
qed

lemma sample_propose:
  obtains db where "sample_at (sample_proposal RPlanned 0 False 1000)
    [sample_entry 1000 ''u1'' ''s1'' KAccept sample_hash_json None] db"
proof -
  let ?env = "sample_peer_env 1000 ''u1''"
  let ?row = "sample_proposal RPlanned 0 False 1000"
  let ?c = "sample_entry 1000 ''u1'' ''s1'' KAccept sample_hash_json None"
  let ?db2 = "sample_room\<lparr>proposals := [?row], contributions := [?c]\<rparr>"
  have b: "lbase sample_room = sample_base" by (simp add: sample_room_def)
  have gate: "room_transaction ?env sample_peer (PStr (lit ''s1'')) sample_room = Inr (sample_session ''s1'', sample_w)"
    by (rule sample_room_gate) (simp_all add: b)
  have path: "workspace_path sample_room sample_w (PStr (lit ''/a'')) = (Inr () :: unit room_result)"
    by (simp add: workspace_path_def text_arg_def utf8_size1_def is_space_def)
  have sid: "s_id (sample_session ''s1'') = lit ''s1''" by (simp add: sample_session_def)
  have due: "room_deadline ?env (sample_room_spec None None) = Inr 3600001000"
    by (simp add: room_deadline_def sample_room_spec_def sample_peer_env_def seconds_def MAX_DEADLINE_DAYS_def)
  have row: "new_proposal ?env sample_w (the (operator_id sample_peer)) RoomBySession (Some (lit ''s1'')) (lit ''t'') (lit ''k'')
      (room_request_hash ?env (lit ''t'') (sample_room_spec None None) None (Some RoomBySession)) sample_final_spec
      3600001000 (lit ''PC-'' @ pe_uuid ?env) 1 0 = ?row"
    by (simp add: new_proposal_def sample_proposal_def sample_peer_def sample_peer_env_def sample_final_spec_def
        sample_room_spec_def room_request_hash_def)
  have ins: "insert_proposal ?row sample_room = Inr (sample_room\<lparr>proposals := [?row]\<rparr>)"
    by (simp add: insert_proposal_def sample_room_def proposal_checks_def sample_proposal_def)
  have app: "append_contribution ?env ?row (lit ''s1'') KAccept (spec_hash_json (cp_specification_hash ?row)) 0 None
      (sample_room\<lparr>proposals := [?row]\<rparr>) = Inr ?db2"
    by (simp add: append_contribution_def insert_contribution_def sample_room_def contribution_checks_def
        sample_entry_def sample_proposal_def sample_hash_json_def sample_peer_env_def contribution_hash_def)
  have live: "live_handle ?db2 (pe_now ?env) (s_id (sample_session ''s1''))"
    using room_transaction_Inr(3)[OF gate] by (subst live_handle_cong[where db = sample_room]) simp_all
  have rd: "all_readable ?db2" by (simp add: all_readable_def sample_entry_def sample_hash_json_def readable_hash)
  obtain v db where fin: "room_finish ?env ?row (sample_session ''s1'') ''proposed'' ?db2 = Inr (v, db)"
    and t: "told ?row ?db2 v db"
    using room_finish_total[OF live _ rd, of "''proposed''" ?row] by (auto simp: ROOM_ACTIONS_def)
  have owner: "rs_result_owner (sample_room_spec None None) = lit ''s1''" by (simp add: sample_room_spec_def)
  have "store_proposal ?env sample_peer sample_w (sample_session ''s1'') (lit ''t'') (lit ''k'')
      (room_request_hash ?env (lit ''t'') (sample_room_spec None None) None (Some RoomBySession))
      (sample_room_spec None None) None sample_room = Inr (v, db)"
    unfolding store_proposal_def option.case bind_result.simps due owner sid sample_stored[OF b] prod.case Let_def row ins app
    using fin by simp
  then have "propose_coordination ?env sample_peer (PStr (lit ''/a'')) (PStr (lit ''t'')) sample_room_request
      (PStr (lit ''s1'')) (PStr (lit ''k'')) None PNone sample_room = Inr (v, db)"
    using gate path sample_room_specification[of 1000 "''u1''"] sid
    by (simp add: propose_coordination_def text_arg_def utf8_size1_def is_space_def replaced_proposal_def find_creation_def
        sample_room_def)
  then have "room_step sample_room db" by (rule room_step.propose)
  moreover have "lbase db = sample_base"
    using room_finish_keeps[OF fin] sample_session_agent[of "''s1''" ?db2] b by simp
  ultimately have "sample_at ?row [?c] db" using t by (auto simp: sample_at_def told_def)
  then show ?thesis by (rule that)
qed

text \<open>Every later stage is reached by an operation on the row as it stands.\<close>

lemma sample_read:
  assumes "sample_at (sample_proposal st rv cl t) cs db" and s: "s \<in> {''s1'', ''s2''}"
    and rv: "rv < 100"
  shows "proposal db (PStr (lit ''PC-u1'')) (Some (sample_session s)) sample_w sample_peer
    = Inr (sample_proposal st rv cl t)"
    "room_transaction (sample_peer_env now u) sample_peer (PStr (lit s)) db = Inr (sample_session s, sample_w)"
    "addressable (sample_proposal st rv cl t)"
proof -
  let ?a = "sample_proposal st rv cl t"
  have p: "proposals db = [?a]" and b: "lbase db = sample_base" using assms(1) by (auto simp: sample_at_def)
  have "current db ?a" using p by (simp add: current_def get_proposal_def is_latest_def)
  moreover have "s_id (sample_session s) \<in> members_of ?a" using s by (auto simp: sample_members sample_session_def)
  moreover have "text_arg ''code'' 39 True (PStr (cp_code ?a)) = (Inr (cp_code ?a) :: pystr room_result)"
    by (simp add: sample_proposal_def text_arg_def utf8_size1_def is_space_def)
  ultimately show "proposal db (PStr (lit ''PC-u1'')) (Some (sample_session s)) sample_w sample_peer = Inr ?a"
    using proposal_ready[OF sample_at_ok[OF assms(1)], of ?a sample_w sample_peer "sample_session s"]
    by (simp add: sample_proposal_def sample_peer_def)
  show "room_transaction (sample_peer_env now u) sample_peer (PStr (lit s)) db = Inr (sample_session s, sample_w)"
    by (rule sample_room_gate[OF s b])
  show "addressable ?a" using rv by (simp add: addressable_def sample_proposal_def)
qed

lemma authors_entries:
  "authors P (entries db a) = set (map cc_author (filter (\<lambda>c. room_of c = proposal_key a \<and> P c) (contributions db)))"
  by (auto simp: authors_def entries_mem)

lemma sample_entry_simps [simp]:
  "room_of (sample_entry now u s kd payload key) = proposal_key (sample_proposal st rv cl t)"
  "cc_author (sample_entry now u s kd payload key) = lit s" "cc_kind (sample_entry now u s kd payload key) = kd"
  "cc_id (sample_entry now u s kd payload key) = lit ''c'' @ lit u" "cc_round (sample_entry now u s kd payload key) = 0"
  "cc_idempotency_key (sample_entry now u s kd payload key) = key"
  by (simp_all add: room_of_def proposal_key_def sample_entry_def sample_proposal_def)

lemma sample_committed:
  assumes at: "sample_at (sample_proposal st rv cl t) cs db" and s: "s \<in> {''s1'', ''s2''}"
    and c: "committed db (sample_proposal st' rv' cl' t') cs' (sample_session s) v db'" and st: "room_step db db'"
  shows "sample_at (sample_proposal st' rv' cl' t') (cs @ cs') db'"
proof -
  have "get_agent db (s_id (sample_session s)) = Some (sample_session s)" "s_pid (sample_session s) \<noteq> None"
    using sample_session_agent[OF s, of db] at by (auto simp: sample_at_def)
  moreover have "replace_row proposal_key (sample_proposal st' rv' cl' t') [sample_proposal st rv cl t]
      = [sample_proposal st' rv' cl' t']"
    by (simp add: replace_row_def proposal_key_def sample_proposal_def)
  ultimately show ?thesis
    using at c st unfolding sample_at_def committed_def by (auto intro: rtranclp.rtrancl_into_rtrancl)
qed

lemma sample_bump:
  "bumped now (sample_proposal st rv cl t) (sample_proposal st' rv cl' t') = sample_proposal st' (rv + 1) cl' now"
  "(sample_proposal st rv cl t)\<lparr>cp_status := st'\<rparr> = sample_proposal st' rv cl t"
  by (simp_all add: sample_proposal_def)

lemma sample_append:
  "append_contribution (sample_peer_env now u) (sample_proposal st rv cl t) (lit s) kd payload 0 key db
      = Inr (db\<lparr>contributions := contributions db @ [x]\<rparr>) \<Longrightarrow> x = sample_entry now u s kd payload key"
proof -
  assume a: "append_contribution (sample_peer_env now u) (sample_proposal st rv cl t) (lit s) kd payload 0 key db
      = Inr (db\<lparr>contributions := contributions db @ [x]\<rparr>)"
  then have "db\<lparr>contributions := contributions db @ [x]\<rparr>
      = db\<lparr>contributions := contributions db @ [sample_entry now u s kd payload key]\<rparr>"
    by (auto simp: append_contribution_def insert_contribution_def sample_entry_def sample_peer_env_def
        sample_proposal_def split: if_split_asm)
  from arg_cong[OF this, of contributions] show ?thesis by simp
qed

lemma sample_accept_room:
  obtains db where "sample_at (sample_proposal RAccepted 1 False 2000)
    [sample_entry 1000 ''u1'' ''s1'' KAccept sample_hash_json None,
     sample_entry 2000 ''u2'' ''s2'' KAccept sample_hash_json None] db"
proof -
  let ?a = "sample_proposal RPlanned 0 False 1000" and ?env = "sample_peer_env 2000 ''u2''"
  let ?c = "sample_entry 1000 ''u1'' ''s1'' KAccept sample_hash_json None"
  obtain db where at: "sample_at ?a [?c] db" by (rule sample_propose)
  have s: "''s2'' \<in> {''s1'', ''s2''}" by simp
  have rv: "(0 :: int) < 100" by simp
  note r = sample_read[OF at s rv]
  have c: "contributions db = [?c]" using at by (simp add: sample_at_def)
  have sid: "s_id (sample_session ''s2'') = lit ''s2''" by (simp add: sample_session_def)
  have acc: "acceptors (entries db ?a) = {lit ''s1''}"
    unfolding acceptors_def authors_entries c by simp
  have due: "pe_now ?env < cp_deadline_at ?a" and pl: "cp_status ?a = RPlanned"
    by (simp_all add: sample_peer_env_def sample_proposal_def)
  have new: "s_id (sample_session ''s2'') \<notin> acceptors (entries db ?a)" by (simp add: acc sid)
  have id: "\<forall>e\<in>set (contributions db). cc_id e \<noteq> pe_contribution_uuid ?env"
    by (simp add: c sample_peer_env_def)
  have ver: "PInt (cp_version ?a) = PInt 1" "PInt (cp_revision ?a) = PInt 0" by (simp_all add: sample_proposal_def)
  from accept_ready[OF sample_at_ok[OF at] r(2)[of 2000 "''u2''"] r(1) r(3) due pl new id]
  obtain v db' x where op: "accept_coordination ?env sample_peer (PStr (lit ''PC-u1'')) (PStr (lit ''s2''))
      (PInt (cp_version ?a)) (PInt (cp_revision ?a)) (PStr (cp_specification_hash ?a)) db = Inr (v, db')"
    and x: "append_contribution ?env ?a (s_id (sample_session ''s2'')) KAccept
      (spec_hash_json (cp_specification_hash ?a)) 0 None db = Inr (db\<lparr>contributions := contributions db @ [x]\<rparr>)"
    and m: "committed db (bumped (pe_now ?env) ?a (?a\<lparr>cp_status := (if insert (s_id (sample_session ''s2''))
      (acceptors (entries db ?a)) = members_of ?a then RAccepted else RPlanned)\<rparr>)) [x] (sample_session ''s2'') v db'"
    by auto
  have hash: "spec_hash_json (cp_specification_hash ?a) = sample_hash_json"
    by (simp add: sample_hash_json_def sample_proposal_def)
  have "insert (s_id (sample_session ''s2'')) (acceptors (entries db ?a)) = members_of ?a"
    by (auto simp: sid acc sample_members)
  moreover have "x = sample_entry 2000 ''u2'' ''s2'' KAccept sample_hash_json None"
    by (rule sample_append) (use x in \<open>simp only: sid hash\<close>)
  moreover have "bumped (pe_now ?env) ?a (sample_proposal RAccepted 0 False 1000) = sample_proposal RAccepted 1 False 2000"
    by (simp add: sample_proposal_def sample_peer_env_def)
  ultimately have "committed db (sample_proposal RAccepted 1 False 2000)
      [sample_entry 2000 ''u2'' ''s2'' KAccept sample_hash_json None] (sample_session ''s2'') v db'"
    using m by (simp only: if_True sample_bump(2) simp_thms)
  from that[OF sample_committed[OF at s this room_step.accept[OF op], simplified]] show ?thesis .
qed

lemma sample_advance:
  assumes at: "sample_at (sample_proposal st rv cl t) cs db" and rv: "rv < 100" and due: "now < 3600001000"
    and nb: "advance_blocked now (sample_proposal st rv cl t) (entries db (sample_proposal st rv cl t)) = None"
    and row: "advanced_row (sample_proposal st rv cl t) (sample_proposal st rv cl t) = sample_proposal st' rv cl' t"
  obtains db' where "sample_at (sample_proposal st' (rv + 1) cl' now) cs db'"
proof -
  let ?a = "sample_proposal st rv cl t" and ?env = "sample_peer_env now ''u''"
  have s: "''s1'' \<in> {''s1'', ''s2''}" by simp
  note r = sample_read[OF at s rv]
  have cr: "cp_creator_session_id ?a = Some (s_id (sample_session ''s1''))"
    by (simp add: sample_proposal_def sample_session_def)
  have nb': "advance_blocked (pe_now ?env) ?a (entries db ?a) = None" using nb by (simp add: sample_peer_env_def)
  have peers: "\<forall>m\<in>members_of ?a. \<exists>x. peer ?env sample_peer sample_w db m = Inr x"
    using peer_ready[OF sample_read(2)[OF at s rv, of now "''u''"]]
      peer_ready[OF sample_read(2)[OF at _ rv, of "''s2''" now "''u''"]]
    by (auto simp: sample_members sample_session_def)
  have rnd: "cp_round (advanced_row ?a ?a) \<in> {0..4}" unfolding row by (simp add: sample_proposal_def)
  from advance_ready[OF sample_at_ok[OF at] r(2)[of now "''u''"] r(1) r(3) cr nb' peers rnd]
  obtain v db' where op: "advance_coordination ?env sample_peer (PStr (lit ''PC-u1'')) (PStr (lit ''s1''))
      (PInt (cp_version ?a)) (PInt (cp_revision ?a)) db = Inr (v, db')"
    and m: "committed db (bumped (pe_now ?env) ?a (advanced_row ?a ?a)) [] (sample_session ''s1'') v db'" by blast
  have now: "pe_now ?env = now" by (simp add: sample_peer_env_def)
  show ?thesis
    using that[OF sample_committed[OF at s m[unfolded row sample_bump(1) now] room_step.advance[OF op], simplified]] .
qed

lemma sample_submit:
  assumes at: "sample_at (sample_proposal st rv cl t) cs db" and rv: "rv < 100" and s: "s \<in> {''s1'', ''s2''}"
    and due: "now < 3600001000" and kd: "kd \<in> {KInitial, KFinal}"
    and may: "may_submit (sample_proposal st rv cl t) (lit s) kd 0 = Inr ()"
    and fresh: "\<forall>e\<in>set cs. cc_id e \<noteq> lit ''c'' @ lit u \<and> cc_idempotency_key e \<noteq> Some (lit u)"
    and u: "text_arg ''idempotency_key'' 128 True (PStr (lit u)) = (Inr (lit u) :: pystr room_result)"
    and slot: "\<forall>e\<in>set cs. \<not> (cc_kind e = kd \<and> cc_author e = lit s)"
    and fin: "kd = KFinal \<Longrightarrow> \<forall>e\<in>set cs. cc_kind e \<noteq> KFinal"
  obtains db' where "sample_at (sample_proposal (if kd = KFinal then RCompleted else st) (rv + 1) cl now)
    (cs @ [sample_entry now u s kd (plain_body kd) (Some (lit u))]) db'"
proof -
  let ?a = "sample_proposal st rv cl t" and ?env = "sample_peer_env now u"
  note r = sample_read[OF at s rv]
  have sid: "s_id (sample_session s) = lit s" by (simp add: sample_session_def)
  have c: "contributions db = cs" using at by (simp add: sample_at_def)
  have now: "pe_now ?env = now" "pe_contribution_uuid ?env = lit ''c'' @ lit u" by (simp_all add: sample_peer_env_def)
  have d: "pe_now ?env < cp_deadline_at ?a" using due by (simp add: now sample_proposal_def)
  have ka: "kind_arg (PStr (lit (kind_text kd))) = Inr kd" using kd by (auto simp: kind_arg_def)
  have fr: "\<forall>e\<in>set (contributions db). cc_id e \<noteq> pe_contribution_uuid ?env \<and> cc_idempotency_key e \<noteq> Some (lit u)"
    unfolding now c by (rule fresh)
  have round: "submission_round ?a (entries db ?a) (s_id (sample_session s)) kd = Inr 0"
    using kd by (auto simp: submission_round_def)
  have sl: "\<not> (\<exists>e\<in>set (entries db ?a). cc_kind e = kd \<and> cc_round e = 0 \<and> cc_author e = s_id (sample_session s))"
    using slot by (auto simp: entries_mem c sid)
  have fi: "kd = KFinal \<Longrightarrow> \<not> (\<exists>e\<in>set (entries db ?a). cc_kind e = KFinal)"
    using fin by (auto simp: entries_mem c)
  from submit_ready[OF sample_at_ok[OF at] r(2) r(1) r(3) d ka u plain_payload_arg plain_readable fr round
      may[folded sid] sl fi]
  obtain v db' x where op: "submit_coordination ?env sample_peer (PStr (lit ''PC-u1'')) (PStr (lit (kind_text kd)))
      (plain_payload kd) (PStr (lit s)) (PInt (cp_version ?a)) (PInt (cp_revision ?a)) (PStr (lit u)) db = Inr (v, db')"
    and x: "append_contribution ?env ?a (s_id (sample_session s)) kd (plain_body kd) 0 (Some (lit u)) db
      = Inr (db\<lparr>contributions := contributions db @ [x]\<rparr>)"
    and m: "committed db (bumped (pe_now ?env) ?a (if kd = KFinal then ?a\<lparr>cp_status := RCompleted\<rparr> else ?a)) [x]
      (sample_session s) v db'"
    by blast
  have row: "(if kd = KFinal then ?a\<lparr>cp_status := RCompleted\<rparr> else ?a)
      = sample_proposal (if kd = KFinal then RCompleted else st) rv cl t"
    by (simp add: sample_bump(2))
  have "x = sample_entry now u s kd (plain_body kd) (Some (lit u))"
    by (rule sample_append) (use x in \<open>simp only: sid\<close>)
  then show ?thesis
    using that sample_committed[OF at s m[unfolded row sample_bump(1) now(1)] room_step.submit[OF op]] by simp
qed

text \<open>The contributions in their order.\<close>

definition sample_entries :: "contribution_row list" where
  "sample_entries =
     [sample_entry 1000 ''u1'' ''s1'' KAccept sample_hash_json None,
      sample_entry 2000 ''u2'' ''s2'' KAccept sample_hash_json None,
      sample_entry 4000 ''u4'' ''s1'' KInitial (plain_body KInitial) (Some (lit ''u4'')),
      sample_entry 5000 ''u5'' ''s2'' KInitial (plain_body KInitial) (Some (lit ''u5'')),
      sample_entry 7000 ''u7'' ''s1'' KFinal (plain_body KFinal) (Some (lit ''u7''))]"

lemma sample_key: "text_arg ''idempotency_key'' 128 True (PStr (lit u)) = (Inr (lit u) :: pystr room_result)"
  if "u \<in> {''u4'', ''u5'', ''u7''}"
  using that by (auto simp: text_arg_def utf8_size1_def is_space_def)

lemmas sample_fields = sample_proposal_def sample_final_spec_def sample_room_spec_def

lemma sample_may:
  "s \<in> {''s1'', ''s2''} \<Longrightarrow> may_submit (sample_proposal RCollecting rv cl t) (lit s) KInitial 0 = Inr ()"
  "may_submit (sample_proposal RDiscussing rv cl t) (lit ''s1'') KFinal 0 = Inr ()"
proof -
  show "s \<in> {''s1'', ''s2''} \<Longrightarrow> may_submit (sample_proposal RCollecting rv cl t) (lit s) KInitial 0 = Inr ()"
    by (auto simp: may_submit_def Let_def sample_members) (simp_all add: sample_proposal_def)
  show "may_submit (sample_proposal RDiscussing rv cl t) (lit ''s1'') KFinal 0 = Inr ()"
    by (simp add: may_submit_def final_ready_def sample_fields)
qed

lemma sample_collect_room:
  obtains db where "sample_at (sample_proposal RCollecting 2 False 3000) (take 2 sample_entries) db"
proof -
  obtain db where at: "sample_at (sample_proposal RAccepted 1 False 2000) (take 2 sample_entries) db"
    by (rule sample_accept_room) (simp add: sample_entries_def)
  have "acceptors (entries db (sample_proposal RAccepted 1 False 2000)) = {lit ''s1'', lit ''s2''}"
    using at unfolding acceptors_def authors_entries sample_at_def by (simp add: sample_entries_def)
  then have nb: "advance_blocked 3000 (sample_proposal RAccepted 1 False 2000)
      (entries db (sample_proposal RAccepted 1 False 2000)) = None"
    unfolding advance_blocked_def sample_members by (simp add: sample_fields OPEN_STATUSES_def)
  show ?thesis
    by (rule sample_advance[OF at _ _ nb, of RCollecting False])
       (simp_all add: advanced_row_def sample_fields that)
qed

lemma sample_initial_room:
  obtains db where "sample_at (sample_proposal RCollecting 4 False 5000) (take 4 sample_entries) db"
proof -
  obtain db where at: "sample_at (sample_proposal RCollecting 2 False 3000) (take 2 sample_entries) db"
    by (rule sample_collect_room)
  obtain db1 where "sample_at (sample_proposal (if KInitial = KFinal then RCompleted else RCollecting) (2 + 1) False 4000)
      (take 2 sample_entries @ [sample_entry 4000 ''u4'' ''s1'' KInitial (plain_body KInitial) (Some (lit ''u4''))]) db1"
    by (rule sample_submit[OF at _ _ _ _ sample_may(1) _ sample_key, where s = "''s1''" and u = "''u4''" and now = 4000])
       (auto simp: sample_entries_def)
  then have at1: "sample_at (sample_proposal RCollecting 3 False 4000) (take 3 sample_entries) db1"
    by (simp add: sample_entries_def)
  obtain db2 where "sample_at (sample_proposal (if KInitial = KFinal then RCompleted else RCollecting) (3 + 1) False 5000)
      (take 3 sample_entries @ [sample_entry 5000 ''u5'' ''s2'' KInitial (plain_body KInitial) (Some (lit ''u5''))]) db2"
    by (rule sample_submit[OF at1 _ _ _ _ sample_may(1) _ sample_key, where s = "''s2''" and u = "''u5''" and now = 5000])
       (auto simp: sample_entries_def)
  then show ?thesis by (intro that[of db2]) (simp add: sample_entries_def)
qed

lemma sample_discuss_room:
  obtains db where "sample_at (sample_proposal RDiscussing 5 True 6000) (take 4 sample_entries) db"
proof -
  obtain db where at: "sample_at (sample_proposal RCollecting 4 False 5000) (take 4 sample_entries) db"
    by (rule sample_initial_room)
  have "initial_authors (entries db (sample_proposal RCollecting 4 False 5000)) = {lit ''s1'', lit ''s2''}"
    using at unfolding initial_authors_def authors_entries sample_at_def by (simp add: sample_entries_def)
  then have nb: "advance_blocked 6000 (sample_proposal RCollecting 4 False 5000)
      (entries db (sample_proposal RCollecting 4 False 5000)) = None"
    unfolding advance_blocked_def sample_members by (simp add: sample_fields OPEN_STATUSES_def)
  show ?thesis
    by (rule sample_advance[OF at _ _ nb, of RDiscussing True])
       (simp_all add: advanced_row_def sample_fields that)
qed

lemma sample_completed_room:
  obtains db where "sample_at (sample_proposal RCompleted 6 True 7000) sample_entries db"
proof -
  obtain db where at: "sample_at (sample_proposal RDiscussing 5 True 6000) (take 4 sample_entries) db"
    by (rule sample_discuss_room)
  obtain db1 where "sample_at (sample_proposal (if KFinal = KFinal then RCompleted else RDiscussing) (5 + 1) True 7000)
      (take 4 sample_entries @ [sample_entry 7000 ''u7'' ''s1'' KFinal (plain_body KFinal) (Some (lit ''u7''))]) db1"
    by (rule sample_submit[OF at _ _ _ _ sample_may(2) _ sample_key, where u = "''u7''" and now = 7000])
       (auto simp: sample_entries_def)
  then show ?thesis by (intro that[of db1]) (simp add: sample_entries_def)
qed

end
