(* ===== verification/RoomProperties.thy ===== *)
theory RoomProperties imports RoomSample begin

text \<open>
  The properties of coordination rooms: what holds of a version along any run of the module, what a
  completed room means, what a member can see before the initial round closes, and why an open room
  can always go on.
\<close>

section \<open>One version over time\<close>

lemma room_event_open: "room_event a es b cs \<Longrightarrow> cp_status a \<in> set OPEN_STATUSES"
  by (cases rule: room_event.cases) (auto simp: OPEN_STATUSES_def final_ready_def)

lemma room_event_closed: "room_event a es b cs \<Longrightarrow> cp_initial_closed a \<Longrightarrow> cp_initial_closed b"
  by (cases rule: room_event.cases) (auto simp: room_phase_def)

text \<open>\<open>b\<close> is the same version as \<open>a\<close>, later.\<close>

definition later :: "'a room_db_scheme \<Rightarrow> proposal_row \<Rightarrow> proposal_row \<Rightarrow> 'a room_db_scheme \<Rightarrow> bool" where
  "later db a b db' \<longleftrightarrow> same_proposal a b \<and> cp_revision a \<le> cp_revision b \<and>
     (cp_revision a = cp_revision b \<longrightarrow> b = a \<and> set (entries db' b) = set (entries db a)) \<and>
     set (entries db a) \<subseteq> set (entries db' b) \<and> (cp_initial_closed a \<longrightarrow> cp_initial_closed b) \<and>
     (cp_status a \<notin> set OPEN_STATUSES \<longrightarrow> b = a)"

lemma later_refl: "later db a a db"
  by (simp add: later_def same_proposal_refl)

lemma later_trans:
  assumes "later d1 a b d2" and "later d2 b c d3"
  shows "later d1 a c d3"
  using assms same_proposal_trans[of a b c] unfolding later_def by auto

lemma row_step_later:
  assumes "row_step db a b db'"
  shows "later db a b db'"
  using assms unfolding row_step_def
proof
  assume "b = a \<and> set (entries db' a) = set (entries db a)"
  then show ?thesis by (simp add: later_def same_proposal_refl)
next
  assume "\<exists>cs. room_change db a b cs \<and> (\<forall>c\<in>set cs. contribution_checks c) \<and>
    set (entries db' b) = set (entries db a) \<union> set cs"
  then obtain cs where c: "room_event a (entries db a) b cs" "same_proposal a b" "cp_revision b = cp_revision a + 1"
    "set (entries db' b) = set (entries db a) \<union> set cs"
    by (auto simp: room_change_def)
  then show ?thesis
    using room_event_open[OF c(1)] room_event_closed[OF c(1)] by (auto simp: later_def)
qed

lemma room_tx_later:
  assumes "room_tx db db'" and "room_ok db" and "get_proposal db k = Some a"
  shows "\<exists>b. get_proposal db' k = Some b \<and> later db a b db'"
  using room_tx_existing[OF assms] row_step_later by blast

lemma room_steps_later:
  assumes "room_step\<^sup>*\<^sup>* db db'" and "room_ok db" and "get_proposal db k = Some a"
  shows "\<exists>b. get_proposal db' k = Some b \<and> later db a b db'"
  using assms(1)
proof (induction rule: rtranclp_induct)
  case base
  then show ?case using assms(3) later_refl by blast
next
  case (step y z)
  then obtain b where b: "get_proposal y k = Some b" "later db a b y" by blast
  have "room_ok y" using room_steps_ok[OF step(1) assms(2)] .
  then show ?case
    using room_tx_later[OF room_step_tx[OF step(2)] _ b(1)] later_trans[OF b(2)] by blast
qed

lemma contributions_append:
  assumes "room_step\<^sup>*\<^sup>* db db'" and "room_ok db"
  shows "\<exists>cs. contributions db' = contributions db @ cs"
  using assms(1)
proof (induction rule: rtranclp_induct)
  case (step y z)
  have "room_tx y z" using room_step_tx[OF step(2) room_steps_ok[OF step(1) assms(2)]] .
  then have "\<exists>cs. contributions z = contributions y @ cs"
    by cases (auto simp: added_def)
  then show ?case using step(3) by force
qed simp

text \<open>A version that is not the latest never becomes the latest again.\<close>

lemma superseded_stays:
  assumes "room_step\<^sup>*\<^sup>* db db'" and ok: "room_ok db" and a: "get_proposal db k = Some a" and n: "\<not> is_latest db a"
    and b: "get_proposal db' k = Some b"
  shows "\<not> is_latest db' b"
proof -
  obtain x where x: "x \<in> set (proposals db)" "cp_code x = cp_code a" "cp_version a < cp_version x"
    using n by (auto simp: is_latest_def not_le)
  then have "get_proposal db (proposal_key x) = Some x" using room_ok_get[OF ok] by blast
  then obtain y where y: "get_proposal db' (proposal_key x) = Some y"
    using room_steps_later[OF assms(1) ok] by blast
  then have "y \<in> set (proposals db')" and "proposal_key y = proposal_key x" and "proposal_key b = proposal_key a"
    using get_proposal_member[OF room_ok_keys[OF room_steps_ok[OF assms(1) ok]]]
      get_proposal_key[OF y] get_proposal_key[OF b] get_proposal_key[OF a] by auto
  then show ?thesis using x by (auto simp: is_latest_def proposal_key_def not_le intro!: bexI[of _ y])
qed

section \<open>What holds of every version\<close>

lemma reachable_ok:
  "room_step\<^sup>*\<^sup>* db0 db \<Longrightarrow> proposals db0 = [] \<Longrightarrow> contributions db0 = [] \<Longrightarrow> room_ok db"
  by (blast intro: room_steps_ok room_ok_empty)

lemma row_facts:
  assumes "room_ok db" and "get_proposal db k = Some a"
  shows "proposal_typed a" "room_state a (entries db a)" "proposal_key a = k"
    "cp_status a \<in> set OPEN_STATUSES \<Longrightarrow> is_latest db a"
  using room_ok_row[OF assms] get_proposal_key[OF assms(2)] by (auto simp: row_ok_def)

text \<open>One contribution per slot.\<close>

lemma entry_unique:
  assumes ok: "room_ok db" and e: "e \<in> set (entries db a)" "f \<in> set (entries db a)" "cc_slot e = cc_slot f"
  shows "e = f"
proof -
  have "inj_on (\<lambda>c. (room_of c, cc_slot c)) (set (contributions db))"
    using ok by (simp add: room_ok_def distinct_map)
  from inj_onD[OF this, of e f] show ?thesis using e by (simp add: entries_mem)
qed

text \<open>C14. A completed room means what it says. In every store that transactions of the module reach
  from empty tables, a completed version has one final, by its result owner; every member accepted
  exactly the specification hash of that version; every participant gave an initial contribution;
  and, by rounds, every participant contributed to every round, while a threaded discussion of at
  least one round heard every participant.\<close>

theorem room_completed_sound:
  assumes "room_step\<^sup>*\<^sup>* db0 db" and "proposals db0 = []" and "contributions db0 = []"
    and "get_proposal db k = Some a" and "cp_status a = RCompleted"
  shows "(\<exists>f\<in>set (entries db a). cc_kind f = KFinal \<and> cc_author f = cp_result_owner a \<and>
      (\<forall>g\<in>set (entries db a). cc_kind g = KFinal \<longrightarrow> g = f)) \<and>
    (\<forall>m\<in>members_of a. \<exists>e\<in>set (entries db a). cc_kind e = KAccept \<and> cc_author e = m \<and>
       cc_payload e = spec_hash_json (cp_specification_hash a)) \<and>
    initial_authors (entries db a) = participants_of a \<and>
    (mode_of a = ByRounds \<longrightarrow>
       (\<forall>n\<in>{1..rounds_of a}. discussion_authors (Some n) (entries db a) = participants_of a)) \<and>
    (mode_of a = Threaded \<and> 0 < rounds_of a \<longrightarrow> discussion_authors None (entries db a) = participants_of a)"
proof -
  have ok: "room_ok db" using reachable_ok[OF assms(1-3)] .
  let ?es = "entries db a"
  note s = row_facts(2)[OF ok assms(4), unfolded room_state_def]
  have ent: "\<And>e. e \<in> set ?es \<Longrightarrow> entry_ok a e" using s by blast
  have cl: "cp_initial_closed a" using s assms(5) by simp
  have acc: "acceptors ?es = members_of a" and ini: "initial_authors ?es = participants_of a"
    and rd: "rounds_done a ?es" and r: "cp_round a = 0 \<or> cp_round a > rounds_of a"
    using s assms(5) cl by auto
  obtain f where f: "f \<in> set ?es" "cc_kind f = KFinal" using s assms(5) by blast
  have slot: "cc_slot g = lit ''final''" if "g \<in> set ?es" "cc_kind g = KFinal" for g
    using ent[OF that(1)] that(2) by (simp add: entry_ok_def contribution_checks_def slot_of_def)
  have uq: "g = f" if "g \<in> set ?es" "cc_kind g = KFinal" for g
    by (rule entry_unique[OF ok that(1) f(1)]) (simp add: slot[OF that] slot[OF f])
  have one: "\<exists>f\<in>set ?es. cc_kind f = KFinal \<and> cc_author f = cp_result_owner a \<and>
      (\<forall>g\<in>set ?es. cc_kind g = KFinal \<longrightarrow> g = f)"
  proof (intro bexI[OF _ f(1)] conjI ballI impI)
    show "cc_author f = cp_result_owner a" using ent[OF f(1)] f(2) by (simp add: entry_ok_def)
  qed (use f(2) uq in blast)+
  have "\<forall>m\<in>members_of a. \<exists>e\<in>set ?es. cc_kind e = KAccept \<and> cc_author e = m \<and>
      cc_payload e = spec_hash_json (cp_specification_hash a)"
  proof
    fix m assume "m \<in> members_of a"
    then have "m \<in> acceptors ?es" using acc by simp
    then obtain e where e: "e \<in> set ?es" "cc_kind e = KAccept" "cc_author e = m"
      by (auto simp: acceptors_def authors_def)
    then show "\<exists>e\<in>set ?es. cc_kind e = KAccept \<and> cc_author e = m \<and>
        cc_payload e = spec_hash_json (cp_specification_hash a)" using ent[OF e(1)] by (auto simp: entry_ok_def)
  qed
  moreover have "mode_of a = ByRounds \<longrightarrow> (\<forall>n\<in>{1..rounds_of a}. discussion_authors (Some n) ?es = participants_of a)"
    using rd r by (auto simp: rounds_done_def)
  moreover have "mode_of a = Threaded \<and> 0 < rounds_of a \<longrightarrow> discussion_authors None ?es = participants_of a"
    using rd r by (auto simp: rounds_done_def)
  ultimately show ?thesis using one ini by (intro conjI)
qed

lemma sample_get: "sample_at a cs db \<Longrightarrow> get_proposal db (proposal_key a) = Some a"
  by (simp add: sample_at_def get_proposal_def)

lemma sample_empty: "proposals sample_room = []" "contributions sample_room = []"
  by (simp_all add: sample_room_def)

theorem room_completed_sound_witness:
  "\<exists>db a f. room_step\<^sup>*\<^sup>* sample_room db \<and> get_proposal db (lit ''PC-u1'', 1) = Some a \<and> cp_status a = RCompleted \<and>
     f \<in> set (entries db a) \<and> cc_kind f = KFinal \<and> cc_author f = lit ''s1''"
proof -
  let ?a = "sample_proposal RCompleted 6 True 7000"
  obtain db where at: "sample_at ?a sample_entries db" by (rule sample_completed_room)
  have k: "proposal_key ?a = (lit ''PC-u1'', 1)" "cp_status ?a = RCompleted" "cp_result_owner ?a = lit ''s1''"
    by (simp_all add: proposal_key_def sample_proposal_def)
  have r: "room_step\<^sup>*\<^sup>* sample_room db" using at by (simp add: sample_at_def)
  obtain f where "f \<in> set (entries db ?a)" "cc_kind f = KFinal" "cc_author f = cp_result_owner ?a"
    using room_completed_sound[OF r sample_empty sample_get[OF at] k(2)] by blast
  then show ?thesis using r sample_get[OF at] k by metis
qed

text \<open>The history of rooms is final. Contributions are only ever appended; a version keeps its
  specification, its hash, its owner and its deadline; a version that is completed or cancelled is
  never changed and receives no contribution again; and a closed initial round stays closed.\<close>

theorem room_history_final:
  assumes "room_ok db" and "room_step\<^sup>*\<^sup>* db db'" and "get_proposal db k = Some a"
  shows "(\<exists>cs. contributions db' = contributions db @ cs) \<and>
    (\<exists>b. get_proposal db' k = Some b \<and> same_proposal a b \<and> (cp_initial_closed a \<longrightarrow> cp_initial_closed b) \<and>
       (cp_status a \<in> {RCompleted, RCancelled} \<longrightarrow> b = a \<and> set (entries db' b) = set (entries db a)))"
proof -
  obtain b where b: "get_proposal db' k = Some b" "later db a b db'"
    using room_steps_later[OF assms(2,1,3)] by blast
  have "cp_status a \<in> {RCompleted, RCancelled} \<longrightarrow> b = a \<and> set (entries db' b) = set (entries db a)"
    using b(2) by (auto simp: later_def OPEN_STATUSES_def)
  then show ?thesis
    using contributions_append[OF assms(2,1)] b by (auto simp: later_def)
qed

theorem room_history_final_witness:
  "\<exists>(db :: room_db) a. get_proposal db (lit ''PC-u1'', 1) = Some a \<and> cp_status a = RCompleted \<and>
     (\<forall>db'. room_step\<^sup>*\<^sup>* db db' \<longrightarrow> get_proposal db' (lit ''PC-u1'', 1) = Some a)"
proof -
  let ?a = "sample_proposal RCompleted 6 True 7000"
  obtain db where at: "sample_at ?a sample_entries db" by (rule sample_completed_room)
  have k: "proposal_key ?a = (lit ''PC-u1'', 1)" "cp_status ?a = RCompleted"
    by (simp_all add: proposal_key_def sample_proposal_def)
  have f: "get_proposal db' (lit ''PC-u1'', 1) = Some ?a" if "room_step\<^sup>*\<^sup>* db db'" for db'
    using room_history_final[OF sample_at_ok[OF at] that sample_get[OF at]] k by auto
  show ?thesis
    by (intro exI[of _ db] exI[of _ ?a]) (use sample_get[OF at] k f in auto)
qed

lemma proposal_PStr:
  "proposal db (PStr c) actor w p = Inr row \<Longrightarrow> latest_proposal db c = Some row \<and> cp_code row = c"
  by (elim proposal_latest) auto

text \<open>A stale version or revision is always refused. Once version \<open>n\<close> of a room has moved past
  revision \<open>e\<close>, or has been replaced, then after any further transactions no caller commits or is
  answered by accepting, submitting to, advancing or cancelling it at \<open>(n, e)\<close>: a delayed message
  can neither act on a replaced specification nor on a state its sender did not see.\<close>

theorem room_stale_refused:
  assumes "room_ok db" and "room_step\<^sup>*\<^sup>* db db'" and "get_proposal db (c, n) = Some a"
    and "e < cp_revision a \<or> \<not> is_latest db a"
  shows "accept_coordination env p (PStr c) sid (PInt n) (PInt e) h db' \<noteq> Inr (v, d) \<and>
    submit_coordination env p (PStr c) kind payload sid (PInt n) (PInt e) key db' \<noteq> Inr (v, d) \<and>
    advance_coordination env p (PStr c) sid (PInt n) (PInt e) db' \<noteq> Inr (v, d) \<and>
    cancel_coordination env p (PStr c) reason sid (PInt n) (PInt e) db' \<noteq> Inr (v, d) \<and>
    advance_operator_coordination env p ws (PStr c) (PInt n) (PInt e) db' \<noteq> Inr (x, d) \<and>
    cancel_operator_coordination env p ws (PStr c) reason (PInt n) (PInt e) db' \<noteq> Inr (x, d)"
proof -
  have ok: "room_ok db'" using room_steps_ok[OF assms(2,1)] .
  obtain b where b: "get_proposal db' (c, n) = Some b" and l: "later db a b db'"
    using room_steps_later[OF assms(2,1,3)] by blast
  have past: False if "proposal db' (PStr c) actor w p = Inr row" "PInt n = PInt (cp_version row)" "PInt e = PInt (cp_revision row)"
    for actor w row
  proof -
    have cur: "current db' row" and "cp_code row = c" using proposal_current[OF ok that(1)] proposal_PStr[OF that(1)] by auto
    then have "proposal_key row = (c, n)" using that(2) by (simp add: proposal_key_def)
    then have "row = b" using cur b by (simp add: current_def)
    then have "is_latest db' b" "e = cp_revision b" using cur that(3) by (simp_all add: current_def)
    then show False
      using assms(4) superseded_stays[OF assms(2,1,3) _ b] l by (auto simp: later_def)
  qed
  show ?thesis
    using past by (intro conjI)
      (auto elim!: accept_coordination_Inr submit_coordination_Inr advance_coordination_Inr cancel_coordination_Inr
         advance_operator_Inr cancel_operator_room_Inr)
qed

theorem room_stale_refused_witness:
  "\<exists>(db :: room_db) a. get_proposal db (lit ''PC-u1'', 1) = Some a \<and> cp_revision a = 1 \<and>
     (\<forall>env h v d. accept_coordination env sample_peer (PStr (lit ''PC-u1'')) (PStr (lit ''s2'')) (PInt 1) (PInt 0) h db
        \<noteq> Inr (v, d))"
proof -
  let ?a = "sample_proposal RAccepted 1 False 2000"
  obtain db cs where at: "sample_at ?a cs db" by (rule sample_accept_room)
  have k: "proposal_key ?a = (lit ''PC-u1'', 1)" "cp_revision ?a = 1"
    by (simp_all add: proposal_key_def sample_proposal_def)
  have "accept_coordination env sample_peer (PStr (lit ''PC-u1'')) (PStr (lit ''s2'')) (PInt 1) (PInt 0) h db \<noteq> Inr (v, d)"
    for env h v d
    using room_stale_refused[OF sample_at_ok[OF at] rtranclp.rtrancl_refl sample_get[OF at, unfolded k(1)], of 0] k(2) by simp
  then show ?thesis using sample_get[OF at] k by metis
qed

text \<open>C17. Every version is well typed. In every store that transactions of the module reach from empty
  tables, each version has 2 to 8 distinct participants with their tools, 0 to 3 rounds and 1 to 3
  turns, a round of at most 4, and a deadline after its creation within thirty days; a version
  that is open is the latest of its room; and every contribution is filed in its one slot, of a
  round of 1 to 3 for discussion and 0 otherwise, under an existing version.\<close>

theorem room_well_typed:
  assumes "room_step\<^sup>*\<^sup>* db0 db" and "proposals db0 = []" and "contributions db0 = []"
  shows "(\<forall>a\<in>set (proposals db). length (rs_participants (cp_specification a)) \<in> {2..8} \<and>
       distinct (map pt_session_id (rs_participants (cp_specification a))) \<and>
       rounds_of a \<in> {0..3} \<and> rs_max_turns (cp_specification a) \<in> {1..3} \<and> cp_round a \<in> {0..4} \<and>
       cp_created_at a < cp_deadline_at a \<and> cp_deadline_at a \<le> cp_created_at a + seconds (30 * 86400) \<and>
       (cp_status a \<in> set OPEN_STATUSES \<longrightarrow>
          (\<forall>b\<in>set (proposals db). cp_code b = cp_code a \<longrightarrow> cp_version b \<le> cp_version a))) \<and>
    (\<forall>c\<in>set (contributions db). (\<exists>a\<in>set (proposals db). room_of c = proposal_key a) \<and>
       cc_slot c = slot_of (cc_kind c) (cc_round c) (cc_author c) \<and>
       (if cc_kind c = KDiscussion then cc_round c \<in> {1..3} else cc_round c = 0))"
proof -
  have ok: "room_ok db" using reachable_ok[OF assms] .
  have "proposal_typed a" "cp_status a \<in> set OPEN_STATUSES \<longrightarrow> is_latest db a" if "a \<in> set (proposals db)" for a
    using ok that by (auto simp: room_ok_def row_ok_def)
  moreover have "\<exists>a\<in>set (proposals db). room_of c = proposal_key a \<and> contribution_checks c"
    if c: "c \<in> set (contributions db)" for c
  proof -
    obtain a where a: "get_proposal db (room_of c) = Some a" using ok c by (auto simp: room_ok_def)
    have k: "proposal_key a = room_of c" and m: "a \<in> set (proposals db)"
      using a get_proposal_member[OF room_ok_keys[OF ok]] by auto
    have "entry_ok a c"
      using row_facts(2)[OF ok a] c k by (auto simp: room_state_def entries_mem)
    then show ?thesis using k m by (intro bexI[of _ a]) (simp_all add: entry_ok_def)
  qed
  ultimately show ?thesis
    by (fastforce simp: proposal_typed_def proposal_checks_def spec_typed_def is_latest_def contribution_checks_def
        MAX_DEADLINE_DAYS_def)
qed

theorem room_well_typed_witness:
  "\<exists>db a. room_step\<^sup>*\<^sup>* sample_room db \<and> proposals db = [a] \<and> cp_round a \<in> {0..4} \<and>
     (\<forall>c\<in>set (contributions db). room_of c = proposal_key a)"
proof -
  let ?a = "sample_proposal RCompleted 6 True 7000"
  obtain db where at: "sample_at ?a sample_entries db" by (rule sample_completed_room)
  then have r: "room_step\<^sup>*\<^sup>* sample_room db" and p: "proposals db = [?a]" by (simp_all add: sample_at_def)
  note w = room_well_typed[OF r sample_empty]
  have "cp_round ?a \<in> {0..4}" "\<forall>c\<in>set (contributions db). room_of c = proposal_key ?a"
    using w p by simp_all
  then show ?thesis using r p by blast
qed

section \<open>What a member sees\<close>

text \<open>What \<open>viewer\<close> may know of a contribution while the initial round is open.\<close>

definition masked :: "pystr option \<Rightarrow> contribution_row \<Rightarrow> contribution_row" where
  "masked viewer c =
     (if Some (cc_author c) = viewer \<and> cc_kind c = KInitial then c
      else c\<lparr>cc_id := [], cc_payload := JNull, cc_request_hash := [], cc_idempotency_key := None\<rparr>)"

lemma masked_simps [simp]:
  "cc_author (masked v c) = cc_author c" "cc_kind (masked v c) = cc_kind c" "cc_round (masked v c) = cc_round c"
  "cc_slot (masked v c) = cc_slot c" "cc_created_at (masked v c) = cc_created_at c"
  "cc_proposal_code (masked v c) = cc_proposal_code c" "cc_version (masked v c) = cc_version c"
  by (simp_all add: masked_def)

lemma filter_masked:
  "(\<And>c. P (masked v c) = P c) \<Longrightarrow> filter P (map (masked v) cs) = map (masked v) (filter P cs)"
  by (induction cs) auto

lemma entries_masked:
  "map (masked v) (entries db row) =
     sort_key cc_created_at (sort_key cc_slot
       (filter (\<lambda>c. cc_proposal_code c = cp_code row \<and> cc_version c = cp_version row)
         (map (masked v) (contributions db))))"
  unfolding entries_def
  by (subst filter_masked, simp, (subst sort_key_map, simp)+, simp)

lemma authors_masked: "(\<And>c. P (masked v c) = P c) \<Longrightarrow> authors P (map (masked v) es) = authors P es"
  by (simp add: authors_def filter_masked image_image del: set_filter)

text \<open>C15. Initial contributions are blind. Before the initial round of a version closes, what a member is
  shown of it does not depend on what any other member submitted: two stores that differ only in
  the payload, hash, id and key of other members' contributions give the same snapshot. An
  operator, who is no member, is shown none of them.\<close>

theorem initial_round_blind:
  assumes "\<not> cp_initial_closed row"
    and "map (masked viewer) (contributions db1) = map (masked viewer) (contributions db2)"
  shows "room_snapshot env db1 row viewer = room_snapshot env db2 row viewer"
proof -
  let ?e1 = "entries db1 row" and ?e2 = "entries db2 row"
  have e: "map (masked viewer) ?e1 = map (masked viewer) ?e2"
    unfolding entries_masked assms(2) ..
  have au: "authors P ?e1 = authors P ?e2" if "\<And>c. P (masked viewer c) = P c" for P
    using authors_masked[of P viewer ?e1] authors_masked[of P viewer ?e2] that e by simp
  have vis: "filter (shown row viewer) es = filter (shown row viewer) (map (masked viewer) es)" for es
    using assms(1) by (induction es) (auto simp: shown_def masked_def)
  have n: "length (filter P ?e1) = length (filter P ?e2)" if "\<And>c. P (masked viewer c) = P c" for P
    using filter_masked[of P viewer, OF that] e by (metis length_map)
  have sets: "acceptors ?e1 = acceptors ?e2" "initial_authors ?e1 = initial_authors ?e2"
    "discussion_authors r ?e1 = discussion_authors r ?e2" for r
    unfolding author_sets by (rule au, simp split: option.split)+
  have seen: "filter (shown row viewer) ?e1 = filter (shown row viewer) ?e2"
    using vis e by metis
  have count: "length (filter (\<lambda>e. cc_kind e \<noteq> KAccept) ?e1) = length (filter (\<lambda>e. cc_kind e \<noteq> KAccept) ?e2)"
    by (rule n) simp
  show ?thesis unfolding room_snapshot_def Let_def sets seen count ..
qed

theorem initial_round_blind_witness:
  "\<exists>(db1 :: room_db) (db2 :: room_db) row. contributions db1 \<noteq> contributions db2 \<and> entries db1 row \<noteq> [] \<and>
     room_snapshot (sample_peer_env 6000 ''u'') db1 row (Some (lit ''s1''))
       = room_snapshot (sample_peer_env 6000 ''u'') db2 row (Some (lit ''s1''))"
proof -
  let ?a = "sample_proposal RCollecting 4 False 5000"
  let ?e = "\<lambda>body. sample_entry 5000 ''u5'' ''s2'' KInitial body (Some (lit ''u5''))"
  let ?db1 = "sample_room\<lparr>proposals := [?a], contributions := [?e (plain_body KInitial)]\<rparr>"
  let ?db2 = "sample_room\<lparr>proposals := [?a], contributions := [?e JNull]\<rparr>"
  have "\<not> cp_initial_closed ?a" by (simp add: sample_proposal_def)
  then have eq: "room_snapshot (sample_peer_env 6000 ''u'') ?db1 ?a (Some (lit ''s1''))
      = room_snapshot (sample_peer_env 6000 ''u'') ?db2 ?a (Some (lit ''s1''))"
    by (rule initial_round_blind) (simp add: masked_def sample_entry_def)
  have "?e (plain_body KInitial) \<in> set (entries ?db1 ?a)" by (simp add: entries_mem)
  then have ne: "entries ?db1 ?a \<noteq> []" by (metis empty_iff empty_set)
  have diff: "contributions ?db1 \<noteq> contributions ?db2" by (simp add: sample_entry_def plain_body_def)
  show ?thesis by (intro exI[of _ ?db1] exI[of _ ?db2] exI[of _ ?a] conjI diff ne eq)
qed

text \<open>Dissent survives to the answer. In a reachable store every version of a room can be shown to
  every member; once its initial round is closed each of them is shown every contribution of it,
  and the answer lists as dissent exactly the contributions whose dissent is not blank, and as the
  final the payload of the final contribution.\<close>

theorem room_view_complete:
  assumes "room_ok db" and "get_proposal db k = Some a" and "cp_initial_closed a"
  shows "\<exists>v. room_snapshot env db a viewer = Inr v \<and>
    rv_contributions v = map view_contribution (filter (\<lambda>e. cc_kind e \<noteq> KAccept) (entries db a)) \<and>
    rv_dissent v = filter (\<lambda>c. dissent_text (cv_payload c) \<noteq> Inr []) (rv_contributions v) \<and>
    (\<forall>f\<in>set (entries db a). cc_kind f = KFinal \<longrightarrow> rv_final v = Some (cc_payload f))"
proof -
  let ?es = "entries db a"
  let ?vs = "map view_contribution (filter (shown a viewer) ?es)"
  have "\<forall>e\<in>set ?es. readable (cc_payload e)" using assms(1) by (auto simp: room_ok_def entries_mem)
  then obtain v where v: "room_snapshot env db a viewer = Inr v" using room_snapshot_total by blast
  then obtain ds where d: "dissenting ?vs = Inr ds" and f: "rv_contributions v = ?vs" "rv_dissent v = ds"
    "rv_final v = map_option cv_payload (find (\<lambda>c. cv_kind c = KFinal) ?vs)"
    by (auto simp: room_snapshot_def Let_def bind_result_eq_Inr)
  have s: "shown a viewer = (\<lambda>e. cc_kind e \<noteq> KAccept)" using assms(3) by (auto simp: shown_def)
  have ent: "\<And>e. e \<in> set ?es \<Longrightarrow> entry_ok a e"
    using row_facts(2)[OF assms(1,2)] by (simp add: room_state_def)
  have "rv_final v = Some (cc_payload x)" if x: "x \<in> set ?es" "cc_kind x = KFinal" for x
  proof -
    have slot: "cc_slot g = lit ''final''" if "g \<in> set ?es" "cc_kind g = KFinal" for g
      using ent[OF that(1)] that(2) by (simp add: entry_ok_def contribution_checks_def slot_of_def)
    have uq: "g = x" if "g \<in> set ?es" "cc_kind g = KFinal" for g
      by (rule entry_unique[OF assms(1) that(1) x(1)]) (simp add: slot[OF that] slot[OF x])
    have "view_contribution x \<in> set ?vs" using x by (simp add: s)
    then obtain c where c: "find (\<lambda>c. cv_kind c = KFinal) ?vs = Some c"
      using x(2) by (cases "find (\<lambda>c. cv_kind c = KFinal) ?vs") (auto simp: find_None_iff view_contribution_def)
    then obtain g where "g \<in> set ?es" "c = view_contribution g" "cc_kind g = KFinal"
      by (auto dest!: find_SomeD simp: view_contribution_def)
    then have "c = view_contribution x" using uq by blast
    then show ?thesis using f(3) c by (simp add: view_contribution_def)
  qed
  then show ?thesis using v f(1,2) dissenting_Inr[OF d] s by auto
qed

theorem room_view_complete_witness:
  "\<exists>(db :: room_db) a v. room_snapshot (sample_peer_env 8000 ''u'') db a (Some (lit ''s2'')) = Inr v \<and>
     rv_final v = Some (plain_body KFinal) \<and>
     rv_dissent v = filter (\<lambda>c. dissent_text (cv_payload c) \<noteq> Inr []) (rv_contributions v)"
proof -
  let ?a = "sample_proposal RCompleted 6 True 7000"
  let ?f = "sample_entry 7000 ''u7'' ''s1'' KFinal (plain_body KFinal) (Some (lit ''u7''))"
  obtain db where at: "sample_at ?a sample_entries db" by (rule sample_completed_room)
  have cl: "cp_initial_closed ?a" by (simp add: sample_proposal_def)
  have f: "?f \<in> set (entries db ?a)" "cc_kind ?f = KFinal" "cc_payload ?f = plain_body KFinal"
    using at by (simp_all add: entries_mem sample_at_def sample_entries_def) (simp add: sample_entry_def)
  show ?thesis
    using room_view_complete[OF sample_at_ok[OF at] sample_get[OF at] cl, of "sample_peer_env 8000 ''u''" "Some (lit ''s2'')"] f
    by metis
qed

section \<open>Progress\<close>

text \<open>What an operation leaves as the row of the version: the next revision of the same proposal.\<close>

definition moved_on :: "proposal_row \<Rightarrow> proposal_row \<Rightarrow> bool" where
  "moved_on a b \<longleftrightarrow> cp_revision b = cp_revision a + 1 \<and> same_proposal a b"

lemma bumped_moved_on: "same_proposal a r \<Longrightarrow> moved_on a (bumped n a r)"
  by (simp add: moved_on_def same_proposal_def)

lemma member_ready:
  assumes "room_ok db" and "current db a" and "room_transaction env p (PStr m) db = Inr (actor, w)" and "m \<in> members_of a"
    and "w_id w = cp_workspace_id a" and "operator_id p = Some (cp_creator_operator_id a)"
    and "text_arg ''code'' 39 True (PStr (cp_code a)) = (Inr (cp_code a) :: pystr room_result)"
  shows "s_id actor = m" and "proposal db (PStr (cp_code a)) (Some actor) w p = Inr a"
proof -
  show m: "s_id actor = m"
    by (rule pyval.inject(4)[THEN iffD1, OF room_transaction_Inr(1)[OF assms(3)], symmetric])
  show "proposal db (PStr (cp_code a)) (Some actor) w p = Inr a"
    by (rule proposal_ready[OF assms(1,2,7,5,6)]) (simp only: m assms(4))
qed

lemma debt_paid:
  assumes ok: "room_ok db" and a: "get_proposal db k = Some a" "pe_now env < cp_deadline_at a" "addressable a"
    and owed: "owes a (entries db a) kd m"
    and g: "room_transaction env p (PStr m) db = Inr (actor, w)" "s_id actor = m" "proposal db (PStr (cp_code a)) (Some actor) w p = Inr a"
    and key: "text_arg ''idempotency_key'' 128 True (PStr key) = (Inr key :: pystr room_result)"
    and new: "\<forall>e\<in>set (contributions db). cc_id e \<noteq> pe_contribution_uuid env \<and> cc_idempotency_key e \<noteq> Some key"
  shows "\<exists>v db'. moved_on a (rv_row v) \<and>
    (if kd = KAccept
     then accept_coordination env p (PStr (cp_code a)) (PStr m) (PInt (cp_version a)) (PInt (cp_revision a))
       (PStr (cp_specification_hash a)) db = Inr (v, db')
     else \<exists>payload. submit_coordination env p (PStr (cp_code a)) (PStr (lit (kind_text kd))) payload (PStr m)
       (PInt (cp_version a)) (PInt (cp_revision a)) (PStr key) db = Inr (v, db'))"
proof -
  note f = row_facts[OF ok a(1)]
  note o = owed_may_be_paid[OF f(1,2) owed]
  show ?thesis
  proof (cases "kd = KAccept")
    case True
    note ac = o(2)[OF True]
    from accept_ready[OF ok g(1,3) a(3,2) conjunct1[OF ac]] ac g(2) new
    obtain v db' s where "accept_coordination env p (PStr (cp_code a)) (PStr m) (PInt (cp_version a)) (PInt (cp_revision a))
        (PStr (cp_specification_hash a)) db = Inr (v, db')" "rv_row v = bumped (pe_now env) a (a\<lparr>cp_status := s\<rparr>)"
      unfolding committed_def by blast
    then show ?thesis
      using True bumped_moved_on[OF same_status(1)] by (intro exI[of _ v] exI[of _ db']) simp_all
  next
    case False
    then obtain round where c: "may_contribute a (entries db a) kd m round" using o(3) by blast
    have ka: "kind_arg (PStr (lit (kind_text kd))) = Inr kd" using False by (cases kd) (auto simp: kind_arg_def)
    obtain v db' where s: "submit_coordination env p (PStr (cp_code a)) (PStr (lit (kind_text kd))) (plain_payload kd) (PStr m)
        (PInt (cp_version a)) (PInt (cp_revision a)) (PStr key) db = Inr (v, db')"
      "rv_row v = bumped (pe_now env) a (if kd = KFinal then a\<lparr>cp_status := RCompleted\<rparr> else a)"
      using submit_ready[OF ok g(1,3) a(3,2) ka key plain_payload_arg plain_readable new, of round]
        c g(2) unfolding may_contribute_def committed_def by blast
    have "same_proposal a (if kd = KFinal then a\<lparr>cp_status := RCompleted\<rparr> else a)" by (simp add: same_proposal_def)
    then have "moved_on a (rv_row v)" using s(2) bumped_moved_on by simp
    then show ?thesis
      unfolding if_not_P[OF False] using s(1) by (intro exI[of _ v] exI[of _ db']) blast
  qed
qed

lemma round_advanced:
  assumes ok: "room_ok db" and a: "get_proposal db k = Some a" "pe_now env < cp_deadline_at a" "addressable a"
    and op: "cp_status a \<in> set OPEN_STATUSES" and none: "\<forall>kd m. \<not> owes a (entries db a) kd m"
    and s0: "cp_creator_session_id a = Some s0"
    and g: "room_transaction env p (PStr s0) db = Inr (actor, w)" "s_id actor = s0" "proposal db (PStr (cp_code a)) (Some actor) w p = Inr a"
    and peers: "\<forall>x\<in>members_of a. \<exists>s. peer env p w db x = Inr s"
  shows "\<exists>v db'. moved_on a (rv_row v) \<and>
    advance_coordination env p (PStr (cp_code a)) (PStr s0) (PInt (cp_version a)) (PInt (cp_revision a)) db = Inr (v, db')"
proof -
  note f = row_facts[OF ok a(1)]
  note nb = nothing_owed[OF f(1,2) op a(2) none]
  obtain v db' where "advance_coordination env p (PStr (cp_code a)) (PStr s0) (PInt (cp_version a)) (PInt (cp_revision a)) db
      = Inr (v, db')" "rv_row v = bumped (pe_now env) a (advanced_row a a)"
    using advance_ready[OF ok g(1,3) a(3) _ conjunct1[OF nb] peers conjunct2[OF nb]] s0 g(2)
    unfolding committed_def by auto
  moreover have "same_proposal a (advanced_row a a)"
    by (simp add: advanced_row_def Let_def same_proposal_def split: exchange_mode.split)
  ultimately show ?thesis using bumped_moved_on by metis
qed

text \<open>C16. An open room goes on as long as its members do. In a reachable store, take the latest version
  of a room that a Session proposed, open and before its deadline, and let every member's Session pass
  the gate for one caller, the room's creator operator. Then whoever owes something (an acceptance, an
  initial contribution, a contribution to the discussion, the final) has the operation that pays it,
  and it succeeds with the version and revision just read; and when nobody owes anything, the advance
  of the creator's Session succeeds. Either takes the version to its next revision. A room whose
  creator is an operator, or one of whose members has ended, is not covered.\<close>

theorem room_progress:
  assumes "room_ok db" and "get_proposal db k = Some a" and "cp_status a \<in> set OPEN_STATUSES"
    and "pe_now env < cp_deadline_at a" and "cp_creator_session_id a = Some s0" and "addressable a"
    and "\<forall>m\<in>members_of a. \<exists>actor. room_transaction env p (PStr m) db = Inr (actor, w)"
    and "w_id w = cp_workspace_id a" and "operator_id p = Some (cp_creator_operator_id a)"
    and "text_arg ''code'' 39 True (PStr (cp_code a)) = (Inr (cp_code a) :: pystr room_result)"
    and "text_arg ''idempotency_key'' 128 True (PStr key) = (Inr key :: pystr room_result)"
    and "\<forall>e\<in>set (contributions db). cc_id e \<noteq> pe_contribution_uuid env \<and> cc_idempotency_key e \<noteq> Some key"
  shows "(\<forall>kd m. owes a (entries db a) kd m \<longrightarrow>
      m \<in> members_of a \<and> (\<exists>v db'. cp_revision (rv_row v) = cp_revision a + 1 \<and> same_proposal a (rv_row v) \<and>
        (if kd = KAccept
         then accept_coordination env p (PStr (cp_code a)) (PStr m) (PInt (cp_version a)) (PInt (cp_revision a))
           (PStr (cp_specification_hash a)) db = Inr (v, db')
         else \<exists>payload. submit_coordination env p (PStr (cp_code a)) (PStr (lit (kind_text kd))) payload (PStr m)
           (PInt (cp_version a)) (PInt (cp_revision a)) (PStr key) db = Inr (v, db')))) \<and>
    ((\<forall>kd m. \<not> owes a (entries db a) kd m) \<longrightarrow>
      (\<exists>v db'. cp_revision (rv_row v) = cp_revision a + 1 \<and> same_proposal a (rv_row v) \<and>
        advance_coordination env p (PStr (cp_code a)) (PStr s0) (PInt (cp_version a)) (PInt (cp_revision a)) db
          = Inr (v, db')))"
proof -
  note f = row_facts[OF assms(1,2)]
  have cur: "current db a" using assms(1,2) f(3) f(4)[OF assms(3)] by (simp add: current_def)
  have at: "\<exists>actor. room_transaction env p (PStr m) db = Inr (actor, w) \<and> s_id actor = m \<and>
      proposal db (PStr (cp_code a)) (Some actor) w p = Inr a" if "m \<in> members_of a" for m
    using bspec[OF assms(7) that] member_ready[OF assms(1) cur _ that assms(8-10)] by blast
  have peers: "\<forall>x\<in>members_of a. \<exists>s. peer env p w db x = Inr s" using at peer_ready by metis
  have m: "s0 \<in> members_of a" using assms(5) by (simp add: members_of_def)
  show ?thesis
  proof (intro conjI allI impI)
    fix kd m assume owed: "owes a (entries db a) kd m"
    show member: "m \<in> members_of a" by (rule owed_may_be_paid(1)[OF f(1,2) owed])
    obtain actor where g: "room_transaction env p (PStr m) db = Inr (actor, w)" "s_id actor = m"
      "proposal db (PStr (cp_code a)) (Some actor) w p = Inr a" using at[OF member] by blast
    from debt_paid[OF assms(1,2,4,6) owed g assms(11,12)]
    show "\<exists>v db'. cp_revision (rv_row v) = cp_revision a + 1 \<and> same_proposal a (rv_row v) \<and>
        (if kd = KAccept
         then accept_coordination env p (PStr (cp_code a)) (PStr m) (PInt (cp_version a)) (PInt (cp_revision a))
           (PStr (cp_specification_hash a)) db = Inr (v, db')
         else \<exists>payload. submit_coordination env p (PStr (cp_code a)) (PStr (lit (kind_text kd))) payload (PStr m)
           (PInt (cp_version a)) (PInt (cp_revision a)) (PStr key) db = Inr (v, db'))"
      unfolding moved_on_def conj_assoc .
  next
    assume none: "\<forall>kd m. \<not> owes a (entries db a) kd m"
    obtain actor where g: "room_transaction env p (PStr s0) db = Inr (actor, w)" "s_id actor = s0"
      "proposal db (PStr (cp_code a)) (Some actor) w p = Inr a" using at[OF m] by blast
    from round_advanced[OF assms(1,2,4,6,3) none assms(5) g peers]
    show "\<exists>v db'. cp_revision (rv_row v) = cp_revision a + 1 \<and> same_proposal a (rv_row v) \<and>
        advance_coordination env p (PStr (cp_code a)) (PStr s0) (PInt (cp_version a)) (PInt (cp_revision a)) db
          = Inr (v, db')"
      unfolding moved_on_def conj_assoc .
  qed
qed

theorem room_progress_witness:
  "\<exists>(db :: room_db) a payload v (db' :: room_db). get_proposal db (lit ''PC-u1'', 1) = Some a \<and> cp_status a = RDiscussing \<and>
     owes a (entries db a) KFinal (lit ''s1'') \<and> cp_revision a = 5 \<and> cp_revision (rv_row v) = 6 \<and>
     submit_coordination (sample_peer_env 7000 ''u7'') sample_peer (PStr (lit ''PC-u1'')) (PStr (lit ''final'')) payload
        (PStr (lit ''s1'')) (PInt 1) (PInt 5) (PStr (lit ''u7'')) db = Inr (v, db')"
proof -
  let ?a = "sample_proposal RDiscussing 5 True 6000" and ?env = "sample_peer_env 7000 ''u7''"
  obtain db where at: "sample_at ?a (take 4 sample_entries) db" by (rule sample_discuss_room)
  have k: "proposal_key ?a = (lit ''PC-u1'', 1)" "cp_code ?a = lit ''PC-u1''" "cp_version ?a = 1" "cp_revision ?a = 5"
    "cp_status ?a = RDiscussing"
    by (simp_all add: proposal_key_def sample_proposal_def)
  have o: "cp_status ?a \<in> set OPEN_STATUSES" "pe_now ?env < cp_deadline_at ?a" "cp_creator_session_id ?a = Some (lit ''s1'')"
    "addressable ?a" "w_id sample_w = cp_workspace_id ?a" "operator_id sample_peer = Some (cp_creator_operator_id ?a)"
    by (simp_all add: sample_proposal_def OPEN_STATUSES_def sample_peer_env_def addressable_def sample_peer_def)
  have g: "\<forall>m\<in>members_of ?a. \<exists>actor. room_transaction ?env sample_peer (PStr m) db = Inr (actor, sample_w)"
    using sample_room_gate[of "''s1''" db 7000 "''u7''"] sample_room_gate[of "''s2''" db 7000 "''u7''"] at
    unfolding sample_members sample_at_def by blast
  have code: "text_arg ''code'' 39 True (PStr (cp_code ?a)) = (Inr (cp_code ?a) :: pystr room_result)"
    unfolding k(2) by (simp add: text_arg_def utf8_size1_def is_space_def)
  have fresh: "\<forall>e\<in>set (contributions db). cc_id e \<noteq> pe_contribution_uuid ?env \<and> cc_idempotency_key e \<noteq> Some (lit ''u7'')"
    using at by (auto simp: sample_at_def sample_entries_def sample_peer_env_def)
  have key: "''u7'' \<in> {''u4'', ''u5'', ''u7''}" by simp
  have owed: "owes ?a (entries db ?a) KFinal (lit ''s1'')" by (simp add: owes_def sample_proposal_def)
  have ne: "KFinal \<noteq> KAccept" "kind_text KFinal = ''final''" by simp_all
  from room_progress[OF sample_at_ok[OF at] sample_get[OF at] o(1-4) g o(5,6) code sample_key[OF key] fresh, THEN conjunct1,
      rule_format, OF owed, unfolded k if_not_P[OF ne(1)] ne(2)]
  obtain v db' payload where m: "cp_revision (rv_row v) = 5 + 1"
    "submit_coordination ?env sample_peer (PStr (lit ''PC-u1'')) (PStr (lit ''final'')) payload
        (PStr (lit ''s1'')) (PInt 1) (PInt 5) (PStr (lit ''u7'')) db = Inr (v, db')"
    by (elim conjE exE)
  show ?thesis
    by (rule exI[of _ db], rule exI[of _ ?a], rule exI[of _ payload], rule exI[of _ v], rule exI[of _ db'], intro conjI m(2) owed)
      (use sample_get[OF at] k m(1) in simp_all)
qed

section \<open>Threaded discussions without rounds\<close>

text \<open>With \<open>discussion_rounds\<close> 0 in threaded mode nothing stops the creator from advancing again and
  again; the advance out of round 4 violates the check constraint on the round.\<close>

lemma zero_rounds_overflow:
  assumes "row \<in> set (proposals db)" and "cp_status row = RDiscussing" and "mode_of row = Threaded"
    and "rounds_of row = 0" and "cp_round row = 4" and "now < cp_deadline_at row"
    and "discussion_authors None (entries db row) = participants_of row"
  shows "advance_blocked now row (entries db row) = None \<and> room_cas now row (advanced_row row) db = Inl IntegrityError"
proof -
  have "advance_blocked now row (entries db row) = None"
    using assms(2-7) by (simp add: advance_blocked_def Let_def OPEN_STATUSES_def)
  moreover have "\<not> proposal_checks ((advanced_row row row)\<lparr>cp_revision := cp_revision row + 1, cp_updated_at := now\<rparr>)"
    using assms(2-5) by (simp add: advanced_row_def Let_def proposal_checks_def)
  ultimately show ?thesis using assms(1) by (auto simp: room_cas_def Let_def)
qed

end
