(* ===== verification/EventStore.thy ===== *)
theory EventStore imports Bus Json begin

text \<open>
  Models \<open>src/brains/events/store.py\<close>: the durable log behind the realtime bus. An event is committed
  under the id the store assigns and only then handed to the bus; a client that reconnects reads
  what it missed by cursor, and is told when the log can no longer prove that nothing is missing.
  The lemmas at the end relate the table to everything that was ever committed to it.
\<close>

section \<open>Rows and envelopes\<close>

text \<open>The payload is what \<open>json.loads\<close> reads back from \<open>payload_json\<close>.\<close>

record realtime_event =
  re_id :: int
  re_topic :: pystr
  re_event_type :: pystr
  re_entity :: "pystr option"
  re_entity_id :: "pystr option"
  re_org_id :: "int option"
  re_workspace_id :: "int option"
  re_dedupe_key :: "pystr option"
  re_payload :: "(pystr \<times> json) list"
  re_created_at :: instant

text \<open>What an envelope carries besides the fields the bus reads.\<close>

record frame_body =
  fb_entity :: "pystr option"
  fb_entity_id :: "pystr option"
  fb_payload :: "(pystr \<times> json) list"

type_synonym event_envelope = "frame_body envelope"

definition envelope_for :: "realtime_event \<Rightarrow> event_envelope" where
  "envelope_for row =
     \<lparr>ev_type = re_event_type row, ev_topic = Some (re_topic row), ev_ts = re_created_at row,
      ev_payload = \<lparr>fb_entity = re_entity row, fb_entity_id = re_entity_id row, fb_payload = re_payload row\<rparr>,
      ev_seq = None, ev_event_id = Some (re_id row), ev_durable = True,
      ev_org_id = re_org_id row, ev_workspace_id = re_workspace_id row\<rparr>"

lemma envelope_for_simps [simp]:
  "ev_topic (envelope_for r) = Some (re_topic r)" "ev_event_id (envelope_for r) = Some (re_id r)"
  "ev_durable (envelope_for r)" "ev_seq (envelope_for r) = None"
  "ev_org_id (envelope_for r) = re_org_id r" "ev_workspace_id (envelope_for r) = re_workspace_id r"
  by (simp_all add: envelope_for_def)

section \<open>Settings\<close>

text \<open>The two environment variables, as text; unset is the empty text.\<close>

record log_env =
  le_retention :: pystr
  le_replay_limit :: pystr

definition DEFAULT_RETENTION_ROWS :: int where "DEFAULT_RETENTION_ROWS = 5000"
definition DEFAULT_REPLAY_LIMIT :: int where "DEFAULT_REPLAY_LIMIT = 500"

definition env_int :: "pystr \<Rightarrow> int \<Rightarrow> int" where
  "env_int raw deflt =
     (if strip raw = [] then deflt
      else case py_int (strip raw) of
             None \<Rightarrow> deflt
           | Some v \<Rightarrow> if v \<ge> 0 then v else deflt)"

definition retention_rows :: "log_env \<Rightarrow> int" where
  "retention_rows cfg = env_int (le_retention cfg) DEFAULT_RETENTION_ROWS"

definition replay_limit :: "log_env \<Rightarrow> int" where
  "replay_limit cfg = max 1 (env_int (le_replay_limit cfg) DEFAULT_REPLAY_LIMIT)"

lemma replay_limit_pos [simp]: "0 < replay_limit cfg"
  by (simp add: replay_limit_def)

section \<open>The table\<close>

type_synonym event_table = "realtime_event list"

definition latest_event_id :: "event_table \<Rightarrow> int" where
  "latest_event_id rows = (if rows = [] then 0 else Max (set (map re_id rows)))"

definition earliest_event_id :: "event_table \<Rightarrow> int" where
  "earliest_event_id rows = (if rows = [] then 0 else Min (set (map re_id rows)))"

definition PRUNE_EVERY :: int where "PRUNE_EVERY = 128"
definition WRITE_ATTEMPTS :: nat where "WRITE_ATTEMPTS = 6"

text \<open>The trimmed table and the number of deleted rows; a failure leaves the table as it was.\<close>

definition prune :: "log_env \<Rightarrow> bool \<Rightarrow> event_table \<Rightarrow> nat \<times> event_table" where
  "prune cfg fails rows =
     (let keep = retention_rows cfg; bottom = latest_event_id rows - keep
      in if keep \<le> 0 \<or> fails \<or> bottom \<le> 0 then (0, rows)
         else (rows_matching (\<lambda>r. re_id r \<le> bottom) rows, filter (\<lambda>r. \<not> re_id r \<le> bottom) rows))"

section \<open>Recording an event\<close>

record event_request =
  er_topic :: pystr
  er_event_type :: pystr
  er_entity :: "pystr option"
  er_entity_id :: "pystr option"
  er_org_id :: "int option"
  er_workspace_id :: "int option"
  er_payload :: "(pystr \<times> json) list option"
  er_dedupe_key :: "pystr option"

text \<open>SQLite gives a row the largest id in the table plus one.\<close>

definition new_event :: "event_request \<Rightarrow> instant \<Rightarrow> event_table \<Rightarrow> realtime_event" where
  "new_event r now rows =
     \<lparr>re_id = latest_event_id rows + 1, re_topic = er_topic r, re_event_type = er_event_type r,
      re_entity = er_entity r, re_entity_id = map_option (take 64) (er_entity_id r),
      re_org_id = er_org_id r, re_workspace_id = er_workspace_id r, re_dedupe_key = er_dedupe_key r,
      re_payload = (case er_payload r of None \<Rightarrow> [] | Some p \<Rightarrow> p), re_created_at = now\<rparr>"

text \<open>
  What the store does to a commit besides the unique key: \<open>OperationalError\<close> for a busy writer,
  \<open>IntegrityError\<close> from another constraint, and any other exception.
\<close>

datatype write_fault = WriteLocked | WriteInvalid | WriteBroken

text \<open>One run of \<open>record_event\<close> against a store that others use too.\<close>

record write_sched =
  wr_fault :: "nat \<Rightarrow> write_fault option"
  wr_now :: "nat \<Rightarrow> instant"
  wr_others :: "nat \<Rightarrow> event_table \<Rightarrow> event_table"
  wr_prune_fails :: bool

datatype write_answer = WriteAgain | WriteRaised | Recorded event_envelope bool event_table

definition find_dedupe :: "pystr option \<Rightarrow> event_table \<Rightarrow> realtime_event option" where
  "find_dedupe key rows =
     (case key of None \<Rightarrow> None | Some k \<Rightarrow> find (\<lambda>e. re_dedupe_key e = Some k) rows)"

definition write_event ::
    "write_fault option \<Rightarrow> instant \<Rightarrow> event_request \<Rightarrow> event_table \<Rightarrow> write_answer" where
  "write_event fault now r rows =
     (if fault = Some WriteLocked then WriteAgain
      else if fault = Some WriteBroken then WriteRaised
      else if fault = Some WriteInvalid \<or> find_dedupe (er_dedupe_key r) rows \<noteq> None
      then if er_dedupe_key r = None \<or> er_dedupe_key r = Some [] then WriteRaised
           else (case find_dedupe (er_dedupe_key r) rows of
                   None \<Rightarrow> WriteRaised
                 | Some existing \<Rightarrow> Recorded (envelope_for existing) False rows)
      else Recorded (envelope_for (new_event r now rows)) True (rows @ [new_event r now rows]))"

text \<open>\<open>None\<close> is a raised exception.\<close>

fun record_tries ::
    "log_env \<Rightarrow> write_sched \<Rightarrow> event_request \<Rightarrow> nat \<Rightarrow> nat \<Rightarrow> event_table
     \<Rightarrow> (event_envelope \<times> bool) option \<times> event_table" where
  "record_tries cfg sch r 0 i rows = (None, rows)"
| "record_tries cfg sch r (Suc n) i rows =
     (let rows1 = wr_others sch i rows
      in case write_event (wr_fault sch i) (wr_now sch i) r rows1 of
           WriteAgain \<Rightarrow> record_tries cfg sch r n (Suc i) rows1
         | WriteRaised \<Rightarrow> (None, rows1)
         | Recorded env created rows2 \<Rightarrow>
             (Some (env, created),
              if created \<and> the (ev_event_id env) mod PRUNE_EVERY = 0
              then snd (prune cfg (wr_prune_fails sch) rows2) else rows2))"

definition record_event ::
    "log_env \<Rightarrow> write_sched \<Rightarrow> event_request \<Rightarrow> event_table \<Rightarrow> (event_envelope \<times> bool) option \<times> event_table" where
  "record_event cfg sch r rows = record_tries cfg sch r WRITE_ATTEMPTS 0 rows"

text \<open>
  The record and its announcement are one critical section of the process. \<open>deliver\<close> writes its
  sequence number into the envelope that is returned.
\<close>

definition publish_durable ::
    "log_env \<Rightarrow> write_sched \<Rightarrow> event_request \<Rightarrow> event_table \<Rightarrow> frame_body event_bus
     \<Rightarrow> event_envelope option \<times> event_table \<times> frame_body event_bus" where
  "publish_durable cfg sch r rows bus =
     (case record_event cfg sch r rows of
        (None, rows') \<Rightarrow> (None, rows', bus)
      | (Some (env, created), rows') \<Rightarrow>
          if created then (let (env', bus') = deliver env bus in (Some env', rows', bus'))
          else (Some env, rows', bus))"

section \<open>Replay\<close>

definition RESET_CURSOR_EXPIRED :: string where "RESET_CURSOR_EXPIRED = ''cursor_expired''"
definition RESET_CURSOR_AHEAD :: string where "RESET_CURSOR_AHEAD = ''cursor_ahead''"
definition RESET_REPLAY_TRUNCATED :: string where "RESET_REPLAY_TRUNCATED = ''replay_truncated''"

record replay_result =
  rr_events :: "event_envelope list"
  rr_cursor :: int
  rr_gap :: bool
  rr_reason :: "string option"

definition in_scope :: "subscription_scope \<Rightarrow> realtime_event \<Rightarrow> bool" where
  "in_scope sc row =
     (if (case (sc_org_ids sc, re_org_id row) of (Some ids, Some i) \<Rightarrow> i \<notin> ids | _ \<Rightarrow> False) then False
      else \<not> (case (sc_workspace_ids sc, re_workspace_id row) of (Some ids, Some i) \<Rightarrow> i \<notin> ids | _ \<Rightarrow> False))"

lemma in_scope_allows: "in_scope sc row = allows sc (envelope_for row)"
  by (simp add: in_scope_def allows_def scope_allows_def)

text \<open>The rows a replay reads, before its bound: those of the wanted topics past the cursor.\<close>

definition wanted_rows :: "pystr list \<Rightarrow> int \<Rightarrow> event_table \<Rightarrow> event_table" where
  "wanted_rows topics after rows =
     sort_key re_id (filter (\<lambda>e. re_topic e \<in> set topics \<and> re_topic e \<noteq> [] \<and> re_id e > after) rows)"

definition replay ::
    "log_env \<Rightarrow> pystr list \<Rightarrow> int option \<Rightarrow> int option \<Rightarrow> subscription_scope \<Rightarrow> event_table \<Rightarrow> replay_result" where
  "replay cfg topics after_id limit sc rows =
     (let wanted = filter (\<lambda>t. t \<noteq> []) topics;
          bound = (case limit of None \<Rightarrow> replay_limit cfg | Some l \<Rightarrow> max 1 l);
          newest = latest_event_id rows
      in case after_id of
           None \<Rightarrow> \<lparr>rr_events = [], rr_cursor = newest, rr_gap = False, rr_reason = None\<rparr>
         | Some after \<Rightarrow>
             if after < 0 \<or> after > newest
             then \<lparr>rr_events = [], rr_cursor = newest, rr_gap = True, rr_reason = Some RESET_CURSOR_AHEAD\<rparr>
             else
               let earliest = earliest_event_id rows;
                   gap = (earliest \<noteq> 0 \<and> after + 1 < earliest);
                   reason = (if gap then Some RESET_CURSOR_EXPIRED else None)
               in if wanted = []
                  then \<lparr>rr_events = [], rr_cursor = (if gap then newest else after), rr_gap = gap, rr_reason = reason\<rparr>
                  else
                    let found = take (nat (bound + 1)) (wanted_rows wanted after rows);
                        truncated = int (length found) > bound;
                        kept = take (nat bound) found;
                        events = map envelope_for (filter (in_scope sc) kept);
                        cursor = (if kept = [] then after else re_id (last kept))
                    in if truncated
                       then \<lparr>rr_events = events, rr_cursor = cursor, rr_gap = True,
                             rr_reason = Some RESET_REPLAY_TRUNCATED\<rparr>
                       else \<lparr>rr_events = events, rr_cursor = (if gap \<and> kept = [] then newest else cursor),
                             rr_gap = gap, rr_reason = reason\<rparr>)"

section \<open>The table and its history\<close>

text \<open>\<open>logged H rows\<close>: \<open>H\<close> is every event ever committed, \<open>rows\<close> what the table holds after some prunes.\<close>

inductive logged :: "event_table \<Rightarrow> event_table \<Rightarrow> bool" where
  logged_empty: "logged [] []"
| logged_write: "\<lbrakk>logged H rows; write_event fault now r rows = Recorded env True rows'\<rbrakk> \<Longrightarrow>
    logged (H @ [last rows']) rows'"
| logged_prune: "logged H rows \<Longrightarrow> logged H (snd (prune cfg fails rows))"

text \<open>Ids count from one without a gap, and the table is a nonempty end of the history.\<close>

definition numbered :: "event_table \<Rightarrow> bool" where
  "numbered H \<longleftrightarrow> map re_id H = map (\<lambda>i. int i + 1) [0..<length H]"

definition end_of :: "event_table \<Rightarrow> event_table \<Rightarrow> bool" where
  "end_of H rows \<longleftrightarrow> numbered H \<and> (\<exists>old. H = old @ rows) \<and> (rows = [] \<longrightarrow> H = [])"

lemma numbered_nth:
  assumes "numbered H" and "i < length H"
  shows "re_id (H ! i) = int i + 1"
proof -
  have "map re_id H ! i = map (\<lambda>i. int i + 1) [0..<length H] ! i" using assms(1) by (simp only: numbered_def)
  then show ?thesis using assms(2) by simp
qed

lemma numbered_sorted: "numbered H \<Longrightarrow> sorted_wrt (<) (map re_id H)"
  by (simp add: sorted_wrt_iff_nth_less numbered_nth)

lemma end_of_split:
  assumes "end_of H rows"
  obtains old where "H = old @ rows" "numbered H" "\<And>e. e \<in> set old \<Longrightarrow> re_id e \<le> int (length old)"
    "\<And>e. e \<in> set rows \<Longrightarrow> int (length old) < re_id e \<and> re_id e \<le> int (length H)"
proof -
  obtain old where H: "H = old @ rows" and n: "numbered H" using assms unfolding end_of_def by blast
  have o: "re_id e \<le> int (length old)" if e: "e \<in> set old" for e
  proof -
    obtain i where i: "i < length old" "old ! i = e" using e unfolding in_set_conv_nth by blast
    then show ?thesis using numbered_nth[OF n, of i] by (simp add: H nth_append)
  qed
  have r: "int (length old) < re_id e \<and> re_id e \<le> int (length H)" if e: "e \<in> set rows" for e
  proof -
    obtain i where i: "i < length rows" "rows ! i = e" using e unfolding in_set_conv_nth by blast
    then show ?thesis using numbered_nth[OF n, of "length old + i"] by (simp add: H nth_append)
  qed
  from that[OF H n o r] show thesis .
qed

lemma end_of_latest:
  assumes "end_of H rows"
  shows "latest_event_id rows = int (length H)"
proof (cases "rows = []")
  case True
  then show ?thesis using assms by (simp add: latest_event_id_def end_of_def)
next
  case False
  obtain old where H: "H = old @ rows" "numbered H"
    and r: "\<And>e. e \<in> set rows \<Longrightarrow> int (length old) < re_id e \<and> re_id e \<le> int (length H)"
    using end_of_split[OF assms] by blast
  have "H \<noteq> []" and "last H = last rows" using False H(1) by simp_all
  then have "last rows = H ! (length H - 1)" by (simp add: last_conv_nth)
  then have "re_id (last rows) = int (length H)"
    using numbered_nth[OF H(2), of "length H - 1"] False H(1) by (cases "length H") auto
  then have "int (length H) \<in> re_id ` set rows" using False by (metis imageI last_in_set)
  then have "Max (re_id ` set rows) = int (length H)" by (intro Max_eqI) (use r in auto)
  then show ?thesis using False by (simp add: latest_event_id_def)
qed

lemma write_event_created:
  assumes "write_event fault now r rows = Recorded env True rows'"
  shows "rows' = rows @ [new_event r now rows]" "env = envelope_for (new_event r now rows)"
  using assms by (auto simp: write_event_def split: if_splits option.splits)

lemma end_of_write:
  assumes "end_of H rows" and "write_event fault now r rows = Recorded env True rows'"
  shows "end_of (H @ [last rows']) rows'" "re_id (last rows') = int (length H) + 1" "env = envelope_for (last rows')"
    "re_dedupe_key (last rows') = er_dedupe_key r"
proof -
  note w = write_event_created[OF assms(2)]
  have i: "re_id (new_event r now rows) = int (length H) + 1"
    by (simp add: new_event_def end_of_latest[OF assms(1)])
  have "numbered (H @ [last rows'])" using assms(1) i by (simp add: end_of_def numbered_def w)
  then show "end_of (H @ [last rows']) rows'" using assms(1) unfolding end_of_def w by auto
  show "re_id (last rows') = int (length H) + 1" "env = envelope_for (last rows')"
    "re_dedupe_key (last rows') = er_dedupe_key r"
    using i by (simp_all add: w) (simp add: new_event_def)
qed

lemma filter_above_end:
  "sorted_wrt (<) (map re_id rows) \<Longrightarrow> \<exists>old. rows = old @ filter (\<lambda>r. \<not> re_id r \<le> b) rows"
proof (induction rows)
  case (Cons r rows)
  show ?case
  proof (cases "re_id r \<le> b")
    case True
    obtain old where "rows = old @ filter (\<lambda>r. \<not> re_id r \<le> b) rows" using Cons by auto
    then have "r # rows = (r # old) @ filter (\<lambda>r. \<not> re_id r \<le> b) (r # rows)" using True by simp
    then show ?thesis ..
  next
    case False
    have "filter (\<lambda>r. \<not> re_id r \<le> b) rows = rows" using Cons.prems False by (auto intro!: filter_True)
    then show ?thesis using False by (auto intro: exI[of _ "[]"])
  qed
qed simp

lemma end_of_prune:
  assumes "end_of H rows"
  shows "end_of H (snd (prune cfg fails rows))"
proof -
  let ?b = "latest_event_id rows - retention_rows cfg"
  let ?kept = "filter (\<lambda>r. \<not> re_id r \<le> ?b) rows"
  obtain old where H: "H = old @ rows" and n: "numbered H" using assms unfolding end_of_def by blast
  have "sorted_wrt (<) (map re_id rows)" using numbered_sorted[OF n] by (simp add: H sorted_wrt_append)
  then obtain cut where cut: "rows = cut @ ?kept" using filter_above_end by blast
  have ne: "?kept \<noteq> []" if "rows \<noteq> []" "0 < retention_rows cfg"
  proof -
    have "Max (set (map re_id rows)) \<in> set (map re_id rows)" by (rule Max_in) (use that in auto)
    then have "latest_event_id rows \<in> re_id ` set rows" using that(1) by (simp add: latest_event_id_def)
    then obtain e where "e \<in> set rows" "re_id e = latest_event_id rows" by auto
    then have "e \<in> set ?kept" using that(2) by simp
    then show ?thesis by (metis empty_iff empty_set)
  qed
  have "H = (old @ cut) @ ?kept" using H cut by simp
  then have "end_of H ?kept" if "0 < retention_rows cfg"
    using n ne[OF _ that] assms unfolding end_of_def by blast
  then show ?thesis using assms by (auto simp: prune_def Let_def)
qed

lemma logged_end: "logged H rows \<Longrightarrow> end_of H rows"
  by (induction rule: logged.induct) (simp_all add: end_of_write end_of_prune, simp add: end_of_def numbered_def)

text \<open>What others commit between the attempts is such writes and prunes too.\<close>

definition others_log :: "write_sched \<Rightarrow> bool" where
  "others_log sch \<longleftrightarrow> (\<forall>i H rows. logged H rows \<longrightarrow> (\<exists>more. logged (H @ more) (wr_others sch i rows)))"

lemma record_tries_logged:
  assumes "others_log sch" and "logged H rows" and "record_tries cfg sch r n i rows = (res, rows')"
  shows "\<exists>more. logged (H @ more) rows' \<and>
    (\<forall>env. res = Some (env, True) \<longrightarrow> more \<noteq> [] \<and> env = envelope_for (last more) \<and>
       re_id (last more) = int (length (H @ more)) \<and> re_dedupe_key (last more) = er_dedupe_key r) \<and>
    (\<forall>env. res = Some (env, False) \<longrightarrow> (\<exists>e\<in>set rows'. env = envelope_for e \<and> re_dedupe_key e = er_dedupe_key r))"
  using assms(2,3)
proof (induction n arbitrary: i H rows)
  case 0
  then show ?case by (auto intro: exI[of _ "[]"])
next
  case (Suc n)
  obtain m where m: "logged (H @ m) (wr_others sch i rows)" using assms(1) Suc.prems(1) unfolding others_log_def by blast
  note w = Suc.prems(2)
  show ?case
  proof (cases "write_event (wr_fault sch i) (wr_now sch i) r (wr_others sch i rows)")
    case WriteAgain
    then have "record_tries cfg sch r n (Suc i) (wr_others sch i rows) = (res, rows')" using w by (simp add: Let_def)
    from Suc.IH[OF m this] obtain more where l: "logged ((H @ m) @ more) rows'"
      and a: "\<forall>env. res = Some (env, True) \<longrightarrow> more \<noteq> [] \<and> env = envelope_for (last more) \<and>
        re_id (last more) = int (length ((H @ m) @ more)) \<and> re_dedupe_key (last more) = er_dedupe_key r"
      and b: "\<forall>env. res = Some (env, False) \<longrightarrow> (\<exists>e\<in>set rows'. env = envelope_for e \<and> re_dedupe_key e = er_dedupe_key r)"
      by blast
    show ?thesis by (intro exI[of _ "m @ more"] conjI b) (use l a in auto)
  next
    case WriteRaised
    then show ?thesis using m w by (auto simp: Let_def)
  next
    case (Recorded env created rows2)
    show ?thesis
    proof (cases created)
      case True
      have rec: "write_event (wr_fault sch i) (wr_now sch i) r (wr_others sch i rows) = Recorded env True rows2"
        using Recorded True by simp
      have l: "logged (H @ m @ [last rows2]) rows'"
        using logged_write[OF m rec] w rec True logged_prune by (auto simp: Let_def split: if_splits)
      have "re_id (last rows2) = int (length (H @ m)) + 1" "env = envelope_for (last rows2)"
        "re_dedupe_key (last rows2) = er_dedupe_key r"
        using end_of_write[OF logged_end[OF m] rec] by auto
      then show ?thesis
        using l w rec by (intro exI[of _ "m @ [last rows2]"]) (auto simp: Let_def)
    next
      case False
      then have "rows' = wr_others sch i rows" "res = Some (env, False)"
        "\<exists>e\<in>set rows'. env = envelope_for e \<and> re_dedupe_key e = er_dedupe_key r"
        using Recorded w by (auto simp: Let_def write_event_def find_dedupe_def split: if_splits option.splits simp: find_Some_iff)
      then show ?thesis using m by (intro exI[of _ m]) auto
    qed
  qed
qed

lemmas record_event_logged = record_tries_logged[where n = WRITE_ATTEMPTS and i = 0, folded record_event_def]

end
