(* ===== verification/Gateway.thy ===== *)
theory Gateway imports EventStore TopicPolicy begin

text \<open>
  Models the realtime transports of \<open>src/brains/api/ws.py\<close>: the connection with its grants, scope and
  cursor, the writer that keeps catch-up batches and live frames apart, the handling of each client
  message, the pump and the revalidation loop. The tasks of a connection and the publishers of the
  process interleave, so everything is a step on one state, split where the code awaits. The echoed
  \<open>ref\<close> of a message is left out. The cursor a console resumes from is that of
  \<open>frontend/src/realtime/protocol.ts\<close>.
\<close>

section \<open>Connections\<close>

record gw_conn =
  cn_principal :: principal
  cn_grants :: "topic_grant list"
  cn_scope :: subscription_scope
  cn_cursor :: int

definition new_connection :: "store \<Rightarrow> principal \<Rightarrow> gw_conn" where
  "new_connection db p =
     \<lparr>cn_principal = p, cn_grants = [], cn_scope = subscription_scope_of db (Some p), cn_cursor = 0\<rparr>"

definition MAX_TOPICS_PER_CONNECTION :: nat where "MAX_TOPICS_PER_CONNECTION = 256"

definition held :: "gw_conn \<Rightarrow> pystr set" where
  "held c = set (map g_topic (cn_grants c))"

definition conn_topics :: "gw_conn \<Rightarrow> pystr list" where
  "conn_topics c = sort (map g_topic (cn_grants c))"

text \<open>\<open>grants[topic] = grant\<close> replaces an entry in place.\<close>

definition put_grant :: "topic_grant \<Rightarrow> topic_grant list \<Rightarrow> topic_grant list" where
  "put_grant g gs =
     (if g_topic g \<in> g_topic ` set gs then map (\<lambda>h. if g_topic h = g_topic g then g else h) gs else gs @ [g])"

text \<open>The grants held, up to the bound, and the connection holding them.\<close>

fun conn_add :: "topic_grant list \<Rightarrow> gw_conn \<Rightarrow> topic_grant list \<times> gw_conn" where
  "conn_add [] c = ([], c)"
| "conn_add (g # gs) c =
     (if g_topic g \<notin> held c \<and> length (cn_grants c) \<ge> MAX_TOPICS_PER_CONNECTION then conn_add gs c
      else (let (more, c') = conn_add gs (c\<lparr>cn_grants := put_grant g (cn_grants c)\<rparr>) in (g # more, c')))"

definition drop_grant :: "pystr \<Rightarrow> gw_conn \<Rightarrow> gw_conn" where
  "drop_grant t c = c\<lparr>cn_grants := filter (\<lambda>g. g_topic g \<noteq> t) (cn_grants c)\<rparr>"

fun conn_remove :: "pystr list \<Rightarrow> gw_conn \<Rightarrow> pystr list \<times> gw_conn" where
  "conn_remove [] c = ([], c)"
| "conn_remove (t # ts) c =
     (if t \<in> held c then (let (removed, c') = conn_remove ts (drop_grant t c) in (t # removed, c'))
      else conn_remove ts c)"

definition refresh_scope :: "store \<Rightarrow> gw_conn \<Rightarrow> gw_conn" where
  "refresh_scope db c = c\<lparr>cn_scope := subscription_scope_of db (Some (cn_principal c))\<rparr>"

text \<open>Every held topic is derived again; \<open>Inl\<close> when a policy read raises.\<close>

fun rederive :: "store \<Rightarrow> principal \<Rightarrow> topic_grant list \<Rightarrow> gw_conn \<Rightarrow> topic_error + pystr list \<times> gw_conn" where
  "rederive db p [] c = Inr ([], c)"
| "rederive db p (g # gs) c =
     bind_result (resolve_topic db (Some p) (PStr (g_requested g))) (\<lambda>regrant.
       if (case regrant of None \<Rightarrow> True | Some r \<Rightarrow> g_topic r \<noteq> g_topic g)
       then bind_result (rederive db p gs (drop_grant (g_topic g) c)) (\<lambda>(lost, c'). Inr (g_topic g # lost, c'))
       else rederive db p gs c)"

definition reauthorize :: "store \<Rightarrow> principal \<Rightarrow> gw_conn \<Rightarrow> topic_error + pystr list \<times> gw_conn" where
  "reauthorize db p c = rederive db p (cn_grants c) (refresh_scope db (c\<lparr>cn_principal := p\<rparr>))"

definition conn_replay :: "log_env \<Rightarrow> gw_conn \<Rightarrow> pystr list \<Rightarrow> int option \<Rightarrow> event_table \<Rightarrow> replay_result" where
  "conn_replay cfg c topics cursor rows = replay cfg topics cursor None (cn_scope c) rows"

section \<open>Cursors and frames\<close>

definition as_cursor :: "pyval \<Rightarrow> int option" where
  "as_cursor raw =
     (case raw of
        PInt i \<Rightarrow> Some i
      | PStr s \<Rightarrow> if strip s = [] then None else py_int (strip s)
      | _ \<Rightarrow> None)"

datatype frame =
    SubscribeAck bool "pystr list" "pystr list" "(pystr \<times> pystr) list" int bool
  | ResyncAck int
  | PlainAck
  | ResetFrame "string option" int "pystr list"
  | Replayed event_envelope
  | ReplayComplete "int option" "pystr list" nat bool "int option"
  | LiveFrame event_envelope
  | RevokedFrame string "pystr list option"
  | ErrorFrame string
  | Pong

definition REVOKED_CREDENTIAL :: string where "REVOKED_CREDENTIAL = ''credential_revoked''"
definition REVOKED_SCOPE :: string where "REVOKED_SCOPE = ''scope_revoked''"
definition REVOKED_REVALIDATION_FAILED :: string where "REVOKED_REVALIDATION_FAILED = ''revalidation_failed''"

definition pre_replay_cursor :: "int option \<Rightarrow> replay_result \<Rightarrow> int" where
  "pre_replay_cursor requested r =
     (case requested of None \<Rightarrow> rr_cursor r | Some c \<Rightarrow> if rr_gap r then rr_cursor r else c)"

definition replay_ids :: "replay_result \<Rightarrow> pystr \<Rightarrow> int set" where
  "replay_ids r t = set (concat (map (\<lambda>e. case ev_event_id e of Some i \<Rightarrow> [i] | None \<Rightarrow> [])
                             (filter (\<lambda>e. ev_topic e = Some t) (rr_events r))))"

definition replay_delivered :: "replay_result \<Rightarrow> pystr \<Rightarrow> int set option" where
  "replay_delivered r t = (if replay_ids r t = {} then None else Some (replay_ids r t))"

definition replay_high_water :: "replay_result \<Rightarrow> int" where
  "replay_high_water r = fold (\<lambda>e h. case ev_event_id e of Some i \<Rightarrow> max i h | None \<Rightarrow> h) (rr_events r) 0"

definition receipt_cursor :: "replay_result \<Rightarrow> bool \<Rightarrow> int option" where
  "receipt_cursor r covers = (if covers then Some (rr_cursor r) else None)"

definition replay_complete_frame :: "replay_result \<Rightarrow> pystr list \<Rightarrow> int option \<Rightarrow> bool \<Rightarrow> frame" where
  "replay_complete_frame r topics cursor covers =
     ReplayComplete cursor topics (length (rr_events r)) covers
       (if cursor = None then Some (replay_high_water r) else None)"

text \<open>The reset (if any), the catch-up frames, the receipt, and the cursor of the connection after them.\<close>

definition send_replay :: "replay_result \<Rightarrow> pystr list \<Rightarrow> int \<Rightarrow> bool \<Rightarrow> frame list \<times> int" where
  "send_replay r topics reported covers =
     (let opening = (if rr_gap r then [ResetFrame (rr_reason r) (rr_cursor r) topics] else [])
                      @ map Replayed (rr_events r)
      in case receipt_cursor r covers of
           Some cursor \<Rightarrow>
             (opening @ (if cursor > reported then [replay_complete_frame r topics (Some cursor) True] else []),
              max cursor reported)
         | None \<Rightarrow>
             (opening @ (if replay_high_water r > reported then [replay_complete_frame r topics None False] else []),
              max (replay_high_water r) reported))"

section \<open>The writer\<close>

definition MAX_SUPPRESSED_IDS_PER_TOPIC :: nat where "MAX_SUPPRESSED_IDS_PER_TOPIC = 4096"

type_synonym delivered_ids = "pystr \<Rightarrow> int set option"

definition newest_ids :: "int set \<Rightarrow> int set" where
  "newest_ids S =
     (if card S > MAX_SUPPRESSED_IDS_PER_TOPIC
      then set (drop (card S - MAX_SUPPRESSED_IDS_PER_TOPIC) (sorted_list_of_set S)) else S)"

definition forget :: "pystr list \<Rightarrow> delivered_ids \<Rightarrow> delivered_ids" where
  "forget topics d = (\<lambda>t. if t \<in> set topics then None else d t)"

definition covered :: "replay_result \<Rightarrow> pystr list \<Rightarrow> delivered_ids \<Rightarrow> delivered_ids" where
  "covered r topics d =
     (let start = (if rr_gap r then forget topics d else d)
      in (\<lambda>t. case replay_delivered r t of
                None \<Rightarrow> start t
              | Some ids \<Rightarrow> Some (newest_ids ((case start t of None \<Rightarrow> {} | Some S \<Rightarrow> S) \<union> ids))))"

definition superseded :: "pystr set \<Rightarrow> delivered_ids \<Rightarrow> event_envelope \<Rightarrow> bool" where
  "superseded topics d e =
     (if (case ev_topic e of Some t \<Rightarrow> t \<notin> topics | None \<Rightarrow> False) then True
      else if \<not> ev_durable e then False
      else case (ev_event_id e, ev_topic e) of
             (Some i, Some t) \<Rightarrow> (case d t of None \<Rightarrow> False | Some S \<Rightarrow> i \<in> S)
           | _ \<Rightarrow> False)"

section \<open>The state of a connection among its publishers\<close>

text \<open>
  Who holds the authorization lock: nobody, a batch that is opened (and will read), a batch being
  written, or a revalidation whose result is not yet applied to the subscription. What the ack of a
  batch says is known when it opens.
\<close>

datatype batch_ack = ForSubscribe bool "pystr list" "(pystr \<times> pystr) list" | ForResync

datatype gw_phase =
    GwIdle
  | GwOpened batch_ack "pystr list" "int option" bool
  | GwWriting "frame list" replay_result "pystr list" int
  | GwRescoping "pystr list"

record gateway =
  gw_rows :: event_table
  gw_pending :: "event_envelope option"
  gw_bus :: "frame_body event_bus"
  gw_sub :: nat
  gw_hand :: "event_envelope option"
  gw_conn :: gw_conn
  gw_delivered :: delivered_ids
  gw_seq :: nat
  gw_phase :: gw_phase
  gw_notices :: "frame list"
  gw_open :: bool
  gw_out :: "frame list"

definition in_replay :: "gw_phase \<Rightarrow> bool" where
  "in_replay ph = (case ph of GwOpened _ _ _ _ \<Rightarrow> True | GwWriting _ _ _ _ \<Rightarrow> True | _ \<Rightarrow> False)"

definition emit :: "frame \<Rightarrow> 'a gateway_scheme \<Rightarrow> 'a gateway_scheme" where
  "emit f g = g\<lparr>gw_out := gw_out g @ [f]\<rparr>"

definition set_conn :: "gw_conn \<Rightarrow> 'a gateway_scheme \<Rightarrow> 'a gateway_scheme" where
  "set_conn c g = g\<lparr>gw_conn := c\<rparr>"

text \<open>The connection is accepted, its scope read, and its subscription registered without topics.\<close>

definition connect ::
    "store \<Rightarrow> principal option \<Rightarrow> event_table \<Rightarrow> event_envelope option \<Rightarrow> frame_body event_bus \<Rightarrow> gateway option" where
  "connect db who rows pending bus =
     (case who of
        None \<Rightarrow> None
      | Some p \<Rightarrow>
          if is_runtime p then None
          else
            let c = new_connection db p; (i, bus') = subscribe {} (cn_scope c) LoopRunning bus
            in Some \<lparr>gw_rows = rows, gw_pending = pending, gw_bus = bus', gw_sub = i, gw_hand = None, gw_conn = c,
                     gw_delivered = (\<lambda>_. None), gw_seq = 0, gw_phase = GwIdle, gw_notices = [],
                     gw_open = True, gw_out = []\<rparr>)"

text \<open>Ending the connection closes the subscription; a reason is written first.\<close>

definition close_gw :: "string option \<Rightarrow> 'a gateway_scheme \<Rightarrow> 'a gateway_scheme" where
  "close_gw reason g =
     (let g1 = (case reason of None \<Rightarrow> g | Some r \<Rightarrow> emit (RevokedFrame r None) g)
      in g1\<lparr>gw_open := False, gw_phase := GwIdle, gw_bus := remove_sub (gw_sub g) (gw_bus g)\<rparr>)"

section \<open>Publishers\<close>

text \<open>\<open>publish_durable\<close> in two steps under its lock: the commit, and the announcement of a created event.\<close>

definition gw_commit :: "log_env \<Rightarrow> write_sched \<Rightarrow> event_request \<Rightarrow> 'a gateway_scheme \<Rightarrow> 'a gateway_scheme" where
  "gw_commit cfg sch r g =
     (case record_event cfg sch r (gw_rows g) of
        (Some (env, True), rows') \<Rightarrow> g\<lparr>gw_rows := rows', gw_pending := Some env\<rparr>
      | (_, rows') \<Rightarrow> g\<lparr>gw_rows := rows'\<rparr>)"

definition gw_announce :: "'a gateway_scheme \<Rightarrow> 'a gateway_scheme" where
  "gw_announce g =
     (case gw_pending g of
        None \<Rightarrow> g
      | Some env \<Rightarrow> g\<lparr>gw_pending := None, gw_bus := snd (deliver env (gw_bus g))\<rparr>)"

section \<open>The pump\<close>

definition gw_take :: "'a gateway_scheme \<Rightarrow> 'a gateway_scheme" where
  "gw_take g =
     (case row_by sub_id (gw_sub g) (subs (gw_bus g)) of
        None \<Rightarrow> g
      | Some s \<Rightarrow>
          (case get_next s of
             None \<Rightarrow> g
           | Some (e, s') \<Rightarrow>
               g\<lparr>gw_hand := Some e,
                 gw_bus := (gw_bus g)\<lparr>subs := update_where (\<lambda>x. sub_id x = gw_sub g) (\<lambda>_. s') (subs (gw_bus g))\<rparr>\<rparr>))"

text \<open>\<open>send_live\<close>: once no batch is open, the envelope in hand is written under the next number or dropped.\<close>

definition gw_live :: "'a gateway_scheme \<Rightarrow> 'a gateway_scheme" where
  "gw_live g =
     (case gw_hand g of
        None \<Rightarrow> g
      | Some e \<Rightarrow>
          if superseded (held (gw_conn g)) (gw_delivered g) e then g\<lparr>gw_hand := None\<rparr>
          else emit (LiveFrame (e\<lparr>ev_seq := Some (gw_seq g + 1)\<rparr>)) (g\<lparr>gw_hand := None, gw_seq := gw_seq g + 1\<rparr>))"

section \<open>Client messages\<close>

datatype client_message =
    MsgSubscribe pyval pyval
  | MsgUnsubscribe pyval
  | MsgResync pyval
  | MsgChat pyval "(pystr \<times> json) list"
  | MsgPing
  | MsgOther

text \<open>What registering writes to the subscription: its topics and its scope.\<close>

definition register :: "'a gateway_scheme \<Rightarrow> 'a gateway_scheme" where
  "register g = g\<lparr>gw_bus := set_scope (gw_sub g) (cn_scope (gw_conn g))
     (replace_topics (gw_sub g) (set (conn_topics (gw_conn g))) (gw_bus g))\<rparr>"

definition gw_subscribe :: "store \<Rightarrow> pyval \<Rightarrow> pyval \<Rightarrow> 'a gateway_scheme \<Rightarrow> topic_error + 'a gateway_scheme" where
  "gw_subscribe db topics cursor g =
     (let c1 = refresh_scope db (gw_conn g)
      in bind_result (authorize_topics db (Some (cn_principal c1)) topics) (\<lambda>(grants, denied).
           let (got, c2) = conn_add grants c1;
               added = map g_topic got;
               covers = (set (conn_topics c2) \<subseteq> set added);
               renamed = map (\<lambda>g. (g_requested g, g_topic g)) (filter (\<lambda>g. g_requested g \<noteq> g_topic g) got);
               ack = ForSubscribe (denied = [] \<and> length got = length grants) denied renamed
           in Inr (register (set_conn c2 g\<lparr>gw_phase := GwOpened ack added (as_cursor cursor) covers\<rparr>))))"

definition gw_resync :: "pyval \<Rightarrow> 'a gateway_scheme \<Rightarrow> 'a gateway_scheme" where
  "gw_resync cursor g = g\<lparr>gw_phase := GwOpened ForResync (conn_topics (gw_conn g)) (as_cursor cursor) True\<rparr>"

fun derive_topics :: "store \<Rightarrow> principal \<Rightarrow> pystr list \<Rightarrow> topic_error + pystr list" where
  "derive_topics db p [] = Inr []"
| "derive_topics db p (t # ts) =
     bind_result (resolve_topic db (Some p) (PStr t)) (\<lambda>grant.
     bind_result (derive_topics db p ts) (\<lambda>rest.
       Inr ((case grant of None \<Rightarrow> t | Some g \<Rightarrow> g_topic g) # rest)))"

definition gw_unsubscribe :: "store \<Rightarrow> pyval \<Rightarrow> 'a gateway_scheme \<Rightarrow> topic_error + 'a gateway_scheme" where
  "gw_unsubscribe db topics g =
     (let items = (case topics of PList xs \<Rightarrow> xs | _ \<Rightarrow> []);
          requested = take MAX_TOPICS_PER_REQUEST (concat (map (\<lambda>v. case v of PStr s \<Rightarrow> [s] | _ \<Rightarrow> []) items))
      in bind_result (derive_topics db (cn_principal (gw_conn g)) requested) (\<lambda>derived.
           let (removed, c) = conn_remove derived (gw_conn g)
           in Inr (emit PlainAck (set_conn c g\<lparr>gw_delivered := forget removed (gw_delivered g),
                gw_bus := replace_topics (gw_sub g) (set (conn_topics c)) (gw_bus g)\<rparr>))))"

definition gw_chat ::
    "store \<Rightarrow> instant \<Rightarrow> pyval \<Rightarrow> (pystr \<times> json) list \<Rightarrow> 'a gateway_scheme \<Rightarrow> topic_error + 'a gateway_scheme" where
  "gw_chat db now topic payload g =
     bind_result (resolve_topic db (Some (cn_principal (gw_conn g))) topic) (\<lambda>grant.
       case grant of
         None \<Rightarrow> Inr (emit (ErrorFrame ''topic_forbidden'') g)
       | Some gr \<Rightarrow>
           if g_family gr \<noteq> lit ''session'' \<or> g_channel gr \<noteq> lit ''chat''
           then Inr (emit (ErrorFrame ''topic_forbidden'') g)
           else Inr (emit PlainAck (g\<lparr>gw_bus := snd (publish (g_topic gr) (lit ''chat.message'')
                  \<lparr>fb_entity = Some (lit ''agent_session''), fb_entity_id = Some (g_reference gr), fb_payload = payload\<rparr>
                  (g_org_id gr) (g_workspace_id gr) now (gw_bus g))\<rparr>)))"

text \<open>
  One message: the credential is resolved first (\<open>Inl\<close> when the check cannot be performed), a credential
  that no longer holds closes without a word, a handler that raises closes with a reason.
\<close>

definition gw_message ::
    "store \<Rightarrow> instant \<Rightarrow> unit + principal option \<Rightarrow> client_message \<Rightarrow> 'a gateway_scheme \<Rightarrow> 'a gateway_scheme" where
  "gw_message db now who m g =
     (case who of
        Inl _ \<Rightarrow> close_gw (Some REVOKED_REVALIDATION_FAILED) g
      | Inr None \<Rightarrow> close_gw None g
      | Inr (Some p) \<Rightarrow>
          if is_runtime p then close_gw None g
          else
            let g1 = set_conn ((gw_conn g)\<lparr>cn_principal := p\<rparr>) g
            in case (case m of
                       MsgSubscribe topics cursor \<Rightarrow> gw_subscribe db topics cursor g1
                     | MsgUnsubscribe topics \<Rightarrow> gw_unsubscribe db topics g1
                     | MsgResync cursor \<Rightarrow> Inr (gw_resync cursor g1)
                     | MsgChat topic payload \<Rightarrow> gw_chat db now topic payload g1
                     | MsgPing \<Rightarrow> Inr (emit Pong g1)
                     | MsgOther \<Rightarrow> Inr (emit (ErrorFrame ''unknown_ws_message'') g1)) of
                 Inl _ \<Rightarrow> close_gw (Some REVOKED_REVALIDATION_FAILED) g1
               | Inr g2 \<Rightarrow> g2)"

section \<open>A batch\<close>

definition ack_frame :: "batch_ack \<Rightarrow> pystr list \<Rightarrow> int \<Rightarrow> bool \<Rightarrow> frame" where
  "ack_frame ack topics reported covers =
     (case ack of
        ForSubscribe ok denied renamed \<Rightarrow> SubscribeAck ok topics denied renamed reported covers
      | ForResync \<Rightarrow> ResyncAck reported)"

definition gw_read :: "log_env \<Rightarrow> 'a gateway_scheme \<Rightarrow> 'a gateway_scheme" where
  "gw_read cfg g =
     (case gw_phase g of
        GwOpened ack topics cursor covers \<Rightarrow>
          let r = conn_replay cfg (gw_conn g) topics cursor (gw_rows g);
              reported = pre_replay_cursor cursor r;
              (frames, after) = send_replay r topics reported covers
          in g\<lparr>gw_phase := GwWriting (ack_frame ack topics reported covers # frames) r topics after\<rparr>
      | _ \<Rightarrow> g)"

definition gw_write :: "'a gateway_scheme \<Rightarrow> 'a gateway_scheme" where
  "gw_write g =
     (case gw_phase g of
        GwWriting (f # fs) r topics after \<Rightarrow> emit f (g\<lparr>gw_phase := GwWriting fs r topics after\<rparr>)
      | _ \<Rightarrow> g)"

definition gw_finish :: "'a gateway_scheme \<Rightarrow> 'a gateway_scheme" where
  "gw_finish g =
     (case gw_phase g of
        GwWriting [] r topics after \<Rightarrow>
          g\<lparr>gw_phase := GwIdle, gw_delivered := covered r topics (gw_delivered g),
            gw_conn := (gw_conn g)\<lparr>cn_cursor := max (cn_cursor (gw_conn g)) after\<rparr>\<rparr>
      | _ \<Rightarrow> g)"

section \<open>Revalidation\<close>

definition gw_revalidate :: "store \<Rightarrow> unit + principal option \<Rightarrow> 'a gateway_scheme \<Rightarrow> 'a gateway_scheme" where
  "gw_revalidate db who g =
     (case who of
        Inl _ \<Rightarrow> close_gw (Some REVOKED_REVALIDATION_FAILED) g
      | Inr None \<Rightarrow> close_gw (Some REVOKED_CREDENTIAL) g
      | Inr (Some p) \<Rightarrow>
          if is_runtime p then close_gw (Some REVOKED_CREDENTIAL) g
          else
            case reauthorize db p (gw_conn g) of
              Inl _ \<Rightarrow> close_gw (Some REVOKED_REVALIDATION_FAILED) g
            | Inr (lost, c) \<Rightarrow> set_conn c g\<lparr>gw_phase := GwRescoping lost\<rparr>)"

definition gw_rescope :: "'a gateway_scheme \<Rightarrow> 'a gateway_scheme" where
  "gw_rescope g =
     (case gw_phase g of
        GwRescoping lost \<Rightarrow>
          register (g\<lparr>gw_phase := GwIdle, gw_delivered := forget lost (gw_delivered g),
            gw_notices := gw_notices g @ (if lost = [] then [] else [RevokedFrame REVOKED_SCOPE (Some lost)])\<rparr>)
      | _ \<Rightarrow> g)"

definition gw_notice :: "'a gateway_scheme \<Rightarrow> 'a gateway_scheme" where
  "gw_notice g = (case gw_notices g of [] \<Rightarrow> g | f # fs \<Rightarrow> emit f (g\<lparr>gw_notices := fs\<rparr>))"

section \<open>The cursor of a console\<close>

text \<open>\<open>CursorTracker\<close>: the recently applied ids, the cursor, and whether the open batch may move it.\<close>

record cursor_tracker =
  ct_order :: "int list"
  ct_highest :: int
  ct_retires :: bool

definition DEDUPE_WINDOW :: nat where "DEDUPE_WINDOW = 2048"

definition new_tracker :: cursor_tracker where
  "new_tracker = \<lparr>ct_order = [], ct_highest = 0, ct_retires = True\<rparr>"

definition accept_frame :: "int option \<Rightarrow> bool \<Rightarrow> cursor_tracker \<Rightarrow> cursor_tracker" where
  "accept_frame event_id replayed ct =
     (case event_id of
        None \<Rightarrow> ct
      | Some i \<Rightarrow>
          if i \<in> set (ct_order ct) then ct
          else
            let order = ct_order ct @ [i]
            in ct\<lparr>ct_order := (if length order > DEDUPE_WINDOW then tl order else order),
                  ct_highest := (if (ct_retires ct \<or> \<not> replayed) \<and> i > ct_highest ct then i else ct_highest ct)\<rparr>)"

definition apply_ack :: "int \<Rightarrow> bool \<Rightarrow> cursor_tracker \<Rightarrow> cursor_tracker" where
  "apply_ack cursor covers ct =
     ct\<lparr>ct_retires := covers,
        ct_highest := (if covers \<and> ct_highest ct = 0 \<and> cursor > 0 then cursor else ct_highest ct)\<rparr>"

definition apply_replay_complete :: "int option \<Rightarrow> bool \<Rightarrow> cursor_tracker \<Rightarrow> cursor_tracker" where
  "apply_replay_complete cursor covers ct =
     ct\<lparr>ct_retires := True,
        ct_highest := (case cursor of Some c \<Rightarrow> if covers \<and> c > ct_highest ct then c else ct_highest ct
                                    | None \<Rightarrow> ct_highest ct)\<rparr>"

definition apply_reset :: "int \<Rightarrow> cursor_tracker \<Rightarrow> cursor_tracker" where
  "apply_reset cursor ct = ct\<lparr>ct_order := [], ct_highest := (if cursor > 0 then cursor else 0)\<rparr>"

fun see_frame :: "frame \<Rightarrow> cursor_tracker \<Rightarrow> cursor_tracker" where
  "see_frame (SubscribeAck ok subscribed denied renamed cursor covers) ct = apply_ack cursor covers ct"
| "see_frame (ResyncAck cursor) ct = apply_ack cursor True ct"
| "see_frame PlainAck ct = apply_ack 0 False ct"
| "see_frame (ResetFrame reason cursor topics) ct = apply_reset cursor ct"
| "see_frame (Replayed e) ct = accept_frame (ev_event_id e) True ct"
| "see_frame (LiveFrame e) ct = accept_frame (ev_event_id e) False ct"
| "see_frame (ReplayComplete cursor topics n covers batch) ct = apply_replay_complete cursor covers ct"
| "see_frame f ct = ct"

text \<open>The console after the frames of a connection; its tracker outlives the connections it opens.\<close>

definition console :: "cursor_tracker \<Rightarrow> frame list \<Rightarrow> cursor_tracker" where
  "console before frames = fold see_frame frames before"

end
