(* ===== verification/EventProperties.thy ===== *)
theory EventProperties imports EventStore begin

text \<open>
  What holds of the durable log: a replay is exact or says that it is not, and an event is announced
  only once it is stored, under the id it is stored with.
\<close>

section \<open>Replay of a table with a history\<close>

lemma sort_key_sorted: "sorted (map f xs) \<Longrightarrow> sort_key f xs = xs"
proof (induction xs)
  case (Cons x xs)
  then show ?case by (cases xs) auto
qed simp

lemma end_of_sorted: "end_of H rows \<Longrightarrow> sorted_wrt (<) (map re_id rows)"
  using numbered_sorted[of H] unfolding end_of_def by (auto simp: sorted_wrt_append)

lemma sorted_filter_ids: "sorted_wrt (<) (map re_id rows) \<Longrightarrow> sorted (map re_id (filter P rows))"
  by (induction rows) (auto intro: less_imp_le)

lemma sorted_last_max: "sorted (map f xs) \<Longrightarrow> xs \<noteq> [] \<Longrightarrow> \<forall>x\<in>set xs. f x \<le> f (last xs)"
  by (induction xs rule: rev_induct) (auto simp: sorted_append)

lemma wanted_rows_sorted:
  assumes "end_of H rows"
  shows "wanted_rows topics a rows = filter (\<lambda>e. re_topic e \<in> set topics \<and> re_topic e \<noteq> [] \<and> re_id e > a) rows"
  unfolding wanted_rows_def by (rule sort_key_sorted[OF sorted_filter_ids[OF end_of_sorted[OF assms]]])

lemma end_of_le: "end_of H rows \<Longrightarrow> e \<in> set rows \<Longrightarrow> re_id e \<le> int (length H)"
  by (elim end_of_split) blast

lemma end_of_old:
  assumes "end_of H rows" and "H = old @ rows" and "e \<in> set old"
  shows "e \<notin> set rows"
proof
  assume "e \<in> set rows"
  obtain old' where o: "H = old' @ rows" "\<And>e. e \<in> set old' \<Longrightarrow> re_id e \<le> int (length old')"
    "\<And>e. e \<in> set rows \<Longrightarrow> int (length old') < re_id e \<and> re_id e \<le> int (length H)"
    by (rule end_of_split[OF assms(1)]) blast
  then show False using assms(2,3) \<open>e \<in> set rows\<close> by fastforce
qed

lemma end_of_earliest:
  assumes "end_of H rows" and "0 \<le> a"
  shows "(earliest_event_id rows \<noteq> 0 \<and> a + 1 < earliest_event_id rows) \<longleftrightarrow> (\<exists>e\<in>set H - set rows. a < re_id e)"
proof -
  obtain old where H: "H = old @ rows" "numbered H" and o: "\<And>e. e \<in> set old \<Longrightarrow> re_id e \<le> int (length old)"
    and r: "\<And>e. e \<in> set rows \<Longrightarrow> int (length old) < re_id e \<and> re_id e \<le> int (length H)"
    by (rule end_of_split[OF assms(1)]) blast
  show ?thesis
  proof (cases "rows = []")
    case True
    then have "H = []" using assms(1) by (simp add: end_of_def)
    then show ?thesis using True by (simp add: earliest_event_id_def)
  next
    case False
    have "re_id (hd rows) = int (length old) + 1"
      using numbered_nth[OF H(2), of "length old"] False by (simp add: H(1) nth_append hd_conv_nth)
    moreover have "Min (set (map re_id rows)) = re_id (hd rows)"
    proof (rule Min_eqI)
      show "re_id (hd rows) \<le> y" if "y \<in> set (map re_id rows)" for y using that r calculation by fastforce
    qed (use False in auto)
    ultimately have e: "earliest_event_id rows = int (length old) + 1" using False by (simp add: earliest_event_id_def)
    show ?thesis
    proof
      assume "earliest_event_id rows \<noteq> 0 \<and> a + 1 < earliest_event_id rows"
      then have a: "a < int (length old)" using e by simp
      then have "old \<noteq> []" using assms(2) by auto
      then have l: "last old \<in> set old" by simp
      have "old ! (length old - 1) = last old" using \<open>old \<noteq> []\<close> by (simp add: last_conv_nth)
      then have i: "re_id (last old) = int (length old)"
        using numbered_nth[OF H(2), of "length old - 1"] \<open>old \<noteq> []\<close> by (cases "length old") (auto simp: H(1) nth_append)
      then have "last old \<notin> set rows" using r by force
      then show "\<exists>e\<in>set H - set rows. a < re_id e" using l a i H(1) by (intro bexI[of _ "last old"]) auto
    next
      assume "\<exists>e\<in>set H - set rows. a < re_id e"
      then obtain x where "x \<in> set old" "a < re_id x" using H(1) by auto
      then show "earliest_event_id rows \<noteq> 0 \<and> a + 1 < earliest_event_id rows" using o[of x] e by simp
    qed
  qed
qed

text \<open>The events a cursor is owed: those ever committed past it on the topics and in the scope.\<close>

definition owed :: "pystr list \<Rightarrow> int \<Rightarrow> subscription_scope \<Rightarrow> event_table \<Rightarrow> event_table" where
  "owed topics a sc H = filter (\<lambda>e. re_topic e \<in> set topics \<and> re_topic e \<noteq> [] \<and> a < re_id e \<and> in_scope sc e) H"

lemma replay_of_log:
  assumes "logged H rows" and "r = replay cfg topics (Some a) limit sc rows"
  shows "(rr_gap r \<longleftrightarrow> a < 0 \<or> a > int (length H) \<or> (\<exists>e\<in>set H - set rows. a < re_id e) \<or>
      (case limit of None \<Rightarrow> replay_limit cfg | Some l \<Rightarrow> max 1 l) < int (length (wanted_rows topics a rows))) \<and>
    (\<not> rr_gap r \<longrightarrow> rr_events r = map envelope_for (owed topics a sc H) \<and> a \<le> rr_cursor r \<and>
       (\<forall>e\<in>set (owed topics a sc H). re_id e \<le> rr_cursor r)) \<and>
    rr_cursor r \<le> int (length H)"
proof -
  have E: "end_of H rows" using logged_end[OF assms(1)] .
  let ?bound = "case limit of None \<Rightarrow> replay_limit cfg | Some l \<Rightarrow> max 1 l"
  have b: "0 < ?bound" by (simp add: less_max_iff_disj split: option.split)
  have latest: "latest_event_id rows = int (length H)" using end_of_latest[OF E] .
  let ?W = "wanted_rows topics a rows"
  have wf: "wanted_rows (filter (\<lambda>t. t \<noteq> []) topics) a rows = ?W" by (simp add: wanted_rows_def conj_commute conj_left_commute)
  have none: "?W = []" if "filter (\<lambda>t. t \<noteq> []) topics = []"
    using that by (auto simp: wanted_rows_def filter_empty_conv)
  have len: "int (length (take (nat (?bound + 1)) ?W)) > ?bound \<longleftrightarrow> ?bound < int (length ?W)" using b by auto
  have W: "?W = filter (\<lambda>e. re_topic e \<in> set topics \<and> re_topic e \<noteq> [] \<and> re_id e > a) rows" using wanted_rows_sorted[OF E] .
  have ids: "re_id e \<le> int (length H)" if "e \<in> set ?W" for e
    by (rule end_of_le[OF E]) (use that in \<open>simp add: W\<close>)
  have srt: "sorted (map re_id ?W)" unfolding W by (rule sorted_filter_ids[OF end_of_sorted[OF E]])
  have max_id: "\<forall>e\<in>set ?W. re_id e \<le> re_id (last ?W)" if "?W \<noteq> []"
    by (rule sorted_last_max[OF srt that])
  have owed_eq: "owed topics a sc H = filter (in_scope sc) ?W" if "\<not> (\<exists>e\<in>set H - set rows. a < re_id e)"
  proof -
    obtain old where H: "H = old @ rows" using E by (auto simp: end_of_def)
    have "filter (\<lambda>e. re_topic e \<in> set topics \<and> re_topic e \<noteq> [] \<and> a < re_id e \<and> in_scope sc e) old = []"
    proof (clarsimp simp: filter_empty_conv)
      fix e assume e: "e \<in> set old" "a < re_id e"
      then show False using that end_of_old[OF E H e(1)] H by auto
    qed
    then show ?thesis by (simp add: owed_def H W conj_ac)
  qed
  show ?thesis
  proof (cases "a < 0 \<or> a > int (length H)")
    case True
    then show ?thesis using assms(2) latest by (auto simp: replay_def Let_def)
  next
    case False
    then have early: "(earliest_event_id rows \<noteq> 0 \<and> a + 1 < earliest_event_id rows) \<longleftrightarrow> (\<exists>e\<in>set H - set rows. a < re_id e)"
      using end_of_earliest[OF E] by simp
    have r: "r = (let gap = (\<exists>e\<in>set H - set rows. a < re_id e); kept = take (nat ?bound) (take (nat (?bound + 1)) ?W);
        cursor = (if kept = [] then a else re_id (last kept)) in
      if filter (\<lambda>t. t \<noteq> []) topics = [] then \<lparr>rr_events = [], rr_cursor = (if gap then int (length H) else a), rr_gap = gap,
           rr_reason = (if gap then Some RESET_CURSOR_EXPIRED else None)\<rparr>
      else if ?bound < int (length ?W)
      then \<lparr>rr_events = map envelope_for (filter (in_scope sc) kept), rr_cursor = cursor, rr_gap = True,
            rr_reason = Some RESET_REPLAY_TRUNCATED\<rparr>
      else \<lparr>rr_events = map envelope_for (filter (in_scope sc) kept),
            rr_cursor = (if gap \<and> kept = [] then int (length H) else cursor), rr_gap = gap,
            rr_reason = (if gap then Some RESET_CURSOR_EXPIRED else None)\<rparr>)"
      using assms(2) False latest early len wf by (simp add: replay_def Let_def)
    let ?kept = "take (nat ?bound) (take (nat (?bound + 1)) ?W)"
    have sub: "set ?kept \<subseteq> set ?W" by (meson in_set_takeD subsetI)
    then have cur: "(if ?kept = [] then a else re_id (last ?kept)) \<le> int (length H)"
    proof (cases "?kept = []")
      case False
      from ids[OF subsetD[OF sub last_in_set[OF False]]] show ?thesis using False by simp
    qed (use False in simp)
    have whole: "?kept = ?W" if "\<not> ?bound < int (length ?W)" using that b by simp
    have past: "a \<le> (if ?W = [] then a else re_id (last ?W))" using last_in_set[of ?W] by (auto simp: W)
    consider "filter (\<lambda>t. t \<noteq> []) topics = []" | "filter (\<lambda>t. t \<noteq> []) topics \<noteq> []" "?bound < int (length ?W)"
      | "filter (\<lambda>t. t \<noteq> []) topics \<noteq> []" "\<not> ?bound < int (length ?W)" by blast
    then show ?thesis
    proof cases
      case 1
      have "owed topics a sc H = []" using 1 by (auto simp: owed_def filter_empty_conv)
      then show ?thesis using none[OF 1] b False unfolding r by (simp add: 1 Let_def)
    next
      case 2
      then show ?thesis using cur unfolding r by (simp only: Let_def if_False if_True replay_result.simps simp_thms)
    next
      case 3
      note w = whole[OF 3(2)]
      have f: "rr_gap r = (\<exists>e\<in>set H - set rows. a < re_id e)" "rr_events r = map envelope_for (filter (in_scope sc) ?W)"
        "rr_cursor r = (if rr_gap r \<and> ?W = [] then int (length H) else if ?W = [] then a else re_id (last ?W))"
        unfolding r w using 3 by (simp_all add: Let_def)
      have "rr_cursor r \<le> int (length H)" using cur unfolding f(3) w by simp
      moreover have "rr_events r = map envelope_for (owed topics a sc H) \<and> a \<le> rr_cursor r \<and>
          (\<forall>e\<in>set (owed topics a sc H). re_id e \<le> rr_cursor r)" if g: "\<not> rr_gap r"
      proof -
        have o: "owed topics a sc H = filter (in_scope sc) ?W" using owed_eq g unfolding f(1) by blast
        show ?thesis using past max_id g unfolding o f(2,3) by auto
      qed
      ultimately show ?thesis using f(1) False 3(2) by blast
    qed
  qed
qed

text \<open>C38. A replay is exact or says so. Take every event ever committed, and the table that is left of
  them after any prunes. A replay reports a gap exactly if the cursor is negative or ahead of the
  log, or an event past it was pruned, or more rows are past it than the bound allows (and it has
  topics to read). Without a gap its events are exactly those ever committed past the cursor on the
  topics and in the scope, in the order of their ids, and its cursor is past all of them; with or
  without one its cursor never runs ahead of the log.\<close>

theorem replay_exact:
  assumes "logged H rows" and "r = replay cfg topics (Some a) limit sc rows"
  shows "(rr_gap r \<longleftrightarrow> a < 0 \<or> a > int (length H) \<or> (\<exists>e\<in>set H - set rows. a < re_id e) \<or>
      (case limit of None \<Rightarrow> replay_limit cfg | Some l \<Rightarrow> max 1 l) < int (length (wanted_rows topics a rows))) \<and>
    (\<not> rr_gap r \<longrightarrow> rr_events r = map envelope_for (owed topics a sc H) \<and> a \<le> rr_cursor r \<and>
       (\<forall>e\<in>set (owed topics a sc H). re_id e \<le> rr_cursor r)) \<and>
    rr_cursor r \<le> int (length H)"
  using replay_of_log[OF assms] .

section \<open>Persist before publish\<close>

lemma newest_kept:
  assumes "end_of H rows" and "H \<noteq> []"
  shows "last H \<in> set rows"
  using assms unfolding end_of_def by (metis append_Nil2 last_appendR last_in_set)

lemma logged_keys_once:
  "logged H rows \<Longrightarrow> e \<in> set rows \<Longrightarrow> f \<in> set rows \<Longrightarrow> re_dedupe_key e = Some k \<Longrightarrow> re_dedupe_key f = Some k \<Longrightarrow> e = f"
proof (induction arbitrary: e f rule: logged.induct)
  case (logged_write H rows fault now r env rows')
  have n: "re_dedupe_key x \<noteq> Some k" if "x \<in> set rows" "er_dedupe_key r = Some k" for x
  proof -
    have "find_dedupe (er_dedupe_key r) rows = None"
      using logged_write.hyps(2) by (auto simp: write_event_def split: if_splits option.splits)
    then show ?thesis using that by (auto simp: find_dedupe_def find_None_iff)
  qed
  have "re_dedupe_key (new_event r now rows) = er_dedupe_key r" by (simp add: new_event_def)
  then show ?case
    using logged_write.prems logged_write.IH n write_event_created(1)[OF logged_write.hyps(2)] by auto
next
  case (logged_prune H rows cfg fails)
  have "set (snd (prune cfg fails rows)) \<subseteq> set rows" by (auto simp: prune_def Let_def)
  then show ?case using logged_prune by blast
qed simp

lemma snd_deliver: "deliver env bus = (env', bus') \<Longrightarrow> ev_event_id env' = ev_event_id env"
  by (auto simp: deliver_def Let_def split: option.splits)

lemma publish_of_log:
  assumes "others_log sch" and "logged H rows" and "publish_durable cfg sch r rows bus = (res, rows', bus')"
  shows "\<exists>more. logged (H @ more) rows' \<and>
    (case res of
       None \<Rightarrow> bus' = bus
     | Some env \<Rightarrow> \<exists>e\<in>set rows'. ev_event_id env = Some (re_id e) \<and>
         re_dedupe_key e = er_dedupe_key r \<and>
         (bus' = bus \<and> env = envelope_for e \<or>
          more \<noteq> [] \<and> e = last more \<and> re_id e = int (length (H @ more)) \<and> deliver (envelope_for e) bus = (env, bus')))"
proof -
  obtain ans where rec: "record_event cfg sch r rows = (ans, fst (snd (res, rows', bus')))"
    using assms(3) by (auto simp: publish_durable_def split: prod.splits option.splits if_splits)
  then have rec: "record_event cfg sch r rows = (ans, rows')" by simp
  from record_event_logged[OF assms(1,2) rec] obtain more where m: "logged (H @ more) rows'"
    and c: "\<forall>env. ans = Some (env, True) \<longrightarrow> more \<noteq> [] \<and> env = envelope_for (last more) \<and>
        re_id (last more) = int (length (H @ more)) \<and> re_dedupe_key (last more) = er_dedupe_key r"
    and d: "\<forall>env. ans = Some (env, False) \<longrightarrow> (\<exists>e\<in>set rows'. env = envelope_for e \<and> re_dedupe_key e = er_dedupe_key r)"
    by blast
  consider "ans = None" | env where "ans = Some (env, True)" | env where "ans = Some (env, False)"
    by (metis (full_types) option.exhaust surj_pair)
  then show ?thesis
  proof cases
    case 1
    then show ?thesis using assms(3) rec m by (intro exI[of _ more]) (auto simp: publish_durable_def)
  next
    case 2
    then have e: "more \<noteq> []" "env = envelope_for (last more)" "re_id (last more) = int (length (H @ more))"
      "re_dedupe_key (last more) = er_dedupe_key r" using c by auto
    have k: "last more \<in> set rows'" using newest_kept[OF logged_end[OF m]] e(1) by simp
    obtain env' b where del: "deliver env bus = (env', b)" by fastforce
    then have res: "res = Some env'" "bus' = b" using assms(3) rec 2 by (auto simp: publish_durable_def)
    show ?thesis
      using m e k del snd_deliver[OF del] unfolding res by (intro exI[of _ more]) (auto intro!: bexI[of _ "last more"])
  next
    case 3
    then have "res = Some env" "bus' = bus" using assms(3) rec by (auto simp: publish_durable_def)
    then show ?thesis using m d 3 by (intro exI[of _ more]) auto
  qed
qed

text \<open>Persist before publish. \<open>publish_durable\<close> announces an event only if it committed it: when it
  raises or answers with an event that was there before, the bus is as it was, and when it
  announces, the event is the newest ever committed, is in the table it leaves behind, and is
  delivered once with the id the store gave it. Everything it answers names a stored event.\<close>

theorem publish_recorded:
  assumes "others_log sch" and "logged H rows" and "publish_durable cfg sch r rows bus = (res, rows', bus')"
  shows "\<exists>more. logged (H @ more) rows' \<and>
    (case res of
       None \<Rightarrow> bus' = bus
     | Some env \<Rightarrow> \<exists>e\<in>set rows'. ev_event_id env = Some (re_id e) \<and>
         re_dedupe_key e = er_dedupe_key r \<and>
         (bus' = bus \<and> env = envelope_for e \<or>
          more \<noteq> [] \<and> e = last more \<and> re_id e = int (length (H @ more)) \<and> deliver (envelope_for e) bus = (env, bus')))"
  using publish_of_log[OF assms] .

lemma record_tries_duplicate:
  assumes "\<And>i rows. wr_others sch i rows = rows" and "er_dedupe_key r = Some k" and "k \<noteq> []"
    and "find_dedupe (Some k) rows = Some e"
    and "i \<le> j" and "j < i + n" and "\<forall>l\<in>{i..<j}. wr_fault sch l = Some WriteLocked"
    and "wr_fault sch j = None \<or> wr_fault sch j = Some WriteInvalid"
  shows "record_tries cfg sch r n i rows = (Some (envelope_for e, False), rows)"
  using assms(5-7)
proof (induction n arbitrary: i)
  case (Suc n)
  show ?case
  proof (cases "i = j")
    case True
    then show ?thesis using assms(1-4,8) by (auto simp: write_event_def Let_def)
  next
    case False
    then show ?thesis using Suc.prems Suc.IH[of "Suc i"] assms(1) by (simp add: write_event_def)
  qed
qed simp

text \<open>Publishing is idempotent. Publish an event under a key and publish it again: if nobody else
  writes meanwhile and the store is free at one of the six attempts, the second call answers the
  same event id, commits nothing and announces nothing.\<close>

theorem publish_idempotent:
  assumes "others_log sch" and "logged H rows"
    and "publish_durable cfg sch r rows bus = (Some env, rows', bus')" and "er_dedupe_key r = Some k" and "k \<noteq> []"
    and "\<And>i rows. wr_others sch2 i rows = rows" and "j < WRITE_ATTEMPTS" and "wr_fault sch2 j = None"
    and "\<forall>l<j. wr_fault sch2 l = Some WriteLocked"
  shows "\<exists>again. publish_durable cfg sch2 r rows' bus' = (Some again, rows', bus') \<and> ev_event_id again = ev_event_id env"
proof -
  from publish_of_log[OF assms(1-3)] obtain more e where m: "logged (H @ more) rows'" and e: "e \<in> set rows'"
    "ev_event_id env = Some (re_id e)"
    and key: "re_dedupe_key e = Some k"
    using assms(4) by auto
  obtain x where x: "find_dedupe (Some k) rows' = Some x"
    using e(1) key by (cases "find_dedupe (Some k) rows'") (auto simp: find_dedupe_def find_None_iff)
  then have "x \<in> set rows'" "re_dedupe_key x = Some k" by (auto simp: find_dedupe_def find_Some_iff)
  then have "x = e" using logged_keys_once[OF m _ e(1)] key by blast
  then have "record_event cfg sch2 r rows' = (Some (envelope_for e, False), rows')"
    unfolding record_event_def
    by (intro record_tries_duplicate[OF assms(6,4,5)]) (use x assms(7-9) in auto)
  then show ?thesis using e(2) by (simp add: publish_durable_def)
qed

section \<open>A sample log\<close>

definition sample_log_env :: log_env where
  "sample_log_env = \<lparr>le_retention = [], le_replay_limit = []\<rparr>"

definition sample_write :: write_sched where
  "sample_write = \<lparr>wr_fault = (\<lambda>_. None), wr_now = (\<lambda>_. 0), wr_others = (\<lambda>_ rows. rows), wr_prune_fails = False\<rparr>"

definition sample_event_request :: "string \<Rightarrow> string \<Rightarrow> event_request" where
  "sample_event_request topic key =
     \<lparr>er_topic = lit topic, er_event_type = lit ''issue.updated'', er_entity = None, er_entity_id = None,
      er_org_id = Some 1, er_workspace_id = None, er_payload = None, er_dedupe_key = Some (lit key)\<rparr>"

lemma sample_write_alone: "wr_others sample_write i rows = rows"
  by (simp add: sample_write_def)

lemma alone_others: "(\<And>i rows. wr_others sch i rows = rows) \<Longrightarrow> others_log sch"
  unfolding others_log_def by (metis append_Nil2)

lemma find_dedupe_new: "key \<notin> re_dedupe_key ` set rows \<Longrightarrow> find_dedupe key rows = None"
  by (cases key) (force simp: find_dedupe_def find_None_iff)+

lemma sample_new:
  assumes "er_dedupe_key r \<notin> re_dedupe_key ` set rows" and "(latest_event_id rows + 1) mod PRUNE_EVERY \<noteq> 0"
  shows "record_event cfg sample_write r rows
    = (Some (envelope_for (new_event r 0 rows), True), rows @ [new_event r 0 rows])"
proof -
  have "find_dedupe (er_dedupe_key r) rows = None" using find_dedupe_new[OF assms(1)] .
  moreover have "re_id (new_event r 0 rows) = latest_event_id rows + 1" by (simp add: new_event_def)
  ultimately show ?thesis
    using assms(2) by (simp add: record_event_def WRITE_ATTEMPTS_def eval_nat_numeral write_event_def sample_write_def)
qed

lemma sample_logged:
  assumes "logged H rows" and "er_dedupe_key r \<notin> re_dedupe_key ` set rows"
  shows "logged (H @ [new_event r now rows]) (rows @ [new_event r now rows])"
proof -
  have "find_dedupe (er_dedupe_key r) rows = None" using find_dedupe_new[OF assms(2)] .
  then have "write_event None now r rows = Recorded (envelope_for (new_event r now rows)) True (rows @ [new_event r now rows])"
    by (simp add: write_event_def)
  from logged_write[OF assms(1) this] show ?thesis by simp
qed

text \<open>Two events of a log, the second under the second key.\<close>

definition sample_first :: realtime_event where
  "sample_first = new_event (sample_event_request ''a/1/x'' ''k1'') 0 []"

definition sample_second :: realtime_event where
  "sample_second = new_event (sample_event_request ''b/2/y'' ''k2'') 0 [sample_first]"

lemma sample_events [simp]:
  "re_id sample_first = 1" "re_id sample_second = 2" "re_topic sample_first = lit ''a/1/x''"
  "re_topic sample_second = lit ''b/2/y''" "re_dedupe_key sample_first = Some (lit ''k1'')"
  "re_dedupe_key sample_second = Some (lit ''k2'')" "re_org_id sample_first = Some 1" "re_org_id sample_second = Some 1"
  "re_workspace_id sample_first = None" "re_workspace_id sample_second = None"
  by (simp_all add: sample_first_def sample_second_def new_event_def sample_event_request_def latest_event_id_def)

lemma sample_pair_logged: "logged [sample_first, sample_second] [sample_first, sample_second]"
proof -
  have "logged ([] @ [sample_first]) ([] @ [sample_first])"
    unfolding sample_first_def by (rule sample_logged[OF logged_empty]) simp
  then have "logged [sample_first] [sample_first]" by simp
  then have "logged ([sample_first] @ [sample_second]) ([sample_first] @ [sample_second])"
    unfolding sample_second_def by (rule sample_logged) (simp add: sample_event_request_def)
  then show ?thesis by simp
qed

theorem replay_exact_witness:
  "\<exists>r. r = replay sample_log_env [lit ''a/1/x'', lit ''b/2/y''] (Some 1) None UNSCOPED [sample_first, sample_second] \<and>
     \<not> rr_gap r \<and> rr_events r = [envelope_for sample_second] \<and> 2 \<le> rr_cursor r"
proof -
  let ?r = "replay sample_log_env [lit ''a/1/x'', lit ''b/2/y''] (Some 1) None UNSCOPED [sample_first, sample_second]"
  have o: "owed [lit ''a/1/x'', lit ''b/2/y''] 1 UNSCOPED [sample_first, sample_second] = [sample_second]"
    by (simp add: owed_def UNSCOPED_def in_scope_def)
  have w: "wanted_rows [lit ''a/1/x'', lit ''b/2/y''] 1 [sample_first, sample_second] = [sample_second]"
    by (simp add: wanted_rows_def)
  have l: "replay_limit sample_log_env = 500"
    by (simp add: replay_limit_def env_int_def sample_log_env_def strip_def DEFAULT_REPLAY_LIMIT_def)
  from replay_exact[OF sample_pair_logged refl, of sample_log_env "[lit ''a/1/x'', lit ''b/2/y'']" 1 None UNSCOPED]
  show ?thesis unfolding o w l by (intro exI[of _ ?r]) simp
qed

theorem publish_recorded_witness:
  "\<exists>env rows' bus' more. publish_durable sample_log_env sample_write (sample_event_request ''a/1/x'' ''k1'') [] new_bus
     = (Some env, rows', bus') \<and> logged more rows' \<and> ev_event_id env = Some 1 \<and> env \<noteq> envelope_for sample_first"
proof -
  let ?r = "sample_event_request ''a/1/x'' ''k1''"
  have rec: "record_event sample_log_env sample_write ?r [] = (Some (envelope_for sample_first, True), [sample_first])"
    using sample_new[of ?r "[]" sample_log_env] by (simp add: sample_first_def latest_event_id_def PRUNE_EVERY_def)
  obtain env bus' where d: "deliver (envelope_for sample_first) (new_bus :: frame_body event_bus) = (env, bus')" by fastforce
  then have p: "publish_durable sample_log_env sample_write ?r [] new_bus = (Some env, [sample_first], bus')"
    by (simp add: publish_durable_def rec)
  from publish_recorded[OF alone_others[OF sample_write_alone] logged_empty p] obtain more
    where "logged more [sample_first]" "ev_event_id env = Some (re_id sample_first)" by auto
  moreover have "ev_seq env \<noteq> ev_seq (envelope_for sample_first)" using d by (auto simp: deliver_def Let_def)
  ultimately show ?thesis using p by auto
qed

theorem publish_idempotent_witness:
  "\<exists>env rows' bus' again. publish_durable sample_log_env sample_write (sample_event_request ''a/1/x'' ''k1'') [] new_bus
     = (Some env, rows', bus') \<and> rows' \<noteq> [] \<and>
     publish_durable sample_log_env sample_write (sample_event_request ''a/1/x'' ''k1'') rows' bus' = (Some again, rows', bus')"
proof -
  let ?r = "sample_event_request ''a/1/x'' ''k1''"
  have rec: "record_event sample_log_env sample_write ?r [] = (Some (envelope_for sample_first, True), [sample_first])"
    using sample_new[of ?r "[]" sample_log_env] by (simp add: sample_first_def latest_event_id_def PRUNE_EVERY_def)
  obtain env bus' where d: "deliver (envelope_for sample_first) (new_bus :: frame_body event_bus) = (env, bus')" by fastforce
  then have p: "publish_durable sample_log_env sample_write ?r [] new_bus = (Some env, [sample_first], bus')"
    by (simp add: publish_durable_def rec)
  have k: "er_dedupe_key ?r = Some (lit ''k1'')" "lit ''k1'' \<noteq> []" by (simp_all add: sample_event_request_def)
  obtain again where "publish_durable sample_log_env sample_write ?r [sample_first] bus' = (Some again, [sample_first], bus')"
    using publish_idempotent[OF alone_others[OF sample_write_alone] logged_empty p k sample_write_alone, of 0]
    by (auto simp: WRITE_ATTEMPTS_def sample_write_def)
  then show ?thesis using p by blast
qed

end
