(* ===== verification/GatewaySteps.thy ===== *)
theory GatewaySteps imports Gateway EventProperties begin

text \<open>
  Every interleaving of one realtime connection with the publishers of its process and with other
  processes, as the step relation \<open>gw_step\<close>, and the invariant that keeps the cursor of the console
  behind what was delivered. Next to the state of the program the relation keeps what the claims
  speak of: everything ever committed, what this process committed, the scopes the connection had,
  and from which id on each topic is owed.
\<close>

section \<open>The watched connection\<close>

record watched = gateway +
  wt_history :: event_table
  wt_own :: "int set"
  wt_scopes :: "subscription_scope set"
  wt_base :: "pystr \<Rightarrow> int option"

abbreviation cursor_now :: "cursor_tracker \<Rightarrow> watched \<Rightarrow> int" where
  "cursor_now ct0 g \<equiv> ct_highest (console ct0 (gw_out g))"

text \<open>After a change of grants: topics no longer held are owed nothing, and the scope counts.\<close>

definition narrow :: "watched \<Rightarrow> watched" where
  "narrow g = g\<lparr>wt_base := (\<lambda>t. if t \<in> held (gw_conn g) then wt_base g t else None),
                wt_scopes := insert (cn_scope (gw_conn g)) (wt_scopes g)\<rparr>"

text \<open>
  A topic is owed from the cursor of the console at the read that first covers it; a request without
  a cursor asks to start at the end of the log.
\<close>

definition wt_read :: "log_env \<Rightarrow> cursor_tracker \<Rightarrow> watched \<Rightarrow> watched" where
  "wt_read cfg ct0 g =
     (case gw_phase g of
        GwOpened ack topics cursor covers \<Rightarrow>
          (gw_read cfg g)\<lparr>wt_base := (\<lambda>t. if t \<in> set topics \<and> t \<noteq> [] \<and> (cursor = None \<or> wt_base g t = None)
             then Some (case cursor of None \<Rightarrow> max (cursor_now ct0 g) (latest_event_id (gw_rows g))
                                     | Some _ \<Rightarrow> cursor_now ct0 g)
             else wt_base g t)\<rparr>
      | _ \<Rightarrow> g)"

fun is_reset :: "frame \<Rightarrow> bool" where
  "is_reset (ResetFrame reason cursor topics) = True"
| "is_reset _ = False"

text \<open>A console that is told to reset reads everything again, so it is owed what is committed later.\<close>

definition wt_write :: "watched \<Rightarrow> watched" where
  "wt_write g =
     (case gw_phase g of
        GwWriting (f # fs) r topics after \<Rightarrow>
          if is_reset f
          then (gw_write g)\<lparr>wt_base := (\<lambda>t. map_option (\<lambda>_. int (length (wt_history g))) (wt_base g t))\<rparr>
          else gw_write g
      | _ \<Rightarrow> g)"

text \<open>A console names its own cursor, or none.\<close>

definition honest :: "cursor_tracker \<Rightarrow> watched \<Rightarrow> client_message \<Rightarrow> bool" where
  "honest ct0 g m =
     (case m of
        MsgSubscribe topics v \<Rightarrow> (case as_cursor v of None \<Rightarrow> True | Some c \<Rightarrow> 0 < c \<and> c \<le> cursor_now ct0 g)
      | MsgResync v \<Rightarrow> (case as_cursor v of None \<Rightarrow> True | Some c \<Rightarrow> 0 < c \<and> c \<le> cursor_now ct0 g)
      | _ \<Rightarrow> True)"

text \<open>What everyone else does to the bus: other subscriptions, and notifications that are not durable.\<close>

inductive other_bus :: "nat \<Rightarrow> frame_body event_bus \<Rightarrow> frame_body event_bus \<Rightarrow> bool" where
  other_subscribe: "other_bus i b (snd (subscribe ts sc lp b))"
| other_remove: "j \<noteq> i \<Longrightarrow> other_bus i b (remove_sub j b)"
| other_mutate: "j \<noteq> i \<Longrightarrow> other_bus i b (mutate j add rem repl sc b)"
| other_publish: "other_bus i b (snd (publish topic type payload org ws now b))"
| other_get: "\<lbrakk>j \<noteq> i; row_by sub_id j (subs b) = Some s; get_next s = Some (e, s')\<rbrakk> \<Longrightarrow>
    other_bus i b (b\<lparr>subs := update_where (\<lambda>x. sub_id x = j) (\<lambda>_. s') (subs b)\<rparr>)"

inductive gw_step :: "log_env \<Rightarrow> cursor_tracker \<Rightarrow> watched \<Rightarrow> watched \<Rightarrow> bool" for cfg ct0 where
  gw_commits: "\<lbrakk>gw_pending g = None; others_log sch; g' = gw_commit cfg sch r g;
      logged (wt_history g @ later) (gw_rows g')\<rbrakk> \<Longrightarrow>
    gw_step cfg ct0 g (g'\<lparr>wt_history := wt_history g @ later,
      wt_own := wt_own g \<union> (case gw_pending g' of None \<Rightarrow> {} | Some e \<Rightarrow> {the (ev_event_id e)})\<rparr>)"
| gw_foreign: "logged (wt_history g @ later) rows \<Longrightarrow>
    gw_step cfg ct0 g (g\<lparr>gw_rows := rows, wt_history := wt_history g @ later\<rparr>)"
| gw_announces: "gw_step cfg ct0 g (gw_announce g)"
| gw_others: "\<lbrakk>gw_open g; other_bus (gw_sub g) (gw_bus g) b\<rbrakk> \<Longrightarrow> gw_step cfg ct0 g (g\<lparr>gw_bus := b\<rparr>)"
| gw_takes: "\<lbrakk>gw_open g; gw_hand g = None\<rbrakk> \<Longrightarrow> gw_step cfg ct0 g (gw_take g)"
| gw_lives: "\<lbrakk>gw_open g; \<not> in_replay (gw_phase g)\<rbrakk> \<Longrightarrow> gw_step cfg ct0 g (gw_live g)"
| gw_messages: "\<lbrakk>gw_open g; gw_phase g = GwIdle; honest ct0 g m\<rbrakk> \<Longrightarrow>
    gw_step cfg ct0 g (narrow (gw_message db now who m g))"
| gw_reads: "gw_open g \<Longrightarrow> gw_step cfg ct0 g (wt_read cfg ct0 g)"
| gw_writes: "gw_open g \<Longrightarrow> gw_step cfg ct0 g (wt_write g)"
| gw_finishes: "gw_open g \<Longrightarrow> gw_step cfg ct0 g (gw_finish g)"
| gw_revalidates: "\<lbrakk>gw_open g; gw_phase g = GwIdle\<rbrakk> \<Longrightarrow> gw_step cfg ct0 g (narrow (gw_revalidate db who g))"
| gw_rescopes: "gw_open g \<Longrightarrow> gw_step cfg ct0 g (gw_rescope g)"
| gw_notices: "gw_open g \<Longrightarrow> gw_step cfg ct0 g (gw_notice g)"
| gw_closes: "gw_open g \<Longrightarrow> gw_step cfg ct0 g (close_gw reason g)"

section \<open>One subscription of the bus\<close>

abbreviation bus_sub :: "nat \<Rightarrow> 'p event_bus \<Rightarrow> 'p subscription option" where
  "bus_sub i b \<equiv> row_by sub_id i (subs b)"

lemma bus_sub_mutate:
  "bus_sub j (mutate i add rem repl sc b) =
     map_option (\<lambda>s. if i = j then mutate_sub add rem repl sc s else s) (bus_sub j b)"
proof -
  have "bus_sub j (mutate i add rem repl sc b)
      = map_option (\<lambda>s. if sub_id s = i then mutate_sub add rem repl sc s else s) (bus_sub j b)"
    by (simp add: mutate_def row_by_update_key)
  also have "\<dots> = map_option (\<lambda>s. if i = j then mutate_sub add rem repl sc s else s) (bus_sub j b)"
    by (cases "bus_sub j b") (auto dest: row_by_Some_iff_key)
  finally show ?thesis .
qed

lemma bus_sub_deliver:
  "bus_sub j (snd (deliver env b)) =
     map_option (\<lambda>s. if in_topic (fst (deliver env b)) s then deliver_one (fst (deliver env b)) s else s) (bus_sub j b)"
proof -
  have "sub_id (if in_topic e s then deliver_one e s else s) = sub_id s" for e and s :: "'a subscription" by simp
  moreover have "subs (snd (deliver env b)) = update_where (in_topic (fst (deliver env b))) (deliver_one (fst (deliver env b))) (subs b)"
    by (simp add: deliver_def Let_def)
  ultimately show ?thesis by (simp add: row_by_update_key)
qed

lemma fst_deliver [simp]:
  "ev_event_id (fst (deliver env b)) = ev_event_id env" "ev_topic (fst (deliver env b)) = ev_topic env"
  "ev_durable (fst (deliver env b)) = ev_durable env" "allows sc (fst (deliver env b)) = allows sc env"
  by (simp_all add: deliver_def Let_def allows_def split: option.split)

lemma bus_sub_subscribe: "bus_sub j b \<noteq> None \<Longrightarrow> bus_sub j (snd (subscribe ts sc lp b)) = bus_sub j b"
  by (auto simp: subscribe_def row_by_append)

lemma bus_sub_remove: "j \<noteq> i \<Longrightarrow> bus_sub i (remove_sub j b) = bus_sub i b"
proof -
  assume "j \<noteq> i"
  then have "row_by sub_id i (filter (\<lambda>s. sub_id s \<noteq> j) ss) = row_by sub_id i ss" for ss :: "'p subscription list"
    by (induction ss) auto
  then show ?thesis by (simp add: remove_sub_def)
qed

lemma row_by_replace:
  "sub_id s' = i \<Longrightarrow> row_by sub_id j (update_where (\<lambda>x. sub_id x = i) (\<lambda>_. s') ss) =
     (if i = j then map_option (\<lambda>_. s') (row_by sub_id j ss) else row_by sub_id j ss)"
  by (induction ss) auto

text \<open>A change of the bus that leaves a subscription as it is, but for notifications in its queue.\<close>

definition same_sub :: "frame_body subscription \<Rightarrow> frame_body subscription \<Rightarrow> bool" where
  "same_sub s s' \<longleftrightarrow> sub_topics s' = sub_topics s \<and> sub_scope s' = sub_scope s \<and> sub_loop s' = sub_loop s \<and>
     (\<exists>es. sub_queue s' = sub_queue s @ es \<and> (\<forall>e\<in>set es. ev_event_id e = None \<and> allows (sub_scope s) e))"

lemma same_sub_refl: "same_sub s s"
  by (auto simp: same_sub_def)

lemma publish_sub:
  assumes "bus_sub i b = Some s"
  shows "\<exists>s'. bus_sub i (snd (publish topic type payload org ws now b)) = Some s' \<and> same_sub s s'"
proof -
  have "\<exists>es. sub_queue (deliver_one e s) = sub_queue s @ es \<and> (\<forall>x\<in>set es. ev_event_id x = None \<and> allows (sub_scope s) x)"
    if "ev_event_id e = None" for e
    using that by (simp add: deliver_one_queue)
  moreover have "sub_topics (deliver_one e s) = sub_topics s" "sub_scope (deliver_one e s) = sub_scope s"
    "sub_loop (deliver_one e s) = sub_loop s" for e
    by (simp_all add: deliver_one_def split: loop_state.split)
  ultimately show ?thesis
    using assms by (simp add: publish_def bus_sub_deliver same_sub_def same_sub_refl)
qed

lemma other_bus_sub:
  assumes "other_bus i b b'" and "bus_sub i b = Some s"
  shows "\<exists>s'. bus_sub i b' = Some s' \<and> same_sub s s'"
  using assms(1)
proof cases
  case other_subscribe
  then show ?thesis using assms(2) bus_sub_subscribe[of i b] same_sub_refl by auto
next
  case (other_publish topic type payload org ws now)
  then show ?thesis using publish_sub[OF assms(2)] by simp
next
  case (other_get j s0 e s')
  have "sub_id s' = j" using other_get(3,4) by (auto simp: get_next_def split: list.splits dest: row_by_Some_iff_key)
  then show ?thesis using assms(2) other_get(1,2) same_sub_refl by (simp add: row_by_replace)
qed (use assms(2) same_sub_refl in \<open>auto simp: bus_sub_remove bus_sub_mutate\<close>)

section \<open>What is owed and what was sent\<close>

definition event_ids :: "event_envelope list \<Rightarrow> int list" where
  "event_ids es = concat (map (\<lambda>e. case ev_event_id e of None \<Rightarrow> [] | Some i \<Rightarrow> [i]) es)"

lemma event_ids_simps [simp]:
  "event_ids [] = []" "event_ids (e # es) = (case ev_event_id e of None \<Rightarrow> event_ids es | Some i \<Rightarrow> i # event_ids es)"
  "event_ids (es @ fs) = event_ids es @ event_ids fs"
  by (simp_all add: event_ids_def split: option.split)

lemma event_ids_silent: "\<forall>e\<in>set es. ev_event_id e = None \<Longrightarrow> event_ids es = []"
  by (induction es) auto

lemma event_ids_mem: "i \<in> set (event_ids es) \<longleftrightarrow> (\<exists>e\<in>set es. ev_event_id e = Some i)"
  by (induction es) (auto split: option.split)

fun carried :: "frame \<Rightarrow> int option" where
  "carried (Replayed e) = ev_event_id e"
| "carried (LiveFrame e) = ev_event_id e"
| "carried _ = None"

definition frame_ids :: "frame list \<Rightarrow> int list" where
  "frame_ids fs = concat (map (\<lambda>f. case carried f of None \<Rightarrow> [] | Some i \<Rightarrow> [i]) fs)"

lemma frame_ids_simps [simp]:
  "frame_ids [] = []" "frame_ids (f # fs) = (case carried f of None \<Rightarrow> frame_ids fs | Some i \<Rightarrow> i # frame_ids fs)"
  "frame_ids (fs @ gs) = frame_ids fs @ frame_ids gs"
  by (simp_all add: frame_ids_def split: option.split)

lemma frame_ids_replayed: "frame_ids (map Replayed es) = event_ids es"
  by (induction es) (auto split: option.split)

definition queue_of :: "'a gateway_scheme \<Rightarrow> event_envelope list" where
  "queue_of g = (case bus_sub (gw_sub g) (gw_bus g) of None \<Rightarrow> [] | Some s \<Rightarrow> sub_queue s)"

text \<open>The envelopes on their way: in the hand of the pump, queued, committed but not announced.\<close>

definition line :: "'a gateway_scheme \<Rightarrow> event_envelope list" where
  "line g = (case gw_hand g of None \<Rightarrow> [] | Some e \<Rightarrow> [e]) @ queue_of g
     @ (case gw_pending g of None \<Rightarrow> [] | Some e \<Rightarrow> [e])"

definition sent :: "'a gateway_scheme \<Rightarrow> int set" where
  "sent g = set (frame_ids (gw_out g))"

definition due :: "watched \<Rightarrow> int set" where
  "due g = {re_id e | e. e \<in> set (wt_history g) \<and> re_id e \<in> wt_own g \<and>
     (\<exists>b. wt_base g (re_topic e) = Some b \<and> b < re_id e) \<and> (\<forall>sc\<in>wt_scopes g. in_scope sc e)}"

lemma due_mono:
  assumes "wt_history g' = wt_history g" and "wt_own g' = wt_own g" and "wt_scopes g \<subseteq> wt_scopes g'"
    and "\<And>t. wt_base g' t = None \<or> wt_base g' t = wt_base g t"
  shows "due g' \<subseteq> due g"
proof -
  have "\<exists>b. wt_base g t = Some b \<and> b < i" if "wt_base g' t = Some b" "b < i" for t b i
    using assms(4)[of t] that by (metis option.discI)
  then show ?thesis using assms(1-3) by (fastforce simp: due_def)
qed

section \<open>The invariant\<close>

definition known :: "watched \<Rightarrow> event_envelope \<Rightarrow> bool" where
  "known g env \<longleftrightarrow> (\<forall>i. ev_event_id env = Some i \<longrightarrow> ev_durable env \<and>
     (\<exists>e\<in>set (wt_history g). re_id e = i \<and> ev_topic env = Some (re_topic e) \<and> (\<forall>sc. allows sc env = in_scope sc e)))"

definition wf_line :: "watched \<Rightarrow> bool" where
  "wf_line g \<longleftrightarrow> logged (wt_history g) (gw_rows g) \<and> wt_own g \<subseteq> {..int (length (wt_history g))} \<and>
     (\<forall>env\<in>set (line g). known g env) \<and> sorted_wrt (<) (event_ids (line g))"

definition wf_sub :: "watched \<Rightarrow> bool" where
  "wf_sub g \<longleftrightarrow> (gw_open g \<longrightarrow>
     (\<exists>s. bus_sub (gw_sub g) (gw_bus g) = Some s \<and> sub_loop s = LoopRunning \<and> held (gw_conn g) \<subseteq> sub_topics s \<and>
        sub_scope s \<in> wt_scopes g) \<and>
     cn_scope (gw_conn g) \<in> wt_scopes g \<and> (\<forall>t. wt_base g t \<noteq> None \<longrightarrow> t \<in> held (gw_conn g) \<and> t \<noteq> []))"

definition wf_delivered :: "watched \<Rightarrow> bool" where
  "wf_delivered g \<longleftrightarrow> (\<forall>t S. gw_delivered g t = Some S \<longrightarrow> S \<subseteq> sent g) \<and>
     (\<forall>f\<in>set (gw_notices g). \<exists>why ts. f = RevokedFrame why ts)"

definition batch_left :: "'a gateway_scheme \<Rightarrow> int set" where
  "batch_left g = (case gw_phase g of
     GwWriting fs r topics after \<Rightarrow> if \<exists>f\<in>set fs. is_reset f then UNIV else set (frame_ids fs) | _ \<Rightarrow> {})"

definition complete_gw :: "watched \<Rightarrow> bool" where
  "complete_gw g \<longleftrightarrow> (gw_open g \<longrightarrow> due g \<subseteq> sent g \<union> set (event_ids (line g)) \<union> batch_left g)"

definition safe_cursor :: "cursor_tracker \<Rightarrow> watched \<Rightarrow> bool" where
  "safe_cursor ct0 g \<longleftrightarrow> (\<forall>i\<in>due g. i \<le> cursor_now ct0 g \<longrightarrow> i \<in> sent g) \<and>
     (cursor_now ct0 g \<le> int (length (wt_history g)) \<or> (\<forall>t b. wt_base g t = Some b \<longrightarrow> cursor_now ct0 g \<le> b))"

text \<open>The frames of a batch come in the order ack, reset, events, receipt.\<close>

fun frame_rank :: "frame \<Rightarrow> nat" where
  "frame_rank (SubscribeAck ok subscribed denied renamed cursor covers) = 0"
| "frame_rank (ResyncAck cursor) = 0"
| "frame_rank (ResetFrame reason cursor topics) = 1"
| "frame_rank (Replayed e) = 2"
| "frame_rank _ = 3"

definition frame_order :: "frame \<Rightarrow> frame \<Rightarrow> bool" where
  "frame_order f f' \<longleftrightarrow> frame_rank f < frame_rank f' \<or> frame_rank f = 2 \<and> frame_rank f' = 2"

fun frame_fits :: "int \<Rightarrow> bool \<Rightarrow> (int \<Rightarrow> bool) \<Rightarrow> frame \<Rightarrow> bool" where
  "frame_fits n covers start (SubscribeAck ok subscribed denied renamed k cov) = (cov = covers \<and> k \<le> n \<and> start k)"
| "frame_fits n covers start (ResyncAck k) = (covers \<and> k \<le> n \<and> start k)"
| "frame_fits n covers start (ResetFrame reason k topics) = (k \<le> n)"
| "frame_fits n covers start (Replayed e) = True"
| "frame_fits n covers start (ReplayComplete c topics m cov b) = (\<forall>k. c = Some k \<longrightarrow> covers \<and> k \<le> n)"
| "frame_fits n covers start _ = False"

text \<open>An ack whose cursor the console may adopt retires nothing that is owed.\<close>

definition ack_start :: "cursor_tracker \<Rightarrow> watched \<Rightarrow> bool \<Rightarrow> int \<Rightarrow> bool" where
  "ack_start ct0 g covers k \<longleftrightarrow> (covers \<and> cursor_now ct0 g = 0 \<longrightarrow> due g \<inter> {..k} = {})"

definition batch_ok :: "cursor_tracker \<Rightarrow> watched \<Rightarrow> int \<Rightarrow> bool \<Rightarrow> frame list \<Rightarrow> replay_result \<Rightarrow> bool" where
  "batch_ok ct0 g n covers fs r \<longleftrightarrow>
     n \<le> int (length (wt_history g)) \<and> sorted_wrt (<) (frame_ids fs) \<and> set (frame_ids fs) \<subseteq> {..n} \<and>
     sorted_wrt frame_order fs \<and> (\<forall>f\<in>set fs. frame_fits n covers (ack_start ct0 g covers) f) \<and>
     (covers \<longrightarrow> (\<exists>f\<in>set fs. is_reset f) \<or> due g \<inter> {..n} \<subseteq> sent g \<union> set (frame_ids fs)) \<and>
     (\<not> covers \<longrightarrow> (\<exists>f\<in>set fs. frame_rank f = 0) \<or> \<not> ct_retires (console ct0 (gw_out g)) \<or>
        (\<forall>f\<in>set fs. frame_rank f \<noteq> 2)) \<and>
     set (event_ids (rr_events r)) \<subseteq> sent g \<union> set (frame_ids fs)"

definition wf_batch :: "cursor_tracker \<Rightarrow> watched \<Rightarrow> bool" where
  "wf_batch ct0 g \<longleftrightarrow>
     (case gw_phase g of
        GwOpened ack topics cursor covers \<Rightarrow>
          (\<forall>c. cursor = Some c \<longrightarrow> 0 < c \<and> c \<le> cursor_now ct0 g) \<and> set topics \<subseteq> held (gw_conn g) \<and>
          (covers \<longrightarrow> held (gw_conn g) \<subseteq> set topics) \<and> (ack = ForResync \<longrightarrow> covers)
      | GwWriting fs r topics after \<Rightarrow> \<exists>n covers. batch_ok ct0 g n covers fs r
      | _ \<Rightarrow> True)"

definition gw_inv :: "cursor_tracker \<Rightarrow> watched \<Rightarrow> bool" where
  "gw_inv ct0 g \<longleftrightarrow> wf_line g \<and> wf_sub g \<and> wf_delivered g \<and> complete_gw g \<and> safe_cursor ct0 g \<and> wf_batch ct0 g"

end
