(* ===== verification/GatewaySafety.thy ===== *)
theory GatewaySafety imports GatewaySteps begin

text \<open>
  Every step of \<open>gw_step\<close> keeps the invariant \<open>gw_inv\<close>: what is owed was sent, or is on its way in
  the order of ids, or is left in the open batch, and the cursor of the console never passes an
  owed event that was not sent.
\<close>

section \<open>Changes that touch little\<close>

lemma due_cong:
  "wt_history g' = wt_history g \<Longrightarrow> wt_own g' = wt_own g \<Longrightarrow> wt_scopes g' = wt_scopes g \<Longrightarrow> wt_base g' = wt_base g \<Longrightarrow>
     due g' = due g"
  by (simp add: due_def)

lemma batch_ok_mono:
  assumes "batch_ok ct0 g n covers fs r" and "int (length (wt_history g)) \<le> int (length (wt_history g'))"
    and "console ct0 (gw_out g') = console ct0 (gw_out g)" and "sent g' = sent g" and "due g' \<inter> {..n} \<subseteq> due g"
  shows "batch_ok ct0 g' n covers fs r"
proof -
  have s: "ack_start ct0 g' covers k" if "ack_start ct0 g covers k" "k \<le> n" for k
  proof -
    have "due g' \<inter> {..k} \<subseteq> due g \<inter> {..k}" using assms(5) that(2) by fastforce
    then show ?thesis using that(1) assms(3) by (auto simp: ack_start_def)
  qed
  have "frame_fits n covers (ack_start ct0 g' covers) f" if "frame_fits n covers (ack_start ct0 g covers) f" for f
    using that s by (cases f) auto
  moreover have "due g' \<inter> {..n} \<subseteq> due g \<inter> {..n}" using assms(5) by blast
  ultimately show ?thesis using assms(1-4) unfolding batch_ok_def by auto
qed

lemma numbered_later:
  assumes "numbered (H @ later)"
  shows "e \<in> set H \<Longrightarrow> re_id e \<le> int (length H)" "e \<in> set later \<Longrightarrow> int (length H) < re_id e"
    "e \<in> set later \<Longrightarrow> re_id e \<le> int (length (H @ later))"
proof -
  show "re_id e \<le> int (length H)" if e: "e \<in> set H"
  proof -
    obtain i where i: "i < length H" "H ! i = e" using e by (auto simp: in_set_conv_nth)
    then show ?thesis using numbered_nth[OF assms, of i] by (simp add: nth_append)
  qed
  have "int (length H) < re_id e \<and> re_id e \<le> int (length (H @ later))" if e: "e \<in> set later"
  proof -
    obtain i where i: "i < length later" "later ! i = e" using e by (auto simp: in_set_conv_nth)
    then show ?thesis using numbered_nth[OF assms, of "length H + i"] by (simp add: nth_append)
  qed
  then show "e \<in> set later \<Longrightarrow> int (length H) < re_id e" "e \<in> set later \<Longrightarrow> re_id e \<le> int (length (H @ later))"
    by blast+
qed

lemma due_past: "wf_line g \<Longrightarrow> due g \<subseteq> {..int (length (wt_history g))}"
  by (auto simp: wf_line_def due_def)

text \<open>A step that changes neither what is owed nor what was sent, but what is on its way.\<close>

lemma inv_line:
  assumes inv: "gw_inv ct0 g"
    and same: "gw_rows g' = gw_rows g" "wt_history g' = wt_history g" "wt_own g' = wt_own g"
      "wt_scopes g' = wt_scopes g" "wt_base g' = wt_base g" "gw_conn g' = gw_conn g"
      "gw_delivered g' = gw_delivered g" "gw_phase g' = gw_phase g" "gw_open g' = gw_open g"
      "console ct0 (gw_out g') = console ct0 (gw_out g)" "sent g' = sent g"
      "set (gw_notices g') \<subseteq> set (gw_notices g)"
    and known: "\<And>e. e \<in> set (line g') \<Longrightarrow> known g e" and ids: "sorted_wrt (<) (event_ids (line g'))"
    and lost: "\<And>i. gw_open g \<Longrightarrow> i \<in> due g \<Longrightarrow> i \<notin> sent g \<Longrightarrow> i \<in> set (event_ids (line g)) \<Longrightarrow> i \<in> set (event_ids (line g'))"
    and sub: "wf_sub g'"
  shows "gw_inv ct0 g'"
proof -
  have d: "due g' = due g" using same by (intro due_cong)
  have k: "known g' e = known g e" for e using same by (simp add: known_def)
  have b: "batch_left g' = batch_left g" using same by (simp add: batch_left_def)
  have bo: "batch_ok ct0 g' n c fs r" if "batch_ok ct0 g n c fs r" for n c fs r
    by (rule batch_ok_mono[OF that]) (use same d in auto)
  have "wf_line g'" using inv same known ids k by (auto simp: gw_inv_def wf_line_def)
  moreover have "wf_delivered g'" using inv same by (auto simp: gw_inv_def wf_delivered_def)
  moreover have "complete_gw g'"
    using inv same d b lost by (fastforce simp: gw_inv_def complete_gw_def)
  moreover have "safe_cursor ct0 g'" using inv same d by (auto simp: gw_inv_def safe_cursor_def)
  moreover have "wf_batch ct0 g'"
  proof (cases "gw_phase g")
    case (GwWriting fs r topics after)
    then obtain n c where "batch_ok ct0 g n c fs r" using inv by (auto simp: gw_inv_def wf_batch_def)
    from bo[OF this] show ?thesis using same(8) GwWriting by (auto simp: wf_batch_def)
  qed (use inv same in \<open>simp_all add: gw_inv_def wf_batch_def\<close>)
  ultimately show ?thesis using sub by (simp add: gw_inv_def)
qed

section \<open>Commits\<close>

lemma inv_grow:
  assumes inv: "gw_inv ct0 g" and new: "logged (wt_history g @ later) rows"
    and own: "J \<subseteq> {int (length (wt_history g)) <.. int (length (wt_history g @ later))}"
    and pend: "J = {} \<and> p = gw_pending g \<or> (\<exists>e\<in>set (wt_history g @ later). gw_pending g = None \<and> p = Some (envelope_for e) \<and>
        J = {re_id e})"
  shows "gw_inv ct0 (g\<lparr>gw_rows := rows, gw_pending := p, wt_history := wt_history g @ later, wt_own := wt_own g \<union> J\<rparr>)"
    (is "gw_inv ct0 ?g")
proof -
  let ?n = "int (length (wt_history g))"
  have num: "numbered (wt_history g @ later)" using logged_end[OF new] by (simp add: end_of_def)
  have wf: "wf_line g" "wt_own g \<subseteq> {..?n}" using inv by (auto simp: gw_inv_def wf_line_def)
  have d: "due ?g \<subseteq> due g \<union> J"
    using numbered_later[OF num] wf(2) own unfolding due_def by fastforce
  have J: "i \<in> J \<Longrightarrow> ?n < i" for i using own by auto
  have known: "known ?g e" if "known g e" for e using that unfolding known_def by auto
  have pid: "event_ids (case p of None \<Rightarrow> [] | Some e \<Rightarrow> [e]) =
      event_ids (case gw_pending g of None \<Rightarrow> [] | Some e \<Rightarrow> [e]) @ (if J = {} then [] else [the_elem J])"
    using pend by auto
  have q: "queue_of ?g = queue_of g" by (simp add: queue_of_def)
  have l: "line ?g = (case gw_hand g of None \<Rightarrow> [] | Some e \<Rightarrow> [e]) @ queue_of g @ (case p of None \<Rightarrow> [] | Some e \<Rightarrow> [e])"
    by (simp add: line_def queue_of_def)
  have ids: "event_ids (line ?g) = event_ids (line g) @ (if J = {} then [] else [the_elem J])"
    unfolding l by (simp add: line_def pid del: event_ids_simps(2))
  have old: "\<forall>i\<in>set (event_ids (line g)). i \<le> ?n"
    using wf(1) numbered_later(1)[OF num] by (fastforce simp: event_ids_mem wf_line_def known_def)
  have line: "wf_line ?g"
  proof -
    have "known ?g env" if "env \<in> set (line ?g)" for env
    proof (cases "env \<in> set (line g)")
      case True
      then show ?thesis using known wf(1) by (auto simp: wf_line_def)
    next
      case False
      then have "p = Some env" "p \<noteq> gw_pending g" using that unfolding line_def q by (auto split: option.splits)
      then show ?thesis using pend by (auto simp: known_def in_scope_allows)
    qed
    moreover have "sorted_wrt (<) (event_ids (line ?g))"
    proof (cases "J = {}")
      case False
      then obtain x where x: "J = {x}" using pend by blast
      then have "?n < x" using J by simp
      then show ?thesis using wf(1) old x unfolding ids by (fastforce simp: wf_line_def sorted_wrt_append)
    qed (use wf(1) ids in \<open>simp add: wf_line_def\<close>)
    ultimately show ?thesis using new wf(2) own by (auto simp: wf_line_def)
  qed
  have "due ?g \<subseteq> sent ?g \<union> set (event_ids (line ?g)) \<union> batch_left ?g" if "gw_open g"
  proof -
    have c: "due g \<subseteq> sent g \<union> set (event_ids (line g)) \<union> batch_left g"
      using inv that by (simp add: gw_inv_def complete_gw_def)
    have "J \<subseteq> set (event_ids (line ?g))" using pend unfolding ids by auto
    moreover have "set (event_ids (line g)) \<subseteq> set (event_ids (line ?g))" unfolding ids by auto
    moreover have "sent ?g = sent g" "batch_left ?g = batch_left g" by (simp_all add: sent_def batch_left_def)
    ultimately show ?thesis using d c by blast
  qed
  then have "complete_gw ?g" by (simp add: complete_gw_def)
  moreover have "safe_cursor ct0 ?g"
  proof -
    have s: "\<forall>i\<in>due g. i \<le> cursor_now ct0 g \<longrightarrow> i \<in> sent g"
      and a: "cursor_now ct0 g \<le> ?n \<or> (\<forall>t b. wt_base g t = Some b \<longrightarrow> cursor_now ct0 g \<le> b)"
      using inv by (auto simp: gw_inv_def safe_cursor_def)
    have "i \<in> sent g" if i: "i \<in> due ?g" "i \<le> cursor_now ct0 g" for i
    proof (cases "i \<in> due g")
      case False
      then have "?n < i" using d i(1) J by blast
      then have "\<forall>t b. wt_base g t = Some b \<longrightarrow> cursor_now ct0 g \<le> b" using a i(2) by auto
      then have False using i by (fastforce simp: due_def)
      then show ?thesis ..
    qed (use s i(2) in blast)
    then show ?thesis using a by (auto simp: safe_cursor_def sent_def)
  qed
  moreover have "wf_batch ct0 ?g"
  proof (cases "gw_phase g")
    case (GwWriting fs r topics after)
    then obtain n covers where b: "batch_ok ct0 g n covers fs r" using inv by (auto simp: gw_inv_def wf_batch_def)
    then have "n \<le> ?n" by (simp add: batch_ok_def)
    then have "batch_ok ct0 ?g n covers fs r"
      by (intro batch_ok_mono[OF b]) (use d J in \<open>auto simp: sent_def\<close>, force)
    then show ?thesis using GwWriting by (auto simp: wf_batch_def)
  qed (use inv in \<open>auto simp: gw_inv_def wf_batch_def\<close>)
  ultimately show ?thesis
    using line inv by (simp add: gw_inv_def wf_sub_def wf_delivered_def sent_def)
qed

lemma inv_foreign:
  "gw_inv ct0 g \<Longrightarrow> logged (wt_history g @ later) rows \<Longrightarrow> gw_inv ct0 (g\<lparr>gw_rows := rows, wt_history := wt_history g @ later\<rparr>)"
  using inv_grow[of ct0 g later rows "{}" "gw_pending g"] by simp

lemma same_length_end:
  assumes "end_of H rows" and "end_of K rows"
  shows "length H = length K"
  using end_of_latest[OF assms(1)] end_of_latest[OF assms(2)] by simp

lemma inv_commit:
  assumes inv: "gw_inv ct0 g" and p: "gw_pending g = None" and sch: "others_log sch"
    and new: "logged (wt_history g @ later) (gw_rows (gw_commit cfg sch r g))"
  shows "gw_inv ct0 ((gw_commit cfg sch r g)\<lparr>wt_history := wt_history g @ later,
      wt_own := wt_own g \<union> (case gw_pending (gw_commit cfg sch r g) of None \<Rightarrow> {} | Some e \<Rightarrow> {the (ev_event_id e)})\<rparr>)"
proof -
  let ?H = "wt_history g"
  have lg: "logged ?H (gw_rows g)" using inv by (simp add: gw_inv_def wf_line_def)
  obtain ans rows where rec: "record_event cfg sch r (gw_rows g) = (ans, rows)" by fastforce
  then have rows: "gw_rows (gw_commit cfg sch r g) = rows"
    by (simp add: gw_commit_def split: option.split bool.split)
  from record_event_logged[OF sch lg rec] obtain ext where m: "logged (?H @ ext) rows"
    and c: "\<forall>env. ans = Some (env, True) \<longrightarrow> ext \<noteq> [] \<and> env = envelope_for (last ext) \<and>
        re_id (last ext) = int (length (?H @ ext)) \<and> re_dedupe_key (last ext) = er_dedupe_key r"
    by blast
  note new = new[unfolded rows]
  have len: "length (?H @ ext) = length (?H @ later)" by (rule same_length_end[OF logged_end[OF m] logged_end[OF new]])
  consider env where "ans = Some (env, True)" | "\<forall>env. ans \<noteq> Some (env, True)" by blast
  then show ?thesis
  proof cases
    case 1
    then have e: "env = envelope_for (last ext)" "re_id (last ext) = int (length (?H @ later))" "ext \<noteq> []" using c len by auto
    have "last ext \<in> set rows" using newest_kept[OF logged_end[OF m]] e(3) by simp
    moreover obtain old where "?H @ later = old @ rows" using logged_end[OF new] by (auto simp: end_of_def)
    ultimately have mem: "last ext \<in> set (?H @ later)" by simp
    have "0 < length later" using len e(3) by (cases ext) auto
    then have "{re_id (last ext)} \<subseteq> {int (length ?H) <.. int (length (?H @ later))}" using e(2) by simp
    from inv_grow[OF inv new this, of "Some env"] mem p e(1)
    show ?thesis by (auto simp: gw_commit_def rec 1)
  next
    case 2
    then have g': "gw_commit cfg sch r g = g\<lparr>gw_rows := rows\<rparr>" by (auto simp: gw_commit_def rec split: option.split bool.split)
    then show ?thesis using inv_foreign[OF inv new] p by (simp add: g')
  qed
qed


section \<open>Announcements and the pump\<close>

lemma ids_once:
  assumes "wf_line g" and "e \<in> set (wt_history g)" and "e' \<in> set (wt_history g)" and "re_id e = re_id e'"
  shows "e = e'"
proof -
  have "numbered (wt_history g)" using logged_end assms(1) by (auto simp: wf_line_def end_of_def)
  then have "distinct (map re_id (wt_history g))" using numbered_sorted strict_sorted_iff by blast
  then have "inj_on re_id (set (wt_history g))" by (simp add: distinct_map)
  from inj_onD[OF this assms(4,2,3)] show ?thesis .
qed

text \<open>An envelope of an event that is owed: its topic is held and every scope admits it.\<close>

lemma due_envelope:
  assumes inv: "gw_inv ct0 g" and op: "gw_open g" and i: "i \<in> due g" and e: "env \<in> set (line g)" "ev_event_id env = Some i"
  shows "\<exists>t. ev_topic env = Some t \<and> t \<in> held (gw_conn g)" "ev_durable env" "\<forall>sc\<in>wt_scopes g. allows sc env"
proof -
  have wl: "wf_line g" using inv by (simp add: gw_inv_def)
  then have "known g env" using e(1) by (simp add: wf_line_def)
  then obtain x where x: "x \<in> set (wt_history g)" "re_id x = i" "ev_topic env = Some (re_topic x)" "ev_durable env"
    "\<forall>sc. allows sc env = in_scope sc x" using e(2) by (auto simp: known_def)
  obtain y b where y: "y \<in> set (wt_history g)" "re_id y = i" "wt_base g (re_topic y) = Some b" "\<forall>sc\<in>wt_scopes g. in_scope sc y"
    using i by (auto simp: due_def)
  have "x = y" using ids_once[OF wl x(1) y(1)] x(2) y(2) by simp
  then show "\<exists>t. ev_topic env = Some t \<and> t \<in> held (gw_conn g)" "ev_durable env" "\<forall>sc\<in>wt_scopes g. allows sc env"
    using x y inv op by (auto simp: gw_inv_def wf_sub_def)
qed

lemma queue_of_Some: "bus_sub (gw_sub g) (gw_bus g) = Some s \<Longrightarrow> queue_of g = sub_queue s"
  by (simp add: queue_of_def)

lemma known_deliver [simp]: "known g (fst (deliver env b)) = known g env"
  by (simp add: known_def)

lemma inv_announce:
  assumes inv: "gw_inv ct0 g"
  shows "gw_inv ct0 (gw_announce g)"
proof (cases "gw_pending g")
  case None
  then show ?thesis using inv by (simp add: gw_announce_def)
next
  case (Some env)
  let ?d = "deliver env (gw_bus g)"
  have g': "gw_announce g = g\<lparr>gw_pending := None, gw_bus := snd ?d\<rparr>" by (simp add: gw_announce_def Some)
  let ?hand = "case gw_hand g of None \<Rightarrow> [] | Some e \<Rightarrow> [e]"
  have l: "line g = ?hand @ queue_of g @ [env]" by (simp add: line_def Some)
  have l': "line (gw_announce g) = ?hand @ queue_of (gw_announce g)" by (simp add: line_def g')
  have wl: "\<forall>e\<in>set (line g). known g e" "sorted_wrt (<) (event_ids (line g))" using inv by (auto simp: gw_inv_def wf_line_def)
  show ?thesis
  proof (cases "bus_sub (gw_sub g) (gw_bus g)")
    case None
    then have q: "queue_of g = []" "queue_of (gw_announce g) = []" by (simp_all add: queue_of_def g' bus_sub_deliver)
    have op: "\<not> gw_open g" using inv None by (auto simp: gw_inv_def wf_sub_def)
    have lines: "line g = ?hand @ [env]" "line (gw_announce g) = ?hand" using l l' q by simp_all
    show ?thesis
    proof (rule inv_line[OF inv])
      show "known g e" if "e \<in> set (line (gw_announce g))" for e using that wl(1) unfolding lines by simp
      show "sorted_wrt (<) (event_ids (line (gw_announce g)))"
        using wl(2) unfolding lines by (simp add: sorted_wrt_append del: event_ids_simps(2))
    qed (use op in \<open>simp_all add: g' sent_def wf_sub_def\<close>)
  next
    case (Some s)
    let ?s = "if in_topic (fst ?d) s then deliver_one (fst ?d) s else s"
    have b: "bus_sub (gw_sub g) (snd ?d) = Some ?s" by (simp add: bus_sub_deliver Some)
    have keep: "sub_topics ?s = sub_topics s" "sub_scope ?s = sub_scope s" "sub_loop ?s = sub_loop s"
      by (simp_all add: deliver_one_def split: loop_state.split)
    have q: "queue_of (gw_announce g) = queue_of g @ (if in_topic (fst ?d) s \<and> allows (sub_scope s) env \<and> sub_loop s \<noteq> LoopClosed
        then [fst ?d] else [])"
      by (simp add: queue_of_def g' b Some deliver_one_queue)
    have ids: "event_ids [fst ?d] = event_ids [env]" by simp
    show ?thesis
    proof (rule inv_line[OF inv])
      show "known g e" if "e \<in> set (line (gw_announce g))" for e
        using that wl(1) unfolding l l' q by (auto split: if_splits)
      show "sorted_wrt (<) (event_ids (line (gw_announce g)))"
        using wl(2) ids unfolding l l' q by (auto simp: sorted_wrt_append simp del: event_ids_simps(2))
      show "wf_sub (gw_announce g)"
        using inv Some b keep by (auto simp: gw_inv_def wf_sub_def g')
      fix i assume op: "gw_open g" and i: "i \<in> due g" "i \<in> set (event_ids (line g))"
      show "i \<in> set (event_ids (line (gw_announce g)))"
      proof (cases "ev_event_id env = Some i")
        case True
        have "env \<in> set (line g)" by (simp add: l)
        from due_envelope[OF inv op i(1) this True] obtain t where "ev_topic env = Some t" "t \<in> held (gw_conn g)"
          "\<forall>sc\<in>wt_scopes g. allows sc env" by blast
        moreover have "held (gw_conn g) \<subseteq> sub_topics s" "sub_scope s \<in> wt_scopes g" "sub_loop s = LoopRunning"
          using inv op Some by (auto simp: gw_inv_def wf_sub_def)
        ultimately have "in_topic (fst ?d) s \<and> allows (sub_scope s) env \<and> sub_loop s \<noteq> LoopClosed"
          by (auto simp: in_topic_def)
        then show ?thesis using True unfolding l' q by simp
      next
        case False
        then show ?thesis using i(2) unfolding l l' by (auto simp: q split: option.splits)
      qed
    qed (simp_all add: g' sent_def)
  qed
qed

lemma inv_others:
  assumes inv: "gw_inv ct0 g" and op: "gw_open g" and b: "other_bus (gw_sub g) (gw_bus g) b"
  shows "gw_inv ct0 (g\<lparr>gw_bus := b\<rparr>)"
proof -
  obtain s where s: "bus_sub (gw_sub g) (gw_bus g) = Some s" using inv op by (auto simp: gw_inv_def wf_sub_def)
  obtain s' where s': "bus_sub (gw_sub g) b = Some s'" "same_sub s s'" using other_bus_sub[OF b s] by blast
  then obtain es where es: "sub_queue s' = sub_queue s @ es" "\<forall>e\<in>set es. ev_event_id e = None" by (auto simp: same_sub_def)
  have l: "line (g\<lparr>gw_bus := b\<rparr>) = (case gw_hand g of None \<Rightarrow> [] | Some e \<Rightarrow> [e]) @ (sub_queue s @ es)
      @ (case gw_pending g of None \<Rightarrow> [] | Some e \<Rightarrow> [e])"
    by (simp add: line_def queue_of_def s' es)
  have ids: "event_ids (line (g\<lparr>gw_bus := b\<rparr>)) = event_ids (line g)"
    unfolding l by (simp add: line_def queue_of_def s event_ids_silent[OF es(2)])
  have wl: "\<forall>e\<in>set (line g). known g e" "sorted_wrt (<) (event_ids (line g))" using inv by (auto simp: gw_inv_def wf_line_def)
  show ?thesis
  proof (rule inv_line[OF inv])
    show "known g e" if "e \<in> set (line (g\<lparr>gw_bus := b\<rparr>))" for e
    proof (cases "e \<in> set es")
      case True
      then show ?thesis using es(2) by (simp add: known_def)
    next
      case False
      then show ?thesis using that wl(1) s unfolding l by (auto simp: line_def queue_of_def)
    qed
    show "wf_sub (g\<lparr>gw_bus := b\<rparr>)" using inv s s' by (auto simp: gw_inv_def wf_sub_def same_sub_def)
  qed (use wl ids in \<open>simp_all add: sent_def\<close>)
qed

lemma inv_take:
  assumes inv: "gw_inv ct0 g" and h: "gw_hand g = None"
  shows "gw_inv ct0 (gw_take g)"
proof (cases "\<exists>s e s'. bus_sub (gw_sub g) (gw_bus g) = Some s \<and> get_next s = Some (e, s')")
  case False
  then show ?thesis using inv by (auto simp: gw_take_def split: option.splits)
next
  case True
  then obtain s e s' where s: "bus_sub (gw_sub g) (gw_bus g) = Some s" "get_next s = Some (e, s')" by blast
  then have q: "sub_queue s = e # sub_queue s'" and i: "sub_id s' = gw_sub g"
    and keep: "sub_topics s' = sub_topics s" "sub_scope s' = sub_scope s" "sub_loop s' = sub_loop s"
    by (auto simp: get_next_def split: list.splits dest: row_by_Some_iff_key)
  let ?b = "(gw_bus g)\<lparr>subs := update_where (\<lambda>x. sub_id x = gw_sub g) (\<lambda>_. s') (subs (gw_bus g))\<rparr>"
  have g': "gw_take g = g\<lparr>gw_hand := Some e, gw_bus := ?b\<rparr>" by (simp add: gw_take_def s)
  have b: "bus_sub (gw_sub g) ?b = Some s'" using s i by (simp add: row_by_replace)
  have l: "line (gw_take g) = line g" using b by (simp add: line_def queue_of_def g' s h q)
  show ?thesis
  proof (rule inv_line[OF inv])
    show "wf_sub (gw_take g)" using inv s b keep by (auto simp: gw_inv_def wf_sub_def g')
  qed (use inv l in \<open>auto simp: g' sent_def gw_inv_def wf_line_def\<close>)
qed

lemma console_emit [simp]: "console ct0 (fs @ [f]) = see_frame f (console ct0 fs)"
  by (simp add: console_def)

lemma accept_frame_highest:
  "ct_highest (accept_frame i replayed ct) = ct_highest ct \<or>
   (\<exists>k. i = Some k \<and> ct_highest (accept_frame i replayed ct) = k \<and> (ct_retires ct \<or> \<not> replayed))"
  "ct_retires (accept_frame i replayed ct) = ct_retires ct"
  by (auto simp: accept_frame_def Let_def split: option.split)

text \<open>A frame is written that carries the first event on its way.\<close>

lemma inv_sends_first:
  assumes inv: "gw_inv ct0 g" and op: "gw_open g" and ph: "\<not> in_replay (gw_phase g)"
    and h: "gw_hand g = Some e" and i: "ev_event_id e = Some i"
    and fl: "f = LiveFrame e'" "ev_event_id e' = Some i"
  shows "gw_inv ct0 (g\<lparr>gw_hand := None, gw_seq := n, gw_out := gw_out g @ [f]\<rparr>)" (is "gw_inv ct0 ?g")
proof -
  have wl: "wf_line g" using inv by (simp add: gw_inv_def)
  have l: "line g = e # line ?g" by (simp add: line_def h queue_of_def)
  have d: "due ?g = due g" by (simp add: due_def)
  have st: "sent ?g = insert i (sent g)" by (auto simp: sent_def fl)
  have srt: "sorted_wrt (<) (i # event_ids (line ?g))" and kn: "\<forall>x\<in>set (line g). known g x"
    using wl i by (auto simp: wf_line_def l)
  have bl: "batch_left g = {}" "batch_left ?g = {}" using ph by (auto simp: batch_left_def in_replay_def split: gw_phase.splits)
  have comp: "due g \<subseteq> sent g \<union> set (i # event_ids (line ?g))"
    using inv op bl i by (simp add: gw_inv_def complete_gw_def l)
  have "known g e" using kn by (simp add: l)
  then have ile: "i \<le> int (length (wt_history g))"
    using i due_past wl numbered_later(1)[of "wt_history g" "[]"] logged_end
    by (fastforce simp: known_def wf_line_def end_of_def)
  have cur: "cursor_now ct0 ?g = cursor_now ct0 g \<or> cursor_now ct0 ?g = i"
    using accept_frame_highest(1)[of "Some i" False "console ct0 (gw_out g)"] fl by auto
  have safe: "\<forall>j\<in>due g. j \<le> cursor_now ct0 g \<longrightarrow> j \<in> sent g"
    and ahead: "cursor_now ct0 g \<le> int (length (wt_history g)) \<or> (\<forall>t b. wt_base g t = Some b \<longrightarrow> cursor_now ct0 g \<le> b)"
    using inv by (auto simp: gw_inv_def safe_cursor_def)
  have "j \<in> insert i (sent g)" if "j \<in> due g" "j \<le> cursor_now ct0 ?g" for j
  proof (cases "j \<le> cursor_now ct0 g")
    case False
    then have "j \<le> i" using that(2) cur by auto
    then show ?thesis using comp srt that(1) by fastforce
  qed (use safe that(1) in blast)
  then have "safe_cursor ct0 ?g" using cur ahead ile unfolding safe_cursor_def d st by auto
  moreover have "wf_line ?g" using wl srt kn unfolding wf_line_def by (auto simp: l known_def)
  moreover have "complete_gw ?g" using comp bl unfolding complete_gw_def d st by auto
  moreover have "wf_delivered ?g" using inv unfolding gw_inv_def wf_delivered_def st by auto
  moreover have "wf_sub ?g" using inv by (simp add: gw_inv_def wf_sub_def)
  moreover have "wf_batch ct0 ?g" using ph by (auto simp: wf_batch_def in_replay_def split: gw_phase.splits)
  ultimately show ?thesis by (simp add: gw_inv_def)
qed

lemma inv_live:
  assumes inv: "gw_inv ct0 g" and op: "gw_open g" and ph: "\<not> in_replay (gw_phase g)"
  shows "gw_inv ct0 (gw_live g)"
proof (cases "gw_hand g")
  case None
  then show ?thesis using inv by (simp add: gw_live_def)
next
  case (Some e)
  have wl: "wf_line g" using inv by (simp add: gw_inv_def)
  let ?g = "g\<lparr>gw_hand := None\<rparr>"
  have l: "line g = e # line ?g" by (simp add: line_def Some queue_of_def)
  have e: "e \<in> set (line g)" by (simp add: l)
  have tail: "sorted_wrt (<) (event_ids (line ?g))" "\<forall>x\<in>set (line ?g). known g x"
    using wl by (auto simp: wf_line_def l split: option.splits)
  show ?thesis
  proof (cases "superseded (held (gw_conn g)) (gw_delivered g) e")
    case True
    have "gw_inv ct0 ?g"
    proof (rule inv_line[OF inv])
      fix i assume i: "i \<in> due g" "i \<notin> sent g" "i \<in> set (event_ids (line g))"
      have "ev_event_id e \<noteq> Some i"
      proof
        assume ei: "ev_event_id e = Some i"
        from due_envelope[OF inv op i(1) e ei] obtain t where t: "ev_topic e = Some t" "t \<in> held (gw_conn g)" "ev_durable e"
          by blast
        then obtain S where "gw_delivered g t = Some S" "i \<in> S"
          using True ei by (auto simp: superseded_def split: option.splits)
        then show False using i(2) inv by (auto simp: gw_inv_def wf_delivered_def)
      qed
      then show "i \<in> set (event_ids (line ?g))" using i(3) by (auto simp: l split: option.splits)
    qed (use tail inv in \<open>auto simp: sent_def gw_inv_def wf_sub_def\<close>)
    then show ?thesis by (simp add: gw_live_def Some True)
  next
    case False
    let ?n = "gw_seq g + 1"
    let ?f = "LiveFrame (e\<lparr>ev_seq := Some ?n\<rparr>)"
    have g': "gw_live g = g\<lparr>gw_hand := None, gw_seq := ?n, gw_out := gw_out g @ [?f]\<rparr>"
      by (simp add: gw_live_def Some False emit_def)
    show ?thesis
    proof (cases "ev_event_id e")
      case None
      have "line (g\<lparr>gw_hand := None, gw_seq := ?n, gw_out := gw_out g @ [?f]\<rparr>) = line ?g"
        by (simp add: line_def queue_of_def)
      then have "gw_inv ct0 (g\<lparr>gw_hand := None, gw_seq := ?n, gw_out := gw_out g @ [?f]\<rparr>)"
        by (intro inv_line[OF inv]) (use tail inv None in \<open>auto simp: l sent_def gw_inv_def wf_sub_def accept_frame_def\<close>)
      then show ?thesis by (simp only: g')
    next
      case i: (Some i)
      show ?thesis unfolding g' by (rule inv_sends_first[OF inv op ph Some i refl]) (simp add: i)
    qed
  qed
qed

section \<open>Notices, endings and the applied revalidation\<close>

lemma inv_notice:
  assumes inv: "gw_inv ct0 g"
  shows "gw_inv ct0 (gw_notice g)"
proof (cases "gw_notices g")
  case Nil
  then show ?thesis using inv by (simp add: gw_notice_def)
next
  case (Cons f fs)
  then obtain why ts where f: "f = RevokedFrame why ts" using inv by (auto simp: gw_inv_def wf_delivered_def)
  have g': "gw_notice g = g\<lparr>gw_notices := fs, gw_out := gw_out g @ [f]\<rparr>" by (simp add: gw_notice_def Cons emit_def)
  have "line (gw_notice g) = line g" by (simp add: g' line_def queue_of_def)
  then show ?thesis
    by (intro inv_line[OF inv]) (use inv Cons f in \<open>auto simp: g' sent_def gw_inv_def wf_line_def wf_sub_def\<close>)
qed

lemma inv_close:
  assumes inv: "gw_inv ct0 g"
  shows "gw_inv ct0 (close_gw reason g)"
proof -
  let ?g = "close_gw reason g"
  have f: "gw_rows ?g = gw_rows g" "wt_history ?g = wt_history g" "wt_own ?g = wt_own g" "wt_scopes ?g = wt_scopes g"
    "wt_base ?g = wt_base g" "gw_delivered ?g = gw_delivered g" "\<not> gw_open ?g" "gw_phase ?g = GwIdle"
    "gw_notices ?g = gw_notices g"
    by (simp_all add: close_gw_def emit_def Let_def split: option.split)
  have o: "console ct0 (gw_out ?g) = console ct0 (gw_out g)" "sent ?g = sent g"
    by (simp_all add: close_gw_def emit_def Let_def sent_def split: option.split)
  have "bus_sub i (remove_sub i b) = None" for i and b :: "frame_body event_bus"
    by (simp add: remove_sub_def row_by_None image_iff)
  then have "queue_of ?g = []" by (simp add: queue_of_def close_gw_def emit_def Let_def split: option.split)
  then have l: "line ?g = (case gw_hand g of None \<Rightarrow> [] | Some e \<Rightarrow> [e]) @ (case gw_pending g of None \<Rightarrow> [] | Some e \<Rightarrow> [e])"
    by (simp add: line_def) (simp add: close_gw_def emit_def Let_def split: option.split)
  have wl: "\<forall>e\<in>set (line g). known g e" "sorted_wrt (<) (event_ids (line g))" using inv by (auto simp: gw_inv_def wf_line_def)
  have "sorted_wrt (<) (event_ids (line ?g))"
    unfolding l using wl(2)[unfolded line_def] by (simp add: sorted_wrt_append del: event_ids_simps(2))
  moreover have "known ?g e" if "e \<in> set (line ?g)" for e
    using that[unfolded l] wl(1)[unfolded line_def] f unfolding known_def by (auto split: option.splits)
  ultimately have "wf_line ?g" using inv f by (simp add: gw_inv_def wf_line_def)
  moreover have "safe_cursor ct0 ?g" using inv f o due_cong[of ?g g] by (simp add: gw_inv_def safe_cursor_def)
  moreover have "wf_delivered ?g" using inv f o by (simp add: gw_inv_def wf_delivered_def)
  ultimately show ?thesis using f by (simp add: gw_inv_def wf_sub_def complete_gw_def wf_batch_def)
qed

lemma newest_ids_subset: "newest_ids S \<subseteq> S"
proof (cases "finite S")
  case True
  then show ?thesis
    by (auto simp: newest_ids_def dest: in_set_dropD)
qed (auto simp: newest_ids_def)

lemma covered_subset:
  "covered r topics d t = Some S \<Longrightarrow> i \<in> S \<Longrightarrow> i \<in> set (event_ids (rr_events r)) \<or> (\<exists>T. d t = Some T \<and> i \<in> T)"
proof -
  assume c: "covered r topics d t = Some S" and i: "i \<in> S"
  have "j \<in> set (event_ids (rr_events r))" if "j \<in> replay_ids r t" for j
    using that by (auto simp: replay_ids_def event_ids_mem split: option.splits)
  then show ?thesis
    using c i newest_ids_subset
    by (auto simp: covered_def Let_def replay_delivered_def forget_def split: option.splits if_splits dest!: subsetD[OF newest_ids_subset])
qed

text \<open>Changes of what the writer remembers and of the phase, with no batch left.\<close>

lemma inv_settle:
  assumes inv: "gw_inv ct0 g" and left: "batch_left g = {}"
    and same: "gw_rows g' = gw_rows g" "wt_history g' = wt_history g" "wt_own g' = wt_own g"
      "wt_scopes g \<subseteq> wt_scopes g'" "gw_open g' = gw_open g"
      "cursor_now ct0 g' = cursor_now ct0 g" "sent g' = sent g"
    and base: "\<And>t. wt_base g' t = None \<or> wt_base g' t = wt_base g t"
    and known: "\<And>e. e \<in> set (line g') \<Longrightarrow> known g e" and ids: "event_ids (line g') = event_ids (line g)"
    and del: "wf_delivered g'" and sub: "wf_sub g'" and left': "batch_left g' = {}" and batch: "wf_batch ct0 g'"
  shows "gw_inv ct0 g'"
proof -
  have d: "due g' \<subseteq> due g" by (rule due_mono) (use same base in auto)
  have k: "known g' e = known g e" for e using same by (simp add: known_def)
  have "wf_line g'" using inv same known ids k by (auto simp: gw_inv_def wf_line_def)
  moreover have "complete_gw g'" using inv same d left left' ids by (auto simp: gw_inv_def complete_gw_def)
  moreover have "safe_cursor ct0 g'"
  proof -
    have "cursor_now ct0 g' \<le> b" if "\<forall>t b. wt_base g t = Some b \<longrightarrow> cursor_now ct0 g \<le> b" "wt_base g' t = Some b" for t b
      using base[of t] that same(6) by (metis option.discI)
    then show ?thesis using inv same d by (auto simp: gw_inv_def safe_cursor_def)
  qed
  ultimately show ?thesis using del sub batch by (simp add: gw_inv_def)
qed

lemma inv_finish:
  assumes inv: "gw_inv ct0 g"
  shows "gw_inv ct0 (gw_finish g)"
proof (cases "\<exists>r topics after. gw_phase g = GwWriting [] r topics after")
  case False
  then show ?thesis using inv by (auto simp: gw_finish_def split: gw_phase.splits list.splits)
next
  case True
  then obtain r topics after where ph: "gw_phase g = GwWriting [] r topics after" by blast
  let ?c = "(gw_conn g)\<lparr>cn_cursor := max (cn_cursor (gw_conn g)) after\<rparr>"
  have g': "gw_finish g = g\<lparr>gw_phase := GwIdle, gw_delivered := covered r topics (gw_delivered g), gw_conn := ?c\<rparr>"
    by (simp add: gw_finish_def ph)
  obtain n covers where "batch_ok ct0 g n covers [] r" using inv ph by (auto simp: gw_inv_def wf_batch_def)
  then have ev: "set (event_ids (rr_events r)) \<subseteq> sent g" by (simp add: batch_ok_def)
  have "line (gw_finish g) = line g" by (simp add: g' line_def queue_of_def)
  moreover have "S \<subseteq> sent g" if "covered r topics (gw_delivered g) t = Some S" for t S
    using covered_subset[OF that] ev inv unfolding gw_inv_def wf_delivered_def by blast
  ultimately show ?thesis
    by (intro inv_settle[OF inv]) (use inv ph in
      \<open>auto simp: g' sent_def batch_left_def gw_inv_def wf_line_def wf_sub_def wf_batch_def wf_delivered_def held_def\<close>)
qed

lemma bus_sub_register:
  "bus_sub (gw_sub g) (gw_bus (register g)) = map_option (\<lambda>s. s\<lparr>sub_topics := held (gw_conn g),
     sub_scope := cn_scope (gw_conn g)\<rparr>) (bus_sub (gw_sub g) (gw_bus g))"
  by (cases "bus_sub (gw_sub g) (gw_bus g)")
     (simp_all add: register_def set_scope_def replace_topics_def bus_sub_mutate mutate_sub_def conn_topics_def held_def)

lemma inv_rescope:
  assumes inv: "gw_inv ct0 g" and op: "gw_open g"
  shows "gw_inv ct0 (gw_rescope g)"
proof (cases "gw_phase g")
  case (GwRescoping lost)
  let ?g1 = "g\<lparr>gw_phase := GwIdle, gw_delivered := forget lost (gw_delivered g),
    gw_notices := gw_notices g @ (if lost = [] then [] else [RevokedFrame REVOKED_SCOPE (Some lost)])\<rparr>"
  have g': "gw_rescope g = register ?g1" by (simp add: gw_rescope_def GwRescoping)
  obtain s where s: "bus_sub (gw_sub g) (gw_bus g) = Some s" "sub_loop s = LoopRunning" using inv op by (auto simp: gw_inv_def wf_sub_def)
  have b: "bus_sub (gw_sub g) (gw_bus (gw_rescope g)) = Some (s\<lparr>sub_topics := held (gw_conn g), sub_scope := cn_scope (gw_conn g)\<rparr>)"
    using bus_sub_register[of ?g1] s by (simp add: g')
  have f: "gw_sub (gw_rescope g) = gw_sub g" "gw_hand (gw_rescope g) = gw_hand g" "gw_pending (gw_rescope g) = gw_pending g"
    by (simp_all add: g' register_def)
  have "line (gw_rescope g) = line g" using b s by (simp add: line_def queue_of_def f)
  moreover have "wf_sub (gw_rescope g)" using inv op s b by (auto simp: gw_inv_def wf_sub_def g' register_def)
  ultimately show ?thesis
    by (intro inv_settle[OF inv]) (use inv GwRescoping in
      \<open>auto simp: g' register_def sent_def batch_left_def gw_inv_def wf_line_def wf_batch_def wf_delivered_def forget_def split: if_splits\<close>)
qed (use inv in \<open>simp_all add: gw_rescope_def\<close>)

section \<open>Reading and writing a batch\<close>

lemma replay_events:
  assumes "end_of H rows"
  shows "\<exists>es. rr_events (replay cfg topics a limit sc rows) = map envelope_for es \<and> set es \<subseteq> set rows \<and>
    sorted_wrt (<) (map re_id es) \<and> (\<forall>e\<in>set es. re_topic e \<in> set topics \<and> in_scope sc e)"
proof -
  let ?w = "\<lambda>k. wanted_rows (filter (\<lambda>t. t \<noteq> []) topics) k rows"
  let ?es = "\<lambda>m m' k. filter (in_scope sc) (take m (take m' (?w k)))"
  have w: "sorted_wrt (<) (map re_id (?w k))" for k
    unfolding wanted_rows_sorted[OF assms] using end_of_sorted[OF assms]
    by (simp add: sorted_wrt_map sorted_wrt_filter)
  have es: "sorted_wrt (<) (map re_id (?es m m' k)) \<and> set (?es m m' k) \<subseteq> set rows \<and>
      (\<forall>e\<in>set (?es m m' k). re_topic e \<in> set topics \<and> in_scope sc e)" for m m' k
    using w[of k] by (auto simp: sorted_wrt_map sorted_wrt_filter sorted_wrt_take wanted_rows_def dest!: in_set_takeD)
  have shape: "P (rr_events (replay cfg topics a limit sc rows))"
    if "P []" "\<And>m m' k. P (map envelope_for (?es m m' k))" for P
  proof -
    have "P (map envelope_for (filter (in_scope sc) (?w k)))" for k
      using that(2)[of "length (?w k)" "length (?w k)" k] by simp
    then show ?thesis unfolding replay_def Let_def using that by (simp split: option.split del: take_take)
  qed
  show ?thesis
  proof (rule shape)
    show "\<exists>es. [] = map envelope_for es \<and> set es \<subseteq> set rows \<and> sorted_wrt (<) (map re_id es) \<and>
        (\<forall>e\<in>set es. re_topic e \<in> set topics \<and> in_scope sc e)"
      by (intro exI[of _ "[]"]) simp
    show "\<exists>es. map envelope_for (?es m m' k) = map envelope_for es \<and> set es \<subseteq> set rows \<and> sorted_wrt (<) (map re_id es) \<and>
        (\<forall>e\<in>set es. re_topic e \<in> set topics \<and> in_scope sc e)" for m m' k
      using es by blast
  qed
qed

lemma event_ids_envelopes: "event_ids (map envelope_for es) = map re_id es"
  by (induction es) auto

lemma frame_ids_batch:
  "frame_ids (ack_frame ack topics reported covers # fst (send_replay r topics reported covers)) = event_ids (rr_events r)"
  by (simp add: send_replay_def Let_def receipt_cursor_def frame_ids_replayed replay_complete_frame_def ack_frame_def
      split: batch_ack.split)

lemma frame_order_batch:
  "sorted_wrt frame_order (ack_frame ack topics reported covers # fst (send_replay r topics reported covers))"
  by (auto simp: send_replay_def Let_def receipt_cursor_def replay_complete_frame_def ack_frame_def frame_order_def
      sorted_wrt_append sorted_wrt_map split: batch_ack.split)

lemma frame_fits_batch:
  assumes "reported \<le> n" and "rr_cursor r \<le> n" and "start reported" and "ack = ForResync \<longrightarrow> covers"
  shows "\<forall>f\<in>set (ack_frame ack topics reported covers # fst (send_replay r topics reported covers)).
    frame_fits n covers start f"
  using assms by (auto simp: send_replay_def Let_def receipt_cursor_def replay_complete_frame_def ack_frame_def
      split: batch_ack.split)

lemma reset_in_batch:
  "rr_gap r \<Longrightarrow> \<exists>f\<in>set (ack # fst (send_replay r topics reported covers)). is_reset f"
  by (auto simp: send_replay_def Let_def receipt_cursor_def)

text \<open>The cursors a read reports stay within the log.\<close>

lemma replay_cursors:
  assumes "logged H rows" and "r = replay cfg topics cursor limit sc rows"
  shows "rr_cursor r \<le> int (length H)" "pre_replay_cursor cursor r \<le> int (length H)"
proof -
  have n: "latest_event_id rows = int (length H)" using end_of_latest[OF logged_end[OF assms(1)]] .
  show "rr_cursor r \<le> int (length H)"
  proof (cases cursor)
    case None
    then show ?thesis using assms(2) n by (simp add: replay_def Let_def)
  next
    case (Some c)
    then show ?thesis using replay_of_log[OF assms(1), of r cfg topics c limit sc] assms(2) by simp
  qed
  then show "pre_replay_cursor cursor r \<le> int (length H)"
    using replay_of_log[OF assms(1), of r cfg topics "the cursor" limit sc] assms(2)
    by (auto simp: pre_replay_cursor_def split: option.split)
qed

lemma inv_read:
  assumes inv: "gw_inv ct0 g" and op: "gw_open g"
  shows "gw_inv ct0 (wt_read cfg ct0 g)"
proof (cases "gw_phase g")
  case (GwOpened ack topics cursor covers)
  let ?C = "cursor_now ct0 g" and ?H = "wt_history g" and ?g = "wt_read cfg ct0 g"
  let ?r = "conn_replay cfg (gw_conn g) topics cursor (gw_rows g)"
  let ?rep = "pre_replay_cursor cursor ?r"
  let ?fs = "ack_frame ack topics ?rep covers # fst (send_replay ?r topics ?rep covers)"
  let ?N = "int (length ?H)"
  have wl: "wf_line g" and ws: "wf_sub g" using inv by (simp_all add: gw_inv_def)
  have lg: "logged ?H (gw_rows g)" using wl by (simp add: wf_line_def)
  have latest: "latest_event_id (gw_rows g) = ?N" using end_of_latest[OF logged_end[OF lg]] .
  have hon: "0 < c \<and> c \<le> ?C" if "cursor = Some c" for c
    using inv GwOpened that by (auto simp: gw_inv_def wf_batch_def)
  have tops: "set topics \<subseteq> held (gw_conn g)" "covers \<Longrightarrow> held (gw_conn g) \<subseteq> set topics" "ack = ForResync \<longrightarrow> covers"
    using inv GwOpened by (auto simp: gw_inv_def wf_batch_def)
  have base: "wt_base ?g t = (if t \<in> set topics \<and> t \<noteq> [] \<and> (cursor = None \<or> wt_base g t = None)
      then Some (case cursor of None \<Rightarrow> max ?C ?N | Some _ \<Rightarrow> ?C) else wt_base g t)" for t
    by (cases cursor) (simp_all add: wt_read_def GwOpened latest)
  have ph: "gw_phase ?g = GwWriting ?fs ?r topics (snd (send_replay ?r topics ?rep covers))"
    by (simp add: wt_read_def GwOpened gw_read_def Let_def split: prod.split)
  have same: "gw_rows ?g = gw_rows g" "wt_history ?g = ?H" "wt_own ?g = wt_own g" "wt_scopes ?g = wt_scopes g"
    "gw_open ?g = gw_open g" "gw_out ?g = gw_out g" "gw_conn ?g = gw_conn g" "gw_delivered ?g = gw_delivered g"
    "gw_notices ?g = gw_notices g" "gw_bus ?g = gw_bus g" "gw_sub ?g = gw_sub g" "gw_hand ?g = gw_hand g" "gw_pending ?g = gw_pending g"
    by (simp_all add: wt_read_def GwOpened gw_read_def Let_def split: prod.split)
  have st: "sent ?g = sent g" and ln: "line ?g = line g" using same by (simp_all add: sent_def line_def queue_of_def)
  have cursors: "rr_cursor ?r \<le> ?N" "?rep \<le> ?N"
    using replay_cursors[OF lg, of ?r cfg topics cursor None "cn_scope (gw_conn g)"] by (simp_all add: conn_replay_def)
  obtain es where es: "rr_events ?r = map envelope_for es" "set es \<subseteq> set (gw_rows g)" "sorted_wrt (<) (map re_id es)"
    using replay_events[OF logged_end[OF lg], of cfg topics cursor None "cn_scope (gw_conn g)"] by (auto simp: conn_replay_def)
  have fids: "frame_ids ?fs = map re_id es" unfolding frame_ids_batch es(1) event_ids_envelopes ..
  have es_le: "\<forall>e\<in>set es. re_id e \<le> ?N" using es(2) end_of_le[OF logged_end[OF lg]] by blast
  text \<open>What is newly owed is in the batch, unless the batch says reset.\<close>
  have fresh: "i \<in> set (frame_ids ?fs) \<or> rr_gap ?r"
    if e: "e \<in> set ?H" "re_id e = i" "\<forall>sc\<in>wt_scopes g. in_scope sc e" "re_topic e \<in> set topics" "re_topic e \<noteq> []"
      and c: "cursor = Some c" "c < i" for e i c
  proof (cases "rr_gap ?r")
    case False
    have "cn_scope (gw_conn g) \<in> wt_scopes g" using ws op by (simp add: wf_sub_def)
    then have "e \<in> set (owed topics c (cn_scope (gw_conn g)) ?H)" using e c by (simp add: owed_def)
    moreover have "rr_events ?r = map envelope_for (owed topics c (cn_scope (gw_conn g)) ?H)"
      using replay_of_log[OF lg, of ?r cfg topics c None] False c(1) by (simp add: conn_replay_def)
    ultimately have "i \<in> set (event_ids (rr_events ?r))" using e(2) by (auto simp: event_ids_envelopes)
    then show ?thesis unfolding frame_ids_batch ..
  qed simp
  text \<open>What is owed was owed before, or is past the cursor of the console and in the batch.\<close>
  have split: "i \<in> due g \<or> (?C < i \<and> (i \<in> set (frame_ids ?fs) \<or> rr_gap ?r))" if i: "i \<in> due ?g" for i
  proof -
    obtain e b where e: "e \<in> set ?H" "re_id e = i" "i \<in> wt_own g" "wt_base ?g (re_topic e) = Some b" "b < i"
      "\<forall>sc\<in>wt_scopes g. in_scope sc e" using i same by (auto simp: due_def)
    have ile: "i \<le> ?N" using due_past[of g] e(1-3) wl by (auto simp: wf_line_def)
    show ?thesis
    proof (cases "re_topic e \<in> set topics \<and> re_topic e \<noteq> [] \<and> (cursor = None \<or> wt_base g (re_topic e) = None)")
      case True
      then obtain c where c: "cursor = Some c" and b: "b = ?C"
        using e(4,5) ile unfolding base by (cases cursor) auto
      then show ?thesis using fresh[OF e(1,2,6)] True hon[OF c] e(5) by auto
    next
      case False
      then have "wt_base g (re_topic e) = Some b" using e(4) unfolding base by auto
      then show ?thesis using e by (auto simp: due_def)
    qed
  qed
  have none: "due ?g = {}" if "cursor = None" covers
  proof -
    have False if i: "i \<in> due ?g" for i
    proof -
      obtain e b where e: "e \<in> set ?H" "re_id e = i" "i \<in> wt_own g" "wt_base ?g (re_topic e) = Some b" "b < i"
        using i same by (auto simp: due_def)
      have "i \<le> ?N" using e(3) wl by (auto simp: wf_line_def)
      moreover have "re_topic e \<in> set topics \<and> re_topic e \<noteq> []"
        using e(4) tops(2)[OF \<open>covers\<close>] ws op unfolding base wf_sub_def by (auto split: if_splits)
      ultimately show False using e(4,5) \<open>cursor = None\<close> unfolding base by auto
    qed
    then show ?thesis by blast
  qed
  have safe: "\<forall>i\<in>due g. i \<le> ?C \<longrightarrow> i \<in> sent g" and ahead: "?C \<le> ?N \<or> (\<forall>t b. wt_base g t = Some b \<longrightarrow> ?C \<le> b)"
    using inv by (auto simp: gw_inv_def safe_cursor_def)
  have comp: "due g \<subseteq> sent g \<union> set (event_ids (line g))"
    using inv op GwOpened by (auto simp: gw_inv_def complete_gw_def batch_left_def)
  have start: "ack_start ct0 ?g covers ?rep"
  proof (cases cursor)
    case None
    then show ?thesis using none by (auto simp: ack_start_def)
  next
    case (Some c)
    then show ?thesis using hon[OF Some] same by (simp add: ack_start_def)
  qed
  have cov: "(\<exists>f\<in>set ?fs. is_reset f) \<or> due ?g \<inter> {..?N} \<subseteq> sent ?g \<union> set (frame_ids ?fs)" if covers
  proof (cases "rr_gap ?r")
    case True
    then show ?thesis using reset_in_batch by blast
  next
    case False
    have "i \<in> sent g \<union> set (frame_ids ?fs)" if i: "i \<in> due ?g" for i
    proof (cases cursor)
      case None
      then show ?thesis using none[OF None \<open>covers\<close>] i by blast
    next
      case (Some c)
      from split[OF i] show ?thesis
      proof
        assume d: "i \<in> due g"
        show ?thesis
        proof (cases "i \<le> ?C")
          case False
          obtain e b where e: "e \<in> set ?H" "re_id e = i" "wt_base g (re_topic e) = Some b" "\<forall>sc\<in>wt_scopes g. in_scope sc e"
            using d by (auto simp: due_def)
          then have "re_topic e \<in> set topics" "re_topic e \<noteq> []" using tops(2)[OF \<open>covers\<close>] ws op by (auto simp: wf_sub_def)
          then show ?thesis using fresh[OF e(1,2,4) _ _ Some] False hon[OF Some] \<open>\<not> rr_gap ?r\<close> by auto
        qed (use safe d in blast)
      qed (use False in blast)
    qed
    then show ?thesis unfolding st by blast
  qed
  have "batch_ok ct0 ?g ?N covers ?fs ?r"
    unfolding batch_ok_def
  proof (intro conjI)
    show "sorted_wrt (<) (frame_ids ?fs)" unfolding fids by (rule es(3))
    show "set (frame_ids ?fs) \<subseteq> {..?N}" unfolding fids using es_le by auto
    show "sorted_wrt frame_order ?fs" by (rule frame_order_batch)
    show "\<forall>f\<in>set ?fs. frame_fits ?N covers (ack_start ct0 ?g covers) f"
      by (rule frame_fits_batch) (use cursors start tops(3) in simp_all)
    show "covers \<longrightarrow> (\<exists>f\<in>set ?fs. is_reset f) \<or> due ?g \<inter> {..?N} \<subseteq> sent ?g \<union> set (frame_ids ?fs)" using cov by blast
    have "frame_rank (ack_frame ack topics k c) = 0" for k c by (simp add: ack_frame_def split: batch_ack.split)
    then show "\<not> covers \<longrightarrow> (\<exists>f\<in>set ?fs. frame_rank f = 0) \<or> \<not> ct_retires (console ct0 (gw_out ?g)) \<or>
        (\<forall>f\<in>set ?fs. frame_rank f \<noteq> 2)" by simp
    show "set (event_ids (rr_events ?r)) \<subseteq> sent ?g \<union> set (frame_ids ?fs)" unfolding frame_ids_batch by blast
  qed (simp add: same)
  then have "wf_batch ct0 ?g" by (auto simp: wf_batch_def ph)
  moreover have "wf_line ?g" using wl same ln by (simp add: wf_line_def known_def)
  moreover have "wf_sub ?g" using ws tops(1) same unfolding wf_sub_def base by auto
  moreover have "wf_delivered ?g" using inv same st by (simp add: gw_inv_def wf_delivered_def)
  moreover have "complete_gw ?g"
  proof -
    have "i \<in> sent g \<union> set (event_ids (line g)) \<union> batch_left ?g" if i: "i \<in> due ?g" for i
    proof -
      have "i \<in> batch_left ?g" if "i \<in> set (frame_ids ?fs) \<or> rr_gap ?r"
        using that reset_in_batch[of ?r "ack_frame ack topics ?rep covers" topics ?rep covers] by (auto simp: batch_left_def ph)
      then show ?thesis using split[OF i] comp by blast
    qed
    then show ?thesis unfolding complete_gw_def st ln by blast
  qed
  moreover have "safe_cursor ct0 ?g"
    unfolding safe_cursor_def same st base using split safe ahead by (fastforce split: option.splits if_splits)
  ultimately show ?thesis by (simp add: gw_inv_def)
qed (use inv in \<open>simp_all add: wt_read_def\<close>)

lemma rank_reset: "is_reset f \<longleftrightarrow> frame_rank f = 1"
  by (cases f) auto

lemma sent_emit: "set (frame_ids (fs @ [f])) = set (frame_ids fs) \<union> set (frame_ids [f])"
  by (simp add: Un_commute split: option.split)

text \<open>What the console does with the next frame of a batch.\<close>

lemma see_batch_frame:
  assumes fit: "frame_fits n covers start f" and ret: "\<not> covers \<longrightarrow> frame_rank f = 0 \<or> \<not> ct_retires ct \<or> frame_rank f \<noteq> 2"
  shows "ct_highest (see_frame f ct) = ct_highest ct \<or>
      (frame_rank f = 0 \<and> covers \<and> ct_highest ct = 0 \<and> start (ct_highest (see_frame f ct)) \<and> ct_highest (see_frame f ct) \<le> n) \<or>
      (is_reset f \<and> (ct_highest (see_frame f ct) \<le> n \<or> ct_highest (see_frame f ct) = 0)) \<or>
      (frame_rank f = 2 \<and> covers \<and> carried f = Some (ct_highest (see_frame f ct))) \<or>
      (frame_rank f = 3 \<and> covers \<and> ct_highest (see_frame f ct) \<le> n)"
proof (cases f)
  case (Replayed e)
  then show ?thesis using ret accept_frame_highest(1)[of "ev_event_id e" True ct] by auto
qed (use fit in \<open>auto simp: apply_ack_def apply_reset_def apply_replay_complete_def split: option.splits\<close>)

lemma see_batch_retires:
  "frame_fits n covers start f \<Longrightarrow> \<not> covers \<Longrightarrow> frame_rank f = 0 \<Longrightarrow> \<not> ct_retires (see_frame f ct)"
  by (cases f) (auto simp: apply_ack_def)

lemma see_batch_same_retires:
  "frame_rank f = 1 \<or> frame_rank f = 2 \<Longrightarrow> ct_retires (see_frame f ct) = ct_retires ct"
  by (cases f) (auto simp: apply_reset_def accept_frame_highest(2))

lemma frame_order_first:
  assumes "sorted_wrt frame_order (f # fs)" and "x \<in> set fs"
  shows "frame_rank f < frame_rank x \<or> frame_rank f = 2 \<and> frame_rank x = 2"
  using assms by (auto simp: frame_order_def)

lemma frame_rank_le: "frame_rank f \<le> 3"
  by (cases f) auto

lemma inv_write:
  assumes inv: "gw_inv ct0 g" and op: "gw_open g"
  shows "gw_inv ct0 (wt_write g)"
proof (cases "\<exists>f fs r topics after. gw_phase g = GwWriting (f # fs) r topics after")
  case False
  then show ?thesis using inv by (auto simp: wt_write_def split: gw_phase.splits list.splits)
next
  case True
  then obtain f fs r topics after where ph: "gw_phase g = GwWriting (f # fs) r topics after" by blast
  let ?g = "wt_write g" and ?C = "cursor_now ct0 g" and ?N = "int (length (wt_history g))"
  let ?ct = "console ct0 (gw_out g)"
  have same: "gw_rows ?g = gw_rows g" "wt_history ?g = wt_history g" "wt_own ?g = wt_own g" "wt_scopes ?g = wt_scopes g"
    "gw_open ?g = gw_open g" "gw_out ?g = gw_out g @ [f]" "gw_conn ?g = gw_conn g" "gw_delivered ?g = gw_delivered g"
    "gw_notices ?g = gw_notices g" "gw_bus ?g = gw_bus g" "gw_sub ?g = gw_sub g" "gw_hand ?g = gw_hand g"
    "gw_pending ?g = gw_pending g" "gw_phase ?g = GwWriting fs r topics after"
    "wt_base ?g = (if is_reset f then (\<lambda>t. map_option (\<lambda>_. ?N) (wt_base g t)) else wt_base g)"
    by (simp_all add: wt_write_def gw_write_def ph emit_def)
  have ln: "line ?g = line g" using same by (simp add: line_def queue_of_def)
  have st: "sent ?g = sent g \<union> set (frame_ids [f])" unfolding sent_def same sent_emit ..
  obtain n covers where "batch_ok ct0 g n covers (f # fs) r" using inv ph by (auto simp: gw_inv_def wf_batch_def)
  then have b: "n \<le> ?N" "sorted_wrt (<) (frame_ids (f # fs))" "set (frame_ids (f # fs)) \<subseteq> {..n}"
    "sorted_wrt frame_order (f # fs)" "\<forall>x\<in>set (f # fs). frame_fits n covers (ack_start ct0 g covers) x"
    "covers \<longrightarrow> (\<exists>x\<in>set (f # fs). is_reset x) \<or> due g \<inter> {..n} \<subseteq> sent g \<union> set (frame_ids (f # fs))"
    "\<not> covers \<longrightarrow> (\<exists>x\<in>set (f # fs). frame_rank x = 0) \<or> \<not> ct_retires ?ct \<or> (\<forall>x\<in>set (f # fs). frame_rank x \<noteq> 2)"
    "set (event_ids (rr_events r)) \<subseteq> sent g \<union> set (frame_ids (f # fs))"
    unfolding batch_ok_def by blast+
  have order: "frame_rank f < frame_rank x \<or> frame_rank f = 2 \<and> frame_rank x = 2" if "x \<in> set fs" for x
    using frame_order_first[OF b(4) that] .
  have noack: "\<not> (\<exists>x\<in>set fs. frame_rank x = 0)" using order by fastforce
  have wl: "wf_line g" and ws: "wf_sub g" using inv by (simp_all add: gw_inv_def)
  have ids: "set (frame_ids (f # fs)) = set (frame_ids [f]) \<union> set (frame_ids fs)" by (auto split: option.split)
  have d: "due ?g = (if is_reset f then {} else due g)"
  proof (cases "is_reset f")
    case True
    have "\<not> (\<exists>b. wt_base ?g t = Some b \<and> b < i)" if "i \<in> wt_own g" for t i
      using that wl True by (auto simp: same wf_line_def)
    then show ?thesis using True unfolding due_def same(2,3) by auto
  next
    case False
    then show ?thesis using due_cong[of ?g g] same by simp
  qed
  have ret: "\<not> covers \<longrightarrow> frame_rank f = 0 \<or> \<not> ct_retires ?ct \<or> frame_rank f \<noteq> 2" using b(7) noack by auto
  have fit: "frame_fits n covers (ack_start ct0 g covers) f" using b(5) by simp
  note see = see_batch_frame[OF fit ret]
  have cur: "cursor_now ct0 ?g = ct_highest (see_frame f ?ct)" by (simp add: same)
  have safe: "\<forall>i\<in>due g. i \<le> ?C \<longrightarrow> i \<in> sent g" and ahead: "?C \<le> ?N \<or> (\<forall>t b. wt_base g t = Some b \<longrightarrow> ?C \<le> b)"
    using inv by (auto simp: gw_inv_def safe_cursor_def)
  have carried_le: "k \<le> n" if "carried f = Some k" for k using b(3) that by simp
  have owed_batch: "due g \<inter> {..n} \<subseteq> sent g \<union> set (frame_ids (f # fs))" if covers "frame_rank f = 2 \<or> frame_rank f = 3"
    using b(6) that order by (fastforce simp: rank_reset)
  have rank3: "fs = []" if "frame_rank f = 3"
  proof (cases fs)
    case (Cons x xs)
    then show ?thesis using order[of x] that frame_rank_le[of x] by simp
  qed simp
  have "wf_line ?g" using wl same ln by (simp add: wf_line_def known_def)
  moreover have "wf_sub ?g" using ws same by (auto simp: wf_sub_def)
  moreover have "wf_delivered ?g" using inv same(8,9) unfolding gw_inv_def wf_delivered_def st by auto
  moreover have "complete_gw ?g"
  proof (cases "is_reset f")
    case False
    have c: "due g \<subseteq> sent g \<union> set (event_ids (line g)) \<union> batch_left g" using inv op by (simp add: gw_inv_def complete_gw_def)
    moreover have "batch_left g \<subseteq> set (frame_ids [f]) \<union> batch_left ?g"
      using False ids by (auto simp: batch_left_def ph same)
    ultimately show ?thesis using False unfolding complete_gw_def st ln d by auto
  qed (simp add: complete_gw_def d)
  moreover have "safe_cursor ct0 ?g"
  proof -
    have "i \<in> sent ?g" if i: "i \<in> due ?g" "i \<le> cursor_now ct0 ?g" for i
    proof -
      have nr: "\<not> is_reset f" and ig: "i \<in> due g" using i(1) by (auto simp: d split: if_splits)
      from see nr consider "cursor_now ct0 ?g = ?C"
        | "covers" "?C = 0" "ack_start ct0 g covers (cursor_now ct0 ?g)"
        | "covers" "frame_rank f = 2" "carried f = Some (cursor_now ct0 ?g)"
        | "covers" "frame_rank f = 3" "cursor_now ct0 ?g \<le> n" unfolding cur by blast
      then show ?thesis
      proof cases
        case 1
        then show ?thesis using safe ig i(2) st by auto
      next
        case 2
        then show ?thesis using ig i(2) by (auto simp: ack_start_def)
      next
        case 3
        then have "i \<le> n" using carried_le i(2) by force
        then have "i \<in> sent g \<union> set (frame_ids (f # fs))" using owed_batch 3 ig by blast
        moreover have "i \<notin> set (frame_ids fs)" using b(2) 3(3) i(2) by fastforce
        ultimately show ?thesis unfolding st ids by blast
      next
        case 4
        then have "i \<in> sent g \<union> set (frame_ids (f # fs))" using owed_batch ig i(2) by fastforce
        then show ?thesis using rank3[OF 4(2)] unfolding st by simp
      qed
    qed
    moreover have "cursor_now ct0 ?g \<le> ?N \<or> (\<forall>t b. wt_base ?g t = Some b \<longrightarrow> cursor_now ct0 ?g \<le> b)"
    proof -
      have "cursor_now ct0 ?g \<le> ?N \<or> (cursor_now ct0 ?g = ?C \<and> \<not> is_reset f) \<or> (is_reset f \<and> cursor_now ct0 ?g = ?C)"
        using see carried_le b(1) unfolding cur by force
      moreover have "cursor_now ct0 ?g \<le> ?N" if "is_reset f"
        using that fit b(1) unfolding cur by (cases f) (auto simp: apply_reset_def)
      ultimately show ?thesis using ahead by (auto simp: same)
    qed
    ultimately show ?thesis by (simp add: safe_cursor_def same(2))
  qed
  moreover have "batch_ok ct0 ?g n covers fs r"
    unfolding batch_ok_def
  proof (intro conjI)
    show "sorted_wrt (<) (frame_ids fs)" using b(2) by (auto split: option.splits)
    show "set (frame_ids fs) \<subseteq> {..n}" using b(3) ids by auto
    show "sorted_wrt frame_order fs" using b(4) by simp
    have "frame_fits n covers start x" if "x \<in> set fs" for x start
    proof -
      have "frame_rank x \<noteq> 0" "frame_fits n covers (ack_start ct0 g covers) x" using that noack b(5) by auto
      then show ?thesis by (cases x) auto
    qed
    then show "\<forall>x\<in>set fs. frame_fits n covers (ack_start ct0 ?g covers) x" by blast
    show "covers \<longrightarrow> (\<exists>x\<in>set fs. is_reset x) \<or> due ?g \<inter> {..n} \<subseteq> sent ?g \<union> set (frame_ids fs)"
    proof (cases "is_reset f")
      case False
      then show ?thesis using b(6) unfolding st d ids by auto
    qed (simp add: d)
    show "\<not> covers \<longrightarrow> (\<exists>x\<in>set fs. frame_rank x = 0) \<or> \<not> ct_retires (console ct0 (gw_out ?g)) \<or> (\<forall>x\<in>set fs. frame_rank x \<noteq> 2)"
    proof (intro impI)
      assume nc: "\<not> covers"
      consider "frame_rank f = 0" | "frame_rank f = 1 \<or> frame_rank f = 2" | "frame_rank f = 3"
        using frame_rank_le[of f] by linarith
      then show "(\<exists>x\<in>set fs. frame_rank x = 0) \<or> \<not> ct_retires (console ct0 (gw_out ?g)) \<or> (\<forall>x\<in>set fs. frame_rank x \<noteq> 2)"
      proof cases
        case 1
        then show ?thesis using see_batch_retires[OF fit nc] by (simp add: same)
      next
        case 2
        then show ?thesis using see_batch_same_retires[OF 2] b(7) nc noack by (auto simp: same)
      next
        case 3
        then show ?thesis using rank3 by simp
      qed
    qed
    show "set (event_ids (rr_events r)) \<subseteq> sent ?g \<union> set (frame_ids fs)" using b(8) unfolding st ids by auto
  qed (use b(1) same(2) in simp)
  then have "wf_batch ct0 ?g" by (auto simp: wf_batch_def same(14))
  ultimately show ?thesis by (simp add: gw_inv_def)
qed

section \<open>Client messages and revalidation\<close>

lemma conn_topics_set: "set (conn_topics c) = held c"
  by (simp add: conn_topics_def held_def)

lemma put_grant_topics: "g_topic ` set (put_grant g gs) = insert (g_topic g) (g_topic ` set gs)"
  by (auto simp: put_grant_def image_iff)

lemma conn_add_held:
  "conn_add gs c = (got, c') \<Longrightarrow> g_topic ` set got \<subseteq> held c' \<and> held c \<subseteq> held c' \<and> cn_scope c' = cn_scope c"
proof (induction gs arbitrary: c got)
  case (Cons g gs)
  have h: "held (c\<lparr>cn_grants := put_grant g (cn_grants c)\<rparr>) = insert (g_topic g) (held c)"
    by (simp add: held_def put_grant_topics)
  show ?case
  proof (cases "g_topic g \<notin> held c \<and> length (cn_grants c) \<ge> MAX_TOPICS_PER_CONNECTION")
    case True
    then show ?thesis using Cons by simp
  next
    case False
    then obtain more where m: "conn_add gs (c\<lparr>cn_grants := put_grant g (cn_grants c)\<rparr>) = (more, c')" "got = g # more"
      using Cons.prems by (auto split: prod.splits)
    from Cons.IH[OF m(1)] show ?thesis unfolding h by (auto simp: m(2))
  qed
qed simp

lemma drop_grant_held: "held (drop_grant t c) = held c - {t}" "cn_scope (drop_grant t c) = cn_scope c"
  by (auto simp: drop_grant_def held_def)

lemma conn_remove_held: "conn_remove ts c = (gone, c') \<Longrightarrow> held c' \<subseteq> held c \<and> cn_scope c' = cn_scope c"
proof (induction ts arbitrary: c gone)
  case (Cons t ts)
  show ?case
  proof (cases "t \<in> held c")
    case True
    then obtain more where "conn_remove ts (drop_grant t c) = (more, c')" using Cons.prems by (auto split: prod.splits)
    from Cons.IH[OF this] show ?thesis by (auto simp: drop_grant_held)
  qed (use Cons in simp)
qed simp

lemma rederive_held: "rederive db p gs c = Inr (lost, c') \<Longrightarrow> held c' \<subseteq> held c"
proof (induction gs arbitrary: c lost)
  case (Cons g gs)
  then obtain regrant where r: "resolve_topic db (Some p) (PStr (g_requested g)) = Inr regrant"
    by (auto simp: bind_result_eq_Inr)
  show ?case
  proof (cases "case regrant of None \<Rightarrow> True | Some r \<Rightarrow> g_topic r \<noteq> g_topic g")
    case True
    then obtain more where "rederive db p gs (drop_grant (g_topic g) c) = Inr (more, c')"
      using Cons.prems r by (auto simp: bind_result_eq_Inr)
    from Cons.IH[OF this] show ?thesis by (auto simp: drop_grant_held)
  next
    case False
    then have "rederive db p gs c = Inr (lost, c')" using Cons.prems r by simp
    then show ?thesis by (rule Cons.IH)
  qed
qed simp

lemma reauthorize_held: "reauthorize db p c = Inr (lost, c') \<Longrightarrow> held c' \<subseteq> held c"
  using rederive_held[of db p "cn_grants c" "refresh_scope db (c\<lparr>cn_principal := p\<rparr>)" lost c']
  by (simp add: reauthorize_def refresh_scope_def held_def)

text \<open>What a step of the connection may do between batches: its grants and scope change, and the
  subscription with them, the cursor of the console does not.\<close>

lemma inv_between:
  assumes inv: "gw_inv ct0 g" and op: "gw_open g" and ph: "gw_phase g = GwIdle"
    and same: "gw_rows g' = gw_rows g" "wt_history g' = wt_history g" "wt_own g' = wt_own g" "wt_scopes g' = wt_scopes g"
      "wt_base g' = wt_base g" "gw_open g'" "gw_sub g' = gw_sub g" "gw_hand g' = gw_hand g" "gw_pending g' = gw_pending g"
      "gw_notices g' = gw_notices g" "cursor_now ct0 g' = cursor_now ct0 g" "sent g' = sent g"
    and del: "\<And>t. gw_delivered g' t = None \<or> gw_delivered g' t = gw_delivered g t"
    and bus: "\<And>s. bus_sub (gw_sub g) (gw_bus g) = Some s \<Longrightarrow> \<exists>s'. bus_sub (gw_sub g) (gw_bus g') = Some s' \<and>
      sub_loop s' = sub_loop s \<and> held (gw_conn g') \<subseteq> sub_topics s' \<and>
      (sub_scope s' = sub_scope s \<or> sub_scope s' = cn_scope (gw_conn g')) \<and>
      (\<exists>es. sub_queue s' = sub_queue s @ es \<and> (\<forall>e\<in>set es. ev_event_id e = None))"
    and phase: "gw_phase g' = GwIdle \<or> (\<exists>lost. gw_phase g' = GwRescoping lost) \<or>
      (\<exists>ack topics cursor covers. gw_phase g' = GwOpened ack topics cursor covers \<and>
        (\<forall>c. cursor = Some c \<longrightarrow> 0 < c \<and> c \<le> cursor_now ct0 g) \<and> set topics \<subseteq> held (gw_conn g') \<and>
        (covers \<longrightarrow> held (gw_conn g') \<subseteq> set topics) \<and> (ack = ForResync \<longrightarrow> covers))"
  shows "gw_inv ct0 (narrow g')"
proof -
  let ?g = "narrow g'"
  have n: "gw_rows ?g = gw_rows g'" "wt_history ?g = wt_history g'" "wt_own ?g = wt_own g'" "gw_open ?g = gw_open g'"
    "gw_out ?g = gw_out g'" "gw_conn ?g = gw_conn g'" "gw_delivered ?g = gw_delivered g'" "gw_notices ?g = gw_notices g'"
    "gw_bus ?g = gw_bus g'" "gw_sub ?g = gw_sub g'" "gw_hand ?g = gw_hand g'" "gw_pending ?g = gw_pending g'"
    "gw_phase ?g = gw_phase g'" "wt_scopes ?g = insert (cn_scope (gw_conn g')) (wt_scopes g')"
    "wt_base ?g = (\<lambda>t. if t \<in> held (gw_conn g') then wt_base g' t else None)"
    by (simp_all add: narrow_def)
  have st: "sent ?g = sent g" using same by (simp add: sent_def n)
  obtain s where s: "bus_sub (gw_sub g) (gw_bus g) = Some s" "sub_loop s = LoopRunning" "sub_scope s \<in> wt_scopes g"
    using inv op by (auto simp: gw_inv_def wf_sub_def)
  from bus[OF s(1)] obtain s' es where s': "bus_sub (gw_sub g) (gw_bus g') = Some s'" "sub_loop s' = sub_loop s"
    "held (gw_conn g') \<subseteq> sub_topics s'" "sub_scope s' = sub_scope s \<or> sub_scope s' = cn_scope (gw_conn g')"
    "sub_queue s' = sub_queue s @ es" "\<forall>e\<in>set es. ev_event_id e = None" by blast
  have l: "line ?g = (case gw_hand g of None \<Rightarrow> [] | Some e \<Rightarrow> [e]) @ (sub_queue s @ es)
      @ (case gw_pending g of None \<Rightarrow> [] | Some e \<Rightarrow> [e])"
    by (simp add: line_def queue_of_def n same s')
  have lg: "line g = (case gw_hand g of None \<Rightarrow> [] | Some e \<Rightarrow> [e]) @ sub_queue s
      @ (case gw_pending g of None \<Rightarrow> [] | Some e \<Rightarrow> [e])"
    by (simp add: line_def queue_of_def s)
  show ?thesis
  proof (rule inv_settle[OF inv])
    show "batch_left g = {}" "batch_left ?g = {}" using ph phase by (auto simp: batch_left_def n)
    show "event_ids (line ?g) = event_ids (line g)" unfolding l lg by (simp add: event_ids_silent[OF s'(6)])
    show "known g e" if "e \<in> set (line ?g)" for e
    proof (cases "e \<in> set es")
      case True
      then show ?thesis using s'(6) by (simp add: known_def)
    next
      case False
      then have "e \<in> set (line g)" using that unfolding l lg by auto
      then show ?thesis using inv by (simp add: gw_inv_def wf_line_def)
    qed
    show "wf_delivered ?g"
      using inv del same(10) unfolding gw_inv_def wf_delivered_def st n by (metis option.discI)
    show "wf_sub ?g"
      using inv op s s' same unfolding gw_inv_def wf_sub_def n by (auto split: if_splits)
    show "wf_batch ct0 ?g" using phase same(11) by (auto simp: wf_batch_def n)
  qed (use same st op in \<open>auto simp: n\<close>)
qed

text \<open>After the connection is closed its grants do not matter.\<close>

lemma inv_closed:
  assumes inv: "gw_inv ct0 g"
  shows "gw_inv ct0 (narrow (close_gw reason (set_conn c g)))"
proof -
  let ?h = "close_gw reason g" and ?g = "narrow (close_gw reason (set_conn c g))"
  have h: "gw_inv ct0 ?h" using inv_close[OF inv] .
  have f: "gw_rows ?g = gw_rows ?h" "wt_history ?g = wt_history ?h" "wt_own ?g = wt_own ?h" "gw_open ?g = gw_open ?h"
    "gw_out ?g = gw_out ?h" "gw_delivered ?g = gw_delivered ?h" "gw_notices ?g = gw_notices ?h"
    "gw_bus ?g = gw_bus ?h" "gw_sub ?g = gw_sub ?h" "gw_hand ?g = gw_hand ?h" "gw_pending ?g = gw_pending ?h"
    "gw_phase ?g = gw_phase ?h" "gw_phase ?h = GwIdle" "\<not> gw_open ?h" "wt_scopes ?h \<subseteq> wt_scopes ?g"
    "\<And>t. wt_base ?g t = None \<or> wt_base ?g t = wt_base ?h t"
    by (auto simp: narrow_def close_gw_def emit_def Let_def set_conn_def split: option.split)
  have l: "line ?g = line ?h" using f by (simp add: line_def queue_of_def)
  show ?thesis
  proof (rule inv_settle[OF h])
    show "known ?h e" if "e \<in> set (line ?g)" for e using that h unfolding l by (simp add: gw_inv_def wf_line_def)
    show "wf_delivered ?g" using h f by (simp add: gw_inv_def wf_delivered_def sent_def)
  qed (use f l in \<open>auto simp: batch_left_def wf_sub_def wf_batch_def sent_def\<close>)
qed

lemma inv_closed_same: "gw_inv ct0 g \<Longrightarrow> gw_inv ct0 (narrow (close_gw reason g))"
  using inv_closed[of ct0 g reason "gw_conn g"] by (simp add: set_conn_def)

lemma register_simps [simp]:
  "gw_rows (register g) = gw_rows g" "gw_open (register g) = gw_open g" "gw_sub (register g) = gw_sub g"
  "gw_hand (register g) = gw_hand g" "gw_pending (register g) = gw_pending g" "gw_conn (register g) = gw_conn g"
  "gw_delivered (register g) = gw_delivered g" "gw_phase (register g) = gw_phase g" "gw_notices (register g) = gw_notices g"
  "gw_out (register g) = gw_out g" "gateway.more (register g) = gateway.more g"
  by (simp_all add: register_def)

lemma register_watched [simp]:
  "wt_history (register g) = wt_history g" "wt_own (register g) = wt_own g" "wt_scopes (register g) = wt_scopes g"
  "wt_base (register g) = wt_base g"
  by (simp_all add: register_def)

lemma inv_subscribe:
  assumes inv: "gw_inv ct0 g" and op: "gw_open g" and ph: "gw_phase g = GwIdle"
    and hon: "\<forall>c. as_cursor v = Some c \<longrightarrow> 0 < c \<and> c \<le> cursor_now ct0 g"
    and r: "gw_subscribe db topics v (set_conn c0 g) = Inr g'"
  shows "gw_inv ct0 (narrow g')"
proof -
  obtain grants denied where a: "authorize_topics db (Some (cn_principal (refresh_scope db c0))) topics = Inr (grants, denied)"
    using r by (auto simp: gw_subscribe_def Let_def bind_result_eq_Inr set_conn_def)
  obtain got c2 where c2: "conn_add grants (refresh_scope db c0) = (got, c2)" by fastforce
  have g': "g' = register ((set_conn c2 (set_conn c0 g))\<lparr>gw_phase := GwOpened
        (ForSubscribe (denied = [] \<and> length got = length grants) denied
           (map (\<lambda>g. (g_requested g, g_topic g)) (filter (\<lambda>g. g_requested g \<noteq> g_topic g) got)))
        (map g_topic got) (as_cursor v) (set (conn_topics c2) \<subseteq> set (map g_topic got))\<rparr>)"
    using r by (simp add: gw_subscribe_def Let_def set_conn_def a c2)
  let ?g1 = "(set_conn c2 (set_conn c0 g))\<lparr>gw_phase := GwOpened
        (ForSubscribe (denied = [] \<and> length got = length grants) denied
           (map (\<lambda>g. (g_requested g, g_topic g)) (filter (\<lambda>g. g_requested g \<noteq> g_topic g) got)))
        (map g_topic got) (as_cursor v) (set (conn_topics c2) \<subseteq> set (map g_topic got))\<rparr>"
  have got: "g_topic ` set got \<subseteq> held c2" using conn_add_held[OF c2] by blast
  have b: "bus_sub (gw_sub g) (gw_bus g') = map_option (\<lambda>s. s\<lparr>sub_topics := held c2, sub_scope := cn_scope c2\<rparr>)
      (bus_sub (gw_sub g) (gw_bus g))"
    using bus_sub_register[of ?g1] unfolding g' by (simp add: set_conn_def)
  show ?thesis
  proof (rule inv_between[OF inv op ph])
    show "\<exists>s'. bus_sub (gw_sub g) (gw_bus g') = Some s' \<and> sub_loop s' = sub_loop s \<and> held (gw_conn g') \<subseteq> sub_topics s' \<and>
      (sub_scope s' = sub_scope s \<or> sub_scope s' = cn_scope (gw_conn g')) \<and>
      (\<exists>es. sub_queue s' = sub_queue s @ es \<and> (\<forall>e\<in>set es. ev_event_id e = None))"
      if "bus_sub (gw_sub g) (gw_bus g) = Some s" for s
      using that unfolding b by (simp add: g' set_conn_def)
    show "gw_phase g' = GwIdle \<or> (\<exists>lost. gw_phase g' = GwRescoping lost) \<or>
      (\<exists>ack topics cursor covers. gw_phase g' = GwOpened ack topics cursor covers \<and>
        (\<forall>c. cursor = Some c \<longrightarrow> 0 < c \<and> c \<le> cursor_now ct0 g) \<and> set topics \<subseteq> held (gw_conn g') \<and>
        (covers \<longrightarrow> held (gw_conn g') \<subseteq> set topics) \<and> (ack = ForResync \<longrightarrow> covers))"
      using hon got by (simp add: g' set_conn_def conn_topics_set)
  qed (use op in \<open>simp_all add: g' set_conn_def sent_def\<close>)
qed

lemma inv_resync:
  assumes inv: "gw_inv ct0 g" and op: "gw_open g" and ph: "gw_phase g = GwIdle"
    and hon: "\<forall>c. as_cursor v = Some c \<longrightarrow> 0 < c \<and> c \<le> cursor_now ct0 g"
    and c: "held c = held (gw_conn g)" "cn_scope c = cn_scope (gw_conn g)"
  shows "gw_inv ct0 (narrow (gw_resync v (set_conn c g)))"
proof (rule inv_between[OF inv op ph])
  let ?g = "gw_resync v (set_conn c g)"
  show "\<exists>s'. bus_sub (gw_sub g) (gw_bus ?g) = Some s' \<and> sub_loop s' = sub_loop s \<and> held (gw_conn ?g) \<subseteq> sub_topics s' \<and>
      (sub_scope s' = sub_scope s \<or> sub_scope s' = cn_scope (gw_conn ?g)) \<and>
      (\<exists>es. sub_queue s' = sub_queue s @ es \<and> (\<forall>e\<in>set es. ev_event_id e = None))"
    if "bus_sub (gw_sub g) (gw_bus g) = Some s" for s
    using that inv op c by (auto simp: gw_resync_def set_conn_def gw_inv_def wf_sub_def)
  show "gw_phase ?g = GwIdle \<or> (\<exists>lost. gw_phase ?g = GwRescoping lost) \<or>
      (\<exists>ack topics cursor covers. gw_phase ?g = GwOpened ack topics cursor covers \<and>
        (\<forall>c. cursor = Some c \<longrightarrow> 0 < c \<and> c \<le> cursor_now ct0 g) \<and> set topics \<subseteq> held (gw_conn ?g) \<and>
        (covers \<longrightarrow> held (gw_conn ?g) \<subseteq> set topics) \<and> (ack = ForResync \<longrightarrow> covers))"
    using hon by (intro disjI2 exI[of _ ForResync] exI[of _ "conn_topics c"] exI[of _ "as_cursor v"] exI[of _ True])
      (simp add: gw_resync_def set_conn_def conn_topics_set)
qed (use op in \<open>simp_all add: gw_resync_def set_conn_def sent_def\<close>)

text \<open>A message answered at once: grants may go, the bus may carry a notification.\<close>

lemma inv_answered:
  assumes inv: "gw_inv ct0 g" and op: "gw_open g" and ph: "gw_phase g = GwIdle"
    and g': "g' = emit f ((set_conn c g)\<lparr>gw_delivered := d, gw_bus := b\<rparr>)"
    and f: "carried f = None" "ct_highest (see_frame f (console ct0 (gw_out g))) = cursor_now ct0 g"
    and d: "\<And>t. d t = None \<or> d t = gw_delivered g t"
    and b: "\<And>s. bus_sub (gw_sub g) (gw_bus g) = Some s \<Longrightarrow> held (gw_conn g) \<subseteq> sub_topics s \<Longrightarrow>
      \<exists>s'. bus_sub (gw_sub g) b = Some s' \<and> sub_loop s' = sub_loop s \<and> held c \<subseteq> sub_topics s' \<and> sub_scope s' = sub_scope s \<and>
      (\<exists>es. sub_queue s' = sub_queue s @ es \<and> (\<forall>e\<in>set es. ev_event_id e = None))"
  shows "gw_inv ct0 (narrow g')"
proof (rule inv_between[OF inv op ph])
  show "\<exists>s'. bus_sub (gw_sub g) (gw_bus g') = Some s' \<and> sub_loop s' = sub_loop s \<and> held (gw_conn g') \<subseteq> sub_topics s' \<and>
      (sub_scope s' = sub_scope s \<or> sub_scope s' = cn_scope (gw_conn g')) \<and>
      (\<exists>es. sub_queue s' = sub_queue s @ es \<and> (\<forall>e\<in>set es. ev_event_id e = None))"
    if s: "bus_sub (gw_sub g) (gw_bus g) = Some s" for s
  proof -
    have "held (gw_conn g) \<subseteq> sub_topics s" using inv op s by (auto simp: gw_inv_def wf_sub_def)
    from b[OF s this] show ?thesis by (auto simp: g' emit_def set_conn_def)
  qed
qed (use op ph f d in \<open>simp_all add: g' emit_def set_conn_def sent_def\<close>)

lemma inv_unsubscribe:
  assumes inv: "gw_inv ct0 g" and op: "gw_open g" and ph: "gw_phase g = GwIdle"
    and c: "held c \<subseteq> held (gw_conn g)" and r: "gw_unsubscribe db topics (set_conn c g) = Inr g'"
  shows "gw_inv ct0 (narrow g')"
proof -
  let ?items = "case topics of PList xs \<Rightarrow> xs | _ \<Rightarrow> []"
  obtain derived where d: "derive_topics db (cn_principal c)
      (take MAX_TOPICS_PER_REQUEST (concat (map (\<lambda>v. case v of PStr s \<Rightarrow> [s] | _ \<Rightarrow> []) ?items))) = Inr derived"
    using r by (auto simp: gw_unsubscribe_def Let_def bind_result_eq_Inr set_conn_def)
  obtain gone c' where c': "conn_remove derived c = (gone, c')" by fastforce
  have g': "g' = emit PlainAck (set_conn c' (set_conn c g)\<lparr>gw_delivered := forget gone (gw_delivered g),
        gw_bus := replace_topics (gw_sub g) (set (conn_topics c')) (gw_bus g)\<rparr>)"
    using r by (simp add: gw_unsubscribe_def Let_def set_conn_def d c')
  have g'': "g' = emit PlainAck ((set_conn c' g)\<lparr>gw_delivered := forget gone (gw_delivered g),
        gw_bus := replace_topics (gw_sub g) (set (conn_topics c')) (gw_bus g)\<rparr>)"
    by (simp add: g' set_conn_def)
  show ?thesis
    by (rule inv_answered[OF inv op ph g''])
      (auto simp: apply_ack_def forget_def replace_topics_def bus_sub_mutate mutate_sub_def conn_topics_set)
qed

lemma inv_spoken:
  assumes inv: "gw_inv ct0 g" and op: "gw_open g" and ph: "gw_phase g = GwIdle" and c: "held c = held (gw_conn g)"
    and f: "f = Pong \<or> (\<exists>why. f = ErrorFrame why)"
  shows "gw_inv ct0 (narrow (emit f (set_conn c g)))"
  by (rule inv_answered[OF inv op ph, where f = f and c = c and d = "gw_delivered g" and b = "gw_bus g"])
    (use f c in \<open>auto simp: set_conn_def emit_def\<close>)

lemma inv_chat:
  assumes inv: "gw_inv ct0 g" and op: "gw_open g" and ph: "gw_phase g = GwIdle" and c: "held c = held (gw_conn g)"
    and r: "gw_chat db now topic payload (set_conn c g) = Inr g'"
  shows "gw_inv ct0 (narrow g')"
proof -
  obtain grant where grant: "resolve_topic db (Some (cn_principal c)) topic = Inr grant"
    using r by (auto simp: gw_chat_def bind_result_eq_Inr set_conn_def)
  consider why where "g' = emit (ErrorFrame why) (set_conn c g)"
    | tp body org ws where "g' = emit PlainAck ((set_conn c g)\<lparr>gw_bus := snd (publish tp (lit ''chat.message'') body org ws now (gw_bus g))\<rparr>)"
    using r grant by (auto simp: gw_chat_def set_conn_def split: option.splits if_splits)
  then show ?thesis
  proof cases
    case 1
    then show ?thesis using inv_spoken[OF inv op ph c] by simp
  next
    case 2
    show ?thesis
    proof (rule inv_answered[OF inv op ph, where f = PlainAck and c = c and d = "gw_delivered g"])
      show "g' = emit PlainAck ((set_conn c g)\<lparr>gw_delivered := gw_delivered g,
          gw_bus := snd (publish tp (lit ''chat.message'') body org ws now (gw_bus g))\<rparr>)"
        by (simp add: 2 set_conn_def)
      fix s assume s: "bus_sub (gw_sub g) (gw_bus g) = Some s" "held (gw_conn g) \<subseteq> sub_topics s"
      from publish_sub[OF s(1), of tp "lit ''chat.message''" body org ws now] s(2) c
      show "\<exists>s'. bus_sub (gw_sub g) (snd (publish tp (lit ''chat.message'') body org ws now (gw_bus g))) = Some s' \<and>
          sub_loop s' = sub_loop s \<and> held c \<subseteq> sub_topics s' \<and> sub_scope s' = sub_scope s \<and>
          (\<exists>es. sub_queue s' = sub_queue s @ es \<and> (\<forall>e\<in>set es. ev_event_id e = None))"
        unfolding same_sub_def by blast
    qed (simp_all add: apply_ack_def)
  qed
qed

lemma inv_message:
  assumes inv: "gw_inv ct0 g" and op: "gw_open g" and ph: "gw_phase g = GwIdle" and hon: "honest ct0 g m"
  shows "gw_inv ct0 (narrow (gw_message db now who m g))"
proof (cases "\<exists>p. who = Inr (Some p) \<and> \<not> is_runtime p")
  case False
  then show ?thesis
    using inv_closed_same[OF inv] by (auto simp: gw_message_def split: sum.splits option.splits)
next
  case True
  then obtain p where p: "who = Inr (Some p)" "\<not> is_runtime p" by blast
  let ?c = "(gw_conn g)\<lparr>cn_principal := p\<rparr>"
  have c: "held ?c = held (gw_conn g)" "cn_scope ?c = cn_scope (gw_conn g)" by (simp_all add: held_def)
  let ?r = "case m of MsgSubscribe topics cursor \<Rightarrow> gw_subscribe db topics cursor (set_conn ?c g)
      | MsgUnsubscribe topics \<Rightarrow> gw_unsubscribe db topics (set_conn ?c g)
      | MsgResync cursor \<Rightarrow> Inr (gw_resync cursor (set_conn ?c g))
      | MsgChat topic payload \<Rightarrow> gw_chat db now topic payload (set_conn ?c g)
      | MsgPing \<Rightarrow> Inr (emit Pong (set_conn ?c g))
      | MsgOther \<Rightarrow> Inr (emit (ErrorFrame ''unknown_ws_message'') (set_conn ?c g))"
  have g': "gw_message db now who m g = (case ?r of Inl _ \<Rightarrow> close_gw (Some REVOKED_REVALIDATION_FAILED) (set_conn ?c g) | Inr g2 \<Rightarrow> g2)"
    by (simp add: gw_message_def p Let_def)
  show ?thesis
  proof (cases ?r)
    case (Inl e)
    show ?thesis unfolding g' Inl using inv_closed[OF inv] by simp
  next
    case r: (Inr g2)
    have "gw_inv ct0 (narrow g2)"
    proof (cases m)
      case (MsgSubscribe topics v)
      have h: "\<forall>c. as_cursor v = Some c \<longrightarrow> 0 < c \<and> c \<le> cursor_now ct0 g" using hon by (auto simp: honest_def MsgSubscribe)
      show ?thesis by (rule inv_subscribe[OF inv op ph h, of db topics ?c]) (use r MsgSubscribe in simp)
    next
      case (MsgUnsubscribe topics)
      show ?thesis by (rule inv_unsubscribe[OF inv op ph, of ?c db topics]) (use r c MsgUnsubscribe in simp_all)
    next
      case (MsgResync v)
      have h: "\<forall>c. as_cursor v = Some c \<longrightarrow> 0 < c \<and> c \<le> cursor_now ct0 g" using hon by (auto simp: honest_def MsgResync)
      show ?thesis using inv_resync[OF inv op ph h c] r MsgResync by simp
    next
      case (MsgChat topic payload)
      show ?thesis by (rule inv_chat[OF inv op ph c(1), of db now topic payload]) (use r MsgChat in simp)
    next
      case MsgPing
      then show ?thesis using inv_spoken[OF inv op ph c(1)] r by auto
    next
      case MsgOther
      then show ?thesis using inv_spoken[OF inv op ph c(1)] r by auto
    qed
    then show ?thesis unfolding g' r by simp
  qed
qed

lemma inv_revalidate:
  assumes inv: "gw_inv ct0 g" and op: "gw_open g" and ph: "gw_phase g = GwIdle"
  shows "gw_inv ct0 (narrow (gw_revalidate db who g))"
proof (cases "\<exists>p lost c. who = Inr (Some p) \<and> \<not> is_runtime p \<and> reauthorize db p (gw_conn g) = Inr (lost, c)")
  case False
  then show ?thesis
    using inv_closed_same[OF inv] by (auto simp: gw_revalidate_def split: sum.splits option.splits)
next
  case True
  then obtain p lost c where p: "who = Inr (Some p)" "\<not> is_runtime p" "reauthorize db p (gw_conn g) = Inr (lost, c)" by blast
  have h: "held c \<subseteq> held (gw_conn g)" using reauthorize_held[OF p(3)] .
  have g': "gw_revalidate db who g = (set_conn c g)\<lparr>gw_phase := GwRescoping lost\<rparr>" by (simp add: gw_revalidate_def p)
  show ?thesis
  proof (rule inv_between[OF inv op ph])
    fix s assume s: "bus_sub (gw_sub g) (gw_bus g) = Some s"
    have "held (gw_conn g) \<subseteq> sub_topics s" using inv op s by (auto simp: gw_inv_def wf_sub_def)
    then show "\<exists>s'. bus_sub (gw_sub g) (gw_bus (gw_revalidate db who g)) = Some s' \<and> sub_loop s' = sub_loop s \<and>
      held (gw_conn (gw_revalidate db who g)) \<subseteq> sub_topics s' \<and>
      (sub_scope s' = sub_scope s \<or> sub_scope s' = cn_scope (gw_conn (gw_revalidate db who g))) \<and>
      (\<exists>es. sub_queue s' = sub_queue s @ es \<and> (\<forall>e\<in>set es. ev_event_id e = None))"
      using s h by (auto simp: g' set_conn_def)
  qed (use op in \<open>simp_all add: g' set_conn_def sent_def\<close>)
qed

text \<open>Every step keeps the invariant.\<close>

theorem gw_step_inv:
  assumes "gw_inv ct0 g" and "gw_step cfg ct0 g g'"
  shows "gw_inv ct0 g'"
  using assms(2)
proof cases
  case (gw_commits sch g1 r later)
  then show ?thesis using inv_commit[OF assms(1) gw_commits(2,3)] by simp
next
  case gw_closes
  then show ?thesis using inv_close[OF assms(1)] by simp
qed (use assms(1) in \<open>simp_all add: inv_foreign inv_announce inv_others inv_take inv_live inv_message inv_read inv_write
     inv_finish inv_revalidate inv_rescope inv_notice\<close>)

end
