(* ===== verification/GatewayProperties.thy ===== *)
theory GatewayProperties imports GatewaySafety begin

text \<open>
  What holds of a realtime connection in every state it can reach: the cursor of its console never
  passes an event it is owed and was not sent, a connection at rest has sent everything it owes, and
  each event it writes is on a topic it holds and admitted by a scope it had.
\<close>

section \<open>Reachable states\<close>

text \<open>A watched connection starts owing nothing; everything committed so far counts as its own.\<close>

definition watch :: "gateway \<Rightarrow> event_table \<Rightarrow> watched" where
  "watch g H = gateway.extend g
     (watched.fields H {..int (length H)} {cn_scope (gw_conn g)} (\<lambda>_. None))"

inductive gw_reach :: "log_env \<Rightarrow> cursor_tracker \<Rightarrow> watched \<Rightarrow> bool" for cfg ct0 where
  gw_starts: "\<lbrakk>connect db who rows pending bus = Some g; logged H rows; bus_reachable bus;
      \<forall>env. pending = Some env \<longrightarrow> (\<exists>e\<in>set H. env = envelope_for e)\<rbrakk> \<Longrightarrow> gw_reach cfg ct0 (watch g H)"
| gw_moves: "\<lbrakk>gw_reach cfg ct0 g; gw_step cfg ct0 g g'\<rbrakk> \<Longrightarrow> gw_reach cfg ct0 g'"

lemma watch_simps [simp]:
  "gw_rows (watch g H) = gw_rows g" "gw_pending (watch g H) = gw_pending g" "gw_bus (watch g H) = gw_bus g"
  "gw_sub (watch g H) = gw_sub g" "gw_hand (watch g H) = gw_hand g" "gw_conn (watch g H) = gw_conn g"
  "gw_delivered (watch g H) = gw_delivered g" "gw_phase (watch g H) = gw_phase g" "gw_notices (watch g H) = gw_notices g"
  "gw_open (watch g H) = gw_open g" "gw_out (watch g H) = gw_out g" "wt_history (watch g H) = H"
  "wt_own (watch g H) = {..int (length H)}" "wt_scopes (watch g H) = {cn_scope (gw_conn g)}" "wt_base (watch g H) t = None"
  by (simp_all add: watch_def gateway.defs watched.defs)

lemma fresh_sub: "bus_ok b \<Longrightarrow> bus_sub (next_sub b) b = None"
  by (auto simp: bus_ok_def row_by_None)

lemma connected:
  assumes "connect db who rows pending bus = Some g" and "bus_reachable bus"
  shows "gw_rows g = rows" "gw_pending g = pending" "gw_hand g = None" "gw_delivered g = (\<lambda>_. None)" "gw_phase g = GwIdle"
    "gw_notices g = []" "gw_open g" "gw_out g = []" "cn_grants (gw_conn g) = []"
    "\<exists>s. bus_sub (gw_sub g) (gw_bus g) = Some s \<and> sub_loop s = LoopRunning \<and> sub_topics s = {} \<and>
      sub_scope s = cn_scope (gw_conn g) \<and> sub_queue s = []"
  using assms(1) fresh_sub[OF bus_reachable_ok[OF assms(2)]]
  by (auto simp: connect_def subscribe_def new_connection_def row_by_append split: option.splits if_splits)

lemma inv_start:
  assumes "connect db who rows pending bus = Some g" and "logged H rows" and "bus_reachable bus"
    and "\<forall>env. pending = Some env \<longrightarrow> (\<exists>e\<in>set H. env = envelope_for e)"
  shows "gw_inv ct0 (watch g H)"
proof -
  note c = connected[OF assms(1,3)]
  obtain s where s: "bus_sub (gw_sub g) (gw_bus g) = Some s" "sub_loop s = LoopRunning" "sub_topics s = {}"
    "sub_scope s = cn_scope (gw_conn g)" "sub_queue s = []" using c(10) by blast
  have l: "line (watch g H) = (case pending of None \<Rightarrow> [] | Some e \<Rightarrow> [e])"
    using s by (simp add: line_def queue_of_def c)
  have "known (watch g H) (envelope_for e)" if "e \<in> set H" for e
    using that by (auto simp: known_def in_scope_allows intro!: bexI[of _ e])
  then have "wf_line (watch g H)"
    using assms(2,4) unfolding wf_line_def l by (auto simp: c split: option.splits)
  moreover have "due (watch g H) = {}" by (simp add: due_def)
  ultimately show ?thesis
    using s by (simp add: gw_inv_def wf_sub_def wf_delivered_def complete_gw_def safe_cursor_def wf_batch_def c held_def)
qed

lemma gw_reach_inv: "gw_reach cfg ct0 g \<Longrightarrow> gw_inv ct0 g"
proof (induction rule: gw_reach.induct)
  case (gw_starts db who rows pending bus g H)
  then show ?case by (rule inv_start)
qed (rule gw_step_inv)

section \<open>Only what the connection may see\<close>

fun frame_event :: "frame \<Rightarrow> event_envelope option" where
  "frame_event (Replayed e) = Some e"
| "frame_event (LiveFrame e) = Some e"
| "frame_event f = None"

definition admitted :: "watched \<Rightarrow> event_envelope \<Rightarrow> bool" where
  "admitted g e \<longleftrightarrow> (\<exists>sc\<in>wt_scopes g. allows sc e)"

definition batch_frames :: "'a gateway_scheme \<Rightarrow> frame list" where
  "batch_frames g = (case gw_phase g of GwWriting fs r topics after \<Rightarrow> fs | _ \<Rightarrow> [])"

definition frame_ok :: "watched \<Rightarrow> frame \<Rightarrow> bool" where
  "frame_ok g f \<longleftrightarrow> (\<forall>e. frame_event f = Some e \<longrightarrow> admitted g e \<and> (\<forall>t. ev_topic e = Some t \<longrightarrow> t \<in> held (gw_conn g)))"

text \<open>Everything waiting was admitted; the events of a batch are on topics held until it is written.\<close>

definition isolated :: "watched \<Rightarrow> bool" where
  "isolated g \<longleftrightarrow> (gw_open g \<longrightarrow> (\<forall>e. gw_hand g = Some e \<longrightarrow> admitted g e) \<and>
     (\<forall>e\<in>set (queue_of g). admitted g e) \<and> (\<forall>f\<in>set (batch_frames g). frame_ok g f))"

lemma isolated_keep:
  assumes "isolated g" and "gw_open g' \<Longrightarrow> gw_open g" and "wt_scopes g \<subseteq> wt_scopes g'" and "gw_hand g' = gw_hand g \<or> gw_hand g' = None"
    and "\<And>e. e \<in> set (queue_of g') \<Longrightarrow> gw_open g \<Longrightarrow> e \<in> set (queue_of g) \<or> admitted g e"
    and "batch_frames g' = [] \<or> gw_conn g' = gw_conn g \<and> set (batch_frames g') \<subseteq> set (batch_frames g)"
  shows "isolated g'"
proof -
  have a: "admitted g e \<Longrightarrow> admitted g' e" for e using assms(3) by (auto simp: admitted_def)
  show ?thesis using assms(1,2,4-6) a unfolding isolated_def frame_ok_def by fastforce
qed

text \<open>What a change of the bus puts into a queue, its scope admits.\<close>

definition lets_in :: "nat \<Rightarrow> frame_body event_bus \<Rightarrow> frame_body event_bus \<Rightarrow> bool" where
  "lets_in i b b' \<longleftrightarrow> (\<forall>s'. bus_sub i b' = Some s' \<longrightarrow> (\<exists>s. bus_sub i b = Some s \<and>
     (\<forall>e\<in>set (sub_queue s'). e \<in> set (sub_queue s) \<or> allows (sub_scope s) e)))"

lemma lets_in_same_sub:
  assumes "bus_sub i b = Some s" and "\<exists>s'. bus_sub i b' = Some s' \<and> same_sub s s'"
  shows "lets_in i b b'"
  using assms by (auto simp: lets_in_def same_sub_def)

lemma lets_in_queue:
  assumes "lets_in (gw_sub g) (gw_bus g) b" and "wf_sub g" and "gw_open g" and "gw_sub g' = gw_sub g" and "gw_bus g' = b"
    and "e \<in> set (queue_of g')"
  shows "e \<in> set (queue_of g) \<or> admitted g e"
proof -
  obtain s' where s': "bus_sub (gw_sub g) b = Some s'" "e \<in> set (sub_queue s')"
    using assms(4-6) by (cases "bus_sub (gw_sub g) b") (auto simp: queue_of_def)
  then obtain s where s: "bus_sub (gw_sub g) (gw_bus g) = Some s" "e \<in> set (sub_queue s) \<or> allows (sub_scope s) e"
    using assms(1) unfolding lets_in_def by blast
  have "sub_scope s \<in> wt_scopes g" using assms(2,3) s(1) by (auto simp: wf_sub_def)
  then show ?thesis using s by (auto simp: queue_of_def admitted_def)
qed

lemma lets_in_refl: "lets_in i b b"
  by (auto simp: lets_in_def)

lemma lets_in_mutate: "lets_in i b (mutate j add rem repl sc b)"
  by (auto simp: lets_in_def bus_sub_mutate)

lemma lets_in_replace_topics: "lets_in i b (replace_topics j ts b)"
  by (simp add: replace_topics_def lets_in_mutate)

lemma lets_in_remove: "lets_in i b (remove_sub i b)"
proof -
  have "bus_sub i (remove_sub i b) = None" by (simp add: remove_sub_def row_by_None image_iff)
  then show ?thesis by (simp add: lets_in_def)
qed

lemma lets_in_register: "lets_in (gw_sub g) (gw_bus g) (gw_bus (register g))"
  using bus_sub_register[of g] by (auto simp: lets_in_def)

lemma lets_in_register':
  "gw_sub g' = gw_sub g \<Longrightarrow> gw_bus g' = gw_bus g \<Longrightarrow> lets_in (gw_sub g) (gw_bus g) (gw_bus (register g'))"
  using lets_in_register[of g'] by simp

lemma lets_in_publish: "lets_in i b (snd (publish topic type payload org ws now b))"
proof (cases "bus_sub i b")
  case None
  then show ?thesis by (simp add: lets_in_def publish_def bus_sub_deliver)
next
  case (Some s)
  then show ?thesis using lets_in_same_sub[OF Some publish_sub[OF Some]] by simp
qed

lemma lets_in_deliver: "lets_in i b (snd (deliver env b))"
  by (auto simp: lets_in_def bus_sub_deliver deliver_one_queue split: if_splits)

section \<open>No step lets anything else in\<close>

lemma message_lets_in:
  assumes "gw_phase g = GwIdle" and "g' = gw_message db now who m g"
  shows "gw_sub g' = gw_sub g \<and> gw_hand g' = gw_hand g \<and> batch_frames g' = [] \<and> wt_scopes g' = wt_scopes g \<and>
    lets_in (gw_sub g) (gw_bus g) (gw_bus g')"
proof (cases "\<exists>p. who = Inr (Some p) \<and> \<not> is_runtime p")
  case False
  then show ?thesis
    using assms by (auto simp: gw_message_def close_gw_def emit_def Let_def batch_frames_def lets_in_remove split: sum.splits option.splits)
next
  case True
  then obtain p where p: "who = Inr (Some p)" "\<not> is_runtime p" by blast
  let ?g1 = "set_conn ((gw_conn g)\<lparr>cn_principal := p\<rparr>) g"
  let ?answer = "case m of MsgSubscribe topics cursor \<Rightarrow> gw_subscribe db topics cursor ?g1
                     | MsgUnsubscribe topics \<Rightarrow> gw_unsubscribe db topics ?g1
                     | MsgResync cursor \<Rightarrow> Inr (gw_resync cursor ?g1)
                     | MsgChat topic payload \<Rightarrow> gw_chat db now topic payload ?g1
                     | MsgPing \<Rightarrow> Inr (emit Pong ?g1)
                     | MsgOther \<Rightarrow> Inr (emit (ErrorFrame ''unknown_ws_message'') ?g1)"
  have g': "g' = (case ?answer of Inl _ \<Rightarrow> close_gw (Some REVOKED_REVALIDATION_FAILED) ?g1 | Inr g2 \<Rightarrow> g2)"
    using assms(2) p by (simp add: gw_message_def Let_def)
  show ?thesis
  proof (cases ?answer)
    case (Inl e)
    then show ?thesis
      by (simp add: g' close_gw_def emit_def set_conn_def batch_frames_def lets_in_remove)
  next
    case (Inr g2)
    then have "g' = g2" by (simp add: g')
    with Inr assms(1) show ?thesis
    proof (cases m)
      case (MsgSubscribe topics v)
      then have "gw_subscribe db topics v ?g1 = Inr g'" using Inr \<open>g' = g2\<close> by simp
      moreover obtain got c2 where "conn_add (fst (projr (authorize_topics db (Some p) topics))) (refresh_scope db ((gw_conn g)\<lparr>cn_principal := p\<rparr>)) = (got, c2)"
        by fastforce
      ultimately have "\<exists>ack ts k cov. g' = register (g\<lparr>gw_conn := c2, gw_phase := GwOpened ack ts k cov\<rparr>)"
        by (clarsimp simp: gw_subscribe_def Let_def bind_result_eq_Inr set_conn_def refresh_scope_def) blast
      then obtain ack ts k cov where "g' = register (g\<lparr>gw_conn := c2, gw_phase := GwOpened ack ts k cov\<rparr>)" by blast
      then show ?thesis
        using lets_in_register[of "g\<lparr>gw_conn := c2, gw_phase := GwOpened ack ts k cov\<rparr>"]
        by (simp add: batch_frames_def)
    next
      case (MsgUnsubscribe topics)
      with Inr \<open>g' = g2\<close> assms(1) show ?thesis
        by (auto simp: gw_unsubscribe_def Let_def bind_result_eq_Inr set_conn_def emit_def batch_frames_def lets_in_replace_topics
            case_prod_beta)
    next
      case (MsgChat topic payload)
      with Inr \<open>g' = g2\<close> assms(1) show ?thesis
        by (auto simp: gw_chat_def bind_result_eq_Inr set_conn_def emit_def batch_frames_def lets_in_publish lets_in_refl
            split: option.splits if_splits)
    qed (auto simp: gw_resync_def emit_def set_conn_def batch_frames_def lets_in_refl)
  qed
qed

lemma chat_writes:
  assumes "gw_chat db now topic payload g = Inr g'"
  shows "\<exists>f. gw_out g' = gw_out g @ [f] \<and> frame_event f = None"
proof -
  obtain grant where "resolve_topic db (Some (cn_principal (gw_conn g))) topic = Inr grant"
    using assms by (auto simp: gw_chat_def bind_result_eq_Inr)
  then show ?thesis using assms by (auto simp: gw_chat_def emit_def split: option.splits if_splits)
qed

lemma message_writes:
  assumes "gw_out (gw_message db now who m g) = gw_out g @ [f]"
  shows "frame_event f = None"
  using assms
  by (auto dest!: chat_writes simp: bind_result_eq_Inr gw_message_def gw_subscribe_def gw_unsubscribe_def gw_resync_def Let_def set_conn_def
      emit_def case_prod_beta register_def close_gw_def split: sum.splits option.splits client_message.splits if_splits)

lemma revalidate_lets_in:
  assumes "gw_phase g = GwIdle" and "g' = gw_revalidate db who g"
  shows "gw_sub g' = gw_sub g \<and> gw_hand g' = gw_hand g \<and> batch_frames g' = [] \<and> wt_scopes g' = wt_scopes g \<and>
    lets_in (gw_sub g) (gw_bus g) (gw_bus g')"
  using assms by (auto simp: gw_revalidate_def close_gw_def emit_def set_conn_def Let_def batch_frames_def lets_in_remove lets_in_refl
      split: sum.splits option.splits)

lemma isolated_between:
  assumes "isolated g" and "wf_sub g" and "gw_open g"
    and "gw_sub g' = gw_sub g \<and> gw_hand g' = gw_hand g \<and> batch_frames g' = [] \<and> wt_scopes g' = wt_scopes g \<and>
      lets_in (gw_sub g) (gw_bus g) (gw_bus g')"
  shows "isolated (narrow g')"
proof (rule isolated_keep[OF assms(1)])
  fix e assume e: "e \<in> set (queue_of (narrow g'))" and op: "gw_open g"
  then have "e \<in> set (queue_of g')" by (simp add: narrow_def queue_of_def)
  then show "e \<in> set (queue_of g) \<or> admitted g e"
    using lets_in_queue[OF _ assms(2,3), of "gw_bus g'" g' e] assms(4) by simp
qed (use assms(3,4) in \<open>auto simp: narrow_def batch_frames_def\<close>)

lemma isolated_take:
  assumes "isolated g"
  shows "isolated (gw_take g)"
proof (cases "queue_of g")
  case Nil
  then show ?thesis using assms by (auto simp: gw_take_def queue_of_def get_next_def split: option.splits)
next
  case (Cons e es)
  then obtain s where s: "bus_sub (gw_sub g) (gw_bus g) = Some s" "sub_queue s = e # es"
    by (auto simp: queue_of_def split: option.splits)
  let ?s = "s\<lparr>sub_queue := es\<rparr>"
  have i: "sub_id s = gw_sub g" using s(1) by (auto dest: row_by_Some_iff_key)
  have t: "gw_take g = g\<lparr>gw_hand := Some e, gw_bus := (gw_bus g)\<lparr>subs :=
      update_where (\<lambda>x. sub_id x = gw_sub g) (\<lambda>_. ?s) (subs (gw_bus g))\<rparr>\<rparr>"
    by (simp add: gw_take_def s get_next_def)
  have "queue_of (gw_take g) = es"
    using row_by_replace[of ?s "gw_sub g" "gw_sub g"] i s by (simp add: t queue_of_def)
  then show ?thesis
    using assms Cons unfolding isolated_def by (auto simp: t admitted_def frame_ok_def batch_frames_def)
qed

lemma isolated_read:
  assumes inv: "gw_inv ct0 g" and op: "gw_open g" and iso: "isolated g"
  shows "isolated (wt_read cfg ct0 g)"
proof (cases "gw_phase g")
  case (GwOpened ack topics cursor covers)
  let ?r = "conn_replay cfg (gw_conn g) topics cursor (gw_rows g)"
  let ?g = "wt_read cfg ct0 g"
  have tail: "end_of (wt_history g) (gw_rows g)" using inv logged_end by (auto simp: gw_inv_def wf_line_def)
  obtain es where es: "rr_events ?r = map envelope_for es" "\<forall>e\<in>set es. re_topic e \<in> set topics \<and> in_scope (cn_scope (gw_conn g)) e"
    using replay_events[OF tail, of cfg topics cursor None "cn_scope (gw_conn g)"] unfolding conn_replay_def by blast
  have held: "set topics \<subseteq> held (gw_conn g)" using inv GwOpened by (simp add: gw_inv_def wf_batch_def)
  have sc: "cn_scope (gw_conn g) \<in> wt_scopes g" using inv op by (simp add: gw_inv_def wf_sub_def)
  have f: "gw_conn ?g = gw_conn g" "gw_hand ?g = gw_hand g" "gw_bus ?g = gw_bus g" "gw_sub ?g = gw_sub g" "wt_scopes ?g = wt_scopes g"
    by (simp_all add: wt_read_def GwOpened gw_read_def Let_def split: prod.split)
  have "frame_event x = Some e \<Longrightarrow> x \<in> set (batch_frames ?g) \<Longrightarrow> e \<in> set (rr_events ?r)" for x e
    by (auto simp: wt_read_def GwOpened gw_read_def Let_def batch_frames_def send_replay_def ack_frame_def replay_complete_frame_def
        split: prod.splits option.splits if_splits batch_ack.splits)
  then have "frame_ok ?g x" if "x \<in> set (batch_frames ?g)" for x
    using that es held sc by (fastforce simp: frame_ok_def admitted_def f in_scope_allows)
  moreover have "queue_of ?g = queue_of g" by (simp add: queue_of_def f)
  moreover have "admitted ?g = admitted g" by (simp add: admitted_def f fun_eq_iff)
  ultimately show ?thesis using iso op by (simp add: isolated_def f)
qed (use iso in \<open>simp_all add: wt_read_def\<close>)

lemma isolated_step:
  assumes inv: "gw_inv ct0 g" and iso: "isolated g" and step: "gw_step cfg ct0 g g'"
  shows "isolated g'"
proof -
  have sub: "wf_sub g" using inv by (simp add: gw_inv_def)
  note keep = isolated_keep[OF iso]
  from step show ?thesis
  proof cases
    case (gw_commits sch g1 r later)
    have "gw_conn g1 = gw_conn g" "gw_hand g1 = gw_hand g" "gw_bus g1 = gw_bus g" "gw_sub g1 = gw_sub g"
      "gw_open g1 = gw_open g" "gw_phase g1 = gw_phase g" "wt_scopes g1 = wt_scopes g"
      unfolding gw_commits by (auto simp: gw_commit_def split: prod.split option.split bool.split)
    then show ?thesis unfolding gw_commits(1) by (intro keep) (auto simp: queue_of_def batch_frames_def)
  next
    case (gw_foreign later rows)
    then show ?thesis by (intro keep) (auto simp: queue_of_def batch_frames_def)
  next
    case gw_announces
    have "lets_in (gw_sub g) (gw_bus g) (gw_bus g')"
      by (auto simp: gw_announces gw_announce_def lets_in_refl lets_in_deliver split: option.split)
    from lets_in_queue[OF this sub, of g'] show ?thesis
      by (intro keep) (auto simp: gw_announces gw_announce_def batch_frames_def split: option.splits)
  next
    case (gw_others b)
    obtain s where "bus_sub (gw_sub g) (gw_bus g) = Some s" using sub gw_others by (auto simp: wf_sub_def)
    from lets_in_same_sub[OF this other_bus_sub[OF gw_others(3) this]]
    have "lets_in (gw_sub g) (gw_bus g) b" .
    from lets_in_queue[OF this sub gw_others(2), of g'] show ?thesis
      by (intro keep) (auto simp: gw_others batch_frames_def)
  next
    case gw_takes
    then show ?thesis using isolated_take[OF iso] by simp
  next
    case gw_lives
    then show ?thesis
      by (intro keep) (auto simp: gw_live_def emit_def queue_of_def batch_frames_def split: option.splits if_splits)
  next
    case (gw_messages m db now who)
    then show ?thesis using isolated_between[OF iso sub gw_messages(2) message_lets_in[OF gw_messages(3) refl]] by simp
  next
    case gw_reads
    then show ?thesis using isolated_read[OF inv _ iso] by simp
  next
    case gw_writes
    show ?thesis
      by (intro keep) (auto simp: gw_writes wt_write_def gw_write_def emit_def queue_of_def batch_frames_def
          split: gw_phase.splits list.splits if_splits)
  next
    case gw_finishes
    show ?thesis
      by (intro keep) (auto simp: gw_finishes gw_finish_def queue_of_def batch_frames_def split: gw_phase.splits list.splits)
  next
    case (gw_revalidates db who)
    then show ?thesis using isolated_between[OF iso sub gw_revalidates(2) revalidate_lets_in[OF gw_revalidates(3) refl]] by simp
  next
    case gw_rescopes
    have "lets_in (gw_sub g) (gw_bus g) (gw_bus g')"
      by (auto simp: gw_rescopes gw_rescope_def lets_in_refl intro: lets_in_register' split: gw_phase.split)
    from lets_in_queue[OF this sub, of g'] show ?thesis
      by (intro keep) (auto simp: gw_rescopes gw_rescope_def batch_frames_def split: gw_phase.splits)
  next
    case gw_notices
    show ?thesis
      by (intro keep) (auto simp: gw_notices gw_notice_def emit_def queue_of_def batch_frames_def split: list.splits)
  next
    case (gw_closes reason)
    then show ?thesis by (simp add: isolated_def close_gw_def emit_def Let_def split: option.split)
  qed
qed

lemma gw_reach_isolated: "gw_reach cfg ct0 g \<Longrightarrow> isolated g"
proof (induction rule: gw_reach.induct)
  case (gw_starts db who rows pending bus g H)
  note c = connected[OF gw_starts(1,3)]
  then show ?case by (auto simp: isolated_def queue_of_def batch_frames_def)
next
  case (gw_moves g g')
  then show ?case using isolated_step[OF gw_reach_inv] by blast
qed

text \<open>Which step writes an event, and from where.\<close>

lemma step_writes:
  assumes "gw_inv ct0 g" and "gw_step cfg ct0 g g'" and "gw_out g' = gw_out g @ [f]" and "frame_event f = Some e"
  shows "gw_open g \<and> (f \<in> set (batch_frames g) \<or>
    (\<exists>e'. gw_hand g = Some e' \<and> \<not> superseded (held (gw_conn g)) (gw_delivered g) e' \<and> e = e'\<lparr>ev_seq := Some (gw_seq g + 1)\<rparr>))"
  using assms(2)
proof cases
  case (gw_commits sch g1 r later)
  then have "gw_out g' = gw_out g" by (auto simp: gw_commit_def split: prod.split option.split bool.split)
  then show ?thesis using assms(3) by simp
next
  case gw_announces
  then show ?thesis using assms(3) by (simp add: gw_announce_def split: option.splits)
next
  case gw_takes
  then show ?thesis using assms(3) by (auto simp: gw_take_def split: option.splits)
next
  case gw_lives
  then show ?thesis using assms(3,4) by (auto simp: gw_live_def emit_def split: option.splits if_splits)
next
  case (gw_messages m db now who)
  have "gw_out (gw_message db now who m g) \<noteq> gw_out g @ [f]"
    using message_writes[of db now who m g] assms(4) by auto
  then show ?thesis using assms(3) gw_messages by (simp add: narrow_def)
next
  case gw_reads
  then show ?thesis using assms(3) by (simp add: wt_read_def gw_read_def Let_def split: gw_phase.splits prod.splits)
next
  case gw_writes
  then show ?thesis
    using assms(3) by (auto simp: wt_write_def gw_write_def emit_def batch_frames_def split: gw_phase.splits list.splits if_splits)
next
  case gw_finishes
  then show ?thesis using assms(3) by (simp add: gw_finish_def split: gw_phase.splits list.splits)
next
  case (gw_revalidates db who)
  then show ?thesis
    using assms(3,4)
    by (auto simp: narrow_def gw_revalidate_def close_gw_def emit_def set_conn_def Let_def split: sum.splits option.splits if_splits prod.splits)
next
  case gw_rescopes
  then show ?thesis using assms(3) by (simp add: gw_rescope_def split: gw_phase.splits)
next
  case gw_notices
  then show ?thesis
    using assms(1,3,4) by (fastforce simp: gw_notice_def emit_def gw_inv_def wf_delivered_def split: list.splits)
next
  case (gw_closes reason)
  then show ?thesis using assms(3,4) by (auto simp: close_gw_def emit_def Let_def split: option.splits)
qed (use assms(3) in simp_all)

section \<open>Properties\<close>

text \<open>C36. The cursor of a console never skips. Whatever messages, batches, live frames, revalidations,
  other publishers and other processes interleave, a console that resumes from its cursor loses no
  event of this process: an event it is owed (committed here past the base of its topic, in every
  scope the connection had) whose id its cursor has reached was carried by a frame it was sent.\<close>

theorem ws_resume_safe:
  assumes "gw_reach cfg ct0 g" and "e \<in> set (wt_history g)" and "re_id e \<in> wt_own g"
    and "wt_base g (re_topic e) = Some b" and "b < re_id e" and "\<forall>sc\<in>wt_scopes g. in_scope sc e"
    and "re_id e \<le> ct_highest (console ct0 (gw_out g))"
  shows "\<exists>f\<in>set (gw_out g). carried f = Some (re_id e)"
proof -
  have "re_id e \<in> due g" using assms(2-6) by (auto simp: due_def)
  then have "re_id e \<in> sent g" using gw_reach_inv[OF assms(1)] assms(7) by (auto simp: gw_inv_def safe_cursor_def)
  then show ?thesis by (auto simp: sent_def frame_ids_def split: option.splits)
qed

text \<open>A connection at rest has caught up. In every reachable state in which it is open, no batch is
  under way and nothing waits for it (not in the hand of the pump, not in its queue, not between a
  commit and its announcement), every event it is owed was carried by a frame it was sent.\<close>

theorem ws_caught_up:
  assumes "gw_reach cfg ct0 g" and "gw_open g" and "\<not> in_replay (gw_phase g)" and "line g = []"
    and "e \<in> set (wt_history g)" and "re_id e \<in> wt_own g"
    and "wt_base g (re_topic e) = Some b" and "b < re_id e" and "\<forall>sc\<in>wt_scopes g. in_scope sc e"
  shows "\<exists>f\<in>set (gw_out g). carried f = Some (re_id e)"
proof -
  have "re_id e \<in> due g" using assms(5-9) by (auto simp: due_def)
  moreover have "batch_left g = {}" using assms(3) by (auto simp: batch_left_def in_replay_def split: gw_phase.splits)
  ultimately have "re_id e \<in> sent g" using gw_reach_inv[OF assms(1)] assms(2,4) by (auto simp: gw_inv_def complete_gw_def)
  then show ?thesis by (auto simp: sent_def frame_ids_def split: option.splits)
qed

text \<open>C37. Only what the connection may see is written. Whenever a step of a reachable connection writes an
  event, replayed or live, the connection is open, the event is admitted by a delivery scope the
  connection had, and its topic is one the connection holds at that moment: after a revalidation or
  an unsubscribe took a topic away, nothing waiting on it is written any more.\<close>

theorem ws_authorized:
  assumes "gw_reach cfg ct0 g" and "gw_step cfg ct0 g g'" and "gw_out g' = gw_out g @ [f]" and "frame_event f = Some e"
  shows "gw_open g \<and> (\<exists>sc\<in>wt_scopes g. allows sc e) \<and> (\<forall>t. ev_topic e = Some t \<longrightarrow> t \<in> held (gw_conn g))"
proof -
  have iso: "isolated g" using gw_reach_isolated[OF assms(1)] .
  from step_writes[OF gw_reach_inv[OF assms(1)] assms(2-4)] have op: "gw_open g"
    and w: "f \<in> set (batch_frames g) \<or> (\<exists>e'. gw_hand g = Some e' \<and>
      \<not> superseded (held (gw_conn g)) (gw_delivered g) e' \<and> e = e'\<lparr>ev_seq := Some (gw_seq g + 1)\<rparr>)" by blast+
  from w show ?thesis
  proof
    assume "f \<in> set (batch_frames g)"
    then show ?thesis using iso op assms(4) by (auto simp: isolated_def frame_ok_def admitted_def)
  next
    assume "\<exists>e'. gw_hand g = Some e' \<and> \<not> superseded (held (gw_conn g)) (gw_delivered g) e' \<and>
      e = e'\<lparr>ev_seq := Some (gw_seq g + 1)\<rparr>"
    then show ?thesis
      using iso op by (auto simp: isolated_def admitted_def superseded_def allows_def split: option.splits if_splits)
  qed
qed

section \<open>A run\<close>

text \<open>
  A member subscribes to the inbox of an Org. Another process commits an event of that topic, then
  this process commits and announces one, and the pump writes it.
\<close>

abbreviation (input) inbox :: pystr where
  "inbox \<equiv> g_topic sample_org_grant"

definition inbox_scope :: subscription_scope where
  "inbox_scope = subscription_scope_of topic_store (Some sample_operator)"

definition inbox_request :: "string \<Rightarrow> event_request" where
  "inbox_request key = (sample_event_request ''x'' key)\<lparr>er_topic := g_topic sample_org_grant\<rparr>"

definition theirs :: realtime_event where
  "theirs = new_event (inbox_request ''k1'') 0 []"

definition ours :: realtime_event where
  "ours = new_event (inbox_request ''k2'') 0 [theirs]"

lemma inbox_events [simp]:
  "re_id theirs = 1" "re_id ours = 2" "re_topic theirs = inbox" "re_topic ours = inbox"
  "re_dedupe_key theirs = Some (lit ''k1'')" "re_dedupe_key ours = Some (lit ''k2'')"
  by (simp_all add: theirs_def ours_def new_event_def inbox_request_def sample_event_request_def latest_event_id_def)

lemma inbox_in_scope: "in_scope inbox_scope theirs" "in_scope inbox_scope ours"
  by (simp_all add: inbox_scope_def theirs_def ours_def new_event_def inbox_request_def sample_event_request_def
      in_scope_def subscription_scope_of_def visible_org_ids_def split: option.split)

lemma inbox_topic: "inbox \<noteq> []"
  by (simp add: sample_org_grant_def grant_of_def)

definition inbox_conn :: gw_conn where
  "inbox_conn = \<lparr>cn_principal = sample_operator, cn_grants = [sample_org_grant], cn_scope = inbox_scope, cn_cursor = 0\<rparr>"

definition inbox_state ::
    "event_table \<Rightarrow> event_envelope option \<Rightarrow> event_envelope list \<Rightarrow> nat \<Rightarrow> event_envelope option \<Rightarrow> nat \<Rightarrow> frame list
     \<Rightarrow> event_table \<Rightarrow> int set \<Rightarrow> watched" where
  "inbox_state rows pending queue n hand k out H own =
     \<lparr>gw_rows = rows, gw_pending = pending,
      gw_bus = \<lparr>subs = [\<lparr>sub_id = 0, sub_topics = {inbox}, sub_scope = inbox_scope, sub_loop = LoopRunning, sub_queue = queue\<rparr>],
                next_sub = 1, next_seq = n\<rparr>,
      gw_sub = 0, gw_hand = hand, gw_conn = inbox_conn, gw_delivered = (\<lambda>_. None), gw_seq = k, gw_phase = GwIdle,
      gw_notices = [], gw_open = True, gw_out = out, wt_history = H, wt_own = own, wt_scopes = {inbox_scope},
      wt_base = (\<lambda>t. if t = inbox then Some 0 else None)\<rparr>"

definition inbox_ack :: frame where
  "inbox_ack = SubscribeAck True [inbox] [] [(g_requested sample_org_grant, inbox)] 0 True"

definition inbox_ask :: pyval where
  "inbox_ask = PList [PStr (lit ''org/default/inbox'')]"

lemma inbox_asked:
  "authorize_topics topic_store (Some sample_operator) inbox_ask = Inr ([sample_org_grant], [])"
  "g_requested sample_org_grant \<noteq> inbox"
  using sample_resolutions(1) by (simp_all add: inbox_ask_def authorize_topics_def MAX_TOPICS_PER_REQUEST_def)
    (simp add: sample_org_grant_def grant_of_def family_org_def)

lemma run_connected:
  "\<exists>g. connect topic_store (Some sample_operator) [] None new_bus = Some g \<and>
     watch g [] = (inbox_state [] None [] 1 None 0 [] [] {..0})
       \<lparr>gw_bus := \<lparr>subs = [\<lparr>sub_id = 0, sub_topics = {}, sub_scope = inbox_scope, sub_loop = LoopRunning, sub_queue = []\<rparr>],
                   next_sub = 1, next_seq = 1\<rparr>, gw_conn := inbox_conn\<lparr>cn_grants := []\<rparr>, wt_base := (\<lambda>_. None)\<rparr>"
  by (simp add: connect_def new_connection_def subscribe_def new_bus_def watch_def gateway.defs watched.defs inbox_state_def
      inbox_conn_def inbox_scope_def)

lemma run_subscribes:
  assumes "g = (inbox_state [] None [] 1 None 0 [] [] {..0})
       \<lparr>gw_bus := \<lparr>subs = [\<lparr>sub_id = 0, sub_topics = {}, sub_scope = inbox_scope, sub_loop = LoopRunning, sub_queue = []\<rparr>],
                   next_sub = 1, next_seq = 1\<rparr>, gw_conn := inbox_conn\<lparr>cn_grants := []\<rparr>, wt_base := (\<lambda>_. None)\<rparr>"
  shows "narrow (gw_message topic_store 0 (Inr (Some sample_operator)) (MsgSubscribe inbox_ask PNone) g)
    = (inbox_state [] None [] 1 None 0 [] [] {..0})
        \<lparr>gw_phase := GwOpened (ForSubscribe True [] [(g_requested sample_org_grant, inbox)]) [inbox] None True,
         wt_base := (\<lambda>_. None)\<rparr>"
proof -
  have c: "refresh_scope topic_store ((inbox_conn\<lparr>cn_grants := []\<rparr>)\<lparr>cn_principal := sample_operator\<rparr>) = inbox_conn\<lparr>cn_grants := []\<rparr>"
    by (simp add: refresh_scope_def inbox_conn_def inbox_scope_def)
  have a: "conn_add [sample_org_grant] (inbox_conn\<lparr>cn_grants := []\<rparr>) = ([sample_org_grant], inbox_conn)"
    by (simp add: held_def inbox_conn_def put_grant_def MAX_TOPICS_PER_CONNECTION_def)
  have p: "cn_principal (inbox_conn\<lparr>cn_grants := []\<rparr>) = sample_operator" "conn_topics inbox_conn = [inbox]"
    "held inbox_conn = {inbox}" "cn_scope inbox_conn = inbox_scope"
    by (simp_all add: inbox_conn_def conn_topics_def held_def)
  have g: "gw_conn g = inbox_conn\<lparr>cn_grants := []\<rparr>" by (simp add: assms)
  show ?thesis
    unfolding gw_message_def gw_subscribe_def Let_def
    by (simp add: g c a p inbox_asked set_conn_def as_cursor_def narrow_def register_def set_scope_def replace_topics_def mutate_def
        mutate_sub_def del: conn_add.simps) (simp add: assms inbox_state_def mutate_sub_def Let_def cong: if_cong)
qed

lemma run_subscribed: "gw_reach sample_log_env new_tracker (inbox_state [] None [] 1 None 0 [inbox_ack] [] {..0})"
proof -
  let ?cfg = sample_log_env and ?ct = new_tracker
  obtain g where g: "connect topic_store (Some sample_operator) [] None new_bus = Some g" and w:
     "watch g [] = (inbox_state [] None [] 1 None 0 [] [] {..0})
       \<lparr>gw_bus := \<lparr>subs = [\<lparr>sub_id = 0, sub_topics = {}, sub_scope = inbox_scope, sub_loop = LoopRunning, sub_queue = []\<rparr>],
                   next_sub = 1, next_seq = 1\<rparr>, gw_conn := inbox_conn\<lparr>cn_grants := []\<rparr>, wt_base := (\<lambda>_. None)\<rparr>"
    using run_connected by blast
  let ?s1 = "(inbox_state [] None [] 1 None 0 [] [] {..0})
        \<lparr>gw_phase := GwOpened (ForSubscribe True [] [(g_requested sample_org_grant, inbox)]) [inbox] None True,
         wt_base := (\<lambda>_. None)\<rparr>"
  let ?r = "conn_replay ?cfg inbox_conn [inbox] None []"
  let ?s2 = "(inbox_state [] None [] 1 None 0 [] [] {..0})\<lparr>gw_phase := GwWriting [inbox_ack] ?r [inbox] 0\<rparr>"
  have r0: "gw_reach ?cfg ?ct (watch g [])" by (rule gw_starts[OF g logged_empty bus_reachable.initial]) simp
  have "gw_step ?cfg ?ct (watch g []) (narrow (gw_message topic_store 0 (Inr (Some sample_operator)) (MsgSubscribe inbox_ask PNone) (watch g [])))"
    by (rule gw_messages) (simp_all add: w inbox_state_def honest_def as_cursor_def)
  then have "gw_step ?cfg ?ct (watch g []) ?s1" unfolding run_subscribes[OF w] .
  with r0 have r1: "gw_reach ?cfg ?ct ?s1" by (rule gw_moves)
  have r: "rr_events ?r = []" "\<not> rr_gap ?r" "rr_cursor ?r = 0"
    by (simp_all add: conn_replay_def replay_def Let_def latest_event_id_def)
  have hw: "replay_high_water ?r = 0" "replay_delivered ?r = (\<lambda>_. None)"
    by (simp_all add: replay_high_water_def replay_delivered_def replay_ids_def r fun_eq_iff)
  have b: "send_replay ?r [inbox] 0 True = ([], 0)" by (simp add: send_replay_def receipt_cursor_def r)
  have s1: "gw_phase ?s1 = GwOpened (ForSubscribe True [] [(g_requested sample_org_grant, inbox)]) [inbox] None True"
    "gw_conn ?s1 = inbox_conn" "gw_rows ?s1 = []" "gw_out ?s1 = []" "gw_open ?s1"
    by (simp_all add: inbox_state_def)
  have read: "gw_read ?cfg ?s1 = ?s1\<lparr>gw_phase := GwWriting [inbox_ack] ?r [inbox] 0\<rparr>"
    unfolding gw_read_def s1 by (simp add: Let_def pre_replay_cursor_def r b ack_frame_def inbox_ack_def)
  have "wt_read ?cfg ?ct ?s1 = ?s2"
    unfolding wt_read_def s1 read using inbox_topic
    by (simp add: inbox_state_def fun_eq_iff new_tracker_def latest_event_id_def console_def)
  then have "gw_step ?cfg ?ct ?s1 ?s2" using gw_reads[of ?s1 ?cfg ?ct] s1 by simp
  with r1 have r2: "gw_reach ?cfg ?ct ?s2" by (rule gw_moves)
  let ?s3 = "(inbox_state [] None [] 1 None 0 [inbox_ack] [] {..0})\<lparr>gw_phase := GwWriting [] ?r [inbox] 0\<rparr>"
  have "wt_write ?s2 = ?s3" by (simp add: wt_write_def gw_write_def emit_def inbox_state_def inbox_ack_def)
  then have "gw_step ?cfg ?ct ?s2 ?s3" using gw_writes[of ?s2 ?cfg ?ct] by (simp add: inbox_state_def)
  with r2 have r3: "gw_reach ?cfg ?ct ?s3" by (rule gw_moves)
  have "covered ?r [inbox] (\<lambda>_. None) = (\<lambda>_. None)" by (simp add: covered_def Let_def hw r)
  then have "gw_finish ?s3 = inbox_state [] None [] 1 None 0 [inbox_ack] [] {..0}"
    by (simp add: gw_finish_def inbox_state_def inbox_conn_def)
  then have "gw_step ?cfg ?ct ?s3 (inbox_state [] None [] 1 None 0 [inbox_ack] [] {..0})"
    using gw_finishes[of ?s3 ?cfg ?ct] by (simp add: inbox_state_def)
  with r3 show ?thesis by (rule gw_moves)
qed

text \<open>The event of the other process is committed, then ours is committed and announced.\<close>

lemma inbox_logged: "logged [theirs] [theirs]" "logged [theirs, ours] [theirs, ours]"
proof -
  have "logged ([] @ [theirs]) ([] @ [theirs])" unfolding theirs_def by (rule sample_logged[OF logged_empty]) simp
  then show l: "logged [theirs] [theirs]" by simp
  have "logged ([theirs] @ [ours]) ([theirs] @ [ours])"
    unfolding ours_def by (rule sample_logged[OF l]) (simp add: inbox_request_def sample_event_request_def)
  then show "logged [theirs, ours] [theirs, ours]" by simp
qed

abbreviation (input) our_frame :: event_envelope where
  "our_frame \<equiv> (envelope_for ours)\<lparr>ev_seq := Some 1\<rparr>"

lemma run_announced:
  "gw_reach sample_log_env new_tracker
     (inbox_state [theirs, ours] None [] 2 (Some our_frame) 0 [inbox_ack] [theirs, ours] (insert 2 {..0}))"
proof -
  let ?cfg = sample_log_env and ?ct = new_tracker
  let ?t0 = "inbox_state [] None [] 1 None 0 [inbox_ack] [] {..0}"
  let ?t1 = "inbox_state [theirs] None [] 1 None 0 [inbox_ack] [theirs] {..0}"
  let ?t2 = "inbox_state [theirs, ours] (Some (envelope_for ours)) [] 1 None 0 [inbox_ack] [theirs, ours] (insert 2 {..0})"
  let ?t3 = "inbox_state [theirs, ours] None [our_frame] 2 None 0 [inbox_ack] [theirs, ours] (insert 2 {..0})"
  have "gw_step ?cfg ?ct ?t0 (?t0\<lparr>gw_rows := [theirs], wt_history := wt_history ?t0 @ [theirs]\<rparr>)"
    by (rule gw_foreign) (simp add: inbox_state_def inbox_logged)
  then have "gw_step ?cfg ?ct ?t0 ?t1" by (simp add: inbox_state_def)
  with run_subscribed have r1: "gw_reach ?cfg ?ct ?t1" by (rule gw_moves)
  have "record_event ?cfg sample_write (inbox_request ''k2'') [theirs] = (Some (envelope_for ours, True), [theirs, ours])"
    using sample_new[of "inbox_request ''k2''" "[theirs]" ?cfg]
    by (simp add: ours_def inbox_request_def sample_event_request_def latest_event_id_def PRUNE_EVERY_def)
  then have c: "gw_commit ?cfg sample_write (inbox_request ''k2'') ?t1
    = ?t1\<lparr>gw_rows := [theirs, ours], gw_pending := Some (envelope_for ours)\<rparr>"
    by (simp add: gw_commit_def inbox_state_def)
  have "gw_step ?cfg ?ct ?t1 ((?t1\<lparr>gw_rows := [theirs, ours], gw_pending := Some (envelope_for ours)\<rparr>)
      \<lparr>wt_history := wt_history ?t1 @ [ours], wt_own := wt_own ?t1 \<union> (case Some (envelope_for ours) of
        None \<Rightarrow> {} | Some e \<Rightarrow> {the (ev_event_id e)})\<rparr>)"
    using gw_commits[OF _ alone_others[OF sample_write_alone] c[symmetric], of "[ours]" ?ct] inbox_logged
    by (simp add: inbox_state_def)
  then have "gw_step ?cfg ?ct ?t1 ?t2" by (simp add: inbox_state_def)
  with r1 have r2: "gw_reach ?cfg ?ct ?t2" by (rule gw_moves)
  have "gw_announce ?t2 = ?t3"
    using inbox_in_scope(2)
    by (simp add: gw_announce_def inbox_state_def deliver_def Let_def in_topic_def deliver_one_def in_scope_allows allows_def envelope_for_def)
  then have "gw_step ?cfg ?ct ?t2 ?t3" using gw_announces[of ?cfg ?ct ?t2] by simp
  with r2 have r3: "gw_reach ?cfg ?ct ?t3" by (rule gw_moves)
  have "gw_take ?t3 = inbox_state [theirs, ours] None [] 2 (Some our_frame) 0 [inbox_ack] [theirs, ours] (insert 2 {..0})"
    by (simp add: gw_take_def inbox_state_def get_next_def)
  then have "gw_step ?cfg ?ct ?t3 (inbox_state [theirs, ours] None [] 2 (Some our_frame) 0 [inbox_ack] [theirs, ours] (insert 2 {..0}))"
    using gw_takes[of ?t3 ?cfg ?ct] by (simp add: inbox_state_def)
  with r3 show ?thesis by (rule gw_moves)
qed

lemma run_written_step:
  "gw_step sample_log_env new_tracker
     (inbox_state [theirs, ours] None [] 2 (Some our_frame) 0 [inbox_ack] [theirs, ours] (insert 2 {..0}))
     (inbox_state [theirs, ours] None [] 2 None 1 [inbox_ack, LiveFrame our_frame] [theirs, ours] (insert 2 {..0}))"
proof -
  let ?t = "inbox_state [theirs, ours] None [] 2 (Some our_frame) 0 [inbox_ack] [theirs, ours] (insert 2 {..0})"
  have "gw_live ?t = inbox_state [theirs, ours] None [] 2 None 1 [inbox_ack, LiveFrame our_frame] [theirs, ours] (insert 2 {..0})"
    by (simp add: gw_live_def inbox_state_def superseded_def emit_def held_def inbox_conn_def envelope_for_def)
  then show ?thesis using gw_lives[of ?t sample_log_env new_tracker] by (simp add: inbox_state_def in_replay_def)
qed

lemmas run_written = gw_moves[OF run_announced run_written_step]

theorem ws_resume_safe_witness:
  "\<exists>g :: watched. ct_highest (console new_tracker (gw_out g)) = 2 \<and> re_id ours = 2 \<and> (\<exists>f\<in>set (gw_out g). carried f = Some (re_id ours))"
proof -
  let ?g = "inbox_state [theirs, ours] None [] 2 None 1 [inbox_ack, LiveFrame our_frame] [theirs, ours] (insert 2 {..0})"
  have c: "ct_highest (console new_tracker (gw_out ?g)) = 2"
    by (simp add: inbox_state_def console_def inbox_ack_def apply_ack_def accept_frame_def Let_def new_tracker_def envelope_for_def)
  have "\<exists>f\<in>set (gw_out ?g). carried f = Some (re_id ours)"
    using ws_resume_safe[OF run_written, of ours 0] c inbox_in_scope by (simp add: inbox_state_def)
  then show ?thesis using c by (intro exI[of _ ?g]) simp
qed

theorem ws_caught_up_witness:
  "\<exists>g :: watched. gw_open g \<and> line g = [] \<and> wt_history g = [theirs, ours] \<and> (\<exists>f\<in>set (gw_out g). carried f = Some (re_id ours))"
proof -
  let ?g = "inbox_state [theirs, ours] None [] 2 None 1 [inbox_ack, LiveFrame our_frame] [theirs, ours] (insert 2 {..0})"
  have l: "gw_open ?g" "line ?g = []" "wt_history ?g = [theirs, ours]" "\<not> in_replay (gw_phase ?g)"
    by (simp_all add: inbox_state_def line_def queue_of_def in_replay_def)
  have "\<exists>f\<in>set (gw_out ?g). carried f = Some (re_id ours)"
    using ws_caught_up[OF run_written l(1,4,2), of ours 0] inbox_in_scope by (simp add: inbox_state_def)
  then show ?thesis using l by (intro exI[of _ ?g]) simp
qed

theorem ws_authorized_witness:
  "\<exists>g :: watched. gw_hand g \<noteq> None \<and> (\<exists>sc\<in>wt_scopes g. allows sc (envelope_for ours)) \<and> re_topic ours \<in> held (gw_conn g)"
proof -
  let ?g = "inbox_state [theirs, ours] None [] 2 (Some our_frame) 0 [inbox_ack] [theirs, ours] (insert 2 {..0})"
  have "(\<exists>sc\<in>wt_scopes ?g. allows sc our_frame) \<and> (\<forall>t. ev_topic our_frame = Some t \<longrightarrow> t \<in> held (gw_conn ?g))"
    using ws_authorized[OF run_announced run_written_step, of "LiveFrame our_frame" our_frame] by (simp add: inbox_state_def)
  then show ?thesis by (intro exI[of _ ?g]) (simp add: allows_def inbox_state_def envelope_for_def)
qed

text \<open>
  What is owed counts the events of this process only. The event the other process committed first
  is in the log, past the base of its topic and in scope; the live event behind it carries the
  cursor of the console past it, and a reconnect from that cursor does not bring it back.
\<close>

lemma foreign_event_lost:
  "\<exists>g :: watched. gw_reach sample_log_env new_tracker g \<and> theirs \<in> set (wt_history g) \<and> theirs \<in> set (gw_rows g) \<and>
     wt_base g (re_topic theirs) = Some 0 \<and> 0 < re_id theirs \<and> (\<forall>sc\<in>wt_scopes g. in_scope sc theirs) \<and>
     (\<forall>f\<in>set (gw_out g). carried f \<noteq> Some (re_id theirs)) \<and>
     envelope_for theirs \<notin> set (rr_events (conn_replay sample_log_env (gw_conn g) [re_topic theirs]
        (Some (ct_highest (console new_tracker (gw_out g)))) (gw_rows g)))"
proof -
  let ?g = "inbox_state [theirs, ours] None [] 2 None 1 [inbox_ack, LiveFrame our_frame] [theirs, ours] (insert 2 {..0})"
  have c: "ct_highest (console new_tracker (gw_out ?g)) = 2"
    by (simp add: inbox_state_def console_def inbox_ack_def apply_ack_def accept_frame_def Let_def new_tracker_def envelope_for_def)
  have "wanted_rows [inbox] 2 [theirs, ours] = []" by (simp add: wanted_rows_def)
  then have "rr_events (conn_replay sample_log_env (gw_conn ?g) [inbox] (Some 2) (gw_rows ?g)) = []"
    using inbox_topic by (simp add: conn_replay_def replay_def Let_def inbox_state_def latest_event_id_def earliest_event_id_def)
  then show ?thesis
    using run_written c inbox_in_scope
    by (intro exI[of _ ?g]) (simp add: inbox_state_def inbox_ack_def envelope_for_def)
qed

end
