(* ===== verification/SessionCommands.thy ===== *)
theory SessionCommands imports Events Policy begin

text \<open>
  Models \<open>src/brains/control/session_commands.py\<close>, the durable queue of operator commands, and the
  part of \<open>src/brains/control/sessions.py\<close> that ends a Session. Each transaction is a function of the
  store; where the code reads in one statement and writes in another under a condition, the two are
  separate functions, so that others may commit in between. The announcement of a command on the
  realtime log, the refresh of views and the blocking of an Issue follow a commit, change none of
  these tables and are left out.
\<close>

section \<open>Constants\<close>

definition KIND_MESSAGE :: string where "KIND_MESSAGE = ''message''"
definition KIND_STOP :: string where "KIND_STOP = ''stop''"
definition KINDS :: "string list" where "KINDS = [KIND_MESSAGE, KIND_STOP]"

definition STATUS_REQUESTED :: string where "STATUS_REQUESTED = ''requested''"
definition STATUS_DELIVERED :: string where "STATUS_DELIVERED = ''delivered''"
definition STATUS_ACKNOWLEDGED :: string where "STATUS_ACKNOWLEDGED = ''acknowledged''"
definition STATUS_FAILED :: string where "STATUS_FAILED = ''failed''"
definition STATUS_CANCELLED :: string where "STATUS_CANCELLED = ''cancelled''"

definition OPEN_COMMANDS :: "string list" where
  "OPEN_COMMANDS = [STATUS_REQUESTED, STATUS_DELIVERED]"

definition TERMINAL_COMMANDS :: "string list" where
  "TERMINAL_COMMANDS = [STATUS_ACKNOWLEDGED, STATUS_FAILED, STATUS_CANCELLED]"

definition RESULT_UNSUPPORTED :: pystr where "RESULT_UNSUPPORTED = lit ''unsupported''"
definition RESULT_SESSION_ENDED :: pystr where "RESULT_SESSION_ENDED = lit ''session_ended''"
definition RESULT_SESSION_DORMANT :: pystr where "RESULT_SESSION_DORMANT = lit ''session_dormant''"
definition RESULT_ALREADY_TERMINAL :: pystr where "RESULT_ALREADY_TERMINAL = lit ''already_terminal''"
definition RESULT_ABANDONED :: pystr where "RESULT_ABANDONED = lit ''abandoned''"
definition RESULT_SUPERSEDED :: pystr where "RESULT_SUPERSEDED = lit ''superseded''"
definition RESULT_STOPPED :: pystr where "RESULT_STOPPED = lit ''stopped''"
definition RESULT_ALREADY_EXITED :: pystr where "RESULT_ALREADY_EXITED = lit ''already_exited''"

definition STOP_PROVES_TERMINAL :: "pystr list" where
  "STOP_PROVES_TERMINAL = [RESULT_STOPPED, RESULT_ALREADY_EXITED]"

definition DEFAULT_LEASE_SECONDS :: int where "DEFAULT_LEASE_SECONDS = 60"
definition DEFAULT_MAX_ATTEMPTS :: int where "DEFAULT_MAX_ATTEMPTS = 5"
definition MAX_MESSAGE_CHARS :: nat where "MAX_MESSAGE_CHARS = 8000"
definition MAX_OPERATION_ID_CHARS :: nat where "MAX_OPERATION_ID_CHARS = 100"
definition SEQUENCE_ATTEMPTS :: nat where "SEQUENCE_ATTEMPTS = 8"
definition CLAIMED_BY_CHARS :: nat where "CLAIMED_BY_CHARS = 64"

lemmas status_defs = STATUS_REQUESTED_def STATUS_DELIVERED_def STATUS_ACKNOWLEDGED_def STATUS_FAILED_def
  STATUS_CANCELLED_def OPEN_COMMANDS_def TERMINAL_COMMANDS_def

lemmas kind_defs = KIND_MESSAGE_def KIND_STOP_def KINDS_def

section \<open>Settings\<close>

text \<open>
  The environment, each variable as text (unset is the empty text), the Session lease setting, and
  the tools declared interactive in this process.
\<close>

record cmd_env =
  ce_lease_seconds :: pystr
  ce_max_attempts :: pystr
  ce_session_lease :: "pystr option"
  ce_interactive :: "pystr list"

definition positive_env_int :: "pystr \<Rightarrow> int \<Rightarrow> int" where
  "positive_env_int raw deflt =
     (if strip raw = [] then deflt
      else case py_int (strip raw) of None \<Rightarrow> deflt | Some v \<Rightarrow> if v > 0 then v else deflt)"

definition lease_seconds :: "cmd_env \<Rightarrow> int" where
  "lease_seconds env = positive_env_int (ce_lease_seconds env) DEFAULT_LEASE_SECONDS"

definition max_attempts :: "cmd_env \<Rightarrow> int" where
  "max_attempts env = positive_env_int (ce_max_attempts env) DEFAULT_MAX_ATTEMPTS"

definition UNSUPPORTED_REASON :: "pystr \<Rightarrow> pystr" where
  "UNSUPPORTED_REASON tool = tool @ lit '' is launched in its non-interactive shape: the prompt is delivered once at start and the process has no open input channel afterwards, so a message cannot reach the running agent''"

definition UNKNOWN_TOOL_REASON :: "pystr \<Rightarrow> pystr" where
  "UNKNOWN_TOOL_REASON tool = lit ''no interactive input channel is declared for '' @ tool @ lit '', so a message cannot reach the running agent''"

definition supports_message :: "cmd_env \<Rightarrow> pystr \<Rightarrow> bool" where
  "supports_message env tool \<longleftrightarrow> tool \<noteq> [] \<and> tool \<in> set (ce_interactive env)"

text \<open>\<open>None\<close>: supported; otherwise the reason it is not.\<close>

definition message_capability :: "cmd_env \<Rightarrow> pystr \<Rightarrow> pystr option" where
  "message_capability env tool =
     (if supports_message env tool then None
      else let name = (if tool = [] then lit ''this agent'' else tool)
           in Some (if tool \<in> {lit ''copilot'', lit ''claude'', lit ''codex''}
                    then UNSUPPORTED_REASON name else UNKNOWN_TOOL_REASON name))"

section \<open>Rows\<close>

record command_row =
  sc_id :: int
  sc_command_id :: pystr
  sc_operation_key :: pystr
  sc_session_id :: pystr
  sc_sequence :: int
  sc_kind :: string
  sc_status :: string
  sc_payload :: "(pystr \<times> json) list"
  sc_org_id :: "int option"
  sc_workspace_id :: "int option"
  sc_runtime_id :: "int option"
  sc_machine_id :: "pystr option"
  sc_requested_by :: "pystr option"
  sc_attempt :: int
  sc_claimed_by :: "pystr option"
  sc_claimed_at :: "instant option"
  sc_lease_expires_at :: "instant option"
  sc_delivered_at :: "instant option"
  sc_completed_at :: "instant option"
  sc_result :: "pystr option"
  sc_error :: "pystr option"
  sc_created_at :: instant
  sc_updated_at :: instant

text \<open>What a Session holds and gives up when it ends.\<close>

record claim_row =
  wc_workspace_id :: int
  wc_session_id :: pystr

record task_row =
  tk_id :: int
  tk_status :: string
  tk_claimed_by :: "pystr option"
  tk_claimed_at :: "instant option"

record attachment_row =
  ma_id :: int
  ma_session_id :: pystr
  ma_active :: bool
  ma_detached_at :: "instant option"
  ma_detach_reason :: "pystr option"

record notification_row =
  mn_attachment_id :: int
  mn_status :: string
  mn_attempt :: int
  mn_started_at :: "instant option"
  mn_error_code :: "pystr option"
  mn_completed_at :: "instant option"

record cmd_db = event_db +
  commands :: "command_row list"
  claims :: "claim_row list"
  tasks :: "task_row list"
  mail_attachments :: "attachment_row list"
  notifications :: "notification_row list"
  workspace_touches :: "(int \<times> instant \<times> pystr) list"

definition get_command :: "'a cmd_db_scheme \<Rightarrow> pystr \<Rightarrow> command_row option" where
  "get_command db cid = row_by sc_command_id cid (commands db)"

text \<open>An \<open>UPDATE\<close> on the commands with a condition.\<close>

definition update_commands ::
    "(command_row \<Rightarrow> bool) \<Rightarrow> (command_row \<Rightarrow> command_row) \<Rightarrow> 'a cmd_db_scheme \<Rightarrow> 'a cmd_db_scheme" where
  "update_commands P f db = db\<lparr>commands := update_where P f (commands db)\<rparr>"

datatype command_error =
    BadKind
  | MessageNeedsText
  | MessageTooLong
  | OperationIdTooLong
  | UnknownCommandSession pystr
  | UnknownCommand pystr
  | NotOwned "int option"
  | BadStatus
  | NotHeld
  | NoSequence

section \<open>Idempotency keys\<close>

definition default_stop_key :: "pystr \<Rightarrow> int \<Rightarrow> pystr" where
  "default_stop_key sid epoch =
     (let base = lit ''stop'' @ lit '':'' @ sid
      in if epoch \<le> 1 then base else base @ lit ''#'' @ str_of_int epoch)"

text \<open>A message without an operation id gets the text of a fresh \<open>uuid4\<close>.\<close>

definition operation_key_for :: "pystr \<Rightarrow> string \<Rightarrow> pystr option \<Rightarrow> pystr \<Rightarrow> command_error + pystr" where
  "operation_key_for sid kind operation uuid =
     (case operation of
        Some (c # cs) \<Rightarrow>
          if length (c # cs) > MAX_OPERATION_ID_CHARS then Inl OperationIdTooLong
          else Inr (lit kind @ lit '':'' @ sid @ lit '':'' @ c # cs)
      | _ \<Rightarrow> if kind = KIND_STOP then Inr (default_stop_key sid 1)
             else Inr (lit kind @ lit '':'' @ sid @ lit '':'' @ uuid))"

definition is_default_stop_key :: "pystr \<Rightarrow> pystr \<Rightarrow> bool" where
  "is_default_stop_key key sid =
     (let base = lit ''stop'' @ lit '':'' @ sid
      in if key = [] then False
         else if key = base then True
         else if take (length base) key = base
         then (case drop (length base) key of
                 [] \<Rightarrow> False
               | c # digits \<Rightarrow> [c] = lit ''#'' \<and> digits \<noteq> [] \<and> (\<forall>d\<in>set digits. is_digit d))
         else False)"

definition stop_attempt_is_spent :: "command_row \<Rightarrow> session_row \<Rightarrow> bool" where
  "stop_attempt_is_spent row agent =
     (if sc_status row \<in> set OPEN_COMMANDS then False
      else if s_ended_at agent \<noteq> None then False
      else \<not> (sc_status row = STATUS_ACKNOWLEDGED \<and>
              (case sc_result row of None \<Rightarrow> False | Some r \<Rightarrow> r \<in> set STOP_PROVES_TERMINAL)))"

definition session_commands :: "'a cmd_db_scheme \<Rightarrow> pystr \<Rightarrow> command_row list" where
  "session_commands db sid = sort_key sc_sequence (filter (\<lambda>r. sc_session_id r = sid) (commands db))"

definition default_stops :: "'a cmd_db_scheme \<Rightarrow> pystr \<Rightarrow> command_row list" where
  "default_stops db sid =
     filter (\<lambda>r. is_default_stop_key (sc_operation_key r) sid)
       (filter (\<lambda>r. sc_kind r = KIND_STOP) (session_commands db sid))"

definition default_stop_slot :: "'a cmd_db_scheme \<Rightarrow> session_row \<Rightarrow> pystr \<times> command_row option" where
  "default_stop_slot db agent =
     (let sid = s_id agent; rows = default_stops db sid
      in if rows = [] then (default_stop_key sid 1, None)
         else if \<not> stop_attempt_is_spent (last rows) agent
         then (sc_operation_key (last rows), Some (last rows))
         else (default_stop_key sid (int (length rows) + 1), None))"

section \<open>Ownership\<close>

datatype consumer_kind = RuntimeConsumer int | LocalConsumer

definition owner_of :: "command_row \<Rightarrow> consumer_kind" where
  "owner_of row = (case sc_runtime_id row of None \<Rightarrow> LocalConsumer | Some i \<Rightarrow> RuntimeConsumer i)"

definition command_owned_by :: "command_row \<Rightarrow> int option \<Rightarrow> pystr option \<Rightarrow> bool" where
  "command_owned_by row runtime machine =
     (case owner_of row of
        RuntimeConsumer i \<Rightarrow> runtime = Some i
      | LocalConsumer \<Rightarrow>
          if runtime \<noteq> None then False
          else (case (sc_machine_id row, machine) of
                  (Some a, Some b) \<Rightarrow> if a \<noteq> [] \<and> b \<noteq> [] then a = b else True
                | _ \<Rightarrow> True))"

definition binding_machine_id :: "store \<Rightarrow> session_row \<Rightarrow> pystr option" where
  "binding_machine_id db agent =
     (case s_runtime_id agent of
        None \<Rightarrow> s_machine_id agent
      | Some i \<Rightarrow> (case row_by rt_id i (runtimes db) of
                     None \<Rightarrow> s_machine_id agent
                   | Some r \<Rightarrow> if rt_machine_id r = [] then s_machine_id agent else Some (rt_machine_id r)))"

section \<open>Events of a Session\<close>

text \<open>
  \<open>append_event\<close> for an event of a Session: an explicit Workspace is the Session's own, else it is
  looked up; the event is a heartbeat of the Session unless it must not renew it.
\<close>

definition heartbeat_agent :: "pystr option \<Rightarrow> instant \<Rightarrow> pystr \<Rightarrow> 'a live_db_scheme \<Rightarrow> 'a live_db_scheme" where
  "heartbeat_agent cfg now sid db =
     (case get_agent db sid of
        None \<Rightarrow> db
      | Some agent \<Rightarrow>
          (case renew_session_lease cfg now False False False agent db of
             Inl _ \<Rightarrow> db
           | Inr (Some l, db') \<Rightarrow> db'
           | Inr (None, db') \<Rightarrow>
               if s_state agent \<noteq> ''dormant'' then put_agent (agent\<lparr>s_last_activity_at := Some now\<rparr>) db' else db'))"

definition append_session_event ::
    "pystr option \<Rightarrow> instant \<Rightarrow> string \<Rightarrow> pystr \<Rightarrow> int option \<Rightarrow> pystr \<Rightarrow> json \<Rightarrow> bool
     \<Rightarrow> 'a event_db_scheme \<Rightarrow> 'a event_db_scheme" where
  "append_session_event cfg now kind message ws session_id metadata renew db =
     (let sid = strip session_id;
          found = (if sid = [] then None else map_option s_workspace_id (get_agent db sid));
          resolved = (if ws \<noteq> None then ws else found);
          source = (if ws \<noteq> None then ''explicit'' else if found \<noteq> None then ''session'' else ''unresolved'');
          category = (case classify_event_kind (lit kind) of Some c \<Rightarrow> c | None \<Rightarrow> []);
          (scope, scope_source) = event_scope category resolved source;
          db1 = db\<lparr>events := events db @
            [\<lparr>ev_id = next_row_id (map ev_id (events db)), ev_workspace_id = resolved,
              ev_session_id = (if sid = [] then None else Some sid), ev_kind = lit kind, ev_message = message,
              ev_metadata = metadata, ev_created_at = now, ev_category = category, ev_scope = scope,
              ev_scope_source = scope_source, ev_taxonomy_version = TAXONOMY_VERSION\<rparr>]\<rparr>
      in if sid \<noteq> [] \<and> renew then heartbeat_agent cfg now sid db1 else db1)"

section \<open>Recording a command\<close>

text \<open>The state a command starts in: its status, its result and why.\<close>

definition initial_state :: "cmd_env \<Rightarrow> session_row \<Rightarrow> string \<Rightarrow> string \<times> pystr option \<times> pystr option" where
  "initial_state env agent kind =
     (let ended = (s_ended_at agent \<noteq> None)
      in if kind = KIND_STOP
         then (if ended then (STATUS_ACKNOWLEDGED, Some RESULT_ALREADY_TERMINAL, None)
               else (STATUS_REQUESTED, None, None))
         else if ended
         then (STATUS_FAILED, Some RESULT_SESSION_ENDED,
               Some (lit ''the Session had already ended when the message was submitted''))
         else case message_capability env (s_tool agent) of
                Some reason \<Rightarrow> (STATUS_FAILED, Some RESULT_UNSUPPORTED, Some reason)
              | None \<Rightarrow> (STATUS_REQUESTED, None, None))"

record command_request =
  cr_session :: pystr
  cr_kind :: string
  cr_text :: "pystr option"
  cr_reason :: "pystr option"
  cr_operation :: "pystr option"
  cr_requested_by :: "pystr option"

definition text_given :: "pystr option \<Rightarrow> bool" where
  "text_given t \<longleftrightarrow> t \<noteq> None \<and> t \<noteq> Some []"

text \<open>The checks before the store is read; the text of a message is stripped.\<close>

definition check_request :: "command_request \<Rightarrow> command_error + pystr option" where
  "check_request r =
     (if cr_kind r \<notin> set KINDS then Inl BadKind
      else if cr_kind r = KIND_MESSAGE
      then (let t = strip (case cr_text r of None \<Rightarrow> [] | Some t \<Rightarrow> t)
            in if t = [] then Inl MessageNeedsText
               else if length t > MAX_MESSAGE_CHARS then Inl MessageTooLong
               else Inr (Some t))
      else Inr (cr_text r))"

definition request_payload :: "pystr option \<Rightarrow> command_request \<Rightarrow> (pystr \<times> json) list" where
  "request_payload text r =
     (if text_given text then [(lit ''text'', JStr (the text))] else []) @
     (if text_given (cr_reason r) then [(lit ''reason'', JStr (the (cr_reason r)))] else []) @
     (if text_given (cr_operation r) then [(lit ''operation_id'', JStr (the (cr_operation r)))] else [])"

definition default_stop :: "command_request \<Rightarrow> bool" where
  "default_stop r \<longleftrightarrow> cr_kind r = KIND_STOP \<and> \<not> text_given (cr_operation r)"

definition highest_sequence :: "'a cmd_db_scheme \<Rightarrow> pystr \<Rightarrow> int" where
  "highest_sequence db sid = foldr max (map sc_sequence (filter (\<lambda>r. sc_session_id r = sid) (commands db))) 0"

text \<open>
  One pass of the loop reads the store: an existing command, or the row to insert. The row gets its
  id when it is inserted.
\<close>

datatype enqueue_answer = Existing command_row | Fresh command_row

definition enqueue_read ::
    "cmd_env \<Rightarrow> instant \<Rightarrow> pystr \<Rightarrow> pystr \<Rightarrow> pystr option \<Rightarrow> command_request \<Rightarrow> 'a cmd_db_scheme
     \<Rightarrow> command_error + enqueue_answer" where
  "enqueue_read env now command_id key text r db =
     (case get_agent db (cr_session r) of
        None \<Rightarrow> Inl (UnknownCommandSession (cr_session r))
      | Some agent \<Rightarrow>
          let (key, existing) = (if default_stop r then default_stop_slot db agent
                                 else (key, row_by sc_operation_key key (commands db)))
          in case existing of
               Some row \<Rightarrow> Inr (Existing row)
             | None \<Rightarrow>
                 let (status, result, error) = initial_state env agent (cr_kind r)
                 in Inr (Fresh
                      \<lparr>sc_id = 0, sc_command_id = command_id, sc_operation_key = key, sc_session_id = cr_session r,
                       sc_sequence = highest_sequence db (cr_session r) + 1, sc_kind = cr_kind r, sc_status = status,
                       sc_payload = request_payload text r,
                       sc_org_id = workspace_org_id (lbase db) (Some (s_workspace_id agent)),
                       sc_workspace_id = Some (s_workspace_id agent), sc_runtime_id = s_runtime_id agent,
                       sc_machine_id = binding_machine_id (lbase db) agent,
                       sc_requested_by = (if text_given (cr_requested_by r) then cr_requested_by r else None),
                       sc_attempt = 0, sc_claimed_by = None, sc_claimed_at = None, sc_lease_expires_at = None,
                       sc_delivered_at = None, sc_completed_at = (if status \<in> set TERMINAL_COMMANDS then Some now else None),
                       sc_result = result, sc_error = error, sc_created_at = now, sc_updated_at = now\<rparr>))"

text \<open>The unique columns of the table; \<open>None\<close> is an \<open>IntegrityError\<close>.\<close>

definition insert_command :: "command_row \<Rightarrow> 'a cmd_db_scheme \<Rightarrow> (command_row \<times> 'a cmd_db_scheme) option" where
  "insert_command row db =
     (if (\<exists>r\<in>set (commands db). sc_command_id r = sc_command_id row \<or> sc_operation_key r = sc_operation_key row \<or>
            sc_session_id r = sc_session_id row \<and> sc_sequence r = sc_sequence row)
      then None
      else let row' = row\<lparr>sc_id := next_row_id (map sc_id (commands db))\<rparr>
           in Some (row', db\<lparr>commands := commands db @ [row']\<rparr>))"

text \<open>The clock, the fresh ids, and what others commit before the read and before the insert of each pass.\<close>

record enqueue_sched =
  es_now :: "nat \<Rightarrow> instant"
  es_command_id :: "nat \<Rightarrow> pystr"
  es_uuid :: pystr
  es_before :: "nat \<Rightarrow> cmd_db \<Rightarrow> cmd_db"
  es_between :: "nat \<Rightarrow> cmd_db \<Rightarrow> cmd_db"
  es_event_at :: instant

fun enqueue_passes ::
    "cmd_env \<Rightarrow> enqueue_sched \<Rightarrow> pystr \<Rightarrow> pystr option \<Rightarrow> command_request \<Rightarrow> nat \<Rightarrow> nat \<Rightarrow> cmd_db
     \<Rightarrow> (command_error + command_row \<times> bool) \<times> cmd_db" where
  "enqueue_passes env sch key text r 0 i db = (Inl NoSequence, db)"
| "enqueue_passes env sch key text r (Suc n) i db =
     (let db1 = es_before sch i db
      in case enqueue_read env (es_now sch i) (es_command_id sch i) key text r db1 of
           Inl e \<Rightarrow> (Inl e, db1)
         | Inr (Existing row) \<Rightarrow> (Inr (row, False), db1)
         | Inr (Fresh row) \<Rightarrow>
             let db2 = es_between sch i db1
             in case insert_command row db2 of
                  None \<Rightarrow> enqueue_passes env sch key text r n (Suc i) db2
                | Some (row', db3) \<Rightarrow> (Inr (row', True), db3))"

definition requested_event :: "cmd_env \<Rightarrow> instant \<Rightarrow> command_row \<Rightarrow> 'a event_db_scheme \<Rightarrow> 'a event_db_scheme" where
  "requested_event env now row =
     append_session_event (ce_session_lease env) now ''session_command_requested''
       (lit (sc_kind row) @ lit '' queued for session '' @ sc_session_id row) None (sc_session_id row)
       (JDict [(lit ''command_id'', JStr (sc_command_id row)), (lit ''kind'', JStr (lit (sc_kind row))),
               (lit ''status'', JStr (lit (sc_status row))), (lit ''result'', json_opt_str (sc_result row)),
               (lit ''operation_key'', JStr (sc_operation_key row))]) True"

definition enqueue ::
    "cmd_env \<Rightarrow> enqueue_sched \<Rightarrow> command_request \<Rightarrow> cmd_db \<Rightarrow> (command_error + command_row \<times> bool) \<times> cmd_db" where
  "enqueue env sch r db =
     (case bind_result (check_request r) (\<lambda>text.
             bind_result (operation_key_for (cr_session r) (cr_kind r) (cr_operation r) (es_uuid sch)) (\<lambda>key.
               Inr (text, key))) of
        Inl e \<Rightarrow> (Inl e, db)
      | Inr (text, key) \<Rightarrow>
          (case enqueue_passes env sch key text r SEQUENCE_ATTEMPTS 0 db of
             (Inr (row, True), db1) \<Rightarrow> (Inr (row, True), requested_event env (es_event_at sch) row db1)
           | (res, db1) \<Rightarrow> (res, db1)))"

section \<open>Claiming and settling\<close>

text \<open>A claim reads the row and its owner, then updates it if it is still requested.\<close>

definition claim_read ::
    "pystr \<Rightarrow> int option \<Rightarrow> pystr option \<Rightarrow> 'a cmd_db_scheme \<Rightarrow> command_error + int" where
  "claim_read cid runtime machine db =
     (case get_command db cid of
        None \<Rightarrow> Inl (UnknownCommand cid)
      | Some row \<Rightarrow>
          if \<not> command_owned_by row runtime machine then Inl (NotOwned (sc_runtime_id row))
          else Inr (sc_attempt row + 1))"

definition claimable :: "pystr \<Rightarrow> command_row \<Rightarrow> bool" where
  "claimable cid row \<longleftrightarrow> sc_command_id row = cid \<and> sc_status row = STATUS_REQUESTED"

definition claim_write ::
    "pystr \<Rightarrow> pystr \<Rightarrow> int \<Rightarrow> instant \<Rightarrow> instant \<Rightarrow> 'a cmd_db_scheme \<Rightarrow> command_row option \<times> 'a cmd_db_scheme" where
  "claim_write cid consumer attempt now expires db =
     (let db' = update_commands (claimable cid)
            (\<lambda>row. row\<lparr>sc_status := STATUS_DELIVERED, sc_claimed_by := Some (take CLAIMED_BY_CHARS consumer),
                       sc_claimed_at := Some now, sc_lease_expires_at := Some expires, sc_delivered_at := Some now,
                       sc_attempt := attempt, sc_updated_at := now\<rparr>) db
      in if rows_matching (claimable cid) (commands db) = 0 then (None, db) else (get_command db' cid, db'))"

text \<open>\<open>others\<close> is what is committed between the read and the update; a lease of 0 seconds is the default.\<close>

definition claim ::
    "cmd_env \<Rightarrow> (cmd_db \<Rightarrow> cmd_db) \<Rightarrow> instant \<Rightarrow> pystr \<Rightarrow> pystr \<Rightarrow> int option \<Rightarrow> int option \<Rightarrow> pystr option
     \<Rightarrow> cmd_db \<Rightarrow> (command_error + command_row option) \<times> cmd_db" where
  "claim env others now cid consumer lease runtime machine db =
     (case claim_read cid runtime machine db of
        Inl e \<Rightarrow> (Inl e, db)
      | Inr attempt \<Rightarrow>
          let held = (case lease of Some l \<Rightarrow> if l \<noteq> 0 then l else lease_seconds env | None \<Rightarrow> lease_seconds env);
              (row, db') = claim_write cid consumer attempt now (now + seconds held) (others db)
          in (Inr row, db'))"

text \<open>Settling reads the row (\<open>Some\<close> is the recorded outcome), then updates it if it is still held.\<close>

definition settle_read ::
    "pystr \<Rightarrow> pystr option \<Rightarrow> string \<Rightarrow> 'a cmd_db_scheme \<Rightarrow> command_error + command_row option" where
  "settle_read cid consumer status db =
     (if status \<notin> set TERMINAL_COMMANDS then Inl BadStatus
      else case get_command db cid of
             None \<Rightarrow> Inl (UnknownCommand cid)
           | Some row \<Rightarrow>
               if sc_status row \<in> set TERMINAL_COMMANDS then Inr (Some row)
               else if (case consumer of None \<Rightarrow> False
                        | Some c \<Rightarrow> sc_claimed_by row \<noteq> Some (take CLAIMED_BY_CHARS c))
               then Inl NotHeld
               else Inr None)"

definition settleable :: "pystr \<Rightarrow> pystr option \<Rightarrow> command_row \<Rightarrow> bool" where
  "settleable cid consumer row \<longleftrightarrow>
     sc_command_id row = cid \<and>
     (case consumer of
        Some c \<Rightarrow> sc_status row = STATUS_DELIVERED \<and> sc_claimed_by row = Some (take CLAIMED_BY_CHARS c)
      | None \<Rightarrow> sc_status row \<in> set OPEN_COMMANDS)"

definition settle_write ::
    "pystr \<Rightarrow> pystr option \<Rightarrow> string \<Rightarrow> pystr option \<Rightarrow> pystr option \<Rightarrow> instant \<Rightarrow> 'a cmd_db_scheme
     \<Rightarrow> bool \<times> 'a cmd_db_scheme" where
  "settle_write cid consumer status result error now db =
     (if rows_matching (settleable cid consumer) (commands db) = 0 then (False, db)
      else (True, update_commands (settleable cid consumer)
            (\<lambda>row. row\<lparr>sc_status := status, sc_result := result, sc_error := error, sc_completed_at := Some now,
                       sc_updated_at := now, sc_lease_expires_at := None\<rparr>) db))"

definition settled_event :: "cmd_env \<Rightarrow> instant \<Rightarrow> command_row \<Rightarrow> 'a event_db_scheme \<Rightarrow> 'a event_db_scheme" where
  "settled_event env now row =
     append_session_event (ce_session_lease env) now ''session_command_settled''
       (lit (sc_kind row) @ lit '' '' @ lit (sc_status row) @ lit '' for session '' @ sc_session_id row @
          (if text_given (sc_result row) then lit '' ('' @ the (sc_result row) @ lit '')'' else []))
       None (sc_session_id row)
       (JDict [(lit ''command_id'', JStr (sc_command_id row)), (lit ''kind'', JStr (lit (sc_kind row))),
               (lit ''status'', JStr (lit (sc_status row))), (lit ''result'', json_opt_str (sc_result row))])
       (sc_result row \<notin> Some ` {RESULT_SESSION_DORMANT, RESULT_SESSION_ENDED, RESULT_SUPERSEDED})"

text \<open>
  Settling up to its event. Bringing the Session to its end follows below; it does nothing for a
  command settled as cancelled.
\<close>

definition settle_command ::
    "cmd_env \<Rightarrow> (cmd_db \<Rightarrow> cmd_db) \<Rightarrow> instant \<Rightarrow> pystr \<Rightarrow> pystr option \<Rightarrow> string \<Rightarrow> pystr option \<Rightarrow> pystr option
     \<Rightarrow> cmd_db \<Rightarrow> (command_error + command_row \<times> bool) \<times> cmd_db" where
  "settle_command env others now cid consumer status result error db =
     (case settle_read cid consumer status db of
        Inl e \<Rightarrow> (Inl e, db)
      | Inr (Some row) \<Rightarrow> (Inr (row, False), db)
      | Inr None \<Rightarrow>
          (case settle_write cid consumer status result error now (others db) of
             (updated, db1) \<Rightarrow>
               (case get_command db1 cid of
                  None \<Rightarrow> (Inl (UnknownCommand cid), db1)
                | Some row \<Rightarrow>
                    if updated then (Inr (row, True), settled_event env now row db1)
                    else (Inr (row, False), db1))))"

section \<open>The end of a Session\<close>

definition cancel_open_for_session ::
    "cmd_env \<Rightarrow> instant \<Rightarrow> pystr \<Rightarrow> pystr \<Rightarrow> pystr \<Rightarrow> cmd_db \<Rightarrow> cmd_db" where
  "cancel_open_for_session env now sid reason result db =
     fold (\<lambda>cid d. snd (settle_command env (\<lambda>x. x) now cid None STATUS_CANCELLED (Some result) (Some reason) d))
       (map sc_command_id (filter (\<lambda>r. sc_session_id r = sid \<and> sc_status r \<in> set OPEN_COMMANDS) (commands db))) db"

text \<open>The active mailbox attachment of a Session is detached and its notifications fail.\<close>

definition fail_attachment_notifications ::
    "instant \<Rightarrow> int \<Rightarrow> pystr \<Rightarrow> bool \<Rightarrow> 'a cmd_db_scheme \<Rightarrow> 'a cmd_db_scheme" where
  "fail_attachment_notifications now attachment reason include_claimed db =
     db\<lparr>notifications :=
       update_where (\<lambda>n. mn_attachment_id n = attachment \<and>
            (mn_status n = ''queued'' \<or> include_claimed \<and> mn_status n = ''claimed''))
         (\<lambda>n. (if mn_status n = ''queued'' then n\<lparr>mn_attempt := 1, mn_started_at := Some now\<rparr> else n)
               \<lparr>mn_status := ''failed'', mn_error_code := Some reason, mn_completed_at := Some now\<rparr>)
         (notifications db)\<rparr>"

definition detach_session_mailbox ::
    "instant \<Rightarrow> pystr \<Rightarrow> pystr \<Rightarrow> 'a cmd_db_scheme \<Rightarrow> 'a cmd_db_scheme" where
  "detach_session_mailbox now sid reason db =
     (case find (\<lambda>a. ma_session_id a = sid \<and> ma_active a) (mail_attachments db) of
        None \<Rightarrow> db
      | Some a \<Rightarrow>
          (fail_attachment_notifications now (ma_id a) (lit ''attachment_detached'') True db)
          \<lparr>mail_attachments := update_where (\<lambda>b. ma_id b = ma_id a)
             (\<lambda>b. b\<lparr>ma_active := False, ma_detached_at := Some now,
                    ma_detach_reason := Some (take 64 (if reason = [] then lit ''session_ended'' else reason))\<rparr>)
             (mail_attachments db)\<rparr>)"

definition release_session_ownership :: "pystr \<Rightarrow> 'a cmd_db_scheme \<Rightarrow> 'a cmd_db_scheme" where
  "release_session_ownership sid db =
     db\<lparr>claims := filter (\<lambda>c. wc_session_id c \<noteq> sid) (claims db),
        tasks := update_where (\<lambda>t. tk_claimed_by t = Some sid \<and> tk_status t = ''in_progress'')
          (\<lambda>t. t\<lparr>tk_status := ''available'', tk_claimed_by := None, tk_claimed_at := None\<rparr>) (tasks db)\<rparr>"

definition TERMINAL_SESSION_STATES :: "string list" where
  "TERMINAL_SESSION_STATES = [''completed'', ''failed'']"

text \<open>The conditional stamp of \<open>finalize_session\<close> with what the ended Session held.\<close>

definition finalize_write ::
    "instant \<Rightarrow> string \<Rightarrow> pystr \<Rightarrow> session_row \<Rightarrow> 'a cmd_db_scheme \<Rightarrow> bool \<times> 'a cmd_db_scheme" where
  "finalize_write now state summary agent db =
     (case get_agent db (s_id agent) of
        Some row \<Rightarrow>
          if s_ended_at row = None
          then (True, release_session_ownership (s_id agent) (detach_session_mailbox now (s_id agent) (lit state)
                  (put_agent (row\<lparr>s_ended_at := Some now, s_state := state, s_summary := Some summary\<rparr>) db)))
          else (False, db)
      | None \<Rightarrow> (False, db))"

datatype session_error = BadSessionState | UnknownAgentSession pystr | AlreadyEnded pystr

definition finalize_session ::
    "cmd_env \<Rightarrow> instant \<Rightarrow> pystr \<Rightarrow> string \<Rightarrow> pystr \<Rightarrow> pystr option \<Rightarrow> cmd_db
     \<Rightarrow> (session_error + session_row option) \<times> cmd_db" where
  "finalize_session env now sid state summary cancel_reason db =
     (if state \<notin> set TERMINAL_SESSION_STATES then (Inl BadSessionState, db)
      else case get_agent db sid of
             None \<Rightarrow> (Inl (UnknownAgentSession sid), db)
           | Some agent \<Rightarrow>
               (case finalize_write now state summary agent db of
                  (False, db1) \<Rightarrow> (Inr None, cancel_open_for_session env now sid summary RESULT_SESSION_ENDED db1)
                | (True, db1) \<Rightarrow>
                    let reason = (case cancel_reason of Some (c # cs) \<Rightarrow> c # cs | _ \<Rightarrow> summary);
                        db2 = cancel_open_for_session env now sid reason RESULT_SESSION_ENDED db1
                    in (Inr (get_agent db1 sid),
                        append_session_event (ce_session_lease env) now ''session_finalized'' summary
                          (Some (s_workspace_id agent)) sid
                          (JDict [(lit ''state'', JStr (lit state)),
                                  (lit ''issue_id'', json_opt_int (s_issue_id agent))]) True db2)))"

definition proves_terminal :: "command_row \<Rightarrow> bool" where
  "proves_terminal row \<longleftrightarrow> sc_kind row = KIND_STOP \<and> sc_status row = STATUS_ACKNOWLEDGED \<and>
     (case sc_result row of None \<Rightarrow> False | Some r \<Rightarrow> r \<in> set STOP_PROVES_TERMINAL)"

definition synchronize_terminal_state :: "cmd_env \<Rightarrow> instant \<Rightarrow> command_row \<Rightarrow> cmd_db \<Rightarrow> cmd_db" where
  "synchronize_terminal_state env now row db =
     (if proves_terminal row
      then snd (finalize_session env now (sc_session_id row) ''failed''
             (lit ''stopped by operator request ('' @ sc_command_id row @ lit ''); the agent process was '' @ the (sc_result row))
             None db)
      else db)"

definition settle ::
    "cmd_env \<Rightarrow> (cmd_db \<Rightarrow> cmd_db) \<Rightarrow> instant \<Rightarrow> pystr \<Rightarrow> pystr option \<Rightarrow> string \<Rightarrow> pystr option \<Rightarrow> pystr option
     \<Rightarrow> cmd_db \<Rightarrow> (command_error + command_row) \<times> cmd_db" where
  "settle env others now cid consumer status result error db =
     (case settle_command env others now cid consumer status result error db of
        (Inl e, db1) \<Rightarrow> (Inl e, db1)
      | (Inr (row, True), db1) \<Rightarrow> (Inr row, synchronize_terminal_state env now row db1)
      | (Inr (row, False), db1) \<Rightarrow> (Inr row, db1))"

definition acknowledge ::
    "cmd_env \<Rightarrow> (cmd_db \<Rightarrow> cmd_db) \<Rightarrow> instant \<Rightarrow> pystr \<Rightarrow> pystr option \<Rightarrow> pystr \<Rightarrow> pystr option \<Rightarrow> bool
     \<Rightarrow> cmd_db \<Rightarrow> (command_error + command_row) \<times> cmd_db" where
  "acknowledge env others now cid consumer result error ok =
     settle env others now cid consumer (if ok then STATUS_ACKNOWLEDGED else STATUS_FAILED) (Some result) error"

section \<open>Giving a command back\<close>

definition held_by :: "pystr \<Rightarrow> pystr \<Rightarrow> command_row \<Rightarrow> bool" where
  "held_by cid consumer row \<longleftrightarrow>
     sc_command_id row = cid \<and> sc_status row = STATUS_DELIVERED \<and>
     sc_claimed_by row = Some (take CLAIMED_BY_CHARS consumer)"

definition release_command ::
    "instant \<Rightarrow> pystr \<Rightarrow> pystr \<Rightarrow> pystr option \<Rightarrow> 'a cmd_db_scheme \<Rightarrow> command_row option \<times> 'a cmd_db_scheme" where
  "release_command now cid consumer reason db =
     (let db' = update_commands (held_by cid consumer)
            (\<lambda>row. row\<lparr>sc_status := STATUS_REQUESTED, sc_claimed_by := None, sc_claimed_at := None,
                       sc_lease_expires_at := None, sc_delivered_at := None, sc_error := reason, sc_updated_at := now\<rparr>) db
      in if rows_matching (held_by cid consumer) (commands db) = 0 then (None, db) else (get_command db' cid, db'))"

text \<open>What \<open>expire_leases\<close> reads of a row in flight.\<close>

record lease_candidate =
  lc_command_id :: pystr
  lc_claimed_by :: "pystr option"
  lc_expires_at :: instant
  lc_attempt :: int

definition lease_candidates :: "'a cmd_db_scheme \<Rightarrow> lease_candidate list" where
  "lease_candidates db =
     concat (map (\<lambda>r. case sc_lease_expires_at r of
                        None \<Rightarrow> []
                      | Some t \<Rightarrow>
                          if sc_status r = STATUS_DELIVERED
                          then [\<lparr>lc_command_id = sc_command_id r, lc_claimed_by = sc_claimed_by r, lc_expires_at = t,
                                 lc_attempt = sc_attempt r\<rparr>]
                          else []) (commands db))"

definition still_leased :: "lease_candidate \<Rightarrow> command_row \<Rightarrow> bool" where
  "still_leased c row \<longleftrightarrow>
     sc_command_id row = lc_command_id c \<and> sc_status row = STATUS_DELIVERED \<and>
     sc_claimed_by row = lc_claimed_by c \<and> sc_lease_expires_at row = Some (lc_expires_at c)"

definition requeue_write :: "instant \<Rightarrow> lease_candidate \<Rightarrow> 'a cmd_db_scheme \<Rightarrow> 'a cmd_db_scheme" where
  "requeue_write moment c =
     update_commands (still_leased c)
       (\<lambda>row. row\<lparr>sc_status := STATUS_REQUESTED, sc_claimed_by := None, sc_claimed_at := None,
                  sc_lease_expires_at := None, sc_delivered_at := None, sc_result := None, sc_completed_at := None,
                  sc_error := Some (lit ''lease expired after attempt '' @ str_of_int (lc_attempt c) @ lit ''; requeued''),
                  sc_updated_at := moment\<rparr>)"

definition expired_candidates :: "instant \<Rightarrow> lease_candidate list \<Rightarrow> lease_candidate list" where
  "expired_candidates moment = filter (\<lambda>c. \<not> lc_expires_at c > moment)"

definition ABANDONED_ERROR :: "int \<Rightarrow> pystr" where
  "ABANDONED_ERROR limit = lit ''no consumer completed this command in '' @ str_of_int limit @
     lit '' attempts; the Runtime is not delivering it''"

definition expire_leases :: "cmd_env \<Rightarrow> instant \<Rightarrow> cmd_db \<Rightarrow> cmd_db" where
  "expire_leases env moment db =
     (let expired = expired_candidates moment (lease_candidates db); limit = max_attempts env;
          db1 = fold (requeue_write moment) (filter (\<lambda>c. lc_attempt c < limit) expired) db
      in fold (\<lambda>c d. snd (settle env (\<lambda>x. x) moment (lc_command_id c) None STATUS_FAILED (Some RESULT_ABANDONED)
                            (Some (ABANDONED_ERROR limit)) d))
           (filter (\<lambda>c. lc_attempt c \<ge> limit) expired) db1)"

section \<open>Reading the queue\<close>

definition list_for_session :: "pystr \<Rightarrow> nat \<Rightarrow> 'a cmd_db_scheme \<Rightarrow> command_row list" where
  "list_for_session sid limit db = take limit (session_commands db sid)"

definition listed_to :: "int option \<Rightarrow> pystr option \<Rightarrow> command_row \<Rightarrow> bool" where
  "listed_to runtime machine row \<longleftrightarrow>
     sc_status row = STATUS_REQUESTED \<and>
     (case runtime of
        Some i \<Rightarrow> sc_runtime_id row = Some i
      | None \<Rightarrow> sc_runtime_id row = None \<and>
          (case machine of None \<Rightarrow> True | Some m \<Rightarrow> sc_machine_id row = Some m))"

definition list_open_for_consumer ::
    "cmd_env \<Rightarrow> instant \<Rightarrow> int option \<Rightarrow> pystr option \<Rightarrow> nat \<Rightarrow> cmd_db \<Rightarrow> command_row list \<times> cmd_db" where
  "list_open_for_consumer env now runtime machine limit db =
     (let db' = expire_leases env now db
      in (take limit (sort_key sc_sequence (sort_key sc_id (filter (listed_to runtime machine) (commands db')))), db'))"

end
