(* ===== verification/SessionChannel.thy ===== *)
theory SessionChannel imports SessionCommands begin

text \<open>
  Models \<open>src/brains/exec/session_channel.py\<close>, the agent processes this process launched and what it
  can do to them, and \<open>src/brains/exec/session_dispatch.py\<close>, which claims queued commands of its own
  Sessions, performs them and settles them with what happened. A process is a handle with its life
  and its input; what the operating system answers to a signal or a write is a parameter.
\<close>

section \<open>Owned processes\<close>

datatype stdin_state = NoStdin | StdinClosed | StdinOpen

record agent_process =
  pr_pid :: int
  pr_alive :: bool
  pr_stdin :: stdin_state
  pr_written :: "pystr list"

record owned_process =
  op_session_id :: pystr
  op_handle :: nat
  op_tool :: pystr
  op_pid :: int
  op_stdin_open :: bool
  op_runtime_id :: "int option"

text \<open>The registry \<open>_OWNED\<close> and the processes behind the handles.\<close>

record channel =
  ch_owned :: "owned_process list"
  ch_process :: "nat \<Rightarrow> agent_process"

text \<open>How a termination ends: at once, after a kill, not at all, or with an error of the system.\<close>

datatype stop_answer = Terminates | NeedsKill | SurvivesKill | SignalFails pystr

record os_env =
  os_stop :: "pystr \<Rightarrow> stop_answer"
  os_write_error :: "pystr \<Rightarrow> pystr option"

definition process_of :: "channel \<Rightarrow> owned_process \<Rightarrow> agent_process" where
  "process_of ch own = ch_process ch (op_handle own)"

definition op_alive :: "channel \<Rightarrow> owned_process \<Rightarrow> bool" where
  "op_alive ch own = pr_alive (process_of ch own)"

definition identity_matches :: "channel \<Rightarrow> owned_process \<Rightarrow> bool" where
  "identity_matches ch own \<longleftrightarrow> pr_pid (process_of ch own) = op_pid own"

definition owned :: "channel \<Rightarrow> pystr \<Rightarrow> owned_process option" where
  "owned ch sid = (if sid = [] then None else row_by op_session_id sid (ch_owned ch))"

definition register_process ::
    "pystr \<Rightarrow> nat \<Rightarrow> pystr \<Rightarrow> bool \<Rightarrow> int option \<Rightarrow> channel \<Rightarrow> owned_process \<times> channel" where
  "register_process sid handle tool stdin_open runtime ch =
     (let own = \<lparr>op_session_id = sid, op_handle = handle, op_tool = tool, op_pid = pr_pid (ch_process ch handle),
               op_stdin_open = stdin_open, op_runtime_id = runtime\<rparr>
      in (own, ch\<lparr>ch_owned := (if row_by op_session_id sid (ch_owned ch) = None then ch_owned ch @ [own]
                             else update_where (\<lambda>x. op_session_id x = sid) (\<lambda>_. own) (ch_owned ch))\<rparr>))"

definition unregister :: "pystr \<Rightarrow> channel \<Rightarrow> channel" where
  "unregister sid ch = ch\<lparr>ch_owned := filter (\<lambda>x. op_session_id x \<noteq> sid) (ch_owned ch)\<rparr>"

definition owned_session_ids :: "channel \<Rightarrow> pystr list" where
  "owned_session_ids ch = sort (map op_session_id (filter (op_alive ch) (ch_owned ch)))"

definition owned_by_runtime :: "channel \<Rightarrow> int option \<Rightarrow> pystr list" where
  "owned_by_runtime ch runtime =
     sort (map op_session_id (filter (\<lambda>own. op_alive ch own \<and> op_runtime_id own = runtime) (ch_owned ch)))"

section \<open>Effects\<close>

definition RESULT_DELIVERED :: pystr where "RESULT_DELIVERED = lit ''delivered''"
definition RESULT_NOT_OWNED :: pystr where "RESULT_NOT_OWNED = lit ''not_owned''"
definition RESULT_WRITE_FAILED :: pystr where "RESULT_WRITE_FAILED = lit ''write_failed''"

record channel_outcome =
  co_ok :: bool
  co_result :: pystr
  co_error :: "pystr option"

definition not_owned_outcome :: channel_outcome where
  "not_owned_outcome = \<lparr>co_ok = False, co_result = RESULT_NOT_OWNED,
     co_error = Some (lit ''this Runtime does not own a process for the Session; it was started by another Runtime, or this Runtime restarted after launching it'')\<rparr>"

definition set_process :: "nat \<Rightarrow> agent_process \<Rightarrow> channel \<Rightarrow> channel" where
  "set_process h p ch = ch\<lparr>ch_process := (ch_process ch)(h := p)\<rparr>"

definition line_of :: "pystr \<Rightarrow> pystr" where
  "line_of text = (if text \<noteq> [] \<and> last text = 10 then text else text @ [10])"

definition deliver_message :: "cmd_env \<Rightarrow> os_env \<Rightarrow> pystr \<Rightarrow> pystr \<Rightarrow> channel \<Rightarrow> channel_outcome \<times> channel" where
  "deliver_message env os sid text ch =
     (case owned ch sid of
        None \<Rightarrow> (not_owned_outcome, ch)
      | Some own \<Rightarrow>
          let p = process_of ch own
          in if \<not> supports_message env (op_tool own) \<or> \<not> op_stdin_open own
             then (\<lparr>co_ok = False, co_result = RESULT_UNSUPPORTED, co_error = message_capability env (op_tool own)\<rparr>, ch)
             else if \<not> pr_alive p
             then (\<lparr>co_ok = False, co_result = RESULT_ALREADY_EXITED,
                    co_error = Some (lit ''the agent process has already exited'')\<rparr>, ch)
             else if pr_stdin p \<noteq> StdinOpen
             then (\<lparr>co_ok = False, co_result = RESULT_UNSUPPORTED,
                    co_error = Some (lit ''the agent process has no open input channel'')\<rparr>, ch)
             else (case os_write_error os sid of
                     Some why \<Rightarrow>
                       (\<lparr>co_ok = False, co_result = RESULT_WRITE_FAILED,
                         co_error = Some (lit ''writing to the agent failed: '' @ why)\<rparr>, ch)
                   | None \<Rightarrow>
                       (\<lparr>co_ok = True, co_result = RESULT_DELIVERED, co_error = None\<rparr>,
                        set_process (op_handle own) (p\<lparr>pr_written := pr_written p @ [line_of text]\<rparr>) ch)))"

text \<open>\<open>None\<close>: a process that survives the kill raises \<open>TimeoutExpired\<close>.\<close>

definition stop_session :: "os_env \<Rightarrow> pystr \<Rightarrow> channel \<Rightarrow> channel_outcome option \<times> channel" where
  "stop_session os sid ch =
     (case owned ch sid of
        None \<Rightarrow> (Some not_owned_outcome, ch)
      | Some own \<Rightarrow>
          let p = process_of ch own;
              dead = set_process (op_handle own) (p\<lparr>pr_alive := False\<rparr>) ch
          in if \<not> identity_matches ch own
             then (Some \<lparr>co_ok = False, co_result = RESULT_NOT_OWNED,
                         co_error = Some (lit ''the recorded process identity no longer matches the handle'')\<rparr>, ch)
             else if \<not> pr_alive p
             then (Some \<lparr>co_ok = True, co_result = RESULT_ALREADY_EXITED, co_error = None\<rparr>, unregister sid ch)
             else (case os_stop os sid of
                     SignalFails why \<Rightarrow>
                       (Some \<lparr>co_ok = False, co_result = RESULT_WRITE_FAILED,
                              co_error = Some (lit ''stopping the agent failed: '' @ why)\<rparr>, ch)
                   | SurvivesKill \<Rightarrow> (None, ch)
                   | _ \<Rightarrow> (Some \<lparr>co_ok = True, co_result = RESULT_STOPPED, co_error = None\<rparr>, unregister sid dead)))"

section \<open>Dispatch\<close>

definition command_text :: "command_row \<Rightarrow> pystr" where
  "command_text row = (case map_of (sc_payload row) (lit ''text'') of Some (JStr t) \<Rightarrow> t | _ \<Rightarrow> [])"

definition execute_command :: "cmd_env \<Rightarrow> os_env \<Rightarrow> command_row \<Rightarrow> channel \<Rightarrow> channel_outcome option \<times> channel" where
  "execute_command env os row ch =
     (if sc_kind row = KIND_STOP then stop_session os (sc_session_id row) ch
      else if sc_kind row = KIND_MESSAGE
      then (let (out, ch') = deliver_message env os (sc_session_id row) (command_text row) ch in (Some out, ch'))
      else (Some \<lparr>co_ok = False, co_result = lit ''unsupported'',
                  co_error = Some (lit ''no delivery is defined for a '' @ lit (sc_kind row) @ lit '' command'')\<rparr>, ch))"

definition settle_outcome ::
    "cmd_env \<Rightarrow> instant \<Rightarrow> pystr \<Rightarrow> channel_outcome \<Rightarrow> pystr \<Rightarrow> cmd_db \<Rightarrow> (command_error + command_row) \<times> cmd_db" where
  "settle_outcome env now cid out consumer =
     acknowledge env (\<lambda>x. x) now cid (Some consumer) (co_result out) (co_error out) (co_ok out)"

definition release_foreign :: "instant \<Rightarrow> command_row \<Rightarrow> pystr \<Rightarrow> cmd_db \<Rightarrow> cmd_db" where
  "release_foreign now row consumer db =
     snd (release_command now (sc_command_id row) consumer
       (Some (lit ''claimed by a consumer that does not own this Session; requeued for its owner'')) db)"

datatype dispatch_error = QueueError command_error | ProcessStuck

text \<open>The commands read for one Session, in turn; an exception ends the dispatch.\<close>

fun dispatch_commands ::
    "cmd_env \<Rightarrow> os_env \<Rightarrow> instant \<Rightarrow> pystr \<Rightarrow> pystr option \<Rightarrow> command_row list \<Rightarrow> cmd_db \<times> channel
     \<Rightarrow> (dispatch_error + command_row list) \<times> cmd_db \<times> channel" where
  "dispatch_commands env os now consumer machine [] (db, ch) = (Inr [], db, ch)"
| "dispatch_commands env os now consumer machine (row # rows) (db, ch) =
     (if sc_status row \<noteq> STATUS_REQUESTED \<or> \<not> command_owned_by row None machine
      then dispatch_commands env os now consumer machine rows (db, ch)
      else case claim env (\<lambda>x. x) now (sc_command_id row) consumer None None machine db of
             (Inl (NotOwned r), db1) \<Rightarrow> dispatch_commands env os now consumer machine rows (db1, ch)
           | (Inl e, db1) \<Rightarrow> (Inl (QueueError e), db1, ch)
           | (Inr None, db1) \<Rightarrow> dispatch_commands env os now consumer machine rows (db1, ch)
           | (Inr (Some claimed), db1) \<Rightarrow>
               if \<not> command_owned_by claimed None machine
               then dispatch_commands env os now consumer machine rows (release_foreign now claimed consumer db1, ch)
               else (case execute_command env os claimed ch of
                       (None, ch1) \<Rightarrow> (Inl ProcessStuck, db1, ch1)
                     | (Some out, ch1) \<Rightarrow>
                         (case settle_outcome env now (sc_command_id claimed) out consumer db1 of
                            (Inl e, db2) \<Rightarrow> (Inl (QueueError e), db2, ch1)
                          | (Inr settled, db2) \<Rightarrow>
                              (case dispatch_commands env os now consumer machine rows (db2, ch1) of
                                 (Inl e, st) \<Rightarrow> (Inl e, st)
                               | (Inr rest, st) \<Rightarrow> (Inr (settled # rest), st)))))"

fun dispatch_sessions ::
    "cmd_env \<Rightarrow> os_env \<Rightarrow> instant \<Rightarrow> pystr \<Rightarrow> pystr option \<Rightarrow> nat \<Rightarrow> pystr list \<Rightarrow> cmd_db \<times> channel
     \<Rightarrow> (dispatch_error + command_row list) \<times> cmd_db \<times> channel" where
  "dispatch_sessions env os now consumer machine limit [] st = (Inr [], st)"
| "dispatch_sessions env os now consumer machine limit (sid # sids) st =
     (case dispatch_commands env os now consumer machine (list_for_session sid limit (fst st)) st of
        (Inl e, st1) \<Rightarrow> (Inl e, st1)
      | (Inr settled, st1) \<Rightarrow>
          (case dispatch_sessions env os now consumer machine limit sids st1 of
             (Inl e, st2) \<Rightarrow> (Inl e, st2)
           | (Inr rest, st2) \<Rightarrow> (Inr (settled @ rest), st2)))"

definition dispatch_owned ::
    "cmd_env \<Rightarrow> os_env \<Rightarrow> instant \<Rightarrow> pystr \<Rightarrow> pystr option \<Rightarrow> pystr option \<Rightarrow> nat \<Rightarrow> cmd_db \<times> channel
     \<Rightarrow> (dispatch_error + command_row list) \<times> cmd_db \<times> channel" where
  "dispatch_owned env os now consumer machine session limit st =
     dispatch_sessions env os now consumer machine limit
       (filter (\<lambda>sid. case session of None \<Rightarrow> True | Some s \<Rightarrow> sid = s) (owned_session_ids (snd st))) st"

end
