(* ===== verification/SessionEnds.thy ===== *)
theory SessionEnds imports SessionCommands begin

text \<open>
  Models the ways of \<open>src/brains/control/sessions.py\<close> to bring a Session to an end beside
  \<open>finalize_session\<close>: its own report, the reaper of crashed Sessions, the sweep of expired
  coordination leases, and the reconciliation of a Runtime that lost its processes. The last touch
  of a Workspace is kept as its time and summary.
\<close>

definition SESSION_STATES :: "string list" where
  "SESSION_STATES = [''spawning'', ''running'', ''blocked'', ''completed'', ''failed'']"

section \<open>A state reported for a Session\<close>

definition set_state_write ::
    "instant \<Rightarrow> pystr \<Rightarrow> string \<Rightarrow> pystr option \<Rightarrow> 'a cmd_db_scheme \<Rightarrow> session_error + 'a cmd_db_scheme" where
  "set_state_write now sid state summary db =
     (case get_agent db sid of
        None \<Rightarrow> Inl (UnknownAgentSession sid)
      | Some row \<Rightarrow>
          let final = (state \<in> set TERMINAL_SESSION_STATES);
              leave = (\<lambda>d. if final then release_session_ownership sid (detach_session_mailbox now sid (lit state) d) else d)
          in if terminal_or_ended row
             then (if \<not> final \<or> s_state row \<noteq> state then Inl (AlreadyEnded sid) else Inr (leave db))
             else Inr (leave (put_agent
                    (row\<lparr>s_state := state, s_summary := (if summary = None then s_summary row else summary),
                         s_ended_at := (if final then Some now else s_ended_at row)\<rparr>) db)))"

definition set_session_state ::
    "cmd_env \<Rightarrow> instant \<Rightarrow> pystr \<Rightarrow> string \<Rightarrow> pystr option \<Rightarrow> cmd_db
     \<Rightarrow> (session_error + session_row option) \<times> cmd_db" where
  "set_session_state env now sid state summary db =
     (if state \<notin> set SESSION_STATES then (Inl BadSessionState, db)
      else case set_state_write now sid state summary db of
             Inl e \<Rightarrow> (Inl e, db)
           | Inr db1 \<Rightarrow>
               (Inr (get_agent db1 sid),
                if state \<in> set TERMINAL_SESSION_STATES
                then cancel_open_for_session env now sid
                       (lit ''the Session reached '' @ lit state @ lit '' before the command was delivered'')
                       RESULT_SESSION_ENDED db1
                else db1))"

section \<open>A Session ends\<close>

definition end_write ::
    "instant \<Rightarrow> pystr \<Rightarrow> pystr \<Rightarrow> 'a cmd_db_scheme \<Rightarrow> session_error + session_row \<times> 'a cmd_db_scheme" where
  "end_write now sid summary db =
     (case get_agent db sid of
        None \<Rightarrow> Inl (UnknownAgentSession sid)
      | Some row \<Rightarrow>
          if s_ended_at row \<noteq> None then Inl (AlreadyEnded sid)
          else
            let ended = row\<lparr>s_ended_at := Some now, s_summary := Some summary,
                            s_state := (if s_state row \<in> set TERMINAL_SESSION_STATES then s_state row else ''completed'')\<rparr>;
                db1 = put_agent ended db;
                ws = s_workspace_id row;
                db2 = db1\<lparr>workspace_touches := (ws, now, summary) # filter (\<lambda>t. fst t \<noteq> ws) (workspace_touches db1)\<rparr>
            in Inr (ended, release_session_ownership sid (detach_session_mailbox now sid (lit ''session_ended'') db2)))"

definition end_session ::
    "cmd_env \<Rightarrow> instant \<Rightarrow> pystr \<Rightarrow> pystr \<Rightarrow> cmd_db \<Rightarrow> (session_error + unit) \<times> cmd_db" where
  "end_session env now sid summary db =
     (case end_write now sid summary db of
        Inl e \<Rightarrow> (Inl e, db)
      | Inr (row, db1) \<Rightarrow>
          let db2 = append_session_event (ce_session_lease env) now ''session_end''
                (if summary = [] then lit ''(no summary)'' else summary) (Some (s_workspace_id row)) sid (JDict []) True db1
          in (Inr (), cancel_open_for_session env now sid (lit ''the Session ended before the command was delivered'')
                        RESULT_SESSION_ENDED db2))"

section \<open>Crashed Sessions\<close>

definition STALE_SESSION_TTL_SECONDS :: int where "STALE_SESSION_TTL_SECONDS = 1800"

text \<open>
  Whether the reaper takes a Session, and its note: a process-bound Session of another machine that
  went quiet, or one of this machine whose process is dead and that went quiet.
\<close>

definition reap_foreign :: "instant \<Rightarrow> pystr \<Rightarrow> session_row \<Rightarrow> pystr option" where
  "reap_foreign cutoff machine row =
     (case s_last_activity_at row of
        None \<Rightarrow> None
      | Some t \<Rightarrow>
          if t \<ge> cutoff then None
          else Some (lit ''zombie reaped: foreign machine '' @ machine @ lit '' stale for >'' @
                     str_of_int STALE_SESSION_TTL_SECONDS @ lit ''s''))"

definition reap_local :: "(int \<Rightarrow> bool) \<Rightarrow> instant \<Rightarrow> session_row \<Rightarrow> pystr option" where
  "reap_local alive cutoff row =
     (case s_pid row of
        None \<Rightarrow> None
      | Some pid \<Rightarrow>
          if pid \<le> 0 \<or> alive pid then None
          else if (case s_last_activity_at row of None \<Rightarrow> s_started_at row | Some t \<Rightarrow> t) \<ge> cutoff then None
          else Some (lit ''zombie reaped: pid '' @ str_of_int pid @ lit '' dead and no activity for >'' @
                     str_of_int STALE_SESSION_TTL_SECONDS @ lit ''s''))"

definition reap_note :: "pystr \<Rightarrow> (int \<Rightarrow> bool) \<Rightarrow> instant \<Rightarrow> session_row \<Rightarrow> pystr option" where
  "reap_note machine alive now row =
     (let cutoff = now - seconds STALE_SESSION_TTL_SECONDS
      in if s_ended_at row \<noteq> None then None
         else if s_pid row = None \<and> s_runtime_id row = None \<and> s_issue_id row = None \<and> s_persona_id row = None then None
         else case s_machine_id row of
                Some m \<Rightarrow> if m \<noteq> [] \<and> m \<noteq> machine then reap_foreign cutoff m row else reap_local alive cutoff row
              | None \<Rightarrow> reap_local alive cutoff row)"

definition reaped_row :: "instant \<Rightarrow> pystr \<Rightarrow> session_row \<Rightarrow> session_row" where
  "reaped_row now note row =
     row\<lparr>s_ended_at := Some now,
         s_state := (if s_state row \<in> set TERMINAL_SESSION_STATES then s_state row else ''failed''),
         s_summary := Some (case s_summary row of
                              Some (c # cs) \<Rightarrow> strip ((c # cs) @ 10 # note)
                            | _ \<Rightarrow> note)\<rparr>"

text \<open>The open commands of a reaped Session stay as they are.\<close>

definition reap_write :: "pystr \<Rightarrow> (int \<Rightarrow> bool) \<Rightarrow> instant \<Rightarrow> cmd_db \<Rightarrow> session_row list \<times> cmd_db" where
  "reap_write machine alive now db =
     (let reaped = filter (\<lambda>r. reap_note machine alive now r \<noteq> None) (sessions (lbase db))
      in (reaped,
          fold (\<lambda>row d. release_session_ownership (s_id row) (detach_session_mailbox now (s_id row) (lit ''reaped'')
                  (put_agent (reaped_row now (the (reap_note machine alive now row)) row) d))) reaped db))"

definition reap_zombie_sessions ::
    "cmd_env \<Rightarrow> pystr \<Rightarrow> (int \<Rightarrow> bool) \<Rightarrow> instant \<Rightarrow> cmd_db \<Rightarrow> pystr list \<times> cmd_db" where
  "reap_zombie_sessions env machine alive now db =
     (let (reaped, db1) = reap_write machine alive now db
      in (map s_id reaped,
          fold (\<lambda>row. append_session_event (ce_session_lease env) now ''session_reaped''
                  (lit ''zombie session reaped: '' @ s_id row) (Some (s_workspace_id row)) (s_id row) (JDict []) True)
            reaped db1))"

section \<open>Expired coordination leases\<close>

definition goes_dormant :: "instant \<Rightarrow> 'a live_db_scheme \<Rightarrow> session_row \<Rightarrow> bool" where
  "goes_dormant now db row \<longleftrightarrow> leasable row \<and> s_state row \<noteq> ''dormant'' \<and>
     (case get_lease db (s_id row) of None \<Rightarrow> False | Some l \<Rightarrow> sl_expires_at l < now)"

definition cancel_dormant :: "instant \<Rightarrow> pystr \<Rightarrow> 'a cmd_db_scheme \<Rightarrow> 'a cmd_db_scheme" where
  "cancel_dormant now sid =
     update_commands (\<lambda>r. sc_session_id r = sid \<and> sc_status r \<in> set OPEN_COMMANDS)
       (\<lambda>r. r\<lparr>sc_status := STATUS_CANCELLED, sc_result := Some RESULT_SESSION_DORMANT,
              sc_error := Some (lit ''the coordination Session lease expired before the command was delivered''),
              sc_completed_at := Some now, sc_updated_at := now, sc_lease_expires_at := None\<rparr>)"

definition dormant_step :: "instant \<Rightarrow> session_row \<Rightarrow> cmd_db \<Rightarrow> cmd_db" where
  "dormant_step now row db =
     add_event now (s_workspace_id row) (Some (s_id row)) (lit ''session_dormant'')
       (lit ''coordination session lease expired'') (JDict []) ''session''
       (cancel_dormant now (s_id row)
         (detach_session_mailbox now (s_id row) (lit ''lease_expired'')
           (release_session_ownership (s_id row) (put_agent (row\<lparr>s_state := ''dormant''\<rparr>) db))))"

definition sweep_stale_session_leases :: "instant \<Rightarrow> cmd_db \<Rightarrow> pystr list \<times> cmd_db" where
  "sweep_stale_session_leases now db =
     (let stale = filter (goes_dormant now db) (sessions (lbase db))
      in (map s_id stale, fold (dormant_step now) stale db))"

section \<open>Sessions a Runtime no longer owns\<close>

definition RECONCILE_GRACE_SECONDS :: int where "RECONCILE_GRACE_SECONDS = 90"

definition reconcile_candidates ::
    "pystr option \<Rightarrow> pystr set \<Rightarrow> int option \<Rightarrow> instant \<Rightarrow> 'a live_db_scheme \<Rightarrow> pystr list" where
  "reconcile_candidates machine owned runtime cutoff db =
     map s_id (filter (\<lambda>r. s_ended_at r = None \<and>
         (case runtime of Some i \<Rightarrow> s_runtime_id r = Some i | None \<Rightarrow> s_machine_id r = machine) \<and>
         s_id r \<notin> owned \<and> \<not> s_started_at r > cutoff) (sessions (lbase db)))"

definition reconcile_summary :: "pystr option \<Rightarrow> int option \<Rightarrow> pystr option \<Rightarrow> pystr" where
  "reconcile_summary machine runtime reason =
     (case reason of
        Some (c # cs) \<Rightarrow> c # cs
      | _ \<Rightarrow> lit ''reconciled on '' @
          (case runtime of Some i \<Rightarrow> lit ''runtime '' @ str_of_int i
                         | None \<Rightarrow> lit ''machine '' @ (case machine of Some m \<Rightarrow> m | None \<Rightarrow> lit ''None'')) @
          lit '': the Runtime does not own an agent process for this Session, so its outcome is unknown'')"

definition reconcile_machine_sessions ::
    "cmd_env \<Rightarrow> instant \<Rightarrow> pystr option \<Rightarrow> pystr set \<Rightarrow> int option \<Rightarrow> pystr option \<Rightarrow> int \<Rightarrow> cmd_db \<Rightarrow> cmd_db" where
  "reconcile_machine_sessions env now machine owned runtime reason grace db =
     (if runtime = None \<and> (machine = None \<or> machine = Some []) then db
      else fold (\<lambda>sid d. snd (finalize_session env now sid ''failed'' (reconcile_summary machine runtime reason) None d))
             (reconcile_candidates machine owned runtime (now - seconds (max 0 grace)) db) db)"

end
