(* ===== verification/CommandSteps.thy ===== *)
theory CommandSteps imports SessionEnds "HOL-Library.Sublist" begin

text \<open>
  Every interleaving of the transactions that write the command queue. A write commits on the store
  of the moment with what its operation read from some earlier store, so a run is a history of
  stores, newest first. The theory shows what each write does to a command, the invariant
  \<open>queue_ok\<close>, and that the operations of the queue and the ends of a Session are runs.
\<close>

section \<open>What the queue keeps\<close>

definition same_command :: "command_row \<Rightarrow> command_row \<Rightarrow> bool" where
  "same_command r r' \<longleftrightarrow>
     sc_id r' = sc_id r \<and> sc_command_id r' = sc_command_id r \<and> sc_operation_key r' = sc_operation_key r \<and>
     sc_session_id r' = sc_session_id r \<and> sc_sequence r' = sc_sequence r \<and> sc_kind r' = sc_kind r \<and>
     sc_payload r' = sc_payload r \<and> sc_org_id r' = sc_org_id r \<and> sc_workspace_id r' = sc_workspace_id r \<and>
     sc_runtime_id r' = sc_runtime_id r \<and> sc_machine_id r' = sc_machine_id r \<and>
     sc_requested_by r' = sc_requested_by r \<and> sc_created_at r' = sc_created_at r"

definition command_later :: "command_row \<Rightarrow> command_row \<Rightarrow> bool" where
  "command_later r r' \<longleftrightarrow> same_command r r' \<and> (sc_status r \<in> set TERMINAL_COMMANDS \<longrightarrow> r' = r)"

definition rows_later :: "command_row list \<Rightarrow> command_row list \<Rightarrow> bool" where
  "rows_later rs rs' \<longleftrightarrow> (\<exists>xs ys. rs' = xs @ ys \<and> list_all2 command_later rs xs)"

abbreviation queue_later :: "cmd_db \<Rightarrow> cmd_db \<Rightarrow> bool" where
  "queue_later db db' \<equiv> rows_later (commands db) (commands db')"

definition command_ok :: "command_row \<Rightarrow> bool" where
  "command_ok r \<longleftrightarrow>
     sc_kind r \<in> set KINDS \<and> sc_status r \<in> set OPEN_COMMANDS \<union> set TERMINAL_COMMANDS \<and>
     (sc_status r = STATUS_REQUESTED \<longrightarrow> sc_claimed_by r = None \<and> sc_claimed_at r = None \<and> sc_delivered_at r = None) \<and>
     (sc_status r = STATUS_DELIVERED \<longrightarrow> sc_claimed_by r \<noteq> None \<and> sc_claimed_at r \<noteq> None \<and> sc_delivered_at r \<noteq> None) \<and>
     (sc_lease_expires_at r \<noteq> None \<longleftrightarrow> sc_status r = STATUS_DELIVERED) \<and>
     (sc_completed_at r \<noteq> None \<longleftrightarrow> sc_status r \<in> set TERMINAL_COMMANDS) \<and>
     (sc_status r \<in> set OPEN_COMMANDS \<longrightarrow> sc_result r = None)"

definition of_session :: "pystr \<Rightarrow> command_row list \<Rightarrow> command_row list" where
  "of_session sid = filter (\<lambda>r. sc_session_id r = sid)"

definition queue_ok :: "'a cmd_db_scheme \<Rightarrow> bool" where
  "queue_ok db \<longleftrightarrow>
     distinct (map sc_command_id (commands db)) \<and> distinct (map sc_operation_key (commands db)) \<and>
     (\<forall>sid. map sc_sequence (of_session sid (commands db)) = map int [1..<Suc (length (of_session sid (commands db)))]) \<and>
     (\<forall>r\<in>set (commands db). command_ok r)"

section \<open>The writes\<close>

datatype cmd_action =
    Queued pystr
  | Granted pystr pystr
  | Settled pystr "pystr option" string
  | Returned pystr pystr
  | Requeued pystr instant
  | SweptDormant pystr
  | Elsewhere

text \<open>A write of the queue on \<open>db\<close>, with what its operation read from one of the stores \<open>seen\<close>.\<close>

inductive cmd_write :: "cmd_db set \<Rightarrow> cmd_action \<Rightarrow> cmd_db \<Rightarrow> cmd_db \<Rightarrow> bool" for seen where
  queues: "\<lbrakk>d \<in> seen; check_request r = Inr text;
      operation_key_for (cr_session r) (cr_kind r) (cr_operation r) uuid = Inr key;
      enqueue_read env now cid key text r d = Inr (Fresh row); insert_command row db = Some (row', db')\<rbrakk> \<Longrightarrow>
    cmd_write seen (Queued cid) db db'"
| grants: "\<lbrakk>d \<in> seen; claim_read cid runtime machine d = Inr attempt;
      claim_write cid consumer attempt now expires db = (Some row, db')\<rbrakk> \<Longrightarrow>
    cmd_write seen (Granted cid (take CLAIMED_BY_CHARS consumer)) db db'"
| settles: "\<lbrakk>d \<in> seen; settle_read cid consumer status d = Inr None;
      settle_write cid consumer status result error now db = (True, db')\<rbrakk> \<Longrightarrow>
    cmd_write seen (Settled cid (map_option (take CLAIMED_BY_CHARS) consumer) status) db db'"
| returns: "release_command now cid consumer reason db = (Some row, db') \<Longrightarrow>
    cmd_write seen (Returned cid (take CLAIMED_BY_CHARS consumer)) db db'"
| requeues: "\<lbrakk>d \<in> seen; c \<in> set (expired_candidates moment (lease_candidates d))\<rbrakk> \<Longrightarrow>
    cmd_write seen (Requeued (lc_command_id c) moment) db (requeue_write moment c db)"
| sweeps: "cmd_write seen (SweptDormant sid) db (cancel_dormant now sid db)"
| elsewhere: "commands db' = commands db \<Longrightarrow> cmd_write seen Elsewhere db db'"

inductive cmd_run :: "cmd_db list \<Rightarrow> bool" where
  empty_queue: "commands db = [] \<Longrightarrow> cmd_run [db]"
| writes: "\<lbrakk>cmd_run (db # hist); cmd_write (set (db # hist)) a db db'\<rbrakk> \<Longrightarrow> cmd_run (db' # db # hist)"

inductive_cases cmd_run_Nil: "cmd_run []"

lemma cmd_run_not_Nil [simp]: "\<not> cmd_run []"
  by (auto elim: cmd_run_Nil)

section \<open>Order of rows\<close>

lemma same_command_refl [simp]: "same_command r r"
  by (simp add: same_command_def)

lemma command_later_refl [simp]: "command_later r r"
  by (simp add: command_later_def)

lemma command_later_trans: "\<lbrakk>command_later r s; command_later s t\<rbrakk> \<Longrightarrow> command_later r t"
  by (auto simp: command_later_def same_command_def)

lemma rows_later_refl [simp]: "rows_later rs rs"
  unfolding rows_later_def by (intro exI[of _ rs] exI[of _ "[]"]) (simp add: list_all2_refl)

lemma rows_later_trans:
  assumes "rows_later as bs" "rows_later bs cs" shows "rows_later as cs"
proof -
  obtain xs ys where b: "bs = xs @ ys" "list_all2 command_later as xs" using assms(1) by (auto simp: rows_later_def)
  obtain us vs where c: "cs = us @ vs" "list_all2 command_later (xs @ ys) us"
    using assms(2) b(1) by (auto simp: rows_later_def)
  obtain u1 u2 where u: "us = u1 @ u2" "list_all2 command_later xs u1"
    using c(2) by (auto simp: list_all2_append1)
  have "list_all2 command_later as u1"
    using b(2) u(2) command_later_trans by (rule list_all2_trans[rotated]) 
  then show ?thesis using c(1) u(1) by (auto simp: rows_later_def)
qed

lemma rows_later_append [simp]: "rows_later rs (rs @ ys)"
  unfolding rows_later_def by (intro exI[of _ rs] exI[of _ ys]) (simp add: list_all2_refl)

lemma rows_later_update:
  assumes "\<And>r. r \<in> set rs \<Longrightarrow> P r \<Longrightarrow> command_later r (f r)"
  shows "rows_later rs (update_where P f rs)"
proof -
  have "list_all2 command_later rs (update_where P f rs)"
    using assms by (induction rs) auto
  then show ?thesis unfolding rows_later_def by (intro exI[of _ "update_where P f rs"] exI[of _ "[]"]) simp
qed

lemma rows_later_mem:
  assumes "rows_later rs rs'" "r \<in> set rs" obtains r' where "r' \<in> set rs'" "command_later r r'"
proof -
  obtain xs ys where "rs' = xs @ ys" "list_all2 command_later rs xs" using assms(1) by (auto simp: rows_later_def)
  moreover obtain i where "i < length rs" "r = rs ! i" using assms(2) by (auto simp: in_set_conv_nth)
  ultimately have "command_later r (xs ! i)" "xs ! i \<in> set rs'" by (auto simp: list_all2_conv_all_nth)
  then show ?thesis by (rule that[rotated])
qed

lemma rows_later_of_session:
  assumes "rows_later rs rs'" shows "rows_later (of_session sid rs) (of_session sid rs')"
proof -
  obtain xs ys where x: "rs' = xs @ ys" "list_all2 command_later rs xs" using assms by (auto simp: rows_later_def)
  have "list_all2 command_later (of_session sid rs) (of_session sid xs)"
    using x(2) by (induction rule: list_all2_induct) (auto simp: of_session_def command_later_def same_command_def)
  then show ?thesis using x(1) by (auto simp: rows_later_def of_session_def)
qed

lemma rows_later_length: "rows_later rs rs' \<Longrightarrow> length rs \<le> length rs'"
  by (auto simp: rows_later_def dest: list_all2_lengthD)

section \<open>What a write does to a command\<close>

lemma command_ok_open: "command_ok r \<Longrightarrow> sc_status r \<notin> set OPEN_COMMANDS \<Longrightarrow> sc_status r \<in> set TERMINAL_COMMANDS"
  by (auto simp: command_ok_def)

lemma open_not_terminal: "s \<in> set OPEN_COMMANDS \<Longrightarrow> s \<notin> set TERMINAL_COMMANDS"
  by (auto simp: status_defs)

lemma status_kinds [simp]:
  "STATUS_REQUESTED \<in> set OPEN_COMMANDS" "STATUS_DELIVERED \<in> set OPEN_COMMANDS"
  "STATUS_REQUESTED \<notin> set TERMINAL_COMMANDS" "STATUS_DELIVERED \<notin> set TERMINAL_COMMANDS"
  "STATUS_ACKNOWLEDGED \<in> set TERMINAL_COMMANDS" "STATUS_FAILED \<in> set TERMINAL_COMMANDS"
  "STATUS_CANCELLED \<in> set TERMINAL_COMMANDS" "STATUS_ACKNOWLEDGED \<notin> set OPEN_COMMANDS"
  "STATUS_FAILED \<notin> set OPEN_COMMANDS" "STATUS_CANCELLED \<notin> set OPEN_COMMANDS"
  "STATUS_REQUESTED \<noteq> STATUS_DELIVERED" "STATUS_DELIVERED \<noteq> STATUS_REQUESTED"
  "STATUS_CANCELLED \<noteq> STATUS_REQUESTED" "STATUS_CANCELLED \<noteq> STATUS_DELIVERED"
  "STATUS_ACKNOWLEDGED \<noteq> STATUS_REQUESTED" "STATUS_FAILED \<noteq> STATUS_REQUESTED"
  by (simp_all add: status_defs)

lemma terminal_not_open:
  "s \<in> set TERMINAL_COMMANDS \<Longrightarrow> s \<notin> set OPEN_COMMANDS \<and> s \<noteq> STATUS_REQUESTED \<and> s \<noteq> STATUS_DELIVERED"
  by (auto simp: status_defs)

text \<open>An update that keeps the identity of open commands and leaves well-formed rows.\<close>

definition row_update :: "(command_row \<Rightarrow> bool) \<Rightarrow> (command_row \<Rightarrow> command_row) \<Rightarrow> bool" where
  "row_update P f \<longleftrightarrow> (\<forall>r. P r \<longrightarrow> sc_status r \<in> set OPEN_COMMANDS \<and> same_command r (f r) \<and> (command_ok r \<longrightarrow> command_ok (f r)))"

lemma row_update_later: "row_update P f \<Longrightarrow> queue_later db (update_commands P f db)"
proof -
  assume "row_update P f"
  then have "command_later r (f r)" if "P r" for r
    using that terminal_not_open unfolding row_update_def command_later_def by blast
  then show ?thesis by (auto simp: update_commands_def intro!: rows_later_update)
qed

lemma of_session_update:
  "(\<And>r. P r \<Longrightarrow> same_command r (f r)) \<Longrightarrow> of_session sid (update_where P f rs) = update_where P f (of_session sid rs)"
  by (induction rs) (auto simp: of_session_def same_command_def)

lemma row_update_ok:
  assumes u: "row_update P f" and ok: "queue_ok db" shows "queue_ok (update_commands P f db)"
proof -
  have same: "same_command r (f r)" if "P r" for r using u that by (auto simp: row_update_def)
  have keep: "map g (update_where P f rs) = map g rs" if "\<And>r. P r \<Longrightarrow> g (f r) = g r" for g :: "command_row \<Rightarrow> 'k" and rs
    using that by (rule map_update_where)
  have "map sc_command_id (update_where P f rs) = map sc_command_id rs" "map sc_operation_key (update_where P f rs) = map sc_operation_key rs"
    "map sc_sequence (update_where P f rs) = map sc_sequence rs" for rs
    using same by (auto intro!: map_update_where simp: same_command_def)
  moreover have "command_ok r" if "r \<in> set (update_where P f (commands db))" for r
    using set_update_where[OF that] ok u by (auto simp: queue_ok_def row_update_def)
  ultimately show ?thesis
    using ok same by (simp add: queue_ok_def update_commands_def of_session_update)
qed

lemma grant_update:
  "row_update (claimable cid)
     (\<lambda>row. row\<lparr>sc_status := STATUS_DELIVERED, sc_claimed_by := Some c, sc_claimed_at := Some now,
        sc_lease_expires_at := Some expires, sc_delivered_at := Some now, sc_attempt := attempt, sc_updated_at := now\<rparr>)"
  by (auto simp: row_update_def claimable_def same_command_def command_ok_def)

lemma settleable_open: "settleable cid consumer r \<Longrightarrow> sc_status r \<in> set OPEN_COMMANDS"
  by (auto simp: settleable_def split: option.splits)

lemma settle_update:
  "status \<in> set TERMINAL_COMMANDS \<Longrightarrow> row_update (settleable cid consumer)
     (\<lambda>row. row\<lparr>sc_status := status, sc_result := result, sc_error := error, sc_completed_at := Some now,
        sc_updated_at := now, sc_lease_expires_at := None\<rparr>)"
  by (auto simp: row_update_def same_command_def command_ok_def dest: settleable_open terminal_not_open)

lemma return_update:
  "row_update (held_by cid consumer)
     (\<lambda>row. row\<lparr>sc_status := STATUS_REQUESTED, sc_claimed_by := None, sc_claimed_at := None,
        sc_lease_expires_at := None, sc_delivered_at := None, sc_error := reason, sc_updated_at := now\<rparr>)"
  by (auto simp: row_update_def held_by_def same_command_def command_ok_def)

lemma requeue_update:
  "row_update (still_leased c)
     (\<lambda>row. row\<lparr>sc_status := STATUS_REQUESTED, sc_claimed_by := None, sc_claimed_at := None,
        sc_lease_expires_at := None, sc_delivered_at := None, sc_result := None, sc_completed_at := None,
        sc_error := e, sc_updated_at := now\<rparr>)"
  by (auto simp: row_update_def still_leased_def same_command_def command_ok_def)

lemma sweep_update:
  "row_update (\<lambda>r. sc_session_id r = sid \<and> sc_status r \<in> set OPEN_COMMANDS)
     (\<lambda>r. r\<lparr>sc_status := STATUS_CANCELLED, sc_result := q, sc_error := e, sc_completed_at := Some now,
        sc_updated_at := now, sc_lease_expires_at := None\<rparr>)"
  by (auto simp: row_update_def same_command_def command_ok_def)

lemmas queue_updates = grant_update settle_update return_update requeue_update sweep_update

lemma settle_read_open: "settle_read cid consumer status d = Inr None \<Longrightarrow> status \<in> set TERMINAL_COMMANDS"
  by (auto simp: settle_read_def split: if_splits option.splits)

lemma insert_command_Some:
  "insert_command row db = Some (row', db') \<longleftrightarrow>
     (\<forall>r\<in>set (commands db). sc_command_id r \<noteq> sc_command_id row \<and> sc_operation_key r \<noteq> sc_operation_key row \<and>
        \<not> (sc_session_id r = sc_session_id row \<and> sc_sequence r = sc_sequence row)) \<and>
     row' = row\<lparr>sc_id := next_row_id (map sc_id (commands db))\<rparr> \<and> db' = db\<lparr>commands := commands db @ [row']\<rparr>"
  by (auto simp: insert_command_def Let_def)

lemma write_later: "cmd_write seen a db db' \<Longrightarrow> queue_later db db'"
  by (induction rule: cmd_write.induct)
     (auto simp: insert_command_Some claim_write_def settle_write_def release_command_def requeue_write_def
        cancel_dormant_def Let_def queue_updates row_update_later dest: settle_read_open split: if_splits)

section \<open>Recording keeps the queue\<close>

lemma highest_sequence_ok: "queue_ok db \<Longrightarrow> highest_sequence db sid = int (length (of_session sid (commands db)))"
proof -
  assume ok: "queue_ok db"
  have "foldr max (map int [1..<Suc n]) k = max k (int n)" if "0 \<le> k" for n k
    using that by (induction n arbitrary: k) (auto simp: max_def)
  then show ?thesis using ok by (simp add: highest_sequence_def queue_ok_def of_session_def)
qed

lemma initial_state_ok:
  "initial_state env agent kind = (status, result, error) \<Longrightarrow>
     status \<in> {STATUS_REQUESTED} \<union> set TERMINAL_COMMANDS \<and> (status = STATUS_REQUESTED \<longrightarrow> result = None)"
  by (auto simp: initial_state_def Let_def split: if_splits option.splits)

lemma enqueue_read_Fresh:
  assumes "enqueue_read env now cid key text r d = Inr (Fresh row)" "cr_kind r \<in> set KINDS"
  shows "command_ok row" "sc_command_id row = cid" "sc_session_id row = cr_session r" "sc_kind row = cr_kind r"
    "sc_sequence row = highest_sequence d (cr_session r) + 1" "sc_status row \<noteq> STATUS_DELIVERED"
    "\<not> default_stop r \<Longrightarrow> sc_operation_key row = key"
    "\<exists>agent. get_agent d (cr_session r) = Some agent \<and>
       (default_stop r \<longrightarrow> sc_operation_key row = fst (default_stop_slot d agent) \<and> snd (default_stop_slot d agent) = None)"
proof -
  obtain agent where a: "get_agent d (cr_session r) = Some agent"
    using assms(1) by (auto simp: enqueue_read_def split: option.splits)
  obtain status result error where i: "initial_state env agent (cr_kind r) = (status, result, error)"
    by (metis prod_cases3)
  note s = initial_state_ok[OF i]
  show "command_ok row" using assms s a i
    by (auto simp: enqueue_read_def Let_def command_ok_def case_prod_beta dest: terminal_not_open split: option.splits if_splits)
  show "sc_command_id row = cid" "sc_session_id row = cr_session r" "sc_kind row = cr_kind r"
    "sc_sequence row = highest_sequence d (cr_session r) + 1"
    "\<not> default_stop r \<Longrightarrow> sc_operation_key row = key"
    using assms a i by (auto simp: enqueue_read_def Let_def case_prod_beta split: option.splits if_splits)
  show "sc_status row \<noteq> STATUS_DELIVERED" using assms s a i
    by (auto simp: enqueue_read_def Let_def case_prod_beta dest: terminal_not_open split: option.splits if_splits)
  show "\<exists>agent. get_agent d (cr_session r) = Some agent \<and>
       (default_stop r \<longrightarrow> sc_operation_key row = fst (default_stop_slot d agent) \<and> snd (default_stop_slot d agent) = None)"
    using assms a i by (auto simp: enqueue_read_def Let_def case_prod_beta split: option.splits if_splits)
qed

lemma sequence_taken:
  assumes ok: "queue_ok db" and n: "1 \<le> n" "n \<le> int (length (of_session sid (commands db)))"
  shows "\<exists>x\<in>set (commands db). sc_session_id x = sid \<and> sc_sequence x = n"
proof -
  have "n \<in> set (map int [1..<Suc (length (of_session sid (commands db)))])"
    using n by (auto intro!: image_eqI[of _ _ "nat n"])
  then have "n \<in> set (map sc_sequence (of_session sid (commands db)))" using ok by (simp add: queue_ok_def)
  then show ?thesis by (auto simp: of_session_def)
qed

lemma insert_ok:
  assumes ok: "queue_ok d" "queue_ok db" and later: "queue_later d db" and r: "cr_kind r \<in> set KINDS"
    and read: "enqueue_read env now cid key text r d = Inr (Fresh row)"
    and ins: "insert_command row db = Some (row', db')"
  shows "queue_ok db'"
proof -
  let ?sid = "cr_session r"
  note f = enqueue_read_Fresh[OF read r] and i = ins[unfolded insert_command_Some]
  have le: "length (of_session ?sid (commands d)) \<le> length (of_session ?sid (commands db))"
    using rows_later_length[OF rows_later_of_session[OF later]] .
  have "\<not> sc_sequence row \<le> int (length (of_session ?sid (commands db)))"
    using sequence_taken[OF ok(2), of "sc_sequence row" ?sid] i f(3,5) highest_sequence_ok[OF ok(1)] by auto
  then have n: "sc_sequence row = int (length (of_session ?sid (commands db))) + 1"
    using f(5) highest_sequence_ok[OF ok(1)] le by simp
  have "map sc_sequence (of_session sid (commands db')) = map int [1..<Suc (length (of_session sid (commands db')))]" for sid
    using ok(2) i n f(3) by (cases "sid = ?sid") (auto simp: queue_ok_def of_session_def)
  moreover have "command_ok row'" using f(1) i by (simp add: command_ok_def)
  ultimately show ?thesis using ok(2) i by (auto simp: queue_ok_def)
qed

lemma check_request_kind: "check_request r = Inr text \<Longrightarrow> cr_kind r \<in> set KINDS"
  by (auto simp: check_request_def split: if_splits)

lemma write_ok:
  assumes "cmd_write seen a db db'" "\<And>d. d \<in> seen \<Longrightarrow> queue_ok d \<and> queue_later d db" "queue_ok db"
  shows "queue_ok db'"
  using assms
proof (induction rule: cmd_write.induct)
  case queues
  then show ?case using insert_ok check_request_kind by blast
next
  case (elsewhere db' db)
  then show ?case by (simp add: queue_ok_def)
qed (auto simp: claim_write_def settle_write_def release_command_def requeue_write_def
        cancel_dormant_def Let_def queue_updates row_update_ok
     dest: settle_read_open split: if_splits)

lemma run_ok: "cmd_run (db # hist) \<Longrightarrow> \<forall>d\<in>set (db # hist). queue_ok d \<and> queue_later d db"
proof (induction "db # hist" arbitrary: db hist rule: cmd_run.induct)
  case empty_queue
  then show ?case by (simp add: queue_ok_def of_session_def)
next
  case (writes db hist a db')
  have "queue_ok db'" using writes.hyps(2,3) by (auto intro: write_ok)
  moreover have "queue_later db db'" using writes.hyps(3) by (rule write_later)
  ultimately show ?case using writes.hyps(2) rows_later_trans by auto
qed

text \<open>Any store of a run is earlier than the stores after it.\<close>

lemma run_suffix: "cmd_run hist \<Longrightarrow> suffix h hist \<Longrightarrow> h \<noteq> [] \<Longrightarrow> cmd_run h"
proof (induction arbitrary: h rule: cmd_run.induct)
  case (empty_queue db)
  then show ?case by (auto simp: suffix_Cons intro: cmd_run.intros)
next
  case (writes db hist a db')
  then show ?case by (metis cmd_run.writes suffix_Cons)
qed

lemma run_later:
  assumes "cmd_run (later @ db # hist)" "d \<in> set later" shows "queue_later db d"
proof -
  obtain ys zs where l: "later = ys @ d # zs" using assms(2) by (auto simp: in_set_conv_decomp)
  have "cmd_run (d # zs @ db # hist)"
    using run_suffix[OF assms(1), of "d # zs @ db # hist"] l by (auto simp: suffix_def)
  from run_ok[OF this] show ?thesis by auto
qed

end
