(* ===== verification/CommandRuns.thy ===== *)
theory CommandRuns imports CommandSteps begin

text \<open>
  The operations of the command queue and the ends of a Session are runs: whatever is committed
  between their reads and their writes, each adds writes of \<open>CommandSteps\<close> to the history. Their
  events touch no table of the queue.
\<close>

section \<open>Frames\<close>

lemma commands_of_more:
  fixes db db' :: "'a cmd_db_scheme"
  assumes "live_db.more db' = live_db.more db"
  shows "commands db' = commands db" "claims db' = claims db" "tasks db' = tasks db"
    "mail_attachments db' = mail_attachments db" "notifications db' = notifications db"
  using assms by (cases db rule: cmd_db.cases_scheme; cases db' rule: cmd_db.cases_scheme; simp)+

lemma heartbeat_more: "live_db.more (heartbeat_agent cfg now sid db) = live_db.more db"
proof (cases "get_agent db sid")
  case (Some agent)
  show ?thesis
  proof (cases "renew_session_lease cfg now False False False agent db")
    case (Inr r)
    obtain l db' where r: "r = (l, db')" by fastforce
    then have "live_db.more db' = live_db.more db" using renew_frame Inr by blast
    then show ?thesis using Some Inr r by (simp add: heartbeat_agent_def split: option.split)
  qed (use Some in \<open>simp add: heartbeat_agent_def\<close>)
qed (simp add: heartbeat_agent_def)

lemma put_agent_tables [simp]:
  "commands (put_agent row db) = commands db" "claims (put_agent row db) = claims db" "tasks (put_agent row db) = tasks db"
  "mail_attachments (put_agent row db) = mail_attachments db" "notifications (put_agent row db) = notifications db"
  by (simp_all only: commands_of_more[OF put_agent_simps(4)])

lemma append_event_tables [simp]:
  "commands (append_session_event cfg now kind msg ws sid md renew db) = commands db"
  "claims (append_session_event cfg now kind msg ws sid md renew db) = claims db"
  "tasks (append_session_event cfg now kind msg ws sid md renew db) = tasks db"
  "mail_attachments (append_session_event cfg now kind msg ws sid md renew db) = mail_attachments db"
  "notifications (append_session_event cfg now kind msg ws sid md renew db) = notifications db"
  by (simp_all add: append_session_event_def Let_def case_prod_beta commands_of_more[OF heartbeat_more])

lemma settled_event_tables [simp]:
  "commands (settled_event env now row db) = commands db" "claims (settled_event env now row db) = claims db"
  "tasks (settled_event env now row db) = tasks db" "mail_attachments (settled_event env now row db) = mail_attachments db"
  "notifications (settled_event env now row db) = notifications db"
  by (simp_all add: settled_event_def)

lemma end_tables [simp]:
  "commands (release_session_ownership sid db) = commands db"
  "commands (detach_session_mailbox now sid reason db) = commands db"
  "lbase (release_session_ownership sid db) = lbase db"
  "lbase (detach_session_mailbox now sid reason db) = lbase db"
  by (simp_all add: release_session_ownership_def detach_session_mailbox_def fail_attachment_notifications_def split: option.split)

section \<open>Runs of an operation\<close>

definition run_to :: "cmd_db \<Rightarrow> cmd_db \<Rightarrow> bool" where
  "run_to db db' \<longleftrightarrow> (\<forall>hist. cmd_run (db # hist) \<longrightarrow> (\<exists>h. cmd_run (db' # h) \<and> suffix (db # hist) (db' # h)))"

lemma run_to_refl [simp]: "run_to db db"
  by (auto simp: run_to_def)

lemma run_to_trans [trans]: "run_to a b \<Longrightarrow> run_to b c \<Longrightarrow> run_to a c"
  unfolding run_to_def by (meson suffix_order.trans)

lemma cmd_write_mono: "cmd_write s a db db' \<Longrightarrow> s \<subseteq> t \<Longrightarrow> cmd_write t a db db'"
  by (induction rule: cmd_write.induct) (blast intro: cmd_write.intros)+

text \<open>A write with what was read before others committed.\<close>

lemma run_to_write:
  assumes "run_to d db" "cmd_write {d, db} a db db'" shows "run_to d db'"
  unfolding run_to_def
proof (intro allI impI)
  fix hist assume "cmd_run (d # hist)"
  then obtain h where h: "cmd_run (db # h)" "suffix (d # hist) (db # h)" using assms(1) by (auto simp: run_to_def)
  then have "{d, db} \<subseteq> set (db # h)" using set_mono_suffix by fastforce
  then have "cmd_run (db' # db # h)" using h(1) cmd_write_mono[OF assms(2)] by (intro cmd_run.writes) auto
  then show "\<exists>h. cmd_run (db' # h) \<and> suffix (d # hist) (db' # h)" using h(2) by (auto simp: suffix_Cons)
qed

lemma run_to_elsewhere: "run_to d db \<Longrightarrow> commands db' = commands db \<Longrightarrow> run_to d db'"
  using cmd_write.elsewhere run_to_write by blast

lemma run_to_fold: "(\<And>x e. x \<in> set xs \<Longrightarrow> run_to d e \<Longrightarrow> run_to d (f x e)) \<Longrightarrow> run_to d db \<Longrightarrow> run_to d (fold f xs db)"
  by (induction xs arbitrary: db) auto

text \<open>What others commit is a run.\<close>

definition commits :: "(cmd_db \<Rightarrow> cmd_db) \<Rightarrow> bool" where
  "commits f \<longleftrightarrow> (\<forall>db. run_to db (f db))"

lemma commitsD: "commits f \<Longrightarrow> run_to d db \<Longrightarrow> run_to d (f db)"
  using run_to_trans by (auto simp: commits_def)

lemma commits_id [simp]: "commits (\<lambda>db. db)"
  by (simp add: commits_def)

text \<open>The same for the step from one store to a later one.\<close>

lemma run_to_later: "run_to db db' \<Longrightarrow> cmd_run (db # hist) \<Longrightarrow> queue_ok db' \<and> queue_later db db'"
proof -
  assume "run_to db db'" "cmd_run (db # hist)"
  then obtain h where h: "cmd_run (db' # h)" "suffix (db # hist) (db' # h)" by (auto simp: run_to_def)
  then have "db \<in> set (db' # h)" using set_mono_suffix by fastforce
  then show ?thesis using run_ok[OF h(1)] by auto
qed

section \<open>The operations\<close>

lemma settle_command_run:
  assumes "commits others" shows "run_to db (snd (settle_command env others now cid consumer status result error db))"
proof (cases "settle_read cid consumer status db")
  case (Inr got)
  show ?thesis
  proof (cases got)
    case None
    obtain updated db1 where w: "settle_write cid consumer status result error now (others db) = (updated, db1)" by fastforce
    have oth: "run_to db (others db)" using assms by (simp add: commitsD)
    have "run_to db db1"
    proof (cases updated)
      case True
      then show ?thesis using w Inr None oth by (auto intro!: run_to_write[OF oth] cmd_write.settles[of db])
    next
      case False
      then show ?thesis using w oth by (auto simp: settle_write_def split: if_splits)
    qed
    then show ?thesis using w Inr None
      by (auto simp: settle_command_def split: option.splits intro: run_to_elsewhere)
  qed (use Inr in \<open>simp add: settle_command_def\<close>)
qed (simp add: settle_command_def)

lemma cancel_open_run: "run_to db (cancel_open_for_session env now sid reason result db)"
  unfolding cancel_open_for_session_def
  by (rule run_to_fold) (blast intro: run_to_trans settle_command_run commits_id, simp)

lemma finalize_write_commands: "finalize_write now state summary agent db = (b, db') \<Longrightarrow> commands db' = commands db"
  by (auto simp: finalize_write_def split: option.splits if_splits)

lemma finalize_run: "run_to db (snd (finalize_session env now sid state summary reason db))"
proof (cases "get_agent db sid")
  case (Some agent)
  obtain b db1 where w: "finalize_write now state summary agent db = (b, db1)" by fastforce
  have "run_to db db1" using finalize_write_commands[OF w] by (rule run_to_elsewhere[OF run_to_refl])
  then have c: "run_to db (cancel_open_for_session env now sid r q db1)" for r q
    using cancel_open_run run_to_trans by blast
  show ?thesis
    using Some w c by (cases b) (auto simp: finalize_session_def Let_def intro: run_to_elsewhere[OF c])
qed (simp add: finalize_session_def)

lemma settle_run:
  assumes "commits others" shows "run_to db (snd (settle env others now cid consumer status result error db))"
  using settle_command_run[OF assms, of db env now cid consumer status result error] run_to_trans finalize_run
  by (auto simp: settle_def synchronize_terminal_state_def split: prod.splits sum.splits bool.splits)

lemma acknowledge_run:
  "commits others \<Longrightarrow> run_to db (snd (acknowledge env others now cid consumer result error ok db))"
  by (simp add: acknowledge_def settle_run)

lemma get_command_update:
  "(\<And>r. P r \<Longrightarrow> same_command r (f r)) \<Longrightarrow>
     get_command (update_commands P f db) cid = map_option (\<lambda>r. if P r then f r else r) (get_command db cid)"
  unfolding get_command_def update_commands_def
  by (simp, rule row_by_update_match) (simp add: same_command_def)

lemma matching_command:
  assumes "rows_matching P (commands db) \<noteq> 0" "\<And>r. P r \<Longrightarrow> sc_command_id r = cid"
  shows "\<exists>r. get_command db cid = Some r"
  using assms unfolding get_command_def rows_matching_def
  by (metis (no_types, lifting) filter_False image_iff list.size(3) not_Some_eq row_by_None)

lemma claim_write_None: "claim_write cid consumer attempt now expires db = (None, db') \<Longrightarrow> db' = db"
  using matching_command[of "claimable cid" db cid]
  by (auto simp: claim_write_def Let_def claimable_def get_command_update same_command_def split: if_splits)

lemma claim_run:
  assumes "commits others" shows "run_to db (snd (claim env others now cid consumer lease runtime machine db))"
proof (cases "claim_read cid runtime machine db")
  case (Inr attempt)
  have oth: "run_to db (others db)" using assms by (simp add: commitsD)
  have "run_to db (snd (claim_write cid consumer attempt now expires (others db)))" for expires
  proof (cases "claim_write cid consumer attempt now expires (others db)")
    case (Pair row db')
    show ?thesis
    proof (cases row)
      case (Some r)
      then show ?thesis using Pair Inr by (auto intro!: run_to_write[OF oth] cmd_write.grants[of db])
    next
      case None
      then have "db' = others db" using Pair claim_write_None by blast
      then show ?thesis using Pair oth by simp
    qed
  qed
  then show ?thesis using Inr by (simp add: claim_def Let_def case_prod_beta)
qed (simp add: claim_def)

lemma release_command_None: "release_command now cid consumer reason db = (None, db') \<Longrightarrow> db' = db"
  using matching_command[of "held_by cid consumer" db cid]
  by (auto simp: release_command_def Let_def held_by_def get_command_update same_command_def split: if_splits)

lemma release_run: "run_to db (snd (release_command now cid consumer reason db))"
proof (cases "release_command now cid consumer reason db")
  case (Pair row db')
  then show ?thesis
  proof (cases row)
    case None
    then have "db' = db" using Pair release_command_None by blast
    then show ?thesis using Pair by simp
  next
    case (Some r)
    then show ?thesis using Pair by (auto intro!: run_to_write[OF run_to_refl] cmd_write.returns)
  qed
qed

lemma requeue_run:
  "run_to db e \<Longrightarrow> c \<in> set (expired_candidates moment (lease_candidates db)) \<Longrightarrow> run_to db (requeue_write moment c e)"
  by (rule run_to_write) (auto intro: cmd_write.requeues[of db])

lemma expire_run: "run_to db (expire_leases env moment db)"
  unfolding expire_leases_def Let_def
proof (rule run_to_fold)
  show "run_to db (fold (requeue_write moment)
      (filter (\<lambda>c. lc_attempt c < max_attempts env) (expired_candidates moment (lease_candidates db))) db)"
    by (rule run_to_fold) (auto intro: requeue_run)
qed (blast intro: run_to_trans settle_run commits_id)

lemma requested_event_tables [simp]: "commands (requested_event env now row db) = commands db"
  by (simp add: requested_event_def)

definition calm :: "enqueue_sched \<Rightarrow> bool" where
  "calm sch \<longleftrightarrow> (\<forall>i. commits (es_before sch i) \<and> commits (es_between sch i))"

lemma enqueue_passes_run:
  assumes "calm sch" "check_request r = Inr text"
    "operation_key_for (cr_session r) (cr_kind r) (cr_operation r) uuid = Inr key"
  shows "run_to db e \<Longrightarrow> run_to db (snd (enqueue_passes env sch key text r n i e))"
proof (induction n arbitrary: i e)
  case (Suc n)
  let ?d = "es_before sch i e" let ?f = "es_between sch i ?d"
  have d: "run_to db ?d" "run_to ?d ?f" using Suc.prems assms(1) by (auto simp: calm_def commitsD)
  then have f: "run_to db ?f" by (rule run_to_trans)
  show ?case
  proof (cases "enqueue_read env (es_now sch i) (es_command_id sch i) key text r ?d")
    case (Inr a)
    show ?thesis
    proof (cases a)
      case (Existing row)
      then show ?thesis using Inr d by simp
    next
      case (Fresh row)
      show ?thesis
      proof (cases "insert_command row ?f")
        case None
        then show ?thesis using Inr Fresh Suc.IH[OF f] by (simp add: Let_def)
      next
        case (Some x)
        obtain row' db' where x: "x = (row', db')" by fastforce
        have "run_to ?d db'"
          using Inr Fresh Some x assms(2,3) by (auto intro!: run_to_write[OF d(2)] cmd_write.queues[of ?d])
        then show ?thesis using Inr Fresh Some x run_to_trans[OF d(1)] by (simp add: Let_def)
      qed
    qed
  qed (use d in simp)
qed simp

lemma enqueue_run:
  assumes "calm sch" shows "run_to db (snd (enqueue env sch r db))"
proof (cases "check_request r")
  case (Inr t)
  show ?thesis
  proof (cases "operation_key_for (cr_session r) (cr_kind r) (cr_operation r) (es_uuid sch)")
    case k: (Inr key)
    have "run_to db (snd (enqueue_passes env sch key t r SEQUENCE_ATTEMPTS 0 db))"
      using enqueue_passes_run[OF assms Inr k] by simp
    then show ?thesis using Inr k
      by (cases "enqueue_passes env sch key t r SEQUENCE_ATTEMPTS 0 db")
        (auto simp: enqueue_def result_simps intro: run_to_elsewhere split: sum.splits prod.splits bool.splits)
  qed (use Inr in \<open>simp add: enqueue_def result_simps\<close>)
qed (simp add: enqueue_def result_simps)

section \<open>The ends of a Session\<close>

lemma set_state_write_commands: "set_state_write now sid state summary db = Inr db' \<Longrightarrow> commands db' = commands db"
  by (auto simp: set_state_write_def Let_def split: option.splits if_splits)

lemma set_session_state_run: "run_to db (snd (set_session_state env now sid state summary db))"
proof (cases "set_state_write now sid state summary db")
  case (Inr db1)
  have "run_to db db1" using set_state_write_commands[OF Inr] by (rule run_to_elsewhere[OF run_to_refl])
  then show ?thesis using Inr cancel_open_run run_to_trans by (auto simp: set_session_state_def)
qed (simp add: set_session_state_def)

lemma end_write_commands: "end_write now sid summary db = Inr (row, db') \<Longrightarrow> commands db' = commands db"
  by (auto simp: end_write_def Let_def split: option.splits if_splits)

lemma end_session_run: "run_to db (snd (end_session env now sid summary db))"
proof (cases "end_write now sid summary db")
  case (Inr x)
  obtain row db1 where x: "x = (row, db1)" by fastforce
  have "run_to db e" if "commands e = commands db1" for e
    using that end_write_commands[of now sid summary db row db1] Inr x by (auto intro: run_to_elsewhere[OF run_to_refl])
  then have "run_to db (cancel_open_for_session env now sid r q e)" if "commands e = commands db1" for r q e
    using that cancel_open_run run_to_trans by blast
  then show ?thesis using Inr x by (simp add: end_session_def Let_def)
qed (simp add: end_session_def)

lemma fold_commands: "(\<And>x d. commands (f x d) = commands d) \<Longrightarrow> commands (fold f xs db) = commands db"
  by (induction xs arbitrary: db) auto

text \<open>The reaper leaves the queue as it is.\<close>

lemma reap_commands: "commands (snd (reap_zombie_sessions env machine alive now db)) = commands db"
  by (simp add: reap_zombie_sessions_def reap_write_def Let_def case_prod_beta fold_commands)

lemma reap_run: "run_to db (snd (reap_zombie_sessions env machine alive now db))"
  by (rule run_to_elsewhere[OF run_to_refl reap_commands])

lemma add_event_commands [simp]: "commands (add_event now ws sid kind msg md cat db) = commands db"
  by (simp add: add_event_def)

lemma dormant_step_run: "run_to db (dormant_step now row db)"
proof -
  let ?d = "detach_session_mailbox now (s_id row) (lit ''lease_expired'')
      (release_session_ownership (s_id row) (put_agent (row\<lparr>s_state := ''dormant''\<rparr>) db))"
  have "run_to db ?d" by (rule run_to_elsewhere[OF run_to_refl]) simp
  then have "run_to db (cancel_dormant now (s_id row) ?d)" by (rule run_to_write) (rule cmd_write.sweeps)
  then show ?thesis unfolding dormant_step_def by (rule run_to_elsewhere) simp
qed

lemma sweep_run: "run_to db (snd (sweep_stale_session_leases now db))"
  unfolding sweep_stale_session_leases_def Let_def
  by (simp, rule run_to_fold) (blast intro: run_to_trans dormant_step_run, simp)

lemma reconcile_run: "run_to db (reconcile_machine_sessions env now machine owned runtime reason grace db)"
  unfolding reconcile_machine_sessions_def
  by (auto intro!: run_to_fold intro: run_to_trans finalize_run)

lemmas operation_runs = enqueue_run claim_run settle_run acknowledge_run release_run expire_run finalize_run
  set_session_state_run end_session_run reap_run sweep_run reconcile_run

end
