(* ===== verification/CommandLaws.thy ===== *)
theory CommandLaws imports CommandRuns begin

text \<open>
  What the loops of the queue amount to: cancelling the commands of a Session and expiring leases
  update each row once, and the keys of default stops count up.
\<close>

section \<open>Rows in order\<close>

lemma session_commands_eq: "queue_ok db \<Longrightarrow> session_commands db sid = of_session sid (commands db)"
proof -
  assume "queue_ok db"
  then have "sorted (map sc_sequence (of_session sid (commands db)))"
    unfolding queue_ok_def by (simp add: sorted_map sorted_wrt_map del: upt_Suc)
  then show ?thesis by (simp add: session_commands_def of_session_def sorted_sort_id sort_key_id_if_sorted)
qed

section \<open>Settling one command after another\<close>

definition settled_row :: "instant \<Rightarrow> string \<Rightarrow> pystr option \<Rightarrow> pystr option \<Rightarrow> command_row \<Rightarrow> command_row" where
  "settled_row now status result error r =
     r\<lparr>sc_status := status, sc_result := result, sc_error := error, sc_completed_at := Some now,
       sc_updated_at := now, sc_lease_expires_at := None\<rparr>"

lemma settled_update:
  "status \<in> set TERMINAL_COMMANDS \<Longrightarrow>
     row_update (\<lambda>r. sc_command_id r = cid \<and> sc_status r \<in> set OPEN_COMMANDS) (settled_row now status result error)"
  by (auto simp: row_update_def settled_row_def same_command_def command_ok_def dest: terminal_not_open)

lemma queue_ok_cong: "commands db' = commands db \<Longrightarrow> queue_ok db' = queue_ok db"
  by (simp add: queue_ok_def)

lemma settle_command_exact:
  assumes "status \<in> set TERMINAL_COMMANDS" "queue_ok db"
  shows "commands (snd (settle_command env (\<lambda>d. d) now cid None status result error db)) =
    update_where (\<lambda>r. sc_command_id r = cid \<and> sc_status r \<in> set OPEN_COMMANDS) (settled_row now status result error) (commands db)"
proof (cases "get_command db cid")
  case None
  then have "update_where (\<lambda>r. sc_command_id r = cid \<and> sc_status r \<in> set OPEN_COMMANDS) f (commands db) = commands db" for f
    by (intro update_where_none) (auto simp: get_command_def row_by_None image_iff)
  then show ?thesis using None assms(1) by (simp add: settle_command_def settle_read_def)
next
  case (Some row)
  then have row: "row \<in> set (commands db)" "sc_command_id row = cid"
    by (auto simp: get_command_def dest: row_by_Some_iff_key)
  have P: "settleable cid None = (\<lambda>r. sc_command_id r = cid \<and> sc_status r \<in> set OPEN_COMMANDS)"
    by (rule ext) (simp add: settleable_def)
  show ?thesis
  proof (cases "sc_status row \<in> set TERMINAL_COMMANDS")
    case True
    have "r = row" if "r \<in> set (commands db)" "sc_command_id r = cid" for r
      using that row assms(2) by (auto simp: queue_ok_def distinct_map dest: inj_onD)
    then have "update_where (\<lambda>r. sc_command_id r = cid \<and> sc_status r \<in> set OPEN_COMMANDS) f (commands db) = commands db" for f
      using True terminal_not_open by (intro update_where_none) blast
    then show ?thesis using Some True assms(1) by (simp add: settle_command_def settle_read_def)
  next
    case False
    then have o: "sc_status row \<in> set OPEN_COMMANDS" using assms(2) row(1) by (auto simp: queue_ok_def command_ok_def)
    have "rows_matching (settleable cid None) (commands db) \<noteq> 0"
      using row o by (auto simp: rows_matching_def filter_empty_conv P)
    then have "settle_write cid None status result error now db =
        (True, update_commands (settleable cid None) (settled_row now status result error) db)"
      by (simp add: settle_write_def settled_row_def[abs_def])
    moreover have "get_command (update_commands (settleable cid None) (settled_row now status result error) db) cid \<noteq> None"
      using Some by (subst get_command_update) (auto simp: settled_row_def same_command_def)
    ultimately show ?thesis using Some False assms(1)
      by (auto simp: settle_command_def settle_read_def update_commands_def P split: option.split)
  qed
qed

lemma settle_fold_exact:
  assumes "status \<in> set TERMINAL_COMMANDS"
  shows "queue_ok db \<Longrightarrow>
    commands (fold (\<lambda>cid d. snd (settle_command env (\<lambda>d. d) now cid None status result error d)) cids db) =
    update_where (\<lambda>r. sc_command_id r \<in> set cids \<and> sc_status r \<in> set OPEN_COMMANDS) (settled_row now status result error) (commands db)"
proof (induction cids arbitrary: db)
  case Nil
  then show ?case by (simp add: update_where_def)
next
  case (Cons cid cids)
  let ?d = "snd (settle_command env (\<lambda>d. d) now cid None status result error db)"
  note e = settle_command_exact[OF assms Cons.prems, where env = env and now = now and cid = cid and result = result and error = error]
  have "queue_ok ?d"
    using row_update_ok[OF settled_update[OF assms] Cons.prems, of cid now result error] e
    by (subst queue_ok_cong[of _ "update_commands (\<lambda>r. sc_command_id r = cid \<and> sc_status r \<in> set OPEN_COMMANDS)
        (settled_row now status result error) db"]) (simp_all add: update_commands_def)
  from Cons.IH[OF this] e show ?case
    using assms terminal_not_open by (auto simp: update_where_def settled_row_def)
qed

lemma cancel_open_exact:
  assumes "queue_ok db"
  shows "commands (cancel_open_for_session env now sid reason result db) =
    update_where (\<lambda>r. sc_session_id r = sid \<and> sc_status r \<in> set OPEN_COMMANDS)
      (settled_row now STATUS_CANCELLED (Some result) (Some reason)) (commands db)"
proof -
  let ?ids = "map sc_command_id (filter (\<lambda>r. sc_session_id r = sid \<and> sc_status r \<in> set OPEN_COMMANDS) (commands db))"
  have "sc_command_id r \<in> set ?ids \<and> sc_status r \<in> set OPEN_COMMANDS \<longleftrightarrow>
      sc_session_id r = sid \<and> sc_status r \<in> set OPEN_COMMANDS" if "r \<in> set (commands db)" for r
    using that assms by (auto simp: queue_ok_def distinct_map dest: inj_onD)
  then show ?thesis
    unfolding cancel_open_for_session_def settle_fold_exact[OF status_kinds(7) assms]
    by (auto simp: update_where_def)
qed

section \<open>Expiring leases\<close>

definition requeued_row :: "instant \<Rightarrow> command_row \<Rightarrow> command_row" where
  "requeued_row moment r =
     r\<lparr>sc_status := STATUS_REQUESTED, sc_claimed_by := None, sc_claimed_at := None,
       sc_lease_expires_at := None, sc_delivered_at := None, sc_result := None, sc_completed_at := None,
       sc_error := Some (lit ''lease expired after attempt '' @ str_of_int (sc_attempt r) @ lit ''; requeued''),
       sc_updated_at := moment\<rparr>"

definition lease_over :: "instant \<Rightarrow> command_row \<Rightarrow> bool" where
  "lease_over moment r \<longleftrightarrow> sc_status r = STATUS_DELIVERED \<and>
     (case sc_lease_expires_at r of None \<Rightarrow> False | Some t \<Rightarrow> t \<le> moment)"

definition recovered :: "int \<Rightarrow> instant \<Rightarrow> command_row \<Rightarrow> command_row" where
  "recovered limit moment r =
     (if \<not> lease_over moment r then r
      else if sc_attempt r < limit then requeued_row moment r
      else settled_row moment STATUS_FAILED (Some RESULT_ABANDONED) (Some (ABANDONED_ERROR limit)) r)"

lemma still_leased_requeued [simp]: "\<not> still_leased c (requeued_row moment r)"
  by (simp add: still_leased_def requeued_row_def)

lemma requeue_write_exact:
  assumes "\<And>r. r \<in> set (commands db) \<Longrightarrow> still_leased c r \<Longrightarrow> lc_attempt c = sc_attempt r"
  shows "commands (requeue_write moment c db) = update_where (still_leased c) (requeued_row moment) (commands db)"
  using assms by (auto simp: requeue_write_def update_commands_def update_where_def requeued_row_def)

lemma requeue_fold_exact:
  "(\<And>c r. c \<in> set cs \<Longrightarrow> r \<in> set (commands db) \<Longrightarrow> still_leased c r \<Longrightarrow> lc_attempt c = sc_attempt r) \<Longrightarrow>
     commands (fold (requeue_write moment) cs db) =
       update_where (\<lambda>r. \<exists>c\<in>set cs. still_leased c r) (requeued_row moment) (commands db)"
proof (induction cs arbitrary: db)
  case Nil
  then show ?case by (simp add: update_where_def)
next
  case (Cons c cs)
  have e: "commands (requeue_write moment c db) = update_where (still_leased c) (requeued_row moment) (commands db)"
    using Cons.prems by (intro requeue_write_exact) auto
  have "lc_attempt x = sc_attempt r"
    if "x \<in> set cs" "r \<in> set (commands (requeue_write moment c db))" "still_leased x r" for x r
    using that Cons.prems set_update_where[of r "still_leased c" "requeued_row moment"] unfolding e by fastforce
  then have "commands (fold (requeue_write moment) cs (requeue_write moment c db)) =
      update_where (\<lambda>r. \<exists>c\<in>set cs. still_leased c r) (requeued_row moment) (commands (requeue_write moment c db))"
    by (intro Cons.IH)
  then show ?case unfolding e by (auto simp: update_where_def)
qed

lemma lease_candidates_iff:
  "c \<in> set (lease_candidates db) \<longleftrightarrow>
     (\<exists>r\<in>set (commands db). sc_status r = STATUS_DELIVERED \<and> sc_lease_expires_at r = Some (lc_expires_at c) \<and>
        lc_command_id c = sc_command_id r \<and> lc_claimed_by c = sc_claimed_by r \<and> lc_attempt c = sc_attempt r)"
proof
  assume "c \<in> set (lease_candidates db)"
  then show "\<exists>r\<in>set (commands db). sc_status r = STATUS_DELIVERED \<and> sc_lease_expires_at r = Some (lc_expires_at c) \<and>
        lc_command_id c = sc_command_id r \<and> lc_claimed_by c = sc_claimed_by r \<and> lc_attempt c = sc_attempt r"
    by (auto simp: lease_candidates_def split: option.splits if_splits intro!: bexI)
next
  assume "\<exists>r\<in>set (commands db). sc_status r = STATUS_DELIVERED \<and> sc_lease_expires_at r = Some (lc_expires_at c) \<and>
        lc_command_id c = sc_command_id r \<and> lc_claimed_by c = sc_claimed_by r \<and> lc_attempt c = sc_attempt r"
  then show "c \<in> set (lease_candidates db)"
    by (auto simp: lease_candidates_def intro!: bexI)
qed

text \<open>The row a settlement answers with.\<close>

lemma get_command_mem: "get_command db cid = Some r \<Longrightarrow> r \<in> set (commands db) \<and> sc_command_id r = cid"
  by (auto simp: get_command_def dest: row_by_Some_iff_key)

lemma get_command_unique:
  "queue_ok db \<Longrightarrow> r \<in> set (commands db) \<Longrightarrow> get_command db (sc_command_id r) = Some r"
  by (simp add: queue_ok_def get_command_def row_by_distinct)

lemma settle_write_row:
  assumes "settle_write cid consumer status result error now db = (True, db1)" "queue_ok db"
  obtains r where "get_command db cid = Some r" "settleable cid consumer r"
    "get_command db1 cid = Some (settled_row now status result error r)"
proof -
  obtain r where r: "r \<in> set (commands db)" "settleable cid consumer r"
    using assms(1) by (auto simp: settle_write_def rows_matching_def filter_empty_conv split: if_splits)
  then have cid: "sc_command_id r = cid" by (simp add: settleable_def)
  then have g: "get_command db cid = Some r" using get_command_unique[OF assms(2) r(1)] by simp
  moreover have "get_command db1 cid = Some (settled_row now status result error r)"
    using assms(1) g r(2)
    by (auto simp: settle_write_def get_command_update same_command_def settled_row_def split: if_splits)
  ultimately show ?thesis using r(2) by (blast intro: that)
qed

lemma settle_command_row:
  assumes "settle_command env others now cid consumer status result error db = (Inr (row, True), db1)" "queue_ok (others db)"
  shows "\<exists>r. get_command (others db) cid = Some r \<and> settleable cid consumer r \<and> row = settled_row now status result error r"
proof -
  obtain db0 where w: "settle_write cid consumer status result error now (others db) = (True, db0)" "get_command db0 cid = Some row"
    using assms(1) by (auto simp: settle_command_def split: sum.splits option.splits prod.splits if_splits)
  then show ?thesis using settle_write_row[OF w(1) assms(2)] by (metis option.inject)
qed

lemma settle_failed:
  assumes "queue_ok db"
  shows "snd (settle env (\<lambda>d. d) now cid None STATUS_FAILED result error db) =
    snd (settle_command env (\<lambda>d. d) now cid None STATUS_FAILED result error db)"
proof -
  have "\<not> proves_terminal row" if "settle_command env (\<lambda>d. d) now cid None STATUS_FAILED result error db = (Inr (row, True), db1)" for row db1
    using settle_command_row[OF that] assms by (auto simp: proves_terminal_def settled_row_def status_defs)
  then show ?thesis
    by (auto simp: settle_def synchronize_terminal_state_def split: prod.splits sum.splits bool.splits)
qed

lemma expired_of_row:
  assumes "queue_ok db" "r \<in> set (commands db)" "c \<in> set (expired_candidates moment (lease_candidates db))"
    "lc_command_id c = sc_command_id r"
  shows "lease_over moment r \<and> still_leased c r \<and> lc_attempt c = sc_attempt r"
proof -
  obtain x where x: "x \<in> set (commands db)" "sc_status x = STATUS_DELIVERED" "sc_lease_expires_at x = Some (lc_expires_at c)"
    "lc_command_id c = sc_command_id x" "lc_claimed_by c = sc_claimed_by x" "lc_attempt c = sc_attempt x"
    using assms(3) by (auto simp: expired_candidates_def lease_candidates_iff)
  have "x = r" using get_command_unique[OF assms(1) x(1)] get_command_unique[OF assms(1,2)] x(4) assms(4) by simp
  then show ?thesis using x assms(3) by (auto simp: lease_over_def still_leased_def expired_candidates_def)
qed

lemma row_expired:
  assumes "r \<in> set (commands db)" "lease_over moment r"
  obtains c where "c \<in> set (expired_candidates moment (lease_candidates db))" "still_leased c r" "lc_attempt c = sc_attempt r"
proof -
  let ?c = "\<lparr>lc_command_id = sc_command_id r, lc_claimed_by = sc_claimed_by r, lc_expires_at = the (sc_lease_expires_at r),
      lc_attempt = sc_attempt r\<rparr>"
  have "?c \<in> set (lease_candidates db)" unfolding lease_candidates_iff
    by (rule bexI[OF _ assms(1)]) (use assms in \<open>auto simp: lease_over_def split: option.splits\<close>)
  then show ?thesis using assms that[of ?c]
    by (auto simp: expired_candidates_def still_leased_def lease_over_def split: option.splits)
qed

lemma expired_row_named:
  assumes "queue_ok db" "r \<in> set (commands db)"
  shows "(\<exists>c\<in>set (expired_candidates moment (lease_candidates db)). Q (lc_attempt c) \<and> sc_command_id r = lc_command_id c) \<longleftrightarrow>
    lease_over moment r \<and> Q (sc_attempt r)"
proof (intro iffI)
  assume "\<exists>c\<in>set (expired_candidates moment (lease_candidates db)). Q (lc_attempt c) \<and> sc_command_id r = lc_command_id c"
  then obtain c where "c \<in> set (expired_candidates moment (lease_candidates db))" "Q (lc_attempt c)" "lc_command_id c = sc_command_id r"
    by auto
  then show "lease_over moment r \<and> Q (sc_attempt r)" using expired_of_row[OF assms] by force
next
  assume r: "lease_over moment r \<and> Q (sc_attempt r)"
  then obtain c where "c \<in> set (expired_candidates moment (lease_candidates db))" "still_leased c r" "lc_attempt c = sc_attempt r"
    using row_expired[OF assms(2)] by blast
  then show "\<exists>c\<in>set (expired_candidates moment (lease_candidates db)). Q (lc_attempt c) \<and> sc_command_id r = lc_command_id c"
    using r by (intro bexI[of _ c]) (simp_all add: still_leased_def)
qed

lemma expired_row_leased:
  assumes "queue_ok db" "r \<in> set (commands db)"
  shows "(\<exists>c\<in>set (expired_candidates moment (lease_candidates db)). Q (lc_attempt c) \<and> still_leased c r) \<longleftrightarrow>
    lease_over moment r \<and> Q (sc_attempt r)"
proof -
  have "still_leased c r \<longleftrightarrow> sc_command_id r = lc_command_id c" if "c \<in> set (expired_candidates moment (lease_candidates db))" for c
    using expired_of_row[OF assms that] by (auto simp: still_leased_def)
  then show ?thesis using expired_row_named[OF assms, of moment Q] by auto
qed

lemma settle_fold_failed:
  "queue_ok db \<Longrightarrow>
     fold (\<lambda>cid d. snd (settle env (\<lambda>x. x) now cid None STATUS_FAILED result error d)) cids db =
     fold (\<lambda>cid d. snd (settle_command env (\<lambda>x. x) now cid None STATUS_FAILED result error d)) cids db"
proof (induction cids arbitrary: db)
  case (Cons cid cids)
  let ?d = "snd (settle_command env (\<lambda>x. x) now cid None STATUS_FAILED result error db)"
  have "commands ?d = commands (update_commands (\<lambda>r. sc_command_id r = cid \<and> sc_status r \<in> set OPEN_COMMANDS)
        (settled_row now STATUS_FAILED result error) db)"
    using settle_command_exact[OF _ Cons.prems] by (simp add: update_commands_def)
  then have "queue_ok ?d" using row_update_ok[OF settled_update[OF status_kinds(6)] Cons.prems]
    by (simp only: queue_ok_cong[of ?d])
  from Cons.IH[OF this] show ?case by (simp only: fold_simps settle_failed[OF Cons.prems])
qed simp

lemma requeue_fold_ok: "queue_ok db \<Longrightarrow> queue_ok (fold (requeue_write moment) cs db)"
proof (induction cs arbitrary: db)
  case (Cons c cs)
  have "queue_ok (requeue_write moment c db)"
    unfolding requeue_write_def by (rule row_update_ok[OF requeue_update Cons.prems])
  then show ?case using Cons.IH by simp
qed simp

lemma expire_exact:
  assumes ok: "queue_ok db"
  shows "commands (expire_leases env moment db) = map (recovered (max_attempts env) moment) (commands db)"
proof -
  let ?limit = "max_attempts env" let ?ex = "expired_candidates moment (lease_candidates db)"
  let ?again = "filter (\<lambda>c. lc_attempt c < ?limit) ?ex" let ?gone = "filter (\<lambda>c. lc_attempt c \<ge> ?limit) ?ex"
  let ?d = "fold (requeue_write moment) ?again db"
  let ?f = "settled_row moment STATUS_FAILED (Some RESULT_ABANDONED) (Some (ABANDONED_ERROR ?limit))"
  have att: "lc_attempt c = sc_attempt r" if "c \<in> set ?again" "r \<in> set (commands db)" "still_leased c r" for c r
    using that expired_of_row[OF ok, of r c moment] by (auto simp: still_leased_def)
  have d: "commands ?d = update_where (\<lambda>r. \<exists>c\<in>set ?again. still_leased c r) (requeued_row moment) (commands db)"
    using att by (intro requeue_fold_exact)
  have "expire_leases env moment db =
      fold (\<lambda>cid d. snd (settle env (\<lambda>x. x) moment cid None STATUS_FAILED (Some RESULT_ABANDONED)
        (Some (ABANDONED_ERROR ?limit)) d)) (map lc_command_id ?gone) ?d"
    by (simp add: expire_leases_def Let_def fold_map comp_def)
  then have e: "commands (expire_leases env moment db) =
      update_where (\<lambda>r. sc_command_id r \<in> set (map lc_command_id ?gone) \<and> sc_status r \<in> set OPEN_COMMANDS) ?f (commands ?d)"
    by (simp only: settle_fold_failed[OF requeue_fold_ok[OF ok]] settle_fold_exact[OF status_kinds(6) requeue_fold_ok[OF ok]])
  have again: "(\<exists>c\<in>set ?again. still_leased c r) \<longleftrightarrow> lease_over moment r \<and> sc_attempt r < ?limit" if "r \<in> set (commands db)" for r
    using expired_row_leased[OF ok that, where Q = "\<lambda>n. n < ?limit"] by auto
  have gone: "sc_command_id r \<in> set (map lc_command_id ?gone) \<longleftrightarrow> lease_over moment r \<and> sc_attempt r \<ge> ?limit" if "r \<in> set (commands db)" for r
    using expired_row_named[OF ok that, where Q = "\<lambda>n. n \<ge> ?limit"] by auto
  have one: "(let s = (if \<exists>c\<in>set ?again. still_leased c r then requeued_row moment r else r)
      in if sc_command_id s \<in> set (map lc_command_id ?gone) \<and> sc_status s \<in> set OPEN_COMMANDS then ?f s else s) =
      recovered ?limit moment r" if "r \<in> set (commands db)" for r
    using gone[OF that] unfolding again[OF that]
    by (auto simp: recovered_def Let_def requeued_row_def lease_over_def)
  show ?thesis unfolding e d using one by (simp add: update_where_def Let_def)
qed

section \<open>The end of a Session\<close>

text \<open>Events touch a Session's activity and lease, never how it stands.\<close>

definition standing :: "'a live_db_scheme \<Rightarrow> pystr \<Rightarrow> (instant option \<times> string) option" where
  "standing db sid = map_option (\<lambda>r. (s_ended_at r, s_state r)) (get_agent db sid)"

lemma get_put_agent:
  "get_agent (put_agent row db) sid = (if sid = s_id row then map_option (\<lambda>_. row) (get_agent db sid) else get_agent db sid)"
proof -
  have "row_by s_id sid (update_where (\<lambda>r. s_id r = s_id row) (\<lambda>_. row) rs) =
      (if sid = s_id row then map_option (\<lambda>_. row) (row_by s_id sid rs) else row_by s_id sid rs)" for rs
    by (induction rs) auto
  then show ?thesis by (simp add: get_agent_def put_agent_def get_session_row_def)
qed

lemma get_agent_id: "get_agent db sid = Some r \<Longrightarrow> s_id r = sid"
  by (auto simp: get_agent_def get_session_row_def dest: row_by_Some_iff_key)

lemma standing_put:
  "get_agent db (s_id row) = Some old \<Longrightarrow> s_ended_at row = s_ended_at old \<Longrightarrow> s_state row = s_state old \<Longrightarrow>
     standing (put_agent row db) sid = standing db sid"
  by (simp add: standing_def get_put_agent)

lemma standing_put_lease [simp]: "standing (put_lease l db) = standing db"
  by (rule ext) (simp add: standing_def get_agent_def)

lemma get_agent_put_lease [simp]: "get_agent (put_lease l db) = get_agent db"
  by (rule ext) (simp add: get_agent_def)

lemma renew_standing:
  assumes "renew_session_lease cfg now False False False agent db = Inr (l, db')" "get_agent db (s_id agent) = Some agent"
  shows "standing db' sid = standing db sid"
proof -
  let ?t = "agent\<lparr>s_last_activity_at := Some now\<rparr>"
  have "db' = db \<or> db' = put_agent ?t db \<or> (\<exists>k. db' = put_agent ?t (put_lease k db))"
    using assms(1) unfolding renew_session_lease_def Let_def by (auto split: if_splits option.splits)
  moreover have "standing (put_agent ?t d) sid = standing d sid" if "get_agent d (s_id agent) = Some agent" for d :: "'b live_db_scheme"
    using that by (intro standing_put[where old = agent]) simp_all
  ultimately show ?thesis using assms(2) by auto
qed

lemma heartbeat_standing: "standing (heartbeat_agent cfg now x db) sid = standing db sid"
proof (cases "get_agent db x")
  case (Some agent)
  have id: "s_id agent = x" using Some by (rule get_agent_id)
  show ?thesis
  proof (cases "renew_session_lease cfg now False False False agent db")
    case (Inr r)
    obtain l db' where r: "r = (l, db')" by fastforce
    have s: "standing db' sid = standing db sid" for sid using renew_standing Inr r Some id by blast
    show ?thesis
    proof (cases "l = None \<and> s_state agent \<noteq> ''dormant''")
      case True
      obtain old where old: "get_agent db' x = Some old" "s_ended_at old = s_ended_at agent" "s_state old = s_state agent"
        using s[of x] Some by (auto simp: standing_def)
      have "standing (put_agent (agent\<lparr>s_last_activity_at := Some now\<rparr>) db') sid = standing db' sid"
        using old id by (intro standing_put[where old = old]) simp_all
      then show ?thesis using True Some Inr r s by (simp add: heartbeat_agent_def)
    next
      case False
      then show ?thesis using Some Inr r s by (auto simp: heartbeat_agent_def split: option.split)
    qed
  qed (use Some in \<open>simp add: heartbeat_agent_def\<close>)
qed (simp add: heartbeat_agent_def)

lemma standing_lbase: "lbase db' = lbase db \<Longrightarrow> standing db' sid = standing db sid"
  for db :: "'a live_db_scheme" and db' :: "'b live_db_scheme"
  by (simp add: standing_def get_agent_def)

lemma standing_tables [simp]:
  "standing (db\<lparr>events := e\<rparr>) sid = standing db sid" "standing (update_commands P f c) sid = standing c sid"
  "standing (release_session_ownership x c) sid = standing c sid"
  "standing (detach_session_mailbox now x reason c) sid = standing c sid"
  by (rule standing_lbase; simp add: update_commands_def)+

lemma append_event_standing [simp]:
  "standing (append_session_event cfg now kind msg ws x md renew db) sid = standing db sid"
  by (simp add: append_session_event_def Let_def case_prod_beta heartbeat_standing)

lemma settle_command_standing:
  "standing (snd (settle_command env (\<lambda>d. d) now cid consumer status result error db)) sid = standing db sid"
  by (auto simp: settle_command_def settle_write_def settled_event_def
      split: sum.splits option.splits prod.splits if_splits)

lemma cancel_open_standing: "standing (cancel_open_for_session env now x reason result db) sid = standing db sid"
proof -
  have "standing (fold (\<lambda>cid d. snd (settle_command env (\<lambda>x. x) now cid None STATUS_CANCELLED q e d)) cids db) sid = standing db sid"
    for cids q e by (induction cids arbitrary: db) (simp_all add: settle_command_standing)
  then show ?thesis by (simp add: cancel_open_for_session_def)
qed

lemma update_commands_tables [simp]:
  "claims (update_commands P f db) = claims db" "tasks (update_commands P f db) = tasks db"
  by (simp_all add: update_commands_def)

lemma settle_command_tables:
  "claims (snd (settle_command env (\<lambda>d. d) now cid consumer status result error db)) = claims db \<and>
   tasks (snd (settle_command env (\<lambda>d. d) now cid consumer status result error db)) = tasks db"
  by (auto simp: settle_command_def settle_write_def split: sum.splits option.splits prod.splits if_splits)

lemma cancel_open_tables:
  "claims (cancel_open_for_session env now x reason result db) = claims db \<and>
   tasks (cancel_open_for_session env now x reason result db) = tasks db"
proof -
  have "claims (fold (\<lambda>cid d. snd (settle_command env (\<lambda>x. x) now cid None STATUS_CANCELLED q e d)) cids db) = claims db \<and>
     tasks (fold (\<lambda>cid d. snd (settle_command env (\<lambda>x. x) now cid None STATUS_CANCELLED q e d)) cids db) = tasks db"
    for cids q e by (induction cids arbitrary: db) (simp_all add: settle_command_tables)
  then show ?thesis by (simp add: cancel_open_for_session_def)
qed

text \<open>Everything a Session holds is given up, and its open commands are cancelled.\<close>

definition session_left :: "pystr \<Rightarrow> cmd_db \<Rightarrow> cmd_db \<Rightarrow> bool" where
  "session_left sid db db' \<longleftrightarrow>
     claims db' = filter (\<lambda>c. wc_session_id c \<noteq> sid) (claims db) \<and>
     tasks db' = update_where (\<lambda>t. tk_claimed_by t = Some sid \<and> tk_status t = ''in_progress'')
       (\<lambda>t. t\<lparr>tk_status := ''available'', tk_claimed_by := None, tk_claimed_at := None\<rparr>) (tasks db)"

lemma release_left: "session_left sid db (release_session_ownership sid (detach_session_mailbox now sid reason (put_agent row db)))"
  by (simp add: session_left_def release_session_ownership_def detach_session_mailbox_def fail_attachment_notifications_def split: option.split)

lemma session_left_cong: "\<lbrakk>session_left sid db d; claims db' = claims d; tasks db' = tasks d\<rbrakk> \<Longrightarrow> session_left sid db db'"
  by (simp add: session_left_def)

lemma finalize_write_True:
  assumes "get_agent db sid = Some agent" "s_ended_at agent = None"
  shows "\<exists>db1. finalize_write now state summary agent db = (True, db1) \<and> commands db1 = commands db \<and>
    session_left sid db db1 \<and> standing db1 sid = Some (Some now, state) \<and> (\<forall>x. x \<noteq> sid \<longrightarrow> standing db1 x = standing db x)"
proof -
  have id: "s_id agent = sid" using assms(1) by (rule get_agent_id)
  let ?row = "agent\<lparr>s_ended_at := Some now, s_state := state, s_summary := Some summary\<rparr>"
  let ?d = "release_session_ownership sid (detach_session_mailbox now sid (lit state) (put_agent ?row db))"
  have "finalize_write now state summary agent db = (True, ?d)" using assms id by (simp add: finalize_write_def)
  moreover have "standing ?d x = (if x = sid then Some (Some now, state) else standing db x)" for x
  proof -
    have "standing ?d x = standing (put_agent ?row db) x" by simp
    also have "\<dots> = (if x = sid then Some (Some now, state) else standing db x)"
      using assms(1) id by (simp add: standing_def get_put_agent)
    finally show ?thesis .
  qed
  ultimately show ?thesis by (intro exI[of _ ?d]) (simp add: release_left)
qed

end
