(* ===== verification/CommandStops.thy ===== *)
theory CommandStops imports CommandLaws begin

text \<open>
  The keys of default stops. In every run the default stops of a Session carry the epochs 1, 2, ..
  in order, and the next epoch is free unless the id of another Session imitates it.
\<close>

section \<open>Keys\<close>

definition stop_suffix :: "int \<Rightarrow> pystr" where
  "stop_suffix n = (if n \<le> 1 then [] else 35 # str_of_int n)"

lemma default_stop_key_eq: "default_stop_key sid n = lit ''stop'' @ 58 # sid @ stop_suffix n"
  by (simp add: default_stop_key_def stop_suffix_def Let_def)

lemma stop_suffix_inject: "1 \<le> n \<Longrightarrow> 1 \<le> m \<Longrightarrow> stop_suffix n = stop_suffix m \<Longrightarrow> n = m"
  by (auto simp: stop_suffix_def split: if_splits)

lemma default_stop_key_inject: "1 \<le> n \<Longrightarrow> 1 \<le> m \<Longrightarrow> default_stop_key sid n = default_stop_key sid m \<Longrightarrow> n = m"
  by (auto simp: default_stop_key_eq dest: stop_suffix_inject)

lemma str_of_int_digits: "0 \<le> n \<Longrightarrow> d \<in> set (str_of_int n) \<Longrightarrow> is_digit d"
  by (auto simp: str_of_int_def is_digit_def dest: digits_of_chars)

lemma is_default_key: "is_default_stop_key (default_stop_key sid n) sid"
proof (cases "n \<le> 1")
  case True
  then show ?thesis by (simp add: is_default_stop_key_def default_stop_key_eq stop_suffix_def)
next
  case False
  then have "\<forall>d\<in>set (str_of_int n). is_digit d" using str_of_int_digits[of n] by simp
  then show ?thesis using False
    by (simp add: is_default_stop_key_def default_stop_key_eq stop_suffix_def Let_def)
qed

definition given_key :: "string \<Rightarrow> pystr \<Rightarrow> pystr \<Rightarrow> pystr" where
  "given_key kind sid operation = lit kind @ 58 # sid @ 58 # operation"

lemma given_not_default: "\<not> is_default_stop_key (given_key KIND_STOP sid x) sid"
  by (simp add: is_default_stop_key_def given_key_def KIND_STOP_def Let_def)

lemma operation_key_given:
  "operation_key_for sid kind operation uuid = Inr key \<Longrightarrow> \<not> (kind = KIND_STOP \<and> \<not> text_given operation) \<Longrightarrow>
     \<exists>x. key = given_key kind sid x"
  by (auto simp: operation_key_for_def given_key_def text_given_def split: option.splits list.splits if_splits)

text \<open>What the key of a row looks like.\<close>

definition key_ok :: "command_row \<Rightarrow> bool" where
  "key_ok r \<longleftrightarrow> (sc_kind r = KIND_STOP \<and> (\<exists>n\<ge>1. sc_operation_key r = default_stop_key (sc_session_id r) n)) \<or>
     (\<exists>x. sc_operation_key r = given_key (sc_kind r) (sc_session_id r) x)"

definition plain_id :: "pystr \<Rightarrow> bool" where
  "plain_id sid \<longleftrightarrow> 58 \<notin> set sid \<and> 35 \<notin> set sid"

lemma plain_split: "35 \<notin> set a \<Longrightarrow> 35 \<notin> set b \<Longrightarrow> a @ stop_suffix n = b @ stop_suffix m \<Longrightarrow> a = b"
proof -
  assume ab: "35 \<notin> set a" "35 \<notin> set b" "a @ stop_suffix n = b @ stop_suffix m"
  have "takeWhile (\<lambda>c. c \<noteq> 35) (s @ stop_suffix k) = s" if "35 \<notin> set s" for s k
  proof -
    have "takeWhile (\<lambda>c. c \<noteq> 35) (s @ stop_suffix k) = s @ takeWhile (\<lambda>c. c \<noteq> 35) (stop_suffix k)"
      using that by (intro takeWhile_append2) auto
    then show ?thesis by (simp add: stop_suffix_def)
  qed
  then show "a = b" using ab by metis
qed

lemma stop_suffix_plain: "58 \<notin> set (stop_suffix n)"
  by (auto simp: stop_suffix_def dest!: str_of_int_chars)

lemma default_key_owner:
  assumes "key_ok r" "sc_kind r \<in> set KINDS" "plain_id (sc_session_id r)" "plain_id sid"
    "sc_operation_key r = default_stop_key sid n" "1 \<le> n"
  shows "sc_session_id r = sid \<and> sc_kind r = KIND_STOP"
proof -
  have "\<not> (\<exists>x. sc_operation_key r = given_key (sc_kind r) (sc_session_id r) x)"
  proof
    assume "\<exists>x. sc_operation_key r = given_key (sc_kind r) (sc_session_id r) x"
    then obtain x where "lit (sc_kind r) @ 58 # sc_session_id r @ 58 # x = lit ''stop'' @ 58 # sid @ stop_suffix n"
      using assms(5) by (auto simp: given_key_def default_stop_key_eq)
    then have "sc_session_id r @ 58 # x = sid @ stop_suffix n"
      using assms(2) by (auto simp: kind_defs)
    then have "58 \<in> set (sid @ stop_suffix n)" by (metis in_set_conv_decomp)
    then show False using assms(4) stop_suffix_plain by (auto simp: plain_id_def)
  qed
  then obtain m where "sc_kind r = KIND_STOP" "default_stop_key (sc_session_id r) m = default_stop_key sid n"
    using assms(1,5) by (auto simp: key_ok_def)
  then show ?thesis using assms(3,4) plain_split by (auto simp: default_stop_key_eq plain_id_def)
qed

section \<open>Epochs\<close>

definition stop_rows :: "pystr \<Rightarrow> command_row list \<Rightarrow> command_row list" where
  "stop_rows sid rs =
     filter (\<lambda>r. sc_session_id r = sid \<and> sc_kind r = KIND_STOP \<and> is_default_stop_key (sc_operation_key r) sid) rs"

lemma default_stops_eq: "queue_ok db \<Longrightarrow> default_stops db sid = stop_rows sid (commands db)"
  by (auto simp: default_stops_def session_commands_eq of_session_def stop_rows_def intro: filter_cong)

definition stops_ok :: "'a cmd_db_scheme \<Rightarrow> bool" where
  "stops_ok db \<longleftrightarrow>
     (\<forall>r\<in>set (commands db). key_ok r) \<and>
     (\<forall>sid. map sc_operation_key (stop_rows sid (commands db)) =
        map (\<lambda>n. default_stop_key sid (int n)) [1..<Suc (length (stop_rows sid (commands db)))])"

lemma same_key_ok: "same_command r s \<Longrightarrow> key_ok s = key_ok r"
  by (simp add: same_command_def key_ok_def)

lemma rows_later_stops:
  assumes "rows_later rs rs'" shows "rows_later (stop_rows sid rs) (stop_rows sid rs')"
proof -
  obtain xs ys where x: "rs' = xs @ ys" "list_all2 command_later rs xs" using assms by (auto simp: rows_later_def)
  have "list_all2 command_later (stop_rows sid rs) (stop_rows sid xs)"
    using x(2) by (induction rule: list_all2_induct) (auto simp: stop_rows_def command_later_def same_command_def)
  then show ?thesis using x(1) by (auto simp: rows_later_def stop_rows_def)
qed

lemma stops_keys:
  assumes "stops_ok db" "1 \<le> n" "n \<le> int (length (stop_rows sid (commands db)))"
  shows "default_stop_key sid n \<in> sc_operation_key ` set (commands db)"
proof -
  have "default_stop_key sid (int (nat n)) \<in> set (map (\<lambda>n. default_stop_key sid (int n)) [1..<Suc (length (stop_rows sid (commands db)))])"
    using assms(2,3) by (subst set_map, intro imageI) auto
  then have "default_stop_key sid n \<in> set (map sc_operation_key (stop_rows sid (commands db)))"
    using assms(1,2) by (simp add: stops_ok_def)
  then show ?thesis by (auto simp: stop_rows_def)
qed

lemma row_update_stops:
  assumes u: "row_update P f" and ok: "stops_ok db" shows "stops_ok (update_commands P f db)"
proof -
  have same: "same_command r (f r)" if "P r" for r using u that by (auto simp: row_update_def)
  have "stop_rows sid (update_where P f rs) = update_where P f (stop_rows sid rs)" for sid rs
    using same by (induction rs) (auto simp: stop_rows_def same_command_def)
  moreover have "map sc_operation_key (update_where P f rs) = map sc_operation_key rs" for rs
    using same by (auto intro!: map_update_where simp: same_command_def)
  moreover have "key_ok r" if "r \<in> set (update_where P f (commands db))" for r
    using set_update_where[OF that] ok same same_key_ok unfolding stops_ok_def by metis
  ultimately show ?thesis using ok by (simp add: stops_ok_def update_commands_def del: upt_Suc)
qed

text \<open>The key of a fresh row: the next epoch, or the key that was given.\<close>

lemma fresh_key:
  assumes read: "enqueue_read env now cid key t r d = Inr (Fresh row)" and "cr_kind r \<in> set KINDS" "queue_ok d"
    and given: "operation_key_for (cr_session r) (cr_kind r) (cr_operation r) uuid = Inr key"
  shows "if default_stop r then cr_kind r = KIND_STOP \<and>
      sc_operation_key row = default_stop_key (cr_session r) (int (length (stop_rows (cr_session r) (commands d))) + 1)
    else \<exists>x. sc_operation_key row = given_key (cr_kind r) (cr_session r) x"
proof (cases "default_stop r")
  case True
  obtain agent where a: "get_agent d (cr_session r) = Some agent" "sc_operation_key row = fst (default_stop_slot d agent)"
    "snd (default_stop_slot d agent) = None"
    using enqueue_read_Fresh(8)[OF read assms(2)] True by auto
  have "s_id agent = cr_session r" using a(1) by (rule get_agent_id)
  then show ?thesis using a(2,3) True default_stops_eq[OF assms(3)]
    by (auto simp: default_stop_slot_def default_stop_def Let_def split: if_splits)
next
  case False
  then show ?thesis using enqueue_read_Fresh(7)[OF read assms(2)] operation_key_given[OF given]
    by (auto simp: default_stop_def)
qed

text \<open>An insert under the epoch that is next in one store passes only if no default stop came in meanwhile.\<close>

lemma insert_epoch:
  assumes later: "queue_later d db" and ok: "stops_ok db"
    and key: "sc_operation_key row = default_stop_key sid (int (length (stop_rows sid (commands d))) + 1)"
    and ins: "insert_command row db = Some (row', db')"
  shows "length (stop_rows sid (commands db)) = length (stop_rows sid (commands d))"
proof -
  let ?n = "int (length (stop_rows sid (commands d)))"
  have "?n \<le> int (length (stop_rows sid (commands db)))"
    using rows_later_length[OF rows_later_stops[OF later, of sid]] by simp
  moreover have "\<not> ?n + 1 \<le> int (length (stop_rows sid (commands db)))"
  proof
    assume "?n + 1 \<le> int (length (stop_rows sid (commands db)))"
    then have "default_stop_key sid (?n + 1) \<in> sc_operation_key ` set (commands db)" by (intro stops_keys[OF ok]) simp_all
    then obtain y where "y \<in> set (commands db)" "sc_operation_key y = sc_operation_key row" using key by auto
    then show False using ins[unfolded insert_command_Some] by blast
  qed
  ultimately show ?thesis by simp
qed

lemma insert_stops:
  assumes ok: "queue_ok d" "stops_ok db" and later: "queue_later d db" and kind: "cr_kind r \<in> set KINDS"
    and read: "enqueue_read env now cid key t r d = Inr (Fresh row)"
    and given: "operation_key_for (cr_session r) (cr_kind r) (cr_operation r) uuid = Inr key"
    and ins: "insert_command row db = Some (row', db')"
  shows "stops_ok db'"
proof -
  let ?sid = "cr_session r" let ?n = "int (length (stop_rows ?sid (commands d)))"
  note f = enqueue_read_Fresh[OF read kind] and i = ins[unfolded insert_command_Some] and k = fresh_key[OF read kind ok(1) given]
  have row': "sc_session_id row' = ?sid" "sc_kind row' = cr_kind r" "sc_operation_key row' = sc_operation_key row"
    and cs: "commands db' = commands db @ [row']" using i f by auto
  show ?thesis
  proof (cases "default_stop r")
    case True
    then have kk: "cr_kind r = KIND_STOP" "sc_operation_key row = default_stop_key ?sid (?n + 1)" using k by auto
    have n: "?n = int (length (stop_rows ?sid (commands db)))" using insert_epoch[OF later ok(2) kk(2) ins] by simp
    have "stop_rows sid (commands db') = stop_rows sid (commands db) @ (if sid = ?sid then [row'] else [])" for sid
      using row' kk is_default_key cs by (auto simp: stop_rows_def)
    moreover have "key_ok row'" unfolding key_ok_def using row' kk by (intro disjI1 conjI exI[of _ "?n + 1"]) auto
    ultimately show ?thesis using ok(2) n kk(2) row'(3) cs by (auto simp: stops_ok_def algebra_simps)
  next
    case False
    then obtain x where x: "sc_operation_key row' = given_key (cr_kind r) ?sid x" using k row'(3) by auto
    have "stop_rows sid (commands db') = stop_rows sid (commands db)" for sid
    proof -
      have "\<not> (sc_kind row' = KIND_STOP \<and> is_default_stop_key (sc_operation_key row') ?sid)"
        using x row'(2) given_not_default by metis
      then show ?thesis using row'(1) cs by (auto simp: stop_rows_def)
    qed
    moreover have "key_ok row'" unfolding key_ok_def by (rule disjI2, rule exI[of _ x]) (simp add: x row'(1,2))
    ultimately show ?thesis using ok(2) cs by (simp add: stops_ok_def del: upt_Suc)
  qed
qed

lemma write_stops:
  assumes "cmd_write seen a db db'" "\<And>d. d \<in> seen \<Longrightarrow> queue_ok d \<and> queue_later d db" "stops_ok db"
  shows "stops_ok db'"
  using assms
proof (induction rule: cmd_write.induct)
  case queues
  then show ?case using insert_stops check_request_kind by blast
next
  case (elsewhere db' db)
  then show ?case by (simp add: stops_ok_def)
qed (auto simp: claim_write_def settle_write_def release_command_def requeue_write_def
        cancel_dormant_def Let_def queue_updates row_update_stops
     dest: settle_read_open split: if_splits)

lemma run_stops: "cmd_run (db # hist) \<Longrightarrow> stops_ok db"
proof (induction "db # hist" arbitrary: db hist rule: cmd_run.induct)
  case empty_queue
  then show ?case by (simp add: stops_ok_def stop_rows_def)
next
  case (writes db hist a db')
  then show ?case using write_stops run_ok by (metis list.set_intros(1))
qed

end
