(* ===== verification/CommandProperties.thy ===== *)
theory CommandProperties imports CommandStops begin

text \<open>
  What the command queue promises: its invariant over every interleaving, that outcomes are final
  and a command in flight is its holder's alone, retries that queue nothing twice, the recovery of
  expired leases, and the end of a Session.
\<close>

section \<open>Lemmas of the properties\<close>

lemma update_keeps: "r \<in> set rs \<Longrightarrow> \<not> P r \<Longrightarrow> r \<in> set (update_where P f rs)"
  by (force simp: update_where_def)

lemma update_commands_keeps: "r \<in> set (commands db) \<Longrightarrow> \<not> P r \<Longrightarrow> r \<in> set (commands (update_commands P f db))"
  by (simp add: update_commands_def update_keeps)

lemma matching_Some: "rows_matching P rs \<noteq> 0 \<longleftrightarrow> (\<exists>r\<in>set rs. P r)"
  by (auto simp: rows_matching_def filter_empty_conv)

lemma claim_write_Some:
  "claim_write cid consumer attempt now expires db = (Some row, db') \<Longrightarrow> \<exists>r\<in>set (commands db). claimable cid r"
  using matching_Some[of "claimable cid" "commands db"] by (auto simp: claim_write_def Let_def split: if_splits)

lemma claim_write_keeps:
  "claim_write cid consumer attempt now expires db = (x, db') \<Longrightarrow> r \<in> set (commands db) \<Longrightarrow> \<not> claimable cid r \<Longrightarrow>
     r \<in> set (commands db')"
  by (auto simp: claim_write_def Let_def update_commands_keeps split: if_splits)

lemma settle_write_keeps:
  "settle_write cid consumer status result error now db = (x, db') \<Longrightarrow> r \<in> set (commands db) \<Longrightarrow>
     \<not> settleable cid consumer r \<Longrightarrow> r \<in> set (commands db')"
  by (auto simp: settle_write_def update_commands_keeps split: if_splits)

lemma release_keeps:
  "release_command now cid consumer reason db = (x, db') \<Longrightarrow> r \<in> set (commands db) \<Longrightarrow> \<not> held_by cid consumer r \<Longrightarrow>
     r \<in> set (commands db')"
  by (auto simp: release_command_def Let_def update_commands_keeps split: if_splits)

text \<open>Who may change a command in flight.\<close>

definition may_change :: "cmd_action \<Rightarrow> command_row \<Rightarrow> bool" where
  "may_change a r \<longleftrightarrow>
     (\<exists>status. a = Settled (sc_command_id r) (sc_claimed_by r) status \<or> a = Settled (sc_command_id r) None status) \<or>
     (\<exists>c. sc_claimed_by r = Some c \<and> a = Returned (sc_command_id r) c) \<or>
     (\<exists>m. a = Requeued (sc_command_id r) m \<and> lease_over m r) \<or>
     a = SweptDormant (sc_session_id r)"

lemma write_delivered:
  assumes "cmd_write seen a db db'" "queue_ok db" "r \<in> set (commands db)" "sc_status r = STATUS_DELIVERED"
  shows "(r \<in> set (commands db') \<or> may_change a r) \<and> (\<forall>c. a \<noteq> Granted (sc_command_id r) c)"
  using assms
proof (induction rule: cmd_write.induct)
  case queues
  then show ?case by (auto simp: insert_command_Some)
next
  case (grants d cid runtime machine attempt consumer now expires db row db')
  obtain x where x: "x \<in> set (commands db)" "claimable cid x" using claim_write_Some[OF grants.hyps(3)] by blast
  have "\<not> claimable cid r" using grants.prems(3) by (simp add: claimable_def)
  moreover have "cid \<noteq> sc_command_id r"
  proof
    assume "cid = sc_command_id r"
    then have "sc_command_id x = sc_command_id r" using x(2) by (simp add: claimable_def)
    then have "x = r"
      using get_command_unique[OF grants.prems(1) x(1)] get_command_unique[OF grants.prems(1,2)] by (metis option.inject)
    then show False using x(2) grants.prems(3) by (simp add: claimable_def)
  qed
  ultimately show ?case using claim_write_keeps[OF grants.hyps(3) grants.prems(2)] by auto
next
  case (settles d cid consumer status db result error now db')
  then show ?case using settle_write_keeps[OF settles.hyps(3) settles.prems(2)]
    by (cases consumer; cases "sc_claimed_by r") (auto simp: settleable_def may_change_def)
next
  case (returns now cid consumer reason db row db')
  then show ?case using release_keeps[OF returns.hyps(1) returns.prems(2)] by (auto simp: held_by_def may_change_def)
next
  case (requeues d c moment db)
  have "\<not> still_leased c r \<or> may_change (Requeued (lc_command_id c) moment) r"
    using requeues.hyps(2) by (auto simp: still_leased_def may_change_def lease_over_def expired_candidates_def)
  then show ?case using update_commands_keeps[OF requeues.prems(2), of "still_leased c"] by (auto simp: requeue_write_def)
next
  case (sweeps sid db)
  then show ?case by (auto simp: cancel_dormant_def may_change_def intro!: update_commands_keeps)
qed auto

lemma terminal_kept:
  assumes "queue_later db d" "r \<in> set (commands db)" "sc_status r \<in> set TERMINAL_COMMANDS"
  shows "r \<in> set (commands d)"
  using assms by (auto simp: command_later_def elim: rows_later_mem)

section \<open>Recording\<close>

lemma enqueue_passes_row:
  "enqueue_passes env sch key t r n i e = (Inr (row, new), e') \<Longrightarrow>
     row \<in> set (commands e') \<and> (\<not> default_stop r \<longrightarrow> sc_operation_key row = key)"
proof (induction n arbitrary: i e)
  case (Suc n)
  let ?d = "es_before sch i e"
  show ?case
  proof (cases "enqueue_read env (es_now sch i) (es_command_id sch i) key t r ?d")
    case (Inr a)
    show ?thesis
    proof (cases a)
      case (Existing x)
      then show ?thesis using Inr Suc.prems
        by (auto simp: enqueue_read_def Let_def default_stop_slot_def default_stops_def session_commands_def case_prod_beta
            split: option.splits if_splits dest!: row_by_Some_iff_key last_in_set)
    next
      case (Fresh x)
      have k: "\<not> default_stop r \<Longrightarrow> sc_operation_key x = key"
        using Inr Fresh by (auto simp: enqueue_read_def Let_def case_prod_beta split: option.splits if_splits)
      show ?thesis using Inr Fresh Suc k by (auto simp: Let_def insert_command_Some split: option.splits)
    qed
  qed (use Suc.prems in simp)
qed simp

lemma enqueue_Inr:
  assumes "enqueue env sch r db = (Inr (row, new), db1)"
  obtains t key where "check_request r = Inr t"
    "operation_key_for (cr_session r) (cr_kind r) (cr_operation r) (es_uuid sch) = Inr key"
    "row \<in> set (commands db1)" "\<not> default_stop r \<longrightarrow> sc_operation_key row = key"
proof -
  obtain t key where t: "check_request r = Inr t"
    "operation_key_for (cr_session r) (cr_kind r) (cr_operation r) (es_uuid sch) = Inr key"
    using assms by (cases "check_request r"; cases "operation_key_for (cr_session r) (cr_kind r) (cr_operation r) (es_uuid sch)")
      (simp_all add: enqueue_def)
  obtain e where e: "enqueue_passes env sch key t r SEQUENCE_ATTEMPTS 0 db = (Inr (row, new), e)" "commands db1 = commands e"
    using assms t by (cases "enqueue_passes env sch key t r SEQUENCE_ATTEMPTS 0 db")
      (auto simp: enqueue_def result_simps split: sum.splits prod.splits bool.splits)
  show ?thesis using enqueue_passes_row[OF e(1)] e(2) t by (intro that[of t key]) simp_all
qed

lemma operation_key_uuid:
  "text_given operation \<Longrightarrow> operation_key_for sid kind operation uuid = operation_key_for sid kind operation uuid'"
  by (auto simp: operation_key_for_def text_given_def split: option.splits list.splits)

lemma enqueue_again:
  assumes ok: "queue_ok (es_before sch 0 db)" and row: "row \<in> set (commands (es_before sch 0 db))"
    and key: "operation_key_for (cr_session r) (cr_kind r) (cr_operation r) (es_uuid sch) = Inr (sc_operation_key row)"
    and r: "check_request r = Inr t" "\<not> default_stop r" "get_agent (es_before sch 0 db) (cr_session r) = Some agent"
  shows "enqueue env sch r db = (Inr (row, False), es_before sch 0 db)"
proof -
  have "row_by sc_operation_key (sc_operation_key row) (commands (es_before sch 0 db)) = Some row"
    using ok row by (simp add: queue_ok_def row_by_distinct)
  then have "enqueue_read env (es_now sch 0) (es_command_id sch 0) (sc_operation_key row) t r (es_before sch 0 db) =
      Inr (Existing row)"
    using r by (simp add: enqueue_read_def)
  then have "enqueue_passes env sch (sc_operation_key row) t r SEQUENCE_ATTEMPTS 0 db = (Inr (row, False), es_before sch 0 db)"
    by (simp add: SEQUENCE_ATTEMPTS_def eval_nat_numeral)
  then show ?thesis using r(1) key by (simp add: enqueue_def)
qed

lemma operation_not_default: "text_given (cr_operation r) \<Longrightarrow> \<not> default_stop r"
  by (simp add: default_stop_def)

section \<open>A default stop\<close>

text \<open>No other transaction commits during the request, and the command id it drew is new.\<close>

definition alone :: "enqueue_sched \<Rightarrow> cmd_db \<Rightarrow> bool" where
  "alone sch db \<longleftrightarrow> es_before sch 0 = (\<lambda>d. d) \<and> es_between sch 0 = (\<lambda>d. d) \<and> es_command_id sch 0 \<notin> sc_command_id ` set (commands db)"

definition plain_sessions :: "cmd_db \<Rightarrow> pystr \<Rightarrow> bool" where
  "plain_sessions db sid \<longleftrightarrow> plain_id sid \<and> (\<forall>r\<in>set (commands db). plain_id (sc_session_id r))"

lemma next_epoch_free:
  assumes ok: "queue_ok db" "stops_ok db" and ids: "plain_sessions db sid"
  shows "default_stop_key sid (int (length (default_stops db sid)) + 1) \<notin> sc_operation_key ` set (commands db)"
proof
  let ?n = "length (stop_rows sid (commands db))"
  assume "default_stop_key sid (int (length (default_stops db sid)) + 1) \<in> sc_operation_key ` set (commands db)"
  then obtain r where r: "r \<in> set (commands db)" "sc_operation_key r = default_stop_key sid (int ?n + 1)"
    using default_stops_eq[OF ok(1)] by auto
  have "sc_session_id r = sid \<and> sc_kind r = KIND_STOP"
  proof (rule default_key_owner)
    show "key_ok r" using ok(2) r(1) by (simp add: stops_ok_def)
    show "sc_kind r \<in> set KINDS" using ok(1) r(1) by (simp add: queue_ok_def command_ok_def)
    show "plain_id (sc_session_id r)" "plain_id sid" using ids r(1) by (simp_all add: plain_sessions_def)
    show "sc_operation_key r = default_stop_key sid (int ?n + 1)" by (rule r(2))
  qed simp
  then have "r \<in> set (stop_rows sid (commands db))" using r is_default_key by (simp add: stop_rows_def)
  then have "default_stop_key sid (int ?n + 1) \<in> set (map sc_operation_key (stop_rows sid (commands db)))" using r(2) by force
  then have "default_stop_key sid (int ?n + 1) \<in> set (map (\<lambda>n. default_stop_key sid (int n)) [1..<Suc ?n])"
    using ok(2) by (simp only: stops_ok_def)
  then obtain m where "1 \<le> m" "m \<le> ?n" "default_stop_key sid (int m) = default_stop_key sid (int ?n + 1)" by auto
  then show False using default_stop_key_inject[of "int m" "int ?n + 1"] by simp
qed

lemma stop_request_key:
  "default_stop r \<Longrightarrow> check_request r = Inr (cr_text r) \<and> (\<exists>key. operation_key_for (cr_session r) (cr_kind r) (cr_operation r) u = Inr key)"
  by (auto simp: default_stop_def check_request_def operation_key_for_def text_given_def kind_defs split: option.splits list.splits)

lemma sequence_free:
  "queue_ok db \<Longrightarrow> r \<in> set (commands db) \<Longrightarrow> sc_session_id r = sid \<Longrightarrow> sc_sequence r \<noteq> highest_sequence db sid + 1"
proof
  assume a: "queue_ok db" "r \<in> set (commands db)" "sc_session_id r = sid" "sc_sequence r = highest_sequence db sid + 1"
  let ?n = "length (of_session sid (commands db))"
  have "sc_sequence r \<in> set (map sc_sequence (of_session sid (commands db)))" using a(2,3) by (simp add: of_session_def)
  then have "sc_sequence r \<in> set (map int [1..<Suc ?n])" using a(1) by (simp only: queue_ok_def)
  then show False using a(4) highest_sequence_ok[OF a(1)] by auto
qed

text \<open>The last default stop of a Session can still count; the row that a press records when none does.\<close>

definition stop_stands :: "cmd_db \<Rightarrow> pystr \<Rightarrow> session_row \<Rightarrow> bool" where
  "stop_stands db sid agent \<longleftrightarrow>
     default_stops db sid \<noteq> [] \<and> \<not> stop_attempt_is_spent (last (default_stops db sid)) agent"

definition next_stop :: "cmd_db \<Rightarrow> pystr \<Rightarrow> session_row \<Rightarrow> command_row \<Rightarrow> bool" where
  "next_stop db sid agent row \<longleftrightarrow>
     sc_operation_key row = default_stop_key sid (int (length (default_stops db sid)) + 1) \<and>
     sc_session_id row = sid \<and> sc_kind row = KIND_STOP \<and>
     sc_status row = (if s_ended_at agent = None then STATUS_REQUESTED else STATUS_ACKNOWLEDGED)"

lemma read_stop:
  assumes "default_stop r"
  obtains "get_agent d (cr_session r) = None"
      "enqueue_read env now cid key t r d = Inl (UnknownCommandSession (cr_session r))"
    | agent where "get_agent d (cr_session r) = Some agent" "stop_stands d (cr_session r) agent"
      "enqueue_read env now cid key t r d = Inr (Existing (last (default_stops d (cr_session r))))"
    | agent row where "get_agent d (cr_session r) = Some agent" "\<not> stop_stands d (cr_session r) agent"
      "enqueue_read env now cid key t r d = Inr (Fresh row)" "next_stop d (cr_session r) agent row"
proof (cases "get_agent d (cr_session r)")
  case None
  then show ?thesis using that(1) by (simp add: enqueue_read_def)
next
  case (Some agent)
  have id: "s_id agent = cr_session r" using Some by (rule get_agent_id)
  have kind: "cr_kind r = KIND_STOP" using assms by (simp add: default_stop_def)
  show ?thesis
  proof (cases "stop_stands d (cr_session r) agent")
    case True
    then show ?thesis using that(2) Some id assms
      by (simp add: enqueue_read_def default_stop_slot_def stop_stands_def Let_def)
  next
    case False
    then have "default_stop_slot d agent =
        (default_stop_key (cr_session r) (int (length (default_stops d (cr_session r))) + 1), None)"
      using id by (auto simp: default_stop_slot_def stop_stands_def Let_def)
    then show ?thesis using that(3)[OF Some False] Some assms kind
      by (auto simp: enqueue_read_def Let_def case_prod_beta initial_state_def next_stop_def)
  qed
qed

text \<open>How a press is answered, whatever others commit during it.\<close>

definition press_answer ::
    "cmd_db \<Rightarrow> pystr \<Rightarrow> (command_error + command_row \<times> bool) \<Rightarrow> cmd_db \<Rightarrow> bool" where
  "press_answer db sid res db' \<longleftrightarrow>
     (case res of
        Inl e \<Rightarrow> e = NoSequence \<or> e = UnknownCommandSession sid \<and> get_agent db' sid = None
      | Inr (row, False) \<Rightarrow>
          \<exists>agent. get_agent db' sid = Some agent \<and> stop_stands db' sid agent \<and> row = last (default_stops db' sid)
      | Inr (row, True) \<Rightarrow>
          \<exists>d d' agent. run_to db d \<and> run_to d d' \<and> get_agent d sid = Some agent \<and> \<not> stop_stands d sid agent \<and>
            length (default_stops d' sid) = length (default_stops d sid) \<and> next_stop d' sid agent row \<and>
            commands db' = commands d' @ [row])"

lemma press_passes:
  assumes run: "cmd_run (db # hist)" and calm: "calm sch" and stop: "default_stop r"
  shows "run_to db e \<Longrightarrow> enqueue_passes env sch key t r n i e = (res, e') \<Longrightarrow> press_answer db (cr_session r) res e'"
proof (induction n arbitrary: i e)
  case 0
  then show ?case by (auto simp: press_answer_def)
next
  case (Suc n)
  let ?sid = "cr_session r" let ?d = "es_before sch i e" let ?f = "es_between sch i ?d"
  have d: "run_to db ?d" "run_to ?d ?f" using Suc.prems(1) calm by (auto simp: calm_def commitsD)
  obtain h where h: "cmd_run (?d # h)" using d(1) run by (auto simp: run_to_def)
  obtain h' where h': "cmd_run (?f # h')" using d(2) h by (auto simp: run_to_def)
  have ok: "queue_ok ?d" "queue_ok ?f" "stops_ok ?f" "queue_later ?d ?f"
    using run_ok[OF h] run_ok[OF h'] run_stops[OF h'] run_to_later[OF d(2) h] by auto
  show ?case
  proof (rule read_stop[OF stop, of ?d env "es_now sch i" "es_command_id sch i" key t], goal_cases)
    case 1
    then show ?case using Suc.prems(2) by (auto simp: press_answer_def Let_def)
  next
    case (2 agent)
    then show ?case using Suc.prems(2) by (auto simp: press_answer_def Let_def)
  next
    case (3 agent row)
    show ?case
    proof (cases "insert_command row ?f")
      case None
      then show ?thesis using Suc.IH[OF run_to_trans[OF d]] Suc.prems(2) 3(3) by (simp add: Let_def)
    next
      case (Some x)
      obtain row' f' where x: "x = (row', f')" by fastforce
      then have res: "res = Inr (row', True)" "e' = f'" using Suc.prems(2) 3(3) Some by (simp_all add: Let_def)
      have n: "length (default_stops ?f ?sid) = length (default_stops ?d ?sid)"
        using insert_epoch[OF ok(4,3) _ Some[unfolded x], of ?sid] 3(4) ok(1,2) by (simp add: next_stop_def default_stops_eq)
      have "next_stop ?f ?sid agent row'" "commands f' = commands ?f @ [row']"
        using 3(4) n Some x by (auto simp: next_stop_def insert_command_Some)
      then show ?thesis unfolding press_answer_def res using d 3(1,2) n by auto
    qed
  qed
qed

lemma press_concurrent:
  assumes run: "cmd_run (db # hist)" and calm: "calm sch" and stop: "default_stop r"
    and press: "enqueue env sch r db = (res, db')"
  shows "press_answer db (cr_session r) res db'"
proof -
  obtain key where k: "check_request r = Inr (cr_text r)"
    "operation_key_for (cr_session r) (cr_kind r) (cr_operation r) (es_uuid sch) = Inr key"
    using stop_request_key[OF stop] by blast
  obtain res0 e where p: "enqueue_passes env sch key (cr_text r) r SEQUENCE_ATTEMPTS 0 db = (res0, e)" by fastforce
  have a: "press_answer db (cr_session r) res0 e" by (rule press_passes[OF run calm stop run_to_refl p])
  have "res = res0 \<and> (db' = e \<or> (\<exists>row. res0 = Inr (row, True)) \<and> commands db' = commands e)"
    using press p k by (auto simp: enqueue_def result_simps split: sum.splits prod.splits bool.splits)
  then show ?thesis using a by (auto simp: press_answer_def)
qed

text \<open>Undisturbed, the first pass decides.\<close>

lemma press_alone:
  assumes ok: "queue_ok db" "stops_ok db" "plain_sessions db (cr_session r)"
    and r: "get_agent db (cr_session r) = Some agent" "default_stop r" "alone sch db"
  shows "if stop_stands db (cr_session r) agent
    then enqueue env sch r db = (Inr (last (default_stops db (cr_session r)), False), db)
    else \<exists>row db'. enqueue env sch r db = (Inr (row, True), db') \<and> commands db' = commands db @ [row] \<and>
      next_stop db (cr_session r) agent row"
proof -
  obtain key where k: "check_request r = Inr (cr_text r)"
    "operation_key_for (cr_session r) (cr_kind r) (cr_operation r) (es_uuid sch) = Inr key"
    using stop_request_key[OF r(2)] by blast
  show ?thesis
  proof (rule read_stop[OF r(2), of db env "es_now sch 0" "es_command_id sch 0" key "cr_text r"], goal_cases)
    case 1
    then show ?case using r(1) by simp
  next
    case 2
    then show ?case using r(1,3) k by (simp add: enqueue_def SEQUENCE_ATTEMPTS_def eval_nat_numeral alone_def)
  next
    case (3 agent' row)
    have kind: "cr_kind r \<in> set KINDS" using r(2) by (simp add: KINDS_def default_stop_def)
    note f = enqueue_read_Fresh[OF 3(3) kind]
    have free: "sc_operation_key row \<notin> sc_operation_key ` set (commands db)"
      using next_epoch_free[OF ok] 3(4) by (simp add: next_stop_def)
    let ?row = "row\<lparr>sc_id := next_row_id (map sc_id (commands db))\<rparr>"
    let ?db = "db\<lparr>commands := commands db @ [?row]\<rparr>"
    have "insert_command row db = Some (?row, ?db)"
      unfolding insert_command_Some using free f sequence_free[OF ok(1)] r(3) by (auto simp: alone_def image_iff)
    then have "enqueue env sch r db = (Inr (?row, True), requested_event env (es_event_at sch) ?row ?db)"
      using 3(3) r(3) k by (simp add: enqueue_def SEQUENCE_ATTEMPTS_def eval_nat_numeral alone_def)
    then show ?case using 3 r(1) by (auto simp: next_stop_def)
  qed
qed

section \<open>Properties\<close>

text \<open>C20. Everything that writes the queue keeps it in order. In every store reached from an empty queue by
  writes in any interleaving, and after each operation of the queue, each end of a Session, the
  sweep, the reaper and the reconciliation, with anything of this kind committed between their reads
  and their writes: command ids and operation keys are unique, the commands of a Session are
  numbered 1, 2, .. without a gap, default stops carry the epochs 1, 2, .., the columns of every row
  fit its status, and every earlier command is still there under its identity.\<close>

theorem queue_invariant:
  assumes "cmd_run (db # hist)" "commits others" "calm sch"
    "db' \<in> {db, snd (enqueue env sch r db), snd (claim env others now cid consumer lease runtime machine db),
       snd (settle env others now cid by status result error db), snd (release_command now cid consumer error db),
       expire_leases env now db, snd (finalize_session env now sid state summary error db),
       snd (set_session_state env now sid state result db), snd (end_session env now sid summary db),
       snd (reap_zombie_sessions env name alive now db), snd (sweep_stale_session_leases now db),
       reconcile_machine_sessions env now machine kept runtime error grace db}"
  shows "queue_ok db' \<and> stops_ok db' \<and> queue_later db db'"
proof -
  have run: "run_to db db'" using assms(2-4) operation_runs by (auto simp del: reap_commands)
  then obtain h where "cmd_run (db' # h)" using assms(1) by (auto simp: run_to_def)
  then show ?thesis using run_stops run_to_later[OF run assms(1)] by blast
qed

text \<open>C19. An outcome is final. A command that was acknowledged, failed or cancelled in one store of a run is
  there unchanged, with its result, error and completion time, in every later store.\<close>

theorem command_final:
  assumes "cmd_run (later @ db # hist)" "d \<in> set later" "r \<in> set (commands db)" "sc_status r \<in> set TERMINAL_COMMANDS"
  shows "r \<in> set (commands d)"
  using terminal_kept[OF run_later[OF assms(1,2)] assms(3,4)] .

text \<open>C18. A command in flight is its holder's. While a command is delivered no write claims it again, and it
  changes only by the settlement or the return of the consumer that holds it, by the requeue of a
  lease that is over, by a settlement of the hub, or by the sweep of its dormant Session. In
  particular no write of another consumer reaches it.\<close>

theorem delivery_exclusive:
  assumes "cmd_run (db # hist)" "cmd_write (set (db # hist)) a db db'"
    "r \<in> set (commands db)" "sc_status r = STATUS_DELIVERED"
  shows "(r \<in> set (commands db') \<or> may_change a r) \<and> (\<forall>c. a \<noteq> Granted (sc_command_id r) c)"
  using write_delivered[OF assms(2) _ assms(3,4)] run_ok[OF assms(1)] by simp

text \<open>One logical operation per retry. Repeating a request under the same operation id, after anything
  was committed and whatever is committed meanwhile, answers the command of the first request in its
  present state, as a duplicate, and queues nothing.\<close>

theorem enqueue_once:
  assumes run: "cmd_run (db # hist)" and calm: "calm sch" "calm sch'"
    and first: "enqueue env sch r db = (Inr (row, new), db1)" and later: "run_to db1 db2"
    and retry: "cr_session r' = cr_session r" "cr_kind r' = cr_kind r" "cr_operation r' = cr_operation r"
    and op: "text_given (cr_operation r)" and valid: "check_request r' = Inr t"
    and known: "get_agent (es_before sch' 0 db2) (cr_session r') \<noteq> None"
  shows "\<exists>row'. enqueue env' sch' r' db2 = (Inr (row', False), es_before sch' 0 db2) \<and> command_later row row'"
proof -
  let ?e = "es_before sch' 0 db2"
  obtain key where k: "operation_key_for (cr_session r) (cr_kind r) (cr_operation r) (es_uuid sch) = Inr key"
    "row \<in> set (commands db1)" "sc_operation_key row = key"
    using first operation_not_default[OF op] by (auto elim: enqueue_Inr)
  have "run_to db2 ?e" using calm(2) by (simp add: calm_def commits_def)
  then have e: "run_to db1 ?e" using later run_to_trans by blast
  have "run_to db db1" using enqueue_run[OF calm(1), of db env r] first by simp
  then obtain h where h: "cmd_run (db1 # h)" using run by (auto simp: run_to_def)
  have qe: "queue_ok ?e" "queue_later db1 ?e" using run_to_later[OF e h] by auto
  obtain row' where row': "row' \<in> set (commands ?e)" "command_later row row'" using rows_later_mem[OF qe(2) k(2)] .
  obtain agent where agent: "get_agent ?e (cr_session r') = Some agent" using known by blast
  have "enqueue env' sch' r' db2 = (Inr (row', False), ?e)"
  proof (rule enqueue_again[OF qe(1) row'(1) _ valid _ agent])
    show "operation_key_for (cr_session r') (cr_kind r') (cr_operation r') (es_uuid sch') = Inr (sc_operation_key row')"
      using k(1,3) row'(2) retry operation_key_uuid[OF op, of "cr_session r" "cr_kind r" "es_uuid sch'" "es_uuid sch"]
      by (simp add: command_later_def same_command_def)
    show "\<not> default_stop r'" using op retry by (simp add: operation_not_default)
  qed
  then show ?thesis using row'(2) by blast
qed



text \<open>Expired leases are recovered. One call requeues every delivered command whose lease is over and
  whose attempts are not used up, fails as abandoned those whose attempts are, and leaves every
  other command as it is: the two loops amount to one update of each row.\<close>

theorem expired_recovered:
  assumes "cmd_run (db # hist)"
  shows "commands (expire_leases env moment db) = map (recovered (max_attempts env) moment) (commands db)"
  using expire_exact run_ok[OF assms] by simp

text \<open>C22. The end of a Session is complete. Finalizing a Session that runs ends it with the given state,
  cancels exactly its open commands as \<open>session_ended\<close>, gives back its file claims and its tasks in
  progress, and touches how no other Session stands.\<close>

theorem session_end_complete:
  assumes "cmd_run (db # hist)" "get_agent db sid = Some agent" "s_ended_at agent = None"
    "state \<in> set TERMINAL_SESSION_STATES"
  shows "\<exists>row db'. finalize_session env now sid state summary reason db = (Inr (Some row), db') \<and>
    s_ended_at row = Some now \<and> s_state row = state \<and> standing db' sid = Some (Some now, state) \<and>
    commands db' = update_where (\<lambda>r. sc_session_id r = sid \<and> sc_status r \<in> set OPEN_COMMANDS)
      (settled_row now STATUS_CANCELLED (Some RESULT_SESSION_ENDED) (Some (if text_given reason then the reason else summary)))
      (commands db) \<and>
    session_left sid db db' \<and> (\<forall>x. x \<noteq> sid \<longrightarrow> standing db' x = standing db x)"
proof -
  obtain db1 where w: "finalize_write now state summary agent db = (True, db1)" "commands db1 = commands db"
    "session_left sid db db1" "standing db1 sid = Some (Some now, state)" "\<forall>x. x \<noteq> sid \<longrightarrow> standing db1 x = standing db x"
    using finalize_write_True[OF assms(2,3)] by blast
  obtain row where row: "get_agent db1 sid = Some row" "s_ended_at row = Some now" "s_state row = state"
    using w(4) by (auto simp: standing_def)
  have ok: "queue_ok db1" using run_ok[OF assms(1)] queue_ok_cong[OF w(2)] by simp
  have why: "(case reason of Some (c # cs) \<Rightarrow> c # cs | _ \<Rightarrow> summary) = (if text_given reason then the reason else summary)"
    by (auto simp: text_given_def split: option.splits list.splits)
  show ?thesis
    using assms(2,4) w row cancel_open_exact[OF ok] cancel_open_tables[of env now sid]
    by (auto simp: finalize_session_def Let_def why cancel_open_standing intro!: session_left_cong[OF w(3)])
qed

text \<open>A late settlement changes nothing. When, whatever was committed since the consumer looked, it no
  longer holds the command, its settlement writes nothing, and if it is answered at all, it is with
  the command as another left it.\<close>

theorem late_settle_refused:
  assumes "\<And>r. r \<in> set (commands (others db)) \<Longrightarrow> \<not> held_by cid c r"
    "settle env others now cid (Some c) status result error db = (res, db')"
  shows "db' \<in> {db, others db} \<and> (\<forall>row. res = Inr row \<longrightarrow> row \<in> set (commands db'))"
proof -
  have "rows_matching (settleable cid (Some c)) (commands (others db)) = 0"
    using assms(1) by (auto simp: rows_matching_def filter_empty_conv settleable_def held_by_def)
  then have "settle_write cid (Some c) status result error now (others db) = (False, others db)"
    by (simp add: settle_write_def)
  then show ?thesis using assms(2)
    by (auto simp: settle_def settle_command_def settle_read_def dest!: get_command_mem
        split: sum.splits option.splits prod.splits bool.splits if_splits)
qed


section \<open>A sample run\<close>

text \<open>A Session on machine \<open>m1\<close> whose stop is requested, claimed by \<open>w1\<close> and reported stopped.\<close>

definition s1 :: pystr where "s1 = lit ''s1''"
definition m1 :: pystr where "m1 = lit ''m1''"
definition w1 :: pystr where "w1 = lit ''w1''"
definition c1 :: pystr where "c1 = lit ''c1''"

definition sample_agent :: session_row where
  "sample_agent = \<lparr>s_id = s1, s_workspace_id = 11, s_tool = lit ''claude'', s_pid = Some 42, s_machine_id = Some m1,
     s_created_by_operator_id = None, s_started_at = 0, s_ended_at = None, s_state = ''running'', s_last_activity_at = Some 5,
     s_summary = None, s_issue_id = None, s_persona_id = None, s_runtime_id = None\<rparr>"

definition stop_row :: command_row where
  "stop_row = \<lparr>sc_id = 1, sc_command_id = c1, sc_operation_key = default_stop_key s1 1, sc_session_id = s1,
     sc_sequence = 1, sc_kind = KIND_STOP, sc_status = STATUS_REQUESTED, sc_payload = [], sc_org_id = None,
     sc_workspace_id = Some 11, sc_runtime_id = None, sc_machine_id = Some m1, sc_requested_by = None, sc_attempt = 0,
     sc_claimed_by = None, sc_claimed_at = None, sc_lease_expires_at = None, sc_delivered_at = None, sc_completed_at = None,
     sc_result = None, sc_error = None, sc_created_at = 100, sc_updated_at = 100\<rparr>"

definition claimed_row :: command_row where
  "claimed_row = stop_row\<lparr>sc_status := STATUS_DELIVERED, sc_claimed_by := Some w1, sc_claimed_at := Some 200,
     sc_lease_expires_at := Some (200 + seconds 60), sc_delivered_at := Some 200, sc_attempt := 1, sc_updated_at := 200\<rparr>"

definition queue_with :: "command_row list \<Rightarrow> cmd_db" where
  "queue_with rs = \<lparr>lbase = empty_store\<lparr>sessions := [sample_agent]\<rparr>, leases = [], attachments = [], successors = [], events = [],
     commands = rs, claims = [\<lparr>wc_workspace_id = 11, wc_session_id = s1\<rparr>], tasks = [], mail_attachments = [], notifications = [],
     workspace_touches = []\<rparr>"

definition cmd_env0 :: cmd_env where
  "cmd_env0 = \<lparr>ce_lease_seconds = [], ce_max_attempts = [], ce_session_lease = None, ce_interactive = []\<rparr>"

definition quiet :: "pystr \<Rightarrow> enqueue_sched" where
  "quiet cid = \<lparr>es_now = (\<lambda>_. 100), es_command_id = (\<lambda>_. cid), es_uuid = [], es_before = (\<lambda>_ d. d), es_between = (\<lambda>_ d. d),
     es_event_at = 100\<rparr>"

definition stop_request :: "pystr option \<Rightarrow> command_request" where
  "stop_request operation = \<lparr>cr_session = s1, cr_kind = KIND_STOP, cr_text = None, cr_reason = None, cr_operation = operation,
     cr_requested_by = None\<rparr>"

lemma queue_with_simps [simp]:
  "commands (queue_with rs) = rs" "get_agent (queue_with rs) s1 = Some sample_agent"
  "queue_with rs\<lparr>commands := rs'\<rparr> = queue_with rs'"
  by (simp_all add: queue_with_def get_agent_def get_session_row_def sample_agent_def)

lemma quiet_simps [simp]: "calm (quiet cid)" "alone (quiet cid) db \<longleftrightarrow> cid \<notin> sc_command_id ` set (commands db)"
  by (simp_all add: quiet_def calm_def alone_def)

lemma stop_request_simps [simp]:
  "cr_session (stop_request x) = s1" "cr_kind (stop_request x) = KIND_STOP" "cr_operation (stop_request x) = x"
  "cr_requested_by (stop_request x) = None" "request_payload None (stop_request None) = []"
  "default_stop (stop_request None)" "check_request (stop_request x) = Inr None"
  by (simp_all add: stop_request_def default_stop_def text_given_def check_request_def request_payload_def kind_defs)

lemma fresh_facts:
  "default_stop_slot (queue_with []) sample_agent = (default_stop_key s1 1, None)"
  "highest_sequence (queue_with []) s1 = 0"
  "workspace_org_id (lbase (queue_with [])) (Some 11) = None"
  "binding_machine_id (lbase (queue_with [])) sample_agent = Some m1"
  "initial_state cmd_env0 sample_agent KIND_STOP = (STATUS_REQUESTED, None, None)"
  "s_workspace_id sample_agent = 11" "s_runtime_id sample_agent = None"
  by (simp_all add: default_stop_slot_def default_stops_def session_commands_def sample_agent_def highest_sequence_def
      queue_with_def workspace_org_id_def empty_store_def get_workspace_row_def binding_machine_id_def initial_state_def)

lemma run_queued: "cmd_run [queue_with [stop_row], queue_with []]"
proof (rule cmd_run.writes[OF cmd_run.empty_queue])
  let ?fresh = "stop_row\<lparr>sc_id := 0\<rparr>"
  have "enqueue_read cmd_env0 100 c1 (default_stop_key s1 1) None (stop_request None) (queue_with []) =
      Inr (Fresh ?fresh)"
    using fresh_facts by (simp add: enqueue_read_def stop_row_def text_given_def)
  then show "cmd_write (set [queue_with []]) (Queued c1) (queue_with []) (queue_with [stop_row])"
    by (intro cmd_write.queues[where r = "stop_request None" and uuid = "[]" and row = ?fresh and row' = stop_row])
      (simp_all add: operation_key_for_def insert_command_Some next_row_id_def, simp add: stop_row_def)
qed simp

lemma sample_claim:
  "claim_read c1 None (Some m1) (queue_with [stop_row]) = Inr 1"
  "claim_write c1 w1 1 200 (200 + seconds 60) (queue_with [stop_row]) = (Some claimed_row, queue_with [claimed_row])"
proof -
  show "claim_read c1 None (Some m1) (queue_with [stop_row]) = Inr 1"
    by (simp add: claim_read_def get_command_def stop_row_def command_owned_by_def owner_of_def)
  show "claim_write c1 w1 1 200 (200 + seconds 60) (queue_with [stop_row]) = (Some claimed_row, queue_with [claimed_row])"
    by (simp add: claim_write_def claimable_def rows_matching_def update_commands_def get_command_def Let_def)
      (simp add: claimed_row_def stop_row_def CLAIMED_BY_CHARS_def w1_def)
qed

lemma run_claimed: "cmd_run [queue_with [claimed_row], queue_with [stop_row], queue_with []]"
proof (rule cmd_run.writes[OF run_queued])
  show "cmd_write (set [queue_with [stop_row], queue_with []]) (Granted c1 (take CLAIMED_BY_CHARS w1))
      (queue_with [stop_row]) (queue_with [claimed_row])"
    by (rule cmd_write.grants[OF _ sample_claim]) simp
qed

definition stopped_row :: command_row where
  "stopped_row = settled_row 200 STATUS_ACKNOWLEDGED (Some RESULT_STOPPED) None claimed_row"

lemma sample_settle:
  "take CLAIMED_BY_CHARS w1 = w1"
  "settle_read c1 (Some w1) STATUS_ACKNOWLEDGED (queue_with [claimed_row]) = Inr None"
  "settle_write c1 (Some w1) STATUS_ACKNOWLEDGED (Some RESULT_STOPPED) None 200 (queue_with [claimed_row]) =
     (True, queue_with [stopped_row])"
proof -
  show w: "take CLAIMED_BY_CHARS w1 = w1" by (simp add: CLAIMED_BY_CHARS_def w1_def)
  show "settle_read c1 (Some w1) STATUS_ACKNOWLEDGED (queue_with [claimed_row]) = Inr None"
    using w by (simp add: settle_read_def get_command_def claimed_row_def stop_row_def)
  show "settle_write c1 (Some w1) STATUS_ACKNOWLEDGED (Some RESULT_STOPPED) None 200 (queue_with [claimed_row]) =
      (True, queue_with [stopped_row])"
    using w by (simp add: settle_write_def settleable_def rows_matching_def update_commands_def)
      (simp add: stopped_row_def settled_row_def claimed_row_def stop_row_def)
qed

lemma write_settled:
  "cmd_write (set [queue_with [claimed_row], queue_with [stop_row], queue_with []])
     (Settled c1 (Some w1) STATUS_ACKNOWLEDGED) (queue_with [claimed_row]) (queue_with [stopped_row])"
  using cmd_write.settles[OF _ sample_settle(2,3)] sample_settle(1) by simp

lemma run_settled: "cmd_run [queue_with [stopped_row], queue_with [claimed_row], queue_with [stop_row], queue_with []]"
  by (rule cmd_run.writes[OF run_claimed write_settled])

text \<open>A stop under an operation id.\<close>

definition op_row :: command_row where
  "op_row = stop_row\<lparr>sc_operation_key := given_key KIND_STOP s1 [49], sc_payload := [(lit ''operation_id'', JStr [49])]\<rparr>"

lemma op_enqueued:
  "enqueue cmd_env0 (quiet c1) (stop_request (Some [49])) (queue_with []) =
     (Inr (op_row, True), requested_event cmd_env0 100 op_row (queue_with [op_row]))"
proof -
  have "request_payload None (stop_request (Some [49])) = [(lit ''operation_id'', JStr [49])]"
    by (simp add: request_payload_def text_given_def stop_request_def)
  then have "enqueue_read cmd_env0 100 c1 (given_key KIND_STOP s1 [49]) None (stop_request (Some [49])) (queue_with []) =
      Inr (Fresh (op_row\<lparr>sc_id := 0\<rparr>))"
    using fresh_facts by (simp add: enqueue_read_def op_row_def stop_row_def text_given_def default_stop_def)
  moreover have "insert_command (op_row\<lparr>sc_id := 0\<rparr>) (queue_with []) = Some (op_row, queue_with [op_row])"
    by (simp add: insert_command_Some next_row_id_def) (simp add: op_row_def stop_row_def)
  moreover have "operation_key_for s1 KIND_STOP (Some [49]) [] = Inr (given_key KIND_STOP s1 [49])"
    by (simp add: operation_key_for_def given_key_def MAX_OPERATION_ID_CHARS_def)
  ultimately show ?thesis by (simp add: enqueue_def SEQUENCE_ATTEMPTS_def eval_nat_numeral quiet_def)
qed

section \<open>Witnesses\<close>

theorem queue_invariant_witness:
  "queue_ok (expire_leases cmd_env0 900 (queue_with [claimed_row])) \<and>
   queue_later (queue_with [claimed_row]) (expire_leases cmd_env0 900 (queue_with [claimed_row]))"
  using queue_invariant[OF run_claimed commits_id quiet_simps(1), where env = cmd_env0 and now = 900 and db' = "expire_leases cmd_env0 900 (queue_with [claimed_row])"] by simp

theorem command_final_witness:
  "stopped_row \<in> set (commands (queue_with [stopped_row]))"
proof -
  have "cmd_run ([queue_with [stopped_row]] @ queue_with [stopped_row] # [queue_with [claimed_row], queue_with [stop_row], queue_with []])"
    using cmd_run.writes[OF run_settled cmd_write.elsewhere] by simp
  then show ?thesis by (rule command_final) (simp_all add: stopped_row_def settled_row_def)
qed

theorem delivery_exclusive_witness:
  "claimed_row \<notin> set (commands (queue_with [stopped_row])) \<and>
   may_change (Settled c1 (Some w1) STATUS_ACKNOWLEDGED) claimed_row"
proof -
  have "sc_status claimed_row \<noteq> sc_status stopped_row" by (simp add: stopped_row_def settled_row_def claimed_row_def status_defs)
  then have "claimed_row \<noteq> stopped_row" by (rule contrapos_nn) simp
  moreover have "sc_command_id claimed_row = c1" "sc_status claimed_row = STATUS_DELIVERED"
    by (simp_all add: claimed_row_def stop_row_def)
  ultimately show ?thesis using delivery_exclusive[OF run_claimed write_settled, of claimed_row] by simp
qed

theorem enqueue_once_witness:
  "\<exists>row db. enqueue cmd_env0 (quiet w1) (stop_request (Some [49])) (requested_event cmd_env0 100 op_row (queue_with [op_row])) =
     (Inr (row, False), db) \<and> sc_command_id row = c1"
proof -
  let ?db = "requested_event cmd_env0 100 op_row (queue_with [op_row])"
  have "standing ?db s1 \<noteq> None" by (simp add: requested_event_def) (simp add: standing_def)
  then have "get_agent (es_before (quiet w1) 0 ?db) s1 \<noteq> None" by (simp add: standing_def quiet_def)
  from enqueue_once[OF cmd_run.empty_queue quiet_simps(1) quiet_simps(1) op_enqueued run_to_refl, of "stop_request (Some [49])" None w1 cmd_env0]
    this show ?thesis
    by (auto simp: text_given_def command_later_def same_command_def op_row_def stop_row_def)
qed


theorem expired_recovered_witness:
  "map (\<lambda>r. (sc_status r, sc_attempt r)) (commands (expire_leases cmd_env0 (200 + seconds 60) (queue_with [claimed_row]))) = [(STATUS_REQUESTED, 1)]"
  unfolding expired_recovered[OF run_claimed]
  by (simp add: recovered_def lease_over_def requeued_row_def claimed_row_def max_attempts_def positive_env_int_def cmd_env0_def
      DEFAULT_MAX_ATTEMPTS_def)

theorem session_end_complete_witness:
  "\<exists>row db'. finalize_session cmd_env0 400 s1 ''failed'' [] None (queue_with [claimed_row]) = (Inr (Some row), db') \<and>
     map sc_status (commands db') = [STATUS_CANCELLED] \<and> claims db' = []"
proof -
  have a: "s_ended_at sample_agent = None" "''failed'' \<in> set TERMINAL_SESSION_STATES"
    by (simp_all add: sample_agent_def TERMINAL_SESSION_STATES_def)
  show ?thesis
    using session_end_complete[OF run_claimed queue_with_simps(2) a, of cmd_env0 400 "[]" None]
    by (auto simp: session_left_def settled_row_def claimed_row_def stop_row_def queue_with_def)
qed

theorem late_settle_refused_witness:
  "snd (settle cmd_env0 (\<lambda>d. queue_with [stop_row]) 500 c1 (Some w1) STATUS_FAILED None None (queue_with [claimed_row]))
     \<in> {queue_with [claimed_row], queue_with [stop_row]}"
proof -
  have "\<not> held_by c1 w1 r" if "r \<in> set (commands ((\<lambda>d. queue_with [stop_row]) (queue_with [claimed_row])))" for r
    using that by (simp add: held_by_def stop_row_def)
  from late_settle_refused[where others = "\<lambda>d. queue_with [stop_row]" and db = "queue_with [claimed_row]", OF this] show ?thesis
    by (cases "settle cmd_env0 (\<lambda>d. queue_with [stop_row]) 500 c1 (Some w1) STATUS_FAILED None None (queue_with [claimed_row])") auto
qed

end
