(* ===== verification/DispatchProperties.thy ===== *)
theory DispatchProperties imports SessionChannel CommandProperties begin

text \<open>
  What the dispatcher of a process reports is true: a stop it acknowledges ended the agent, a message
  it acknowledges was written to it. Its writes are a run of the queue. The theory closes with what
  the code does beside its documentation.
\<close>

section \<open>Effects last\<close>

definition channel_later :: "channel \<Rightarrow> channel \<Rightarrow> bool" where
  "channel_later ch ch' \<longleftrightarrow> set (ch_owned ch') \<subseteq> set (ch_owned ch) \<and>
     (\<forall>h. (\<not> pr_alive (ch_process ch h) \<longrightarrow> \<not> pr_alive (ch_process ch' h)) \<and>
          set (pr_written (ch_process ch h)) \<subseteq> set (pr_written (ch_process ch' h)))"

lemma channel_later_refl [simp]: "channel_later ch ch"
  by (simp add: channel_later_def)

lemma channel_later_trans: "channel_later a b \<Longrightarrow> channel_later b c \<Longrightarrow> channel_later a c"
  unfolding channel_later_def by (meson subset_trans)

lemma owned_mem: "owned ch sid = Some p \<Longrightarrow> p \<in> set (ch_owned ch) \<and> op_session_id p = sid"
  by (auto simp: owned_def dest: row_by_Some_iff_key split: if_splits)

lemma stop_later: "channel_later ch (snd (stop_session os sid ch))"
  by (auto simp: stop_session_def channel_later_def set_process_def unregister_def Let_def process_of_def
      split: option.split stop_answer.split)

lemma deliver_later: "channel_later ch (snd (deliver_message env os sid t ch))"
  by (auto simp: deliver_message_def channel_later_def set_process_def process_of_def Let_def split: option.split)

lemma execute_later: "channel_later ch (snd (execute_command env os row ch))"
  using stop_later deliver_later by (auto simp: execute_command_def case_prod_beta)

text \<open>The effect a command asks for, on the process of its Session.\<close>

definition effect_done :: "command_row \<Rightarrow> channel \<Rightarrow> channel \<Rightarrow> bool" where
  "effect_done row ch ch' \<longleftrightarrow>
     (\<exists>p\<in>set (ch_owned ch). op_session_id p = sc_session_id row \<and>
        (sc_kind row = KIND_STOP \<longrightarrow> \<not> pr_alive (ch_process ch' (op_handle p))) \<and>
        (sc_kind row = KIND_MESSAGE \<longrightarrow> line_of (command_text row) \<in> set (pr_written (ch_process ch' (op_handle p)))))"

lemma effect_done_later:
  "\<lbrakk>effect_done row ch1 ch2; channel_later ch ch1; channel_later ch2 ch3\<rbrakk> \<Longrightarrow> effect_done row ch ch3"
  unfolding effect_done_def channel_later_def by blast

lemma stop_done:
  "stop_session os sid ch = (Some out, ch') \<Longrightarrow> co_ok out \<Longrightarrow>
     \<exists>p\<in>set (ch_owned ch). op_session_id p = sid \<and> \<not> pr_alive (ch_process ch' (op_handle p))"
  by (auto simp: stop_session_def not_owned_outcome_def Let_def set_process_def unregister_def process_of_def
      dest: owned_mem split: option.splits if_splits stop_answer.splits)

lemma deliver_done:
  "deliver_message env os sid t ch = (out, ch') \<Longrightarrow> co_ok out \<Longrightarrow>
     \<exists>p\<in>set (ch_owned ch). op_session_id p = sid \<and> line_of t \<in> set (pr_written (ch_process ch' (op_handle p)))"
  by (auto simp: deliver_message_def not_owned_outcome_def Let_def set_process_def
      dest: owned_mem split: option.splits if_splits)

lemma execute_done:
  assumes "execute_command env os row ch = (Some out, ch')" "co_ok out" shows "effect_done row ch ch'"
proof (cases "sc_kind row = KIND_STOP")
  case True
  then have "\<exists>p\<in>set (ch_owned ch). op_session_id p = sc_session_id row \<and> \<not> pr_alive (ch_process ch' (op_handle p))"
    using assms by (intro stop_done[of os _ _ out]) (simp_all add: execute_command_def)
  then show ?thesis using True by (auto simp: effect_done_def kind_defs)
next
  case False
  then have m: "sc_kind row = KIND_MESSAGE" using assms by (auto simp: execute_command_def split: if_splits)
  then have "\<exists>p\<in>set (ch_owned ch). op_session_id p = sc_session_id row \<and>
      line_of (command_text row) \<in> set (pr_written (ch_process ch' (op_handle p)))"
    using assms False by (intro deliver_done[of env os _ _ _ out]) (auto simp: execute_command_def case_prod_beta)
  then show ?thesis using m False by (auto simp: effect_done_def)
qed

section \<open>One command\<close>

lemma claim_granted:
  assumes "claim env (\<lambda>d. d) now cid consumer lease runtime machine db = (Inr (Some row), db')" "queue_ok db"
  shows "get_command db' cid = Some row \<and> sc_status row = STATUS_DELIVERED \<and>
    sc_claimed_by row = Some (take CLAIMED_BY_CHARS consumer) \<and> sc_command_id row = cid"
proof -
  obtain attempt held where w: "claim_write cid consumer attempt now held db = (Some row, db')"
    using assms(1) by (cases "claim_read cid runtime machine db") (auto simp: claim_def Let_def case_prod_beta prod_eq_iff)
  obtain x where x: "x \<in> set (commands db)" "claimable cid x" using claim_write_Some[OF w] by blast
  then have "get_command db cid = Some x" using get_command_unique[OF assms(2) x(1)] by (simp add: claimable_def)
  then show ?thesis using w x(2)
    by (auto simp: claim_write_def Let_def get_command_update same_command_def claimable_def split: if_splits)
qed

lemma settle_held:
  assumes "get_command db cid = Some r" "sc_status r = STATUS_DELIVERED" "sc_claimed_by r = Some (take CLAIMED_BY_CHARS c)"
    "settle env (\<lambda>d. d) now cid (Some c) status result error db = (Inr row, db')" "queue_ok db"
  shows "row = settled_row now status result error r"
proof -
  have held: "settleable cid (Some c) r" using get_command_mem[OF assms(1)] assms(2,3) by (simp add: settleable_def)
  then have m: "rows_matching (settleable cid (Some c)) (commands db) \<noteq> 0"
    using get_command_mem[OF assms(1)] matching_Some by blast
  obtain b db1 where s: "settle_command env (\<lambda>d. d) now cid (Some c) status result error db = (Inr (row, b), db1)"
    using assms(4) by (auto simp: settle_def split: sum.splits prod.splits bool.splits)
  moreover have b
  proof (rule ccontr)
    assume "\<not> b"
    then show False using s assms(1-3) m
      by (auto simp: settle_command_def settle_read_def settle_write_def split: if_splits option.splits)
  qed
  ultimately have "\<exists>x. get_command db cid = Some x \<and> settleable cid (Some c) x \<and> row = settled_row now status result error x"
    using settle_command_row[of env "\<lambda>d. d" now cid "Some c" status result error db row db1] assms(5) by simp
  then show ?thesis using assms(1) by auto
qed

lemma settle_outcome_row:
  assumes "get_command db cid = Some r" "sc_status r = STATUS_DELIVERED" "sc_claimed_by r = Some (take CLAIMED_BY_CHARS c)"
    "settle_outcome env now cid out c db = (Inr row, db')" "queue_ok db"
  shows "sc_status row = (if co_ok out then STATUS_ACKNOWLEDGED else STATUS_FAILED) \<and> same_command r row"
  using settle_held[OF assms(1-3) assms(4)[unfolded settle_outcome_def acknowledge_def] assms(5)]
  by (simp add: settled_row_def same_command_def)

section \<open>The loops\<close>

lemma dispatch_commands_good:
  "\<lbrakk>dispatch_commands env os now consumer machine rows (db, ch) = (res, db', ch'); cmd_run (db # hist)\<rbrakk> \<Longrightarrow>
     run_to db db' \<and> channel_later ch ch' \<and>
     (\<forall>settled row. res = Inr settled \<longrightarrow> row \<in> set settled \<longrightarrow> sc_status row = STATUS_ACKNOWLEDGED \<longrightarrow> effect_done row ch ch')"
proof (induction rows arbitrary: db ch db' ch' res hist)
  case (Cons row rows)
  obtain ans db1 where c: "claim env (\<lambda>x. x) now (sc_command_id row) consumer None None machine db = (ans, db1)" by fastforce
  have r1: "run_to db db1" using claim_run[OF commits_id, of db env now "sc_command_id row" consumer None None machine] c by simp
  then obtain h1 where h1: "cmd_run (db1 # h1)" using Cons.prems(2) by (auto simp: run_to_def)
  show ?case
  proof (cases "sc_status row \<noteq> STATUS_REQUESTED \<or> \<not> command_owned_by row None machine")
    case True
    then show ?thesis using Cons.prems by (intro Cons.IH) auto
  next
    case act: False
    show ?thesis
    proof (cases "\<exists>claimed. ans = Inr (Some claimed)")
      case False
      then show ?thesis
        using Cons.prems(1) act c r1 Cons.IH[OF _ h1, of ch res db' ch'] run_to_trans[OF r1]
        by (auto split: sum.splits option.splits command_error.splits)
    next
      case True
      then obtain claimed where ans: "ans = Inr (Some claimed)" by blast
      have g: "get_command db1 (sc_command_id claimed) = Some claimed" "sc_status claimed = STATUS_DELIVERED"
        "sc_claimed_by claimed = Some (take CLAIMED_BY_CHARS consumer)"
        using claim_granted[OF c[unfolded ans]] run_ok[OF Cons.prems(2)] by auto
      show ?thesis
      proof (cases "command_owned_by claimed None machine")
        case False
        let ?d = "release_foreign now claimed consumer db1"
        have "run_to db1 ?d" by (simp add: release_foreign_def release_run)
        then have d: "run_to db ?d" using r1 run_to_trans by blast
        then obtain h where "cmd_run (?d # h)" using Cons.prems(2) by (auto simp: run_to_def)
        then show ?thesis using Cons.prems(1) act c ans False Cons.IH[of ?d ch res db' ch'] run_to_trans[OF d] by auto
      next
        case mine: True
        obtain out ch1 where e: "execute_command env os claimed ch = (out, ch1)" by fastforce
        have l1: "channel_later ch ch1" using execute_later[of ch env os claimed] e by simp
        show ?thesis
        proof (cases out)
          case None
          then show ?thesis using Cons.prems(1) act c ans mine e r1 l1 by auto
        next
          case (Some o1)
          obtain ans2 db2 where s: "settle_outcome env now (sc_command_id claimed) o1 consumer db1 = (ans2, db2)" by fastforce
          have "run_to db1 db2"
            using acknowledge_run[OF commits_id, of db1 env now "sc_command_id claimed" "Some consumer"] s
            by (metis settle_outcome_def snd_conv)
          then have r2: "run_to db db2" using r1 run_to_trans by blast
          then obtain h2 where h2: "cmd_run (db2 # h2)" using Cons.prems(2) by (auto simp: run_to_def)
          show ?thesis
          proof (cases ans2)
            case (Inl err)
            then show ?thesis using Cons.prems(1) act c ans mine e Some s r2 l1 by auto
          next
            case (Inr srow)
            obtain res2 db3 ch3 where d: "dispatch_commands env os now consumer machine rows (db2, ch1) = (res2, db3, ch3)"
              by (metis prod_cases3)
            note ih = Cons.IH[OF d h2]
            have fin: "db' = db3" "ch' = ch3" "\<And>settled. res = Inr settled \<Longrightarrow> \<exists>rest. res2 = Inr rest \<and> settled = srow # rest"
              using Cons.prems(1) act c ans mine e Some s Inr d by (auto split: sum.splits)
            have "queue_ok db1" using run_ok[OF h1] by simp
            note so = settle_outcome_row[OF g s[unfolded Inr] this]
            have "STATUS_FAILED \<noteq> STATUS_ACKNOWLEDGED" by (simp add: status_defs)
            then have sr: "sc_status srow = STATUS_ACKNOWLEDGED \<Longrightarrow> co_ok o1" "same_command claimed srow"
              using so by (cases "co_ok o1"; simp)+
            have "effect_done srow ch ch3" if "sc_status srow = STATUS_ACKNOWLEDGED"
            proof -
              have "effect_done claimed ch ch1" using execute_done e Some sr(1)[OF that] by blast
              then have "effect_done claimed ch ch3" using ih channel_later_refl effect_done_later by blast
              then show ?thesis using sr(2) by (simp add: effect_done_def same_command_def command_text_def)
            qed
            moreover have "effect_done x ch ch3" if "effect_done x ch1 ch3" for x
              using that l1 channel_later_refl effect_done_later by blast
            moreover have "effect_done x ch ch3"
              if "res2 = Inr rest" "x \<in> set rest" "sc_status x = STATUS_ACKNOWLEDGED" for x rest
              using that ih l1 channel_later_refl effect_done_later by blast
            ultimately have "\<forall>settled x. res = Inr settled \<longrightarrow> x \<in> set settled \<longrightarrow> sc_status x = STATUS_ACKNOWLEDGED \<longrightarrow>
                effect_done x ch ch3"
              using fin(3) by fastforce
            moreover have "run_to db db3" "channel_later ch ch3" using ih r2 l1 run_to_trans channel_later_trans by blast+
            ultimately show ?thesis using fin(1,2) by simp
          qed
        qed
      qed
    qed
  qed
qed simp

lemma dispatch_sessions_good:
  "\<lbrakk>dispatch_sessions env os now consumer machine limit sids (db, ch) = (res, db', ch'); cmd_run (db # hist)\<rbrakk> \<Longrightarrow>
     run_to db db' \<and> channel_later ch ch' \<and>
     (\<forall>settled row. res = Inr settled \<longrightarrow> row \<in> set settled \<longrightarrow> sc_status row = STATUS_ACKNOWLEDGED \<longrightarrow> effect_done row ch ch')"
proof (induction sids arbitrary: db ch db' ch' res hist)
  case (Cons sid sids)
  obtain res1 db1 ch1 where d: "dispatch_commands env os now consumer machine (list_for_session sid limit db) (db, ch) = (res1, db1, ch1)"
    by (metis prod_cases3)
  note good = dispatch_commands_good[OF d Cons.prems(2)]
  then obtain h1 where h1: "cmd_run (db1 # h1)" using Cons.prems(2) by (auto simp: run_to_def)
  show ?case
  proof (cases res1)
    case (Inl e)
    then show ?thesis using Cons.prems(1) d good by auto
  next
    case (Inr settled1)
    obtain res2 db2 ch2 where s: "dispatch_sessions env os now consumer machine limit sids (db1, ch1) = (res2, db2, ch2)"
      by (metis prod_cases3)
    note ih = Cons.IH[OF s h1]
    have fin: "db' = db2" "ch' = ch2" "\<And>settled. res = Inr settled \<Longrightarrow> \<exists>rest. res2 = Inr rest \<and> settled = settled1 @ rest"
      using Cons.prems(1) d s Inr by (auto split: sum.splits)
    have "effect_done x ch ch2" if "x \<in> set settled1" "sc_status x = STATUS_ACKNOWLEDGED" for x
      using that good Inr ih channel_later_refl effect_done_later by blast
    moreover have "effect_done x ch ch2" if "res2 = Inr rest" "x \<in> set rest" "sc_status x = STATUS_ACKNOWLEDGED" for x rest
      using that good ih channel_later_refl effect_done_later by blast
    ultimately have "\<forall>settled x. res = Inr settled \<longrightarrow> x \<in> set settled \<longrightarrow> sc_status x = STATUS_ACKNOWLEDGED \<longrightarrow> effect_done x ch ch2"
      using fin(3) by fastforce
    then show ?thesis using fin(1,2) good ih run_to_trans channel_later_trans by blast
  qed
qed simp

section \<open>Beside the documentation\<close>

text \<open>
  The dispatcher reads only the oldest commands of a Session, so a command behind \<open>limit\<close> settled ones
  is never delivered by it.
\<close>

lemma dispatch_oldest_only:
  assumes "\<And>r. r \<in> set (list_for_session sid limit db) \<Longrightarrow> sc_status r \<noteq> STATUS_REQUESTED"
  shows "dispatch_owned env os now consumer machine (Some sid) limit (db, ch) = (Inr [], db, ch)"
proof -
  have c: "dispatch_commands env os now consumer machine rows (db, ch) = (Inr [], db, ch)"
    if "\<And>r. r \<in> set rows \<Longrightarrow> sc_status r \<noteq> STATUS_REQUESTED" for rows
    using that by (induction rows) auto
  have "dispatch_sessions env os now consumer machine limit sids (db, ch) = (Inr [], db, ch)" if "set sids \<subseteq> {sid}" for sids
    using that by (induction sids) (auto simp: c assms)
  from this[of "filter (\<lambda>x. x = sid) (owned_session_ids ch)"] show ?thesis by (auto simp: dispatch_owned_def)
qed

text \<open>The reaper ends a Session and leaves its command requested.\<close>

lemma reaped_command_open:
  "fst (reap_zombie_sessions cmd_env0 m1 (\<lambda>_. False) (seconds 2000) (queue_with [stop_row])) = [s1] \<and>
   standing (snd (reap_write m1 (\<lambda>_. False) (seconds 2000) (queue_with [stop_row]))) s1 = Some (Some (seconds 2000), ''failed'') \<and>
   commands (snd (reap_zombie_sessions cmd_env0 m1 (\<lambda>_. False) (seconds 2000) (queue_with [stop_row]))) = [stop_row]"
proof -
  have m: "m1 \<noteq> []" by (simp add: m1_def)
  have taken: "reap_note m1 (\<lambda>_. False) (seconds 2000) sample_agent \<noteq> None"
    using m by (simp add: reap_note_def reap_local_def sample_agent_def seconds_def STALE_SESSION_TTL_SECONDS_def Let_def)
  then have w: "reap_write m1 (\<lambda>_. False) (seconds 2000) (queue_with [stop_row]) =
      ([sample_agent], release_session_ownership s1 (detach_session_mailbox (seconds 2000) s1 (lit ''reaped'')
        (put_agent (reaped_row (seconds 2000) (the (reap_note m1 (\<lambda>_. False) (seconds 2000) sample_agent)) sample_agent)
          (queue_with [stop_row]))))"
    by (simp add: reap_write_def queue_with_def Let_def del: map_map) (simp add: sample_agent_def)
  have "s_id (reaped_row t n sample_agent) = s1" "s_ended_at (reaped_row t n sample_agent) = Some t"
    "s_state (reaped_row t n sample_agent) = ''failed''" for t n
    by (simp_all add: reaped_row_def sample_agent_def TERMINAL_SESSION_STATES_def)
  then have "standing (put_agent (reaped_row t n sample_agent) (queue_with [stop_row])) s1 = Some (Some t, ''failed'')" for t n
    by (simp add: standing_def get_put_agent)
  then show ?thesis unfolding w reap_commands reap_zombie_sessions_def by (simp add: w) (simp add: sample_agent_def)
qed

text \<open>A settlement is matched by the name of its consumer alone, not by the attempt it claimed.\<close>

lemma settle_any_attempt:
  "settleable cid (Some c) (r\<lparr>sc_attempt := n, sc_claimed_at := t, sc_delivered_at := t, sc_lease_expires_at := l\<rparr>) =
   settleable cid (Some c) r"
  by (simp add: settleable_def)

text \<open>A consumer that names its machine is not shown a command without one, although it owns it.\<close>

lemma local_command_unlisted:
  "sc_runtime_id r = None \<Longrightarrow> sc_machine_id r = None \<Longrightarrow> command_owned_by r None (Some m) \<and> \<not> listed_to None (Some m) r"
  by (simp add: command_owned_by_def owner_of_def listed_to_def)

text \<open>
  A request that read a running Session is recorded as requested after the Session ended, when
  nothing cancels it any more.
\<close>

lemma enqueue_after_end:
  "insert_command (stop_row\<lparr>sc_id := 0\<rparr>) (snd (finalize_write 90 ''failed'' [] sample_agent (queue_with []))) \<noteq> None \<and>
   standing (snd (finalize_write 90 ''failed'' [] sample_agent (queue_with []))) s1 = Some (Some 90, ''failed'')"
proof -
  have "s_ended_at sample_agent = None" by (simp add: sample_agent_def)
  from finalize_write_True[OF queue_with_simps(2) this] obtain d where
    "finalize_write 90 ''failed'' [] sample_agent (queue_with []) = (True, d)" "commands d = []" "standing d s1 = Some (Some 90, ''failed'')"
    by (metis queue_with_simps(1))
  then show ?thesis by (simp add: insert_command_def Let_def)
qed

text \<open>
  A caller may choose the id of a Session, and with a colon in it the key of a stop under an operation
  id is the default key of another Session: the request is answered with that Session's command.
\<close>

lemma operation_key_crosses:
  "operation_key_for (lit ''a'') KIND_STOP (Some (lit ''b'')) u = Inr (default_stop_key (lit ''a:b'') 1)"
  by (simp add: operation_key_for_def default_stop_key_eq stop_suffix_def KIND_STOP_def MAX_OPERATION_ID_CHARS_def)

section \<open>Properties\<close>

text \<open>C23. What a dispatch reports happened. Its writes are a run of the queue, and for every command it
  returns as acknowledged the process held a handle of the command's Session: after a stop that
  agent is not alive, after a message its line was written to the agent.\<close>

theorem dispatch_truthful:
  assumes "cmd_run (db # hist)"
    "dispatch_owned env os now consumer machine session limit (db, ch) = (res, db', ch')"
  shows "run_to db db' \<and>
    (\<forall>settled row. res = Inr settled \<longrightarrow> row \<in> set settled \<longrightarrow> sc_status row = STATUS_ACKNOWLEDGED \<longrightarrow> effect_done row ch ch')"
  using dispatch_sessions_good[OF assms(2)[unfolded dispatch_owned_def] assms(1)] by blast

definition sample_channel :: channel where
  "sample_channel = \<lparr>ch_owned = [\<lparr>op_session_id = s1, op_handle = 0, op_tool = lit ''claude'', op_pid = 42, op_stdin_open = False,
       op_runtime_id = None\<rparr>],
     ch_process = (\<lambda>_. \<lparr>pr_pid = 42, pr_alive = True, pr_stdin = NoStdin, pr_written = []\<rparr>)\<rparr>"

definition sample_os :: os_env where
  "sample_os = \<lparr>os_stop = (\<lambda>_. Terminates), os_write_error = (\<lambda>_. None)\<rparr>"

lemma sample_dispatch:
  "\<exists>db ch. dispatch_owned cmd_env0 sample_os 200 w1 (Some m1) None 25 (queue_with [stop_row], sample_channel) = (Inr [stopped_row], db, ch)"
proof -
  have rd: "sc_command_id stop_row = c1" "sc_status stop_row = STATUS_REQUESTED" "command_owned_by stop_row None (Some m1)"
    "sc_command_id claimed_row = c1" "command_owned_by claimed_row None (Some m1)" "sc_kind claimed_row = KIND_STOP"
    "sc_session_id claimed_row = s1"
    by (simp_all add: stop_row_def claimed_row_def command_owned_by_def owner_of_def)
  have l: "list_for_session s1 25 (queue_with [stop_row]) = [stop_row]"
    by (simp add: list_for_session_def session_commands_def stop_row_def)
  have o: "owned_session_ids sample_channel = [s1]" by (simp add: owned_session_ids_def sample_channel_def op_alive_def process_of_def)
  have "lease_seconds cmd_env0 = 60" by (simp add: lease_seconds_def positive_env_int_def cmd_env0_def DEFAULT_LEASE_SECONDS_def)
  then have c: "claim cmd_env0 (\<lambda>x. x) 200 c1 w1 None None (Some m1) (queue_with [stop_row]) = (Inr (Some claimed_row), queue_with [claimed_row])"
    using sample_claim by (simp add: claim_def Let_def)
  obtain ch where e: "execute_command cmd_env0 sample_os claimed_row sample_channel =
      (Some \<lparr>co_ok = True, co_result = RESULT_STOPPED, co_error = None\<rparr>, ch)"
    using rd by (simp add: execute_command_def stop_session_def owned_def sample_channel_def sample_os_def identity_matches_def
        process_of_def Let_def s1_def)
  have "get_command (queue_with [stopped_row]) c1 = Some stopped_row"
    by (simp add: get_command_def stopped_row_def settled_row_def claimed_row_def stop_row_def)
  then have "fst (settle_outcome cmd_env0 200 c1 \<lparr>co_ok = True, co_result = RESULT_STOPPED, co_error = None\<rparr> w1 (queue_with [claimed_row])) =
      Inr stopped_row"
    using sample_settle by (simp add: settle_outcome_def acknowledge_def settle_def settle_command_def)
  then obtain db where "settle_outcome cmd_env0 200 c1 \<lparr>co_ok = True, co_result = RESULT_STOPPED, co_error = None\<rparr> w1 (queue_with [claimed_row]) =
      (Inr stopped_row, db)" by (metis prod.collapse)
  then have "dispatch_commands cmd_env0 sample_os 200 w1 (Some m1) [stop_row] (queue_with [stop_row], sample_channel) =
      (Inr [stopped_row], db, ch)"
    using rd c e by simp
  then show ?thesis using l o by (simp add: dispatch_owned_def)
qed

theorem dispatch_truthful_witness:
  "\<exists>db ch. dispatch_owned cmd_env0 sample_os 200 w1 (Some m1) None 25 (queue_with [stop_row], sample_channel) = (Inr [stopped_row], db, ch) \<and>
     sc_status stopped_row = STATUS_ACKNOWLEDGED \<and> effect_done stopped_row sample_channel ch"
proof -
  obtain db ch where d: "dispatch_owned cmd_env0 sample_os 200 w1 (Some m1) None 25 (queue_with [stop_row], sample_channel) =
      (Inr [stopped_row], db, ch)" using sample_dispatch by blast
  have s: "sc_status stopped_row = STATUS_ACKNOWLEDGED" by (simp add: stopped_row_def settled_row_def)
  have "effect_done stopped_row sample_channel ch" using dispatch_truthful[OF run_queued d] s by simp
  then show ?thesis using d s by blast
qed

end
