(* ===== verification/Operators.thy ===== *)
theory Operators imports Ledger Principal Events begin

text \<open>
  Models the database side of \<open>src/brains/control/operators.py\<close>: the operator identities with their
  key fingerprints, the mailbox every operator owns, \<open>ensure_admin_operator\<close> and the lookups by key
  and by slug. The secret digest \<open>sha\<close> stands for \<open>hashlib.sha256(...).hexdigest()\<close>.
\<close>

section \<open>The store of identities and credentials\<close>

definition ADMIN_SLUG :: string where "ADMIN_SLUG = ''admin''"

record credential_row =
  xc_id :: int
  xc_credential_id :: string
  xc_kind :: string
  xc_secret_hash :: pystr
  xc_fingerprint :: "pystr option"
  xc_operator_id :: "int option"
  xc_org_id :: "int option"
  xc_runtime_id :: "int option"
  xc_machine_id :: "pystr option"
  xc_label :: "pystr option"
  xc_source :: "string option"
  xc_created_by :: "int option"
  xc_created_at :: instant
  xc_expires_at :: "instant option"
  xc_revoked_at :: "instant option"

record org_member_row =
  om_org_id :: int
  om_operator_id :: int
  om_role :: string

record mailbox_row =
  mb_address :: pystr
  mb_kind :: string
  mb_owner_operator_id :: "int option"
  mb_operator_slot :: "int option"
  mb_status :: string

text \<open>\<open>key_prints\<close> and \<open>display_names\<close> are two columns of the operators, by their id.\<close>

record auth_db =
  abase :: store
  key_prints :: "int \<Rightarrow> pystr option"
  display_names :: "int \<Rightarrow> pystr option"
  org_members :: "org_member_row list"
  mailboxes :: "mailbox_row list"
  credentials :: "credential_row list"

abbreviation set_operators :: "operator_row list \<Rightarrow> auth_db \<Rightarrow> auth_db" where
  "set_operators rows db \<equiv> db\<lparr>abase := (abase db)\<lparr>operators := rows\<rparr>\<rparr>"

record operator_record =
  or_id :: int
  or_slug :: string
  or_display :: "pystr option"
  or_print :: "pystr option"

definition operator_record_of :: "auth_db \<Rightarrow> operator_row \<Rightarrow> operator_record" where
  "operator_record_of db r =
     \<lparr>or_id = op_id r, or_slug = op_slug r, or_display = display_names db (op_id r), or_print = key_prints db (op_id r)\<rparr>"

text \<open>The digits of a fingerprint: the first 16 characters of the digest.\<close>

definition fingerprint :: "(pystr \<Rightarrow> pystr) \<Rightarrow> pystr \<Rightarrow> pystr" where
  "fingerprint sha raw = take 16 (sha raw)"

datatype operator_error =
    MailboxUnavailable
  | OperatorSlugError
  | OperatorExists
  | KeyFileError
  | AmbiguousFingerprint
  | OperatorStoreError

section \<open>The mailbox of an operator\<close>

text \<open>
  \<open>_ensure_operator_mailbox_row\<close> inside the transaction of its caller: the row, whether it was
  created, and the table. The transaction holds the writer lock, so the insert meets no other
  writer's row and the \<open>IntegrityError\<close> branch, which re-reads it, is not taken.
\<close>

definition operator_address :: "string \<Rightarrow> pystr" where
  "operator_address slug = lit ''operator:'' @ lit slug @ lit ''@brains''"

definition ensure_operator_mailbox_row ::
    "int \<Rightarrow> string \<Rightarrow> mailbox_row list \<Rightarrow> operator_error + (mailbox_row \<times> bool) \<times> mailbox_row list" where
  "ensure_operator_mailbox_row i slug rows =
     (case filter (\<lambda>m. mb_owner_operator_id m = Some i \<and> mb_operator_slot m = Some 1) rows of
        m # _ \<Rightarrow>
          if mb_address m \<noteq> operator_address slug \<or> mb_kind m \<noteq> ''operator'' \<or> mb_status m \<noteq> ''active''
          then Inl MailboxUnavailable else Inr ((m, False), rows)
      | [] \<Rightarrow>
          if row_by mb_address (operator_address slug) rows \<noteq> None then Inl MailboxUnavailable
          else let m = \<lparr>mb_address = operator_address slug, mb_kind = ''operator'', mb_owner_operator_id = Some i,
                        mb_operator_slot = Some 1, mb_status = ''active''\<rparr>
               in Inr ((m, True), rows @ [m]))"

section \<open>Operators\<close>

definition insert_operator :: "string \<Rightarrow> pystr option \<Rightarrow> pystr option \<Rightarrow> auth_db \<Rightarrow> operator_row \<times> auth_db" where
  "insert_operator slug display print db =
     (let ops = operators (abase db);
          r = \<lparr>op_id = next_row_id (map op_id ops), op_slug = slug\<rparr>
      in (r, (set_operators (ops @ [r]) db)
               \<lparr>key_prints := (key_prints db)(op_id r := print), display_names := (display_names db)(op_id r := display)\<rparr>))"

text \<open>A transaction that raises is rolled back: the database it was given is left.\<close>

definition with_mailbox :: "auth_db \<Rightarrow> operator_row \<times> auth_db \<Rightarrow> (operator_error + operator_record) \<times> auth_db" where
  "with_mailbox before x =
     (let (r, db) = x
      in case ensure_operator_mailbox_row (op_id r) (op_slug r) (mailboxes db) of
           Inl e \<Rightarrow> (Inl e, before)
         | Inr (_, rows) \<Rightarrow> let db' = db\<lparr>mailboxes := rows\<rparr> in (Inr (operator_record_of db' r), db'))"

definition ensure_admin_operator ::
    "(pystr \<Rightarrow> pystr) \<Rightarrow> pystr \<Rightarrow> auth_db \<Rightarrow> (operator_error + operator_record) \<times> auth_db" where
  "ensure_admin_operator sha api_key db =
     (let print = (if api_key = [] then None else Some (fingerprint sha api_key))
      in with_mailbox db
           (case row_by op_slug ADMIN_SLUG (operators (abase db)) of
              None \<Rightarrow> insert_operator ADMIN_SLUG (Some (lit ''admin'')) print db
            | Some r \<Rightarrow> (r, if key_prints db (op_id r) \<noteq> print
                            then db\<lparr>key_prints := (key_prints db)(op_id r := print)\<rparr> else db)))"

definition list_operators :: "auth_db \<Rightarrow> operator_record list" where
  "list_operators db = map (operator_record_of db) (sort_key op_id (operators (abase db)))"

text \<open>
  \<open>one_or_none\<close> on the fingerprint, a column that is indexed but not unique: two rows raise
  \<open>MultipleResultsFound\<close>.
\<close>

definition operator_by_print :: "auth_db \<Rightarrow> pystr \<Rightarrow> operator_error + operator_row option" where
  "operator_by_print db v =
     (case filter (\<lambda>r. key_prints db (op_id r) = Some v) (operators (abase db)) of
        [] \<Rightarrow> Inr None
      | [r] \<Rightarrow> Inr (Some r)
      | _ \<Rightarrow> Inl AmbiguousFingerprint)"

definition resolve_operator_for_key ::
    "(pystr \<Rightarrow> pystr) \<Rightarrow> auth_db \<Rightarrow> pystr option \<Rightarrow> operator_error + operator_record option" where
  "resolve_operator_for_key sha db key =
     (case key of
        None \<Rightarrow> Inr None
      | Some raw \<Rightarrow> if raw = [] then Inr None
                    else bind_result (operator_by_print db (fingerprint sha raw))
                           (\<lambda>r. Inr (map_option (operator_record_of db) r)))"

text \<open>Slugs are ASCII; a name from outside that is not equals none of them.\<close>

definition by_slug :: "auth_db \<Rightarrow> pystr \<Rightarrow> operator_row option" where
  "by_slug db slug = row_by (\<lambda>r. lit (op_slug r)) slug (operators (abase db))"

definition resolve_by_slug :: "auth_db \<Rightarrow> pystr \<Rightarrow> operator_record option" where
  "resolve_by_slug db slug = map_option (operator_record_of db) (by_slug db slug)"

text \<open>\<open>str.strip().lower()\<close>, as far as equality with an ASCII slug can tell.\<close>

definition slug_key :: "pystr \<Rightarrow> pystr" where
  "slug_key s = map lower1 (strip s)"

definition operator_slug_of :: "auth_db \<Rightarrow> int option \<Rightarrow> string option" where
  "operator_slug_of db i =
     (case i of None \<Rightarrow> None | Some k \<Rightarrow> map_option op_slug (row_by op_id k (operators (abase db))))"

subsection \<open>Slugs\<close>

definition slug_start :: "nat \<Rightarrow> bool" where
  "slug_start c \<longleftrightarrow> 97 \<le> c \<and> c \<le> 122 \<or> is_digit c"

definition slug_pattern :: "pystr \<Rightarrow> bool" where
  "slug_pattern s \<longleftrightarrow>
     (case s of [] \<Rightarrow> False
      | c # cs \<Rightarrow> slug_start c \<and> length cs \<le> 62 \<and> (\<forall>d\<in>set cs. slug_start d \<or> d = 95 \<or> d = 45))"

definition validate_slug :: "pystr \<Rightarrow> operator_error + pystr" where
  "validate_slug slug =
     (let raw = strip slug
      in if \<not> slug_pattern raw then Inl OperatorSlugError
         else if raw = lit ADMIN_SLUG then Inl OperatorSlugError
         else Inr raw)"

text \<open>The \<open>string\<close> of a name that matches the pattern.\<close>

definition slug_string :: "pystr \<Rightarrow> string" where
  "slug_string s = map char_of s"

lemma slug_start_ascii: "slug_start c \<Longrightarrow> c < 128"
  by (auto simp: slug_start_def is_digit_def)

lemma slug_pattern_ascii: "slug_pattern s \<Longrightarrow> \<forall>c\<in>set s. c < 128"
  by (cases s) (force simp: slug_pattern_def dest: slug_start_ascii)+

lemma lit_slug_string: "\<forall>c\<in>set s. c < 128 \<Longrightarrow> lit (slug_string s) = s"
  by (induction s) (auto simp: slug_string_def)

lemma lit_inject [simp]: "lit a = lit b \<longleftrightarrow> a = b"
  by (rule inj_eq) (simp add: inj_def)

end
