(* ===== verification/Credentials.thy ===== *)
theory Credentials imports Operators "HOL-Library.List_Lexorder" begin

text \<open>
  Models \<open>src/brains/authz/credentials.py\<close>, the store every accepted secret resolves in, with the two
  caches of a process. \<open>hash_secret\<close> is the parameter \<open>sha\<close>; what the file system answers is a
  \<open>local_view\<close>; the clocks, the commits of other processes and the database transactions that fail
  are an \<open>auth_env\<close>. A process serves one call at a time here, against one store.
\<close>

section \<open>Constants\<close>

definition KIND_ADMIN :: string where "KIND_ADMIN = ''admin''"
definition KIND_OPERATOR :: string where "KIND_OPERATOR = ''operator''"
definition KIND_RUNTIME :: string where "KIND_RUNTIME = ''runtime''"
definition VALID_KINDS :: "string list" where "VALID_KINDS = [KIND_ADMIN, KIND_OPERATOR, KIND_RUNTIME]"

definition SOURCE_ADMIN_KEY :: string where "SOURCE_ADMIN_KEY = ''local:admin_key''"
definition SOURCE_ADMIN_KEYS :: string where "SOURCE_ADMIN_KEYS = ''local:api_keys''"
definition SOURCE_OPERATOR_KEY :: string where "SOURCE_OPERATOR_KEY = ''local:operator_key''"
definition SOURCE_ENROLMENT :: string where "SOURCE_ENROLMENT = ''enrolment''"
definition SOURCE_MANUAL :: string where "SOURCE_MANUAL = ''manual''"

definition LOCAL_SOURCES :: "string list" where
  "LOCAL_SOURCES = [SOURCE_ADMIN_KEY, SOURCE_ADMIN_KEYS, SOURCE_OPERATOR_KEY]"

definition RUNTIME_CREDENTIAL_TTL_SECONDS :: int where "RUNTIME_CREDENTIAL_TTL_SECONDS = 60 * 60 * 24 * 90"
definition SOURCE_CACHE_TTL_SECONDS :: int where "SOURCE_CACHE_TTL_SECONDS = 5"
definition NEGATIVE_CACHE_TTL_SECONDS :: int where "NEGATIVE_CACHE_TTL_SECONDS = 10"
definition NEGATIVE_CACHE_MAX_ENTRIES :: nat where "NEGATIVE_CACHE_MAX_ENTRIES = 4096"

lemmas credential_kinds = KIND_ADMIN_def KIND_OPERATOR_def KIND_RUNTIME_def VALID_KINDS_def

lemmas credential_sources = SOURCE_ADMIN_KEY_def SOURCE_ADMIN_KEYS_def SOURCE_OPERATOR_KEY_def
  SOURCE_ENROLMENT_def SOURCE_MANUAL_def LOCAL_SOURCES_def

section \<open>The store\<close>

text \<open>A credential as it is handed out: the row with the slug of its operator.\<close>

type_synonym credential_record = "credential_row \<times> string option"

definition by_hash :: "auth_db \<Rightarrow> pystr \<Rightarrow> credential_row option" where
  "by_hash db digest = row_by xc_secret_hash digest (credentials db)"

definition credential_is_active :: "instant \<Rightarrow> credential_row \<Rightarrow> bool" where
  "credential_is_active now row \<longleftrightarrow>
     xc_revoked_at row = None \<and> (case xc_expires_at row of None \<Rightarrow> True | Some t \<Rightarrow> \<not> now > t)"

definition as_record :: "auth_db \<Rightarrow> credential_row \<Rightarrow> credential_record" where
  "as_record db row = (row, operator_slug_of db (xc_operator_id row))"

datatype credential_error =
    InvalidKind
  | EmptySecret
  | NoMachine
  | UnknownCredential string
  | StoreError
  | AmbiguousOperator
  | UndecodableKeyFile

section \<open>Minting\<close>

record binding =
  bi_kind :: string
  bi_operator :: "int option"
  bi_org :: "int option"
  bi_runtime :: "int option"
  bi_machine :: "pystr option"
  bi_label :: "pystr option"
  bi_source :: string
  bi_created_by :: "int option"
  bi_expires :: "instant option"
  bi_reinstate :: bool

definition or_else :: "'a option \<Rightarrow> 'a option \<Rightarrow> 'a option" where
  "or_else x y = (case x of None \<Rightarrow> y | Some a \<Rightarrow> Some a)"

definition reinstates :: "binding \<Rightarrow> bool" where
  "reinstates b \<longleftrightarrow> bi_reinstate b \<or> bi_source b \<notin> set LOCAL_SOURCES"

definition new_credential :: "instant \<Rightarrow> string \<Rightarrow> pystr \<Rightarrow> binding \<Rightarrow> int \<Rightarrow> credential_row" where
  "new_credential now cid digest b i =
     \<lparr>xc_id = i, xc_credential_id = cid, xc_kind = bi_kind b, xc_secret_hash = digest, xc_fingerprint = Some (take 16 digest),
      xc_operator_id = bi_operator b, xc_org_id = bi_org b, xc_runtime_id = bi_runtime b, xc_machine_id = bi_machine b,
      xc_label = bi_label b, xc_source = Some (bi_source b), xc_created_by = bi_created_by b, xc_created_at = now,
      xc_expires_at = bi_expires b, xc_revoked_at = None\<rparr>"

definition rebind :: "binding \<Rightarrow> credential_row \<Rightarrow> credential_row" where
  "rebind b row =
     row\<lparr>xc_kind := bi_kind b, xc_operator_id := or_else (bi_operator b) (xc_operator_id row),
         xc_org_id := or_else (bi_org b) (xc_org_id row), xc_runtime_id := or_else (bi_runtime b) (xc_runtime_id row),
         xc_machine_id := or_else (bi_machine b) (xc_machine_id row),
         xc_label := (if bi_label b = None \<or> bi_label b = Some [] then xc_label row else bi_label b),
         xc_source := (if bi_source b = [] then xc_source row else Some (bi_source b)),
         xc_revoked_at := (if reinstates b then None else xc_revoked_at row),
         xc_expires_at := or_else (bi_expires b) (xc_expires_at row)\<rparr>"

definition register_in :: "instant \<Rightarrow> string \<Rightarrow> pystr \<Rightarrow> binding \<Rightarrow> auth_db \<Rightarrow> credential_row \<times> auth_db" where
  "register_in now cid digest b db =
     (case by_hash db digest of
        None \<Rightarrow> let row = new_credential now cid digest b (next_row_id (map xc_id (credentials db)))
                in (row, db\<lparr>credentials := credentials db @ [row]\<rparr>)
      | Some row \<Rightarrow> (rebind b row,
          db\<lparr>credentials := update_where (\<lambda>r. xc_secret_hash r = digest) (\<lambda>_. rebind b row) (credentials db)\<rparr>))"

section \<open>The process\<close>

text \<open>
  What \<open>_source_fingerprint\<close> sees: the digests of the configured keys, and each key file with its
  time and size.
\<close>

type_synonym source_print = "pystr \<times> pystr list \<times> (pystr \<times> int \<times> int) list"
datatype source_fault = CannotList pystr | CannotStat pystr pystr | CannotRead pystr pystr | NotUtf8 pystr

text \<open>\<open>(raw_secret, kind, source)\<close>\<close>

type_synonym source_entry = "pystr \<times> string \<times> string"

record auth_process =
  ap_synced :: "source_print option"
  ap_sources :: "(source_print \<times> source_entry list \<times> instant) option"
  ap_misses :: "(pystr \<times> instant) list"
  ap_source_error :: "source_fault option"

definition new_process :: auth_process where
  "new_process = \<lparr>ap_synced = None, ap_sources = None, ap_misses = [], ap_source_error = None\<rparr>"

subsection \<open>Remembered misses\<close>

definition forget_miss :: "pystr \<Rightarrow> auth_process \<Rightarrow> auth_process" where
  "forget_miss digest p = p\<lparr>ap_misses := filter (\<lambda>m. fst m \<noteq> digest) (ap_misses p)\<rparr>"

definition forget_all_misses :: "auth_process \<Rightarrow> auth_process" where
  "forget_all_misses p = p\<lparr>ap_misses := []\<rparr>"

definition negative_cached :: "instant \<Rightarrow> pystr \<Rightarrow> auth_process \<Rightarrow> bool \<times> auth_process" where
  "negative_cached clock digest p =
     (case map_of (ap_misses p) digest of
        None \<Rightarrow> (False, p)
      | Some expiry \<Rightarrow> if expiry \<le> clock then (False, forget_miss digest p) else (True, p))"

definition remember_miss :: "instant \<Rightarrow> pystr \<Rightarrow> auth_process \<Rightarrow> auth_process" where
  "remember_miss clock digest p =
     (let ms = ap_misses (forget_miss digest p) @ [(digest, clock + seconds NEGATIVE_CACHE_TTL_SECONDS)]
      in p\<lparr>ap_misses := drop (length ms - NEGATIVE_CACHE_MAX_ENTRIES) ms\<rparr>)"

definition register_credential ::
    "(pystr \<Rightarrow> pystr) \<Rightarrow> instant \<Rightarrow> string \<Rightarrow> pystr \<Rightarrow> binding \<Rightarrow> auth_db \<times> auth_process
     \<Rightarrow> (credential_error + credential_record) \<times> auth_db \<times> auth_process" where
  "register_credential sha now cid raw b st =
     (let (db, p) = st
      in if bi_kind b \<notin> set VALID_KINDS then (Inl InvalidKind, db, p)
         else if raw = [] then (Inl EmptySecret, db, p)
         else let (row, db') = register_in now cid (sha raw) b db
              in (Inr (as_record db' row), db', forget_miss (sha raw) p))"

definition mint_runtime_credential ::
    "(pystr \<Rightarrow> pystr) \<Rightarrow> instant \<Rightarrow> string \<Rightarrow> pystr \<Rightarrow> int option \<Rightarrow> pystr \<Rightarrow> int option \<Rightarrow> pystr option \<Rightarrow> int option \<Rightarrow> int
     \<Rightarrow> auth_db \<times> auth_process \<Rightarrow> (credential_error + credential_record \<times> pystr) \<times> auth_db \<times> auth_process" where
  "mint_runtime_credential sha now cid raw org machine runtime label created_by ttl st =
     (if machine = [] then (Inl NoMachine, st)
      else let b = \<lparr>bi_kind = KIND_RUNTIME, bi_operator = None, bi_org = org, bi_runtime = runtime, bi_machine = Some machine,
                    bi_label = (if label = None \<or> label = Some [] then Some (lit ''runtime '' @ machine) else label),
                    bi_source = SOURCE_ENROLMENT, bi_created_by = created_by,
                    bi_expires = (if ttl = 0 then None else Some (now + seconds ttl)), bi_reinstate = False\<rparr>;
               (res, st') = register_credential sha now cid raw b st
           in (bind_result res (\<lambda>r. Inr (r, raw)), st'))"

section \<open>The key sources of this host\<close>

text \<open>
  What \<open>settings\<close> and the file system answer at one moment: the listing of the key directory, and
  \<open>stat\<close> and \<open>read_text\<close> of a file in it. Text that is not UTF-8 raises \<open>UnicodeDecodeError\<close>, a
  \<open>ValueError\<close> and no \<open>OSError\<close>.
\<close>

datatype dir_answer = NoDirectory | DirError pystr | Listing "pystr list"
datatype stat_answer = StatGone | StatError pystr | FileStat int int
datatype text_answer = TextGone | TextError pystr | TextUndecodable | FileText pystr

record local_view =
  lv_api_key :: pystr
  lv_api_keys :: "pystr list"
  lv_dir :: dir_answer
  lv_stat :: "pystr \<Rightarrow> stat_answer"
  lv_text :: "pystr \<Rightarrow> text_answer"

text \<open>\<open>path.suffix == ".key"\<close>: a name that is only the suffix has none.\<close>

definition is_key_name :: "pystr \<Rightarrow> bool" where
  "is_key_name n \<longleftrightarrow> 4 < length n \<and> drop (length n - 4) n = lit ''.key''"

definition operator_key_files :: "local_view \<Rightarrow> source_fault + pystr list" where
  "operator_key_files v =
     (case lv_dir v of
        NoDirectory \<Rightarrow> Inr []
      | DirError m \<Rightarrow> Inl (CannotList m)
      | Listing names \<Rightarrow> Inr (sort (filter is_key_name names)))"

fun stat_files :: "local_view \<Rightarrow> pystr list \<Rightarrow> source_fault + (pystr \<times> int \<times> int) list" where
  "stat_files v [] = Inr []"
| "stat_files v (n # ns) =
     (case lv_stat v n of
        StatGone \<Rightarrow> stat_files v ns
      | StatError m \<Rightarrow> Inl (CannotStat n m)
      | FileStat modified bytes \<Rightarrow> bind_result (stat_files v ns) (\<lambda>fs. Inr ((n, modified, bytes) # fs)))"

definition source_fingerprint :: "(pystr \<Rightarrow> pystr) \<Rightarrow> local_view \<Rightarrow> source_fault + source_print" where
  "source_fingerprint sha v =
     bind_result (operator_key_files v) (\<lambda>ns.
     bind_result (stat_files v ns) (\<lambda>fs.
       Inr (if lv_api_key v = [] then [] else sha (lv_api_key v), map sha (filter (\<lambda>k. k \<noteq> []) (lv_api_keys v)), fs)))"

fun read_files :: "local_view \<Rightarrow> pystr list \<Rightarrow> source_fault + source_entry list" where
  "read_files v [] = Inr []"
| "read_files v (n # ns) =
     (case lv_text v n of
        TextGone \<Rightarrow> read_files v ns
      | TextError m \<Rightarrow> Inl (CannotRead n m)
      | TextUndecodable \<Rightarrow> Inl (NotUtf8 n)
      | FileText s \<Rightarrow> bind_result (read_files v ns) (\<lambda>es.
          Inr ((if strip s = [] then [] else [(strip s, KIND_OPERATOR, SOURCE_OPERATOR_KEY)]) @ es)))"

definition configured_keys :: "local_view \<Rightarrow> source_entry list" where
  "configured_keys v =
     (if lv_api_key v = [] then [] else [(lv_api_key v, KIND_ADMIN, SOURCE_ADMIN_KEY)]) @
     map (\<lambda>k. (k, KIND_ADMIN, SOURCE_ADMIN_KEYS)) (filter (\<lambda>k. k \<noteq> []) (lv_api_keys v))"

definition read_local_key_sources :: "local_view \<Rightarrow> source_fault + source_entry list" where
  "read_local_key_sources v =
     bind_result (operator_key_files v) (\<lambda>ns.
     bind_result (read_files v ns) (\<lambda>es. Inr (configured_keys v @ es)))"

text \<open>
  The cached sources at the monotonic time \<open>clock\<close>; \<open>stats\<close> is what the host answers to the
  fingerprint and \<open>texts\<close> what it answers to the reading after it.
\<close>

definition local_key_sources ::
    "(pystr \<Rightarrow> pystr) \<Rightarrow> instant \<Rightarrow> bool \<Rightarrow> local_view \<Rightarrow> local_view \<Rightarrow> auth_process
     \<Rightarrow> (source_fault + source_entry list) \<times> auth_process" where
  "local_key_sources sha clock force stats texts p =
     (let until = clock + seconds SOURCE_CACHE_TTL_SECONDS;
          fresh = (case source_fingerprint sha stats of
             Inl e \<Rightarrow> (Inl e, p)
           | Inr print \<Rightarrow>
               (case ap_sources p of
                  Some (print0, es, _) \<Rightarrow>
                    if \<not> force \<and> print0 = print then (Inr es, p\<lparr>ap_sources := Some (print, es, until)\<rparr>)
                    else (case read_local_key_sources texts of
                            Inl e \<Rightarrow> (Inl e, p) | Inr es' \<Rightarrow> (Inr es', p\<lparr>ap_sources := Some (print, es', until)\<rparr>))
                | None \<Rightarrow>
                    (case read_local_key_sources texts of
                       Inl e \<Rightarrow> (Inl e, p) | Inr es' \<Rightarrow> (Inr es', p\<lparr>ap_sources := Some (print, es', until)\<rparr>))))
      in case ap_sources p of
           Some (_, es, t) \<Rightarrow> if \<not> force \<and> clock < t then (Inr es, p) else fresh
         | None \<Rightarrow> fresh)"

definition invalidate_source_cache :: "auth_process \<Rightarrow> auth_process" where
  "invalidate_source_cache p = forget_all_misses (p\<lparr>ap_sources := None, ap_synced := None\<rparr>)"

section \<open>Adoption\<close>

text \<open>
  The points of a call at which it reads a clock or the host, or opens a transaction; the numbered
  ones are those of one entry of the sources, the last two lines those of its callers.
\<close>

datatype point =
    AtCache | AtLookup | AtPrint | AtStats | AtTexts
  | AtOperator nat | AtCheck nat | AtRegister nat
  | AtRelookup | AtMiss
  | AtAccount | AtIssue | AtSupersede | AtCleanup
  | AtCookie | AtCookieStats | AtCookieTexts | AtPrincipal | AtRate

record auth_env =
  en_sha :: "pystr \<Rightarrow> pystr"
  en_now :: "point \<Rightarrow> instant"
  en_mono :: "point \<Rightarrow> instant"
  en_view :: "point \<Rightarrow> local_view"
  en_cid :: "point \<Rightarrow> string"
  en_fails :: "point \<Rightarrow> bool"
  en_others :: "point \<Rightarrow> auth_db \<Rightarrow> auth_db"

definition admin_operator_id :: "auth_env \<Rightarrow> point \<Rightarrow> auth_db \<Rightarrow> int option \<times> auth_db" where
  "admin_operator_id env pt db =
     (if en_fails env pt then (None, db)
      else case ensure_admin_operator (en_sha env) (lv_api_key (en_view env pt)) db of
             (Inl _, db') \<Rightarrow> (None, db')
           | (Inr r, db') \<Rightarrow> (Some (or_id r), db'))"

definition operator_id_for_fingerprint :: "auth_db \<Rightarrow> pystr \<Rightarrow> credential_error + int option" where
  "operator_id_for_fingerprint db v =
     (case operator_by_print db v of Inl _ \<Rightarrow> Inl AmbiguousOperator | Inr r \<Rightarrow> Inr (map_option op_id r))"

definition backfill_source :: "pystr \<Rightarrow> string \<Rightarrow> auth_db \<Rightarrow> auth_db" where
  "backfill_source digest source db =
     db\<lparr>credentials := update_where (\<lambda>r. xc_secret_hash r = digest) (\<lambda>r. r\<lparr>xc_source := Some source\<rparr>) (credentials db)\<rparr>"

definition local_binding :: "string \<Rightarrow> string \<Rightarrow> int option \<Rightarrow> binding" where
  "local_binding kind source oid =
     \<lparr>bi_kind = kind, bi_operator = oid, bi_org = None, bi_runtime = None, bi_machine = None,
      bi_label = Some (lit ''adopted local key''), bi_source = source, bi_created_by = None, bi_expires = None,
      bi_reinstate = False\<rparr>"

text \<open>\<open>None\<close> is an exception, which the caller passes over.\<close>

definition adopt_if_needed ::
    "auth_env \<Rightarrow> nat \<Rightarrow> pystr \<Rightarrow> string \<Rightarrow> string \<Rightarrow> int option \<Rightarrow> auth_db \<times> auth_process
     \<Rightarrow> bool option \<times> auth_db \<times> auth_process" where
  "adopt_if_needed env i raw kind source oid st =
     (let (db, p) = st; digest = en_sha env raw; db1 = en_others env (AtCheck i) db
      in if en_fails env (AtCheck i) then (None, db1, p)
         else case by_hash db1 digest of
             Some row \<Rightarrow> (Some False, if xc_source row = None then backfill_source digest source db1 else db1, p)
           | None \<Rightarrow>
               let db2 = en_others env (AtRegister i) db1
               in if en_fails env (AtRegister i) then (None, db2, p)
                  else case register_credential (en_sha env) (en_now env (AtRegister i)) (en_cid env (AtRegister i)) raw
                              (local_binding kind source oid) (db2, p) of
                         (Inl _, st') \<Rightarrow> (None, st')
                       | (Inr _, st') \<Rightarrow> (Some True, st'))"

text \<open>
  The loop of \<open>sync_local_credentials\<close> from entry \<open>i\<close> on, with the id of \<open>admin\<close> once it is known and
  the count so far. Two operators with the fingerprint of a key raise out of it.
\<close>

fun adopt_all ::
    "auth_env \<Rightarrow> nat \<Rightarrow> int option \<Rightarrow> nat \<Rightarrow> source_entry list \<Rightarrow> auth_db \<times> auth_process
     \<Rightarrow> (credential_error + nat) \<times> auth_db \<times> auth_process" where
  "adopt_all env i admin n [] st = (Inr n, st)"
| "adopt_all env i admin n ((raw, kind, source) # es) st =
     (let db0 = en_others env (AtOperator i) (fst st);
          (owner, admin', db) =
            (if kind = KIND_ADMIN
             then (case admin of
                     Some a \<Rightarrow> (Inr (Some a), Some a, db0)
                   | None \<Rightarrow> let (a, db') = admin_operator_id env (AtOperator i) db0 in (Inr a, a, db'))
             else (operator_id_for_fingerprint db0 (take 16 (en_sha env raw)), admin, db0))
      in case owner of
           Inl e \<Rightarrow> (Inl e, db, snd st)
         | Inr oid \<Rightarrow>
             let (r, st') = adopt_if_needed env i raw kind source oid (db, snd st)
             in adopt_all env (Suc i) admin' (if r = Some True then Suc n else n) es st')"

definition sync_local_credentials ::
    "auth_env \<Rightarrow> auth_db \<times> auth_process \<Rightarrow> (credential_error + nat) \<times> auth_db \<times> auth_process" where
  "sync_local_credentials env st =
     (let (db, p) = st;
          failed = (\<lambda>e p. case e of NotUtf8 _ \<Rightarrow> (Inl UndecodableKeyFile, db, p)
                                  | _ \<Rightarrow> (Inr 0, db, p\<lparr>ap_source_error := Some e\<rparr>))
      in case source_fingerprint (en_sha env) (en_view env AtPrint) of
           Inl e \<Rightarrow> failed e p
         | Inr print \<Rightarrow>
             (case local_key_sources (en_sha env) (en_mono env AtStats) False (en_view env AtStats) (en_view env AtTexts) p of
                (Inl e, p1) \<Rightarrow> failed e p1
              | (Inr es, p1) \<Rightarrow>
                  let p2 = p1\<lparr>ap_source_error := None\<rparr>
                  in if ap_synced p2 = Some print then (Inr 0, db, p2)
                     else case adopt_all env 0 None 0 es (db, p2) of
                            (Inl e, st') \<Rightarrow> (Inl e, st')
                          | (Inr n, db', p') \<Rightarrow>
                              let p3 = p'\<lparr>ap_synced := Some print\<rparr>
                              in (Inr n, db', if n = 0 then p3 else forget_all_misses p3)))"

section \<open>Resolution\<close>

definition lookup_secret :: "instant \<Rightarrow> auth_db \<Rightarrow> pystr \<Rightarrow> credential_record option" where
  "lookup_secret now db digest =
     (case by_hash db digest of
        None \<Rightarrow> None
      | Some row \<Rightarrow> if credential_is_active now row then Some (as_record db row) else None)"

definition resolve_secret ::
    "auth_env \<Rightarrow> pystr option \<Rightarrow> auth_db \<times> auth_process
     \<Rightarrow> (credential_error + credential_record option) \<times> auth_db \<times> auth_process" where
  "resolve_secret env secret st =
     (let (db, p) = st
      in case secret of
           None \<Rightarrow> (Inr None, st)
         | Some raw \<Rightarrow>
             if raw = [] then (Inr None, st)
             else let digest = en_sha env raw; (missed, p1) = negative_cached (en_mono env AtCache) digest p
                  in if missed then (Inr None, db, p1)
                     else let db1 = en_others env AtLookup db
                          in if en_fails env AtLookup then (Inl StoreError, db1, p1)
                             else case lookup_secret (en_now env AtLookup) db1 digest of
                               Some r \<Rightarrow> (Inr (Some r), db1, p1)
                             | None \<Rightarrow>
                                 (case sync_local_credentials env (db1, p1) of
                                    (Inl e, st2) \<Rightarrow> (Inl e, st2)
                                  | (Inr _, db2, p2) \<Rightarrow>
                                      let db3 = en_others env AtRelookup db2
                                      in if en_fails env AtRelookup then (Inl StoreError, db3, p2)
                                         else case lookup_secret (en_now env AtRelookup) db3 digest of
                                           Some r \<Rightarrow> (Inr (Some r), db3, p2)
                                         | None \<Rightarrow> (Inr None, en_others env AtMiss db3, remember_miss (en_mono env AtMiss) digest p2)))"

section \<open>Revocation\<close>

definition revoke_rows :: "instant \<Rightarrow> (credential_row \<Rightarrow> bool) \<Rightarrow> auth_db \<Rightarrow> auth_db" where
  "revoke_rows now P db =
     db\<lparr>credentials := update_where (\<lambda>r. P r \<and> xc_revoked_at r = None) (\<lambda>r. r\<lparr>xc_revoked_at := Some now\<rparr>) (credentials db)\<rparr>"

definition locally_owned :: "credential_row \<Rightarrow> bool" where
  "locally_owned row \<longleftrightarrow>
     xc_kind row \<noteq> KIND_RUNTIME \<and> (case xc_source row of None \<Rightarrow> True | Some s \<Rightarrow> s \<in> set LOCAL_SOURCES)"

definition revoke_local_secret ::
    "(pystr \<Rightarrow> pystr) \<Rightarrow> instant \<Rightarrow> instant \<Rightarrow> pystr \<Rightarrow> auth_db \<times> auth_process
     \<Rightarrow> credential_record option \<times> auth_db \<times> auth_process" where
  "revoke_local_secret sha now clock raw st =
     (let (db, p) = st; digest = sha raw
      in if raw = [] then (None, st)
         else case by_hash db digest of
             None \<Rightarrow> (None, st)
           | Some row \<Rightarrow>
               if \<not> locally_owned row then (None, st)
               else let db' = revoke_rows now (\<lambda>r. xc_secret_hash r = digest) db
                    in (map_option (as_record db') (by_hash db' digest), db', remember_miss clock digest (forget_all_misses p)))"

definition by_credential_id :: "auth_db \<Rightarrow> string \<Rightarrow> credential_row option" where
  "by_credential_id db cid = row_by xc_credential_id cid (credentials db)"

definition get_credential :: "auth_db \<Rightarrow> string \<Rightarrow> credential_record option" where
  "get_credential db cid = map_option (as_record db) (by_credential_id db cid)"

definition list_credentials ::
    "auth_db \<Rightarrow> string option \<Rightarrow> int option \<Rightarrow> pystr option \<Rightarrow> bool \<Rightarrow> credential_record list" where
  "list_credentials db kind org machine include_revoked =
     map (as_record db) (sort_key xc_id (filter (\<lambda>r.
        (kind = None \<or> kind = Some (xc_kind r)) \<and> (org = None \<or> xc_org_id r = org) \<and>
        (machine = None \<or> xc_machine_id r = machine) \<and> (include_revoked \<or> xc_revoked_at r = None)) (credentials db)))"

definition revoke_credential ::
    "instant \<Rightarrow> string \<Rightarrow> auth_db \<times> auth_process \<Rightarrow> (credential_error + credential_record) \<times> auth_db \<times> auth_process" where
  "revoke_credential now cid st =
     (let (db, p) = st
      in case by_credential_id db cid of
           None \<Rightarrow> (Inl (UnknownCredential cid), st)
         | Some row \<Rightarrow>
             let db' = revoke_rows now (\<lambda>r. xc_credential_id r = cid) db
             in (case by_credential_id db' cid of
                   None \<Rightarrow> Inl (UnknownCredential cid) | Some row' \<Rightarrow> Inr (as_record db' row'), db', forget_all_misses p))"

definition revoke_machine_credentials :: "instant \<Rightarrow> pystr \<Rightarrow> auth_db \<times> auth_process \<Rightarrow> nat \<times> auth_db \<times> auth_process" where
  "revoke_machine_credentials now machine st =
     (let (db, p) = st; mine = (\<lambda>r. xc_kind r = KIND_RUNTIME \<and> xc_machine_id r = Some machine)
      in (rows_matching (\<lambda>r. mine r \<and> xc_revoked_at r = None) (credentials db), revoke_rows now mine db, forget_all_misses p))"

section \<open>Diagnosis\<close>

record diagnosis =
  dg_unbound :: "(string \<times> string \<times> pystr option) list"
  dg_legacy :: "(int \<times> string) list"
  dg_source_error :: "source_fault option"
  dg_ok :: bool

definition diagnose :: "auth_db \<Rightarrow> auth_process \<Rightarrow> diagnosis" where
  "diagnose db p =
     (let unbound = map (\<lambda>r. (xc_credential_id r, xc_kind r, xc_label r)) (sort_key xc_id (filter (\<lambda>r.
            xc_revoked_at r = None \<and> xc_operator_id r = None \<and> xc_runtime_id r = None \<and> xc_machine_id r = None)
            (credentials db)));
          legacy = map (\<lambda>r. (op_id r, op_slug r)) (sort_key op_id (filter (\<lambda>r.
            take 7 (map lower1 (lit (op_slug r))) = lit ''daemon-'') (operators (abase db))))
      in \<lparr>dg_unbound = unbound, dg_legacy = legacy, dg_source_error = ap_source_error p,
          dg_ok = (unbound = [] \<and> legacy = [] \<and> ap_source_error p = None)\<rparr>)"

end
