(* ===== verification/OperatorKeys.thy ===== *)
theory OperatorKeys imports Credentials begin

text \<open>
  Models the key files of \<open>src/brains/control/operators.py\<close> (\<open>add_operator\<close>, \<open>remove_operator_key\<close>,
  \<open>load_operator_api_keys\<close>) and the admin key of \<open>src/brains/api/admin_key.py\<close>: the explicit acts that
  issue a secret and retire one. A file operation is an answer of the host and, where it changes the
  host, a \<open>file_op\<close> of the result.
\<close>

datatype file_op = CreateFile pystr pystr | RemoveFile pystr
datatype file_answer = Written | NotCreated | NotWritten

text \<open>\<open>try: invalidate_source_cache(); sync_local_credentials() except Exception: pass\<close>\<close>

definition invalidate_credential_sources :: "auth_env \<Rightarrow> auth_db \<times> auth_process \<Rightarrow> auth_db \<times> auth_process" where
  "invalidate_credential_sources env st = snd (sync_local_credentials env (fst st, invalidate_source_cache (snd st)))"

text \<open>An explicit registration at the point \<open>AtIssue\<close>; an exception leaves the state.\<close>

definition issue_credential :: "auth_env \<Rightarrow> pystr \<Rightarrow> binding \<Rightarrow> auth_db \<times> auth_process \<Rightarrow> bool \<times> auth_db \<times> auth_process" where
  "issue_credential env raw b st =
     (let db = en_others env AtIssue (fst st)
      in if en_fails env AtIssue then (False, db, snd st)
         else case register_credential (en_sha env) (en_now env AtIssue) (en_cid env AtIssue) raw b (db, snd st) of
                (Inl _, st') \<Rightarrow> (False, st')
              | (Inr _, st') \<Rightarrow> (True, st'))"

definition operator_binding :: "operator_record \<Rightarrow> binding" where
  "operator_binding r =
     \<lparr>bi_kind = KIND_OPERATOR, bi_operator = Some (or_id r), bi_org = None, bi_runtime = None, bi_machine = None,
      bi_label = Some (lit ''operator '' @ lit (or_slug r)), bi_source = SOURCE_OPERATOR_KEY, bi_created_by = None,
      bi_expires = None, bi_reinstate = True\<rparr>"

definition key_file_name :: "pystr \<Rightarrow> pystr" where
  "key_file_name slug = slug @ lit ''.key''"

definition remove_operator :: "int \<Rightarrow> auth_db \<Rightarrow> auth_db" where
  "remove_operator i db =
     (set_operators (filter (\<lambda>r. op_id r \<noteq> i) (operators (abase db))) db)
       \<lparr>mailboxes := filter (\<lambda>m. mb_owner_operator_id m \<noteq> Some i) (mailboxes db)\<rparr>"

definition issued_key :: "pystr \<Rightarrow> pystr option \<Rightarrow> pystr" where
  "issued_key token key = (case key of None \<Rightarrow> token | Some k \<Rightarrow> if k = [] then token else k)"

text \<open>
  \<open>token\<close> is what \<open>secrets.token_urlsafe\<close> gives, \<open>present\<close> whether the key file is there, \<open>write\<close> what
  creating it answers. After a failed write the rows are deleted again, if the store lets them be.
\<close>

definition add_operator ::
    "auth_env \<Rightarrow> pystr \<Rightarrow> bool \<Rightarrow> file_answer \<Rightarrow> pystr \<Rightarrow> pystr option \<Rightarrow> pystr option \<Rightarrow> auth_db \<times> auth_process
     \<Rightarrow> (operator_error + operator_record \<times> pystr) \<times> file_op list \<times> auth_db \<times> auth_process" where
  "add_operator env token present write slug display api_key st =
     (case validate_slug slug of
        Inl e \<Rightarrow> (Inl e, [], st)
      | Inr clean \<Rightarrow>
          let db = en_others env AtAccount (fst st);
              key = issued_key token api_key;
              name = (case display of None \<Rightarrow> clean | Some d \<Rightarrow> if d = [] then clean else d)
          in if en_fails env AtAccount then (Inl OperatorStoreError, [], db, snd st)
             else if by_slug db clean \<noteq> None \<or> present then (Inl OperatorExists, [], db, snd st)
             else case with_mailbox db (insert_operator (slug_string clean) (Some name) (Some (fingerprint (en_sha env) key)) db) of
               (Inl e, db') \<Rightarrow> (Inl e, [], db', snd st)
             | (Inr r, db') \<Rightarrow>
                 (case write of
                    Written \<Rightarrow>
                      let st' = snd (issue_credential env key (operator_binding r) (db', snd st))
                      in (Inr (r, key), [CreateFile (key_file_name clean) (key @ [10])], invalidate_credential_sources env st')
                  | failed \<Rightarrow>
                      let db'' = en_others env AtCleanup db'
                      in (Inl KeyFileError, if failed = NotWritten then [RemoveFile (key_file_name clean)] else [],
                          if en_fails env AtCleanup then db'' else remove_operator (or_id r) db'', snd st)))"

text \<open>
  \<open>file\<close> is what reading the key file answers, \<open>TextGone\<close> when there is none; \<open>unlinked\<close> whether
  \<open>unlink\<close> succeeds. The secret read before the unlinking is the one that is retired.
\<close>

definition remove_operator_key ::
    "auth_env \<Rightarrow> text_answer \<Rightarrow> bool \<Rightarrow> pystr \<Rightarrow> auth_db \<times> auth_process
     \<Rightarrow> (operator_error + bool) \<times> file_op list \<times> auth_db \<times> auth_process" where
  "remove_operator_key env file unlinked slug st =
     (case file of
        TextGone \<Rightarrow> (Inr False, [], invalidate_credential_sources env st)
      | TextError _ \<Rightarrow> (Inl KeyFileError, [], st)
      | TextUndecodable \<Rightarrow> (Inl KeyFileError, [], st)
      | FileText s \<Rightarrow>
          if \<not> unlinked then (Inl KeyFileError, [], st)
          else let name = key_file_name (strip slug); superseded = strip s; db = en_others env AtSupersede (fst st)
               in if superseded = [] then (Inr True, [RemoveFile name], invalidate_credential_sources env st)
                  else if en_fails env AtSupersede then (Inl OperatorStoreError, [RemoveFile name], db, snd st)
                  else let st' = snd (revoke_local_secret (en_sha env) (en_now env AtSupersede) (en_mono env AtSupersede)
                                       superseded (db, snd st))
                       in (Inr True, [RemoveFile name], invalidate_credential_sources env st'))"

fun load_files :: "local_view \<Rightarrow> pystr list \<Rightarrow> source_fault + pystr list" where
  "load_files v [] = Inr []"
| "load_files v (n # ns) =
     (case lv_text v n of
        TextGone \<Rightarrow> load_files v ns
      | TextError _ \<Rightarrow> load_files v ns
      | TextUndecodable \<Rightarrow> Inl (NotUtf8 n)
      | FileText s \<Rightarrow> bind_result (load_files v ns) (\<lambda>ks. Inr ((if strip s = [] then [] else [strip s]) @ ks)))"

definition load_operator_api_keys :: "local_view \<Rightarrow> source_fault + pystr list" where
  "load_operator_api_keys v = bind_result (operator_key_files v) (load_files v)"

section \<open>The admin key\<close>

text \<open>\<open>file\<close> is what reading \<open>admin-key\<close> answers; the outer \<open>None\<close> is \<open>UnicodeDecodeError\<close>.\<close>

definition read_persisted_key :: "text_answer \<Rightarrow> pystr option option" where
  "read_persisted_key file =
     (case file of
        TextGone \<Rightarrow> Some None
      | TextError _ \<Rightarrow> Some None
      | TextUndecodable \<Rightarrow> None
      | FileText s \<Rightarrow> Some (if strip s = [] then None else Some (strip s)))"

text \<open>The key, whether it was generated, and the file written; \<open>settings.api_key\<close> is the key from then on.\<close>

definition ensure_admin_key :: "pystr \<Rightarrow> text_answer \<Rightarrow> pystr \<Rightarrow> (pystr \<times> bool \<times> file_op list) option" where
  "ensure_admin_key configured file token =
     (if configured \<noteq> [] then Some (configured, False, [])
      else case read_persisted_key file of
             None \<Rightarrow> None
           | Some (Some k) \<Rightarrow> Some (k, False, [])
           | Some None \<Rightarrow> Some (token, True, [CreateFile (lit ''admin-key'') (token @ [10])]))"

definition admin_binding :: "int option \<Rightarrow> binding" where
  "admin_binding oid =
     \<lparr>bi_kind = KIND_ADMIN, bi_operator = oid, bi_org = None, bi_runtime = None, bi_machine = None,
      bi_label = Some (lit ''adopted local key''), bi_source = SOURCE_ADMIN_KEY, bi_created_by = None,
      bi_expires = None, bi_reinstate = True\<rparr>"

text \<open>
  \<open>_supersede_admin_key\<close>: an exception ends it where it is raised, except that of
  \<open>ensure_admin_operator\<close>, which leaves the credential without an operator.
\<close>

definition supersede_admin_key :: "auth_env \<Rightarrow> pystr option \<Rightarrow> pystr \<Rightarrow> auth_db \<times> auth_process \<Rightarrow> auth_db \<times> auth_process" where
  "supersede_admin_key env superseded key st =
     (let p = invalidate_source_cache (snd st);
          db = en_others env AtSupersede (fst st);
          retires = (case superseded of None \<Rightarrow> False
                     | Some old \<Rightarrow> old \<noteq> [] \<and> old \<noteq> key \<and> old \<notin> set (lv_api_keys (en_view env AtSupersede)))
      in if retires \<and> en_fails env AtSupersede then (db, p)
         else let (db1, p1) = (if retires
                     then snd (revoke_local_secret (en_sha env) (en_now env AtSupersede) (en_mono env AtSupersede) (the superseded) (db, p))
                     else (db, p));
                  (oid, db2) = admin_operator_id env AtAccount (en_others env AtAccount db1)
              in case issue_credential env key (admin_binding oid) (db2, p1) of
                   (False, st') \<Rightarrow> st'
                 | (True, st') \<Rightarrow> snd (sync_local_credentials env st'))"

datatype rotation_error = ManagedByEnvironment | RekeyFailed | UnreadableAdminKey | UnwritableAdminKey

text \<open>
  \<open>managed\<close> says that the environment sets \<open>BRAINS_API_KEY\<close>, \<open>rekeyed\<close> that \<open>rekey_all\<close> returned,
  \<open>written\<close> that the key file was written. The process reads \<open>settings.api_key\<close> as the new key afterwards.
\<close>

definition with_admin_key :: "pystr \<Rightarrow> auth_env \<Rightarrow> auth_env" where
  "with_admin_key key env = env\<lparr>en_view := \<lambda>pt. (en_view env pt)\<lparr>lv_api_key := key\<rparr>\<rparr>"

definition rotate_admin_key ::
    "auth_env \<Rightarrow> bool \<Rightarrow> pystr \<Rightarrow> text_answer \<Rightarrow> bool \<Rightarrow> bool \<Rightarrow> pystr \<Rightarrow> auth_db \<times> auth_process
     \<Rightarrow> (rotation_error + pystr) \<times> file_op list \<times> auth_db \<times> auth_process" where
  "rotate_admin_key env managed configured file rekeyed written token st =
     (if managed then (Inl ManagedByEnvironment, [], st)
      else case (if configured \<noteq> [] then Some (Some configured) else read_persisted_key file) of
             None \<Rightarrow> (Inl UnreadableAdminKey, [], st)
           | Some superseded \<Rightarrow>
               if superseded \<noteq> None \<and> \<not> rekeyed then (Inl RekeyFailed, [], st)
               else if \<not> written then (Inl UnwritableAdminKey, [], st)
               else (Inr token, [CreateFile (lit ''admin-key'') (token @ [10])],
                     supersede_admin_key (with_admin_key token env) superseded token st))"

end
