(* ===== verification/Resolver.thy ===== *)
theory Resolver imports OperatorKeys Policy "HOL-Library.AList" begin

text \<open>
  Models \<open>src/brains/authz/resolver.py\<close>: the principal a credential authorizes, the slot a request
  publishes it in, and the principal of a local invocation; and \<open>resolve_current_operator\<close> of
  \<open>src/brains/control/operators.py\<close>. A principal is built from one state of the store.
\<close>

section \<open>What a credential authorizes\<close>

definition CREDENTIAL_BOOTSTRAP :: string where "CREDENTIAL_BOOTSTRAP = ''bootstrap''"

text \<open>The dict comprehension over the rows: a later row of an Org replaces the role.\<close>

definition org_roles_for_operator :: "auth_db \<Rightarrow> int option \<Rightarrow> (int \<times> string) list" where
  "org_roles_for_operator db i =
     (case i of
        None \<Rightarrow> []
      | Some k \<Rightarrow> fold (\<lambda>r. AList.update (om_org_id r) (om_role r)) (filter (\<lambda>r. om_operator_id r = k) (org_members db)) [])"

definition runtime_org_of :: "auth_db \<Rightarrow> int option \<Rightarrow> int option" where
  "runtime_org_of db i = (case i of None \<Rightarrow> None | Some k \<Rightarrow> Option.bind (row_by rt_id k (runtimes (abase db))) rt_org_id)"

definition sessions_bound_to_machine :: "auth_db \<Rightarrow> pystr option \<Rightarrow> pystr list" where
  "sessions_bound_to_machine db machine =
     (case machine of
        None \<Rightarrow> []
      | Some m \<Rightarrow> if m = [] then []
                  else map s_id (filter (\<lambda>s. s_machine_id s = Some m \<and> s_ended_at s = None) (sessions (abase db))))"

definition runtime_actor :: "pystr option \<Rightarrow> int option \<Rightarrow> pystr" where
  "runtime_actor machine runtime =
     lit ''runtime:'' @
     (case machine of
        Some (c # cs) \<Rightarrow> c # cs
      | _ \<Rightarrow> (case runtime of None \<Rightarrow> lit ''?'' | Some i \<Rightarrow> if i = 0 then lit ''?'' else str_of_int i))"

definition principal_from_credential :: "auth_db \<Rightarrow> credential_record \<Rightarrow> principal" where
  "principal_from_credential db c =
     (let row = fst c
      in if xc_kind row = KIND_RUNTIME
         then \<lparr>actor_kind = ACTOR_RUNTIME, actor_id = runtime_actor (xc_machine_id row) (xc_runtime_id row),
               credential_kind = KIND_RUNTIME, credential_id = Some (xc_credential_id row), operator_id = None,
               operator_slug = None, org_roles = [],
               runtime_org_id = or_else (xc_org_id row) (runtime_org_of db (xc_runtime_id row)),
               runtime_machine_id = xc_machine_id row, runtime_id = xc_runtime_id row, is_bootstrap_admin = False,
               channel = CHANNEL_API, bound_session_ids = sessions_bound_to_machine db (xc_machine_id row)\<rparr>
         else let slug = (case snd c of Some (x # xs) \<Rightarrow> Some (x # xs) | _ \<Rightarrow> operator_slug_of db (xc_operator_id row))
              in \<lparr>actor_kind = ACTOR_OPERATOR,
                  actor_id = (case slug of Some (x # xs) \<Rightarrow> lit ''operator:'' @ lit (x # xs)
                              | _ \<Rightarrow> lit ''credential:'' @ lit (xc_credential_id row)),
                  credential_kind = xc_kind row, credential_id = Some (xc_credential_id row),
                  operator_id = xc_operator_id row, operator_slug = slug,
                  org_roles = org_roles_for_operator db (xc_operator_id row),
                  runtime_org_id = None, runtime_machine_id = None, runtime_id = None,
                  is_bootstrap_admin = (slug = Some ADMIN_SLUG), channel = CHANNEL_API, bound_session_ids = []\<rparr>)"

text \<open>The result of a call that authenticates, and the state it leaves.\<close>

type_synonym 'a auth_result = "(credential_error + 'a) \<times> auth_db \<times> auth_process"

definition principal_for_secret :: "auth_env \<Rightarrow> pystr option \<Rightarrow> auth_db \<times> auth_process \<Rightarrow> principal option auth_result" where
  "principal_for_secret env raw st =
     (case resolve_secret env raw st of
        (Inl e, st') \<Rightarrow> (Inl e, st')
      | (Inr None, st') \<Rightarrow> (Inr None, st')
      | (Inr (Some c), db, p) \<Rightarrow>
          let db' = en_others env AtPrincipal db in (Inr (Some (principal_from_credential db' c)), db', p))"

section \<open>Principals without a credential\<close>

definition operator_principal :: "string \<Rightarrow> int option \<Rightarrow> string \<Rightarrow> bool \<Rightarrow> string \<Rightarrow> auth_db \<Rightarrow> principal" where
  "operator_principal kind oid slug admin ch db =
     \<lparr>actor_kind = ACTOR_OPERATOR, actor_id = lit ''operator:'' @ lit slug, credential_kind = kind, credential_id = None,
      operator_id = oid, operator_slug = Some slug, org_roles = org_roles_for_operator db oid,
      runtime_org_id = None, runtime_machine_id = None, runtime_id = None, is_bootstrap_admin = admin,
      channel = ch, bound_session_ids = []\<rparr>"

definition bootstrap_principal :: "auth_env \<Rightarrow> string \<Rightarrow> auth_db \<Rightarrow> principal \<times> auth_db" where
  "bootstrap_principal env ch db =
     (let (oid, db') = admin_operator_id env AtPrincipal (en_others env AtPrincipal db)
      in (operator_principal CREDENTIAL_BOOTSTRAP oid ADMIN_SLUG True ch db', db'))"

definition principal_for_operator_slug :: "auth_db \<Rightarrow> pystr option \<Rightarrow> principal option" where
  "principal_for_operator_slug db slug =
     (case slug of
        None \<Rightarrow> None
      | Some s \<Rightarrow> if s = [] then None
                  else map_option (\<lambda>r. operator_principal KIND_OPERATOR (Some (op_id r)) (op_slug r)
                                          (op_slug r = ADMIN_SLUG) CHANNEL_LOCAL db)
                         (by_slug db (slug_key s)))"

definition anonymous_principal :: principal where
  "anonymous_principal =
     \<lparr>actor_kind = ACTOR_OPERATOR, actor_id = lit ''anonymous'', credential_kind = ''none'', credential_id = None,
      operator_id = None, operator_slug = None, org_roles = [], runtime_org_id = None, runtime_machine_id = None,
      runtime_id = None, is_bootstrap_admin = False, channel = CHANNEL_API, bound_session_ids = []\<rparr>"

section \<open>The current principal\<close>

text \<open>The value of the \<open>ContextVar\<close>: nothing, the slot of a request, or a principal itself.\<close>

datatype current_context = NoContext | Slot "principal option" | Bound principal

definition set_current_principal :: "principal option \<Rightarrow> current_context \<Rightarrow> current_context" where
  "set_current_principal p c =
     (case c of Slot _ \<Rightarrow> Slot p | _ \<Rightarrow> (case p of None \<Rightarrow> NoContext | Some q \<Rightarrow> Bound q))"

definition get_current_principal :: "current_context \<Rightarrow> principal option" where
  "get_current_principal c = (case c of NoContext \<Rightarrow> None | Slot p \<Rightarrow> p | Bound p \<Rightarrow> Some p)"

text \<open>\<open>with principal_slot(): body\<close>: the body runs with a fresh slot and the old value comes back.\<close>

definition principal_slot :: "(current_context \<Rightarrow> 'a \<times> current_context) \<Rightarrow> current_context \<Rightarrow> 'a \<times> current_context" where
  "principal_slot body c = (fst (body (Slot None)), c)"

text \<open>\<open>env_operator\<close> and \<open>env_key\<close> are \<open>BRAINS_OPERATOR\<close> and \<open>BRAINS_API_KEY\<close>.\<close>

definition resolve_local_principal ::
    "auth_env \<Rightarrow> pystr option \<Rightarrow> pystr option \<Rightarrow> pystr option \<Rightarrow> current_context \<Rightarrow> auth_db \<times> auth_process \<Rightarrow> principal auth_result" where
  "resolve_local_principal env operator env_operator env_key ctx st =
     (case principal_for_operator_slug (fst st) operator of
        Some p \<Rightarrow> (Inr p, st)
      | None \<Rightarrow>
          (case ctx of
             Slot (Some p) \<Rightarrow> (Inr p, st)
           | Slot None \<Rightarrow> (Inr anonymous_principal, st)
           | Bound p \<Rightarrow> (Inr p, st)
           | NoContext \<Rightarrow>
               (case principal_for_operator_slug (fst st) (map_option slug_key env_operator) of
                  Some p \<Rightarrow> (Inr p, st)
                | None \<Rightarrow>
                    let bootstrap = (\<lambda>st. let (p, db) = bootstrap_principal env CHANNEL_LOCAL (fst st) in (Inr p, db, snd st))
                    in if env_key = None \<or> env_key = Some [] then bootstrap st
                       else case principal_for_secret env env_key st of
                         (Inl e, st') \<Rightarrow> (Inl e, st')
                       | (Inr (Some p), st') \<Rightarrow> (Inr (with_channel p CHANNEL_LOCAL), st')
                       | (Inr None, st') \<Rightarrow> bootstrap st')))"

section \<open>The operator that owns a Session\<close>

definition slug_given :: "pystr option \<Rightarrow> pystr option" where
  "slug_given s = (case s of None \<Rightarrow> None | Some x \<Rightarrow> if x = [] then None else Some x)"

text \<open>\<open>ctx_slug\<close> is the older \<open>current_operator\<close> variable; the first slug that names an operator wins.\<close>

fun first_by_slug :: "auth_db \<Rightarrow> pystr option list \<Rightarrow> operator_record option" where
  "first_by_slug db [] = None"
| "first_by_slug db (s # ss) =
     (case Option.bind s (resolve_by_slug db) of None \<Rightarrow> first_by_slug db ss | Some r \<Rightarrow> Some r)"

definition resolve_current_operator ::
    "(pystr \<Rightarrow> pystr) \<Rightarrow> pystr \<Rightarrow> pystr option \<Rightarrow> current_context \<Rightarrow> pystr option \<Rightarrow> pystr option \<Rightarrow> pystr option \<Rightarrow> auth_db
     \<Rightarrow> (operator_error + operator_record) \<times> auth_db" where
  "resolve_current_operator sha api_key operator ctx ctx_slug env_operator env_key db =
     (case first_by_slug db
             [map_option slug_key (slug_given operator),
              slug_given (Option.bind (get_current_principal ctx) (\<lambda>p. map_option lit (operator_slug p))),
              slug_given ctx_slug,
              slug_given (map_option slug_key env_operator)] of
        Some r \<Rightarrow> (Inr r, db)
      | None \<Rightarrow>
          (case resolve_operator_for_key sha db env_key of
             Inl e \<Rightarrow> (Inl e, db)
           | Inr (Some r) \<Rightarrow> (Inr r, db)
           | Inr None \<Rightarrow> ensure_admin_operator sha api_key db))"

end
