(* ===== verification/HttpAuth.thy ===== *)
theory HttpAuth imports Resolver begin

text \<open>
  Models \<open>src/brains/authz/deps.py\<close> and \<open>src/brains/api/auth.py\<close>: how an HTTP request becomes a principal,
  the sliding window of the rate limit, the signed console cookie, and the gates of the routes.
  \<open>hmac.new(key, msg, sha256).digest()\<close> is the parameter \<open>mac\<close>, a list of bytes.
\<close>

section \<open>Failures\<close>

text \<open>
  \<open>Refused\<close> is the \<open>HTTPException\<close> of a policy, \<open>TooManyRequests\<close> the 429 with its \<open>Retry-After\<close>; the
  other ones are exceptions nobody on the way handles, which the server answers with a 500.
\<close>

datatype auth_failure =
    Refused http_error
  | TooManyRequests int
  | Unhandled credential_error
  | CompareNonAscii
  | FloatOverflow

section \<open>The rate limit\<close>

type_synonym rate_history = "pystr \<Rightarrow> instant list"

definition check_rate_limit ::
    "(pystr \<Rightarrow> pystr) \<Rightarrow> int \<Rightarrow> instant \<Rightarrow> pystr \<Rightarrow> rate_history \<Rightarrow> (auth_failure + unit) \<times> rate_history" where
  "check_rate_limit sha limit now token rates =
     (if limit \<le> 0 then (Inr (), rates)
      else let bucket = sha token;
               history = dropWhile (\<lambda>t. t < now - seconds 60) (rates bucket)
           in if int (length history) \<ge> limit
              then (Inl (TooManyRequests (max 1 ((seconds 60 - (now - hd history)) div seconds 1))), rates(bucket := history))
              else (Inr (), rates(bucket := history @ [now])))"

section \<open>The console cookie\<close>

definition BROWSER_COOKIE_TTL_SECONDS :: int where "BROWSER_COOKIE_TTL_SECONDS = 60 * 60 * 12"

text \<open>\<open>base64.urlsafe_b64encode\<close> without its padding.\<close>

definition b64_char :: "nat \<Rightarrow> nat" where
  "b64_char n =
     (if n < 26 then n + 65 else if n < 52 then n + 71 else if n < 62 then n - 4 else if n = 62 then 45 else 95)"

fun b64u :: "nat list \<Rightarrow> pystr" where
  "b64u [] = []"
| "b64u [a] = [b64_char (a div 4), b64_char (a mod 4 * 16)]"
| "b64u [a, b] = [b64_char (a div 4), b64_char (a mod 4 * 16 + b div 16), b64_char (b mod 16 * 4)]"
| "b64u (a # b # c # rest) =
     [b64_char (a div 4), b64_char (a mod 4 * 16 + b div 16), b64_char (b mod 16 * 4 + c div 64), b64_char (c mod 64)] @ b64u rest"

definition cookie_message :: "pystr \<Rightarrow> int \<Rightarrow> pystr" where
  "cookie_message kid ts = kid @ [46] @ str_of_int ts"

definition mint_browser_token :: "(pystr \<Rightarrow> pystr) \<Rightarrow> (pystr \<Rightarrow> pystr \<Rightarrow> nat list) \<Rightarrow> pystr \<Rightarrow> int \<Rightarrow> pystr" where
  "mint_browser_token sha mac key ts =
     lit ''v1.'' @ fingerprint sha key @ [46] @ str_of_int ts @ [46] @ b64u (mac key (cookie_message (fingerprint sha key) ts))"

text \<open>\<open>hmac.compare_digest\<close> on two strings: a character outside ASCII raises \<open>TypeError\<close>.\<close>

definition compare_digest :: "pystr \<Rightarrow> pystr \<Rightarrow> auth_failure + bool" where
  "compare_digest a b = (if \<forall>c\<in>set (a @ b). c < 128 then Inr (a = b) else Inl CompareNonAscii)"

fun match_cookie ::
    "(pystr \<Rightarrow> pystr) \<Rightarrow> (pystr \<Rightarrow> pystr \<Rightarrow> nat list) \<Rightarrow> pystr \<Rightarrow> int \<Rightarrow> pystr \<Rightarrow> pystr option \<Rightarrow> pystr list
     \<Rightarrow> auth_failure + pystr option" where
  "match_cookie sha mac kid ts sig matched [] = Inr matched"
| "match_cookie sha mac kid ts sig matched (key # keys) =
     bind_result (compare_digest (fingerprint sha key) kid) (\<lambda>kid_ok.
     bind_result (compare_digest (b64u (mac key (cookie_message kid ts))) sig) (\<lambda>sig_ok.
       match_cookie sha mac kid ts sig (if kid_ok \<and> sig_ok \<and> matched = None then Some key else matched) keys))"

definition FLOAT_OVERFLOW :: int where "FLOAT_OVERFLOW = 2 ^ 1024 - 2 ^ 970"

text \<open>
  \<open>time.time() - ts\<close> converts \<open>ts\<close> to a float, which raises \<open>OverflowError\<close> from the number on
  that rounds past the largest double; \<open>int\<close> refuses more than 4300 digits. \<open>now\<close> is in microseconds.
\<close>

definition resolve_browser_token ::
    "(pystr \<Rightarrow> pystr) \<Rightarrow> (pystr \<Rightarrow> pystr \<Rightarrow> nat list) \<Rightarrow> instant \<Rightarrow> pystr \<Rightarrow> pystr list \<Rightarrow> auth_failure + pystr option" where
  "resolve_browser_token sha mac now token keys =
     (case split_on 46 token of
        [version, kid, ts_text, sig] \<Rightarrow>
          if version \<noteq> lit ''v1'' \<or> length (filter is_digit ts_text) > 4300 then Inr None
          else (case py_int ts_text of
                  None \<Rightarrow> Inr None
                | Some ts \<Rightarrow>
                    if ts \<le> 0 then Inr None
                    else if ts \<ge> FLOAT_OVERFLOW then Inl FloatOverflow
                    else if now - seconds ts > seconds BROWSER_COOKIE_TTL_SECONDS then Inr None
                    else match_cookie sha mac kid ts sig None keys)
      | _ \<Rightarrow> Inr None)"

fun distinct_keys :: "pystr list \<Rightarrow> source_entry list \<Rightarrow> pystr list" where
  "distinct_keys seen [] = []"
| "distinct_keys seen ((raw, _, _) # es) =
     (if raw = [] \<or> raw \<in> set seen then distinct_keys seen es else raw # distinct_keys (raw # seen) es)"

definition valid_keys :: "auth_env \<Rightarrow> auth_process \<Rightarrow> pystr list \<times> auth_process" where
  "valid_keys env p =
     (case local_key_sources (en_sha env) (en_mono env AtCookie) False (en_view env AtCookieStats) (en_view env AtCookieTexts) p of
        (Inr es, p') \<Rightarrow> (distinct_keys [] es, p')
      | (Inl _, p') \<Rightarrow>
          let k = lv_api_key (en_view env AtCookie)
          in (distinct_keys [] (if k = [] then [] else [(k, KIND_ADMIN, SOURCE_ADMIN_KEY)]), p'))"

section \<open>A request\<close>

record http_request =
  rq_authorization :: "pystr option"
  rq_x_api_key :: "pystr option"
  rq_query_key :: "pystr option"
  rq_cookie :: "pystr option"

record auth_settings =
  as_allow_unauthenticated :: bool
  as_rate_limit :: int

text \<open>The state of a server: the store, the caches and windows of the process, the current principal.\<close>

record server =
  sv_db :: auth_db
  sv_process :: auth_process
  sv_rates :: rate_history
  sv_current :: current_context

definition extract_bearer :: "pystr option \<Rightarrow> pystr option \<Rightarrow> pystr option" where
  "extract_bearer authorization x_api_key =
     (case slug_given x_api_key of
        Some k \<Rightarrow> Some k
      | None \<Rightarrow>
          (case slug_given authorization of
             None \<Rightarrow> None
           | Some a \<Rightarrow>
               let scheme = takeWhile (\<lambda>c. c \<noteq> 32) a; token = drop (length scheme + 1) a
               in if map lower1 scheme \<noteq> lit ''bearer'' \<or> token = [] then None else Some token))"

definition publish_principal :: "principal \<Rightarrow> server \<Rightarrow> (auth_failure + principal) \<times> server" where
  "publish_principal p sv = (Inr p, sv\<lparr>sv_current := set_current_principal (Some p) (sv_current sv)\<rparr>)"

text \<open>A presented secret: the principal on \<open>ch\<close> within its rate, or the refusal.\<close>

definition present_secret ::
    "auth_env \<Rightarrow> auth_settings \<Rightarrow> string \<Rightarrow> string \<Rightarrow> pystr \<Rightarrow> server \<Rightarrow> (auth_failure + principal) \<times> server" where
  "present_secret env cfg detail ch token sv =
     (case principal_for_secret env (Some token) (sv_db sv, sv_process sv) of
        (Inl e, db, p) \<Rightarrow> (Inl (Unhandled e), sv\<lparr>sv_db := db, sv_process := p\<rparr>)
      | (Inr None, db, p) \<Rightarrow> (Inl (Refused (unauthenticated detail)), sv\<lparr>sv_db := db, sv_process := p\<rparr>)
      | (Inr (Some q), db, p) \<Rightarrow>
          (case check_rate_limit (en_sha env) (as_rate_limit cfg) (en_mono env AtRate) token (sv_rates sv) of
             (Inl e, rates) \<Rightarrow> (Inl e, sv\<lparr>sv_db := db, sv_process := p, sv_rates := rates\<rparr>)
           | (Inr _, rates) \<Rightarrow> publish_principal (with_channel q ch) (sv\<lparr>sv_db := db, sv_process := p, sv_rates := rates\<rparr>)))"

text \<open>The console cookie: its rate is that of the cookie, its principal that of the key that signed it.\<close>

definition present_cookie ::
    "auth_env \<Rightarrow> (pystr \<Rightarrow> pystr \<Rightarrow> nat list) \<Rightarrow> auth_settings \<Rightarrow> pystr \<Rightarrow> server \<Rightarrow> (auth_failure + principal) \<times> server" where
  "present_cookie env mac cfg token sv =
     (let (keys, p0) = valid_keys env (sv_process sv); sv0 = sv\<lparr>sv_process := p0\<rparr>;
          refused = Inl (Refused (unauthenticated ''Sign in required''))
      in case resolve_browser_token (en_sha env) mac (en_now env AtCookie) token keys of
           Inl e \<Rightarrow> (Inl e, sv0)
         | Inr None \<Rightarrow> (refused, sv0)
         | Inr (Some key) \<Rightarrow>
             (case principal_for_secret env (Some key) (sv_db sv, p0) of
                (Inl e, db, p) \<Rightarrow> (Inl (Unhandled e), sv\<lparr>sv_db := db, sv_process := p\<rparr>)
              | (Inr None, db, p) \<Rightarrow> (refused, sv\<lparr>sv_db := db, sv_process := p\<rparr>)
              | (Inr (Some q), db, p) \<Rightarrow>
                  (case check_rate_limit (en_sha env) (as_rate_limit cfg) (en_mono env AtRate) token (sv_rates sv) of
                     (Inl e, rates) \<Rightarrow> (Inl e, sv\<lparr>sv_db := db, sv_process := p, sv_rates := rates\<rparr>)
                   | (Inr _, rates) \<Rightarrow>
                       publish_principal (with_channel q CHANNEL_BROWSER) (sv\<lparr>sv_db := db, sv_process := p, sv_rates := rates\<rparr>))))"

definition resolve_request_principal ::
    "auth_env \<Rightarrow> (pystr \<Rightarrow> pystr \<Rightarrow> nat list) \<Rightarrow> auth_settings \<Rightarrow> bool \<Rightarrow> http_request \<Rightarrow> server
     \<Rightarrow> (auth_failure + principal) \<times> server" where
  "resolve_request_principal env mac cfg allow_cookie rq sv =
     (if as_allow_unauthenticated cfg
      then let (p, db) = bootstrap_principal env CHANNEL_LOCAL (sv_db sv) in publish_principal p (sv\<lparr>sv_db := db\<rparr>)
      else case extract_bearer (rq_authorization rq) (rq_x_api_key rq) of
             Some token \<Rightarrow> present_secret env cfg ''Invalid API key'' CHANNEL_API token sv
           | None \<Rightarrow>
               if \<not> allow_cookie then (Inl (Refused (unauthenticated ''Invalid API key'')), sv)
               else (case slug_given (rq_query_key rq) of
                       Some token \<Rightarrow> present_secret env cfg ''Sign in required'' CHANNEL_API token sv
                     | None \<Rightarrow>
                         (case slug_given (rq_cookie rq) of
                            None \<Rightarrow> (Inl (Refused (unauthenticated ''Sign in required'')), sv)
                          | Some cookie \<Rightarrow> present_cookie env mac cfg cookie sv)))"

section \<open>The gates\<close>

definition then_require ::
    "(principal \<Rightarrow> http_error + unit) \<Rightarrow> (auth_failure + principal) \<times> server \<Rightarrow> (auth_failure + principal) \<times> server" where
  "then_require check x =
     (case x of
        (Inl e, sv) \<Rightarrow> (Inl e, sv)
      | (Inr p, sv) \<Rightarrow> (case check p of Inl e \<Rightarrow> Inl (Refused e) | Inr _ \<Rightarrow> Inr p, sv))"

definition require_principal where
  "require_principal env mac cfg rq sv = resolve_request_principal env mac cfg False rq sv"

definition require_console_principal where
  "require_console_principal env mac cfg rq sv = resolve_request_principal env mac cfg True rq sv"

definition require_operator_principal where
  "require_operator_principal env mac cfg rq sv =
     then_require (\<lambda>p. require_operator p ''this operator API'') (resolve_request_principal env mac cfg True rq sv)"

definition require_api_key where
  "require_api_key env mac cfg rq sv =
     then_require (\<lambda>p. require_operator p ''the model gateway'') (resolve_request_principal env mac cfg False rq sv)"

definition require_browser_auth where
  "require_browser_auth env mac cfg rq sv =
     then_require (\<lambda>p. bind_result (require_operator p ''the console'') (\<lambda>_. require_scoped_principal p ''the console''))
       (resolve_request_principal env mac cfg True rq sv)"

definition require_console_auth where
  "require_console_auth env mac cfg rq sv = require_browser_auth env mac cfg rq sv"

definition admin_gate where
  "admin_gate env mac cfg rq sv =
     then_require (\<lambda>p. require_install_admin p ''the admin configuration console'')
       (resolve_request_principal env mac cfg True rq sv)"

text \<open>The middleware: a request runs with a fresh slot, whatever it leaves there.\<close>

definition in_request :: "(server \<Rightarrow> 'a \<times> server) \<Rightarrow> server \<Rightarrow> 'a \<times> server" where
  "in_request handler sv =
     (let (r, sv') = handler (sv\<lparr>sv_current := Slot None\<rparr>) in (r, sv'\<lparr>sv_current := sv_current sv\<rparr>))"

end
