(* ===== verification/RateLimit.thy ===== *)
theory RateLimit imports HttpAuth begin

text \<open>
  The sliding window of \<open>check_rate_limit\<close>: its reference is a log of every admitted call, of which a
  call counts those of its token in the last minute. The window that forgets old calls decides every
  sequence of calls the same way, and no minute ever holds more calls than the limit.
\<close>

section \<open>Runs\<close>

text \<open>A call is the token it presents and the time; the answers are those of the calls in order.\<close>

fun rate_run :: "(pystr \<Rightarrow> pystr) \<Rightarrow> int \<Rightarrow> (pystr \<times> instant) list \<Rightarrow> rate_history \<Rightarrow> bool list" where
  "rate_run sha limit [] rates = []"
| "rate_run sha limit ((token, now) # calls) rates =
     (let (r, rates') = check_rate_limit sha limit now token rates
      in (r = Inr ()) # rate_run sha limit calls rates')"

definition in_last_minute :: "(pystr \<Rightarrow> pystr) \<Rightarrow> pystr \<Rightarrow> instant \<Rightarrow> (pystr \<times> instant) list \<Rightarrow> nat" where
  "in_last_minute sha token now log =
     length (filter (\<lambda>(u, t). sha u = sha token \<and> now - seconds 60 \<le> t \<and> t \<le> now) log)"

fun rate_spec :: "(pystr \<Rightarrow> pystr) \<Rightarrow> int \<Rightarrow> (pystr \<times> instant) list \<Rightarrow> (pystr \<times> instant) list \<Rightarrow> bool list" where
  "rate_spec sha limit [] log = []"
| "rate_spec sha limit ((token, now) # calls) log =
     (let ok = (limit \<le> 0 \<or> int (in_last_minute sha token now log) < limit)
      in ok # rate_spec sha limit calls (if ok then log @ [(token, now)] else log))"

section \<open>The window represents the log\<close>

definition times_of :: "(pystr \<Rightarrow> pystr) \<Rightarrow> pystr \<Rightarrow> (pystr \<times> instant) list \<Rightarrow> instant list" where
  "times_of sha d log = map snd (filter (\<lambda>c. sha (fst c) = d) log)"

text \<open>A window holds the times of its token, less old ones of an earlier call.\<close>

definition represents :: "(pystr \<Rightarrow> pystr) \<Rightarrow> instant \<Rightarrow> rate_history \<Rightarrow> (pystr \<times> instant) list \<Rightarrow> bool" where
  "represents sha now rates log \<longleftrightarrow>
     (\<forall>d. sorted (times_of sha d log) \<and> (\<forall>t\<in>set (times_of sha d log). t \<le> now) \<and>
          (\<exists>u\<le>now. rates d = filter (\<lambda>t. u - seconds 60 \<le> t) (times_of sha d log)))"

lemma dropWhile_less_sorted: "sorted xs \<Longrightarrow> dropWhile (\<lambda>t. t < c) xs = filter (\<lambda>t. c \<le> t) (xs :: instant list)"
  by (induction xs) (auto simp: filter_id_conv intro!: filter_True[symmetric])

lemma represents_window:
  assumes "represents sha now rates log" and "now \<le> now'"
  shows "dropWhile (\<lambda>t. t < now' - seconds 60) (rates (sha token)) =
      filter (\<lambda>t. now' - seconds 60 \<le> t) (times_of sha (sha token) log)"
    and "length (filter (\<lambda>t. now' - seconds 60 \<le> t) (times_of sha (sha token) log)) = in_last_minute sha token now' log"
proof -
  define ts where "ts = times_of sha (sha token) log"
  obtain u where u: "u \<le> now" "rates (sha token) = filter (\<lambda>t. u - seconds 60 \<le> t) ts" and s: "sorted ts"
    and le: "\<forall>t\<in>set ts. t \<le> now"
    using assms(1) by (auto simp: represents_def ts_def)
  have "sorted (filter (\<lambda>t. u - seconds 60 \<le> t) ts)" using s by (rule sorted_wrt_filter)
  then have "dropWhile (\<lambda>t. t < now' - seconds 60) (rates (sha token)) =
      filter (\<lambda>t. now' - seconds 60 \<le> t) (filter (\<lambda>t. u - seconds 60 \<le> t) ts)"
    by (simp add: u(2) dropWhile_less_sorted)
  also have "\<dots> = filter (\<lambda>t. now' - seconds 60 \<le> t) ts"
    using u(1) assms(2) by (auto simp: filter_filter intro!: filter_cong)
  finally show "dropWhile (\<lambda>t. t < now' - seconds 60) (rates (sha token)) =
      filter (\<lambda>t. now' - seconds 60 \<le> t) (times_of sha (sha token) log)" by (simp add: ts_def)
  have "filter (\<lambda>t. now' - seconds 60 \<le> t) ts = filter (\<lambda>t. now' - seconds 60 \<le> t \<and> t \<le> now') ts"
    using le assms(2) by (auto intro!: filter_cong)
  then show "length (filter (\<lambda>t. now' - seconds 60 \<le> t) (times_of sha (sha token) log)) = in_last_minute sha token now' log"
    by (auto simp: ts_def times_of_def in_last_minute_def filter_map o_def case_prod_beta conj_comms intro!: arg_cong[where f = length] filter_cong)
qed

lemma represents_later: "represents sha now rates log \<Longrightarrow> now \<le> now' \<Longrightarrow> represents sha now' rates log"
  unfolding represents_def by (meson order_trans)

lemma represents_window_set:
  assumes "represents sha now rates log"
  shows "represents sha now (rates(d := filter (\<lambda>t. now - seconds 60 \<le> t) (times_of sha d log))) log"
  using assms unfolding represents_def by auto

lemma represents_admit:
  assumes "represents sha now rates log"
  shows "represents sha now (rates(sha token := filter (\<lambda>t. now - seconds 60 \<le> t) (times_of sha (sha token) log) @ [now]))
           (log @ [(token, now)])"
proof -
  have t: "times_of sha d (log @ [(token, now)]) = times_of sha d log @ (if sha token = d then [now] else [])" for d
    by (simp add: times_of_def)
  show ?thesis
    using assms unfolding represents_def t by (auto simp: sorted_append)
qed

lemma represents_start: "represents sha now (\<lambda>_. []) []"
  by (auto simp: represents_def times_of_def)

lemma rate_run_spec:
  "sorted (map snd calls) \<Longrightarrow> (\<forall>c\<in>set calls. now \<le> snd c) \<Longrightarrow> represents sha now rates log
     \<Longrightarrow> rate_run sha limit calls rates = rate_spec sha limit calls log"
proof (induction calls arbitrary: now rates log)
  case (Cons c calls)
  obtain token t where c: "c = (token, t)" by (cases c)
  have r: "represents sha t rates log" using Cons.prems c by (intro represents_later[OF Cons.prems(3)]) simp
  have later: "sorted (map snd calls)" "\<forall>x\<in>set calls. t \<le> snd x" using Cons.prems(1) c by auto
  show ?case
  proof (cases "limit \<le> 0")
    case True
    have "rate_run sha limit xs r1 = rate_spec sha limit xs l1" for xs r1 l1
      using True by (induction xs arbitrary: r1 l1) (auto simp: check_rate_limit_def Let_def)
    then show ?thesis by blast
  next
    case False
    then show ?thesis
      using Cons.IH[OF later] represents_window[OF r order_refl, of token] represents_window_set[OF r]
        represents_admit[OF r]
      by (auto simp: c check_rate_limit_def Let_def)
  qed
qed simp

lemma rate_run_from_start:
  assumes "sorted (map snd calls)"
  shows "rate_run sha limit calls (\<lambda>_. []) = rate_spec sha limit calls []"
proof (cases calls)
  case (Cons c cs)
  then show ?thesis
    using assms by (intro rate_run_spec[of calls "snd c"]) (auto simp: represents_start)
qed simp

section \<open>What is admitted\<close>

definition admitted_calls :: "(pystr \<times> instant) list \<Rightarrow> bool list \<Rightarrow> (pystr \<times> instant) list" where
  "admitted_calls calls answers = map fst (filter snd (zip calls answers))"

lemma in_last_minute_append:
  "in_last_minute sha token now (xs @ ys) = in_last_minute sha token now xs + in_last_minute sha token now ys"
  by (simp add: in_last_minute_def)

lemma in_last_minute_shrinks:
  assumes "\<forall>c\<in>set log. snd c \<le> now" and "now \<le> t"
  shows "in_last_minute sha token t log \<le> in_last_minute sha token now log"
  using assms by (induction log) (auto simp: in_last_minute_def)

lemma rate_spec_bounded:
  assumes l: "0 < limit"
  shows "sorted (map snd calls) \<Longrightarrow> (\<forall>c\<in>set log. \<forall>x\<in>set calls. snd c \<le> snd x)
     \<Longrightarrow> \<forall>t. int (in_last_minute sha token t log) \<le> limit
     \<Longrightarrow> int (in_last_minute sha token t (log @ admitted_calls calls (rate_spec sha limit calls log))) \<le> limit"
proof (induction calls arbitrary: log)
  case Nil
  then show ?case by (simp add: admitted_calls_def)
next
  case (Cons c calls)
  obtain u now where c: "c = (u, now)" by (cases c)
  have before: "\<forall>x\<in>set log. snd x \<le> now" using Cons.prems(2) c by auto
  have later: "sorted (map snd calls)" "\<forall>x\<in>set calls. now \<le> snd x" using Cons.prems(1) c by auto
  show ?case
  proof (cases "int (in_last_minute sha u now log) < limit")
    case True
    have one: "in_last_minute sha token t [(u, now)] = (if sha u = sha token \<and> t - seconds 60 \<le> now \<and> now \<le> t then 1 else 0)" for t
      by (simp add: in_last_minute_def)
    have "int (in_last_minute sha token t (log @ [(u, now)])) \<le> limit" for t
    proof (cases "sha u = sha token \<and> now \<le> t")
      case newer: True
      then have "in_last_minute sha u now log = in_last_minute sha token now log" by (simp add: in_last_minute_def)
      then show ?thesis
        using True in_last_minute_shrinks[OF before, of t sha token] newer by (simp add: in_last_minute_append one)
    next
      case False
      then show ?thesis using Cons.prems(3) by (auto simp: in_last_minute_append one)
    qed
    then have "int (in_last_minute sha token t ((log @ [(u, now)]) @
        admitted_calls calls (rate_spec sha limit calls (log @ [(u, now)])))) \<le> limit"
      using Cons.prems(2) later by (intro Cons.IH) auto
    then show ?thesis using True by (simp add: c admitted_calls_def Let_def)
  next
    case False
    then have "int (in_last_minute sha token t (log @ admitted_calls calls (rate_spec sha limit calls log))) \<le> limit"
      using Cons.prems later by (intro Cons.IH) auto
    then show ?thesis using False l by (simp add: c admitted_calls_def Let_def)
  qed
qed

section \<open>Properties\<close>

text \<open>C34. The window is a log of the last minute. On every sequence of calls in the order of the clock, by
  any tokens, a server that starts with empty windows admits and refuses exactly as the reference does,
  which keeps all admitted calls and counts those of the same digest in the closed minute before.\<close>

theorem rate_limit_equivalent:
  assumes "sorted (map snd calls)"
  shows "rate_run sha limit calls (\<lambda>_. []) = rate_spec sha limit calls []"
  using assms by (rule rate_run_from_start)

definition three_calls :: "(pystr \<times> instant) list" where
  "three_calls = [([1], 0), ([1], seconds 59), ([1], seconds 61)]"

lemma three_calls_sorted [simp]: "sorted (map snd three_calls)"
  by (simp add: three_calls_def)

theorem rate_limit_equivalent_witness:
  "rate_run (\<lambda>x. x) 1 three_calls (\<lambda>_. []) = [True, False, True]"
  using rate_limit_equivalent[OF three_calls_sorted, of "\<lambda>x. x" 1]
  by (simp add: three_calls_def in_last_minute_def seconds_def Let_def)

text \<open>C35. No minute holds more than the limit. Of any sequence of calls in the order of the clock, the ones
  the server admits for one token are at most the limit in every closed interval of sixty seconds.\<close>

theorem rate_window_bounded:
  assumes "sorted (map snd calls)" and "0 < limit"
  shows "int (in_last_minute sha token t (admitted_calls calls (rate_run sha limit calls (\<lambda>_. [])))) \<le> limit"
  using rate_spec_bounded[OF assms(2,1), of "[]" sha token t] assms(2)
  by (simp add: rate_run_from_start[OF assms(1)]) (simp add: in_last_minute_def)

theorem rate_window_bounded_witness:
  "int (in_last_minute (\<lambda>x. x) [1] (seconds 60) (admitted_calls three_calls (rate_run (\<lambda>x. x) 1 three_calls (\<lambda>_. [])))) \<le> 1"
  by (rule rate_window_bounded) simp_all

end
