(* ===== verification/AccessLaws.thy ===== *)
theory AccessLaws imports HttpAuth begin

text \<open>
  Laws of the console cookie and of the requests that authenticate: the characters of a cookie, what
  a comparison of digests answers, and which principal leaves which door.
\<close>

section \<open>The characters of a cookie\<close>

definition plain :: "nat \<Rightarrow> bool" where
  "plain c \<longleftrightarrow> c < 128 \<and> c \<noteq> 46"

lemma b64_char_plain: "n < 64 \<Longrightarrow> plain (b64_char n)"
  by (auto simp: b64_char_def plain_def)

lemma b64_digits:
  assumes "a < 256" and "b < 256" and "c < 256"
  shows "a div 4 < 64" "a mod 4 * 16 < (64 :: nat)" "a mod 4 * 16 + b div 16 < 64" "b mod 16 * 4 < 64"
    "b mod 16 * 4 + c div 64 < 64" "c mod 64 < 64"
proof -
  have d: "a div 4 < 64" "b div 16 < 16" "c div 64 < 4" using assms by (auto intro: less_mult_imp_div_less)
  have m: "a mod 4 < 4" "b mod 16 < 16" by simp_all
  show "a div 4 < 64" "a mod 4 * 16 < (64 :: nat)" "a mod 4 * 16 + b div 16 < 64" "b mod 16 * 4 < 64"
    "b mod 16 * 4 + c div 64 < 64" "c mod 64 < 64"
    using d m by linarith+
qed

lemma b64u_plain: "\<forall>x\<in>set bs. x < 256 \<Longrightarrow> \<forall>c\<in>set (b64u bs). plain c"
proof (induction bs rule: b64u.induct)
  case (2 a)
  then show ?case using b64_digits[of a 0 0] by (simp add: b64_char_plain)
next
  case (3 a b)
  then show ?case using b64_digits[of a b 0] by (simp add: b64_char_plain)
next
  case (4 a b c rest)
  then show ?case using b64_digits[of a b c] by (simp add: b64_char_plain)
qed simp

lemma str_of_int_plain: "0 \<le> i \<Longrightarrow> \<forall>c\<in>set (str_of_int i). plain c"
  using digits_of_are_digits[of "nat i"] by (auto simp: str_of_int_def plain_def is_digit_def)

text \<open>What \<open>hexdigest\<close> gives, and that \<open>digest\<close> gives bytes.\<close>

definition hex_digest :: "(pystr \<Rightarrow> pystr) \<Rightarrow> bool" where
  "hex_digest sha \<longleftrightarrow> (\<forall>x. \<forall>c\<in>set (sha x). is_digit c \<or> 97 \<le> c \<and> c \<le> 102)"

definition byte_mac :: "(pystr \<Rightarrow> pystr \<Rightarrow> nat list) \<Rightarrow> bool" where
  "byte_mac mac \<longleftrightarrow> (\<forall>k m. \<forall>x\<in>set (mac k m). x < 256)"

lemma fingerprint_plain: "hex_digest sha \<Longrightarrow> \<forall>c\<in>set (fingerprint sha k). plain c"
  using set_take_subset[of 16 "sha k"] by (fastforce simp: hex_digest_def fingerprint_def plain_def is_digit_def)

lemma plain_compare: "\<forall>c\<in>set x. plain c \<Longrightarrow> \<forall>c\<in>set y. plain c \<Longrightarrow> compare_digest x y = Inr (x = y)"
  by (auto simp: compare_digest_def plain_def)

lemma plain_no_dot: "\<forall>c\<in>set x. plain c \<Longrightarrow> 46 \<notin> set x"
  by (auto simp: plain_def)

lemma compare_digest_Inr: "compare_digest x y = Inr r \<Longrightarrow> r = (x = y)"
  by (auto simp: compare_digest_def split: if_splits)

section \<open>Matching a cookie\<close>

lemma match_cookie_some: "match_cookie sha mac kid ts sig (Some k) keys = Inr r \<Longrightarrow> r = Some k"
  by (induction keys) (auto simp: result_simps)

lemma match_cookie_sound:
  "match_cookie sha mac kid ts sig None keys = Inr (Some key) \<Longrightarrow>
     key \<in> set keys \<and> fingerprint sha key = kid \<and> b64u (mac key (cookie_message kid ts)) = sig"
proof (induction keys)
  case (Cons k keys)
  then show ?case
    by (auto simp: result_simps dest!: compare_digest_Inr match_cookie_some split: if_splits)
qed simp

lemma match_cookie_finds:
  assumes "hex_digest sha" and "byte_mac mac" and "\<forall>c\<in>set kid. plain c" and "\<forall>c\<in>set sig. plain c"
  shows "match_cookie sha mac kid ts sig m keys =
    Inr (case m of Some k \<Rightarrow> Some k
         | None \<Rightarrow> List.find (\<lambda>k. fingerprint sha k = kid \<and> b64u (mac k (cookie_message kid ts)) = sig) keys)"
proof (induction keys arbitrary: m)
  case Nil
  then show ?case by (simp split: option.splits)
next
  case (Cons k keys)
  have "\<forall>c\<in>set (b64u (mac k (cookie_message kid ts))). plain c"
    by (rule b64u_plain) (use assms(2) in \<open>simp add: byte_mac_def\<close>)
  then show ?case
    using Cons.IH assms fingerprint_plain[OF assms(1), of k] by (auto simp: plain_compare split: option.splits)
qed

section \<open>Doors\<close>

lemma publish_principal_Inr: "publish_principal p sv = (Inr q, sv') \<longleftrightarrow> q = p \<and> sv' = sv\<lparr>sv_current := set_current_principal (Some p) (sv_current sv)\<rparr>"
  by (auto simp: publish_principal_def)

lemma present_secret_Inr:
  assumes "present_secret env cfg detail ch token sv = (Inr p, sv')"
  shows "\<exists>q. fst (principal_for_secret env (Some token) (sv_db sv, sv_process sv)) = Inr (Some q) \<and> p = with_channel q ch \<and>
    sv_current sv' = set_current_principal (Some p) (sv_current sv)"
  using assms by (auto simp: present_secret_def publish_principal_Inr split: prod.splits sum.splits option.splits)

lemma present_cookie_Inr:
  assumes "present_cookie env mac cfg token sv = (Inr p, sv')"
  shows "\<exists>key q. resolve_browser_token (en_sha env) mac (en_now env AtCookie) token (fst (valid_keys env (sv_process sv))) = Inr (Some key) \<and>
    fst (principal_for_secret env (Some key) (sv_db sv, snd (valid_keys env (sv_process sv)))) = Inr (Some q) \<and>
    p = with_channel q CHANNEL_BROWSER \<and> sv_current sv' = set_current_principal (Some p) (sv_current sv)"
  using assms by (auto simp: present_cookie_def Let_def publish_principal_Inr split: prod.splits sum.splits option.splits)

lemma with_channel_simps [simp]:
  "channel (with_channel p ch) = ch" "actor_kind (with_channel p ch) = actor_kind p"
  "org_roles (with_channel p ch) = org_roles p" "is_bootstrap_admin (with_channel p ch) = is_bootstrap_admin p"
  "credential_kind (with_channel p ch) = credential_kind p" "credential_id (with_channel p ch) = credential_id p"
  "is_runtime (with_channel p ch) = is_runtime p"
  by (simp_all add: with_channel_def is_runtime_def)

lemma principal_for_secret_Inr:
  assumes "fst (principal_for_secret env raw st) = Inr (Some q)"
  shows "\<exists>c db p. resolve_secret env raw st = (Inr (Some c), db, p) \<and>
    q = principal_from_credential (en_others env AtPrincipal db) c"
  using assms by (auto simp: principal_for_secret_def Let_def split: prod.splits sum.splits option.splits)

lemma human_channels [simp]:
  "CHANNEL_API \<noteq> CHANNEL_BROWSER" "CHANNEL_BROWSER \<noteq> CHANNEL_API" "CHANNEL_API \<noteq> CHANNEL_LOCAL"
  "is_human_channel p \<longleftrightarrow> channel p = CHANNEL_BROWSER \<or> channel p = CHANNEL_LOCAL"
  by (auto simp: is_human_channel_def HUMAN_CHANNELS_def CHANNEL_API_def CHANNEL_BROWSER_def CHANNEL_LOCAL_def)

text \<open>The secret resolved in the store of the server, and the principal is what its credential authorizes.\<close>

definition authenticated_by :: "auth_env \<Rightarrow> server \<Rightarrow> pystr \<Rightarrow> principal \<Rightarrow> bool" where
  "authenticated_by env sv secret p \<longleftrightarrow>
     (\<exists>p0 c db p1. resolve_secret env (Some secret) (sv_db sv, p0) = (Inr (Some c), db, p1) \<and>
        p = with_channel (principal_from_credential (en_others env AtPrincipal db) c) (channel p))"

lemma current_principal_set: "get_current_principal (set_current_principal (Some p) c) = Some p"
  by (cases c) (simp_all add: set_current_principal_def get_current_principal_def)

lemma request_current:
  assumes "resolve_request_principal env mac cfg allow_cookie rq sv = (Inr p, sv')"
  shows "sv_current sv' = set_current_principal (Some p) (sv_current sv)"
  using assms present_secret_Inr[of env cfg _ CHANNEL_API _ sv p sv'] present_cookie_Inr[of env mac cfg _ sv p sv']
  by (auto simp: resolve_request_principal_def publish_principal_Inr split: option.splits if_splits prod.splits)

text \<open>The door a request came through.\<close>

lemma request_door:
  assumes "resolve_request_principal env mac cfg allow_cookie rq sv = (Inr p, sv')" and "\<not> as_allow_unauthenticated cfg"
  shows "\<exists>secret. authenticated_by env sv secret p \<and>
          (if is_human_channel p
           then channel p = CHANNEL_BROWSER \<and> allow_cookie \<and> extract_bearer (rq_authorization rq) (rq_x_api_key rq) = None \<and>
             slug_given (rq_query_key rq) = None \<and>
             (\<exists>cookie. rq_cookie rq = Some cookie \<and>
               resolve_browser_token (en_sha env) mac (en_now env AtCookie) cookie (fst (valid_keys env (sv_process sv))) = Inr (Some secret))
           else channel p = CHANNEL_API \<and>
             (extract_bearer (rq_authorization rq) (rq_x_api_key rq) = Some secret \<or> allow_cookie \<and> rq_query_key rq = Some secret))"
proof -
  have given: "slug_given x = Some y \<longleftrightarrow> x = Some y \<and> y \<noteq> []" for x y
    by (auto simp: slug_given_def split: option.splits)
  have secret: "authenticated_by env sv token p"
    if "fst (principal_for_secret env (Some token) (sv_db sv, p0)) = Inr (Some q)" "p = with_channel q ch" for token p0 q ch
    using principal_for_secret_Inr[OF that(1)] that(2) by (fastforce simp: authenticated_by_def)
  consider token detail where "extract_bearer (rq_authorization rq) (rq_x_api_key rq) = Some token \<or>
        allow_cookie \<and> rq_query_key rq = Some token" "present_secret env cfg detail CHANNEL_API token sv = (Inr p, sv')"
    | cookie where "allow_cookie" "extract_bearer (rq_authorization rq) (rq_x_api_key rq) = None" "slug_given (rq_query_key rq) = None"
        "rq_cookie rq = Some cookie" "present_cookie env mac cfg cookie sv = (Inr p, sv')"
    using assms by (auto simp: resolve_request_principal_def given split: option.splits if_splits)
  then show ?thesis
  proof cases
    case 1
    obtain q where q: "fst (principal_for_secret env (Some token) (sv_db sv, sv_process sv)) = Inr (Some q)"
      "p = with_channel q CHANNEL_API" "sv_current sv' = set_current_principal (Some p) (sv_current sv)"
      using present_secret_Inr[OF 1(2)] by blast
    then have "\<not> is_human_channel p" "channel p = CHANNEL_API" by simp_all
    then show ?thesis using secret[OF q(1,2)] 1(1) by auto
  next
    case 2
    obtain key q where k: "resolve_browser_token (en_sha env) mac (en_now env AtCookie) cookie (fst (valid_keys env (sv_process sv))) = Inr (Some key)"
      "fst (principal_for_secret env (Some key) (sv_db sv, snd (valid_keys env (sv_process sv)))) = Inr (Some q)"
      "p = with_channel q CHANNEL_BROWSER" "sv_current sv' = set_current_principal (Some p) (sv_current sv)"
      using present_cookie_Inr[OF 2(5)] by blast
    then have "is_human_channel p" "channel p = CHANNEL_BROWSER" by simp_all
    then show ?thesis using secret[OF k(2,3)] 2 k(1) by auto
  qed
qed

lemma request_authenticated:
  assumes "resolve_request_principal env mac cfg allow_cookie rq sv = (Inr p, sv')" and "\<not> as_allow_unauthenticated cfg"
  shows "\<exists>secret. authenticated_by env sv secret p"
  using request_door[OF assms] by blast

end
