(* ===== verification/AccessProperties.thy ===== *)
theory AccessProperties imports AccessLaws begin

text \<open>
  Properties of the doors: what a console cookie proves, which channel a principal arrives on, what a
  credential authorizes, who passes the gates, and which principal a request acts as.
\<close>

section \<open>The console cookie\<close>

lemma minted_parts:
  assumes "hex_digest sha" and "0 \<le> ts"
  shows "split_on 46 (mint_browser_token sha mac key ts) =
    [lit ''v1'', fingerprint sha key, str_of_int ts] @ split_on 46 (b64u (mac key (cookie_message (fingerprint sha key) ts)))"
proof -
  have v: "lit ''v1.'' @ xs = lit ''v1'' @ 46 # xs" for xs by simp
  have d: "46 \<notin> set (lit ''v1'')" "46 \<notin> set (fingerprint sha key)" "46 \<notin> set (str_of_int ts)"
    using plain_no_dot[OF fingerprint_plain[OF assms(1)]] plain_no_dot[OF str_of_int_plain[OF assms(2)]] by auto
  show ?thesis
    unfolding mint_browser_token_def v by (simp only: append_Cons append_Nil split_on_append[OF d(1)] split_on_append[OF d(2)] split_on_append[OF d(3)])
qed

text \<open>C33. A cookie comes back to its key, and only in time. Whenever it is presented, a cookie minted for a key
  resolves to that key if the key is still among the accepted ones and at most twelve hours have
  passed since it was minted, and to none if the key was retired or the twelve hours are over,
  provided that no other accepted key has the same truncated fingerprint.\<close>

theorem cookie_roundtrip:
  assumes "hex_digest sha" and "byte_mac mac" and "0 < ts" and "ts < FLOAT_OVERFLOW" and "length (str_of_int ts) \<le> 4300"
    and "\<forall>k\<in>set keys. fingerprint sha k = fingerprint sha key \<longrightarrow> k = key"
  shows "resolve_browser_token sha mac now (mint_browser_token sha mac key ts) keys =
    Inr (if key \<in> set keys \<and> now - seconds ts \<le> seconds BROWSER_COOKIE_TTL_SECONDS then Some key else None)"
proof -
  define kid where "kid = fingerprint sha key"
  define sig where "sig = b64u (mac key (cookie_message kid ts))"
  have sig: "\<forall>c\<in>set sig. plain c"
    unfolding sig_def by (rule b64u_plain) (use assms(2) in \<open>simp add: byte_mac_def\<close>)
  have parts: "split_on 46 (mint_browser_token sha mac key ts) = [lit ''v1'', kid, str_of_int ts, sig]"
    using minted_parts[OF assms(1), of ts mac key] assms(3) split_on_no_sep[OF plain_no_dot[OF sig]]
    by (simp add: kid_def sig_def)
  have digits: "\<not> 4300 < length (filter is_digit (str_of_int ts))"
    using assms(5) length_filter_le[of is_digit "str_of_int ts"] by linarith
  have "List.find (\<lambda>k. fingerprint sha k = kid \<and> b64u (mac k (cookie_message kid ts)) = sig) keys =
      (if key \<in> set keys then Some key else None)"
    using assms(6) by (induction keys) (auto simp: kid_def sig_def)
  then have "match_cookie sha mac kid ts sig None keys = Inr (if key \<in> set keys then Some key else None)"
    using match_cookie_finds[OF assms(1,2) fingerprint_plain[OF assms(1)] sig, of key ts None keys] by (simp add: kid_def)
  then show ?thesis
    using assms(3-4) digits by (simp add: resolve_browser_token_def parts py_int_str_of_int)
qed

text \<open>C32. A cookie proves its key. Whatever token resolves to a key is the version, the fingerprint of that key,
  a time and the signature of the two under that very key; the key is an accepted one and the time
  lies at most twelve hours back.\<close>

theorem cookie_sound:
  assumes "resolve_browser_token sha mac now token keys = Inr (Some key)"
  shows "key \<in> set keys \<and> (\<exists>ts_text ts. py_int ts_text = Some ts \<and> 0 < ts \<and>
    now \<le> seconds ts + seconds BROWSER_COOKIE_TTL_SECONDS \<and>
    token = join_with 46 [lit ''v1'', fingerprint sha key, ts_text, b64u (mac key (cookie_message (fingerprint sha key) ts))])"
proof -
  obtain version kid ts_text sig ts where p: "split_on 46 token = [version, kid, ts_text, sig]" "version = lit ''v1''"
    "py_int ts_text = Some ts" "0 < ts" "now - seconds ts \<le> seconds BROWSER_COOKIE_TTL_SECONDS"
    "match_cookie sha mac kid ts sig None keys = Inr (Some key)"
    using assms by (auto simp: resolve_browser_token_def split: list.splits if_splits option.splits)
  have "token = join_with 46 [version, kid, ts_text, sig]" using join_split[of 46 token] p(1) by simp
  then show ?thesis
    using match_cookie_sound[OF p(6)] p(2-5) by (intro conjI exI[of _ ts_text] exI[of _ ts]) auto
qed

text \<open>A forged cookie that is not ASCII, or whose time has four hundred digits, raises instead of being refused.\<close>

lemma forged_cookie_raises:
  assumes "hex_digest sha" and "py_int ts_text = Some ts" and "0 < ts" and "46 \<notin> set ts_text"
    and "length (filter is_digit ts_text) \<le> 4300" and "46 \<notin> set kid" and "46 \<notin> set sig"
  shows "FLOAT_OVERFLOW \<le> ts \<Longrightarrow> resolve_browser_token sha mac now (join_with 46 [lit ''v1'', kid, ts_text, sig]) keys = Inl FloatOverflow"
    and "ts < FLOAT_OVERFLOW \<Longrightarrow> now - seconds ts \<le> seconds BROWSER_COOKIE_TTL_SECONDS \<Longrightarrow> c \<in> set kid \<Longrightarrow> 128 \<le> c \<Longrightarrow>
      keys \<noteq> [] \<Longrightarrow> resolve_browser_token sha mac now (join_with 46 [lit ''v1'', kid, ts_text, sig]) keys = Inl CompareNonAscii"
proof -
  have v: "46 \<notin> set (lit ''v1'')" by simp
  have p: "split_on 46 (join_with 46 [lit ''v1'', kid, ts_text, sig]) = [lit ''v1'', kid, ts_text, sig]"
    by (simp only: join_with.simps split_on_append[OF v] split_on_append[OF assms(6)] split_on_append[OF assms(4)]
        split_on_no_sep[OF assms(7)])
  show "FLOAT_OVERFLOW \<le> ts \<Longrightarrow> resolve_browser_token sha mac now (join_with 46 [lit ''v1'', kid, ts_text, sig]) keys = Inl FloatOverflow"
    using assms unfolding resolve_browser_token_def p by simp
  assume c: "ts < FLOAT_OVERFLOW" "now - seconds ts \<le> seconds BROWSER_COOKIE_TTL_SECONDS" "c \<in> set kid" "128 \<le> c" "keys \<noteq> []"
  obtain k ks where ks: "keys = k # ks" using c(5) by (cases keys) auto
  have "\<not> (\<forall>x\<in>set (fingerprint sha k @ kid). x < 128)"
    using c(3,4) by (auto simp: not_less)
  then have "compare_digest (fingerprint sha k) kid = Inl CompareNonAscii"
    unfolding compare_digest_def by (simp only: if_False)
  then show "resolve_browser_token sha mac now (join_with 46 [lit ''v1'', kid, ts_text, sig]) keys = Inl CompareNonAscii"
    using assms c(1,2) unfolding resolve_browser_token_def p ks by simp
qed

section \<open>Doors and channels\<close>

text \<open>C28. Only a signed cookie makes a human. Unless authentication is switched off, a request that resolves
  presented a secret that resolves to its principal. It counts as a human channel exactly if the
  cookies were allowed, no key was in a header or the query, and the secret is the key that signed its
  cookie; a raw key, however it is presented, arrives on the API channel. The principal is the one the
  rest of the request sees.\<close>

theorem request_channel:
  assumes "resolve_request_principal env mac cfg allow_cookie rq sv = (Inr p, sv')" and "\<not> as_allow_unauthenticated cfg"
  shows "(\<exists>secret. authenticated_by env sv secret p \<and>
          (if is_human_channel p
           then channel p = CHANNEL_BROWSER \<and> allow_cookie \<and> extract_bearer (rq_authorization rq) (rq_x_api_key rq) = None \<and>
             slug_given (rq_query_key rq) = None \<and>
             (\<exists>cookie. rq_cookie rq = Some cookie \<and>
               resolve_browser_token (en_sha env) mac (en_now env AtCookie) cookie (fst (valid_keys env (sv_process sv))) = Inr (Some secret))
           else channel p = CHANNEL_API \<and>
             (extract_bearer (rq_authorization rq) (rq_x_api_key rq) = Some secret \<or> allow_cookie \<and> rq_query_key rq = Some secret))) \<and>
     get_current_principal (sv_current sv') = Some p"
  using request_door[OF assms] current_principal_set[of p "sv_current sv"] request_current[OF assms(1)] by simp

section \<open>What a credential authorizes\<close>

definition granted_role :: "auth_db \<Rightarrow> int option \<Rightarrow> int \<Rightarrow> string option" where
  "granted_role db oid org =
     (case rev (filter (\<lambda>r. oid = Some (om_operator_id r) \<and> om_org_id r = org) (org_members db)) of
        [] \<Rightarrow> None | r # _ \<Rightarrow> Some (om_role r))"

lemma fold_update_map:
  "map_of (fold (\<lambda>r. AList.update (om_org_id r) (om_role r)) rows al) org =
     (case rev (filter (\<lambda>r. om_org_id r = org) rows) of [] \<Rightarrow> map_of al org | r # _ \<Rightarrow> Some (om_role r))"
  by (induction rows arbitrary: al) (auto simp: update_conv' split: list.splits)

lemma org_roles_granted: "map_of (org_roles_for_operator db oid) org = granted_role db oid org"
  by (cases oid) (auto simp: org_roles_for_operator_def granted_role_def fold_update_map conj_comms eq_commute cong: filter_cong list.case_cong)

definition acting_slug :: "auth_db \<Rightarrow> credential_record \<Rightarrow> string option" where
  "acting_slug db c = (if snd c = None \<or> snd c = Some [] then operator_slug_of db (xc_operator_id (fst c)) else snd c)"

lemma credential_authority_of:
  assumes "p = principal_from_credential db c" and "row = fst c"
  shows "if xc_kind row = KIND_RUNTIME
     then \<not> has_capability p cap org \<and>
       (can_see_org p (Some i) \<longleftrightarrow> or_else (xc_org_id row) (runtime_org_of db (xc_runtime_id row)) = Some i) \<and>
       (allows_runtime_operation p operation \<longleftrightarrow> operation \<in> set RUNTIME_OPERATIONS)
     else role_in_org p (Some i) =
         (if acting_slug db c = Some ADMIN_SLUG then Some ''owner'' else granted_role db (xc_operator_id row) i) \<and>
       has_capability p cap (Some i) =
         (case CAPABILITY_MIN_ROLE cap of None \<Rightarrow> False | Some m \<Rightarrow> role_satisfies (role_in_org p (Some i)) m) \<and>
       \<not> allows_runtime_operation p operation"
proof (cases "xc_kind row = KIND_RUNTIME")
  case True
  have "is_runtime p" "runtime_org_id p = or_else (xc_org_id row) (runtime_org_of db (xc_runtime_id row))"
    using True by (simp_all add: assms principal_from_credential_def is_runtime_def Let_def)
  then show ?thesis using True by (simp add: can_see_org_def allows_runtime_operation_def)
next
  case False
  have s: "(case snd c of Some (x # xs) \<Rightarrow> Some (x # xs) | _ \<Rightarrow> operator_slug_of db (xc_operator_id (fst c))) = acting_slug db c"
    by (auto simp: acting_slug_def split: option.splits list.splits)
  have r: "\<not> is_runtime p" "is_bootstrap_admin p = (acting_slug db c = Some ADMIN_SLUG)"
    "org_roles p = org_roles_for_operator db (xc_operator_id row)"
    using False by (simp_all add: assms principal_from_credential_def is_runtime_def s Let_def)
  then show ?thesis
    using False by (simp add: role_in_org_def org_roles_granted allows_runtime_operation_def has_capability_def split: option.splits)
qed

text \<open>C29. A credential authorizes exactly its binding. A Runtime credential holds no capability in any Org, sees
  the one Org it is bound to, by itself or through its Runtime, and may run the Runtime operations; any
  other credential has the role its operator was last given in an Org, the owner's if the operator is
  the admin, and none without an operator, and may run no Runtime operation.\<close>

theorem credential_authority:
  "let p = principal_from_credential db c; row = fst c
   in if xc_kind row = KIND_RUNTIME
     then \<not> has_capability p cap org \<and>
       (can_see_org p (Some i) \<longleftrightarrow> or_else (xc_org_id row) (runtime_org_of db (xc_runtime_id row)) = Some i) \<and>
       (allows_runtime_operation p operation \<longleftrightarrow> operation \<in> set RUNTIME_OPERATIONS)
     else role_in_org p (Some i) =
         (if acting_slug db c = Some ADMIN_SLUG then Some ''owner'' else granted_role db (xc_operator_id row) i) \<and>
       has_capability p cap (Some i) =
         (case CAPABILITY_MIN_ROLE cap of None \<Rightarrow> False | Some m \<Rightarrow> role_satisfies (role_in_org p (Some i)) m) \<and>
       \<not> allows_runtime_operation p operation"
  unfolding Let_def by (rule credential_authority_of[OF refl refl])

section \<open>The gates\<close>

lemma then_require_Inr: "then_require check x = (Inr p, sv') \<longleftrightarrow> x = (Inr p, sv') \<and> check p = Inr ()"
  by (cases x; cases "fst x") (auto simp: then_require_def split: sum.splits)

lemma require_checks:
  "require_operator p s = Inr () \<longleftrightarrow> \<not> is_runtime p"
  "require_scoped_principal p s = Inr () \<longleftrightarrow> has_any_org_role p"
  "require_install_admin p s = Inr () \<longleftrightarrow> \<not> is_runtime p \<and> is_bootstrap_admin p"
  "bind_result (require_operator p s) (\<lambda>_. require_scoped_principal p s) = Inr () \<longleftrightarrow> \<not> is_runtime p \<and> has_any_org_role p"
  by (auto simp: require_operator_def require_scoped_principal_def require_install_admin_def result_simps)

text \<open>C30. Who passes the gates. The model gateway and the operator APIs admit no Runtime credential, the console
  none either and nobody without an Org role, and the configuration of the install only the bootstrap
  admin. With authentication on, that is the principal of a secret whose credential is not a Runtime's
  and whose operator has the slug of the admin: no Org role reaches it.\<close>

theorem gates_admit:
  assumes "\<not> as_allow_unauthenticated cfg"
  shows "(require_api_key env mac cfg rq sv = (Inr p, sv1) \<or> require_operator_principal env mac cfg rq sv = (Inr p, sv1)
       \<longrightarrow> \<not> is_runtime p) \<and>
    (require_browser_auth env mac cfg rq sv = (Inr p, sv1) \<longrightarrow> \<not> is_runtime p \<and> (org_roles p \<noteq> [] \<or> is_bootstrap_admin p)) \<and>
    (admin_gate env mac cfg rq sv = (Inr p, sv1) \<longrightarrow>
       (\<exists>secret p0 c db p1. resolve_secret env (Some secret) (sv_db sv, p0) = (Inr (Some c), db, p1) \<and>
          xc_kind (fst c) \<noteq> KIND_RUNTIME \<and> acting_slug (en_others env AtPrincipal db) c = Some ADMIN_SLUG))"
proof (intro conjI impI)
  show "\<not> is_runtime p"
    if "require_api_key env mac cfg rq sv = (Inr p, sv1) \<or> require_operator_principal env mac cfg rq sv = (Inr p, sv1)"
    using that by (auto simp: require_api_key_def require_operator_principal_def then_require_Inr require_checks)
  show "\<not> is_runtime p" and "org_roles p \<noteq> [] \<or> is_bootstrap_admin p"
    if "require_browser_auth env mac cfg rq sv = (Inr p, sv1)"
    using that by (auto simp: require_browser_auth_def then_require_Inr require_checks has_any_org_role_def)
  assume "admin_gate env mac cfg rq sv = (Inr p, sv1)"
  then have r: "resolve_request_principal env mac cfg True rq sv = (Inr p, sv1)" and g: "\<not> is_runtime p" "is_bootstrap_admin p"
    by (auto simp: admin_gate_def then_require_Inr require_checks)
  obtain secret where "authenticated_by env sv secret p" using request_authenticated[OF r assms] by blast
  then obtain p0 c db p1 where c: "resolve_secret env (Some secret) (sv_db sv, p0) = (Inr (Some c), db, p1)"
    "p = with_channel (principal_from_credential (en_others env AtPrincipal db) c) (channel p)"
    by (auto simp: authenticated_by_def)
  define x where "x = en_others env AtPrincipal db"
  have q: "\<not> is_runtime (principal_from_credential x c)" "is_bootstrap_admin (principal_from_credential x c)"
    using c(2) g by (metis x_def with_channel_simps(7), metis x_def with_channel_simps(4))
  have "xc_kind (fst c) \<noteq> KIND_RUNTIME \<and> acting_slug x c = Some ADMIN_SLUG"
    using q by (auto simp: principal_from_credential_def is_runtime_def Let_def acting_slug_def split: if_splits option.splits list.splits)
  then show "\<exists>secret p0 c db p1. resolve_secret env (Some secret) (sv_db sv, p0) = (Inr (Some c), db, p1) \<and>
      xc_kind (fst c) \<noteq> KIND_RUNTIME \<and> acting_slug (en_others env AtPrincipal db) c = Some ADMIN_SLUG"
    using c(1) unfolding x_def by blast
qed

section \<open>The principal of a request\<close>

text \<open>C31. A request acts as whom it authenticated. Inside the middleware, before a gate let the request in,
  a scoped read acts as the anonymous principal, which sees no Org and holds no capability, whatever
  the environment of the process says; after it, as exactly the principal of the gate; and when the
  request is over the principal of the context is the one from before. The one way around is a caller
  that names an operator itself.\<close>

theorem request_context:
  assumes "principal_for_operator_slug (fst st) operator = None"
  shows "resolve_local_principal env operator env_operator env_key (Slot None) st = (Inr anonymous_principal, st) \<and>
    \<not> has_capability anonymous_principal cap org \<and> \<not> can_see_org anonymous_principal org \<and>
    visible_org_ids anonymous_principal = Some {} \<and> \<not> allows_runtime_operation anonymous_principal operation \<and>
    (resolve_request_principal env mac cfg allow_cookie rq (sv\<lparr>sv_current := Slot None\<rparr>) = (Inr p, sv1) \<longrightarrow>
       resolve_local_principal env operator env_operator env_key (sv_current sv1) st = (Inr p, st)) \<and>
    sv_current (snd (in_request handler sv)) = sv_current sv"
proof (intro conjI impI)
  show "resolve_local_principal env operator env_operator env_key (Slot None) st = (Inr anonymous_principal, st)"
    using assms by (simp add: resolve_local_principal_def)
  have a: "\<not> is_runtime anonymous_principal" "org_roles anonymous_principal = []" "\<not> is_bootstrap_admin anonymous_principal"
    by (simp_all add: anonymous_principal_def is_runtime_def)
  then have none: "role_in_org anonymous_principal x = None" for x
    by (simp add: role_in_org_def split: option.splits)
  show c: "\<not> has_capability anonymous_principal cap org"
    using a none by (simp add: has_capability_def role_satisfies_iff role_of_def split: option.splits)
  show "\<not> can_see_org anonymous_principal org"
    using a none by (simp add: can_see_org_def has_capability_def role_satisfies_iff role_of_def split: option.splits)
  show "visible_org_ids anonymous_principal = Some {}" using a by (simp add: visible_org_ids_def)
  show "\<not> allows_runtime_operation anonymous_principal operation" using a by (simp add: allows_runtime_operation_def)
  show "sv_current (snd (in_request handler sv)) = sv_current sv" by (simp add: in_request_def Let_def case_prod_beta)
  assume r: "resolve_request_principal env mac cfg allow_cookie rq (sv\<lparr>sv_current := Slot None\<rparr>) = (Inr p, sv1)"
  have "sv_current sv1 = Slot (Some p)"
    using request_current[OF r] by (simp add: set_current_principal_def)
  then show "resolve_local_principal env operator env_operator env_key (sv_current sv1) st = (Inr p, st)"
    using assms by (simp add: resolve_local_principal_def)
qed

text \<open>The cookies of one key are different tokens, each with a rate window of its own.\<close>

lemma cookies_differ:
  assumes "hex_digest sha" and "0 \<le> ts" and "0 \<le> ts'" and "ts \<noteq> ts'"
  shows "mint_browser_token sha mac key ts \<noteq> mint_browser_token sha mac key ts'"
proof
  assume "mint_browser_token sha mac key ts = mint_browser_token sha mac key ts'"
  then have "split_on 46 (mint_browser_token sha mac key ts) ! 2 = split_on 46 (mint_browser_token sha mac key ts') ! 2"
    by (rule arg_cong)
  then have "str_of_int ts = str_of_int ts'"
    unfolding minted_parts[OF assms(1,2)] minted_parts[OF assms(1,3)] by (simp add: numeral_2_eq_2)
  then show False using py_int_str_of_int[OF assms(2)] py_int_str_of_int[OF assms(3)] assms(4) by simp
qed

end
