(* ===== verification/CredentialLaws.thy ===== *)
theory CredentialLaws imports HttpAuth begin

text \<open>
  Laws of the credential store: how each operation changes the row of a hash, the entries a process
  caches, and the locale \<open>reconciliation\<close>, what passive operations (adoption and resolution) keep
  under any schedule of other commits and failures. It is interpreted on the two relations the
  properties need: rows are kept, and a revoked row stays revoked.
\<close>

section \<open>The row of a hash\<close>

lemma by_hash_update:
  "(\<And>r. P r \<Longrightarrow> xc_secret_hash (f r) = xc_secret_hash r) \<Longrightarrow>
     by_hash (db\<lparr>credentials := update_where P f (credentials db)\<rparr>) d =
       map_option (\<lambda>r. if P r then f r else r) (by_hash db d)"
  unfolding by_hash_def by (simp, rule row_by_update_match)

lemma by_hash_key: "by_hash db d = Some row \<Longrightarrow> xc_secret_hash row = d \<and> row \<in> set (credentials db)"
  unfolding by_hash_def by (rule row_by_Some_iff_key)

lemma by_hash_credentials: "credentials db' = credentials db \<Longrightarrow> by_hash db' d = by_hash db d"
  by (simp add: by_hash_def)

lemma rebind_hash [simp]: "xc_secret_hash (rebind b row) = xc_secret_hash row"
  by (simp add: rebind_def)

lemma register_in_row:
  "fst (register_in now cid digest b db) =
     (case by_hash db digest of
        None \<Rightarrow> new_credential now cid digest b (next_row_id (map xc_id (credentials db)))
      | Some row \<Rightarrow> rebind b row)"
  by (simp add: register_in_def Let_def split: option.splits)

lemma by_hash_register:
  "by_hash (snd (register_in now cid digest b db)) d =
     (if d = digest then Some (fst (register_in now cid digest b db)) else by_hash db d)"
proof (cases "by_hash db digest")
  case None
  then show ?thesis
    by (auto simp: register_in_def Let_def by_hash_def row_by_append new_credential_def split: option.splits)
next
  case (Some row)
  have "by_hash (snd (register_in now cid digest b db)) d =
      map_option (\<lambda>r. if xc_secret_hash r = digest then rebind b row else r) (by_hash db d)"
    using by_hash_key[OF Some] Some by (simp add: register_in_def by_hash_update)
  then show ?thesis
    using by_hash_key[of db d] Some by (cases "by_hash db d") (auto simp: register_in_row)
qed

lemma by_hash_revoke:
  "by_hash (revoke_rows now P db) d =
     map_option (\<lambda>r. if P r \<and> xc_revoked_at r = None then r\<lparr>xc_revoked_at := Some now\<rparr> else r) (by_hash db d)"
  by (simp add: revoke_rows_def by_hash_update)

lemma by_hash_backfill:
  "by_hash (backfill_source digest source db) d =
     map_option (\<lambda>r. if d = digest then r\<lparr>xc_source := Some source\<rparr> else r) (by_hash db d)"
  using by_hash_key[of db d] by (cases "by_hash db d") (auto simp: backfill_source_def by_hash_update)

lemma with_mailbox_credentials:
  "credentials (snd x) = credentials db \<Longrightarrow> credentials (snd (with_mailbox db x)) = credentials db"
  by (simp add: with_mailbox_def Let_def case_prod_beta split: sum.splits)

lemma insert_operator_credentials [simp]: "credentials (snd (insert_operator s d p db)) = credentials db"
  by (simp add: insert_operator_def Let_def)

lemma ensure_admin_credentials [simp]: "credentials (snd (ensure_admin_operator sha key db)) = credentials db"
  by (auto simp: ensure_admin_operator_def Let_def intro!: with_mailbox_credentials split: option.splits)

lemma admin_operator_id_cases:
  "snd (admin_operator_id env pt db) = db \<or>
   snd (admin_operator_id env pt db) = snd (ensure_admin_operator (en_sha env) (lv_api_key (en_view env pt)) db)"
  by (auto simp: admin_operator_id_def case_prod_beta split: sum.splits prod.splits)

section \<open>The cached entries\<close>

definition source_entry_ok :: "source_entry \<Rightarrow> bool" where
  "source_entry_ok e \<longleftrightarrow> (case e of (raw, kind, source) \<Rightarrow> raw \<noteq> [] \<and> kind \<in> set VALID_KINDS \<and> source \<in> set LOCAL_SOURCES)"

definition entries_ok :: "auth_process \<Rightarrow> bool" where
  "entries_ok p \<longleftrightarrow> (case ap_sources p of None \<Rightarrow> True | Some (_, es, _) \<Rightarrow> \<forall>e\<in>set es. source_entry_ok e)"

lemma configured_keys_ok: "\<forall>e\<in>set (configured_keys v). source_entry_ok e"
  by (auto simp: configured_keys_def source_entry_ok_def VALID_KINDS_def LOCAL_SOURCES_def)

lemma source_entry_file: "source_entry_ok (raw, KIND_OPERATOR, SOURCE_OPERATOR_KEY) \<longleftrightarrow> raw \<noteq> []"
  by (simp add: source_entry_ok_def VALID_KINDS_def LOCAL_SOURCES_def)

lemma read_files_ok: "read_files v ns = Inr es \<Longrightarrow> \<forall>e\<in>set es. source_entry_ok e"
  by (induction ns arbitrary: es)
    (auto simp: source_entry_file result_simps simp del: strip_eq_Nil split: text_answer.splits if_splits)

lemma read_sources_ok: "read_local_key_sources v = Inr es \<Longrightarrow> \<forall>e\<in>set es. source_entry_ok e"
  using configured_keys_ok read_files_ok by (fastforce simp: read_local_key_sources_def result_simps)

lemma local_key_sources_ok:
  assumes "entries_ok p" and "local_key_sources sha clock force v v' p = (res, p')"
  shows "entries_ok p'" and "res = Inr es \<Longrightarrow> \<forall>e\<in>set es. source_entry_ok e"
    and "ap_synced p' = ap_synced p" and "ap_misses p' = ap_misses p"
  using assms
  by (auto simp: local_key_sources_def Let_def entries_ok_def split: option.splits sum.splits prod.splits if_splits
      dest: read_sources_ok read_sources_ok[OF sym])

lemma entries_ok_simps [simp]:
  "entries_ok new_process"
  "entries_ok (p\<lparr>ap_misses := ms\<rparr>) = entries_ok p"
  "entries_ok (p\<lparr>ap_synced := x\<rparr>) = entries_ok p"
  "entries_ok (p\<lparr>ap_source_error := e\<rparr>) = entries_ok p"
  "entries_ok (forget_miss d p) = entries_ok p"
  "entries_ok (forget_all_misses p) = entries_ok p"
  "entries_ok (remember_miss t d p) = entries_ok p"
  "entries_ok (invalidate_source_cache p)"
  by (simp_all add: entries_ok_def new_process_def forget_miss_def forget_all_misses_def remember_miss_def
      invalidate_source_cache_def Let_def)

lemma negative_cached_entries: "negative_cached clock d p = (hit, p') \<Longrightarrow> entries_ok p' = entries_ok p"
  by (auto simp: negative_cached_def split: option.splits if_splits)

lemma register_credential_state:
  "snd (register_credential sha now cid raw b (db, p)) =
     (if bi_kind b \<notin> set VALID_KINDS \<or> raw = [] then (db, p)
      else (snd (register_in now cid (sha raw) b db), forget_miss (sha raw) p))"
  by (simp add: register_credential_def Let_def case_prod_beta)

lemma register_credential_entries [simp]:
  "entries_ok (snd (snd (register_credential sha now cid raw b st))) = entries_ok (snd st)"
  by (cases st) (simp add: register_credential_state)

lemma register_credential_ends:
  "register_credential sha now cid raw b st = (x, db, p) \<Longrightarrow> entries_ok p = entries_ok (snd st)"
  by (metis register_credential_entries snd_conv)

lemma adopt_entries: "entries_ok (snd (snd (adopt_if_needed env i raw kind source oid st))) = entries_ok (snd st)"
  by (cases st) (auto simp: adopt_if_needed_def Let_def split: option.splits sum.splits prod.splits
      dest: register_credential_ends)

lemma adopt_all_cases:
  "(\<exists>db. adopt_all env i admin n ((raw, kind, source) # es) st = (Inl AmbiguousOperator, db, snd st)) \<or>
   (\<exists>oid admin' n' db. adopt_all env i admin n ((raw, kind, source) # es) st =
      adopt_all env (Suc i) admin' n' es (snd (adopt_if_needed env i raw kind source oid (db, snd st))))"
proof -
  define db0 where "db0 = en_others env (AtOperator i) (fst st)"
  define x where "x = (if kind = KIND_ADMIN
             then (case admin of
                     Some a \<Rightarrow> (Inr (Some a), Some a, db0)
                   | None \<Rightarrow> let (a, db') = admin_operator_id env (AtOperator i) db0 in (Inr a, a, db'))
             else (operator_id_for_fingerprint db0 (take 16 (en_sha env raw)), admin, db0))"
  obtain owner admin' db where x: "x = (owner, admin', db)" by (cases x)
  note unfolded = adopt_all.simps Let_def db0_def[symmetric] x_def[unfolded Let_def, symmetric]
  show ?thesis
  proof (cases owner)
    case (Inl err)
    then have "err = AmbiguousOperator"
      using x by (auto simp: x_def operator_id_for_fingerprint_def Let_def case_prod_beta split: if_splits option.splits sum.splits)
    then show ?thesis using x Inl unfolding unfolded by simp
  next
    case (Inr oid)
    obtain r st' where a: "adopt_if_needed env i raw kind source oid (db, snd st) = (r, st')"
      by (metis surj_pair)
    then have "adopt_all env i admin n ((raw, kind, source) # es) st =
        adopt_all env (Suc i) admin' (if r = Some True then Suc n else n) es
          (snd (adopt_if_needed env i raw kind source oid (db, snd st)))"
      using x Inr unfolding unfolded by simp
    then show ?thesis by blast
  qed
qed

lemma local_binding_simps [simp]:
  "bi_expires (local_binding kind source oid) = None" "bi_kind (local_binding kind source oid) = kind"
  "source \<in> set LOCAL_SOURCES \<Longrightarrow> \<not> reinstates (local_binding kind source oid)"
  by (simp_all add: local_binding_def reinstates_def)

section \<open>What passive operations keep\<close>

definition moves_by :: "(auth_db \<Rightarrow> auth_db \<Rightarrow> bool) \<Rightarrow> auth_env \<Rightarrow> bool" where
  "moves_by R env \<longleftrightarrow> (\<forall>pt db. R db (en_others env pt db))"

lemma moves_byD: "moves_by R env \<Longrightarrow> R db (en_others env pt db)"
  by (simp add: moves_by_def)

text \<open>
  A relation between two states of the store that the transactions of reconciliation respect; a
  registration is one it only makes for a hash that a while before had no row.
\<close>

locale reconciliation =
  fixes R :: "auth_db \<Rightarrow> auth_db \<Rightarrow> bool"
  assumes R_refl: "R db db"
    and R_trans: "R x y \<Longrightarrow> R y z \<Longrightarrow> R x z"
    and R_admin: "R db (snd (ensure_admin_operator sha key db))"
    and R_backfill: "by_hash db d = Some row \<Longrightarrow> xc_source row = None \<Longrightarrow> source \<in> set LOCAL_SOURCES
                       \<Longrightarrow> R db (backfill_source d source db)"
    and R_register: "by_hash db d = None \<Longrightarrow> R db db1 \<Longrightarrow> source \<in> set LOCAL_SOURCES
                       \<Longrightarrow> R db (snd (register_in now cid d (local_binding kind source oid) db1))"
begin

lemma admin_keeps: "R db (snd (admin_operator_id env pt db))"
  using admin_operator_id_cases[of env pt db] R_refl R_admin by metis

lemma adopt_keeps:
  assumes m: "moves_by R env" and s: "source \<in> set LOCAL_SOURCES"
  shows "R (fst st) (fst (snd (adopt_if_needed env i raw kind source oid st)))"
proof -
  obtain db p where st: "st = (db, p)" by (cases st)
  define db1 where "db1 = en_others env (AtCheck i) db"
  define db2 where "db2 = en_others env (AtRegister i) db1"
  have a: "R db db1" and b: "R db1 db2"
    unfolding db1_def db2_def using m by (auto dest: moves_byD)
  have c: "R db db2" using a b by (rule R_trans)
  have r: "by_hash db1 (en_sha env raw) = None \<Longrightarrow> R db (snd (register_in now cid (en_sha env raw) (local_binding kind source oid) db2))" for now cid
    using R_trans[OF a R_register[OF _ b s]] by blast
  have k: "by_hash db1 (en_sha env raw) = Some row \<Longrightarrow> xc_source row = None
      \<Longrightarrow> R db (backfill_source (en_sha env raw) source db1)" for row
    using R_trans[OF a R_backfill[OF _ _ s]] by blast
  define reg where "reg = register_credential (en_sha env) (en_now env (AtRegister i)) (en_cid env (AtRegister i)) raw
      (local_binding kind source oid) (db2, p)"
  have q: "by_hash db1 (en_sha env raw) = None \<Longrightarrow> R db (fst (snd reg))"
    unfolding reg_def using r c by (simp add: register_credential_state)
  show ?thesis
    using a c k q unfolding st adopt_if_needed_def db1_def[symmetric] Let_def prod.case db2_def[symmetric] reg_def[symmetric]
    by (auto split: option.splits sum.splits prod.splits)
qed

lemma adopt_all_keeps:
  assumes m: "moves_by R env"
  shows "\<forall>e\<in>set es. source_entry_ok e \<Longrightarrow> R (fst st) (fst (snd (adopt_all env i admin n es st)))"
proof (induction es arbitrary: i admin n st)
  case Nil
  then show ?case by (simp add: R_refl)
next
  case (Cons e es)
  obtain raw kind source where e: "e = (raw, kind, source)" by (cases e)
  have s: "source \<in> set LOCAL_SOURCES" using Cons.prems e by (simp add: source_entry_ok_def)
  define db0 where "db0 = en_others env (AtOperator i) (fst st)"
  have a: "R (fst st) db0" unfolding db0_def using m by (rule moves_byD)
  define x where "x = (if kind = KIND_ADMIN
             then (case admin of
                     Some a \<Rightarrow> (Inr (Some a), Some a, db0)
                   | None \<Rightarrow> let (a, db') = admin_operator_id env (AtOperator i) db0 in (Inr a, a, db'))
             else (operator_id_for_fingerprint db0 (take 16 (en_sha env raw)), admin, db0))"
  obtain owner admin' db where x: "x = (owner, admin', db)" by (cases x)
  have "R db0 db"
    using x admin_keeps[of db0 env "AtOperator i"] R_refl
    by (auto simp: x_def Let_def case_prod_beta split: if_splits option.splits)
  then have b: "R (fst st) db" using a by (blast intro: R_trans)
  show ?case
  proof (cases owner)
    case (Inl err)
    then show ?thesis using b x unfolding e adopt_all.simps Let_def db0_def[symmetric] x_def[unfolded Let_def, symmetric] by simp
  next
    case (Inr oid)
    obtain r st' where y: "adopt_if_needed env i raw kind source oid (db, snd st) = (r, st')" by (metis surj_pair)
    have "R db (fst st')" using adopt_keeps[OF m s, of "(db, snd st)" i raw kind oid] y by simp
    then have c: "R (fst st) (fst st')" using b by (blast intro: R_trans)
    have "R (fst st') (fst (snd (adopt_all env (Suc i) admin' n' es st')))" for n'
      using Cons by simp
    then show ?thesis
      using c x y Inr R_trans unfolding e adopt_all.simps Let_def db0_def[symmetric] x_def[unfolded Let_def, symmetric]
      by simp
  qed
qed

lemma sync_keeps:
  assumes m: "moves_by R env" and p: "entries_ok (snd st)"
  shows "R (fst st) (fst (snd (sync_local_credentials env st)))"
proof -
  obtain db q where st: "st = (db, q)" by (cases st)
  obtain res p1 where l: "local_key_sources (en_sha env) (en_mono env AtStats) False (en_view env AtStats) (en_view env AtTexts) q = (res, p1)"
    by fastforce
  have ok: "\<And>es. res = Inr es \<Longrightarrow> \<forall>e\<in>set es. source_entry_ok e"
    using local_key_sources_ok(2)[OF _ l] p st by simp
  have "\<And>es p2. res = Inr es \<Longrightarrow> R db (fst (snd (adopt_all env 0 None 0 es (db, p2))))"
    using adopt_all_keeps[OF m ok] by fastforce
  then show ?thesis
    using l R_refl unfolding st sync_local_credentials_def
    by (auto simp: Let_def split: sum.splits prod.splits source_fault.splits) (metis fst_conv snd_conv)+
qed

lemma resolve_keeps:
  assumes m: "moves_by R env" and p: "entries_ok (snd st)"
  shows "R (fst st) (fst (snd (resolve_secret env secret st)))"
proof (cases "secret = None \<or> secret = Some []")
  case True
  then show ?thesis by (auto simp: resolve_secret_def R_refl case_prod_beta)
next
  case False
  then obtain raw where raw: "secret = Some raw" "raw \<noteq> []" by auto
  obtain db q where st: "st = (db, q)" by (cases st)
  obtain missed p1 where c: "negative_cached (en_mono env AtCache) (en_sha env raw) q = (missed, p1)" by fastforce
  have p1: "entries_ok p1" using negative_cached_entries[OF c] p st by simp
  define db1 where "db1 = en_others env AtLookup db"
  have a: "R db db1" unfolding db1_def using m by (rule moves_byD)
  obtain sres db2 p2 where s: "sync_local_credentials env (db1, p1) = (sres, db2, p2)" by (metis prod_cases3)
  have "R db1 db2" using sync_keeps[OF m, of "(db1, p1)"] p1 s by simp
  then have b: "R db db2" using a by (blast intro: R_trans)
  have d: "R db (en_others env AtRelookup db2)" using b m by (blast intro: R_trans moves_byD)
  then have e: "R db (en_others env AtMiss (en_others env AtRelookup db2))"
    using m by (blast intro: R_trans moves_byD)
  show ?thesis
    using a b d e R_refl s c raw unfolding st resolve_secret_def db1_def[symmetric]
    by (auto simp: Let_def db1_def[symmetric] split: sum.splits option.splits prod.splits)
qed

end

end
