(* ===== verification/AuthHistory.thy ===== *)
theory AuthHistory imports CredentialLaws begin

text \<open>
  Histories of the credential store: any sequence of the operations of \<open>credentials.py\<close>, \<open>operators.py\<close>
  and \<open>admin_key.py\<close>, each by one of any number of processes with its own caches, and each with a
  schedule of what others commit between its transactions and which of them fail.
\<close>

section \<open>Rows are kept, revocations stay\<close>

definition keeps_rows :: "auth_db \<Rightarrow> auth_db \<Rightarrow> bool" where
  "keeps_rows db db' \<longleftrightarrow>
     (\<forall>d row. by_hash db d = Some row \<longrightarrow>
        (\<exists>row'. by_hash db' d = Some row' \<and>
           (row' = row \<or> xc_source row = None \<and> (\<exists>s\<in>set LOCAL_SOURCES. row' = row\<lparr>xc_source := Some s\<rparr>))))"

definition denied :: "pystr \<Rightarrow> auth_db \<Rightarrow> bool" where
  "denied d db \<longleftrightarrow> (case by_hash db d of None \<Rightarrow> False | Some row \<Rightarrow> xc_revoked_at row \<noteq> None)"

definition stays_denied :: "pystr \<Rightarrow> auth_db \<Rightarrow> auth_db \<Rightarrow> bool" where
  "stays_denied d db db' \<longleftrightarrow> (denied d db \<longrightarrow> denied d db')"

lemma keeps_rowsD:
  "keeps_rows db db' \<Longrightarrow> by_hash db d = Some row \<Longrightarrow>
     \<exists>row'. by_hash db' d = Some row' \<and>
       (row' = row \<or> xc_source row = None \<and> (\<exists>s\<in>set LOCAL_SOURCES. row' = row\<lparr>xc_source := Some s\<rparr>))"
  by (simp add: keeps_rows_def)

lemma keeps_rows_trans: "keeps_rows x y \<Longrightarrow> keeps_rows y z \<Longrightarrow> keeps_rows x z"
proof (unfold keeps_rows_def[of x z], intro allI impI)
  fix d row
  assume xy: "keeps_rows x y" and yz: "keeps_rows y z" and r: "by_hash x d = Some row"
  obtain row1 where r1: "by_hash y d = Some row1"
    "row1 = row \<or> xc_source row = None \<and> (\<exists>s\<in>set LOCAL_SOURCES. row1 = row\<lparr>xc_source := Some s\<rparr>)"
    using keeps_rowsD[OF xy r] by blast
  obtain row2 where r2: "by_hash z d = Some row2"
    "row2 = row1 \<or> xc_source row1 = None \<and> (\<exists>s\<in>set LOCAL_SOURCES. row2 = row1\<lparr>xc_source := Some s\<rparr>)"
    using keeps_rowsD[OF yz r1(1)] by blast
  have "row2 = row \<or> xc_source row = None \<and> (\<exists>s\<in>set LOCAL_SOURCES. row2 = row\<lparr>xc_source := Some s\<rparr>)"
    using r1(2) r2(2) by (elim disjE conjE bexE) auto
  then show "\<exists>row'. by_hash z d = Some row' \<and>
      (row' = row \<or> xc_source row = None \<and> (\<exists>s\<in>set LOCAL_SOURCES. row' = row\<lparr>xc_source := Some s\<rparr>))"
    using r2(1) by blast
qed

interpretation kept: reconciliation keeps_rows
proof
  show "keeps_rows db db" for db by (simp add: keeps_rows_def)
  show "keeps_rows x y \<Longrightarrow> keeps_rows y z \<Longrightarrow> keeps_rows x z" for x y z by (rule keeps_rows_trans)
  show "keeps_rows db (snd (ensure_admin_operator sha key db))" for db sha key
    by (simp add: keeps_rows_def by_hash_credentials[OF ensure_admin_credentials])
  show "by_hash db d = Some row \<Longrightarrow> xc_source row = None \<Longrightarrow> source \<in> set LOCAL_SOURCES
      \<Longrightarrow> keeps_rows db (backfill_source d source db)" for db d row source
    by (auto simp: keeps_rows_def by_hash_backfill)
  show "by_hash db d = None \<Longrightarrow> keeps_rows db db1
      \<Longrightarrow> keeps_rows db (snd (register_in now cid d (local_binding kind source oid) db1))"
    for db d db1 kind source oid now cid
    by (auto simp: keeps_rows_def by_hash_register)
qed

text \<open>
  What the rows of a store may undergo at the hands of others and of reconciliation: a row keeps its
  identity, its kind, its binding and its dates; a revocation stays, with its time; a missing
  provenance may be filled in with a local one; and only a credential of local provenance may be
  revoked.
\<close>

definition respects_row :: "credential_row \<Rightarrow> credential_row \<Rightarrow> bool" where
  "respects_row row row' \<longleftrightarrow>
     row'\<lparr>xc_source := xc_source row, xc_revoked_at := xc_revoked_at row\<rparr> = row \<and>
     (xc_source row' = xc_source row \<or> xc_source row = None \<and> xc_source row' \<in> Some ` set LOCAL_SOURCES) \<and>
     (xc_revoked_at row' = xc_revoked_at row \<or> xc_revoked_at row = None \<and> xc_source row' \<in> Some ` set LOCAL_SOURCES)"

definition respects_rows :: "auth_db \<Rightarrow> auth_db \<Rightarrow> bool" where
  "respects_rows db db' \<longleftrightarrow>
     (\<forall>d row. by_hash db d = Some row \<longrightarrow> (\<exists>row'. by_hash db' d = Some row' \<and> respects_row row row'))"

lemma respects_row_refl [simp]: "respects_row row row"
  by (simp add: respects_row_def)

lemma respects_row_trans: "respects_row x y \<Longrightarrow> respects_row y z \<Longrightarrow> respects_row x z"
  by (cases x, cases y, cases z) (auto simp: respects_row_def)

lemma respects_row_backfill:
  "xc_source row = None \<Longrightarrow> s \<in> set LOCAL_SOURCES \<Longrightarrow> respects_row row (row\<lparr>xc_source := Some s\<rparr>)"
  by (simp add: respects_row_def)

lemma respects_rows_trans: "respects_rows x y \<Longrightarrow> respects_rows y z \<Longrightarrow> respects_rows x z"
  unfolding respects_rows_def by (meson respects_row_trans)

interpretation respected: reconciliation respects_rows
proof
  show "respects_rows db db" for db by (simp add: respects_rows_def)
  show "respects_rows x y \<Longrightarrow> respects_rows y z \<Longrightarrow> respects_rows x z" for x y z by (rule respects_rows_trans)
  show "respects_rows db (snd (ensure_admin_operator sha key db))" for db sha key
    by (simp add: respects_rows_def by_hash_credentials[OF ensure_admin_credentials])
  show "by_hash db d = Some row \<Longrightarrow> xc_source row = None \<Longrightarrow> source \<in> set LOCAL_SOURCES
      \<Longrightarrow> respects_rows db (backfill_source d source db)" for db d row source
    by (auto simp: respects_rows_def by_hash_backfill respects_row_backfill)
  show "by_hash db d = None \<Longrightarrow> respects_rows db db1
      \<Longrightarrow> respects_rows db (snd (register_in now cid d (local_binding kind source oid) db1))"
    for db d db1 kind source oid now cid
    by (auto simp: respects_rows_def by_hash_register)
qed

lemma denied_register:
  assumes "digest = d \<Longrightarrow> \<not> reinstates b" and "denied d db"
  shows "denied d (snd (register_in now cid digest b db))"
  using assms by (auto simp: denied_def by_hash_register register_in_row rebind_def split: option.splits)

lemma denied_credentials: "credentials db' = credentials db \<Longrightarrow> denied d db' = denied d db"
  unfolding denied_def using by_hash_credentials[of db' db d] by simp

lemma denied_revoke: "denied d db \<Longrightarrow> denied d (revoke_rows now P db)"
  by (auto simp: denied_def by_hash_revoke split: option.splits)

lemma denied_backfill: "denied d (backfill_source digest source db) = denied d db"
  by (auto simp: denied_def by_hash_backfill split: option.splits)

interpretation barred: reconciliation "stays_denied d" for d
proof
  show "stays_denied d db db" for db by (simp add: stays_denied_def)
  show "stays_denied d x y \<Longrightarrow> stays_denied d y z \<Longrightarrow> stays_denied d x z" for x y z
    by (simp add: stays_denied_def)
  show "stays_denied d db (snd (ensure_admin_operator sha key db))" for db sha key
    by (simp add: stays_denied_def denied_credentials[OF ensure_admin_credentials])
  show "stays_denied d db (backfill_source d' source db)" for db d' source
    by (simp add: stays_denied_def denied_backfill)
  show "stays_denied d db db1 \<Longrightarrow> source \<in> set LOCAL_SOURCES
      \<Longrightarrow> stays_denied d db (snd (register_in now cid d' (local_binding kind source oid) db1))"
    for db db1 kind source oid now cid d'
    by (simp add: stays_denied_def denied_register)
qed

text \<open>A secret the store does not know, or knows without revocation and expiry.\<close>

definition acceptable :: "pystr \<Rightarrow> auth_db \<Rightarrow> bool" where
  "acceptable d db \<longleftrightarrow>
     (case by_hash db d of None \<Rightarrow> True | Some row \<Rightarrow> xc_revoked_at row = None \<and> xc_expires_at row = None)"

definition stays_acceptable :: "pystr \<Rightarrow> auth_db \<Rightarrow> auth_db \<Rightarrow> bool" where
  "stays_acceptable d db db' \<longleftrightarrow> (acceptable d db \<longrightarrow> acceptable d db')"

lemma acceptable_register:
  "acceptable d db \<Longrightarrow> bi_expires b = None \<Longrightarrow> acceptable d (snd (register_in now cid digest b db))"
  by (auto simp: acceptable_def by_hash_register register_in_row rebind_def new_credential_def or_else_def
      split: option.splits)

interpretation acceptance: reconciliation "stays_acceptable d" for d
proof
  show "stays_acceptable d db db" for db by (simp add: stays_acceptable_def)
  show "stays_acceptable d x y \<Longrightarrow> stays_acceptable d y z \<Longrightarrow> stays_acceptable d x z" for x y z
    by (simp add: stays_acceptable_def)
  show "stays_acceptable d db (snd (ensure_admin_operator sha key db))" for db sha key
    unfolding stays_acceptable_def acceptable_def by_hash_credentials[OF ensure_admin_credentials] by simp
  show "stays_acceptable d db (backfill_source d' source db)" for db d' source
    by (auto simp: stays_acceptable_def acceptable_def by_hash_backfill split: option.splits)
  show "stays_acceptable d db db1 \<Longrightarrow> stays_acceptable d db (snd (register_in now cid d' (local_binding kind source oid) db1))"
    for db db1 kind source oid now cid d'
    by (simp add: stays_acceptable_def acceptable_register)
qed

section \<open>The caches of a process\<close>

definition misses_ok :: "auth_process \<Rightarrow> bool" where
  "misses_ok p \<longleftrightarrow> length (ap_misses p) \<le> NEGATIVE_CACHE_MAX_ENTRIES \<and> distinct (map fst (ap_misses p))"

definition process_ok :: "auth_process \<Rightarrow> bool" where
  "process_ok p \<longleftrightarrow> entries_ok p \<and> misses_ok p"

lemma misses_ok_forget: "misses_ok p \<Longrightarrow> misses_ok (forget_miss d p)"
  unfolding misses_ok_def forget_miss_def by (auto simp: distinct_map_filter intro: order_trans[OF length_filter_le])

lemma misses_ok_remember:
  assumes "misses_ok p"
  shows "misses_ok (remember_miss t d p)"
proof -
  define ms where "ms = ap_misses (forget_miss d p) @ [(d, t + seconds NEGATIVE_CACHE_TTL_SECONDS)]"
  have "distinct (map fst ms)"
    using misses_ok_forget[OF assms, of d] by (auto simp: ms_def misses_ok_def forget_miss_def)
  then have "distinct (map fst (drop n ms))" for n
    by (metis distinct_drop drop_map)
  then show ?thesis
    by (simp add: misses_ok_def remember_miss_def ms_def[symmetric] Let_def del: drop_append)
qed

lemma misses_ok_simps [simp]:
  "misses_ok (p\<lparr>ap_synced := x\<rparr>) = misses_ok p" "misses_ok (p\<lparr>ap_source_error := e\<rparr>) = misses_ok p"
  "misses_ok (forget_all_misses p)" "misses_ok new_process" "misses_ok (invalidate_source_cache p)"
  by (simp_all add: misses_ok_def forget_all_misses_def new_process_def invalidate_source_cache_def)

lemma process_ok_simps [simp]:
  "process_ok new_process"
  "process_ok p \<Longrightarrow> process_ok (p\<lparr>ap_synced := x\<rparr>)" "process_ok p \<Longrightarrow> process_ok (p\<lparr>ap_source_error := e\<rparr>)"
  "process_ok p \<Longrightarrow> process_ok (forget_all_misses p)" "process_ok p \<Longrightarrow> process_ok (forget_miss d p)"
  "process_ok p \<Longrightarrow> process_ok (remember_miss t d p)" "process_ok (invalidate_source_cache p)"
  by (simp_all add: process_ok_def misses_ok_forget misses_ok_remember)

lemma process_ok_entries: "process_ok p \<Longrightarrow> entries_ok p"
  by (simp add: process_ok_def)

lemma negative_cached_ok: "negative_cached t d p = (hit, p') \<Longrightarrow> process_ok p \<Longrightarrow> process_ok p'"
  by (auto simp: negative_cached_def split: option.splits if_splits)

lemma local_key_sources_process:
  "process_ok p \<Longrightarrow> local_key_sources sha clock force v v' p = (res, p') \<Longrightarrow> process_ok p'"
  using local_key_sources_ok[of p sha clock force v v' res p'] by (simp add: process_ok_def misses_ok_def)

lemma register_credential_ok: "process_ok (snd st) \<Longrightarrow> process_ok (snd (snd (register_credential sha now cid raw b st)))"
  by (cases st) (simp add: register_credential_state)

lemma register_credential_okD:
  "register_credential sha now cid raw b st = (x, db, p) \<Longrightarrow> process_ok (snd st) \<Longrightarrow> process_ok p"
  by (metis register_credential_ok snd_conv)

lemma adopt_process: "process_ok (snd st) \<Longrightarrow> process_ok (snd (snd (adopt_if_needed env i raw kind source oid st)))"
  by (cases st) (auto simp: adopt_if_needed_def Let_def split: option.splits sum.splits prod.splits
      dest: register_credential_okD)

lemma adopt_all_process: "process_ok (snd st) \<Longrightarrow> process_ok (snd (snd (adopt_all env i admin n es st)))"
proof (induction es arbitrary: i admin n st)
  case (Cons e es)
  obtain raw kind source where e: "e = (raw, kind, source)" by (cases e)
  consider db where "adopt_all env i admin n (e # es) st = (Inl AmbiguousOperator, db, snd st)"
    | oid admin' n' db where "adopt_all env i admin n (e # es) st =
        adopt_all env (Suc i) admin' n' es (snd (adopt_if_needed env i raw kind source oid (db, snd st)))"
    using adopt_all_cases[of env i admin n raw kind source es st] unfolding e by blast
  then show ?case
  proof cases
    case 1
    then show ?thesis using Cons.prems by simp
  next
    case 2
    then show ?thesis using Cons adopt_process by simp
  qed
qed simp

lemma sync_process:
  assumes "process_ok (snd st)"
  shows "process_ok (snd (snd (sync_local_credentials env st)))"
proof -
  obtain db q where st: "st = (db, q)" by (cases st)
  obtain res p1 where l: "local_key_sources (en_sha env) (en_mono env AtStats) False (en_view env AtStats) (en_view env AtTexts) q = (res, p1)"
    by fastforce
  have p1: "process_ok p1" using local_key_sources_process[OF _ l] assms st by simp
  have a: "process_ok p'" if "adopt_all env 0 None 0 es (db, p1\<lparr>ap_source_error := None\<rparr>) = (x, db', p')" for es x db' p'
    using adopt_all_process[of "(db, p1\<lparr>ap_source_error := None\<rparr>)" env 0 None 0 es] that p1 by simp
  show ?thesis
    using assms l p1 a unfolding st sync_local_credentials_def
    by (auto simp: Let_def split: sum.splits prod.splits source_fault.splits)
qed

lemma resolve_process:
  assumes "process_ok (snd st)"
  shows "process_ok (snd (snd (resolve_secret env secret st)))"
proof (cases "secret = None \<or> secret = Some []")
  case True
  then show ?thesis using assms by (auto simp: resolve_secret_def case_prod_beta)
next
  case False
  then obtain raw where raw: "secret = Some raw" "raw \<noteq> []" by auto
  obtain db q where st: "st = (db, q)" by (cases st)
  obtain missed p1 where c: "negative_cached (en_mono env AtCache) (en_sha env raw) q = (missed, p1)" by fastforce
  have p1: "process_ok p1" using negative_cached_ok[OF c] assms st by simp
  obtain sres db2 p2 where s: "sync_local_credentials env (en_others env AtLookup db, p1) = (sres, db2, p2)"
    by (metis prod_cases3)
  have "process_ok p2" using sync_process[of "(en_others env AtLookup db, p1)" env] p1 s by simp
  then show ?thesis
    using p1 s c raw unfolding st resolve_secret_def
    by (auto simp: Let_def split: sum.splits option.splits prod.splits)
qed

section \<open>Histories\<close>

datatype auth_act =
    Resolve auth_env "pystr option"
  | Synchronise auth_env
  | CookieKeys auth_env
  | Invalidate
  | Restart
  | EnsureAdmin pystr
  | Register instant string pystr binding
  | MintRuntime instant string pystr "int option" pystr "int option" "pystr option" "int option" int
  | RevokeSecret instant instant pystr
  | RevokeCredential instant string
  | RevokeMachine instant pystr
  | AddOperator auth_env pystr bool file_answer pystr "pystr option" "pystr option"
  | RemoveKey auth_env text_answer bool pystr
  | RotateAdmin auth_env bool pystr text_answer bool bool pystr

fun auth_step :: "(pystr \<Rightarrow> pystr) \<Rightarrow> auth_act \<Rightarrow> auth_db \<times> auth_process \<Rightarrow> auth_db \<times> auth_process" where
  "auth_step sha (Resolve env secret) st = snd (resolve_secret env secret st)"
| "auth_step sha (Synchronise env) st = snd (sync_local_credentials env st)"
| "auth_step sha (CookieKeys env) st = (fst st, snd (valid_keys env (snd st)))"
| "auth_step sha Invalidate st = (fst st, invalidate_source_cache (snd st))"
| "auth_step sha Restart st = (fst st, new_process)"
| "auth_step sha (EnsureAdmin key) st = (snd (ensure_admin_operator sha key (fst st)), snd st)"
| "auth_step sha (Register now cid raw b) st = snd (register_credential sha now cid raw b st)"
| "auth_step sha (MintRuntime now cid raw org machine runtime label who ttl) st =
     snd (mint_runtime_credential sha now cid raw org machine runtime label who ttl st)"
| "auth_step sha (RevokeSecret now clock raw) st = snd (revoke_local_secret sha now clock raw st)"
| "auth_step sha (RevokeCredential now cid) st = snd (revoke_credential now cid st)"
| "auth_step sha (RevokeMachine now machine) st = snd (revoke_machine_credentials now machine st)"
| "auth_step sha (AddOperator env token present write slug display key) st =
     snd (snd (add_operator env token present write slug display key st))"
| "auth_step sha (RemoveKey env file unlinked slug) st = snd (snd (remove_operator_key env file unlinked slug st))"
| "auth_step sha (RotateAdmin env managed configured file rekeyed written token) st =
     snd (snd (rotate_admin_key env managed configured file rekeyed written token st))"

text \<open>Each act is that of the process with the number it is given.\<close>

type_synonym auth_world = "auth_db \<times> (nat \<Rightarrow> auth_process)"

definition auth_at :: "(pystr \<Rightarrow> pystr) \<Rightarrow> nat \<times> auth_act \<Rightarrow> auth_world \<Rightarrow> auth_world" where
  "auth_at sha x w =
     (let (db, p) = auth_step sha (snd x) (fst w, snd w (fst x)) in (db, (snd w)(fst x := p)))"

definition auth_history :: "(pystr \<Rightarrow> pystr) \<Rightarrow> (nat \<times> auth_act) list \<Rightarrow> auth_world \<Rightarrow> auth_world" where
  "auth_history sha xs w = fold (auth_at sha) xs w"

text \<open>
  An act that does not issue the secret with digest \<open>d\<close> again, nor do the others meanwhile. A key
  that is issued, or registered outside the local sources, is what takes a revocation back.
\<close>

definition same_sha :: "(pystr \<Rightarrow> pystr) \<Rightarrow> pystr \<Rightarrow> auth_env \<Rightarrow> bool" where
  "same_sha sha d env \<longleftrightarrow> en_sha env = sha \<and> moves_by (stays_denied d) env"

fun spares :: "(pystr \<Rightarrow> pystr) \<Rightarrow> pystr \<Rightarrow> auth_act \<Rightarrow> bool" where
  "spares sha d (Resolve env secret) \<longleftrightarrow> same_sha sha d env"
| "spares sha d (Synchronise env) \<longleftrightarrow> same_sha sha d env"
| "spares sha d (Register now cid raw b) \<longleftrightarrow> sha raw \<noteq> d \<or> \<not> reinstates b"
| "spares sha d (MintRuntime now cid raw org machine runtime label who ttl) \<longleftrightarrow> sha raw \<noteq> d"
| "spares sha d (AddOperator env token present write slug display key) \<longleftrightarrow>
     same_sha sha d env \<and> sha (issued_key token key) \<noteq> d"
| "spares sha d (RemoveKey env file unlinked slug) \<longleftrightarrow> same_sha sha d env"
| "spares sha d (RotateAdmin env managed configured file rekeyed written token) \<longleftrightarrow> same_sha sha d env \<and> sha token \<noteq> d"
| "spares sha d _ \<longleftrightarrow> True"

section \<open>What a history keeps\<close>

lemma register_credential_stays:
  assumes "sha raw = d \<Longrightarrow> \<not> reinstates b"
  shows "stays_denied d (fst st) (fst (snd (register_credential sha now cid raw b st)))"
  using assms by (cases st) (auto simp: register_credential_state stays_denied_def intro: denied_register)

lemma mint_state:
  "\<exists>b. snd (mint_runtime_credential sha now cid raw org machine runtime label who ttl st) = st \<or>
       snd (mint_runtime_credential sha now cid raw org machine runtime label who ttl st) =
         snd (register_credential sha now cid raw b st)"
  by (auto simp: mint_runtime_credential_def Let_def case_prod_beta)

lemma issue_state:
  "snd (issue_credential env raw b st) =
     (if en_fails env AtIssue then (en_others env AtIssue (fst st), snd st)
      else snd (register_credential (en_sha env) (en_now env AtIssue) (en_cid env AtIssue) raw b
                  (en_others env AtIssue (fst st), snd st)))"
  by (auto simp: issue_credential_def Let_def split: sum.splits prod.splits)

lemma others_stay: "same_sha sha d env \<Longrightarrow> stays_denied d db (en_others env pt db)"
  by (simp add: same_sha_def moves_by_def)

lemma issue_stays:
  assumes "same_sha sha d env" and "sha raw = d \<Longrightarrow> \<not> reinstates b"
  shows "stays_denied d (fst st) (fst (snd (issue_credential env raw b st)))"
proof -
  have "en_sha env = sha" using assms(1) by (simp add: same_sha_def)
  then show ?thesis
    using others_stay[OF assms(1), of "fst st" AtIssue] assms(2)
      register_credential_stays[of sha raw d b "(en_others env AtIssue (fst st), snd st)"]
    by (auto simp: issue_state intro: barred.R_trans)
qed

lemma issue_process: "process_ok (snd st) \<Longrightarrow> process_ok (snd (snd (issue_credential env raw b st)))"
  by (simp add: issue_state register_credential_ok)

lemma invalidate_sources_stays:
  "same_sha sha d env \<Longrightarrow> stays_denied d (fst st) (fst (invalidate_credential_sources env st))"
  using barred.sync_keeps[of d env "(fst st, invalidate_source_cache (snd st))"]
  by (simp add: invalidate_credential_sources_def same_sha_def)

lemma invalidate_sources_process: "process_ok (snd (invalidate_credential_sources env st))"
  unfolding invalidate_credential_sources_def by (rule sync_process) simp

lemma revoke_local_cases:
  "snd (revoke_local_secret sha now clock raw st) = st \<or>
   snd (revoke_local_secret sha now clock raw st) =
     (revoke_rows now (\<lambda>r. xc_secret_hash r = sha raw) (fst st),
      remember_miss clock (sha raw) (forget_all_misses (snd st)))"
  by (cases st) (auto simp: revoke_local_secret_def Let_def split: option.splits)

lemma revoke_local_stays: "stays_denied d (fst st) (fst (snd (revoke_local_secret sha now clock raw st)))"
  using revoke_local_cases[of sha now clock raw st] by (auto simp: stays_denied_def denied_revoke)

lemma revoke_local_process:
  "process_ok (snd st) \<Longrightarrow> process_ok (snd (snd (revoke_local_secret sha now clock raw st)))"
  using revoke_local_cases[of sha now clock raw st] by auto

lemma remove_operator_credentials [simp]: "credentials (remove_operator i db) = credentials db"
  by (simp add: remove_operator_def)

lemma stays_credentials: "credentials db' = credentials db \<Longrightarrow> stays_denied d db db'"
  by (simp add: stays_denied_def denied_credentials[of db' db])

lemma issued_stays:
  assumes e: "same_sha sha d env" and n: "sha raw = d \<Longrightarrow> \<not> reinstates b"
  shows "stays_denied d (fst st) (fst (invalidate_credential_sources env (snd (issue_credential env raw b st))))"
  by (rule barred.R_trans[OF issue_stays[OF e n] invalidate_sources_stays[OF e]])

lemma add_operator_keeps:
  assumes e: "same_sha sha d env" and k: "sha (issued_key token key) \<noteq> d"
  shows "stays_denied d (fst st) (fst (snd (snd (add_operator env token present write slug display key st))))"
proof (cases "validate_slug slug")
  case (Inl e)
  then show ?thesis by (simp add: add_operator_def barred.R_refl)
next
  case (Inr clean)
  define db where "db = en_others env AtAccount (fst st)"
  define x where "x = with_mailbox db (insert_operator (slug_string clean)
      (Some (case display of None \<Rightarrow> clean | Some d \<Rightarrow> if d = [] then clean else d))
      (Some (fingerprint (en_sha env) (issued_key token key))) db)"
  obtain res db1 where x: "x = (res, db1)" by (cases x)
  have "credentials (snd x) = credentials db"
    unfolding x_def by (rule with_mailbox_credentials) simp
  then have m: "stays_denied d db db1" using x by (simp add: stays_credentials)
  have a: "stays_denied d (fst st) db" unfolding db_def using e by (rule others_stay)
  have b: "stays_denied d (fst st) db1" by (rule barred.R_trans[OF a m])
  have c: "stays_denied d (fst st) (en_others env AtCleanup db1)"
    by (rule barred.R_trans[OF b others_stay[OF e]])
  have f: "stays_denied d (fst st) (remove_operator i (en_others env AtCleanup db1))" for i
    by (rule barred.R_trans[OF c]) (simp add: stays_credentials)
  have g: "stays_denied d (fst st) (fst (invalidate_credential_sources env
      (snd (issue_credential env (issued_key token key) b (db1, snd st)))))" for b
    by (rule barred.R_trans[OF b]) (use issued_stays[OF e, of "issued_key token key" b "(db1, snd st)"] k in simp)
  show ?thesis
    using Inr x a b c f g unfolding add_operator_def
    by (auto simp: Let_def db_def[symmetric] x_def[symmetric] split: sum.splits file_answer.splits)
qed

lemma remove_key_keeps:
  assumes e: "same_sha sha d env"
  shows "stays_denied d (fst st) (fst (snd (snd (remove_operator_key env file unlinked slug st))))"
proof -
  define db where "db = en_others env AtSupersede (fst st)"
  have a: "stays_denied d (fst st) db" unfolding db_def using e by (rule others_stay)
  have i: "stays_denied d (fst st) (fst (invalidate_credential_sources env st))"
    by (rule invalidate_sources_stays[OF e])
  have r: "stays_denied d (fst st) (fst (invalidate_credential_sources env
      (snd (revoke_local_secret sha' now clock raw (db, snd st)))))" for sha' now clock raw
    by (rule barred.R_trans[OF a], rule barred.R_trans[OF _ invalidate_sources_stays[OF e]])
      (use revoke_local_stays[of d "(db, snd st)" sha' now clock raw] in simp)
  show ?thesis
    using a i r barred.R_refl unfolding remove_operator_key_def
    by (auto simp: Let_def db_def[symmetric] split: text_answer.splits)
qed

lemma same_sha_admin_key [simp]: "same_sha sha d (with_admin_key key env) = same_sha sha d env"
  by (simp add: same_sha_def with_admin_key_def moves_by_def)

lemma supersede_keeps:
  assumes e: "same_sha sha d env" and k: "sha key \<noteq> d"
  shows "stays_denied d (fst st) (fst (supersede_admin_key env superseded key st))"
proof -
  define p0 where "p0 = invalidate_source_cache (snd st)"
  define db where "db = en_others env AtSupersede (fst st)"
  define retires where "retires = (case superseded of None \<Rightarrow> False
      | Some old \<Rightarrow> old \<noteq> [] \<and> old \<noteq> key \<and> old \<notin> set (lv_api_keys (en_view env AtSupersede)))"
  define st1 where "st1 = (if retires
      then snd (revoke_local_secret (en_sha env) (en_now env AtSupersede) (en_mono env AtSupersede) (the superseded) (db, p0))
      else (db, p0))"
  obtain db1 p1 where st1: "st1 = (db1, p1)" by (cases st1)
  obtain oid db2 where adm: "admin_operator_id env AtAccount (en_others env AtAccount db1) = (oid, db2)" by fastforce
  have p0: "process_ok p0" by (simp add: p0_def)
  have a: "stays_denied d (fst st) db" unfolding db_def using e by (rule others_stay)
  have "stays_denied d db (fst st1) \<and> process_ok (snd st1)"
    using revoke_local_stays[of d "(db, p0)"] revoke_local_process[of "(db, p0)"] p0 barred.R_refl
    by (simp add: st1_def)
  then have b: "stays_denied d (fst st) db1" and p1: "process_ok p1"
    using barred.R_trans[OF a] st1 by auto
  have "stays_denied d (en_others env AtAccount db1) db2"
    using barred.admin_keeps[of d "en_others env AtAccount db1" env AtAccount] adm by simp
  then have c: "stays_denied d (fst st) db2"
    using barred.R_trans[OF barred.R_trans[OF b others_stay[OF e]]] by blast
  obtain ok st' where iss: "issue_credential env key (admin_binding oid) (db2, p1) = (ok, st')" by (metis surj_pair)
  have "stays_denied d db2 (fst st')" "process_ok (snd st')"
    using issue_stays[OF e, of key "admin_binding oid" "(db2, p1)"] issue_process[of "(db2, p1)" env key "admin_binding oid"] iss k p1
    by simp_all
  then have f: "stays_denied d (fst st) (fst st')" and p': "process_ok (snd st')"
    using barred.R_trans[OF c] by blast+
  have g: "stays_denied d (fst st) (fst (snd (sync_local_credentials env st')))"
    using barred.R_trans[OF f] barred.sync_keeps[of d env st'] e p' by (simp add: same_sha_def process_ok_def)
  show ?thesis
    using a f g st1 adm iss
    unfolding supersede_admin_key_def Let_def p0_def[symmetric] db_def[symmetric] retires_def[symmetric] st1_def[symmetric]
    by (auto split: bool.splits)
qed

lemma rotate_keeps:
  assumes "same_sha sha d env" and "sha token \<noteq> d"
  shows "stays_denied d (fst st) (fst (snd (snd (rotate_admin_key env managed configured file rekeyed written token st))))"
  using supersede_keeps[of sha d "with_admin_key token env" token st] assms barred.R_refl
  by (auto simp: rotate_admin_key_def Let_def split: option.splits)

lemma supersede_process: "process_ok (snd (supersede_admin_key env superseded key st))"
  by (auto simp: supersede_admin_key_def Let_def case_prod_beta split: bool.splits
      intro!: sync_process issue_process revoke_local_process)

lemma step_process: "process_ok (snd st) \<Longrightarrow> process_ok (snd (auth_step sha x st))"
proof (induction sha x st rule: auth_step.induct)
  case (1 sha env secret st)
  then show ?case by (simp add: resolve_process)
next
  case (2 sha env st)
  then show ?case by (simp add: sync_process)
next
  case (3 sha env st)
  then show ?case by (auto simp: valid_keys_def Let_def split: prod.splits sum.splits dest: local_key_sources_process)
next
  case (7 sha now cid raw b st)
  then show ?case by (simp add: register_credential_ok)
next
  case (8 sha now cid raw org machine runtime label who ttl st)
  then show ?case
    using mint_state[of sha now cid raw org machine runtime label who ttl st] by (auto simp: register_credential_ok)
next
  case (9 sha now clock raw st)
  then show ?case by (simp add: revoke_local_process)
next
  case (10 sha now cid st)
  then show ?case by (cases st) (auto simp: revoke_credential_def Let_def split: option.splits)
next
  case (11 sha now machine st)
  then show ?case by (cases st) (auto simp: revoke_machine_credentials_def Let_def)
next
  case (12 sha env token present "write" slug display key st)
  then show ?case
    by (auto simp: add_operator_def Let_def invalidate_sources_process split: sum.splits prod.splits file_answer.splits)
next
  case (13 sha env answer unlinked slug st)
  then show ?case
    by (auto simp: remove_operator_key_def Let_def invalidate_sources_process split: text_answer.splits)
next
  case (14 sha env managed configured answer rekeyed written token st)
  then show ?case by (auto simp: rotate_admin_key_def Let_def supersede_process split: option.splits)
qed simp_all

lemma step_stays:
  assumes "spares sha d x" and p: "process_ok (snd st)"
  shows "stays_denied d (fst st) (fst (auth_step sha x st))"
  using assms(1)
proof (cases x)
  case (Resolve env secret)
  then show ?thesis
    using assms barred.resolve_keeps[of d env st secret] by (simp add: same_sha_def process_ok_def)
next
  case (Synchronise env)
  then show ?thesis
    using assms barred.sync_keeps[of d env st] by (simp add: same_sha_def process_ok_def)
next
  case (EnsureAdmin key)
  then show ?thesis using barred.R_admin by simp
next
  case (Register now cid raw b)
  then show ?thesis using assms(1) register_credential_stays[of sha raw d b st now cid] by auto
next
  case (MintRuntime now cid raw org machine runtime label who ttl)
  obtain b where "snd (mint_runtime_credential sha now cid raw org machine runtime label who ttl st) = st \<or>
      snd (mint_runtime_credential sha now cid raw org machine runtime label who ttl st) = snd (register_credential sha now cid raw b st)"
    using mint_state by blast
  then show ?thesis
    using MintRuntime assms(1) register_credential_stays[of sha raw d b st now cid] barred.R_refl by auto
next
  case (RevokeSecret now clock raw)
  then show ?thesis using revoke_local_stays[of d st] by simp
next
  case (RevokeCredential now cid)
  then show ?thesis
    by (cases st) (auto simp: revoke_credential_def Let_def stays_denied_def denied_revoke split: option.splits)
next
  case (RevokeMachine now machine)
  then show ?thesis
    by (cases st) (auto simp: revoke_machine_credentials_def Let_def stays_denied_def denied_revoke)
next
  case (AddOperator env token present "write" slug display key)
  then show ?thesis using assms(1) add_operator_keeps[of sha d env token key st] by simp
next
  case (RemoveKey env answer unlinked slug)
  then show ?thesis using assms(1) remove_key_keeps[of sha d env st] by simp
next
  case (RotateAdmin env managed configured answer rekeyed written token)
  then show ?thesis using assms(1) rotate_keeps[of sha d env token st] by simp
qed (simp_all add: barred.R_refl)

lemma history_process: "\<forall>i. process_ok (snd w i) \<Longrightarrow> \<forall>i. process_ok (snd (auth_history sha xs w) i)"
proof (induction xs arbitrary: w)
  case (Cons x xs)
  have "\<forall>i. process_ok (snd (auth_at sha x w) i)"
    using step_process[of "(fst w, snd w (fst x))" sha "snd x"] Cons.prems
    by (auto simp: auth_at_def Let_def case_prod_beta)
  then show ?case using Cons.IH by (simp add: auth_history_def)
qed (simp add: auth_history_def)

lemma history_stays:
  assumes "\<forall>x\<in>set xs. spares sha d (snd x)" and "\<forall>i. process_ok (snd w i)"
  shows "stays_denied d (fst w) (fst (auth_history sha xs w))"
  using assms
proof (induction xs arbitrary: w)
  case Nil
  then show ?case by (simp add: auth_history_def barred.R_refl)
next
  case (Cons x xs)
  define w' where "w' = auth_at sha x w"
  have "stays_denied d (fst w) (fst w')"
    using step_stays[of sha d "snd x" "(fst w, snd w (fst x))"] Cons.prems
    by (auto simp: w'_def auth_at_def Let_def case_prod_beta)
  moreover have "\<forall>i. process_ok (snd w' i)"
    using step_process[of "(fst w, snd w (fst x))" sha "snd x"] Cons.prems(2)
    by (auto simp: w'_def auth_at_def Let_def case_prod_beta)
  ultimately show ?case
    using Cons.IH[of w'] Cons.prems(1) barred.R_trans by (auto simp: auth_history_def w'_def[symmetric])
qed

end
