(* ===== verification/CredentialProperties.thy ===== *)
theory CredentialProperties imports AuthHistory begin

text \<open>
  Properties of the credential store over \<open>AuthHistory\<close>: what adoption never does, what a revocation
  guarantees, what a resolution answers, that a key on disk starts to resolve, and the bounds of the
  caches. The sample at the end runs them, and states where the code departs from its documentation.
\<close>

section \<open>Resolution\<close>

lemma denied_lookup: "denied d db \<Longrightarrow> lookup_secret now db d = None"
  by (auto simp: denied_def lookup_secret_def credential_is_active_def split: option.splits)

lemma lookup_secret_iff:
  "lookup_secret now db d = Some c \<longleftrightarrow>
     (\<exists>row. by_hash db d = Some row \<and> credential_is_active now row \<and> c = as_record db row)"
  by (auto simp: lookup_secret_def split: option.splits)

text \<open>The stages of a resolution that is not answered from the remembered misses.\<close>

lemma resolve_secret_stages:
  assumes "raw \<noteq> []" and "negative_cached (en_mono env AtCache) (en_sha env raw) p = (False, p1)"
    and "sync_local_credentials env (en_others env AtLookup db, p1) = (sres, db2, p2)"
  shows "resolve_secret env (Some raw) (db, p) =
     (if en_fails env AtLookup then (Inl StoreError, en_others env AtLookup db, p1)
      else case lookup_secret (en_now env AtLookup) (en_others env AtLookup db) (en_sha env raw) of
             Some c \<Rightarrow> (Inr (Some c), en_others env AtLookup db, p1)
           | None \<Rightarrow>
               (case sres of
                  Inl e \<Rightarrow> (Inl e, db2, p2)
                | Inr _ \<Rightarrow>
                    if en_fails env AtRelookup then (Inl StoreError, en_others env AtRelookup db2, p2)
                    else case lookup_secret (en_now env AtRelookup) (en_others env AtRelookup db2) (en_sha env raw) of
                           Some c \<Rightarrow> (Inr (Some c), en_others env AtRelookup db2, p2)
                         | None \<Rightarrow> (Inr None, en_others env AtMiss (en_others env AtRelookup db2),
                                    remember_miss (en_mono env AtMiss) (en_sha env raw) p2)))"
  using assms by (simp add: resolve_secret_def Let_def split: option.splits sum.splits)

lemma resolve_missed:
  assumes "raw \<noteq> []" and "negative_cached (en_mono env AtCache) (en_sha env raw) p = (True, p1)"
  shows "resolve_secret env (Some raw) (db, p) = (Inr None, db, p1)"
  using assms by (simp add: resolve_secret_def Let_def)

lemma denied_not_resolved:
  assumes "denied d db" and "sha raw = d" and "same_sha sha d env" and "process_ok p"
  shows "fst (resolve_secret env (Some raw) (db, p)) \<noteq> Inr (Some c)"
proof (cases "raw = []")
  case True
  then show ?thesis by (simp add: resolve_secret_def)
next
  case False
  have sha: "en_sha env = sha" and m: "moves_by (stays_denied d) env" using assms(3) by (auto simp: same_sha_def)
  obtain hit p1 where n: "negative_cached (en_mono env AtCache) (en_sha env raw) p = (hit, p1)" by fastforce
  show ?thesis
  proof (cases hit)
    case True
    then show ?thesis using resolve_missed[OF False] n by simp
  next
    case hit: False
    obtain sres db2 p2 where s: "sync_local_credentials env (en_others env AtLookup db, p1) = (sres, db2, p2)"
      by (metis prod_cases3)
    have p1: "entries_ok p1" using negative_cached_ok[OF n assms(4)] by (rule process_ok_entries)
    have d1: "denied d (en_others env AtLookup db)"
      using moves_byD[OF m] assms(1) by (simp add: stays_denied_def)
    have "stays_denied d (en_others env AtLookup db) db2"
      using barred.sync_keeps[OF m, of "(en_others env AtLookup db, p1)"] p1 s by simp
    then have d2: "denied d (en_others env AtRelookup db2)"
      using d1 moves_byD[OF m, of db2 AtRelookup] by (simp add: stays_denied_def)
    show ?thesis
      using n hit assms(2) sha denied_lookup[OF d1] denied_lookup[OF d2]
      by (simp add: resolve_secret_stages[OF False _ s] split: sum.splits)
  qed
qed

text \<open>C25. Passive reconciliation takes nothing back and rewrites nothing. Whatever a process resolves or
  synchronises, with whatever view of its host, whatever caches, and whichever of its transactions
  fail, every credential that was in the store is there afterwards, with its identity, kind, binding
  and dates; what was revoked is revoked, since the same time; at most a missing provenance is filled
  in, with a local one; and a credential that is not local is revoked no more than it was. The same
  is asked of what others commit meanwhile, who may besides revoke local credentials.\<close>

theorem reconciliation_respects_rows:
  assumes "moves_by respects_rows env" and "process_ok p"
  shows "respects_rows db (fst (snd (resolve_secret env secret (db, p)))) \<and>
    respects_rows db (fst (snd (sync_local_credentials env (db, p))))"
  using respected.resolve_keeps[OF assms(1), of "(db, p)"] respected.sync_keeps[OF assms(1), of "(db, p)"]
    process_ok_entries[OF assms(2)] by simp_all

text \<open>Nor does reconciliation revoke a local credential whose secret vanished from its source: whatever the
  host shows, a row with a provenance stays exactly as it was.\<close>

lemma vanished_key_not_revoked:
  assumes "moves_by keeps_rows env" and "process_ok p" and "by_hash db d = Some row" and "xc_source row \<noteq> None"
  shows "by_hash (fst (snd (sync_local_credentials env (db, p)))) d = Some row"
proof -
  have "keeps_rows db (fst (snd (sync_local_credentials env (db, p))))"
    using kept.sync_keeps[OF assms(1), of "(db, p)"] process_ok_entries[OF assms(2)] by simp
  then show ?thesis using keeps_rowsD[OF _ assms(3)] assms(4) by fastforce
qed

text \<open>C24. A revocation holds. Once the row of a secret is revoked, then after any history of any processes
  that does not issue that very secret again, and in the presence of any commits of others that do
  not either, no process resolves the secret, whatever key files come back on its host, whatever its
  caches hold and however its transactions fail.\<close>

theorem revoked_stays_denied:
  assumes "denied (sha raw) (fst w)" and "\<forall>i. process_ok (snd w i)"
    and "\<forall>x\<in>set xs. spares sha (sha raw) (snd x)" and "same_sha sha (sha raw) env"
  shows "fst (resolve_secret env (Some raw) (fst (auth_history sha xs w), snd (auth_history sha xs w) i)) \<noteq> Inr (Some c)"
proof -
  have h: "denied (sha raw) (fst (auth_history sha xs w))" "process_ok (snd (auth_history sha xs w) i)"
    using history_stays[OF assms(3,2)] history_process[OF assms(2)] assms(1) by (auto simp: stays_denied_def)
  show ?thesis by (rule denied_not_resolved[OF h(1) refl assms(4) h(2)])
qed

definition accepted_at :: "auth_env \<Rightarrow> point \<Rightarrow> auth_db \<Rightarrow> pystr \<Rightarrow> credential_record \<Rightarrow> bool" where
  "accepted_at env pt db digest c \<longleftrightarrow>
     (\<exists>row. by_hash db digest = Some row \<and> credential_is_active (en_now env pt) row \<and> c = as_record db row)"

text \<open>C27. What a resolution answers. A credential is handed out only for a row whose hash is that of the
  secret and which, at one of the two lookups, was neither revoked nor expired. The answer "unknown"
  to a secret means that a miss of it was remembered and not yet due, in which case neither the store
  nor the host was touched, or that the lookup after the synchronisation found no such row.\<close>

theorem resolve_exact:
  assumes "raw \<noteq> []" and "negative_cached (en_mono env AtCache) (en_sha env raw) p = (missed, p1)"
    and "sync_local_credentials env (en_others env AtLookup db, p1) = (sres, db2, p2)"
    and "resolve_secret env (Some raw) (db, p) = (Inr res, db', p')"
  shows "case res of
       Some c \<Rightarrow> \<not> missed \<and>
         (accepted_at env AtLookup (en_others env AtLookup db) (en_sha env raw) c \<and> db' = en_others env AtLookup db \<and> p' = p1 \<or>
          accepted_at env AtRelookup (en_others env AtRelookup db2) (en_sha env raw) c \<and> db' = en_others env AtRelookup db2)
     | None \<Rightarrow> (if missed then db' = db \<and> p' = p1
         else lookup_secret (en_now env AtRelookup) (en_others env AtRelookup db2) (en_sha env raw) = None \<and>
           map_of (ap_misses p') (en_sha env raw) = Some (en_mono env AtMiss + seconds NEGATIVE_CACHE_TTL_SECONDS))"
proof (cases missed)
  case True
  then show ?thesis using assms resolve_missed[OF assms(1), of env p p1 db] by auto
next
  case False
  have m: "map_of (ap_misses (remember_miss t d q)) d = Some (t + seconds NEGATIVE_CACHE_TTL_SECONDS)" for t d q
  proof -
    define ms where "ms = filter (\<lambda>m. fst m \<noteq> d) (ap_misses q)"
    have "ap_misses (remember_miss t d q) =
        drop (Suc (length ms) - NEGATIVE_CACHE_MAX_ENTRIES) (ms @ [(d, t + seconds NEGATIVE_CACHE_TTL_SECONDS)])"
      by (simp add: remember_miss_def forget_miss_def Let_def ms_def)
    moreover have "Suc (length ms) - NEGATIVE_CACHE_MAX_ENTRIES \<le> length ms"
      by (simp add: NEGATIVE_CACHE_MAX_ENTRIES_def)
    moreover have "d \<notin> fst ` set (drop n ms)" for n
      using set_drop_subset[of n ms] by (auto simp: ms_def)
    ultimately show ?thesis by (simp add: map_add_def map_of_eq_None_iff[THEN iffD2])
  qed
  show ?thesis
    using assms(4) False unfolding resolve_secret_stages[OF assms(1) assms(2)[unfolded False[THEN eq_False[THEN iffD2]]] assms(3)]
    by (auto simp: lookup_secret_iff accepted_at_def m split: if_splits option.splits sum.splits)
qed

section \<open>A key on disk starts to resolve\<close>

text \<open>Nobody else commits meanwhile and no transaction fails.\<close>

definition undisturbed :: "auth_env \<Rightarrow> bool" where
  "undisturbed env \<longleftrightarrow> (\<forall>pt. \<not> en_fails env pt) \<and> (\<forall>pt db. en_others env pt db = db)"

lemma undisturbed_moves: "undisturbed env \<Longrightarrow> (\<And>db. R db db) \<Longrightarrow> moves_by R env"
  by (simp add: undisturbed_def moves_by_def)

lemma adopt_present:
  assumes "undisturbed env" and "source_entry_ok (raw, kind, source)"
  shows "by_hash (fst (snd (adopt_if_needed env i raw kind source oid (db, p)))) (en_sha env raw) \<noteq> None"
  using assms
  by (auto simp: adopt_if_needed_def undisturbed_def source_entry_ok_def Let_def register_credential_def by_hash_backfill
      by_hash_register case_prod_beta split: option.splits)

lemma adopt_all_present:
  assumes a: "undisturbed env"
  shows "\<forall>e\<in>set es. source_entry_ok e \<Longrightarrow> (raw, kind, source) \<in> set es \<Longrightarrow> fst (adopt_all env i admin n es st) = Inr m
    \<Longrightarrow> by_hash (fst (snd (adopt_all env i admin n es st))) (en_sha env raw) \<noteq> None"
proof (induction es arbitrary: i admin n st)
  case (Cons e es)
  obtain raw' kind' source' where e: "e = (raw', kind', source')" by (cases e)
  obtain oid admin' n' db where t: "adopt_all env i admin n (e # es) st =
      adopt_all env (Suc i) admin' n' es (snd (adopt_if_needed env i raw' kind' source' oid (db, snd st)))"
    using adopt_all_cases[of env i admin n raw' kind' source' es st] Cons.prems(3) unfolding e by auto
  define st' where "st' = snd (adopt_if_needed env i raw' kind' source' oid (db, snd st))"
  have k: "keeps_rows (fst st') (fst (snd (adopt_all env (Suc i) admin' n' es st')))"
    by (rule kept.adopt_all_keeps[OF undisturbed_moves[OF a kept.R_refl]]) (use Cons.prems(1) in simp)
  show ?case
  proof (cases "(raw, kind, source) \<in> set es")
    case True
    then show ?thesis using Cons.IH[OF _ True] Cons.prems(1,3) t by simp
  next
    case False
    then have eq: "e = (raw, kind, source)" using Cons.prems(2) by simp
    have "by_hash (fst st') (en_sha env raw) \<noteq> None"
      using adopt_present[OF a, of raw kind source] Cons.prems(1) eq e by (simp add: st'_def)
    then show ?thesis using keeps_rowsD[OF k] t st'_def by fastforce
  qed
qed simp

text \<open>Two operators carry the same fingerprint of a key.\<close>

definition print_shared :: "auth_db \<Rightarrow> pystr \<Rightarrow> bool" where
  "print_shared db v \<longleftrightarrow> 1 < length (filter (\<lambda>r. key_prints db (op_id r) = Some v) (operators (abase db)))"

lemma operator_id_ambiguous: "operator_id_for_fingerprint db v = Inl e \<Longrightarrow> e = AmbiguousOperator \<and> print_shared db v"
  by (auto simp: operator_id_for_fingerprint_def operator_by_print_def print_shared_def split: sum.splits list.splits)

text \<open>The loop of adoption stops only at an operator key whose fingerprint two operators carry.\<close>

lemma adopt_all_error:
  "adopt_all env i admin n es st = (Inl e, db', p') \<Longrightarrow>
     e = AmbiguousOperator \<and> (\<exists>raw kind source. (raw, kind, source) \<in> set es \<and> kind \<noteq> KIND_ADMIN \<and>
       print_shared db' (take 16 (en_sha env raw)))"
proof (induction es arbitrary: i admin n st)
  case (Cons x es)
  obtain raw kind source where x: "x = (raw, kind, source)" by (cases x)
  define db0 where "db0 = en_others env (AtOperator i) (fst st)"
  show ?case
  proof (cases "kind \<noteq> KIND_ADMIN \<and> (\<exists>err. operator_id_for_fingerprint db0 (take 16 (en_sha env raw)) = Inl err)")
    case True
    then obtain err where err: "kind \<noteq> KIND_ADMIN" "operator_id_for_fingerprint db0 (take 16 (en_sha env raw)) = Inl err" by blast
    then have "e = err" "db' = db0" using Cons.prems unfolding x by (simp_all add: db0_def[symmetric] Let_def)
    then show ?thesis using operator_id_ambiguous[OF err(2)] err(1) unfolding x by auto
  next
    case False
    obtain admin' n' st' where "adopt_all env (Suc i) admin' n' es st' = (Inl e, db', p')"
      using Cons.prems False unfolding x
      by (auto simp: db0_def[symmetric] Let_def case_prod_beta split: if_splits option.splits sum.splits)
    from Cons.IH[OF this] show ?thesis by auto
  qed
qed simp

text \<open>The host answers with the sources \<open>es\<close>, and neither a cached view nor an earlier synchronisation hides them.\<close>

definition sees_sources :: "auth_env \<Rightarrow> source_entry list \<Rightarrow> auth_process \<Rightarrow> bool" where
  "sees_sources env es p \<longleftrightarrow>
     (case source_fingerprint (en_sha env) (en_view env AtPrint) of
        Inl _ \<Rightarrow> False
      | Inr print \<Rightarrow>
          source_fingerprint (en_sha env) (en_view env AtStats) = Inr print \<and>
          read_local_key_sources (en_view env AtTexts) = Inr es \<and> ap_synced p \<noteq> Some print \<and>
          (case ap_sources p of None \<Rightarrow> True | Some (print0, _, t) \<Rightarrow> print0 \<noteq> print \<and> t \<le> en_mono env AtStats))"

lemma sync_sees:
  assumes "sees_sources env es p"
  shows "\<exists>q. sync_local_credentials env (db, p) =
    (case adopt_all env 0 None 0 es (db, q) of
       (Inl e, st') \<Rightarrow> (Inl e, st')
     | (Inr n, db', p') \<Rightarrow>
         let p3 = p'\<lparr>ap_synced := Some (projr (source_fingerprint (en_sha env) (en_view env AtPrint)))\<rparr>
         in (Inr n, db', if n = 0 then p3 else forget_all_misses p3))"
proof -
  obtain print where p: "source_fingerprint (en_sha env) (en_view env AtPrint) = Inr print"
    "source_fingerprint (en_sha env) (en_view env AtStats) = Inr print"
    "read_local_key_sources (en_view env AtTexts) = Inr es" "ap_synced p \<noteq> Some print"
    "case ap_sources p of None \<Rightarrow> True | Some (print0, _, t) \<Rightarrow> print0 \<noteq> print \<and> t \<le> en_mono env AtStats"
    using assms by (auto simp: sees_sources_def split: sum.splits)
  define q where "q = p\<lparr>ap_sources := Some (print, es, en_mono env AtStats + seconds SOURCE_CACHE_TTL_SECONDS)\<rparr>"
  have l: "local_key_sources (en_sha env) (en_mono env AtStats) False (en_view env AtStats) (en_view env AtTexts) p = (Inr es, q)"
    using p by (cases "ap_sources p") (auto simp: local_key_sources_def Let_def q_def)
  have s: "ap_synced q = ap_synced p" by (simp add: q_def)
  have r: "projr (source_fingerprint (en_sha env) (en_view env AtPrint)) = print" using p(1) by simp
  show ?thesis
    unfolding r using p s by (intro exI[of _ "q\<lparr>ap_source_error := None\<rparr>"]) (simp add: sync_local_credentials_def l)
qed

text \<open>C26. Adoption happens. Let the store have no row of a secret among the key sources of the host. If the
  process reads those sources afresh (its cached view is over and it has not yet synchronised this
  fingerprint of the host), remembers no miss of the secret, nobody else commits meanwhile and no
  transaction fails, then the secret resolves at once, to a row that carries its hash, unless two
  operators carry the fingerprint of one of the operator keys among the sources, which raises.\<close>

theorem local_key_adopted:
  assumes "undisturbed env" and "(raw, kind, source) \<in> set es" and "sees_sources env es p"
    and "by_hash db (en_sha env raw) = None" and "map_of (ap_misses p) (en_sha env raw) = None"
    and "resolve_secret env (Some raw) (db, p) = (res, db', p')"
  shows "(\<exists>c. res = Inr (Some c) \<and> xc_secret_hash (fst c) = en_sha env raw) \<or>
    res = Inl AmbiguousOperator \<and> (\<exists>raw' kind' source'. (raw', kind', source') \<in> set es \<and> kind' \<noteq> KIND_ADMIN \<and>
      print_shared db' (take 16 (en_sha env raw')))"
proof -
  have es: "\<forall>e\<in>set es. source_entry_ok e"
    using assms(3) by (auto simp: sees_sources_def split: sum.splits dest: read_sources_ok)
  then have raw: "raw \<noteq> []" using assms(2) by (auto simp: source_entry_ok_def)
  have o: "en_others env pt x = x" "\<not> en_fails env pt" for pt x using assms(1) by (auto simp: undisturbed_def)
  have n: "negative_cached (en_mono env AtCache) (en_sha env raw) p = (False, p)"
    using assms(5) by (simp add: negative_cached_def)
  obtain q where q: "sync_local_credentials env (en_others env AtLookup db, p) =
    (case adopt_all env 0 None 0 es (db, q) of
       (Inl e, st') \<Rightarrow> (Inl e, st')
     | (Inr n, db', p') \<Rightarrow>
         let p3 = p'\<lparr>ap_synced := Some (projr (source_fingerprint (en_sha env) (en_view env AtPrint)))\<rparr>
         in (Inr n, db', if n = 0 then p3 else forget_all_misses p3))"
    using sync_sees[OF assms(3), of db] by (auto simp: o)
  obtain ares db1 q1 where a: "adopt_all env 0 None 0 es (db, q) = (ares, db1, q1)" by (metis prod_cases3)
  have miss: "lookup_secret t db (en_sha env raw) = None" for t using assms(4) by (simp add: lookup_secret_def)
  show ?thesis
  proof (cases ares)
    case (Inl e)
    show ?thesis
      using resolve_secret_stages[OF raw n q[unfolded a Inl prod.case sum.case]] miss o assms(6)
        adopt_all_error[OF a[unfolded Inl]] by simp
  next
    case (Inr m)
    obtain p3 where s: "sync_local_credentials env (en_others env AtLookup db, p) = (Inr m, db1, p3)"
      using q a Inr by (auto simp: Let_def)
    obtain row where row: "by_hash db1 (en_sha env raw) = Some row"
      using adopt_all_present[OF assms(1) es assms(2), of 0 None 0 "(db, q)"] a Inr by auto
    have "stays_acceptable (en_sha env raw) db db1"
      using acceptance.adopt_all_keeps[OF undisturbed_moves[OF assms(1) acceptance.R_refl] es, of "en_sha env raw" "(db, q)" 0 None 0] a by simp
    then have "xc_revoked_at row = None \<and> xc_expires_at row = None"
      using assms(4) row by (simp add: stays_acceptable_def acceptable_def)
    then have "lookup_secret t db1 (en_sha env raw) = Some (as_record db1 row)" for t
      using row by (simp add: lookup_secret_def credential_is_active_def)
    then show ?thesis
      using by_hash_key[OF row] miss o assms(6) by (auto simp: resolve_secret_stages[OF raw n s] as_record_def)
  qed
qed

section \<open>The caches\<close>

text \<open>The caches of a process are bounded and well formed. After any history from fresh processes, each
  remembers at most 4096 misses, no digest twice, and the key sources it caches name only local
  provenance, a known kind and a secret that is not empty.\<close>

theorem caches_bounded:
  "length (ap_misses (snd (auth_history sha xs (db, \<lambda>_. new_process)) i)) \<le> 4096 \<and>
   distinct (map fst (ap_misses (snd (auth_history sha xs (db, \<lambda>_. new_process)) i))) \<and>
   entries_ok (snd (auth_history sha xs (db, \<lambda>_. new_process)) i)"
proof -
  have "\<forall>i. process_ok (snd (auth_history sha xs (db, \<lambda>_. new_process)) i)"
    by (rule history_process) simp
  then show ?thesis by (simp add: process_ok_def misses_ok_def NEGATIVE_CACHE_MAX_ENTRIES_def)
qed

end
