(* ===== verification/CredentialSample.thy ===== *)
theory CredentialSample imports CredentialProperties begin

text \<open>
  The properties of \<open>CredentialProperties\<close> at concrete inputs, and runs of the store in which the code
  does not do what it means to.
\<close>

section \<open>A host and a store\<close>

definition k_admin :: pystr where "k_admin = [1]"
definition k_bob :: pystr where "k_bob = [2]"
definition k_guess :: pystr where "k_guess = [3]"
definition bob_file :: pystr where "bob_file = [98, 46, 107, 101, 121]"

definition host :: "pystr \<Rightarrow> pystr list \<Rightarrow> text_answer \<Rightarrow> local_view" where
  "host key names answer =
     \<lparr>lv_api_key = key, lv_api_keys = [], lv_dir = Listing names, lv_stat = \<lambda>_. FileStat 7 9, lv_text = \<lambda>_. answer\<rparr>"

definition calm_env :: "int \<Rightarrow> local_view \<Rightarrow> auth_env" where
  "calm_env t v =
     \<lparr>en_sha = \<lambda>x. x, en_now = \<lambda>_. seconds t, en_mono = \<lambda>_. seconds t, en_view = \<lambda>_. v, en_cid = \<lambda>_. ''c1'',
      en_fails = \<lambda>_. False, en_others = \<lambda>_ db. db\<rparr>"

definition bob :: operator_row where "bob = \<lparr>op_id = 1, op_slug = ''bob''\<rparr>"

definition accounts :: "pystr option \<Rightarrow> auth_db" where
  "accounts print =
     \<lparr>abase = empty_store\<lparr>operators := [bob]\<rparr>, key_prints = \<lambda>_. print, display_names = \<lambda>_. None, org_members = [],
      mailboxes = [], credentials = []\<rparr>"

lemma keys_differ [simp]:
  "k_admin \<noteq> k_bob" "k_bob \<noteq> k_admin" "k_guess \<noteq> k_admin" "k_guess \<noteq> k_bob" "k_admin \<noteq> k_guess" "k_bob \<noteq> k_guess"
  "k_admin \<noteq> []" "k_bob \<noteq> []" "k_guess \<noteq> []"
  "take n k_bob = (if n = 0 then [] else k_bob)" "take n k_admin = (if n = 0 then [] else k_admin)"
  "strip k_bob = k_bob" "strip k_admin = k_admin"
  by (simp_all add: k_admin_def k_bob_def k_guess_def strip_def is_space_def take_Cons')

lemma bob_file_simps [simp]: "is_key_name bob_file" "sort [bob_file] = [bob_file]"
  by (simp_all add: is_key_name_def bob_file_def)

lemma calm_env_simps [simp]:
  "en_sha (calm_env t v) x = x" "en_now (calm_env t v) pt = seconds t" "en_mono (calm_env t v) pt = seconds t"
  "en_view (calm_env t v) pt = v" "en_cid (calm_env t v) pt = ''c1''" "\<not> en_fails (calm_env t v) pt"
  "en_others (calm_env t v) pt db = db" "undisturbed (calm_env t v)"
  by (simp_all add: calm_env_def undisturbed_def)

lemma host_simps [simp]:
  "lv_api_key (host k ns a) = k" "lv_api_keys (host k ns a) = []" "lv_dir (host k ns a) = Listing ns"
  "lv_stat (host k ns a) n = FileStat 7 9" "lv_text (host k ns a) n = a"
  by (simp_all add: host_def)

lemma accounts_simps [simp]:
  "operators (abase (accounts x)) = [bob]" "key_prints (accounts x) i = x" "credentials (accounts x) = []"
  "mailboxes (accounts x) = []" "op_id bob = 1" "op_slug bob = ''bob''" "by_hash (accounts x) d = None"
  by (simp_all add: accounts_def bob_def by_hash_def)

lemma host_sources [simp]:
  "source_fingerprint sha (host [] [] a) = Inr ([], [], [])"
  "source_fingerprint sha (host [] [bob_file] a) = Inr ([], [], [(bob_file, 7, 9)])"
  "read_local_key_sources (host [] [] a) = Inr []"
  "read_local_key_sources (host [] [bob_file] (FileText k_bob)) = Inr [(k_bob, KIND_OPERATOR, SOURCE_OPERATOR_KEY)]"
  "read_local_key_sources (host [] [bob_file] TextUndecodable) = Inl (NotUtf8 bob_file)"
  "read_local_key_sources (host k_bob [bob_file] (FileText k_bob)) =
     Inr [(k_bob, KIND_ADMIN, SOURCE_ADMIN_KEY), (k_bob, KIND_OPERATOR, SOURCE_OPERATOR_KEY)]"
  by (simp_all add: source_fingerprint_def operator_key_files_def read_local_key_sources_def configured_keys_def)

section \<open>Witnesses\<close>

theorem local_key_adopted_witness:
  "case resolve_secret (calm_env 0 (host [] [bob_file] (FileText k_bob))) (Some k_bob) (accounts None, new_process) of
     (res, db', p') \<Rightarrow> (\<exists>c. res = Inr (Some c) \<and> xc_secret_hash (fst c) = k_bob) \<or>
       res = Inl AmbiguousOperator \<and> print_shared db' (take 16 k_bob)"
proof -
  obtain res db' p' where r: "resolve_secret (calm_env 0 (host [] [bob_file] (FileText k_bob))) (Some k_bob)
      (accounts None, new_process) = (res, db', p')"
    by (metis prod_cases3)
  show ?thesis
    using local_key_adopted[OF _ _ _ _ _ r, of KIND_OPERATOR SOURCE_OPERATOR_KEY "[(k_bob, KIND_OPERATOR, SOURCE_OPERATOR_KEY)]"] r
    by (auto simp: sees_sources_def new_process_def)
qed

definition revoked_bob :: credential_row where
  "revoked_bob = (new_credential 0 ''c0'' k_bob (local_binding KIND_OPERATOR SOURCE_OPERATOR_KEY (Some 1)) 1)
     \<lparr>xc_revoked_at := Some (seconds 1)\<rparr>"

definition bob_revoked :: auth_db where
  "bob_revoked = (accounts None)\<lparr>credentials := [revoked_bob]\<rparr>"

lemma bob_denied: "denied k_bob bob_revoked"
  by (simp add: denied_def bob_revoked_def by_hash_def revoked_bob_def new_credential_def)

lemma calm_same_sha [simp]: "same_sha (\<lambda>x. x) d (calm_env t v)"
  by (simp add: same_sha_def moves_by_def calm_env_def barred.R_refl)

theorem revoked_stays_denied_witness:
  "fst (resolve_secret (calm_env 9 (host [] [bob_file] (FileText k_bob))) (Some k_bob)
     (fst (auth_history (\<lambda>x. x) [(0, Synchronise (calm_env 5 (host [] [bob_file] (FileText k_bob)))), (1, Invalidate),
          (1, Register (seconds 6) ''c2'' k_admin (local_binding KIND_ADMIN SOURCE_ADMIN_KEY None))]
        (bob_revoked, \<lambda>_. new_process)),
      snd (auth_history (\<lambda>x. x) [(0, Synchronise (calm_env 5 (host [] [bob_file] (FileText k_bob)))), (1, Invalidate),
          (1, Register (seconds 6) ''c2'' k_admin (local_binding KIND_ADMIN SOURCE_ADMIN_KEY None))]
        (bob_revoked, \<lambda>_. new_process)) 0)) \<noteq> Inr (Some (revoked_bob, None))"
  using bob_denied by (intro revoked_stays_denied) simp_all

lemma calm_keeps [simp]: "moves_by keeps_rows (calm_env t v)" "moves_by respects_rows (calm_env t v)"
  by (simp_all add: moves_by_def calm_env_def kept.R_refl respected.R_refl)

theorem reconciliation_respects_rows_witness:
  "respects_rows bob_revoked (fst (snd (resolve_secret (calm_env 9 (host [] [bob_file] (FileText k_bob))) (Some k_guess) (bob_revoked, new_process)))) \<and>
   respects_rows bob_revoked (fst (snd (sync_local_credentials (calm_env 9 (host [] [bob_file] (FileText k_bob))) (bob_revoked, new_process))))"
  by (rule reconciliation_respects_rows) simp_all

definition bob_active :: auth_db where
  "bob_active = (accounts None)\<lparr>credentials := [revoked_bob\<lparr>xc_revoked_at := None\<rparr>]\<rparr>"

lemma bob_active_row [simp]: "by_hash bob_active k_bob = Some (revoked_bob\<lparr>xc_revoked_at := None\<rparr>)"
  by (simp add: bob_active_def by_hash_def revoked_bob_def new_credential_def)

lemma bob_expires [simp]: "xc_expires_at revoked_bob = None" "xc_secret_hash revoked_bob = k_bob"
  by (simp_all add: revoked_bob_def new_credential_def)

lemma new_process_simps [simp]:
  "ap_misses new_process = []" "ap_synced new_process = None" "ap_sources new_process = None"
  by (simp_all add: new_process_def)

lemma bob_resolves:
  "resolve_secret (calm_env 9 (host [] [] TextGone)) (Some k_bob) (bob_active, new_process) =
     (Inr (Some (as_record bob_active (revoked_bob\<lparr>xc_revoked_at := None\<rparr>))), bob_active, new_process)"
  by (simp add: resolve_secret_def negative_cached_def lookup_secret_def credential_is_active_def)

theorem resolve_exact_witness:
  "accepted_at (calm_env 9 (host [] [] TextGone)) AtLookup bob_active k_bob
     (as_record bob_active (revoked_bob\<lparr>xc_revoked_at := None\<rparr>)) \<or>
   accepted_at (calm_env 9 (host [] [] TextGone)) AtRelookup
     (fst (snd (sync_local_credentials (calm_env 9 (host [] [] TextGone)) (bob_active, new_process)))) k_bob
     (as_record bob_active (revoked_bob\<lparr>xc_revoked_at := None\<rparr>))"
  using resolve_exact[of k_bob "calm_env 9 (host [] [] TextGone)" new_process False new_process bob_active
      "fst (sync_local_credentials (calm_env 9 (host [] [] TextGone)) (bob_active, new_process))"
      "fst (snd (sync_local_credentials (calm_env 9 (host [] [] TextGone)) (bob_active, new_process)))"
      "snd (snd (sync_local_credentials (calm_env 9 (host [] [] TextGone)) (bob_active, new_process)))"
      "Some (as_record bob_active (revoked_bob\<lparr>xc_revoked_at := None\<rparr>))" bob_active new_process]
  by (auto simp: bob_resolves negative_cached_def)

section \<open>Where the code departs from its intent\<close>

text \<open>
  A key file that appears within the five seconds for which the cached sources are served is never
  adopted: the synchronisation that meets it computes the new fingerprint, adopts the old entries
  and records the new fingerprint as done. A minute later the key still does not resolve, and a
  synchronisation adopts nothing.
\<close>

definition before_bob :: auth_process where
  "before_bob = new_process\<lparr>ap_sources := Some (([], [], []), [], seconds 5), ap_synced := Some ([], [], [])\<rparr>"

abbreviation with_bob :: local_view where
  "with_bob \<equiv> host [] [bob_file] (FileText k_bob)"

definition after_bob :: "auth_db \<times> auth_process" where
  "after_bob = snd (resolve_secret (calm_env 3 with_bob) (Some k_bob) (accounts None, before_bob))"

lemma before_bob_is_reached:
  "snd (sync_local_credentials (calm_env 0 (host [] [] TextGone)) (accounts None, new_process)) = (accounts None, before_bob)"
  by (simp add: sync_local_credentials_def local_key_sources_def SOURCE_CACHE_TTL_SECONDS_def seconds_def before_bob_def
      new_process_def)

lemma key_file_never_adopted:
  "fst (resolve_secret (calm_env 3 with_bob) (Some k_bob) (accounts None, before_bob)) = Inr None"
  "fst (sync_local_credentials (calm_env 63 with_bob) after_bob) = Inr 0"
  "fst (resolve_secret (calm_env 63 with_bob) (Some k_bob) after_bob) = Inr None"
proof -
  have a: "resolve_secret (calm_env 3 with_bob) (Some k_bob) (accounts None, before_bob) =
      (Inr None, accounts None,
       before_bob\<lparr>ap_source_error := None, ap_synced := Some ([], [], [(bob_file, 7, 9)]), ap_misses := [(k_bob, seconds 13)]\<rparr>)"
    by (simp add: resolve_secret_def negative_cached_def lookup_secret_def sync_local_credentials_def local_key_sources_def
        before_bob_def new_process_def remember_miss_def forget_miss_def NEGATIVE_CACHE_TTL_SECONDS_def
        NEGATIVE_CACHE_MAX_ENTRIES_def seconds_def)
  then show "fst (resolve_secret (calm_env 3 with_bob) (Some k_bob) (accounts None, before_bob)) = Inr None" by simp
  have b: "after_bob = (accounts None,
       before_bob\<lparr>ap_source_error := None, ap_synced := Some ([], [], [(bob_file, 7, 9)]), ap_misses := [(k_bob, seconds 13)]\<rparr>)"
    by (simp add: after_bob_def a)
  show "fst (sync_local_credentials (calm_env 63 with_bob) after_bob) = Inr 0"
    by (simp add: b sync_local_credentials_def local_key_sources_def before_bob_def seconds_def Let_def)
  show "fst (resolve_secret (calm_env 63 with_bob) (Some k_bob) after_bob) = Inr None"
    by (simp add: b resolve_secret_def negative_cached_def lookup_secret_def sync_local_credentials_def local_key_sources_def
        before_bob_def seconds_def Let_def forget_miss_def)
qed

text \<open>
  A key whose adoption fails in the store is not tried again: the fingerprint is recorded as done all
  the same.
\<close>

definition failing_env :: "int \<Rightarrow> local_view \<Rightarrow> auth_env" where
  "failing_env t v = (calm_env t v)\<lparr>en_fails := \<lambda>pt. pt = AtRegister 0\<rparr>"

lemma failing_env_simps [simp]:
  "en_sha (failing_env t v) x = x" "en_now (failing_env t v) pt = seconds t" "en_mono (failing_env t v) pt = seconds t"
  "en_view (failing_env t v) pt = v" "en_fails (failing_env t v) pt = (pt = AtRegister 0)" "en_others (failing_env t v) pt db = db"
  by (simp_all add: failing_env_def calm_env_def)

definition after_failure :: "auth_db \<times> auth_process" where
  "after_failure = snd (sync_local_credentials (failing_env 0 with_bob) (accounts None, new_process))"

lemma failed_adoption_not_retried:
  "fst (sync_local_credentials (calm_env 60 with_bob) after_failure) = Inr 0"
  "fst (resolve_secret (calm_env 60 with_bob) (Some k_bob) after_failure) = Inr None"
proof -
  have a: "after_failure = (accounts None, new_process\<lparr>ap_source_error := None, ap_synced := Some ([], [], [(bob_file, 7, 9)]),
      ap_sources := Some (([], [], [(bob_file, 7, 9)]), [(k_bob, KIND_OPERATOR, SOURCE_OPERATOR_KEY)], seconds 5)\<rparr>)"
    by (simp add: after_failure_def sync_local_credentials_def local_key_sources_def SOURCE_CACHE_TTL_SECONDS_def seconds_def
        new_process_def KIND_ADMIN_def KIND_OPERATOR_def operator_id_for_fingerprint_def operator_by_print_def adopt_if_needed_def)
  show "fst (sync_local_credentials (calm_env 60 with_bob) after_failure) = Inr 0"
    by (simp add: a sync_local_credentials_def local_key_sources_def seconds_def Let_def)
  show "fst (resolve_secret (calm_env 60 with_bob) (Some k_bob) after_failure) = Inr None"
    by (simp add: a resolve_secret_def negative_cached_def lookup_secret_def sync_local_credentials_def local_key_sources_def
        seconds_def Let_def)
qed

text \<open>
  A key file whose text is not UTF-8 raises out of the resolution of every secret that is not in the
  store, instead of being recorded for \<open>diagnose\<close>.
\<close>

lemma undecodable_file_raises:
  "resolve_secret (calm_env 0 (host [] [bob_file] TextUndecodable)) (Some k_guess) (accounts None, new_process) =
     (Inl UndecodableKeyFile, accounts None, new_process)"
  by (simp add: resolve_secret_def negative_cached_def lookup_secret_def sync_local_credentials_def local_key_sources_def)

text \<open>
  An operator whose key is also the admin key: the fingerprint then names two operators, and every
  secret that is not in the store raises.
\<close>

lemma shared_fingerprint_raises:
  "fst (resolve_secret (calm_env 0 (host k_bob [bob_file] (FileText k_bob))) (Some k_guess) (accounts (Some k_bob), new_process)) =
     Inl AmbiguousOperator"
proof -
  have n: "next_row_id [1] = 2" by (simp add: next_row_id_def)
  have a: "admin_operator_id (calm_env 0 (host k_bob ns a)) pt (accounts (Some k_bob)) =
      (Some 2, (set_operators [bob, \<lparr>op_id = 2, op_slug = ADMIN_SLUG\<rparr>] (accounts (Some k_bob)))
         \<lparr>display_names := (\<lambda>_. None)(2 := Some (lit ''admin'')),
          mailboxes := [\<lparr>mb_address = operator_address ADMIN_SLUG, mb_kind = ''operator'', mb_owner_operator_id = Some 2,
                         mb_operator_slot = Some 1, mb_status = ''active''\<rparr>]\<rparr>)" for ns a pt
    by (simp add: admin_operator_id_def ensure_admin_operator_def insert_operator_def with_mailbox_def
        ensure_operator_mailbox_row_def operator_record_of_def fingerprint_def ADMIN_SLUG_def accounts_def bob_def n fun_upd_idem Let_def)
  show ?thesis
    by (simp add: resolve_secret_def negative_cached_def lookup_secret_def sync_local_credentials_def local_key_sources_def
        source_fingerprint_def operator_key_files_def a adopt_if_needed_def register_credential_def register_in_def Let_def
        by_hash_def operator_id_for_fingerprint_def operator_by_print_def VALID_KINDS_def KIND_ADMIN_def KIND_OPERATOR_def
        ADMIN_SLUG_def)
qed

text \<open>
  A secret that one process has just refused and another then registers stays refused by the first
  for the rest of the ten seconds, although the store accepts it.
\<close>

definition refused_then_registered :: auth_world where
  "refused_then_registered = auth_history (\<lambda>x. x)
     [(0, Resolve (calm_env 0 (host [] [] TextGone)) (Some k_bob)),
      (1, Register (seconds 1) ''c1'' k_bob (local_binding KIND_OPERATOR SOURCE_MANUAL None))]
     (accounts None, \<lambda>_. new_process)"

lemma miss_outlives_registration:
  "lookup_secret (seconds 2) (fst refused_then_registered) k_bob \<noteq> None"
  "fst (resolve_secret (calm_env 2 (host [] [] TextGone)) (Some k_bob)
     (fst refused_then_registered, snd refused_then_registered 0)) = Inr None"
proof -
  define b where "b = local_binding KIND_OPERATOR SOURCE_MANUAL None"
  have r: "resolve_secret (calm_env 0 (host [] [] TextGone)) (Some k_bob) (accounts None, new_process) =
      (Inr None, accounts None, remember_miss 0 k_bob (new_process\<lparr>ap_source_error := None, ap_synced := Some ([], [], []),
         ap_sources := Some (([], [], []), [], seconds 5)\<rparr>))"
    by (simp add: resolve_secret_def negative_cached_def lookup_secret_def sync_local_credentials_def local_key_sources_def
        SOURCE_CACHE_TTL_SECONDS_def seconds_def new_process_def)
  have w: "fst refused_then_registered = snd (register_in (seconds 1) ''c1'' k_bob b (accounts None))"
    "map_of (ap_misses (snd refused_then_registered 0)) k_bob = Some (seconds 10)"
    by (simp_all add: refused_then_registered_def auth_history_def auth_at_def r register_credential_state Let_def b_def
        case_prod_beta VALID_KINDS_def remember_miss_def forget_miss_def NEGATIVE_CACHE_TTL_SECONDS_def
        NEGATIVE_CACHE_MAX_ENTRIES_def)
  show "lookup_secret (seconds 2) (fst refused_then_registered) k_bob \<noteq> None"
    by (simp add: w lookup_secret_def by_hash_register register_in_row new_credential_def credential_is_active_def b_def)
  show "fst (resolve_secret (calm_env 2 (host [] [] TextGone)) (Some k_bob)
     (fst refused_then_registered, snd refused_then_registered 0)) = Inr None"
    using w(2) by (simp add: resolve_secret_def negative_cached_def)
qed

text \<open>
  A key file is unlinked before its credential is revoked. When the store refuses the revocation the
  caller is told, but the secret is gone with the file: a second attempt finds no file, answers that
  nothing was removed, and leaves the credential as it is.
\<close>

lemma removal_not_repeatable:
  "strip s \<noteq> [] \<Longrightarrow> en_fails env AtSupersede \<Longrightarrow> remove_operator_key env (FileText s) True slug (db, p) =
     (Inl OperatorStoreError, [RemoveFile (key_file_name (strip slug))], en_others env AtSupersede db, p)"
  "moves_by keeps_rows env' \<Longrightarrow>
     fst (remove_operator_key env' TextGone b slug (db, p)) = Inr False \<and>
     keeps_rows db (fst (snd (snd (remove_operator_key env' TextGone b slug (db, p)))))"
  using kept.sync_keeps[of env' "(db, invalidate_source_cache p)"]
  by (simp_all add: remove_operator_key_def Let_def invalidate_credential_sources_def del: strip_eq_Nil)

end
