(* ===== verification/AccessSample.thy ===== *)
theory AccessSample imports AccessProperties CredentialSample begin

text \<open>
  The properties of \<open>AccessProperties\<close> at concrete inputs: a server with the admin's key, a request that
  presents it, and the console cookie signed with it.
\<close>

section \<open>A server\<close>

definition boss :: operator_row where "boss = \<lparr>op_id = 2, op_slug = ADMIN_SLUG\<rparr>"

definition boss_key :: credential_row where
  "boss_key = new_credential 0 ''c9'' k_admin (local_binding KIND_ADMIN SOURCE_ADMIN_KEY (Some 2)) 1"

definition office :: server where
  "office = \<lparr>sv_db = (set_operators [bob, boss] (accounts None))\<lparr>credentials := [boss_key]\<rparr>, sv_process = new_process,
     sv_rates = \<lambda>_. [], sv_current = Slot None\<rparr>"

definition office_settings :: auth_settings where
  "office_settings = \<lparr>as_allow_unauthenticated = False, as_rate_limit = 0\<rparr>"

definition with_key :: "pystr \<Rightarrow> http_request" where
  "with_key k = \<lparr>rq_authorization = None, rq_x_api_key = Some k, rq_query_key = None, rq_cookie = None\<rparr>"

definition with_cookie :: "pystr \<Rightarrow> http_request" where
  "with_cookie c = \<lparr>rq_authorization = None, rq_x_api_key = None, rq_query_key = None, rq_cookie = Some c\<rparr>"

definition office_mac :: "pystr \<Rightarrow> pystr \<Rightarrow> nat list" where
  "office_mac key msg = [length key, 200]"

abbreviation office_env :: auth_env where
  "office_env \<equiv> calm_env 9 (host k_admin [] TextGone)"

definition office_cookie :: pystr where
  "office_cookie = mint_browser_token (\<lambda>x. x) office_mac k_admin 5"

lemma office_simps [simp]:
  "sv_process office = new_process" "sv_rates office x = []" "sv_current office = Slot None"
  "by_hash (sv_db office) k_admin = Some boss_key" "operators (abase (sv_db office)) = [bob, boss]"
  "op_id boss = 2" "op_slug boss = ADMIN_SLUG" "xc_kind boss_key = KIND_ADMIN" "xc_operator_id boss_key = Some 2"
  "xc_revoked_at boss_key = None" "xc_expires_at boss_key = None" "\<not> as_allow_unauthenticated office_settings"
  "as_rate_limit office_settings = 0" "KIND_ADMIN \<noteq> KIND_RUNTIME" "sv_current (office\<lparr>sv_db := d, sv_process := q, sv_rates := r\<rparr>) = Slot None"
  by (simp_all add: office_def by_hash_def boss_key_def new_credential_def local_binding_def boss_def office_settings_def
      KIND_ADMIN_def KIND_RUNTIME_def)

definition boss_principal :: principal where
  "boss_principal = principal_from_credential (sv_db office) (as_record (sv_db office) boss_key)"

lemma office_slot [simp]: "office\<lparr>sv_current := Slot None\<rparr> = office"
  by (simp add: office_def)

lemma boss_resolves:
  "resolve_secret office_env (Some k_admin) (sv_db office, p) = (Inr (Some (as_record (sv_db office) boss_key)), sv_db office, p)"
  if "ap_misses p = []"
  using that by (simp add: resolve_secret_def negative_cached_def lookup_secret_def credential_is_active_def Let_def)

lemma boss_is_admin [simp]: "is_bootstrap_admin boss_principal" "\<not> is_runtime boss_principal"
  by (simp_all add: boss_principal_def principal_from_credential_def as_record_def operator_slug_of_def ADMIN_SLUG_def
      is_runtime_def Let_def)

lemma office_by_key:
  "resolve_request_principal office_env office_mac office_settings cookies (with_key k_admin) office =
     (Inr (with_channel boss_principal CHANNEL_API),
      office\<lparr>sv_current := Slot (Some (with_channel boss_principal CHANNEL_API))\<rparr>)"
  by (simp add: resolve_request_principal_def with_key_def extract_bearer_def slug_given_def present_secret_def
      principal_for_secret_def boss_resolves check_rate_limit_def publish_principal_def set_current_principal_def boss_principal_def)

lemma office_cookie_key:
  "resolve_browser_token (\<lambda>x. x) office_mac (seconds 9) office_cookie [k_admin] = Inr (Some k_admin)"
  by (simp add: office_cookie_def mint_browser_token_def resolve_browser_token_def fingerprint_def k_admin_def
      str_of_int_def digits_of.simps[of 5] office_mac_def b64_char_def py_int_def strip_def is_space_def parse_nat_def is_digit_def FLOAT_OVERFLOW_def
      BROWSER_COOKIE_TTL_SECONDS_def compare_digest_def cookie_message_def seconds_def)

section \<open>Witnesses\<close>

lemma hex_sample: "hex_digest (\<lambda>_. [97])" "byte_mac (\<lambda>k m. [7, 200])"
  by (simp_all add: hex_digest_def byte_mac_def is_digit_def)

theorem cookie_roundtrip_witness:
  "resolve_browser_token (\<lambda>_. [97]) (\<lambda>k m. [7, 200]) (seconds 9) (mint_browser_token (\<lambda>_. [97]) (\<lambda>k m. [7, 200]) k_admin 5) [k_admin] =
     Inr (Some k_admin)"
  using cookie_roundtrip[OF hex_sample, of 5 "[k_admin]" k_admin "seconds 9"]
  by (simp add: FLOAT_OVERFLOW_def str_of_int_def digits_of.simps[of 5] BROWSER_COOKIE_TTL_SECONDS_def seconds_def)

theorem cookie_sound_witness:
  "k_admin \<in> set [k_admin] \<and> (\<exists>ts_text ts. py_int ts_text = Some ts \<and> 0 < ts \<and>
     seconds 9 \<le> seconds ts + seconds BROWSER_COOKIE_TTL_SECONDS \<and>
     office_cookie = join_with 46 [lit ''v1'', fingerprint (\<lambda>x. x) k_admin, ts_text,
       b64u (office_mac k_admin (cookie_message (fingerprint (\<lambda>x. x) k_admin) ts))])"
  by (rule cookie_sound[OF office_cookie_key])

theorem request_channel_witness:
  "\<exists>secret. authenticated_by office_env office secret (with_channel boss_principal CHANNEL_API) \<and> secret = k_admin"
  using request_channel[OF office_by_key[of False]] by (auto simp: with_key_def extract_bearer_def slug_given_def)

theorem gates_admit_witness:
  "\<exists>secret p0 c db p1. resolve_secret office_env (Some secret) (sv_db office, p0) = (Inr (Some c), db, p1) \<and>
     xc_kind (fst c) \<noteq> KIND_RUNTIME \<and> acting_slug db c = Some ADMIN_SLUG"
  using gates_admit[of office_settings office_env office_mac "with_key k_admin" office "with_channel boss_principal CHANNEL_API"
      "office\<lparr>sv_current := Slot (Some (with_channel boss_principal CHANNEL_API))\<rparr>"]
  by (simp add: admin_gate_def then_require_Inr require_checks office_by_key)

theorem request_context_witness:
  "resolve_local_principal office_env None (Some [98]) (Some k_admin) (Slot None) (sv_db office, new_process) =
     (Inr anonymous_principal, sv_db office, new_process) \<and>
   resolve_local_principal office_env None (Some [98]) (Some k_admin)
     (Slot (Some (with_channel boss_principal CHANNEL_API))) (sv_db office, new_process) =
     (Inr (with_channel boss_principal CHANNEL_API), sv_db office, new_process)"
  using request_context[of "(sv_db office, new_process)" None office_env "Some [98]" "Some k_admin" CAP_ORG_READ "Some 1" "''''"
      office_mac office_settings False "with_key k_admin" office "with_channel boss_principal CHANNEL_API"
      "office\<lparr>sv_current := Slot (Some (with_channel boss_principal CHANNEL_API))\<rparr>" "\<lambda>sv. ((), sv)"]
  by (simp add: principal_for_operator_slug_def office_by_key)

section \<open>Attribution can raise\<close>

text \<open>Two operators with the fingerprint of the environment's key: the owner of a Session is not resolved.\<close>

lemma current_operator_raises:
  "resolve_current_operator (\<lambda>x. x) [] None NoContext None None (Some k_bob) (set_operators [bob, boss] (accounts (Some k_bob))) =
     (Inl AmbiguousFingerprint, set_operators [bob, boss] (accounts (Some k_bob)))"
  by (simp add: resolve_current_operator_def slug_given_def get_current_principal_def resolve_operator_for_key_def
      operator_by_print_def fingerprint_def)

end
